(* ===== verification/Prelude.thy ===== *)
theory Prelude
  imports Main "HOL-Library.Char_ord" "HOL-Library.List_Lexorder" "HOL-Library.Product_Lexorder"
    "HOL-Library.Multiset" "HOL-Library.AList"
begin

text \<open>
  What every theory of the development shares: the reading of the JavaScript values and
  containers the code uses (\<open>bigint\<close> as \<open>int\<close>, strings as lists of characters ordered by
  character code, \<open>Set\<close> and \<open>Map\<close> with their insertion order, decimal strings), and the
  generic lemmas about them.
\<close>

section \<open>Results of fallible code\<close>

text \<open>
  \<open>Parsed<T>\<close> of packages/domain/src/brand.ts and every other ok/error union of the code is a
  sum: \<open>Inl\<close> is the error, \<open>Inr\<close> the value.
\<close>

fun is_ok :: "'e + 'a \<Rightarrow> bool" where
  "is_ok (Inl _) = False"
| "is_ok (Inr _) = True"

lemma is_ok_iff: "is_ok r \<longleftrightarrow> (\<exists>v. r = Inr v)"
  by (cases r) auto

section \<open>JavaScript sets: insertion order, first occurrence wins\<close>

text \<open>\<open>[...new Set(xs)]\<close> keeps the first occurrence of each element, in order.\<close>

fun uniq :: "'a list \<Rightarrow> 'a list" where
  "uniq [] = []"
| "uniq (x # xs) = x # filter (\<lambda>y. y \<noteq> x) (uniq xs)"

lemma set_uniq [simp]: "set (uniq xs) = set xs"
  by (induction xs) auto

lemma distinct_uniq [simp]: "distinct (uniq xs)"
  by (induction xs) auto

lemma uniq_eq_Nil [simp]: "uniq xs = [] \<longleftrightarrow> xs = []"
  by (cases xs) auto

lemma uniq_distinct [simp]: "distinct xs \<Longrightarrow> uniq xs = xs"
proof (induction xs)
  case (Cons x xs)
  have "filter (\<lambda>y. y \<noteq> x) xs = xs"
    by (rule filter_True) (use Cons.prems in auto)
  with Cons show ?case by simp
qed simp

lemma length_uniq: "length (uniq xs) = card (set xs)"
  using distinct_card [of "uniq xs"] by simp

lemma sort_uniq: "sort (uniq xs) = sorted_list_of_set (set xs)" for xs :: "'a::linorder list"
  by (rule sorted_distinct_set_unique) auto

section \<open>Sorting by a key\<close>

text \<open>
  \<open>Array.prototype.sort\<close> is stable, and every comparator of the modelled code compares keys,
  so a sort is \<open>sort_key\<close>. A list whose elements are determined by their keys sorts to the same
  list from any order of arrival.
\<close>

lemma sort_key_permutation:
  fixes f :: "'a \<Rightarrow> 'k::linorder"
  assumes "mset xs = mset ys" and "inj_on f (set xs)"
  shows "sort_key f xs = sort_key f ys"
  using assms by (metis mset_eq_setD properties_for_sort_key sort_key_inj_key_eq sorted_sort_key mset_sort)

lemma sort_key_eq_Nil [simp]: "sort_key f xs = [] \<longleftrightarrow> xs = []"
  by (metis length_0_conv length_sort)

lemma sort_mset_eq: "mset xs = mset ys \<Longrightarrow> sort xs = sort ys" for xs :: "'a::linorder list"
  by (simp add: properties_for_sort)

section \<open>JavaScript maps: association lists in insertion order\<close>

text \<open>
  \<open>Map.set\<close> is \<open>AList.update\<close> (an existing key keeps its place), \<open>Map.get\<close> is \<open>map_of\<close>,
  \<open>Map.has\<close> is membership of the key.
\<close>

definition has_key :: "('k \<times> 'v) list \<Rightarrow> 'k \<Rightarrow> bool" where
  "has_key m k \<longleftrightarrow> k \<in> fst ` set m"

lemma has_key_map_of: "has_key m k \<longleftrightarrow> map_of m k \<noteq> None"
  by (simp add: has_key_def map_of_eq_None_iff)

lemma has_key_Nil [simp]: "\<not> has_key [] k"
  by (simp add: has_key_def)

lemma has_key_Cons [simp]: "has_key (p # m) k \<longleftrightarrow> fst p = k \<or> has_key m k"
  by (auto simp: has_key_def)

lemma has_key_append [simp]: "has_key (m @ n) k \<longleftrightarrow> has_key m k \<or> has_key n k"
  by (auto simp: has_key_def)

section \<open>Decimal strings\<close>

definition digit_char :: "nat \<Rightarrow> char" where
  "digit_char d = char_of (48 + d)"

definition char_digit :: "char \<Rightarrow> nat" where
  "char_digit c = of_char c - 48"

definition is_digit :: "char \<Rightarrow> bool" where
  "is_digit c \<longleftrightarrow> 48 \<le> (of_char c :: nat) \<and> (of_char c :: nat) \<le> 57"

text \<open>\<open>BigInt.prototype.toString(10)\<close> and \<open>String(n)\<close> on integers.\<close>

fun show_nat :: "nat \<Rightarrow> string" where
  "show_nat n = (if n < 10 then [digit_char n] else show_nat (n div 10) @ [digit_char (n mod 10)])"

declare show_nat.simps [simp del]

definition show_int :: "int \<Rightarrow> string" where
  "show_int i = (if i < 0 then CHR ''-'' # show_nat (nat (- i)) else show_nat (nat i))"

text \<open>\<open>BigInt(s)\<close> on a string of digits.\<close>

definition read_nat :: "string \<Rightarrow> nat" where
  "read_nat s = foldl (\<lambda>acc c. acc * 10 + char_digit c) 0 s"

text \<open>The regular expression \<open>/^(0|[1-9][0-9]*)$/\<close>.\<close>

definition canonical_decimal :: "string \<Rightarrow> bool" where
  "canonical_decimal s \<longleftrightarrow>
     s \<noteq> [] \<and> (s = [CHR ''0''] \<or> hd s \<noteq> CHR ''0'') \<and> list_all is_digit s"

lemma of_char_digit_char: "d < 10 \<Longrightarrow> (of_char (digit_char d) :: nat) = 48 + d"
  by (simp add: digit_char_def)

lemma is_digit_digit_char [simp]: "d < 10 \<Longrightarrow> is_digit (digit_char d)"
  by (simp add: is_digit_def of_char_digit_char)

lemma char_digit_digit_char [simp]: "d < 10 \<Longrightarrow> char_digit (digit_char d) = d"
  by (simp add: char_digit_def of_char_digit_char)

lemma digit_char_0 [simp]: "digit_char 0 = CHR ''0''"
  by code_simp

lemma digit_char_eq_0: "d < 10 \<Longrightarrow> digit_char d = CHR ''0'' \<longleftrightarrow> d = 0"
  by (metis char_digit_digit_char digit_char_0 zero_less_numeral)

lemma char_digit_0 [simp]: "char_digit (CHR ''0'') = 0"
  by (simp add: char_digit_def)

lemma is_digit_0 [simp]: "is_digit (CHR ''0'')"
  by (simp add: is_digit_def)

lemma is_digit_not_dot: "is_digit c \<Longrightarrow> c \<noteq> CHR ''.''"
  by (auto simp: is_digit_def)

lemma read_nat_foldl:
  "foldl (\<lambda>acc c. acc * 10 + char_digit c) a t
     = a * 10 ^ length t + foldl (\<lambda>acc c. acc * 10 + char_digit c) 0 t"
proof (induction t arbitrary: a)
  case (Cons c t)
  show ?case
    using Cons.IH [of "a * 10 + char_digit c"] Cons.IH [of "char_digit c"]
    by (simp add: add_mult_distrib)
qed simp

lemma read_nat_append: "read_nat (s @ t) = read_nat s * 10 ^ length t + read_nat t"
  unfolding read_nat_def foldl_append by (rule read_nat_foldl)

lemma read_nat_Nil [simp]: "read_nat [] = 0"
  by (simp add: read_nat_def)

lemma read_nat_replicate_0 [simp]: "read_nat (replicate n (CHR ''0'')) = 0"
  by (induction n) (simp_all add: read_nat_def)

lemma show_nat_digits: "list_all is_digit (show_nat n)"
proof (induction n rule: show_nat.induct)
  case (1 n)
  then show ?case by (subst show_nat.simps) auto
qed

lemma show_nat_nonempty [simp]: "show_nat n \<noteq> []"
  by (subst show_nat.simps) simp

lemma show_nat_hd: "hd (show_nat n) = CHR ''0'' \<longleftrightarrow> n = 0"
proof (induction n rule: show_nat.induct)
  case (1 n)
  show ?case
  proof (cases "n < 10")
    case True
    then show ?thesis by (subst show_nat.simps) (simp add: digit_char_eq_0)
  next
    case False
    then have "n div 10 \<noteq> 0" by simp
    with "1" False show ?thesis by (subst show_nat.simps) (simp add: hd_append)
  qed
qed

lemma show_nat_0 [simp]: "show_nat 0 = [CHR ''0'']"
  by (subst show_nat.simps) simp

lemma canonical_decimal_show_nat [simp]: "canonical_decimal (show_nat n)"
  by (cases "n = 0") (auto simp: canonical_decimal_def show_nat_hd show_nat_digits)

lemma read_show_nat [simp]: "read_nat (show_nat n) = n"
proof (induction n rule: show_nat.induct)
  case (1 n)
  show ?case
  proof (cases "n < 10")
    case True
    then show ?thesis by (subst show_nat.simps) (simp add: read_nat_def)
  next
    case False
    with "1" show ?thesis
      by (subst show_nat.simps) (simp add: read_nat_append, simp add: read_nat_def)
  qed
qed

lemma show_nat_inject [simp]: "show_nat m = show_nat n \<longleftrightarrow> m = n"
  by (metis read_show_nat)

lemma show_nat_no_minus: "hd (show_nat n) \<noteq> CHR ''-''"
proof -
  have "is_digit (hd (show_nat n))"
    using show_nat_digits [of n] by (cases "show_nat n") auto
  then show ?thesis by (auto simp: is_digit_def)
qed

lemma show_int_inject [simp]: "show_int i = show_int j \<longleftrightarrow> i = j"
proof
  assume eq: "show_int i = show_int j"
  show "i = j"
  proof (cases "i < 0"; cases "j < 0")
    assume "i < 0" "\<not> j < 0"
    with eq show ?thesis using show_nat_no_minus [of "nat j"]
      by (metis list.sel(1) show_int_def)
  next
    assume "\<not> i < 0" "j < 0"
    with eq show ?thesis using show_nat_no_minus [of "nat i"]
      by (metis list.sel(1) show_int_def)
  qed (use eq in \<open>auto simp: show_int_def\<close>)
qed simp

lemma show_int_chars: "c \<in> set (show_int i) \<Longrightarrow> is_digit c \<or> c = CHR ''-''"
  using show_nat_digits by (auto simp: show_int_def list_all_iff split: if_splits)

text \<open>\<open>String.prototype.join\<close>.\<close>

fun join :: "string \<Rightarrow> string list \<Rightarrow> string" where
  "join sep [] = []"
| "join sep [s] = s"
| "join sep (s # t # ts) = s @ sep @ join sep (t # ts)"

text \<open>
  Joining with a one-character separator is injective on lists of the same length whose
  components do not hold the separator.
\<close>

lemma append_sep_inject:
  "c \<notin> set s \<Longrightarrow> c \<notin> set s' \<Longrightarrow> s @ c # t = s' @ c # t' \<Longrightarrow> s = s' \<and> t = t'"
  by (induction s arbitrary: s') (auto simp: Cons_eq_append_conv append_eq_Cons_conv)

lemma join_inject:
  assumes "length xs = length ys"
    and "\<forall>s \<in> set xs. c \<notin> set s" and "\<forall>s \<in> set ys. c \<notin> set s"
    and "join [c] xs = join [c] ys"
  shows "xs = ys"
  using assms
proof (induction xs ys rule: list_induct2)
  case (Cons x xs y ys)
  then show ?case
  proof (cases xs)
    case Nil
    with Cons show ?thesis by simp
  next
    case (Cons x' xs')
    with \<open>length xs = length ys\<close> obtain y' ys' where ys: "ys = y' # ys'"
      by (cases ys) auto
    from Cons.prems Cons ys have "x @ c # join [c] xs = y @ c # join [c] ys" by simp
    with Cons.prems have "x = y \<and> join [c] xs = join [c] ys"
      by (intro append_sep_inject) auto
    with Cons.IH Cons.prems show ?thesis by simp
  qed
qed simp

section \<open>Sums of lists\<close>

lemma sum_list_map_mono_int:
  "(\<And>x. x \<in> set xs \<Longrightarrow> f x \<le> (g x :: int)) \<Longrightarrow> sum_list (map f xs) \<le> sum_list (map g xs)"
  by (induction xs) (auto intro: add_mono)

lemma sum_list_map_nonneg_int:
  "(\<And>x. x \<in> set xs \<Longrightarrow> 0 \<le> (f x :: int)) \<Longrightarrow> 0 \<le> sum_list (map f xs)"
  by (induction xs) auto

lemma sum_list_map_minus_int:
  "sum_list (map (\<lambda>x. f x - g x :: int) xs) = sum_list (map f xs) - sum_list (map g xs)"
  by (induction xs) auto

lemma member_le_sum_list_int:
  "x \<in> set xs \<Longrightarrow> (\<And>y. y \<in> set xs \<Longrightarrow> 0 \<le> (y :: int)) \<Longrightarrow> x \<le> sum_list xs"
proof (induction xs)
  case (Cons y ys)
  have "0 \<le> y" "0 \<le> sum_list ys" using Cons.prems(2) by (auto intro: sum_list_nonneg)
  moreover have "x = y \<or> x \<le> sum_list ys" using Cons by auto
  ultimately show ?case by auto
qed simp

section \<open>Folds that may fail\<close>

text \<open>\<open>xs.reduce(f, a)\<close> where \<open>f\<close> may throw: the first error ends the fold.\<close>

fun fold_result :: "('s \<Rightarrow> 'i \<Rightarrow> 'e + 's) \<Rightarrow> 's \<Rightarrow> 'i list \<Rightarrow> 'e + 's" where
  "fold_result f s [] = Inr s"
| "fold_result f s (x # xs) = (case f s x of Inl e \<Rightarrow> Inl e | Inr s' \<Rightarrow> fold_result f s' xs)"

lemma fold_result_append:
  "fold_result f s (xs @ ys) =
     (case fold_result f s xs of Inl e \<Rightarrow> Inl e | Inr s' \<Rightarrow> fold_result f s' ys)"
  by (induction xs arbitrary: s) (auto split: sum.splits)

lemma fold_result_Cons_Inr:
  "fold_result f s (x # xs) = Inr s' \<longleftrightarrow>
     (\<exists>s1. f s x = Inr s1 \<and> fold_result f s1 xs = Inr s')"
  by (auto split: sum.splits)

lemma fold_result_invariant:
  assumes "fold_result f s xs = Inr s'" and "P s"
    and "\<And>s x s'. P s \<Longrightarrow> x \<in> set xs \<Longrightarrow> f s x = Inr s' \<Longrightarrow> P s'"
  shows "P s'"
  using assms
proof (induction xs arbitrary: s)
  case (Cons x xs)
  from Cons.prems(1) obtain s1 where s1: "f s x = Inr s1" "fold_result f s1 xs = Inr s'"
    unfolding fold_result_Cons_Inr by blast
  have "P s1" by (rule Cons.prems(3) [OF Cons.prems(2) _ s1(1)]) simp
  from s1(2) this show ?case by (rule Cons.IH) (rule Cons.prems(3), auto)
qed simp

lemma fold_result_total:
  assumes "P s" and "\<And>s x. P s \<Longrightarrow> x \<in> set xs \<Longrightarrow> \<exists>s'. f s x = Inr s' \<and> P s'"
  shows "\<exists>s'. fold_result f s xs = Inr s' \<and> P s'"
  using assms
proof (induction xs arbitrary: s)
  case (Cons x xs)
  have "\<exists>s1. f s x = Inr s1 \<and> P s1" by (rule Cons.prems(2) [OF Cons.prems(1)]) simp
  then obtain s1 where s1: "f s x = Inr s1" "P s1" by blast
  have "\<exists>s'. fold_result f s1 xs = Inr s' \<and> P s'"
    by (rule Cons.IH [OF s1(2)]) (rule Cons.prems(2), auto)
  with s1 show ?case by simp
qed simp

section \<open>Building a map from entries\<close>

definition map_of_entries :: "('k \<times> 'v) list \<Rightarrow> ('k \<times> 'v) list" where
  "map_of_entries es = foldl (\<lambda>m (k, v). AList.update k v m) [] es"

lemma update_new: "\<not> has_key m k \<Longrightarrow> AList.update k v m = m @ [(k, v)]"
  by (induction m) auto

lemma map_of_entries_distinct:
  assumes "distinct (map fst es)"
  shows "map_of_entries es = es"
proof -
  have "distinct (map fst (m @ es)) \<Longrightarrow>
      foldl (\<lambda>m (k, v). AList.update k v m) m es = m @ es" for m
  proof (induction es arbitrary: m)
    case (Cons e es)
    obtain k v where e: "e = (k, v)" by (cases e)
    with Cons.prems have "\<not> has_key m k" by (auto simp: has_key_def)
    then show ?case using Cons.IH [of "m @ [(k, v)]"] Cons.prems e by (simp add: update_new)
  qed simp
  with assms show ?thesis unfolding map_of_entries_def by simp
qed

section \<open>Grouping by a key\<close>

text \<open>
  The loop that files each element under its key in a \<open>Map\<close> of lists:
  \<^verbatim>\<open>const l = m.get(k); if (l) l.push(v); else m.set(k, [v])\<close>.
\<close>

definition group_push :: "('a \<Rightarrow> 'k) \<Rightarrow> ('a \<Rightarrow> 'v) \<Rightarrow> ('k \<times> 'v list) list \<Rightarrow> 'a \<Rightarrow> ('k \<times> 'v list) list" where
  "group_push f g m x =
     AList.update (f x) ((case map_of m (f x) of Some l \<Rightarrow> l | None \<Rightarrow> []) @ [g x]) m"

definition group_by :: "('a \<Rightarrow> 'k) \<Rightarrow> ('a \<Rightarrow> 'v) \<Rightarrow> 'a list \<Rightarrow> ('k \<times> 'v list) list" where
  "group_by f g xs = foldl (group_push f g) [] xs"

lemma uniq_snoc: "uniq (xs @ [x]) = uniq xs @ (if x \<in> set xs then [] else [x])"
  by (induction xs) auto

lemma map_of_tabulate: "map_of (map (\<lambda>k. (k, h k)) ks) k = (if k \<in> set ks then Some (h k) else None)"
  by (induction ks) auto

lemma update_tabulate:
  "distinct ks \<Longrightarrow> AList.update k v (map (\<lambda>j. (j, h j)) ks) =
     (if k \<in> set ks then map (\<lambda>j. (j, if j = k then v else h j)) ks
      else map (\<lambda>j. (j, h j)) ks @ [(k, v)])"
  by (induction ks) auto

lemma group_by_eq:
  "group_by f g xs = map (\<lambda>k. (k, map g (filter (\<lambda>x. f x = k) xs))) (uniq (map f xs))"
proof (induction xs rule: rev_induct)
  case Nil
  show ?case by (simp add: group_by_def)
next
  case (snoc x xs)
  let ?h = "\<lambda>k. map g (filter (\<lambda>x. f x = k) xs)"
  have "group_by f g (xs @ [x]) = group_push f g (group_by f g xs) x"
    by (simp add: group_by_def)
  also have "\<dots> = AList.update (f x) (?h (f x) @ [g x]) (map (\<lambda>k. (k, ?h k)) (uniq (map f xs)))"
  proof -
    have "filter (\<lambda>y. f y = f x) xs = []" if "f x \<notin> f ` set xs"
      by (rule filter_False) (use that in \<open>auto intro: rev_image_eqI\<close>)
    then show ?thesis unfolding group_push_def snoc by (auto simp: map_of_tabulate)
  qed
  also have "\<dots> = map (\<lambda>k. (k, map g (filter (\<lambda>x. f x = k) (xs @ [x])))) (uniq (map f (xs @ [x])))"
    by (auto simp: update_tabulate uniq_snoc filter_empty_conv)
  finally show ?case .
qed

lemma set_group_by_keys: "fst ` set (group_by f g xs) = f ` set xs"
  by (auto simp: group_by_eq image_image)

lemma distinct_group_by [simp]: "distinct (map fst (group_by f g xs))"
  by (simp add: group_by_eq comp_def)

lemma length_group_by: "length (group_by f g xs) = card (f ` set xs)"
  by (simp add: group_by_eq length_uniq)

lemma mset_split_by_key:
  "distinct ks \<Longrightarrow> f ` set xs \<subseteq> set ks \<Longrightarrow> (\<Sum>k \<leftarrow> ks. mset (filter (\<lambda>x. f x = k) xs)) = mset xs"
proof (induction ks arbitrary: xs)
  case (Cons k ks)
  let ?rest = "filter (\<lambda>x. f x \<noteq> k) xs"
  have "filter (\<lambda>x. f x = j) xs = filter (\<lambda>x. f x = j) ?rest" if "j \<in> set ks" for j
    using that Cons.prems(1) by (auto intro: filter_cong)
  then have "(\<Sum>j \<leftarrow> ks. mset (filter (\<lambda>x. f x = j) xs)) = (\<Sum>j \<leftarrow> ks. mset (filter (\<lambda>x. f x = j) ?rest))"
    by (intro arg_cong [where f = sum_list] map_cong) auto
  also have "\<dots> = mset ?rest" using Cons.prems by (intro Cons.IH) auto
  finally show ?case by (simp add: mset_filter flip: multiset_partition)
qed simp

end
