(* ===== verification/Stores.thy ===== *)
theory Stores
  imports Prelude
begin

text \<open>
  The contract of a first-write-wins store, the shape every append-only collection of the code
  has: the facts of a message aggregate (Messages), the block and log tables of the ledger and
  the hint queue (Ledger). An entry is identified by a key computed from it; writing an entry
  whose key is present changes nothing; a write may be refused, and then it changes nothing.
\<close>

locale keyed_store =
  fixes ident :: "'i \<Rightarrow> 'k"
    and lookup :: "'s \<Rightarrow> 'k \<Rightarrow> 'i option"
    and put :: "'s \<Rightarrow> 'i \<Rightarrow> 'e + 's"
  assumes put_lookup: "put s x = Inr s' \<Longrightarrow>
    lookup s' k = (case lookup s k of Some y \<Rightarrow> Some y
                   | None \<Rightarrow> if k = ident x then Some x else None)"
begin

text \<open>A fold of writes holds, at each key, the first entry offered for it.\<close>

lemma puts_lookup:
  "fold_result put s xs = Inr s' \<Longrightarrow>
     lookup s' k = (case lookup s k of Some y \<Rightarrow> Some y | None \<Rightarrow> find (\<lambda>x. ident x = k) xs)"
proof (induction xs arbitrary: s)
  case (Cons x xs)
  then obtain s1 where "put s x = Inr s1" "fold_result put s1 xs = Inr s'"
    by (auto split: sum.splits)
  with Cons.IH [of s1] show ?case by (auto simp: put_lookup split: option.splits)
qed (auto split: option.splits)

lemma puts_keep:
  "fold_result put s xs = Inr s' \<Longrightarrow> lookup s k = Some x \<Longrightarrow> lookup s' k = Some x"
  by (simp add: puts_lookup)

lemma find_ident:
  assumes "inj_on ident (set xs)" and "x \<in> set xs"
  shows "find (\<lambda>y. ident y = ident x) xs = Some x"
  using assms
proof (induction xs)
  case (Cons y xs)
  then show ?case by (auto simp: inj_on_def)
qed simp

lemma find_same_set:
  assumes "set xs = set ys" and "inj_on ident (set xs)"
  shows "find (\<lambda>x. ident x = k) xs = find (\<lambda>x. ident x = k) ys"
proof (cases "\<exists>x \<in> set xs. ident x = k")
  case True
  then obtain x where x: "x \<in> set xs" "ident x = k" by blast
  from find_ident [OF assms(2) x(1)] find_ident [of ys x] assms x show ?thesis by simp
next
  case False
  then have "find (\<lambda>x. ident x = k) xs = None" "find (\<lambda>x. ident x = k) ys = None"
    using assms(1) by (auto simp: find_None_iff)
  then show ?thesis by simp
qed

text \<open>
  Order and multiplicity of arrival do not matter, as long as two entries of the same key are
  the same entry.
\<close>

lemma puts_same_set:
  assumes "fold_result put s xs = Inr s1" and "fold_result put s ys = Inr s2"
    and "set xs = set ys" and "inj_on ident (set xs)"
  shows "lookup s1 k = lookup s2 k"
  unfolding puts_lookup [OF assms(1)] puts_lookup [OF assms(2)]
  by (simp only: find_same_set [OF assms(3,4)])

text \<open>Writing again what is there changes nothing.\<close>

lemma puts_replay:
  assumes "fold_result put s xs = Inr s1" and "fold_result put s1 ys = Inr s2"
    and "set ys \<subseteq> set xs"
  shows "lookup s2 k = lookup s1 k"
proof (cases "lookup s1 k")
  case None
  then have "find (\<lambda>x. ident x = k) xs = None"
    using puts_lookup [OF assms(1), of k] by (simp split: option.splits)
  then have "find (\<lambda>x. ident x = k) ys = None"
    using assms(3) by (auto simp: find_None_iff)
  with None show ?thesis by (simp add: puts_lookup [OF assms(2)])
next
  case (Some x)
  with assms(2) show ?thesis by (simp add: puts_keep)
qed

end

text \<open>
  A store whose writes are also checked: an entry that is written is in order, and writing an
  entry in order whose key is present leaves the whole state as it is, not only its lookups.
\<close>

locale checked_store = keyed_store ident lookup put
  for ident :: "'i \<Rightarrow> 'k" and lookup :: "'s \<Rightarrow> 'k \<Rightarrow> 'i option" and put :: "'s \<Rightarrow> 'i \<Rightarrow> 'e + 's" +
  fixes in_order :: "'i \<Rightarrow> bool"
  assumes put_in_order: "put s x = Inr s' \<Longrightarrow> in_order x"
    and put_present: "in_order x \<Longrightarrow> lookup s (ident x) \<noteq> None \<Longrightarrow> put s x = Inr s"
begin

lemma puts_in_order: "fold_result put s xs = Inr s' \<Longrightarrow> x \<in> set xs \<Longrightarrow> in_order x"
  by (induction xs arbitrary: s) (auto split: sum.splits dest: put_in_order)

lemma puts_stored: "fold_result put s xs = Inr s' \<Longrightarrow> x \<in> set xs \<Longrightarrow> lookup s' (ident x) \<noteq> None"
proof -
  assume run: "fold_result put s xs = Inr s'" and x: "x \<in> set xs"
  then have "find (\<lambda>y. ident y = ident x) xs \<noteq> None" by (auto simp: find_None_iff)
  with run show ?thesis by (simp add: puts_lookup split: option.splits)
qed

lemma puts_present:
  "(\<And>x. x \<in> set xs \<Longrightarrow> in_order x \<and> lookup s (ident x) \<noteq> None) \<Longrightarrow> fold_result put s xs = Inr s"
  by (induction xs) (simp_all add: put_present)

text \<open>A batch that was written can be written again into any state that kept its keys.\<close>

lemma puts_again:
  assumes "fold_result put s xs = Inr s1" and "\<And>k. lookup s1 k \<noteq> None \<Longrightarrow> lookup s2 k \<noteq> None"
  shows "fold_result put s2 xs = Inr s2"
  using assms puts_in_order puts_stored by (intro puts_present) blast

end

end
