(* ===== verification/Json.thy ===== *)
theory Json
  imports Prelude
begin

text \<open>
  What the code uses of \<open>JSON.stringify\<close>: values without \<open>undefined\<close>, strings escaped, no
  whitespace, keys in the order given. The printed text of two values is equal only for equal
  values, which is what makes a digest of it a digest of the value.
\<close>

datatype json =
  JNull | JBool bool | JNum int | JStr string | JArr "json list" | JObj "(string \<times> json) list"

section \<open>Printing\<close>

definition hex_digit :: "nat \<Rightarrow> char" where
  "hex_digit d = (if d < 10 then char_of (48 + d) else char_of (87 + d))"

definition escape_char :: "char \<Rightarrow> string" where
  "escape_char c =
     (let n = (of_char c :: nat) in
      if n = 34 then [CHR 0x5C, CHR 0x22]
      else if n = 92 then [CHR 0x5C, CHR 0x5C]
      else if n = 8 then [CHR 0x5C, CHR ''b'']
      else if n = 9 then [CHR 0x5C, CHR ''t'']
      else if n = 10 then [CHR 0x5C, CHR ''n'']
      else if n = 12 then [CHR 0x5C, CHR ''f'']
      else if n = 13 then [CHR 0x5C, CHR ''r'']
      else if n < 32 then [CHR 0x5C, CHR ''u'', CHR ''0'', CHR ''0'', hex_digit (n div 16), hex_digit (n mod 16)]
      else [c])"

definition json_quote :: "string \<Rightarrow> string" where
  "json_quote s = CHR 0x22 # concat (map escape_char s) @ [CHR 0x22]"

function json_print :: "json \<Rightarrow> string" where
  "json_print JNull = ''null''"
| "json_print (JBool b) = (if b then ''true'' else ''false'')"
| "json_print (JNum i) = show_int i"
| "json_print (JStr s) = json_quote s"
| "json_print (JArr vs) = CHR ''['' # join '','' (map json_print vs) @ '']''"
| "json_print (JObj kvs) =
     CHR ''{'' # join '','' (map (\<lambda>kv. json_quote (fst kv) @ CHR '':'' # json_print (snd kv)) kvs) @ ''}''"
  by pat_completeness auto

termination
proof (relation "measure size")
  fix vs :: "json list" and v assume "v \<in> set vs"
  then show "(v, JArr vs) \<in> measure size" by (induction vs) auto
next
  fix kvs :: "(string \<times> json) list" and kv assume "kv \<in> set kvs"
  then show "(snd kv, JObj kvs) \<in> measure size" by (induction kvs) (auto simp: prod.size_gen_o_map split: prod.splits)
qed simp

section \<open>Strings are self-delimiting\<close>

text \<open>The character an escape stands for, and what follows it.\<close>

definition hex_value :: "char \<Rightarrow> nat" where
  "hex_value c = (let n = of_char c in if n < 58 then n - 48 else n - 87)"

definition unescape :: "string \<Rightarrow> (char \<times> string) option" where
  "unescape s =
     (case s of [] \<Rightarrow> None
      | c # s1 \<Rightarrow>
          if c = CHR 0x22 then None
          else if c \<noteq> CHR 0x5C then Some (c, s1)
          else (case s1 of [] \<Rightarrow> None
            | e # s2 \<Rightarrow>
                if e = CHR 0x22 then Some (CHR 0x22, s2)
                else if e = CHR 0x5C then Some (CHR 0x5C, s2)
                else if e = CHR ''b'' then Some (CHR 0x08, s2)
                else if e = CHR ''t'' then Some (CHR 0x09, s2)
                else if e = CHR ''n'' then Some (CHR 0x0A, s2)
                else if e = CHR ''f'' then Some (CHR 0x0C, s2)
                else if e = CHR ''r'' then Some (CHR 0x0D, s2)
                else (case s2 of _ # _ # h # l # s3 \<Rightarrow> Some (char_of (16 * hex_value h + hex_value l), s3)
                      | _ \<Rightarrow> None)))"

lemma hex_value_digit: "d < 16 \<Longrightarrow> hex_value (hex_digit d) = d"
  by (simp add: hex_value_def hex_digit_def Let_def)

lemma unescape_escape: "unescape (escape_char c @ s) = Some (c, s)"
proof -
  let ?n = "of_char c :: nat"
  have char: "c = char_of k" if "?n = k" for k using that by (metis char_of_char)
  consider "?n \<in> {34, 92, 8, 9, 10, 12, 13}" | "?n < 32" "?n \<notin> {34, 92, 8, 9, 10, 12, 13}"
    | "?n \<ge> 32" "?n \<noteq> 34" "?n \<noteq> 92" by force
  then show ?thesis
  proof cases
    case 1
    then have "c \<in> {CHR 0x22, CHR 0x5C, CHR 0x08, CHR 0x09, CHR 0x0A, CHR 0x0C, CHR 0x0D}"
      by (auto dest!: char simp: char_of_def bit_0)
    then show ?thesis
      by (elim insertE emptyE) (simp_all add: escape_char_def unescape_def Let_def)
  next
    case 2
    have "16 * hex_value (hex_digit (?n div 16)) + hex_value (hex_digit (?n mod 16)) = ?n"
      using 2(1) by (subst (1 2) hex_value_digit) auto
    with 2 show ?thesis
      by (simp add: escape_char_def unescape_def Let_def)
  next
    case 3
    then have "c \<noteq> CHR 0x22" "c \<noteq> CHR 0x5C" by auto
    with 3 show ?thesis by (simp add: escape_char_def unescape_def Let_def)
  qed
qed

lemma unescape_quote: "unescape (CHR 0x22 # s) = None"
  by (simp add: unescape_def)

lemma escaped_inject:
  "concat (map escape_char s) @ CHR 0x22 # r = concat (map escape_char t) @ CHR 0x22 # r' \<Longrightarrow>
     s = t \<and> r = r'"
proof (induction s arbitrary: t)
  case Nil
  show ?case
  proof (cases t)
    case (Cons d t')
    from Nil have "unescape (CHR 0x22 # r) = unescape (concat (map escape_char t) @ CHR 0x22 # r')"
      by simp
    then show ?thesis by (simp add: Cons unescape_quote unescape_escape)
  qed (use Nil in simp)
next
  case (Cons c s)
  show ?case
  proof (cases t)
    case Nil
    from Cons.prems have "unescape (concat (map escape_char (c # s)) @ CHR 0x22 # r) = unescape (CHR 0x22 # r')"
      by (simp only: Nil) simp
    then show ?thesis by (simp add: unescape_quote unescape_escape)
  next
    case (Cons d t')
    from Cons.prems have "unescape (concat (map escape_char (c # s)) @ CHR 0x22 # r)
        = unescape (concat (map escape_char (d # t')) @ CHR 0x22 # r')"
      by (simp only: Cons)
    then have "c = d" and rest: "concat (map escape_char s) @ CHR 0x22 # r = concat (map escape_char t') @ CHR 0x22 # r'"
      by (simp_all add: unescape_escape)
    with Cons.IH [OF rest] show ?thesis by (simp add: Cons)
  qed
qed

lemma json_quote_inject: "json_quote s @ r = json_quote t @ r' \<Longrightarrow> s = t \<and> r = r'"
  by (simp add: json_quote_def) (rule escaped_inject)

section \<open>Values are self-delimiting\<close>

text \<open>What may follow a value inside a document.\<close>

definition delimited :: "string \<Rightarrow> bool" where
  "delimited r \<longleftrightarrow> r = [] \<or> hd r \<in> {CHR '','', CHR '']'', CHR ''}''}"

lemma delimited_simps [simp]:
  "delimited []" "delimited (CHR '','' # r)" "delimited (CHR '']'' # r)" "delimited (CHR ''}'' # r)"
  by (simp_all add: delimited_def)

definition num_char :: "char \<Rightarrow> bool" where
  "num_char c \<longleftrightarrow> is_digit c \<or> c = CHR ''-''"

lemma show_int_inject_delimited:
  assumes "show_int i @ r = show_int j @ r'" and "delimited r" and "delimited r'"
  shows "i = j \<and> r = r'"
proof -
  have split: "takeWhile num_char (show_int k @ q) = show_int k" if "delimited q" for k q
  proof -
    have "\<forall>c \<in> set (show_int k). num_char c" using show_int_chars by (auto simp: num_char_def)
    moreover have "takeWhile num_char q = []"
      using that by (cases q) (auto simp: delimited_def num_char_def is_digit_def)
    ultimately show ?thesis by simp
  qed
  from split [OF assms(2), of i] split [OF assms(3), of j] assms(1) have "show_int i = show_int j" by simp
  with assms(1) show ?thesis by simp
qed

lemma show_int_Cons: "\<exists>c s. show_int i = c # s \<and> num_char c"
proof (cases "show_int i")
  case Nil
  then show ?thesis by (simp add: show_int_def split: if_splits)
next
  case (Cons c s)
  with show_int_chars [of c i] show ?thesis by (auto simp: num_char_def)
qed

text \<open>The first character tells the kind of a value.\<close>

fun head_ok :: "json \<Rightarrow> char \<Rightarrow> bool" where
  "head_ok JNull c \<longleftrightarrow> c = CHR ''n''"
| "head_ok (JBool b) c \<longleftrightarrow> c = (if b then CHR ''t'' else CHR ''f'')"
| "head_ok (JNum i) c \<longleftrightarrow> num_char c"
| "head_ok (JStr s) c \<longleftrightarrow> c = CHR 0x22"
| "head_ok (JArr vs) c \<longleftrightarrow> c = CHR ''[''"
| "head_ok (JObj kvs) c \<longleftrightarrow> c = CHR ''{''"

lemma json_print_head: "\<exists>c s. json_print v = c # s \<and> head_ok v c"
proof (cases v)
  case (JNum i)
  then show ?thesis using show_int_Cons [of i] by simp
qed (auto simp: json_quote_def)

lemma json_print_hd:
  assumes "c # s = json_print v @ r"
  shows "head_ok v c"
proof -
  obtain d t where "json_print v = d # t" "head_ok v d" using json_print_head [of v] by blast
  with assms show ?thesis by simp
qed

lemma num_char_not: "\<not> num_char (CHR ''n'')" "\<not> num_char (CHR ''t'')" "\<not> num_char (CHR ''f'')"
  "\<not> num_char (CHR 0x22)" "\<not> num_char (CHR ''['')" "\<not> num_char (CHR ''{'')" "\<not> num_char (CHR '']'')"
  "\<not> num_char (CHR ''}'')"
  by (simp_all add: num_char_def is_digit_def)

definition self_delimiting :: "('a \<Rightarrow> string) \<Rightarrow> 'a \<Rightarrow> bool" where
  "self_delimiting p v \<longleftrightarrow> (\<forall>w r r'. p v @ r = p w @ r' \<longrightarrow> delimited r \<longrightarrow> delimited r' \<longrightarrow> v = w \<and> r = r')"

text \<open>A bracketed list of self-delimiting items is read back item by item.\<close>

lemma items_inject:
  assumes "\<forall>v \<in> set vs. self_delimiting p v" and "\<And>w s. p w \<noteq> close # s" and "\<And>w. p w \<noteq> []"
    and "close = CHR '']'' \<or> close = CHR ''}''"
    and "join '','' (map p vs) @ close # r = join '','' (map p ws) @ close # r'"
  shows "vs = ws \<and> r = r'"
  using assms(1,5)
proof (induction vs arbitrary: ws)
  case Nil
  show ?case
  proof (cases ws)
    case (Cons w ws')
    obtain c s where "p w = c # s" "c \<noteq> close" using assms(2,3) by (metis neq_Nil_conv)
    with Nil Cons show ?thesis by (cases ws') auto
  qed (use Nil in simp)
next
  case (Cons v vs)
  obtain c s where v: "p v = c # s" "c \<noteq> close" using assms(2,3) by (metis neq_Nil_conv)
  obtain w ws' where ws: "ws = w # ws'"
    using Cons.prems(2) v by (cases ws; cases vs) auto
  have item: "p v @ q = p w @ q' \<Longrightarrow> delimited q \<Longrightarrow> delimited q' \<Longrightarrow> v = w \<and> q = q'" for q q'
    using Cons.prems(1) by (simp add: self_delimiting_def)
  have shape: "join '','' (map p (x # xs)) @ close # q = p x @ (if xs = [] then close # q
      else CHR '','' # join '','' (map p xs) @ close # q)" for x xs q
    by (cases xs) simp_all
  have close: "delimited (close # q)" "close \<noteq> CHR '',''" for q using assms(4) by auto
  have "v = w \<and> (if vs = [] then close # r else CHR '','' # join '','' (map p vs) @ close # r)
      = (if ws' = [] then close # r' else CHR '','' # join '','' (map p ws') @ close # r')"
    using Cons.prems(2) unfolding ws shape by (intro item) (simp_all add: close)
  then have "v = w" and rest: "(vs = [] \<and> ws' = [] \<and> r = r')
      \<or> (vs \<noteq> [] \<and> ws' \<noteq> [] \<and> join '','' (map p vs) @ close # r = join '','' (map p ws') @ close # r')"
    using close(2) by (auto split: if_splits)
  with Cons.IH [of ws'] Cons.prems(1) ws show ?case by auto
qed

text \<open>The members of an object, as the printer writes them.\<close>

abbreviation member_print :: "string \<times> json \<Rightarrow> string" where
  "member_print kv \<equiv> json_quote (fst kv) @ CHR '':'' # json_print (snd kv)"

lemma member_self_delimiting:
  assumes "self_delimiting json_print (snd kv)"
  shows "self_delimiting member_print kv"
  unfolding self_delimiting_def
proof (intro allI impI)
  fix lw r r'
  assume eq: "member_print kv @ r = member_print lw @ r'" and d: "delimited r" "delimited r'"
  from eq have "json_quote (fst kv) @ CHR '':'' # json_print (snd kv) @ r
      = json_quote (fst lw) @ CHR '':'' # json_print (snd lw) @ r'" by simp
  then have "fst kv = fst lw \<and> CHR '':'' # json_print (snd kv) @ r = CHR '':'' # json_print (snd lw) @ r'"
    by (rule json_quote_inject)
  moreover from this have "snd kv = snd lw \<and> r = r'"
    using assms d unfolding self_delimiting_def by blast
  ultimately show "kv = lw \<and> r = r'" by (simp add: prod_eq_iff)
qed

lemma json_print_self_delimiting: "self_delimiting json_print v"
proof (induction v)
  case (JArr vs)
  show ?case unfolding self_delimiting_def
  proof (intro allI impI)
    fix w r r' assume eq: "json_print (JArr vs) @ r = json_print w @ r'"
    then have "head_ok w (CHR ''['')"
      by (simp only: json_print.simps json_quote_def append_Cons) (erule json_print_hd)
    then obtain ws where w: "w = JArr ws" by (cases w) (auto simp: num_char_not split: if_splits)
    have "\<And>w s. json_print w \<noteq> CHR '']'' # s" "\<And>w. json_print w \<noteq> []"
    proof -
      fix w s
      obtain c t where "json_print w = c # t" "head_ok w c" using json_print_head by blast
      moreover have "\<not> head_ok w (CHR '']'')" by (cases w) (auto simp: num_char_not)
      ultimately show "json_print w \<noteq> CHR '']'' # s" "json_print w \<noteq> []" by auto
    qed
    from items_inject [of vs json_print "CHR '']''" r ws r', OF _ this] JArr eq show "JArr vs = w \<and> r = r'"
      by (simp add: w)
  qed
next
  case (JObj kvs)
  show ?case unfolding self_delimiting_def
  proof (intro allI impI)
    fix w r r' assume eq: "json_print (JObj kvs) @ r = json_print w @ r'"
    then have "head_ok w (CHR ''{'')"
      by (simp only: json_print.simps json_quote_def append_Cons) (erule json_print_hd)
    then obtain lws where w: "w = JObj lws" by (cases w) (auto simp: num_char_not split: if_splits)
    have items: "\<forall>kv \<in> set kvs. self_delimiting member_print kv"
    proof
      fix kv assume "kv \<in> set kvs"
      with JObj have "self_delimiting json_print (snd kv)" by (cases kv) (force simp: snds.simps)
      then show "self_delimiting member_print kv" by (rule member_self_delimiting)
    qed
    have "\<And>kv s. member_print kv \<noteq> CHR ''}'' # s" "\<And>kv. member_print kv \<noteq> []"
      by (simp_all add: json_quote_def)
    from items_inject [of kvs member_print "CHR ''}''" r lws r', OF items this] eq show "JObj kvs = w \<and> r = r'"
      by (simp add: w)
  qed
next
  case (JNum i)
  show ?case unfolding self_delimiting_def
  proof (intro allI impI)
    fix w r r' assume eq: "json_print (JNum i) @ r = json_print w @ r'" and d: "delimited r" "delimited r'"
    obtain c s where c: "show_int i = c # s" "num_char c" using show_int_Cons by blast
    with eq have "head_ok w c" by (simp only: json_print.simps append_Cons) (erule json_print_hd)
    with c(2) obtain j where w: "w = JNum j" by (cases w) (auto simp: num_char_not split: if_splits)
    from show_int_inject_delimited [of i r j r'] eq d show "JNum i = w \<and> r = r'" by (simp add: w)
  qed
next
  case (JStr s)
  show ?case unfolding self_delimiting_def
  proof (intro allI impI)
    fix w r r' assume eq: "json_print (JStr s) @ r = json_print w @ r'"
    then have "head_ok w (CHR 0x22)"
      by (simp only: json_print.simps json_quote_def append_Cons) (erule json_print_hd)
    then obtain t where w: "w = JStr t" by (cases w) (auto simp: num_char_not split: if_splits)
    from json_quote_inject [of s r t r'] eq show "JStr s = w \<and> r = r'" by (simp add: w)
  qed
next
  case (JBool b)
  show ?case unfolding self_delimiting_def
  proof (intro allI impI)
    fix w r r' assume eq: "json_print (JBool b) @ r = json_print w @ r'"
    then have "head_ok w (if b then CHR ''t'' else CHR ''f'')"
      by (cases b) (simp_all only: json_print.simps append_Cons if_True if_False, (erule json_print_hd)+)
    then have "w = JBool b" by (cases w; cases b) (auto simp: num_char_not split: if_splits)
    with eq show "JBool b = w \<and> r = r'" by simp
  qed
next
  case JNull
  show ?case unfolding self_delimiting_def
  proof (intro allI impI)
    fix w r r' assume eq: "json_print JNull @ r = json_print w @ r'"
    then have "head_ok w (CHR ''n'')"
      by (simp only: json_print.simps json_quote_def append_Cons) (erule json_print_hd)
    then have "w = JNull" by (cases w) (auto simp: num_char_not split: if_splits)
    with eq show "JNull = w \<and> r = r'" by simp
  qed
qed

lemma json_print_inject [simp]: "json_print v = json_print w \<longleftrightarrow> v = w"
proof
  assume "json_print v = json_print w"
  with json_print_self_delimiting [of v] show "v = w"
    unfolding self_delimiting_def by (metis append_Nil2 delimited_simps(1))
qed simp

end
