(* ===== verification/Domain.thy ===== *)
theory Domain
  imports Prelude
begin

text \<open>
  packages/domain: token amounts and their exact parsing and rendering (amount.ts), the parsed
  identifiers (ids.ts), the verdict lattice (verdict.ts) and the finality semantics that say
  when an accepted block still carries executed state (finality.ts).
  A \<open>bigint\<close> is an \<open>int\<close>; a value of unknown JavaScript type is a \<open>raw\<close>; an error is a value
  of \<open>parse_error\<close>, which names the branch that raised it (the message text is not modelled).
\<close>

section \<open>Raw inputs and errors\<close>

datatype raw = RawBigint int | RawString string | RawOther

text \<open>A JavaScript \<open>number\<close>: an integer, or anything else a double can hold.\<close>

datatype js_number = JsInt int | JsNotInteger

datatype parse_error =
  NotInteger | DecimalsOutOfRange | NotCanonicalString | WrongType | Negative
| ExceedsMaximum | TooManyFractionDigits | NotHex | NotProviderGroup

section \<open>Amounts\<close>

definition MAX_UINT256 :: int where
  "MAX_UINT256 = 2 ^ 256 - 1"

definition in_uint256 :: "int \<Rightarrow> bool" where
  "in_uint256 v \<longleftrightarrow> 0 \<le> v \<and> v \<le> MAX_UINT256"

definition parseDecimals :: "js_number \<Rightarrow> parse_error + int" where
  "parseDecimals raw =
     (case raw of JsNotInteger \<Rightarrow> Inl NotInteger
      | JsInt n \<Rightarrow> (if n < 0 \<or> n > 77 then Inl DecimalsOutOfRange else Inr n))"

text \<open>The shared prefix of \<open>parseAmount\<close> and \<open>parseUint\<close>: read the integer a raw value holds.\<close>

fun raw_integer :: "raw \<Rightarrow> parse_error + int" where
  "raw_integer (RawBigint v) = Inr v"
| "raw_integer (RawString s) =
     (if \<not> canonical_decimal s then Inl NotCanonicalString else Inr (int (read_nat s)))"
| "raw_integer RawOther = Inl WrongType"

definition parseAmount :: "raw \<Rightarrow> parse_error + int" where
  "parseAmount raw =
     (case raw_integer raw of Inl e \<Rightarrow> Inl e
      | Inr v \<Rightarrow> if v < 0 then Inl Negative
                else if v > MAX_UINT256 then Inl ExceedsMaximum
                else Inr v)"

definition amountToBaseUnitString :: "int \<Rightarrow> string" where
  "amountToBaseUnitString a = show_int a"

definition padStart :: "string \<Rightarrow> nat \<Rightarrow> char \<Rightarrow> string" where
  "padStart s n c = replicate (n - length s) c @ s"

definition padEnd :: "string \<Rightarrow> nat \<Rightarrow> char \<Rightarrow> string" where
  "padEnd s n c = s @ replicate (n - length s) c"

text \<open>\<open>s.replace(/0+$/, '')\<close>.\<close>

definition strip_zeros :: "string \<Rightarrow> string" where
  "strip_zeros s = rev (dropWhile (\<lambda>c. c = CHR ''0'') (rev s))"

definition amountToDecimalString :: "int \<Rightarrow> nat \<Rightarrow> string" where
  "amountToDecimalString a d =
     (if d = 0 then show_int a
      else let s = padStart (show_int a) (d + 1) (CHR ''0'');
               whole = take (length s - d) s;
               frac = strip_zeros (drop (length s - d) s)
           in if length frac > 0 then whole @ ''.'' @ frac else whole)"

text \<open>
  \<open>DECIMAL_STRING\<close>, the regular expression \<open>/^(0|[1-9][0-9]*)(\.[0-9]+)?$/\<close>, and \<open>split('.')\<close>
  with its two defaults.
\<close>

definition before_dot :: "string \<Rightarrow> string" where
  "before_dot s = takeWhile (\<lambda>c. c \<noteq> CHR ''.'') s"

definition from_dot :: "string \<Rightarrow> string" where
  "from_dot s = dropWhile (\<lambda>c. c \<noteq> CHR ''.'') s"

definition decimal_string :: "string \<Rightarrow> bool" where
  "decimal_string s \<longleftrightarrow>
     canonical_decimal (before_dot s) \<and>
     (from_dot s = [] \<or> (tl (from_dot s) \<noteq> [] \<and> list_all is_digit (tl (from_dot s))))"

definition parseAmountAtScale :: "raw \<Rightarrow> nat \<Rightarrow> parse_error + int" where
  "parseAmountAtScale raw d =
     (case raw of
        RawString s \<Rightarrow>
          if \<not> decimal_string s then Inl NotCanonicalString
          else let whole = before_dot s; frac = tl (from_dot s)
               in if length frac > d then Inl TooManyFractionDigits
                  else parseAmount
                         (RawBigint (int (read_nat (whole @ padEnd frac d (CHR ''0'')))))
      | _ \<Rightarrow> Inl WrongType)"

definition addAmount :: "int \<Rightarrow> int \<Rightarrow> parse_error + int" where
  "addAmount a b = parseAmount (RawBigint (a + b))"

definition subAmount :: "int \<Rightarrow> int \<Rightarrow> parse_error + int" where
  "subAmount a b = parseAmount (RawBigint (a - b))"

definition compareAmount :: "int \<Rightarrow> int \<Rightarrow> int" where
  "compareAmount x y = (if x < y then -1 else if x > y then 1 else 0)"

subsection \<open>Bounds and arithmetic\<close>

lemma parseAmount_range: "parseAmount r = Inr v \<Longrightarrow> in_uint256 v"
  by (auto simp: parseAmount_def in_uint256_def split: sum.splits if_splits)

lemma parseAmount_bigint: "parseAmount (RawBigint v) = Inr w \<longleftrightarrow> in_uint256 v \<and> w = v"
  by (auto simp: parseAmount_def in_uint256_def)

lemma addAmount_Inr: "addAmount a b = Inr c \<longleftrightarrow> in_uint256 (a + b) \<and> c = a + b"
  by (simp add: addAmount_def parseAmount_bigint)

lemma subAmount_Inr: "subAmount a b = Inr c \<longleftrightarrow> in_uint256 (a - b) \<and> c = a - b"
  by (simp add: subAmount_def parseAmount_bigint)

lemma subAmount_Negative: "a < b \<Longrightarrow> subAmount a b = Inl Negative"
  by (simp add: subAmount_def parseAmount_def)

text \<open>
  Exact amount arithmetic: on amounts, an addition either returns the true sum, inside the
  uint256 range, or the overflow error, and then subtracting the summand gives the first amount
  back; a subtraction returns the true difference exactly when it does not go below zero and is
  the \<open>Negative\<close> error otherwise. Nothing wraps and nothing is clamped.
\<close>

theorem amount_arithmetic_exact:
  assumes "in_uint256 a" and "in_uint256 b"
  shows "(case addAmount a b of
            Inr c \<Rightarrow> c = a + b \<and> in_uint256 c \<and> subAmount c b = Inr a
          | Inl e \<Rightarrow> e = ExceedsMaximum \<and> a + b > MAX_UINT256)
       \<and> (case subAmount a b of
            Inr c \<Rightarrow> c = a - b \<and> b \<le> a \<and> addAmount c b = Inr a
          | Inl e \<Rightarrow> e = Negative \<and> a < b)"
  using assms
  by (auto simp: addAmount_def subAmount_def parseAmount_def in_uint256_def split: sum.splits)

theorem amount_arithmetic_exact_witness:
  "addAmount 7 5 = Inr 12 \<and> subAmount 12 5 = Inr 7 \<and> subAmount 5 7 = Inl Negative"
proof -
  have "in_uint256 7" "in_uint256 5" by (simp_all add: in_uint256_def MAX_UINT256_def)
  from amount_arithmetic_exact [OF this] amount_arithmetic_exact [OF this(2,1)] show ?thesis
    by (auto simp: MAX_UINT256_def split: sum.splits)
qed

subsection \<open>Rendering and parsing at a scale\<close>

lemma strip_zeros_split: "\<exists>k. s = strip_zeros s @ replicate k (CHR ''0'')"
proof -
  let ?P = "\<lambda>c. c = CHR ''0''"
  have "takeWhile ?P (rev s) = replicate (length (takeWhile ?P (rev s))) (CHR ''0'')"
    by (rule replicate_length_same [symmetric]) (auto dest: set_takeWhileD)
  then have "rev (takeWhile ?P (rev s)) = replicate (length (takeWhile ?P (rev s))) (CHR ''0'')"
    using rev_replicate by (rule arg_cong [THEN trans])
  moreover have "s = rev (dropWhile ?P (rev s)) @ rev (takeWhile ?P (rev s))"
    by (metis rev_append rev_rev_ident takeWhile_dropWhile_id)
  ultimately show ?thesis unfolding strip_zeros_def by metis
qed

lemma strip_zeros_pad: "padEnd (strip_zeros s) (length s) (CHR ''0'') = s"
proof -
  obtain k where k: "s = strip_zeros s @ replicate k (CHR ''0'')"
    using strip_zeros_split by blast
  then have "length s = length (strip_zeros s) + k"
    by (metis length_append length_replicate)
  then show ?thesis using k by (simp add: padEnd_def)
qed

lemma strip_zeros_subset: "set (strip_zeros s) \<subseteq> set s"
  by (auto simp: strip_zeros_def dest: set_dropWhileD)

lemma length_strip_zeros: "length (strip_zeros s) \<le> length s"
  by (simp add: strip_zeros_def) (metis length_dropWhile_le length_rev)

lemma digits_no_dot: "list_all is_digit s \<Longrightarrow> CHR ''.'' \<notin> set s"
  using is_digit_not_dot by (auto simp: list_all_iff)

lemma before_dot_append: "CHR ''.'' \<notin> set w \<Longrightarrow> before_dot (w @ CHR ''.'' # f) = w"
  by (auto simp: before_dot_def takeWhile_append)

lemma from_dot_append: "CHR ''.'' \<notin> set w \<Longrightarrow> from_dot (w @ CHR ''.'' # f) = CHR ''.'' # f"
  by (auto simp: from_dot_def dropWhile_append)

lemma before_dot_none: "CHR ''.'' \<notin> set w \<Longrightarrow> before_dot w = w"
  unfolding before_dot_def by (rule takeWhile_eq_all_conv [THEN iffD2]) auto

lemma from_dot_none: "CHR ''.'' \<notin> set w \<Longrightarrow> from_dot w = []"
  unfolding from_dot_def by (rule dropWhile_eq_Nil_conv [THEN iffD2]) auto

lemma padStart_digits:
  "list_all is_digit (padStart (show_nat n) k (CHR ''0''))"
  by (auto simp: padStart_def list_all_iff show_nat_digits [unfolded list_all_iff])

lemma read_nat_padStart [simp]: "read_nat (padStart s k (CHR ''0'')) = read_nat s"
  by (simp add: padStart_def read_nat_append)

lemma canonical_padStart_take:
  assumes "length (padStart (show_nat n) (d + 1) (CHR ''0'')) = l"
  shows "canonical_decimal (take (l - d) (padStart (show_nat n) (d + 1) (CHR ''0'')))"
proof (cases "length (show_nat n) \<le> d")
  case True
  then have "take (l - d) (padStart (show_nat n) (d + 1) (CHR ''0'')) = [CHR ''0'']"
    using assms by (auto simp: padStart_def Suc_diff_le)
  then show ?thesis by (simp add: canonical_decimal_def)
next
  case False
  then have pad: "padStart (show_nat n) (d + 1) (CHR ''0'') = show_nat n"
    by (simp add: padStart_def)
  have digits: "list_all is_digit (take (l - d) (show_nat n))"
    using show_nat_digits [of n] by (auto simp: list_all_iff dest: in_set_takeD)
  show ?thesis
  proof (cases "n = 0")
    case True
    with False have "d = 0" by simp
    with True pad assms show ?thesis by (auto simp: canonical_decimal_def)
  next
    case n: False
    have "hd (take (l - d) (show_nat n)) \<noteq> CHR ''0''"
      using False assms pad n show_nat_hd [of n] by simp
    with digits False assms pad show ?thesis by (auto simp: canonical_decimal_def)
  qed
qed

text \<open>The text form is exact for every non-negative amount: nothing is lost at any scale.\<close>

lemma decimal_string_parts:
  fixes n d :: nat
  defines "s \<equiv> padStart (show_nat n) (d + 1) (CHR ''0'')"
  defines "w \<equiv> take (length s - d) s" and "f \<equiv> drop (length s - d) s"
  shows "canonical_decimal w" and "CHR ''.'' \<notin> set w" and "list_all is_digit f"
    and "length f = d" and "read_nat (w @ f) = n"
proof -
  have digits: "list_all is_digit s" unfolding s_def by (rule padStart_digits)
  have len: "d < length s" by (simp add: s_def padStart_def)
  show "canonical_decimal w"
    unfolding w_def s_def by (rule canonical_padStart_take) simp
  then show "CHR ''.'' \<notin> set w"
    by (simp add: canonical_decimal_def digits_no_dot)
  show "list_all is_digit f"
    using digits unfolding f_def by (auto simp: list_all_iff dest: in_set_dropD)
  show "length f = d" using len by (simp add: f_def)
  have "w @ f = s" by (simp add: w_def f_def)
  then show "read_nat (w @ f) = n" by (simp add: s_def)
qed

text \<open>
  Rendering an amount at a token's scale and parsing it back at the same scale is the
  identity, for every amount and every scale: \<open>amountToDecimalString\<close> drops only trailing zeros
  that \<open>parseAmountAtScale\<close> restores. The base-unit string round-trips the same way.
\<close>

theorem amount_decimal_roundtrip:
  assumes "in_uint256 a"
  shows "parseAmountAtScale (RawString (amountToDecimalString a d)) d = Inr a
       \<and> parseAmount (RawString (amountToBaseUnitString a)) = Inr a"
proof -
  obtain n where a: "a = int n"
    using assms by (metis in_uint256_def nonneg_int_cases)
  then have show_a: "show_int a = show_nat n" by (simp add: show_int_def)
  have range: "\<not> a < 0" "\<not> a > MAX_UINT256" using assms by (auto simp: in_uint256_def)
  have base: "parseAmount (RawString (amountToBaseUnitString a)) = Inr a"
    using range by (simp add: parseAmount_def amountToBaseUnitString_def show_a flip: a)
  let ?s = "padStart (show_nat n) (d + 1) (CHR ''0'')"
  let ?w = "take (length ?s - d) ?s" and ?f = "drop (length ?s - d) ?s"
  note parts = decimal_string_parts [of n d]
  have frac_digits: "list_all is_digit (strip_zeros ?f)"
    using parts(3) strip_zeros_subset [of ?f] by (auto simp: list_all_iff)
  have frac_len: "length (strip_zeros ?f) \<le> d"
    using length_strip_zeros [of ?f] parts(4) by simp
  have frac_pad: "padEnd (strip_zeros ?f) d (CHR ''0'') = ?f"
    using strip_zeros_pad [of ?f] parts(4) by simp
  have "parseAmountAtScale (RawString (amountToDecimalString a d)) d = Inr a"
  proof (cases "d = 0")
    case True
    then show ?thesis
      using range digits_no_dot [OF show_nat_digits [of n]]
      by (simp add: amountToDecimalString_def parseAmountAtScale_def show_a decimal_string_def
          before_dot_none from_dot_none padEnd_def parseAmount_def flip: a)
  next
    case False
    note simps = amountToDecimalString_def parseAmountAtScale_def decimal_string_def Let_def
      parseAmount_def show_a
    show ?thesis
    proof (cases "strip_zeros ?f = []")
      case True
      then show ?thesis
        using False parts frac_pad range
        by (simp add: simps before_dot_none from_dot_none flip: a)
    next
      case nonempty: False
      then have string: "amountToDecimalString a d = ?w @ CHR ''.'' # strip_zeros ?f"
        using False by (simp add: simps)
      show ?thesis
        unfolding string
        using parts frac_pad frac_digits frac_len range nonempty
        by (simp add: parseAmountAtScale_def decimal_string_def before_dot_append from_dot_append
            parseAmount_def flip: a)
    qed
  qed
  with base show ?thesis by simp
qed

theorem amount_decimal_roundtrip_witness:
  "parseAmountAtScale (RawString (amountToDecimalString 1250 3)) 3 = Inr 1250"
  using amount_decimal_roundtrip [of 1250 3] by (simp add: in_uint256_def MAX_UINT256_def)

section \<open>Identifiers\<close>

text \<open>\<open>toLowerCase\<close> on the ASCII letters, which are the only letters an identifier can hold.\<close>

definition lower_char :: "char \<Rightarrow> char" where
  "lower_char c = (if 65 \<le> (of_char c :: nat) \<and> (of_char c :: nat) \<le> 90
                   then char_of ((of_char c :: nat) + 32) else c)"

definition toLowerCase :: "string \<Rightarrow> string" where
  "toLowerCase s = map lower_char s"

definition is_lower_hex :: "char \<Rightarrow> bool" where
  "is_lower_hex c \<longleftrightarrow> is_digit c \<or> (97 \<le> (of_char c :: nat) \<and> (of_char c :: nat) \<le> 102)"

text \<open>\<open>HEX32\<close> and \<open>HEX20\<close>: \<open>0x\<close> and exactly n hexadecimal digits.\<close>

definition hex_string :: "nat \<Rightarrow> string \<Rightarrow> bool" where
  "hex_string n s \<longleftrightarrow> take 2 s = ''0x'' \<and> length s = n + 2 \<and> list_all is_lower_hex (drop 2 s)"

definition parseHex :: "nat \<Rightarrow> raw \<Rightarrow> parse_error + string" where
  "parseHex n raw =
     (case raw of RawString s \<Rightarrow>
        let l = toLowerCase s in if \<not> hex_string n l then Inl NotHex else Inr l
      | _ \<Rightarrow> Inl WrongType)"

definition parseBlockchainId :: "raw \<Rightarrow> parse_error + string" where
  "parseBlockchainId = parseHex 64"

definition parseGenesisHash :: "raw \<Rightarrow> parse_error + string" where
  "parseGenesisHash = parseHex 64"

definition parseBlockHash :: "raw \<Rightarrow> parse_error + string" where
  "parseBlockHash = parseHex 64"

definition parseTransactionHash :: "raw \<Rightarrow> parse_error + string" where
  "parseTransactionHash = parseHex 64"

definition parseMessageId :: "raw \<Rightarrow> parse_error + string" where
  "parseMessageId = parseHex 64"

definition parseEvmAddress :: "raw \<Rightarrow> parse_error + string" where
  "parseEvmAddress = parseHex 40"

definition parseUint :: "int option \<Rightarrow> raw \<Rightarrow> parse_error + int" where
  "parseUint bound raw =
     (case raw_integer raw of Inl e \<Rightarrow> Inl e
      | Inr v \<Rightarrow> if v < 0 then Inl Negative
                else (case bound of None \<Rightarrow> Inr v
                      | Some m \<Rightarrow> if v > m then Inl ExceedsMaximum else Inr v))"

definition MAX_UINT64 :: int where
  "MAX_UINT64 = 2 ^ 64 - 1"

definition parseEvmChainId :: "raw \<Rightarrow> parse_error + int" where
  "parseEvmChainId = parseUint (Some MAX_UINT64)"

definition parseBlockNumber :: "raw \<Rightarrow> parse_error + int" where
  "parseBlockNumber = parseUint (Some MAX_UINT64)"

definition parseLogIndex :: "raw \<Rightarrow> parse_error + int" where
  "parseLogIndex = parseUint (Some MAX_UINT64)"

definition is_group_alnum :: "char \<Rightarrow> bool" where
  "is_group_alnum c \<longleftrightarrow> is_digit c \<or> (97 \<le> (of_char c :: nat) \<and> (of_char c :: nat) \<le> 122)"

text \<open>The regular expression \<open>/^[a-z0-9][a-z0-9-]{0,62}[a-z0-9]$/\<close>.\<close>

definition provider_group_string :: "string \<Rightarrow> bool" where
  "provider_group_string s \<longleftrightarrow>
     2 \<le> length s \<and> length s \<le> 64 \<and> is_group_alnum (hd s) \<and> is_group_alnum (last s)
     \<and> list_all (\<lambda>c. is_group_alnum c \<or> c = CHR ''-'') (butlast (tl s))"

definition parseProviderGroupId :: "raw \<Rightarrow> parse_error + string" where
  "parseProviderGroupId raw =
     (case raw of RawString s \<Rightarrow>
        if \<not> provider_group_string s then Inl NotProviderGroup else Inr s
      | _ \<Rightarrow> Inl WrongType)"

lemma lower_char_idem [simp]: "lower_char (lower_char c) = lower_char c"
  by (auto simp: lower_char_def)

lemma toLowerCase_idem [simp]: "toLowerCase (toLowerCase s) = toLowerCase s"
  by (simp add: toLowerCase_def)

lemma length_toLowerCase [simp]: "length (toLowerCase s) = length s"
  by (simp add: toLowerCase_def)

lemma parseHex_Inr:
  "parseHex n (RawString s) = Inr x \<longleftrightarrow> x = toLowerCase s \<and> hex_string n (toLowerCase s)"
  by (auto simp: parseHex_def Let_def)

text \<open>
  Parsing a hexadecimal identifier makes comparison total: every accepted identifier is in
  lower case, parsing it again returns it unchanged, and two inputs parse to the same identifier
  exactly when they differ in letter case only.
\<close>

theorem parseHex_canonical:
  assumes "parseHex n (RawString s) = Inr x"
  shows "toLowerCase x = x \<and> parseHex n (RawString x) = Inr x \<and> length x = n + 2
       \<and> (parseHex n (RawString t) = Inr x \<longleftrightarrow> toLowerCase t = toLowerCase s)"
proof -
  from assms have x: "x = toLowerCase s" "hex_string n x" by (simp_all add: parseHex_Inr)
  moreover have "parseHex n (RawString t) = Inr x \<longleftrightarrow> toLowerCase t = toLowerCase s"
    using x by (auto simp: parseHex_Inr)
  ultimately show ?thesis by (simp add: parseHex_Inr hex_string_def)
qed

theorem parseHex_canonical_witness:
  "parseHex 2 (RawString ''0xAb'') = Inr ''0xab''
   \<and> parseHex 2 (RawString ''0xaB'') = Inr ''0xab''"
proof -
  have "parseHex 2 (RawString ''0xAb'') = Inr ''0xab''" by code_simp
  moreover have "toLowerCase ''0xaB'' = toLowerCase ''0xAb''" by code_simp
  ultimately show ?thesis
    using parseHex_canonical [of 2 "''0xAb''" "''0xab''" "''0xaB''"] by simp
qed

section \<open>Finality\<close>

datatype network = Mainnet | Fuji

record supersession =
  sup_network :: network
  sup_evmChainId :: int
  sup_blockchainId :: string
  sup_activatesAt :: int

definition ACCEPTED_STATE_SUPERSESSIONS :: "supersession list" where
  "ACCEPTED_STATE_SUPERSESSIONS =
    [ \<lparr> sup_network = Mainnet, sup_evmChainId = 43114,
        sup_blockchainId =
          ''0x0427d4b22a2a78bcddd456742caf91b56badbff985ee19aef14573e7343fd652'',
        sup_activatesAt = 1790089200 \<rparr>,
      \<lparr> sup_network = Fuji, sup_evmChainId = 43113,
        sup_blockchainId =
          ''0x7fc93d85c6d62c5b2ac0b519c87010ea5294012d1e407030d6acd0021cac10d5'',
        sup_activatesAt = 1785250800 \<rparr> ]"

record chain_identity =
  ci_evmChainId :: int
  ci_blockchainId :: string

definition acceptedStateSuperseded :: "chain_identity \<Rightarrow> int \<Rightarrow> bool" where
  "acceptedStateSuperseded chain blockTimestamp =
     (let blockchainId = toLowerCase (ci_blockchainId chain)
      in list_ex (\<lambda>s. (sup_evmChainId s = ci_evmChainId chain \<or> sup_blockchainId s = blockchainId)
                      \<and> blockTimestamp \<ge> sup_activatesAt s)
           ACCEPTED_STATE_SUPERSESSIONS)"

definition finalityBasisStands :: "string \<Rightarrow> chain_identity \<Rightarrow> int \<Rightarrow> bool" where
  "finalityBasisStands basis chain blockTimestamp \<longleftrightarrow>
     basis = ''settled-quorum''
     \<or> (basis = ''accepted-quorum'' \<and> \<not> acceptedStateSuperseded chain blockTimestamp)"

lemma acceptedStateSuperseded_mono:
  "acceptedStateSuperseded chain t \<Longrightarrow> t \<le> u \<Longrightarrow> acceptedStateSuperseded chain u"
  by (auto simp: acceptedStateSuperseded_def list_ex_iff Let_def intro: order_trans)

text \<open>
  A finality basis that stands for a block stands for every earlier block of the chain, and
  an accepted-quorum pin that has lost its standing never regains it: the supersession is
  one-way in block time, and no unnamed basis ever stands.
\<close>

theorem finality_basis_antitone:
  assumes "finalityBasisStands basis chain t" and "u \<le> t"
  shows "finalityBasisStands basis chain u
       \<and> basis \<in> {''settled-quorum'', ''accepted-quorum''}
       \<and> (basis = ''accepted-quorum'' \<longrightarrow> \<not> acceptedStateSuperseded chain u)"
  using assms acceptedStateSuperseded_mono [of chain u t]
  by (auto simp: finalityBasisStands_def)

theorem finality_basis_antitone_witness:
  "finalityBasisStands ''accepted-quorum''
     \<lparr> ci_evmChainId = 43114, ci_blockchainId = ''x'' \<rparr> 1790089100
   \<and> finalityBasisStands ''accepted-quorum''
     \<lparr> ci_evmChainId = 43114, ci_blockchainId = ''x'' \<rparr> 5
   \<and> \<not> finalityBasisStands ''accepted-quorum''
     \<lparr> ci_evmChainId = 43114, ci_blockchainId = ''x'' \<rparr> 1790089200"
proof -
  let ?c = "\<lparr> ci_evmChainId = 43114, ci_blockchainId = ''x'' \<rparr>"
  have "finalityBasisStands ''accepted-quorum'' ?c 1790089100"
    and "\<not> finalityBasisStands ''accepted-quorum'' ?c 1790089200"
    by (simp_all add: finalityBasisStands_def acceptedStateSuperseded_def
        ACCEPTED_STATE_SUPERSESSIONS_def Let_def toLowerCase_def lower_char_def)
  then show ?thesis
    using finality_basis_antitone [of "''accepted-quorum''" ?c 1790089100 5] by simp
qed

end
