(* ===== verification/Lattice.thy ===== *)
theory Lattice
  imports Domain
begin

text \<open>
  packages/domain/src/verdict.ts: the verdict lattice and how judgements combine. The interface
  \<open>extreme_fold\<close> is the contract of every "keep the worst" loop of the code: combining
  judgements here, the weakest claim of an aggregate (GlobalVerdict), the leading head and the
  common height of a witness quorum (Quorum).
\<close>

section \<open>Loops that keep an extreme element\<close>

locale extreme_fold =
  fixes rank :: "'a \<Rightarrow> 'r::linorder"
    and pick :: "'a \<Rightarrow> 'b \<Rightarrow> 'a"
    and proj :: "'b \<Rightarrow> 'a"
  assumes pick_member: "pick a b = a \<or> pick a b = proj b"
    and pick_rank: "rank (pick a b) = max (rank a) (rank (proj b))"
begin

lemma result_member: "foldl pick a bs = a \<or> foldl pick a bs \<in> proj ` set bs"
proof (induction bs arbitrary: a)
  case (Cons b bs)
  have "foldl pick (pick a b) bs = pick a b \<or> foldl pick (pick a b) bs \<in> proj ` set bs"
    by (rule Cons.IH)
  then show ?case using pick_member [of a b] by (metis foldl_Cons image_insert insertCI list.simps(15))
qed simp

lemma start_bound: "rank a \<le> rank (foldl pick a bs)"
proof (induction bs arbitrary: a)
  case (Cons b bs)
  have "rank a \<le> rank (pick a b)" by (simp add: pick_rank)
  also have "\<dots> \<le> rank (foldl pick (pick a b) bs)" by (rule Cons.IH)
  finally show ?case by simp
qed simp

lemma upper_bound: "b \<in> set bs \<Longrightarrow> rank (proj b) \<le> rank (foldl pick a bs)"
proof (induction bs arbitrary: a)
  case (Cons c bs)
  show ?case
  proof (cases "b = c")
    case True
    have "rank (proj b) \<le> rank (pick a b)" by (simp add: pick_rank)
    also have "\<dots> \<le> rank (foldl pick (pick a b) bs)" by (rule start_bound)
    finally show ?thesis using True by simp
  next
    case False
    with Cons show ?thesis by simp
  qed
qed simp

lemma result_rank: "rank (foldl pick a bs) = Max (insert (rank a) ((\<lambda>b. rank (proj b)) ` set bs))"
proof (rule Max_eqI [symmetric])
  show "finite (insert (rank a) ((\<lambda>b. rank (proj b)) ` set bs))" by simp
next
  fix y assume "y \<in> insert (rank a) ((\<lambda>b. rank (proj b)) ` set bs)"
  then show "y \<le> rank (foldl pick a bs)" using start_bound upper_bound by auto
next
  show "rank (foldl pick a bs) \<in> insert (rank a) ((\<lambda>b. rank (proj b)) ` set bs)"
    using result_member [of a bs] by auto
qed

lemma result_rank_same_set:
  "set bs = set cs \<Longrightarrow> rank (foldl pick a bs) = rank (foldl pick a cs)"
  by (simp add: result_rank)

end

section \<open>Verdicts\<close>

datatype verdict = OK | WARN | UNKNOWN | CRITICAL

datatype requirement = Required | Optional

record judgement =
  jdg_verdict :: verdict
  jdg_requirement :: requirement

fun RANK :: "verdict \<Rightarrow> nat" where
  "RANK OK = 0"
| "RANK WARN = 1"
| "RANK UNKNOWN = 2"
| "RANK CRITICAL = 3"

definition BY_RANK :: "verdict list" where
  "BY_RANK = [OK, WARN, UNKNOWN, CRITICAL]"

text \<open>\<open>BY_RANK[i] ?? 'UNKNOWN'\<close>.\<close>

definition verdict_at_rank :: "nat \<Rightarrow> verdict" where
  "verdict_at_rank i = (if i < length BY_RANK then BY_RANK ! i else UNKNOWN)"

definition rankOf :: "judgement \<Rightarrow> nat" where
  "rankOf j = (if jdg_verdict j = UNKNOWN \<and> jdg_requirement j = Optional then RANK WARN
               else RANK (jdg_verdict j))"

text \<open>The body of the loop: keep the higher rank.\<close>

definition raise_rank :: "nat \<Rightarrow> judgement \<Rightarrow> nat" where
  "raise_rank highest j = (let r = rankOf j in if r > highest then r else highest)"

definition combineVerdicts :: "judgement list \<Rightarrow> verdict" where
  "combineVerdicts judgements =
     (if length judgements = 0 then UNKNOWN
      else verdict_at_rank (foldl raise_rank 0 judgements))"

definition isHealthy :: "verdict \<Rightarrow> bool" where
  "isHealthy v \<longleftrightarrow> v = OK"

datatype supply_assessment = Sufficient | Indeterminate | AssessmentUnknown

fun supplyAssessmentToVerdict :: "supply_assessment \<Rightarrow> verdict" where
  "supplyAssessmentToVerdict Sufficient = OK"
| "supplyAssessmentToVerdict Indeterminate = UNKNOWN"
| "supplyAssessmentToVerdict AssessmentUnknown = UNKNOWN"

text \<open>The lattice order as the class of linear orders, so \<open>max\<close> is the join.\<close>

instantiation verdict :: linorder
begin

definition less_eq_verdict :: "verdict \<Rightarrow> verdict \<Rightarrow> bool" where
  "less_eq_verdict v w \<longleftrightarrow> RANK v \<le> RANK w"

definition less_verdict :: "verdict \<Rightarrow> verdict \<Rightarrow> bool" where
  "less_verdict v w \<longleftrightarrow> RANK v < RANK w"

instance
proof
  fix v w :: verdict
  show "v \<le> w \<Longrightarrow> w \<le> v \<Longrightarrow> v = w"
    by (cases v; cases w) (simp_all add: less_eq_verdict_def)
qed (auto simp: less_eq_verdict_def less_verdict_def)

end

lemma RANK_verdict_at_rank: "i < 4 \<Longrightarrow> RANK (verdict_at_rank i) = i"
  by (auto simp: verdict_at_rank_def BY_RANK_def less_Suc_eq numeral_eq_Suc)

lemma verdict_at_rank_RANK [simp]: "verdict_at_rank (RANK v) = v"
  by (cases v) (simp_all add: verdict_at_rank_def BY_RANK_def)

text \<open>What a judgement contributes: an optional UNKNOWN counts as WARN.\<close>

definition effective :: "judgement \<Rightarrow> verdict" where
  "effective j = (if jdg_verdict j = UNKNOWN \<and> jdg_requirement j = Optional then WARN
                  else jdg_verdict j)"

lemma rankOf_effective: "rankOf j = RANK (effective j)"
  by (simp add: rankOf_def effective_def)

interpretation ranks: extreme_fold "\<lambda>r::nat. r" raise_rank rankOf
  by unfold_locales (auto simp: raise_rank_def Let_def)

lemma combineVerdicts_rank:
  assumes "js \<noteq> []"
  shows "RANK (combineVerdicts js) = Max (RANK ` effective ` set js)"
proof -
  have "foldl raise_rank 0 js = Max (insert 0 (rankOf ` set js))"
    by (rule ranks.result_rank)
  also have "\<dots> = Max (rankOf ` set js)" using assms by simp
  finally have max: "foldl raise_rank 0 js = Max (rankOf ` set js)" .
  also have "\<dots> \<in> rankOf ` set js" using assms by (intro Max_in) auto
  finally obtain j where j: "foldl raise_rank 0 js = RANK (effective j)"
    by (auto simp: rankOf_effective)
  have "RANK (combineVerdicts js) = foldl raise_rank 0 js"
    using assms by (simp add: combineVerdicts_def j)
  with max show ?thesis by (simp add: rankOf_effective image_image)
qed

lemma combineVerdicts_eq_iff:
  assumes "js \<noteq> []"
  shows "combineVerdicts js = v \<longleftrightarrow>
    (\<exists>j \<in> set js. effective j = v) \<and> (\<forall>j \<in> set js. effective j \<le> v)"
proof -
  have inj: "RANK v = RANK w \<longleftrightarrow> v = w" for v w by (cases v; cases w) auto
  have "combineVerdicts js = v \<longleftrightarrow> Max (RANK ` effective ` set js) = RANK v"
    using combineVerdicts_rank [OF assms] inj by metis
  also have "\<dots> \<longleftrightarrow> RANK v \<in> RANK ` effective ` set js
      \<and> (\<forall>r \<in> RANK ` effective ` set js. r \<le> RANK v)"
    using assms by (intro Max_eq_iff) auto
  also have "\<dots> \<longleftrightarrow> (\<exists>j \<in> set js. effective j = v) \<and> (\<forall>j \<in> set js. effective j \<le> v)"
    by (auto simp: inj less_eq_verdict_def)
  finally show ?thesis .
qed

lemma effective_simps:
  "effective j = OK \<longleftrightarrow> jdg_verdict j = OK"
  "effective j \<le> OK \<longleftrightarrow> jdg_verdict j = OK"
  "effective j = CRITICAL \<longleftrightarrow> jdg_verdict j = CRITICAL"
  "effective j \<le> CRITICAL"
  "effective j = UNKNOWN \<longleftrightarrow> jdg_verdict j = UNKNOWN \<and> jdg_requirement j = Required"
  "effective j \<le> UNKNOWN \<longleftrightarrow> jdg_verdict j \<noteq> CRITICAL"
  by (cases "jdg_verdict j"; cases "jdg_requirement j";
      simp add: effective_def less_eq_verdict_def)+

text \<open>
  The verdict lattice. A combination is UNKNOWN on no evidence at all; otherwise it is the
  least upper bound of the contributions in the order OK < WARN < UNKNOWN < CRITICAL, where an
  optional UNKNOWN contributes WARN. So it is OK exactly when every check is OK, a CRITICAL is
  never hidden, a required UNKNOWN never surfaces as OK or WARN, and neither the order nor the
  multiplicity of the judgements can change it.
\<close>

theorem combineVerdicts_lub:
  "(combineVerdicts js = OK \<longleftrightarrow> js \<noteq> [] \<and> (\<forall>j \<in> set js. jdg_verdict j = OK))
   \<and> (combineVerdicts js = CRITICAL \<longleftrightarrow> (\<exists>j \<in> set js. jdg_verdict j = CRITICAL))
   \<and> (combineVerdicts js = UNKNOWN \<longleftrightarrow> js = [] \<or>
        (\<exists>j \<in> set js. jdg_verdict j = UNKNOWN \<and> jdg_requirement j = Required)
        \<and> (\<forall>j \<in> set js. jdg_verdict j \<noteq> CRITICAL))
   \<and> (set js = set ks \<longrightarrow> combineVerdicts js = combineVerdicts ks)"
proof (cases "js = []")
  case True
  then show ?thesis by (auto simp: combineVerdicts_def)
next
  case False
  then have "combineVerdicts js = OK \<longleftrightarrow> (\<forall>j \<in> set js. jdg_verdict j = OK)"
    by (auto simp: combineVerdicts_eq_iff effective_simps neq_Nil_conv)
  moreover have "combineVerdicts js = CRITICAL \<longleftrightarrow> (\<exists>j \<in> set js. jdg_verdict j = CRITICAL)"
    using False by (simp add: combineVerdicts_eq_iff effective_simps)
  moreover have "combineVerdicts js = UNKNOWN \<longleftrightarrow>
      (\<exists>j \<in> set js. jdg_verdict j = UNKNOWN \<and> jdg_requirement j = Required)
      \<and> (\<forall>j \<in> set js. jdg_verdict j \<noteq> CRITICAL)"
    using False by (simp add: combineVerdicts_eq_iff effective_simps)
  moreover have "set js = set ks \<longrightarrow> combineVerdicts js = combineVerdicts ks"
  proof
    assume "set js = set ks"
    moreover from this False have "ks \<noteq> []" by auto
    ultimately show "combineVerdicts js = combineVerdicts ks"
      using False combineVerdicts_eq_iff [of js "combineVerdicts ks"]
        combineVerdicts_eq_iff [of ks "combineVerdicts ks"] by simp
  qed
  ultimately show ?thesis using False by blast
qed

theorem combineVerdicts_lub_witness:
  "combineVerdicts [\<lparr>jdg_verdict = OK, jdg_requirement = Required\<rparr>,
                    \<lparr>jdg_verdict = UNKNOWN, jdg_requirement = Optional\<rparr>] = WARN
   \<and> combineVerdicts [\<lparr>jdg_verdict = UNKNOWN, jdg_requirement = Optional\<rparr>,
                    \<lparr>jdg_verdict = OK, jdg_requirement = Required\<rparr>] = WARN"
proof -
  let ?a = "\<lparr>jdg_verdict = OK, jdg_requirement = Required\<rparr>"
  let ?b = "\<lparr>jdg_verdict = UNKNOWN, jdg_requirement = Optional\<rparr>"
  have "combineVerdicts [?a, ?b] = WARN" by code_simp
  with combineVerdicts_lub [of "[?a, ?b]" "[?b, ?a]"] show ?thesis by auto
qed

end
