(* ===== verification/Messages.thy ===== *)
theory Messages
  imports Lattice Stores
begin

text \<open>
  packages/state-machine: message and raw-fact identity (keys.ts), transition inputs (inputs.ts),
  the set of facts known about one message (aggregate.ts) and the transaction-atomic fold
  (transaction.ts). A \<open>Date\<close> is its \<open>getTime()\<close>, an \<open>int\<close>; an optional field is an \<open>option\<close>;
  a thrown error is the \<open>Inl\<close> of the result.
\<close>

section \<open>Identity\<close>

record message_key =
  mk_sourceBlockchainId :: string
  mk_destinationBlockchainId :: string
  mk_teleporterMessengerAddress :: string
  mk_registryProtocolVersion :: int
  mk_messageId :: string

record fact_position =
  fp_blockchainId :: string
  fp_blockNumber :: int
  fp_blockHash :: string

record raw_fact_ref =
  rf_evmChainId :: int
  rf_blockHash :: string
  rf_txHash :: string
  rf_logIndex :: int

definition SEP :: string where
  "SEP = ''|''"

definition message_key_parts :: "message_key \<Rightarrow> string list" where
  "message_key_parts k =
     [mk_sourceBlockchainId k, mk_destinationBlockchainId k, mk_teleporterMessengerAddress k,
      show_int (mk_registryProtocolVersion k), mk_messageId k]"

definition messageKeyOf :: "message_key \<Rightarrow> string" where
  "messageKeyOf k = join SEP (message_key_parts k)"

definition raw_fact_parts :: "raw_fact_ref \<Rightarrow> string list" where
  "raw_fact_parts r =
     [show_int (rf_evmChainId r), rf_blockHash r, rf_txHash r, show_int (rf_logIndex r)]"

definition rawFactRefOf :: "raw_fact_ref \<Rightarrow> string" where
  "rawFactRefOf r = join SEP (raw_fact_parts r)"

definition sameMessage :: "message_key \<Rightarrow> message_key \<Rightarrow> bool" where
  "sameMessage a b \<longleftrightarrow> messageKeyOf a = messageKeyOf b"

definition sameRawFact :: "raw_fact_ref \<Rightarrow> raw_fact_ref \<Rightarrow> bool" where
  "sameRawFact a b \<longleftrightarrow> rawFactRefOf a = rawFactRefOf b"

definition transactionKeyOf :: "raw_fact_ref \<Rightarrow> string" where
  "transactionKeyOf r = join SEP [show_int (rf_evmChainId r), rf_blockHash r, rf_txHash r]"

text \<open>Components that cannot be confused with the separator; every hexadecimal id is one.\<close>

definition sep_free :: "string \<Rightarrow> bool" where
  "sep_free s \<longleftrightarrow> CHR ''|'' \<notin> set s"

lemma sep_free_show_int [simp]: "sep_free (show_int i)"
  using show_int_chars [of "CHR ''|''" i] by (auto simp: sep_free_def is_digit_def)

lemma hex_string_sep_free:
  assumes "hex_string n s"
  shows "sep_free s"
proof -
  have "CHR ''|'' \<notin> set (drop 2 s)"
    using assms by (auto simp: hex_string_def list_all_iff is_lower_hex_def is_digit_def)
  moreover have "CHR ''|'' \<notin> set (take 2 s)"
    using assms by (simp add: hex_string_def)
  ultimately show ?thesis
    unfolding sep_free_def by (metis append_take_drop_id Un_iff set_append)
qed

text \<open>
  The canonical serialisations are identities: on message keys and raw fact references whose
  textual components do not hold the separator (every hexadecimal identifier qualifies), two
  serialisations are equal only for equal keys. In particular two messages that share a
  messageId but differ in route, messenger or registry version never share a key.
\<close>

theorem key_serialisation_injective:
  assumes "list_all sep_free (message_key_parts k)" and "list_all sep_free (message_key_parts l)"
    and "list_all sep_free (raw_fact_parts r)" and "list_all sep_free (raw_fact_parts q)"
  shows "(sameMessage k l \<longleftrightarrow> k = l) \<and> (sameRawFact r q \<longleftrightarrow> r = q)"
proof
  have "messageKeyOf k = messageKeyOf l \<Longrightarrow> message_key_parts k = message_key_parts l"
    unfolding messageKeyOf_def SEP_def
    by (rule join_inject [where c = "CHR ''|''"])
      (use assms in \<open>auto simp: list_all_iff sep_free_def message_key_parts_def\<close>)
  then show "sameMessage k l \<longleftrightarrow> k = l"
    by (auto simp: sameMessage_def message_key_parts_def)
  have "rawFactRefOf r = rawFactRefOf q \<Longrightarrow> raw_fact_parts r = raw_fact_parts q"
    unfolding rawFactRefOf_def SEP_def
    by (rule join_inject [where c = "CHR ''|''"])
      (use assms in \<open>auto simp: list_all_iff sep_free_def raw_fact_parts_def\<close>)
  then show "sameRawFact r q \<longleftrightarrow> r = q"
    by (auto simp: sameRawFact_def raw_fact_parts_def)
qed

theorem key_serialisation_injective_witness:
  "\<not> sameMessage \<lparr>mk_sourceBlockchainId = ''0xaa'', mk_destinationBlockchainId = ''0xbb'',
                  mk_teleporterMessengerAddress = ''0x01'', mk_registryProtocolVersion = 1,
                  mk_messageId = ''0xff''\<rparr>
                 \<lparr>mk_sourceBlockchainId = ''0xaa'', mk_destinationBlockchainId = ''0xbb'',
                  mk_teleporterMessengerAddress = ''0x01'', mk_registryProtocolVersion = 2,
                  mk_messageId = ''0xff''\<rparr>"
  (is "\<not> sameMessage ?k ?l")
proof -
  let ?r = "\<lparr>rf_evmChainId = 1, rf_blockHash = ''0x1'', rf_txHash = ''0x2'', rf_logIndex = 0\<rparr>"
  have "list_all sep_free (message_key_parts ?k)" "list_all sep_free (message_key_parts ?l)"
    "list_all sep_free (raw_fact_parts ?r)"
    unfolding message_key_parts_def raw_fact_parts_def by (simp_all, simp_all add: sep_free_def)
  from key_serialisation_injective [OF this(1,2) this(3) this(3)] show ?thesis by simp
qed

section \<open>Transition inputs\<close>

datatype transition_kind =
  SourceApplicationEmitted | IntentObserved | SourceAccounted | IcmSent | SendRetry
| EnvelopeResigned | Delivered | ExecutionSucceeded | ExecutionFailed | ExecutionRetried
| ReceiptObserved | UnreceivableByVersionPolicy | PausedVersion | Orphaned | Unsupported

record transition_input =
  ti_kind :: transition_kind
  ti_message :: message_key
  ti_fact :: raw_fact_ref
  ti_position :: fact_position
  ti_envelopeId :: "string option"
  ti_carriesEconomicEffect :: "bool option"
  ti_unsupportedReason :: "string option"
  ti_observedAt :: "int option"
  ti_adapterId :: string
  ti_adapterVersion :: int

definition SOURCE_EFFECT_KINDS :: "transition_kind list" where
  "SOURCE_EFFECT_KINDS = [SourceAccounted]"

definition DESTINATION_EFFECT_KINDS :: "transition_kind list" where
  "DESTINATION_EFFECT_KINDS = [ExecutionSucceeded, ExecutionRetried]"

definition assertsExecution :: "transition_kind \<Rightarrow> bool" where
  "assertsExecution k \<longleftrightarrow> k = ExecutionSucceeded \<or> k = ExecutionRetried"

abbreviation fact_id :: "transition_input \<Rightarrow> string" where
  "fact_id i \<equiv> rawFactRefOf (ti_fact i)"

section \<open>Aggregates\<close>

record message_aggregate =
  ma_key :: message_key
  ma_facts :: "(string \<times> transition_input) list"

datatype fold_error =
  MessageKeyMismatchError message_key message_key
| PartialTransactionError string
| MixedTransactionError "string list"

definition emptyAggregate :: "message_key \<Rightarrow> message_aggregate" where
  "emptyAggregate key = \<lparr>ma_key = key, ma_facts = []\<rparr>"

definition reduce :: "message_aggregate \<Rightarrow> transition_input \<Rightarrow> fold_error + message_aggregate" where
  "reduce agg input =
     (if messageKeyOf (ti_message input) \<noteq> messageKeyOf (ma_key agg)
      then Inl (MessageKeyMismatchError (ma_key agg) (ti_message input))
      else let i = rawFactRefOf (ti_fact input)
           in if has_key (ma_facts agg) i then Inr agg
              else Inr \<lparr>ma_key = ma_key agg, ma_facts = AList.update i input (ma_facts agg)\<rparr>)"

definition reduceAll ::
  "message_key \<Rightarrow> transition_input list \<Rightarrow> fold_error + message_aggregate" where
  "reduceAll key inputs = fold_result reduce (emptyAggregate key) inputs"

text \<open>The body of the loop of \<open>groupByMessage\<close>, on the map it builds.\<close>

definition group_step ::
  "(string \<times> message_aggregate) list \<Rightarrow> transition_input
   \<Rightarrow> fold_error + (string \<times> message_aggregate) list" where
  "group_step out input =
     (let i = messageKeyOf (ti_message input);
          agg = (case map_of out i of Some a \<Rightarrow> a | None \<Rightarrow> emptyAggregate (ti_message input))
      in case reduce agg input of Inl e \<Rightarrow> Inl e | Inr a \<Rightarrow> Inr (AList.update i a out))"

definition groupByMessage ::
  "transition_input list \<Rightarrow> fold_error + (string \<times> message_aggregate) list" where
  "groupByMessage inputs = fold_result group_step [] inputs"

definition factsOfKind :: "message_aggregate \<Rightarrow> transition_kind \<Rightarrow> transition_input list" where
  "factsOfKind agg k =
     map snd (sort_key fst (filter (\<lambda>e. ti_kind (snd e) = k) (ma_facts agg)))"

definition has :: "message_aggregate \<Rightarrow> transition_kind \<Rightarrow> bool" where
  "has agg k = list_ex (\<lambda>e. ti_kind (snd e) = k) (ma_facts agg)"

definition supportingFacts :: "message_aggregate \<Rightarrow> raw_fact_ref list" where
  "supportingFacts agg = map (\<lambda>e. ti_fact (snd e)) (sort_key fst (ma_facts agg))"

subsection \<open>The invariant of an aggregate\<close>

text \<open>
  Every entry is filed under its raw fact identity, once, and belongs to the aggregate's message.
\<close>

definition agg_inv :: "message_aggregate \<Rightarrow> bool" where
  "agg_inv agg \<longleftrightarrow>
     distinct (map fst (ma_facts agg))
     \<and> (\<forall>(i, x) \<in> set (ma_facts agg). i = fact_id x
          \<and> messageKeyOf (ti_message x) = messageKeyOf (ma_key agg))"

lemma agg_inv_empty [simp]: "agg_inv (emptyAggregate key)"
  by (simp add: agg_inv_def emptyAggregate_def)

lemma reduce_agg_inv: "agg_inv agg \<Longrightarrow> reduce agg input = Inr agg' \<Longrightarrow> agg_inv agg'"
  by (auto simp: agg_inv_def reduce_def Let_def update_new has_key_def split: if_splits)

lemma reduce_key: "reduce agg input = Inr agg' \<Longrightarrow> ma_key agg' = ma_key agg"
  by (auto simp: reduce_def Let_def split: if_splits)

lemma reduce_same_key:
  "messageKeyOf (ti_message input) = messageKeyOf (ma_key agg) \<Longrightarrow> \<exists>agg'. reduce agg input = Inr agg'"
  by (auto simp: reduce_def Let_def)

lemma reduce_other_key:
  "messageKeyOf (ti_message input) \<noteq> messageKeyOf (ma_key agg) \<Longrightarrow>
     reduce agg input = Inl (MessageKeyMismatchError (ma_key agg) (ti_message input))"
  by (simp add: reduce_def)

text \<open>The aggregate is a first-write-wins store keyed by raw fact identity.\<close>

interpretation agg: keyed_store "\<lambda>i. fact_id i" "\<lambda>a. map_of (ma_facts a)" reduce
proof
  fix s x s' k
  assume "reduce s x = Inr s'"
  then show "map_of (ma_facts s') k =
      (case map_of (ma_facts s) k of Some y \<Rightarrow> Some y
       | None \<Rightarrow> if k = fact_id x then Some x else None)"
    by (auto simp: reduce_def Let_def has_key_map_of update_new map_add_def
        split: if_splits option.splits)
qed

lemma reduces_agg_inv:
  "agg_inv agg \<Longrightarrow> fold_result reduce agg xs = Inr agg' \<Longrightarrow> agg_inv agg'"
  by (erule fold_result_invariant) (auto intro: reduce_agg_inv)

lemma reduces_key:
  "fold_result reduce agg xs = Inr agg' \<Longrightarrow> ma_key agg' = ma_key agg"
  by (erule fold_result_invariant) (auto dest: reduce_key)

lemma reduces_Inr_iff:
  "(\<exists>agg'. fold_result reduce agg xs = Inr agg') \<longleftrightarrow>
     (\<forall>x \<in> set xs. messageKeyOf (ti_message x) = messageKeyOf (ma_key agg))"
proof (induction xs arbitrary: agg)
  case (Cons x xs)
  show ?case
  proof (cases "reduce agg x")
    case (Inl e)
    then show ?thesis using reduce_same_key [of x agg] by auto
  next
    case (Inr agg1)
    moreover from Inr have "messageKeyOf (ti_message x) = messageKeyOf (ma_key agg)"
      using reduce_other_key [of x agg] by fastforce
    ultimately show ?thesis using Cons.IH [of agg1] reduce_key [OF Inr] by simp
  qed
qed simp

lemma reduceAll_Inr_iff:
  "(\<exists>agg. reduceAll key xs = Inr agg) \<longleftrightarrow>
     (\<forall>x \<in> set xs. messageKeyOf (ti_message x) = messageKeyOf key)"
  by (simp add: reduceAll_def reduces_Inr_iff emptyAggregate_def)

lemma reduceAll_inv: "reduceAll key xs = Inr agg \<Longrightarrow> agg_inv agg"
  unfolding reduceAll_def by (rule reduces_agg_inv [OF agg_inv_empty])

lemma reduceAll_key: "reduceAll key xs = Inr agg \<Longrightarrow> ma_key agg = key"
  unfolding reduceAll_def by (drule reduces_key) (simp add: emptyAggregate_def)

text \<open>Two aggregates with the same entries, in whatever order.\<close>

definition same_facts :: "message_aggregate \<Rightarrow> message_aggregate \<Rightarrow> bool" where
  "same_facts a b \<longleftrightarrow> ma_key a = ma_key b \<and> mset (ma_facts a) = mset (ma_facts b)"

lemma same_lookup_same_mset:
  assumes "distinct (map fst xs)" and "distinct (map fst ys)" and "\<And>k. map_of xs k = map_of ys k"
  shows "mset xs = mset ys"
proof -
  have "set xs = set ys"
  proof (rule set_eqI)
    fix e :: "'a \<times> 'b"
    obtain k v where "e = (k, v)" by (cases e)
    with assms show "e \<in> set xs \<longleftrightarrow> e \<in> set ys" by (metis map_of_eq_Some_iff)
  qed
  moreover have "distinct xs" "distinct ys" using assms(1,2) by (simp_all add: distinct_map)
  ultimately show ?thesis by (simp add: set_eq_iff_mset_eq_distinct)
qed

lemma same_factsI:
  assumes "agg_inv a" and "agg_inv b" and "ma_key a = ma_key b"
    and "\<And>k. map_of (ma_facts a) k = map_of (ma_facts b) k"
  shows "same_facts a b"
  using assms by (simp add: same_facts_def agg_inv_def same_lookup_same_mset)

lemma reduceAll_same_facts:
  assumes "set xs = set ys" and "inj_on fact_id (set xs)"
    and "reduceAll key xs = Inr a" and "reduceAll key ys = Inr b"
  shows "same_facts a b"
proof (rule same_factsI)
  fix k
  from assms show "map_of (ma_facts a) k = map_of (ma_facts b) k"
    unfolding reduceAll_def by (intro agg.puts_same_set)
qed (use assms reduceAll_inv reduceAll_key in blast)+

subsection \<open>Grouping loose inputs\<close>

text \<open>The groups of a partial run: each key holds the reduction of the inputs of that key.\<close>

definition groups_inv ::
  "transition_input list \<Rightarrow> (string \<times> message_aggregate) list \<Rightarrow> bool" where
  "groups_inv done out \<longleftrightarrow>
     distinct (map fst out)
     \<and> (\<forall>i a. map_of out i = Some a \<longrightarrow>
          messageKeyOf (ma_key a) = i
          \<and> reduceAll (ma_key a) (filter (\<lambda>x. messageKeyOf (ti_message x) = i) done) = Inr a)
     \<and> fst ` set out = (\<lambda>x. messageKeyOf (ti_message x)) ` set done"

lemma group_step_inv:
  assumes "groups_inv done out"
  shows "\<exists>out'. group_step out x = Inr out' \<and> groups_inv (done @ [x]) out'"
proof -
  let ?i = "messageKeyOf (ti_message x)"
  let ?agg = "case map_of out ?i of Some a \<Rightarrow> a | None \<Rightarrow> emptyAggregate (ti_message x)"
  let ?mine = "filter (\<lambda>x. messageKeyOf (ti_message x) = ?i) done"
  have agg: "messageKeyOf (ma_key ?agg) = ?i \<and> reduceAll (ma_key ?agg) ?mine = Inr ?agg"
  proof (cases "map_of out ?i")
    case None
    then have "?i \<notin> fst ` set out" by (simp add: map_of_eq_None_iff)
    also have "fst ` set out = (\<lambda>x. messageKeyOf (ti_message x)) ` set done"
      using assms by (simp add: groups_inv_def)
    finally have "?mine = []" by (intro filter_False ballI notI) (erule notE, erule rev_image_eqI, simp)
    with None show ?thesis by (simp add: emptyAggregate_def reduceAll_def)
  next
    case (Some a)
    with assms show ?thesis by (simp add: groups_inv_def)
  qed
  then obtain a' where a': "reduce ?agg x = Inr a'" using reduce_same_key by metis
  then have key: "ma_key a' = ma_key ?agg" by (rule reduce_key)
  have all: "reduceAll (ma_key a') (?mine @ [x]) = Inr a'"
    using agg a' unfolding key reduceAll_def fold_result_append by simp
  have step: "group_step out x = Inr (AList.update ?i a' out)"
    using a' by (simp add: group_step_def Let_def)
  have "groups_inv (done @ [x]) (AList.update ?i a' out)"
    unfolding groups_inv_def
  proof (intro conjI allI impI)
    show "distinct (map fst (AList.update ?i a' out))"
      using assms by (simp add: groups_inv_def distinct_update)
  next
    fix i a assume "map_of (AList.update ?i a' out) i = Some a"
    then have *: "(if i = ?i then Some a' else map_of out i) = Some a"
      by (simp add: update_conv')
    show "messageKeyOf (ma_key a) = i"
      using * agg key assms by (auto simp: groups_inv_def split: if_splits)
    show "reduceAll (ma_key a) (filter (\<lambda>x. messageKeyOf (ti_message x) = i) (done @ [x])) = Inr a"
      using * all assms by (auto simp: groups_inv_def split: if_splits)
  next
    show "fst ` set (AList.update ?i a' out)
        = (\<lambda>x. messageKeyOf (ti_message x)) ` set (done @ [x])"
      using assms by (simp add: groups_inv_def dom_update)
  qed
  with step show ?thesis by blast
qed

lemma groupByMessage_inv: "\<exists>out. groupByMessage xs = Inr out \<and> groups_inv xs out"
proof (induction xs rule: rev_induct)
  case Nil
  show ?case by (simp add: groupByMessage_def groups_inv_def)
next
  case (snoc x xs)
  then obtain out where out: "groupByMessage xs = Inr out" "groups_inv xs out" by blast
  with group_step_inv [OF out(2), of x] show ?case
    by (auto simp: groupByMessage_def fold_result_append)
qed

text \<open>
  Grouping loose inputs never raises the key-mismatch error, and puts every input in the
  aggregate of its own message and in no other: the group of a key is exactly the reduction of
  the inputs with that key, and a key without inputs has no group.
\<close>

theorem groupByMessage_partition:
  "\<exists>out. groupByMessage xs = Inr out \<and> distinct (map fst out)
     \<and> fst ` set out = (\<lambda>x. messageKeyOf (ti_message x)) ` set xs
     \<and> (\<forall>(i, a) \<in> set out. messageKeyOf (ma_key a) = i \<and> agg_inv a
          \<and> reduceAll (ma_key a) (filter (\<lambda>x. messageKeyOf (ti_message x) = i) xs) = Inr a)"
proof -
  obtain out where out: "groupByMessage xs = Inr out" and inv: "groups_inv xs out"
    using groupByMessage_inv by blast
  then have dist: "distinct (map fst out)"
    and "fst ` set out = (\<lambda>x. messageKeyOf (ti_message x)) ` set xs"
    by (simp_all add: groups_inv_def)
  moreover have "\<forall>(i, a) \<in> set out. messageKeyOf (ma_key a) = i \<and> agg_inv a
      \<and> reduceAll (ma_key a) (filter (\<lambda>x. messageKeyOf (ti_message x) = i) xs) = Inr a"
    using inv dist by (auto simp: groups_inv_def dest: reduceAll_inv)
  ultimately show ?thesis using out dist by blast
qed

section \<open>Transactions\<close>

record transaction_batch =
  tb_inputs :: "transition_input list"
  tb_complete :: bool

abbreviation tx_key :: "transition_input \<Rightarrow> string" where
  "tx_key i \<equiv> transactionKeyOf (ti_fact i)"

definition reduceTransaction ::
  "message_aggregate \<Rightarrow> transaction_batch \<Rightarrow> fold_error + message_aggregate" where
  "reduceTransaction agg batch =
     (if length (tb_inputs batch) = 0 then Inr agg
      else let keys = uniq (map tx_key (tb_inputs batch))
           in if length keys > 1 then Inl (MixedTransactionError keys)
              else case keys of
                     [] \<Rightarrow> Inr agg
                   | txKey # _ \<Rightarrow>
                       if \<not> tb_complete batch then Inl (PartialTransactionError txKey)
                       else fold_result reduce agg
                              (filter (\<lambda>i. mk_messageId (ti_message i) = mk_messageId (ma_key agg))
                                 (tb_inputs batch)))"

definition groupByTransaction ::
  "transition_input list \<Rightarrow> (string \<times> transition_input list) list" where
  "groupByTransaction inputs =
     map (\<lambda>(k, v). (k, sort_key (\<lambda>i. rf_logIndex (ti_fact i)) v))
       (sort_key fst (group_by tx_key (\<lambda>i. i) inputs))"

text \<open>The inputs of a batch that concern the aggregate's message.\<close>

abbreviation mine :: "message_aggregate \<Rightarrow> transaction_batch \<Rightarrow> transition_input list" where
  "mine agg batch \<equiv>
     filter (\<lambda>i. mk_messageId (ti_message i) = mk_messageId (ma_key agg)) (tb_inputs batch)"

definition one_transaction :: "transaction_batch \<Rightarrow> bool" where
  "one_transaction batch \<longleftrightarrow> (\<forall>i \<in> set (tb_inputs batch). \<forall>j \<in> set (tb_inputs batch). tx_key i = tx_key j)"

lemma uniq_length_le_1:
  "length (uniq xs) \<le> 1 \<longleftrightarrow> (\<forall>x \<in> set xs. \<forall>y \<in> set xs. x = y)"
  by (simp add: length_uniq card_le_Suc0_iff_eq)

lemma reduceTransaction_cases:
  "reduceTransaction agg batch =
     (if tb_inputs batch = [] then Inr agg
      else if \<not> one_transaction batch
           then Inl (MixedTransactionError (uniq (map tx_key (tb_inputs batch))))
      else if \<not> tb_complete batch then Inl (PartialTransactionError (tx_key (hd (tb_inputs batch))))
      else fold_result reduce agg (mine agg batch))"
proof (cases "tb_inputs batch")
  case Nil
  then show ?thesis by (simp add: reduceTransaction_def)
next
  case (Cons i js)
  let ?keys = "uniq (map tx_key (tb_inputs batch))"
  obtain rest where rest: "?keys = tx_key i # rest" using Cons by simp
  have "length ?keys > 1 \<longleftrightarrow> \<not> one_transaction batch"
    using uniq_length_le_1 [of "map tx_key (tb_inputs batch)"]
    by (auto simp: one_transaction_def not_le [symmetric])
  with Cons rest show ?thesis
    unfolding reduceTransaction_def Let_def by simp
qed

text \<open>
  A transaction is reduced whole or not at all. The fold succeeds only on an empty batch or
  on a complete batch from one transaction all of whose inputs with the aggregate's message id
  carry its full key; it then holds the aggregate's facts and exactly the batch's own facts of
  that message, first observation winning, so folding the batch again returns the very same
  aggregate. A partial or mixed batch is an error, never a state.
\<close>

theorem reduceTransaction_atomic:
  assumes "agg_inv agg" and "reduceTransaction agg batch = Inr agg'"
  shows "agg_inv agg'
       \<and> (tb_inputs batch = [] \<or> (tb_complete batch \<and> one_transaction batch))
       \<and> (\<forall>i \<in> set (mine agg batch). messageKeyOf (ti_message i) = messageKeyOf (ma_key agg))
       \<and> (\<forall>k. map_of (ma_facts agg') k =
              (case map_of (ma_facts agg) k of Some y \<Rightarrow> Some y
               | None \<Rightarrow> find (\<lambda>i. fact_id i = k) (mine agg batch)))
       \<and> reduceTransaction agg' batch = Inr agg'"
proof -
  have run: "fold_result reduce agg (mine agg batch) = Inr agg'"
    and whole: "tb_inputs batch = [] \<or> (tb_complete batch \<and> one_transaction batch)"
    using assms(2) by (auto simp: reduceTransaction_cases split: if_splits)
  have inv: "agg_inv agg'" using assms(1) run by (rule reduces_agg_inv)
  have key: "ma_key agg' = ma_key agg" using run by (rule reduces_key)
  have keys: "\<forall>i \<in> set (mine agg batch). messageKeyOf (ti_message i) = messageKeyOf (ma_key agg)"
    using run reduces_Inr_iff [where xs = "mine agg batch" and agg = agg] by blast
  have look: "map_of (ma_facts agg') k =
      (case map_of (ma_facts agg) k of Some y \<Rightarrow> Some y
       | None \<Rightarrow> find (\<lambda>i. fact_id i = k) (mine agg batch))" for k
    using run by (rule agg.puts_lookup)
  have present: "reduce agg' i = Inr agg'" if "i \<in> set (mine agg batch)" for i
  proof -
    have "find (\<lambda>j. fact_id j = fact_id i) (mine agg batch) \<noteq> None"
      using that unfolding find_None_iff by blast
    then have "map_of (ma_facts agg') (fact_id i) \<noteq> None"
      by (auto simp: look split: option.splits)
    then have "has_key (ma_facts agg') (fact_id i)" unfolding has_key_map_of .
    with keys that show ?thesis by (simp add: reduce_def Let_def key)
  qed
  have "set xs \<subseteq> set (mine agg batch) \<Longrightarrow> fold_result reduce agg' xs = Inr agg'" for xs
    by (induction xs) (auto simp: present)
  then have "fold_result reduce agg' (mine agg' batch) = Inr agg'"
    by (simp add: key)
  then have "reduceTransaction agg' batch = Inr agg'"
    using whole unfolding reduceTransaction_cases by auto
  with inv whole keys look show ?thesis by blast
qed

definition example_key :: message_key where
  "example_key = \<lparr>mk_sourceBlockchainId = ''s'', mk_destinationBlockchainId = ''d'',
     mk_teleporterMessengerAddress = ''t'', mk_registryProtocolVersion = 1, mk_messageId = ''m''\<rparr>"

definition example_input :: "transition_kind \<Rightarrow> message_key \<Rightarrow> string \<Rightarrow> int \<Rightarrow> transition_input" where
  "example_input k key tx idx =
     \<lparr>ti_kind = k, ti_message = key,
      ti_fact = \<lparr>rf_evmChainId = 1, rf_blockHash = ''b'', rf_txHash = tx, rf_logIndex = idx\<rparr>,
      ti_position = \<lparr>fp_blockchainId = ''d'', fp_blockNumber = 10, fp_blockHash = ''b''\<rparr>,
      ti_envelopeId = None, ti_carriesEconomicEffect = None, ti_unsupportedReason = None,
      ti_observedAt = None, ti_adapterId = ''a'', ti_adapterVersion = 1\<rparr>"

definition example_batch :: transaction_batch where
  "example_batch =
     \<lparr>tb_inputs = [example_input Delivered example_key ''x'' 1,
                   example_input ExecutionSucceeded example_key ''x'' 2,
                   example_input Delivered example_key ''x'' 1], tb_complete = True\<rparr>"

lemma example_batch_reduced:
  "\<exists>agg. reduceTransaction (emptyAggregate example_key) example_batch = Inr agg"
proof -
  have "\<exists>agg. fold_result reduce (emptyAggregate example_key)
      (mine (emptyAggregate example_key) example_batch) = Inr agg"
    unfolding reduces_Inr_iff
    by (simp add: example_batch_def example_input_def emptyAggregate_def)
  moreover have "one_transaction example_batch" "tb_complete example_batch"
    by (auto simp: one_transaction_def example_batch_def example_input_def transactionKeyOf_def)
  ultimately show ?thesis by (simp add: reduceTransaction_cases)
qed

theorem reduceTransaction_atomic_witness:
  "\<exists>agg. reduceTransaction (emptyAggregate example_key) example_batch = Inr agg
     \<and> reduceTransaction agg example_batch = Inr agg"
proof -
  obtain agg where "reduceTransaction (emptyAggregate example_key) example_batch = Inr agg"
    using example_batch_reduced by blast
  with reduceTransaction_atomic [OF agg_inv_empty this] show ?thesis by blast
qed

text \<open>
  The batch filter compares message ids only. A complete transaction that also carries
  another route's message with the same message id is therefore not reduced for this aggregate:
  the fold stops with the key-mismatch error instead of skipping the foreign input.
\<close>

theorem reduceTransaction_foreign_route:
  assumes "tb_complete batch" and "one_transaction batch" and "i \<in> set (tb_inputs batch)"
    and "mk_messageId (ti_message i) = mk_messageId (ma_key agg)"
    and "messageKeyOf (ti_message i) \<noteq> messageKeyOf (ma_key agg)"
  shows "\<exists>e. reduceTransaction agg batch = Inl e"
proof -
  have "i \<in> set (mine agg batch)" using assms(3,4) by simp
  then have "\<nexists>agg'. fold_result reduce agg (mine agg batch) = Inr agg'"
    using assms(5) unfolding reduces_Inr_iff by blast
  then obtain e where "fold_result reduce agg (mine agg batch) = Inl e"
    by (cases "fold_result reduce agg (mine agg batch)") auto
  then show ?thesis using assms(1-3) by (auto simp: reduceTransaction_cases)
qed

theorem reduceTransaction_foreign_route_witness:
  "\<exists>e. reduceTransaction (emptyAggregate example_key)
     \<lparr>tb_inputs = [example_input Delivered example_key ''x'' 1,
        example_input Delivered (example_key\<lparr>mk_registryProtocolVersion := 2\<rparr>) ''x'' 2],
      tb_complete = True\<rparr> = Inl e"
proof (rule reduceTransaction_foreign_route)
  let ?i = "example_input Delivered (example_key\<lparr>mk_registryProtocolVersion := 2\<rparr>) ''x'' 2"
  show "?i \<in> set (tb_inputs \<lparr>tb_inputs = [example_input Delivered example_key ''x'' 1, ?i],
      tb_complete = True\<rparr>)" by simp
  show "messageKeyOf (ti_message ?i) \<noteq> messageKeyOf (ma_key (emptyAggregate example_key))"
    by (simp add: example_input_def example_key_def emptyAggregate_def messageKeyOf_def
        message_key_parts_def SEP_def show_int_def show_nat.simps digit_char_def)
qed (auto simp: example_input_def example_key_def emptyAggregate_def one_transaction_def
    transactionKeyOf_def)

text \<open>
  Splitting loose inputs into transactions loses and invents nothing: the batches are in
  strictly ascending order of transaction key, each holds exactly the inputs of its transaction,
  in log-index order, and is a single transaction that \<open>reduceTransaction\<close> never calls mixed.
\<close>

theorem groupByTransaction_partition:
  "sorted_wrt (<) (map fst (groupByTransaction xs))
   \<and> (\<Sum>(k, v) \<leftarrow> groupByTransaction xs. mset v) = mset xs
   \<and> (\<forall>(k, v) \<in> set (groupByTransaction xs).
        v \<noteq> [] \<and> mset v = filter_mset (\<lambda>x. tx_key x = k) (mset xs)
        \<and> sorted (map (\<lambda>i. rf_logIndex (ti_fact i)) v)
        \<and> one_transaction \<lparr>tb_inputs = v, tb_complete = c\<rparr>)"
  (is "?ordered \<and> ?all \<and> ?each")
proof (intro conjI)
  let ?logs = "\<lambda>i. rf_logIndex (ti_fact i)"
  let ?groups = "group_by tx_key (\<lambda>i. i) xs"
  have keys: "map fst (groupByTransaction xs) = map fst (sort_key fst ?groups)"
    by (simp add: groupByTransaction_def comp_def split_def)
  have "distinct (map fst (sort_key fst ?groups))"
    using distinct_group_by [of tx_key "\<lambda>i. i" xs] by (metis mset_map mset_sort mset_eq_imp_distinct_iff)
  moreover have "sorted (map fst (sort_key fst ?groups))" by (rule sorted_sort_key)
  ultimately show ?ordered unfolding keys by (simp add: strict_sorted_iff)
  have set: "set (groupByTransaction xs) = (\<lambda>(k, v). (k, sort_key ?logs v)) ` set ?groups"
    by (simp add: groupByTransaction_def)
  have grp: "(k, v) \<in> set ?groups \<longleftrightarrow> k \<in> tx_key ` set xs \<and> v = filter (\<lambda>x. tx_key x = k) xs" for k v
    by (auto simp: group_by_eq)
  show ?each unfolding set
    by (auto simp: grp one_transaction_def filter_empty_conv simp flip: mset_filter)
  have "mset (map (\<lambda>(k, v). mset v) (groupByTransaction xs)) = mset (map (\<lambda>(k, v). mset v) ?groups)"
    by (simp add: groupByTransaction_def comp_def split_def)
  then have "(\<Sum>(k, v) \<leftarrow> groupByTransaction xs. mset v) = (\<Sum>(k, v) \<leftarrow> ?groups. mset v)"
    by (metis sum_mset_sum_list)
  also have "\<dots> = (\<Sum>k \<leftarrow> uniq (map tx_key xs). mset (filter (\<lambda>x. tx_key x = k) xs))"
    by (simp add: group_by_eq comp_def)
  also have "\<dots> = mset xs"
    using mset_split_by_key [where ks = "uniq (map tx_key xs)" and f = tx_key and xs = xs] by simp
  finally show ?all .
qed

theorem groupByTransaction_partition_witness:
  "list_all (\<lambda>(k, v). v \<noteq> [] \<and> one_transaction \<lparr>tb_inputs = v, tb_complete = True\<rparr>)
     (groupByTransaction (tb_inputs example_batch))"
  unfolding list_all_iff using groupByTransaction_partition [of "tb_inputs example_batch" True] by fast

theorem groupByMessage_partition_witness:
  "\<exists>out. groupByMessage (tb_inputs example_batch) = Inr out
     \<and> fst ` set out = {messageKeyOf example_key}"
proof -
  have "(\<lambda>x. messageKeyOf (ti_message x)) ` set (tb_inputs example_batch) = {messageKeyOf example_key}"
    by (simp add: example_batch_def example_input_def)
  with groupByMessage_partition [of "tb_inputs example_batch"] show ?thesis by auto
qed

end
