(* ===== verification/Derive.thy ===== *)
theory Derive
  imports Messages "HOL-Library.Option_ord"
begin

text \<open>
  packages/state-machine: the semantic message states (states.ts) and the derivation of a state
  from a set of facts (derive.ts). \<open>deriveState\<close> is pure; the evaluation time is an argument.
\<close>

section \<open>States\<close>

datatype message_state =
  SOURCE_APPLICATION_EMITTED | INTENT_OBSERVED | SOURCE_ACCOUNTED | ICM_SENT | DELIVERED
| EXECUTED_SUCCESS | EXECUTED_FAILED | RETRY_PENDING | RETRIED_SUCCESS | RECEIPT_OBSERVED
| UNRECEIVABLE_BY_VERSION_POLICY | PAUSED_VERSION | STALE | ORPHANED | UNCLASSIFIABLE

definition TERMINAL_STATES :: "message_state list" where
  "TERMINAL_STATES = [EXECUTED_SUCCESS, RETRIED_SUCCESS, ORPHANED]"

definition isTerminal :: "message_state \<Rightarrow> bool" where
  "isTerminal s \<longleftrightarrow> s \<in> set TERMINAL_STATES"

definition HEALTHY_STATES :: "message_state list" where
  "HEALTHY_STATES = [EXECUTED_SUCCESS, RETRIED_SUCCESS]"

definition isHealthyState :: "message_state \<Rightarrow> bool" where
  "isHealthyState s \<longleftrightarrow> s \<in> set HEALTHY_STATES"

fun stateVerdict :: "message_state \<Rightarrow> verdict" where
  "stateVerdict EXECUTED_SUCCESS = OK"
| "stateVerdict RETRIED_SUCCESS = OK"
| "stateVerdict EXECUTED_FAILED = WARN"
| "stateVerdict RETRY_PENDING = WARN"
| "stateVerdict SOURCE_APPLICATION_EMITTED = WARN"
| "stateVerdict INTENT_OBSERVED = WARN"
| "stateVerdict SOURCE_ACCOUNTED = WARN"
| "stateVerdict ICM_SENT = WARN"
| "stateVerdict DELIVERED = WARN"
| "stateVerdict RECEIPT_OBSERVED = WARN"
| "stateVerdict UNRECEIVABLE_BY_VERSION_POLICY = UNKNOWN"
| "stateVerdict PAUSED_VERSION = UNKNOWN"
| "stateVerdict STALE = UNKNOWN"
| "stateVerdict ORPHANED = UNKNOWN"
| "stateVerdict UNCLASSIFIABLE = UNKNOWN"

lemma stateVerdict_OK: "stateVerdict s = OK \<longleftrightarrow> isHealthyState s"
  by (cases s) (simp_all add: isHealthyState_def HEALTHY_STATES_def)

section \<open>Derivation\<close>

record evaluation_context =
  ec_evaluatedAt :: int
  ec_staleAfterMs :: int

record economic_effect =
  ee_count :: nat
  ee_sourceFact :: "raw_fact_ref option"
  ee_destinationFact :: "raw_fact_ref option"

record derived_message =
  dm_state :: message_state
  dm_verdict :: verdict
  dm_effect :: economic_effect
  dm_duplicateEffectFacts :: "raw_fact_ref list"
  dm_sendAttempts :: nat
  dm_executionAttempts :: nat
  dm_envelopeIds :: "string list"
  dm_receiptObserved :: bool
  dm_unsupportedReasons :: "string list"
  dm_supportingFacts :: "raw_fact_ref list"

definition carriesEffect :: "transition_input \<Rightarrow> bool" where
  "carriesEffect f \<longleftrightarrow> ti_carriesEconomicEffect f \<noteq> Some False"

definition later :: "int option \<Rightarrow> transition_input \<Rightarrow> int option" where
  "later latest f =
     (case ti_observedAt f of None \<Rightarrow> latest
      | Some t \<Rightarrow> (case latest of None \<Rightarrow> Some t | Some l \<Rightarrow> if t > l then Some t else latest))"

definition latestObservedAt :: "message_aggregate \<Rightarrow> int option" where
  "latestObservedAt agg = foldl later None (map snd (ma_facts agg))"

definition lifecycleState :: "message_aggregate \<Rightarrow> message_state" where
  "lifecycleState agg =
     (if length (ma_facts agg) = 0 then UNCLASSIFIABLE
      else if has agg Unsupported then UNCLASSIFIABLE
      else if has agg Orphaned then ORPHANED
      else if has agg PausedVersion then PAUSED_VERSION
      else if has agg UnreceivableByVersionPolicy then UNRECEIVABLE_BY_VERSION_POLICY
      else if has agg ExecutionRetried then RETRIED_SUCCESS
      else if has agg ExecutionSucceeded then EXECUTED_SUCCESS
      else if has agg ExecutionFailed
           then (if has agg SendRetry \<or> has agg EnvelopeResigned then RETRY_PENDING
                 else EXECUTED_FAILED)
      else if has agg Delivered then DELIVERED
      else if has agg IcmSent \<or> has agg SendRetry then ICM_SENT
      else if has agg SourceAccounted then SOURCE_ACCOUNTED
      else if has agg IntentObserved then INTENT_OBSERVED
      else if has agg SourceApplicationEmitted then SOURCE_APPLICATION_EMITTED
      else if has agg ReceiptObserved then RECEIPT_OBSERVED
      else UNCLASSIFIABLE)"

definition economicEffectOf ::
  "message_aggregate \<Rightarrow> economic_effect \<times> raw_fact_ref list" where
  "economicEffectOf agg =
     (let facts = map snd (ma_facts agg);
          sourceFacts = filter (\<lambda>f. ti_kind f \<in> set SOURCE_EFFECT_KINDS \<and> carriesEffect f) facts;
          destinationFacts =
            filter (\<lambda>f. ti_kind f \<in> set DESTINATION_EFFECT_KINDS \<and> carriesEffect f) facts;
          distinctFacts =
            map ti_fact (sort_key fact_id
              (map snd (map_of_entries (map (\<lambda>f. (fact_id f, f)) destinationFacts))));
          first = (case distinctFacts of [] \<Rightarrow> None | f # _ \<Rightarrow> Some f);
          sourceFirst =
            (case map ti_fact (sort_key fact_id sourceFacts) of [] \<Rightarrow> None | f # _ \<Rightarrow> Some f)
      in (\<lparr>ee_count = (if first = None then 0 else 1), ee_sourceFact = sourceFirst,
           ee_destinationFact = first\<rparr>,
          if length distinctFacts > 1 then distinctFacts else []))"

definition is_stale :: "message_aggregate \<Rightarrow> evaluation_context \<Rightarrow> message_state \<Rightarrow> bool" where
  "is_stale agg context base =
     (\<not> isTerminal base \<and> stateVerdict base = WARN
      \<and> (case latestObservedAt agg of None \<Rightarrow> False
          | Some observedAt \<Rightarrow> ec_evaluatedAt context - observedAt > ec_staleAfterMs context))"

definition deriveState :: "message_aggregate \<Rightarrow> evaluation_context \<Rightarrow> derived_message" where
  "deriveState agg context =
     (let base = lifecycleState agg;
          (effect, duplicates) = economicEffectOf agg;
          state = (if is_stale agg context base then STALE else base);
          facts = map snd (ma_facts agg)
      in \<lparr>dm_state = state,
          dm_verdict = (if length duplicates > 0 then CRITICAL else stateVerdict state),
          dm_effect = effect,
          dm_duplicateEffectFacts = duplicates,
          dm_sendAttempts = length (factsOfKind agg IcmSent) + length (factsOfKind agg SendRetry),
          dm_executionAttempts =
            length (factsOfKind agg ExecutionSucceeded)
            + length (factsOfKind agg ExecutionFailed)
            + length (factsOfKind agg ExecutionRetried),
          dm_envelopeIds = sort (uniq (List.map_filter ti_envelopeId facts)),
          dm_receiptObserved = has agg ReceiptObserved,
          dm_unsupportedReasons = sort (uniq (List.map_filter ti_unsupportedReason facts)),
          dm_supportingFacts = supportingFacts agg\<rparr>)"

section \<open>Order independence\<close>

lemma has_iff: "has agg k \<longleftrightarrow> (\<exists>(i, f) \<in> set (ma_facts agg). ti_kind f = k)"
  by (force simp: has_def list_ex_iff)

lemma same_facts_set: "same_facts a b \<Longrightarrow> set (ma_facts a) = set (ma_facts b)"
  unfolding same_facts_def by (metis set_mset_mset)

lemma same_facts_has: "same_facts a b \<Longrightarrow> has a k = has b k"
  by (simp add: has_iff same_facts_set)

lemma same_facts_length: "same_facts a b \<Longrightarrow> length (ma_facts a) = length (ma_facts b)"
  unfolding same_facts_def by (blast dest: mset_eq_length)

lemma same_facts_lifecycle:
  assumes "same_facts a b"
  shows "lifecycleState a = lifecycleState b"
proof -
  have eq: "has a = has b" by (rule ext) (rule same_facts_has [OF assms])
  show ?thesis unfolding lifecycleState_def same_facts_length [OF assms] eq by (rule refl)
qed

lemma same_facts_sorted:
  assumes "same_facts a b" and "agg_inv a"
  shows "sort_key fst (filter (\<lambda>e. P (snd e)) (ma_facts a))
       = sort_key fst (filter (\<lambda>e. P (snd e)) (ma_facts b))"
proof (rule sort_key_permutation)
  show "mset (filter (\<lambda>e. P (snd e)) (ma_facts a)) = mset (filter (\<lambda>e. P (snd e)) (ma_facts b))"
    using assms(1) by (simp add: same_facts_def)
  show "inj_on fst (set (filter (\<lambda>e. P (snd e)) (ma_facts a)))"
    using assms(2) by (auto simp: agg_inv_def distinct_map intro: inj_on_subset)
qed

lemma same_facts_ofKind:
  "same_facts a b \<Longrightarrow> agg_inv a \<Longrightarrow> factsOfKind a k = factsOfKind b k"
  unfolding factsOfKind_def by (simp add: same_facts_sorted [where P = "\<lambda>f. ti_kind f = k"])

lemma same_facts_supporting:
  "same_facts a b \<Longrightarrow> agg_inv a \<Longrightarrow> supportingFacts a = supportingFacts b"
  using same_facts_sorted [where P = "\<lambda>f. True"] by (simp add: supportingFacts_def)

text \<open>In an aggregate the identity of an entry is its fact, so sorting by either is the same.\<close>

lemma sort_entries:
  assumes "\<forall>(i, f) \<in> set xs. i = fact_id f" and "distinct (map fst xs)"
  shows "map snd (sort_key fst xs) = sort_key fact_id (map snd xs)"
proof (rule sym, rule sort_key_inj_key_eq)
  have snd: "map fst xs = map (\<lambda>e. fact_id (snd e)) xs" using assms(1) by auto
  show "mset (map snd xs) = mset (map snd (sort_key fst xs))" by simp
  show "inj_on fact_id (set (map snd xs))"
    using assms(2) unfolding snd by (auto simp: distinct_map intro!: inj_onI dest: inj_onD)
  have "map fst (sort_key fst xs) = map fact_id (map snd (sort_key fst xs))"
    using assms(1) by auto
  then show "sorted (map fact_id (map snd (sort_key fst xs)))"
    by (metis sorted_sort_key)
qed

lemma sort_facts:
  assumes "agg_inv agg"
  shows "sort_key fact_id (filter P (map snd (ma_facts agg)))
       = map snd (sort_key fst (filter (\<lambda>e. P (snd e)) (ma_facts agg)))"
proof -
  let ?es = "filter (\<lambda>e. P (snd e)) (ma_facts agg)"
  have "\<forall>(i, f) \<in> set ?es. i = fact_id f" "distinct (map fst ?es)"
    using assms by (auto simp: agg_inv_def intro: distinct_map_filter)
  from sort_entries [OF this] show ?thesis by (simp add: filter_map comp_def)
qed

definition is_credit :: "transition_input \<Rightarrow> bool" where
  "is_credit f \<longleftrightarrow> ti_kind f \<in> set DESTINATION_EFFECT_KINDS \<and> carriesEffect f"

definition is_debit :: "transition_input \<Rightarrow> bool" where
  "is_debit f \<longleftrightarrow> ti_kind f \<in> set SOURCE_EFFECT_KINDS \<and> carriesEffect f"

text \<open>The credited executions of an aggregate, in canonical order.\<close>

definition credits :: "message_aggregate \<Rightarrow> raw_fact_ref list" where
  "credits agg = map (\<lambda>e. ti_fact (snd e)) (sort_key fst (filter (\<lambda>e. is_credit (snd e)) (ma_facts agg)))"

definition debits :: "message_aggregate \<Rightarrow> raw_fact_ref list" where
  "debits agg = map (\<lambda>e. ti_fact (snd e)) (sort_key fst (filter (\<lambda>e. is_debit (snd e)) (ma_facts agg)))"

lemma economicEffectOf_eq:
  assumes "agg_inv agg"
  shows "economicEffectOf agg =
     (\<lparr>ee_count = (if credits agg = [] then 0 else 1),
       ee_sourceFact = (case debits agg of [] \<Rightarrow> None | f # _ \<Rightarrow> Some f),
       ee_destinationFact = (case credits agg of [] \<Rightarrow> None | f # _ \<Rightarrow> Some f)\<rparr>,
      if length (credits agg) > 1 then credits agg else [])"
proof -
  let ?dest = "filter is_credit (map snd (ma_facts agg))"
  have "map fst (map (\<lambda>f. (fact_id f, f)) ?dest)
      = map fst (filter (\<lambda>e. is_credit (snd e)) (ma_facts agg))"
    using assms by (auto simp: agg_inv_def filter_map comp_def)
  then have "distinct (map fst (map (\<lambda>f. (fact_id f, f)) ?dest))"
    using assms by (simp only: agg_inv_def distinct_map_filter)
  then have "map snd (map_of_entries (map (\<lambda>f. (fact_id f, f)) ?dest)) = ?dest"
    by (simp add: map_of_entries_distinct comp_def)
  then have "map ti_fact (sort_key fact_id
      (map snd (map_of_entries (map (\<lambda>f. (fact_id f, f)) ?dest)))) = credits agg"
    using sort_facts [OF assms, of is_credit] by (simp add: credits_def)
  moreover have "map ti_fact (sort_key fact_id (filter is_debit (map snd (ma_facts agg)))) = debits agg"
    using sort_facts [OF assms, of is_debit] by (simp add: debits_def)
  ultimately show ?thesis
    unfolding economicEffectOf_def Let_def is_credit_def [symmetric, abs_def]
      is_debit_def [symmetric, abs_def]
    by (auto split: list.splits)
qed

lemma same_facts_effect:
  assumes "same_facts a b" and "agg_inv a" and "agg_inv b"
  shows "economicEffectOf a = economicEffectOf b"
proof -
  have "credits a = credits b" "debits a = debits b"
    using assms(1,2) by (simp_all add: credits_def debits_def same_facts_sorted)
  then show ?thesis using assms(2,3) by (simp add: economicEffectOf_eq)
qed

lemma same_facts_inputs: "same_facts a b \<Longrightarrow> mset (map snd (ma_facts a)) = mset (map snd (ma_facts b))"
  by (simp add: same_facts_def)

lemma set_map_filter_cong:
  "set xs = set ys \<Longrightarrow> set (List.map_filter g xs) = set (List.map_filter g ys)"
  by (simp add: map_filter_def)

lemma same_facts_texts:
  assumes "same_facts a b"
  shows "sort (uniq (List.map_filter g (map snd (ma_facts a))))
       = sort (uniq (List.map_filter g (map snd (ma_facts b))))"
  unfolding sort_uniq
  using set_map_filter_cong [OF mset_eq_setD [OF same_facts_inputs [OF assms]], of g] by simp

text \<open>The freshest observation is the greatest observation time, so no order matters.\<close>

interpretation latest: extreme_fold "\<lambda>t::int option. t" later ti_observedAt
  by unfold_locales (auto simp: later_def max_def less_eq_option_None_is_None split: option.splits if_splits)

lemma same_facts_latest:
  assumes "same_facts a b"
  shows "latestObservedAt a = latestObservedAt b"
  unfolding latestObservedAt_def
  using mset_eq_setD [OF same_facts_inputs [OF assms]] by (rule latest.result_rank_same_set)

text \<open>
  C1. Ingestion order cannot change what is concluded. Two runs over the same raw facts, in any
  order and with any repetition, both succeed and derive the same record: state, verdict,
  economic effect, duplicate effects, attempt counts, envelopes, reasons and supporting facts.
\<close>

theorem deriveState_order_independent:
  assumes "set xs = set ys" and "inj_on fact_id (set xs)"
    and "\<forall>x \<in> set xs. messageKeyOf (ti_message x) = messageKeyOf key"
  shows "\<exists>a b. reduceAll key xs = Inr a \<and> reduceAll key ys = Inr b
             \<and> deriveState a context = deriveState b context"
proof -
  obtain a b where ab: "reduceAll key xs = Inr a" "reduceAll key ys = Inr b"
    using assms(1,3) reduceAll_Inr_iff by metis
  have same: "same_facts a b" by (rule reduceAll_same_facts [OF assms(1,2) ab])
  have inv: "agg_inv a" "agg_inv b" using ab by (simp_all add: reduceAll_inv)
  have stale: "is_stale a context s = is_stale b context s" for s
    by (simp add: is_stale_def same_facts_latest [OF same])
  have "deriveState a context = deriveState b context"
    unfolding deriveState_def Let_def same_facts_lifecycle [OF same] same_facts_effect [OF same inv] stale
      same_facts_ofKind [OF same inv(1)] same_facts_texts [OF same] same_facts_has [OF same]
      same_facts_supporting [OF same inv(1)] by (rule refl)
  with ab show ?thesis by blast
qed

theorem deriveState_order_independent_witness:
  "\<exists>a b. reduceAll example_key (tb_inputs example_batch) = Inr a
       \<and> reduceAll example_key (rev (tb_inputs example_batch)) = Inr b
       \<and> deriveState a \<lparr>ec_evaluatedAt = 0, ec_staleAfterMs = 5\<rparr>
         = deriveState b \<lparr>ec_evaluatedAt = 0, ec_staleAfterMs = 5\<rparr>"
  by (rule deriveState_order_independent)
    (auto simp: example_batch_def example_input_def rawFactRefOf_def raw_fact_parts_def SEP_def)

section \<open>At most one economic effect\<close>

text \<open>The credited executions as a set of facts.\<close>

definition credited :: "message_aggregate \<Rightarrow> raw_fact_ref set" where
  "credited agg = {ti_fact f | i f. (i, f) \<in> set (ma_facts agg) \<and> is_credit f}"

lemma set_credits: "set (credits agg) = credited agg"
  by (force simp: credits_def credited_def)

lemma distinct_credits:
  assumes "agg_inv agg"
  shows "distinct (credits agg)"
proof -
  let ?es = "sort_key fst (filter (\<lambda>e. is_credit (snd e)) (ma_facts agg))"
  have "distinct (map fst (filter (\<lambda>e. is_credit (snd e)) (ma_facts agg)))"
    using assms by (auto simp: agg_inv_def intro: distinct_map_filter)
  then have "distinct (map fst ?es)"
    by (metis mset_map mset_sort mset_eq_imp_distinct_iff)
  moreover have "map fst ?es = map rawFactRefOf (credits agg)"
    using assms by (auto simp: agg_inv_def credits_def)
  ultimately show ?thesis by (metis distinct_map)
qed

lemma length_credits: "agg_inv agg \<Longrightarrow> length (credits agg) = card (credited agg)"
  using distinct_card [OF distinct_credits] by (simp add: set_credits)

lemma dm_simps:
  "dm_state (deriveState agg context) =
     (if is_stale agg context (lifecycleState agg) then STALE else lifecycleState agg)"
  "dm_effect (deriveState agg context) = fst (economicEffectOf agg)"
  "dm_duplicateEffectFacts (deriveState agg context) = snd (economicEffectOf agg)"
  "dm_verdict (deriveState agg context) =
     (if snd (economicEffectOf agg) \<noteq> [] then CRITICAL
      else stateVerdict (dm_state (deriveState agg context)))"
  by (simp_all add: deriveState_def Let_def split_def)

lemma stateVerdict_not_CRITICAL [simp]: "stateVerdict s \<noteq> CRITICAL"
  by (cases s) simp_all

lemma credits_eq_Nil: "credits agg = [] \<longleftrightarrow> credited agg = {}"
  by (simp flip: set_credits)

lemma duplicates_eq:
  "agg_inv agg \<Longrightarrow>
     snd (economicEffectOf agg) = (if card (credited agg) > 1 then credits agg else [])"
  by (simp add: economicEffectOf_eq length_credits)

lemma duplicates_iff:
  "agg_inv agg \<Longrightarrow> snd (economicEffectOf agg) \<noteq> [] \<longleftrightarrow> card (credited agg) > 1"
  using credits_eq_Nil [of agg] by (auto simp: duplicates_eq)

lemma destination_in_credited:
  assumes "agg_inv agg" and "ee_destinationFact (fst (economicEffectOf agg)) = Some f"
  shows "f \<in> credited agg"
  using assms set_credits [of agg] by (cases "credits agg") (auto simp: economicEffectOf_eq)

text \<open>
  C2. A message has at most one economic effect, however many executions, retries, receipts or
  re-signings are observed: the count is one exactly when some credited execution was observed,
  its destination fact is one of those executions, and two distinct credited executions are
  reported in full and turn the verdict CRITICAL, which nothing else does.
\<close>

theorem economic_effect_at_most_once:
  assumes "reduceAll key xs = Inr agg" and "d = deriveState agg context"
  shows "ee_count (dm_effect d) = (if credited agg = {} then 0 else 1)
       \<and> (\<forall>f. ee_destinationFact (dm_effect d) = Some f \<longrightarrow> f \<in> credited agg)
       \<and> (ee_destinationFact (dm_effect d) = None \<longleftrightarrow> credited agg = {})
       \<and> set (dm_duplicateEffectFacts d) = (if card (credited agg) > 1 then credited agg else {})
       \<and> (dm_verdict d = CRITICAL \<longleftrightarrow> card (credited agg) > 1)"
proof -
  have inv: "agg_inv agg" using assms(1) by (rule reduceAll_inv)
  have "ee_count (dm_effect d) = (if credited agg = {} then 0 else 1)"
    by (simp add: assms(2) dm_simps(2) economicEffectOf_eq [OF inv] credits_eq_Nil)
  moreover have "ee_destinationFact (dm_effect d) = None \<longleftrightarrow> credits agg = []"
    by (simp add: assms(2) dm_simps(2) economicEffectOf_eq [OF inv] split: list.split)
  moreover have "set (dm_duplicateEffectFacts d)
      = (if card (credited agg) > 1 then credited agg else {})"
    by (simp add: assms(2) dm_simps(3) duplicates_eq [OF inv] set_credits)
  moreover have "dm_verdict d = CRITICAL \<longleftrightarrow> card (credited agg) > 1"
    using duplicates_iff [OF inv] by (simp add: assms(2) dm_simps(4))
  ultimately show ?thesis
    using destination_in_credited [OF inv] credits_eq_Nil [of agg]
    by (simp add: assms(2) dm_simps(2))
qed

text \<open>Two executions of one message, and a delivery alone.\<close>

definition twice_executed :: message_aggregate where
  "twice_executed = \<lparr>ma_key = example_key,
     ma_facts = map (\<lambda>f. (fact_id f, f))
       [example_input ExecutionSucceeded example_key ''x'' 1,
        example_input ExecutionRetried example_key ''y'' 1]\<rparr>"

lemma twice_executed_reduced:
  "reduceAll example_key [example_input ExecutionSucceeded example_key ''x'' 1,
     example_input ExecutionRetried example_key ''y'' 1] = Inr twice_executed"
  by (simp add: reduceAll_def reduce_def emptyAggregate_def twice_executed_def example_input_def
      rawFactRefOf_def raw_fact_parts_def SEP_def)

lemma credited_twice_executed:
  "credited twice_executed = {ti_fact (example_input ExecutionSucceeded example_key ''x'' 1),
     ti_fact (example_input ExecutionRetried example_key ''y'' 1)}"
  by (simp flip: set_credits)
    (simp add: credits_def twice_executed_def is_credit_def carriesEffect_def
      DESTINATION_EFFECT_KINDS_def example_input_def insert_commute)

theorem economic_effect_at_most_once_witness:
  "dm_verdict (deriveState twice_executed \<lparr>ec_evaluatedAt = 0, ec_staleAfterMs = 1\<rparr>) = CRITICAL"
proof -
  have "card (credited twice_executed) = 2"
    by (simp add: credited_twice_executed example_input_def)
  with economic_effect_at_most_once [OF twice_executed_reduced refl] show ?thesis by simp
qed

section \<open>Delivery is never execution\<close>

text \<open>
  A message is OK exactly when an execution was observed, nothing about it is unsupported,
  orphaned, paused or unreceivable, and it was not credited twice. Deliveries, sends, receipts
  and source facts alone never make it OK, and a settled message never goes stale.
\<close>

theorem deriveState_OK_iff:
  "dm_verdict (deriveState agg context) = OK \<longleftrightarrow>
     snd (economicEffectOf agg) = []
     \<and> (\<exists>(i, f) \<in> set (ma_facts agg). assertsExecution (ti_kind f))
     \<and> (\<forall>(i, f) \<in> set (ma_facts agg). ti_kind f \<notin>
          {Unsupported, Orphaned, PausedVersion, UnreceivableByVersionPolicy})"
proof -
  have stale: "is_stale agg context s \<Longrightarrow> stateVerdict s = WARN" for s
    by (simp add: is_stale_def)
  have "dm_verdict (deriveState agg context) = OK \<longleftrightarrow>
      snd (economicEffectOf agg) = [] \<and> stateVerdict (lifecycleState agg) = OK"
    using stale [of "lifecycleState agg"] by (auto simp: dm_simps)
  also have "stateVerdict (lifecycleState agg) = OK \<longleftrightarrow>
      (has agg ExecutionRetried \<or> has agg ExecutionSucceeded)
      \<and> \<not> (has agg Unsupported \<or> has agg Orphaned \<or> has agg PausedVersion
           \<or> has agg UnreceivableByVersionPolicy)"
    by (auto simp: lifecycleState_def has_def)
  finally show ?thesis
    by (auto simp: has_iff assertsExecution_def)
qed

definition delivered_only :: "int option \<Rightarrow> message_aggregate" where
  "delivered_only seen = \<lparr>ma_key = example_key,
     ma_facts = [(fact_id (example_input Delivered example_key ''x'' 1),
                  (example_input Delivered example_key ''x'' 1) \<lparr>ti_observedAt := seen\<rparr>)]\<rparr>"

theorem deriveState_OK_iff_witness:
  "dm_verdict (deriveState (delivered_only None) \<lparr>ec_evaluatedAt = 0, ec_staleAfterMs = 1\<rparr>) \<noteq> OK"
  unfolding deriveState_OK_iff
  by (simp add: delivered_only_def example_input_def assertsExecution_def)

text \<open>
  Staleness. A message is STALE exactly when its lifecycle state is one that still waits
  (verdict WARN) and more than the allowed time passed since the freshest observation of any of
  its facts; a stale message is UNKNOWN (or CRITICAL when credited twice), never OK or WARN, and
  without an observation time nothing is stale.
\<close>

theorem deriveState_stale_iff:
  assumes "d = deriveState agg context"
  shows "(dm_state d = STALE \<longleftrightarrow>
            stateVerdict (lifecycleState agg) = WARN
            \<and> (\<exists>(i, f) \<in> set (ma_facts agg). ti_observedAt f \<noteq> None)
            \<and> (\<forall>(i, f) \<in> set (ma_facts agg). \<forall>t. ti_observedAt f = Some t \<longrightarrow>
                 t + ec_staleAfterMs context < ec_evaluatedAt context))
       \<and> (dm_state d = STALE \<longrightarrow> dm_verdict d \<in> {UNKNOWN, CRITICAL})"
proof
  let ?obs = "insert None (ti_observedAt ` snd ` set (ma_facts agg))"
  let ?latest = "latestObservedAt agg"
  have max: "?latest = Max ?obs"
    unfolding latestObservedAt_def latest.result_rank by simp
  have member: "?latest \<in> ?obs" unfolding max by (rule Max_in) auto
  have bound: "o1 \<le> ?latest" if "o1 \<in> ?obs" for o1 unfolding max using that by (intro Max_ge) auto
  have late: "(case ?latest of None \<Rightarrow> False
       | Some t \<Rightarrow> ec_evaluatedAt context - t > ec_staleAfterMs context) \<longleftrightarrow>
      (\<exists>(i, f) \<in> set (ma_facts agg). ti_observedAt f \<noteq> None)
      \<and> (\<forall>(i, f) \<in> set (ma_facts agg). \<forall>t. ti_observedAt f = Some t \<longrightarrow>
           t + ec_staleAfterMs context < ec_evaluatedAt context)"
  proof (cases ?latest)
    case None
    have "ti_observedAt f = None" if "(i, f) \<in> set (ma_facts agg)" for i f
      using bound [of "ti_observedAt f"] that None
      by (force simp: less_eq_option_None_is_None)
    with None show ?thesis by auto
  next
    case (Some t)
    then obtain i f where f: "(i, f) \<in> set (ma_facts agg)" "ti_observedAt f = Some t"
      using member by auto
    have "t' \<le> t" if "(j, g) \<in> set (ma_facts agg)" "ti_observedAt g = Some t'" for j g t'
      using bound [of "Some t'"] that Some by force
    with Some f show ?thesis by fastforce
  qed
  have base: "lifecycleState agg \<noteq> STALE" by (simp add: lifecycleState_def)
  have waits: "stateVerdict s = WARN \<Longrightarrow> \<not> isTerminal s" for s
    by (cases s) (simp_all add: isTerminal_def TERMINAL_STATES_def)
  show "dm_state d = STALE \<longleftrightarrow> stateVerdict (lifecycleState agg) = WARN
      \<and> (\<exists>(i, f) \<in> set (ma_facts agg). ti_observedAt f \<noteq> None)
      \<and> (\<forall>(i, f) \<in> set (ma_facts agg). \<forall>t. ti_observedAt f = Some t \<longrightarrow>
           t + ec_staleAfterMs context < ec_evaluatedAt context)"
    unfolding assms dm_simps is_stale_def late using base waits by auto
  show "dm_state d = STALE \<longrightarrow> dm_verdict d \<in> {UNKNOWN, CRITICAL}"
    by (simp add: assms dm_simps(4))
qed

theorem deriveState_stale_iff_witness:
  "dm_state (deriveState (delivered_only (Some 3)) \<lparr>ec_evaluatedAt = 9, ec_staleAfterMs = 5\<rparr>) = STALE
   \<and> dm_state (deriveState (delivered_only (Some 3)) \<lparr>ec_evaluatedAt = 8, ec_staleAfterMs = 5\<rparr>) \<noteq> STALE"
proof -
  have "lifecycleState (delivered_only (Some 3)) = DELIVERED"
    by (simp add: lifecycleState_def has_def delivered_only_def example_input_def)
  then show ?thesis
    by (simp add: deriveState_stale_iff [OF refl] delivered_only_def)
qed

end
