(* ===== verification/Watermark.thy ===== *)
theory Watermark
  imports Derive
begin

text \<open>
  packages/state-machine/src/watermark.ts: whether the pinned heights of the chains form a
  causally closed cut over the observed messages, the condition under which the cross-chain
  invariant may be evaluated at all.
\<close>

record chain_cut =
  cc_blockchainId :: string
  cc_blockNumber :: int
  cc_blockHash :: string

type_synonym cuts = "(string \<times> chain_cut) list"

datatype cut_outcome = CutClosed | CutOpen | CutGap

datatype open_edge_reason = SourceFactOutsideCut | SourceFactNotObserved

record open_edge =
  oe_messageKey :: string
  oe_blockchainId :: string
  oe_reason :: open_edge_reason

record cut_assessment =
  ca_outcome :: cut_outcome
  ca_chainsWithoutCut :: "string list"
  ca_openEdges :: "open_edge list"
  ca_closedMessages :: "string list"

definition inCut :: "fact_position \<Rightarrow> cuts \<Rightarrow> bool option" where
  "inCut position cuts =
     (case map_of cuts (fp_blockchainId position) of
        None \<Rightarrow> None
      | Some pin \<Rightarrow> Some (fp_blockNumber position \<le> cc_blockNumber pin))"

text \<open>The loop's state: the chains without a cut, the open edges and the closed messages so far.\<close>

type_synonym cut_progress = "string list \<times> open_edge list \<times> string list"

definition assess_step :: "cuts \<Rightarrow> cut_progress \<Rightarrow> message_aggregate \<Rightarrow> cut_progress" where
  "assess_step cuts = (\<lambda>(chainsWithoutCut, openEdges, closedMessages) aggregate.
     let key = messageKeyOf (ma_key aggregate);
         facts = map snd (ma_facts aggregate);
         missing = chainsWithoutCut @
           filter (\<lambda>c. \<not> has_key cuts c) (map (\<lambda>f. fp_blockchainId (ti_position f)) facts);
         destinationInCut = filter (\<lambda>f. ti_kind f \<in> set DESTINATION_EFFECT_KINDS
           \<and> inCut (ti_position f) cuts = Some True) facts
     in if length destinationInCut = 0 then (missing, openEdges, closedMessages)
        else let sourceFacts = filter (\<lambda>f. ti_kind f \<in> set SOURCE_EFFECT_KINDS
                   \<or> ti_kind f = IcmSent) facts
        in if length sourceFacts = 0
           then (missing,
                 openEdges @ [\<lparr>oe_messageKey = key,
                   oe_blockchainId = mk_sourceBlockchainId (ma_key aggregate),
                   oe_reason = SourceFactNotObserved\<rparr>],
                 closedMessages)
           else let outside = filter (\<lambda>f. inCut (ti_position f) cuts \<noteq> Some True) sourceFacts
           in if length outside > 0
              then (missing,
                    openEdges @ map (\<lambda>f. \<lparr>oe_messageKey = key,
                      oe_blockchainId = fp_blockchainId (ti_position f),
                      oe_reason = SourceFactOutsideCut\<rparr>) outside,
                    closedMessages)
              else (missing, openEdges, closedMessages @ [key]))"

definition assessCut :: "message_aggregate list \<Rightarrow> cuts \<Rightarrow> cut_assessment" where
  "assessCut aggregates cuts =
     (case foldl (assess_step cuts) ([], [], []) aggregates of
        (missing, openEdges, closedMessages) \<Rightarrow>
          let chainsWithoutCut = uniq missing
          in \<lparr>ca_outcome = (if length chainsWithoutCut > 0 then CutGap
                            else if length openEdges > 0 then CutOpen else CutClosed),
              ca_chainsWithoutCut = sort chainsWithoutCut,
              ca_openEdges = sort_key (\<lambda>e. (oe_messageKey e, oe_blockchainId e)) openEdges,
              ca_closedMessages = sort closedMessages\<rparr>)"

definition cutPermitsEvaluation :: "cut_assessment \<Rightarrow> bool" where
  "cutPermitsEvaluation assessment \<longleftrightarrow> ca_outcome assessment = CutClosed"

section \<open>Causal closure\<close>

definition facts_of :: "message_aggregate \<Rightarrow> transition_input set" where
  "facts_of agg = snd ` set (ma_facts agg)"

text \<open>The position is on a pinned chain, at or below its pinned height.\<close>

definition inside :: "cuts \<Rightarrow> transition_input \<Rightarrow> bool" where
  "inside cuts f \<longleftrightarrow> (\<exists>c. map_of cuts (fp_blockchainId (ti_position f)) = Some c
     \<and> fp_blockNumber (ti_position f) \<le> cc_blockNumber c)"

text \<open>A fact of the cause: the debit at the source, or the send.\<close>

definition is_cause :: "transition_input \<Rightarrow> bool" where
  "is_cause f \<longleftrightarrow> ti_kind f = SourceAccounted \<or> ti_kind f = IcmSent"

text \<open>An execution of the message is inside the cut, so its cause has to be.\<close>

definition obliged :: "cuts \<Rightarrow> message_aggregate \<Rightarrow> bool" where
  "obliged cuts agg \<longleftrightarrow> (\<exists>f \<in> facts_of agg. assertsExecution (ti_kind f) \<and> inside cuts f)"

definition cause_inside :: "cuts \<Rightarrow> message_aggregate \<Rightarrow> bool" where
  "cause_inside cuts agg \<longleftrightarrow> (\<exists>f \<in> facts_of agg. is_cause f)
     \<and> (\<forall>f \<in> facts_of agg. is_cause f \<longrightarrow> inside cuts f)"

definition pinned :: "cuts \<Rightarrow> message_aggregate \<Rightarrow> bool" where
  "pinned cuts agg \<longleftrightarrow> (\<forall>f \<in> facts_of agg. has_key cuts (fp_blockchainId (ti_position f)))"

lemma inCut_inside: "inCut (ti_position f) cuts = Some True \<longleftrightarrow> inside cuts f"
  by (auto simp: inCut_def inside_def split: option.splits)

lemma execution_kinds: "k \<in> set DESTINATION_EFFECT_KINDS \<longleftrightarrow> assertsExecution k"
  by (auto simp: DESTINATION_EFFECT_KINDS_def assertsExecution_def)

lemma cause_kinds: "ti_kind f \<in> set SOURCE_EFFECT_KINDS \<or> ti_kind f = IcmSent \<longleftrightarrow> is_cause f"
  by (auto simp: SOURCE_EFFECT_KINDS_def is_cause_def)

text \<open>What one round of the loop adds.\<close>

definition new_missing :: "cuts \<Rightarrow> message_aggregate \<Rightarrow> string list" where
  "new_missing cuts agg = filter (\<lambda>c. \<not> has_key cuts c)
     (map (\<lambda>f. fp_blockchainId (ti_position f)) (map snd (ma_facts agg)))"

definition new_edges :: "cuts \<Rightarrow> message_aggregate \<Rightarrow> open_edge list" where
  "new_edges cuts agg =
     (let causes = filter is_cause (map snd (ma_facts agg)) in
      if \<not> obliged cuts agg then []
      else if causes = [] then [\<lparr>oe_messageKey = messageKeyOf (ma_key agg),
             oe_blockchainId = mk_sourceBlockchainId (ma_key agg), oe_reason = SourceFactNotObserved\<rparr>]
      else map (\<lambda>f. \<lparr>oe_messageKey = messageKeyOf (ma_key agg),
             oe_blockchainId = fp_blockchainId (ti_position f), oe_reason = SourceFactOutsideCut\<rparr>)
           (filter (\<lambda>f. \<not> inside cuts f) causes))"

definition new_closed :: "cuts \<Rightarrow> message_aggregate \<Rightarrow> string list" where
  "new_closed cuts agg =
     (if obliged cuts agg \<and> cause_inside cuts agg then [messageKeyOf (ma_key agg)] else [])"

lemma obliged_filter:
  "obliged cuts agg \<longleftrightarrow>
     filter (\<lambda>f. assertsExecution (ti_kind f) \<and> inside cuts f) (map snd (ma_facts agg)) \<noteq> []"
  by (auto simp: obliged_def facts_of_def filter_empty_conv)

lemma cause_inside_filter:
  "cause_inside cuts agg \<longleftrightarrow>
     filter is_cause (map snd (ma_facts agg)) \<noteq> []
     \<and> filter (\<lambda>f. \<not> inside cuts f) (filter is_cause (map snd (ma_facts agg))) = []"
  by (auto simp: cause_inside_def facts_of_def filter_empty_conv)

lemma assess_step_eq:
  "assess_step cuts (m, e, c) agg = (m @ new_missing cuts agg, e @ new_edges cuts agg, c @ new_closed cuts agg)"
proof -
  have ne: "length xs = 0 \<longleftrightarrow> xs = []" "length xs > 0 \<longleftrightarrow> xs \<noteq> []" for xs :: "transition_input list"
    by simp_all
  show ?thesis
    unfolding assess_step_def Let_def split inCut_inside execution_kinds cause_kinds ne
      new_missing_def new_edges_def new_closed_def obliged_filter cause_inside_filter
    by (simp only: append_Nil2 if_False if_True not_not simp_thms list.map split: if_split) blast
qed

lemma assess_loop:
  "foldl (assess_step cuts) (m, e, c) aggs =
     (m @ concat (map (new_missing cuts) aggs), e @ concat (map (new_edges cuts) aggs),
      c @ concat (map (new_closed cuts) aggs))"
  by (induction aggs arbitrary: m e c) (simp_all add: assess_step_eq)

lemma assessCut_eq:
  "assessCut aggs cuts =
     \<lparr>ca_outcome = (if concat (map (new_missing cuts) aggs) \<noteq> [] then CutGap
                    else if concat (map (new_edges cuts) aggs) \<noteq> [] then CutOpen else CutClosed),
      ca_chainsWithoutCut = sort (uniq (concat (map (new_missing cuts) aggs))),
      ca_openEdges = sort_key (\<lambda>e. (oe_messageKey e, oe_blockchainId e))
        (concat (map (new_edges cuts) aggs)),
      ca_closedMessages = sort (concat (map (new_closed cuts) aggs))\<rparr>"
  by (simp add: assessCut_def assess_loop Let_def del: concat_eq_Nil_conv)

lemma new_missing_Nil: "new_missing cuts agg = [] \<longleftrightarrow> pinned cuts agg"
  by (auto simp: new_missing_def pinned_def facts_of_def filter_empty_conv)

lemma new_edges_Nil: "new_edges cuts agg = [] \<longleftrightarrow> obliged cuts agg \<longrightarrow> cause_inside cuts agg"
  by (simp add: new_edges_def Let_def cause_inside_filter)

text \<open>
  C6. The cut is reported closed exactly when it is causally closed: every fact lies on a pinned
  chain, and every message with an execution at or below its chain's pin has an observed cause
  (source accounting or send), all of whose facts are at or below their chains' pins. A missing
  pin is a gap whatever else holds, and otherwise an uncaused execution leaves the cut open.
  Evaluation is permitted only in the closed case, and \<open>closedMessages\<close> are exactly the
  messages whose execution and cause are both inside.
\<close>

theorem assessCut_causally_closed:
  "(cutPermitsEvaluation (assessCut aggs cuts) \<longleftrightarrow>
      (\<forall>agg \<in> set aggs. pinned cuts agg) \<and> (\<forall>agg \<in> set aggs. obliged cuts agg \<longrightarrow> cause_inside cuts agg))
   \<and> (ca_outcome (assessCut aggs cuts) = CutGap \<longleftrightarrow> (\<exists>agg \<in> set aggs. \<not> pinned cuts agg))
   \<and> set (ca_closedMessages (assessCut aggs cuts)) =
       {messageKeyOf (ma_key agg) | agg. agg \<in> set aggs \<and> obliged cuts agg \<and> cause_inside cuts agg}"
proof (intro conjI)
  show "cutPermitsEvaluation (assessCut aggs cuts) \<longleftrightarrow>
      (\<forall>agg \<in> set aggs. pinned cuts agg) \<and> (\<forall>agg \<in> set aggs. obliged cuts agg \<longrightarrow> cause_inside cuts agg)"
    unfolding cutPermitsEvaluation_def assessCut_eq by (simp add: new_missing_Nil new_edges_Nil)
  show "ca_outcome (assessCut aggs cuts) = CutGap \<longleftrightarrow> (\<exists>agg \<in> set aggs. \<not> pinned cuts agg)"
    unfolding assessCut_eq by (simp add: new_missing_Nil)
  show "set (ca_closedMessages (assessCut aggs cuts)) =
      {messageKeyOf (ma_key agg) | agg. agg \<in> set aggs \<and> obliged cuts agg \<and> cause_inside cuts agg}"
    unfolding assessCut_eq by (auto simp: new_closed_def split: if_splits)
qed

text \<open>An execution inside the cut whose cause was never observed.\<close>

theorem assessCut_causally_closed_witness:
  "\<not> cutPermitsEvaluation (assessCut [twice_executed]
       [(''d'', \<lparr>cc_blockchainId = ''d'', cc_blockNumber = 10, cc_blockHash = ''b''\<rparr>)])"
  unfolding assessCut_causally_closed [THEN conjunct1]
  by (simp add: obliged_def cause_inside_def facts_of_def twice_executed_def example_input_def
      inside_def assertsExecution_def is_cause_def)

text \<open>
  What is still open is named: an edge of reason \<open>source-fact-not-observed\<close> stands for an
  executed message none of whose causes was seen and points at its source chain, and an edge
  \<open>source-fact-outside-cut\<close> for a cause on that chain which the pins do not reach. Every such
  message and cause has its edge.
\<close>

theorem assessCut_open_edges:
  "e \<in> set (ca_openEdges (assessCut aggs cuts)) \<longleftrightarrow>
     (\<exists>agg \<in> set aggs. obliged cuts agg \<and> oe_messageKey e = messageKeyOf (ma_key agg) \<and>
        (if (\<exists>f \<in> facts_of agg. is_cause f)
         then oe_reason e = SourceFactOutsideCut
              \<and> (\<exists>f \<in> facts_of agg. is_cause f \<and> \<not> inside cuts f
                   \<and> oe_blockchainId e = fp_blockchainId (ti_position f))
         else oe_reason e = SourceFactNotObserved
              \<and> oe_blockchainId e = mk_sourceBlockchainId (ma_key agg)))"
proof -
  have causes: "filter is_cause (map snd (ma_facts agg)) = [] \<longleftrightarrow> \<not> (\<exists>f \<in> facts_of agg. is_cause f)" for agg
    by (auto simp: facts_of_def filter_empty_conv)
  have one: "e \<in> set (new_edges cuts agg) \<longleftrightarrow> obliged cuts agg
      \<and> oe_messageKey e = messageKeyOf (ma_key agg) \<and>
        (if (\<exists>f \<in> facts_of agg. is_cause f)
         then oe_reason e = SourceFactOutsideCut
              \<and> (\<exists>f \<in> facts_of agg. is_cause f \<and> \<not> inside cuts f
                   \<and> oe_blockchainId e = fp_blockchainId (ti_position f))
         else oe_reason e = SourceFactNotObserved
              \<and> oe_blockchainId e = mk_sourceBlockchainId (ma_key agg))" for agg
    unfolding new_edges_def Let_def causes
    by (cases e) (auto simp: facts_of_def)
  show ?thesis unfolding assessCut_eq by (simp add: one)
qed

theorem assessCut_open_edges_witness:
  "\<lparr>oe_messageKey = messageKeyOf example_key, oe_blockchainId = ''s'', oe_reason = SourceFactNotObserved\<rparr>
     \<in> set (ca_openEdges (assessCut [twice_executed]
       [(''d'', \<lparr>cc_blockchainId = ''d'', cc_blockNumber = 10, cc_blockHash = ''b''\<rparr>)]))"
  unfolding assessCut_open_edges
  by (simp add: obliged_def facts_of_def twice_executed_def example_input_def
      inside_def assertsExecution_def is_cause_def example_key_def)

end
