(* ===== verification/Reasons.thy ===== *)
theory Reasons
  imports Lattice
begin

text \<open>
  packages/invariant-core/src/reasons.ts and outcome.ts: the stable reason codes with their
  metadata, the internal proof results and the verdict a result may contribute.
\<close>

section \<open>Reason codes\<close>

datatype reason_code =
  ACC_I01_NO_APPROVED_BASELINE | ACC_I02_NO_SOURCE_LOCK_VERSION | ACC_I03_CENSUS_INCOMPLETE
| ACC_I04_NO_PINNED_BLOCK | ACC_I05_CAUSAL_CUT_OPEN | ACC_I06_STALE_OBSERVATION
| ACC_I07_MISSING_OBSERVATION | ACC_I08_UNKNOWN_TOKEN_SCALE | ACC_U01_UNSUPPORTED_FAMILY
| ACC_U02_UNKNOWN_FINGERPRINT | ACC_U03_UNSUPPORTED_TOKEN_BEHAVIOUR
| ACC_U04_UNSUPPORTED_ROUTE | ACC_A00_RECONCILED | ACC_A01_EXCESS_REMOTE_REPRESENTATION
| ACC_A02_DELTA_UNEXPLAINED | ACC_A03_DUPLICATE_ECONOMIC_EFFECT | ACC_A04_UNAUTHORISED_MINT
| ACC_A05_ROUTE_MISMATCH | ACC_A06_ARITHMETIC_OUT_OF_RANGE | ACC_B00_COVERAGE_SUFFICIENT
| ACC_B01_COVERAGE_SHORTFALL | ACC_B02_UNTRACKED_REMOTE_LIABILITY | ACC_B03_GATE_A_NOT_PASSED
| ACC_N00_REPORTED_UPPER_BOUND_COVERED | ACC_N01_UPPER_BOUND_ABOVE_COVERAGE_INDETERMINATE
| ACC_N02_SUPPLY_LOWER_BOUND_EXCEEDS_COVERAGE | CFG_N01_UNEXPECTED_MINTER_ROLE
| CFG_N02_UNAUTHORISED_NATIVE_MINT | CFG_N03_NATIVE_MINTER_CENSUS_INCOMPLETE
| CFG_N04_DUPLICATE_FEE_REPORT | CFG_N05_FEE_REMINT_SEMANTICS_UNVERIFIED
| CFG_D01_BASELINE_DRIFT | CFG_D02_UNAPPROVED_CANDIDATE | CFG_D03_CONTROL_UNRESOLVED
| AGG_M01_REQUIRED_EVALUATION_MISSING | AGG_M02_PREVIOUS_OK_EXPIRED | AGG_M03_EVALUATION_FAULT
| AGG_M04_WITNESS_DIVERGENCE | ACC_L01_PENDING_AGE_EXCEEDED | RSK_H01_RATE_ANOMALY
| RSK_H02_RECEIPT_DELAY

datatype proof_class = Coverage | Correctness | Liveness | Heuristic

definition REASON_CODES :: "reason_code list" where
  "REASON_CODES = [
     ACC_I01_NO_APPROVED_BASELINE, ACC_I02_NO_SOURCE_LOCK_VERSION, ACC_I03_CENSUS_INCOMPLETE,
     ACC_I04_NO_PINNED_BLOCK, ACC_I05_CAUSAL_CUT_OPEN, ACC_I06_STALE_OBSERVATION,
     ACC_I07_MISSING_OBSERVATION, ACC_I08_UNKNOWN_TOKEN_SCALE, ACC_U01_UNSUPPORTED_FAMILY,
     ACC_U02_UNKNOWN_FINGERPRINT, ACC_U03_UNSUPPORTED_TOKEN_BEHAVIOUR, ACC_U04_UNSUPPORTED_ROUTE,
     ACC_A00_RECONCILED, ACC_A01_EXCESS_REMOTE_REPRESENTATION, ACC_A02_DELTA_UNEXPLAINED,
     ACC_A03_DUPLICATE_ECONOMIC_EFFECT, ACC_A04_UNAUTHORISED_MINT, ACC_A05_ROUTE_MISMATCH,
     ACC_A06_ARITHMETIC_OUT_OF_RANGE, ACC_B00_COVERAGE_SUFFICIENT, ACC_B01_COVERAGE_SHORTFALL,
     ACC_B02_UNTRACKED_REMOTE_LIABILITY, ACC_B03_GATE_A_NOT_PASSED,
     ACC_N00_REPORTED_UPPER_BOUND_COVERED, ACC_N01_UPPER_BOUND_ABOVE_COVERAGE_INDETERMINATE,
     ACC_N02_SUPPLY_LOWER_BOUND_EXCEEDS_COVERAGE, CFG_N01_UNEXPECTED_MINTER_ROLE,
     CFG_N02_UNAUTHORISED_NATIVE_MINT, CFG_N03_NATIVE_MINTER_CENSUS_INCOMPLETE,
     CFG_N04_DUPLICATE_FEE_REPORT, CFG_N05_FEE_REMINT_SEMANTICS_UNVERIFIED, CFG_D01_BASELINE_DRIFT,
     CFG_D02_UNAPPROVED_CANDIDATE, CFG_D03_CONTROL_UNRESOLVED, AGG_M01_REQUIRED_EVALUATION_MISSING,
     AGG_M02_PREVIOUS_OK_EXPIRED, AGG_M03_EVALUATION_FAULT, AGG_M04_WITNESS_DIVERGENCE,
     ACC_L01_PENDING_AGE_EXCEEDED, RSK_H01_RATE_ANOMALY, RSK_H02_RECEIPT_DELAY]"

text \<open>The published spelling of a code.\<close>

primrec reason_text :: "reason_code \<Rightarrow> string" where
  "reason_text ACC_I01_NO_APPROVED_BASELINE = ''ACC-I01-NO-APPROVED-BASELINE''"
| "reason_text ACC_I02_NO_SOURCE_LOCK_VERSION = ''ACC-I02-NO-SOURCE-LOCK-VERSION''"
| "reason_text ACC_I03_CENSUS_INCOMPLETE = ''ACC-I03-CENSUS-INCOMPLETE''"
| "reason_text ACC_I04_NO_PINNED_BLOCK = ''ACC-I04-NO-PINNED-BLOCK''"
| "reason_text ACC_I05_CAUSAL_CUT_OPEN = ''ACC-I05-CAUSAL-CUT-OPEN''"
| "reason_text ACC_I06_STALE_OBSERVATION = ''ACC-I06-STALE-OBSERVATION''"
| "reason_text ACC_I07_MISSING_OBSERVATION = ''ACC-I07-MISSING-OBSERVATION''"
| "reason_text ACC_I08_UNKNOWN_TOKEN_SCALE = ''ACC-I08-UNKNOWN-TOKEN-SCALE''"
| "reason_text ACC_U01_UNSUPPORTED_FAMILY = ''ACC-U01-UNSUPPORTED-FAMILY''"
| "reason_text ACC_U02_UNKNOWN_FINGERPRINT = ''ACC-U02-UNKNOWN-FINGERPRINT''"
| "reason_text ACC_U03_UNSUPPORTED_TOKEN_BEHAVIOUR = ''ACC-U03-UNSUPPORTED-TOKEN-BEHAVIOUR''"
| "reason_text ACC_U04_UNSUPPORTED_ROUTE = ''ACC-U04-UNSUPPORTED-ROUTE''"
| "reason_text ACC_A00_RECONCILED = ''ACC-A00-RECONCILED''"
| "reason_text ACC_A01_EXCESS_REMOTE_REPRESENTATION = ''ACC-A01-EXCESS-REMOTE-REPRESENTATION''"
| "reason_text ACC_A02_DELTA_UNEXPLAINED = ''ACC-A02-DELTA-UNEXPLAINED''"
| "reason_text ACC_A03_DUPLICATE_ECONOMIC_EFFECT = ''ACC-A03-DUPLICATE-ECONOMIC-EFFECT''"
| "reason_text ACC_A04_UNAUTHORISED_MINT = ''ACC-A04-UNAUTHORISED-MINT''"
| "reason_text ACC_A05_ROUTE_MISMATCH = ''ACC-A05-ROUTE-MISMATCH''"
| "reason_text ACC_A06_ARITHMETIC_OUT_OF_RANGE = ''ACC-A06-ARITHMETIC-OUT-OF-RANGE''"
| "reason_text ACC_B00_COVERAGE_SUFFICIENT = ''ACC-B00-COVERAGE-SUFFICIENT''"
| "reason_text ACC_B01_COVERAGE_SHORTFALL = ''ACC-B01-COVERAGE-SHORTFALL''"
| "reason_text ACC_B02_UNTRACKED_REMOTE_LIABILITY = ''ACC-B02-UNTRACKED-REMOTE-LIABILITY''"
| "reason_text ACC_B03_GATE_A_NOT_PASSED = ''ACC-B03-GATE-A-NOT-PASSED''"
| "reason_text ACC_N00_REPORTED_UPPER_BOUND_COVERED = ''ACC-N00-REPORTED-UPPER-BOUND-COVERED''"
| "reason_text ACC_N01_UPPER_BOUND_ABOVE_COVERAGE_INDETERMINATE = ''ACC-N01-UPPER-BOUND-ABOVE-COVERAGE-INDETERMINATE''"
| "reason_text ACC_N02_SUPPLY_LOWER_BOUND_EXCEEDS_COVERAGE = ''ACC-N02-SUPPLY-LOWER-BOUND-EXCEEDS-COVERAGE''"
| "reason_text CFG_N01_UNEXPECTED_MINTER_ROLE = ''CFG-N01-UNEXPECTED-MINTER-ROLE''"
| "reason_text CFG_N02_UNAUTHORISED_NATIVE_MINT = ''CFG-N02-UNAUTHORISED-NATIVE-MINT''"
| "reason_text CFG_N03_NATIVE_MINTER_CENSUS_INCOMPLETE = ''CFG-N03-NATIVE-MINTER-CENSUS-INCOMPLETE''"
| "reason_text CFG_N04_DUPLICATE_FEE_REPORT = ''CFG-N04-DUPLICATE-FEE-REPORT''"
| "reason_text CFG_N05_FEE_REMINT_SEMANTICS_UNVERIFIED = ''CFG-N05-FEE-REMINT-SEMANTICS-UNVERIFIED''"
| "reason_text CFG_D01_BASELINE_DRIFT = ''CFG-D01-BASELINE-DRIFT''"
| "reason_text CFG_D02_UNAPPROVED_CANDIDATE = ''CFG-D02-UNAPPROVED-CANDIDATE''"
| "reason_text CFG_D03_CONTROL_UNRESOLVED = ''CFG-D03-CONTROL-UNRESOLVED''"
| "reason_text AGG_M01_REQUIRED_EVALUATION_MISSING = ''AGG-M01-REQUIRED-EVALUATION-MISSING''"
| "reason_text AGG_M02_PREVIOUS_OK_EXPIRED = ''AGG-M02-PREVIOUS-OK-EXPIRED''"
| "reason_text AGG_M03_EVALUATION_FAULT = ''AGG-M03-EVALUATION-FAULT''"
| "reason_text AGG_M04_WITNESS_DIVERGENCE = ''AGG-M04-WITNESS-DIVERGENCE''"
| "reason_text ACC_L01_PENDING_AGE_EXCEEDED = ''ACC-L01-PENDING-AGE-EXCEEDED''"
| "reason_text RSK_H01_RATE_ANOMALY = ''RSK-H01-RATE-ANOMALY''"
| "reason_text RSK_H02_RECEIPT_DELAY = ''RSK-H02-RECEIPT-DELAY''"

text \<open>\<open>REASON_META\<close>: summary and proof class.\<close>

primrec reason_summary :: "reason_code \<Rightarrow> string" where
  "reason_summary ACC_I01_NO_APPROVED_BASELINE =
     ''No approved manifest/policy hash to evaluate against''"
| "reason_summary ACC_I02_NO_SOURCE_LOCK_VERSION =
     ''Adapter or source-lock version missing from the proof input''"
| "reason_summary ACC_I03_CENSUS_INCOMPLETE =
     ''Registered remote census is not established as complete''"
| "reason_summary ACC_I04_NO_PINNED_BLOCK =
     ''A required chain has no pinned block number and hash''"
| "reason_summary ACC_I05_CAUSAL_CUT_OPEN =
     ''Causal cut is not closed across the chains involved''"
| "reason_summary ACC_I06_STALE_OBSERVATION =
     ''Observations are past their freshness window''"
| "reason_summary ACC_I07_MISSING_OBSERVATION =
     ''A required state observation is absent''"
| "reason_summary ACC_I08_UNKNOWN_TOKEN_SCALE =
     ''Token scaling behaviour is not established for this pair''"
| "reason_summary ACC_U01_UNSUPPORTED_FAMILY =
     ''Not a source-locked canonical ERC20 single-hop deployment''"
| "reason_summary ACC_U02_UNKNOWN_FINGERPRINT =
     ''Contract fingerprint is not recognised''"
| "reason_summary ACC_U03_UNSUPPORTED_TOKEN_BEHAVIOUR =
     ''Token behaviour breaks the canonical rule and has no adapter''"
| "reason_summary ACC_U04_UNSUPPORTED_ROUTE =
     ''Route is multi-hop or remote-to-remote''"
| "reason_summary ACC_A00_RECONCILED =
     ''Transferred balance minus remote supply equals the pending total''"
| "reason_summary ACC_A01_EXCESS_REMOTE_REPRESENTATION =
     ''Remote supply exceeds home accounting under a closed causal cut''"
| "reason_summary ACC_A02_DELTA_UNEXPLAINED =
     ''Delta does not match pending envelopes; cause not established''"
| "reason_summary ACC_A03_DUPLICATE_ECONOMIC_EFFECT =
     ''One message route carries more than one credited effect''"
| "reason_summary ACC_A04_UNAUTHORISED_MINT =
     ''A credited effect has no unique authorised source message''"
| "reason_summary ACC_A05_ROUTE_MISMATCH =
     ''A credited effect names a route that does not match its source''"
| "reason_summary ACC_A06_ARITHMETIC_OUT_OF_RANGE =
     ''Scaling left the uint256 range''"
| "reason_summary ACC_B00_COVERAGE_SUFFICIENT =
     ''Observed escrow covers the conservative liability at the pinned block''"
| "reason_summary ACC_B01_COVERAGE_SHORTFALL =
     ''Observed escrow is below the conservative liability at the pinned block''"
| "reason_summary ACC_B02_UNTRACKED_REMOTE_LIABILITY =
     ''A registered remote has unknown liability and cannot be counted as zero''"
| "reason_summary ACC_B03_GATE_A_NOT_PASSED =
     ''Physical coverage not evaluated because reconciliation did not pass''"
| "reason_summary ACC_N00_REPORTED_UPPER_BOUND_COVERED =
     ''Reported native supply upper bound is covered by eligible home coverage''"
| "reason_summary ACC_N01_UPPER_BOUND_ABOVE_COVERAGE_INDETERMINATE =
     ''Reported upper bound exceeds coverage; the evidence does not decide it''"
| "reason_summary ACC_N02_SUPPLY_LOWER_BOUND_EXCEEDS_COVERAGE =
     ''An established supply lower bound also exceeds eligible coverage''"
| "reason_summary CFG_N01_UNEXPECTED_MINTER_ROLE =
     ''An address holds a minting role beyond the approved roster''"
| "reason_summary CFG_N02_UNAUTHORISED_NATIVE_MINT =
     ''A native mint was observed with no authorised role at that epoch''"
| "reason_summary CFG_N03_NATIVE_MINTER_CENSUS_INCOMPLETE =
     ''Minter exclusivity cannot be established; the allow list is not enumerable''"
| "reason_summary CFG_N04_DUPLICATE_FEE_REPORT =
     ''The same burned-fee delta was reported more than once''"
| "reason_summary CFG_N05_FEE_REMINT_SEMANTICS_UNVERIFIED =
     ''Re-minted fee reward is not established as already counted in totalMinted''"
| "reason_summary CFG_D01_BASELINE_DRIFT =
     ''A required control differs from the approved baseline''"
| "reason_summary CFG_D02_UNAPPROVED_CANDIDATE =
     ''Discovered but not approved; operator review required''"
| "reason_summary CFG_D03_CONTROL_UNRESOLVED =
     ''A required control could not be established''"
| "reason_summary AGG_M01_REQUIRED_EVALUATION_MISSING =
     ''A policy-required evaluation did not run''"
| "reason_summary AGG_M02_PREVIOUS_OK_EXPIRED =
     ''A previously passing evaluation is past its freshness window''"
| "reason_summary AGG_M03_EVALUATION_FAULT =
     ''The evaluation path raised a fault instead of producing a result''"
| "reason_summary AGG_M04_WITNESS_DIVERGENCE =
     ''Independent witnesses disagree about the observed state''"
| "reason_summary ACC_L01_PENDING_AGE_EXCEEDED =
     ''Pending envelopes are older than policy allows''"
| "reason_summary RSK_H01_RATE_ANOMALY =
     ''Transfer rate or volume is unusual for this deployment''"
| "reason_summary RSK_H02_RECEIPT_DELAY =
     ''Relayer receipts are arriving later than usual''"

primrec reason_class :: "reason_code \<Rightarrow> proof_class" where
  "reason_class ACC_I01_NO_APPROVED_BASELINE = Coverage"
| "reason_class ACC_I02_NO_SOURCE_LOCK_VERSION = Coverage"
| "reason_class ACC_I03_CENSUS_INCOMPLETE = Coverage"
| "reason_class ACC_I04_NO_PINNED_BLOCK = Coverage"
| "reason_class ACC_I05_CAUSAL_CUT_OPEN = Coverage"
| "reason_class ACC_I06_STALE_OBSERVATION = Coverage"
| "reason_class ACC_I07_MISSING_OBSERVATION = Coverage"
| "reason_class ACC_I08_UNKNOWN_TOKEN_SCALE = Coverage"
| "reason_class ACC_U01_UNSUPPORTED_FAMILY = Coverage"
| "reason_class ACC_U02_UNKNOWN_FINGERPRINT = Coverage"
| "reason_class ACC_U03_UNSUPPORTED_TOKEN_BEHAVIOUR = Coverage"
| "reason_class ACC_U04_UNSUPPORTED_ROUTE = Coverage"
| "reason_class ACC_A00_RECONCILED = Correctness"
| "reason_class ACC_A01_EXCESS_REMOTE_REPRESENTATION = Correctness"
| "reason_class ACC_A02_DELTA_UNEXPLAINED = Coverage"
| "reason_class ACC_A03_DUPLICATE_ECONOMIC_EFFECT = Correctness"
| "reason_class ACC_A04_UNAUTHORISED_MINT = Correctness"
| "reason_class ACC_A05_ROUTE_MISMATCH = Correctness"
| "reason_class ACC_A06_ARITHMETIC_OUT_OF_RANGE = Coverage"
| "reason_class ACC_B00_COVERAGE_SUFFICIENT = Coverage"
| "reason_class ACC_B01_COVERAGE_SHORTFALL = Coverage"
| "reason_class ACC_B02_UNTRACKED_REMOTE_LIABILITY = Coverage"
| "reason_class ACC_B03_GATE_A_NOT_PASSED = Coverage"
| "reason_class ACC_N00_REPORTED_UPPER_BOUND_COVERED = Coverage"
| "reason_class ACC_N01_UPPER_BOUND_ABOVE_COVERAGE_INDETERMINATE = Coverage"
| "reason_class ACC_N02_SUPPLY_LOWER_BOUND_EXCEEDS_COVERAGE = Correctness"
| "reason_class CFG_N01_UNEXPECTED_MINTER_ROLE = Correctness"
| "reason_class CFG_N02_UNAUTHORISED_NATIVE_MINT = Correctness"
| "reason_class CFG_N03_NATIVE_MINTER_CENSUS_INCOMPLETE = Coverage"
| "reason_class CFG_N04_DUPLICATE_FEE_REPORT = Correctness"
| "reason_class CFG_N05_FEE_REMINT_SEMANTICS_UNVERIFIED = Coverage"
| "reason_class CFG_D01_BASELINE_DRIFT = Correctness"
| "reason_class CFG_D02_UNAPPROVED_CANDIDATE = Coverage"
| "reason_class CFG_D03_CONTROL_UNRESOLVED = Coverage"
| "reason_class AGG_M01_REQUIRED_EVALUATION_MISSING = Coverage"
| "reason_class AGG_M02_PREVIOUS_OK_EXPIRED = Coverage"
| "reason_class AGG_M03_EVALUATION_FAULT = Coverage"
| "reason_class AGG_M04_WITNESS_DIVERGENCE = Coverage"
| "reason_class ACC_L01_PENDING_AGE_EXCEEDED = Liveness"
| "reason_class RSK_H01_RATE_ANOMALY = Heuristic"
| "reason_class RSK_H02_RECEIPT_DELAY = Liveness"

lemma REASON_CODES_UNIV: "set REASON_CODES = UNIV"
proof
  show "UNIV \<subseteq> set REASON_CODES"
  proof
    fix c show "c \<in> set REASON_CODES" by (cases c) (simp_all add: REASON_CODES_def)
  qed
qed simp

lemma reason_texts_distinct: "distinct (map reason_text REASON_CODES)"
  by code_simp

lemma reason_text_inject [simp]: "reason_text c = reason_text d \<longleftrightarrow> c = d"
  using reason_texts_distinct by (simp add: distinct_map REASON_CODES_UNIV inj_eq)

section \<open>Results\<close>

datatype proof_result = PASS | FAIL | UNKNOWN_RESULT | UNSUPPORTED

fun verdictFor :: "proof_result \<Rightarrow> bool \<Rightarrow> verdict" where
  "verdictFor PASS critical = OK"
| "verdictFor FAIL critical = (if critical then CRITICAL else WARN)"
| "verdictFor UNKNOWN_RESULT critical = UNKNOWN"
| "verdictFor UNSUPPORTED critical = UNKNOWN"

lemma verdictFor_simps:
  "verdictFor r c = OK \<longleftrightarrow> r = PASS"
  "verdictFor r c = CRITICAL \<longleftrightarrow> r = FAIL \<and> c"
  "verdictFor r c = WARN \<longleftrightarrow> r = FAIL \<and> \<not> c"
  by (cases r; simp)+

end
