(* ===== verification/GateA.thy ===== *)
theory GateA
  imports Reasons Watermark
begin

text \<open>
  packages/invariant-core: the proof input (inputs.ts) and Gate A (gate-a.ts), the exact causal
  reconciliation of a home's transferred balance with its remotes' supplies. The second half
  models the token protocol the equation of gate-a.ts is read from, as a step relation, and shows
  what Gate A says about every state the protocol can reach. \<open>bigint\<close> is \<open>int\<close>, a \<open>null\<close>-able
  field an \<open>option\<close>, seconds are whole.
\<close>

section \<open>The proof input\<close>

record pinned_block =
  pb_blockchainId :: string
  pb_blockNumber :: int
  pb_blockHash :: string

datatype census_state = CompleteFromDeploymentBlock | PartialCensus | UnknownCensus

type_synonym cut_state = cut_outcome

definition SUPPORTED_FAMILY :: string where
  "SUPPORTED_FAMILY = ''canonical-erc20-single-hop''"

record provenance_input =
  pv_manifestHash :: "string option"
  pv_policyHash :: "string option"
  pv_sourceLockCommitSha :: "string option"
  pv_adapterId :: "string option"
  pv_adapterVersion :: "int option"
  pv_ruleVersion :: string

record token_scale_input =
  tsc_tokenMultiplier :: int
  tsc_multiplyOnRemote :: bool
  tsc_homeDecimals :: int
  tsc_remoteDecimals :: int
  tsc_established :: bool

record remote_observation =
  ro_remoteBlockchainId :: string
  ro_remoteAddress :: string
  ro_transferredBalance :: "int option"
  ro_remoteTotalSupply :: "int option"
  ro_scale :: token_scale_input
  ro_homePin :: "pinned_block option"
  ro_remotePin :: "pinned_block option"
  ro_fingerprintRecognised :: bool
  ro_tokenBehaviourCanonical :: bool
  ro_routeSingleHop :: bool
  ro_initialReserveImbalance :: int

datatype direction = HomeToRemote | RemoteToHome

record pending_envelope =
  pe_messageKey :: string
  pe_direction :: direction
  pe_amount :: int
  pe_ageSeconds :: int
  pe_remoteBlockchainId :: string
  pe_remoteAddress :: string

record credited_effect =
  ce_messageKey :: string
  ce_remoteBlockchainId :: string
  ce_remoteAddress :: string
  ce_amount :: int
  ce_hasUniqueAuthorisedSource :: bool
  ce_routeMatchesSource :: bool
  ce_duplicateEffect :: bool
  ce_causalSourceFact :: "string option"

record freshness_input =
  fr_fresh :: bool
  fr_independentWitnessGroups :: int
  fr_requiredWitnessGroups :: int

record home_escrow_input =
  he_escrowBalance :: "int option"
  he_homePin :: "pinned_block option"
  he_acceptedCollateralHomeUnits :: int

record proof_input =
  pi_deploymentId :: string
  pi_family :: string
  pi_provenance :: provenance_input
  pi_census :: census_state
  pi_untrackedRemotes :: "string list"
  pi_cut :: cut_state
  pi_freshness :: freshness_input
  pi_remotes :: "remote_observation list"
  pi_pending :: "pending_envelope list"
  pi_effects :: "credited_effect list"
  pi_homeEscrow :: home_escrow_input
  pi_pendingAgeLimitSeconds :: int

section \<open>Gate A\<close>

record remote_reconciliation =
  rr_remoteBlockchainId :: string
  rr_remoteAddress :: string
  rr_transferredBalance :: int
  rr_remoteTotalSupply :: int
  rr_delta :: int
  rr_pendingHomeToRemote :: int
  rr_pendingRemoteToHome :: int
  rr_pendingTotal :: int
  rr_reconciled :: bool

datatype gate_outcome = GatePass | GateFail | GateUnknown | GateUnsupported

record gate_a_result =
  ga_outcome :: gate_outcome
  ga_reasons :: "reason_code list"
  ga_critical :: bool
  ga_perRemote :: "remote_reconciliation list"
  ga_totalDelta :: int
  ga_totalPending :: int

text \<open>\<open>if (cond) out.push(code)\<close>.\<close>

definition push_if :: "bool \<Rightarrow> reason_code \<Rightarrow> reason_code list" where
  "push_if b c = (if b then [c] else [])"

lemma push_if_Nil [simp]: "push_if b c = [] \<longleftrightarrow> \<not> b"
  by (simp add: push_if_def)

definition missingInputReasons :: "proof_input \<Rightarrow> reason_code list" where
  "missingInputReasons input =
     (let p = pi_provenance input in uniq (
        push_if (pv_manifestHash p = None \<or> pv_policyHash p = None) ACC_I01_NO_APPROVED_BASELINE
      @ push_if (pv_sourceLockCommitSha p = None \<or> pv_adapterId p = None \<or> pv_adapterVersion p = None)
          ACC_I02_NO_SOURCE_LOCK_VERSION
      @ push_if (pi_census input \<noteq> CompleteFromDeploymentBlock) ACC_I03_CENSUS_INCOMPLETE
      @ push_if (length (pi_untrackedRemotes input) > 0) ACC_B02_UNTRACKED_REMOTE_LIABILITY
      @ push_if (pi_cut input \<noteq> CutClosed) ACC_I05_CAUSAL_CUT_OPEN
      @ push_if (\<not> fr_fresh (pi_freshness input)) ACC_I06_STALE_OBSERVATION
      @ push_if (fr_independentWitnessGroups (pi_freshness input)
                 < fr_requiredWitnessGroups (pi_freshness input)) ACC_I04_NO_PINNED_BLOCK
      @ push_if (length (pi_remotes input) = 0) ACC_I07_MISSING_OBSERVATION
      @ concat (map (\<lambda>r.
          push_if (ro_transferredBalance r = None \<or> ro_remoteTotalSupply r = None)
            ACC_I07_MISSING_OBSERVATION
        @ push_if (ro_homePin r = None \<or> ro_remotePin r = None) ACC_I04_NO_PINNED_BLOCK
        @ push_if (\<not> tsc_established (ro_scale r)) ACC_I08_UNKNOWN_TOKEN_SCALE)
          (pi_remotes input))))"

definition unsupportedReasons :: "proof_input \<Rightarrow> reason_code list" where
  "unsupportedReasons input = uniq (
        push_if (pi_family input \<noteq> SUPPORTED_FAMILY) ACC_U01_UNSUPPORTED_FAMILY
      @ concat (map (\<lambda>r.
          push_if (\<not> ro_fingerprintRecognised r) ACC_U02_UNKNOWN_FINGERPRINT
        @ push_if (\<not> ro_tokenBehaviourCanonical r) ACC_U03_UNSUPPORTED_TOKEN_BEHAVIOUR
        @ push_if (\<not> ro_routeSingleHop r) ACC_U04_UNSUPPORTED_ROUTE
        @ push_if (ro_initialReserveImbalance r \<noteq> 0) ACC_U01_UNSUPPORTED_FAMILY)
          (pi_remotes input)))"

definition inRange :: "int \<Rightarrow> bool" where
  "inRange v \<longleftrightarrow> v \<ge> 0 \<and> v \<le> MAX_UINT256"

text \<open>\<open>x ?? 0n\<close>.\<close>

definition or_zero :: "int option \<Rightarrow> int" where
  "or_zero x = (case x of None \<Rightarrow> 0 | Some v \<Rightarrow> v)"

definition pending_of :: "remote_observation \<Rightarrow> proof_input \<Rightarrow> pending_envelope list" where
  "pending_of remote input =
     filter (\<lambda>p. pe_remoteBlockchainId p = ro_remoteBlockchainId remote
              \<and> pe_remoteAddress p = ro_remoteAddress remote) (pi_pending input)"

definition amount_towards :: "direction \<Rightarrow> pending_envelope list \<Rightarrow> int" where
  "amount_towards dir ps = sum_list (map pe_amount (filter (\<lambda>p. pe_direction p = dir) ps))"

definition reconcileRemote ::
  "remote_observation \<Rightarrow> proof_input \<Rightarrow> remote_reconciliation option" where
  "reconcileRemote remote input =
     (case (ro_transferredBalance remote, ro_remoteTotalSupply remote) of
        (Some d, Some s) \<Rightarrow>
          let mine = pending_of remote input;
              h2r = amount_towards HomeToRemote mine;
              r2h = amount_towards RemoteToHome mine;
              delta = d - s;
              pendingTotal = h2r + r2h
          in Some \<lparr>rr_remoteBlockchainId = ro_remoteBlockchainId remote,
                   rr_remoteAddress = ro_remoteAddress remote,
                   rr_transferredBalance = d, rr_remoteTotalSupply = s, rr_delta = delta,
                   rr_pendingHomeToRemote = h2r, rr_pendingRemoteToHome = r2h,
                   rr_pendingTotal = pendingTotal, rr_reconciled = (delta = pendingTotal)\<rparr>
      | _ \<Rightarrow> None)"

definition effect_reasons :: "credited_effect \<Rightarrow> reason_code list" where
  "effect_reasons e =
     push_if (ce_duplicateEffect e) ACC_A03_DUPLICATE_ECONOMIC_EFFECT
   @ push_if (\<not> ce_hasUniqueAuthorisedSource e \<or> ce_causalSourceFact e = None)
       ACC_A04_UNAUTHORISED_MINT
   @ push_if (\<not> ce_routeMatchesSource e) ACC_A05_ROUTE_MISMATCH"

definition out_of_range :: "remote_observation \<Rightarrow> bool" where
  "out_of_range r \<longleftrightarrow>
     \<not> inRange (or_zero (ro_transferredBalance r)) \<or> \<not> inRange (or_zero (ro_remoteTotalSupply r))
     \<or> \<not> inRange (tsc_tokenMultiplier (ro_scale r))"

definition stopped :: "gate_outcome \<Rightarrow> reason_code list \<Rightarrow> gate_a_result" where
  "stopped outcome reasons =
     \<lparr>ga_outcome = outcome, ga_reasons = reasons, ga_critical = False, ga_perRemote = [],
      ga_totalDelta = 0, ga_totalPending = 0\<rparr>"

definition evaluateGateA :: "proof_input \<Rightarrow> gate_a_result" where
  "evaluateGateA input =
     (let unsupported = unsupportedReasons input; missing = missingInputReasons input in
      if length unsupported > 0 then stopped GateUnsupported unsupported
      else if length missing > 0 then stopped GateUnknown missing
      else if list_ex out_of_range (pi_remotes input)
           then stopped GateUnknown [ACC_A06_ARITHMETIC_OUT_OF_RANGE]
      else
        let perRemote = List.map_filter (\<lambda>r. reconcileRemote r input) (pi_remotes input);
            effectReasons = concat (map effect_reasons (pi_effects input));
            totalDelta = sum_list (map rr_delta perRemote);
            totalPending = sum_list (map rr_pendingTotal perRemote);
            overAge = filter (\<lambda>p. pe_ageSeconds p > pi_pendingAgeLimitSeconds input) (pi_pending input);
            livenessReasons = (if length overAge > 0 then [ACC_L01_PENDING_AGE_EXCEEDED] else []);
            excess = filter (\<lambda>r. rr_delta r < 0) perRemote;
            mismatched = filter (\<lambda>r. \<not> rr_reconciled r) perRemote;
            answer = (\<lambda>outcome critical reasons.
              \<lparr>ga_outcome = outcome, ga_reasons = uniq (reasons @ livenessReasons),
               ga_critical = critical, ga_perRemote = perRemote, ga_totalDelta = totalDelta,
               ga_totalPending = totalPending\<rparr>)
        in if length effectReasons > 0 then answer GateFail True effectReasons
           else if length excess > 0
                then answer GateFail True [ACC_A01_EXCESS_REMOTE_REPRESENTATION]
           else if length mismatched > 0 then answer GateUnknown False [ACC_A02_DELTA_UNEXPLAINED]
           else answer GatePass False [ACC_A00_RECONCILED])"

section \<open>What each answer means\<close>

text \<open>A deployment of the one family the equation was verified for.\<close>

definition supported_input :: "proof_input \<Rightarrow> bool" where
  "supported_input input \<longleftrightarrow> pi_family input = SUPPORTED_FAMILY
     \<and> (\<forall>r \<in> set (pi_remotes input). ro_fingerprintRecognised r \<and> ro_tokenBehaviourCanonical r
          \<and> ro_routeSingleHop r \<and> ro_initialReserveImbalance r = 0)"

text \<open>Nothing the equation rests on is missing, stale or unpinned.\<close>

definition complete_input :: "proof_input \<Rightarrow> bool" where
  "complete_input input \<longleftrightarrow>
     pv_manifestHash (pi_provenance input) \<noteq> None \<and> pv_policyHash (pi_provenance input) \<noteq> None
     \<and> pv_sourceLockCommitSha (pi_provenance input) \<noteq> None
     \<and> pv_adapterId (pi_provenance input) \<noteq> None \<and> pv_adapterVersion (pi_provenance input) \<noteq> None
     \<and> pi_census input = CompleteFromDeploymentBlock \<and> pi_untrackedRemotes input = []
     \<and> pi_cut input = CutClosed \<and> fr_fresh (pi_freshness input)
     \<and> fr_requiredWitnessGroups (pi_freshness input) \<le> fr_independentWitnessGroups (pi_freshness input)
     \<and> pi_remotes input \<noteq> []
     \<and> (\<forall>r \<in> set (pi_remotes input). ro_transferredBalance r \<noteq> None \<and> ro_remoteTotalSupply r \<noteq> None
          \<and> ro_homePin r \<noteq> None \<and> ro_remotePin r \<noteq> None \<and> tsc_established (ro_scale r))"

definition ranged_input :: "proof_input \<Rightarrow> bool" where
  "ranged_input input \<longleftrightarrow> (\<forall>r \<in> set (pi_remotes input).
     inRange (or_zero (ro_transferredBalance r)) \<and> inRange (or_zero (ro_remoteTotalSupply r))
     \<and> inRange (tsc_tokenMultiplier (ro_scale r)))"

definition admissible :: "proof_input \<Rightarrow> bool" where
  "admissible input \<longleftrightarrow> supported_input input \<and> complete_input input \<and> ranged_input input"

definition sound_effect :: "credited_effect \<Rightarrow> bool" where
  "sound_effect e \<longleftrightarrow> \<not> ce_duplicateEffect e \<and> ce_hasUniqueAuthorisedSource e
     \<and> ce_causalSourceFact e \<noteq> None \<and> ce_routeMatchesSource e"

definition delta_of :: "remote_observation \<Rightarrow> int" where
  "delta_of r = or_zero (ro_transferredBalance r) - or_zero (ro_remoteTotalSupply r)"

definition pending_total :: "remote_observation \<Rightarrow> proof_input \<Rightarrow> int" where
  "pending_total r input = sum_list (map pe_amount (pending_of r input))"

lemma unsupportedReasons_Nil: "unsupportedReasons input = [] \<longleftrightarrow> supported_input input"
  by (auto simp: unsupportedReasons_def supported_input_def)

lemma missingInputReasons_Nil: "missingInputReasons input = [] \<longleftrightarrow> complete_input input"
  unfolding missingInputReasons_def complete_input_def Let_def uniq_eq_Nil append_is_Nil_conv
    push_if_Nil concat_eq_Nil_conv
  by (simp add: not_less ball_conj_distrib)

lemma out_of_range_iff: "list_ex out_of_range (pi_remotes input) \<longleftrightarrow> \<not> ranged_input input"
  by (simp add: list_ex_iff ranged_input_def out_of_range_def)

lemma effect_reasons_Nil: "effect_reasons e = [] \<longleftrightarrow> sound_effect e"
  by (simp add: effect_reasons_def sound_effect_def)

lemma amounts_by_direction:
  "amount_towards HomeToRemote ps + amount_towards RemoteToHome ps = sum_list (map pe_amount ps)"
proof (induction ps)
  case (Cons p ps)
  then show ?case by (cases "pe_direction p") (simp_all add: amount_towards_def)
qed (simp add: amount_towards_def)

text \<open>The reconciliation of an observed remote.\<close>

definition reconciled_remote :: "proof_input \<Rightarrow> remote_observation \<Rightarrow> remote_reconciliation" where
  "reconciled_remote input r =
     \<lparr>rr_remoteBlockchainId = ro_remoteBlockchainId r, rr_remoteAddress = ro_remoteAddress r,
      rr_transferredBalance = or_zero (ro_transferredBalance r),
      rr_remoteTotalSupply = or_zero (ro_remoteTotalSupply r), rr_delta = delta_of r,
      rr_pendingHomeToRemote = amount_towards HomeToRemote (pending_of r input),
      rr_pendingRemoteToHome = amount_towards RemoteToHome (pending_of r input),
      rr_pendingTotal = pending_total r input,
      rr_reconciled = (delta_of r = pending_total r input)\<rparr>"

lemma reconcileRemote_observed:
  assumes "ro_transferredBalance r \<noteq> None" and "ro_remoteTotalSupply r \<noteq> None"
  shows "reconcileRemote r input = Some (reconciled_remote input r)"
  using assms
  by (auto simp: reconcileRemote_def reconciled_remote_def Let_def or_zero_def delta_of_def
      pending_total_def amounts_by_direction)

lemma perRemote_complete:
  assumes "complete_input input"
  shows "List.map_filter (\<lambda>r. reconcileRemote r input) (pi_remotes input)
       = map (reconciled_remote input) (pi_remotes input)"
proof -
  have "List.map_filter (\<lambda>r. reconcileRemote r input) rs = map (reconciled_remote input) rs"
    if "set rs \<subseteq> set (pi_remotes input)" for rs
    using that assms
    by (induction rs) (auto simp: map_filter_simps complete_input_def reconcileRemote_observed)
  then show ?thesis by simp
qed

text \<open>Gate A as a case distinction on what the input is, not on how the code looks at it.\<close>

definition answer :: "proof_input \<Rightarrow> gate_outcome \<Rightarrow> reason_code list \<Rightarrow> gate_a_result" where
  "answer input outcome reasons =
     \<lparr>ga_outcome = outcome,
      ga_reasons = uniq (reasons @ push_if
        (\<exists>p \<in> set (pi_pending input). pe_ageSeconds p > pi_pendingAgeLimitSeconds input)
        ACC_L01_PENDING_AGE_EXCEEDED),
      ga_critical = (outcome = GateFail),
      ga_perRemote = map (reconciled_remote input) (pi_remotes input),
      ga_totalDelta = sum_list (map delta_of (pi_remotes input)),
      ga_totalPending = sum_list (map (\<lambda>r. pending_total r input) (pi_remotes input))\<rparr>"

lemma evaluateGateA_cases:
  "evaluateGateA input =
     (if \<not> supported_input input then stopped GateUnsupported (unsupportedReasons input)
      else if \<not> complete_input input then stopped GateUnknown (missingInputReasons input)
      else if \<not> ranged_input input then stopped GateUnknown [ACC_A06_ARITHMETIC_OUT_OF_RANGE]
      else if \<exists>e \<in> set (pi_effects input). \<not> sound_effect e
           then answer input GateFail (concat (map effect_reasons (pi_effects input)))
      else if \<exists>r \<in> set (pi_remotes input). delta_of r < 0
           then answer input GateFail [ACC_A01_EXCESS_REMOTE_REPRESENTATION]
      else if \<exists>r \<in> set (pi_remotes input). delta_of r \<noteq> pending_total r input
           then answer input GateUnknown [ACC_A02_DELTA_UNEXPLAINED]
      else answer input GatePass [ACC_A00_RECONCILED])"
proof (cases "supported_input input \<and> complete_input input \<and> ranged_input input")
  case False
  then show ?thesis
    by (simp add: evaluateGateA_def Let_def unsupportedReasons_Nil missingInputReasons_Nil
        out_of_range_iff)
next
  case True
  have sums: "sum_list (map rr_delta (map (reconciled_remote input) rs)) = sum_list (map delta_of rs)"
    "sum_list (map rr_pendingTotal (map (reconciled_remote input) rs))
       = sum_list (map (\<lambda>r. pending_total r input) rs)" for rs
    by (simp_all add: reconciled_remote_def comp_def)
  have excess: "0 < length (filter (\<lambda>r. rr_delta r < 0) (map (reconciled_remote input) rs))
      \<longleftrightarrow> (\<exists>r \<in> set rs. delta_of r < 0)" for rs
    by (simp add: filter_empty_conv reconciled_remote_def)
  have mism: "0 < length (filter (\<lambda>r. \<not> rr_reconciled r) (map (reconciled_remote input) rs))
      \<longleftrightarrow> (\<exists>r \<in> set rs. delta_of r \<noteq> pending_total r input)" for rs
    by (simp add: filter_empty_conv reconciled_remote_def)
  have effects: "0 < length (concat (map effect_reasons es)) \<longleftrightarrow> (\<exists>e \<in> set es. \<not> sound_effect e)" for es
    by (simp add: effect_reasons_Nil)
  have age: "(if 0 < length (filter P xs) then [c] else []) = push_if (\<exists>x \<in> set xs. P x) c"
    for P and xs :: "pending_envelope list" and c
    by (simp add: push_if_def filter_empty_conv)
  have no_gap: "\<not> 0 < length (unsupportedReasons input)" "\<not> 0 < length (missingInputReasons input)"
    "\<not> list_ex out_of_range (pi_remotes input)"
    using True by (simp_all add: unsupportedReasons_Nil missingInputReasons_Nil out_of_range_iff)
  show ?thesis
    unfolding evaluateGateA_def Let_def perRemote_complete [OF True [THEN conjunct2, THEN conjunct1]]
      sums excess mism effects age
    using True no_gap by (simp add: answer_def)
qed

lemma stopped_simps [simp]:
  "ga_outcome (stopped v reasons) = v" "\<not> ga_critical (stopped v reasons)"
  "ga_reasons (stopped v reasons) = reasons" "ga_perRemote (stopped v reasons) = []"
  by (simp_all add: stopped_def)

lemma answer_simps [simp]:
  "ga_outcome (answer input v reasons) = v" "ga_critical (answer input v reasons) \<longleftrightarrow> v = GateFail"
  "ga_perRemote (answer input v reasons) = map (reconciled_remote input) (pi_remotes input)"
  by (simp_all add: answer_def)

lemma admissible_observed:
  assumes "admissible input" and "r \<in> set (pi_remotes input)"
  shows "\<exists>d s. ro_transferredBalance r = Some d \<and> ro_remoteTotalSupply r = Some s"
  using assms unfolding admissible_def complete_input_def not_None_eq by blast

text \<open>
  C3. Gate A passes exactly when everything is established and exact: the deployment is of the
  supported family, no part of the input is missing, stale, unpinned or out of range, every
  credited effect has its unique authorised source on the right route, and on every remote the
  transferred balance minus the supply equals the pending amounts of that remote, with no
  tolerance.
\<close>

theorem evaluateGateA_pass_iff:
  "ga_outcome (evaluateGateA input) = GatePass \<longleftrightarrow>
     admissible input
     \<and> (\<forall>e \<in> set (pi_effects input). sound_effect e)
     \<and> (\<forall>r \<in> set (pi_remotes input). \<exists>d s. ro_transferredBalance r = Some d
          \<and> ro_remoteTotalSupply r = Some s \<and> s \<le> d \<and> d - s = pending_total r input)"
proof (cases "admissible input")
  case True
  then have "ga_outcome (evaluateGateA input) = GatePass \<longleftrightarrow>
      (\<forall>e \<in> set (pi_effects input). sound_effect e)
      \<and> \<not> (\<exists>r \<in> set (pi_remotes input). delta_of r < 0)
      \<and> \<not> (\<exists>r \<in> set (pi_remotes input). delta_of r \<noteq> pending_total r input)"
    by (simp add: admissible_def evaluateGateA_cases)
  moreover have "0 \<le> delta_of r \<and> delta_of r = pending_total r input \<longleftrightarrow>
      (\<exists>d s. ro_transferredBalance r = Some d \<and> ro_remoteTotalSupply r = Some s \<and> s \<le> d
         \<and> d - s = pending_total r input)" if "r \<in> set (pi_remotes input)" for r
  proof -
    obtain d s where "ro_transferredBalance r = Some d" "ro_remoteTotalSupply r = Some s"
      using admissible_observed [OF True \<open>r \<in> set (pi_remotes input)\<close>] by blast
    then show ?thesis by (simp add: delta_of_def or_zero_def)
  qed
  moreover have "\<not> (\<exists>r \<in> set rs. delta_of r < 0) \<and> \<not> (\<exists>r \<in> set rs. delta_of r \<noteq> f r) \<longleftrightarrow>
      (\<forall>r \<in> set rs. 0 \<le> delta_of r \<and> delta_of r = f r)" for rs and f :: "remote_observation \<Rightarrow> int"
    by (metis linorder_not_less)
  ultimately show ?thesis using True by simp
next
  case False
  then show ?thesis by (auto simp: admissible_def evaluateGateA_cases)
qed

text \<open>
  Only a proven breach is critical: on an admissible input, either a credited effect is
  duplicated, unauthorised or on the wrong route, or some remote's supply exceeds the home's
  transferred balance. Gate A fails in exactly these cases, and an input that is unsupported,
  incomplete, stale or out of range is never a finding against the bridge.
\<close>

theorem evaluateGateA_critical_iff:
  "(ga_critical (evaluateGateA input) \<longleftrightarrow>
      admissible input
      \<and> ((\<exists>e \<in> set (pi_effects input). \<not> sound_effect e)
         \<or> (\<exists>r \<in> set (pi_remotes input). \<exists>d s. ro_transferredBalance r = Some d
              \<and> ro_remoteTotalSupply r = Some s \<and> d < s)))
   \<and> (ga_critical (evaluateGateA input) \<longleftrightarrow> ga_outcome (evaluateGateA input) = GateFail)"
proof (cases "admissible input")
  case True
  have "delta_of r < 0 \<longleftrightarrow> (\<exists>d s. ro_transferredBalance r = Some d
      \<and> ro_remoteTotalSupply r = Some s \<and> d < s)" if "r \<in> set (pi_remotes input)" for r
  proof -
    obtain d s where "ro_transferredBalance r = Some d" "ro_remoteTotalSupply r = Some s"
      using admissible_observed [OF True \<open>r \<in> set (pi_remotes input)\<close>] by blast
    then show ?thesis by (simp add: delta_of_def or_zero_def)
  qed
  then have breach: "(\<exists>r \<in> set (pi_remotes input). delta_of r < 0) \<longleftrightarrow>
      (\<exists>r \<in> set (pi_remotes input). \<exists>d s. ro_transferredBalance r = Some d
         \<and> ro_remoteTotalSupply r = Some s \<and> d < s)" by blast
  show ?thesis unfolding breach [symmetric]
    using True by (simp add: admissible_def evaluateGateA_cases)
next
  case False
  then show ?thesis by (auto simp: admissible_def evaluateGateA_cases)
qed

subsection \<open>Examples\<close>

text \<open>One remote with five units in flight towards it.\<close>

definition example_pending :: "int \<Rightarrow> pending_envelope" where
  "example_pending a = \<lparr>pe_messageKey = ''m'', pe_direction = HomeToRemote, pe_amount = a,
     pe_ageSeconds = 1, pe_remoteBlockchainId = ''r'', pe_remoteAddress = ''x''\<rparr>"

definition example_pin :: pinned_block where
  "example_pin = \<lparr>pb_blockchainId = ''r'', pb_blockNumber = 1, pb_blockHash = ''h''\<rparr>"

definition example_remote :: "int \<Rightarrow> int \<Rightarrow> remote_observation" where
  "example_remote d s = \<lparr>ro_remoteBlockchainId = ''r'', ro_remoteAddress = ''x'',
     ro_transferredBalance = Some d, ro_remoteTotalSupply = Some s,
     ro_scale = \<lparr>tsc_tokenMultiplier = 10, tsc_multiplyOnRemote = True, tsc_homeDecimals = 6,
       tsc_remoteDecimals = 7, tsc_established = True\<rparr>,
     ro_homePin = Some example_pin, ro_remotePin = Some example_pin,
     ro_fingerprintRecognised = True, ro_tokenBehaviourCanonical = True, ro_routeSingleHop = True,
     ro_initialReserveImbalance = 0\<rparr>"

definition example_proof :: "int \<Rightarrow> int \<Rightarrow> pending_envelope list \<Rightarrow> proof_input" where
  "example_proof d s ps = \<lparr>pi_deploymentId = ''d'', pi_family = SUPPORTED_FAMILY,
     pi_provenance = \<lparr>pv_manifestHash = Some ''m'', pv_policyHash = Some ''p'',
       pv_sourceLockCommitSha = Some ''c'', pv_adapterId = Some ''a'', pv_adapterVersion = Some 1,
       pv_ruleVersion = ''1''\<rparr>,
     pi_census = CompleteFromDeploymentBlock, pi_untrackedRemotes = [], pi_cut = CutClosed,
     pi_freshness = \<lparr>fr_fresh = True, fr_independentWitnessGroups = 2, fr_requiredWitnessGroups = 2\<rparr>,
     pi_remotes = [example_remote d s], pi_pending = ps, pi_effects = [],
     pi_homeEscrow = \<lparr>he_escrowBalance = Some 1, he_homePin = Some example_pin,
       he_acceptedCollateralHomeUnits = 0\<rparr>,
     pi_pendingAgeLimitSeconds = 10\<rparr>"

lemma example_admissible:
  assumes "0 \<le> d" and "d < 100" and "0 \<le> s" and "s < 100"
  shows "admissible (example_proof d s ps)"
  using assms
  by (simp add: admissible_def supported_input_def complete_input_def ranged_input_def
      example_proof_def example_remote_def inRange_def or_zero_def MAX_UINT256_def)

theorem evaluateGateA_pass_iff_witness:
  "ga_outcome (evaluateGateA (example_proof 25 20 [example_pending 5])) = GatePass
   \<and> ga_outcome (evaluateGateA (example_proof 25 20 [])) \<noteq> GatePass"
  using example_admissible [of 25 20]
  by (simp add: evaluateGateA_pass_iff)
    (simp add: example_proof_def example_remote_def pending_total_def pending_of_def example_pending_def)

theorem evaluateGateA_critical_iff_witness:
  "ga_critical (evaluateGateA (example_proof 20 25 [])) \<and> \<not> ga_critical (evaluateGateA (example_proof 25 20 []))"
  using example_admissible [of 20 25] example_admissible [of 25 20]
  by (simp add: evaluateGateA_critical_iff [THEN conjunct1])
    (simp add: example_proof_def example_remote_def)

section \<open>The protocol behind the equation\<close>

text \<open>
  The four effects listed in gate-a.ts, as a step relation on the home's transferred balances D,
  the remotes' supplies S and the envelopes in flight. A remote is named by its chain and address.
\<close>

type_synonym route = "string \<times> string"

record bridge_state =
  bs_D :: "route \<Rightarrow> int"
  bs_S :: "route \<Rightarrow> int"
  bs_inflight :: "pending_envelope list"

abbreviation pe_route :: "pending_envelope \<Rightarrow> route" where
  "pe_route p \<equiv> (pe_remoteBlockchainId p, pe_remoteAddress p)"

abbreviation ro_route :: "remote_observation \<Rightarrow> route" where
  "ro_route r \<equiv> (ro_remoteBlockchainId r, ro_remoteAddress r)"

inductive bridge_step :: "bridge_state \<Rightarrow> bridge_state \<Rightarrow> bool" where
  send_home: "pe_direction p = HomeToRemote \<Longrightarrow> 0 \<le> pe_amount p \<Longrightarrow>
    bridge_step \<lparr>bs_D = d, bs_S = s, bs_inflight = ps\<rparr>
      \<lparr>bs_D = d(pe_route p := d (pe_route p) + pe_amount p), bs_S = s, bs_inflight = ps @ [p]\<rparr>"
| mint_remote: "pe_direction p = HomeToRemote \<Longrightarrow>
    bridge_step \<lparr>bs_D = d, bs_S = s, bs_inflight = ps @ p # qs\<rparr>
      \<lparr>bs_D = d, bs_S = s(pe_route p := s (pe_route p) + pe_amount p), bs_inflight = ps @ qs\<rparr>"
| burn_remote: "pe_direction p = RemoteToHome \<Longrightarrow> 0 \<le> pe_amount p \<Longrightarrow> pe_amount p \<le> s (pe_route p) \<Longrightarrow>
    bridge_step \<lparr>bs_D = d, bs_S = s, bs_inflight = ps\<rparr>
      \<lparr>bs_D = d, bs_S = s(pe_route p := s (pe_route p) - pe_amount p), bs_inflight = ps @ [p]\<rparr>"
| release_home: "pe_direction p = RemoteToHome \<Longrightarrow>
    bridge_step \<lparr>bs_D = d, bs_S = s, bs_inflight = ps @ p # qs\<rparr>
      \<lparr>bs_D = d(pe_route p := d (pe_route p) - pe_amount p), bs_S = s, bs_inflight = ps @ qs\<rparr>"

inductive_cases bridge_stepE: "bridge_step b b'"

definition initial_bridge :: bridge_state where
  "initial_bridge = \<lparr>bs_D = (\<lambda>_. 0), bs_S = (\<lambda>_. 0), bs_inflight = []\<rparr>"

definition bridge_reachable :: "bridge_state \<Rightarrow> bool" where
  "bridge_reachable b \<longleftrightarrow> bridge_step\<^sup>*\<^sup>* initial_bridge b"

definition flying :: "route \<Rightarrow> pending_envelope list \<Rightarrow> int" where
  "flying r ps = sum_list (map pe_amount (filter (\<lambda>p. pe_route p = r) ps))"

lemma flying_simps [simp]:
  "flying r [] = 0"
  "flying r (p # ps) = (if pe_route p = r then pe_amount p else 0) + flying r ps"
  "flying r (ps @ qs) = flying r ps + flying r qs"
  by (simp_all add: flying_def)

definition bridge_inv :: "bridge_state \<Rightarrow> bool" where
  "bridge_inv b \<longleftrightarrow> (\<forall>r. bs_D b r - bs_S b r = flying r (bs_inflight b))
     \<and> (\<forall>p \<in> set (bs_inflight b). 0 \<le> pe_amount p)"

lemma bridge_inv_delta:
  "bridge_inv b \<Longrightarrow> bs_D b r - bs_S b r = flying r (bs_inflight b)"
  unfolding bridge_inv_def by blast

lemma bridge_inv_amount: "bridge_inv b \<Longrightarrow> p \<in> set (bs_inflight b) \<Longrightarrow> 0 \<le> pe_amount p"
  unfolding bridge_inv_def by blast

lemma bridge_invI:
  assumes "\<And>r. bs_D b r - bs_S b r = flying r (bs_inflight b)"
    and "\<And>p. p \<in> set (bs_inflight b) \<Longrightarrow> 0 \<le> pe_amount p"
  shows "bridge_inv b"
  using assms unfolding bridge_inv_def by blast

lemma bridge_step_inv:
  assumes "bridge_step b b'" and "bridge_inv b"
  shows "bridge_inv b'"
proof (rule bridge_invI)
  fix r
  show "bs_D b' r - bs_S b' r = flying r (bs_inflight b')"
    using assms(1) bridge_inv_delta [OF assms(2), of r]
    by (cases rule: bridge_step.cases) (auto split: if_splits)
next
  fix p assume "p \<in> set (bs_inflight b')"
  with assms(1) show "0 \<le> pe_amount p" using bridge_inv_amount [OF assms(2)]
    by (cases rule: bridge_step.cases) auto
qed

lemma reachable_inv:
  assumes "bridge_reachable b"
  shows "bridge_inv b"
  using assms unfolding bridge_reachable_def
proof (induction rule: rtranclp_induct)
  case base
  show ?case by (rule bridge_invI) (simp_all add: initial_bridge_def)
next
  case (step b b')
  then show ?case by (blast intro: bridge_step_inv)
qed

lemma flying_nonneg: "bridge_inv b \<Longrightarrow> 0 \<le> flying r (bs_inflight b)"
  unfolding flying_def by (intro sum_list_map_nonneg_int) (auto intro: bridge_inv_amount)

text \<open>The input reads the balances and supplies of this state.\<close>

definition reads_state :: "proof_input \<Rightarrow> bridge_state \<Rightarrow> bool" where
  "reads_state input b \<longleftrightarrow> (\<forall>r \<in> set (pi_remotes input).
     ro_transferredBalance r = Some (bs_D b (ro_route r)) \<and> ro_remoteTotalSupply r = Some (bs_S b (ro_route r)))"

lemma pending_total_flying: "pending_total r input = flying (ro_route r) (pi_pending input)"
  by (simp add: pending_total_def pending_of_def flying_def)

lemma flying_mset:
  assumes "mset ps = mset qs"
  shows "flying r ps = flying r qs"
  unfolding flying_def sum_mset_sum_list [symmetric] mset_map mset_filter assms by (rule refl)

lemma gateA_no_breach:
  assumes "admissible input" and "\<forall>e \<in> set (pi_effects input). sound_effect e"
    and "\<not> (\<exists>r \<in> set (pi_remotes input). delta_of r < 0)"
  shows "evaluateGateA input =
    (if \<exists>r \<in> set (pi_remotes input). delta_of r \<noteq> pending_total r input
     then answer input GateUnknown [ACC_A02_DELTA_UNEXPLAINED]
     else answer input GatePass [ACC_A00_RECONCILED])"
proof -
  have "\<not> (\<exists>e \<in> set (pi_effects input). \<not> sound_effect e)" using assms(2) by blast
  with assms(1,3) show ?thesis unfolding evaluateGateA_cases admissible_def by (simp only: if_True if_False simp_thms)
qed

text \<open>
  C4. Gate A never raises a false alarm on an honest bridge. In every state the protocol can
  reach, an admissible input that reads this state and observed all envelopes in flight (in any
  order), with sound effects, passes; and whatever part of the envelopes was observed, missing
  history alone is never a finding: the answer is a pass or UNKNOWN, never critical.
\<close>

theorem gateA_honest_bridge:
  assumes "bridge_reachable b" and "admissible input" and "reads_state input b"
    and "\<forall>e \<in> set (pi_effects input). sound_effect e"
  shows "(mset (pi_pending input) = mset (bs_inflight b) \<longrightarrow>
            ga_outcome (evaluateGateA input) = GatePass)
       \<and> \<not> ga_critical (evaluateGateA input)
       \<and> ga_outcome (evaluateGateA input) \<in> {GatePass, GateUnknown}"
proof -
  have inv: "bridge_inv b" using assms(1) by (rule reachable_inv)
  then have eq: "bs_D b r - bs_S b r = flying r (bs_inflight b)" for r by (rule bridge_inv_delta)
  have delta: "delta_of r = flying (ro_route r) (bs_inflight b)" if "r \<in> set (pi_remotes input)" for r
    using assms(3) that eq [of "ro_route r"] by (simp add: reads_state_def delta_of_def or_zero_def)
  then have "\<not> (\<exists>r \<in> set (pi_remotes input). delta_of r < 0)"
    using flying_nonneg [OF inv] by (simp add: not_less)
  moreover have "\<not> (\<exists>r \<in> set (pi_remotes input). delta_of r \<noteq> pending_total r input)"
    if "mset (pi_pending input) = mset (bs_inflight b)"
    using flying_mset [OF that] by (simp add: delta pending_total_flying)
  ultimately show ?thesis
    using gateA_no_breach [OF assms(2,4)] by auto
qed

text \<open>
  C5. A forged representation is never waved through when the envelopes are reported in full. If a remote
  of an admissible input mints an amount that no home deposit backs, in any reachable state, and the
  pending list of the input holds exactly the envelopes in flight, then Gate A does not pass, whatever
  the effects say; and as soon as the forged amount exceeds what is in flight on this remote, the answer
  is critical. The reporting matters: a pending list that leaves out envelopes worth the forged amount
  hides the mint (\<open>under_reporting_hides_mint\<close> below), which is why the collector of the pending list is
  held to the identity of RouteModel.
\<close>

theorem gateA_forged_mint:
  assumes "bridge_reachable b" and "admissible input" and "r \<in> set (pi_remotes input)" and "0 < a"
    and "reads_state input (b\<lparr>bs_S := (bs_S b)(ro_route r := bs_S b (ro_route r) + a)\<rparr>)"
    and "mset (pi_pending input) = mset (bs_inflight b)"
  shows "ga_outcome (evaluateGateA input) \<noteq> GatePass
       \<and> (flying (ro_route r) (bs_inflight b) < a \<longrightarrow> ga_critical (evaluateGateA input))"
proof -
  have "bs_D b (ro_route r) - bs_S b (ro_route r) = flying (ro_route r) (bs_inflight b)"
    by (rule bridge_inv_delta [OF reachable_inv [OF assms(1)]])
  moreover have "pending_total r input = flying (ro_route r) (bs_inflight b)"
    using flying_mset [OF assms(6)] by (simp add: pending_total_flying)
  ultimately have delta: "delta_of r = pending_total r input - a"
    using assms(3,5) by (simp add: reads_state_def delta_of_def or_zero_def)
  have "delta_of r \<noteq> pending_total r input" using delta assms(4) by simp
  moreover have "delta_of r < 0" if "flying (ro_route r) (bs_inflight b) < a"
    using delta that \<open>pending_total r input = _\<close> by simp
  ultimately show ?thesis
    using assms(2,3) unfolding admissible_def evaluateGateA_cases by auto
qed

definition sent_five :: bridge_state where
  "sent_five = \<lparr>bs_D = (bs_D initial_bridge)((''r'', ''x'') := 5), bs_S = bs_S initial_bridge,
     bs_inflight = [example_pending 5]\<rparr>"

lemma sent_five_reachable: "bridge_reachable sent_five"
proof -
  have "bridge_step initial_bridge sent_five"
    using send_home [of "example_pending 5" "bs_D initial_bridge" "bs_S initial_bridge" "[]"]
    by (simp add: sent_five_def initial_bridge_def example_pending_def)
  then show ?thesis by (simp add: bridge_reachable_def)
qed

theorem gateA_honest_bridge_witness:
  "ga_outcome (evaluateGateA (example_proof 5 0 [example_pending 5])) = GatePass"
proof -
  let ?input = "example_proof 5 0 [example_pending 5]"
  have "reads_state ?input sent_five" "\<forall>e \<in> set (pi_effects ?input). sound_effect e"
    "mset (pi_pending ?input) = mset (bs_inflight sent_five)"
    by (simp_all add: reads_state_def example_proof_def example_remote_def sent_five_def initial_bridge_def)
  with gateA_honest_bridge [OF sent_five_reachable example_admissible] show ?thesis by simp
qed

theorem gateA_forged_mint_witness:
  "ga_critical (evaluateGateA (example_proof 5 9 [example_pending 5]))"
proof -
  let ?input = "example_proof 5 9 [example_pending 5]"
  let ?r = "example_remote 5 9"
  have r: "?r \<in> set (pi_remotes ?input)" "ro_route ?r = (''r'', ''x'')"
    by (simp_all add: example_proof_def example_remote_def)
  have "reads_state ?input (sent_five\<lparr>bs_S := (bs_S sent_five)(ro_route ?r := bs_S sent_five (ro_route ?r) + 9)\<rparr>)"
    "mset (pi_pending ?input) = mset (bs_inflight sent_five)"
    "flying (ro_route ?r) (bs_inflight sent_five) < 9"
    by (simp_all add: reads_state_def example_proof_def example_remote_def sent_five_def
        initial_bridge_def example_pending_def)
  with gateA_forged_mint [OF sent_five_reachable example_admissible r(1), of 9] show ?thesis by simp
qed

text \<open>
  Without a full pending list the mint can hide: with 5 in flight and as much minted without a deposit, an
  input that reports no envelope passes, and the input that reports it does not.
\<close>

lemma under_reporting_hides_mint:
  "reads_state (example_proof 5 5 []) (sent_five\<lparr>bs_S := (bs_S sent_five)((''r'', ''x'') := bs_S sent_five (''r'', ''x'') + 5)\<rparr>)"
  "ga_outcome (evaluateGateA (example_proof 5 5 [])) = GatePass"
  "ga_outcome (evaluateGateA (example_proof 5 5 [example_pending 5])) \<noteq> GatePass"
proof -
  show "reads_state (example_proof 5 5 []) (sent_five\<lparr>bs_S := (bs_S sent_five)((''r'', ''x'') := bs_S sent_five (''r'', ''x'') + 5)\<rparr>)"
    by (simp add: reads_state_def example_proof_def example_remote_def sent_five_def initial_bridge_def)
  show "ga_outcome (evaluateGateA (example_proof 5 5 [])) = GatePass"
    "ga_outcome (evaluateGateA (example_proof 5 5 [example_pending 5])) \<noteq> GatePass"
    by code_simp+
qed

end
