(* ===== verification/Scaling.thy ===== *)
theory Scaling
  imports Domain
begin

text \<open>
  packages/ictt-adapters/src/scaling.ts: the port of the token scaling of the pinned contracts.
  \<open>bigint\<close> division truncates towards zero; both operands are checked non-negative first, so
  it is \<open>div\<close>. \<open>MAX_UINT256\<close> is the same number as in the domain package.
\<close>

definition MAX_TOKEN_DECIMALS :: int where
  "MAX_TOKEN_DECIMALS = 18"

datatype scaling_failure =
  Overflow | DivisionByZero | Negative | DecimalsOutOfRange | DecimalsExceedMaximum

type_synonym scaling_result = "scaling_failure + int"

definition scaleTokens :: "int \<Rightarrow> bool \<Rightarrow> int \<Rightarrow> bool \<Rightarrow> scaling_result" where
  "scaleTokens tokenMultiplier multiplyOnRemote amount isSendToRemote =
     (if amount < 0 \<or> tokenMultiplier < 0 then Inl Negative
      else if multiplyOnRemote = isSendToRemote
           then let product = amount * tokenMultiplier
                in if product > MAX_UINT256 then Inl Overflow else Inr product
      else if tokenMultiplier = 0 then Inl DivisionByZero
      else Inr (amount div tokenMultiplier))"

definition applyTokenScale :: "int \<Rightarrow> bool \<Rightarrow> int \<Rightarrow> scaling_result" where
  "applyTokenScale tokenMultiplier multiplyOnRemote homeTokenAmount =
     scaleTokens tokenMultiplier multiplyOnRemote homeTokenAmount True"

definition removeTokenScale :: "int \<Rightarrow> bool \<Rightarrow> int \<Rightarrow> scaling_result" where
  "removeTokenScale tokenMultiplier multiplyOnRemote remoteTokenAmount =
     scaleTokens tokenMultiplier multiplyOnRemote remoteTokenAmount False"

record token_multiplier_values =
  tmv_tokenMultiplier :: int
  tmv_multiplyOnRemote :: bool

definition deriveTokenMultiplierValues :: "int \<Rightarrow> int \<Rightarrow> scaling_failure + token_multiplier_values" where
  "deriveTokenMultiplierValues homeTokenDecimals remoteTokenDecimals =
     (if homeTokenDecimals < 0 \<or> homeTokenDecimals > 255 then Inl DecimalsOutOfRange
      else if remoteTokenDecimals < 0 \<or> remoteTokenDecimals > 255 then Inl DecimalsOutOfRange
      else if remoteTokenDecimals > MAX_TOKEN_DECIMALS then Inl DecimalsExceedMaximum
      else let multiplyOnRemote = remoteTokenDecimals > homeTokenDecimals;
               exponent = (if multiplyOnRemote then remoteTokenDecimals - homeTokenDecimals
                           else homeTokenDecimals - remoteTokenDecimals)
           in Inr \<lparr>tmv_tokenMultiplier = 10 ^ nat exponent, tmv_multiplyOnRemote = multiplyOnRemote\<rparr>)"

definition deriveCollateralNeeded :: "int \<Rightarrow> bool \<Rightarrow> int \<Rightarrow> scaling_result" where
  "deriveCollateralNeeded tokenMultiplier multiplyOnRemote initialReserveImbalance =
     (case removeTokenScale tokenMultiplier multiplyOnRemote initialReserveImbalance of
        Inl e \<Rightarrow> Inl e
      | Inr scaled \<Rightarrow>
          if multiplyOnRemote
          then if tokenMultiplier = 0 then Inl DivisionByZero
               else if initialReserveImbalance mod tokenMultiplier \<noteq> 0
                    then let rounded = scaled + 1
                         in if rounded > MAX_UINT256 then Inl Overflow else Inr rounded
                    else Inr scaled
          else Inr scaled)"

section \<open>Rounding\<close>

text \<open>The conservative rounding of the same division.\<close>

definition ceil_div :: "int \<Rightarrow> int \<Rightarrow> int" where
  "ceil_div a m = (if a mod m = 0 then a div m else a div m + 1)"

lemma div_mult_bounds:
  assumes "0 < m"
  shows "a div m * m \<le> (a::int)" and "a < (a div m + 1) * m"
proof -
  have "a = a div m * m + a mod m" by simp
  moreover have "0 \<le> a mod m" "a mod m < m" using assms by simp_all
  ultimately show "a div m * m \<le> a" "a < (a div m + 1) * m"
    unfolding distrib_right mult_1 by linarith+
qed

lemma div_less_iff:
  assumes "0 < m"
  shows "a div m < h \<longleftrightarrow> a < h * (m::int)"
proof
  assume "a div m < h"
  then have "(a div m + 1) * m \<le> h * m" using assms by (intro mult_right_mono) auto
  with div_mult_bounds(2) [OF assms, of a] show "a < h * m" by simp
next
  assume *: "a < h * m"
  show "a div m < h"
  proof (rule ccontr)
    assume "\<not> a div m < h"
    then have "h * m \<le> a div m * m" using assms by (intro mult_right_mono) auto
    with * div_mult_bounds(1) [OF assms, of a] show False by simp
  qed
qed

lemma div_le_self:
  assumes "0 < m" and "0 \<le> a"
  shows "a div m \<le> (a::int)"
proof -
  have "a div m * 1 \<le> a div m * m"
    using assms by (intro mult_left_mono) (auto simp: pos_imp_zdiv_nonneg_iff)
  with div_mult_bounds(1) [OF assms(1), of a] show ?thesis by simp
qed

lemma ceil_div_least:
  assumes "0 < m"
  shows "ceil_div a m \<le> h \<longleftrightarrow> a \<le> h * m"
proof (cases "a mod m = 0")
  case True
  then have "a = a div m * m" by (simp add: mod_0_imp_dvd)
  then have "a \<le> h * m \<longleftrightarrow> a div m * m \<le> h * m" by simp
  also have "\<dots> \<longleftrightarrow> a div m \<le> h" using assms by simp
  finally show ?thesis using True by (simp add: ceil_div_def)
next
  case False
  have "a div m < h \<longleftrightarrow> a < h * m"
    using assms by (rule div_less_iff)
  moreover have "a \<noteq> h * m" using False by auto
  ultimately show ?thesis using False by (auto simp: ceil_div_def)
qed

lemma ceil_div_nonneg: "0 < m \<Longrightarrow> 0 \<le> a \<Longrightarrow> 0 \<le> ceil_div a m"
  by (simp add: ceil_div_def pos_imp_zdiv_nonneg_iff)

lemma floor_ceil: "0 < m \<Longrightarrow> a div m \<le> ceil_div a m \<and> ceil_div a m \<le> a div m + 1"
  by (simp add: ceil_div_def)

text \<open>Both scalings, by direction of the multiplication.\<close>

lemma applyTokenScale_Inr:
  "applyTokenScale m up h = Inr r \<longleftrightarrow> 0 \<le> h \<and> 0 \<le> m
     \<and> (if up then h * m \<le> MAX_UINT256 \<and> r = h * m else 0 < m \<and> r = h div m)"
  by (auto simp: applyTokenScale_def scaleTokens_def Let_def)

lemma removeTokenScale_Inr:
  "removeTokenScale m up r = Inr h \<longleftrightarrow> 0 \<le> r \<and> 0 \<le> m
     \<and> (if up then 0 < m \<and> h = r div m else r * m \<le> MAX_UINT256 \<and> h = r * m)"
  by (auto simp: removeTokenScale_def scaleTokens_def Let_def)

text \<open>
  Bridging an amount out and back never creates value. If both conversions succeed, the
  amount that returns is at most the amount that left, exactly the same when the remote has the
  finer denomination, and short by less than one multiplier (the dust) when it has the coarser
  one; the amounts stay in the uint256 range.
\<close>

theorem token_scale_roundtrip:
  assumes "0 < m" and "h \<le> MAX_UINT256"
    and "applyTokenScale m up h = Inr r" and "removeTokenScale m up r = Inr h'"
  shows "h' \<le> h \<and> (up \<longrightarrow> h' = h) \<and> (\<not> up \<longrightarrow> h - h' = h mod m \<and> h - h' < m)
       \<and> 0 \<le> r \<and> r \<le> MAX_UINT256 \<and> 0 \<le> h'"
proof (cases up)
  case True
  with assms have "r = h * m" "h' = r div m" "0 \<le> h" "h * m \<le> MAX_UINT256"
    by (simp_all add: applyTokenScale_Inr removeTokenScale_Inr)
  with True assms(1) show ?thesis by simp
next
  case False
  with assms have eqs: "r = h div m" "h' = r * m" "0 \<le> h"
    by (simp_all add: applyTokenScale_Inr removeTokenScale_Inr)
  have "h - h' = h mod m" by (simp add: eqs minus_div_mult_eq_mod)
  moreover have "h mod m < m" "0 \<le> h mod m" using assms(1) by simp_all
  moreover have "h div m \<le> h" using assms(1) eqs(3) by (rule div_le_self)
  moreover have "0 \<le> h div m" using eqs(3) assms(1) by (simp add: pos_imp_zdiv_nonneg_iff)
  moreover have "h div m * m \<le> h" using assms(1) by (rule div_mult_bounds)
  ultimately show ?thesis using False assms(1,2) by (auto simp: eqs)
qed

theorem token_scale_roundtrip_witness:
  "\<exists>r h'. applyTokenScale 10 False 27 = Inr r \<and> removeTokenScale 10 False r = Inr h' \<and> 27 - h' < 10"
proof -
  have *: "applyTokenScale 10 False 27 = Inr 2" "removeTokenScale 10 False 2 = Inr 20"
    by (simp_all add: applyTokenScale_Inr removeTokenScale_Inr MAX_UINT256_def)
  have "27 \<le> MAX_UINT256" by (simp add: MAX_UINT256_def)
  from token_scale_roundtrip [OF _ this *] have "27 - 20 < (10::int)" by simp
  with * show ?thesis by blast
qed

text \<open>
  The collateral asked for at registration is exactly enough: on a valid multiplier it is
  the least home amount whose value in remote units covers the initial reserve imbalance, in
  both directions of the multiplication, and it is only refused when it does not fit a uint256
  (or the imbalance is negative).
\<close>

theorem deriveCollateralNeeded_least:
  assumes "0 < m"
  shows "deriveCollateralNeeded m up imbalance = Inr c \<longleftrightarrow>
     0 \<le> imbalance
     \<and> (if up then (\<forall>h. c \<le> h \<longleftrightarrow> imbalance \<le> h * m)
                   \<and> (imbalance mod m = 0 \<or> c \<le> MAX_UINT256)
        else (\<forall>h. c \<le> h \<longleftrightarrow> imbalance \<le> h div m) \<and> c \<le> MAX_UINT256)"
proof (cases up)
  case True
  have "deriveCollateralNeeded m up imbalance = Inr c \<longleftrightarrow>
      0 \<le> imbalance \<and> c = ceil_div imbalance m \<and> (imbalance mod m = 0 \<or> c \<le> MAX_UINT256)"
    using True assms
    by (auto simp: deriveCollateralNeeded_def removeTokenScale_def scaleTokens_def Let_def ceil_div_def)
  also have "c = ceil_div imbalance m \<longleftrightarrow> (\<forall>h. c \<le> h \<longleftrightarrow> imbalance \<le> h * m)"
    unfolding ceil_div_least [OF assms, symmetric] by (meson order_antisym order_refl)
  finally show ?thesis using True by simp
next
  case False
  have "deriveCollateralNeeded m up imbalance = Inr c \<longleftrightarrow>
      0 \<le> imbalance \<and> c = imbalance * m \<and> c \<le> MAX_UINT256"
    using False assms
    by (auto simp: deriveCollateralNeeded_def removeTokenScale_def scaleTokens_def Let_def)
  also have "c = imbalance * m \<longleftrightarrow> (\<forall>h. c \<le> h \<longleftrightarrow> imbalance \<le> h div m)"
  proof -
    have "imbalance \<le> h div m \<longleftrightarrow> imbalance * m \<le> h" for h
      using div_less_iff [OF assms, of h imbalance] by (auto simp: not_less [symmetric])
    then show ?thesis by (metis order_antisym order_refl)
  qed
  finally show ?thesis using False by simp
qed

theorem deriveCollateralNeeded_least_witness:
  "deriveCollateralNeeded 10 True 27 = Inr 3"
proof -
  have "3 \<le> h \<longleftrightarrow> 27 \<le> h * 10" for h :: int by arith
  moreover have "3 \<le> MAX_UINT256" by (simp add: MAX_UINT256_def)
  ultimately show ?thesis
    by (simp add: deriveCollateralNeeded_least [of 10 True 27 3])
qed

text \<open>
  Deriving the multiplier. A pair of decimals is accepted exactly when both are uint8 and
  the remote's are at most 18; the multiplier is the positive power of ten of the difference and
  the direction says which side is finer, so one unit of the coarser side is that many of the
  finer. The derived multiplier itself fits a uint256 exactly when the difference is below 78:
  beyond it the function still answers, with a number the contract cannot hold.
\<close>

theorem deriveTokenMultiplierValues_spec:
  "deriveTokenMultiplierValues home remote = Inr v \<longleftrightarrow>
     0 \<le> home \<and> home \<le> 255 \<and> 0 \<le> remote \<and> remote \<le> 18
     \<and> tmv_multiplyOnRemote v = (home < remote)
     \<and> tmv_tokenMultiplier v = 10 ^ nat \<bar>remote - home\<bar>
     \<and> (tmv_tokenMultiplier v \<le> MAX_UINT256 \<longleftrightarrow> \<bar>remote - home\<bar> < 78)"
proof -
  have range: "(10::int) ^ n \<le> MAX_UINT256 \<longleftrightarrow> n < 78" for n
  proof (cases "n < 78")
    case True
    then have "(10::int) ^ n \<le> 10 ^ 77" by (intro power_increasing) auto
    also have "\<dots> \<le> MAX_UINT256" by (simp add: MAX_UINT256_def)
    finally show ?thesis using True by simp
  next
    case False
    have "MAX_UINT256 < (10::int) ^ 78" by (simp add: MAX_UINT256_def)
    also have "\<dots> \<le> 10 ^ n" using False by (intro power_increasing) auto
    finally show ?thesis using False by simp
  qed
  have "nat \<bar>remote - home\<bar> < 78 \<longleftrightarrow> \<bar>remote - home\<bar> < 78" by arith
  with range [of "nat \<bar>remote - home\<bar>"] show ?thesis
    by (cases v) (auto simp: deriveTokenMultiplierValues_def MAX_TOKEN_DECIMALS_def Let_def
        abs_if intro!: arg_cong [where f = nat])
qed

end
