(* ===== verification/GateB.thy ===== *)
theory GateB
  imports GateA Scaling
begin

text \<open>
  packages/invariant-core/src/gate-b.ts: physical coverage of the liabilities by the home escrow,
  with both roundings of the conversion to home units.
\<close>

record remote_liability =
  rl_remoteBlockchainId :: string
  rl_remoteAddress :: string
  rl_remoteUnits :: int
  rl_floorHomeUnits :: int
  rl_ceilHomeUnits :: int
  rl_dust :: int

record gate_b_result =
  gb_outcome :: gate_outcome
  gb_reasons :: "reason_code list"
  gb_escrowBalance :: int
  gb_floorLiability :: int
  gb_conservativeLiability :: int
  gb_totalDust :: int
  gb_surplus :: int
  gb_perRemote :: "remote_liability list"

text \<open>\<open>ScaleOutcome\<close>: the two roundings, or the reason of the refusal.\<close>

definition toHomeUnits :: "int \<Rightarrow> int \<Rightarrow> bool \<Rightarrow> scaling_failure + int \<times> int" where
  "toHomeUnits remoteAmount tokenMultiplier multiplyOnRemote =
     (if remoteAmount < 0 \<or> tokenMultiplier < 0 then Inl Negative
      else if \<not> multiplyOnRemote
           then let product = remoteAmount * tokenMultiplier
                in if product > MAX_UINT256 then Inl Overflow else Inr (product, product)
      else if tokenMultiplier = 0 then Inl DivisionByZero
      else let floor = remoteAmount div tokenMultiplier;
               ceil = (if remoteAmount mod tokenMultiplier = 0 then floor else floor + 1)
           in Inr (floor, ceil))"

definition gate_b_unknown :: "reason_code \<Rightarrow> gate_b_result" where
  "gate_b_unknown reason =
     \<lparr>gb_outcome = GateUnknown, gb_reasons = [reason], gb_escrowBalance = 0, gb_floorLiability = 0,
      gb_conservativeLiability = 0, gb_totalDust = 0, gb_surplus = 0, gb_perRemote = []\<rparr>"

text \<open>The body of the loop over the remotes; an early return of the loop is its \<open>Inl\<close>.\<close>

definition liability_step ::
  "remote_liability list \<Rightarrow> remote_observation \<Rightarrow> reason_code + remote_liability list" where
  "liability_step perRemote r =
     (case ro_transferredBalance r of
        None \<Rightarrow> Inl ACC_I07_MISSING_OBSERVATION
      | Some remoteUnits \<Rightarrow>
          (case toHomeUnits remoteUnits (tsc_tokenMultiplier (ro_scale r)) (tsc_multiplyOnRemote (ro_scale r)) of
             Inl _ \<Rightarrow> Inl ACC_A06_ARITHMETIC_OUT_OF_RANGE
           | Inr (floor, ceil) \<Rightarrow>
               Inr (perRemote @ [\<lparr>rl_remoteBlockchainId = ro_remoteBlockchainId r,
                 rl_remoteAddress = ro_remoteAddress r, rl_remoteUnits = remoteUnits,
                 rl_floorHomeUnits = floor, rl_ceilHomeUnits = ceil, rl_dust = ceil - floor\<rparr>])))"

definition evaluateGateB :: "proof_input \<Rightarrow> bool \<Rightarrow> gate_b_result" where
  "evaluateGateB input gateAPassed =
     (if \<not> gateAPassed then gate_b_unknown ACC_B03_GATE_A_NOT_PASSED
      else if length (pi_untrackedRemotes input) > 0
           then gate_b_unknown ACC_B02_UNTRACKED_REMOTE_LIABILITY
      else if pi_census input \<noteq> CompleteFromDeploymentBlock
           then gate_b_unknown ACC_I03_CENSUS_INCOMPLETE
      else (case (he_escrowBalance (pi_homeEscrow input), he_homePin (pi_homeEscrow input)) of
        (Some escrow, Some _) \<Rightarrow>
          (case fold_result liability_step [] (pi_remotes input) of
             Inl reason \<Rightarrow> gate_b_unknown reason
           | Inr perRemote \<Rightarrow>
               let floorLiability = sum_list (map rl_floorHomeUnits perRemote);
                   conservativeLiability = sum_list (map rl_ceilHomeUnits perRemote);
                   totalDust = conservativeLiability - floorLiability;
                   surplus = escrow - conservativeLiability;
                   result = (\<lambda>outcome reason.
                     \<lparr>gb_outcome = outcome, gb_reasons = [reason], gb_escrowBalance = escrow,
                      gb_floorLiability = floorLiability,
                      gb_conservativeLiability = conservativeLiability,
                      gb_totalDust = totalDust, gb_surplus = surplus, gb_perRemote = perRemote\<rparr>)
               in if surplus \<ge> 0 then result GatePass ACC_B00_COVERAGE_SUFFICIENT
                  else result GateFail ACC_B01_COVERAGE_SHORTFALL)
      | _ \<Rightarrow> gate_b_unknown ACC_I07_MISSING_OBSERVATION))"

section \<open>Conversion\<close>

lemma toHomeUnits_Inr:
  "toHomeUnits a m up = Inr (f, c) \<longleftrightarrow> 0 \<le> a \<and> 0 \<le> m
     \<and> (if up then 0 < m \<and> f = a div m \<and> c = ceil_div a m
        else a * m \<le> MAX_UINT256 \<and> f = a * m \<and> c = a * m)"
  by (auto simp: toHomeUnits_def Let_def ceil_div_def)

text \<open>
  C40. The two ports of the token scaling agree: Gate B's floor is exactly what the adapters'
  \<open>removeTokenScale\<close> answers, with the same refusals, and its ceiling is the collateral the
  contract would ask for that amount (unless that leaves the uint256 range). The two roundings
  enclose the exact value: on a dividing route the ceiling is the least number of home units
  worth the remote amount, and the dust is at most one.
\<close>

theorem toHomeUnits_matches_adapters:
  "(case toHomeUnits a m up of Inl e \<Rightarrow> removeTokenScale m up a = Inl e
    | Inr (f, c) \<Rightarrow> removeTokenScale m up a = Inr f
        \<and> deriveCollateralNeeded m up a
            = (if f < c \<and> MAX_UINT256 < c then Inl Overflow else Inr c)
        \<and> f \<le> c \<and> c \<le> f + 1 \<and> (if up then f * m \<le> a \<and> a \<le> c * m else f = a * m \<and> c = f))"
proof (cases "toHomeUnits a m up")
  case (Inl e)
  then show ?thesis
    by (auto simp: toHomeUnits_def removeTokenScale_def scaleTokens_def Let_def split: if_splits)
next
  case (Inr fc)
  obtain f c where fc: "fc = (f, c)" by (cases fc)
  have *: "0 \<le> a" "0 \<le> m" "if up then 0 < m \<and> f = a div m \<and> c = ceil_div a m
      else a * m \<le> MAX_UINT256 \<and> f = a * m \<and> c = a * m"
    using Inr unfolding fc toHomeUnits_Inr by simp_all
  have remove: "removeTokenScale m up a = Inr f" using * by (simp add: removeTokenScale_Inr split: if_splits)
  have "a \<le> c * m" "f * m \<le> a" if up
    using that * ceil_div_least [of m a c] div_mult_bounds(1) [of m a] by simp_all
  then show ?thesis using Inr * remove floor_ceil [of m a]
    by (auto simp: fc deriveCollateralNeeded_def ceil_div_def Let_def split: if_splits)
qed

section \<open>Coverage\<close>

text \<open>The conservative liability of a remote, where it can be converted.\<close>

definition liability_of :: "remote_observation \<Rightarrow> (int \<times> int) option" where
  "liability_of r =
     (case ro_transferredBalance r of None \<Rightarrow> None
      | Some u \<Rightarrow> (case toHomeUnits u (tsc_tokenMultiplier (ro_scale r)) (tsc_multiplyOnRemote (ro_scale r)) of
           Inl _ \<Rightarrow> None | Inr fc \<Rightarrow> Some fc))"

definition liability_entry :: "remote_observation \<Rightarrow> remote_liability" where
  "liability_entry r =
     (let (f, c) = the (liability_of r) in
      \<lparr>rl_remoteBlockchainId = ro_remoteBlockchainId r, rl_remoteAddress = ro_remoteAddress r,
       rl_remoteUnits = the (ro_transferredBalance r), rl_floorHomeUnits = f, rl_ceilHomeUnits = c,
       rl_dust = c - f\<rparr>)"

lemma liability_step_Inr:
  "liability_of r \<noteq> None \<Longrightarrow> liability_step acc r = Inr (acc @ [liability_entry r])"
  by (auto simp: liability_step_def liability_of_def liability_entry_def
      split: option.splits sum.splits prod.splits)

lemma liability_step_Inl: "liability_of r = None \<Longrightarrow> \<exists>e. liability_step acc r = Inl e"
  by (auto simp: liability_step_def liability_of_def split: option.splits sum.splits)

lemma liability_loop:
  "(\<forall>r \<in> set rs. liability_of r \<noteq> None) \<Longrightarrow>
     fold_result liability_step acc rs = Inr (acc @ map liability_entry rs)"
  by (induction rs arbitrary: acc) (simp_all add: liability_step_Inr)

lemma liability_loop_Inl:
  "\<not> (\<forall>r \<in> set rs. liability_of r \<noteq> None) \<Longrightarrow> \<exists>e. fold_result liability_step acc rs = Inl e"
proof (induction rs arbitrary: acc)
  case (Cons r rs)
  show ?case
  proof (cases "liability_of r = None")
    case True
    then show ?thesis using liability_step_Inl [of r acc] by auto
  next
    case False
    then show ?thesis using Cons by (simp add: liability_step_Inr)
  qed
qed simp

definition ceil_total :: "proof_input \<Rightarrow> int" where
  "ceil_total input = sum_list (map (\<lambda>r. rl_ceilHomeUnits (liability_entry r)) (pi_remotes input))"

text \<open>Every liability is known and convertible, and the escrow was read at a pinned block.\<close>

definition liabilities_known :: "proof_input \<Rightarrow> bool" where
  "liabilities_known input \<longleftrightarrow> pi_untrackedRemotes input = []
     \<and> pi_census input = CompleteFromDeploymentBlock
     \<and> he_escrowBalance (pi_homeEscrow input) \<noteq> None \<and> he_homePin (pi_homeEscrow input) \<noteq> None
     \<and> (\<forall>r \<in> set (pi_remotes input). liability_of r \<noteq> None)"

lemma gate_b_unknown_simps [simp]: "gb_outcome (gate_b_unknown c) = GateUnknown"
  by (simp add: gate_b_unknown_def)

lemma evaluateGateB_known:
  assumes "liabilities_known input" and "he_escrowBalance (pi_homeEscrow input) = Some escrow"
  shows "gb_outcome (evaluateGateB input True) = (if ceil_total input \<le> escrow then GatePass else GateFail)"
    and "gb_surplus (evaluateGateB input True) = escrow - ceil_total input"
    and "gb_perRemote (evaluateGateB input True) = map liability_entry (pi_remotes input)"
    and "gb_conservativeLiability (evaluateGateB input True) = ceil_total input"
proof -
  have pin: "\<exists>p. he_homePin (pi_homeEscrow input) = Some p"
    using assms(1) by (simp add: liabilities_known_def)
  have loop: "fold_result liability_step [] (pi_remotes input) = Inr (map liability_entry (pi_remotes input))"
    using assms(1) by (simp add: liability_loop liabilities_known_def)
  note known = assms(1) [unfolded liabilities_known_def]
  show "gb_outcome (evaluateGateB input True) = (if ceil_total input \<le> escrow then GatePass else GateFail)"
    "gb_surplus (evaluateGateB input True) = escrow - ceil_total input"
    "gb_perRemote (evaluateGateB input True) = map liability_entry (pi_remotes input)"
    "gb_conservativeLiability (evaluateGateB input True) = ceil_total input"
    using pin known assms(2) loop
    by (auto simp: evaluateGateB_def Let_def ceil_total_def comp_def)
qed

lemma evaluateGateB_not_known:
  assumes "\<not> liabilities_known input \<or> \<not> passed"
  shows "gb_outcome (evaluateGateB input passed) = GateUnknown"
proof (cases "passed \<and> pi_untrackedRemotes input = [] \<and> pi_census input = CompleteFromDeploymentBlock
    \<and> he_escrowBalance (pi_homeEscrow input) \<noteq> None \<and> he_homePin (pi_homeEscrow input) \<noteq> None")
  case True
  with assms have "\<not> (\<forall>r \<in> set (pi_remotes input). liability_of r \<noteq> None)"
    by (auto simp: liabilities_known_def)
  from liability_loop_Inl [OF this, of "[]"] True show ?thesis by (auto simp: evaluateGateB_def)
next
  case False
  then show ?thesis by (auto simp: evaluateGateB_def split: option.splits)
qed

text \<open>
  Gate B decides by the lower bound and by nothing else. It answers only once Gate A passed
  and every liability is known and convertible; it then passes exactly when the escrow is at
  least the sum of the ceilings of the remotes' liabilities, surplus allowed, and fails exactly
  when it is below. Anything unknown is UNKNOWN, never a zero liability.
\<close>

theorem evaluateGateB_spec:
  "(gb_outcome (evaluateGateB input passed) = GatePass \<longleftrightarrow> passed \<and> liabilities_known input
      \<and> (\<exists>escrow. he_escrowBalance (pi_homeEscrow input) = Some escrow \<and> ceil_total input \<le> escrow))
   \<and> (gb_outcome (evaluateGateB input passed) = GateFail \<longleftrightarrow> passed \<and> liabilities_known input
      \<and> (\<exists>escrow. he_escrowBalance (pi_homeEscrow input) = Some escrow \<and> escrow < ceil_total input))"
proof (cases "liabilities_known input \<and> passed")
  case True
  then obtain escrow where "he_escrowBalance (pi_homeEscrow input) = Some escrow"
    by (auto simp: liabilities_known_def)
  with evaluateGateB_known(1) [of input] True show ?thesis by auto
next
  case False
  then have "gb_outcome (evaluateGateB input passed) = GateUnknown"
    by (intro evaluateGateB_not_known) blast
  with False show ?thesis by auto
qed

text \<open>What the protocol releases for one redemption of remote units, in home units; a conversion
  that reverts releases nothing.\<close>

definition released :: "remote_observation \<Rightarrow> int \<Rightarrow> int" where
  "released r a = (case removeTokenScale (tsc_tokenMultiplier (ro_scale r)) (tsc_multiplyOnRemote (ro_scale r)) a
     of Inl _ \<Rightarrow> 0 | Inr h \<Rightarrow> h)"

lemma released_le:
  assumes "liability_of r = Some (f, c)" and "0 \<le> a" and "a \<le> the (ro_transferredBalance r)"
  shows "released r a * (if tsc_multiplyOnRemote (ro_scale r) then tsc_tokenMultiplier (ro_scale r) else 1)
       \<le> a * (if tsc_multiplyOnRemote (ro_scale r) then 1 else tsc_tokenMultiplier (ro_scale r))"
proof -
  from assms(1) obtain u where u: "ro_transferredBalance r = Some u"
    "toHomeUnits u (tsc_tokenMultiplier (ro_scale r)) (tsc_multiplyOnRemote (ro_scale r)) = Inr (f, c)"
    by (auto simp: liability_of_def split: option.splits sum.splits)
  show ?thesis
  proof (cases "tsc_multiplyOnRemote (ro_scale r)")
    case True
    with u assms(2) have "0 < tsc_tokenMultiplier (ro_scale r)" by (simp add: toHomeUnits_Inr)
    with True assms(2) div_mult_bounds(1) show ?thesis
      by (simp add: released_def removeTokenScale_def scaleTokens_def)
  next
    case False
    with u have "0 \<le> tsc_tokenMultiplier (ro_scale r)" by (simp add: toHomeUnits_Inr)
    with False assms(2) show ?thesis
      by (simp add: released_def removeTokenScale_def scaleTokens_def Let_def)
  qed
qed

text \<open>However an obligation is split into redemptions, the releases stay within the ceiling.\<close>

lemma releases_within_ceiling:
  assumes "liability_of r = Some (f, c)" and "\<forall>a \<in> set as. 0 \<le> a"
    and "sum_list as \<le> the (ro_transferredBalance r)"
  shows "sum_list (map (released r) as) \<le> c"
proof -
  let ?m = "tsc_tokenMultiplier (ro_scale r)" and ?up = "tsc_multiplyOnRemote (ro_scale r)"
  obtain u where u: "ro_transferredBalance r = Some u" "toHomeUnits u ?m ?up = Inr (f, c)"
    using assms(1) by (auto simp: liability_of_def split: option.splits sum.splits)
  have part: "a \<le> sum_list as" if "a \<in> set as" for a
    using that assms(2) by (intro member_le_sum_list_int) auto
  have "sum_list (map (\<lambda>a. released r a * (if ?up then ?m else 1)) as)
      \<le> sum_list (map (\<lambda>a. a * (if ?up then 1 else ?m)) as)"
    using assms part by (intro sum_list_map_mono_int released_le [OF assms(1)]) (auto intro: order_trans)
  also have "\<dots> = sum_list as * (if ?up then 1 else ?m)" by (simp add: sum_list_mult_const)
  finally have total: "sum_list (map (released r) as) * (if ?up then ?m else 1)
      \<le> sum_list as * (if ?up then 1 else ?m)" by (simp add: sum_list_mult_const)
  show ?thesis
  proof (cases ?up)
    case True
    then have m: "0 < ?m" "c = ceil_div u ?m" using u by (simp_all add: toHomeUnits_Inr)
    have "sum_list (map (released r) as) * ?m \<le> c * ?m"
      using total assms(3) True u(1) ceil_div_least [OF m(1), of u c] m(2) by simp
    with m(1) show ?thesis by simp
  next
    case False
    then have "c = u * ?m" "0 \<le> ?m" using u by (simp_all add: toHomeUnits_Inr)
    moreover have "sum_list as * ?m \<le> u * ?m"
      using assms(3) u(1) \<open>0 \<le> ?m\<close> by (intro mult_right_mono) auto
    ultimately show ?thesis using total False by simp
  qed
qed

text \<open>
  C9. What a pass of Gate B is worth: however the holders of every remote redeem what they are
  owed, in any number of partial redemptions (each rounded as the contract rounds it), the home
  escrow observed is enough to pay all of them.
\<close>

theorem gateB_pass_covers_all_redemptions:
  assumes "gb_outcome (evaluateGateB input passed) = GatePass"
    and "\<And>r. r \<in> set (pi_remotes input) \<Longrightarrow> \<forall>a \<in> set (redeem r). 0 \<le> a"
    and "\<And>r. r \<in> set (pi_remotes input) \<Longrightarrow> sum_list (redeem r) \<le> the (ro_transferredBalance r)"
  shows "(\<Sum>r \<leftarrow> pi_remotes input. sum_list (map (released r) (redeem r)))
       \<le> the (he_escrowBalance (pi_homeEscrow input))"
proof -
  obtain escrow where known: "liabilities_known input"
    and escrow: "he_escrowBalance (pi_homeEscrow input) = Some escrow" "ceil_total input \<le> escrow"
    using assms(1) by (auto simp: evaluateGateB_spec)
  have "sum_list (map (released r) (redeem r)) \<le> rl_ceilHomeUnits (liability_entry r)"
    if r: "r \<in> set (pi_remotes input)" for r
  proof -
    obtain f c where fc: "liability_of r = Some (f, c)"
      using known r by (force simp: liabilities_known_def)
    have "sum_list (map (released r) (redeem r)) \<le> c"
      by (rule releases_within_ceiling [OF fc assms(2) [OF r] assms(3) [OF r]])
    then show ?thesis by (simp add: liability_entry_def fc)
  qed
  then have "(\<Sum>r \<leftarrow> pi_remotes input. sum_list (map (released r) (redeem r))) \<le> ceil_total input"
    unfolding ceil_total_def by (rule sum_list_map_mono_int)
  with escrow show ?thesis by simp
qed

theorem gateB_pass_covers_all_redemptions_witness:
  "(\<Sum>r \<leftarrow> pi_remotes (example_proof 9 9 []). sum_list (map (released r) [4, 5])) \<le> 1"
proof -
  have "he_escrowBalance (pi_homeEscrow (example_proof 9 9 [])) = Some 1"
    by (simp add: example_proof_def)
  moreover have "gb_outcome (evaluateGateB (example_proof 9 9 []) True) = GatePass"
    by (simp add: evaluateGateB_spec liabilities_known_def example_proof_def example_remote_def
        liability_of_def toHomeUnits_def ceil_total_def liability_entry_def)
  moreover have "\<forall>a \<in> set [4, 5 :: int]. 0 \<le> a" by simp
  moreover have "sum_list [4, 5] \<le> the (ro_transferredBalance r)"
    if "r \<in> set (pi_remotes (example_proof 9 9 []))" for r
    using that by (simp add: example_proof_def example_remote_def)
  ultimately show ?thesis
    using gateB_pass_covers_all_redemptions [of "example_proof 9 9 []" True "\<lambda>_. [4, 5]"] by simp
qed

end
