(* ===== verification/Engine.thy ===== *)
theory Engine
  imports GateB Json
begin

text \<open>
  packages/invariant-core/src/engine.ts (with the rule output of outcome.ts): the canonical ERC20
  rule, its canonical input string and its digest. The hash function is an argument, as it is in
  the code.
\<close>

section \<open>Rule output\<close>

datatype measurement_unit = RemoteBaseUnits | HomeBaseUnits

record measurement =
  ms_expected :: int
  ms_observed :: int
  ms_delta :: int
  ms_unit :: measurement_unit

record pending_breakdown =
  pbd_homeToRemote :: int
  pbd_remoteToHome :: int
  pbd_total :: int
  pbd_count :: nat
  pbd_overAgeCount :: nat

record evidence_refs =
  er_pinnedBlocks :: "string list"
  er_witnessGroups :: int
  er_requiredWitnessGroups :: int
  er_sourceLockCommitSha :: "string option"
  er_adapterId :: "string option"
  er_adapterVersion :: "int option"

record rule_output =
  out_ruleId :: string
  out_ruleVersion :: string
  out_result :: proof_result
  out_verdictCandidate :: verdict
  out_reasons :: "reason_code list"
  out_measurement :: "measurement option"
  out_pending :: "pending_breakdown option"
  out_evidence :: evidence_refs
  out_assumptions :: "string list"
  out_exclusions :: "string list"
  out_inputDigest :: string

definition isGreen :: "rule_output \<Rightarrow> bool" where
  "isGreen o1 \<longleftrightarrow> out_result o1 = PASS \<and> out_verdictCandidate o1 = OK"

record canonical_erc20_evaluation =
  ev_output :: rule_output
  ev_gateA :: gate_a_result
  ev_gateB :: gate_b_result

definition RULE_ID :: string where
  "RULE_ID = ''ACC-ERC20-CANONICAL''"

section \<open>The canonical input\<close>

definition jopt :: "('a \<Rightarrow> json) \<Rightarrow> 'a option \<Rightarrow> json" where
  "jopt f x = (case x of None \<Rightarrow> JNull | Some v \<Rightarrow> f v)"

definition jbig :: "int \<Rightarrow> json" where
  "jbig i = JStr (show_int i)"

definition jpin :: "pinned_block \<Rightarrow> json" where
  "jpin p = JStr (show_int (pb_blockNumber p) @ '':'' @ pb_blockHash p)"

fun census_text :: "census_state \<Rightarrow> string" where
  "census_text CompleteFromDeploymentBlock = ''complete-from-deployment-block''"
| "census_text PartialCensus = ''partial''"
| "census_text UnknownCensus = ''unknown''"

fun cut_text :: "cut_state \<Rightarrow> string" where
  "cut_text CutClosed = ''closed''"
| "cut_text CutOpen = ''open''"
| "cut_text CutGap = ''gap''"

fun direction_text :: "direction \<Rightarrow> string" where
  "direction_text HomeToRemote = ''home-to-remote''"
| "direction_text RemoteToHome = ''remote-to-home''"

definition provenance_json :: "provenance_input \<Rightarrow> json" where
  "provenance_json p = JObj
     [(''manifestHash'', jopt JStr (pv_manifestHash p)), (''policyHash'', jopt JStr (pv_policyHash p)),
      (''sourceLockCommitSha'', jopt JStr (pv_sourceLockCommitSha p)),
      (''adapterId'', jopt JStr (pv_adapterId p)), (''adapterVersion'', jopt JNum (pv_adapterVersion p)),
      (''ruleVersion'', JStr (pv_ruleVersion p))]"

definition freshness_json :: "freshness_input \<Rightarrow> json" where
  "freshness_json f = JObj
     [(''fresh'', JBool (fr_fresh f)), (''independentWitnessGroups'', JNum (fr_independentWitnessGroups f)),
      (''requiredWitnessGroups'', JNum (fr_requiredWitnessGroups f))]"

definition remote_json :: "remote_observation \<Rightarrow> json" where
  "remote_json r = JObj
     [(''remoteBlockchainId'', JStr (ro_remoteBlockchainId r)), (''remoteAddress'', JStr (ro_remoteAddress r)),
      (''transferredBalance'', jopt jbig (ro_transferredBalance r)),
      (''remoteTotalSupply'', jopt jbig (ro_remoteTotalSupply r)),
      (''tokenMultiplier'', jbig (tsc_tokenMultiplier (ro_scale r))),
      (''multiplyOnRemote'', JBool (tsc_multiplyOnRemote (ro_scale r))),
      (''homeDecimals'', JNum (tsc_homeDecimals (ro_scale r))),
      (''remoteDecimals'', JNum (tsc_remoteDecimals (ro_scale r))),
      (''established'', JBool (tsc_established (ro_scale r))),
      (''homePin'', jopt jpin (ro_homePin r)), (''remotePin'', jopt jpin (ro_remotePin r)),
      (''fingerprintRecognised'', JBool (ro_fingerprintRecognised r)),
      (''tokenBehaviourCanonical'', JBool (ro_tokenBehaviourCanonical r)),
      (''routeSingleHop'', JBool (ro_routeSingleHop r)),
      (''initialReserveImbalance'', jbig (ro_initialReserveImbalance r))]"

definition pending_json :: "pending_envelope \<Rightarrow> json" where
  "pending_json p = JObj
     [(''messageKey'', JStr (pe_messageKey p)), (''direction'', JStr (direction_text (pe_direction p))),
      (''amount'', jbig (pe_amount p)), (''ageSeconds'', JNum (pe_ageSeconds p)),
      (''remoteBlockchainId'', JStr (pe_remoteBlockchainId p)),
      (''remoteAddress'', JStr (pe_remoteAddress p))]"

definition effect_json :: "credited_effect \<Rightarrow> json" where
  "effect_json e = JObj
     [(''messageKey'', JStr (ce_messageKey e)), (''amount'', jbig (ce_amount e)),
      (''remoteBlockchainId'', JStr (ce_remoteBlockchainId e)),
      (''remoteAddress'', JStr (ce_remoteAddress e)),
      (''hasUniqueAuthorisedSource'', JBool (ce_hasUniqueAuthorisedSource e)),
      (''routeMatchesSource'', JBool (ce_routeMatchesSource e)),
      (''duplicateEffect'', JBool (ce_duplicateEffect e)),
      (''causalSourceFact'', jopt JStr (ce_causalSourceFact e))]"

definition escrow_json :: "home_escrow_input \<Rightarrow> json" where
  "escrow_json h = JObj
     [(''escrowBalance'', jopt jbig (he_escrowBalance h)), (''homePin'', jopt jpin (he_homePin h)),
      (''acceptedCollateralHomeUnits'', jbig (he_acceptedCollateralHomeUnits h))]"

definition remote_sort_key :: "remote_observation \<Rightarrow> string" where
  "remote_sort_key r = ro_remoteBlockchainId r @ ro_remoteAddress r"

text \<open>
  The code maps first and sorts the mapped objects by fields the mapping keeps; the sorts are
  stable, so sorting first gives the same list.
\<close>

definition canonical_input :: "proof_input \<Rightarrow> json" where
  "canonical_input input = JObj
     [(''deploymentId'', JStr (pi_deploymentId input)), (''family'', JStr (pi_family input)),
      (''provenance'', provenance_json (pi_provenance input)),
      (''census'', JStr (census_text (pi_census input))),
      (''untrackedRemotes'', JArr (map JStr (sort (pi_untrackedRemotes input)))),
      (''cut'', JStr (cut_text (pi_cut input))),
      (''freshness'', freshness_json (pi_freshness input)),
      (''remotes'', JArr (map remote_json (sort_key remote_sort_key (pi_remotes input)))),
      (''pending'', JArr (map pending_json (sort_key pe_messageKey (pi_pending input)))),
      (''effects'', JArr (map effect_json (sort_key ce_messageKey (pi_effects input)))),
      (''homeEscrow'', escrow_json (pi_homeEscrow input)),
      (''pendingAgeLimitSeconds'', JNum (pi_pendingAgeLimitSeconds input))]"

definition canonicalInputString :: "proof_input \<Rightarrow> string" where
  "canonicalInputString input = json_print (canonical_input input)"

section \<open>The rule\<close>

definition pin_ref :: "pinned_block \<Rightarrow> string" where
  "pin_ref p = pb_blockchainId p @ ''@'' @ show_int (pb_blockNumber p) @ '':'' @ pb_blockHash p"

definition pinRefs :: "proof_input \<Rightarrow> string list" where
  "pinRefs input =
     sort (uniq (map pin_ref (List.map_filter (\<lambda>p. p)
       (concat (map (\<lambda>r. [ro_homePin r, ro_remotePin r]) (pi_remotes input))
        @ [he_homePin (pi_homeEscrow input)]))))"

definition pendingBreakdown :: "proof_input \<Rightarrow> gate_a_result \<Rightarrow> pending_breakdown" where
  "pendingBreakdown input gateA =
     \<lparr>pbd_homeToRemote = sum_list (map rr_pendingHomeToRemote (ga_perRemote gateA)),
      pbd_remoteToHome = sum_list (map rr_pendingRemoteToHome (ga_perRemote gateA)),
      pbd_total = ga_totalPending gateA, pbd_count = length (pi_pending input),
      pbd_overAgeCount = length (filter (\<lambda>p. pe_ageSeconds p > pi_pendingAgeLimitSeconds input)
        (pi_pending input))\<rparr>"

definition ASSUMPTIONS :: "string list" where
  "ASSUMPTIONS =
    [''Both getTransferredBalance and remote totalSupply are in remote base units, verified from the pinned source; no rescaling is applied before the subtraction.'',
     ''Canonical ERC20 remotes are initialised with a zero reserve imbalance, so no initial-collateral term participates.'',
     ''Provider quorum is counted over independent provider groups and is not a cryptographic or Byzantine guarantee.'',
     ''Observed escrow is on-chain coverage at a pinned block; it is not legal recoverability and not absolute solvency.'']"

definition EXCLUSIONS :: "string list" where
  "EXCLUSIONS =
    [''Native token remotes, custom ERC20 remotes, rebase, fee-on-transfer and blacklist wrappers.'',
     ''Multi-hop and remote-to-remote routes; they are never flattened into a single hop.'',
     ''Any claim about independent ICM/BLS verification; the assurance mode here is accepted state.'']"

definition combine :: "gate_a_result \<Rightarrow> gate_b_result \<Rightarrow> proof_result" where
  "combine a b =
     (if ga_outcome a = GateUnsupported then UNSUPPORTED
      else if ga_outcome a = GateUnknown then UNKNOWN_RESULT
      else if ga_outcome a = GateFail then FAIL
      else if gb_outcome b = GateFail then FAIL
      else if gb_outcome b = GateUnknown then UNKNOWN_RESULT
      else PASS)"

definition evaluateCanonicalErc20 ::
  "proof_input \<Rightarrow> (string \<Rightarrow> string) \<Rightarrow> canonical_erc20_evaluation" where
  "evaluateCanonicalErc20 input hash =
     (let gateA = evaluateGateA input;
          gateB = evaluateGateB input (ga_outcome gateA = GatePass);
          result = combine gateA gateB;
          reasons = uniq (ga_reasons gateA @ (if ga_outcome gateA = GatePass then gb_reasons gateB else []));
          critical = ga_critical gateA;
          measurement =
            (if ga_outcome gateA = GatePass \<or> ga_outcome gateA = GateFail \<or> ga_outcome gateA = GateUnknown
             then if length (ga_perRemote gateA) > 0
                  then Some \<lparr>ms_expected = ga_totalPending gateA, ms_observed = ga_totalDelta gateA,
                             ms_delta = ga_totalDelta gateA - ga_totalPending gateA,
                             ms_unit = RemoteBaseUnits\<rparr>
                  else None
             else None)
      in \<lparr>ev_output =
            \<lparr>out_ruleId = RULE_ID, out_ruleVersion = pv_ruleVersion (pi_provenance input),
             out_result = result, out_verdictCandidate = verdictFor result critical,
             out_reasons = reasons, out_measurement = measurement,
             out_pending = (if length (ga_perRemote gateA) > 0 then Some (pendingBreakdown input gateA)
                            else None),
             out_evidence =
               \<lparr>er_pinnedBlocks = pinRefs input,
                er_witnessGroups = fr_independentWitnessGroups (pi_freshness input),
                er_requiredWitnessGroups = fr_requiredWitnessGroups (pi_freshness input),
                er_sourceLockCommitSha = pv_sourceLockCommitSha (pi_provenance input),
                er_adapterId = pv_adapterId (pi_provenance input),
                er_adapterVersion = pv_adapterVersion (pi_provenance input)\<rparr>,
             out_assumptions = ASSUMPTIONS, out_exclusions = EXCLUSIONS,
             out_inputDigest = hash (canonicalInputString input)\<rparr>,
          ev_gateA = gateA, ev_gateB = gateB\<rparr>)"

abbreviation erc20_output :: "proof_input \<Rightarrow> (string \<Rightarrow> string) \<Rightarrow> rule_output" where
  "erc20_output input hash \<equiv> ev_output (evaluateCanonicalErc20 input hash)"

lemma erc20_output_simps:
  "out_result (erc20_output input hash) =
     combine (evaluateGateA input) (evaluateGateB input (ga_outcome (evaluateGateA input) = GatePass))"
  "out_verdictCandidate (erc20_output input hash) =
     verdictFor (out_result (erc20_output input hash)) (ga_critical (evaluateGateA input))"
  "out_inputDigest (erc20_output input hash) = hash (canonicalInputString input)"
  by (simp_all add: evaluateCanonicalErc20_def Let_def)

lemma gateB_never_unsupported: "gb_outcome (evaluateGateB input passed) \<noteq> GateUnsupported"
  by (auto simp: evaluateGateB_def gate_b_unknown_def Let_def split: option.splits sum.splits)

lemma gateA_fail_critical: "ga_outcome (evaluateGateA input) = GateFail \<longleftrightarrow> ga_critical (evaluateGateA input)"
  using evaluateGateA_cases [of input] by (simp split: if_splits)

text \<open>
  What the rule's answer means. It is green exactly when Gate A passes and Gate B passes, so
  physical coverage can never rescue a failed reconciliation. CRITICAL comes from a proven breach
  of Gate A and from nothing else, and a coverage shortfall behind a reconciled account is a
  WARN, never an economic headline.
\<close>

theorem evaluateCanonicalErc20_verdict:
  "(isGreen (erc20_output input hash) \<longleftrightarrow>
      ga_outcome (evaluateGateA input) = GatePass \<and> gb_outcome (evaluateGateB input True) = GatePass)
   \<and> (out_verdictCandidate (erc20_output input hash) = OK \<longleftrightarrow> isGreen (erc20_output input hash))
   \<and> (out_verdictCandidate (erc20_output input hash) = CRITICAL \<longleftrightarrow> ga_critical (evaluateGateA input))
   \<and> (out_verdictCandidate (erc20_output input hash) = WARN \<longleftrightarrow>
        ga_outcome (evaluateGateA input) = GatePass \<and> gb_outcome (evaluateGateB input True) = GateFail)"
proof (cases "ga_outcome (evaluateGateA input)")
  case GatePass
  then have "\<not> ga_critical (evaluateGateA input)" using gateA_fail_critical [of input] by simp
  with GatePass gateB_never_unsupported [of input True] show ?thesis
    by (cases "gb_outcome (evaluateGateB input True)")
      (simp_all add: isGreen_def erc20_output_simps combine_def)
next
  case GateFail
  then have "ga_critical (evaluateGateA input)" using gateA_fail_critical [of input] by simp
  with GateFail show ?thesis by (simp add: isGreen_def erc20_output_simps combine_def)
next
  case GateUnknown
  then have "\<not> ga_critical (evaluateGateA input)" using gateA_fail_critical [of input] by simp
  with GateUnknown show ?thesis by (simp add: isGreen_def erc20_output_simps combine_def)
next
  case GateUnsupported
  then have "\<not> ga_critical (evaluateGateA input)" using gateA_fail_critical [of input] by simp
  with GateUnsupported show ?thesis by (simp add: isGreen_def erc20_output_simps combine_def)
qed

section \<open>The digest\<close>

text \<open>Facts that depend on an element only through a view of it transfer along the views.\<close>

lemma mset_map_via:
  assumes "mset (map j xs) = mset (map j ys)" and "\<And>x y. j x = j y \<Longrightarrow> f x = f y"
  shows "mset (map f xs) = mset (map f ys)"
proof -
  define g where "g z = f (SOME x. j x = z)" for z
  have "g (j x) = f x" for x
    unfolding g_def by (rule assms(2)) (rule someI [of "\<lambda>y. j y = j x"], rule refl)
  then have "map f zs = map g (map j zs)" for zs by simp
  then show ?thesis using assms(1) by (simp only: mset_map)
qed

lemma ball_via:
  assumes "mset (map j xs) = mset (map j ys)" and "\<And>x y. j x = j y \<Longrightarrow> P x = P y"
  shows "(\<forall>x \<in> set xs. P x) \<longleftrightarrow> (\<forall>y \<in> set ys. P y)"
proof -
  have "P ` set xs = P ` set ys"
    using mset_eq_setD [OF mset_map_via [OF assms]] by simp
  then show ?thesis by (metis (full_types) imageE imageI)
qed

lemma sum_via:
  fixes f :: "'a \<Rightarrow> int"
  assumes "mset (map j xs) = mset (map j ys)" and "\<And>x y. j x = j y \<Longrightarrow> f x = f y"
  shows "sum_list (map f xs) = sum_list (map f ys)"
proof -
  have "mset (map f xs) = mset (map f ys)" using assms by (rule mset_map_via)
  then show ?thesis by (metis sum_mset_sum_list)
qed

lemma jopt_inject:
  "jopt jbig x = jopt jbig y \<longleftrightarrow> x = y"
  "jopt JStr s = jopt JStr t \<longleftrightarrow> s = t"
  "jopt JNum m = jopt JNum n \<longleftrightarrow> m = n"
  by (auto simp: jopt_def jbig_def split: option.splits)

lemma jopt_jpin: "jopt jpin p = jopt jpin q \<Longrightarrow> p = None \<longleftrightarrow> q = None"
  by (auto simp: jopt_def jpin_def split: option.splits)

lemma jbig_inject [simp]: "jbig i = jbig j \<longleftrightarrow> i = j"
  by (simp add: jbig_def)

lemma census_text_inject: "census_text c = census_text d \<longleftrightarrow> c = d"
  by (cases c; cases d) simp_all

lemma cut_text_inject: "cut_text c = cut_text d \<longleftrightarrow> c = d"
  by (cases c; cases d) simp_all

lemma direction_text_inject: "direction_text c = direction_text d \<longleftrightarrow> c = d"
  by (cases c; cases d) simp_all

lemmas text_inject = census_text_inject cut_text_inject direction_text_inject

lemma pending_json_inject: "pending_json p = pending_json q \<longleftrightarrow> p = q"
  by (cases p; cases q) (auto simp: pending_json_def text_inject)

lemma effect_json_inject: "effect_json e = effect_json f \<longleftrightarrow> e = f"
  by (cases e; cases f) (auto simp: effect_json_def jopt_inject)

lemma remote_json_same:
  assumes "remote_json r = remote_json q"
  shows "ro_remoteBlockchainId r = ro_remoteBlockchainId q \<and> ro_remoteAddress r = ro_remoteAddress q
    \<and> ro_transferredBalance r = ro_transferredBalance q \<and> ro_remoteTotalSupply r = ro_remoteTotalSupply q
    \<and> ro_scale r = ro_scale q \<and> (ro_homePin r = None) = (ro_homePin q = None)
    \<and> (ro_remotePin r = None) = (ro_remotePin q = None)
    \<and> ro_fingerprintRecognised r = ro_fingerprintRecognised q
    \<and> ro_tokenBehaviourCanonical r = ro_tokenBehaviourCanonical q
    \<and> ro_routeSingleHop r = ro_routeSingleHop q
    \<and> ro_initialReserveImbalance r = ro_initialReserveImbalance q"
  using assms jopt_jpin [of "ro_homePin r" "ro_homePin q"] jopt_jpin [of "ro_remotePin r" "ro_remotePin q"]
  by (simp add: remote_json_def jopt_inject token_scale_input.equality)

text \<open>What equal canonical inputs have in common.\<close>

definition same_evidence :: "proof_input \<Rightarrow> proof_input \<Rightarrow> bool" where
  "same_evidence a b \<longleftrightarrow> pi_family a = pi_family b \<and> pi_provenance a = pi_provenance b
     \<and> pi_census a = pi_census b \<and> mset (pi_untrackedRemotes a) = mset (pi_untrackedRemotes b)
     \<and> pi_cut a = pi_cut b \<and> pi_freshness a = pi_freshness b
     \<and> mset (map remote_json (pi_remotes a)) = mset (map remote_json (pi_remotes b))
     \<and> mset (pi_pending a) = mset (pi_pending b) \<and> mset (pi_effects a) = mset (pi_effects b)
     \<and> he_escrowBalance (pi_homeEscrow a) = he_escrowBalance (pi_homeEscrow b)
     \<and> (he_homePin (pi_homeEscrow a) = None \<longleftrightarrow> he_homePin (pi_homeEscrow b) = None)
     \<and> pi_pendingAgeLimitSeconds a = pi_pendingAgeLimitSeconds b"

lemma map_sort_mset: "map f (sort_key k xs) = map f (sort_key l ys) \<Longrightarrow> mset (map f xs) = mset (map f ys)"
  by (metis mset_map mset_sort)

lemma mset_map_inject:
  assumes "mset (map f xs) = mset (map f ys)" and "\<And>x y. f x = f y \<Longrightarrow> x = y"
  shows "mset xs = mset ys"
  using mset_map_via [OF assms(1), of "\<lambda>x. x"] assms(2) by simp

lemma canonical_same_evidence:
  assumes "canonicalInputString a = canonicalInputString b"
  shows "same_evidence a b"
proof -
  from assms have eq: "canonical_input a = canonical_input b" by (simp add: canonicalInputString_def)
  then have prov: "provenance_json (pi_provenance a) = provenance_json (pi_provenance b)"
    and fresh: "freshness_json (pi_freshness a) = freshness_json (pi_freshness b)"
    and escrow: "escrow_json (pi_homeEscrow a) = escrow_json (pi_homeEscrow b)"
    and rest: "pi_family a = pi_family b" "pi_census a = pi_census b" "pi_cut a = pi_cut b"
      "pi_pendingAgeLimitSeconds a = pi_pendingAgeLimitSeconds b"
    and untracked: "map JStr (sort (pi_untrackedRemotes a)) = map JStr (sort (pi_untrackedRemotes b))"
    and remotes: "map remote_json (sort_key remote_sort_key (pi_remotes a))
      = map remote_json (sort_key remote_sort_key (pi_remotes b))"
    and pending: "map pending_json (sort_key pe_messageKey (pi_pending a))
      = map pending_json (sort_key pe_messageKey (pi_pending b))"
    and effects: "map effect_json (sort_key ce_messageKey (pi_effects a))
      = map effect_json (sort_key ce_messageKey (pi_effects b))"
    unfolding canonical_input_def by (simp_all only: json.inject list.inject prod.inject text_inject)
  have "pi_provenance a = pi_provenance b"
    using prov by (simp add: provenance_json_def jopt_inject provenance_input.equality)
  moreover have "pi_freshness a = pi_freshness b"
    using fresh by (simp add: freshness_json_def freshness_input.equality)
  moreover have "he_escrowBalance (pi_homeEscrow a) = he_escrowBalance (pi_homeEscrow b)"
    "he_homePin (pi_homeEscrow a) = None \<longleftrightarrow> he_homePin (pi_homeEscrow b) = None"
    using escrow jopt_jpin [of "he_homePin (pi_homeEscrow a)" "he_homePin (pi_homeEscrow b)"]
    by (simp_all add: escrow_json_def jopt_inject)
  moreover have "mset (pi_untrackedRemotes a) = mset (pi_untrackedRemotes b)"
    by (rule mset_map_inject [OF map_sort_mset [OF untracked]]) simp
  moreover have "mset (pi_pending a) = mset (pi_pending b)"
    by (rule mset_map_inject [OF map_sort_mset [OF pending]]) (simp add: pending_json_inject)
  moreover have "mset (pi_effects a) = mset (pi_effects b)"
    by (rule mset_map_inject [OF map_sort_mset [OF effects]]) (simp add: effect_json_inject)
  ultimately show ?thesis using rest map_sort_mset [OF remotes] by (simp add: same_evidence_def)
qed

lemma same_evidence_inputs:
  assumes "same_evidence a b"
  shows "supported_input a = supported_input b" "complete_input a = complete_input b"
    "ranged_input a = ranged_input b"
proof -
  have rem: "mset (map remote_json (pi_remotes a)) = mset (map remote_json (pi_remotes b))"
    using assms by (simp add: same_evidence_def)
  have lens: "pi_remotes a = [] \<longleftrightarrow> pi_remotes b = []" "pi_untrackedRemotes a = [] \<longleftrightarrow> pi_untrackedRemotes b = []"
    using assms mset_eq_length [OF rem] by (auto simp: same_evidence_def)
  have "(\<forall>r \<in> set (pi_remotes a). ro_fingerprintRecognised r \<and> ro_tokenBehaviourCanonical r
        \<and> ro_routeSingleHop r \<and> ro_initialReserveImbalance r = 0)
      = (\<forall>r \<in> set (pi_remotes b). ro_fingerprintRecognised r \<and> ro_tokenBehaviourCanonical r
        \<and> ro_routeSingleHop r \<and> ro_initialReserveImbalance r = 0)"
    by (rule ball_via [OF rem]) (drule remote_json_same, elim conjE, simp only:)
  then show "supported_input a = supported_input b"
    using assms by (simp add: supported_input_def same_evidence_def)
  have "(\<forall>r \<in> set (pi_remotes a). ro_transferredBalance r \<noteq> None \<and> ro_remoteTotalSupply r \<noteq> None
        \<and> ro_homePin r \<noteq> None \<and> ro_remotePin r \<noteq> None \<and> tsc_established (ro_scale r))
      = (\<forall>r \<in> set (pi_remotes b). ro_transferredBalance r \<noteq> None \<and> ro_remoteTotalSupply r \<noteq> None
        \<and> ro_homePin r \<noteq> None \<and> ro_remotePin r \<noteq> None \<and> tsc_established (ro_scale r))"
    by (rule ball_via [OF rem]) (drule remote_json_same, elim conjE, simp only:)
  then show "complete_input a = complete_input b"
    using assms lens unfolding complete_input_def same_evidence_def by simp
  show "ranged_input a = ranged_input b"
    unfolding ranged_input_def by (rule ball_via [OF rem]) (drule remote_json_same, elim conjE, simp only:)
qed

lemma same_evidence_gateA:
  assumes "same_evidence a b"
  shows "ga_outcome (evaluateGateA a) = ga_outcome (evaluateGateA b)"
proof -
  have rem: "mset (map remote_json (pi_remotes a)) = mset (map remote_json (pi_remotes b))"
    and pend: "mset (pi_pending a) = mset (pi_pending b)"
    and eff: "set (pi_effects a) = set (pi_effects b)"
    using assms mset_eq_setD by (auto simp: same_evidence_def)
  have delta: "delta_of r = delta_of q" if "remote_json r = remote_json q" for r q
    using remote_json_same [OF that] by (simp only: delta_of_def)
  have pt: "pending_total r i = pending_total q i" if "remote_json r = remote_json q" for r q i
    using remote_json_same [OF that] by (simp only: pending_total_def pending_of_def)
  have "(\<forall>r \<in> set (pi_remotes a). \<not> delta_of r < 0) = (\<forall>r \<in> set (pi_remotes b). \<not> delta_of r < 0)"
    by (rule ball_via [OF rem]) (drule delta, simp only:)
  then have excess: "(\<exists>r \<in> set (pi_remotes a). delta_of r < 0) = (\<exists>r \<in> set (pi_remotes b). delta_of r < 0)"
    by blast
  have "(\<forall>r \<in> set (pi_remotes a). delta_of r = pending_total r b)
      = (\<forall>r \<in> set (pi_remotes b). delta_of r = pending_total r b)"
    by (rule ball_via [OF rem]) (metis delta pt)
  moreover have "pending_total r a = pending_total r b" for r
    using flying_mset [OF pend] by (simp add: pending_total_flying)
  ultimately have "(\<forall>r \<in> set (pi_remotes a). delta_of r = pending_total r a)
      = (\<forall>r \<in> set (pi_remotes b). delta_of r = pending_total r b)" by (simp only:)
  then have mism: "(\<exists>r \<in> set (pi_remotes a). delta_of r \<noteq> pending_total r a)
      = (\<exists>r \<in> set (pi_remotes b). delta_of r \<noteq> pending_total r b)" by blast
  show ?thesis
    unfolding evaluateGateA_cases same_evidence_inputs [OF assms] eff excess mism
    by (simp only: stopped_simps answer_simps split: if_split) simp
qed

lemma same_evidence_gateB:
  assumes "same_evidence a b"
  shows "gb_outcome (evaluateGateB a passed) = gb_outcome (evaluateGateB b passed)"
proof -
  have rem: "mset (map remote_json (pi_remotes a)) = mset (map remote_json (pi_remotes b))"
    using assms by (simp add: same_evidence_def)
  have total: "ceil_total a = ceil_total b"
    unfolding ceil_total_def
    by (rule sum_via [OF rem])
      (drule remote_json_same, elim conjE, simp only: liability_entry_def liability_of_def case_prod_unfold
        Let_def remote_liability.simps)
  have "(\<forall>r \<in> set (pi_remotes a). liability_of r \<noteq> None) = (\<forall>r \<in> set (pi_remotes b). liability_of r \<noteq> None)"
    by (rule ball_via [OF rem]) (drule remote_json_same, elim conjE, simp only: liability_of_def)
  moreover have "pi_untrackedRemotes a = [] \<longleftrightarrow> pi_untrackedRemotes b = []"
    using assms by (auto simp: same_evidence_def)
  ultimately have known: "liabilities_known a = liabilities_known b"
    using assms unfolding liabilities_known_def same_evidence_def by simp
  have escrow: "he_escrowBalance (pi_homeEscrow a) = he_escrowBalance (pi_homeEscrow b)"
    using assms by (simp add: same_evidence_def)
  have "gb_outcome (evaluateGateB a passed) = GatePass \<longleftrightarrow> gb_outcome (evaluateGateB b passed) = GatePass"
    unfolding evaluateGateB_spec [THEN conjunct1] known escrow total by (rule refl)
  moreover have "gb_outcome (evaluateGateB a passed) = GateFail \<longleftrightarrow> gb_outcome (evaluateGateB b passed) = GateFail"
    unfolding evaluateGateB_spec [THEN conjunct2] known escrow total by (rule refl)
  ultimately show ?thesis
    using gateB_never_unsupported [of a passed] gateB_never_unsupported [of b passed]
    by (cases "gb_outcome (evaluateGateB a passed)"; cases "gb_outcome (evaluateGateB b passed)") simp_all
qed

text \<open>
  C25. The digest covers everything the verdict depends on. If the hash does not collide on the canonical
  strings of two inputs, the inputs can only have the same digest when they have the same Gate A and
  Gate B outcomes, the same result and the same verdict: no verdict changes without the digest changing.
\<close>

theorem digest_determines_verdict:
  assumes "hash (canonicalInputString a) = hash (canonicalInputString b) \<Longrightarrow>
      canonicalInputString a = canonicalInputString b"
    and "out_inputDigest (erc20_output a hash) = out_inputDigest (erc20_output b hash)"
  shows "out_result (erc20_output a hash) = out_result (erc20_output b hash)
       \<and> out_verdictCandidate (erc20_output a hash) = out_verdictCandidate (erc20_output b hash)
       \<and> ga_outcome (evaluateGateA a) = ga_outcome (evaluateGateA b)
       \<and> (\<forall>passed. gb_outcome (evaluateGateB a passed) = gb_outcome (evaluateGateB b passed))"
proof -
  have "canonicalInputString a = canonicalInputString b"
    by (rule assms(1)) (use assms(2) in \<open>simp add: erc20_output_simps\<close>)
  then have same: "same_evidence a b" by (rule canonical_same_evidence)
  note gates = same_evidence_gateA [OF same] same_evidence_gateB [OF same]
  have "ga_critical (evaluateGateA a) = ga_critical (evaluateGateA b)"
    unfolding gateA_fail_critical [symmetric] gates by (rule refl)
  then show ?thesis
    by (simp add: erc20_output_simps combine_def gates)
qed

text \<open>
  Two readings of one bridge that list the two envelopes in flight in different order: for the first 64
  characters as digest, which is no injective hash, they have one digest and one verdict.
\<close>

theorem digest_determines_verdict_witness:
  "let p = example_pending 5; q = (example_pending 7)\<lparr>pe_messageKey := ''other''\<rparr>;
       a = example_proof 12 0 [p, q]; b = example_proof 12 0 [q, p]
   in a \<noteq> b \<and> out_verdictCandidate (erc20_output b (take 64)) = out_verdictCandidate (erc20_output a (take 64))
      \<and> ga_outcome (evaluateGateA b) = GatePass"
proof -
  define p where "p = example_pending 5"
  define q where "q = (example_pending 7)\<lparr>pe_messageKey := ''other''\<rparr>"
  let ?a = "example_proof 12 0 [p, q]" and ?b = "example_proof 12 0 [q, p]"
  have keys: "pe_messageKey p \<noteq> pe_messageKey q" by (simp add: p_def q_def example_pending_def)
  have "sort_key pe_messageKey [q, p] = sort_key pe_messageKey [p, q]"
    by (rule sort_key_permutation) (use keys in \<open>auto simp: inj_on_def\<close>)
  then have same: "canonicalInputString ?a = canonicalInputString ?b"
    by (simp add: canonicalInputString_def canonical_input_def example_proof_def)
  then have digest: "out_inputDigest (erc20_output ?a (take 64)) = out_inputDigest (erc20_output ?b (take 64))"
    by (simp add: erc20_output_simps)
  note equal = digest_determines_verdict [of "take 64", OF same digest]
  have "ga_outcome (evaluateGateA ?a) = GatePass" unfolding p_def q_def by code_simp
  moreover have "?a \<noteq> ?b" using keys by (auto simp: example_proof_def)
  ultimately show ?thesis using equal by (simp add: Let_def p_def [symmetric] q_def [symmetric])
qed

text \<open>
  Provider arrival order cannot change the digest: inputs that differ only in the order of
  their remotes, pending envelopes, effects and untracked remotes have the same canonical string,
  as long as remotes are told apart by their identifiers and envelopes and effects by their
  message keys.
\<close>

theorem canonicalInputString_order_independent:
  assumes "mset us = mset (pi_untrackedRemotes input)" and "mset rs = mset (pi_remotes input)"
    and "mset ps = mset (pi_pending input)" and "mset es = mset (pi_effects input)"
    and "inj_on remote_sort_key (set rs)" and "inj_on pe_messageKey (set ps)" and "inj_on ce_messageKey (set es)"
  shows "canonicalInputString (input\<lparr>pi_untrackedRemotes := us, pi_remotes := rs, pi_pending := ps,
           pi_effects := es\<rparr>) = canonicalInputString input"
proof -
  have "sort us = sort (pi_untrackedRemotes input)" using assms(1) by (rule sort_mset_eq)
  moreover have "sort_key remote_sort_key rs = sort_key remote_sort_key (pi_remotes input)"
    using assms(2,5) by (rule sort_key_permutation)
  moreover have "sort_key pe_messageKey ps = sort_key pe_messageKey (pi_pending input)"
    using assms(3,6) by (rule sort_key_permutation)
  moreover have "sort_key ce_messageKey es = sort_key ce_messageKey (pi_effects input)"
    using assms(4,7) by (rule sort_key_permutation)
  ultimately show ?thesis by (simp add: canonicalInputString_def canonical_input_def)
qed

text \<open>Two envelopes with the same message key keep their arrival order in the digest.\<close>

lemma canonicalInputString_ties:
  "canonicalInputString (example_proof 1 1 [example_pending 1, example_pending 2])
   \<noteq> canonicalInputString (example_proof 1 1 [example_pending 2, example_pending 1])"
  (is "canonicalInputString ?a \<noteq> canonicalInputString ?b")
proof
  have sorts: "sort_key pe_messageKey [example_pending i, example_pending j]
      = [example_pending i, example_pending j]" for i j
    by (simp add: example_pending_def)
  have pend: "pi_pending (example_proof d s ps) = ps" for d s ps by (simp add: example_proof_def)
  assume "canonicalInputString ?a = canonicalInputString ?b"
  then have "map pending_json (sort_key pe_messageKey (pi_pending ?a))
      = map pending_json (sort_key pe_messageKey (pi_pending ?b))"
    unfolding canonicalInputString_def json_print_inject canonical_input_def
    by (simp only: json.inject list.inject prod.inject)
  then have "pending_json (example_pending 1) = pending_json (example_pending 2)"
    unfolding pend sorts list.map list.inject by (elim conjE)
  then show False unfolding pending_json_inject by (simp add: example_pending_def)
qed

theorem canonicalInputString_order_independent_witness:
  "canonicalInputString (example_proof 1 1 []\<lparr>pi_untrackedRemotes := [''b'', ''a''],
     pi_remotes := [example_remote 1 1], pi_pending := [], pi_effects := []\<rparr>)
   = canonicalInputString (example_proof 1 1 []\<lparr>pi_untrackedRemotes := [''a'', ''b'']\<rparr>)"
proof -
  let ?input = "example_proof 1 1 []\<lparr>pi_untrackedRemotes := [''a'', ''b'']\<rparr>"
  have "mset [''b'', ''a''] = mset (pi_untrackedRemotes ?input)" by simp
  moreover have "mset [example_remote 1 1] = mset (pi_remotes ?input)"
    "mset [] = mset (pi_pending ?input)" "mset [] = mset (pi_effects ?input)"
    by (simp_all add: example_proof_def)
  ultimately have "canonicalInputString (?input\<lparr>pi_untrackedRemotes := [''b'', ''a''],
      pi_remotes := [example_remote 1 1], pi_pending := [], pi_effects := []\<rparr>) = canonicalInputString ?input"
    by (rule canonicalInputString_order_independent) simp_all
  then show ?thesis by (simp add: example_proof_def)
qed

end
