(* ===== verification/Drift.thy ===== *)
theory Drift
  imports Reasons
begin

text \<open>
  packages/invariant-core/src/drift.ts (baseline drift) and native.ts (the bounded claim about a
  native remote and the census of its minters).
\<close>

section \<open>Baseline drift\<close>

datatype drift_control =
  RuntimeVsManifest | ProxyImplementationSlot | ProxyBeaconSlot | ProxyAdminSlot
| ImplementationCodeHash | ContractAddress | ContractRole | ContractLinkage | ChainIdentity
| ChainGenesis | TokenDecimals | TokenScaling | MinterAllowlist | RegistrarAllowlist
| TeleporterRegistry | TeleporterMessenger | TeleporterFamily | TeleporterVersion
| RegisteredRemoteCensus | AdminUpgradeAuthority

datatype drift_status = DriftMatch | DriftDrift | DriftCandidate | DriftUnknown

record drift_observation =
  do_control :: drift_control
  do_status :: drift_status
  do_expected :: "string option"
  do_observed :: "string option"
  do_required :: bool

record drift_result =
  dr_confirmedDrift :: "drift_observation list"
  dr_candidates :: "drift_observation list"
  dr_unresolved :: "drift_observation list"
  dr_reasons :: "reason_code list"
  dr_critical :: bool
  dr_allRequiredEstablished :: bool

definition CRITICAL_CONTROLS :: "drift_control list" where
  "CRITICAL_CONTROLS =
     [ProxyImplementationSlot, ProxyBeaconSlot, ProxyAdminSlot, ImplementationCodeHash,
      ContractAddress, ContractLinkage, ChainIdentity, ChainGenesis, TokenDecimals, TokenScaling,
      MinterAllowlist, AdminUpgradeAuthority]"

definition assessDrift :: "drift_observation list \<Rightarrow> drift_result" where
  "assessDrift observations =
     (let required = filter do_required observations;
          confirmedDrift = filter (\<lambda>o1. do_status o1 = DriftDrift) required;
          unresolved = filter (\<lambda>o1. do_status o1 = DriftUnknown) required;
          candidates = filter (\<lambda>o1. do_status o1 = DriftCandidate) observations;
          reasons = (if length confirmedDrift > 0 then [CFG_D01_BASELINE_DRIFT] else [])
            @ (if length candidates > 0 then [CFG_D02_UNAPPROVED_CANDIDATE] else [])
            @ (if length unresolved > 0 then [CFG_D03_CONTROL_UNRESOLVED] else [])
      in \<lparr>dr_confirmedDrift = confirmedDrift, dr_candidates = candidates, dr_unresolved = unresolved,
          dr_reasons = reasons,
          dr_critical = list_ex (\<lambda>o1. do_control o1 \<in> set CRITICAL_CONTROLS) confirmedDrift,
          dr_allRequiredEstablished = (length confirmedDrift = 0 \<and> length unresolved = 0)\<rparr>)"

definition classifyDiscoveredRemote :: "bool \<Rightarrow> drift_status" where
  "classifyDiscoveredRemote approvedInManifest =
     (if approvedInManifest then DriftMatch else DriftCandidate)"

text \<open>
  Drift is judged on required controls only, and nothing unread counts as a match. The
  result is critical exactly when a required control of the critical list drifted; the required
  controls count as established exactly when each of them is a match or an unapproved candidate
  (so a candidate on a required control does not stop the claim); every candidate is reported,
  required or not; and the reasons name exactly the classes that are present.
\<close>

theorem assessDrift_spec:
  "(dr_critical (assessDrift os) \<longleftrightarrow>
      (\<exists>o1 \<in> set os. do_required o1 \<and> do_status o1 = DriftDrift \<and> do_control o1 \<in> set CRITICAL_CONTROLS))
   \<and> (dr_allRequiredEstablished (assessDrift os) \<longleftrightarrow>
        (\<forall>o1 \<in> set os. do_required o1 \<longrightarrow> do_status o1 \<in> {DriftMatch, DriftCandidate}))
   \<and> set (dr_candidates (assessDrift os)) = {o1 \<in> set os. do_status o1 = DriftCandidate}
   \<and> (dr_reasons (assessDrift os) = [] \<longleftrightarrow>
        (\<forall>o1 \<in> set os. do_status o1 \<noteq> DriftCandidate
          \<and> (do_required o1 \<longrightarrow> do_status o1 = DriftMatch)))"
proof -
  have "do_status o1 \<in> {DriftMatch, DriftCandidate} \<longleftrightarrow> do_status o1 \<noteq> DriftDrift \<and> do_status o1 \<noteq> DriftUnknown"
    for o1 :: drift_observation by (cases "do_status o1") simp_all
  moreover have "do_status o1 = DriftMatch \<longleftrightarrow> do_status o1 \<noteq> DriftDrift \<and> do_status o1 \<noteq> DriftUnknown
      \<and> do_status o1 \<noteq> DriftCandidate" for o1 :: drift_observation by (cases "do_status o1") simp_all
  ultimately show ?thesis
    by (auto simp: assessDrift_def Let_def list_ex_iff filter_empty_conv)
qed

text \<open>A required control that is only a candidate, still reported as established.\<close>

theorem assessDrift_spec_witness:
  "dr_allRequiredEstablished (assessDrift [\<lparr>do_control = ContractAddress, do_status = DriftCandidate,
     do_expected = None, do_observed = Some ''0x1'', do_required = True\<rparr>])"
  using assessDrift_spec [of "[\<lparr>do_control = ContractAddress, do_status = DriftCandidate,
     do_expected = None, do_observed = Some ''0x1'', do_required = True\<rparr>]"] by simp

section \<open>Native remotes\<close>

record native_supply_components =
  ns_totalMinted :: "int option"
  ns_initialReserveImbalance :: "int option"
  ns_burnedTxFeesAddressBalance :: "int option"
  ns_burnedForTransferAddressBalance :: "int option"
  ns_componentsFresh :: bool
  ns_fingerprintRecognised :: bool

record minter_census =
  mc_manifestRosterProvided :: bool
  mc_genesisChainConfigRead :: bool
  mc_activationRulesKnown :: bool
  mc_roleHistoryCompleteFromActivation :: bool
  mc_allCandidateRolesRead :: bool
  mc_unexpectedRoleHolders :: "string list"
  mc_unauthorisedMintObserved :: bool
  mc_epochsCovered :: int
  mc_epochsExpected :: int

record burned_fee_reporting =
  bf_reportedRewardAlreadyInTotalMinted :: bool
  bf_duplicateReportObserved :: bool
  bf_openReportEnvelopes :: int

record native_input =
  ni_components :: native_supply_components
  ni_census :: minter_census
  ni_feeReporting :: burned_fee_reporting
  ni_eligibleHomeCoverage :: "int option"
  ni_trustworthySupplyLowerBound :: "int option"
  ni_collateralNeeded :: "int option"
  ni_acceptedCollateral :: "int option"

datatype native_assessment = NativeSufficient | NativeIndeterminate | NativeUnknown

record native_result =
  nr_assessment :: native_assessment
  nr_reportedUpperBound :: "int option"
  nr_eligibleCoverage :: "int option"
  nr_headroom :: "int option"
  nr_critical :: bool
  nr_minterExclusivityEstablished :: bool
  nr_reasons :: "reason_code list"
  nr_created :: "int option"
  nr_burned :: "int option"

record minter_assessment =
  ma_established :: bool
  ma_critical :: bool
  ma_reasons :: "reason_code list"

definition allPresent :: "native_supply_components \<Rightarrow> bool" where
  "allPresent c \<longleftrightarrow> ns_totalMinted c \<noteq> None \<and> ns_initialReserveImbalance c \<noteq> None
     \<and> ns_burnedTxFeesAddressBalance c \<noteq> None \<and> ns_burnedForTransferAddressBalance c \<noteq> None"

definition assessMinterCensus :: "minter_census \<Rightarrow> minter_assessment" where
  "assessMinterCensus census =
     (let critical = length (mc_unexpectedRoleHolders census) > 0 \<or> mc_unauthorisedMintObserved census;
          complete = mc_manifestRosterProvided census \<and> mc_genesisChainConfigRead census
            \<and> mc_activationRulesKnown census \<and> mc_roleHistoryCompleteFromActivation census
            \<and> mc_allCandidateRolesRead census \<and> mc_epochsCovered census \<ge> mc_epochsExpected census;
          reasons = (if length (mc_unexpectedRoleHolders census) > 0 then [CFG_N01_UNEXPECTED_MINTER_ROLE] else [])
            @ (if mc_unauthorisedMintObserved census then [CFG_N02_UNAUTHORISED_NATIVE_MINT] else [])
            @ (if complete then [] else [CFG_N03_NATIVE_MINTER_CENSUS_INCOMPLETE])
      in \<lparr>ma_established = (complete \<and> \<not> critical), ma_critical = critical, ma_reasons = reasons\<rparr>)"

definition zero_if_null :: "int option \<Rightarrow> int" where
  "zero_if_null x = (case x of None \<Rightarrow> 0 | Some v \<Rightarrow> v)"

definition created_of :: "native_supply_components \<Rightarrow> int" where
  "created_of c = zero_if_null (ns_totalMinted c) + zero_if_null (ns_initialReserveImbalance c)"

definition burned_of :: "native_supply_components \<Rightarrow> int" where
  "burned_of c = zero_if_null (ns_burnedTxFeesAddressBalance c) + zero_if_null (ns_burnedForTransferAddressBalance c)"

definition assessNative :: "native_input \<Rightarrow> native_result" where
  "assessNative input =
     (let c = ni_components input;
          minter = assessMinterCensus (ni_census input);
          reasons0 = ma_reasons minter;
          empty = (\<lambda>reasons.
            \<lparr>nr_assessment = NativeUnknown, nr_reportedUpperBound = None,
             nr_eligibleCoverage = ni_eligibleHomeCoverage input, nr_headroom = None,
             nr_critical = ma_critical minter,
             nr_minterExclusivityEstablished = ma_established minter, nr_reasons = reasons,
             nr_created = None, nr_burned = None\<rparr>)
      in if \<not> ns_fingerprintRecognised c then empty (reasons0 @ [ACC_U02_UNKNOWN_FINGERPRINT])
         else if \<not> allPresent c then empty (reasons0 @ [ACC_I07_MISSING_OBSERVATION])
         else if \<not> ns_componentsFresh c then empty (reasons0 @ [ACC_I06_STALE_OBSERVATION])
         else
           let reasons = reasons0 @ (if bf_duplicateReportObserved (ni_feeReporting input)
                                     then [CFG_N04_DUPLICATE_FEE_REPORT] else [])
           in if \<not> bf_reportedRewardAlreadyInTotalMinted (ni_feeReporting input)
              then empty (reasons @ [CFG_N05_FEE_REMINT_SEMANTICS_UNVERIFIED])
              else let created = created_of c; burned = burned_of c in
                if created > MAX_UINT256 then empty (reasons @ [ACC_A06_ARITHMETIC_OUT_OF_RANGE])
                else let upperBound = created - burned in
                  (case ni_eligibleHomeCoverage input of
                     None \<Rightarrow> (empty (reasons @ [ACC_I07_MISSING_OBSERVATION]))
                       \<lparr>nr_reportedUpperBound := Some upperBound, nr_created := Some created,
                        nr_burned := Some burned\<rparr>
                   | Some coverage \<Rightarrow>
                       let result = (\<lambda>assessment critical rs exclusive.
                         \<lparr>nr_assessment = assessment, nr_reportedUpperBound = Some upperBound,
                          nr_eligibleCoverage = Some coverage, nr_headroom = Some (coverage - upperBound),
                          nr_critical = critical, nr_minterExclusivityEstablished = exclusive,
                          nr_reasons = rs, nr_created = Some created, nr_burned = Some burned\<rparr>)
                       in if \<not> ma_established minter
                          then result (if ma_critical minter then NativeIndeterminate else NativeUnknown)
                                 (ma_critical minter) reasons False
                          else if upperBound \<le> coverage
                          then result NativeSufficient False
                                 (reasons @ [ACC_N00_REPORTED_UPPER_BOUND_COVERED]) True
                          else case ni_trustworthySupplyLowerBound input of
                              Some lower \<Rightarrow>
                                if lower > coverage
                                then result NativeIndeterminate True
                                       (reasons @ [ACC_N02_SUPPLY_LOWER_BOUND_EXCEEDS_COVERAGE]) True
                                else result NativeIndeterminate False
                                       (reasons @ [ACC_N01_UPPER_BOUND_ABOVE_COVERAGE_INDETERMINATE]) True
                            | None \<Rightarrow> result NativeIndeterminate False
                                       (reasons @ [ACC_N01_UPPER_BOUND_ABOVE_COVERAGE_INDETERMINATE]) True))"

section \<open>What may be claimed of a native remote\<close>

text \<open>The components of the bound are all read, fresh, of the known family and in range.\<close>

definition bound_established :: "native_input \<Rightarrow> bool" where
  "bound_established input \<longleftrightarrow>
     ns_fingerprintRecognised (ni_components input) \<and> allPresent (ni_components input)
     \<and> ns_componentsFresh (ni_components input)
     \<and> bf_reportedRewardAlreadyInTotalMinted (ni_feeReporting input)
     \<and> created_of (ni_components input) \<le> MAX_UINT256"

definition exclusive_minter :: "minter_census \<Rightarrow> bool" where
  "exclusive_minter census \<longleftrightarrow>
     mc_manifestRosterProvided census \<and> mc_genesisChainConfigRead census
     \<and> mc_activationRulesKnown census \<and> mc_roleHistoryCompleteFromActivation census
     \<and> mc_allCandidateRolesRead census \<and> mc_epochsExpected census \<le> mc_epochsCovered census
     \<and> mc_unexpectedRoleHolders census = [] \<and> \<not> mc_unauthorisedMintObserved census"

definition minting_breach :: "minter_census \<Rightarrow> bool" where
  "minting_breach census \<longleftrightarrow> mc_unexpectedRoleHolders census \<noteq> [] \<or> mc_unauthorisedMintObserved census"

abbreviation upper_bound_of :: "native_input \<Rightarrow> int" where
  "upper_bound_of input \<equiv> created_of (ni_components input) - burned_of (ni_components input)"

lemma minter_census_simps:
  "ma_established (assessMinterCensus census) \<longleftrightarrow> exclusive_minter census"
  "ma_critical (assessMinterCensus census) \<longleftrightarrow> minting_breach census"
  by (auto simp: assessMinterCensus_def exclusive_minter_def minting_breach_def Let_def)

lemma exclusive_no_breach: "exclusive_minter census \<Longrightarrow> \<not> minting_breach census"
  by (simp add: exclusive_minter_def minting_breach_def)

lemma assessNative_not_established:
  assumes "\<not> bound_established input"
  shows "nr_assessment (assessNative input) = NativeUnknown"
    "nr_critical (assessNative input) \<longleftrightarrow> minting_breach (ni_census input)"
    "nr_reportedUpperBound (assessNative input) = None"
  using assms by (auto simp: assessNative_def bound_established_def Let_def minter_census_simps)

lemma assessNative_established:
  assumes "bound_established input" and "ni_eligibleHomeCoverage input = Some coverage"
  shows "nr_assessment (assessNative input) =
      (if exclusive_minter (ni_census input)
       then (if upper_bound_of input \<le> coverage then NativeSufficient else NativeIndeterminate)
       else (if minting_breach (ni_census input) then NativeIndeterminate else NativeUnknown))"
    "nr_critical (assessNative input) \<longleftrightarrow>
      (if exclusive_minter (ni_census input)
       then coverage < upper_bound_of input
         \<and> (\<exists>lower. ni_trustworthySupplyLowerBound input = Some lower \<and> coverage < lower)
       else minting_breach (ni_census input))"
  using assms
  by (auto simp: assessNative_def bound_established_def Let_def minter_census_simps split: option.splits)

lemma assessNative_no_coverage:
  assumes "bound_established input" and "ni_eligibleHomeCoverage input = None"
  shows "nr_assessment (assessNative input) = NativeUnknown"
    "nr_critical (assessNative input) \<longleftrightarrow> minting_breach (ni_census input)"
  using assms by (auto simp: assessNative_def bound_established_def Let_def minter_census_simps)

text \<open>
  The only positive claim about a native remote is that its reported upper bound is covered:
  it is made exactly when the bound is established, the census proves that nobody else can mint,
  and created minus burned is at most the eligible home coverage.
\<close>

theorem assessNative_sufficient_iff:
  "nr_assessment (assessNative input) = NativeSufficient \<longleftrightarrow>
     bound_established input \<and> exclusive_minter (ni_census input)
     \<and> (\<exists>coverage. ni_eligibleHomeCoverage input = Some coverage \<and> upper_bound_of input \<le> coverage)"
proof (cases "bound_established input")
  case True
  then show ?thesis
    by (cases "ni_eligibleHomeCoverage input")
      (auto simp: assessNative_no_coverage assessNative_established)
qed (simp add: assessNative_not_established)

text \<open>
  A native finding is critical exactly when a minting breach is proved (an unexpected minter
  or an unauthorised mint, even on an incomplete census), or when, with an exclusive census and
  an established bound above the coverage, an independent lower bound exceeds the coverage too.
  The reported upper bound alone never makes a red verdict.
\<close>

theorem assessNative_critical_iff:
  "nr_critical (assessNative input) \<longleftrightarrow>
     minting_breach (ni_census input)
     \<or> (bound_established input \<and> exclusive_minter (ni_census input)
        \<and> (\<exists>coverage lower. ni_eligibleHomeCoverage input = Some coverage
             \<and> ni_trustworthySupplyLowerBound input = Some lower
             \<and> coverage < upper_bound_of input \<and> coverage < lower))"
proof (cases "bound_established input")
  case True
  then show ?thesis using exclusive_no_breach [of "ni_census input"]
    by (cases "ni_eligibleHomeCoverage input")
      (auto simp: assessNative_no_coverage assessNative_established)
qed (simp add: assessNative_not_established)

definition example_native :: "int \<Rightarrow> int \<Rightarrow> bool \<Rightarrow> native_input" where
  "example_native minted burned duplicate =
     \<lparr>ni_components = \<lparr>ns_totalMinted = Some minted, ns_initialReserveImbalance = Some 0,
        ns_burnedTxFeesAddressBalance = Some burned, ns_burnedForTransferAddressBalance = Some 0,
        ns_componentsFresh = True, ns_fingerprintRecognised = True\<rparr>,
      ni_census = \<lparr>mc_manifestRosterProvided = True, mc_genesisChainConfigRead = True,
        mc_activationRulesKnown = True, mc_roleHistoryCompleteFromActivation = True,
        mc_allCandidateRolesRead = True, mc_unexpectedRoleHolders = [],
        mc_unauthorisedMintObserved = False, mc_epochsCovered = 1, mc_epochsExpected = 1\<rparr>,
      ni_feeReporting = \<lparr>bf_reportedRewardAlreadyInTotalMinted = True,
        bf_duplicateReportObserved = duplicate, bf_openReportEnvelopes = 0\<rparr>,
      ni_eligibleHomeCoverage = Some 10, ni_trustworthySupplyLowerBound = None,
      ni_collateralNeeded = None, ni_acceptedCollateral = None\<rparr>"

text \<open>A duplicated fee report only adds a reason: the positive claim is still made.\<close>

lemma assessNative_duplicate_report:
  "nr_assessment (assessNative (example_native 5 0 True)) = NativeSufficient"
  unfolding assessNative_sufficient_iff
  by (simp add: example_native_def bound_established_def allPresent_def exclusive_minter_def
      created_of_def burned_of_def zero_if_null_def MAX_UINT256_def)

text \<open>More burned than was ever created: a negative bound, claimed as covered.\<close>

lemma assessNative_negative_bound:
  "nr_assessment (assessNative (example_native 5 8 False)) = NativeSufficient"
  unfolding assessNative_sufficient_iff
  by (simp add: example_native_def bound_established_def allPresent_def exclusive_minter_def
      created_of_def burned_of_def zero_if_null_def MAX_UINT256_def)

end
