(* ===== verification/GlobalVerdict.thy ===== *)
theory GlobalVerdict
  imports Reasons
begin

text \<open>
  packages/invariant-core/src/verdict.ts: aggregation of rule contributions into the global
  verdict with its four separate fields, the exit codes, and when anything may be shown green.
  A protocol status is one of the four verdicts of the domain lattice.
\<close>

datatype data_status = DataComplete | DataStale | DataPartial | DataDivergent | DataUnknown

datatype claim_mode = EXACT | CAUSAL_EXACT | SUFFICIENT_UPPER_BOUND | INDETERMINATE | CLAIM_UNSUPPORTED

datatype coverage_state = CoverageComplete | CoveragePartial | CoverageUnverified

record rule_contribution =
  rc_ruleId :: string
  rc_result :: proof_result
  rc_critical :: bool
  rc_required :: bool
  rc_claimMode :: claim_mode
  rc_reasons :: "reason_code list"
  rc_livenessOnly :: "bool option"

record aggregation_input =
  ai_contributions :: "rule_contribution list"
  ai_dataStatus :: data_status
  ai_coverage :: coverage_state
  ai_missingRequiredEvaluations :: "string list"
  ai_previousOkExpired :: bool
  ai_evaluationFaults :: "string list"

record global_verdict =
  gv_protocolStatus :: verdict
  gv_dataStatus :: data_status
  gv_claimMode :: claim_mode
  gv_coverage :: coverage_state
  gv_reasonCodes :: "reason_code list"
  gv_criticalRuleIds :: "string list"
  gv_unknownRuleIds :: "string list"
  gv_assumptions :: "string list"
  gv_exclusions :: "string list"
  gv_runbook :: string

fun CLAIM_RANK :: "claim_mode \<Rightarrow> nat" where
  "CLAIM_RANK EXACT = 0"
| "CLAIM_RANK CAUSAL_EXACT = 1"
| "CLAIM_RANK SUFFICIENT_UPPER_BOUND = 2"
| "CLAIM_RANK INDETERMINATE = 3"
| "CLAIM_RANK CLAIM_UNSUPPORTED = 4"

definition weaker_claim :: "claim_mode \<Rightarrow> claim_mode \<Rightarrow> claim_mode" where
  "weaker_claim worst m = (if CLAIM_RANK m > CLAIM_RANK worst then m else worst)"

definition weakestClaim :: "claim_mode list \<Rightarrow> claim_mode" where
  "weakestClaim modes =
     (case modes of [] \<Rightarrow> CLAIM_UNSUPPORTED | m # _ \<Rightarrow> foldl weaker_claim m modes)"

definition aggregate :: "aggregation_input \<Rightarrow> global_verdict" where
  "aggregate input =
     (let contributions = ai_contributions input;
          missing = ai_missingRequiredEvaluations input;
          reasons = uniq (concat (map rc_reasons contributions)
            @ (if length missing > 0 then [AGG_M01_REQUIRED_EVALUATION_MISSING] else [])
            @ (if ai_previousOkExpired input then [AGG_M02_PREVIOUS_OK_EXPIRED] else [])
            @ (if length (ai_evaluationFaults input) > 0 then [AGG_M03_EVALUATION_FAULT] else [])
            @ (if ai_dataStatus input = DataStale then [ACC_I06_STALE_OBSERVATION] else [])
            @ (if ai_dataStatus input = DataDivergent then [AGG_M04_WITNESS_DIVERGENCE] else []));
          criticalRuleIds = map rc_ruleId (filter rc_critical contributions);
          unknownRuleIds = map rc_ruleId (filter (\<lambda>c. rc_required c
            \<and> (rc_result c = UNKNOWN_RESULT \<or> rc_result c = UNSUPPORTED)) contributions);
          dataDegraded = (ai_dataStatus input \<noteq> DataComplete);
          claimMode = weakestClaim (map rc_claimMode contributions);
          hasBlockingUnknown = (length unknownRuleIds > 0 \<or> length missing > 0
            \<or> ai_previousOkExpired input \<or> length (ai_evaluationFaults input) > 0
            \<or> dataDegraded \<or> ai_coverage input \<noteq> CoverageComplete);
          hasWarn = list_ex (\<lambda>c. rc_result c = FAIL \<and> \<not> rc_critical c) contributions;
          protocolStatus = (if length criticalRuleIds > 0 then CRITICAL
            else if hasBlockingUnknown then UNKNOWN else if hasWarn then WARN else OK)
      in \<lparr>gv_protocolStatus = protocolStatus, gv_dataStatus = ai_dataStatus input,
          gv_claimMode = claimMode, gv_coverage = ai_coverage input,
          gv_reasonCodes = sort_key reason_text reasons,
          gv_criticalRuleIds = sort criticalRuleIds, gv_unknownRuleIds = sort unknownRuleIds,
          gv_assumptions =
    [''Quorum is counted over independent provider groups; it is not a cryptographic or Byzantine guarantee.'',
     ''Native claims are reported upper bounds, never exact circulating supply.'',
     ''Observed on-chain state is coverage at a pinned block, not legal recoverability.''],
          gv_exclusions =
    [''Rate and volume anomalies are heuristic signals and never appear under a collateral headline.'',
     ''Unsupported families, routes and token behaviours resolve to UNKNOWN rather than being interpreted.''],
          gv_runbook = ''docs/RUNBOOK.md#verdict-triage''\<rparr>)"

text \<open>\<open>EXIT_CODES\<close> and \<open>exitCodeFor\<close>.\<close>

definition exitCodeFor :: "global_verdict \<Rightarrow> int" where
  "exitCodeFor v =
     (case gv_protocolStatus v of OK \<Rightarrow> 0 | CRITICAL \<Rightarrow> 2 | UNKNOWN \<Rightarrow> 3 | WARN \<Rightarrow> 4)"

definition isOverallGreen :: "global_verdict \<Rightarrow> bool" where
  "isOverallGreen v \<longleftrightarrow>
     gv_protocolStatus v = OK \<and> gv_dataStatus v = DataComplete \<and> gv_coverage v = CoverageComplete
     \<and> gv_claimMode v \<noteq> CLAIM_UNSUPPORTED \<and> gv_claimMode v \<noteq> INDETERMINATE"

section \<open>The weakest claim\<close>

interpretation claims: extreme_fold CLAIM_RANK weaker_claim "\<lambda>m. m"
  by unfold_locales (auto simp: weaker_claim_def)

lemma CLAIM_RANK_inject [simp]: "CLAIM_RANK m = CLAIM_RANK n \<longleftrightarrow> m = n"
  by (cases m; cases n) simp_all

lemma CLAIM_RANK_le: "CLAIM_RANK m \<le> CLAIM_RANK CLAIM_UNSUPPORTED"
  by (cases m) simp_all

lemma weakestClaim_rank:
  "modes \<noteq> [] \<Longrightarrow> CLAIM_RANK (weakestClaim modes) = Max (CLAIM_RANK ` set modes)"
  by (cases modes) (simp_all add: weakestClaim_def claims.result_rank insert_absorb del: foldl_Cons)

lemma weakestClaim_same_set:
  assumes "set ms = set ns"
  shows "weakestClaim ms = weakestClaim ns"
proof (cases "ms = []")
  case True
  with assms show ?thesis by simp
next
  case False
  moreover from this assms have "ns \<noteq> []" by auto
  ultimately have "CLAIM_RANK (weakestClaim ms) = CLAIM_RANK (weakestClaim ns)"
    using assms by (simp add: weakestClaim_rank)
  then show ?thesis by simp
qed

lemma weakestClaim_cases:
  assumes "CLAIM_RANK c = 3 \<or> CLAIM_RANK c = 4" and "c \<in> set modes"
  shows "weakestClaim modes \<in> {INDETERMINATE, CLAIM_UNSUPPORTED}"
proof -
  have "modes \<noteq> []" using assms(2) by auto
  then have "CLAIM_RANK c \<le> CLAIM_RANK (weakestClaim modes)"
    using assms(2) by (simp add: weakestClaim_rank)
  then show ?thesis using assms(1) by (cases "weakestClaim modes") auto
qed

lemma weakestClaim_member: "modes \<noteq> [] \<Longrightarrow> weakestClaim modes \<in> set modes"
proof -
  assume ne: "modes \<noteq> []"
  then have "Max (CLAIM_RANK ` set modes) \<in> CLAIM_RANK ` set modes" by (intro Max_in) auto
  then obtain m where "m \<in> set modes" "CLAIM_RANK (weakestClaim modes) = CLAIM_RANK m"
    using weakestClaim_rank [OF ne] by auto
  then show ?thesis by simp
qed

section \<open>What the statuses mean\<close>

text \<open>Every way an answer can be absent.\<close>

definition blocked :: "aggregation_input \<Rightarrow> bool" where
  "blocked input \<longleftrightarrow>
     (\<exists>c \<in> set (ai_contributions input). rc_required c \<and> rc_result c \<in> {UNKNOWN_RESULT, UNSUPPORTED})
     \<or> ai_missingRequiredEvaluations input \<noteq> [] \<or> ai_previousOkExpired input
     \<or> ai_evaluationFaults input \<noteq> [] \<or> ai_dataStatus input \<noteq> DataComplete
     \<or> ai_coverage input \<noteq> CoverageComplete"

lemma aggregate_status:
  "gv_protocolStatus (aggregate input) =
     (if \<exists>c \<in> set (ai_contributions input). rc_critical c then CRITICAL
      else if blocked input then UNKNOWN
      else if \<exists>c \<in> set (ai_contributions input). rc_result c = FAIL then WARN else OK)"
  by (auto simp: aggregate_def Let_def blocked_def list_ex_iff filter_empty_conv)

lemma aggregate_simps:
  "gv_claimMode (aggregate input) = weakestClaim (map rc_claimMode (ai_contributions input))"
  "gv_dataStatus (aggregate input) = ai_dataStatus input"
  "gv_coverage (aggregate input) = ai_coverage input"
  "set (gv_criticalRuleIds (aggregate input)) = rc_ruleId ` {c \<in> set (ai_contributions input). rc_critical c}"
  "set (gv_unknownRuleIds (aggregate input)) = rc_ruleId ` {c \<in> set (ai_contributions input).
     rc_required c \<and> rc_result c \<in> {UNKNOWN_RESULT, UNSUPPORTED}}"
  by (auto simp: aggregate_def Let_def)

text \<open>
  C33. Aggregation is fail-closed. The status is CRITICAL exactly when some rule proved a breach,
  whatever else is unknown, and the rules that did are listed next to the required rules that
  could not be established; otherwise any missing, expired, faulty, degraded or incomplete part
  makes it UNKNOWN; the exit code is zero exactly for OK, and OK means that nothing is critical,
  nothing is blocked and no rule failed.
\<close>

theorem aggregate_fail_closed:
  "(gv_protocolStatus (aggregate input) = CRITICAL \<longleftrightarrow> (\<exists>c \<in> set (ai_contributions input). rc_critical c))
   \<and> (gv_protocolStatus (aggregate input) = UNKNOWN \<longleftrightarrow>
        blocked input \<and> \<not> (\<exists>c \<in> set (ai_contributions input). rc_critical c))
   \<and> (exitCodeFor (aggregate input) = 0 \<longleftrightarrow>
        \<not> blocked input \<and> (\<forall>c \<in> set (ai_contributions input). \<not> rc_critical c \<and> rc_result c \<noteq> FAIL))
   \<and> set (gv_criticalRuleIds (aggregate input)) = rc_ruleId ` {c \<in> set (ai_contributions input). rc_critical c}
   \<and> set (gv_unknownRuleIds (aggregate input)) = rc_ruleId ` {c \<in> set (ai_contributions input).
        rc_required c \<and> rc_result c \<in> {UNKNOWN_RESULT, UNSUPPORTED}}"
proof (intro conjI)
  have "exitCodeFor v = 0 \<longleftrightarrow> gv_protocolStatus v = OK" for v
    by (cases "gv_protocolStatus v") (simp_all add: exitCodeFor_def)
  then show "exitCodeFor (aggregate input) = 0 \<longleftrightarrow>
      \<not> blocked input \<and> (\<forall>c \<in> set (ai_contributions input). \<not> rc_critical c \<and> rc_result c \<noteq> FAIL)"
    by (auto simp: aggregate_status)
qed (auto simp: aggregate_status aggregate_simps)

definition example_contribution :: "proof_result \<Rightarrow> bool \<Rightarrow> bool \<Rightarrow> rule_contribution" where
  "example_contribution result critical required =
     \<lparr>rc_ruleId = ''r'', rc_result = result, rc_critical = critical, rc_required = required,
      rc_claimMode = CAUSAL_EXACT, rc_reasons = [], rc_livenessOnly = None\<rparr>"

definition example_aggregation :: "rule_contribution list \<Rightarrow> aggregation_input" where
  "example_aggregation cs =
     \<lparr>ai_contributions = cs, ai_dataStatus = DataComplete, ai_coverage = CoverageComplete,
      ai_missingRequiredEvaluations = [], ai_previousOkExpired = False, ai_evaluationFaults = []\<rparr>"

theorem aggregate_fail_closed_witness:
  "exitCodeFor (aggregate (example_aggregation [example_contribution UNKNOWN_RESULT False True])) \<noteq> 0
   \<and> exitCodeFor (aggregate (example_aggregation [])) = 0"
  using aggregate_fail_closed [of "example_aggregation [example_contribution UNKNOWN_RESULT False True]"]
    aggregate_fail_closed [of "example_aggregation []"]
  by (simp add: example_aggregation_def blocked_def example_contribution_def)

text \<open>
  Green means everything: the verdict may be shown green exactly when at least one rule
  contributed, none is critical or failed, nothing is blocked, and every single contribution
  claims at least a sufficient upper bound (an aggregate is only as strong as its weakest claim).
\<close>

theorem isOverallGreen_iff:
  "isOverallGreen (aggregate input) \<longleftrightarrow>
     ai_contributions input \<noteq> [] \<and> \<not> blocked input
     \<and> (\<forall>c \<in> set (ai_contributions input). \<not> rc_critical c \<and> rc_result c \<noteq> FAIL
          \<and> rc_claimMode c \<in> {EXACT, CAUSAL_EXACT, SUFFICIENT_UPPER_BOUND})"
proof (cases "ai_contributions input = []")
  case True
  then show ?thesis by (simp add: isOverallGreen_def aggregate_simps weakestClaim_def)
next
  case False
  let ?modes = "map rc_claimMode (ai_contributions input)"
  have "weakestClaim ?modes \<notin> {INDETERMINATE, CLAIM_UNSUPPORTED} \<longleftrightarrow>
      (\<forall>m \<in> set ?modes. m \<in> {EXACT, CAUSAL_EXACT, SUFFICIENT_UPPER_BOUND})"
  proof
    assume *: "weakestClaim ?modes \<notin> {INDETERMINATE, CLAIM_UNSUPPORTED}"
    show "\<forall>m \<in> set ?modes. m \<in> {EXACT, CAUSAL_EXACT, SUFFICIENT_UPPER_BOUND}"
    proof
      fix m assume "m \<in> set ?modes"
      with * weakestClaim_cases [of m ?modes] have "CLAIM_RANK m \<noteq> 3" "CLAIM_RANK m \<noteq> 4" by blast+
      then show "m \<in> {EXACT, CAUSAL_EXACT, SUFFICIENT_UPPER_BOUND}" by (cases m) simp_all
    qed
  next
    assume "\<forall>m \<in> set ?modes. m \<in> {EXACT, CAUSAL_EXACT, SUFFICIENT_UPPER_BOUND}"
    moreover have "weakestClaim ?modes \<in> set ?modes" using False by (intro weakestClaim_member) simp
    ultimately show "weakestClaim ?modes \<notin> {INDETERMINATE, CLAIM_UNSUPPORTED}" by fastforce
  qed
  moreover have "\<not> blocked input \<Longrightarrow> ai_dataStatus input = DataComplete \<and> ai_coverage input = CoverageComplete"
    by (simp add: blocked_def)
  ultimately show ?thesis using False
    by (auto simp: isOverallGreen_def aggregate_simps aggregate_status)
qed

theorem isOverallGreen_iff_witness:
  "isOverallGreen (aggregate (example_aggregation [example_contribution PASS False True]))
   \<and> \<not> isOverallGreen (aggregate (example_aggregation []))"
  unfolding isOverallGreen_iff
  by (simp add: example_aggregation_def blocked_def example_contribution_def)

section \<open>Against the verdict lattice\<close>

text \<open>
  What each input of the aggregation says in the domain's lattice: a contribution its verdict, critical where it
  is flagged so, and everything that is missing, faulty, stale or incomplete a required UNKNOWN.
\<close>

definition judgement_of :: "rule_contribution \<Rightarrow> judgement" where
  "judgement_of c = \<lparr>jdg_verdict = (if rc_critical c then CRITICAL else verdictFor (rc_result c) False),
     jdg_requirement = (if rc_required c then Required else Optional)\<rparr>"

definition gap_judgements :: "aggregation_input \<Rightarrow> judgement list" where
  "gap_judgements input =
     map (\<lambda>_. \<lparr>jdg_verdict = UNKNOWN, jdg_requirement = Required\<rparr>)
       (map (\<lambda>_. ()) (ai_missingRequiredEvaluations input) @ map (\<lambda>_. ()) (ai_evaluationFaults input)
        @ (if ai_previousOkExpired input then [()] else [])
        @ (if ai_dataStatus input \<noteq> DataComplete then [()] else [])
        @ (if ai_coverage input \<noteq> CoverageComplete then [()] else []))"

lemma combineVerdicts_iffs:
  assumes "js \<noteq> []"
  shows "combineVerdicts js = OK \<longleftrightarrow> (\<forall>j \<in> set js. jdg_verdict j = OK)"
    and "combineVerdicts js = CRITICAL \<longleftrightarrow> (\<exists>j \<in> set js. jdg_verdict j = CRITICAL)"
    and "combineVerdicts js = UNKNOWN \<longleftrightarrow> (\<exists>j \<in> set js. jdg_verdict j = UNKNOWN \<and> jdg_requirement j = Required)
      \<and> (\<forall>j \<in> set js. jdg_verdict j \<noteq> CRITICAL)"
  using assms by (cases js; auto simp: combineVerdicts_eq_iff effective_simps)+

lemma gap_judgements_Nil:
  "gap_judgements input = [] \<longleftrightarrow> ai_missingRequiredEvaluations input = [] \<and> ai_evaluationFaults input = []
     \<and> \<not> ai_previousOkExpired input \<and> ai_dataStatus input = DataComplete \<and> ai_coverage input = CoverageComplete"
  by (auto simp: gap_judgements_def)

lemma gap_judgement: "j \<in> set (gap_judgements input) \<Longrightarrow> j = \<lparr>jdg_verdict = UNKNOWN, jdg_requirement = Required\<rparr>"
  by (auto simp: gap_judgements_def)

lemma blocked_gaps:
  "blocked input \<longleftrightarrow> gap_judgements input \<noteq> []
     \<or> (\<exists>c \<in> set (ai_contributions input). rc_required c \<and> rc_result c \<in> {UNKNOWN_RESULT, UNSUPPORTED})"
  by (auto simp: blocked_def gap_judgements_Nil)

text \<open>
  C40. The aggregate is the lattice combination of everything it was given: the verdict of every contribution,
  and a required UNKNOWN for every missing or faulty evaluation, for an expired OK, for data that is not complete
  and for coverage that is not. There are two exceptions, and both are milder than the lattice: nothing at all is OK,
  and an optional UNKNOWN, which the lattice raises to WARN, leaves the aggregate OK when no rule failed.
\<close>

theorem aggregate_refines_lattice:
  "gv_protocolStatus (aggregate input) =
     (let js = map judgement_of (ai_contributions input) @ gap_judgements input; v = combineVerdicts js
      in if js = [] \<or> v = WARN \<and> (\<forall>c \<in> set (ai_contributions input). rc_result c \<noteq> FAIL) then OK else v)"
proof (cases "map judgement_of (ai_contributions input) @ gap_judgements input = []")
  case True
  then show ?thesis by (simp add: aggregate_status blocked_gaps)
next
  case False
  let ?cs = "set (ai_contributions input)"
  let ?js = "map judgement_of (ai_contributions input) @ gap_judgements input"
  have one: "jdg_verdict (judgement_of c) = CRITICAL \<longleftrightarrow> rc_critical c"
    "jdg_verdict (judgement_of c) = UNKNOWN \<longleftrightarrow> \<not> rc_critical c \<and> rc_result c \<in> {UNKNOWN_RESULT, UNSUPPORTED}"
    "jdg_verdict (judgement_of c) = OK \<longleftrightarrow> \<not> rc_critical c \<and> rc_result c = PASS"
    "jdg_requirement (judgement_of c) = Required \<longleftrightarrow> rc_required c"
    for c by (cases "rc_result c"; simp add: judgement_of_def)+
  have gap: "\<forall>j \<in> set (gap_judgements input). jdg_verdict j = UNKNOWN \<and> jdg_requirement j = Required"
    using gap_judgement by fastforce
  note lub = combineVerdicts_iffs [OF False]
  have crit: "combineVerdicts ?js = CRITICAL \<longleftrightarrow> (\<exists>c \<in> ?cs. rc_critical c)"
    unfolding lub(2) set_append set_map bex_Un using gap by (auto simp: one)
  have "(\<exists>j \<in> set (gap_judgements input). jdg_verdict j = UNKNOWN \<and> jdg_requirement j = Required)
      \<longleftrightarrow> gap_judgements input \<noteq> []"
    using gap by (cases "gap_judgements input") simp_all
  then have unk: "combineVerdicts ?js = UNKNOWN \<longleftrightarrow> blocked input \<and> \<not> (\<exists>c \<in> ?cs. rc_critical c)"
    unfolding lub(3) blocked_gaps set_append set_map ball_Un bex_Un using gap by (auto simp: one)
  have "(\<forall>j \<in> set (gap_judgements input). jdg_verdict j = OK) \<longleftrightarrow> gap_judgements input = []"
    using gap by (cases "gap_judgements input") simp_all
  then have "combineVerdicts ?js = OK \<longleftrightarrow>
      gap_judgements input = [] \<and> (\<forall>c \<in> ?cs. \<not> rc_critical c \<and> rc_result c = PASS)"
    unfolding lub(1) set_append set_map ball_Un by (simp add: one conj_commute)
  then have ok: "combineVerdicts ?js = OK \<longleftrightarrow> \<not> blocked input \<and> (\<forall>c \<in> ?cs. \<not> rc_critical c \<and> rc_result c = PASS)"
    unfolding blocked_gaps by fastforce
  have status: "gv_protocolStatus (aggregate input) =
      (if combineVerdicts ?js = CRITICAL then CRITICAL else if combineVerdicts ?js = UNKNOWN then UNKNOWN
       else if \<exists>c \<in> ?cs. rc_result c = FAIL then WARN else OK)"
    unfolding aggregate_status crit unk by simp
  have clean: "combineVerdicts ?js = OK \<Longrightarrow> \<not> (\<exists>c \<in> ?cs. rc_result c = FAIL)"
    unfolding ok by fastforce
  show ?thesis
    unfolding status Let_def using False clean by (cases "combineVerdicts ?js") simp_all
qed

theorem aggregate_refines_lattice_witness:
  "gv_protocolStatus (aggregate ((example_aggregation [example_contribution FAIL False True])\<lparr>ai_dataStatus := DataStale\<rparr>)) = UNKNOWN
   \<and> gv_protocolStatus (aggregate (example_aggregation [example_contribution UNKNOWN_RESULT False False])) = OK"
proof -
  let ?stale = "(example_aggregation [example_contribution FAIL False True])\<lparr>ai_dataStatus := DataStale\<rparr>"
  let ?optional = "example_aggregation [example_contribution UNKNOWN_RESULT False False]"
  have "combineVerdicts (map judgement_of (ai_contributions ?stale) @ gap_judgements ?stale) = UNKNOWN"
    "combineVerdicts (map judgement_of (ai_contributions ?optional) @ gap_judgements ?optional) = WARN"
    by code_simp+
  then show ?thesis
    using aggregate_refines_lattice [of ?stale] aggregate_refines_lattice [of ?optional]
    by (simp add: Let_def example_aggregation_def example_contribution_def)
qed

end
