(* ===== verification/Independence.thy ===== *)
theory Independence
  imports Prelude
begin

text \<open>
  packages/rpc-quorum/src/independence.ts: the partition of endpoints into failure domains, the
  collapse of endpoints that are conclusively one, and the correlation of declared-independent
  endpoints. Items are of any type, with accessors for their trust domain and provider group.
  \<open>localeCompare\<close> is the order of a collation key, an argument of the definitions; the digest
  function is an argument, as in the code.
\<close>

section \<open>Failure domains\<close>

record 'a independence_component =
  ic_domains :: "string set"
  ic_providers :: "string set"
  ic_items :: "'a list"

definition independence_step ::
  "('a \<Rightarrow> string) \<Rightarrow> ('a \<Rightarrow> string) \<Rightarrow> 'a independence_component list \<Rightarrow> 'a
   \<Rightarrow> 'a independence_component list" where
  "independence_step td pg components item =
     (let joins = (\<lambda>c. td item \<in> ic_domains c \<or> pg item \<in> ic_providers c);
          joined = filter joins components;
          merged = \<lparr>ic_domains = insert (td item) (\<Union> (set (map ic_domains joined))),
                    ic_providers = insert (pg item) (\<Union> (set (map ic_providers joined))),
                    ic_items = item # concat (map ic_items joined)\<rparr>
      in filter (\<lambda>c. \<not> joins c) components @ [merged])"

definition independenceGroups :: "('a \<Rightarrow> string) \<Rightarrow> ('a \<Rightarrow> string) \<Rightarrow> 'a list \<Rightarrow> 'a list list" where
  "independenceGroups td pg items = map ic_items (foldl (independence_step td pg) [] items)"

text \<open>Two items are linked when they share a trust domain or a provider group.\<close>

definition linked :: "('a \<Rightarrow> string) \<Rightarrow> ('a \<Rightarrow> string) \<Rightarrow> 'a set \<Rightarrow> ('a \<times> 'a) set" where
  "linked td pg A = {(x, y). x \<in> A \<and> y \<in> A \<and> (td x = td y \<or> pg x = pg y)}"

lemma linked_mono: "A \<subseteq> B \<Longrightarrow> linked td pg A \<subseteq> linked td pg B"
  by (auto simp: linked_def)

lemma linked_sym: "sym ((linked td pg A)\<^sup>*)"
  by (rule sym_rtrancl) (auto simp: linked_def sym_def)

definition separate :: "'a independence_component \<Rightarrow> 'a independence_component \<Rightarrow> bool" where
  "separate c d \<longleftrightarrow> ic_domains c \<inter> ic_domains d = {} \<and> ic_providers c \<inter> ic_providers d = {}"

definition component_ok :: "('a \<Rightarrow> string) \<Rightarrow> ('a \<Rightarrow> string) \<Rightarrow> 'a set \<Rightarrow> 'a independence_component \<Rightarrow> bool" where
  "component_ok td pg A c \<longleftrightarrow>
     ic_items c \<noteq> [] \<and> ic_domains c = td ` set (ic_items c) \<and> ic_providers c = pg ` set (ic_items c)
     \<and> (\<forall>x \<in> set (ic_items c). \<forall>y \<in> set (ic_items c). (x, y) \<in> (linked td pg A)\<^sup>*)"

definition components_inv ::
  "('a \<Rightarrow> string) \<Rightarrow> ('a \<Rightarrow> string) \<Rightarrow> 'a list \<Rightarrow> 'a independence_component list \<Rightarrow> bool" where
  "components_inv td pg done cs \<longleftrightarrow>
     mset (concat (map ic_items cs)) = mset done
     \<and> (\<forall>c \<in> set cs. component_ok td pg (set done) c) \<and> sorted_wrt separate cs"

lemma component_ok_mono: "component_ok td pg A c \<Longrightarrow> A \<subseteq> B \<Longrightarrow> component_ok td pg B c"
  unfolding component_ok_def using rtrancl_mono [OF linked_mono [of A B td pg]] by blast

lemma sorted_wrt_mem:
  "sorted_wrt R xs \<Longrightarrow> x \<in> set xs \<Longrightarrow> y \<in> set xs \<Longrightarrow> x = y \<or> R x y \<or> R y x"
  by (induction xs) auto

lemma independence_step_inv:
  assumes inv: "components_inv td pg done cs"
  shows "components_inv td pg (done @ [item]) (independence_step td pg cs item)"
proof -
  let ?joins = "\<lambda>c. td item \<in> ic_domains c \<or> pg item \<in> ic_providers c"
  let ?joined = "filter ?joins cs" and ?rest = "filter (\<lambda>c. \<not> ?joins c) cs"
  let ?m = "\<lparr>ic_domains = insert (td item) (\<Union> (set (map ic_domains ?joined))),
             ic_providers = insert (pg item) (\<Union> (set (map ic_providers ?joined))),
             ic_items = item # concat (map ic_items ?joined)\<rparr>"
  let ?B = "set (done @ [item])"
  have step: "independence_step td pg cs item = ?rest @ [?m]"
    by (simp add: independence_step_def Let_def)
  have ok: "component_ok td pg ?B c" if "c \<in> set cs" for c
    using inv that by (auto simp: components_inv_def intro: component_ok_mono)
  have in_done: "set (ic_items c) \<subseteq> set done" if "c \<in> set cs" for c
    using inv that mset_eq_setD [of "concat (map ic_items cs)" "done"] by (auto simp: components_inv_def)
  have split: "mset (concat (map ic_items ?joined)) + mset (concat (map ic_items ?rest))
      = mset (concat (map ic_items cs))"
    by (induction cs) auto
  then have "mset (concat (map ic_items (?rest @ [?m]))) = mset (done @ [item])"
    using inv by (simp add: components_inv_def ac_simps)
  moreover have "component_ok td pg ?B ?m"
    unfolding component_ok_def
  proof (intro conjI ballI)
    show "ic_domains ?m = td ` set (ic_items ?m)" "ic_providers ?m = pg ` set (ic_items ?m)"
      using ok by (auto simp: component_ok_def)
    have to_item: "(x, item) \<in> (linked td pg ?B)\<^sup>*" if "x \<in> set (ic_items ?m)" for x
    proof (cases "x = item")
      case False
      then obtain c where c: "c \<in> set cs" "?joins c" "x \<in> set (ic_items c)"
        using \<open>x \<in> set (ic_items ?m)\<close> by auto
      from c(1) have okc: "component_ok td pg ?B c" by (rule ok)
      obtain y where y: "y \<in> set (ic_items c)" "td item = td y \<or> pg item = pg y"
        using okc c(2) unfolding component_ok_def by auto
      have "(x, y) \<in> (linked td pg ?B)\<^sup>*" using okc c(3) y(1) unfolding component_ok_def by blast
      moreover have "(y, item) \<in> linked td pg ?B" using y in_done [OF c(1)] by (auto simp: linked_def)
      ultimately show ?thesis by simp
    qed simp
    fix x y assume "x \<in> set (ic_items ?m)" "y \<in> set (ic_items ?m)"
    then have "(x, item) \<in> (linked td pg ?B)\<^sup>*" "(item, y) \<in> (linked td pg ?B)\<^sup>*"
      using to_item linked_sym [of td pg ?B] by (blast dest: symD)+
    then show "(x, y) \<in> (linked td pg ?B)\<^sup>*" by simp
  qed simp
  moreover have "sorted_wrt separate (?rest @ [?m])"
  proof -
    have sorted: "sorted_wrt separate cs" using inv by (simp add: components_inv_def)
    have "separate c ?m" if "c \<in> set ?rest" for c
    proof -
      have "separate c d" if "d \<in> set ?joined" for d
        using sorted_wrt_mem [OF sorted, of c d] \<open>c \<in> set ?rest\<close> that
        by (auto simp: separate_def)
      then show ?thesis using that by (auto simp: separate_def)
    qed
    with sorted show ?thesis by (simp add: sorted_wrt_append sorted_wrt_filter)
  qed
  ultimately show ?thesis using ok unfolding step components_inv_def by simp
qed

lemma components_inv_foldl:
  "components_inv td pg done cs \<Longrightarrow>
     components_inv td pg (done @ xs) (foldl (independence_step td pg) cs xs)"
proof (induction xs arbitrary: "done" cs)
  case (Cons x xs)
  from Cons.IH [OF independence_step_inv [OF Cons.prems, of x]] show ?case by simp
qed simp

lemma components_inv_all:
  "components_inv td pg xs (foldl (independence_step td pg) [] xs)"
  using components_inv_foldl [of td pg "[]" "[]" xs] by (simp add: components_inv_def)

lemma linked_same_component:
  assumes inv: "components_inv td pg xs cs" and "c \<in> set cs" and "x \<in> set (ic_items c)"
    and "(x, y) \<in> (linked td pg (set xs))\<^sup>*"
  shows "y \<in> set (ic_items c)"
  using assms(4)
proof (induction rule: rtrancl_induct)
  case base
  show ?case by (rule assms(3))
next
  case (step y z)
  then have "z \<in> set xs" "td y = td z \<or> pg y = pg z" by (auto simp: linked_def)
  moreover have "set (concat (map ic_items cs)) = set xs"
    using inv by (metis components_inv_def mset_eq_setD)
  ultimately obtain d where d: "d \<in> set cs" "z \<in> set (ic_items d)" by auto
  have "\<not> separate c d" "\<not> separate d c"
    using inv assms(2) d step.IH \<open>td y = td z \<or> pg y = pg z\<close>
    by (auto simp: components_inv_def component_ok_def separate_def)
  then have "c = d" using sorted_wrt_mem [of separate cs c d] inv assms(2) d(1)
    by (auto simp: components_inv_def)
  with d show ?case by simp
qed

lemma independenceGroups_domains:
  "mset (concat (independenceGroups td pg xs)) = mset xs
   \<and> [] \<notin> set (independenceGroups td pg xs)
   \<and> (\<forall>x \<in> set xs. \<forall>y. (\<exists>g \<in> set (independenceGroups td pg xs). x \<in> set g \<and> y \<in> set g)
        \<longleftrightarrow> (x, y) \<in> (linked td pg (set xs))\<^sup>*)"
proof (intro conjI ballI allI)
  let ?cs = "foldl (independence_step td pg) [] xs"
  have inv: "components_inv td pg xs ?cs" by (rule components_inv_all)
  then show mset: "mset (concat (independenceGroups td pg xs)) = mset xs"
    by (simp add: independenceGroups_def components_inv_def)
  have ok: "component_ok td pg (set xs) c" if "c \<in> set ?cs" for c
    using inv that by (simp add: components_inv_def)
  then show "[] \<notin> set (independenceGroups td pg xs)"
    by (auto simp: independenceGroups_def component_ok_def eq_commute [of "[]"])
  fix x y assume "x \<in> set xs"
  then obtain c where c: "c \<in> set ?cs" "x \<in> set (ic_items c)"
    using mset_eq_setD [OF mset] by (auto simp: independenceGroups_def)
  show "(\<exists>g \<in> set (independenceGroups td pg xs). x \<in> set g \<and> y \<in> set g)
      \<longleftrightarrow> (x, y) \<in> (linked td pg (set xs))\<^sup>*"
  proof
    assume "\<exists>g \<in> set (independenceGroups td pg xs). x \<in> set g \<and> y \<in> set g"
    then obtain d where "d \<in> set ?cs" "x \<in> set (ic_items d)" "y \<in> set (ic_items d)"
      by (auto simp: independenceGroups_def)
    with ok show "(x, y) \<in> (linked td pg (set xs))\<^sup>*" unfolding component_ok_def by blast
  next
    assume "(x, y) \<in> (linked td pg (set xs))\<^sup>*"
    from linked_same_component [OF inv c this] c
    show "\<exists>g \<in> set (independenceGroups td pg xs). x \<in> set g \<and> y \<in> set g"
      by (auto simp: independenceGroups_def)
  qed
qed

text \<open>
  The groups are exactly the failure domains: every item is in exactly one place, no group
  is empty, and two items are in one group exactly when a chain of shared trust domains or
  provider groups connects them, so correlated endpoints can never be counted as two witnesses
  and unconnected ones are never merged.
\<close>

theorem independenceGroups_failure_domains:
  "mset (concat (independenceGroups td pg xs)) = mset xs
   \<and> [] \<notin> set (independenceGroups td pg xs)
   \<and> (\<forall>x \<in> set xs. \<forall>y. (\<exists>g \<in> set (independenceGroups td pg xs). x \<in> set g \<and> y \<in> set g)
        \<longleftrightarrow> (x, y) \<in> (linked td pg (set xs))\<^sup>*)"
  by (rule independenceGroups_domains)

text \<open>Transitivity: alpha/x, beta/y and alpha/y are one domain.\<close>

theorem independenceGroups_failure_domains_witness:
  "\<exists>g \<in> set (independenceGroups fst snd [(''alpha'', ''x''), (''beta'', ''y''), (''alpha'', ''y'')]).
     (''alpha'', ''x'') \<in> set g \<and> (''beta'', ''y'') \<in> set g"
proof -
  let ?xs = "[(''alpha'', ''x''), (''beta'', ''y''), (''alpha'', ''y'')]"
  have "((''alpha'', ''x''), (''alpha'', ''y'')) \<in> linked fst snd (set ?xs)"
    "((''alpha'', ''y''), (''beta'', ''y'')) \<in> linked fst snd (set ?xs)"
    by (simp_all add: linked_def)
  then have "((''alpha'', ''x''), (''beta'', ''y'')) \<in> (linked fst snd (set ?xs))\<^sup>*"
    by (meson converse_rtrancl_into_rtrancl r_into_rtrancl)
  then show ?thesis using independenceGroups_failure_domains [of fst snd ?xs] by simp
qed

text \<open>Neither the groups nor the items inside a group follow the input order.\<close>

lemma independenceGroups_reverses:
  "independenceGroups fst snd [(''a'', ''x''), (''b'', ''y''), (''a'', ''z'')]
   = [[(''b'', ''y'')], [(''a'', ''z''), (''a'', ''x'')]]"
  by (simp add: independenceGroups_def independence_step_def Let_def)

text \<open>No more independent witnesses than distinct trust domains, or distinct provider groups.\<close>

lemma separate_count:
  assumes "\<forall>c \<in> set cs. f c \<noteq> {}" and "sorted_wrt (\<lambda>c d. f c \<inter> f d = {}) cs" and "finite (\<Union> (f ` set cs))"
  shows "length cs \<le> card (\<Union> (f ` set cs))"
  using assms
proof (induction cs)
  case (Cons c cs)
  let ?U = "\<Union> (f ` set cs)"
  have "f c \<inter> ?U = {}" using Cons.prems(2) by auto
  moreover have "finite (f c)" "finite ?U" using Cons.prems(3) by simp_all
  ultimately have "card (f c \<union> ?U) = card (f c) + card ?U" by (simp add: card_Un_disjoint)
  moreover have "1 \<le> card (f c)" using Cons.prems(1) \<open>finite (f c)\<close> by (simp add: Suc_le_eq card_gt_0_iff)
  moreover have "length cs \<le> card ?U" using Cons by simp
  ultimately show ?case by simp
qed simp

lemma UN_image_cong:
  "(\<And>c. c \<in> A \<Longrightarrow> f c = g ` h c) \<Longrightarrow> \<Union> (f ` A) = g ` \<Union> (h ` A)"
  by auto

lemma components_count:
  assumes inv: "components_inv td pg xs cs"
  shows "length cs \<le> card (td ` set xs)" and "length cs \<le> card (pg ` set xs)"
proof -
  have "set (concat (map ic_items cs)) = set xs"
    using inv by (metis components_inv_def mset_eq_setD)
  then have items: "(\<Union>c \<in> set cs. set (ic_items c)) = set xs" by simp
  have ok: "ic_items c \<noteq> []" "ic_domains c = td ` set (ic_items c)" "ic_providers c = pg ` set (ic_items c)"
    if "c \<in> set cs" for c
    using inv that by (simp_all add: components_inv_def component_ok_def)
  have doms: "\<Union> (ic_domains ` set cs) = td ` (\<Union>c \<in> set cs. set (ic_items c))"
    by (rule UN_image_cong) (rule ok)
  have provs: "\<Union> (ic_providers ` set cs) = pg ` (\<Union>c \<in> set cs. set (ic_items c))"
    by (rule UN_image_cong) (rule ok)
  have sep: "sorted_wrt separate cs" using inv by (simp add: components_inv_def)
  show "length cs \<le> card (td ` set xs)"
    unfolding items [symmetric] doms [symmetric]
  proof (rule separate_count)
    show "sorted_wrt (\<lambda>c d. ic_domains c \<inter> ic_domains d = {}) cs"
      by (rule sorted_wrt_mono_rel [OF _ sep]) (simp add: separate_def)
    show "finite (\<Union> (ic_domains ` set cs))" unfolding doms items by simp
  qed (use ok in simp)
  show "length cs \<le> card (pg ` set xs)"
    unfolding items [symmetric] provs [symmetric]
  proof (rule separate_count)
    show "sorted_wrt (\<lambda>c d. ic_providers c \<inter> ic_providers d = {}) cs"
      by (rule sorted_wrt_mono_rel [OF _ sep]) (simp add: separate_def)
    show "finite (\<Union> (ic_providers ` set cs))" unfolding provs items by simp
  qed (use ok in simp)
qed

lemma independenceGroups_count:
  "length (independenceGroups td pg xs) \<le> card (td ` set xs)"
  "length (independenceGroups td pg xs) \<le> card (pg ` set xs)"
  using components_count [OF components_inv_all [of td pg xs]] by (simp_all add: independenceGroups_def)

text \<open>The failure domains as classes; there are as many groups as classes.\<close>

definition failure_domains :: "('a \<Rightarrow> string) \<Rightarrow> ('a \<Rightarrow> string) \<Rightarrow> 'a set \<Rightarrow> 'a set set" where
  "failure_domains td pg A = (\<lambda>x. (linked td pg A)\<^sup>* `` {x}) ` A"

lemma component_is_class:
  assumes inv: "components_inv td pg xs cs" and c: "c \<in> set cs" and x: "x \<in> set (ic_items c)"
  shows "set (ic_items c) = (linked td pg (set xs))\<^sup>* `` {x}"
proof
  have "component_ok td pg (set xs) c" using inv c by (simp add: components_inv_def)
  with x show "set (ic_items c) \<subseteq> (linked td pg (set xs))\<^sup>* `` {x}"
    unfolding component_ok_def by blast
  show "(linked td pg (set xs))\<^sup>* `` {x} \<subseteq> set (ic_items c)"
    using linked_same_component [OF inv c x] by blast
qed

lemma components_classes:
  assumes inv: "components_inv td pg xs cs"
  shows "(\<lambda>c. set (ic_items c)) ` set cs = failure_domains td pg (set xs)"
    and "distinct (map (\<lambda>c. set (ic_items c)) cs)"
proof -
  have all: "set (concat (map ic_items cs)) = set xs"
    using inv by (metis components_inv_def mset_eq_setD)
  have ne: "ic_items c \<noteq> []" if "c \<in> set cs" for c
    using inv that by (simp add: components_inv_def component_ok_def)
  show "(\<lambda>c. set (ic_items c)) ` set cs = failure_domains td pg (set xs)"
  proof
    show "(\<lambda>c. set (ic_items c)) ` set cs \<subseteq> failure_domains td pg (set xs)"
    proof
      fix S assume "S \<in> (\<lambda>c. set (ic_items c)) ` set cs"
      then obtain c where c: "c \<in> set cs" "S = set (ic_items c)" by blast
      from ne [OF c(1)] obtain x where x: "x \<in> set (ic_items c)" by (cases "ic_items c") auto
      then have "x \<in> set xs" using all c(1) by auto
      with component_is_class [OF inv c(1) x] c(2) show "S \<in> failure_domains td pg (set xs)"
        by (auto simp: failure_domains_def)
    qed
    show "failure_domains td pg (set xs) \<subseteq> (\<lambda>c. set (ic_items c)) ` set cs"
    proof
      fix S assume "S \<in> failure_domains td pg (set xs)"
      then obtain x where x: "x \<in> set xs" "S = (linked td pg (set xs))\<^sup>* `` {x}"
        by (auto simp: failure_domains_def)
      then obtain c where c: "c \<in> set cs" "x \<in> set (ic_items c)" using all by auto
      with component_is_class [OF inv c] x(2) show "S \<in> (\<lambda>c. set (ic_items c)) ` set cs" by blast
    qed
  qed
  have ok: "component_ok td pg (set xs) c" if "c \<in> set cs" for c
    using inv that by (simp add: components_inv_def)
  have "sorted_wrt (\<lambda>c d. set (ic_items c) \<noteq> set (ic_items d)) cs"
  proof (rule sorted_wrt_mono_rel)
    show "sorted_wrt separate cs" using inv by (simp add: components_inv_def)
    fix c d assume cd: "c \<in> set cs" "d \<in> set cs" "separate c d"
    then show "set (ic_items c) \<noteq> set (ic_items d)"
      using ok [OF cd(1)] ok [OF cd(2)] by (auto simp: component_ok_def separate_def)
  qed
  then show "distinct (map (\<lambda>c. set (ic_items c)) cs)"
    by (induction cs) auto
qed

lemma length_independenceGroups:
  "length (independenceGroups td pg xs) = card (failure_domains td pg (set xs))"
proof -
  let ?cs = "foldl (independence_step td pg) [] xs"
  have inv: "components_inv td pg xs ?cs" by (rule components_inv_all)
  have "card ((\<lambda>c. set (ic_items c)) ` set ?cs) = length ?cs"
    using distinct_card [OF components_classes(2) [OF inv]] by simp
  then show ?thesis by (simp add: independenceGroups_def components_classes(1) [OF inv])
qed

section \<open>Endpoints that are one\<close>

definition merge_domains ::
  "(string \<times> string) list \<Rightarrow> string \<times> string \<Rightarrow> (string \<times> string) list" where
  "merge_domains domains pair =
     (case (map_of domains (fst pair), map_of domains (snd pair)) of
        (Some a, Some b) \<Rightarrow>
          let winner = (if a < b then a else b)
          in map (\<lambda>(i, domain). (i, if domain = a \<or> domain = b then winner else domain)) domains
      | _ \<Rightarrow> domains)"

definition collapsed_domain ::
  "('a \<Rightarrow> string) \<Rightarrow> 'a list \<Rightarrow> ('a \<Rightarrow> string) \<Rightarrow> (string \<times> string) list \<Rightarrow> 'a \<Rightarrow> string" where
  "collapsed_domain td items identify merges item =
     (case map_of (foldl merge_domains (map_of_entries (map (\<lambda>i. (identify i, td i)) items)) merges)
        (identify item) of
        None \<Rightarrow> td item | Some domain \<Rightarrow> domain)"

definition collapsedIndependenceGroups ::
  "('a \<Rightarrow> string) \<Rightarrow> ('a \<Rightarrow> string) \<Rightarrow> 'a list \<Rightarrow> ('a \<Rightarrow> string) \<Rightarrow> (string \<times> string) list \<Rightarrow> 'a list list" where
  "collapsedIndependenceGroups td pg items identify merges =
     map (map fst) (independenceGroups snd (\<lambda>claim. pg (fst claim))
       (map (\<lambda>item. (item, collapsed_domain td items identify merges item)) items))"

text \<open>Grouping commutes with a renaming of the items.\<close>

definition map_component :: "('a \<Rightarrow> 'b) \<Rightarrow> 'a independence_component \<Rightarrow> 'b independence_component" where
  "map_component f c =
     \<lparr>ic_domains = ic_domains c, ic_providers = ic_providers c, ic_items = map f (ic_items c)\<rparr>"

lemma independence_step_map:
  "independence_step td pg (map (map_component f) cs) (f x)
     = map (map_component f) (independence_step (\<lambda>x. td (f x)) (\<lambda>x. pg (f x)) cs x)"
  by (simp add: independence_step_def Let_def map_component_def filter_map comp_def map_concat)

lemma independenceGroups_map:
  "independenceGroups td pg (map f xs) = map (map f) (independenceGroups (\<lambda>x. td (f x)) (\<lambda>x. pg (f x)) xs)"
proof -
  have "foldl (independence_step td pg) (map (map_component f) cs) (map f xs)
      = map (map_component f) (foldl (independence_step (\<lambda>x. td (f x)) (\<lambda>x. pg (f x))) cs xs)" for cs
    by (induction xs arbitrary: cs) (simp_all add: independence_step_map)
  from this [of "[]"] show ?thesis
    by (simp add: independenceGroups_def map_component_def comp_def)
qed

lemma collapsed_eq:
  "collapsedIndependenceGroups td pg xs identify merges
     = independenceGroups (collapsed_domain td xs identify merges) pg xs"
  by (simp add: collapsedIndependenceGroups_def independenceGroups_map comp_def)

text \<open>The endpoints a list of conclusive pairs declares to be one.\<close>

definition merged_pairs :: "('a \<Rightarrow> string) \<Rightarrow> (string \<times> string) list \<Rightarrow> 'a set \<Rightarrow> ('a \<times> 'a) set" where
  "merged_pairs identify merges A = {(x, y). x \<in> A \<and> y \<in> A
     \<and> ((identify x, identify y) \<in> set merges \<or> (identify y, identify x) \<in> set merges)}"

definition same_domain :: "('a \<Rightarrow> string) \<Rightarrow> 'a set \<Rightarrow> ('a \<times> 'a) set" where
  "same_domain td A = {(x, y). x \<in> A \<and> y \<in> A \<and> td x = td y}"

lemma map_of_merge_domains:
  "map_of (merge_domains domains (l, r)) k =
     (case (map_of domains l, map_of domains r) of
        (Some a, Some b) \<Rightarrow> map_option (\<lambda>d. if d = a \<or> d = b then (if a < b then a else b) else d) (map_of domains k)
      | _ \<Rightarrow> map_of domains k)"
proof -
  have "map_of (map (\<lambda>(i, d). (i, f d)) m) k = map_option f (map_of m k)" for f :: "string \<Rightarrow> string" and m
    by (induction m) auto
  then show ?thesis by (auto simp: merge_domains_def Let_def split: option.split)
qed

text \<open>One merge of two classes of a labelling is one edge between them.\<close>

definition relabel :: "string option \<Rightarrow> string option \<Rightarrow> string option \<Rightarrow> string option" where
  "relabel l r d =
     (case (l, r) of
        (Some a, Some b) \<Rightarrow> map_option (\<lambda>d. if d = a \<or> d = b then (if a < b then a else b) else d) d
      | _ \<Rightarrow> d)"

lemma relabel_None: "l = None \<or> r = None \<Longrightarrow> relabel l r d = d"
  by (auto simp: relabel_def split: option.split)

lemma relabel_eq_iff:
  "relabel (Some a) (Some b) (Some d) = relabel (Some a) (Some b) (Some e) \<longleftrightarrow>
     d = e \<or> (d \<in> {a, b} \<and> e \<in> {a, b})"
  by (auto simp: relabel_def)

lemma relabel_not_None: "d \<noteq> None \<Longrightarrow> relabel l r d \<noteq> None"
  by (auto simp: relabel_def split: option.split)

lemma relabel_classes:
  assumes some: "\<And>u. u \<in> A \<Longrightarrow> d u \<noteq> None"
    and classes: "\<And>u v. u \<in> A \<Longrightarrow> v \<in> A \<Longrightarrow> d u = d v \<longleftrightarrow> (u, v) \<in> E\<^sup>*"
    and E: "E \<subseteq> A \<times> A" "sym E"
    and l: "lx \<in> A" "d lx = Some a" and r: "rx \<in> A" "d rx = Some b" and uv: "u \<in> A" "v \<in> A"
  shows "relabel (Some a) (Some b) (d u) = relabel (Some a) (Some b) (d v)
     \<longleftrightarrow> (u, v) \<in> (E \<union> {(lx, rx), (rx, lx)})\<^sup>*"
proof
  let ?E' = "E \<union> {(lx, rx), (rx, lx)}"
  let ?n = "\<lambda>z. relabel (Some a) (Some b) (d z)"
  have sub: "E\<^sup>* \<subseteq> ?E'\<^sup>*" by (rule rtrancl_mono) blast
  have n: "?n y = ?n z \<longleftrightarrow> d y = d z \<or> (d y \<in> {Some a, Some b} \<and> d z \<in> {Some a, Some b})"
    if "y \<in> A" "z \<in> A" for y z
  proof -
    have "d y \<noteq> None" "d z \<noteq> None" using that by (simp_all only: some not_False_eq_True)
    then obtain dy dz where "d y = Some dy" "d z = Some dz" by blast
    then show ?thesis using relabel_eq_iff [of a b dy dz] by simp
  qed
  have sym: "sym (?E'\<^sup>*)" using E(2) by (intro sym_rtrancl) (auto simp: sym_def)
  show "(u, v) \<in> ?E'\<^sup>*" if "?n u = ?n v"
  proof (cases "d u = d v")
    case True
    then show ?thesis using classes uv sub by blast
  next
    case False
    have edge: "(rx, lx) \<in> ?E'\<^sup>*" by blast
    have reach: "(z, lx) \<in> ?E'\<^sup>*" if "z \<in> A" "d z \<in> {Some a, Some b}" for z
    proof -
      have "d z = d lx \<or> d z = d rx" using that(2) l(2) r(2) by auto
      then have "(z, lx) \<in> E\<^sup>* \<or> (z, rx) \<in> E\<^sup>*" using classes [OF that(1)] l(1) r(1) by blast
      then show ?thesis using sub edge by (meson rtrancl_trans subsetD)
    qed
    have "(u, lx) \<in> ?E'\<^sup>*" "(v, lx) \<in> ?E'\<^sup>*"
      using reach False that n [OF uv] uv by blast+
    then show ?thesis using sym by (meson rtrancl_trans symD)
  qed
  have step: "?n y = ?n z \<and> y \<in> A \<and> z \<in> A" if "(y, z) \<in> ?E'" for y z
  proof -
    have A: "y \<in> A" "z \<in> A" using that E(1) l(1) r(1) by auto
    moreover have "d y = d z \<or> (d y \<in> {Some a, Some b} \<and> d z \<in> {Some a, Some b})"
      using that classes [OF A] l(2) r(2) by auto
    ultimately show ?thesis using n [OF A] by blast
  qed
  show "?n u = ?n v" if "(u, v) \<in> ?E'\<^sup>*"
    using that by (induction rule: rtrancl_induct) (use step in \<open>auto\<close>)
qed

definition domain_table ::
  "('a \<Rightarrow> string) \<Rightarrow> 'a list \<Rightarrow> ('a \<Rightarrow> string) \<Rightarrow> (string \<times> string) list \<Rightarrow> (string \<times> string) list" where
  "domain_table td items identify merges =
     foldl merge_domains (map_of_entries (map (\<lambda>i. (identify i, td i)) items)) merges"

lemma domain_table_keys:
  assumes "distinct (map identify xs)"
  shows "fst ` set (domain_table td xs identify merges) = identify ` set xs"
proof -
  have "fst ` set (foldl merge_domains m ms) = fst ` set m" for m ms
  proof (induction ms arbitrary: m)
    case (Cons q ms)
    have "fst ` set (merge_domains m q) = fst ` set m"
      by (force simp: merge_domains_def Let_def split: option.split)
    with Cons show ?case by simp
  qed simp
  with assms show ?thesis
    unfolding domain_table_def by (subst map_of_entries_distinct) (simp_all add: comp_def image_image)
qed

lemma map_of_domain_table_snoc:
  "map_of (domain_table td xs identify (ms @ [(l, r)])) k =
     relabel (map_of (domain_table td xs identify ms) l) (map_of (domain_table td xs identify ms) r)
       (map_of (domain_table td xs identify ms) k)"
  by (simp add: domain_table_def map_of_merge_domains relabel_def)

lemma map_of_domain_table_Nil:
  assumes "distinct (map identify xs)" and "x \<in> set xs"
  shows "map_of (domain_table td xs identify []) (identify x) = Some (td x)"
proof -
  have m: "map_of_entries (map (\<lambda>i. (identify i, td i)) xs) = map (\<lambda>i. (identify i, td i)) xs"
    using assms(1) by (intro map_of_entries_distinct) (simp add: comp_def)
  show ?thesis
    unfolding domain_table_def foldl_Nil m using assms by (intro map_of_is_SomeI) (auto simp: comp_def)
qed

lemma merged_domain_classes:
  assumes ids: "distinct (map identify xs)" and "x \<in> set xs" and "y \<in> set xs"
  shows "map_of (domain_table td xs identify merges) (identify x)
         = map_of (domain_table td xs identify merges) (identify y)
     \<longleftrightarrow> (x, y) \<in> (same_domain td (set xs) \<union> merged_pairs identify merges (set xs))\<^sup>*"
  using assms(2,3)
proof (induction merges arbitrary: x y rule: rev_induct)
  case Nil
  have "(x, y) \<in> (same_domain td (set xs))\<^sup>* \<Longrightarrow> td x = td y"
    by (induction rule: rtrancl_induct) (auto simp: same_domain_def)
  moreover have "td x = td y \<Longrightarrow> (x, y) \<in> (same_domain td (set xs))\<^sup>*"
    using Nil by (auto simp: same_domain_def)
  moreover have "merged_pairs identify [] (set xs) = {}" by (simp add: merged_pairs_def)
  ultimately show ?case using Nil by (auto simp: map_of_domain_table_Nil [OF ids])
next
  case (snoc p merges)
  obtain l r where p: "p = (l, r)" by (cases p)
  let ?d = "\<lambda>k. map_of (domain_table td xs identify merges) k"
  let ?E = "same_domain td (set xs) \<union> merged_pairs identify merges (set xs)"
  let ?E' = "same_domain td (set xs) \<union> merged_pairs identify (merges @ [p]) (set xs)"
  have keys: "?d k \<noteq> None \<longleftrightarrow> k \<in> identify ` set xs" for k
    using domain_table_keys [OF ids, of td merges] by (simp add: map_of_eq_None_iff)
  show ?case
  proof (cases "l \<in> identify ` set xs \<and> r \<in> identify ` set xs")
    case False
    then have "merged_pairs identify (merges @ [p]) (set xs) = merged_pairs identify merges (set xs)"
      by (auto simp: merged_pairs_def p)
    moreover have "?d l = None \<or> ?d r = None" using False keys by blast
    ultimately show ?thesis using snoc unfolding p map_of_domain_table_snoc by (simp add: relabel_None)
  next
    case True
    then obtain lx rx where lr: "lx \<in> set xs" "identify lx = l" "rx \<in> set xs" "identify rx = r" by auto
    have uniq: "identify z = identify w \<Longrightarrow> z \<in> set xs \<Longrightarrow> w \<in> set xs \<Longrightarrow> z = w" for z w
      using ids by (auto simp: distinct_map inj_on_def)
    obtain a b where ab: "?d l = Some a" "?d r = Some b" using keys True by (meson not_None_eq)
    have E': "?E' = ?E \<union> {(lx, rx), (rx, lx)}"
      using lr by (auto simp: merged_pairs_def p dest: uniq)
    have "relabel (Some a) (Some b) (?d (identify x)) = relabel (Some a) (Some b) (?d (identify y))
        \<longleftrightarrow> (x, y) \<in> (?E \<union> {(lx, rx), (rx, lx)})\<^sup>*"
    proof (rule relabel_classes [where A = "set xs"])
      show "?E \<subseteq> set xs \<times> set xs" "sym ?E" by (auto simp: same_domain_def merged_pairs_def sym_def)
    qed (use snoc lr ab keys in auto)
    then show ?thesis unfolding E' unfolding p map_of_domain_table_snoc ab by blast
  qed
qed

lemma collapsed_failure_domains_iff:
  assumes ids: "distinct (map identify xs)" and x: "x \<in> set xs" and y: "y \<in> set xs"
  shows "(\<exists>g \<in> set (collapsedIndependenceGroups td pg xs identify merges). x \<in> set g \<and> y \<in> set g)
     \<longleftrightarrow> (x, y) \<in> (linked td pg (set xs) \<union> merged_pairs identify merges (set xs))\<^sup>*"
proof -
  let ?dom = "collapsed_domain td xs identify merges"
  let ?E = "same_domain td (set xs) \<union> merged_pairs identify merges (set xs)"
  let ?R = "linked td pg (set xs) \<union> merged_pairs identify merges (set xs)"
  have dom: "?dom u = ?dom v \<longleftrightarrow> (u, v) \<in> ?E\<^sup>*" if "u \<in> set xs" "v \<in> set xs" for u v
  proof -
    have "map_of (domain_table td xs identify merges) (identify u) \<noteq> None"
      "map_of (domain_table td xs identify merges) (identify v) \<noteq> None"
      unfolding map_of_eq_None_iff domain_table_keys [OF ids] using that by simp_all
    then obtain du dv where "map_of (domain_table td xs identify merges) (identify u) = Some du"
      "map_of (domain_table td xs identify merges) (identify v) = Some dv" by blast
    with merged_domain_classes [OF ids that, of td merges] show ?thesis
      by (simp add: collapsed_domain_def domain_table_def [symmetric])
  qed
  have "?E \<subseteq> ?R" by (auto simp: same_domain_def linked_def)
  then have "?E\<^sup>* \<subseteq> ?R\<^sup>*" by (rule rtrancl_mono)
  have "linked ?dom pg (set xs) \<subseteq> ?R\<^sup>*"
  proof
    fix e assume "e \<in> linked ?dom pg (set xs)"
    then obtain u v where e: "e = (u, v)" "u \<in> set xs" "v \<in> set xs" "?dom u = ?dom v \<or> pg u = pg v"
      by (auto simp: linked_def)
    show "e \<in> ?R\<^sup>*"
    proof (cases "pg u = pg v")
      case True
      then show ?thesis using e by (auto simp: linked_def)
    next
      case False
      then show ?thesis using e dom [of u v] \<open>?E\<^sup>* \<subseteq> ?R\<^sup>*\<close> by blast
    qed
  qed
  then have "(linked ?dom pg (set xs))\<^sup>* \<subseteq> ?R\<^sup>*" by (rule rtrancl_subset_rtrancl)
  moreover have "?R \<subseteq> linked ?dom pg (set xs)"
  proof
    fix e assume "e \<in> ?R"
    then obtain u v where e: "e = (u, v)" "u \<in> set xs" "v \<in> set xs" "pg u = pg v \<or> (u, v) \<in> ?E"
      by (auto simp: linked_def merged_pairs_def same_domain_def)
    then show "e \<in> linked ?dom pg (set xs)" using dom [of u v] by (auto simp: linked_def)
  qed
  then have "?R\<^sup>* \<subseteq> (linked ?dom pg (set xs))\<^sup>*" by (rule rtrancl_mono)
  ultimately have "(linked ?dom pg (set xs))\<^sup>* = ?R\<^sup>*" by (rule subset_antisym)
  then show ?thesis
    unfolding collapsed_eq using independenceGroups_domains [of ?dom pg xs] x by simp
qed

text \<open>
  Collapsing endpoints that are conclusively one: with distinct endpoint identifiers, two
  endpoints end up in one failure domain exactly when a chain of shared trust domains, shared
  provider groups and conclusive pairs connects them. A pair wearing two names always counts
  once, and nothing else is merged.
\<close>

theorem collapsed_failure_domains:
  assumes "distinct (map identify xs)" and "x \<in> set xs" and "y \<in> set xs"
  shows "(\<exists>g \<in> set (collapsedIndependenceGroups td pg xs identify merges). x \<in> set g \<and> y \<in> set g)
     \<longleftrightarrow> (x, y) \<in> (linked td pg (set xs) \<union> merged_pairs identify merges (set xs))\<^sup>*"
  using assms by (rule collapsed_failure_domains_iff)

theorem collapsed_failure_domains_witness:
  "\<exists>g \<in> set (collapsedIndependenceGroups (\<lambda>e. ''d'' @ fst e) snd [(''1'', ''x''), (''2'', ''y'')] fst [(''1'', ''2'')]).
     (''1'', ''x'') \<in> set g \<and> (''2'', ''y'') \<in> set g"
proof -
  let ?xs = "[(''1'', ''x''), (''2'', ''y'')]"
  have "((''1'', ''x''), (''2'', ''y'')) \<in> merged_pairs fst [(''1'', ''2'')] (set ?xs)"
    by (simp add: merged_pairs_def)
  then have "((''1'', ''x''), (''2'', ''y''))
      \<in> (linked (\<lambda>e. ''d'' @ fst e) snd (set ?xs) \<union> merged_pairs fst [(''1'', ''2'')] (set ?xs))\<^sup>*"
    by blast
  then show ?thesis
    using collapsed_failure_domains [of fst ?xs "(''1'', ''x'')" "(''2'', ''y'')" "\<lambda>e. ''d'' @ fst e" snd "[(''1'', ''2'')]"]
    by simp
qed

section \<open>Correlation of declared-independent endpoints\<close>

record endpoint_correlation_input =
  ep_endpointId :: string
  ep_trustDomain :: string
  ep_secretRef :: string
  ep_hostname :: "string option"
  ep_addresses :: "string list"
  ep_cnames :: "string list"

datatype correlation_signal = SameSecretRef | SameHostname | SharedAddress | SharedCname

fun signal_text :: "correlation_signal \<Rightarrow> string" where
  "signal_text SameSecretRef = ''same-secret-ref''"
| "signal_text SameHostname = ''same-hostname''"
| "signal_text SharedAddress = ''shared-address''"
| "signal_text SharedCname = ''shared-cname''"

definition CONCLUSIVE_SIGNALS :: "correlation_signal list" where
  "CONCLUSIVE_SIGNALS = [SameSecretRef, SameHostname]"

record correlation_finding =
  cf_signal :: correlation_signal
  cf_conclusive :: bool
  cf_endpointIds :: "string \<times> string"
  cf_trustDomains :: "string \<times> string"
  cf_sharedDigest :: string

record correlation_result =
  cr_findings :: "correlation_finding list"
  cr_merges :: "(string \<times> string) list"

definition overlap :: "(string \<Rightarrow> string) \<Rightarrow> string list \<Rightarrow> string list \<Rightarrow> string option" where
  "overlap collate a b =
     (case sort_key collate (filter (\<lambda>v. v \<in> set b) a) of [] \<Rightarrow> None | v # _ \<Rightarrow> Some v)"

definition strongestSignal ::
  "(string \<Rightarrow> string) \<Rightarrow> endpoint_correlation_input \<Rightarrow> endpoint_correlation_input
   \<Rightarrow> (correlation_signal \<times> string) option" where
  "strongestSignal collate a b =
     (if ep_secretRef a = ep_secretRef b then Some (SameSecretRef, ep_secretRef a)
      else case (if ep_hostname a = ep_hostname b then ep_hostname a else None) of
        Some host \<Rightarrow> Some (SameHostname, host)
      | None \<Rightarrow>
          (case overlap collate (ep_addresses a) (ep_addresses b) of
             Some address \<Rightarrow> Some (SharedAddress, address)
           | None \<Rightarrow>
               (case overlap collate (ep_cnames a) (ep_cnames b) of
                  Some cname \<Rightarrow> Some (SharedCname, cname)
                | None \<Rightarrow> None)))"

text \<open>The two nested loops: every pair of positions \<open>i < j\<close>, in that order.\<close>

fun pairs_in_order :: "'a list \<Rightarrow> ('a \<times> 'a) list" where
  "pairs_in_order [] = []"
| "pairs_in_order (x # xs) = map (Pair x) xs @ pairs_in_order xs"

definition pair_finding ::
  "(string \<Rightarrow> string) \<Rightarrow> (string \<Rightarrow> string) \<Rightarrow> endpoint_correlation_input \<times> endpoint_correlation_input
   \<Rightarrow> correlation_finding option" where
  "pair_finding collate hash = (\<lambda>(a, b).
     if ep_trustDomain a = ep_trustDomain b then None
     else case strongestSignal collate a b of
       None \<Rightarrow> None
     | Some (signal, v) \<Rightarrow>
         Some \<lparr>cf_signal = signal, cf_conclusive = (signal \<in> set CONCLUSIVE_SIGNALS),
               cf_endpointIds = (ep_endpointId a, ep_endpointId b),
               cf_trustDomains = (ep_trustDomain a, ep_trustDomain b),
               cf_sharedDigest = take 16 (hash (signal_text signal @ ''|'' @ v))\<rparr>)"

definition correlateEndpoints ::
  "(string \<Rightarrow> string) \<Rightarrow> endpoint_correlation_input list \<Rightarrow> (string \<Rightarrow> string) \<Rightarrow> correlation_result" where
  "correlateEndpoints collate inputs hash =
     (let ordered = sort_key (\<lambda>e. collate (ep_endpointId e)) inputs;
          findings = List.map_filter (pair_finding collate hash) (pairs_in_order ordered)
      in \<lparr>cr_findings = findings,
          cr_merges = map cf_endpointIds (filter cf_conclusive findings)\<rparr>)"

lemma pairs_in_order_complete:
  "a \<in> set xs \<Longrightarrow> b \<in> set xs \<Longrightarrow> a = b \<or> (a, b) \<in> set (pairs_in_order xs) \<or> (b, a) \<in> set (pairs_in_order xs)"
  by (induction xs) auto

lemma pairs_in_order_sound: "(a, b) \<in> set (pairs_in_order xs) \<Longrightarrow> a \<in> set xs \<and> b \<in> set xs"
  by (induction xs) auto

text \<open>One endpoint wearing two names.\<close>

definition same_endpoint :: "endpoint_correlation_input \<Rightarrow> endpoint_correlation_input \<Rightarrow> bool" where
  "same_endpoint a b \<longleftrightarrow> ep_secretRef a = ep_secretRef b
     \<or> (ep_hostname a \<noteq> None \<and> ep_hostname a = ep_hostname b)"

lemma pair_finding_conclusive:
  "(\<exists>f. pair_finding collate hash (a, b) = Some f \<and> cf_conclusive f)
     \<longleftrightarrow> ep_trustDomain a \<noteq> ep_trustDomain b \<and> same_endpoint a b"
  by (auto simp: pair_finding_def strongestSignal_def same_endpoint_def CONCLUSIVE_SIGNALS_def
      split: option.splits if_splits)

lemma pair_finding_ids:
  "pair_finding collate hash (a, b) = Some f \<Longrightarrow> cf_endpointIds f = (ep_endpointId a, ep_endpointId b)"
  by (auto simp: pair_finding_def split: if_splits option.splits)

lemma set_merges:
  "set (cr_merges (correlateEndpoints collate inputs hash)) =
     {(ep_endpointId a, ep_endpointId b) | a b.
        (a, b) \<in> set (pairs_in_order (sort_key (\<lambda>e. collate (ep_endpointId e)) inputs))
        \<and> ep_trustDomain a \<noteq> ep_trustDomain b \<and> same_endpoint a b}"
  (is "?merges = ?spec")
proof
  let ?ps = "pairs_in_order (sort_key (\<lambda>e. collate (ep_endpointId e)) inputs)"
  have merges: "?merges = {cf_endpointIds f | f a b. (a, b) \<in> set ?ps
      \<and> pair_finding collate hash (a, b) = Some f \<and> cf_conclusive f}"
    by (force simp: correlateEndpoints_def Let_def map_filter_def)
  show "?merges \<subseteq> ?spec"
    unfolding merges using pair_finding_conclusive pair_finding_ids by blast
  show "?spec \<subseteq> ?merges"
  proof
    fix m assume "m \<in> ?spec"
    then obtain a b where ab: "m = (ep_endpointId a, ep_endpointId b)" "(a, b) \<in> set ?ps"
      "ep_trustDomain a \<noteq> ep_trustDomain b \<and> same_endpoint a b" by blast
    then obtain f where "pair_finding collate hash (a, b) = Some f" "cf_conclusive f"
      using pair_finding_conclusive [of collate hash a b] by blast
    with ab show "m \<in> ?merges" unfolding merges using pair_finding_ids by force
  qed
qed

text \<open>
  One endpoint under two names counts once. Whatever the operator declares, two endpoints
  that read the same secret reference or resolve to the same host are in one failure domain after
  the correlations are applied; and only such pairs are ever applied, so a shared address or
  CNAME alone never merges two witnesses.
\<close>

theorem correlated_endpoints_count_once:
  assumes "distinct (map ep_endpointId inputs)" and "a \<in> set inputs" and "b \<in> set inputs"
    and "merges = cr_merges (correlateEndpoints collate inputs hash)"
  shows "(same_endpoint a b \<longrightarrow>
            (\<exists>g \<in> set (collapsedIndependenceGroups ep_trustDomain pg inputs ep_endpointId merges). a \<in> set g \<and> b \<in> set g))
       \<and> ((ep_endpointId a, ep_endpointId b) \<in> set merges \<longrightarrow> same_endpoint a b)"
proof
  let ?ordered = "sort_key (\<lambda>e. collate (ep_endpointId e)) inputs"
  have inj: "c = d" if "c \<in> set inputs" "d \<in> set inputs" "ep_endpointId c = ep_endpointId d" for c d
    using assms(1) that by (auto simp: distinct_map inj_on_def)
  show "same_endpoint a b \<longrightarrow> (\<exists>g \<in> set (collapsedIndependenceGroups ep_trustDomain pg inputs ep_endpointId merges).
      a \<in> set g \<and> b \<in> set g)"
  proof
    assume same: "same_endpoint a b"
    have "(a, b) \<in> linked ep_trustDomain pg (set inputs) \<union> merged_pairs ep_endpointId merges (set inputs)"
    proof (cases "ep_trustDomain a = ep_trustDomain b")
      case True
      with assms(2,3) show ?thesis by (simp add: linked_def)
    next
      case False
      then have "(a, b) \<in> set (pairs_in_order ?ordered) \<or> (b, a) \<in> set (pairs_in_order ?ordered)"
        using pairs_in_order_complete [of a ?ordered b] assms(2,3) by auto
      moreover have "same_endpoint b a" using same unfolding same_endpoint_def by metis
      ultimately have "(ep_endpointId a, ep_endpointId b) \<in> set merges \<or> (ep_endpointId b, ep_endpointId a) \<in> set merges"
        using same False unfolding assms(4) set_merges by fastforce
      with assms(2,3) show ?thesis by (auto simp: merged_pairs_def)
    qed
    then show "\<exists>g \<in> set (collapsedIndependenceGroups ep_trustDomain pg inputs ep_endpointId merges).
        a \<in> set g \<and> b \<in> set g"
      unfolding collapsed_failure_domains_iff [OF assms(1-3)] by blast
  qed
  show "(ep_endpointId a, ep_endpointId b) \<in> set merges \<longrightarrow> same_endpoint a b"
  proof
    assume "(ep_endpointId a, ep_endpointId b) \<in> set merges"
    then obtain c d where cd: "ep_endpointId c = ep_endpointId a" "ep_endpointId d = ep_endpointId b"
      "(c, d) \<in> set (pairs_in_order ?ordered)" "same_endpoint c d"
      unfolding assms(4) set_merges by auto
    then have "c = a" "d = b"
      using pairs_in_order_sound [OF cd(3)] assms(2,3) by (auto intro: inj)
    with cd(4) show "same_endpoint a b" by simp
  qed
qed

definition example_endpoint :: "string \<Rightarrow> string \<Rightarrow> endpoint_correlation_input" where
  "example_endpoint i host = \<lparr>ep_endpointId = i, ep_trustDomain = ''d'' @ i, ep_secretRef = ''S'' @ i,
     ep_hostname = Some host, ep_addresses = [], ep_cnames = []\<rparr>"

theorem correlated_endpoints_count_once_witness:
  "\<exists>g \<in> set (collapsedIndependenceGroups ep_trustDomain ep_endpointId
       [example_endpoint ''1'' ''h'', example_endpoint ''2'' ''h''] ep_endpointId
       (cr_merges (correlateEndpoints (\<lambda>s. s) [example_endpoint ''1'' ''h'', example_endpoint ''2'' ''h''] (\<lambda>s. s)))).
     example_endpoint ''1'' ''h'' \<in> set g \<and> example_endpoint ''2'' ''h'' \<in> set g"
proof -
  let ?a = "example_endpoint ''1'' ''h''" and ?b = "example_endpoint ''2'' ''h''"
  have "distinct (map ep_endpointId [?a, ?b])" "same_endpoint ?a ?b"
    by (simp_all add: example_endpoint_def same_endpoint_def)
  with correlated_endpoints_count_once [of "[?a, ?b]" ?a ?b _ "\<lambda>s. s" "\<lambda>s. s" ep_endpointId, OF _ _ _ refl]
  show ?thesis by simp
qed

end
