(* ===== verification/Quorum.thy ===== *)
theory Quorum
  imports Independence Lattice
begin

text \<open>
  packages/rpc-quorum/src/quorum.ts and pinned.ts: the independent witness quorum on a block
  hash, the integrity check against recorded acceptance, and the pinned context an evaluation
  reads at. An optional field is an \<open>option\<close>, milliseconds are whole, \<open>localeCompare\<close> is the
  order of the collation key \<open>collate\<close>.
\<close>

section \<open>Observations and results\<close>

datatype archive_depth = ArchiveFull | ArchivePruned | ArchiveUnknown

record witness_observation =
  wo_endpointId :: string
  wo_trustDomain :: string
  wo_providerGroup :: string
  wo_blockchainId :: "string option"
  wo_genesisHash :: "string option"
  wo_evmChainId :: "int option"
  wo_networkId :: "int option"
  wo_headBlockNumber :: int
  wo_hashAtHeight :: "string option"
  wo_observedAtMs :: int
  wo_archiveDepth :: archive_depth

record expected_identity =
  ei_blockchainId :: string
  ei_genesisHash :: "string option"
  ei_evmChainId :: int
  ei_networkId :: int

record quorum_policy =
  qp_minIndependentTrustDomains :: int
  qp_maxHeadLagBlocks :: int
  qp_maxObservationAgeMs :: int

datatype witness_rejection =
  WrongBlockchainId | WrongGenesisHash | WrongEvmChainId | WrongNetworkId | MissingIdentity
| StaleObservation | HeadLagging | HeadInFuture | NoHashAtHeight

record rejected_witness =
  rw_endpointId :: string
  rw_trustDomain :: string
  rw_reason :: witness_rejection
  rw_detail :: string

datatype quorum_outcome = Agreed | InsufficientWitnesses | Disagreement | NoCommonHeight

record quorum_result =
  qr_outcome :: quorum_outcome
  qr_height :: "int option"
  qr_blockHash :: "string option"
  qr_agreeingTrustDomains :: "string list"
  qr_agreeingProviderGroups :: "string list"
  qr_agreeingEndpointIds :: "string list"
  qr_rejected :: "rejected_witness list"
  qr_reasons :: "string list"
  qr_degraded :: "string list"

section \<open>The quorum\<close>

definition lower :: "string option \<Rightarrow> string option" where
  "lower s = map_option toLowerCase s"

text \<open>Why an observation is not admissible, in the order the loop asks.\<close>

definition admission ::
  "expected_identity \<Rightarrow> quorum_policy \<Rightarrow> int \<Rightarrow> witness_observation
   \<Rightarrow> (witness_rejection \<times> string) option" where
  "admission expected policy nowMs ob =
     (if wo_blockchainId ob = None \<or> wo_evmChainId ob = None \<or> wo_networkId ob = None
      then Some (MissingIdentity, ''the endpoint did not establish a full chain identity'')
      else if lower (wo_blockchainId ob) \<noteq> Some (toLowerCase (ei_blockchainId expected))
      then Some (WrongBlockchainId, ''the endpoint serves a different Avalanche blockchain'')
      else if ei_genesisHash expected \<noteq> None \<and> lower (wo_genesisHash ob) \<noteq> lower (ei_genesisHash expected)
      then Some (WrongGenesisHash, ''the endpoint does not match the configured genesis anchor'')
      else if wo_evmChainId ob \<noteq> Some (ei_evmChainId expected)
      then Some (WrongEvmChainId, ''the endpoint serves a different EVM chain id'')
      else if wo_networkId ob \<noteq> Some (ei_networkId expected)
      then Some (WrongNetworkId, ''the endpoint serves a different Avalanche network'')
      else if nowMs - wo_observedAtMs ob > qp_maxObservationAgeMs policy
      then Some (StaleObservation, ''the observation is older than the freshness policy allows'')
      else None)"

definition reject :: "witness_observation \<Rightarrow> witness_rejection \<Rightarrow> string \<Rightarrow> rejected_witness" where
  "reject ob reason detail =
     \<lparr>rw_endpointId = wo_endpointId ob, rw_trustDomain = wo_trustDomain ob, rw_reason = reason,
      rw_detail = detail\<rparr>"

definition higher_head :: "int \<Rightarrow> witness_observation \<Rightarrow> int" where
  "higher_head m ob = (if wo_headBlockNumber ob > m then wo_headBlockNumber ob else m)"

definition lower_head :: "int \<Rightarrow> witness_observation \<Rightarrow> int" where
  "lower_head m ob = (if wo_headBlockNumber ob < m then wo_headBlockNumber ob else m)"

definition hash_key :: "witness_observation \<Rightarrow> string" where
  "hash_key ob = (case wo_hashAtHeight ob of Some h \<Rightarrow> toLowerCase h | None \<Rightarrow> [])"

definition witness_sort_key :: "(string \<Rightarrow> string) \<Rightarrow> witness_observation \<Rightarrow> string" where
  "witness_sort_key collate ob =
     collate (wo_trustDomain ob @ [CHR 0x00] @ wo_providerGroup ob @ [CHR 0x00] @ wo_endpointId ob)"

definition independentWitnesses ::
  "(string \<Rightarrow> string) \<Rightarrow> witness_observation list \<Rightarrow> witness_observation list" where
  "independentWitnesses collate observations =
     (let ordered = sort_key (witness_sort_key collate) observations;
          by_id = sort_key (\<lambda>ob. collate (wo_endpointId ob))
      in by_id (List.map_filter (\<lambda>g. case by_id g of [] \<Rightarrow> None | ob # _ \<Rightarrow> Some ob)
           (independenceGroups wo_trustDomain wo_providerGroup ordered)))"

definition no_agreement ::
  "quorum_outcome \<Rightarrow> int option \<Rightarrow> rejected_witness list \<Rightarrow> string list \<Rightarrow> string list \<Rightarrow> quorum_result" where
  "no_agreement outcome height rejected reasons degraded =
     \<lparr>qr_outcome = outcome, qr_height = height, qr_blockHash = None, qr_agreeingTrustDomains = [],
      qr_agreeingProviderGroups = [], qr_agreeingEndpointIds = [], qr_rejected = rejected,
      qr_reasons = reasons, qr_degraded = degraded\<rparr>"

definition evaluateQuorum ::
  "(string \<Rightarrow> string) \<Rightarrow> witness_observation list \<Rightarrow> expected_identity \<Rightarrow> quorum_policy \<Rightarrow> int
   \<Rightarrow> quorum_result" where
  "evaluateQuorum collate observations expected policy nowMs =
     (let refused = List.map_filter (\<lambda>ob. map_option (\<lambda>(reason, detail). reject ob reason detail)
                      (admission expected policy nowMs ob)) observations;
          admissible = filter (\<lambda>ob. admission expected policy nowMs ob = None) observations
      in if length admissible = 0
         then no_agreement InsufficientWitnesses None refused
                [''no endpoint established the expected chain identity within the freshness window''] []
         else let leadingHead = foldl higher_head 0 admissible;
                  lags = (\<lambda>ob. leadingHead - wo_headBlockNumber ob > qp_maxHeadLagBlocks policy);
                  lagging = filter lags admissible;
                  notLagging = filter (\<lambda>ob. \<not> lags ob) admissible;
                  refused2 = refused @ map (\<lambda>ob. reject ob HeadLagging
                    (''head is '' @ show_int (leadingHead - wo_headBlockNumber ob)
                      @ '' blocks behind the leading witness'')) lagging;
                  degraded = map (\<lambda>ob. wo_endpointId ob @ '': head lagging'') lagging
         in case notLagging of
              [] \<Rightarrow> no_agreement InsufficientWitnesses None refused2
                      [''every witness was outside the head-lag policy''] degraded
            | firstWitness # restWitnesses \<Rightarrow>
                let height = foldl lower_head (wo_headBlockNumber firstWitness) restWitnesses;
                    hashless = filter (\<lambda>ob. wo_hashAtHeight ob = None) notLagging;
                    withHash = filter (\<lambda>ob. wo_hashAtHeight ob \<noteq> None) notLagging;
                    refused3 = refused2 @ map (\<lambda>ob. reject ob NoHashAtHeight
                      ''the endpoint did not return a block hash at the common height'') hashless;
                    degraded2 = degraded
                      @ map (\<lambda>ob. wo_endpointId ob @ '': no hash at the common height'') hashless
                in case group_by hash_key (\<lambda>ob. ob) withHash of
                     [] \<Rightarrow> no_agreement NoCommonHeight None refused3
                             [''no witness supplied a hash at the common height''] degraded2
                   | (hash, agreeing) # others \<Rightarrow>
                       if others \<noteq> []
                       then no_agreement Disagreement (Some height) refused3
                              [''witnesses report '' @ show_int (int (Suc (length others)))
                                @ '' different hashes at height '' @ show_int height
                                @ ''; no hash is selected, because picking one would invent agreement'']
                              degraded2
                       else let independent = independentWitnesses collate agreeing;
                                result = (\<lambda>outcome reasons.
                                  \<lparr>qr_outcome = outcome, qr_height = Some height, qr_blockHash = Some hash,
                                   qr_agreeingTrustDomains = sort (map wo_trustDomain independent),
                                   qr_agreeingProviderGroups = sort (map wo_providerGroup independent),
                                   qr_agreeingEndpointIds = map wo_endpointId independent,
                                   qr_rejected = refused3, qr_reasons = reasons, qr_degraded = degraded2\<rparr>)
                       in if int (length independent) < qp_minIndependentTrustDomains policy
                          then result InsufficientWitnesses
                            [show_int (int (length agreeing)) @ '' endpoint(s) agreed but only ''
                              @ show_int (int (length independent))
                              @ '' witness(es) are independent by provider group and trust domain; policy requires ''
                              @ show_int (qp_minIndependentTrustDomains policy)
                              @ ''. Multiple URLs or identities behind one provider count as one witness.'']
                          else result Agreed [])"

record accepted_record =
  ar_blockNumber :: int
  ar_blockHash :: string

record integrity_conflict =
  ig_blockNumber :: int
  ig_recordedHash :: string
  ig_observedHash :: string
  ig_endpointId :: string
  ig_trustDomain :: string

definition assertNoIntegrityConflict ::
  "accepted_record option \<Rightarrow> int \<Rightarrow> string \<Rightarrow> string \<Rightarrow> string \<Rightarrow> integrity_conflict + unit" where
  "assertNoIntegrityConflict recorded blockNumber blockHash endpointId trustDomain =
     (case recorded of None \<Rightarrow> Inr ()
      | Some r \<Rightarrow>
          if ar_blockNumber r \<noteq> blockNumber then Inr ()
          else if toLowerCase (ar_blockHash r) = toLowerCase blockHash then Inr ()
          else Inl \<lparr>ig_blockNumber = blockNumber, ig_recordedHash = ar_blockHash r,
                    ig_observedHash = blockHash, ig_endpointId = endpointId,
                    ig_trustDomain = trustDomain\<rparr>)"

section \<open>Pinning\<close>

datatype accepted_state_evidence = ProbedAcceptedOnly | ProbedFinalityTag | Unproven

datatype block_tag = TagLatest | TagSafe | TagFinalized | TagEarliest

record tag_probe =
  tp_tag :: block_tag
  tp_supported :: bool
  tp_height :: "int option"
  tp_detail :: string

record endpoint_capability =
  ec_endpointId :: string
  ec_trustDomain :: string
  ec_probes :: "tag_probe list"
  ec_acceptedStateEvidence :: accepted_state_evidence
  ec_archiveDepth :: archive_depth
  ec_historicalStateFloor :: "int option"

datatype finality_basis = AcceptedLatest | FinalizedTag

text \<open>\<open>FinalityDecision\<close>: a refusal with its reason, or the basis and its evidence.\<close>

type_synonym finality_decision = "string + finality_basis \<times> accepted_state_evidence"

definition decideFinalityBasis :: "endpoint_capability \<Rightarrow> finality_decision" where
  "decideFinalityBasis capability =
     (if list_ex (\<lambda>p. tp_tag p = TagFinalized \<and> tp_supported p) (ec_probes capability)
         \<and> ec_acceptedStateEvidence capability = ProbedFinalityTag
      then Inr (FinalizedTag, ec_acceptedStateEvidence capability)
      else if ec_acceptedStateEvidence capability = ProbedAcceptedOnly
      then Inr (AcceptedLatest, ec_acceptedStateEvidence capability)
      else Inl (''the endpoint did not establish that it answers from accepted state, and no finality tag was proven; ''
        @ ''falling back to latest would assert a guarantee that was not shown''))"

record pinned_block_context =
  px_blockchainId :: string
  px_evmChainId :: int
  px_networkId :: int
  px_blockNumber :: int
  px_blockHash :: string
  px_basis :: finality_basis
  px_evidence :: accepted_state_evidence
  px_agreeingTrustDomains :: "string list"
  px_agreeingProviderGroups :: "string list"
  px_agreeingEndpointIds :: "string list"
  px_observedAtMs :: int
  px_expiresAtMs :: int
  px_degraded :: "string list"

record pin_input =
  pn_quorum :: quorum_result
  pn_blockchainId :: string
  pn_evmChainId :: int
  pn_networkId :: int
  pn_capability :: finality_decision
  pn_observedAtMs :: int
  pn_freshnessMs :: int

fun quorum_outcome_text :: "quorum_outcome \<Rightarrow> string" where
  "quorum_outcome_text Agreed = ''agreed''"
| "quorum_outcome_text InsufficientWitnesses = ''insufficient-witnesses''"
| "quorum_outcome_text Disagreement = ''disagreement''"
| "quorum_outcome_text NoCommonHeight = ''no-common-height''"

definition buildPinnedContext :: "pin_input \<Rightarrow> string \<times> quorum_result + pinned_block_context" where
  "buildPinnedContext input =
     (let quorum = pn_quorum input in
      if qr_outcome quorum \<noteq> Agreed
      then Inl (''witness quorum did not agree ('' @ quorum_outcome_text (qr_outcome quorum) @ '')'', quorum)
      else case (qr_height quorum, qr_blockHash quorum) of
        (Some height, Some blockHash) \<Rightarrow>
          (case pn_capability input of
             Inl reason \<Rightarrow> Inl (reason, quorum)
           | Inr (basis, evidence) \<Rightarrow>
               Inr \<lparr>px_blockchainId = toLowerCase (pn_blockchainId input),
                    px_evmChainId = pn_evmChainId input, px_networkId = pn_networkId input,
                    px_blockNumber = height, px_blockHash = toLowerCase blockHash,
                    px_basis = basis, px_evidence = evidence,
                    px_agreeingTrustDomains = qr_agreeingTrustDomains quorum,
                    px_agreeingProviderGroups = qr_agreeingProviderGroups quorum,
                    px_agreeingEndpointIds = qr_agreeingEndpointIds quorum,
                    px_observedAtMs = pn_observedAtMs input,
                    px_expiresAtMs = pn_observedAtMs input + pn_freshnessMs input,
                    px_degraded = qr_degraded quorum\<rparr>)
      | _ \<Rightarrow> Inl (''quorum reported agreement without a height and hash'', quorum))"

definition isExpired :: "pinned_block_context \<Rightarrow> int \<Rightarrow> bool" where
  "isExpired context nowMs \<longleftrightarrow> nowMs > px_expiresAtMs context"

definition guardRead :: "string \<Rightarrow> 'a \<Rightarrow> string \<Rightarrow> (string \<times> string) + 'a" where
  "guardRead before v after =
     (if toLowerCase before = toLowerCase after then Inr v else Inl (before, after))"

section \<open>What agreement means\<close>

text \<open>The observations that count: admissible, close enough to the leading head, with a hash.\<close>

definition leading_head :: "expected_identity \<Rightarrow> quorum_policy \<Rightarrow> int \<Rightarrow> witness_observation list \<Rightarrow> int" where
  "leading_head expected policy nowMs obs =
     Max (insert 0 (wo_headBlockNumber ` {ob \<in> set obs. admission expected policy nowMs ob = None}))"

definition current ::
  "expected_identity \<Rightarrow> quorum_policy \<Rightarrow> int \<Rightarrow> witness_observation list \<Rightarrow> witness_observation list" where
  "current expected policy nowMs obs =
     filter (\<lambda>ob. admission expected policy nowMs ob = None
       \<and> leading_head expected policy nowMs obs - wo_headBlockNumber ob \<le> qp_maxHeadLagBlocks policy) obs"

definition counted ::
  "expected_identity \<Rightarrow> quorum_policy \<Rightarrow> int \<Rightarrow> witness_observation list \<Rightarrow> witness_observation list" where
  "counted expected policy nowMs obs =
     filter (\<lambda>ob. wo_hashAtHeight ob \<noteq> None) (current expected policy nowMs obs)"

interpretation heads: extreme_fold "\<lambda>m::int. m" higher_head wo_headBlockNumber
  by unfold_locales (auto simp: higher_head_def)

text \<open>The same contract for the lowest head, on the reversed order.\<close>

interpretation lows: extreme_fold "\<lambda>m::int. - m" lower_head wo_headBlockNumber
  by unfold_locales (auto simp: lower_head_def)

lemma leading_head_fold:
  "foldl higher_head 0 (filter (\<lambda>ob. admission expected policy nowMs ob = None) obs)
     = leading_head expected policy nowMs obs"
  unfolding heads.result_rank leading_head_def by simp

lemma length_sort_witnesses:
  "length (independentWitnesses collate obs) = card (failure_domains wo_trustDomain wo_providerGroup (set obs))"
proof -
  let ?by_id = "sort_key (\<lambda>ob. collate (wo_endpointId ob))"
  let ?groups = "independenceGroups wo_trustDomain wo_providerGroup (sort_key (witness_sort_key collate) obs)"
  have "[] \<notin> set ?groups" using independenceGroups_domains [of wo_trustDomain wo_providerGroup] by blast
  then have "length (List.map_filter (\<lambda>g. case ?by_id g of [] \<Rightarrow> None | ob # _ \<Rightarrow> Some ob) gs) = length gs"
    if "set gs \<subseteq> set ?groups" for gs
    using that
  proof (induction gs)
    case (Cons g gs)
    then have "?by_id g \<noteq> []" by auto
    then obtain ob obs' where "?by_id g = ob # obs'" by (cases "?by_id g") auto
    with Cons show ?case by (simp add: map_filter_simps)
  qed (simp add: map_filter_simps)
  then show ?thesis by (simp add: independentWitnesses_def Let_def length_independenceGroups)
qed

lemma lowest_head:
  "foldl lower_head (wo_headBlockNumber ob) obs = Min (wo_headBlockNumber ` set (ob # obs))"
proof (rule Min_eqI [symmetric])
  fix h assume "h \<in> wo_headBlockNumber ` set (ob # obs)"
  then show "foldl lower_head (wo_headBlockNumber ob) obs \<le> h"
    using lows.start_bound [of "wo_headBlockNumber ob" obs] lows.upper_bound [of _ obs "wo_headBlockNumber ob"]
    by auto
next
  show "foldl lower_head (wo_headBlockNumber ob) obs \<in> wo_headBlockNumber ` set (ob # obs)"
    using lows.result_member [of "wo_headBlockNumber ob" obs] by auto
qed simp

text \<open>The four answers as a case distinction on the observations that count.\<close>

lemma evaluateQuorum_cases:
  fixes collate expected policy nowMs obs
  defines "cur \<equiv> current expected policy nowMs obs" and "cnt \<equiv> counted expected policy nowMs obs"
    and "q \<equiv> evaluateQuorum collate obs expected policy nowMs"
  shows "cur = [] \<Longrightarrow> qr_outcome q = InsufficientWitnesses \<and> qr_height q = None \<and> qr_blockHash q = None"
    and "cur \<noteq> [] \<Longrightarrow> cnt = [] \<Longrightarrow> qr_outcome q = NoCommonHeight \<and> qr_blockHash q = None"
    and "card (hash_key ` set cnt) > 1 \<Longrightarrow> qr_outcome q = Disagreement \<and> qr_blockHash q = None"
    and "hash_key ` set cnt = {h} \<Longrightarrow>
      qr_outcome q = (if int (card (failure_domains wo_trustDomain wo_providerGroup (set cnt)))
                         < qp_minIndependentTrustDomains policy then InsufficientWitnesses else Agreed)
      \<and> qr_blockHash q = Some h \<and> qr_height q = Some (Min (wo_headBlockNumber ` set cur))
      \<and> qr_agreeingEndpointIds q = map wo_endpointId (independentWitnesses collate cnt)"
proof -
  let ?admissible = "filter (\<lambda>ob. admission expected policy nowMs ob = None) obs"
  have cur: "filter (\<lambda>ob. \<not> foldl higher_head 0 ?admissible - wo_headBlockNumber ob > qp_maxHeadLagBlocks policy)
      ?admissible = cur"
    unfolding cur_def current_def leading_head_fold
    by (simp add: not_less)
  have cnt: "filter (\<lambda>ob. wo_hashAtHeight ob \<noteq> None) cur = cnt"
    by (simp add: cnt_def counted_def cur_def)
  have groups: "group_by hash_key (\<lambda>ob. ob) cnt
      = map (\<lambda>k. (k, filter (\<lambda>ob. hash_key ob = k) cnt)) (uniq (map hash_key cnt))"
    by (simp add: group_by_eq)
  note run = q_def evaluateQuorum_def Let_def
  have admissible: "length ?admissible \<noteq> 0" if "cur \<noteq> []"
  proof
    assume "length ?admissible = 0"
    then have "?admissible = []" by (simp only: length_0_conv)
    then have "cur = []" using cur by (simp del: filter_filter)
    with that show False by contradiction
  qed
  show "qr_outcome q = InsufficientWitnesses \<and> qr_height q = None \<and> qr_blockHash q = None" if "cur = []"
    using that cur unfolding run by (simp add: no_agreement_def)
  show "qr_outcome q = NoCommonHeight \<and> qr_blockHash q = None" if "cur \<noteq> []" "cnt = []"
  proof -
    obtain w ws where w: "cur = w # ws" using \<open>cur \<noteq> []\<close> by (cases cur) auto
    with admissible have "length ?admissible \<noteq> 0" by simp
    with w that(2) show ?thesis unfolding run cur w list.case cnt [unfolded w] groups
      by (simp add: no_agreement_def)
  qed
  have ne: "cur \<noteq> []" if "cnt \<noteq> []" using that cnt by auto
  show "qr_outcome q = Disagreement \<and> qr_blockHash q = None" if "card (hash_key ` set cnt) > 1"
  proof -
    from that have "cnt \<noteq> []" by auto
    then obtain w ws where w: "cur = w # ws" using ne by (cases cur) auto
    with admissible have "length ?admissible \<noteq> 0" by simp
    moreover have "length (group_by hash_key (\<lambda>ob. ob) cnt) > 1" using that by (simp add: length_group_by)
    then obtain g o1 os where "group_by hash_key (\<lambda>ob. ob) cnt = g # o1 # os"
      by (cases "group_by hash_key (\<lambda>ob. ob) cnt"; cases "tl (group_by hash_key (\<lambda>ob. ob) cnt)") auto
    ultimately show ?thesis unfolding run cur w list.case cnt [unfolded w]
      by (cases g) (simp add: no_agreement_def)
  qed
  assume one: "hash_key ` set cnt = {h}"
  then have "cnt \<noteq> []" by auto
  then obtain w ws where w: "cur = w # ws" using ne by (cases cur) auto
  with admissible have adm: "length ?admissible \<noteq> 0" by simp
  have "length (uniq (map hash_key cnt)) = 1" using one by (simp add: length_uniq)
  moreover have "set (uniq (map hash_key cnt)) = {h}" using one by simp
  ultimately have "uniq (map hash_key cnt) = [h]"
    by (cases "uniq (map hash_key cnt)") auto
  moreover have "filter (\<lambda>ob. hash_key ob = h) cnt = cnt" using one by (intro filter_True) auto
  ultimately have grp: "group_by hash_key (\<lambda>ob. ob) cnt = [(h, cnt)]" by (simp add: groups)
  show "qr_outcome q = (if int (card (failure_domains wo_trustDomain wo_providerGroup (set cnt)))
                         < qp_minIndependentTrustDomains policy then InsufficientWitnesses else Agreed)
      \<and> qr_blockHash q = Some h \<and> qr_height q = Some (Min (wo_headBlockNumber ` set cur))
      \<and> qr_agreeingEndpointIds q = map wo_endpointId (independentWitnesses collate cnt)"
    using adm unfolding run cur w list.case cnt [unfolded w] grp
    by (simp add: length_sort_witnesses lowest_head)
qed

text \<open>A complete case analysis of what the counted witnesses may say.\<close>

lemma hash_cases:
  obtains "cnt = []" | "card (hash_key ` set cnt) > 1" | h where "hash_key ` set cnt = {h}"
proof (cases "cnt = []")
  case False
  then have "card (hash_key ` set cnt) \<noteq> 0" by simp
  then consider "card (hash_key ` set cnt) = 1" | "card (hash_key ` set cnt) > 1" by linarith
  then show ?thesis
  proof cases
    case 1
    then obtain h where "hash_key ` set cnt = {h}" by (auto simp: card_1_singleton_iff)
    then show ?thesis by (rule that(3))
  qed (rule that(2))
qed (rule that(1))

text \<open>
  C27. Agreement is unanimity of independent witnesses. The quorum agrees exactly when all
  observations that count (right identity, fresh, close to the leading head, with a hash) report
  one hash and fall into at least the required number of failure domains; the hash and the height
  are then this hash and the lowest head, so every counted witness has seen the height. On any
  contradiction no hash is selected, never a majority.
\<close>

theorem quorum_agreed_iff:
  "(qr_outcome (evaluateQuorum collate obs expected policy nowMs) = Agreed \<longleftrightarrow>
      (\<exists>h. hash_key ` set (counted expected policy nowMs obs) = {h})
      \<and> qp_minIndependentTrustDomains policy
          \<le> int (card (failure_domains wo_trustDomain wo_providerGroup (set (counted expected policy nowMs obs)))))
   \<and> (qr_outcome (evaluateQuorum collate obs expected policy nowMs) = Disagreement \<longleftrightarrow>
        card (hash_key ` set (counted expected policy nowMs obs)) > 1)
   \<and> (\<forall>h. qr_blockHash (evaluateQuorum collate obs expected policy nowMs) = Some h \<longleftrightarrow>
        hash_key ` set (counted expected policy nowMs obs) = {h})"
proof -
  let ?q = "evaluateQuorum collate obs expected policy nowMs"
  let ?cnt = "counted expected policy nowMs obs" and ?cur = "current expected policy nowMs obs"
  note cases = evaluateQuorum_cases [where collate = collate and expected = expected and policy = policy
      and nowMs = nowMs and obs = obs]
  consider "?cnt = []" | "card (hash_key ` set ?cnt) > 1" | h where "hash_key ` set ?cnt = {h}"
    by (rule hash_cases)
  then show ?thesis
  proof cases
    case 1
    then have "qr_outcome ?q \<in> {InsufficientWitnesses, NoCommonHeight}" "qr_blockHash ?q = None"
      using cases(1,2) by (cases "?cur = []"; simp)+
    with 1 show ?thesis by auto
  next
    case 2
    then have "\<nexists>h. hash_key ` set ?cnt = {h}" by auto
    with 2 cases(3) show ?thesis by auto
  next
    case (3 h)
    then have "\<not> card (hash_key ` set ?cnt) > 1" by simp
    with 3 cases(4) [OF 3] show ?thesis by (auto split: if_splits)
  qed
qed

text \<open>
  What an agreement is worth. Every counted witness then names the expected chain (both
  identities, and the genesis anchor when one is configured), is inside the freshness window, has
  a head at or above the agreed height and reports the agreed hash at it; and neither many URLs
  nor many names help: there are at least the required number of distinct trust domains and of
  distinct provider groups among them.
\<close>

theorem quorum_agreement_sound:
  assumes "q = evaluateQuorum collate obs expected policy nowMs" and "qr_outcome q = Agreed"
    and "cnt = counted expected policy nowMs obs"
  shows "\<exists>height h. qr_height q = Some height \<and> qr_blockHash q = Some h \<and> cnt \<noteq> []
     \<and> (\<forall>ob \<in> set cnt. lower (wo_blockchainId ob) = Some (toLowerCase (ei_blockchainId expected))
          \<and> wo_evmChainId ob = Some (ei_evmChainId expected) \<and> wo_networkId ob = Some (ei_networkId expected)
          \<and> (ei_genesisHash expected \<noteq> None \<longrightarrow> lower (wo_genesisHash ob) = lower (ei_genesisHash expected))
          \<and> nowMs - wo_observedAtMs ob \<le> qp_maxObservationAgeMs policy
          \<and> height \<le> wo_headBlockNumber ob \<and> lower (wo_hashAtHeight ob) = Some h)
     \<and> qp_minIndependentTrustDomains policy \<le> int (card (wo_trustDomain ` set cnt))
     \<and> qp_minIndependentTrustDomains policy \<le> int (card (wo_providerGroup ` set cnt))"
proof -
  note cases = evaluateQuorum_cases [where collate = collate and expected = expected and policy = policy
      and nowMs = nowMs and obs = obs, folded assms(1,3)]
  have ne: "cnt \<noteq> []" using cases(1,2) assms(2) by (cases "current expected policy nowMs obs = []") auto
  obtain h where h: "hash_key ` set cnt = {h}"
    using cases(3) assms(2) ne hash_cases [of cnt] by (metis quorum_outcome.distinct(3))
  let ?height = "Min (wo_headBlockNumber ` set (current expected policy nowMs obs))"
  have min: "qp_minIndependentTrustDomains policy
      \<le> int (card (failure_domains wo_trustDomain wo_providerGroup (set cnt)))"
    using cases(4) [OF h] assms(2) by (simp split: if_splits)
  have "card (failure_domains wo_trustDomain wo_providerGroup (set cnt)) \<le> card (wo_trustDomain ` set cnt)"
    "card (failure_domains wo_trustDomain wo_providerGroup (set cnt)) \<le> card (wo_providerGroup ` set cnt)"
    unfolding length_independenceGroups [symmetric] by (rule independenceGroups_count)+
  with min have counts: "qp_minIndependentTrustDomains policy \<le> int (card (wo_trustDomain ` set cnt))"
    "qp_minIndependentTrustDomains policy \<le> int (card (wo_providerGroup ` set cnt))" by linarith+
  have each: "lower (wo_blockchainId ob) = Some (toLowerCase (ei_blockchainId expected))
          \<and> wo_evmChainId ob = Some (ei_evmChainId expected) \<and> wo_networkId ob = Some (ei_networkId expected)
          \<and> (ei_genesisHash expected \<noteq> None \<longrightarrow> lower (wo_genesisHash ob) = lower (ei_genesisHash expected))
          \<and> nowMs - wo_observedAtMs ob \<le> qp_maxObservationAgeMs policy
          \<and> ?height \<le> wo_headBlockNumber ob \<and> lower (wo_hashAtHeight ob) = Some h"
    if ob: "ob \<in> set cnt" for ob
  proof -
    have cur: "ob \<in> set (current expected policy nowMs obs)" and hash: "wo_hashAtHeight ob \<noteq> None"
      using ob by (auto simp: assms(3) counted_def)
    then have adm: "admission expected policy nowMs ob = None" by (simp add: current_def)
    have "?height \<le> wo_headBlockNumber ob" using cur by (intro Min_le) auto
    moreover have "hash_key ob = h" using h ob by blast
    ultimately show ?thesis using adm hash
      by (auto simp: admission_def hash_key_def lower_def split: if_splits)
  qed
  have "qr_height q = Some ?height" "qr_blockHash q = Some h" using cases(4) [OF h] by simp_all
  with ne each counts show ?thesis by blast
qed

definition example_witness :: "string \<Rightarrow> string \<Rightarrow> int \<Rightarrow> string \<Rightarrow> witness_observation" where
  "example_witness i domain head h =
     \<lparr>wo_endpointId = i, wo_trustDomain = domain, wo_providerGroup = i, wo_blockchainId = Some ''c'',
      wo_genesisHash = None, wo_evmChainId = Some 1, wo_networkId = Some 1, wo_headBlockNumber = head,
      wo_hashAtHeight = Some h, wo_observedAtMs = 0, wo_archiveDepth = ArchiveFull\<rparr>"

definition example_identity :: expected_identity where
  "example_identity = \<lparr>ei_blockchainId = ''c'', ei_genesisHash = None, ei_evmChainId = 1, ei_networkId = 1\<rparr>"

definition example_policy :: "int \<Rightarrow> quorum_policy" where
  "example_policy n = \<lparr>qp_minIndependentTrustDomains = n, qp_maxHeadLagBlocks = 5, qp_maxObservationAgeMs = 10\<rparr>"

abbreviation example_observations :: "string \<Rightarrow> string \<Rightarrow> witness_observation list" where
  "example_observations d h \<equiv> [example_witness ''1'' ''a'' 7 ''h'', example_witness ''2'' d 9 h]"

lemma example_counted:
  "counted example_identity (example_policy n) 0 (example_observations d h) = example_observations d h"
proof -
  have adm: "admission example_identity (example_policy n) 0 (example_witness i d hd h) = None" for i d hd h
    by (simp add: admission_def example_identity_def example_policy_def example_witness_def lower_def)
  have "leading_head example_identity (example_policy n) 0 (example_observations d h) = 9"
    unfolding leading_head_fold [symmetric] by (simp add: adm) (simp add: higher_head_def example_witness_def)
  then show ?thesis
    by (simp add: counted_def current_def adm) (simp add: example_witness_def example_policy_def)
qed

lemma example_hashes:
  "hash_key ` set (example_observations d ''h'') = {''h''}"
  by (simp add: hash_key_def example_witness_def) (simp add: toLowerCase_def lower_char_def)

lemma example_agreed:
  "qr_outcome (evaluateQuorum (\<lambda>s. s) (example_observations ''b'' ''h'') example_identity (example_policy 2) 0) = Agreed"
proof -
  let ?ws = "example_observations ''b'' ''h''"
  have "length (independenceGroups wo_trustDomain wo_providerGroup ?ws) = 2"
    by (simp add: independenceGroups_def independence_step_def Let_def example_witness_def)
  then have "int (card (failure_domains wo_trustDomain wo_providerGroup (set ?ws))) = 2"
    by (simp only: length_independenceGroups)
  then show ?thesis
    using evaluateQuorum_cases(4) [where collate = "\<lambda>s. s" and expected = example_identity
      and policy = "example_policy 2" and nowMs = 0 and obs = ?ws and h = "''h''"]
    unfolding example_counted by (simp add: example_hashes [simplified] example_policy_def)
qed

theorem quorum_agreement_sound_witness:
  "2 \<le> card (wo_trustDomain ` set (counted example_identity (example_policy 2) 0 (example_observations ''b'' ''h'')))"
proof -
  have "qp_minIndependentTrustDomains (example_policy 2)
      \<le> int (card (wo_trustDomain ` set (counted example_identity (example_policy 2) 0
            (example_observations ''b'' ''h''))))"
    using quorum_agreement_sound [OF refl example_agreed refl] by blast
  moreover have "qp_minIndependentTrustDomains (example_policy 2) = 2" by (simp add: example_policy_def)
  ultimately show ?thesis by linarith
qed

text \<open>Two names in one trust domain are one witness.\<close>

theorem quorum_agreed_iff_witness:
  "qr_outcome (evaluateQuorum (\<lambda>s. s) (example_observations ''a'' ''h'') example_identity (example_policy 2) 0) \<noteq> Agreed"
proof -
  let ?ws = "example_observations ''a'' ''h''"
  have "length (independenceGroups wo_trustDomain wo_providerGroup ?ws) = 1"
    by (simp add: independenceGroups_def independence_step_def Let_def example_witness_def)
  then have "card (failure_domains wo_trustDomain wo_providerGroup (set ?ws)) = 1"
    by (simp only: length_independenceGroups)
  then show ?thesis
    unfolding quorum_agreed_iff [THEN conjunct1] example_counted by (simp add: example_policy_def)
qed

text \<open>
  Nothing is pinned without agreement and established finality: a context exists exactly
  when the quorum agreed on a height and hash and the endpoints' finality was decided, and it
  then carries that very height and hash (in lower case) and expires after the freshness window.
\<close>

theorem buildPinnedContext_iff:
  "(\<exists>context. buildPinnedContext input = Inr context) \<longleftrightarrow>
     qr_outcome (pn_quorum input) = Agreed \<and> qr_height (pn_quorum input) \<noteq> None
     \<and> qr_blockHash (pn_quorum input) \<noteq> None \<and> is_ok (pn_capability input)"
  by (auto simp: buildPinnedContext_def Let_def is_ok_iff split: option.splits sum.splits prod.splits)

end
