(* ===== verification/Plan.thy ===== *)
theory Plan
  imports Lattice
begin

text \<open>
  packages/replay/src: reasons.ts (the typed data-quality reasons), plan.ts (range planning,
  splitting and the step after a failed attempt), the gap search of range.ts, hints.ts (the hint
  queue and the reordering of planned work) and completeness.ts (when a replay may be called
  complete). A block height is an \<open>int\<close>, a \<open>Date\<close> its milliseconds. The loop of
  \<open>planRanges\<close> and the halving of \<open>splitRange\<close> are the two places where an off-by-one would
  let a height fall between two chunks.
\<close>

section \<open>Reasons (reasons.ts)\<close>

datatype replay_reason =
  SILENT_TRUNCATION | MISSING_BLOCK | MISSING_LOG | PRUNED_HISTORY | EMPTY_RESPONSE_AMBIGUITY
| PROVIDER_DIVERGENCE | INSUFFICIENT_WITNESSES | RETRY_BUDGET_EXHAUSTED | RANGE_INDIVISIBLE
| STALE_COLLECTION | ARCHIVE_FALLBACK_UNAVAILABLE | REMOTE_HISTORY_UNAVAILABLE
| NONCANONICAL_BLOCK_REJECTED

primrec replay_reason_text :: "replay_reason \<Rightarrow> string" where
  "replay_reason_text SILENT_TRUNCATION = ''SILENT_TRUNCATION''"
| "replay_reason_text MISSING_BLOCK = ''MISSING_BLOCK''"
| "replay_reason_text MISSING_LOG = ''MISSING_LOG''"
| "replay_reason_text PRUNED_HISTORY = ''PRUNED_HISTORY''"
| "replay_reason_text EMPTY_RESPONSE_AMBIGUITY = ''EMPTY_RESPONSE_AMBIGUITY''"
| "replay_reason_text PROVIDER_DIVERGENCE = ''PROVIDER_DIVERGENCE''"
| "replay_reason_text INSUFFICIENT_WITNESSES = ''INSUFFICIENT_WITNESSES''"
| "replay_reason_text RETRY_BUDGET_EXHAUSTED = ''RETRY_BUDGET_EXHAUSTED''"
| "replay_reason_text RANGE_INDIVISIBLE = ''RANGE_INDIVISIBLE''"
| "replay_reason_text STALE_COLLECTION = ''STALE_COLLECTION''"
| "replay_reason_text ARCHIVE_FALLBACK_UNAVAILABLE = ''ARCHIVE_FALLBACK_UNAVAILABLE''"
| "replay_reason_text REMOTE_HISTORY_UNAVAILABLE = ''REMOTE_HISTORY_UNAVAILABLE''"
| "replay_reason_text NONCANONICAL_BLOCK_REJECTED = ''NONCANONICAL_BLOCK_REJECTED''"

record reason_metadata =
  rm_summary :: string
  rm_runbook :: string
  rm_retryable :: bool

primrec REASON_METADATA :: "replay_reason \<Rightarrow> reason_metadata" where
  "REASON_METADATA SILENT_TRUNCATION =
     \<lparr>rm_summary = ''Provider returned a short answer without signalling a limit'',
      rm_runbook = ''docs/RUNBOOK.md#replay-silent-truncation'', rm_retryable = True\<rparr>"
| "REASON_METADATA MISSING_BLOCK =
     \<lparr>rm_summary = ''A height inside the planned range returned no block'',
      rm_runbook = ''docs/RUNBOOK.md#replay-missing-block'', rm_retryable = True\<rparr>"
| "REASON_METADATA MISSING_LOG =
     \<lparr>rm_summary = ''Log index sequence has a hole inside a block'',
      rm_runbook = ''docs/RUNBOOK.md#replay-missing-log'', rm_retryable = True\<rparr>"
| "REASON_METADATA PRUNED_HISTORY =
     \<lparr>rm_summary = ''Endpoint cannot serve this depth; history is pruned'',
      rm_runbook = ''docs/RUNBOOK.md#replay-pruned-history'', rm_retryable = False\<rparr>"
| "REASON_METADATA EMPTY_RESPONSE_AMBIGUITY =
     \<lparr>rm_summary = ''Empty result is indistinguishable from unserved range'',
      rm_runbook = ''docs/RUNBOOK.md#replay-empty-ambiguity'', rm_retryable = True\<rparr>"
| "REASON_METADATA PROVIDER_DIVERGENCE =
     \<lparr>rm_summary = ''Independent provider groups disagree on range content'',
      rm_runbook = ''docs/RUNBOOK.md#replay-divergence'', rm_retryable = False\<rparr>"
| "REASON_METADATA INSUFFICIENT_WITNESSES =
     \<lparr>rm_summary = ''Fewer independent provider groups than the policy requires'',
      rm_runbook = ''docs/RUNBOOK.md#replay-insufficient-witnesses'', rm_retryable = False\<rparr>"
| "REASON_METADATA RETRY_BUDGET_EXHAUSTED =
     \<lparr>rm_summary = ''Range retry budget spent without a usable answer'',
      rm_runbook = ''docs/RUNBOOK.md#replay-retry-budget'', rm_retryable = False\<rparr>"
| "REASON_METADATA RANGE_INDIVISIBLE =
     \<lparr>rm_summary = ''A single-block range still failed; splitting cannot help'',
      rm_runbook = ''docs/RUNBOOK.md#replay-indivisible'', rm_retryable = False\<rparr>"
| "REASON_METADATA STALE_COLLECTION =
     \<lparr>rm_summary = ''Newest successful collection is past its freshness TTL'',
      rm_runbook = ''docs/RUNBOOK.md#replay-stale'', rm_retryable = True\<rparr>"
| "REASON_METADATA ARCHIVE_FALLBACK_UNAVAILABLE =
     \<lparr>rm_summary = ''No independent archive witness is declared in policy'',
      rm_runbook = ''docs/RUNBOOK.md#replay-archive-fallback'', rm_retryable = False\<rparr>"
| "REASON_METADATA REMOTE_HISTORY_UNAVAILABLE =
     \<lparr>rm_summary = ''Registered remote has no reachable start block or history'',
      rm_runbook = ''docs/RUNBOOK.md#replay-remote-history'', rm_retryable = False\<rparr>"
| "REASON_METADATA NONCANONICAL_BLOCK_REJECTED =
     \<lparr>rm_summary = ''Provider returned a candidate block on the canonical truth path'',
      rm_runbook = ''docs/RUNBOOK.md#replay-noncanonical-block'', rm_retryable = False\<rparr>"

definition isRetryable :: "replay_reason \<Rightarrow> bool" where
  "isRetryable reason = rm_retryable (REASON_METADATA reason)"

section \<open>Planning and splitting (plan.ts)\<close>

record block_range =
  fromBlock :: int
  toBlock :: int

record plan_input =
  pi_startBlock :: int
  pi_agreedHead :: int
  pi_maxRangeBlocks :: int
  pi_retryBudget :: int

definition spanOf :: "block_range \<Rightarrow> int" where
  "spanOf r = toBlock r - fromBlock r + 1"

text \<open>The loop of \<open>planRanges\<close>; a width below one never reaches it.\<close>

function plan_loop :: "int \<Rightarrow> int \<Rightarrow> int \<Rightarrow> block_range list" where
  "plan_loop width agreedHead start =
     (if width < 1 \<or> start > agreedHead then []
      else let to = start + width - 1
           in \<lparr>fromBlock = start, toBlock = (if to > agreedHead then agreedHead else to)\<rparr>
              # plan_loop width agreedHead (start + width))"
  by pat_completeness auto
termination by (relation "measure (\<lambda>(w, h, s). nat (h - s + 1))") auto

declare plan_loop.simps [simp del]

definition planRanges :: "plan_input \<Rightarrow> string + block_range list" where
  "planRanges input =
     (if pi_maxRangeBlocks input < 1 then Inl ''maxRangeBlocks must be at least 1''
      else if pi_agreedHead input < pi_startBlock input then Inr []
      else Inr (plan_loop (pi_maxRangeBlocks input) (pi_agreedHead input) (pi_startBlock input)))"

definition splitRange :: "block_range \<Rightarrow> (block_range \<times> block_range) option" where
  "splitRange r =
     (let span = spanOf r
      in if span \<le> 1 then None
         else let half = span div 2
              in Some (\<lparr>fromBlock = fromBlock r, toBlock = fromBlock r + half - 1\<rparr>,
                       \<lparr>fromBlock = fromBlock r + half, toBlock = toBlock r\<rparr>))"

record attempt_state =
  at_range :: block_range
  at_attempts :: int
  at_retryBudget :: int

datatype next_step =
  Retry block_range int
| Split block_range block_range
| GiveUp replay_reason

definition nextStep :: "attempt_state \<Rightarrow> replay_reason \<Rightarrow> next_step" where
  "nextStep st reason =
     (if \<not> isRetryable reason then GiveUp reason
      else if at_attempts st + 1 < at_retryBudget st then Retry (at_range st) (at_attempts st + 1)
      else case splitRange (at_range st) of
             Some (left, right) \<Rightarrow> Split left right
           | None \<Rightarrow> GiveUp (if spanOf (at_range st) = 1 then RANGE_INDIVISIBLE
                             else RETRY_BUDGET_EXHAUSTED))"

section \<open>Gaps (range.ts)\<close>

definition gap_step :: "int \<times> block_range list \<Rightarrow> block_range \<Rightarrow> int \<times> block_range list" where
  "gap_step = (\<lambda>(cursor, gaps) r.
     (if toBlock r \<ge> cursor then toBlock r + 1 else cursor,
      if fromBlock r > cursor then gaps @ [\<lparr>fromBlock = cursor, toBlock = fromBlock r - 1\<rparr>] else gaps))"

definition findRangeGaps :: "block_range list \<Rightarrow> block_range \<Rightarrow> block_range list" where
  "findRangeGaps covered window =
     (let (cursor, gaps) = foldl gap_step (fromBlock window, []) (sort_key fromBlock covered)
      in if cursor \<le> toBlock window then gaps @ [\<lparr>fromBlock = cursor, toBlock = toBlock window\<rparr>]
         else gaps)"

section \<open>Hints (hints.ts)\<close>

datatype hint_source = Webhook | MetricsApi | DataApi

primrec hint_source_text :: "hint_source \<Rightarrow> string" where
  "hint_source_text Webhook = ''webhook''"
| "hint_source_text MetricsApi = ''metrics-api''"
| "hint_source_text DataApi = ''data-api''"

record priority_hint =
  ph_hintId :: string
  ph_deploymentId :: string
  ph_chainKey :: string
  ph_suggestedBlockNumber :: int
  ph_source :: hint_source
  ph_dedupKey :: string
  ph_receivedAt :: int

datatype hint_admission = HintAccepted priority_hint | HintDuplicate string | HintQueueFull

text \<open>The digest function is a parameter: SHA-256 in hexadecimal.\<close>

definition hintId :: "(string \<Rightarrow> string) \<Rightarrow> hint_source \<Rightarrow> string \<Rightarrow> string" where
  "hintId sha source dedupKey = sha (hint_source_text source @ ''|'' @ dedupKey)"

definition admitHint :: "priority_hint \<Rightarrow> string set \<Rightarrow> int \<Rightarrow> int \<Rightarrow> hint_admission" where
  "admitHint hint existingDedupKeys depth maxDepth =
     (if ph_dedupKey hint \<in> existingDedupKeys then HintDuplicate (ph_dedupKey hint)
      else if depth \<ge> maxDepth then HintQueueFull
      else HintAccepted hint)"

definition hint_score :: "int list \<Rightarrow> block_range \<Rightarrow> int" where
  "hint_score hinted r = (if list_ex (\<lambda>h. fromBlock r \<le> h \<and> h \<le> toBlock r) hinted then 0 else 1)"

definition prioritise :: "block_range list \<Rightarrow> priority_hint list \<Rightarrow> block_range list" where
  "prioritise planned hints =
     (let hinted = uniq (map ph_suggestedBlockNumber hints)
      in sort_key (\<lambda>r. (hint_score hinted r, fromBlock r)) planned)"

section \<open>Completeness (completeness.ts)\<close>

datatype replay_status = RPending | RComplete | RGap | RStale | RDivergent | RBlocked

record completeness_input =
  cm_window :: block_range
  cm_committed :: "block_range list"
  cm_lastSuccessAt :: "int option"
  cm_freshnessTtlMs :: int
  cm_openReasons :: "replay_reason list"
  cm_now :: int

record completeness_result =
  cr_status :: replay_status
  cr_verdict :: verdict
  cr_gaps :: "block_range list"
  cr_reasons :: "replay_reason list"
  cr_ageMs :: "int option"

definition BLOCKING_REASONS :: "replay_reason list" where
  "BLOCKING_REASONS =
     [PRUNED_HISTORY, RETRY_BUDGET_EXHAUSTED, RANGE_INDIVISIBLE, ARCHIVE_FALLBACK_UNAVAILABLE,
      REMOTE_HISTORY_UNAVAILABLE, NONCANONICAL_BLOCK_REJECTED, INSUFFICIENT_WITNESSES]"

definition assessCompleteness :: "completeness_input \<Rightarrow> completeness_result" where
  "assessCompleteness input =
     (let gaps = findRangeGaps (cm_committed input) (cm_window input);
          ageMs = map_option (\<lambda>t. cm_now input - t) (cm_lastSuccessAt input);
          answer = (\<lambda>status v reasons. \<lparr>cr_status = status, cr_verdict = v, cr_gaps = gaps,
                      cr_reasons = reasons, cr_ageMs = ageMs\<rparr>)
      in if PROVIDER_DIVERGENCE \<in> set (cm_openReasons input)
         then answer RDivergent UNKNOWN (cm_openReasons input)
         else if list_ex (\<lambda>r. r \<in> set BLOCKING_REASONS) (cm_openReasons input)
         then answer RBlocked UNKNOWN (cm_openReasons input)
         else if gaps \<noteq> [] then answer RGap UNKNOWN (cm_openReasons input)
         else case ageMs of
                None \<Rightarrow> answer RPending UNKNOWN (cm_openReasons input)
              | Some age \<Rightarrow>
                  if age > cm_freshnessTtlMs input
                  then answer RStale UNKNOWN (cm_openReasons input @ [STALE_COLLECTION])
                  else answer RComplete OK (cm_openReasons input))"

definition isGapClosed :: "block_range \<Rightarrow> block_range list \<Rightarrow> bool" where
  "isGapClosed gap committed \<longleftrightarrow> findRangeGaps committed gap = []"

section \<open>Plans cover the window\<close>

definition heights :: "block_range \<Rightarrow> int set" where
  "heights r = {fromBlock r..toBlock r}"

definition well_formed :: "block_range \<Rightarrow> bool" where
  "well_formed r \<longleftrightarrow> fromBlock r \<le> toBlock r"

lemma in_heights [simp]: "h \<in> heights r \<longleftrightarrow> fromBlock r \<le> h \<and> h \<le> toBlock r"
  by (simp add: heights_def)

text \<open>The heights a list of ranges visits, in the order of the visit.\<close>

definition visited :: "block_range list \<Rightarrow> int list" where
  "visited rs = concat (map (\<lambda>r. [fromBlock r..toBlock r]) rs)"

lemma visited_simps [simp]:
  "visited [] = []" "visited (r # rs) = [fromBlock r..toBlock r] @ visited rs"
  "visited (rs @ ss) = visited rs @ visited ss"
  by (simp_all add: visited_def)

lemma set_visited: "set (visited rs) = (\<Union>r \<in> set rs. heights r)"
  by (induction rs) (auto simp: heights_def)

lemma visited_plan_loop: "1 \<le> width \<Longrightarrow> visited (plan_loop width head start) = [start..head]"
proof (induction width head start rule: plan_loop.induct)
  case (1 width head start)
  show ?case
  proof (cases "start > head")
    case False
    let ?last = "if start + width - 1 > head then head else start + width - 1"
    have "visited (plan_loop width head start)
        = [start..?last] @ visited (plan_loop width head (start + width))"
      using 1(2) False by (subst plan_loop.simps) (simp add: Let_def)
    also have "visited (plan_loop width head (start + width)) = [start + width..head]"
      using 1(2) False by (intro 1(1)) auto
    also have "[start..?last] @ [start + width..head] = [start..head]"
    proof (cases "start + width - 1 > head")
      case False
      then have "[start..head] = [start..start + width - 1] @ [start + width - 1 + 1..head]"
        using 1(2) by (intro upto_split2) auto
      then show ?thesis using False by simp
    qed (use 1(2) in simp)
    finally show ?thesis .
  qed (simp add: plan_loop.simps)
qed

lemma plan_loop_bounds:
  "1 \<le> width \<Longrightarrow> r \<in> set (plan_loop width head start) \<Longrightarrow>
     well_formed r \<and> spanOf r \<le> width \<and> start \<le> fromBlock r \<and> toBlock r \<le> head"
proof (induction width head start rule: plan_loop.induct)
  case (1 width head start)
  have "plan_loop width head start \<noteq> []" using 1(3) by auto
  then have le: "\<not> start > head" using plan_loop.simps [of width head start] by (auto split: if_splits)
  let ?to = "start + width - 1"
  have "plan_loop width head start =
      \<lparr>fromBlock = start, toBlock = (if ?to > head then head else ?to)\<rparr>
      # plan_loop width head (start + width)"
    using 1(2) le by (subst plan_loop.simps) (simp add: Let_def)
  then consider "r = \<lparr>fromBlock = start, toBlock = (if ?to > head then head else ?to)\<rparr>"
    | "r \<in> set (plan_loop width head (start + width))" using 1(3) by auto
  then show ?case
  proof cases
    case 1
    with \<open>1 \<le> width\<close> le show ?thesis by (simp add: well_formed_def spanOf_def)
  next
    case 2
    have "\<not> (width < 1 \<or> head < start)" using \<open>1 \<le> width\<close> le by simp
    from 1(1) [OF this refl \<open>1 \<le> width\<close> 2]
    have "well_formed r \<and> spanOf r \<le> width \<and> start + width \<le> fromBlock r \<and> toBlock r \<le> head" .
    with \<open>1 \<le> width\<close> show ?thesis by auto
  qed
qed

lemma planRanges_visited:
  "planRanges input = Inr rs \<Longrightarrow> visited rs = [pi_startBlock input..pi_agreedHead input]"
  by (auto simp: planRanges_def visited_plan_loop split: if_splits)

lemma planRanges_member:
  "planRanges input = Inr rs \<Longrightarrow> r \<in> set rs \<Longrightarrow>
     well_formed r \<and> spanOf r \<le> pi_maxRangeBlocks input
     \<and> pi_startBlock input \<le> fromBlock r \<and> toBlock r \<le> pi_agreedHead input"
  using plan_loop_bounds [of "pi_maxRangeBlocks input" r "pi_agreedHead input" "pi_startBlock input"]
  by (auto simp: planRanges_def split: if_splits)

lemma planRanges_defined: "is_ok (planRanges input) \<longleftrightarrow> 1 \<le> pi_maxRangeBlocks input"
  by (auto simp: planRanges_def)

text \<open>
  A plan tiles its window. For every chunk width of at least one block the planned ranges,
  walked in order, visit exactly the heights from the start block to the agreed head, each once
  and in ascending order, and no range is empty or wider than the endpoint serves; a width below
  one is the only error.
\<close>

theorem planRanges_tiles:
  "case planRanges input of
     Inl e \<Rightarrow> pi_maxRangeBlocks input < 1
   | Inr rs \<Rightarrow> visited rs = [pi_startBlock input..pi_agreedHead input]
       \<and> list_all (\<lambda>r. 1 \<le> spanOf r \<and> spanOf r \<le> pi_maxRangeBlocks input) rs"
proof (cases "planRanges input")
  case (Inl e)
  then show ?thesis using planRanges_defined [of input] by simp
next
  case (Inr rs)
  with planRanges_member [of input rs] show ?thesis
    by (auto simp: planRanges_visited list_all_iff well_formed_def spanOf_def)
qed

section \<open>A failed attempt makes the work smaller or stops\<close>

lemma splitRange_None: "splitRange r = None \<longleftrightarrow> spanOf r \<le> 1"
  by (simp add: splitRange_def Let_def)

lemma splitRange_visited:
  assumes "splitRange r = Some (left, right)"
  shows "visited [left, right] = visited [r]" and "well_formed left" and "well_formed right"
    and "spanOf left + spanOf right = spanOf r" and "0 < spanOf left" and "0 < spanOf right"
    and "fromBlock left = fromBlock r" and "toBlock right = toBlock r"
    and "fromBlock right = toBlock left + 1"
proof -
  let ?half = "spanOf r div 2"
  have span: "1 < spanOf r" and l: "left = \<lparr>fromBlock = fromBlock r, toBlock = fromBlock r + ?half - 1\<rparr>"
    and r: "right = \<lparr>fromBlock = fromBlock r + ?half, toBlock = toBlock r\<rparr>"
    using assms by (auto simp: splitRange_def Let_def split: if_splits)
  have half: "1 \<le> ?half" "?half < spanOf r" using span by auto
  then have "[fromBlock r..toBlock r]
      = [fromBlock r..fromBlock r + ?half - 1] @ [fromBlock r + ?half - 1 + 1..toBlock r]"
    by (intro upto_split2) (auto simp: spanOf_def)
  then show "visited [left, right] = visited [r]" by (simp add: l r)
  show "well_formed left" "well_formed right" "spanOf left + spanOf right = spanOf r"
    "0 < spanOf left" "0 < spanOf right" "fromBlock left = fromBlock r" "toBlock right = toBlock r"
    "fromBlock right = toBlock left + 1"
    using half by (auto simp: l r well_formed_def spanOf_def)
qed

text \<open>
  After a failed attempt there is no retrying forever. A structural reason stops at once with
  that reason; a retryable one is retried on the same range only below the budget, and otherwise
  splits the range into two non-empty halves that visit the same heights in the same order, each
  strictly narrower; a single block that still fails stops as RANGE_INDIVISIBLE.
\<close>

theorem nextStep_progress:
  "case nextStep st reason of
     Retry r n \<Rightarrow> isRetryable reason \<and> r = at_range st \<and> n = at_attempts st + 1 \<and> n < at_retryBudget st
   | Split left right \<Rightarrow> isRetryable reason \<and> at_retryBudget st \<le> at_attempts st + 1
       \<and> visited [left, right] = visited [at_range st]
       \<and> 0 < spanOf left \<and> spanOf left < spanOf (at_range st)
       \<and> 0 < spanOf right \<and> spanOf right < spanOf (at_range st)
   | GiveUp r \<Rightarrow> (if isRetryable reason
       then at_retryBudget st \<le> at_attempts st + 1 \<and> spanOf (at_range st) \<le> 1
            \<and> r = (if spanOf (at_range st) = 1 then RANGE_INDIVISIBLE else RETRY_BUDGET_EXHAUSTED)
       else r = reason)"
proof (cases "splitRange (at_range st)")
  case None
  then show ?thesis using splitRange_None [of "at_range st"] by (auto simp: nextStep_def)
next
  case (Some lr)
  then obtain left right where lr: "splitRange (at_range st) = Some (left, right)" by (cases lr) auto
  note facts = splitRange_visited [OF lr]
  from facts(4-6) have narrower: "spanOf left < spanOf (at_range st)" "spanOf right < spanOf (at_range st)"
    by linarith+
  show ?thesis using facts narrower by (simp add: nextStep_def lr del: visited_simps)
qed

section \<open>The gap search is exact\<close>

definition covers :: "block_range list \<Rightarrow> int \<Rightarrow> bool" where
  "covers rs h \<longleftrightarrow> (\<exists>r \<in> set rs. h \<in> heights r)"

lemma gap_split:
  fixes h f t c0 :: int
  assumes "h < f \<Longrightarrow> \<not> R"
  shows "(c0 \<le> h \<and> h < f) \<or> ((if t \<ge> c0 then t + 1 else c0) \<le> h \<and> \<not> R \<and> P)
     \<longleftrightarrow> c0 \<le> h \<and> \<not> (f \<le> h \<and> h \<le> t \<or> R) \<and> (h < f \<or> P)"
proof -
  have "(if t \<ge> c0 then t + 1 else c0) \<le> h \<longleftrightarrow> c0 \<le> h \<and> t < h" by auto
  with assms show ?thesis by (cases "h < f") auto
qed

lemma gap_fold:
  assumes "sorted (map fromBlock rs)" and "foldl gap_step (c0, gs0) rs = (c, gs)"
  shows "c0 \<le> c \<and> (\<forall>r \<in> set rs. toBlock r < c) \<and> (c = c0 \<or> (\<exists>r \<in> set rs. c = toBlock r + 1))
     \<and> (\<forall>h. covers gs h \<longleftrightarrow> covers gs0 h
           \<or> c0 \<le> h \<and> \<not> covers rs h \<and> (\<exists>r \<in> set rs. h < fromBlock r))
     \<and> (\<forall>g \<in> set gs. g \<in> set gs0 \<or> well_formed g)"
  using assms
proof (induction rs arbitrary: c0 gs0)
  case (Cons r rs)
  let ?c1 = "if toBlock r \<ge> c0 then toBlock r + 1 else c0"
  let ?gs1 = "if fromBlock r > c0 then gs0 @ [\<lparr>fromBlock = c0, toBlock = fromBlock r - 1\<rparr>] else gs0"
  have sorted: "\<forall>r' \<in> set rs. fromBlock r \<le> fromBlock r'" "sorted (map fromBlock rs)"
    using Cons.prems(1) by auto
  have "foldl gap_step (?c1, ?gs1) rs = (c, gs)"
    using Cons.prems(2) by (simp add: gap_step_def)
  note IH = Cons.IH [OF sorted(2) this]
  have c1: "c0 \<le> ?c1" "toBlock r < ?c1" "?c1 = c0 \<or> ?c1 = toBlock r + 1" by auto
  have gs1: "covers ?gs1 h \<longleftrightarrow> covers gs0 h \<or> c0 \<le> h \<and> h < fromBlock r" for h
    by (auto simp: covers_def)
  have low: "\<not> covers rs h" if "h < fromBlock r" for h
    using sorted(1) that by (fastforce simp: covers_def)
  have "covers gs h \<longleftrightarrow> covers gs0 h
      \<or> c0 \<le> h \<and> \<not> covers (r # rs) h \<and> (\<exists>r' \<in> set (r # rs). h < fromBlock r')" for h
  proof -
    have "covers gs h \<longleftrightarrow> covers gs0 h \<or> ((c0 \<le> h \<and> h < fromBlock r)
        \<or> (?c1 \<le> h \<and> \<not> covers rs h \<and> (\<exists>r' \<in> set rs. h < fromBlock r')))"
      using IH gs1 [of h] by blast
    also have "\<dots> \<longleftrightarrow> covers gs0 h \<or> c0 \<le> h
        \<and> \<not> (fromBlock r \<le> h \<and> h \<le> toBlock r \<or> covers rs h)
        \<and> (h < fromBlock r \<or> (\<exists>r' \<in> set rs. h < fromBlock r'))"
      by (simp only: gap_split [OF low])
    also have "(fromBlock r \<le> h \<and> h \<le> toBlock r \<or> covers rs h) \<longleftrightarrow> covers (r # rs) h"
      by (auto simp: covers_def)
    finally show ?thesis by simp
  qed
  moreover have "\<forall>g \<in> set gs. g \<in> set gs0 \<or> well_formed g"
    using IH by (auto simp: well_formed_def split: if_splits)
  moreover have "c0 \<le> c" "\<forall>r' \<in> set (r # rs). toBlock r' < c"
    using IH c1 by auto
  moreover have "c = c0 \<or> (\<exists>r' \<in> set (r # rs). c = toBlock r' + 1)"
    using IH c1(3) by auto
  ultimately show ?case by blast
qed simp

lemma findRangeGaps_covers:
  "covers (findRangeGaps covered window) h \<longleftrightarrow>
     fromBlock window \<le> h \<and> \<not> covers covered h
     \<and> (h \<le> toBlock window \<or> (\<exists>r \<in> set covered. h < fromBlock r))"
  and findRangeGaps_well_formed: "g \<in> set (findRangeGaps covered window) \<Longrightarrow> well_formed g"
proof -
  let ?rs = "sort_key fromBlock covered"
  obtain c gs where f: "foldl gap_step (fromBlock window, []) ?rs = (c, gs)" by fastforce
  have "sorted (map fromBlock ?rs)" by simp
  note F = gap_fold [OF this f]
  have F1: "fromBlock window \<le> c" using F by simp
  have F2: "toBlock r < c" if "r \<in> set covered" for r using F that by simp
  have F3: "c = fromBlock window \<or> (\<exists>r \<in> set covered. c = toBlock r + 1)" using F by simp
  have same: "covers ?rs h \<longleftrightarrow> covers covered h" for h by (simp add: covers_def)
  have gs: "covers gs h \<longleftrightarrow> fromBlock window \<le> h \<and> \<not> covers covered h \<and> (\<exists>r \<in> set covered. h < fromBlock r)"
    for h using F same [of h] by (simp add: covers_def)
  have res: "findRangeGaps covered window
      = (if c \<le> toBlock window then gs @ [\<lparr>fromBlock = c, toBlock = toBlock window\<rparr>] else gs)"
    by (simp add: findRangeGaps_def f)
  then have "covers (findRangeGaps covered window) h
      \<longleftrightarrow> covers gs h \<or> c \<le> h \<and> h \<le> toBlock window"
    by (auto simp: covers_def)
  moreover have "\<not> covers covered h" if "c \<le> h" using that by (auto simp: covers_def dest: F2)
  moreover have "\<exists>r \<in> set covered. h < fromBlock r"
    if "fromBlock window \<le> h" "h < c" "\<not> covers covered h"
  proof -
    have "c \<noteq> fromBlock window" using that by simp
    then obtain r where "r \<in> set covered" "c = toBlock r + 1" using F3 by auto
    with that show ?thesis by (intro bexI [of _ r]) (auto simp: covers_def)
  qed
  moreover note F1
  ultimately show "covers (findRangeGaps covered window) h \<longleftrightarrow>
     fromBlock window \<le> h \<and> \<not> covers covered h
     \<and> (h \<le> toBlock window \<or> (\<exists>r \<in> set covered. h < fromBlock r))"
    using gs [of h] by (smt (verit))
  show "g \<in> set (findRangeGaps covered window) \<Longrightarrow> well_formed g"
    using F by (auto simp: res well_formed_def split: if_splits)
qed

lemma covers_Nil_iff: "(\<And>g. g \<in> set gs \<Longrightarrow> well_formed g) \<Longrightarrow> gs = [] \<longleftrightarrow> (\<forall>h. \<not> covers gs h)"
  by (cases gs) (auto simp: covers_def well_formed_def)

lemma findRangeGaps_Nil:
  "findRangeGaps covered window = [] \<longleftrightarrow>
     (\<forall>h. fromBlock window \<le> h \<longrightarrow> h \<le> toBlock window \<or> (\<exists>r \<in> set covered. h < fromBlock r)
        \<longrightarrow> covers covered h)"
  by (subst covers_Nil_iff) (auto simp: findRangeGaps_well_formed findRangeGaps_covers)

lemma findRangeGaps_inside:
  assumes "\<And>r. r \<in> set covered \<Longrightarrow> fromBlock r \<le> toBlock window + 1"
  shows "findRangeGaps covered window = [] \<longleftrightarrow> (\<forall>h \<in> heights window. covers covered h)"
  using assms by (fastforce simp: findRangeGaps_Nil)

text \<open>
  The gap search misses no hole and invents none: the gaps it reports are non-empty and hold
  exactly the heights from the window's start on that no range covers, up to the window's end or
  the start of the last range, whichever is later. In particular a window is reported free of gaps
  only when every height of it is covered.
\<close>

theorem findRangeGaps_exact:
  "(covers (findRangeGaps covered window) h \<longleftrightarrow>
      fromBlock window \<le> h \<and> \<not> covers covered h
      \<and> (h \<le> toBlock window \<or> list_ex (\<lambda>r. h < fromBlock r) covered))
   \<and> list_all well_formed (findRangeGaps covered window)"
  using findRangeGaps_covers [of covered window h] findRangeGaps_well_formed [of _ covered window]
  by (auto simp: list_ex_iff list_all_iff)

text \<open>
  The search is not clipped to its window: a fully recovered gap with any later committed range
  is reported open, because the heights between the two count as a hole of the gap.
\<close>

lemma isGapClosed_not_clipped:
  "\<not> isGapClosed \<lparr>fromBlock = 5, toBlock = 9\<rparr>
      [\<lparr>fromBlock = 5, toBlock = 9\<rparr>, \<lparr>fromBlock = 20, toBlock = 30\<rparr>]"
  unfolding isGapClosed_def findRangeGaps_Nil
  by (auto simp: covers_def intro!: exI [of _ 15])

section \<open>Hints only reorder\<close>

text \<open>
  A hint is a speed signal: whatever the hints are, the work queue is a permutation of the
  plan, hinted ranges first and ascending within each tier, so no range is added or lost.
\<close>

theorem prioritise_permutation:
  "mset (prioritise planned hints) = mset planned
   \<and> set (visited (prioritise planned hints)) = set (visited planned)
   \<and> sorted (map (\<lambda>r. (hint_score (uniq (map ph_suggestedBlockNumber hints)) r, fromBlock r))
        (prioritise planned hints))"
  by (simp add: prioritise_def Let_def set_visited)

lemma prioritise_no_hints:
  "sorted (map fromBlock planned) \<Longrightarrow> prioritise planned [] = planned"
proof -
  assume "sorted (map fromBlock planned)"
  then have "sorted (map (\<lambda>r. (1 :: int, fromBlock r)) planned)"
    by (simp add: sorted_map less_eq_prod_def)
  then show ?thesis by (simp add: prioritise_def hint_score_def sorted_sort_id sort_key_id_if_sorted)
qed

section \<open>A replay is complete only when it is\<close>

text \<open>
  A replay is OK exactly when no reason is open that contests or blocks it, its newest success
  is inside the freshness window and every height from the trustworthy start to the agreed head is
  in a committed range (committed ranges stop at the head); in every other case it is UNKNOWN.
\<close>

theorem assessCompleteness_OK_iff:
  assumes "list_all (\<lambda>r. toBlock r \<le> toBlock (cm_window input) \<and> well_formed r) (cm_committed input)"
  shows "(cr_verdict (assessCompleteness input) = OK \<longleftrightarrow>
            PROVIDER_DIVERGENCE \<notin> set (cm_openReasons input)
            \<and> set (cm_openReasons input) \<inter> set BLOCKING_REASONS = {}
            \<and> heights (cm_window input) \<subseteq> (\<Union>r \<in> set (cm_committed input). heights r)
            \<and> (\<exists>t. cm_lastSuccessAt input = Some t \<and> cm_now input - t \<le> cm_freshnessTtlMs input))
         \<and> (cr_verdict (assessCompleteness input) \<noteq> OK \<longrightarrow>
            cr_verdict (assessCompleteness input) = UNKNOWN)"
proof -
  have "fromBlock r \<le> toBlock (cm_window input) + 1" if "r \<in> set (cm_committed input)" for r
    using assms that by (fastforce simp: list_all_iff well_formed_def)
  then have "findRangeGaps (cm_committed input) (cm_window input) = []
      \<longleftrightarrow> heights (cm_window input) \<subseteq> (\<Union>r \<in> set (cm_committed input). heights r)"
    by (subst findRangeGaps_inside) (simp_all add: covers_def subset_eq)
  then show ?thesis
    by (auto simp: assessCompleteness_def Let_def list_ex_iff split: option.splits)
qed

theorem assessCompleteness_OK_iff_witness:
  "cr_verdict (assessCompleteness
      \<lparr>cm_window = \<lparr>fromBlock = 1, toBlock = 4\<rparr>,
       cm_committed = [\<lparr>fromBlock = 1, toBlock = 2\<rparr>, \<lparr>fromBlock = 3, toBlock = 4\<rparr>],
       cm_lastSuccessAt = Some 100, cm_freshnessTtlMs = 10, cm_openReasons = [], cm_now = 105\<rparr>) = OK"
  by (subst assessCompleteness_OK_iff) (auto simp: well_formed_def)

lemma assessCompleteness_covered:
  assumes "cr_verdict (assessCompleteness input) = OK" and "h \<in> heights (cm_window input)"
  shows "covers (cm_committed input) h"
proof -
  have "findRangeGaps (cm_committed input) (cm_window input) = []"
    using assms(1) by (auto simp: assessCompleteness_def Let_def split: if_splits option.splits)
  with assms(2) show ?thesis by (auto simp: findRangeGaps_Nil)
qed

end
