(* ===== verification/Agreement.thy ===== *)
theory Agreement
  imports Plan Json
begin

text \<open>
  packages/replay/src: what one provider group reports about a range and when it is usable
  (range.ts), when the groups agree (agreement.ts), and the census of remotes (census.ts); with
  the fact types and the log digest of packages/storage-postgres/src/ledger.ts. SHA-256 in
  hexadecimal is the parameter \<open>sha\<close>.
\<close>

section \<open>Facts (ledger.ts)\<close>

datatype observed_class = ObservedAccepted | ObservedCandidate

fun observed_class_text :: "observed_class \<Rightarrow> string" where
  "observed_class_text ObservedAccepted = ''accepted''"
| "observed_class_text ObservedCandidate = ''candidate''"

record block_fact =
  bf_chainKey :: string
  bf_blockHash :: string
  bf_blockNumber :: int
  bf_parentHash :: string
  bf_blockTimestamp :: int
  bf_observedClass :: observed_class
  bf_observedAt :: int

record log_fact =
  lf_chainKey :: string
  lf_blockHash :: string
  lf_txHash :: string
  lf_logIndex :: int
  lf_blockNumber :: int
  lf_txIndex :: int
  lf_address :: string
  lf_topics :: "string list"
  lf_data :: string
  lf_observedAt :: int

definition log_fields :: "log_fact \<Rightarrow> string list" where
  "log_fields l =
     [lf_chainKey l, lf_blockHash l, lf_txHash l, show_int (lf_logIndex l), show_int (lf_blockNumber l),
      show_int (lf_txIndex l), lf_address l, join '','' (lf_topics l), lf_data l]"

definition canonical_logs :: "log_fact list \<Rightarrow> log_fact list" where
  "canonical_logs logs = sort_key (\<lambda>l. (lf_blockNumber l, lf_txIndex l, lf_logIndex l)) logs"

definition canonicalLogDigest :: "(string \<Rightarrow> string) \<Rightarrow> log_fact list \<Rightarrow> string" where
  "canonicalLogDigest sha logs =
     sha (concat (map (\<lambda>l. join ''|'' (log_fields l) @ [CHR 0x0A]) (canonical_logs logs)))"

section \<open>Range observations (range.ts)\<close>

record range_observation =
  ro_providerGroup :: string
  ro_range :: block_range
  ro_startBlockHash :: string
  ro_endBlockHash :: string
  ro_logCount :: int
  ro_logs :: "log_fact list"
  ro_blocks :: "block_fact list"
  ro_complete :: bool
  ro_viaArchive :: bool

record range_result =
  rr_providerGroup :: string
  rr_range :: block_range
  rr_startBlockHash :: string
  rr_endBlockHash :: string
  rr_logCount :: int
  rr_digest :: string
  rr_viaArchive :: bool
  rr_blocks :: "block_fact list"
  rr_logs :: "log_fact list"

definition block_fields :: "block_fact \<Rightarrow> string list" where
  "block_fields b =
     [bf_chainKey b, show_int (bf_blockNumber b), bf_blockHash b, observed_class_text (bf_observedClass b)]"

definition canonical_blocks :: "block_fact list \<Rightarrow> block_fact list" where
  "canonical_blocks blocks = sort_key (\<lambda>b. (bf_blockNumber b, bf_blockHash b)) blocks"

definition canonicalBlockDigest :: "(string \<Rightarrow> string) \<Rightarrow> block_fact list \<Rightarrow> string" where
  "canonicalBlockDigest sha blocks =
     sha (concat (map (\<lambda>b. join ''|'' (block_fields b) @ [CHR 0x0A]) (canonical_blocks blocks)))"

definition range_fields :: "(string \<Rightarrow> string) \<Rightarrow> range_observation \<Rightarrow> string list" where
  "range_fields sha ob =
     [show_int (fromBlock (ro_range ob)), show_int (toBlock (ro_range ob)), ro_startBlockHash ob,
      ro_endBlockHash ob, show_int (ro_logCount ob), canonicalLogDigest sha (ro_logs ob),
      canonicalBlockDigest sha (ro_blocks ob)]"

definition rangeDigest :: "(string \<Rightarrow> string) \<Rightarrow> range_observation \<Rightarrow> string" where
  "rangeDigest sha ob = sha (join ''|'' (range_fields sha ob))"

definition log_block_key :: "log_fact \<Rightarrow> string" where
  "log_block_key l = lf_chainKey l @ ''|'' @ lf_blockHash l"

text \<open>The inner loop of \<open>findLogIndexHole\<close> over the sorted indices of one block.\<close>

fun index_jump :: "int list \<Rightarrow> bool" where
  "index_jump (previous # current # rest) =
     (if current \<noteq> previous + 1 then True else index_jump (current # rest))"
| "index_jump _ = False"

definition findLogIndexHole :: "log_fact list \<Rightarrow> bool" where
  "findLogIndexHole logs =
     list_ex (\<lambda>(_, indices). index_jump (sort indices)) (group_by log_block_key lf_logIndex logs)"

text \<open>\<open>RangeOutcome\<close>: the result, or the reason with the group that gave it.\<close>

definition classifyObservation ::
  "(string \<Rightarrow> string) \<Rightarrow> range_observation \<Rightarrow> replay_reason \<times> string + range_result" where
  "classifyObservation sha ob =
     (let fail = (\<lambda>reason. Inl (reason, ro_providerGroup ob));
          blockHashes = set (map bf_blockHash (ro_blocks ob))
      in if int (length (ro_logs ob)) \<noteq> ro_logCount ob then fail SILENT_TRUNCATION
         else if list_ex (\<lambda>b. bf_observedClass b \<noteq> ObservedAccepted) (ro_blocks ob)
         then fail NONCANONICAL_BLOCK_REJECTED
         else if list_ex (\<lambda>l. lf_blockHash l \<notin> blockHashes) (ro_logs ob) then fail MISSING_BLOCK
         else if \<not> ro_complete ob
         then fail (if length (ro_logs ob) = 0 then EMPTY_RESPONSE_AMBIGUITY else SILENT_TRUNCATION)
         else if findLogIndexHole (ro_logs ob) then fail MISSING_LOG
         else Inr \<lparr>rr_providerGroup = ro_providerGroup ob, rr_range = ro_range ob,
                   rr_startBlockHash = ro_startBlockHash ob, rr_endBlockHash = ro_endBlockHash ob,
                   rr_logCount = ro_logCount ob, rr_digest = rangeDigest sha ob,
                   rr_viaArchive = ro_viaArchive ob, rr_blocks = ro_blocks ob, rr_logs = ro_logs ob\<rparr>)"

section \<open>Agreement (agreement.ts)\<close>

record agreement_policy =
  ap_requiredIndependentGroups :: int
  ap_archiveFallbackDeclared :: bool

datatype agreement =
  AgreedOn string "range_result list"
| AgreementBlocked replay_reason "(string \<times> string list) list"

definition agree :: "range_result list \<Rightarrow> agreement_policy \<Rightarrow> agreement" where
  "agree results policy =
     (let byDigest = group_by rr_digest rr_providerGroup results;
          usedUndeclaredArchive = (list_ex rr_viaArchive results \<and> \<not> ap_archiveFallbackDeclared policy);
          independent = uniq (map rr_providerGroup results)
      in if usedUndeclaredArchive then AgreementBlocked ARCHIVE_FALLBACK_UNAVAILABLE byDigest
         else if length byDigest > 1 then AgreementBlocked PROVIDER_DIVERGENCE byDigest
         else if int (length independent) < ap_requiredIndependentGroups policy
         then AgreementBlocked INSUFFICIENT_WITNESSES byDigest
         else case byDigest of
                [] \<Rightarrow> AgreementBlocked INSUFFICIENT_WITNESSES byDigest
              | (digest, _) # _ \<Rightarrow>
                  AgreedOn digest (List.map_filter (\<lambda>g. find (\<lambda>r. rr_providerGroup r = g) results)
                                     (sort independent)))"

record witness_provenance =
  wp_digest :: string
  wp_providerGroups :: "string list"
  wp_requiredIndependentGroups :: int
  wp_startBlockHash :: string
  wp_endBlockHash :: string

definition provenanceOf ::
  "string \<Rightarrow> range_result list \<Rightarrow> agreement_policy \<Rightarrow> string + witness_provenance" where
  "provenanceOf digest witnesses policy =
     (case witnesses of
        [] \<Rightarrow> Inl ''an agreed range must carry at least one witness''
      | first # _ \<Rightarrow> Inr
          \<lparr>wp_digest = digest, wp_providerGroups = map rr_providerGroup witnesses,
           wp_requiredIndependentGroups = ap_requiredIndependentGroups policy,
           wp_startBlockHash = rr_startBlockHash first, wp_endBlockHash = rr_endBlockHash first\<rparr>)"

section \<open>Census (census.ts)\<close>

record registered_remote_event =
  re_remoteBlockchainId :: string
  re_remoteAddress :: string
  re_registeredAtBlock :: int
  re_registeredAtBlockHash :: string

record approved_remote =
  av_remoteBlockchainId :: string
  av_remoteAddress :: string

record census_input =
  ci_homeStartBlock :: int
  ci_agreedHead :: int
  ci_historyFullyReplayed :: bool
  ci_observed :: "registered_remote_event list"
  ci_approved :: "approved_remote list"

datatype candidate_trust = TrustCandidate

record remote_candidate =
  cd_remoteBlockchainId :: string
  cd_remoteAddress :: string
  cd_registeredAtBlock :: int
  cd_registeredAtBlockHash :: string
  cd_trust :: candidate_trust

datatype cross_check = HomeBlockchainIdMatches | HomeAddressMatches | RemoteCodeFingerprintRecognised

record cross_check_task =
  ct_remoteBlockchainId :: string
  ct_remoteAddress :: string
  ct_checks :: "cross_check list"

record census_result =
  cn_candidates :: "remote_candidate list"
  cn_missingFromHistory :: "approved_remote list"
  cn_crossChecks :: "cross_check_task list"
  cn_complete :: bool
  cn_reasons :: "replay_reason list"

definition keyOf :: "string \<Rightarrow> string \<Rightarrow> string" where
  "keyOf remoteBlockchainId remoteAddress = remoteBlockchainId @ ''|'' @ remoteAddress"

definition buildCensus :: "census_input \<Rightarrow> census_result" where
  "buildCensus input =
     (let observed_key = (\<lambda>e. keyOf (re_remoteBlockchainId e) (re_remoteAddress e));
          approved_key = (\<lambda>a. keyOf (av_remoteBlockchainId a) (av_remoteAddress a));
          approvedKeys = set (map approved_key (ci_approved input));
          observedKeys = set (map observed_key (ci_observed input))
      in \<lparr>cn_candidates =
            map (\<lambda>e. \<lparr>cd_remoteBlockchainId = re_remoteBlockchainId e,
                      cd_remoteAddress = re_remoteAddress e,
                      cd_registeredAtBlock = re_registeredAtBlock e,
                      cd_registeredAtBlockHash = re_registeredAtBlockHash e,
                      cd_trust = TrustCandidate\<rparr>)
              (filter (\<lambda>e. observed_key e \<notin> approvedKeys) (ci_observed input)),
          cn_missingFromHistory = filter (\<lambda>a. approved_key a \<notin> observedKeys) (ci_approved input),
          cn_crossChecks =
            map (\<lambda>e. \<lparr>ct_remoteBlockchainId = re_remoteBlockchainId e,
                      ct_remoteAddress = re_remoteAddress e,
                      ct_checks = [HomeBlockchainIdMatches, HomeAddressMatches,
                                   RemoteCodeFingerprintRecognised]\<rparr>)
              (ci_observed input),
          cn_complete = ci_historyFullyReplayed input,
          cn_reasons = (if \<not> ci_historyFullyReplayed input then [REMOTE_HISTORY_UNAVAILABLE] else [])\<rparr>)"

definition globalCoverageKnown :: "census_result \<Rightarrow> string set \<Rightarrow> bool" where
  "globalCoverageKnown census remotesWithReachableHistory =
     (if \<not> cn_complete census then False
      else list_all (\<lambda>c. keyOf (ct_remoteBlockchainId c) (ct_remoteAddress c)
             \<in> remotesWithReachableHistory) (cn_crossChecks census))"

section \<open>An observation is usable exactly when it is complete\<close>

lemma index_jump_iff: "index_jump xs \<longleftrightarrow> xs \<noteq> [] \<and> xs \<noteq> [hd xs..hd xs + int (length xs) - 1]"
proof (induction xs rule: index_jump.induct)
  case (1 a b rest)
  let ?n = "int (length rest)"
  have "[a..a + int (length (a # b # rest)) - 1] = a # [a + 1..a + 1 + ?n]"
    by (subst upto_rec1) (simp_all add: add_ac)
  then have "a # b # rest = [a..a + int (length (a # b # rest)) - 1] \<longleftrightarrow> b # rest = [a + 1..a + 1 + ?n]"
    by simp
  also have "\<dots> \<longleftrightarrow> b = a + 1 \<and> b # rest = [b..b + ?n]"
    by (cases "b = a + 1") (auto simp: upto_rec1)
  finally have main: "a # b # rest = [a..a + int (length (a # b # rest)) - 1]
      \<longleftrightarrow> b = a + 1 \<and> b # rest = [b..b + ?n]" .
  have "index_jump (a # b # rest) \<longleftrightarrow> b \<noteq> a + 1 \<or> index_jump (b # rest)" by simp
  also have "\<dots> \<longleftrightarrow> \<not> (b = a + 1 \<and> b # rest = [b..b + ?n])"
  proof (cases "b = a + 1")
    case True
    then have "index_jump (b # rest) \<longleftrightarrow> b # rest \<noteq> [hd (b # rest)..hd (b # rest) + int (length (b # rest)) - 1]"
      using 1 by simp
    also have "hd (b # rest) + int (length (b # rest)) - 1 = b + ?n" by simp
    finally show ?thesis using True by (simp only: list.sel simp_thms)
  qed simp
  also have "\<dots> \<longleftrightarrow> a # b # rest \<noteq> [a..a + int (length (a # b # rest)) - 1]" by (simp only: main)
  finally show ?case by (simp only: list.sel list.distinct not_False_eq_True simp_thms)
qed simp_all

lemma dense_iff: "xs \<noteq> [] \<Longrightarrow> \<not> index_jump xs \<longleftrightarrow> (\<exists>m n. xs = [m..n])"
proof
  assume ne: "xs \<noteq> []"
  show "\<not> index_jump xs \<Longrightarrow> \<exists>m n. xs = [m..n]" using ne index_jump_iff [of xs] by blast
  assume "\<exists>m n. xs = [m..n]"
  then obtain m n where xs: "xs = [m..n]" by blast
  with ne have "m \<le> n" by simp
  then have "hd xs = m" "int (length xs) = n - m + 1" by (simp_all add: xs upto_rec1 [of m n])
  then show "\<not> index_jump xs" by (simp add: index_jump_iff xs)
qed

abbreviation indices_at :: "log_fact list \<Rightarrow> string \<Rightarrow> int list" where
  "indices_at logs k \<equiv> sort (map lf_logIndex (filter (\<lambda>l. log_block_key l = k) logs))"

lemma findLogIndexHole_iff:
  "\<not> findLogIndexHole logs \<longleftrightarrow> list_all (\<lambda>l. \<exists>m n. indices_at logs (log_block_key l) = [m..n]) logs"
proof -
  have "indices_at logs (log_block_key l) \<noteq> []" if "l \<in> set logs" for l
  proof -
    have "l \<in> set (filter (\<lambda>x. log_block_key x = log_block_key l) logs)" using that by simp
    then show ?thesis by (metis empty_iff map_is_Nil_conv set_empty2 sort_key_eq_Nil)
  qed
  then have "\<not> index_jump (indices_at logs (log_block_key l))
      \<longleftrightarrow> (\<exists>m n. indices_at logs (log_block_key l) = [m..n])" if "l \<in> set logs" for l
    using that by (intro dense_iff) auto
  then show ?thesis
    by (auto simp: findLogIndexHole_def group_by_eq list_ex_iff list_all_iff)
qed

text \<open>
  A provider answer becomes a comparable result exactly when nothing can be missing from it:
  the count it claims is the number of logs delivered, every block is accepted, every log comes
  with its block, the whole range was positively covered and the log indices of each block are
  consecutive; the result then carries the very facts and the digest over them, and a refusal
  names the group that gave the answer.
\<close>

theorem classifyObservation_ok_iff:
  "(is_ok (classifyObservation sha ob) \<longleftrightarrow>
      int (length (ro_logs ob)) = ro_logCount ob
      \<and> list_all (\<lambda>b. bf_observedClass b = ObservedAccepted) (ro_blocks ob)
      \<and> list_all (\<lambda>l. lf_blockHash l \<in> bf_blockHash ` set (ro_blocks ob)) (ro_logs ob)
      \<and> ro_complete ob
      \<and> list_all (\<lambda>l. \<exists>m n. indices_at (ro_logs ob) (log_block_key l) = [m..n]) (ro_logs ob))
   \<and> (case classifyObservation sha ob of
        Inl (_, g) \<Rightarrow> g = ro_providerGroup ob
      | Inr r \<Rightarrow> rr_providerGroup r = ro_providerGroup ob \<and> rr_range r = ro_range ob
          \<and> rr_digest r = rangeDigest sha ob \<and> rr_blocks r = ro_blocks ob \<and> rr_logs r = ro_logs ob
          \<and> rr_endBlockHash r = ro_endBlockHash ob)"
proof -
  note hole = findLogIndexHole_iff [of "ro_logs ob"]
  show ?thesis
    unfolding classifyObservation_def Let_def hole [symmetric]
    by (simp add: list_ex_iff list_all_iff)
qed

section \<open>Agreement is unanimity of enough groups\<close>

lemma witnesses_of_groups:
  "set gs \<subseteq> rr_providerGroup ` set results \<Longrightarrow>
     map rr_providerGroup (List.map_filter (\<lambda>g. find (\<lambda>r. rr_providerGroup r = g) results) gs) = gs
     \<and> set (List.map_filter (\<lambda>g. find (\<lambda>r. rr_providerGroup r = g) results) gs) \<subseteq> set results"
proof (induction gs)
  case (Cons g gs)
  then have "find (\<lambda>r. rr_providerGroup r = g) results \<noteq> None" by (auto simp: find_None_iff)
  then obtain r where r: "find (\<lambda>r. rr_providerGroup r = g) results = Some r" by blast
  then have "rr_providerGroup r = g" "r \<in> set results" by (auto simp: find_Some_iff)
  with Cons r show ?case by (simp add: List.map_filter_simps)
qed (simp add: List.map_filter_simps)

lemma agree_cases:
  fixes results policy
  defines "byDigest \<equiv> group_by rr_digest rr_providerGroup results"
    and "groups \<equiv> rr_providerGroup ` set results"
  shows "agree results policy =
    (if (\<exists>r \<in> set results. rr_viaArchive r) \<and> \<not> ap_archiveFallbackDeclared policy
     then AgreementBlocked ARCHIVE_FALLBACK_UNAVAILABLE byDigest
     else if card (rr_digest ` set results) > 1 then AgreementBlocked PROVIDER_DIVERGENCE byDigest
     else if int (card groups) < ap_requiredIndependentGroups policy \<or> results = []
     then AgreementBlocked INSUFFICIENT_WITNESSES byDigest
     else AgreedOn (rr_digest (hd results))
            (List.map_filter (\<lambda>g. find (\<lambda>r. rr_providerGroup r = g) results) (sorted_list_of_set groups)))"
proof (cases results)
  case Nil
  then show ?thesis by (simp add: agree_def byDigest_def groups_def group_by_eq)
next
  case (Cons r rs)
  have hd: "\<exists>gs rest. group_by rr_digest rr_providerGroup results = (rr_digest r, gs) # rest"
    by (simp add: Cons group_by_eq)
  then obtain gs rest where g: "group_by rr_digest rr_providerGroup results = (rr_digest r, gs) # rest" by blast
  have len: "length (group_by rr_digest rr_providerGroup results) = card (rr_digest ` set results)"
    by (rule length_group_by)
  have cnt: "length (uniq (map rr_providerGroup results)) = card groups"
    by (simp add: length_uniq groups_def)
  have srt: "sort (uniq (map rr_providerGroup results)) = sorted_list_of_set groups"
    by (simp add: sort_uniq groups_def)
  have hd_r: "hd results = r" and ne: "results \<noteq> []" using Cons by simp_all
  show ?thesis
    unfolding agree_def Let_def len cnt srt hd_r byDigest_def list_ex_iff using ne
    by (simp add: g)
qed

lemma agree_sound:
  assumes "agree results policy = AgreedOn d ws"
  shows "results \<noteq> [] \<and> rr_digest ` set results = {d}
     \<and> ap_requiredIndependentGroups policy \<le> int (card (rr_providerGroup ` set results))
     \<and> (ap_archiveFallbackDeclared policy \<or> (\<forall>r \<in> set results. \<not> rr_viaArchive r))
     \<and> map rr_providerGroup ws = sorted_list_of_set (rr_providerGroup ` set results)
     \<and> set ws \<subseteq> set results"
proof -
  have ne: "results \<noteq> []" and d: "d = rr_digest (hd results)"
    and one: "\<not> card (rr_digest ` set results) > 1"
    and rest: "ap_requiredIndependentGroups policy \<le> int (card (rr_providerGroup ` set results))"
      "ap_archiveFallbackDeclared policy \<or> (\<forall>r \<in> set results. \<not> rr_viaArchive r)"
    and ws: "ws = List.map_filter (\<lambda>g. find (\<lambda>r. rr_providerGroup r = g) results)
        (sorted_list_of_set (rr_providerGroup ` set results))"
    using assms unfolding agree_cases by (auto split: if_splits)
  have mem: "d \<in> rr_digest ` set results" using ne d by simp
  moreover have "rr_digest ` set results \<subseteq> {d}"
  proof (rule ccontr)
    assume "\<not> rr_digest ` set results \<subseteq> {d}"
    then obtain e where "e \<in> rr_digest ` set results" "e \<noteq> d" by blast
    then have "card {d, e} \<le> card (rr_digest ` set results)" using mem by (intro card_mono) auto
    with \<open>e \<noteq> d\<close> one show False by simp
  qed
  ultimately have "rr_digest ` set results = {d}" by auto
  with ne rest witnesses_of_groups [of "sorted_list_of_set (rr_providerGroup ` set results)" results]
  show ?thesis by (simp add: ws)
qed

lemma agree_complete:
  assumes "rr_digest ` set results = {d}"
    and "ap_requiredIndependentGroups policy \<le> int (card (rr_providerGroup ` set results))"
    and "ap_archiveFallbackDeclared policy \<or> (\<forall>r \<in> set results. \<not> rr_viaArchive r)"
  shows "\<exists>ws. agree results policy = AgreedOn d ws"
proof -
  have "results \<noteq> []" using assms(1) by auto
  then have "rr_digest (hd results) = d" using assms(1) by (metis hd_in_set image_eqI singletonD)
  moreover have "\<not> card (rr_digest ` set results) > 1" using assms(1) by simp
  ultimately show ?thesis using assms(2,3) \<open>results \<noteq> []\<close> unfolding agree_cases by auto
qed

text \<open>
  A range may become fact exactly when every answer carries one and the same digest, at least
  the required number of distinct provider groups gave it, and no undeclared archive was used;
  one dissenting group blocks, however many agree. A blocked range keeps, per digest, the groups
  that reported it.
\<close>

theorem agree_iff:
  "(\<exists>ws. agree results policy = AgreedOn d ws) \<longleftrightarrow>
     rr_digest ` set results = {d}
     \<and> ap_requiredIndependentGroups policy \<le> int (card (rr_providerGroup ` set results))
     \<and> \<not> (\<not> ap_archiveFallbackDeclared policy \<and> list_ex rr_viaArchive results)"
  using agree_sound [of results policy d] agree_complete [of results d policy]
  unfolding list_ex_iff by blast

text \<open>
  The witness list of an agreement mirrors the independence count: exactly one result per
  distinct provider group, in the order of the group names, and each is one of the answers.
\<close>

theorem agree_witnesses:
  assumes "agree results policy = AgreedOn d ws"
  shows "map rr_providerGroup ws = sorted_list_of_set (rr_providerGroup ` set results)
     \<and> set ws \<subseteq> set results \<and> rr_digest ` set ws \<subseteq> {d} \<and> ws \<noteq> []"
proof -
  note s = agree_sound [OF assms]
  then have "sorted_list_of_set (rr_providerGroup ` set results) \<noteq> []" by simp
  then have "ws \<noteq> []" using s by (metis list.simps(8))
  with s show ?thesis by blast
qed

definition example_result :: "string \<Rightarrow> string \<Rightarrow> range_result" where
  "example_result g d =
     \<lparr>rr_providerGroup = g, rr_range = \<lparr>fromBlock = 1, toBlock = 2\<rparr>, rr_startBlockHash = ''a'',
      rr_endBlockHash = ''b'', rr_logCount = 0, rr_digest = d, rr_viaArchive = False,
      rr_blocks = [], rr_logs = []\<rparr>"

lemma example_agree:
  "agree [example_result ''y'' ''d'', example_result ''x'' ''d'', example_result ''y'' ''d'']
     \<lparr>ap_requiredIndependentGroups = 2, ap_archiveFallbackDeclared = False\<rparr>
   = AgreedOn ''d'' [example_result ''x'' ''d'', example_result ''y'' ''d'']"
  by (simp add: agree_def Let_def group_by_def group_push_def example_result_def List.map_filter_simps
      insort_key_def less_char_def less_eq_char_def)

theorem agree_witnesses_witness:
  "map rr_providerGroup [example_result ''x'' ''d'', example_result ''y'' ''d''] = [''x'', ''y'']
   \<and> sorted_list_of_set (rr_providerGroup ` set [example_result ''y'' ''d'', example_result ''x'' ''d'',
       example_result ''y'' ''d'']) = [''x'', ''y'']"
proof -
  have names: "map rr_providerGroup [example_result ''x'' ''d'', example_result ''y'' ''d''] = [''x'', ''y'']"
    by (simp add: example_result_def)
  with agree_witnesses [OF example_agree] show ?thesis by metis
qed

section \<open>One digest, one set of facts\<close>

text \<open>
  Every field is hexadecimal or decimal text: it holds neither the field separator nor the record
  terminator, and a topic is not empty and holds no comma.
\<close>

definition plain :: "string \<Rightarrow> bool" where
  "plain s \<longleftrightarrow> CHR ''|'' \<notin> set s \<and> CHR 0x0A \<notin> set s"

definition plain_log :: "log_fact \<Rightarrow> bool" where
  "plain_log l \<longleftrightarrow> plain (lf_chainKey l) \<and> plain (lf_blockHash l) \<and> plain (lf_txHash l)
     \<and> plain (lf_address l) \<and> plain (lf_data l)
     \<and> list_all (\<lambda>t. plain t \<and> t \<noteq> [] \<and> CHR '','' \<notin> set t) (lf_topics l)"

definition plain_block :: "block_fact \<Rightarrow> bool" where
  "plain_block b \<longleftrightarrow> plain (bf_chainKey b) \<and> plain (bf_blockHash b)"

definition plain_observation :: "range_observation \<Rightarrow> bool" where
  "plain_observation ob \<longleftrightarrow> plain (ro_startBlockHash ob) \<and> plain (ro_endBlockHash ob)
     \<and> list_all plain_log (ro_logs ob) \<and> list_all plain_block (ro_blocks ob)"

lemma plain_show_int [simp]: "plain (show_int i)"
  unfolding plain_def using show_int_chars [of "CHR ''|''" i] show_int_chars [of "CHR 0x0A" i]
  by (auto simp: is_digit_def)

lemma set_join: "set (join sep xs) \<subseteq> set sep \<union> (\<Union>x \<in> set xs. set x)"
  by (induction sep xs rule: join.induct) auto

lemma plain_topics: "list_all plain topics \<Longrightarrow> plain (join '','' topics)"
  using set_join [of "'',''" topics] by (fastforce simp: plain_def list_all_iff)

lemma join_inject_nonempty:
  assumes "list_all (\<lambda>t. t \<noteq> [] \<and> c \<notin> set t) xs" and "list_all (\<lambda>t. t \<noteq> [] \<and> c \<notin> set t) ys"
    and "join [c] xs = join [c] ys"
  shows "xs = ys"
  using assms
proof (induction xs arbitrary: ys)
  case Nil
  then show ?case by (cases ys; cases "tl ys") auto
next
  case (Cons x xs)
  then obtain y ys' where ys: "ys = y # ys'" by (cases ys; cases xs) auto
  show ?case
  proof (cases xs)
    case xs: Nil
    show ?thesis
    proof (cases ys')
      case (Cons y2 ys2)
      then have "x = y @ c # join [c] ys'" using Cons.prems(3) xs ys by simp
      then show ?thesis using Cons.prems(1) by auto
    qed (use xs ys Cons.prems(3) in simp)
  next
    case xs: (Cons x2 xs2)
    then obtain y2 ys2 where ys': "ys' = y2 # ys2"
      using Cons.prems ys by (cases ys') (auto simp: append_eq_Cons_conv)
    have "x @ c # join [c] xs = y @ c # join [c] ys'" using Cons.prems(3) xs ys ys' by simp
    then have "x = y \<and> join [c] xs = join [c] ys'"
      using Cons.prems(1,2) ys by (intro append_sep_inject) auto
    with Cons.IH [of ys'] Cons.prems(1,2) ys show ?thesis by simp
  qed
qed

lemma lines_inject:
  assumes "list_all (\<lambda>s. c \<notin> set s) xs" and "list_all (\<lambda>s. c \<notin> set s) ys"
    and "concat (map (\<lambda>s. s @ [c]) xs) = concat (map (\<lambda>s. s @ [c]) ys)"
  shows "xs = ys"
  using assms
proof (induction xs arbitrary: ys)
  case Nil
  then show ?case by (cases ys) auto
next
  case (Cons x xs)
  then obtain y ys' where ys: "ys = y # ys'" by (cases ys) auto
  with Cons.prems have "x = y \<and> concat (map (\<lambda>s. s @ [c]) xs) = concat (map (\<lambda>s. s @ [c]) ys')"
    by (intro append_sep_inject [of c]) auto
  with Cons ys show ?case by simp
qed

lemma map_eq_mono:
  assumes "map f xs = map f ys" and "\<And>x y. x \<in> set xs \<Longrightarrow> y \<in> set ys \<Longrightarrow> f x = f y \<Longrightarrow> g x = g y"
  shows "map g xs = map g ys"
  using assms by (auto simp: list_eq_iff_nth_eq)

text \<open>A digest over joined records determines the records, whatever the digested facts are.\<close>

lemma records_inject:
  fixes parts :: "'a \<Rightarrow> string list"
  assumes "inj sha" and "\<And>x. x \<in> set xs \<union> set ys \<Longrightarrow> length (parts x) = n \<and> list_all plain (parts x)"
    and "sha (concat (map (\<lambda>x. join ''|'' (parts x) @ [CHR 0x0A]) xs))
       = sha (concat (map (\<lambda>x. join ''|'' (parts x) @ [CHR 0x0A]) ys))"
  shows "map parts xs = map parts ys"
proof -
  let ?line = "\<lambda>x. join ''|'' (parts x)"
  have free: "CHR 0x0A \<notin> set (?line x)" if "x \<in> set xs \<union> set ys" for x
    using assms(2) [OF that] set_join [of "''|''" "parts x"] by (fastforce simp: plain_def list_all_iff)
  have "concat (map (\<lambda>s. s @ [CHR 0x0A]) (map ?line xs)) = concat (map (\<lambda>s. s @ [CHR 0x0A]) (map ?line ys))"
    using injD [OF assms(1,3)] by (simp add: comp_def)
  then have lines: "map ?line xs = map ?line ys"
    by (intro lines_inject [of "CHR 0x0A"]) (use free in \<open>auto simp: list_all_iff\<close>)
  have "parts x = parts y" if "x \<in> set xs" "y \<in> set ys" "?line x = ?line y" for x y
    using that assms(2) [of x] assms(2) [of y]
    by (intro join_inject [where c = "CHR ''|''"]) (auto simp: plain_def list_all_iff)
  with lines show ?thesis by (rule map_eq_mono)
qed

lemma log_fields_inject:
  assumes "plain_log l" and "plain_log l'" and "log_fields l = log_fields l'"
  shows "l\<lparr>lf_observedAt := 0\<rparr> = l'\<lparr>lf_observedAt := 0\<rparr>"
proof -
  have "lf_topics l = lf_topics l'"
    using assms by (intro join_inject_nonempty [of "CHR '',''"])
      (auto simp: plain_log_def log_fields_def list_all_iff)
  with assms(3) show ?thesis by (cases l; cases l') (simp add: log_fields_def)
qed

lemma log_digest_facts:
  assumes "inj sha" and "list_all plain_log xs" and "list_all plain_log ys"
    and "canonicalLogDigest sha xs = canonicalLogDigest sha ys"
  shows "mset (map (\<lambda>l. l\<lparr>lf_observedAt := 0\<rparr>) xs) = mset (map (\<lambda>l. l\<lparr>lf_observedAt := 0\<rparr>) ys)"
proof -
  let ?erase = "\<lambda>l :: log_fact. l\<lparr>lf_observedAt := 0\<rparr>"
  have set: "set (canonical_logs zs) = set zs" for zs by (simp add: canonical_logs_def)
  have "map log_fields (canonical_logs xs) = map log_fields (canonical_logs ys)"
  proof (rule records_inject [OF assms(1), where n = 9])
    show "sha (concat (map (\<lambda>x. join ''|'' (log_fields x) @ [CHR 0x0A]) (canonical_logs xs)))
       = sha (concat (map (\<lambda>x. join ''|'' (log_fields x) @ [CHR 0x0A]) (canonical_logs ys)))"
      using assms(4) by (simp add: canonicalLogDigest_def)
  next
    fix l assume "l \<in> set (canonical_logs xs) \<union> set (canonical_logs ys)"
    then have "plain_log l" using assms(2,3) by (auto simp: set list_all_iff)
    then show "length (log_fields l) = 9 \<and> list_all plain (log_fields l)"
      by (auto simp: log_fields_def plain_log_def list_all_iff intro!: plain_topics)
  qed
  then have "map ?erase (canonical_logs xs) = map ?erase (canonical_logs ys)"
    by (rule map_eq_mono) (use assms(2,3) in \<open>auto simp: set list_all_iff intro: log_fields_inject\<close>)
  then have "mset (map ?erase (canonical_logs xs)) = mset (map ?erase (canonical_logs ys))" by simp
  then show ?thesis by (simp add: canonical_logs_def)
qed

lemma block_digest_facts:
  assumes "inj sha" and "list_all plain_block xs" and "list_all plain_block ys"
    and "canonicalBlockDigest sha xs = canonicalBlockDigest sha ys"
  shows "mset (map block_fields xs) = mset (map block_fields ys)"
proof -
  have set: "set (canonical_blocks zs) = set zs" for zs by (simp add: canonical_blocks_def)
  have "map block_fields (canonical_blocks xs) = map block_fields (canonical_blocks ys)"
  proof (rule records_inject [OF assms(1), where n = 4])
    show "sha (concat (map (\<lambda>x. join ''|'' (block_fields x) @ [CHR 0x0A]) (canonical_blocks xs)))
       = sha (concat (map (\<lambda>x. join ''|'' (block_fields x) @ [CHR 0x0A]) (canonical_blocks ys)))"
      using assms(4) by (simp add: canonicalBlockDigest_def)
  next
    fix b assume "b \<in> set (canonical_blocks xs) \<union> set (canonical_blocks ys)"
    then have "plain_block b" using assms(2,3) by (auto simp: set list_all_iff)
    moreover have "plain (observed_class_text c)" for c by (cases c) (simp_all add: plain_def)
    ultimately show "length (block_fields b) = 4 \<and> list_all plain (block_fields b)"
      by (simp add: block_fields_def plain_block_def)
  qed
  then have "mset (map block_fields (canonical_blocks xs)) = mset (map block_fields (canonical_blocks ys))"
    by simp
  then show ?thesis by (simp add: canonical_blocks_def)
qed

text \<open>
  Agreement is about content, not about heights. With a collision-free digest, two
  observations whose range digests are equal cover the same range, between the same start and end
  block hashes, and deliver the same logs (as multisets, whatever the order and time of arrival)
  over the same block hashes and classes: which witness the engine stores is not a preference.
\<close>

theorem rangeDigest_same_facts:
  assumes "inj sha" and "\<And>s. CHR ''|'' \<notin> set (sha s)"
    and "plain_observation x" and "plain_observation y" and "rangeDigest sha x = rangeDigest sha y"
  shows "ro_range x = ro_range y \<and> ro_startBlockHash x = ro_startBlockHash y
     \<and> ro_endBlockHash x = ro_endBlockHash y \<and> ro_logCount x = ro_logCount y
     \<and> mset (map (\<lambda>l. l\<lparr>lf_observedAt := 0\<rparr>) (ro_logs x)) = mset (map (\<lambda>l. l\<lparr>lf_observedAt := 0\<rparr>) (ro_logs y))
     \<and> mset (map block_fields (ro_blocks x)) = mset (map block_fields (ro_blocks y))"
proof -
  have "join ''|'' (range_fields sha x) = join ''|'' (range_fields sha y)"
    using assms(5) injD [OF assms(1)] by (simp add: rangeDigest_def)
  moreover have "CHR ''|'' \<notin> set s" if "s \<in> set (range_fields sha z)" "plain_observation z" for s z
    using that assms(2) plain_show_int
    by (auto simp: range_fields_def plain_observation_def plain_def canonicalLogDigest_def canonicalBlockDigest_def)
  ultimately have "range_fields sha x = range_fields sha y"
    using assms(3,4) by (intro join_inject [where c = "CHR ''|''"]) (auto simp: range_fields_def)
  then have eq: "show_int (fromBlock (ro_range x)) = show_int (fromBlock (ro_range y))"
      "show_int (toBlock (ro_range x)) = show_int (toBlock (ro_range y))"
      "show_int (ro_logCount x) = show_int (ro_logCount y)"
      "ro_startBlockHash x = ro_startBlockHash y" "ro_endBlockHash x = ro_endBlockHash y"
      "canonicalLogDigest sha (ro_logs x) = canonicalLogDigest sha (ro_logs y)"
      "canonicalBlockDigest sha (ro_blocks x) = canonicalBlockDigest sha (ro_blocks y)"
    by (simp_all add: range_fields_def)
  then have "ro_range x = ro_range y" by (cases "ro_range x"; cases "ro_range y") simp
  moreover have "mset (map (\<lambda>l. l\<lparr>lf_observedAt := 0\<rparr>) (ro_logs x)) = mset (map (\<lambda>l. l\<lparr>lf_observedAt := 0\<rparr>) (ro_logs y))"
    using assms(3,4) eq(6) by (intro log_digest_facts [OF assms(1)]) (auto simp: plain_observation_def)
  moreover have "mset (map block_fields (ro_blocks x)) = mset (map block_fields (ro_blocks y))"
    using assms(3,4) eq(7) by (intro block_digest_facts [OF assms(1)]) (auto simp: plain_observation_def)
  ultimately show ?thesis using eq by simp
qed

text \<open>Writing every character as two hexadecimal digits is a digest without collisions.\<close>

definition hex_text :: "string \<Rightarrow> string" where
  "hex_text s = concat (map (\<lambda>c. [hex_digit (of_char c div 16), hex_digit (of_char c mod 16)]) s)"

lemma hex_text_simps:
  "hex_text [] = []"
  "hex_text (c # s) = hex_digit (of_char c div 16) # hex_digit (of_char c mod 16) # hex_text s"
  by (simp_all add: hex_text_def)

lemma hex_text_inj: "inj hex_text"
proof (rule injI)
  fix s t :: string
  have pair: "c = d" if "hex_digit (of_char c div 16) = hex_digit (of_char d div 16)"
    "hex_digit (of_char c mod 16) = hex_digit (of_char d mod 16)" for c d :: char
  proof -
    have "(of_char c :: nat) div 16 = of_char d div 16"
      using arg_cong [OF that(1), of hex_value] nat_of_char_less_256 [of c] nat_of_char_less_256 [of d]
      by (subst (asm) (1 2) hex_value_digit) (auto simp: div_less_iff_less_mult)
    moreover have "(of_char c :: nat) mod 16 = of_char d mod 16"
      using arg_cong [OF that(2), of hex_value] by (simp add: hex_value_digit)
    ultimately have "(of_char c :: nat) = of_char d" by (metis div_mult_mod_eq)
    then show ?thesis by simp
  qed
  show "hex_text s = hex_text t \<Longrightarrow> s = t"
  proof (induction s arbitrary: t)
    case Nil
    then show ?case by (cases t) (simp_all add: hex_text_simps)
  next
    case (Cons c s)
    then obtain d t' where t: "t = d # t'" by (cases t) (simp_all add: hex_text_simps)
    with Cons.prems have "hex_text s = hex_text t'"
      "hex_digit (of_char c div 16) = hex_digit (of_char d div 16)"
      "hex_digit (of_char c mod 16) = hex_digit (of_char d mod 16)" by (simp_all only: hex_text_simps list.inject)
    with Cons.IH t pair [of c d] show ?case by blast
  qed
qed

lemma hex_text_bar: "CHR ''|'' \<notin> set (hex_text s)"
proof -
  have "CHR ''|'' \<noteq> hex_digit d" if "d < 16" for d
  proof
    assume "CHR ''|'' = hex_digit d"
    then have "(of_char (CHR ''|'') :: nat) = of_char (hex_digit d)" by simp
    then show False using that by (simp add: hex_digit_def split: if_splits)
  qed
  moreover have "(of_char c :: nat) div 16 < 16" for c :: char
    using nat_of_char_less_256 [of c] by (simp add: div_less_iff_less_mult)
  ultimately show ?thesis by (auto simp: hex_text_def)
qed

definition example_log :: "int \<Rightarrow> int \<Rightarrow> log_fact" where
  "example_log i t =
     \<lparr>lf_chainKey = ''c'', lf_blockHash = ''b'', lf_txHash = ''t'', lf_logIndex = i, lf_blockNumber = 7,
      lf_txIndex = 0, lf_address = ''a'', lf_topics = [''p'', ''q''], lf_data = [], lf_observedAt = t\<rparr>"

definition example_observation :: "string \<Rightarrow> log_fact list \<Rightarrow> range_observation" where
  "example_observation g logs =
     \<lparr>ro_providerGroup = g, ro_range = \<lparr>fromBlock = 7, toBlock = 7\<rparr>, ro_startBlockHash = ''b'',
      ro_endBlockHash = ''b'', ro_logCount = int (length logs), ro_logs = logs,
      ro_blocks = [\<lparr>bf_chainKey = ''c'', bf_blockHash = ''b'', bf_blockNumber = 7, bf_parentHash = ''z'',
        bf_blockTimestamp = 0, bf_observedClass = ObservedAccepted, bf_observedAt = 0\<rparr>],
      ro_complete = True, ro_viaArchive = False\<rparr>"

theorem rangeDigest_same_facts_witness:
  "mset (map (\<lambda>l. l\<lparr>lf_observedAt := 0\<rparr>) [example_log 0 3, example_log 1 3])
     = mset (map (\<lambda>l. l\<lparr>lf_observedAt := 0\<rparr>) [example_log 1 9, example_log 0 8])
   \<and> rangeDigest hex_text (example_observation ''x'' [example_log 0 3, example_log 1 3])
     = rangeDigest hex_text (example_observation ''y'' [example_log 1 9, example_log 0 8])"
proof -
  let ?x = "example_observation ''x'' [example_log 0 3, example_log 1 3]"
  let ?y = "example_observation ''y'' [example_log 1 9, example_log 0 8]"
  have "canonicalLogDigest hex_text (ro_logs ?x) = canonicalLogDigest hex_text (ro_logs ?y)"
    by (simp add: canonicalLogDigest_def canonical_logs_def example_observation_def example_log_def
        insort_key_def log_fields_def)
  then have same: "rangeDigest hex_text ?x = rangeDigest hex_text ?y"
    by (simp add: rangeDigest_def range_fields_def example_observation_def)
  have "plain_observation ?x" "plain_observation ?y"
    by (simp_all add: plain_observation_def plain_def plain_log_def plain_block_def example_observation_def
        example_log_def)
  from rangeDigest_same_facts [OF hex_text_inj hex_text_bar this same] same show ?thesis
    by (simp add: example_observation_def)
qed

end
