(* ===== verification/Ledger.thy ===== *)
theory Ledger
  imports Stores Agreement
begin

text \<open>
  packages/storage-postgres/src: the raw fact ledger (ledger.ts) and the replay tables
  (replay-store.ts), with the constraints their statements rely on (migrations 0001, 0002 and
  0004: primary keys, the partial unique index on accepted heights, foreign keys, checks). A
  table is an association list in insertion order, a statement that PostgreSQL refuses is an
  \<open>Inl\<close>, and a transaction that fails leaves the state as it was. The advisory lock makes the
  ingests of a lane sequential, which is what running the operations one after the other is.
  Rows of the reference tables (chains, deployments) are assumed present; time columns the code
  never reads are left out.
\<close>

section \<open>Rows and tables\<close>

datatype db_error = AcceptedHeightViolation | UniqueViolation | ForeignKeyViolation | CheckViolation

record observation_fact =
  of_observationId :: string
  of_deploymentId :: string
  of_chainKey :: string
  of_blockHash :: string
  of_blockNumber :: int
  of_subject :: string
  of_amount :: "int option"
  of_finalityBasis :: string
  of_providerGroups :: "string list"
  of_payloadDigest :: string
  of_observedAt :: int
  of_expiresAt :: int

record checkpoint =
  cp_deploymentId :: string
  cp_chainKey :: string
  cp_lastBlockNumber :: int
  cp_lastBlockHash :: string

record ingest_batch =
  ib_deploymentId :: string
  ib_chainKey :: string
  ib_blocks :: "block_fact list"
  ib_logs :: "log_fact list"
  ib_observations :: "observation_fact list"
  ib_checkpoint :: "checkpoint option"

record ingest_outcome =
  io_blocksInserted :: nat
  io_logsInserted :: nat
  io_observationsInserted :: nat
  io_checkpointAdvanced :: bool
  io_rangeDigest :: string

datatype integrity_kind = RPC_INTEGRITY_CONFLICT | ACCEPTED_HASH_CONFLICT | LOG_DIGEST_DIVERGENCE

record integrity_incident =
  ii_kind :: integrity_kind
  ii_chainKey :: string
  ii_blockNumber :: "int option"
  ii_expectedHash :: "string option"
  ii_observedHash :: "string option"
  ii_lane :: string

record range_status_row =
  rs_deploymentId :: string
  rs_chainKey :: string
  rs_fromBlock :: int
  rs_toBlock :: int
  rs_status :: replay_status
  rs_reasonCode :: "replay_reason option"
  rs_providerGroup :: "string option"

record data_quality_incident =
  dq_deploymentId :: string
  dq_chainKey :: string
  dq_reasonCode :: replay_reason
  dq_fromBlock :: int
  dq_toBlock :: int
  dq_providerGroup :: "string option"
  dq_runbook :: string
  dq_summary :: string
  dq_span :: string

record completeness_row =
  cw_status :: replay_status
  cw_verdict :: verdict
  cw_windowFrom :: int
  cw_windowTo :: int
  cw_gapCount :: int
  cw_reasons :: "replay_reason list"
  cw_lastSuccessAt :: "int option"
  cw_evaluatedAt :: int

type_synonym ('k, 'v) table = "('k \<times> 'v) list"

record ledger =
  chain_blocks :: "(string \<times> string, block_fact) table"
  chain_logs :: "(string \<times> string \<times> string \<times> int, log_fact) table"
  observations :: "(string \<times> string \<times> string \<times> string, observation_fact) table"
  replay_checkpoints :: "(string \<times> string, int \<times> string) table"
  integrity_incidents :: "(string, integrity_incident) table"
  block_status_events :: "(string, string \<times> string \<times> string) table"
  replay_ranges :: "(string, range_status_row) table"
  data_quality_incidents :: "(string, data_quality_incident) table"
  remote_candidates :: "(string \<times> string \<times> string, int \<times> string) table"
  replay_completeness :: "(string \<times> string, completeness_row) table"

text \<open>\<open>insert ... on conflict (key) do nothing\<close>, once the other constraints hold.\<close>

definition insert_new :: "'k \<Rightarrow> 'v \<Rightarrow> ('k, 'v) table \<Rightarrow> ('k, 'v) table" where
  "insert_new k v t = (if has_key t k then t else t @ [(k, v)])"

text \<open>
  A value of a \<open>bigint\<close> column, and one of a \<open>bigint\<close> or \<open>integer\<close> column that must not be
  negative. \<open>CheckViolation\<close> is every value that a column or its checks refuse.
\<close>

definition int8 :: "int \<Rightarrow> bool" where
  "int8 n \<longleftrightarrow> - (2 ^ 63) \<le> n \<and> n < 2 ^ 63"

definition column_nat :: "nat \<Rightarrow> int \<Rightarrow> bool" where
  "column_nat bits n \<longleftrightarrow> 0 \<le> n \<and> n < 2 ^ (bits - 1)"

section \<open>Inserting facts (ledger.ts)\<close>

definition block_row_ok :: "block_fact \<Rightarrow> bool" where
  "block_row_ok b \<longleftrightarrow> hex_string 64 (bf_blockHash b) \<and> hex_string 64 (bf_parentHash b)
     \<and> column_nat 64 (bf_blockNumber b) \<and> int8 (bf_blockTimestamp b)"

abbreviation block_id :: "block_fact \<Rightarrow> string \<times> string" where
  "block_id b \<equiv> (bf_chainKey b, bf_blockHash b)"

text \<open>The accepted block of a height, by the partial unique index there is at most one.\<close>

definition accepted_at :: "ledger \<Rightarrow> string \<Rightarrow> int \<Rightarrow> block_fact option" where
  "accepted_at ld chainKey n =
     find (\<lambda>b. bf_chainKey b = chainKey \<and> bf_blockNumber b = n \<and> bf_observedClass b = ObservedAccepted)
       (map snd (chain_blocks ld))"

definition insert_block :: "ledger \<times> nat \<Rightarrow> block_fact \<Rightarrow> db_error + ledger \<times> nat" where
  "insert_block st b =
     (let (ld, inserted) = st
      in if \<not> block_row_ok b then Inl CheckViolation
         else if has_key (chain_blocks ld) (block_id b) then Inr (ld, inserted)
         else if bf_observedClass b = ObservedAccepted
                 \<and> accepted_at ld (bf_chainKey b) (bf_blockNumber b) \<noteq> None
         then Inl AcceptedHeightViolation
         else Inr (ld\<lparr>chain_blocks := chain_blocks ld @ [(block_id b, b)]\<rparr>, inserted + 1))"

definition insertBlocks :: "ledger \<Rightarrow> block_fact list \<Rightarrow> db_error + ledger \<times> nat" where
  "insertBlocks ld blocks = fold_result insert_block (ld, 0) blocks"

definition log_row_ok :: "log_fact \<Rightarrow> bool" where
  "log_row_ok l \<longleftrightarrow> hex_string 64 (lf_txHash l) \<and> hex_string 40 (lf_address l)
     \<and> column_nat 32 (lf_logIndex l) \<and> column_nat 32 (lf_txIndex l)
     \<and> int8 (lf_blockNumber l) \<and> length (lf_topics l) \<le> 4"

abbreviation log_id :: "log_fact \<Rightarrow> string \<times> string \<times> string \<times> int" where
  "log_id l \<equiv> (lf_chainKey l, lf_blockHash l, lf_txHash l, lf_logIndex l)"

definition insert_log :: "ledger \<times> nat \<Rightarrow> log_fact \<Rightarrow> db_error + ledger \<times> nat" where
  "insert_log st l =
     (let (ld, inserted) = st
      in if \<not> log_row_ok l then Inl CheckViolation
         else if has_key (chain_logs ld) (log_id l) then Inr (ld, inserted)
         else if \<not> has_key (chain_blocks ld) (lf_chainKey l, lf_blockHash l) then Inl ForeignKeyViolation
         else Inr (ld\<lparr>chain_logs := chain_logs ld @ [(log_id l, l)]\<rparr>, inserted + 1))"

definition insertLogs :: "ledger \<Rightarrow> log_fact list \<Rightarrow> db_error + ledger \<times> nat" where
  "insertLogs ld logs = fold_result insert_log (ld, 0) logs"

definition observation_row_ok :: "observation_fact \<Rightarrow> bool" where
  "observation_row_ok ob \<longleftrightarrow> 1 \<le> length (of_providerGroups ob)
     \<and> (case of_amount ob of None \<Rightarrow> True | Some a \<Rightarrow> 0 \<le> a \<and> a < 10 ^ 78)
     \<and> length (of_payloadDigest ob) = 64 \<and> list_all is_lower_hex (of_payloadDigest ob)
     \<and> int8 (of_blockNumber ob)
     \<and> of_expiresAt ob > of_observedAt ob"

abbreviation observation_id :: "observation_fact \<Rightarrow> string \<times> string \<times> string \<times> string" where
  "observation_id ob \<equiv> (of_deploymentId ob, of_chainKey ob, of_blockHash ob, of_subject ob)"

definition insert_observation :: "ledger \<times> nat \<Rightarrow> observation_fact \<Rightarrow> db_error + ledger \<times> nat" where
  "insert_observation st ob =
     (let (ld, inserted) = st
      in if \<not> observation_row_ok ob then Inl CheckViolation
         else if has_key (observations ld) (observation_id ob) then Inr (ld, inserted)
         else if of_observationId ob \<in> set (map (of_observationId \<circ> snd) (observations ld))
         then Inl UniqueViolation
         else if \<not> has_key (chain_blocks ld) (of_chainKey ob, of_blockHash ob) then Inl ForeignKeyViolation
         else Inr (ld\<lparr>observations := observations ld @ [(observation_id ob, ob)]\<rparr>, inserted + 1))"

definition insertObservations :: "ledger \<Rightarrow> observation_fact list \<Rightarrow> db_error + ledger \<times> nat" where
  "insertObservations ld obs = fold_result insert_observation (ld, 0) obs"

section \<open>Checkpoints and the ingest transaction\<close>

abbreviation lane_of :: "string \<Rightarrow> string \<Rightarrow> ledger \<Rightarrow> (int \<times> string) option" where
  "lane_of deploymentId chainKey ld \<equiv> map_of (replay_checkpoints ld) (deploymentId, chainKey)"

definition readCheckpoint :: "ledger \<Rightarrow> string \<Rightarrow> string \<Rightarrow> (int \<times> string) option" where
  "readCheckpoint ld deploymentId chainKey = map_of (replay_checkpoints ld) (deploymentId, chainKey)"

text \<open>The monotonic upsert: a lower or equal checkpoint leaves the row alone.\<close>

definition advance_checkpoint :: "ledger \<Rightarrow> checkpoint \<Rightarrow> db_error + ledger \<times> bool" where
  "advance_checkpoint ld c =
     (let lane = (cp_deploymentId c, cp_chainKey c);
          row = (cp_lastBlockNumber c, cp_lastBlockHash c);
          written = ld\<lparr>replay_checkpoints := AList.update lane row (replay_checkpoints ld)\<rparr>
      in if \<not> (hex_string 64 (cp_lastBlockHash c) \<and> column_nat 64 (cp_lastBlockNumber c))
         then Inl CheckViolation
         else case map_of (replay_checkpoints ld) lane of
                None \<Rightarrow> Inr (written, True)
              | Some (n, _) \<Rightarrow> if n < cp_lastBlockNumber c then Inr (written, True) else Inr (ld, False))"

definition ingest_transaction ::
  "(string \<Rightarrow> string) \<Rightarrow> ledger \<Rightarrow> ingest_batch \<Rightarrow> db_error + ledger \<times> ingest_outcome" where
  "ingest_transaction sha ld batch =
     (case insertBlocks ld (ib_blocks batch) of Inl e \<Rightarrow> Inl e
      | Inr (ld1, blocksInserted) \<Rightarrow>
     (case insertLogs ld1 (ib_logs batch) of Inl e \<Rightarrow> Inl e
      | Inr (ld2, logsInserted) \<Rightarrow>
     (case insertObservations ld2 (ib_observations batch) of Inl e \<Rightarrow> Inl e
      | Inr (ld3, observationsInserted) \<Rightarrow>
     (case (case ib_checkpoint batch of None \<Rightarrow> Inr (ld3, False)
            | Some c \<Rightarrow> advance_checkpoint ld3 c) of Inl e \<Rightarrow> Inl e
      | Inr (ld4, advanced) \<Rightarrow>
          Inr (ld4, \<lparr>io_blocksInserted = blocksInserted, io_logsInserted = logsInserted,
                     io_observationsInserted = observationsInserted,
                     io_checkpointAdvanced = advanced,
                     io_rangeDigest = canonicalLogDigest sha (ib_logs batch)\<rparr>)))))"

datatype ingest_error =
  AcceptedHashConflict string int string string
| DatabaseError db_error

definition or_null :: "string option \<Rightarrow> string" where
  "or_null s = (case s of None \<Rightarrow> ''null'' | Some t \<Rightarrow> t)"

definition or_unknown :: "string option \<Rightarrow> string" where
  "or_unknown s = (case s of None \<Rightarrow> ''unknown'' | Some t \<Rightarrow> t)"

definition ingestBatch ::
  "(string \<Rightarrow> string) \<Rightarrow> ledger \<Rightarrow> ingest_batch \<Rightarrow> ledger \<times> (ingest_error + ingest_outcome)" where
  "ingestBatch sha ld batch =
     (case ingest_transaction sha ld batch of
        Inr (ld', outcome) \<Rightarrow> (ld', Inr outcome)
      | Inl AcceptedHeightViolation \<Rightarrow>
          let offending = find (\<lambda>b. bf_observedClass b = ObservedAccepted) (ib_blocks batch);
              chainKey = (case offending of Some b \<Rightarrow> bf_chainKey b | None \<Rightarrow> ib_chainKey batch);
              blockNumber = map_option bf_blockNumber offending;
              stored = (case blockNumber of None \<Rightarrow> None
                        | Some n \<Rightarrow> map_option bf_blockHash (accepted_at ld chainKey n));
              observedHash = map_option bf_blockHash offending;
              incidentId = sha (chainKey @ ''|'' @ or_null (map_option show_int blockNumber) @ ''|''
                                @ or_null stored @ ''|'' @ or_null observedHash);
              incident = \<lparr>ii_kind = ACCEPTED_HASH_CONFLICT, ii_chainKey = chainKey,
                          ii_blockNumber = blockNumber, ii_expectedHash = stored,
                          ii_observedHash = observedHash,
                          ii_lane = ib_deploymentId batch @ '':'' @ ib_chainKey batch\<rparr>
          in (ld\<lparr>integrity_incidents := insert_new incidentId incident (integrity_incidents ld)\<rparr>,
              Inl (AcceptedHashConflict chainKey (case blockNumber of Some n \<Rightarrow> n | None \<Rightarrow> 0)
                     (or_unknown stored) (or_unknown observedHash)))
      | Inl e \<Rightarrow> (ld, Inl (DatabaseError e)))"

definition recordCandidateOrphan ::
  "ledger \<Rightarrow> string \<Rightarrow> string \<Rightarrow> string \<Rightarrow> string \<Rightarrow> string + ledger" where
  "recordCandidateOrphan ld eventId chainKey blockHash reason =
     (case map_of (chain_blocks ld) (chainKey, blockHash) of
        None \<Rightarrow> Inl (''unknown block '' @ chainKey @ ''/'' @ blockHash)
      | Some b \<Rightarrow>
          if bf_observedClass b \<noteq> ObservedCandidate
          then Inl (''refusing to orphan a block observed as '' @ observed_class_text (bf_observedClass b)
                    @ ''; only candidates may be orphaned'')
          else Inr (ld\<lparr>block_status_events :=
                 insert_new eventId (chainKey, blockHash, reason) (block_status_events ld)\<rparr>))"

section \<open>Replay tables (replay-store.ts)\<close>

definition recordDataQualityIncident ::
  "ledger \<Rightarrow> string \<Rightarrow> data_quality_incident \<Rightarrow> db_error + ledger" where
  "recordDataQualityIncident ld incidentId incident =
     (if \<not> (dq_fromBlock incident \<le> dq_toBlock incident
            \<and> int8 (dq_fromBlock incident) \<and> int8 (dq_toBlock incident)) then Inl CheckViolation
      else Inr (ld\<lparr>data_quality_incidents :=
             insert_new incidentId incident (data_quality_incidents ld)\<rparr>))"

definition recordRemoteCandidate :: "ledger \<Rightarrow> string \<Rightarrow> remote_candidate \<Rightarrow> db_error + ledger" where
  "recordRemoteCandidate ld deploymentId row =
     (if \<not> (hex_string 64 (cd_remoteBlockchainId row) \<and> hex_string 40 (cd_remoteAddress row)
            \<and> hex_string 64 (cd_registeredAtBlockHash row) \<and> int8 (cd_registeredAtBlock row))
      then Inl CheckViolation
      else Inr (ld\<lparr>remote_candidates :=
             insert_new (deploymentId, cd_remoteBlockchainId row, cd_remoteAddress row)
               (cd_registeredAtBlock row, cd_registeredAtBlockHash row) (remote_candidates ld)\<rparr>))"

definition upsertCompleteness ::
  "ledger \<Rightarrow> string \<Rightarrow> string \<Rightarrow> completeness_row \<Rightarrow> db_error + ledger" where
  "upsertCompleteness ld deploymentId chainKey row =
     (if \<not> ((cw_verdict row = OK \<longleftrightarrow> cw_status row = RComplete) \<and> 0 \<le> cw_gapCount row
            \<and> cw_windowFrom row \<le> cw_windowTo row
            \<and> int8 (cw_windowFrom row) \<and> int8 (cw_windowTo row))
      then Inl CheckViolation
      else Inr (ld\<lparr>replay_completeness :=
             AList.update (deploymentId, chainKey) row (replay_completeness ld)\<rparr>))"

definition readCompleteness :: "ledger \<Rightarrow> string \<Rightarrow> string \<Rightarrow> completeness_row option" where
  "readCompleteness ld deploymentId chainKey = map_of (replay_completeness ld) (deploymentId, chainKey)"

definition readCommittedRanges :: "ledger \<Rightarrow> string \<Rightarrow> string \<Rightarrow> block_range list" where
  "readCommittedRanges ld deploymentId chainKey =
     sort_key fromBlock
       (map (\<lambda>r. \<lparr>fromBlock = rs_fromBlock r, toBlock = rs_toBlock r\<rparr>)
         (filter (\<lambda>r. rs_deploymentId r = deploymentId \<and> rs_chainKey r = chainKey \<and> rs_status r = RComplete)
           (map snd (replay_ranges ld))))"

text \<open>
  On conflict the identity columns stay as first written and status, reason and group are replaced.
\<close>

definition upsertRangeStatus :: "ledger \<Rightarrow> string \<Rightarrow> range_status_row \<Rightarrow> db_error + ledger" where
  "upsertRangeStatus ld rangeId row =
     (if \<not> (rs_fromBlock row \<le> rs_toBlock row \<and> int8 (rs_fromBlock row) \<and> int8 (rs_toBlock row))
      then Inl CheckViolation
      else let written = (case map_of (replay_ranges ld) rangeId of
                 None \<Rightarrow> row
               | Some old \<Rightarrow> old\<lparr>rs_status := rs_status row, rs_reasonCode := rs_reasonCode row,
                                rs_providerGroup := rs_providerGroup row\<rparr>)
           in Inr (ld\<lparr>replay_ranges := AList.update rangeId written (replay_ranges ld)\<rparr>))"

section \<open>The fact tables are first-write-wins stores\<close>

interpretation block_store: checked_store "block_id" "\<lambda>st. map_of (chain_blocks (fst st))" insert_block block_row_ok
  by unfold_locales
    (auto simp: insert_block_def Let_def has_key_map_of map_add_Some_iff split: if_splits option.splits)

interpretation log_store: checked_store "log_id" "\<lambda>st. map_of (chain_logs (fst st))" insert_log log_row_ok
  by unfold_locales
    (auto simp: insert_log_def Let_def has_key_map_of map_add_Some_iff split: if_splits option.splits)

interpretation observation_store: checked_store "observation_id" "\<lambda>st. map_of (observations (fst st))"
    insert_observation observation_row_ok
  by unfold_locales
    (auto simp: insert_observation_def Let_def has_key_map_of map_add_Some_iff split: if_splits option.splits)

text \<open>What an accepted write says: the row is in order, its key is taken, nothing else moved.\<close>

lemma insert_block_Inr:
  "insert_block (ld, n) b = Inr (ld', n') \<Longrightarrow>
     block_row_ok b \<and> has_key (chain_blocks ld') (block_id b)
     \<and> (\<exists>t. ld' = ld\<lparr>chain_blocks := t\<rparr>)"
  by (auto simp: insert_block_def Let_def split: if_splits) (metis ledger.surjective ledger.update_convs(1))

lemma insert_log_Inr:
  "insert_log (ld, n) l = Inr (ld', n') \<Longrightarrow>
     log_row_ok l \<and> has_key (chain_logs ld') (log_id l) \<and> (\<exists>t. ld' = ld\<lparr>chain_logs := t\<rparr>)"
  by (auto simp: insert_log_def Let_def split: if_splits) (metis ledger.surjective ledger.update_convs(2))

lemma insert_observation_Inr:
  "insert_observation (ld, n) ob = Inr (ld', n') \<Longrightarrow>
     observation_row_ok ob \<and> has_key (observations ld') (observation_id ob)
     \<and> (\<exists>t. ld' = ld\<lparr>observations := t\<rparr>)"
  by (auto simp: insert_observation_def Let_def split: if_splits) (metis ledger.surjective ledger.update_convs(3))

text \<open>A fold of writes touches only the table its single writes touch.\<close>

lemma writes_frame:
  assumes run: "fold_result f (s, 0) xs = Inr (s', n)"
    and step: "\<And>s n x s' n'. f (s, n) x = Inr (s', n') \<Longrightarrow> \<exists>t. s' = put t s"
    and again: "\<And>t t' s. put t (put t' s) = put t s" and same: "put (get s) s = s"
  shows "\<exists>t. s' = put t s"
proof -
  have "\<exists>t. fst (s', n) = put t s"
  proof (rule fold_result_invariant [OF run])
    show "\<exists>t. fst (s, 0) = put t s" using same by (metis fst_conv)
  next
    fix st x st' assume inv: "\<exists>t. fst st = put t s" and w: "f st x = Inr st'"
    then obtain t where t: "fst st = put t s" by blast
    from w have "f (fst st, snd st) x = Inr (fst st', snd st')" by simp
    from step [OF this] obtain t' where "fst st' = put t' (fst st)" by blast
    with t show "\<exists>t. fst st' = put t s" by (auto simp: again)
  qed
  then show ?thesis by simp
qed

lemma insertBlocks_frame: "insertBlocks ld bs = Inr (ld', n) \<Longrightarrow> \<exists>t. ld' = ld\<lparr>chain_blocks := t\<rparr>"
  unfolding insertBlocks_def
  by (rule writes_frame [where f = insert_block and get = chain_blocks]) (auto dest: insert_block_Inr)

lemma insertLogs_frame: "insertLogs ld ls = Inr (ld', n) \<Longrightarrow> \<exists>t. ld' = ld\<lparr>chain_logs := t\<rparr>"
  unfolding insertLogs_def
  by (rule writes_frame [where f = insert_log and get = chain_logs]) (auto dest: insert_log_Inr)

lemma insertObservations_frame:
  "insertObservations ld obs = Inr (ld', n) \<Longrightarrow> \<exists>t. ld' = ld\<lparr>observations := t\<rparr>"
  unfolding insertObservations_def
  by (rule writes_frame [where f = insert_observation and get = observations])
    (auto dest: insert_observation_Inr)

section \<open>An ingest commits everything or nothing\<close>

lemma ingest_transaction_Inr:
  assumes "ingest_transaction sha ld batch = Inr (ld', out)"
  obtains ld1 n1 ld2 n2 ld3 n3 where
    "insertBlocks ld (ib_blocks batch) = Inr (ld1, n1)"
    "insertLogs ld1 (ib_logs batch) = Inr (ld2, n2)"
    "insertObservations ld2 (ib_observations batch) = Inr (ld3, n3)"
    "(case ib_checkpoint batch of None \<Rightarrow> Inr (ld3, False) | Some c \<Rightarrow> advance_checkpoint ld3 c)
       = Inr (ld', io_checkpointAdvanced out)"
    "out = \<lparr>io_blocksInserted = n1, io_logsInserted = n2, io_observationsInserted = n3,
            io_checkpointAdvanced = io_checkpointAdvanced out,
            io_rangeDigest = canonicalLogDigest sha (ib_logs batch)\<rparr>"
  using assms unfolding ingest_transaction_def
  by (auto split: sum.splits prod.splits option.splits)

text \<open>What a batch does to a checkpoint row.\<close>

definition checkpoint_after :: "ingest_batch \<Rightarrow> string \<times> string \<Rightarrow> (int \<times> string) option \<Rightarrow> (int \<times> string) option" where
  "checkpoint_after batch lane old =
     (case ib_checkpoint batch of None \<Rightarrow> old
      | Some c \<Rightarrow>
          if lane = (cp_deploymentId c, cp_chainKey c)
             \<and> (case old of None \<Rightarrow> True | Some (n, _) \<Rightarrow> n < cp_lastBlockNumber c)
          then Some (cp_lastBlockNumber c, cp_lastBlockHash c) else old)"

lemma advance_checkpoint_frame:
  assumes "advance_checkpoint ld c = Inr (ld', advanced)"
  shows "\<exists>t. ld' = ld\<lparr>replay_checkpoints := t\<rparr>"
proof -
  have "\<exists>t. ld = ld\<lparr>replay_checkpoints := t\<rparr>" by (rule exI [of _ "replay_checkpoints ld"]) simp
  moreover have "ld' = ld \<or> (\<exists>t. ld' = ld\<lparr>replay_checkpoints := t\<rparr>)"
    using assms by (auto simp: advance_checkpoint_def Let_def split: if_splits option.splits prod.splits)
  ultimately show ?thesis by blast
qed

lemma advance_checkpoint_lookup:
  assumes "advance_checkpoint ld c = Inr (ld', advanced)" and "ib_checkpoint batch = Some c"
  shows "map_of (replay_checkpoints ld') lane = checkpoint_after batch lane (map_of (replay_checkpoints ld) lane)"
  using assms by (auto simp: advance_checkpoint_def checkpoint_after_def Let_def update_conv'
      split: if_splits option.splits prod.splits)

definition first_of :: "('i \<Rightarrow> 'k) \<Rightarrow> 'i list \<Rightarrow> 'k \<Rightarrow> 'i option \<Rightarrow> 'i option" where
  "first_of ident xs k old = (case old of Some y \<Rightarrow> Some y | None \<Rightarrow> find (\<lambda>x. ident x = k) xs)"

lemma ingest_transaction_effect:
  assumes "ingest_transaction sha ld batch = Inr (ld', out)"
  shows "map_of (chain_blocks ld') k1 = first_of block_id (ib_blocks batch) k1 (map_of (chain_blocks ld) k1)"
    and "map_of (chain_logs ld') k2 = first_of log_id (ib_logs batch) k2 (map_of (chain_logs ld) k2)"
    and "map_of (observations ld') k3
       = first_of observation_id (ib_observations batch) k3 (map_of (observations ld) k3)"
    and "map_of (replay_checkpoints ld') lane
       = checkpoint_after batch lane (map_of (replay_checkpoints ld) lane)"
    and "\<exists>b l ob c. ld' = ld\<lparr>chain_blocks := b, chain_logs := l, observations := ob, replay_checkpoints := c\<rparr>"
proof -
  obtain ld1 n1 ld2 n2 ld3 n3 where
    b: "insertBlocks ld (ib_blocks batch) = Inr (ld1, n1)" and
    l: "insertLogs ld1 (ib_logs batch) = Inr (ld2, n2)" and
    ob: "insertObservations ld2 (ib_observations batch) = Inr (ld3, n3)" and
    c: "(case ib_checkpoint batch of None \<Rightarrow> Inr (ld3, False) | Some c \<Rightarrow> advance_checkpoint ld3 c)
       = Inr (ld', io_checkpointAdvanced out)"
    using ingest_transaction_Inr [OF assms] by metis
  obtain t1 t2 t3 where t: "ld1 = ld\<lparr>chain_blocks := t1\<rparr>" "ld2 = ld1\<lparr>chain_logs := t2\<rparr>"
    "ld3 = ld2\<lparr>observations := t3\<rparr>"
    using insertBlocks_frame [OF b] insertLogs_frame [OF l] insertObservations_frame [OF ob] by blast
  obtain t4 where t4: "ld' = ld3\<lparr>replay_checkpoints := t4\<rparr>"
    and lane: "map_of (replay_checkpoints ld') lane = checkpoint_after batch lane (map_of (replay_checkpoints ld3) lane)"
  proof (cases "ib_checkpoint batch")
    case None
    with c show ?thesis
      by (intro that [of "replay_checkpoints ld3"]) (simp_all add: checkpoint_after_def)
  next
    case (Some cp)
    with c have adv: "advance_checkpoint ld3 cp = Inr (ld', io_checkpointAdvanced out)" by simp
    show ?thesis using advance_checkpoint_lookup [OF adv Some] advance_checkpoint_frame [OF adv] that by blast
  qed
  show "map_of (chain_blocks ld') k1 = first_of block_id (ib_blocks batch) k1 (map_of (chain_blocks ld) k1)"
    using block_store.puts_lookup [OF b [unfolded insertBlocks_def], of k1] t t4 by (simp add: first_of_def)
  show "map_of (chain_logs ld') k2 = first_of log_id (ib_logs batch) k2 (map_of (chain_logs ld) k2)"
    using log_store.puts_lookup [OF l [unfolded insertLogs_def], of k2] t t4 by (simp add: first_of_def)
  show "map_of (observations ld') k3 = first_of observation_id (ib_observations batch) k3 (map_of (observations ld) k3)"
    using observation_store.puts_lookup [OF ob [unfolded insertObservations_def], of k3] t t4
    by (simp add: first_of_def)
  show "map_of (replay_checkpoints ld') lane = checkpoint_after batch lane (map_of (replay_checkpoints ld) lane)"
    using lane t by simp
  show "\<exists>b l ob c. ld' = ld\<lparr>chain_blocks := b, chain_logs := l, observations := ob, replay_checkpoints := c\<rparr>"
    using t t4 by blast
qed

lemma ingestBatch_Inr:
  "ingestBatch sha ld batch = (ld', Inr out) \<longleftrightarrow> ingest_transaction sha ld batch = Inr (ld', out)"
  by (auto simp: ingestBatch_def Let_def split: sum.splits db_error.splits prod.splits)

lemma ingestBatch_Inl:
  assumes "ingestBatch sha ld batch = (ld', Inl e)"
  shows "\<exists>t. ld' = ld\<lparr>integrity_incidents := t\<rparr>"
proof -
  have "\<exists>t. ld = ld\<lparr>integrity_incidents := t\<rparr>" by (rule exI [of _ "integrity_incidents ld"]) simp
  then show ?thesis
    using assms by (auto simp: ingestBatch_def Let_def split: sum.splits db_error.splits prod.splits)
qed

text \<open>
  Facts and the checkpoint that covers them move together or not at all. An ingest that
  succeeds stores, under every identity, the first fact ever offered for it, and moves the lane's
  checkpoint only forward; one that fails, for whatever reason, leaves every fact and every
  checkpoint exactly as they were.
\<close>

theorem ingestBatch_atomic:
  "case ingestBatch sha ld batch of
     (ld', Inr out) \<Rightarrow>
       map_of (chain_blocks ld') k = first_of block_id (ib_blocks batch) k (map_of (chain_blocks ld) k)
       \<and> map_of (chain_logs ld') j = first_of log_id (ib_logs batch) j (map_of (chain_logs ld) j)
       \<and> readCheckpoint ld' d c = checkpoint_after batch (d, c) (readCheckpoint ld d c)
   | (ld', Inl e) \<Rightarrow>
       chain_blocks ld' = chain_blocks ld \<and> chain_logs ld' = chain_logs ld
       \<and> observations ld' = observations ld \<and> readCheckpoint ld' d c = readCheckpoint ld d c"
proof -
  obtain ld' r where run: "ingestBatch sha ld batch = (ld', r)" by fastforce
  show ?thesis
  proof (cases r)
    case (Inl e)
    from ingestBatch_Inl [OF run [unfolded Inl]] show ?thesis
      by (auto simp: run Inl readCheckpoint_def)
  next
    case (Inr out)
    note eff = ingest_transaction_effect [OF run [unfolded Inr ingestBatch_Inr]]
    show ?thesis by (simp add: run Inr eff(1,2,4) readCheckpoint_def)
  qed
qed

section \<open>The integrity boundary\<close>

text \<open>
  Every row sits under its own identity, a height has at most one accepted block, and a log has
  its block.
\<close>

definition same_height :: "block_fact \<Rightarrow> block_fact \<Rightarrow> bool" where
  "same_height b c \<longleftrightarrow> bf_observedClass b = ObservedAccepted \<and> bf_observedClass c = ObservedAccepted
     \<and> bf_chainKey b = bf_chainKey c \<and> bf_blockNumber b = bf_blockNumber c"

definition keyed_by :: "('v \<Rightarrow> 'k) \<Rightarrow> ('k, 'v) table \<Rightarrow> bool" where
  "keyed_by ident t \<longleftrightarrow> distinct (map fst t) \<and> (\<forall>r \<in> set t. fst r = ident (snd r))"

definition blocks_ok :: "(string \<times> string, block_fact) table \<Rightarrow> bool" where
  "blocks_ok t \<longleftrightarrow> keyed_by block_id t
     \<and> (\<forall>b \<in> snd ` set t. \<forall>c \<in> snd ` set t. same_height b c \<longrightarrow> b = c)"

definition logs_ok :: "(string \<times> string, block_fact) table
    \<Rightarrow> (string \<times> string \<times> string \<times> int, log_fact) table \<Rightarrow> bool" where
  "logs_ok bt lt \<longleftrightarrow> keyed_by log_id lt
     \<and> (\<forall>l \<in> snd ` set lt. has_key bt (lf_chainKey l, lf_blockHash l))"

definition ledger_ok :: "ledger \<Rightarrow> bool" where
  "ledger_ok ld \<longleftrightarrow> blocks_ok (chain_blocks ld) \<and> logs_ok (chain_blocks ld) (chain_logs ld)"

lemma keyed_by_append:
  "keyed_by ident t \<Longrightarrow> \<not> has_key t (ident v) \<Longrightarrow> keyed_by ident (t @ [(ident v, v)])"
  by (auto simp: keyed_by_def has_key_def)

lemma keyed_by_row: "keyed_by ident t \<Longrightarrow> v \<in> snd ` set t \<Longrightarrow> map_of t (ident v) = Some v"
  by (auto simp: keyed_by_def intro!: map_of_is_SomeI)

lemma blocks_ok_append:
  assumes "blocks_ok t" and "\<not> has_key t (block_id b)" and fresh: "\<And>c. c \<in> snd ` set t \<Longrightarrow> \<not> same_height b c"
  shows "blocks_ok (t @ [(block_id b, b)])"
proof -
  have rows: "snd ` set (t @ [(block_id b, b)]) = insert b (snd ` set t)" by auto
  have "\<not> same_height c b" if "c \<in> snd ` set t" for c
    using fresh [OF that] by (auto simp: same_height_def)
  with fresh assms(1)
  have "\<forall>c \<in> insert b (snd ` set t). \<forall>d \<in> insert b (snd ` set t). same_height c d \<longrightarrow> c = d"
    by (simp add: blocks_ok_def)
  moreover have "keyed_by block_id (t @ [(block_id b, b)])"
    using assms(1,2) unfolding blocks_ok_def by (intro keyed_by_append) auto
  ultimately show ?thesis unfolding blocks_ok_def rows by blast
qed

lemma logs_ok_append:
  assumes "logs_ok bt lt" and "\<not> has_key lt (log_id l)" and "has_key bt (lf_chainKey l, lf_blockHash l)"
  shows "logs_ok bt (lt @ [(log_id l, l)])"
proof -
  have rows: "snd ` set (lt @ [(log_id l, l)]) = insert l (snd ` set lt)" by auto
  have "keyed_by log_id (lt @ [(log_id l, l)])"
    using assms(1,2) keyed_by_append [of log_id lt l] by (simp add: logs_ok_def)
  then show ?thesis using assms unfolding logs_ok_def rows by blast
qed

lemma accepted_at_None:
  "accepted_at ld chainKey n = None \<longleftrightarrow>
     (\<forall>b \<in> snd ` set (chain_blocks ld). bf_chainKey b = chainKey \<longrightarrow> bf_blockNumber b = n
        \<longrightarrow> bf_observedClass b \<noteq> ObservedAccepted)"
  by (auto simp: accepted_at_def find_None_iff)

lemma accepted_at_Some:
  "accepted_at ld chainKey n = Some b \<Longrightarrow>
     b \<in> snd ` set (chain_blocks ld) \<and> bf_chainKey b = chainKey \<and> bf_blockNumber b = n
     \<and> bf_observedClass b = ObservedAccepted"
  by (auto simp: accepted_at_def find_Some_iff)

lemma insert_block_ok:
  assumes "ledger_ok (fst st)" and "insert_block st b = Inr st'"
  shows "ledger_ok (fst st')"
proof -
  obtain ld n ld' n' where st: "st = (ld, n)" "st' = (ld', n')" by (cases st; cases st') auto
  consider "ld' = ld" | "ld' = ld\<lparr>chain_blocks := chain_blocks ld @ [(block_id b, b)]\<rparr>"
      "\<not> has_key (chain_blocks ld) (block_id b)"
      "bf_observedClass b = ObservedAccepted \<longrightarrow> accepted_at ld (bf_chainKey b) (bf_blockNumber b) = None"
    using assms(2) st by (auto simp: insert_block_def Let_def split: if_splits)
  then show ?thesis
  proof cases
    case 2
    have "\<not> same_height b c" if "c \<in> snd ` set (chain_blocks ld)" for c
      using 2(3) that by (auto simp: accepted_at_None same_height_def)
    then have "blocks_ok (chain_blocks ld')"
      using assms(1) blocks_ok_append [OF _ 2(2)] st 2(1) by (simp add: ledger_ok_def)
    then show ?thesis using assms(1) unfolding st 2(1) by (simp add: ledger_ok_def logs_ok_def)
  qed (use assms st in simp)
qed

lemma insert_log_ok:
  assumes "ledger_ok (fst st)" and "insert_log st l = Inr st'"
  shows "ledger_ok (fst st')"
proof -
  obtain ld n ld' n' where st: "st = (ld, n)" "st' = (ld', n')" by (cases st; cases st') auto
  have "ld' = ld \<or> \<not> has_key (chain_logs ld) (log_id l) \<and> has_key (chain_blocks ld) (lf_chainKey l, lf_blockHash l)
      \<and> ld' = ld\<lparr>chain_logs := chain_logs ld @ [(log_id l, l)]\<rparr>"
    using assms(2) st by (auto simp: insert_log_def Let_def split: if_splits)
  then show ?thesis using assms(1) st logs_ok_append by (auto simp: ledger_ok_def)
qed

lemma insert_observation_ok:
  assumes "ledger_ok (fst st)" and "insert_observation st ob = Inr st'"
  shows "ledger_ok (fst st')"
proof -
  obtain ld n ld' n' where st: "st = (ld, n)" "st' = (ld', n')" by (cases st; cases st') auto
  with assms(2) obtain t where "ld' = ld\<lparr>observations := t\<rparr>" by (auto dest: insert_observation_Inr)
  then show ?thesis using assms(1) st by (simp add: ledger_ok_def)
qed

lemma advance_checkpoint_ok:
  assumes "ledger_ok ld" and "advance_checkpoint ld c = Inr (ld', advanced)"
  shows "ledger_ok ld'"
proof -
  have "\<exists>t. ld' = ld\<lparr>replay_checkpoints := t\<rparr>"
    using assms(2) by (rule advance_checkpoint_frame)
  with assms(1) show ?thesis by (auto simp: ledger_ok_def)
qed

lemma ingest_transaction_ok:
  assumes "ledger_ok ld" and "ingest_transaction sha ld batch = Inr (ld', out)"
  shows "ledger_ok ld'"
proof -
  obtain ld1 n1 ld2 n2 ld3 n3 where
    b: "insertBlocks ld (ib_blocks batch) = Inr (ld1, n1)" and
    l: "insertLogs ld1 (ib_logs batch) = Inr (ld2, n2)" and
    ob: "insertObservations ld2 (ib_observations batch) = Inr (ld3, n3)" and
    c: "(case ib_checkpoint batch of None \<Rightarrow> Inr (ld3, False) | Some c \<Rightarrow> advance_checkpoint ld3 c)
       = Inr (ld', io_checkpointAdvanced out)"
    using ingest_transaction_Inr [OF assms(2)] by metis
  have "ledger_ok ld1"
    using fold_result_invariant [OF b [unfolded insertBlocks_def], where P = "\<lambda>st. ledger_ok (fst st)"]
      assms(1) insert_block_ok by auto
  then have "ledger_ok ld2"
    using fold_result_invariant [OF l [unfolded insertLogs_def], where P = "\<lambda>st. ledger_ok (fst st)"]
      insert_log_ok by auto
  then have "ledger_ok ld3"
    using fold_result_invariant [OF ob [unfolded insertObservations_def], where P = "\<lambda>st. ledger_ok (fst st)"]
      insert_observation_ok by auto
  then show ?thesis using c advance_checkpoint_ok by (cases "ib_checkpoint batch") auto
qed

lemma ingestBatch_ok:
  assumes "ledger_ok ld"
  shows "ledger_ok (fst (ingestBatch sha ld batch))"
proof -
  obtain ld' r where run: "ingestBatch sha ld batch = (ld', r)" by fastforce
  show ?thesis
  proof (cases r)
    case (Inl e)
    from ingestBatch_Inl [OF run [unfolded Inl]] assms show ?thesis by (auto simp: run ledger_ok_def)
  next
    case (Inr out)
    with ingest_transaction_ok [OF assms] run ingestBatch_Inr show ?thesis by (metis fst_conv)
  qed
qed

lemma map_of_row: "ledger_ok ld \<Longrightarrow> map_of (chain_blocks ld) k = Some b \<Longrightarrow> k = block_id b"
  by (auto simp: ledger_ok_def blocks_ok_def keyed_by_def dest!: map_of_SomeD)

lemma ingest_stores_block:
  assumes "ingest_transaction sha ld batch = Inr (ld', out)" and "b \<in> set (ib_blocks batch)"
  shows "has_key (chain_blocks ld') (block_id b)"
proof -
  have "find (\<lambda>x. block_id x = block_id b) (ib_blocks batch) \<noteq> None"
    using assms(2) by (auto simp: find_None_iff)
  then show ?thesis
    using ingest_transaction_effect(1) [OF assms(1), of "block_id b"]
    by (auto simp: has_key_map_of first_of_def split: option.splits)
qed

lemma ingest_keeps_rows:
  assumes "ingest_transaction sha ld batch = Inr (ld', out)" and "map_of (chain_blocks ld) k = Some b"
  shows "map_of (chain_blocks ld') k = Some b"
  using ingest_transaction_effect(1) [OF assms(1), of k] assms(2) by (simp add: first_of_def)

lemma ledger_ok_unique:
  assumes "ledger_ok ld" and "map_of (chain_blocks ld) k = Some b" and "map_of (chain_blocks ld) k' = Some b'"
    and "bf_observedClass b = ObservedAccepted" and "bf_observedClass b' = ObservedAccepted"
    and "bf_chainKey b = bf_chainKey b'" and "bf_blockNumber b = bf_blockNumber b'"
  shows "b = b'"
proof -
  have "b \<in> snd ` set (chain_blocks ld)" "b' \<in> snd ` set (chain_blocks ld)"
    using assms(2,3) by (auto dest!: map_of_SomeD intro: rev_image_eqI)
  then show ?thesis using assms(1,4-7) unfolding ledger_ok_def blocks_ok_def same_height_def by blast
qed

text \<open>
  Evidence is append-only. From a ledger in order, an ingest of any batch, successful or not,
  leaves a ledger in order (rows under their own identity, one accepted block per height, a block
  for every log), keeps every stored block and log as first observed, and never moves a checkpoint
  backwards.
\<close>

theorem ingestBatch_keeps_evidence:
  assumes "ledger_ok ld" and "ld' = fst (ingestBatch sha ld batch)"
  shows "ledger_ok ld'
     \<and> (\<forall>k b. map_of (chain_blocks ld) k = Some b \<longrightarrow> map_of (chain_blocks ld') k = Some b)
     \<and> (\<forall>k l. map_of (chain_logs ld) k = Some l \<longrightarrow> map_of (chain_logs ld') k = Some l)
     \<and> (\<forall>d c n h. readCheckpoint ld d c = Some (n, h) \<longrightarrow>
          (\<exists>m g. readCheckpoint ld' d c = Some (m, g) \<and> n \<le> m))"
proof -
  obtain r where run: "ingestBatch sha ld batch = (ld', r)" using assms(2) by (metis prod.collapse)
  have "ledger_ok ld'" using ingestBatch_ok [OF assms(1), of sha batch] by (simp add: run)
  moreover have "(\<forall>k b. map_of (chain_blocks ld) k = Some b \<longrightarrow> map_of (chain_blocks ld') k = Some b)
     \<and> (\<forall>k l. map_of (chain_logs ld) k = Some l \<longrightarrow> map_of (chain_logs ld') k = Some l)
     \<and> (\<forall>d c n h. readCheckpoint ld d c = Some (n, h) \<longrightarrow>
          (\<exists>m g. readCheckpoint ld' d c = Some (m, g) \<and> n \<le> m))"
  proof (cases r)
    case (Inl e)
    from ingestBatch_Inl [OF run [unfolded Inl]] show ?thesis by (auto simp: readCheckpoint_def)
  next
    case (Inr out)
    note eff = ingest_transaction_effect [OF run [unfolded Inr ingestBatch_Inr]]
    have checkpoints: "\<exists>m g. readCheckpoint ld' d c = Some (m, g) \<and> n \<le> m"
      if "readCheckpoint ld d c = Some (n, h)" for d c n h
      using that unfolding readCheckpoint_def eff(4)
      by (simp add: checkpoint_after_def split: option.split)
    have blocks: "map_of (chain_blocks ld') k = Some b" if "map_of (chain_blocks ld) k = Some b" for k b
      unfolding eff(1) first_of_def that by simp
    have logs: "map_of (chain_logs ld') k = Some l" if "map_of (chain_logs ld) k = Some l" for k l
      unfolding eff(2) first_of_def that by simp
    show ?thesis
      by (intro conjI allI impI; (rule checkpoints | rule blocks | rule logs); assumption)
  qed
  ultimately show ?thesis by blast
qed

text \<open>
  Restarting is safe: a batch that was ingested can be ingested again, and the second time
  nothing is inserted, no checkpoint moves and the whole ledger is unchanged.
\<close>

theorem ingestBatch_idempotent:
  assumes "ingestBatch sha ld batch = (ld', Inr out)"
  shows "ingestBatch sha ld' batch =
     (ld', Inr \<lparr>io_blocksInserted = 0, io_logsInserted = 0, io_observationsInserted = 0,
               io_checkpointAdvanced = False, io_rangeDigest = canonicalLogDigest sha (ib_logs batch)\<rparr>)"
proof -
  have tr: "ingest_transaction sha ld batch = Inr (ld', out)" using assms ingestBatch_Inr by blast
  obtain ld1 n1 ld2 n2 ld3 n3 where
    b: "insertBlocks ld (ib_blocks batch) = Inr (ld1, n1)" and
    l: "insertLogs ld1 (ib_logs batch) = Inr (ld2, n2)" and
    ob: "insertObservations ld2 (ib_observations batch) = Inr (ld3, n3)" and
    c: "(case ib_checkpoint batch of None \<Rightarrow> Inr (ld3, False) | Some c \<Rightarrow> advance_checkpoint ld3 c)
       = Inr (ld', io_checkpointAdvanced out)"
    using ingest_transaction_Inr [OF tr] by metis
  obtain t2 t3 where t: "ld2 = ld1\<lparr>chain_logs := t2\<rparr>" "ld3 = ld2\<lparr>observations := t3\<rparr>"
    using insertLogs_frame [OF l] insertObservations_frame [OF ob] by blast
  obtain t4 where t4: "ld' = ld3\<lparr>replay_checkpoints := t4\<rparr>"
  proof (cases "ib_checkpoint batch")
    case None
    with c show ?thesis by (intro that [of "replay_checkpoints ld3"]) simp
  next
    case (Some cp)
    with c advance_checkpoint_frame [of ld3 cp] that show ?thesis by auto
  qed
  have "insertBlocks ld' (ib_blocks batch) = Inr (ld', 0)"
    unfolding insertBlocks_def by (rule block_store.puts_again [OF b [unfolded insertBlocks_def]]) (simp add: t t4)
  moreover have "insertLogs ld' (ib_logs batch) = Inr (ld', 0)"
    unfolding insertLogs_def by (rule log_store.puts_again [OF l [unfolded insertLogs_def]]) (simp add: t t4)
  moreover have "insertObservations ld' (ib_observations batch) = Inr (ld', 0)"
    unfolding insertObservations_def
    by (rule observation_store.puts_again [OF ob [unfolded insertObservations_def]]) (simp add: t4)
  moreover have "advance_checkpoint ld' cp = Inr (ld', False)" if "ib_checkpoint batch = Some cp" for cp
    using c that by (auto simp: advance_checkpoint_def Let_def update_conv' split: if_splits option.splits prod.splits)
  ultimately have "ingest_transaction sha ld' batch =
     Inr (ld', \<lparr>io_blocksInserted = 0, io_logsInserted = 0, io_observationsInserted = 0,
               io_checkpointAdvanced = False, io_rangeDigest = canonicalLogDigest sha (ib_logs batch)\<rparr>)"
    by (simp add: ingest_transaction_def split: option.splits)
  then show ?thesis by (simp only: ingestBatch_Inr)
qed

lemma insertBlocks_fails:
  "fold_result insert_block st bs = Inl e \<Longrightarrow> list_all block_row_ok bs \<Longrightarrow> e = AcceptedHeightViolation"
proof (induction bs arbitrary: st)
  case (Cons b bs)
  show ?case
  proof (cases "insert_block st b")
    case (Inl a)
    with Cons.prems have "insert_block st b = Inl e" "block_row_ok b" by simp_all
    then show ?thesis by (cases st) (auto simp: insert_block_def split: if_splits)
  next
    case (Inr st')
    with Cons show ?thesis by simp
  qed
qed simp

text \<open>No transaction commits a second accepted hash at a stored height.\<close>

lemma conflict_never_commits:
  assumes "ledger_ok ld" and "accepted_at ld (bf_chainKey b) (bf_blockNumber b) = Some old"
    and "bf_observedClass b = ObservedAccepted" and "bf_blockHash b \<noteq> bf_blockHash old"
    and "first_of block_id (ib_blocks batch) (block_id b) (map_of (chain_blocks ld) (block_id b)) = Some b"
  shows "ingest_transaction sha ld batch \<noteq> Inr (ld', out)"
proof
  assume tr: "ingest_transaction sha ld batch = Inr (ld', out)"
  have ok: "ledger_ok ld'" by (rule ingest_transaction_ok [OF assms(1) tr])
  have "map_of (chain_blocks ld) (block_id old) = Some old"
    using assms(1) accepted_at_Some [OF assms(2)] by (intro keyed_by_row) (auto simp: ledger_ok_def blocks_ok_def)
  then have "map_of (chain_blocks ld') (block_id old) = Some old" by (rule ingest_keeps_rows [OF tr])
  moreover have "map_of (chain_blocks ld') (block_id b) = Some b"
    using ingest_transaction_effect(1) [OF tr] assms(5) by metis
  ultimately have "b = old"
    using ledger_ok_unique [OF ok] accepted_at_Some [OF assms(2)] assms(3) by metis
  with assms(4) show False by simp
qed

lemma conflict_violates:
  assumes "ledger_ok ld" and "accepted_at ld (bf_chainKey b) (bf_blockNumber b) = Some old"
    and "bf_observedClass b = ObservedAccepted" and "bf_blockHash b \<noteq> bf_blockHash old"
    and "first_of block_id (ib_blocks batch) (block_id b) (map_of (chain_blocks ld) (block_id b)) = Some b"
    and "list_all block_row_ok (ib_blocks batch)"
  shows "ingest_transaction sha ld batch = Inl AcceptedHeightViolation"
proof (cases "insertBlocks ld (ib_blocks batch)")
  case (Inl e)
  then have "e = AcceptedHeightViolation" using insertBlocks_fails assms(6) by (auto simp: insertBlocks_def)
  with Inl show ?thesis by (simp add: ingest_transaction_def)
next
  case (Inr st)
  let ?bare = "batch\<lparr>ib_logs := [], ib_observations := [], ib_checkpoint := None\<rparr>"
  obtain ld1 n where st: "st = (ld1, n)" by (cases st)
  have "first_of block_id (ib_blocks ?bare) (block_id b) (map_of (chain_blocks ld) (block_id b)) = Some b"
    using assms(5) by simp
  then have "ingest_transaction sha ld ?bare \<noteq> Inr (ld', out)" for ld' out
    by (rule conflict_never_commits [OF assms(1-4)])
  moreover have "\<exists>ld' out. ingest_transaction sha ld ?bare = Inr (ld', out)"
    using Inr st by (simp add: ingest_transaction_def insertLogs_def insertObservations_def)
  ultimately show ?thesis by blast
qed

lemma conflict_offends:
  assumes "ledger_ok ld" and "accepted_at ld (bf_chainKey b) (bf_blockNumber b) = Some old"
    and "bf_observedClass b = ObservedAccepted" and "bf_blockHash b \<noteq> bf_blockHash old"
    and "first_of block_id (ib_blocks batch) (block_id b) (map_of (chain_blocks ld) (block_id b)) = Some b"
  obtains off where "find (\<lambda>b. bf_observedClass b = ObservedAccepted) (ib_blocks batch) = Some off"
proof -
  have "b \<in> set (ib_blocks batch)"
  proof (cases "map_of (chain_blocks ld) (block_id b)")
    case None
    then show ?thesis using assms(5) by (auto simp: first_of_def find_Some_iff)
  next
    case (Some c)
    then have "map_of (chain_blocks ld) (block_id b) = Some b" using assms(5) by (simp add: first_of_def)
    moreover have "map_of (chain_blocks ld) (block_id old) = Some old"
      using assms(1) accepted_at_Some [OF assms(2)] by (intro keyed_by_row) (auto simp: ledger_ok_def blocks_ok_def)
    ultimately have "b = old"
      using ledger_ok_unique [OF assms(1)] accepted_at_Some [OF assms(2)] assms(3) by metis
    with assms(4) show ?thesis by simp
  qed
  with assms(3) that show ?thesis
    by (cases "find (\<lambda>b. bf_observedClass b = ObservedAccepted) (ib_blocks batch)") (auto simp: find_None_iff)
qed

text \<open>
  C26. A second accepted hash at a stored height is never history. When the batch offers, for the first
  time, an accepted block at a height whose stored accepted block has another hash, the ingest fails and
  the stored evidence stays; nothing of the batch is kept. When the columns of its blocks are in range,
  the failure is the typed conflict, and the ledger differs from before in exactly one incident, recorded
  under its own key; error and incident carry the coordinates of the first accepted block of the batch and
  the hash stored at its height.
\<close>

theorem ingestBatch_conflict:
  assumes "ledger_ok ld" and "accepted_at ld (bf_chainKey b) (bf_blockNumber b) = Some old"
    and "bf_observedClass b = ObservedAccepted" and "bf_blockHash b \<noteq> bf_blockHash old"
    and "first_of block_id (ib_blocks batch) (block_id b) (map_of (chain_blocks ld) (block_id b)) = Some b"
  shows "(\<exists>e ld'. ingestBatch sha ld batch = (ld', Inl e) \<and> chain_blocks ld' = chain_blocks ld
     \<and> chain_logs ld' = chain_logs ld \<and> replay_checkpoints ld' = replay_checkpoints ld
     \<and> accepted_at ld' (bf_chainKey b) (bf_blockNumber b) = Some old)
    \<and> (list_all block_row_ok (ib_blocks batch) \<longrightarrow>
        (\<exists>off incident.
           find (\<lambda>b. bf_observedClass b = ObservedAccepted) (ib_blocks batch) = Some off
         \<and> incident =
             (let stored = map_option bf_blockHash (accepted_at ld (bf_chainKey off) (bf_blockNumber off))
              in \<lparr>ii_kind = ACCEPTED_HASH_CONFLICT, ii_chainKey = bf_chainKey off,
                  ii_blockNumber = Some (bf_blockNumber off), ii_expectedHash = stored,
                  ii_observedHash = Some (bf_blockHash off),
                  ii_lane = ib_deploymentId batch @ '':'' @ ib_chainKey batch\<rparr>)
         \<and> ingestBatch sha ld batch =
             (ld\<lparr>integrity_incidents := insert_new
                (sha (bf_chainKey off @ ''|'' @ show_int (bf_blockNumber off) @ ''|''
                   @ or_null (ii_expectedHash incident) @ ''|'' @ bf_blockHash off))
                incident (integrity_incidents ld)\<rparr>,
              Inl (AcceptedHashConflict (bf_chainKey off) (bf_blockNumber off)
                (or_unknown (ii_expectedHash incident)) (bf_blockHash off)))))"
proof (intro conjI impI)
  obtain ld' r where run: "ingestBatch sha ld batch = (ld', r)" by fastforce
  show "\<exists>e ld'. ingestBatch sha ld batch = (ld', Inl e) \<and> chain_blocks ld' = chain_blocks ld
     \<and> chain_logs ld' = chain_logs ld \<and> replay_checkpoints ld' = replay_checkpoints ld
     \<and> accepted_at ld' (bf_chainKey b) (bf_blockNumber b) = Some old"
  proof (cases r)
    case (Inl e)
    from ingestBatch_Inl [OF run [unfolded Inl]] assms(2) show ?thesis
      by (auto simp: run Inl accepted_at_def)
  next
    case (Inr out)
    then show ?thesis using run ingestBatch_Inr conflict_never_commits [OF assms] by blast
  qed
next
  assume "list_all block_row_ok (ib_blocks batch)"
  note fails = conflict_violates [OF assms this, of sha]
  obtain off where "find (\<lambda>b. bf_observedClass b = ObservedAccepted) (ib_blocks batch) = Some off"
    using conflict_offends [OF assms] .
  then show "\<exists>off incident.
           find (\<lambda>b. bf_observedClass b = ObservedAccepted) (ib_blocks batch) = Some off
         \<and> incident =
             (let stored = map_option bf_blockHash (accepted_at ld (bf_chainKey off) (bf_blockNumber off))
              in \<lparr>ii_kind = ACCEPTED_HASH_CONFLICT, ii_chainKey = bf_chainKey off,
                  ii_blockNumber = Some (bf_blockNumber off), ii_expectedHash = stored,
                  ii_observedHash = Some (bf_blockHash off),
                  ii_lane = ib_deploymentId batch @ '':'' @ ib_chainKey batch\<rparr>)
         \<and> ingestBatch sha ld batch =
             (ld\<lparr>integrity_incidents := insert_new
                (sha (bf_chainKey off @ ''|'' @ show_int (bf_blockNumber off) @ ''|''
                   @ or_null (ii_expectedHash incident) @ ''|'' @ bf_blockHash off))
                incident (integrity_incidents ld)\<rparr>,
              Inl (AcceptedHashConflict (bf_chainKey off) (bf_blockNumber off)
                (or_unknown (ii_expectedHash incident)) (bf_blockHash off)))"
    by (simp add: ingestBatch_def fails Let_def or_null_def or_unknown_def)
qed

section \<open>Examples\<close>

definition empty_ledger :: ledger where
  "empty_ledger =
     \<lparr>chain_blocks = [], chain_logs = [], observations = [], replay_checkpoints = [],
      integrity_incidents = [], block_status_events = [], replay_ranges = [],
      data_quality_incidents = [], remote_candidates = [], replay_completeness = []\<rparr>"

definition example_hash :: "char \<Rightarrow> string" where
  "example_hash c = ''0x'' @ replicate 64 c"

definition example_block :: "int \<Rightarrow> char \<Rightarrow> block_fact" where
  "example_block n c =
     \<lparr>bf_chainKey = ''c'', bf_blockHash = example_hash c, bf_blockNumber = n,
      bf_parentHash = example_hash (CHR ''0''), bf_blockTimestamp = 0,
      bf_observedClass = ObservedAccepted, bf_observedAt = 0\<rparr>"

definition example_batch :: "block_fact list \<Rightarrow> int \<Rightarrow> ingest_batch" where
  "example_batch blocks n =
     \<lparr>ib_deploymentId = ''d'', ib_chainKey = ''c'', ib_blocks = blocks, ib_logs = [],
      ib_observations = [],
      ib_checkpoint = Some \<lparr>cp_deploymentId = ''d'', cp_chainKey = ''c'', cp_lastBlockNumber = n,
                            cp_lastBlockHash = example_hash (CHR ''a'')\<rparr>\<rparr>"

definition example_stored :: ledger where
  "example_stored = empty_ledger\<lparr>chain_blocks := [(block_id (example_block 2 (CHR ''a'')), example_block 2 (CHR ''a''))],
     replay_checkpoints := [((''d'', ''c''), (2, example_hash (CHR ''a'')))]\<rparr>"

lemma example_hash_ok: "is_lower_hex c \<Longrightarrow> hex_string 64 (example_hash c)"
  by (simp add: example_hash_def hex_string_def list_all_iff)

lemma example_hash_inject [simp]: "example_hash c = example_hash d \<longleftrightarrow> c = d"
  by (simp add: example_hash_def)

lemma example_block_ok: "0 \<le> n \<Longrightarrow> n < 1000 \<Longrightarrow> is_lower_hex c \<Longrightarrow> block_row_ok (example_block n c)"
  by (simp add: block_row_ok_def example_block_def example_hash_ok column_nat_def int8_def is_lower_hex_def is_digit_def)

lemma example_hex: "is_lower_hex (CHR ''a'')" "is_lower_hex (CHR ''b'')" "is_lower_hex (CHR ''f'')"
  by (simp_all add: is_lower_hex_def is_digit_def)

lemma example_ingested:
  "ingestBatch sha empty_ledger (example_batch [example_block 2 (CHR ''a'')] 2)
   = (example_stored, Inr \<lparr>io_blocksInserted = 1, io_logsInserted = 0, io_observationsInserted = 0,
        io_checkpointAdvanced = True, io_rangeDigest = canonicalLogDigest sha []\<rparr>)"
proof -
  have "insertBlocks empty_ledger [example_block 2 (CHR ''a'')]
      = Inr (empty_ledger\<lparr>chain_blocks := [(block_id (example_block 2 (CHR ''a'')), example_block 2 (CHR ''a''))]\<rparr>, 1)"
    by (simp add: insertBlocks_def insert_block_def example_block_ok example_hex empty_ledger_def accepted_at_def)
  then have "ingest_transaction sha empty_ledger (example_batch [example_block 2 (CHR ''a'')] 2)
    = Inr (example_stored, \<lparr>io_blocksInserted = 1, io_logsInserted = 0, io_observationsInserted = 0,
        io_checkpointAdvanced = True, io_rangeDigest = canonicalLogDigest sha []\<rparr>)"
    by (simp add: ingest_transaction_def example_batch_def insertLogs_def insertObservations_def
        advance_checkpoint_def example_hash_ok example_hex column_nat_def example_stored_def empty_ledger_def)
  then show ?thesis by (simp only: ingestBatch_Inr)
qed

theorem ingestBatch_idempotent_witness:
  "ingestBatch hex_text example_stored (example_batch [example_block 2 (CHR ''a'')] 2)
   = (example_stored, Inr \<lparr>io_blocksInserted = 0, io_logsInserted = 0, io_observationsInserted = 0,
        io_checkpointAdvanced = False, io_rangeDigest = canonicalLogDigest hex_text []\<rparr>)"
  using ingestBatch_idempotent [OF example_ingested [of hex_text]] by (simp add: example_batch_def)

lemma example_stored_ok: "ledger_ok example_stored"
proof -
  have "ledger_ok empty_ledger"
    by (simp add: ledger_ok_def blocks_ok_def logs_ok_def keyed_by_def empty_ledger_def)
  from ingestBatch_ok [OF this, of hex_text] show ?thesis using example_ingested by (metis fst_conv)
qed

theorem ingestBatch_keeps_evidence_witness:
  "map_of (chain_blocks (fst (ingestBatch hex_text example_stored (example_batch [example_block 3 (CHR ''a'')] 9))))
     (''c'', example_hash (CHR ''a'')) = Some (example_block 2 (CHR ''a''))"
proof -
  have "map_of (chain_blocks example_stored) (''c'', example_hash (CHR ''a'')) = Some (example_block 2 (CHR ''a''))"
    by (simp add: example_stored_def example_block_def)
  then show ?thesis
    by (rule ingestBatch_keeps_evidence [OF example_stored_ok refl, THEN conjunct2, THEN conjunct1, rule_format])
qed

theorem ingestBatch_conflict_witness:
  "ingestBatch hex_text example_stored (example_batch [example_block 2 (CHR ''b'')] 2)
   = (example_stored\<lparr>integrity_incidents :=
        [(hex_text (''c|2|'' @ example_hash (CHR ''a'') @ ''|'' @ example_hash (CHR ''b'')),
          \<lparr>ii_kind = ACCEPTED_HASH_CONFLICT, ii_chainKey = ''c'', ii_blockNumber = Some 2,
           ii_expectedHash = Some (example_hash (CHR ''a'')), ii_observedHash = Some (example_hash (CHR ''b'')),
           ii_lane = ''d:c''\<rparr>)]\<rparr>,
      Inl (AcceptedHashConflict ''c'' 2 (example_hash (CHR ''a'')) (example_hash (CHR ''b''))))"
proof -
  let ?b = "example_block 2 (CHR ''b'')" and ?old = "example_block 2 (CHR ''a'')"
  let ?batch = "example_batch [?b] 2"
  have at: "accepted_at example_stored (bf_chainKey ?b) (bf_blockNumber ?b) = Some ?old"
    by (simp add: accepted_at_def example_stored_def empty_ledger_def example_block_def)
  have other: "bf_observedClass ?b = ObservedAccepted" "bf_blockHash ?b \<noteq> bf_blockHash ?old"
    by (simp_all add: example_block_def)
  have first: "first_of block_id (ib_blocks ?batch) (block_id ?b)
      (map_of (chain_blocks example_stored) (block_id ?b)) = Some ?b"
    by (simp add: first_of_def example_batch_def example_stored_def empty_ledger_def example_block_def)
  have "list_all block_row_ok (ib_blocks ?batch)"
    by (simp add: example_batch_def example_block_ok example_hex)
  moreover have "find (\<lambda>b. bf_observedClass b = ObservedAccepted) (ib_blocks ?batch) = Some ?b"
    by (simp add: example_batch_def other)
  moreover have "integrity_incidents example_stored = []" by (simp add: example_stored_def empty_ledger_def)
  moreover have "show_int 2 = ''2''" by code_simp
  ultimately show ?thesis
    using ingestBatch_conflict [OF example_stored_ok at other first, of hex_text] at
    by (auto simp: Let_def or_null_def or_unknown_def insert_new_def example_block_def example_batch_def)
qed

text \<open>
  The incident of a conflict describes the first accepted block of the batch, not the block that
  conflicts: here block 1 is new and undisputed and block 2 contradicts the stored one, and the
  incident names block 1 with no stored hash.
\<close>

lemma incident_names_first_block:
  "ingestBatch sha example_stored (example_batch [example_block 1 (CHR ''f''), example_block 2 (CHR ''b'')] 2)
   = (example_stored\<lparr>integrity_incidents :=
        [(sha (''c|1|null|'' @ example_hash (CHR ''f'')),
          \<lparr>ii_kind = ACCEPTED_HASH_CONFLICT, ii_chainKey = ''c'', ii_blockNumber = Some 1,
           ii_expectedHash = None, ii_observedHash = Some (example_hash (CHR ''f'')), ii_lane = ''d:c''\<rparr>)]\<rparr>,
      Inl (AcceptedHashConflict ''c'' 1 ''unknown'' (example_hash (CHR ''f''))))"
proof -
  have "insertBlocks example_stored [example_block 1 (CHR ''f''), example_block 2 (CHR ''b'')]
      = Inl AcceptedHeightViolation"
    by (simp add: insertBlocks_def insert_block_def example_block_ok example_hex)
      (simp add: example_stored_def empty_ledger_def accepted_at_def example_block_def)
  then have "ingest_transaction sha example_stored
      (example_batch [example_block 1 (CHR ''f''), example_block 2 (CHR ''b'')] 2) = Inl AcceptedHeightViolation"
    by (simp add: ingest_transaction_def example_batch_def)
  moreover have "show_int 1 = ''1''" by code_simp
  moreover have "accepted_at example_stored ''c'' 1 = None"
    by (simp add: accepted_at_def example_stored_def empty_ledger_def example_block_def)
  ultimately show ?thesis
    by (simp add: ingestBatch_def example_batch_def example_block_def or_null_def or_unknown_def
        insert_new_def Let_def) (simp add: example_stored_def empty_ledger_def)
qed

text \<open>
  A block first stored as a candidate stays one: the same block offered as accepted is dropped
  without an error, so its height has no accepted row to contradict.
\<close>

lemma candidate_shadows_accepted:
  "block_row_ok b \<Longrightarrow> has_key (chain_blocks ld) (block_id b) \<Longrightarrow> insert_block (ld, n) b = Inr (ld, n)"
  by (simp add: insert_block_def)

end
