(* ===== verification/Replay.thy ===== *)
theory Replay
  imports Ledger
begin

text \<open>
  packages/replay/src/engine.ts over ports.ts: collecting one range from every provider group with
  retries and splits, and the replay pass that commits agreed ranges to the ledger, stops at the
  first range that cannot be trusted, and projects the completeness of the window.

  The port is a parameter. A network may answer differently every time it is asked, so
  \<open>lp_fetchRange\<close> takes the number of fetches made before; the state of a pass carries that
  number. The database is the \<open>ledger\<close> of theory Ledger. An exception is an \<open>Inl\<close>, and leaves
  the ledger as it is at that point.
\<close>

section \<open>The port and the configuration\<close>

record log_source =
  lp_agreedAcceptedHead :: "string \<Rightarrow> int"
  lp_providerGroups :: "string \<Rightarrow> string list"
  lp_maxRangeBlocks :: "string \<Rightarrow> string \<Rightarrow> int"
  lp_fetchRange :: "nat \<Rightarrow> string \<Rightarrow> string \<Rightarrow> block_range \<Rightarrow> replay_reason \<times> string + range_observation"

record replay_config =
  rc_deploymentId :: string
  rc_chainKey :: string
  rc_startBlock :: int
  rc_agreement :: agreement_policy
  rc_retryBudget :: int
  rc_freshnessTtlMs :: int
  rc_maxHintsConsidered :: int

record range_report =
  rg_range :: block_range
  rg_status :: replay_status
  rg_reason :: "replay_reason option"
  rg_providerGroups :: "string list"
  rg_digest :: "string option"

record replay_report =
  rp_ranges :: "range_report list"
  rp_acceptedHead :: int
  rp_checkpointBefore :: "int option"
  rp_checkpointAfter :: "int option"
  rp_gapCount :: int
  rp_status :: replay_status
  rp_verdict :: verdict
  rp_reasons :: "replay_reason list"
  rp_integrityConflict :: bool

definition rangeId :: "(string \<Rightarrow> string) \<Rightarrow> string \<Rightarrow> string \<Rightarrow> block_range \<Rightarrow> string" where
  "rangeId sha deploymentId chainKey r =
     sha (join ''|'' [deploymentId, chainKey, show_int (fromBlock r), show_int (toBlock r)])"

definition incidentId ::
  "(string \<Rightarrow> string) \<Rightarrow> string \<Rightarrow> string \<Rightarrow> block_range \<Rightarrow> replay_reason \<Rightarrow> string" where
  "incidentId sha deploymentId chainKey r reason =
     sha (join ''|'' [deploymentId, chainKey, show_int (fromBlock r), show_int (toBlock r),
                      replay_reason_text reason])"

section \<open>Collecting one range\<close>

datatype collected =
  CollectedAgreed "range_result list" string
| CollectedSplit "block_range list"
| CollectedBlocked replay_reason "string option"

text \<open>The loop over the provider groups: the first failure ends it.\<close>

fun collect_groups ::
  "(string \<Rightarrow> string) \<Rightarrow> log_source \<Rightarrow> string \<Rightarrow> block_range \<Rightarrow> nat \<Rightarrow> range_result list \<Rightarrow> string list
   \<Rightarrow> nat \<times> (replay_reason \<times> string + range_result list)" where
  "collect_groups sha port chainKey rng clock results [] = (clock, Inr results)"
| "collect_groups sha port chainKey rng clock results (g # gs) =
     (case lp_fetchRange port clock chainKey g rng of
        Inl failure \<Rightarrow> (Suc clock, Inl failure)
      | Inr observation \<Rightarrow>
          (case classifyObservation sha observation of
             Inl failure \<Rightarrow> (Suc clock, Inl failure)
           | Inr result \<Rightarrow>
               collect_groups sha port chainKey rng (Suc clock) (results @ [result]) gs))"

definition collect_attempt ::
  "(string \<Rightarrow> string) \<Rightarrow> log_source \<Rightarrow> replay_config \<Rightarrow> block_range \<Rightarrow> nat
   \<Rightarrow> nat \<times> (replay_reason \<times> string + range_result list \<times> string)" where
  "collect_attempt sha port config rng clock =
     (let (clock', answers) = collect_groups sha port (rc_chainKey config) rng clock []
                                (lp_providerGroups port (rc_chainKey config))
      in (clock', case answers of
            Inl failure \<Rightarrow> Inl failure
          | Inr results \<Rightarrow>
              (case agree results (rc_agreement config) of
                 AgreedOn digest witnesses \<Rightarrow> Inr (witnesses, digest)
               | AgreementBlocked reason _ \<Rightarrow> Inl (reason, []))))"

lemma nextStep_Retry: "nextStep st reason = Retry r n \<Longrightarrow> n = at_attempts st + 1 \<and> n < at_retryBudget st"
  by (auto simp: nextStep_def split: if_splits option.splits)

function collectRange ::
  "(string \<Rightarrow> string) \<Rightarrow> log_source \<Rightarrow> replay_config \<Rightarrow> block_range \<Rightarrow> nat \<Rightarrow> int \<Rightarrow> nat \<times> collected" where
  "collectRange sha port config rng clock attempts =
     (case collect_attempt sha port config rng clock of
        (clock', Inr (witnesses, digest)) \<Rightarrow> (clock', CollectedAgreed witnesses digest)
      | (clock', Inl (reason, g)) \<Rightarrow>
          (case nextStep \<lparr>at_range = rng, at_attempts = attempts, at_retryBudget = rc_retryBudget config\<rparr>
                  reason of
             Retry _ n \<Rightarrow> collectRange sha port config rng clock' n
           | Split left right \<Rightarrow> (clock', CollectedSplit [left, right])
           | GiveUp why \<Rightarrow> (clock', CollectedBlocked why (if g = [] then None else Some g))))"
  by pat_completeness auto
termination
  by (relation "measure (\<lambda>(sha, port, config, rng, clock, attempts). nat (rc_retryBudget config - attempts))")
    (auto dest!: nextStep_Retry)

declare collectRange.simps [simp del]

abbreviation attempt_at :: "replay_config \<Rightarrow> block_range \<Rightarrow> int \<Rightarrow> attempt_state" where
  "attempt_at config rng n \<equiv> \<lparr>at_range = rng, at_attempts = n, at_retryBudget = rc_retryBudget config\<rparr>"

text \<open>Whatever was retried, the outcome is decided by one last attempt.\<close>

definition decides ::
  "replay_config \<Rightarrow> block_range \<Rightarrow> int \<Rightarrow> replay_reason \<times> string + range_result list \<times> string
   \<Rightarrow> collected \<Rightarrow> bool" where
  "decides config rng n res outcome \<longleftrightarrow>
     (case res of
        Inr (witnesses, digest) \<Rightarrow> outcome = CollectedAgreed witnesses digest
      | Inl (reason, g) \<Rightarrow>
          (case nextStep (attempt_at config rng n) reason of
             Retry _ _ \<Rightarrow> False
           | Split left right \<Rightarrow> outcome = CollectedSplit [left, right]
           | GiveUp why \<Rightarrow> outcome = CollectedBlocked why (if g = [] then None else Some g)))"

lemma collectRange_last:
  "collectRange sha port config rng clock attempts = (clock', outcome) \<Longrightarrow>
     \<exists>c n res. attempts \<le> n \<and> collect_attempt sha port config rng c = (clock', res)
       \<and> decides config rng n res outcome"
proof (induction sha port config rng clock attempts rule: collectRange.induct)
  case (1 sha port config rng clock attempts)
  obtain c1 res where a: "collect_attempt sha port config rng clock = (c1, res)" by fastforce
  note run = 1(2) [unfolded collectRange.simps [of sha port config rng clock attempts] a]
  have base: ?case if "c1 = clock'" "decides config rng attempts res outcome"
    using a that by blast
  show ?case
  proof (cases res)
    case (Inr r)
    with run show ?thesis by (intro base) (auto simp: decides_def split: prod.splits)
  next
    case (Inl f)
    obtain reason g where f: "f = (reason, g)" by (cases f)
    show ?thesis
    proof (cases "nextStep (attempt_at config rng attempts) reason")
      case (Retry r n)
      with run Inl f have "collectRange sha port config rng c1 n = (clock', outcome)" by simp
      from 1(1) [OF a [symmetric] Inl f [symmetric] Retry this] nextStep_Retry [OF Retry]
      obtain c m res' where "n \<le> m" "collect_attempt sha port config rng c = (clock', res')"
        "decides config rng m res' outcome" "n = attempts + 1" by auto
      then show ?thesis by (intro exI [of _ c] exI [of _ m] exI [of _ res']) simp
    next
      case (Split left right)
      with run Inl f show ?thesis by (intro base) (simp_all add: decides_def)
    next
      case (GiveUp why)
      with run Inl f show ?thesis by (intro base) (simp_all add: decides_def)
    qed
  qed
qed

text \<open>Which attempt makes which outcome.\<close>

lemma decides_iff:
  "decides config rng n res (CollectedSplit rs) \<longleftrightarrow>
     (\<exists>reason g left right. res = Inl (reason, g)
        \<and> nextStep (attempt_at config rng n) reason = Split left right \<and> rs = [left, right])"
  "decides config rng n res (CollectedAgreed witnesses digest) \<longleftrightarrow> res = Inr (witnesses, digest)"
  "decides config rng n res (CollectedBlocked why g') \<longleftrightarrow>
     (\<exists>reason g. res = Inl (reason, g) \<and> nextStep (attempt_at config rng n) reason = GiveUp why
        \<and> g' = (if g = [] then None else Some g))"
proof -
  consider reason g where "res = Inl (reason, g)" | ws d where "res = Inr (ws, d)"
    by (cases res) auto
  note split = this
  show "decides config rng n res (CollectedSplit rs) \<longleftrightarrow>
     (\<exists>reason g left right. res = Inl (reason, g)
        \<and> nextStep (attempt_at config rng n) reason = Split left right \<and> rs = [left, right])"
    by (cases rule: split) (auto simp: decides_def split: next_step.split)
  show "decides config rng n res (CollectedAgreed witnesses digest) \<longleftrightarrow> res = Inr (witnesses, digest)"
    by (cases rule: split) (auto simp: decides_def split: next_step.split)
  show "decides config rng n res (CollectedBlocked why g') \<longleftrightarrow>
     (\<exists>reason g. res = Inl (reason, g) \<and> nextStep (attempt_at config rng n) reason = GiveUp why
        \<and> g' = (if g = [] then None else Some g))"
    by (cases rule: split) (auto simp: decides_def split: next_step.split)
qed

lemma nextStep_Split: "nextStep st reason = Split left right \<Longrightarrow> splitRange (at_range st) = Some (left, right)"
  by (auto simp: nextStep_def split: if_splits option.splits)

lemma collectRange_split:
  assumes "collectRange sha port config rng clock attempts = (clock', CollectedSplit rs)"
  shows "\<exists>left right. splitRange rng = Some (left, right) \<and> rs = [left, right]"
  using collectRange_last [OF assms] by (auto simp: decides_iff dest: nextStep_Split)

lemma collectRange_agreed:
  assumes "collectRange sha port config rng clock attempts = (clock', CollectedAgreed witnesses digest)"
  shows "\<exists>c. collect_attempt sha port config rng c = (clock', Inr (witnesses, digest))"
  using collectRange_last [OF assms] by (auto simp: decides_iff)

section \<open>One replay pass\<close>

datatype replay_error =
  RangeError string
| NoWitness string
| StorageFailure db_error

record run_state =
  rn_ledger :: ledger
  rn_clock :: nat
  rn_reports :: "range_report list"
  rn_reasons :: "replay_reason list"
  rn_integrityConflict :: bool
  rn_lastSuccessAt :: "int option"

definition range_row ::
  "replay_config \<Rightarrow> block_range \<Rightarrow> replay_status \<Rightarrow> replay_reason option \<Rightarrow> string option \<Rightarrow> range_status_row" where
  "range_row config rng status reason g =
     \<lparr>rs_deploymentId = rc_deploymentId config, rs_chainKey = rc_chainKey config,
      rs_fromBlock = fromBlock rng, rs_toBlock = toBlock rng, rs_status = status,
      rs_reasonCode = reason, rs_providerGroup = g\<rparr>"

definition range_key :: "(string \<Rightarrow> string) \<Rightarrow> replay_config \<Rightarrow> block_range \<Rightarrow> string" where
  "range_key sha config rng = rangeId sha (rc_deploymentId config) (rc_chainKey config) rng"

text \<open>A range that cannot be trusted: an incident, its status, and the pass stops.\<close>

definition record_blocked ::
  "(string \<Rightarrow> string) \<Rightarrow> replay_config \<Rightarrow> run_state \<Rightarrow> block_range \<Rightarrow> replay_reason \<Rightarrow> string option
   \<Rightarrow> run_state \<times> (replay_error + unit)" where
  "record_blocked sha config st rng reason g =
     (let status = (if reason = PROVIDER_DIVERGENCE then RDivergent else RBlocked);
          meta = REASON_METADATA reason;
          incident = \<lparr>dq_deploymentId = rc_deploymentId config, dq_chainKey = rc_chainKey config,
                      dq_reasonCode = reason, dq_fromBlock = fromBlock rng, dq_toBlock = toBlock rng,
                      dq_providerGroup = g, dq_runbook = rm_runbook meta, dq_summary = rm_summary meta,
                      dq_span = show_int (spanOf rng)\<rparr>;
          key = incidentId sha (rc_deploymentId config) (rc_chainKey config) rng reason;
          st1 = st\<lparr>rn_reasons := rn_reasons st @ [reason]\<rparr>
      in case recordDataQualityIncident (rn_ledger st1) key incident of
           Inl e \<Rightarrow> (st1, Inl (StorageFailure e))
         | Inr ld1 \<Rightarrow>
             (case upsertRangeStatus ld1 (range_key sha config rng) (range_row config rng status (Some reason) g) of
                Inl e \<Rightarrow> (st1\<lparr>rn_ledger := ld1\<rparr>, Inl (StorageFailure e))
              | Inr ld2 \<Rightarrow>
                  (st1\<lparr>rn_ledger := ld2,
                       rn_reports := rn_reports st1 @ [\<lparr>rg_range = rng, rg_status = status,
                         rg_reason = Some reason, rg_providerGroups = [], rg_digest = None\<rparr>]\<rparr>, Inr ())))"

text \<open>An agreed range: facts and checkpoint, then its status. \<open>Inr True\<close> goes on, \<open>Inr False\<close> stops.\<close>

definition range_batch :: "replay_config \<Rightarrow> block_range \<Rightarrow> range_result \<Rightarrow> ingest_batch" where
  "range_batch config rng witness =
     \<lparr>ib_deploymentId = rc_deploymentId config, ib_chainKey = rc_chainKey config,
      ib_blocks = rr_blocks witness, ib_logs = rr_logs witness, ib_observations = [],
      ib_checkpoint = Some \<lparr>cp_deploymentId = rc_deploymentId config, cp_chainKey = rc_chainKey config,
                            cp_lastBlockNumber = toBlock rng,
                            cp_lastBlockHash = rr_endBlockHash witness\<rparr>\<rparr>"

definition commit_range ::
  "(string \<Rightarrow> string) \<Rightarrow> replay_config \<Rightarrow> int \<Rightarrow> run_state \<Rightarrow> block_range \<Rightarrow> range_result list \<Rightarrow> string
   \<Rightarrow> run_state \<times> (replay_error + bool)" where
  "commit_range sha config now st rng results digest =
     (case results of
        [] \<Rightarrow> (st, Inl (NoWitness ''an agreed range must carry at least one witness''))
      | witness # _ \<Rightarrow>
        (case provenanceOf digest results (rc_agreement config) of
           Inl e \<Rightarrow> (st, Inl (NoWitness e))
         | Inr provenance \<Rightarrow>
           (case ingestBatch sha (rn_ledger st) (range_batch config rng witness) of
              (ld1, Inl (AcceptedHashConflict _ _ _ _)) \<Rightarrow>
                (st\<lparr>rn_ledger := ld1, rn_integrityConflict := True,
                    rn_reasons := rn_reasons st @ [PROVIDER_DIVERGENCE],
                    rn_reports := rn_reports st @ [\<lparr>rg_range = rng, rg_status = RBlocked,
                      rg_reason = None, rg_providerGroups = [], rg_digest = None\<rparr>]\<rparr>, Inr False)
            | (ld1, Inl (DatabaseError e)) \<Rightarrow> (st\<lparr>rn_ledger := ld1\<rparr>, Inl (StorageFailure e))
            | (ld1, Inr _) \<Rightarrow>
              (case upsertRangeStatus ld1 (range_key sha config rng)
                      (range_row config rng RComplete None (Some (join '','' (wp_providerGroups provenance)))) of
                 Inl e \<Rightarrow> (st\<lparr>rn_ledger := ld1\<rparr>, Inl (StorageFailure e))
               | Inr ld2 \<Rightarrow>
                   (st\<lparr>rn_ledger := ld2, rn_lastSuccessAt := Some now,
                       rn_reports := rn_reports st @ [\<lparr>rg_range = rng, rg_status = RComplete,
                         rg_reason = None, rg_providerGroups = wp_providerGroups provenance,
                         rg_digest = Some digest\<rparr>]\<rparr>, Inr True)))))"

text \<open>
  Work left in the queue: a range of \<open>n\<close> heights splits at most into \<open>2 n - 1\<close> ranges.
\<close>

definition range_work :: "block_range \<Rightarrow> nat" where
  "range_work r = Suc (nat (2 * spanOf r - 2))"

definition queue_work :: "block_range list \<Rightarrow> nat" where
  "queue_work queue = sum_list (map range_work queue)"

lemma queue_work_simps [simp]:
  "queue_work [] = 0" "queue_work (r # rs) = range_work r + queue_work rs"
  "queue_work (rs @ ss) = queue_work rs + queue_work ss"
  by (simp_all add: queue_work_def)

lemma split_work: "splitRange r = Some (left, right) \<Longrightarrow> range_work left + range_work right < range_work r"
  using splitRange_visited(4-6) [of r left right] by (simp add: range_work_def)

function (sequential) run_loop ::
  "(string \<Rightarrow> string) \<Rightarrow> log_source \<Rightarrow> replay_config \<Rightarrow> int \<Rightarrow> run_state \<Rightarrow> block_range list
   \<Rightarrow> run_state \<times> (replay_error + unit)" where
  "run_loop sha port config now st [] = (st, Inr ())"
| "run_loop sha port config now st (rng # queue) =
     (case collectRange sha port config rng (rn_clock st) 0 of
        (clock', CollectedSplit rs) \<Rightarrow> run_loop sha port config now (st\<lparr>rn_clock := clock'\<rparr>) (rs @ queue)
      | (clock', CollectedBlocked reason g) \<Rightarrow> record_blocked sha config (st\<lparr>rn_clock := clock'\<rparr>) rng reason g
      | (clock', CollectedAgreed results digest) \<Rightarrow>
          (case commit_range sha config now (st\<lparr>rn_clock := clock'\<rparr>) rng results digest of
             (st', Inl e) \<Rightarrow> (st', Inl e)
           | (st', Inr True) \<Rightarrow> run_loop sha port config now st' queue
           | (st', Inr False) \<Rightarrow> (st', Inr ())))"
  by pat_completeness auto
termination
proof (relation "measure (\<lambda>(sha, port, config, now, st, queue). queue_work queue)")
  fix sha port config now st rng queue clock' y rs
  assume "(clock', y) = collectRange sha port config rng (rn_clock st) 0" and "y = CollectedSplit rs"
  then have "collectRange sha port config rng (rn_clock st) 0 = (clock', CollectedSplit rs)" by simp
  from collectRange_split [OF this] obtain left right where
    s: "splitRange rng = Some (left, right)" and rs: "rs = [left, right]" by blast
  show "((sha, port, config, now, st\<lparr>rn_clock := clock'\<rparr>, rs @ queue), sha, port, config, now, st, rng # queue)
      \<in> measure (\<lambda>(sha, port, config, now, st, queue). queue_work queue)"
    using split_work [OF s] by (simp add: rs)
qed (simp_all add: range_work_def)

declare run_loop.simps(2) [simp del]

definition MAX_SAFE_INTEGER :: int where
  "MAX_SAFE_INTEGER = 9007199254740991"

text \<open>\<open>xs.slice(0, n)\<close>; a negative \<open>n\<close> counts from the end.\<close>

definition slice_to :: "int \<Rightarrow> 'a list \<Rightarrow> 'a list" where
  "slice_to n xs = take (if n < 0 then length xs - nat (- n) else nat n) xs"

definition resume_from :: "replay_config \<Rightarrow> int option \<Rightarrow> int" where
  "resume_from config checkpointBefore =
     (case checkpointBefore of None \<Rightarrow> rc_startBlock config
      | Some n \<Rightarrow> if n + 1 > rc_startBlock config then n + 1 else rc_startBlock config)"

definition replay_plan :: "log_source \<Rightarrow> replay_config \<Rightarrow> int option \<Rightarrow> plan_input" where
  "replay_plan port config checkpointBefore =
     (let width = foldl (\<lambda>m g. min m (lp_maxRangeBlocks port (rc_chainKey config) g)) MAX_SAFE_INTEGER
                    (lp_providerGroups port (rc_chainKey config))
      in \<lparr>pi_startBlock = resume_from config checkpointBefore,
          pi_agreedHead = lp_agreedAcceptedHead port (rc_chainKey config),
          pi_maxRangeBlocks = (if width = MAX_SAFE_INTEGER then 1 else width),
          pi_retryBudget = rc_retryBudget config\<rparr>)"

definition finish_replay ::
  "log_source \<Rightarrow> replay_config \<Rightarrow> int \<Rightarrow> int option \<Rightarrow> run_state \<Rightarrow> ledger \<times> (replay_error + replay_report)" where
  "finish_replay port config now checkpointBefore st =
     (let ld = rn_ledger st;
          head = lp_agreedAcceptedHead port (rc_chainKey config);
          assessment = assessCompleteness
            \<lparr>cm_window = \<lparr>fromBlock = rc_startBlock config, toBlock = head\<rparr>,
             cm_committed = readCommittedRanges ld (rc_deploymentId config) (rc_chainKey config),
             cm_lastSuccessAt = rn_lastSuccessAt st, cm_freshnessTtlMs = rc_freshnessTtlMs config,
             cm_openReasons = rn_reasons st, cm_now = now\<rparr>;
          row = \<lparr>cw_status = cr_status assessment, cw_verdict = cr_verdict assessment,
                 cw_windowFrom = rc_startBlock config, cw_windowTo = head,
                 cw_gapCount = int (length (cr_gaps assessment)), cw_reasons = cr_reasons assessment,
                 cw_lastSuccessAt = rn_lastSuccessAt st, cw_evaluatedAt = now\<rparr>
      in case upsertCompleteness ld (rc_deploymentId config) (rc_chainKey config) row of
           Inl e \<Rightarrow> (ld, Inl (StorageFailure e))
         | Inr ld' \<Rightarrow>
             (ld', Inr \<lparr>rp_ranges = rn_reports st, rp_acceptedHead = head,
                rp_checkpointBefore = checkpointBefore,
                rp_checkpointAfter = map_option fst (readCheckpoint ld' (rc_deploymentId config) (rc_chainKey config)),
                rp_gapCount = int (length (cr_gaps assessment)), rp_status = cr_status assessment,
                rp_verdict = cr_verdict assessment, rp_reasons = cr_reasons assessment,
                rp_integrityConflict = rn_integrityConflict st\<rparr>))"

definition start_state :: "replay_config \<Rightarrow> ledger \<Rightarrow> run_state" where
  "start_state config ld =
     \<lparr>rn_ledger = ld, rn_clock = 0, rn_reports = [], rn_reasons = [], rn_integrityConflict = False,
      rn_lastSuccessAt = (case readCompleteness ld (rc_deploymentId config) (rc_chainKey config) of
                            None \<Rightarrow> None | Some row \<Rightarrow> cw_lastSuccessAt row)\<rparr>"

definition runReplay ::
  "(string \<Rightarrow> string) \<Rightarrow> log_source \<Rightarrow> replay_config \<Rightarrow> priority_hint list \<Rightarrow> int \<Rightarrow> ledger
   \<Rightarrow> ledger \<times> (replay_error + replay_report)" where
  "runReplay sha port config hints now ld =
     (let checkpointBefore = map_option fst (readCheckpoint ld (rc_deploymentId config) (rc_chainKey config))
      in case planRanges (replay_plan port config checkpointBefore) of
           Inl e \<Rightarrow> (ld, Inl (RangeError e))
         | Inr planned \<Rightarrow>
             (case run_loop sha port config now (start_state config ld)
                     (prioritise planned (slice_to (rc_maxHintsConsidered config) hints)) of
                (st, Inl e) \<Rightarrow> (rn_ledger st, Inl e)
              | (st, Inr _) \<Rightarrow> finish_replay port config now checkpointBefore st))"

text \<open>\<open>persistRemoteCandidates\<close>: the first row the database refuses ends the loop.\<close>

definition persistRemoteCandidates :: "ledger \<Rightarrow> string \<Rightarrow> remote_candidate list \<Rightarrow> db_error + ledger" where
  "persistRemoteCandidates ld deploymentId candidates =
     fold_result (\<lambda>l c. recordRemoteCandidate l deploymentId c) ld candidates"

end
