(* ===== verification/ReplayRuns.thy ===== *)
theory ReplayRuns
  imports Replay
begin

text \<open>
  What a replay pass guarantees: how often it asks the network, what a committed range is worth,
  which heights a pass can change, and when the checkpoint covers everything behind it.
\<close>

section \<open>Every range takes a bounded number of fetches\<close>

lemma collect_groups_clock:
  "collect_groups sha port ck rng clock results gs = (clock', res) \<Longrightarrow>
     clock \<le> clock' \<and> clock' \<le> clock + length gs"
proof (induction gs arbitrary: clock results)
  case (Cons g gs)
  show ?case
  proof (cases "lp_fetchRange port clock ck g rng")
    case (Inr ob)
    with Cons show ?thesis
      by (cases "classifyObservation sha ob") (fastforce dest: Cons.IH)+
  qed (use Cons.prems in auto)
qed simp

abbreviation group_count :: "log_source \<Rightarrow> replay_config \<Rightarrow> nat" where
  "group_count port config \<equiv> length (lp_providerGroups port (rc_chainKey config))"

lemma collect_attempt_clock:
  "collect_attempt sha port config rng clock = (clock', res) \<Longrightarrow>
     clock \<le> clock' \<and> clock' \<le> clock + group_count port config"
  by (auto simp: collect_attempt_def split: prod.splits dest: collect_groups_clock)

definition attempts_left :: "replay_config \<Rightarrow> int \<Rightarrow> nat" where
  "attempts_left config n = max 1 (nat (rc_retryBudget config - n))"

lemma collectRange_clock:
  "collectRange sha port config rng clock attempts = (clock', outcome) \<Longrightarrow>
     clock \<le> clock' \<and> clock' \<le> clock + attempts_left config attempts * group_count port config"
proof (induction sha port config rng clock attempts rule: collectRange.induct)
  case (1 sha port config rng clock attempts)
  obtain c1 res where a: "collect_attempt sha port config rng clock = (c1, res)" by fastforce
  note run = 1(2) [unfolded collectRange.simps [of sha port config rng clock attempts] a]
  note c1 = collect_attempt_clock [OF a]
  have once: "c1 \<le> clock + attempts_left config attempts * group_count port config"
    using c1 by (simp add: attempts_left_def max_def trans_le_add1 order_trans [OF conjunct2 [OF c1]])
  show ?case
  proof (cases "\<exists>reason g r n. res = Inl (reason, g) \<and> nextStep (attempt_at config rng attempts) reason = Retry r n")
    case False
    then have "clock' = c1" using run
      by (auto split: sum.splits prod.splits next_step.splits)
    with once c1 show ?thesis by simp
  next
    case True
    then obtain reason g r n where res: "res = Inl (reason, g)"
      and retry: "nextStep (attempt_at config rng attempts) reason = Retry r n" by blast
    from run res retry have "collectRange sha port config rng c1 n = (clock', outcome)" by simp
    from 1(1) [OF a [symmetric] res refl retry this]
    have IH: "c1 \<le> clock' \<and> clock' \<le> c1 + attempts_left config n * group_count port config" .
    have "attempts_left config attempts = Suc (attempts_left config n)"
    proof -
      have "n = attempts + 1" "n < rc_retryBudget config" using nextStep_Retry [OF retry] by simp_all
      then have "1 \<le> nat (rc_retryBudget config - n)"
        "nat (rc_retryBudget config - attempts) = Suc (nat (rc_retryBudget config - n))" by arith+
      then show ?thesis by (simp add: attempts_left_def)
    qed
    with IH c1 show ?thesis by simp
  qed
qed

text \<open>Committing and blocking ask the network nothing.\<close>

lemma record_blocked_clock: "record_blocked sha config st rng reason g = (st', r) \<Longrightarrow> rn_clock st' = rn_clock st"
  by (auto simp: record_blocked_def Let_def split: sum.splits)

lemma commit_range_clock: "commit_range sha config now st rng ws d = (st', r) \<Longrightarrow> rn_clock st' = rn_clock st"
  by (auto simp: commit_range_def split: list.splits sum.splits prod.splits ingest_error.splits)

lemma run_loop_clock:
  "run_loop sha port config now st queue = (st', r) \<Longrightarrow>
     rn_clock st' \<le> rn_clock st + queue_work queue * attempts_left config 0 * group_count port config"
proof (induction sha port config now st queue rule: run_loop.induct)
  case (2 sha port config now st rng queue)
  let ?k = "attempts_left config 0 * group_count port config"
  obtain c out where col: "collectRange sha port config rng (rn_clock st) 0 = (c, out)" by fastforce
  have c: "c \<le> rn_clock st + ?k" using collectRange_clock [OF col] by simp
  note run = 2(3) [unfolded run_loop.simps(2) col]
  have one: "1 \<le> range_work rng" by (simp add: range_work_def)
  have le: "rn_clock st' \<le> rn_clock st + queue_work (rng # queue) * attempts_left config 0 * group_count port config"
    if "rn_clock st' \<le> c + w * ?k" "Suc w \<le> queue_work (rng # queue)" for w
  proof -
    have "rn_clock st' \<le> rn_clock st + Suc w * ?k" using that(1) c by simp
    also have "Suc w * ?k \<le> queue_work (rng # queue) * ?k" using that(2) by (rule mult_le_mono1)
    finally show ?thesis by (simp add: mult.assoc)
  qed
  show ?case
  proof (cases out)
    case (CollectedSplit rs)
    with col have col': "collectRange sha port config rng (rn_clock st) 0 = (c, CollectedSplit rs)" by simp
    obtain left right where s: "splitRange rng = Some (left, right)" "rs = [left, right]"
      using collectRange_split [OF col'] by blast
    from run CollectedSplit have "run_loop sha port config now (st\<lparr>rn_clock := c\<rparr>) (rs @ queue) = (st', r)" by simp
    from 2(2) [OF col [symmetric] CollectedSplit this]
    have "rn_clock st' \<le> c + queue_work (rs @ queue) * ?k" by (simp add: mult.assoc)
    then show ?thesis by (rule le) (use split_work [OF s(1)] s(2) in simp)
  next
    case (CollectedBlocked reason g)
    with run have "record_blocked sha config (st\<lparr>rn_clock := c\<rparr>) rng reason g = (st', r)" by simp
    from record_blocked_clock [OF this] show ?thesis by (intro le [of 0]) (use one in auto)
  next
    case (CollectedAgreed ws d)
    obtain st1 r1 where com: "commit_range sha config now (st\<lparr>rn_clock := c\<rparr>) rng ws d = (st1, r1)" by fastforce
    have clk: "rn_clock st1 = c" using commit_range_clock [OF com] by simp
    show ?thesis
    proof (cases "r1 = Inr True")
      case True
      with run CollectedAgreed com have "run_loop sha port config now st1 queue = (st', r)" by simp
      from 2(1) [OF col [symmetric] CollectedAgreed com [symmetric] True refl this] clk
      have "rn_clock st' \<le> c + queue_work queue * ?k" by (simp add: mult.assoc)
      then show ?thesis by (rule le) (use one in simp)
    next
      case False
      with run CollectedAgreed com have "st' = st1"
        by (auto split: sum.splits bool.splits)
      with clk show ?thesis by (intro le [of 0]) (use one in auto)
    qed
  qed
qed simp

text \<open>
  C39. A pass always ends, and asks the network a bounded number of times: every provider group at
  most once per attempt, at most the retry budget of attempts per range (and one in any case), and
  a range of \<open>n\<close> heights is tried at most \<open>2 n - 1\<close> times over all its splits.
\<close>

theorem replay_fetch_bound:
  "rn_clock (fst (run_loop sha port config now st queue))
     \<le> rn_clock st + sum_list (map (\<lambda>r. Suc (nat (2 * spanOf r - 2))) queue)
         * max 1 (nat (rc_retryBudget config)) * length (lp_providerGroups port (rc_chainKey config))"
proof -
  have work: "queue_work queue = sum_list (map (\<lambda>r. Suc (nat (2 * spanOf r - 2))) queue)"
    unfolding queue_work_def by (intro arg_cong [where f = sum_list] map_cong) (simp_all add: range_work_def)
  show ?thesis
    using run_loop_clock [of sha port config now st queue]
    by (cases "run_loop sha port config now st queue") (simp add: attempts_left_def work)
qed

section \<open>What a committed range is worth\<close>

lemma collect_groups_results:
  "collect_groups sha port ck rng clock results gs = (clock', Inr all) \<Longrightarrow>
     \<exists>new. all = results @ new \<and> length new = length gs
        \<and> (\<forall>r \<in> set new. \<exists>c g ob. g \<in> set gs \<and> lp_fetchRange port c ck g rng = Inr ob
             \<and> classifyObservation sha ob = Inr r)"
proof (induction gs arbitrary: clock results)
  case (Cons g gs)
  then obtain ob r where f: "lp_fetchRange port clock ck g rng = Inr ob" "classifyObservation sha ob = Inr r"
    and rest: "collect_groups sha port ck rng (Suc clock) (results @ [r]) gs = (clock', Inr all)"
    by (auto split: sum.splits)
  from Cons.IH [OF rest] obtain new where new: "all = (results @ [r]) @ new" "length new = length gs"
    "\<forall>r \<in> set new. \<exists>c g ob. g \<in> set gs \<and> lp_fetchRange port c ck g rng = Inr ob
             \<and> classifyObservation sha ob = Inr r" by blast
  have "\<forall>x \<in> set (r # new). \<exists>c h ob. h \<in> set (g # gs) \<and> lp_fetchRange port c ck h rng = Inr ob
             \<and> classifyObservation sha ob = Inr x"
    using f new(3) by (fastforce simp del: split_paired_Ex)
  with new(1,2) show ?case by (intro exI [of _ "r # new"]) simp
qed simp

text \<open>
  A result that entered an agreement: some group of the chain answered the range with it, in an
  observation that passed every check.
\<close>

definition answered :: "(string \<Rightarrow> string) \<Rightarrow> log_source \<Rightarrow> replay_config \<Rightarrow> block_range \<Rightarrow> range_result \<Rightarrow> bool" where
  "answered sha port config rng w \<longleftrightarrow>
     (\<exists>c g ob. g \<in> set (lp_providerGroups port (rc_chainKey config))
        \<and> lp_fetchRange port c (rc_chainKey config) g rng = Inr ob \<and> classifyObservation sha ob = Inr w)"

lemma collect_attempt_agreed:
  assumes "collect_attempt sha port config rng c = (c', Inr (ws, d))"
  shows "ws \<noteq> [] \<and> (\<forall>w \<in> set ws. rr_digest w = d \<and> answered sha port config rng w)
     \<and> distinct (map rr_providerGroup ws)
     \<and> ap_requiredIndependentGroups (rc_agreement config) \<le> int (length ws)"
proof -
  obtain all where all: "collect_groups sha port (rc_chainKey config) rng c []
      (lp_providerGroups port (rc_chainKey config)) = (c', Inr all)"
    and ag: "agree all (rc_agreement config) = AgreedOn d ws"
    using assms by (auto simp: collect_attempt_def split: prod.splits sum.splits agreement.splits)
  note s = agree_sound [OF ag]
  have names: "map rr_providerGroup ws = sorted_list_of_set (rr_providerGroup ` set all)" using s by blast
  then have "length ws = card (rr_providerGroup ` set all)"
    by (metis length_map length_sorted_list_of_set)
  moreover have "ws \<noteq> []"
  proof
    assume "ws = []"
    with names have "sorted_list_of_set (rr_providerGroup ` set all) = []" by simp
    then have "set all = {}" by simp
    with s show False by simp
  qed
  moreover have "distinct (map rr_providerGroup ws)" by (simp add: names)
  moreover have "rr_digest w = d \<and> answered sha port config rng w" if "w \<in> set ws" for w
  proof -
    have w: "w \<in> set all" using that s by blast
    then have "rr_digest w = d" using s by blast
    moreover have "answered sha port config rng w"
      using collect_groups_results [OF all] w unfolding answered_def by (simp only: append_Nil) blast
    ultimately show ?thesis by simp
  qed
  ultimately show ?thesis using s by simp
qed

text \<open>Whatever stops a pass contests or blocks its completeness.\<close>

definition stopping :: "replay_reason \<Rightarrow> bool" where
  "stopping reason \<longleftrightarrow> reason = PROVIDER_DIVERGENCE \<or> reason \<in> set BLOCKING_REASONS"

lemma nextStep_GiveUp: "nextStep st reason = GiveUp why \<Longrightarrow> stopping why"
proof -
  have "isRetryable reason \<or> stopping reason"
    by (cases reason) (simp_all add: isRetryable_def stopping_def BLOCKING_REASONS_def)
  moreover assume "nextStep st reason = GiveUp why"
  ultimately show ?thesis
    by (auto simp: nextStep_def stopping_def BLOCKING_REASONS_def split: if_splits option.splits)
qed

lemma collectRange_blocked:
  "collectRange sha port config rng clock attempts = (clock', CollectedBlocked why g) \<Longrightarrow> stopping why"
  using collectRange_last [of sha port config rng clock attempts clock' "CollectedBlocked why g"]
  by (auto simp: decides_iff dest: nextStep_GiveUp)

text \<open>An invariant of the pass: kept by the clock, by blocking and by committing an agreed range.\<close>

lemma run_loop_invariant:
  assumes "run_loop sha port config now st queue = (st', r)" and "P st"
    and "\<And>st c. P st \<Longrightarrow> P (st\<lparr>rn_clock := c\<rparr>)"
    and "\<And>st rng reason g st' r. P st \<Longrightarrow> stopping reason
           \<Longrightarrow> record_blocked sha config st rng reason g = (st', r) \<Longrightarrow> P st'"
    and "\<And>st rng c ws d st' r. P st \<Longrightarrow> collect_attempt sha port config rng c = (rn_clock st, Inr (ws, d))
           \<Longrightarrow> commit_range sha config now st rng ws d = (st', r) \<Longrightarrow> P st'"
  shows "P st'"
  using assms
proof (induction sha port config now st queue rule: run_loop.induct)
  case (1 sha port config now st)
  have "st' = st" using 1(1) by (simp only: run_loop.simps(1) prod.inject)
  with 1(2) show ?case by (simp only:)
next
  case (2 sha port config now st rng queue)
  obtain c out where col: "collectRange sha port config rng (rn_clock st) 0 = (c, out)" by fastforce
  note run = 2(3) [unfolded run_loop.simps(2) col]
  have st1: "P (st\<lparr>rn_clock := c\<rparr>)" by (rule 2(5) [OF 2(4)])
  show ?case
  proof (cases out)
    case (CollectedSplit rs)
    with run have "run_loop sha port config now (st\<lparr>rn_clock := c\<rparr>) (rs @ queue) = (st', r)" by simp
    from 2(2) [OF col [symmetric] CollectedSplit this st1 2(5-7)] show ?thesis .
  next
    case (CollectedBlocked reason g)
    with run have "record_blocked sha config (st\<lparr>rn_clock := c\<rparr>) rng reason g = (st', r)" by simp
    from 2(6) [OF st1 _ this] show ?thesis using collectRange_blocked col CollectedBlocked by metis
  next
    case (CollectedAgreed ws d)
    obtain st1' r1 where com: "commit_range sha config now (st\<lparr>rn_clock := c\<rparr>) rng ws d = (st1', r1)" by fastforce
    obtain c0 where "collect_attempt sha port config rng c0 = (c, Inr (ws, d))"
      using collectRange_agreed col CollectedAgreed by metis
    then have "P st1'" using 2(7) [OF st1 _ com] by simp
    show ?thesis
    proof (cases "r1 = Inr True")
      case True
      with run CollectedAgreed com have "run_loop sha port config now st1' queue = (st', r)" by simp
      from 2(1) [OF col [symmetric] CollectedAgreed com [symmetric] True refl this \<open>P st1'\<close> 2(5-7)] show ?thesis .
    next
      case False
      with run CollectedAgreed com have "st' = st1'"
        by (auto split: sum.splits bool.splits)
      with \<open>P st1'\<close> show ?thesis by simp
    qed
  qed
qed

text \<open>Stored evidence only grows along a pass.\<close>

definition extends :: "ledger \<Rightarrow> ledger \<Rightarrow> bool" where
  "extends ld ld' \<longleftrightarrow>
     (\<forall>k. has_key (chain_blocks ld) k \<longrightarrow> has_key (chain_blocks ld') k)
     \<and> (\<forall>k. has_key (chain_logs ld) k \<longrightarrow> has_key (chain_logs ld') k)
     \<and> (\<forall>d c n h. readCheckpoint ld d c = Some (n, h) \<longrightarrow>
          (\<exists>m g. readCheckpoint ld' d c = Some (m, g) \<and> n \<le> m))"

lemma extends_refl [simp]: "extends ld ld" by (auto simp: extends_def)

lemma extends_trans: "extends a b \<Longrightarrow> extends b c \<Longrightarrow> extends a c"
  unfolding extends_def by (meson order_trans)

lemma extends_frame:
  "chain_blocks ld' = chain_blocks ld \<Longrightarrow> chain_logs ld' = chain_logs ld
   \<Longrightarrow> replay_checkpoints ld' = replay_checkpoints ld \<Longrightarrow> extends ld ld'"
  by (auto simp: extends_def readCheckpoint_def)

lemma recordDataQualityIncident_frame:
  "recordDataQualityIncident ld k incident = Inr ld' \<Longrightarrow> \<exists>t. ld' = ld\<lparr>data_quality_incidents := t\<rparr>"
  by (auto simp: recordDataQualityIncident_def split: if_splits)

lemma upsertRangeStatus_frame:
  "upsertRangeStatus ld k row = Inr ld' \<Longrightarrow> \<exists>t. ld' = ld\<lparr>replay_ranges := t\<rparr>"
  by (auto simp: upsertRangeStatus_def Let_def split: if_splits)

lemma upsertCompleteness_frame:
  "upsertCompleteness ld d c row = Inr ld' \<Longrightarrow> \<exists>t. ld' = ld\<lparr>replay_completeness := t\<rparr>"
  by (auto simp: upsertCompleteness_def split: if_splits)

lemma extends_ingest: "extends ld (fst (ingestBatch sha ld batch))"
proof -
  obtain ld' r where run: "ingestBatch sha ld batch = (ld', r)" by fastforce
  show ?thesis
  proof (cases r)
    case (Inl e)
    from ingestBatch_Inl [OF run [unfolded Inl]] show ?thesis by (auto simp: run intro: extends_frame)
  next
    case (Inr out)
    note eff = ingest_transaction_effect [OF run [unfolded Inr ingestBatch_Inr]]
    have "\<exists>m g. readCheckpoint ld' d c = Some (m, g) \<and> n \<le> m"
      if "readCheckpoint ld d c = Some (n, h)" for d c n h
      using that unfolding readCheckpoint_def eff(4) by (simp add: checkpoint_after_def split: option.split)
    moreover have "has_key (chain_blocks ld') k" if "has_key (chain_blocks ld) k" for k
      using that unfolding has_key_map_of eff(1) first_of_def by auto
    moreover have "has_key (chain_logs ld') k" if "has_key (chain_logs ld) k" for k
      using that unfolding has_key_map_of eff(2) first_of_def by auto
    ultimately show ?thesis by (simp add: run extends_def)
  qed
qed

lemma extends_record_blocked:
  assumes "record_blocked sha config st rng reason g = (st', r)"
  shows "extends (rn_ledger st) (rn_ledger st')"
proof -
  have "chain_blocks (rn_ledger st') = chain_blocks (rn_ledger st)
      \<and> chain_logs (rn_ledger st') = chain_logs (rn_ledger st)
      \<and> replay_checkpoints (rn_ledger st') = replay_checkpoints (rn_ledger st)"
    using assms
    by (auto simp: record_blocked_def Let_def split: sum.splits
        dest!: recordDataQualityIncident_frame upsertRangeStatus_frame)
  then show ?thesis by (intro extends_frame) blast+
qed

text \<open>The three ways a commit can go: stored, stored without its status, refused.\<close>

definition complete_row :: "replay_config \<Rightarrow> block_range \<Rightarrow> range_result list \<Rightarrow> range_status_row" where
  "complete_row config rng ws =
     range_row config rng RComplete None (Some (join '','' (map rr_providerGroup ws)))"

definition complete_report :: "block_range \<Rightarrow> range_result list \<Rightarrow> string \<Rightarrow> range_report" where
  "complete_report rng ws d =
     \<lparr>rg_range = rng, rg_status = RComplete, rg_reason = None,
      rg_providerGroups = map rr_providerGroup ws, rg_digest = Some d\<rparr>"

lemma commit_range_cases:
  assumes "commit_range sha config now st rng ws d = (st', r)" and "ws \<noteq> []"
  shows "(\<exists>ld1 out ld2. ingestBatch sha (rn_ledger st) (range_batch config rng (hd ws)) = (ld1, Inr out)
            \<and> upsertRangeStatus ld1 (range_key sha config rng) (complete_row config rng ws) = Inr ld2
            \<and> r = Inr True
            \<and> st' = st\<lparr>rn_ledger := ld2, rn_lastSuccessAt := Some now,
                       rn_reports := rn_reports st @ [complete_report rng ws d]\<rparr>)
     \<or> (\<exists>ld1 out e. ingestBatch sha (rn_ledger st) (range_batch config rng (hd ws)) = (ld1, Inr out)
            \<and> upsertRangeStatus ld1 (range_key sha config rng) (complete_row config rng ws) = Inl e
            \<and> r = Inl (StorageFailure e) \<and> st' = st\<lparr>rn_ledger := ld1\<rparr>)
     \<or> (\<exists>ld1 e. ingestBatch sha (rn_ledger st) (range_batch config rng (hd ws)) = (ld1, Inl e)
            \<and> rn_ledger st' = ld1
            \<and> (r = Inr False \<and> rn_integrityConflict st' \<and> rn_reasons st' = rn_reasons st @ [PROVIDER_DIVERGENCE]
                 \<and> rn_reports st' = rn_reports st @ [\<lparr>rg_range = rng, rg_status = RBlocked,
                      rg_reason = None, rg_providerGroups = [], rg_digest = None\<rparr>]
               \<or> r \<noteq> Inr True \<and> r \<noteq> Inr False \<and> st' = st\<lparr>rn_ledger := ld1\<rparr>))"
proof -
  obtain w rest where ws: "ws = w # rest" using assms(2) by (cases ws) auto
  obtain ld1 res where ing: "ingestBatch sha (rn_ledger st) (range_batch config rng w) = (ld1, res)" by fastforce
  note run = assms(1) [unfolded commit_range_def ws list.case provenanceOf_def sum.case ing prod.case]
  show ?thesis
  proof (cases res)
    case (Inr out)
    note run' = run [unfolded Inr sum.case]
    show ?thesis
    proof (cases "upsertRangeStatus ld1 (range_key sha config rng) (complete_row config rng ws)")
      case (Inl e)
      with run' Inr ing show ?thesis by (auto simp: ws complete_row_def)
    next
      case ok: (Inr ld2)
      with run' Inr ing show ?thesis by (auto simp: ws complete_row_def complete_report_def)
    qed
  next
    case (Inl e)
    with run ing show ?thesis by (cases e) (auto simp: ws)
  qed
qed

lemma extends_commit_range:
  assumes "commit_range sha config now st rng ws d = (st', r)" and "ws \<noteq> []"
  shows "extends (rn_ledger st) (rn_ledger st')"
proof -
  let ?i = "ingestBatch sha (rn_ledger st) (range_batch config rng (hd ws))"
  have ing: "extends (rn_ledger st) (fst ?i)" by (rule extends_ingest)
  have "rn_ledger st' = fst ?i \<or> (\<exists>t. rn_ledger st' = (fst ?i)\<lparr>replay_ranges := t\<rparr>)"
    using commit_range_cases [OF assms] by (fastforce dest: upsertRangeStatus_frame)
  then have "extends (fst ?i) (rn_ledger st')" by (auto intro: extends_frame)
  with ing show ?thesis by (rule extends_trans)
qed

text \<open>
  The invariant of the reports: a range reported complete was answered alike by enough distinct
  groups, its facts are in the ledger, and the checkpoint has reached its end.
\<close>

definition agreed_by :: "(string \<Rightarrow> string) \<Rightarrow> log_source \<Rightarrow> replay_config \<Rightarrow> range_report \<Rightarrow> range_result list \<Rightarrow> bool" where
  "agreed_by sha port config rep ws \<longleftrightarrow>
     rg_providerGroups rep = map rr_providerGroup ws \<and> distinct (rg_providerGroups rep) \<and> ws \<noteq> []
     \<and> ap_requiredIndependentGroups (rc_agreement config) \<le> int (length ws)
     \<and> (\<forall>w \<in> set ws. rg_digest rep = Some (rr_digest w) \<and> answered sha port config (rg_range rep) w)"

definition stored_from :: "replay_config \<Rightarrow> ledger \<Rightarrow> range_report \<Rightarrow> range_result \<Rightarrow> bool" where
  "stored_from config ld rep w \<longleftrightarrow>
     (\<forall>b \<in> set (rr_blocks w). has_key (chain_blocks ld) (block_id b))
     \<and> (\<forall>l \<in> set (rr_logs w). has_key (chain_logs ld) (log_id l))
     \<and> (\<exists>n h. readCheckpoint ld (rc_deploymentId config) (rc_chainKey config) = Some (n, h)
          \<and> toBlock (rg_range rep) \<le> n)"

definition report_sound ::
  "(string \<Rightarrow> string) \<Rightarrow> log_source \<Rightarrow> replay_config \<Rightarrow> ledger \<Rightarrow> range_report \<Rightarrow> bool" where
  "report_sound sha port config ld rep \<longleftrightarrow>
     (rg_status rep = RComplete \<longrightarrow>
       (\<exists>ws. agreed_by sha port config rep ws \<and> stored_from config ld rep (hd ws)))"

lemma stored_from_extends: "stored_from config ld rep w \<Longrightarrow> extends ld ld' \<Longrightarrow> stored_from config ld' rep w"
  unfolding stored_from_def extends_def by (meson order_trans)

lemma report_sound_extends:
  "report_sound sha port config ld rep \<Longrightarrow> extends ld ld' \<Longrightarrow> report_sound sha port config ld' rep"
  using stored_from_extends unfolding report_sound_def by blast

lemma ingest_stores_log:
  assumes "ingest_transaction sha ld batch = Inr (ld', out)" and "l \<in> set (ib_logs batch)"
  shows "has_key (chain_logs ld') (log_id l)"
proof -
  have "find (\<lambda>x. log_id x = log_id l) (ib_logs batch) \<noteq> None"
    using assms(2) by (auto simp: find_None_iff)
  then show ?thesis
    using ingest_transaction_effect(2) [OF assms(1), of "log_id l"]
    by (auto simp: has_key_map_of first_of_def split: option.splits)
qed

lemma ingest_reaches:
  assumes "ingest_transaction sha ld (range_batch config rng w) = Inr (ld', out)"
  shows "\<exists>n h. readCheckpoint ld' (rc_deploymentId config) (rc_chainKey config) = Some (n, h) \<and> toBlock rng \<le> n"
  unfolding readCheckpoint_def ingest_transaction_effect(4) [OF assms]
  by (auto simp: checkpoint_after_def range_batch_def split: option.split)

lemma complete_report_sound:
  assumes "collect_attempt sha port config rng c = (c', Inr (ws, d))"
    and "ingestBatch sha ld (range_batch config rng (hd ws)) = (ld1, Inr out)"
  shows "report_sound sha port config ld1 (complete_report rng ws d)"
proof -
  note ag = collect_attempt_agreed [OF assms(1)]
  have tr: "ingest_transaction sha ld (range_batch config rng (hd ws)) = Inr (ld1, out)"
    using assms(2) by (simp only: ingestBatch_Inr)
  have "\<forall>b \<in> set (rr_blocks (hd ws)). has_key (chain_blocks ld1) (block_id b)"
    "\<forall>l \<in> set (rr_logs (hd ws)). has_key (chain_logs ld1) (log_id l)"
    using ingest_stores_block [OF tr] ingest_stores_log [OF tr] by (simp_all add: range_batch_def)
  with ag ingest_reaches [OF tr] show ?thesis
    unfolding report_sound_def by (intro impI exI [of _ ws])
      (simp add: agreed_by_def stored_from_def complete_report_def)
qed

lemma run_loop_reports_sound:
  assumes "run_loop sha port config now st queue = (st', r)"
    and "\<forall>rep \<in> set (rn_reports st). report_sound sha port config (rn_ledger st) rep"
  shows "\<forall>rep \<in> set (rn_reports st'). report_sound sha port config (rn_ledger st') rep"
proof (rule run_loop_invariant [where P = "\<lambda>st. \<forall>rep \<in> set (rn_reports st). report_sound sha port config (rn_ledger st) rep",
      OF assms])
  fix st rng reason g st' r
  assume inv: "\<forall>rep \<in> set (rn_reports st). report_sound sha port config (rn_ledger st) rep"
    and b: "record_blocked sha config st rng reason g = (st', r)"
  have "rn_reports st' = rn_reports st
      \<or> (\<exists>rep. rg_status rep \<noteq> RComplete \<and> rn_reports st' = rn_reports st @ [rep])"
    using b by (auto simp: record_blocked_def Let_def split: sum.splits if_splits)
  with inv report_sound_extends [OF _ extends_record_blocked [OF b]]
  show "\<forall>rep \<in> set (rn_reports st'). report_sound sha port config (rn_ledger st') rep"
    by (auto simp: report_sound_def)
next
  fix st rng c ws d st' r
  assume inv: "\<forall>rep \<in> set (rn_reports st). report_sound sha port config (rn_ledger st) rep"
    and at: "collect_attempt sha port config rng c = (rn_clock st, Inr (ws, d))"
    and com: "commit_range sha config now st rng ws d = (st', r)"
  have ne: "ws \<noteq> []" using collect_attempt_agreed [OF at] by blast
  have old: "\<forall>rep \<in> set (rn_reports st). report_sound sha port config (rn_ledger st') rep"
    using inv report_sound_extends [OF _ extends_commit_range [OF com ne]] by blast
  from commit_range_cases [OF com ne]
  show "\<forall>rep \<in> set (rn_reports st'). report_sound sha port config (rn_ledger st') rep"
  proof (elim disjE exE conjE)
    fix ld1 out ld2
    assume ing: "ingestBatch sha (rn_ledger st) (range_batch config rng (hd ws)) = (ld1, Inr out)"
      and up: "upsertRangeStatus ld1 (range_key sha config rng) (complete_row config rng ws) = Inr ld2"
      and st': "st' = st\<lparr>rn_ledger := ld2, rn_lastSuccessAt := Some now,
                       rn_reports := rn_reports st @ [complete_report rng ws d]\<rparr>"
    have "extends ld1 ld2" using upsertRangeStatus_frame [OF up] by (auto intro: extends_frame)
    with complete_report_sound [OF at ing] have "report_sound sha port config ld2 (complete_report rng ws d)"
      by (rule report_sound_extends)
    with old show ?thesis by (simp add: st')
  qed (use old in \<open>auto simp: report_sound_def\<close>)
qed simp

section \<open>A pass that met any trouble is not green\<close>

definition troubled :: "run_state \<Rightarrow> bool" where
  "troubled st \<longleftrightarrow> (\<exists>reason \<in> set (rn_reasons st). stopping reason)"

lemma run_loop_troubled:
  assumes "run_loop sha port config now st queue = (st', r)"
    and "troubled st \<or> \<not> rn_integrityConflict st \<and> (\<forall>rep \<in> set (rn_reports st). rg_status rep = RComplete)"
  shows "troubled st' \<or> \<not> rn_integrityConflict st' \<and> (\<forall>rep \<in> set (rn_reports st'). rg_status rep = RComplete)"
proof (rule run_loop_invariant [where P = "\<lambda>st. troubled st
      \<or> \<not> rn_integrityConflict st \<and> (\<forall>rep \<in> set (rn_reports st). rg_status rep = RComplete)", OF assms])
  fix st rng reason g st' r
  assume "stopping reason" and "record_blocked sha config st rng reason g = (st', r)"
  then have "reason \<in> set (rn_reasons st')" by (auto simp: record_blocked_def Let_def split: sum.splits)
  with \<open>stopping reason\<close> have "troubled st'" by (auto simp: troubled_def)
  then show "troubled st'
      \<or> \<not> rn_integrityConflict st' \<and> (\<forall>rep \<in> set (rn_reports st'). rg_status rep = RComplete)" ..
next
  fix st rng c ws d st' r
  assume inv: "troubled st \<or> \<not> rn_integrityConflict st \<and> (\<forall>rep \<in> set (rn_reports st). rg_status rep = RComplete)"
    and at: "collect_attempt sha port config rng c = (rn_clock st, Inr (ws, d))"
    and com: "commit_range sha config now st rng ws d = (st', r)"
  have ne: "ws \<noteq> []" using collect_attempt_agreed [OF at] by blast
  from commit_range_cases [OF com ne] inv
  show "troubled st' \<or> \<not> rn_integrityConflict st' \<and> (\<forall>rep \<in> set (rn_reports st'). rg_status rep = RComplete)"
    by (elim disjE exE conjE) (auto simp: troubled_def complete_report_def stopping_def)
qed (simp add: troubled_def)

lemma finish_replay_Inr:
  assumes "finish_replay port config now cb st = (ld', Inr report)"
  shows "\<exists>t. ld' = (rn_ledger st)\<lparr>replay_completeness := t\<rparr>" and "rp_ranges report = rn_reports st"
    and "rp_integrityConflict report = rn_integrityConflict st"
    and "rp_verdict report = cr_verdict (assessCompleteness
            \<lparr>cm_window = \<lparr>fromBlock = rc_startBlock config, toBlock = lp_agreedAcceptedHead port (rc_chainKey config)\<rparr>,
             cm_committed = readCommittedRanges (rn_ledger st) (rc_deploymentId config) (rc_chainKey config),
             cm_lastSuccessAt = rn_lastSuccessAt st, cm_freshnessTtlMs = rc_freshnessTtlMs config,
             cm_openReasons = rn_reasons st, cm_now = now\<rparr>)"
  using assms upsertCompleteness_frame
  by (auto simp: finish_replay_def Let_def split: sum.splits)

lemma finish_replay_Inl: "finish_replay port config now cb st = (ld', Inl e) \<Longrightarrow> ld' = rn_ledger st"
  by (auto simp: finish_replay_def Let_def split: sum.splits)

lemma runReplay_Inr:
  assumes "runReplay sha port config hints now ld = (ld', Inr report)"
  obtains planned st where
    "planRanges (replay_plan port config
       (map_option fst (readCheckpoint ld (rc_deploymentId config) (rc_chainKey config)))) = Inr planned"
    "run_loop sha port config now (start_state config ld)
       (prioritise planned (slice_to (rc_maxHintsConsidered config) hints)) = (st, Inr ())"
    "finish_replay port config now
       (map_option fst (readCheckpoint ld (rc_deploymentId config) (rc_chainKey config))) st = (ld', Inr report)"
proof -
  let ?cb = "map_option fst (readCheckpoint ld (rc_deploymentId config) (rc_chainKey config))"
  note run = assms [unfolded runReplay_def Let_def]
  show thesis
  proof (cases "planRanges (replay_plan port config ?cb)")
    case (Inl e)
    with run show thesis by simp
  next
    case plan: (Inr planned)
    let ?queue = "prioritise planned (slice_to (rc_maxHintsConsidered config) hints)"
    obtain st r where loop: "run_loop sha port config now (start_state config ld) ?queue = (st, r)" by fastforce
    show thesis
    proof (cases r)
      case (Inl e)
      with run plan loop show thesis by simp
    next
      case (Inr u)
      with run plan loop have "finish_replay port config now ?cb st = (ld', Inr report)" by simp
      with that [OF plan] loop Inr show thesis by simp
    qed
  qed
qed

lemma readCommittedRanges_frame [simp]:
  "readCommittedRanges (ld\<lparr>replay_completeness := t\<rparr>) d c = readCommittedRanges ld d c"
  by (simp add: readCommittedRanges_def)

lemma finish_replay_ledger: "\<exists>t. fst (finish_replay port config now cb st) = (rn_ledger st)\<lparr>replay_completeness := t\<rparr>"
proof -
  obtain ld' r where f: "finish_replay port config now cb st = (ld', r)" by fastforce
  have "\<exists>t. rn_ledger st = (rn_ledger st)\<lparr>replay_completeness := t\<rparr>"
    by (rule exI [of _ "replay_completeness (rn_ledger st)"]) simp
  then show ?thesis
    using f finish_replay_Inl finish_replay_Inr(1) by (cases r) fastforce+
qed

lemma run_loop_extends:
  assumes "run_loop sha port config now st queue = (st', r)"
  shows "extends (rn_ledger st) (rn_ledger st')"
proof (rule run_loop_invariant [where P = "\<lambda>s. extends (rn_ledger st) (rn_ledger s)", OF assms])
  fix s rng reason g s' r
  assume "extends (rn_ledger st) (rn_ledger s)" "record_blocked sha config s rng reason g = (s', r)"
  then show "extends (rn_ledger st) (rn_ledger s')" using extends_record_blocked extends_trans by blast
next
  fix s rng c ws d s' r
  assume "extends (rn_ledger st) (rn_ledger s)" "collect_attempt sha port config rng c = (rn_clock s, Inr (ws, d))"
    "commit_range sha config now s rng ws d = (s', r)"
  then show "extends (rn_ledger st) (rn_ledger s')"
    using extends_commit_range collect_attempt_agreed extends_trans by metis
qed simp_all

lemma runReplay_extends: "extends ld (fst (runReplay sha port config hints now ld))"
proof -
  let ?cb = "map_option fst (readCheckpoint ld (rc_deploymentId config) (rc_chainKey config))"
  show ?thesis
  proof (cases "planRanges (replay_plan port config ?cb)")
    case (Inl e)
    then show ?thesis by (simp add: runReplay_def)
  next
    case (Inr planned)
    obtain st r where loop: "run_loop sha port config now (start_state config ld)
        (prioritise planned (slice_to (rc_maxHintsConsidered config) hints)) = (st, r)" by fastforce
    have st: "extends ld (rn_ledger st)" using run_loop_extends [OF loop] by (simp add: start_state_def)
    have "extends (rn_ledger st) (fst (finish_replay port config now ?cb st))"
      using finish_replay_ledger [of port config now ?cb st] by (auto intro: extends_frame)
    with st have "extends ld (fst (finish_replay port config now ?cb st))" by (rule extends_trans)
    with st show ?thesis by (cases r) (simp_all add: runReplay_def Inr loop)
  qed
qed

text \<open>
  C10. A range becomes history only on agreement. Whatever the network answers, every range that a
  pass reports complete was answered with one digest by at least the required number of distinct
  provider groups, each in an observation that passed all checks; the blocks and logs of a witness
  are in the ledger and the checkpoint has reached the end of the range. The evidence stored before
  the pass, and the checkpoint, are never taken back, also when the pass fails.
\<close>

theorem runReplay_commits_agreed:
  "case runReplay sha port config hints now ld of
     (ld', Inr report) \<Rightarrow> list_all (report_sound sha port config ld') (rp_ranges report) \<and> extends ld ld'
   | (ld', Inl e) \<Rightarrow> extends ld ld'"
proof -
  obtain ld' r where run: "runReplay sha port config hints now ld = (ld', r)" by fastforce
  have ext: "extends ld ld'" using runReplay_extends [of ld sha port config hints now] by (simp add: run)
  show ?thesis
  proof (cases r)
    case (Inr report)
    obtain planned st where
      loop: "run_loop sha port config now (start_state config ld)
        (prioritise planned (slice_to (rc_maxHintsConsidered config) hints)) = (st, Inr ())" and
      fin: "finish_replay port config now
        (map_option fst (readCheckpoint ld (rc_deploymentId config) (rc_chainKey config))) st = (ld', Inr report)"
      using runReplay_Inr [OF run [unfolded Inr]] by blast
    have "\<forall>rep \<in> set (rn_reports st). report_sound sha port config (rn_ledger st) rep"
      using run_loop_reports_sound [OF loop] by (simp add: start_state_def)
    moreover have "extends (rn_ledger st) ld'"
      using finish_replay_Inr(1) [OF fin] by (auto intro: extends_frame)
    ultimately have "list_all (report_sound sha port config ld') (rp_ranges report)"
      using report_sound_extends by (auto simp: finish_replay_Inr(2) [OF fin] list_all_iff)
    with ext show ?thesis by (simp add: run Inr)
  qed (simp add: run ext)
qed

lemma runReplay_fail_closed:
  assumes "runReplay sha port config hints now ld = (ld', Inr report)" and "rp_verdict report = OK"
  shows "rc_startBlock config \<le> h \<Longrightarrow> h \<le> lp_agreedAcceptedHead port (rc_chainKey config) \<Longrightarrow>
           covers (readCommittedRanges ld' (rc_deploymentId config) (rc_chainKey config)) h"
    and "(\<forall>rep \<in> set (rp_ranges report). rg_status rep = RComplete) \<and> \<not> rp_integrityConflict report"
proof -
  obtain planned st where
    loop: "run_loop sha port config now (start_state config ld)
      (prioritise planned (slice_to (rc_maxHintsConsidered config) hints)) = (st, Inr ())" and
    fin: "finish_replay port config now
      (map_option fst (readCheckpoint ld (rc_deploymentId config) (rc_chainKey config))) st = (ld', Inr report)"
    using runReplay_Inr [OF assms(1)] by blast
  note f = finish_replay_Inr [OF fin]
  have ok: "cr_verdict (assessCompleteness
            \<lparr>cm_window = \<lparr>fromBlock = rc_startBlock config, toBlock = lp_agreedAcceptedHead port (rc_chainKey config)\<rparr>,
             cm_committed = readCommittedRanges (rn_ledger st) (rc_deploymentId config) (rc_chainKey config),
             cm_lastSuccessAt = rn_lastSuccessAt st, cm_freshnessTtlMs = rc_freshnessTtlMs config,
             cm_openReasons = rn_reasons st, cm_now = now\<rparr>) = OK"
    using assms(2) f(4) by simp
  have "\<not> troubled st"
    using ok by (auto simp: troubled_def stopping_def assessCompleteness_def Let_def list_ex_iff
        split: if_splits option.splits)
  then have "\<not> rn_integrityConflict st \<and> (\<forall>rep \<in> set (rn_reports st). rg_status rep = RComplete)"
    using run_loop_troubled [OF loop] by (simp add: start_state_def)
  moreover obtain t where "ld' = (rn_ledger st)\<lparr>replay_completeness := t\<rparr>" using f(1) by blast
  ultimately show "(\<forall>rep \<in> set (rp_ranges report). rg_status rep = RComplete) \<and> \<not> rp_integrityConflict report"
    and "rc_startBlock config \<le> h \<Longrightarrow> h \<le> lp_agreedAcceptedHead port (rc_chainKey config) \<Longrightarrow>
           covers (readCommittedRanges ld' (rc_deploymentId config) (rc_chainKey config)) h"
    using assessCompleteness_covered [OF ok] f(2,3) by simp_all
qed

text \<open>
  Fail closed. A pass is reported OK only when every height from the trustworthy start to the
  agreed head lies in a range committed in the ledger it leaves behind, every range it worked on
  was committed, no integrity conflict was met and a success is inside the freshness window.
\<close>

theorem runReplay_OK:
  assumes "runReplay sha port config hints now ld = (ld', Inr report)" and "rp_verdict report = OK"
  shows "(\<forall>h. rc_startBlock config \<le> h \<and> h \<le> lp_agreedAcceptedHead port (rc_chainKey config) \<longrightarrow>
           covers (readCommittedRanges ld' (rc_deploymentId config) (rc_chainKey config)) h)
     \<and> (\<forall>rep \<in> set (rp_ranges report). rg_status rep = RComplete) \<and> \<not> rp_integrityConflict report"
  using runReplay_fail_closed [OF assms] by blast

section \<open>A chain of two empty blocks\<close>

definition example_answer :: "string \<Rightarrow> block_range \<Rightarrow> range_observation" where
  "example_answer g r =
     \<lparr>ro_providerGroup = g, ro_range = r, ro_startBlockHash = example_hash (CHR ''a''),
      ro_endBlockHash = example_hash (CHR ''a''), ro_logCount = 0, ro_logs = [], ro_blocks = [],
      ro_complete = True, ro_viaArchive = False\<rparr>"

text \<open>The one group of the chain has lost the history of the height \<open>bad\<close>.\<close>

definition example_port :: "int \<Rightarrow> int \<Rightarrow> log_source" where
  "example_port head bad =
     \<lparr>lp_agreedAcceptedHead = (\<lambda>_. head), lp_providerGroups = (\<lambda>_. [''g'']),
      lp_maxRangeBlocks = (\<lambda>_ _. 1),
      lp_fetchRange = (\<lambda>_ _ g r. if fromBlock r = bad then Inl (PRUNED_HISTORY, g)
                                  else Inr (example_answer g r))\<rparr>"

definition example_config :: replay_config where
  "example_config =
     \<lparr>rc_deploymentId = ''d'', rc_chainKey = ''c'', rc_startBlock = 1,
      rc_agreement = \<lparr>ap_requiredIndependentGroups = 1, ap_archiveFallbackDeclared = False\<rparr>,
      rc_retryBudget = 3, rc_freshnessTtlMs = 10, rc_maxHintsConsidered = 5\<rparr>"

definition example_result_of :: "(string \<Rightarrow> string) \<Rightarrow> block_range \<Rightarrow> range_result" where
  "example_result_of sha r =
     \<lparr>rr_providerGroup = ''g'', rr_range = r, rr_startBlockHash = example_hash (CHR ''a''),
      rr_endBlockHash = example_hash (CHR ''a''), rr_logCount = 0,
      rr_digest = rangeDigest sha (example_answer ''g'' r), rr_viaArchive = False,
      rr_blocks = [], rr_logs = []\<rparr>"

lemma example_classified: "classifyObservation sha (example_answer ''g'' r) = Inr (example_result_of sha r)"
  by (simp add: classifyObservation_def example_answer_def example_result_of_def findLogIndexHole_def group_by_def)

lemma example_collected:
  "collectRange sha (example_port head bad) example_config r clock 0 =
     (Suc clock, if fromBlock r = bad then CollectedBlocked PRUNED_HISTORY (Some ''g'')
                 else CollectedAgreed [example_result_of sha r] (rr_digest (example_result_of sha r)))"
proof -
  have "agree [example_result_of sha r] (rc_agreement example_config)
      = AgreedOn (rr_digest (example_result_of sha r)) [example_result_of sha r]"
    by (simp add: agree_def example_config_def group_by_def group_push_def List.map_filter_simps example_result_of_def)
  then have "collect_attempt sha (example_port head bad) example_config r clock =
     (Suc clock, if fromBlock r = bad then Inl (PRUNED_HISTORY, ''g'')
        else Inr ([example_result_of sha r], rr_digest (example_result_of sha r)))"
    by (simp add: collect_attempt_def example_port_def example_config_def example_classified)
  then show ?thesis
    by (subst collectRange.simps) (simp add: nextStep_def isRetryable_def)
qed

text \<open>Committing an empty range only moves the checkpoint and writes the status row.\<close>

definition example_commit :: "(string \<Rightarrow> string) \<Rightarrow> block_range \<Rightarrow> ledger \<Rightarrow> ledger" where
  "example_commit sha r ld =
     ld\<lparr>replay_checkpoints := [((''d'', ''c''), (toBlock r, example_hash (CHR ''a'')))],
        replay_ranges := AList.update (range_key sha example_config r)
          (range_row example_config r RComplete None (Some ''g'')) (replay_ranges ld)\<rparr>"

lemma example_committed:
  assumes "0 \<le> fromBlock r" and "fromBlock r \<le> toBlock r" and "toBlock r < 1000"
    and "replay_checkpoints (rn_ledger st) = [] \<or> (\<exists>n h. replay_checkpoints (rn_ledger st) = [((''d'', ''c''), (n, h))] \<and> n < toBlock r)"
    and "map_of (replay_ranges (rn_ledger st)) (range_key sha example_config r) = None"
  shows "commit_range sha example_config now st r [example_result_of sha r] digest =
     (st\<lparr>rn_ledger := example_commit sha r (rn_ledger st), rn_lastSuccessAt := Some now,
         rn_reports := rn_reports st @ [complete_report r [example_result_of sha r] digest]\<rparr>, Inr True)"
proof -
  let ?batch = "range_batch example_config r (example_result_of sha r)"
  have "\<exists>out. ingest_transaction sha (rn_ledger st) ?batch
      = Inr ((rn_ledger st)\<lparr>replay_checkpoints := [((''d'', ''c''), (toBlock r, example_hash (CHR ''a'')))]\<rparr>, out)"
    using assms(1-4)
    by (auto simp: ingest_transaction_def range_batch_def example_result_of_def insertBlocks_def insertLogs_def
        insertObservations_def advance_checkpoint_def example_config_def example_hash_ok example_hex column_nat_def)
  then obtain out where "ingestBatch sha (rn_ledger st) ?batch
      = ((rn_ledger st)\<lparr>replay_checkpoints := [((''d'', ''c''), (toBlock r, example_hash (CHR ''a'')))]\<rparr>, Inr out)"
    by (auto simp: ingestBatch_Inr)
  then show ?thesis
    using assms(1-3,5)
    by (simp add: commit_range_def provenanceOf_def upsertRangeStatus_def range_row_def int8_def
        example_commit_def example_result_of_def complete_report_def)
qed

lemma replay_plan_example:
  "replay_plan (example_port head bad) example_config cb =
     \<lparr>pi_startBlock = resume_from example_config cb, pi_agreedHead = head, pi_maxRangeBlocks = 1, pi_retryBudget = 3\<rparr>"
  by (simp add: replay_plan_def example_port_def example_config_def MAX_SAFE_INTEGER_def)

abbreviation height_range :: "int \<Rightarrow> block_range" where
  "height_range n \<equiv> \<lparr>fromBlock = n, toBlock = n\<rparr>"

lemma example_start:
  "rc_startBlock example_config = 1" "rc_deploymentId example_config = ''d''" "rc_chainKey example_config = ''c''"
  "rc_freshnessTtlMs example_config = 10" "rc_maxHintsConsidered example_config = 5"
  by (simp_all add: example_config_def)

lemma example_head: "lp_agreedAcceptedHead (example_port head bad) k = head"
  by (simp add: example_port_def)

lemma example_one_height:
  "\<exists>report. runReplay sha (example_port 1 0) example_config [] 100 empty_ledger
      = ((example_commit sha (height_range 1) empty_ledger)\<lparr>replay_completeness :=
           [((''d'', ''c''), \<lparr>cw_status = RComplete, cw_verdict = OK, cw_windowFrom = 1, cw_windowTo = 1,
              cw_gapCount = 0, cw_reasons = [], cw_lastSuccessAt = Some 100, cw_evaluatedAt = 100\<rparr>)]\<rparr>,
         Inr report) \<and> rp_verdict report = OK \<and> map rg_status (rp_ranges report) = [RComplete]"
proof -
  have plan: "planRanges (replay_plan (example_port 1 0) example_config None) = Inr [height_range 1]"
    unfolding replay_plan_example
    by (simp add: planRanges_def resume_from_def plan_loop.simps example_start)
  have queue: "prioritise [height_range 1] [] = [height_range 1]" by (simp add: prioritise_def)
  have fresh: "map_of (replay_ranges empty_ledger) k = None" "replay_checkpoints empty_ledger = []" for k
    by (simp_all add: empty_ledger_def)
  have "run_loop sha (example_port 1 0) example_config 100 (start_state example_config empty_ledger) [height_range 1]
     = ((start_state example_config empty_ledger)
          \<lparr>rn_clock := 1, rn_ledger := example_commit sha (height_range 1) empty_ledger, rn_lastSuccessAt := Some 100,
           rn_reports := [complete_report (height_range 1) [example_result_of sha (height_range 1)]
             (rr_digest (example_result_of sha (height_range 1)))]\<rparr>, Inr ())"
    by (simp add: run_loop.simps(2) example_collected example_committed fresh start_state_def)
  then show ?thesis
    by (simp add: runReplay_def readCheckpoint_def fresh plan queue slice_to_def finish_replay_def)
      (simp add: start_state_def complete_report_def example_commit_def readCommittedRanges_def empty_ledger_def range_row_def
        example_config_def example_port_def assessCompleteness_def findRangeGaps_def gap_step_def
        upsertCompleteness_def int8_def readCheckpoint_def)
qed

theorem runReplay_OK_witness:
  "covers (readCommittedRanges (fst (runReplay hex_text (example_port 1 0) example_config [] 100 empty_ledger))
     ''d'' ''c'') 1"
proof -
  obtain ld' report where run: "runReplay hex_text (example_port 1 0) example_config [] 100 empty_ledger = (ld', Inr report)"
    and ok: "rp_verdict report = OK"
    using example_one_height by blast
  from runReplay_OK [OF run ok, THEN conjunct1, rule_format, of 1]
  show ?thesis unfolding run by (simp add: example_start example_head)
qed

end
