(* ===== verification/ReplayCoverage.thy ===== *)
theory ReplayCoverage
  imports ReplayRuns
begin

text \<open>
  What passes do to the covered heights over time (packages/replay/src/engine.ts over the
  \<open>replay_ranges\<close> and \<open>replay_checkpoints\<close> tables): without hints the checkpoint never runs ahead of
  the committed ranges and a pass that nothing blocks reaches the head; a height that the checkpoint
  has passed uncovered is never replayed again.
\<close>

section \<open>The status rows of one lane\<close>

lemma range_key_inject:
  assumes "inj sha" and "range_key sha config r = range_key sha config s"
  shows "r = s"
proof -
  have "join ''|'' [show_int (fromBlock r), show_int (toBlock r)]
      = join ''|'' [show_int (fromBlock s), show_int (toBlock s)]"
    using injD [OF assms(1) assms(2) [unfolded range_key_def rangeId_def]] by simp
  then have eq: "show_int (fromBlock r) @ CHR ''|'' # show_int (toBlock r)
      = show_int (fromBlock s) @ CHR ''|'' # show_int (toBlock s)" by simp
  have free: "CHR ''|'' \<notin> set (show_int i)" for i using plain_show_int [of i] by (simp add: plain_def)
  have "show_int (fromBlock r) = show_int (fromBlock s) \<and> show_int (toBlock r) = show_int (toBlock s)"
    by (rule append_sep_inject [OF free free eq])
  then show ?thesis by (cases r; cases s) (simp add: show_int_inject)
qed

text \<open>
  The rows of a lane are filed under the range identifier of their own bounds, and no row of
  another lane is filed there.
\<close>

abbreviation row_range :: "range_status_row \<Rightarrow> block_range" where
  "row_range row \<equiv> \<lparr>fromBlock = rs_fromBlock row, toBlock = rs_toBlock row\<rparr>"

definition in_lane :: "replay_config \<Rightarrow> range_status_row \<Rightarrow> bool" where
  "in_lane config row \<longleftrightarrow> rs_deploymentId row = rc_deploymentId config \<and> rs_chainKey row = rc_chainKey config"

definition lane_ranges :: "(string \<Rightarrow> string) \<Rightarrow> replay_config \<Rightarrow> ledger \<Rightarrow> bool" where
  "lane_ranges sha config ld \<longleftrightarrow>
     distinct (map fst (replay_ranges ld))
     \<and> (\<forall>k row. map_of (replay_ranges ld) k = Some row \<longrightarrow>
          (in_lane config row \<longrightarrow> k = range_key sha config (row_range row))
          \<and> (\<forall>r. k = range_key sha config r \<longrightarrow> in_lane config row))"

lemma lane_rangesD:
  assumes "lane_ranges sha config ld"
  shows "map_of (replay_ranges ld) k = Some row \<Longrightarrow> in_lane config row \<Longrightarrow> k = range_key sha config (row_range row)"
    and "map_of (replay_ranges ld) (range_key sha config r) = Some row \<Longrightarrow> in_lane config row"
  using assms unfolding lane_ranges_def by blast+

definition done_range :: "(string \<Rightarrow> string) \<Rightarrow> replay_config \<Rightarrow> ledger \<Rightarrow> block_range \<Rightarrow> bool" where
  "done_range sha config ld r \<longleftrightarrow>
     (\<exists>row. map_of (replay_ranges ld) (range_key sha config r) = Some row \<and> rs_status row = RComplete)"

definition covered :: "replay_config \<Rightarrow> ledger \<Rightarrow> int \<Rightarrow> bool" where
  "covered config ld h \<longleftrightarrow> covers (readCommittedRanges ld (rc_deploymentId config) (rc_chainKey config)) h"

lemma set_readCommittedRanges:
  assumes "inj sha" and "lane_ranges sha config ld"
  shows "r \<in> set (readCommittedRanges ld (rc_deploymentId config) (rc_chainKey config)) \<longleftrightarrow> done_range sha config ld r"
proof -
  have d: "distinct (map fst (replay_ranges ld))" using assms(2) by (simp add: lane_ranges_def)
  have "r \<in> set (readCommittedRanges ld (rc_deploymentId config) (rc_chainKey config))
      \<longleftrightarrow> (\<exists>k row. (k, row) \<in> set (replay_ranges ld) \<and> in_lane config row \<and> rs_status row = RComplete \<and> r = row_range row)"
    by (force simp: readCommittedRanges_def in_lane_def)
  also have "\<dots> \<longleftrightarrow> (\<exists>k row. map_of (replay_ranges ld) k = Some row \<and> in_lane config row
      \<and> rs_status row = RComplete \<and> r = row_range row)"
    using map_of_eq_Some_iff [OF d] by simp
  also have "\<dots> \<longleftrightarrow> done_range sha config ld r"
  proof
    assume "\<exists>k row. map_of (replay_ranges ld) k = Some row \<and> in_lane config row
      \<and> rs_status row = RComplete \<and> r = row_range row"
    then obtain k row where row: "map_of (replay_ranges ld) k = Some row" "in_lane config row"
      "rs_status row = RComplete" "r = row_range row" by blast
    then have "k = range_key sha config r" using assms(2) by (simp add: lane_ranges_def)
    with row show "done_range sha config ld r" by (simp add: done_range_def)
  next
    assume "done_range sha config ld r"
    then obtain row where row: "map_of (replay_ranges ld) (range_key sha config r) = Some row" "rs_status row = RComplete"
      by (auto simp: done_range_def)
    then have lane: "in_lane config row" using lane_rangesD(2) [OF assms(2)] by blast
    have "range_key sha config r = range_key sha config (row_range row)"
      by (rule lane_rangesD(1) [OF assms(2) row(1) lane])
    then have "r = row_range row" by (rule range_key_inject [OF assms(1)])
    with row lane show "\<exists>k row. map_of (replay_ranges ld) k = Some row \<and> in_lane config row
      \<and> rs_status row = RComplete \<and> r = row_range row" by blast
  qed
  finally show ?thesis .
qed

lemma covered_iff:
  assumes "inj sha" and "lane_ranges sha config ld"
  shows "covered config ld h \<longleftrightarrow> (\<exists>r. done_range sha config ld r \<and> fromBlock r \<le> h \<and> h \<le> toBlock r)"
  unfolding covered_def covers_def Bex_def set_readCommittedRanges [OF assms] by simp

text \<open>Writing the status of a range changes that range and no other.\<close>

lemma upsert_status:
  assumes "inj sha" and "lane_ranges sha config ld"
    and "upsertRangeStatus ld (range_key sha config r) (range_row config r status reason g) = Inr ld'"
  shows "lane_ranges sha config ld'"
    and "done_range sha config ld' s \<longleftrightarrow> (if s = r then status = RComplete else done_range sha config ld s)"
proof -
  let ?k = "range_key sha config r"
  obtain row where t: "replay_ranges ld' = AList.update ?k row (replay_ranges ld)"
    and row: "rs_status row = status" "in_lane config row" "row_range row = r"
  proof (cases "map_of (replay_ranges ld) ?k")
    case None
    then have "replay_ranges ld' = AList.update ?k (range_row config r status reason g) (replay_ranges ld)"
      using assms(3) by (auto simp: upsertRangeStatus_def split: if_splits)
    then show thesis by (rule that) (simp_all add: range_row_def in_lane_def)
  next
    case (Some old)
    then have lane: "in_lane config old" by (rule lane_rangesD(2) [OF assms(2)])
    have "?k = range_key sha config (row_range old)" by (rule lane_rangesD(1) [OF assms(2) Some lane])
    then have "r = row_range old" by (rule range_key_inject [OF assms(1)])
    moreover define new where "new = old\<lparr>rs_status := status, rs_reasonCode := reason, rs_providerGroup := g\<rparr>"
    moreover have "replay_ranges ld' = AList.update ?k new (replay_ranges ld)"
      using assms(3) Some by (auto simp: new_def upsertRangeStatus_def range_row_def split: if_splits)
    ultimately show thesis using lane by (intro that [of new]) (simp_all add: in_lane_def)
  qed
  have look: "map_of (replay_ranges ld') k = (if k = ?k then Some row else map_of (replay_ranges ld) k)" for k
    unfolding t by (simp add: update_conv')
  have "distinct (map fst (replay_ranges ld'))"
    using assms(2) unfolding t lane_ranges_def by (simp add: distinct_update)
  then show "lane_ranges sha config ld'"
    using assms(2) row unfolding lane_ranges_def look by auto
  show "done_range sha config ld' s \<longleftrightarrow> (if s = r then status = RComplete else done_range sha config ld s)"
    using range_key_inject [OF assms(1)] row(1) unfolding done_range_def look by auto
qed

lemma same_rows:
  assumes "replay_ranges ld' = replay_ranges ld"
  shows "lane_ranges sha config ld' \<longleftrightarrow> lane_ranges sha config ld"
    and "done_range sha config ld' s \<longleftrightarrow> done_range sha config ld s"
    and "covered config ld' h \<longleftrightarrow> covered config ld h"
  using assms by (simp_all add: lane_ranges_def done_range_def covered_def readCommittedRanges_def)

section \<open>A pass as a walk along its queue\<close>

lemma run_loop_queue_rule:
  assumes "run_loop sha port config now st queue = (st', r)" and "P st queue"
    and "\<And>st rng queue c left right. P st (rng # queue) \<Longrightarrow> splitRange rng = Some (left, right)
           \<Longrightarrow> P (st\<lparr>rn_clock := c\<rparr>) (left # right # queue)"
    and "\<And>st rng queue c reason g st' r. P st (rng # queue) \<Longrightarrow> stopping reason
           \<Longrightarrow> record_blocked sha config (st\<lparr>rn_clock := c\<rparr>) rng reason g = (st', r) \<Longrightarrow> Q st' r"
    and "\<And>st rng queue c0 c ws d st'. P st (rng # queue)
           \<Longrightarrow> collect_attempt sha port config rng c0 = (c, Inr (ws, d))
           \<Longrightarrow> commit_range sha config now (st\<lparr>rn_clock := c\<rparr>) rng ws d = (st', Inr True) \<Longrightarrow> P st' queue"
    and "\<And>st rng queue c0 c ws d st' r. P st (rng # queue)
           \<Longrightarrow> collect_attempt sha port config rng c0 = (c, Inr (ws, d))
           \<Longrightarrow> commit_range sha config now (st\<lparr>rn_clock := c\<rparr>) rng ws d = (st', r) \<Longrightarrow> r \<noteq> Inr True
           \<Longrightarrow> Q st' (case r of Inl e \<Rightarrow> Inl e | Inr _ \<Rightarrow> Inr ())"
    and "\<And>st. P st [] \<Longrightarrow> Q st (Inr ())"
  shows "Q st' r"
  using assms
proof (induction sha port config now st queue rule: run_loop.induct)
  case (1 sha port config now st)
  then show ?case by simp
next
  case (2 sha port config now st rng queue)
  obtain c out where col: "collectRange sha port config rng (rn_clock st) 0 = (c, out)" by fastforce
  note run = 2(3) [unfolded run_loop.simps(2) col]
  show ?case
  proof (cases out)
    case (CollectedSplit rs)
    from collectRange_split [OF col [unfolded CollectedSplit]] obtain left right where
      s: "splitRange rng = Some (left, right)" and rs: "rs = [left, right]" by blast
    have start: "P (st\<lparr>rn_clock := c\<rparr>) (rs @ queue)" using 2(5) [OF 2(4) s] by (simp add: rs)
    have go: "run_loop sha port config now (st\<lparr>rn_clock := c\<rparr>) (rs @ queue) = (st', r)"
      using run CollectedSplit by simp
    from 2(2) [OF col [symmetric] CollectedSplit go start 2(5-9)] show ?thesis .
  next
    case (CollectedBlocked reason g)
    with run have b: "record_blocked sha config (st\<lparr>rn_clock := c\<rparr>) rng reason g = (st', r)" by simp
    have "stopping reason" by (rule collectRange_blocked [OF col [unfolded CollectedBlocked]])
    from 2(6) [OF 2(4) this b] show ?thesis .
  next
    case (CollectedAgreed ws d)
    obtain st1' r1 where com: "commit_range sha config now (st\<lparr>rn_clock := c\<rparr>) rng ws d = (st1', r1)" by fastforce
    obtain c0 where at: "collect_attempt sha port config rng c0 = (c, Inr (ws, d))"
      using collectRange_agreed [OF col [unfolded CollectedAgreed]] by blast
    show ?thesis
    proof (cases "r1 = Inr True")
      case True
      with run CollectedAgreed com have go: "run_loop sha port config now st1' queue = (st', r)" by simp
      have "P st1' queue" by (rule 2(7) [OF 2(4) at com [unfolded True]])
      from 2(1) [OF col [symmetric] CollectedAgreed com [symmetric] True refl go this 2(5-9)] show ?thesis .
    next
      case False
      with run CollectedAgreed com have "st' = st1'" "r = (case r1 of Inl e \<Rightarrow> Inl e | Inr _ \<Rightarrow> Inr ())"
        by (auto split: sum.splits bool.splits)
      with 2(8) [OF 2(4) at com False] show ?thesis by simp
    qed
  qed
qed

text \<open>The checkpoint of the lane, and what a step does to it and to the ranges.\<close>

abbreviation checkpoint_of :: "replay_config \<Rightarrow> ledger \<Rightarrow> int option" where
  "checkpoint_of config ld \<equiv> map_option fst (readCheckpoint ld (rc_deploymentId config) (rc_chainKey config))"

lemma ingest_range_effect:
  assumes "ingestBatch sha ld (range_batch config rng w) = (ld', Inr out)"
  shows "replay_ranges ld' = replay_ranges ld"
    and "checkpoint_of config ld' = Some (case checkpoint_of config ld of
           None \<Rightarrow> toBlock rng | Some n \<Rightarrow> max n (toBlock rng))"
    and "0 \<le> toBlock rng \<and> toBlock rng < 2 ^ 63"
proof -
  have tr: "ingest_transaction sha ld (range_batch config rng w) = Inr (ld', out)"
    using assms by (simp only: ingestBatch_Inr)
  from ingest_transaction_effect(5) [OF tr] show "replay_ranges ld' = replay_ranges ld" by auto
  show "checkpoint_of config ld' = Some (case checkpoint_of config ld of
           None \<Rightarrow> toBlock rng | Some n \<Rightarrow> max n (toBlock rng))"
    unfolding readCheckpoint_def ingest_transaction_effect(4) [OF tr]
    by (auto simp: checkpoint_after_def range_batch_def split: option.splits)
  show "0 \<le> toBlock rng \<and> toBlock rng < 2 ^ 63"
    using tr by (auto simp: ingest_transaction_def range_batch_def advance_checkpoint_def column_nat_def Let_def
        split: sum.splits if_split_asm)
qed

lemma commit_effect:
  assumes "inj sha" and "lane_ranges sha config (rn_ledger st)"
    and "commit_range sha config now st rng ws d = (st', r)" and "ws \<noteq> []"
  shows "lane_ranges sha config (rn_ledger st')"
    and "done_range sha config (rn_ledger st') s \<longleftrightarrow> r = Inr True \<and> s = rng \<or> done_range sha config (rn_ledger st) s"
proof -
  let ?ing = "ingestBatch sha (rn_ledger st) (range_batch config rng (hd ws))"
  have ing: "replay_ranges ld1 = replay_ranges (rn_ledger st)" if "?ing = (ld1, res)" for ld1 res
    using that ingest_range_effect(1) ingestBatch_Inl by (cases res) fastforce+
  from commit_range_cases [OF assms(3,4)]
  have "lane_ranges sha config (rn_ledger st')
      \<and> (\<forall>s. done_range sha config (rn_ledger st') s \<longleftrightarrow> r = Inr True \<and> s = rng \<or> done_range sha config (rn_ledger st) s)"
  proof (elim disjE exE conjE, goal_cases)
    case (1 ld1 out ld2)
    have "lane_ranges sha config ld1" using same_rows(1) [OF ing [OF 1(1)]] assms(2) by simp
    note up = upsert_status [OF assms(1) this 1(2) [unfolded complete_row_def]]
    show ?case using up same_rows(2) [OF ing [OF 1(1)]] by (simp add: 1(3,4))
  next
    case (2 ld1 out e)
    with same_rows(1,2) [OF ing [OF 2(1)]] assms(2) show ?case by simp
  next
    case (3 ld1 e)
    with same_rows(1,2) [OF ing [OF 3(1)]] assms(2) show ?case by simp
  next
    case (4 ld1 e)
    with same_rows(1,2) [OF ing [OF 4(1)]] assms(2) show ?case by simp
  qed
  then show "lane_ranges sha config (rn_ledger st')"
    and "done_range sha config (rn_ledger st') s \<longleftrightarrow> r = Inr True \<and> s = rng \<or> done_range sha config (rn_ledger st) s"
    by blast+
qed

lemma blocked_effect:
  assumes "inj sha" and "lane_ranges sha config (rn_ledger st)"
    and "record_blocked sha config st rng reason g = (st', r)"
  shows "lane_ranges sha config (rn_ledger st')"
    and "s \<noteq> rng \<Longrightarrow> done_range sha config (rn_ledger st') s \<longleftrightarrow> done_range sha config (rn_ledger st) s"
    and "done_range sha config (rn_ledger st') s \<Longrightarrow> done_range sha config (rn_ledger st) s"
    and "checkpoint_of config (rn_ledger st') = checkpoint_of config (rn_ledger st)"
proof -
  obtain ld1 status where ld1: "replay_ranges ld1 = replay_ranges (rn_ledger st)"
      "replay_checkpoints ld1 = replay_checkpoints (rn_ledger st)"
    and up: "rn_ledger st' = ld1 \<or> status \<noteq> RComplete \<and> upsertRangeStatus ld1 (range_key sha config rng)
                  (range_row config rng status (Some reason) g) = Inr (rn_ledger st')"
  proof -
    note run = assms(3) [unfolded record_blocked_def Let_def]
    let ?status = "if reason = PROVIDER_DIVERGENCE then RDivergent else RBlocked"
    show thesis
    proof (cases "rn_ledger st' = rn_ledger st")
      case True
      then show thesis by (intro that [of "rn_ledger st" RBlocked]) simp_all
    next
      case False
      then obtain ld1 key inc where inc: "recordDataQualityIncident (rn_ledger st) key inc = Inr ld1"
        and up: "rn_ledger st' = ld1 \<or> upsertRangeStatus ld1 (range_key sha config rng)
                  (range_row config rng ?status (Some reason) g) = Inr (rn_ledger st')"
        using run by (auto split: sum.splits)
      with recordDataQualityIncident_frame [OF inc] show thesis
        by (intro that [of ld1 ?status]) auto
    qed
  qed
  have lane: "lane_ranges sha config ld1" using assms(2) same_rows(1) [OF ld1(1)] by simp
  note old = same_rows(2) [OF ld1(1)]
  show "lane_ranges sha config (rn_ledger st')" using up upsert_status(1) [OF assms(1) lane] lane by blast
  show "s \<noteq> rng \<Longrightarrow> done_range sha config (rn_ledger st') s \<longleftrightarrow> done_range sha config (rn_ledger st) s"
    and "done_range sha config (rn_ledger st') s \<Longrightarrow> done_range sha config (rn_ledger st) s"
    using up upsert_status(2) [OF assms(1) lane] old by (auto split: if_splits)
  show "checkpoint_of config (rn_ledger st') = checkpoint_of config (rn_ledger st)"
    using up ld1(2) upsertRangeStatus_frame by (fastforce simp: readCheckpoint_def)
qed

section \<open>Coverage behind the checkpoint is settled\<close>

lemma split_bounds:
  assumes "splitRange r = Some (left, right)"
  shows "fromBlock left = fromBlock r" and "fromBlock right = toBlock left + 1" and "toBlock right = toBlock r"
    and "well_formed left" and "well_formed right"
  using assms by (auto simp: splitRange_def spanOf_def Let_def well_formed_def split: if_splits)

lemma run_loop_low:
  assumes "inj sha" and "run_loop sha port config now st queue = (st', r)"
    and "lane_ranges sha config (rn_ledger st)" and "\<forall>rng \<in> set queue. n < fromBlock rng \<and> well_formed rng"
  shows "lane_ranges sha config (rn_ledger st')
     \<and> (\<forall>s. fromBlock s \<le> n \<longrightarrow> done_range sha config (rn_ledger st') s = done_range sha config (rn_ledger st) s)"
proof -
  let ?low = "\<lambda>x. lane_ranges sha config (rn_ledger x)
     \<and> (\<forall>s. fromBlock s \<le> n \<longrightarrow> done_range sha config (rn_ledger x) s = done_range sha config (rn_ledger st) s)"
  show ?thesis
  proof (rule run_loop_queue_rule [where P = "\<lambda>x q. ?low x \<and> (\<forall>rng \<in> set q. n < fromBlock rng \<and> well_formed rng)"
        and Q = "\<lambda>x _. ?low x", OF assms(2)])
    fix x rng queue c left right
    assume "?low x \<and> (\<forall>rng \<in> set (rng # queue). n < fromBlock rng \<and> well_formed rng)"
      and "splitRange rng = Some (left, right)"
    then show "?low (x\<lparr>rn_clock := c\<rparr>) \<and> (\<forall>rng \<in> set (left # right # queue). n < fromBlock rng \<and> well_formed rng)"
      using split_bounds [of rng left right] by (auto simp: well_formed_def)
  next
    fix x rng queue c reason g x' r
    assume low: "?low x \<and> (\<forall>rng \<in> set (rng # queue). n < fromBlock rng \<and> well_formed rng)"
      and "record_blocked sha config (x\<lparr>rn_clock := c\<rparr>) rng reason g = (x', r)"
    note eff = blocked_effect [OF assms(1) _ this(2), simplified]
    have "s \<noteq> rng" if "fromBlock s \<le> n" for s using low that by auto
    with low eff(1,2) show "?low x'" by simp
  next
    fix x rng queue c0 c ws d x'
    assume low: "?low x \<and> (\<forall>rng \<in> set (rng # queue). n < fromBlock rng \<and> well_formed rng)"
      and at: "collect_attempt sha port config rng c0 = (c, Inr (ws, d))"
      and com: "commit_range sha config now (x\<lparr>rn_clock := c\<rparr>) rng ws d = (x', Inr True)"
    have "ws \<noteq> []" using collect_attempt_agreed [OF at] by blast
    note eff = commit_effect [OF assms(1) _ com this, simplified]
    have "s \<noteq> rng" if "fromBlock s \<le> n" for s using low that by auto
    with low eff show "?low x' \<and> (\<forall>rng \<in> set queue. n < fromBlock rng \<and> well_formed rng)" by simp
  next
    fix x rng queue c0 c ws d x' r
    assume low: "?low x \<and> (\<forall>rng \<in> set (rng # queue). n < fromBlock rng \<and> well_formed rng)"
      and at: "collect_attempt sha port config rng c0 = (c, Inr (ws, d))"
      and com: "commit_range sha config now (x\<lparr>rn_clock := c\<rparr>) rng ws d = (x', r)" and "r \<noteq> Inr True"
    have "ws \<noteq> []" using collect_attempt_agreed [OF at] by blast
    note eff = commit_effect [OF assms(1) _ com this, simplified]
    from low eff \<open>r \<noteq> Inr True\<close> show "?low x'" by simp
  qed (use assms(3,4) in blast)+
qed

text \<open>The ledger a pass leaves behind.\<close>

lemma runReplay_ledger:
  obtains (unplanned) "fst (runReplay sha port config hints now ld) = ld"
  | (ran) planned st r t where
      "planRanges (replay_plan port config (checkpoint_of config ld)) = Inr planned"
      "run_loop sha port config now (start_state config ld)
         (prioritise planned (slice_to (rc_maxHintsConsidered config) hints)) = (st, r)"
      "fst (runReplay sha port config hints now ld) = (rn_ledger st)\<lparr>replay_completeness := t\<rparr>"
proof (cases "planRanges (replay_plan port config (checkpoint_of config ld))")
  case (Inl e)
  then show thesis by (intro unplanned) (simp add: runReplay_def)
next
  case (Inr planned)
  obtain st r where loop: "run_loop sha port config now (start_state config ld)
      (prioritise planned (slice_to (rc_maxHintsConsidered config) hints)) = (st, r)" by fastforce
  show thesis
  proof (cases r)
    case (Inl e)
    then have "fst (runReplay sha port config hints now ld)
        = (rn_ledger st)\<lparr>replay_completeness := replay_completeness (rn_ledger st)\<rparr>"
      by (simp add: runReplay_def Inr loop)
    then show thesis by (rule ran [OF Inr loop])
  next
    case ok: (Inr u)
    then have "fst (runReplay sha port config hints now ld)
        = fst (finish_replay port config now (checkpoint_of config ld) st)"
      by (simp add: runReplay_def Inr loop)
    then show thesis
      using finish_replay_ledger [of port config now "checkpoint_of config ld" st] ran [OF Inr loop] by auto
  qed
qed

lemma plan_after_checkpoint:
  assumes "planRanges (replay_plan port config cb) = Inr planned" and "rng \<in> set (prioritise planned hints)"
  shows "resume_from config cb \<le> fromBlock rng \<and> well_formed rng"
proof -
  have "rng \<in> set planned" using assms(2) by (simp add: prioritise_def Let_def)
  from planRanges_member [OF assms(1) this] show ?thesis by (simp add: replay_plan_def Let_def)
qed

lemma resume_after_checkpoint: "n < resume_from config (Some n)"
  by (simp add: resume_from_def)

lemma pass_low:
  assumes "inj sha" and "lane_ranges sha config ld" and "checkpoint_of config ld = Some n"
  shows "lane_ranges sha config (fst (runReplay sha port config hints now ld))"
    and "h \<le> n \<Longrightarrow> covered config (fst (runReplay sha port config hints now ld)) h = covered config ld h"
proof -
  have "lane_ranges sha config (fst (runReplay sha port config hints now ld))
      \<and> (\<forall>s. fromBlock s \<le> n \<longrightarrow>
           done_range sha config (fst (runReplay sha port config hints now ld)) s = done_range sha config ld s)"
  proof (cases rule: runReplay_ledger [of sha port config hints now ld])
    case unplanned
    with assms(2) show ?thesis by simp
  next
    case (ran planned st r t)
    have "\<forall>rng \<in> set (prioritise planned (slice_to (rc_maxHintsConsidered config) hints)).
        n < fromBlock rng \<and> well_formed rng"
      using plan_after_checkpoint [OF ran(1)] resume_after_checkpoint [of n config]
      unfolding assms(3) by fastforce
    from run_loop_low [OF assms(1) ran(2) _ this] assms(2) show ?thesis
      unfolding ran(3) by (simp add: start_state_def same_rows(1,2) [of "_\<lparr>replay_completeness := _\<rparr>" "rn_ledger st"])
  qed
  then show lane: "lane_ranges sha config (fst (runReplay sha port config hints now ld))"
    and "h \<le> n \<Longrightarrow> covered config (fst (runReplay sha port config hints now ld)) h = covered config ld h"
    unfolding covered_iff [OF assms(1,2)]
    by (simp_all add: covered_iff [OF assms(1)]) (meson order_trans)
qed

text \<open>Passes one after the other, each with the port, the hints and the time it meets.\<close>

fun replay_passes ::
  "(string \<Rightarrow> string) \<Rightarrow> replay_config \<Rightarrow> (log_source \<times> priority_hint list \<times> int) list \<Rightarrow> ledger \<Rightarrow> ledger" where
  "replay_passes sha config [] ld = ld"
| "replay_passes sha config ((port, hints, now) # passes) ld =
     replay_passes sha config passes (fst (runReplay sha port config hints now ld))"

lemma checkpoint_grows:
  assumes "checkpoint_of config ld = Some n"
  shows "\<exists>m \<ge> n. checkpoint_of config (fst (runReplay sha port config hints now ld)) = Some m"
proof -
  obtain g where "readCheckpoint ld (rc_deploymentId config) (rc_chainKey config) = Some (n, g)"
    using assms by auto
  then obtain m g' where
    "readCheckpoint (fst (runReplay sha port config hints now ld)) (rc_deploymentId config) (rc_chainKey config)
       = Some (m, g')" "n \<le> m"
    using runReplay_extends [of ld sha port config hints now] unfolding extends_def by blast
  then show ?thesis by simp
qed

lemma passes_low:
  assumes "inj sha" and "lane_ranges sha config ld" and "checkpoint_of config ld = Some n" and "h \<le> n"
  shows "covered config (replay_passes sha config passes ld) h = covered config ld h"
  using assms(2-4)
proof (induction passes arbitrary: ld n)
  case (Cons pass passes)
  obtain port hints now where pass: "pass = (port, hints, now)" by (cases pass) auto
  let ?ld' = "fst (runReplay sha port config hints now ld)"
  obtain m where m: "m \<ge> n" "checkpoint_of config ?ld' = Some m" using checkpoint_grows [OF Cons.prems(2)] by blast
  have "h \<le> m" using m(1) Cons.prems(3) by simp
  note low = pass_low [OF assms(1) Cons.prems(1,2)]
  have "covered config (replay_passes sha config passes ?ld') h = covered config ?ld' h"
    by (rule Cons.IH [OF low(1) m(2) \<open>h \<le> m\<close>])
  with low(2) [OF Cons.prems(3)] show ?case by (simp add: pass)
qed simp

text \<open>
  C20. What lies behind the checkpoint is settled. Whatever the network answers and whatever the
  hints are, no later pass changes whether a height at or below the checkpoint is covered: history
  committed there is never lost, and a hole left there is never filled, so that every later pass
  whose window holds the hole is not OK.
\<close>

theorem coverage_behind_checkpoint:
  assumes "inj sha" and "lane_ranges sha config ld" and "checkpoint_of config ld = Some n" and "h \<le> n"
  shows "(covered config (replay_passes sha config passes ld) h \<longleftrightarrow> covered config ld h)
     \<and> (case runReplay sha port config hints now (replay_passes sha config passes ld) of
          (_, Inl _) \<Rightarrow> True
        | (_, Inr report) \<Rightarrow> rp_verdict report = OK \<longrightarrow> rc_startBlock config \<le> h
            \<longrightarrow> h \<le> lp_agreedAcceptedHead port (rc_chainKey config) \<longrightarrow> covered config ld h)"
proof -
  have pass_snoc: "replay_passes sha config (passes @ [(port, hints, now)]) ld
      = fst (runReplay sha port config hints now (replay_passes sha config passes ld))"
    by (induction passes arbitrary: ld) auto
  note keep = passes_low [OF assms]
  obtain ld' r where run: "runReplay sha port config hints now (replay_passes sha config passes ld) = (ld', r)"
    by fastforce
  show ?thesis
  proof (cases r)
    case (Inr report)
    have "covered config ld' h = covered config ld h"
      using keep [of "passes @ [(port, hints, now)]"] by (simp add: pass_snoc run)
    with keep [of passes] runReplay_fail_closed(1) [OF run [unfolded Inr], of h] show ?thesis
      by (simp add: run Inr covered_def)
  qed (simp add: run keep [of passes])
qed

text \<open>
  Such a hole is reachable. On a chain of two blocks whose first block is not served, one hint at
  the second block makes the pass replay the second block first: it is committed, the checkpoint
  moves past both blocks, and the first is blocked. No later pass plans it again.
\<close>

definition example_hint :: priority_hint where
  "example_hint =
     \<lparr>ph_hintId = ''i'', ph_deploymentId = ''d'', ph_chainKey = ''c'', ph_suggestedBlockNumber = 2,
      ph_source = Webhook, ph_dedupKey = ''k'', ph_receivedAt = 0\<rparr>"

lemma example_queue:
  "prioritise [height_range 1, height_range 2] [example_hint] = [height_range 2, height_range 1]"
  by (simp add: prioritise_def hint_score_def example_hint_def less_eq_prod_def)

lemma example_blocked_first:
  assumes "inj sha"
  obtains st where
    "run_loop sha (example_port 2 1) example_config 100 (start_state example_config empty_ledger)
       [height_range 2, height_range 1] = (st, Inr ())"
    "checkpoint_of example_config (rn_ledger st) = Some 2"
    "replay_ranges (rn_ledger st) =
       [(range_key sha example_config (height_range 2),
           range_row example_config (height_range 2) RComplete None (Some ''g'')),
        (range_key sha example_config (height_range 1),
           range_row example_config (height_range 1) RBlocked (Some PRUNED_HISTORY) (Some ''g''))]"
proof -
  have keys: "range_key sha example_config (height_range 1) \<noteq> range_key sha example_config (height_range 2)"
    using range_key_inject [OF assms, of example_config "height_range 1" "height_range 2"] by auto
  have fresh: "replay_ranges empty_ledger = []" "replay_checkpoints empty_ledger = []"
    by (simp_all add: empty_ledger_def)
  note step = run_loop.simps(2) example_collected example_committed fresh start_state_def
    record_blocked_def recordDataQualityIncident_def upsertRangeStatus_def int8_def keys keys [symmetric]
    example_commit_def range_row_def example_start readCheckpoint_def
  show thesis
    apply (rule that)
      apply (simp add: step)
     apply (simp_all add: step)
    done
qed

lemma hint_leaves_hole:
  assumes "inj sha"
  defines "ld \<equiv> fst (runReplay sha (example_port 2 1) example_config [example_hint] 100 empty_ledger)"
  shows "lane_ranges sha example_config ld" and "checkpoint_of example_config ld = Some 2"
    and "\<not> covered example_config ld 1"
proof -
  obtain st where loop: "run_loop sha (example_port 2 1) example_config 100 (start_state example_config empty_ledger)
       [height_range 2, height_range 1] = (st, Inr ())"
    and cp: "checkpoint_of example_config (rn_ledger st) = Some 2"
    and rows: "replay_ranges (rn_ledger st) =
       [(range_key sha example_config (height_range 2),
           range_row example_config (height_range 2) RComplete None (Some ''g'')),
        (range_key sha example_config (height_range 1),
           range_row example_config (height_range 1) RBlocked (Some PRUNED_HISTORY) (Some ''g''))]"
    by (rule example_blocked_first [OF assms(1)])
  have plan: "planRanges (replay_plan (example_port 2 1) example_config None) = Inr [height_range 1, height_range 2]"
    unfolding replay_plan_example
    by (simp add: planRanges_def resume_from_def plan_loop.simps example_start)
  have fresh: "readCheckpoint empty_ledger d c = None" for d c
    by (simp add: empty_ledger_def readCheckpoint_def)
  have "ld = fst (finish_replay (example_port 2 1) example_config 100 None st)"
    unfolding ld_def runReplay_def Let_def fresh
    by (simp add: plan slice_to_def example_start example_queue loop)
  then obtain t where ld: "ld = (rn_ledger st)\<lparr>replay_completeness := t\<rparr>"
    using finish_replay_ledger by metis
  then show "checkpoint_of example_config ld = Some 2" using cp by (simp add: readCheckpoint_def)
  have keys: "range_key sha example_config (height_range 1) \<noteq> range_key sha example_config (height_range 2)"
    using range_key_inject [OF assms(1), of example_config "height_range 1" "height_range 2"] by auto
  show lane: "lane_ranges sha example_config ld"
    using keys range_key_inject [OF assms(1)] unfolding lane_ranges_def ld
    by (auto simp: rows in_lane_def range_row_def)
  show "\<not> covered example_config ld 1"
    unfolding covered_def covers_def readCommittedRanges_def ld
    by (simp add: rows range_row_def example_start)
qed

theorem coverage_behind_checkpoint_witness:
  "\<not> covered example_config
      (replay_passes hex_text example_config [(example_port 2 0, [], 200), (example_port 2 0, [], 300)]
         (fst (runReplay hex_text (example_port 2 1) example_config [example_hint] 100 empty_ledger))) 1"
  using hint_leaves_hole(3) [OF hex_text_inj]
  by (subst coverage_behind_checkpoint [OF hex_text_inj hint_leaves_hole(1,2) [OF hex_text_inj], THEN conjunct1])
    simp_all

section \<open>Without hints the checkpoint never runs ahead\<close>

abbreviation next_height :: "replay_config \<Rightarrow> ledger \<Rightarrow> int" where
  "next_height config ld \<equiv> resume_from config (checkpoint_of config ld)"

text \<open>
  A lane is closed when every height from the start up to the next one to replay is in a committed
  range, and no committed range reaches further.
\<close>

definition lane_closed :: "(string \<Rightarrow> string) \<Rightarrow> replay_config \<Rightarrow> ledger \<Rightarrow> bool" where
  "lane_closed sha config ld \<longleftrightarrow>
     lane_ranges sha config ld
     \<and> (\<forall>h. rc_startBlock config \<le> h \<and> h < next_height config ld \<longrightarrow>
          (\<exists>r. done_range sha config ld r \<and> fromBlock r \<le> h \<and> h \<le> toBlock r))
     \<and> (\<forall>r. done_range sha config ld r \<longrightarrow> well_formed r \<and> toBlock r < next_height config ld)"

lemma lane_closed_same:
  assumes "replay_ranges ld' = replay_ranges ld" and "checkpoint_of config ld' = checkpoint_of config ld"
  shows "lane_closed sha config ld' = lane_closed sha config ld"
  unfolding lane_closed_def assms(2) same_rows(1,2) [OF assms(1)] ..

lemma visited_head:
  assumes "well_formed rng" and "visited (rng # queue) = [a..b]"
  shows "a = fromBlock rng" and "visited queue = [toBlock rng + 1..b]"
proof -
  have le: "fromBlock rng \<le> toBlock rng" using assms(1) by (simp add: well_formed_def)
  have eq: "[fromBlock rng..toBlock rng] @ visited queue = [a..b]" using assms(2) by simp
  then have ne: "a \<le> b" using le by (cases "a \<le> b") auto
  have "hd ([fromBlock rng..toBlock rng] @ visited queue) = fromBlock rng"
    using le by (simp add: upto_rec1)
  then show a: "a = fromBlock rng" using ne by (simp add: eq upto_rec1)
  have "toBlock rng \<in> set [a..b]" unfolding eq [symmetric] using le by simp
  then have "toBlock rng \<le> b" by simp
  from upto_split2 [OF le this] have "[a..b] = [fromBlock rng..toBlock rng] @ [toBlock rng + 1..b]"
    by (simp only: a)
  with eq show "visited queue = [toBlock rng + 1..b]" by simp
qed

lemma resume_next: "rc_startBlock config \<le> to \<Longrightarrow> resume_from config (Some to) = to + 1"
  by (simp add: resume_from_def)

lemma resume_start: "rc_startBlock config \<le> resume_from config cb"
  by (simp add: resume_from_def split: option.split)

lemma resume_above: "checkpoint_of config ld = Some n \<Longrightarrow> n < next_height config ld"
  by (simp only:) (rule resume_after_checkpoint)

lemma commit_closed:
  assumes "inj sha" and "lane_closed sha config (rn_ledger st)" and "well_formed rng"
    and "fromBlock rng = next_height config (rn_ledger st)"
    and "commit_range sha config now st rng ws d = (st', Inr True)" and "ws \<noteq> []"
  shows "lane_closed sha config (rn_ledger st')" and "next_height config (rn_ledger st') = toBlock rng + 1"
proof -
  let ?ld = "rn_ledger st" and ?ld' = "rn_ledger st'"
  have le: "fromBlock rng \<le> toBlock rng" using assms(3) by (simp add: well_formed_def)
  have lane: "lane_ranges sha config ?ld" using assms(2) by (simp add: lane_closed_def)
  note eff = commit_effect [OF assms(1) lane assms(5,6)]
  obtain ld1 out where ing: "ingestBatch sha ?ld (range_batch config rng (hd ws)) = (ld1, Inr out)"
    and up: "upsertRangeStatus ld1 (range_key sha config rng) (complete_row config rng ws) = Inr ?ld'"
    using commit_range_cases [OF assms(5,6)] by auto
  have "checkpoint_of config ?ld' = checkpoint_of config ld1"
    using upsertRangeStatus_frame [OF up] by (auto simp: readCheckpoint_def)
  moreover have "checkpoint_of config ld1 = Some (toBlock rng)"
  proof (cases "checkpoint_of config ?ld")
    case (Some n)
    have "n < toBlock rng" using resume_above [OF Some] le assms(4) by simp
    then show ?thesis unfolding ingest_range_effect(2) [OF ing] Some by simp
  qed (simp only: ingest_range_effect(2) [OF ing] option.case)
  ultimately have cp: "checkpoint_of config ?ld' = Some (toBlock rng)" by (simp only:)
  have "rc_startBlock config \<le> toBlock rng"
    using resume_start [of config "checkpoint_of config ?ld"] le assms(4) by (simp only:)
  then show nxt: "next_height config ?ld' = toBlock rng + 1" unfolding cp by (rule resume_next)
  have "\<exists>r. done_range sha config ?ld' r \<and> fromBlock r \<le> h \<and> h \<le> toBlock r"
    if "rc_startBlock config \<le> h \<and> h < toBlock rng + 1" for h
  proof (cases "h < fromBlock rng")
    case True
    with that assms(2,4) show ?thesis unfolding lane_closed_def eff(2) by metis
  next
    case False
    with that show ?thesis unfolding eff(2) by (intro exI [of _ rng]) simp
  qed
  moreover have "well_formed r \<and> toBlock r < toBlock rng + 1" if "done_range sha config ?ld' r" for r
    using that le assms(2-4) unfolding eff(2) lane_closed_def by fastforce
  ultimately show "lane_closed sha config ?ld'"
    unfolding lane_closed_def nxt using eff(1) by blast
qed

lemma commit_refused_closed:
  assumes "inj sha" and "lane_closed sha config (rn_ledger st)" and "well_formed rng"
    and "0 \<le> fromBlock rng" and "commit_range sha config now st rng ws d = (st', r)" and "ws \<noteq> []"
    and "r \<noteq> Inr True"
  shows "lane_closed sha config (rn_ledger st')"
    and "next_height config (rn_ledger st') = next_height config (rn_ledger st)"
proof -
  have "\<exists>ld1 e. ingestBatch sha (rn_ledger st) (range_batch config rng (hd ws)) = (ld1, Inl e) \<and> rn_ledger st' = ld1"
    using commit_range_cases [OF assms(5,6)]
  proof (elim disjE exE conjE, goal_cases)
    case (2 ld1 out e)
    have "int8 (fromBlock rng) \<and> int8 (toBlock rng)"
      using ingest_range_effect(3) [OF 2(1)] assms(3,4) by (simp add: int8_def well_formed_def)
    with 2(2) assms(3) show ?case
      by (simp add: upsertRangeStatus_def complete_row_def range_row_def well_formed_def Let_def)
  qed (use assms(7) in auto)
  then obtain ld1 e where "ingestBatch sha (rn_ledger st) (range_batch config rng (hd ws)) = (ld1, Inl e)"
    and "rn_ledger st' = ld1" by blast
  then have rows: "replay_ranges (rn_ledger st') = replay_ranges (rn_ledger st)"
    "checkpoint_of config (rn_ledger st') = checkpoint_of config (rn_ledger st)"
    using ingestBatch_Inl by (fastforce simp: readCheckpoint_def)+
  from rows(2) show "next_height config (rn_ledger st') = next_height config (rn_ledger st)" by simp
  show "lane_closed sha config (rn_ledger st')" using assms(2) lane_closed_same [OF rows] by simp
qed

lemma blocked_closed:
  assumes "inj sha" and "lane_closed sha config (rn_ledger st)" and "well_formed rng"
    and "fromBlock rng = next_height config (rn_ledger st)"
    and "record_blocked sha config st rng reason g = (st', r)"
  shows "lane_closed sha config (rn_ledger st')"
    and "next_height config (rn_ledger st') = next_height config (rn_ledger st)"
proof -
  have lane: "lane_ranges sha config (rn_ledger st)" using assms(2) by (simp add: lane_closed_def)
  note eff = blocked_effect [OF assms(1) lane assms(5)]
  show nxt: "next_height config (rn_ledger st') = next_height config (rn_ledger st)" by (simp add: eff(4))
  have "toBlock r < fromBlock rng" if "done_range sha config (rn_ledger st) r" for r
    using that assms(2,4) by (simp add: lane_closed_def)
  then have "\<not> done_range sha config (rn_ledger st) rng" using assms(3) by (fastforce simp: well_formed_def)
  then have "done_range sha config (rn_ledger st') r = done_range sha config (rn_ledger st) r" for r
    using eff(2) [of r] eff(3) [of r] by (cases "r = rng") auto
  then show "lane_closed sha config (rn_ledger st')"
    using assms(2) eff(1) unfolding lane_closed_def nxt by simp
qed

text \<open>The walk of a pass whose queue is the plan itself.\<close>

definition on_plan :: "(string \<Rightarrow> string) \<Rightarrow> replay_config \<Rightarrow> int \<Rightarrow> run_state \<Rightarrow> block_range list \<Rightarrow> bool" where
  "on_plan sha config head st queue \<longleftrightarrow>
     lane_closed sha config (rn_ledger st) \<and> (\<forall>rng \<in> set queue. well_formed rng)
     \<and> visited queue = [next_height config (rn_ledger st)..head]"

text \<open>What a pass that stopped early has to show for it, and what one that did not has done.\<close>

definition accounted :: "int \<Rightarrow> run_state \<Rightarrow> bool" where
  "accounted now st \<longleftrightarrow>
     (\<exists>rep \<in> set (rn_reports st). rg_status rep \<noteq> RComplete)
     \<or> rn_reasons st = [] \<and> (rn_reports st \<noteq> [] \<longrightarrow> rn_lastSuccessAt st = Some now)"

lemma run_loop_closed:
  assumes "inj sha" and "0 \<le> rc_startBlock config"
    and "run_loop sha port config now st queue = (st', r)"
    and "on_plan sha config head st queue" and "accounted now st"
  shows "lane_closed sha config (rn_ledger st')"
    and "r = Inr () \<Longrightarrow> accounted now st'
           \<and> ((\<exists>rep \<in> set (rn_reports st'). rg_status rep \<noteq> RComplete)
              \<or> head < next_height config (rn_ledger st'))"
proof -
  let ?P = "\<lambda>x q. on_plan sha config head x q \<and> accounted now x"
  let ?Q = "\<lambda>x r. lane_closed sha config (rn_ledger x) \<and> (r = Inr () \<longrightarrow> accounted now x
           \<and> ((\<exists>rep \<in> set (rn_reports x). rg_status rep \<noteq> RComplete)
              \<or> head < next_height config (rn_ledger x)))"
  have "?Q st' r"
  proof (rule run_loop_queue_rule [where P = ?P and Q = ?Q, OF assms(3)])
    fix x rng queue c left right
    assume p: "?P x (rng # queue)" and s: "splitRange rng = Some (left, right)"
    have "visited (left # right # queue) = visited (rng # queue)"
      using splitRange_visited(1) [OF s] by simp
    with p split_bounds(4,5) [OF s] show "?P (x\<lparr>rn_clock := c\<rparr>) (left # right # queue)"
      by (simp add: on_plan_def accounted_def)
  next
    fix x rng queue c reason g x' r
    assume p: "?P x (rng # queue)" and b: "record_blocked sha config (x\<lparr>rn_clock := c\<rparr>) rng reason g = (x', r)"
    have wf: "well_formed rng" and at: "fromBlock rng = next_height config (rn_ledger x)"
      using p visited_head(1) [of rng queue] by (auto simp: on_plan_def)
    have "lane_closed sha config (rn_ledger x')"
      using blocked_closed(1) [OF assms(1) _ wf _ b] p at by (simp add: on_plan_def)
    moreover have "r = Inr () \<Longrightarrow> \<exists>rep \<in> set (rn_reports x'). rg_status rep \<noteq> RComplete"
      using b by (auto simp: record_blocked_def Let_def split: sum.splits)
    ultimately show "?Q x' r" by (auto simp: accounted_def)
  next
    fix x rng queue c0 c ws d x'
    assume p: "?P x (rng # queue)" and a: "collect_attempt sha port config rng c0 = (c, Inr (ws, d))"
      and com: "commit_range sha config now (x\<lparr>rn_clock := c\<rparr>) rng ws d = (x', Inr True)"
    have ws: "ws \<noteq> []" using collect_attempt_agreed [OF a] by blast
    have wf: "well_formed rng" and vis: "visited (rng # queue) = [next_height config (rn_ledger x)..head]"
      using p by (simp_all add: on_plan_def)
    note cl = commit_closed [OF assms(1) _ wf _ com ws]
    have "lane_closed sha config (rn_ledger x')" "next_height config (rn_ledger x') = toBlock rng + 1"
      using cl p visited_head(1) [OF wf vis] by (simp_all add: on_plan_def)
    with p visited_head(2) [OF wf vis] have "on_plan sha config head x' queue" by (simp add: on_plan_def)
    moreover have "accounted now x'"
      using p commit_range_cases [OF com ws] by (auto simp: accounted_def complete_report_def)
    ultimately show "?P x' queue" ..
  next
    fix x rng queue c0 c ws d x' r
    assume p: "?P x (rng # queue)" and a: "collect_attempt sha port config rng c0 = (c, Inr (ws, d))"
      and com: "commit_range sha config now (x\<lparr>rn_clock := c\<rparr>) rng ws d = (x', r)" and r: "r \<noteq> Inr True"
    have ws: "ws \<noteq> []" using collect_attempt_agreed [OF a] by blast
    have wf: "well_formed rng" and vis: "visited (rng # queue) = [next_height config (rn_ledger x)..head]"
      using p by (simp_all add: on_plan_def)
    have "0 \<le> fromBlock rng"
      using visited_head(1) [OF wf vis] resume_start [of config "checkpoint_of config (rn_ledger x)"] assms(2)
      by simp
    from commit_refused_closed(1) [OF assms(1) _ wf this com ws r] p
    have "lane_closed sha config (rn_ledger x')" by (simp add: on_plan_def)
    moreover have "(case r of Inl e \<Rightarrow> Inl e | Inr _ \<Rightarrow> Inr ()) = Inr () \<Longrightarrow>
        \<exists>rep \<in> set (rn_reports x'). rg_status rep \<noteq> RComplete"
      using commit_range_cases [OF com ws] r by (auto split: sum.splits)
    ultimately show "?Q x' (case r of Inl e \<Rightarrow> Inl e | Inr _ \<Rightarrow> Inr ())" by (auto simp: accounted_def)
  next
    fix x assume "?P x []"
    then show "?Q x (Inr ())" by (auto simp: on_plan_def)
  qed (use assms(4,5) in simp)
  then show "lane_closed sha config (rn_ledger st')"
    and "r = Inr () \<Longrightarrow> accounted now st'
           \<and> ((\<exists>rep \<in> set (rn_reports st'). rg_status rep \<noteq> RComplete)
              \<or> head < next_height config (rn_ledger st'))" by blast+
qed

lemma plan_loop_sorted: "1 \<le> width \<Longrightarrow> sorted (map fromBlock (plan_loop width head start))"
proof (induction width head start rule: plan_loop.induct)
  case (1 width head start)
  show ?case
  proof (cases "start > head")
    case False
    have "start \<le> fromBlock r" if "r \<in> set (plan_loop width head (start + width))" for r
      using plan_loop_bounds [OF 1(2) that] 1(2) by simp
    with 1 False show ?thesis
      by (subst plan_loop.simps) (simp add: Let_def)
  qed (simp add: plan_loop.simps)
qed

lemma pass_closed:
  assumes "inj sha" and "0 \<le> rc_startBlock config" and "lane_closed sha config ld"
  shows "lane_closed sha config (fst (runReplay sha port config [] now ld))"
    and "runReplay sha port config [] now ld = (ld', Inr report) \<Longrightarrow>
      \<exists>st. finish_replay port config now (checkpoint_of config ld) st = (ld', Inr report)
         \<and> lane_closed sha config (rn_ledger st) \<and> accounted now st
         \<and> ((\<exists>rep \<in> set (rn_reports st). rg_status rep \<noteq> RComplete)
            \<or> lp_agreedAcceptedHead port (rc_chainKey config) < next_height config (rn_ledger st))"
proof -
  have none: "slice_to n [] = []" for n :: int by (simp add: slice_to_def)
  have start: "on_plan sha config (lp_agreedAcceptedHead port (rc_chainKey config)) (start_state config ld) planned"
      "accounted now (start_state config ld)" "prioritise planned [] = planned"
    if plan: "planRanges (replay_plan port config (checkpoint_of config ld)) = Inr planned" for planned
  proof -
    have "sorted (map fromBlock planned)"
      using plan by (auto simp: planRanges_def intro: plan_loop_sorted split: if_splits)
    then show "prioritise planned [] = planned" by (rule prioritise_no_hints)
    show "on_plan sha config (lp_agreedAcceptedHead port (rc_chainKey config)) (start_state config ld) planned"
      using planRanges_visited [OF plan] planRanges_member [OF plan] assms(3)
      by (simp add: on_plan_def start_state_def replay_plan_def Let_def)
    show "accounted now (start_state config ld)" by (simp add: accounted_def start_state_def)
  qed
  show "lane_closed sha config (fst (runReplay sha port config [] now ld))"
  proof (cases rule: runReplay_ledger [of sha port config "[]" now ld])
    case unplanned
    with assms(3) show ?thesis by simp
  next
    case (ran planned st r t)
    have "lane_closed sha config (rn_ledger st)"
      using run_loop_closed(1) [OF assms(1,2) _ start(1,2)] ran(1,2) start(3) [OF ran(1)] by (simp add: none)
    moreover have "lane_closed sha config ((rn_ledger st)\<lparr>replay_completeness := t\<rparr>)
        = lane_closed sha config (rn_ledger st)"
      by (rule lane_closed_same) (simp_all add: readCheckpoint_def)
    ultimately show ?thesis by (simp add: ran(3))
  qed
  assume "runReplay sha port config [] now ld = (ld', Inr report)"
  then obtain planned st where plan: "planRanges (replay_plan port config (checkpoint_of config ld)) = Inr planned"
    and loop: "run_loop sha port config now (start_state config ld) planned = (st, Inr ())"
    and fin: "finish_replay port config now (checkpoint_of config ld) st = (ld', Inr report)"
    by (rule runReplay_Inr) (simp add: none start(3))
  from run_loop_closed [OF assms(1,2) loop start(1,2) [OF plan]] fin
  show "\<exists>st. finish_replay port config now (checkpoint_of config ld) st = (ld', Inr report)
         \<and> lane_closed sha config (rn_ledger st) \<and> accounted now st
         \<and> ((\<exists>rep \<in> set (rn_reports st). rg_status rep \<noteq> RComplete)
            \<or> lp_agreedAcceptedHead port (rc_chainKey config) < next_height config (rn_ledger st))" by blast
qed

text \<open>
  C14. Without hints the checkpoint never runs ahead of history: from an empty lane, or any closed
  one, however many passes run, whatever the network answers and wherever they stop, every height
  from the trustworthy start to the checkpoint lies in a committed range.
\<close>

theorem checkpoint_is_covered:
  assumes "inj sha" and "0 \<le> rc_startBlock config" and "lane_closed sha config ld"
    and "list_all (\<lambda>(port, hints, now). hints = []) passes"
  shows "case checkpoint_of config (replay_passes sha config passes ld) of
           None \<Rightarrow> True
         | Some n \<Rightarrow> list_all (covered config (replay_passes sha config passes ld)) [rc_startBlock config..n]"
proof -
  have "lane_closed sha config (replay_passes sha config passes ld)"
    using assms(3,4)
  proof (induction passes arbitrary: ld)
    case (Cons pass passes)
    obtain port now where "pass = (port, [], now)" using Cons.prems(2) by (cases pass) auto
    with Cons.IH [OF pass_closed(1) [OF assms(1,2) Cons.prems(1)]] Cons.prems(2) show ?case by simp
  qed simp
  then have closed: "lane_ranges sha config (replay_passes sha config passes ld)"
    "rc_startBlock config \<le> h \<Longrightarrow> h < next_height config (replay_passes sha config passes ld) \<Longrightarrow>
       covered config (replay_passes sha config passes ld) h" for h
    by (simp_all add: lane_closed_def covered_iff [OF assms(1)])
  show ?thesis
  proof (cases "checkpoint_of config (replay_passes sha config passes ld)")
    case (Some n)
    have "n < next_height config (replay_passes sha config passes ld)" by (rule resume_above [OF Some])
    then show ?thesis using closed(2) unfolding Some by (simp add: list_all_iff)
  qed simp
qed

text \<open>
  C15. A pass that nothing stops reaches the head. From a closed lane and without hints, when a pass
  had work and every range it took up was committed, the whole window is covered, the next height
  to replay lies beyond the agreed head, and the answer is OK.
\<close>

theorem undisturbed_pass_is_green:
  assumes "inj sha" and "0 \<le> rc_startBlock config" and "lane_closed sha config ld"
    and "runReplay sha port config [] now ld = (ld', Inr report)"
    and "rp_ranges report \<noteq> []" and "list_all (\<lambda>rep. rg_status rep = RComplete) (rp_ranges report)"
    and "0 \<le> rc_freshnessTtlMs config"
  shows "rp_verdict report = OK \<and> lp_agreedAcceptedHead port (rc_chainKey config) < next_height config ld'"
proof -
  obtain st where fin: "finish_replay port config now (checkpoint_of config ld) st = (ld', Inr report)"
    and cl: "lane_closed sha config (rn_ledger st)" and acc: "accounted now st"
    and out: "(\<exists>rep \<in> set (rn_reports st). rg_status rep \<noteq> RComplete)
            \<or> lp_agreedAcceptedHead port (rc_chainKey config) < next_height config (rn_ledger st)"
    using pass_closed(2) [OF assms(1-4)] by blast
  note f = finish_replay_Inr [OF fin]
  have ok: "\<forall>rep \<in> set (rn_reports st). rg_status rep = RComplete" and ne: "rn_reports st \<noteq> []"
    using assms(5,6) f(2) by (simp_all add: list_all_iff)
  with acc have st: "rn_reasons st = []" "rn_lastSuccessAt st = Some now" by (auto simp: accounted_def)
  have beyond: "lp_agreedAcceptedHead port (rc_chainKey config) < next_height config (rn_ledger st)" using out ok by blast
  have lane: "lane_ranges sha config (rn_ledger st)" using cl by (simp add: lane_closed_def)
  let ?committed = "readCommittedRanges (rn_ledger st) (rc_deploymentId config) (rc_chainKey config)"
  have "covers ?committed h"
    if "rc_startBlock config \<le> h" and "h \<le> lp_agreedAcceptedHead port (rc_chainKey config) \<or> (\<exists>r \<in> set ?committed. h < fromBlock r)"
    for h
  proof -
    have "fromBlock r \<le> next_height config (rn_ledger st)" if "r \<in> set ?committed" for r
      using that cl unfolding set_readCommittedRanges [OF assms(1) lane]
      by (fastforce simp: lane_closed_def well_formed_def)
    then have "h < next_height config (rn_ledger st)" using that(2) beyond by fastforce
    with cl that(1) show ?thesis
      unfolding covered_def [symmetric] covered_iff [OF assms(1) lane] by (simp add: lane_closed_def)
  qed
  then have gaps: "findRangeGaps ?committed
      \<lparr>fromBlock = rc_startBlock config, toBlock = lp_agreedAcceptedHead port (rc_chainKey config)\<rparr> = []"
    unfolding findRangeGaps_Nil by simp
  have "rp_verdict report = OK"
    unfolding f(4) using st assms(7) gaps by (simp add: assessCompleteness_def)
  moreover have "next_height config ld' = next_height config (rn_ledger st)"
    using f(1) by (auto simp: readCheckpoint_def)
  ultimately show ?thesis using beyond by simp
qed

lemma empty_lane_closed: "lane_closed sha config empty_ledger"
  by (simp add: lane_closed_def lane_ranges_def done_range_def empty_ledger_def readCheckpoint_def resume_from_def)

theorem checkpoint_is_covered_witness:
  "case checkpoint_of example_config (replay_passes hex_text example_config
        [(example_port 1 0, [], 100), (example_port 3 2, [], 200)] empty_ledger) of
     None \<Rightarrow> True
   | Some n \<Rightarrow> list_all (covered example_config (replay_passes hex_text example_config
        [(example_port 1 0, [], 100), (example_port 3 2, [], 200)] empty_ledger)) [1..n]"
proof -
  have start: "0 \<le> rc_startBlock example_config" by (simp add: example_start)
  have "list_all (\<lambda>(port :: log_source, hints :: priority_hint list, now :: int). hints = [])
      [(example_port 1 0, [], 100), (example_port 3 2, [], 200)]" by simp
  from checkpoint_is_covered [OF hex_text_inj start empty_lane_closed this]
  show ?thesis unfolding example_start .
qed

theorem undisturbed_pass_is_green_witness:
  "lp_agreedAcceptedHead (example_port 1 0) ''c''
     < next_height example_config (fst (runReplay hex_text (example_port 1 0) example_config [] 100 empty_ledger))"
proof -
  obtain ld' report where run: "runReplay hex_text (example_port 1 0) example_config [] 100 empty_ledger = (ld', Inr report)"
    and status: "map rg_status (rp_ranges report) = [RComplete]"
    using example_one_height [of hex_text] by (elim exE conjE) (rule that)
  have reports: "rp_ranges report \<noteq> []" "list_all (\<lambda>rep. rg_status rep = RComplete) (rp_ranges report)"
    using status by (auto simp: map_eq_Cons_conv)
  from undisturbed_pass_is_green [OF hex_text_inj _ empty_lane_closed run reports, THEN conjunct2]
  show ?thesis by (simp add: run example_start)
qed

end
