(* ===== verification/Pattern.thy ===== *)
theory Pattern
  imports Domain
begin

text \<open>
  The regular expressions of the sources, with the backtracking meaning JavaScript gives them: the
  ends of all matches that start at a position, in the order the engine tries them. A position is
  the character before it, if any, and the text after it. Strings are lists of 8-bit characters.
\<close>

section \<open>Patterns\<close>

datatype pattern =
  Cls "char \<Rightarrow> bool"
| Eps
| Seq pattern pattern
| Alt pattern pattern
| Star pattern
| UpTo nat pattern
| Boundary
| Before pattern
| AtStart
| AtEnd

type_synonym position = "char option \<times> string"

definition advances :: "position \<Rightarrow> position \<Rightarrow> bool" where
  "advances x y \<longleftrightarrow> length (snd y) < length (snd x)"

text \<open>Greedy repetition, at most \<open>n\<close> exactly; an iteration that consumes nothing is not tried.\<close>

primrec repeated :: "(position \<Rightarrow> position list) \<Rightarrow> nat \<Rightarrow> position \<Rightarrow> position list" where
  "repeated f 0 x = [x]"
| "repeated f (Suc n) x = concat (map (repeated f n) (filter (advances x) (f x))) @ [x]"

definition in_chars :: "char \<Rightarrow> char \<Rightarrow> char \<Rightarrow> bool" where
  "in_chars a b c \<longleftrightarrow> of_char a \<le> (of_char c :: nat) \<and> (of_char c :: nat) \<le> of_char b"

definition is_lower :: "char \<Rightarrow> bool" where "is_lower = in_chars (CHR ''a'') (CHR ''z'')"
definition is_upper :: "char \<Rightarrow> bool" where "is_upper = in_chars (CHR ''A'') (CHR ''Z'')"
definition is_alnum :: "char \<Rightarrow> bool" where "is_alnum c \<longleftrightarrow> is_lower c \<or> is_upper c \<or> is_digit c"
definition is_word :: "char \<Rightarrow> bool" where "is_word c \<longleftrightarrow> is_alnum c \<or> c = CHR ''_''"

definition is_space :: "char \<Rightarrow> bool" where
  "is_space c \<longleftrightarrow> c \<in> set [CHR 0x20, CHR 0x09, CHR 0x0A, CHR 0x0B, CHR 0x0C, CHR 0x0D, CHR 0xA0]"

definition word_before :: "position \<Rightarrow> bool" where
  "word_before x \<longleftrightarrow> (case fst x of None \<Rightarrow> False | Some c \<Rightarrow> is_word c)"

definition word_after :: "position \<Rightarrow> bool" where
  "word_after x \<longleftrightarrow> (case snd x of [] \<Rightarrow> False | c # _ \<Rightarrow> is_word c)"

primrec ends :: "pattern \<Rightarrow> position \<Rightarrow> position list" where
  "ends (Cls P) x = (case snd x of [] \<Rightarrow> [] | c # s \<Rightarrow> if P c then [(Some c, s)] else [])"
| "ends Eps x = [x]"
| "ends (Seq p q) x = concat (map (ends q) (ends p x))"
| "ends (Alt p q) x = ends p x @ ends q x"
| "ends (Star p) x = repeated (ends p) (length (snd x)) x"
| "ends (UpTo n p) x = repeated (ends p) n x"
| "ends Boundary x = (if word_before x \<noteq> word_after x then [x] else [])"
| "ends (Before p) x = (if ends p x = [] then [] else [x])"
| "ends AtStart x = (if fst x = None then [x] else [])"
| "ends AtEnd x = (if snd x = [] then [x] else [])"

section \<open>Derived forms\<close>

definition lit :: "string \<Rightarrow> pattern" where
  "lit s = foldr (\<lambda>c p. Seq (Cls (\<lambda>d. d = c)) p) s Eps"

text \<open>A literal under the flag \<open>i\<close>.\<close>

definition lit_i :: "string \<Rightarrow> pattern" where
  "lit_i s = foldr (\<lambda>c p. Seq (Cls (\<lambda>d. lower_char d = lower_char c)) p) s Eps"

definition seq :: "pattern list \<Rightarrow> pattern" where
  "seq ps = foldr Seq ps Eps"

definition alt :: "pattern list \<Rightarrow> pattern" where
  "alt ps = (case ps of [] \<Rightarrow> Cls (\<lambda>_. False) | p # qs \<Rightarrow> foldl Alt p qs)"

definition some :: "pattern \<Rightarrow> pattern" where
  "some p = Seq p (Star p)"

definition opt :: "pattern \<Rightarrow> pattern" where
  "opt p = UpTo 1 p"

definition exactly :: "nat \<Rightarrow> pattern \<Rightarrow> pattern" where
  "exactly n p = seq (replicate n p)"

definition at_least :: "nat \<Rightarrow> pattern \<Rightarrow> pattern" where
  "at_least n p = Seq (exactly n p) (Star p)"

definition between :: "nat \<Rightarrow> nat \<Rightarrow> pattern \<Rightarrow> pattern" where
  "between m n p = Seq (exactly m p) (UpTo (n - m) p)"

definition whole :: "pattern \<Rightarrow> pattern" where
  "whole p = seq [AtStart, p, AtEnd]"

section \<open>Searching and replacing\<close>

text \<open>The leftmost match: where it starts and where it ends.\<close>

fun search :: "pattern \<Rightarrow> char option \<Rightarrow> string \<Rightarrow> (position \<times> position) option" where
  "search p c s =
     (case ends p (c, s) of
        y # _ \<Rightarrow> Some ((c, s), y)
      | [] \<Rightarrow> (case s of [] \<Rightarrow> None | d # t \<Rightarrow> search p (Some d) t))"

declare search.simps [simp del]

definition rx_test :: "pattern \<Rightarrow> string \<Rightarrow> bool" where
  "rx_test p s \<longleftrightarrow> search p None s \<noteq> None"

text \<open>\<open>text.replace(rx, by)\<close> with the flag \<open>g\<close>, for patterns that never match the empty text.\<close>

fun replace_from :: "pattern \<Rightarrow> string \<Rightarrow> nat \<Rightarrow> char option \<Rightarrow> string \<Rightarrow> string" where
  "replace_from p by 0 c s = s"
| "replace_from p by (Suc n) c s =
     (case ends p (c, s) of
        y # _ \<Rightarrow> by @ replace_from p by n (fst y) (snd y)
      | [] \<Rightarrow> (case s of [] \<Rightarrow> [] | d # t \<Rightarrow> d # replace_from p by n (Some d) t))"

definition replace_all :: "pattern \<Rightarrow> string \<Rightarrow> string \<Rightarrow> string" where
  "replace_all p by s = replace_from p by (Suc (length s)) None s"

section \<open>What a match says about the text\<close>

definition shift :: "position \<Rightarrow> string \<Rightarrow> position \<Rightarrow> bool" where
  "shift x u y \<longleftrightarrow> snd x = u @ snd y \<and> fst y = (if u = [] then fst x else Some (last u))"

lemma shift_refl [simp]: "shift x [] x" by (simp add: shift_def)

lemma shift_same: "y = x \<Longrightarrow> \<exists>u. shift x u y" using shift_refl by blast

lemma shift_trans: "shift x u y \<Longrightarrow> shift y v z \<Longrightarrow> shift x (u @ v) z"
  by (auto simp: shift_def)

lemma repeated_shift:
  assumes "\<And>x y. y \<in> set (f x) \<Longrightarrow> \<exists>u. shift x u y" and "y \<in> set (repeated f n x)"
  shows "\<exists>u. shift x u y"
  using assms(2)
proof (induction n arbitrary: x)
  case 0
  then show ?case using shift_refl by (intro exI [of _ "[]"]) simp
next
  case (Suc n)
  show ?case
  proof (cases "y = x")
    case True
    then show ?thesis using shift_refl by (intro exI [of _ "[]"]) simp
  next
    case False
    with Suc.prems obtain z where z: "z \<in> set (f x)" "y \<in> set (repeated f n z)" by auto
    obtain u where "shift x u z" using assms(1) [OF z(1)] by blast
    moreover obtain v where "shift z v y" using Suc.IH [OF z(2)] by blast
    ultimately have "shift x (u @ v) y" by (rule shift_trans)
    then show ?thesis ..
  qed
qed

lemma ends_shift: "y \<in> set (ends p x) \<Longrightarrow> \<exists>u. shift x u y"
proof (induction p arbitrary: x y)
  case (Cls P)
  show ?case
  proof (cases "snd x")
    case Nil
    with Cls show ?thesis by simp
  next
    case (Cons c s)
    with Cls have "y = (Some c, s)" by (simp split: if_splits)
    with Cons have "shift x [c] y" by (simp add: shift_def)
    then show ?thesis ..
  qed
next
  case (Seq p q)
  then obtain z where z: "z \<in> set (ends p x)" "y \<in> set (ends q z)" by auto
  obtain u where "shift x u z" using Seq.IH(1) [OF z(1)] by blast
  moreover obtain v where "shift z v y" using Seq.IH(2) [OF z(2)] by blast
  ultimately have "shift x (u @ v) y" by (rule shift_trans)
  then show ?case ..
next
  case (Star p)
  have "y \<in> set (repeated (ends p) (length (snd x)) x)" using Star.prems by simp
  with Star.IH show ?case by (rule repeated_shift)
next
  case (UpTo n p)
  have "y \<in> set (repeated (ends p) n x)" using UpTo.prems by simp
  with UpTo.IH show ?case by (rule repeated_shift)
next
  case (Alt p q)
  from Alt.prems have "y \<in> set (ends p x) \<or> y \<in> set (ends q x)" by simp
  then show ?case using Alt.IH by blast
qed (rule shift_same, simp split: if_splits)+

text \<open>The search misses nothing.\<close>

lemma search_None:
  "search p c s = None \<longleftrightarrow> (\<forall>u v. s = u @ v \<longrightarrow> ends p (if u = [] then c else Some (last u), v) = [])"
proof (induction s arbitrary: c)
  case Nil
  show ?case by (subst search.simps) (auto split: list.splits)
next
  case (Cons d t)
  have "search p c (d # t) = None \<longleftrightarrow> ends p (c, d # t) = [] \<and> search p (Some d) t = None"
    by (subst search.simps) (auto split: list.splits)
  also have "\<dots> \<longleftrightarrow> (\<forall>u v. d # t = u @ v \<longrightarrow> ends p (if u = [] then c else Some (last u), v) = [])"
  proof
    assume a: "ends p (c, d # t) = [] \<and> search p (Some d) t = None"
    show "\<forall>u v. d # t = u @ v \<longrightarrow> ends p (if u = [] then c else Some (last u), v) = []"
    proof (intro allI impI)
      fix u v assume uv: "d # t = u @ v"
      show "ends p (if u = [] then c else Some (last u), v) = []"
      proof (cases u)
        case (Cons e w)
        with uv have "e = d" "t = w @ v" by simp_all
        with a Cons.IH [of "Some d"] have "ends p (if w = [] then Some d else Some (last w), v) = []" by blast
        with Cons \<open>e = d\<close> show ?thesis by (cases "w = []") simp_all
      qed (use a uv in simp)
    qed
  next
    assume a: "\<forall>u v. d # t = u @ v \<longrightarrow> ends p (if u = [] then c else Some (last u), v) = []"
    have "ends p (if u = [] then Some d else Some (last u), v) = []" if "t = u @ v" for u v
      using a [rule_format, of "d # u" v] that by (cases "u = []") simp_all
    then have "search p (Some d) t = None" using Cons.IH [of "Some d"] by blast
    with a [rule_format, of "[]" "d # t"] show "ends p (c, d # t) = [] \<and> search p (Some d) t = None" by simp
  qed
  finally show ?case .
qed

lemma rx_test_at: "ends p (if u = [] then None else Some (last u), v) \<noteq> [] \<Longrightarrow> rx_test p (u @ v)"
  unfolding rx_test_def search_None by blast

text \<open>Words one of which every match of a pattern contains, up to the case of letters.\<close>

definition found_in :: "string list \<Rightarrow> string \<Rightarrow> string \<Rightarrow> bool" where
  "found_in ws s r \<longleftrightarrow> (\<exists>w\<in>set ws. \<exists>a b. map lower_char s = a @ w @ b @ map lower_char r)"

definition mandatory :: "string list \<Rightarrow> pattern \<Rightarrow> bool" where
  "mandatory ws p \<longleftrightarrow> (\<forall>x y. y \<in> set (ends p x) \<longrightarrow> found_in ws (snd x) (snd y))"

lemma found_in_extend1: "found_in ws s r \<Longrightarrow> found_in ws (u @ s) r"
  unfolding found_in_def by (metis append.assoc map_append)

lemma found_in_extend2: "found_in ws s (u @ r) \<Longrightarrow> found_in ws s r"
  unfolding found_in_def by (metis append.assoc map_append)

lemma found_in_mono: "found_in ws s r \<Longrightarrow> set ws \<subseteq> set vs \<Longrightarrow> found_in vs s r"
  unfolding found_in_def by blast

lemma mandatoryI: "(\<And>x y. y \<in> set (ends p x) \<Longrightarrow> found_in ws (snd x) (snd y)) \<Longrightarrow> mandatory ws p"
  unfolding mandatory_def by blast

lemma mandatoryD: "mandatory ws p \<Longrightarrow> y \<in> set (ends p x) \<Longrightarrow> found_in ws (snd x) (snd y)"
  unfolding mandatory_def by blast

lemma mandatory_Seq1: "mandatory ws p \<Longrightarrow> mandatory ws (Seq p q)"
proof (rule mandatoryI)
  fix x y
  assume p: "mandatory ws p" and "y \<in> set (ends (Seq p q) x)"
  then obtain z where z: "z \<in> set (ends p x)" "y \<in> set (ends q z)" by auto
  obtain u where "shift z u y" using ends_shift [OF z(2)] by blast
  then have "snd z = u @ snd y" by (simp add: shift_def)
  with mandatoryD [OF p z(1)] have "found_in ws (snd x) (u @ snd y)" by simp
  then show "found_in ws (snd x) (snd y)" by (rule found_in_extend2)
qed

lemma mandatory_Seq2: "mandatory ws q \<Longrightarrow> mandatory ws (Seq p q)"
proof (rule mandatoryI)
  fix x y
  assume q: "mandatory ws q" and "y \<in> set (ends (Seq p q) x)"
  then obtain z where z: "z \<in> set (ends p x)" "y \<in> set (ends q z)" by auto
  obtain u where "shift x u z" using ends_shift [OF z(1)] by blast
  then have "snd x = u @ snd z" by (simp add: shift_def)
  with mandatoryD [OF q z(2)] show "found_in ws (snd x) (snd y)" by (simp add: found_in_extend1)
qed

lemma mandatory_Alt: "mandatory ws p \<Longrightarrow> mandatory ws q \<Longrightarrow> mandatory ws (Alt p q)"
proof (rule mandatoryI)
  fix x y
  assume p: "mandatory ws p" and q: "mandatory ws q" and "y \<in> set (ends (Alt p q) x)"
  then have "y \<in> set (ends p x) \<or> y \<in> set (ends q x)" by simp
  then show "found_in ws (snd x) (snd y)" using mandatoryD [OF p] mandatoryD [OF q] by blast
qed

lemma ends_lit: "y \<in> set (ends (lit s) x) \<Longrightarrow> map lower_char (snd x) = map lower_char s @ map lower_char (snd y)"
  by (induction s arbitrary: x) (auto simp: lit_def split: list.splits if_splits)

lemma ends_lit_i: "y \<in> set (ends (lit_i s) x) \<Longrightarrow> map lower_char (snd x) = map lower_char s @ map lower_char (snd y)"
  by (induction s arbitrary: x) (auto simp: lit_i_def split: list.splits if_splits)

lemma mandatory_lit: "map lower_char s \<in> set ws \<Longrightarrow> mandatory ws (lit s)"
  unfolding mandatory_def found_in_def
  by (intro allI impI bexI [of _ "map lower_char s"] exI [of _ "[]"]) (simp_all add: ends_lit)

lemma mandatory_lit_i: "map lower_char s \<in> set ws \<Longrightarrow> mandatory ws (lit_i s)"
  unfolding mandatory_def found_in_def
  by (intro allI impI bexI [of _ "map lower_char s"] exI [of _ "[]"]) (simp_all add: ends_lit_i)

text \<open>The word of the \<open>n\<close>th part of a sequence.\<close>

lemma mandatory_seq: "i < length ps \<Longrightarrow> mandatory ws (ps ! i) \<Longrightarrow> mandatory ws (seq ps)"
proof (induction ps arbitrary: i)
  case (Cons p ps)
  then show ?case by (cases i) (auto simp: seq_def intro: mandatory_Seq1 mandatory_Seq2)
qed simp

fun starts :: "string \<Rightarrow> string \<Rightarrow> bool" where
  "starts [] s = True"
| "starts (d # w) (c # s) = (c = d \<and> starts w s)"
| "starts (d # w) [] = False"

fun contains :: "string \<Rightarrow> string \<Rightarrow> bool" where
  "contains w [] = (w = [])"
| "contains w (c # s) = (starts w (c # s) \<or> contains w s)"

lemma starts_append: "starts w (w @ b)"
  by (induction w) simp_all

lemma contains_append: "contains w (a @ w @ b)"
proof (induction a)
  case Nil
  show ?case
  proof (cases "w @ b")
    case (Cons c t)
    with starts_append [of w b] show ?thesis by simp
  qed simp
qed simp

text \<open>A word without the separator lies in one piece of the text between separators.\<close>

fun pieces :: "char \<Rightarrow> string \<Rightarrow> string list" where
  "pieces d [] = [[]]"
| "pieces d (c # s) =
     (if c = d then [] # pieces d s
      else (case pieces d s of p # ps \<Rightarrow> (c # p) # ps | [] \<Rightarrow> [[c]]))"

lemma pieces_ne [simp]: "pieces d s \<noteq> []"
  by (cases s) (auto split: list.splits)

lemma starts_pieces: "d \<notin> set w \<Longrightarrow> starts w s \<longleftrightarrow> starts w (hd (pieces d s))"
proof (induction w s rule: starts.induct)
  case (2 e w c s)
  then show ?case by (cases "pieces d s") auto
qed simp_all

lemma contains_pieces:
  assumes "d \<notin> set w" and "w \<noteq> []"
  shows "contains w s \<longleftrightarrow> list_ex (contains w) (pieces d s)"
proof (induction s)
  case Nil
  show ?case using assms(2) by simp
next
  case (Cons c s)
  obtain e v where w: "w = e # v" using assms(2) by (cases w) auto
  obtain p ps where ps: "pieces d s = p # ps" by (cases "pieces d s") auto
  have "starts w (c # s) \<longleftrightarrow> starts w (hd (pieces d (c # s)))" by (rule starts_pieces [OF assms(1)])
  with Cons ps w show ?case by auto
qed

definition clean_of :: "string list \<Rightarrow> string list \<Rightarrow> bool" where
  "clean_of ws ps \<longleftrightarrow> list_all (\<lambda>w. list_all (\<lambda>p. \<not> contains w p) ps) ws"

lemma clean_pieces:
  assumes "list_all (\<lambda>w. d \<notin> set w \<and> w \<noteq> []) ws" and "clean_of ws (pieces d s)"
  shows "list_all (\<lambda>w. \<not> contains w s) ws"
  using assms contains_pieces [of d _ s] by (auto simp: list_all_iff list_ex_iff clean_of_def)

lemma rx_test_mandatory:
  assumes "mandatory ws p" and "list_all (\<lambda>w. \<not> contains w (map lower_char s)) ws"
  shows "\<not> rx_test p s"
proof
  assume "rx_test p s"
  then obtain u v where s: "s = u @ v" and ne: "ends p (if u = [] then None else Some (last u), v) \<noteq> []"
    unfolding rx_test_def search_None by blast
  then obtain y where "y \<in> set (ends p (if u = [] then None else Some (last u), v))" by (metis list.set_intros(1) neq_Nil_conv)
  with assms(1) have "found_in ws v (snd y)" unfolding mandatory_def by (metis snd_conv)
  then have "found_in ws s (snd y)" unfolding s by (rule found_in_extend1)
  then obtain w a b where w: "w \<in> set ws" "map lower_char s = a @ w @ (b @ map lower_char (snd y))"
    unfolding found_in_def by auto
  have "contains w (map lower_char s)" unfolding w(2) by (rule contains_append)
  with assms(2) w(1) show False by (simp add: list_all_iff)
qed

end
