(* ===== verification/Alerts.thy ===== *)
theory Alerts
  imports Lattice
begin

text \<open>
  packages/alerts/src: the identity of an alert (dedup.ts) and its lifecycle (lifecycle.ts). The
  verdict \<open>'NONE'\<close> before the first observation is \<open>None\<close>; SHA-256 in hexadecimal is \<open>sha\<close>.
\<close>

section \<open>Identity (dedup.ts)\<close>

primrec verdict_text :: "verdict \<Rightarrow> string" where
  "verdict_text OK = ''OK''"
| "verdict_text WARN = ''WARN''"
| "verdict_text UNKNOWN = ''UNKNOWN''"
| "verdict_text CRITICAL = ''CRITICAL''"

definition from_text :: "verdict option \<Rightarrow> string" where
  "from_text v = (case v of None \<Rightarrow> ''NONE'' | Some w \<Rightarrow> verdict_text w)"

record alert_identity =
  ai_deploymentId :: string
  ai_ruleId :: string
  ai_reasonCode :: string
  ai_from :: "verdict option"
  ai_to :: verdict
  ai_evidenceDigest :: string

definition ALERT_DOMAIN :: string where
  "ALERT_DOMAIN = ''ictt-sentinel/alert/v1''"

definition dedupKey :: "(string \<Rightarrow> string) \<Rightarrow> alert_identity \<Rightarrow> string" where
  "dedupKey sha i =
     sha (ALERT_DOMAIN @ [CHR 0x0A] @ join ''|''
       [ai_deploymentId i, ai_ruleId i, ai_reasonCode i,
        from_text (ai_from i) @ ''->'' @ verdict_text (ai_to i), ai_evidenceDigest i])"

definition incidentKey :: "(string \<Rightarrow> string) \<Rightarrow> string \<Rightarrow> string \<Rightarrow> string \<Rightarrow> string" where
  "incidentKey sha deploymentId ruleId reasonCode =
     sha (ALERT_DOMAIN @ ''/incident'' @ [CHR 0x0A] @ join ''|'' [deploymentId, ruleId, reasonCode])"

definition SEVERITY :: "verdict option \<Rightarrow> int" where
  "SEVERITY v = (case v of None \<Rightarrow> -1 | Some OK \<Rightarrow> 0 | Some WARN \<Rightarrow> 1 | Some UNKNOWN \<Rightarrow> 2 | Some CRITICAL \<Rightarrow> 3)"

definition isEscalation :: "verdict option \<Rightarrow> verdict \<Rightarrow> bool" where
  "isEscalation from to \<longleftrightarrow> SEVERITY (Some to) > SEVERITY from"

definition isRecovery :: "verdict option \<Rightarrow> verdict \<Rightarrow> bool" where
  "isRecovery from to \<longleftrightarrow> from \<noteq> None \<and> SEVERITY (Some to) < SEVERITY from \<and> to = OK"

section \<open>Lifecycle (lifecycle.ts)\<close>

datatype alert_state = FirstSeen | Repeated | Escalated | Acknowledged | Recovered

record alert_record =
  ar_dedupKey :: string
  ar_identity :: alert_identity
  ar_state :: alert_state
  ar_firstSeenAt :: int
  ar_lastSeenAt :: int
  ar_occurrences :: int
  ar_currentVerdict :: verdict
  ar_acknowledgedBy :: "string option"
  ar_acknowledgedAt :: "int option"
  ar_recoveredAt :: "int option"

definition open_alert :: "(string \<Rightarrow> string) \<Rightarrow> alert_identity \<Rightarrow> int \<Rightarrow> alert_record" where
  "open_alert sha i observedAt =
     \<lparr>ar_dedupKey = dedupKey sha i, ar_identity = i, ar_state = FirstSeen, ar_firstSeenAt = observedAt,
      ar_lastSeenAt = observedAt, ar_occurrences = 1, ar_currentVerdict = ai_to i,
      ar_acknowledgedBy = None, ar_acknowledgedAt = None, ar_recoveredAt = None\<rparr>"

definition observe :: "alert_record \<Rightarrow> alert_identity \<Rightarrow> int \<Rightarrow> alert_record" where
  "observe existing i observedAt =
     (let worse = isEscalation (Some (ar_currentVerdict existing)) (ai_to i)
      in existing\<lparr>ar_state := (if worse then Escalated
                              else if ar_state existing = FirstSeen then Repeated else ar_state existing),
                  ar_lastSeenAt := observedAt, ar_occurrences := ar_occurrences existing + 1,
                  ar_currentVerdict := (if worse then ai_to i else ar_currentVerdict existing)\<rparr>)"

definition acknowledge :: "alert_record \<Rightarrow> string \<Rightarrow> int \<Rightarrow> alert_record" where
  "acknowledge existing by at =
     existing\<lparr>ar_state := (if ar_state existing = Recovered then Recovered else Acknowledged),
              ar_acknowledgedBy := Some by, ar_acknowledgedAt := Some at\<rparr>"

definition recover :: "alert_record \<Rightarrow> verdict \<Rightarrow> int \<Rightarrow> alert_record option" where
  "recover existing to at =
     (if \<not> isRecovery (Some (ar_currentVerdict existing)) to then None
      else Some (existing\<lparr>ar_state := Recovered, ar_currentVerdict := to, ar_lastSeenAt := at,
                          ar_recoveredAt := Some at\<rparr>))"

definition shouldNotify :: "alert_record option \<Rightarrow> alert_record \<Rightarrow> bool" where
  "shouldNotify before after =
     (if ar_state after = Acknowledged then False
      else case before of None \<Rightarrow> ar_state after = FirstSeen
      | Some b \<Rightarrow>
          if ar_state after = Recovered \<and> ar_state b \<noteq> Recovered then True
          else ar_state after = Escalated \<and> ar_state b \<noteq> Escalated)"

section \<open>What the lifecycle keeps\<close>

lemma isEscalation_RANK: "isEscalation (Some v) w \<longleftrightarrow> RANK v < RANK w"
  by (cases v; cases w) (simp_all add: isEscalation_def SEVERITY_def)

lemma isEscalation_None [simp]: "isEscalation None w"
  by (cases w) (simp_all add: isEscalation_def SEVERITY_def)

lemma isRecovery_iff: "isRecovery (Some v) w \<longleftrightarrow> v \<noteq> OK \<and> w = OK"
  by (cases v; cases w) (simp_all add: isRecovery_def SEVERITY_def)

lemma observe_simps [simp]:
  "ar_dedupKey (observe r i at) = ar_dedupKey r" "ar_lastSeenAt (observe r i at) = at"
  "ar_occurrences (observe r i at) = ar_occurrences r + 1" "ar_firstSeenAt (observe r i at) = ar_firstSeenAt r"
  "ar_acknowledgedBy (observe r i at) = ar_acknowledgedBy r"
  "ar_acknowledgedAt (observe r i at) = ar_acknowledgedAt r"
  "ar_recoveredAt (observe r i at) = ar_recoveredAt r"
  by (simp_all add: observe_def Let_def)

lemma observe_verdict: "RANK (ar_currentVerdict (observe r i at)) = max (RANK (ar_currentVerdict r)) (RANK (ai_to i))"
  by (simp add: observe_def Let_def isEscalation_RANK max_def)

lemma observe_state:
  "ar_state (observe r i at) =
     (if RANK (ar_currentVerdict r) < RANK (ai_to i) then Escalated
      else if ar_state r = FirstSeen then Repeated else ar_state r)"
  by (simp add: observe_def Let_def isEscalation_RANK)

text \<open>
  A worsening pages once per incident: when the alert has escalated before, a further worsening,
  also one to CRITICAL, changes the verdict and pages nobody.
\<close>

lemma second_escalation_is_silent:
  assumes "ar_state r = Escalated"
  shows "\<not> shouldNotify (Some r) (observe r i at)"
  using assms by (simp add: shouldNotify_def observe_state)

end
