(* ===== verification/Notify.thy ===== *)
theory Notify
  imports Alerts Pattern Json
begin

text \<open>
  What leaves the process: the secret scan of packages/evidence/src/redact.ts, and of
  packages/alerts/src the targets (target.ts), the notification payload (sanitize.ts) and one
  delivery round (notify.ts). The URL parser of the platform is the parameter \<open>parse_url\<close>, the
  environment \<open>resolve\<close>, and the HTTP transport \<open>post\<close>, which is told how many posts were made before.
\<close>

section \<open>The secret scan (redact.ts)\<close>

definition REDACTED :: string where "REDACTED = ''[redacted]''"

definition not_in :: "string \<Rightarrow> char \<Rightarrow> bool" where
  "not_in s c \<longleftrightarrow> c \<notin> set s"

text \<open>\<open>[^\s"']\<close>\<close>

definition url_char :: "char \<Rightarrow> bool" where
  "url_char c \<longleftrightarrow> \<not> is_space c \<and> c \<notin> {CHR 0x22, CHR 0x27}"

definition scheme_url :: "pattern \<Rightarrow> pattern" where
  "scheme_url scheme = seq [Boundary, scheme, lit ''://'', some (Cls url_char)]"

definition spaces :: pattern where "spaces = Star (Cls is_space)"

definition token_char :: "char \<Rightarrow> bool" where
  "token_char c \<longleftrightarrow> is_alnum c \<or> c \<in> set ''._~+/-''"

definition key_name :: pattern where
  "key_name = alt [seq [lit_i ''api'', opt (Cls (\<lambda>c. c \<in> set ''_-'')), lit_i ''key''],
                   lit_i ''apikey'', lit_i ''token'', lit_i ''secret'', lit_i ''password'']"

definition is_hex_i :: "char \<Rightarrow> bool" where
  "is_hex_i c \<longleftrightarrow> is_lower_hex (lower_char c)"

definition SECRET_PATTERNS :: "(string \<times> pattern) list" where
  "SECRET_PATTERNS =
     [(''postgres-dsn'', scheme_url (Seq (lit_i ''postgres'') (opt (lit_i ''ql'')))),
      (''http-url'', scheme_url (Seq (lit_i ''http'') (opt (lit_i ''s'')))),
      (''ws-url'', scheme_url (Seq (lit_i ''ws'') (opt (lit_i ''s'')))),
      (''bearer-token'', seq [Boundary, lit_i ''Bearer'', some (Cls is_space), some (Cls token_char),
                            Star (Cls (\<lambda>c. c = CHR ''=''))]),
      (''basic-header'', seq [Boundary, lit_i ''Basic'', some (Cls is_space),
                            some (Cls (\<lambda>c. is_alnum c \<or> c \<in> set ''+/'')), Star (Cls (\<lambda>c. c = CHR ''=''))]),
      (''basic-auth'', seq [Boundary, some (Cls (\<lambda>c. is_alnum c \<or> c \<in> set ''._%-'')), lit '':'',
                          some (Cls (\<lambda>c. \<not> is_space c \<and> c \<notin> {CHR ''@'', CHR ''/'', CHR 0x22, CHR 0x27, CHR 0x5C})),
                          lit ''@'', some (Cls (\<lambda>c. is_alnum c \<or> c \<in> set ''.-''))]),
      (''private-key-hex'', seq [Boundary, lit_i ''0x'', exactly 64 (Cls is_hex_i), Boundary,
                               Before (Seq spaces (alt [lit_i ''key'', lit_i ''secret'', lit_i ''mnemonic'']))]),
      (''api-key-assignment'', seq [Boundary, key_name, spaces, Cls (\<lambda>c. c \<in> set '':=''), spaces,
                                  opt (Cls (\<lambda>c. c \<in> {CHR 0x22, CHR 0x27})), at_least 12 (Cls token_char)])]"

text \<open>The offsets of the matches of one pattern, left to right and not overlapping.\<close>

fun match_offsets :: "pattern \<Rightarrow> nat \<Rightarrow> nat \<Rightarrow> char option \<Rightarrow> string \<Rightarrow> nat list" where
  "match_offsets p 0 i c s = []"
| "match_offsets p (Suc n) i c s =
     (case search p c s of
        None \<Rightarrow> []
      | Some (x, y) \<Rightarrow>
          let at = i + (length s - length (snd x)); past = i + (length s - length (snd y))
          in at # match_offsets p n past (fst y) (snd y))"

record secret_finding =
  sf_pattern :: string
  sf_at :: string

definition findSecrets :: "string \<Rightarrow> secret_finding list" where
  "findSecrets text =
     concat (map (\<lambda>(name, rx). map (\<lambda>i. \<lparr>sf_pattern = name, sf_at = ''offset '' @ show_nat i\<rparr>)
       (match_offsets rx (Suc (length text)) 0 None text)) SECRET_PATTERNS)"

definition redact :: "string \<Rightarrow> string" where
  "redact text = foldl (\<lambda>out (name, rx). replace_all rx REDACTED out) text SECRET_PATTERNS"

definition endpointPseudonym :: "(string \<Rightarrow> string) \<Rightarrow> string \<Rightarrow> string \<Rightarrow> string" where
  "endpointPseudonym sha deploymentId endpointId =
     ''ep-'' @ take 16 (sha (deploymentId @ ''|'' @ endpointId))"

lemma match_offsets_Nil: "match_offsets p (Suc n) i c s = [] \<longleftrightarrow> search p c s = None"
  by (auto simp: Let_def split: option.splits)

lemma findSecrets_Nil: "findSecrets text = [] \<longleftrightarrow> list_all (\<lambda>(name, rx). \<not> rx_test rx text) SECRET_PATTERNS"
proof -
  have "findSecrets text = [] \<longleftrightarrow>
      list_all (\<lambda>(name, rx). match_offsets rx (Suc (length text)) 0 None text = []) SECRET_PATTERNS"
    by (auto simp: findSecrets_def list_all_iff simp del: match_offsets.simps)
  then show ?thesis unfolding match_offsets_Nil rx_test_def by (simp only: not_not)
qed

section \<open>Targets (target.ts)\<close>

datatype target_kind = Slack | Pagerduty | GenericWebhook

record alert_target =
  at_targetId :: string
  at_kind :: target_kind
  at_secretRef :: string
  at_minSeverity :: verdict

text \<open>What the platform's \<open>URL\<close> gives back; \<open>None\<close> is the exception.\<close>

record url_parts =
  ur_protocol :: string
  ur_username :: string
  ur_password :: string
  ur_hostname :: string
  ur_port :: string

definition digits_in :: "char \<Rightarrow> char \<Rightarrow> pattern" where
  "digits_in a b = Cls (in_chars a b)"

definition PRIVATE_PATTERNS :: "pattern list" where
  "PRIVATE_PATTERNS =
     [whole (lit_i ''localhost''),
      Seq AtStart (lit ''127.''), Seq AtStart (lit ''0.''), Seq AtStart (lit ''10.''),
      Seq AtStart (lit ''192.168.''),
      seq [AtStart, lit ''172.'', alt [Seq (lit ''1'') (digits_in (CHR ''6'') (CHR ''9'')),
                                     Seq (lit ''2'') (Cls is_digit),
                                     Seq (lit ''3'') (digits_in (CHR ''0'') (CHR ''1''))], lit ''.''],
      Seq AtStart (lit ''169.254.''),
      seq [AtStart, opt (lit ''[''), lit ''::1'', opt (lit '']''), AtEnd],
      seq [AtStart, opt (lit ''[''), lit_i ''f'', Cls (\<lambda>c. lower_char c \<in> set ''cd''),
           exactly 2 (Cls is_hex_i), lit '':''],
      seq [AtStart, opt (lit ''[''), lit_i ''fe80:''],
      Seq (lit_i ''.local'') AtEnd,
      Seq AtStart (lit_i ''metadata.'')]"

definition checkTargetUrl :: "(string \<Rightarrow> url_parts option) \<Rightarrow> string \<Rightarrow> string option" where
  "checkTargetUrl parse_url raw =
     (case parse_url raw of
        None \<Rightarrow> Some ''target is not a valid URL''
      | Some url \<Rightarrow>
          if ur_protocol url \<noteq> ''https:'' then Some ''target must use https''
          else if ur_username url \<noteq> [] \<or> ur_password url \<noteq> []
          then Some ''credentials must not be embedded in the target URL''
          else if list_ex (\<lambda>rx. rx_test rx (ur_hostname url)) PRIVATE_PATTERNS
          then Some ''target resolves to a private, link-local or metadata host''
          else if ur_port url \<noteq> [] \<and> ur_port url \<noteq> ''443''
          then Some ''target must use the default https port''
          else None)"

definition meetsThreshold :: "alert_target \<Rightarrow> verdict \<Rightarrow> bool" where
  "meetsThreshold target v \<longleftrightarrow> RANK v \<ge> RANK (at_minSeverity target)"

section \<open>The notification payload (sanitize.ts)\<close>

primrec state_text :: "alert_state \<Rightarrow> string" where
  "state_text FirstSeen = ''first_seen''"
| "state_text Repeated = ''repeated''"
| "state_text Escalated = ''escalated''"
| "state_text Acknowledged = ''acknowledged''"
| "state_text Recovered = ''recovered''"

definition ALERT_STATES :: "alert_state list" where
  "ALERT_STATES = [FirstSeen, Repeated, Escalated, Acknowledged, Recovered]"

record alert_context =
  ac_dedupKey :: string
  ac_deploymentId :: string
  ac_ruleId :: string
  ac_state :: alert_state
  ac_severity :: verdict
  ac_occurrences :: int
  ac_reasonCodes :: "string list"
  ac_observedAt :: string
  ac_expiresAt :: string
  ac_fresh :: bool
  ac_evidenceHash :: string
  ac_evidenceSchemaVersion :: string

definition NOTIFICATION_SCHEMA :: string where
  "NOTIFICATION_SCHEMA = ''ictt-sentinel/alert-notification/v1''"

record notification =
  np_dedupKey :: string
  np_deploymentId :: string
  np_ruleId :: string
  np_state :: alert_state
  np_severity :: verdict
  np_occurrences :: int
  np_reasonCodes :: "string list"
  np_summary :: string
  np_observedAt :: string
  np_expiresAt :: string
  np_fresh :: bool
  np_contentHash :: string
  np_schemaVersion :: string
  np_retrievePath :: string

primrec SUMMARY :: "verdict \<Rightarrow> string" where
  "SUMMARY OK = ''Observed onchain coverage reconciled at the pinned blocks.''"
| "SUMMARY WARN = ''Policy or liveness deviation observed. This is not evidence of an economic breach.''"
| "SUMMARY UNKNOWN =
     ''Could not be established from the available evidence. Treat as unresolved, not as healthy.''"
| "SUMMARY CRITICAL =
     ''Deterministic accounting breach observed with sufficient evidence at pinned blocks.''"

primrec STATE_PREFIX :: "alert_state \<Rightarrow> string" where
  "STATE_PREFIX FirstSeen = ''Opened''"
| "STATE_PREFIX Repeated = ''Still open''"
| "STATE_PREFIX Escalated = ''Escalated''"
| "STATE_PREFIX Acknowledged = ''Acknowledged (paging muted; the condition may still be live)''"
| "STATE_PREFIX Recovered = ''Recovered''"

definition FORBIDDEN_CLAIMS :: "pattern list" where
  "FORBIDDEN_CLAIMS =
     [seq [Boundary, lit_i ''proof of reserves'', Boundary],
      seq [Boundary, lit_i ''solvent'', Boundary],
      seq [Boundary, lit_i ''solvency'', Boundary],
      seq [Boundary, lit_i ''guarantee'', opt (Cls (\<lambda>c. lower_char c \<in> set ''ds'')), Boundary],
      seq [Boundary, lit_i ''tamper'', Cls (\<lambda>c. c \<in> set ''- ''), lit_i ''proof'', Boundary],
      seq [Boundary, lit_i ''fully backed'', Boundary],
      seq [Boundary, lit_i ''provably safe'', Boundary]]"

datatype alert_error =
  Unsanitizable string
| SecretInEvidence "secret_finding list"
| ForbiddenClaim string

definition assertSecretFree :: "string \<Rightarrow> alert_error + unit" where
  "assertSecretFree text =
     (let findings = findSecrets text in if findings \<noteq> [] then Inl (SecretInEvidence findings) else Inr ())"

text \<open>The first claim that matches, with the matched text.\<close>

fun assert_claims :: "pattern list \<Rightarrow> string \<Rightarrow> alert_error + unit" where
  "assert_claims [] text = Inr ()"
| "assert_claims (rx # rest) text =
     (case search rx None text of
        Some (x, y) \<Rightarrow> Inl (ForbiddenClaim (take (length (snd x) - length (snd y)) (snd x)))
      | None \<Rightarrow> assert_claims rest text)"

definition assertBoundedLanguage :: "string \<Rightarrow> alert_error + unit" where
  "assertBoundedLanguage text = assert_claims FORBIDDEN_CLAIMS text"

text \<open>\<open>/^[A-Z][A-Z0-9_]{1,63}$/\<close>, \<open>/^[0-9a-f]{64}$/\<close> and \<open>/^[a-z0-9][a-z0-9._-]{0,126}$/i\<close>.\<close>

definition reason_code_ok :: "string \<Rightarrow> bool" where
  "reason_code_ok s \<longleftrightarrow>
     s \<noteq> [] \<and> is_upper (hd s) \<and> 1 \<le> length (tl s) \<and> length (tl s) \<le> 63
     \<and> list_all (\<lambda>c. is_upper c \<or> is_digit c \<or> c = CHR ''_'') (tl s)"

definition hex64 :: "string \<Rightarrow> bool" where
  "hex64 s \<longleftrightarrow> length s = 64 \<and> list_all is_lower_hex s"

definition id_ok :: "string \<Rightarrow> bool" where
  "id_ok s \<longleftrightarrow>
     s \<noteq> [] \<and> is_alnum (hd s) \<and> length (tl s) \<le> 126
     \<and> list_all (\<lambda>c. is_alnum c \<or> c \<in> set ''._-'') (tl s)"

definition payload_json :: "notification \<Rightarrow> json" where
  "payload_json p = JObj
     [(''schema'', JStr NOTIFICATION_SCHEMA), (''dedupKey'', JStr (np_dedupKey p)),
      (''deploymentId'', JStr (np_deploymentId p)), (''ruleId'', JStr (np_ruleId p)),
      (''state'', JStr (state_text (np_state p))), (''severity'', JStr (verdict_text (np_severity p))),
      (''occurrences'', JNum (np_occurrences p)), (''reasonCodes'', JArr (map JStr (np_reasonCodes p))),
      (''summary'', JStr (np_summary p)),
      (''freshness'', JObj [(''observedAt'', JStr (np_observedAt p)), (''expiresAt'', JStr (np_expiresAt p)),
                          (''fresh'', JBool (np_fresh p))]),
      (''evidence'', JObj [(''contentHash'', JStr (np_contentHash p)),
                         (''schemaVersion'', JStr (np_schemaVersion p)),
                         (''retrievePath'', JStr (np_retrievePath p))])]"

definition build_payload :: "alert_context \<Rightarrow> notification" where
  "build_payload ctx =
     \<lparr>np_dedupKey = ac_dedupKey ctx, np_deploymentId = ac_deploymentId ctx, np_ruleId = ac_ruleId ctx,
      np_state = ac_state ctx, np_severity = ac_severity ctx, np_occurrences = ac_occurrences ctx,
      np_reasonCodes = filter reason_code_ok (ac_reasonCodes ctx),
      np_summary = STATE_PREFIX (ac_state ctx) @ '': '' @ SUMMARY (ac_severity ctx),
      np_observedAt = ac_observedAt ctx, np_expiresAt = ac_expiresAt ctx, np_fresh = ac_fresh ctx,
      np_contentHash = ac_evidenceHash ctx, np_schemaVersion = ac_evidenceSchemaVersion ctx,
      np_retrievePath = ''/v1/alerts/'' @ ac_dedupKey ctx\<rparr>"

definition sanitize :: "alert_context \<Rightarrow> alert_error + notification" where
  "sanitize ctx =
     (if \<not> id_ok (ac_deploymentId ctx) \<or> \<not> id_ok (ac_ruleId ctx)
      then Inl (Unsanitizable ''deployment or rule id has an unexpected shape'')
      else if \<not> hex64 (ac_evidenceHash ctx)
      then Inl (Unsanitizable ''evidence hash is not a sha256 digest'')
      else let payload = build_payload ctx; serialised = json_print (payload_json payload)
           in case assertSecretFree serialised of
                Inl e \<Rightarrow> Inl e
              | Inr _ \<Rightarrow> (case assertBoundedLanguage serialised of Inl e \<Rightarrow> Inl e | Inr _ \<Rightarrow> Inr payload))"

text \<open>The readers of a stored field; \<open>None\<close> is a field that is absent or of another type.\<close>

definition field :: "json \<Rightarrow> string \<Rightarrow> json option" where
  "field v k = (case v of JObj kvs \<Rightarrow> map_of kvs k | _ \<Rightarrow> None)"

definition as_string :: "json option \<Rightarrow> string option" where
  "as_string v = (case v of Some (JStr s) \<Rightarrow> Some s | _ \<Rightarrow> None)"

definition as_number :: "json option \<Rightarrow> int option" where
  "as_number v = (case v of Some (JNum n) \<Rightarrow> Some n | _ \<Rightarrow> None)"

definition as_bool :: "json option \<Rightarrow> bool option" where
  "as_bool v = (case v of Some (JBool b) \<Rightarrow> Some b | _ \<Rightarrow> None)"

definition as_strings :: "json option \<Rightarrow> string list option" where
  "as_strings v =
     (case v of
        Some (JArr vs) \<Rightarrow>
          if list_all (\<lambda>x. as_string (Some x) \<noteq> None) vs then Some (List.map_filter (\<lambda>x. as_string (Some x)) vs)
          else None
      | _ \<Rightarrow> None)"

definition state_of_text :: "string \<Rightarrow> alert_state option" where
  "state_of_text s = find (\<lambda>st. state_text st = s) ALERT_STATES"

definition verdict_of_text :: "string \<Rightarrow> verdict option" where
  "verdict_of_text s = find (\<lambda>v. verdict_text v = s) [OK, WARN, UNKNOWN, CRITICAL]"

definition safe_integer :: "int \<Rightarrow> bool" where
  "safe_integer n \<longleftrightarrow> \<bar>n\<bar> \<le> 9007199254740991"

definition stored_context :: "json \<Rightarrow> alert_context option" where
  "stored_context v =
     (if as_string (field v ''schema'') \<noteq> Some NOTIFICATION_SCHEMA then None
      else case (field v ''evidence'', field v ''freshness'') of
        (Some e, Some f) \<Rightarrow>
         (case (as_string (field v ''dedupKey''), as_string (field v ''deploymentId''), as_string (field v ''ruleId''),
                Option.bind (as_string (field v ''state'')) state_of_text,
                Option.bind (as_string (field v ''severity'')) verdict_of_text,
                as_string (field v ''summary''), as_number (field v ''occurrences''),
                as_strings (field v ''reasonCodes''), as_string (field e ''contentHash''),
                as_string (field e ''schemaVersion''), as_string (field e ''retrievePath''),
                as_string (field f ''observedAt''), as_string (field f ''expiresAt''), as_bool (field f ''fresh'')) of
            (Some key, Some dep, Some rule, Some st, Some sev, Some _, Some n, Some codes, Some hash, Some version,
             Some _, Some observed, Some expires, Some fresh) \<Rightarrow>
              if \<not> safe_integer n \<or> n < 1 then None
              else Some \<lparr>ac_dedupKey = key, ac_deploymentId = dep, ac_ruleId = rule, ac_state = st,
                         ac_severity = sev, ac_occurrences = n, ac_reasonCodes = codes,
                         ac_observedAt = observed, ac_expiresAt = expires, ac_fresh = fresh,
                         ac_evidenceHash = hash, ac_evidenceSchemaVersion = version\<rparr>
          | _ \<Rightarrow> None)
      | _ \<Rightarrow> None)"

definition decodeNotification :: "json \<Rightarrow> alert_error + notification option" where
  "decodeNotification v =
     (case stored_context v of
        None \<Rightarrow> Inr None
      | Some ctx \<Rightarrow> (case sanitize ctx of Inl e \<Rightarrow> Inl e | Inr p \<Rightarrow> Inr (Some p)))"

lemma state_of_text_inverse [simp]: "state_of_text (state_text st) = Some st"
  by (cases st) (simp_all add: state_of_text_def ALERT_STATES_def)

lemma verdict_of_text_inverse [simp]: "verdict_of_text (verdict_text v) = Some v"
  by (cases v) (simp_all add: verdict_of_text_def)

lemma as_simps [simp]:
  "as_string (Some (JStr s)) = Some s" "as_number (Some (JNum n)) = Some n" "as_bool (Some (JBool b)) = Some b"
  "as_strings (Some (JArr (map JStr ss))) = Some ss"
  by (simp_all add: as_string_def as_number_def as_bool_def as_strings_def list_all_iff List.map_filter_def comp_def)

lemma field_simps [simp]: "field (JObj kvs) k = map_of kvs k"
  by (simp add: field_def)

lemma stored_context_payload:
  assumes "safe_integer (np_occurrences p)" and "1 \<le> np_occurrences p"
  shows "stored_context (payload_json p) = Some
     \<lparr>ac_dedupKey = np_dedupKey p, ac_deploymentId = np_deploymentId p, ac_ruleId = np_ruleId p,
      ac_state = np_state p, ac_severity = np_severity p, ac_occurrences = np_occurrences p,
      ac_reasonCodes = np_reasonCodes p, ac_observedAt = np_observedAt p, ac_expiresAt = np_expiresAt p,
      ac_fresh = np_fresh p, ac_evidenceHash = np_contentHash p, ac_evidenceSchemaVersion = np_schemaVersion p\<rparr>"
  using assms by (simp add: stored_context_def payload_json_def)

lemma sanitize_Inr:
  "sanitize ctx = Inr p \<longleftrightarrow>
     id_ok (ac_deploymentId ctx) \<and> id_ok (ac_ruleId ctx) \<and> hex64 (ac_evidenceHash ctx)
     \<and> p = build_payload ctx \<and> findSecrets (json_print (payload_json p)) = []
     \<and> assertBoundedLanguage (json_print (payload_json p)) = Inr ()"
  by (auto simp: sanitize_def Let_def assertSecretFree_def split: sum.splits if_splits)

lemma sanitized_decodes:
  assumes "sanitize ctx = Inr p" and "1 \<le> ac_occurrences ctx" and "safe_integer (ac_occurrences ctx)"
  shows "decodeNotification (payload_json p) = Inr (Some p)"
proof -
  have p: "id_ok (ac_deploymentId ctx)" "id_ok (ac_ruleId ctx)" "hex64 (ac_evidenceHash ctx)" "p = build_payload ctx"
    and gate: "findSecrets (json_print (payload_json p)) = []"
      "assertBoundedLanguage (json_print (payload_json p)) = Inr ()"
    using assms(1) unfolding sanitize_Inr by blast+
  from p have ctx: "stored_context (payload_json p) = Some (ctx\<lparr>ac_reasonCodes := np_reasonCodes p\<rparr>)"
    using assms(2,3) by (subst stored_context_payload) (simp_all add: build_payload_def)
  have "build_payload (ctx\<lparr>ac_reasonCodes := np_reasonCodes p\<rparr>) = p"
    using p(4) by (simp add: build_payload_def)
  with p(1-3) gate have "sanitize (ctx\<lparr>ac_reasonCodes := np_reasonCodes p\<rparr>) = Inr p"
    by (simp add: sanitize_Inr)
  then show ?thesis by (simp add: decodeNotification_def ctx)
qed

text \<open>
  C37. What was queued is what is delivered. A payload that \<open>sanitize\<close> let out, stored in the outbox
  and read back, decodes to exactly that payload: the decoder neither refuses it nor changes a
  field, and its own gate finds nothing.
\<close>

theorem stored_payload_roundtrip:
  assumes "sanitize ctx = Inr p" and "1 \<le> ac_occurrences ctx" and "safe_integer (ac_occurrences ctx)"
  shows "decodeNotification (payload_json p) = Inr (Some p)"
  using assms by (rule sanitized_decodes)

definition example_context :: "string \<Rightarrow> alert_state \<Rightarrow> verdict \<Rightarrow> int \<Rightarrow> alert_context" where
  "example_context key st sev n =
     \<lparr>ac_dedupKey = key, ac_deploymentId = ''d'', ac_ruleId = ''r'', ac_state = st,
      ac_severity = sev, ac_occurrences = n, ac_reasonCodes = [''A_B''], ac_observedAt = ''t'',
      ac_expiresAt = ''u'', ac_fresh = True, ac_evidenceHash = replicate 64 (CHR ''0''),
      ac_evidenceSchemaVersion = ''v''\<rparr>"

abbreviation context_text :: "alert_context \<Rightarrow> string" where
  "context_text ctx \<equiv> json_print (payload_json (build_payload ctx))"

definition opened_context :: alert_context where
  "opened_context = example_context (replicate 64 (CHR ''0'')) FirstSeen CRITICAL 1"

definition repeated_context :: alert_context where
  "repeated_context = example_context (replicate 64 (CHR ''0'')) Repeated CRITICAL 2"

definition recovered_context :: alert_context where
  "recovered_context = example_context (replicate 64 (CHR ''8'')) Recovered OK 1"

text \<open>Words such that a secret or a forbidden claim in a text makes the text contain one of them.\<close>

definition signal_words :: "string list" where
  "signal_words = [''://'', ''@'', ''bearer'', ''basic'', ''0x'', ''api'', ''apikey'', ''token'', ''secret'', ''password'',
     ''proof of reserves'', ''solvent'', ''solvency'', ''guarantee'', ''tamper'', ''fully backed'', ''provably safe'']"

lemma opened_text: "map lower_char (context_text opened_context) =
  ''{\"schema\":\"ictt-sentinel/alert-notification/v1\",\"dedupkey\":\"0000000000000000000000000000000000000000000000000000000000000000\",\"deploymentid\":\"d\",\"ruleid\":\"r\",\"state\":\"first_seen\",\"severity\":\"critical\",\"occurrences\":1,\"reasoncodes\":[\"a_b\"],\"summary\":\"opened: deterministic accounting breach observed with sufficient evidence at pinned blocks.\",\"freshness\":{\"observedat\":\"t\",\"expiresat\":\"u\",\"fresh\":true},\"evidence\":{\"contenthash\":\"0000000000000000000000000000000000000000000000000000000000000000\",\"schemaversion\":\"v\",\"retrievepath\":\"/v1/alerts/0000000000000000000000000000000000000000000000000000000000000000\"}}''"
  by code_simp

lemma opened_clean: "list_all (\<lambda>w. \<not> contains w (map lower_char (context_text opened_context))) signal_words"
  unfolding opened_text by (rule clean_pieces [of "CHR 0x22"]; code_simp)

lemma repeated_text: "map lower_char (context_text repeated_context) =
  ''{\"schema\":\"ictt-sentinel/alert-notification/v1\",\"dedupkey\":\"0000000000000000000000000000000000000000000000000000000000000000\",\"deploymentid\":\"d\",\"ruleid\":\"r\",\"state\":\"repeated\",\"severity\":\"critical\",\"occurrences\":2,\"reasoncodes\":[\"a_b\"],\"summary\":\"still open: deterministic accounting breach observed with sufficient evidence at pinned blocks.\",\"freshness\":{\"observedat\":\"t\",\"expiresat\":\"u\",\"fresh\":true},\"evidence\":{\"contenthash\":\"0000000000000000000000000000000000000000000000000000000000000000\",\"schemaversion\":\"v\",\"retrievepath\":\"/v1/alerts/0000000000000000000000000000000000000000000000000000000000000000\"}}''"
  by code_simp

lemma repeated_clean: "list_all (\<lambda>w. \<not> contains w (map lower_char (context_text repeated_context))) signal_words"
  unfolding repeated_text by (rule clean_pieces [of "CHR 0x22"]; code_simp)

lemma recovered_text: "map lower_char (context_text recovered_context) =
  ''{\"schema\":\"ictt-sentinel/alert-notification/v1\",\"dedupkey\":\"8888888888888888888888888888888888888888888888888888888888888888\",\"deploymentid\":\"d\",\"ruleid\":\"r\",\"state\":\"recovered\",\"severity\":\"ok\",\"occurrences\":1,\"reasoncodes\":[\"a_b\"],\"summary\":\"recovered: observed onchain coverage reconciled at the pinned blocks.\",\"freshness\":{\"observedat\":\"t\",\"expiresat\":\"u\",\"fresh\":true},\"evidence\":{\"contenthash\":\"0000000000000000000000000000000000000000000000000000000000000000\",\"schemaversion\":\"v\",\"retrievepath\":\"/v1/alerts/8888888888888888888888888888888888888888888888888888888888888888\"}}''"
  by code_simp

lemma recovered_clean: "list_all (\<lambda>w. \<not> contains w (map lower_char (context_text recovered_context))) signal_words"
  unfolding recovered_text by (rule clean_pieces [of "CHR 0x22"]; code_simp)

lemma word_lits:
  "mandatory signal_words (lit ''://'')" "mandatory signal_words (lit ''@'')"
  by (rule mandatory_lit, simp add: signal_words_def lower_char_def)+

lemma word_lits_i:
  "mandatory signal_words (lit_i ''Bearer'')" "mandatory signal_words (lit_i ''Basic'')"
  "mandatory signal_words (lit_i ''0x'')" "mandatory signal_words (lit_i ''api'')"
  "mandatory signal_words (lit_i ''apikey'')" "mandatory signal_words (lit_i ''token'')"
  "mandatory signal_words (lit_i ''secret'')" "mandatory signal_words (lit_i ''password'')"
  "mandatory signal_words (lit_i ''proof of reserves'')" "mandatory signal_words (lit_i ''solvent'')"
  "mandatory signal_words (lit_i ''solvency'')" "mandatory signal_words (lit_i ''guarantee'')"
  "mandatory signal_words (lit_i ''tamper'')" "mandatory signal_words (lit_i ''fully backed'')"
  "mandatory signal_words (lit_i ''provably safe'')"
  by (rule mandatory_lit_i, code_simp)+

lemma key_name_words: "mandatory signal_words key_name"
proof -
  have "mandatory signal_words (seq [lit_i ''api'', opt (Cls (\<lambda>c. c \<in> set ''_-'')), lit_i ''key''])"
    by (rule mandatory_seq [of 0]) (simp_all add: word_lits_i)
  then show ?thesis
    unfolding key_name_def alt_def by (simp add: mandatory_Alt word_lits_i)
qed

lemma secret_words: "list_all (\<lambda>(name, rx). mandatory signal_words rx) SECRET_PATTERNS"
proof -
  have at: "mandatory signal_words (seq ps)" if "i < length ps" "mandatory signal_words (ps ! i)" for ps i
    using that by (rule mandatory_seq)
  show ?thesis
    unfolding SECRET_PATTERNS_def scheme_url_def
    by (simp add: at [of 4] at [of 2] at [of 1] word_lits word_lits_i key_name_words)
qed

lemma claim_words: "list_all (mandatory signal_words) FORBIDDEN_CLAIMS"
  unfolding FORBIDDEN_CLAIMS_def by (simp add: mandatory_seq [of 1] word_lits_i)

text \<open>A text without any of these words passes both gates.\<close>

lemma assert_claims_Inr: "assert_claims rxs text = Inr () \<longleftrightarrow> list_all (\<lambda>rx. \<not> rx_test rx text) rxs"
  by (induction rxs) (auto simp: rx_test_def split: option.splits)

lemma clean_text:
  assumes "list_all (\<lambda>w. \<not> contains w (map lower_char text)) signal_words"
  shows "findSecrets text = []" and "assertBoundedLanguage text = Inr ()"
  using secret_words claim_words rx_test_mandatory [OF _ assms]
  by (auto simp: findSecrets_Nil assertBoundedLanguage_def assert_claims_Inr list_all_iff)

lemma clean_sanitized:
  assumes "list_all (\<lambda>w. \<not> contains w (map lower_char (context_text ctx))) signal_words"
    and "id_ok (ac_deploymentId ctx)" and "id_ok (ac_ruleId ctx)" and "hex64 (ac_evidenceHash ctx)"
  shows "sanitize ctx = Inr (build_payload ctx)"
  using clean_text [OF assms(1)] assms(2-4) by (simp add: sanitize_Inr)

lemma opened_sanitized: "sanitize opened_context = Inr (build_payload opened_context)"
  by (rule clean_sanitized [OF opened_clean]) code_simp+

lemma repeated_sanitized: "sanitize repeated_context = Inr (build_payload repeated_context)"
  by (rule clean_sanitized [OF repeated_clean]) code_simp+

lemma recovered_sanitized: "sanitize recovered_context = Inr (build_payload recovered_context)"
  by (rule clean_sanitized [OF recovered_clean]) code_simp+

theorem stored_payload_roundtrip_witness:
  "decodeNotification (payload_json (build_payload opened_context)) = Inr (Some (build_payload opened_context))"
  by (rule stored_payload_roundtrip [OF opened_sanitized])
    (simp_all add: opened_context_def example_context_def safe_integer_def)

section \<open>Nothing that looks like an endpoint is queued\<close>

lemma ends_Seq_ne: "z \<in> set (ends p x) \<Longrightarrow> ends q z \<noteq> [] \<Longrightarrow> ends (Seq p q) x \<noteq> []"
  by auto

lemma ends_Seq_in: "z \<in> set (ends p x) \<Longrightarrow> y \<in> set (ends q z) \<Longrightarrow> y \<in> set (ends (Seq p q) x)"
  by auto

lemma repeated_self: "x \<in> set (repeated f n x)"
  by (cases n) simp_all

lemma ends_Star_ne: "ends (Star p) x \<noteq> []"
  using repeated_self [of x "ends p" "length (snd x)"] by auto

definition after :: "char option \<Rightarrow> string \<Rightarrow> char option" where
  "after c s = (if s = [] then c else Some (last s))"

lemma lit_i_end: "map lower_char s = map lower_char w \<Longrightarrow> (after c s, r) \<in> set (ends (lit_i w) (c, s @ r))"
proof (induction w arbitrary: s c)
  case Nil
  then show ?case by (simp add: lit_i_def after_def)
next
  case (Cons d w)
  then obtain e t where s: "s = e # t" "lower_char e = lower_char d" "map lower_char t = map lower_char w"
    by (cases s) auto
  have "after c s = after (Some e) t" by (simp add: s after_def)
  with Cons.IH [OF s(3), of "Some e"] show ?case by (simp add: s lit_i_def)
qed

lemma lit_end: "(after c w, r) \<in> set (ends (lit w) (c, w @ r))"
proof (induction w arbitrary: c)
  case (Cons d w)
  have "after c (d # w) = after (Some d) w" by (simp add: after_def)
  with Cons.IH [of "Some d"] show ?case by (simp add: lit_def)
qed (simp add: lit_def after_def)

lemma opt_skip: "x \<in> set (ends (opt p) x)"
  unfolding opt_def ends.simps by (rule repeated_self)

lemma opt_take:
  assumes "y \<in> set (ends p x)" and "advances x y"
  shows "y \<in> set (ends (opt p) x)"
  using assms by (auto simp: opt_def)

text \<open>A scheme, with its optional last letters.\<close>

lemma scheme_end:
  assumes "map lower_char s = map lower_char a \<or> map lower_char s = map lower_char (a @ b)" and "b \<noteq> []"
  shows "(after c s, r) \<in> set (ends (Seq (lit_i a) (opt (lit_i b))) (c, s @ r))"
  using assms(1)
proof
  assume "map lower_char s = map lower_char a"
  then show ?thesis by (rule ends_Seq_in [OF lit_i_end opt_skip])
next
  assume "map lower_char s = map lower_char (a @ b)"
  then obtain u v where s: "s = u @ v" and u: "map lower_char u = map lower_char a" and v: "map lower_char v = map lower_char b"
    unfolding map_append by (rule append_eq_map_conv [THEN iffD1, elim_format, OF sym]) auto
  have "v \<noteq> []" using v assms(2) by auto
  have "(after c u, v @ r) \<in> set (ends (lit_i a) (c, u @ (v @ r)))" by (rule lit_i_end [OF u])
  moreover have "(after (after c u) v, r) \<in> set (ends (opt (lit_i b)) (after c u, v @ r))"
    by (rule opt_take [OF lit_i_end [OF v]]) (simp add: advances_def \<open>v \<noteq> []\<close>)
  ultimately show ?thesis using \<open>v \<noteq> []\<close> ends_Seq_in by (fastforce simp: s after_def)
qed

lemma scheme_url_ne:
  assumes "(after c s, ''://'' @ d # v) \<in> set (ends scheme (c, s @ ''://'' @ d # v))"
    and "url_char d" and "word_before (c, s) \<noteq> word_after (c, s)" and "s \<noteq> []"
  shows "ends (scheme_url scheme) (c, s @ ''://'' @ d # v) \<noteq> []"
proof -
  have b: "(c, s @ ''://'' @ d # v) \<in> set (ends Boundary (c, s @ ''://'' @ d # v))"
    using assms(3,4) by (cases s) (simp_all add: word_before_def word_after_def)
  have l: "(after (after c s) ''://'', d # v) \<in> set (ends (lit ''://'') (after c s, ''://'' @ d # v))"
    by (rule lit_end)
  have "ends (some (Cls url_char)) (after (after c s) ''://'', d # v) \<noteq> []"
    unfolding some_def by (rule ends_Seq_ne [OF _ ends_Star_ne]) (simp add: assms(2))
  then obtain y where "y \<in> set (ends (some (Cls url_char)) (after (after c s) ''://'', d # v))"
    using last_in_set by blast
  then have "y \<in> set (ends (Seq (some (Cls url_char)) Eps) (after (after c s) ''://'', d # v))"
    by (rule ends_Seq_in) simp
  then have "y \<in> set (ends (scheme_url scheme) (c, s @ ''://'' @ d # v))"
    unfolding scheme_url_def seq_def foldr.simps comp_def id_apply
    by (intro ends_Seq_in [OF b] ends_Seq_in [OF assms(1)] ends_Seq_in [OF l])
  then show ?thesis by auto
qed

lemma scheme_word:
  assumes "map lower_char s = w" and "w \<noteq> []" and "is_lower (hd w)"
  shows "word_after (c, s)"
proof (cases s)
  case (Cons d t)
  then have "lower_char d = hd w" using assms(1) by auto
  then have "is_lower (lower_char d)" using assms(3) by simp
  then have "is_alnum d"
    by (auto simp: lower_char_def is_alnum_def is_upper_def in_chars_def split: if_splits)
  with Cons show ?thesis by (simp add: word_after_def is_word_def)
qed (use assms in simp)

lemma url_patterns:
  "(''postgres-dsn'', scheme_url (Seq (lit_i ''postgres'') (opt (lit_i ''ql'')))) \<in> set SECRET_PATTERNS"
  "(''http-url'', scheme_url (Seq (lit_i ''http'') (opt (lit_i ''s'')))) \<in> set SECRET_PATTERNS"
  "(''ws-url'', scheme_url (Seq (lit_i ''ws'') (opt (lit_i ''s'')))) \<in> set SECRET_PATTERNS"
  by (simp_all add: SECRET_PATTERNS_def)

text \<open>
  C34. No endpoint leaves. Whenever the payload the code builds for an alert spells, anywhere in its
  serialised form, the beginning of a database, HTTP or WebSocket URL, in any case of letters and not
  in the middle of a word, \<open>sanitize\<close> refuses the alert: it is never queued, so never delivered.
\<close>

theorem no_endpoint_leaves:
  assumes "json_print (payload_json (build_payload ctx)) = u @ s @ ''://'' @ d # v"
    and "toLowerCase s \<in> set [''postgres'', ''postgresql'', ''http'', ''https'', ''ws'', ''wss'']"
    and "url_char d" and "u = [] \<or> \<not> is_word (last u)"
  shows "\<not> (\<exists>p. sanitize ctx = Inr p)"
proof
  assume "\<exists>p. sanitize ctx = Inr p"
  then have clean: "findSecrets (u @ s @ ''://'' @ d # v) = []"
    unfolding assms(1) [symmetric] sanitize_Inr by blast
  define c where "c = (if u = [] then None else Some (last u))"
  have lower: "map lower_char s \<in> set [''postgres'', ''postgresql'', ''http'', ''https'', ''ws'', ''wss'']"
    using assms(2) unfolding toLowerCase_def .
  have ne: "s \<noteq> []" using lower by auto
  have word: "word_after (c, s)"
    using lower by (intro scheme_word [OF refl])
      (auto simp: is_lower_def in_chars_def)
  have bd: "word_before (c, s) \<noteq> word_after (c, s)"
    using assms(4) word by (auto simp: c_def word_before_def)
  have spelled: "map lower_char s = map lower_char a \<or> map lower_char s = map lower_char (a @ b)"
    if "map lower_char s = a \<or> map lower_char s = a @ b" "map lower_char a = a" "map lower_char b = b" for a b
    using that by auto
  have hit: False
    if "map lower_char s = map lower_char a \<or> map lower_char s = map lower_char (a @ b)" "b \<noteq> []"
      "(name, scheme_url (Seq (lit_i a) (opt (lit_i b)))) \<in> set SECRET_PATTERNS" for a b name
  proof -
    have "ends (scheme_url (Seq (lit_i a) (opt (lit_i b)))) (c, s @ ''://'' @ d # v) \<noteq> []"
      by (rule scheme_url_ne [OF scheme_end [OF that(1,2)] assms(3) bd ne])
    then have "rx_test (scheme_url (Seq (lit_i a) (opt (lit_i b)))) (u @ s @ ''://'' @ d # v)"
      unfolding c_def by (rule rx_test_at)
    with clean that(3) show False unfolding findSecrets_Nil list_all_iff by fastforce
  qed
  from lower consider
      "map lower_char s = ''postgres'' \<or> map lower_char s = ''postgres'' @ ''ql''"
    | "map lower_char s = ''http'' \<or> map lower_char s = ''http'' @ ''s''"
    | "map lower_char s = ''ws'' \<or> map lower_char s = ''ws'' @ ''s''" by auto
  then show False
  proof cases
    case 1
    show False by (rule hit [OF spelled [OF 1] _ url_patterns(1)]) (simp_all add: lower_char_def)
  next
    case 2
    show False by (rule hit [OF spelled [OF 2] _ url_patterns(2)]) (simp_all add: lower_char_def)
  next
    case 3
    show False by (rule hit [OF spelled [OF 3] _ url_patterns(3)]) (simp_all add: lower_char_def)
  qed
qed

definition leaking_context :: alert_context where
  "leaking_context = example_context ''http://a'' FirstSeen CRITICAL 1"

lemma leaking_text:
  "json_print (payload_json (build_payload leaking_context)) =
     ''{\"schema\":\"ictt-sentinel/alert-notification/v1\",\"dedupKey\":\"'' @ ''http'' @ ''://'' @ CHR ''a'' #
     ''\",\"deploymentId\":\"d\",\"ruleId\":\"r\",\"state\":\"first_seen\",\"severity\":\"CRITICAL\",\"occurrences\":1,\"reasonCodes\":[\"A_B\"],\"summary\":\"Opened: Deterministic accounting breach observed with sufficient evidence at pinned blocks.\",\"freshness\":{\"observedAt\":\"t\",\"expiresAt\":\"u\",\"fresh\":true},\"evidence\":{\"contentHash\":\"0000000000000000000000000000000000000000000000000000000000000000\",\"schemaVersion\":\"v\",\"retrievePath\":\"/v1/alerts/http://a\"}}''"
  by code_simp

theorem no_endpoint_leaves_witness: "\<not> (\<exists>p. sanitize leaking_context = Inr p)"
  by (rule no_endpoint_leaves [OF leaking_text]) code_simp+

section \<open>Delivery (notify.ts)\<close>

datatype outcome = Delivered | Rejected | Errored | Skipped

record delivery_report =
  dr_targetId :: string
  dr_outcome :: outcome
  dr_reason :: string
  dr_httpStatus :: "int option"

text \<open>
  The answer to a post: a status and whether it counts as success, or an exception, with its message
  where it is an \<open>Error\<close> (the abort of the timeout is one). The transport sees the posts made
  before, latest first.
\<close>

datatype post_result = PostReply int bool | PostThrow "string option"

type_synonym posted = "(string \<times> string) list"
type_synonym transport = "posted \<Rightarrow> string \<Rightarrow> string \<Rightarrow> post_result"

definition bounded_reason :: "string \<Rightarrow> string" where
  "bounded_reason text = take 200 (redact text)"

definition answer_report :: "alert_target \<Rightarrow> post_result \<Rightarrow> delivery_report" where
  "answer_report target r =
     (case r of
        PostReply status ok \<Rightarrow>
          \<lparr>dr_targetId = at_targetId target, dr_outcome = (if ok then Delivered else Rejected),
           dr_reason = (if ok then ''delivered'' else ''target returned '' @ show_int status),
           dr_httpStatus = Some status\<rparr>
      | PostThrow m \<Rightarrow>
          \<lparr>dr_targetId = at_targetId target, dr_outcome = Errored,
           dr_reason = bounded_reason (case m of Some text \<Rightarrow> text | None \<Rightarrow> ''transport failed''),
           dr_httpStatus = None\<rparr>)"

definition no_post :: "alert_target \<Rightarrow> outcome \<Rightarrow> string \<Rightarrow> delivery_report" where
  "no_post target oc why =
     \<lparr>dr_targetId = at_targetId target, dr_outcome = oc, dr_reason = why, dr_httpStatus = None\<rparr>"

definition deliver ::
  "(string \<Rightarrow> url_parts option) \<Rightarrow> transport \<Rightarrow> notification \<Rightarrow> alert_target \<Rightarrow> string option \<Rightarrow> posted
    \<Rightarrow> delivery_report \<times> posted" where
  "deliver parse_url post payload target url sent =
     (if np_state payload \<noteq> Recovered \<and> \<not> meetsThreshold target (np_severity payload)
      then (no_post target Skipped ''below target severity threshold'', sent)
      else case url of
        None \<Rightarrow> (no_post target Errored (''target secret '' @ at_secretRef target @ '' is not set''), sent)
      | Some u \<Rightarrow>
          if u = [] then (no_post target Errored (''target secret '' @ at_secretRef target @ '' is not set''), sent)
          else (case checkTargetUrl parse_url u of
             Some why \<Rightarrow> (no_post target Rejected why, sent)
           | None \<Rightarrow>
               let body = json_print (payload_json payload)
               in (answer_report target (post sent u body), (u, body) # sent)))"

fun dispatch_loop ::
  "(string \<Rightarrow> url_parts option) \<Rightarrow> transport \<Rightarrow> notification \<Rightarrow> (string \<Rightarrow> string option) \<Rightarrow> alert_target list
    \<Rightarrow> posted \<Rightarrow> delivery_report list \<times> posted" where
  "dispatch_loop parse_url post payload resolve [] sent = ([], sent)"
| "dispatch_loop parse_url post payload resolve (target # targets) sent =
     (case deliver parse_url post payload target (resolve (at_secretRef target)) sent of
        (report, sent') \<Rightarrow>
          (case dispatch_loop parse_url post payload resolve targets sent' of
             (reports, sent'') \<Rightarrow> (report # reports, sent'')))"

record dispatch_result =
  dx_verdict :: verdict
  dx_reports :: "delivery_report list"
  dx_degraded :: bool

definition dispatch ::
  "(string \<Rightarrow> url_parts option) \<Rightarrow> transport \<Rightarrow> verdict \<Rightarrow> alert_target list \<Rightarrow> (string \<Rightarrow> string option)
    \<Rightarrow> notification \<Rightarrow> posted \<Rightarrow> dispatch_result \<times> posted" where
  "dispatch parse_url post v targets resolve payload sent =
     (case dispatch_loop parse_url post payload resolve targets sent of
        (reports, sent') \<Rightarrow>
          (\<lparr>dx_verdict = v, dx_reports = reports,
            dx_degraded = list_ex (\<lambda>r. dr_outcome r = Errored \<or> dr_outcome r = Rejected) reports\<rparr>, sent'))"

text \<open>A post one delivery of the payload may make.\<close>

definition post_allowed ::
  "(string \<Rightarrow> url_parts option) \<Rightarrow> notification \<Rightarrow> (string \<Rightarrow> string option) \<Rightarrow> alert_target list \<Rightarrow> string \<times> string \<Rightarrow> bool" where
  "post_allowed parse_url payload resolve targets ub \<longleftrightarrow>
     snd ub = json_print (payload_json payload) \<and> checkTargetUrl parse_url (fst ub) = None
     \<and> list_ex (\<lambda>t. resolve (at_secretRef t) = Some (fst ub)
                  \<and> (np_state payload = Recovered \<or> meetsThreshold t (np_severity payload))) targets"

lemma deliver_cases:
  assumes "deliver parse_url post payload target url sent = (r, sent')"
  obtains "sent' = sent" "dr_targetId r = at_targetId target" "dr_outcome r \<noteq> Delivered"
  | u where "url = Some u" "checkTargetUrl parse_url u = None"
      "np_state payload = Recovered \<or> meetsThreshold target (np_severity payload)"
      "sent' = (u, json_print (payload_json payload)) # sent" "dr_targetId r = at_targetId target"
  using assms
  by (auto simp: deliver_def no_post_def Let_def answer_report_def split: if_splits option.splits post_result.splits)

lemma post_allowed_Cons: "post_allowed pu payload resolve ts ub \<Longrightarrow> post_allowed pu payload resolve (t # ts) ub"
  by (simp add: post_allowed_def)

lemma dispatch_loop_posts:
  "dispatch_loop pu post payload resolve targets sent = (reports, sent') \<Longrightarrow>
     map dr_targetId reports = map at_targetId targets
     \<and> (\<exists>new. sent' = new @ sent \<and> length new \<le> length targets \<and> list_all (post_allowed pu payload resolve targets) new)"
proof (induction targets arbitrary: sent reports sent')
  case (Cons t ts)
  obtain r sent1 where d: "deliver pu post payload t (resolve (at_secretRef t)) sent = (r, sent1)" by fastforce
  obtain rs sent2 where l: "dispatch_loop pu post payload resolve ts sent1 = (rs, sent2)" by fastforce
  have eq: "reports = r # rs" "sent' = sent2" using Cons.prems d l by simp_all
  from Cons.IH [OF l] obtain new where new: "map dr_targetId rs = map at_targetId ts" "sent2 = new @ sent1"
    "length new \<le> length ts" "list_all (post_allowed pu payload resolve ts) new" by blast
  have allowed: "list_all (post_allowed pu payload resolve (t # ts)) new"
    using new(4) by (auto simp: list_all_iff intro: post_allowed_Cons)
  from d show ?case
  proof (cases rule: deliver_cases)
    case 1
    with new allowed eq show ?thesis by auto
  next
    case (2 u)
    define p where "p = (u, json_print (payload_json payload))"
    have "post_allowed pu payload resolve (t # ts) p" using 2 by (simp add: p_def post_allowed_def)
    moreover have "sent2 = (new @ [p]) @ sent" using new 2 by (simp add: p_def)
    ultimately show ?thesis using allowed new(1,3) 2(5) eq
      by (intro conjI exI [of _ "new @ [p]"]) simp_all
  qed
qed simp

text \<open>
  The post a target is due, by its own line of the dispatch: the payload, to the URL its secret resolves to,
  where the address check accepts that URL and the severity meets the target's threshold or the payload is a
  recovery, which every target is told.
\<close>

definition post_due ::
  "(string \<Rightarrow> url_parts option) \<Rightarrow> notification \<Rightarrow> (string \<Rightarrow> string option) \<Rightarrow> alert_target
   \<Rightarrow> (string \<times> string) option" where
  "post_due parse_url payload resolve t =
     (case resolve (at_secretRef t) of
        None \<Rightarrow> None
      | Some u \<Rightarrow>
          if u \<noteq> [] \<and> checkTargetUrl parse_url u = None
             \<and> (np_state payload = Recovered \<or> meetsThreshold t (np_severity payload))
          then Some (u, json_print (payload_json payload)) else None)"

definition reported_as ::
  "(string \<Rightarrow> url_parts option) \<Rightarrow> notification \<Rightarrow> (string \<Rightarrow> string option) \<Rightarrow> alert_target \<Rightarrow> delivery_report \<Rightarrow> bool" where
  "reported_as parse_url payload resolve t r \<longleftrightarrow>
     dr_targetId r = at_targetId t
     \<and> (dr_outcome r = Skipped \<longleftrightarrow> np_state payload \<noteq> Recovered \<and> \<not> meetsThreshold t (np_severity payload))
     \<and> (dr_outcome r = Delivered \<longrightarrow> post_due parse_url payload resolve t \<noteq> None)"

lemma answer_never_skips: "dr_outcome (answer_report target a) \<noteq> Skipped"
  by (auto simp: answer_report_def split: post_result.split)

lemma deliver_due:
  "deliver pu post payload t (resolve (at_secretRef t)) sent = (r, sent') \<Longrightarrow>
     sent' = (case post_due pu payload resolve t of None \<Rightarrow> sent | Some p \<Rightarrow> p # sent)
     \<and> reported_as pu payload resolve t r"
  using answer_never_skips
  by (auto simp: deliver_def post_due_def reported_as_def no_post_def answer_report_def Let_def
      split: if_splits option.splits post_result.splits)

lemma dispatch_loop_due:
  "dispatch_loop pu post payload resolve targets sent = (reports, sent') \<Longrightarrow>
     sent' = rev (List.map_filter (post_due pu payload resolve) targets) @ sent
     \<and> list_all2 (reported_as pu payload resolve) targets reports"
proof (induction targets arbitrary: sent reports sent')
  case (Cons t ts)
  obtain r sent1 where d: "deliver pu post payload t (resolve (at_secretRef t)) sent = (r, sent1)" by fastforce
  obtain rs sent2 where l: "dispatch_loop pu post payload resolve ts sent1 = (rs, sent2)" by fastforce
  have "reports = r # rs" "sent' = sent2" using Cons.prems d l by simp_all
  with deliver_due [where resolve = resolve, OF d] Cons.IH [OF l] show ?case
    by (auto simp: List.map_filter_def split: option.splits)
qed (simp add: List.map_filter_def)

text \<open>
  C38. What a dispatch round does, whatever the transport answers. It hands the verdict back unchanged and is
  degraded exactly when a report is an error or a refusal. Target by target, in order, it reports once and posts
  at most once: exactly the payload to the URL the target's secret resolves to, where the address check accepts
  that URL and the severity meets the target's threshold or the payload is a recovery. It skips exactly the
  targets below their threshold when the payload is no recovery, and reports no delivery without a post.
\<close>

theorem dispatch_posts_only_allowed:
  "case dispatch parse_url post v targets resolve payload sent of
     (result, sent') \<Rightarrow>
       dx_verdict result = v
       \<and> map dr_targetId (dx_reports result) = map at_targetId targets
       \<and> dx_degraded result = list_ex (\<lambda>r. dr_outcome r = Errored \<or> dr_outcome r = Rejected) (dx_reports result)
       \<and> sent' = rev (List.map_filter (post_due parse_url payload resolve) targets) @ sent
       \<and> list_all2 (reported_as parse_url payload resolve) targets (dx_reports result)
       \<and> (\<exists>new. sent' = new @ sent \<and> length new \<le> length targets
                \<and> list_all (post_allowed parse_url payload resolve targets) new)"
proof (cases "dispatch_loop parse_url post payload resolve targets sent")
  case (Pair reports sent')
  from dispatch_loop_posts [OF this] dispatch_loop_due [OF this] Pair
  show ?thesis by (simp add: dispatch_def)
qed

end
