(* ===== verification/Outbox.thy ===== *)
theory Outbox
  imports Notify Stores
begin

text \<open>
  The alert outbox: packages/storage-postgres/src/alert-store.ts over the tables of migrations 0002,
  0006 and 0008. A table is the list of its rows in creation order; a statement that violates a
  constraint raises, and the transaction around it is rolled back, which is the \<open>Inl\<close> of an
  operation. Transactions of the same incident are serialised by the advisory lock, so an operation
  is one step. Times are milliseconds; \<open>dbnow\<close> is the clock of the database. Rows of equal
  \<open>last_seen_at\<close>, whose order SQL leaves open, come in creation order.
\<close>

section \<open>Rows and tables\<close>

datatype outbox_status = SPending | SSent | SFailed | SAbandoned | SCancelled

record outbox_row =
  ob_outboxId :: string
  ob_deploymentId :: string
  ob_incidentKey :: string
  ob_evaluationId :: "string option"
  ob_dedupKey :: string
  ob_payload :: json
  ob_status :: outbox_status
  ob_attempts :: int
  ob_ruleId :: "string option"
  ob_reasonCode :: "string option"
  ob_verdictFrom :: "verdict option option"
  ob_verdictTo :: "verdict option"
  ob_evidenceDigest :: "string option"
  ob_state :: alert_state
  ob_occurrences :: int
  ob_firstSeenAt :: int
  ob_lastSeenAt :: int
  ob_acknowledgedBy :: "string option"
  ob_acknowledgedAt :: "int option"
  ob_recoveredAt :: "int option"
  ob_nextAttemptAt :: int

record delivery_record =
  dl_deliveryId :: string
  dl_outboxId :: string
  dl_target :: string
  dl_outcome :: outcome
  dl_detail :: json

text \<open>The two tables, and what the foreign keys and the tenant join refer to.\<close>

record outbox_db =
  od_rows :: "outbox_row list"
  od_deliveries :: "delivery_record list"
  od_deployments :: "string list"
  od_evaluations :: "string list"
  od_tenants :: "(string \<times> string) list"

datatype outbox_error =
  DbConstraint string
| AlertRefused alert_error

definition pg_integer :: "int \<Rightarrow> bool" where
  "pg_integer n \<longleftrightarrow> -2147483648 \<le> n \<and> n \<le> 2147483647"

text \<open>The constraint a row violates, if any; \<open>status\<close>, \<open>lifecycle_state\<close> and the verdicts by their types.\<close>

definition row_violation :: "outbox_row \<Rightarrow> string option" where
  "row_violation r =
     (if \<not> pg_integer (ob_attempts r) \<or> \<not> pg_integer (ob_occurrences r) then Some ''integer out of range''
      else if ob_attempts r < 0 then Some ''alert_outbox_attempts_ck''
      else if ob_occurrences r < 1 then Some ''alert_outbox_occurrences_ck''
      else if (case ob_evidenceDigest r of Some d \<Rightarrow> \<not> hex64 d | None \<Rightarrow> False) then Some ''alert_outbox_evidence_ck''
      else if \<not> hex64 (ob_incidentKey r) then Some ''alert_outbox_incident_ck''
      else if (ob_acknowledgedBy r = None) \<noteq> (ob_acknowledgedAt r = None) then Some ''alert_outbox_ack_ck''
      else if (ob_state r = Recovered) \<noteq> (ob_recoveredAt r \<noteq> None) then Some ''alert_outbox_recovered_ck''
      else None)"

definition insert_row :: "outbox_row \<Rightarrow> outbox_db \<Rightarrow> outbox_error + outbox_db" where
  "insert_row r db =
     (case row_violation r of
        Some c \<Rightarrow> Inl (DbConstraint c)
      | None \<Rightarrow>
          if ob_outboxId r \<in> ob_outboxId ` set (od_rows db) then Inl (DbConstraint ''alert_outbox_pkey'')
          else if ob_dedupKey r \<in> ob_dedupKey ` set (od_rows db)
          then Inl (DbConstraint ''alert_outbox_dedup_key_key'')
          else if ob_deploymentId r \<notin> set (od_deployments db)
          then Inl (DbConstraint ''alert_outbox_deployment_id_fkey'')
          else if (case ob_evaluationId r of Some e \<Rightarrow> e \<notin> set (od_evaluations db) | None \<Rightarrow> False)
          then Inl (DbConstraint ''alert_outbox_evaluation_id_fkey'')
          else Inr (db\<lparr>od_rows := od_rows db @ [r]\<rparr>))"

text \<open>\<open>update alert_outbox set ... where ...\<close>; no statement sets a key or a foreign key.\<close>

definition update_rows :: "(outbox_row \<Rightarrow> bool) \<Rightarrow> (outbox_row \<Rightarrow> outbox_row) \<Rightarrow> outbox_db \<Rightarrow> outbox_error + outbox_db" where
  "update_rows P f db =
     (case List.map_filter (\<lambda>r. if P r then row_violation (f r) else None) (od_rows db) of
        c # _ \<Rightarrow> Inl (DbConstraint c)
      | [] \<Rightarrow> Inr (db\<lparr>od_rows := map (\<lambda>r. if P r then f r else r) (od_rows db)\<rparr>))"

section \<open>The fold of one incident (foldAlert)\<close>

definition is_open :: "string \<Rightarrow> outbox_row \<Rightarrow> bool" where
  "is_open incident r \<longleftrightarrow> ob_incidentKey r = incident \<and> ob_state r \<noteq> Recovered"

definition incident_rows :: "string \<Rightarrow> outbox_db \<Rightarrow> outbox_row list" where
  "incident_rows incident db = sort_key (\<lambda>r. - ob_lastSeenAt r) (filter (is_open incident) (od_rows db))"

definition readByDedupKey :: "outbox_db \<Rightarrow> string \<Rightarrow> outbox_row option" where
  "readByDedupKey db k = find (\<lambda>r. ob_dedupKey r = k) (od_rows db)"

record fold_decision =
  fd_row :: "outbox_row option"
  fd_closeIncident :: bool

record fold_report =
  fr_row :: "outbox_row option"
  fr_created :: bool
  fr_closed :: nat

definition close_row :: "int \<Rightarrow> outbox_row \<Rightarrow> outbox_row" where
  "close_row dbnow r =
     r\<lparr>ob_state := Recovered,
       ob_recoveredAt := (case ob_recoveredAt r of Some t \<Rightarrow> Some t | None \<Rightarrow> Some dbnow),
       ob_status := (if ob_status r = SPending then SCancelled else ob_status r)\<rparr>"

text \<open>The columns the update of an existing row sets.\<close>

definition overwrite_row :: "outbox_row \<Rightarrow> outbox_row \<Rightarrow> outbox_row" where
  "overwrite_row new r =
     r\<lparr>ob_payload := ob_payload new, ob_status := ob_status new, ob_attempts := ob_attempts new,
       ob_ruleId := ob_ruleId new, ob_reasonCode := ob_reasonCode new, ob_verdictFrom := ob_verdictFrom new,
       ob_verdictTo := ob_verdictTo new, ob_evidenceDigest := ob_evidenceDigest new, ob_state := ob_state new,
       ob_occurrences := ob_occurrences new, ob_lastSeenAt := ob_lastSeenAt new,
       ob_acknowledgedBy := ob_acknowledgedBy new, ob_acknowledgedAt := ob_acknowledgedAt new,
       ob_recoveredAt := ob_recoveredAt new, ob_nextAttemptAt := ob_nextAttemptAt new\<rparr>"

definition existing_row :: "string \<Rightarrow> string \<Rightarrow> outbox_db \<Rightarrow> outbox_row option" where
  "existing_row incident dedup db =
     (case find (\<lambda>r. ob_dedupKey r = dedup) (incident_rows incident db) of
        Some r \<Rightarrow> Some r
      | None \<Rightarrow> readByDedupKey db dedup)"

definition close_incident :: "string \<Rightarrow> int \<Rightarrow> outbox_db \<Rightarrow> outbox_error + (nat \<times> outbox_db)" where
  "close_incident incident dbnow db =
     (case update_rows (is_open incident) (close_row dbnow) db of
        Inl e \<Rightarrow> Inl e
      | Inr db' \<Rightarrow> Inr (length (filter (is_open incident) (od_rows db)), db'))"

definition write_row :: "outbox_row option \<Rightarrow> outbox_row \<Rightarrow> outbox_db \<Rightarrow> outbox_error + outbox_db" where
  "write_row existing new db =
     (case existing of
        None \<Rightarrow> insert_row new db
      | Some _ \<Rightarrow> update_rows (\<lambda>r. ob_dedupKey r = ob_dedupKey new) (overwrite_row new) db)"

definition foldAlert ::
  "outbox_db \<Rightarrow> string \<Rightarrow> string \<Rightarrow> int
    \<Rightarrow> (outbox_row option \<Rightarrow> outbox_row option \<Rightarrow> outbox_error + fold_decision)
    \<Rightarrow> outbox_error + (fold_report \<times> outbox_db)" where
  "foldAlert db incident dedup dbnow decide =
     (let incidentRows = incident_rows incident db;
          openIncident = (case incidentRows of [] \<Rightarrow> None | r # _ \<Rightarrow> Some r);
          existing = existing_row incident dedup db
      in case decide existing openIncident of
           Inl e \<Rightarrow> Inl e
         | Inr decision \<Rightarrow>
             (case (if fd_closeIncident decision \<and> incidentRows \<noteq> [] then close_incident incident dbnow db
                    else Inr (0, db)) of
                Inl e \<Rightarrow> Inl e
              | Inr (closed, db1) \<Rightarrow>
                  (case fd_row decision of
                     None \<Rightarrow> Inr (\<lparr>fr_row = None, fr_created = False, fr_closed = closed\<rparr>, db1)
                   | Some new \<Rightarrow>
                       (case write_row existing new db1 of
                          Inl e \<Rightarrow> Inl e
                        | Inr db2 \<Rightarrow> Inr (\<lparr>fr_row = Some new, fr_created = (existing = None), fr_closed = closed\<rparr>, db2)))))"

section \<open>Delivery (leaseDueAlerts, settleAlert)\<close>

definition due_rows :: "outbox_db \<Rightarrow> int \<Rightarrow> nat \<Rightarrow> outbox_row list" where
  "due_rows db now lim =
     take lim (sort_key ob_nextAttemptAt
       (filter (\<lambda>r. ob_status r = SPending \<and> ob_nextAttemptAt r \<le> now) (od_rows db)))"

definition lease_row :: "int \<Rightarrow> outbox_row \<Rightarrow> outbox_row" where
  "lease_row until r = r\<lparr>ob_attempts := ob_attempts r + 1, ob_nextAttemptAt := until\<rparr>"

definition leaseDueAlerts :: "outbox_db \<Rightarrow> int \<Rightarrow> nat \<Rightarrow> int \<Rightarrow> outbox_error + (outbox_row list \<times> outbox_db)" where
  "leaseDueAlerts db now lim leaseMs =
     (let rows = due_rows db now lim in
      if rows = [] then Inr ([], db)
      else let leased = map (\<lambda>r. r\<lparr>ob_attempts := ob_attempts r + 1\<rparr>) rows in
           case update_rows (\<lambda>r. ob_outboxId r \<in> ob_outboxId ` set leased) (lease_row (now + leaseMs)) db of
             Inl e \<Rightarrow> Inl e
           | Inr db' \<Rightarrow> Inr (leased, db'))"

record settle_next =
  sn_status :: outbox_status
  sn_attempts :: int
  sn_nextAttemptAt :: int

definition insert_delivery :: "outbox_db \<Rightarrow> delivery_record \<Rightarrow> outbox_error + outbox_db" where
  "insert_delivery db d =
     (if dl_outcome d = Skipped then Inl (DbConstraint ''alert_deliveries_outcome_ck'')
      else if dl_deliveryId d \<in> dl_deliveryId ` set (od_deliveries db) then Inr db
      else if dl_outboxId d \<notin> ob_outboxId ` set (od_rows db)
      then Inl (DbConstraint ''alert_deliveries_outbox_id_fkey'')
      else Inr (db\<lparr>od_deliveries := od_deliveries db @ [d]\<rparr>))"

definition settle_row :: "settle_next \<Rightarrow> outbox_row \<Rightarrow> outbox_row" where
  "settle_row nx r =
     r\<lparr>ob_status := sn_status nx, ob_attempts := sn_attempts nx, ob_nextAttemptAt := sn_nextAttemptAt nx\<rparr>"

definition settleAlert :: "outbox_db \<Rightarrow> string \<Rightarrow> delivery_record list \<Rightarrow> settle_next \<Rightarrow> outbox_error + outbox_db" where
  "settleAlert db outboxId deliveries nx =
     (case fold_result insert_delivery db deliveries of
        Inl e \<Rightarrow> Inl e
      | Inr db1 \<Rightarrow> update_rows (\<lambda>r. ob_outboxId r = outboxId) (settle_row nx) db1)"

section \<open>Acknowledgement and reading\<close>

definition acknowledge_row :: "string \<Rightarrow> int \<Rightarrow> outbox_row \<Rightarrow> outbox_row" where
  "acknowledge_row by at r =
     r\<lparr>ob_state := Acknowledged, ob_acknowledgedBy := Some by, ob_acknowledgedAt := Some at\<rparr>"

definition acknowledge_where :: "(outbox_row \<Rightarrow> bool) \<Rightarrow> outbox_db \<Rightarrow> string \<Rightarrow> int \<Rightarrow> outbox_error + (nat \<times> outbox_db)" where
  "acknowledge_where P db by at =
     (case update_rows P (acknowledge_row by at) db of
        Inl e \<Rightarrow> Inl e
      | Inr db' \<Rightarrow> Inr (length (filter P (od_rows db)), db'))"

definition acknowledgeAlert :: "outbox_db \<Rightarrow> string \<Rightarrow> string \<Rightarrow> int \<Rightarrow> outbox_error + (nat \<times> outbox_db)" where
  "acknowledgeAlert db incident by at = acknowledge_where (is_open incident) db by at"

definition acknowledgeTenantAlert ::
  "outbox_db \<Rightarrow> string \<Rightarrow> string \<Rightarrow> string \<Rightarrow> int \<Rightarrow> outbox_error + (nat \<times> outbox_db)" where
  "acknowledgeTenantAlert db tenant incident by at =
     acknowledge_where (\<lambda>r. is_open incident r \<and> (ob_deploymentId r, tenant) \<in> set (od_tenants db)) db by at"

definition readAlerts :: "outbox_db \<Rightarrow> string \<Rightarrow> nat \<Rightarrow> outbox_row list" where
  "readAlerts db deployment lim =
     take lim (sort_key (\<lambda>r. - ob_lastSeenAt r) (filter (\<lambda>r. ob_deploymentId r = deployment) (od_rows db)))"

end
