(* ===== verification/Alerting.thy ===== *)
theory Alerting
  imports Outbox
begin

text \<open>
  apps/agent/src/alerting.ts: a verdict becomes a row of the outbox (\<open>raiseAlert\<close>), and due rows are
  delivered and settled (\<open>drainOutbox\<close>). The abort signal is read as a function of the posts made so
  far; the identifiers of rows and deliveries are the parameters the daemon passes.
\<close>

section \<open>Raising (raiseAlert)\<close>

record alert_signal =
  sg_deploymentId :: string
  sg_evaluationId :: "string option"
  sg_ruleId :: string
  sg_reasonCode :: string
  sg_previousVerdict :: "verdict option"
  sg_verdict :: verdict
  sg_evidenceHash :: string
  sg_evidenceSchemaVersion :: string
  sg_reasonCodes :: "string list"
  sg_observedAt :: string
  sg_expiresAt :: string
  sg_fresh :: bool

record raise_result =
  rr_dedupKey :: string
  rr_incidentKey :: string
  rr_written :: bool
  rr_created :: bool
  rr_notified :: bool
  rr_closedIncidentRows :: nat

definition identityOf :: "alert_signal \<Rightarrow> alert_identity" where
  "identityOf s =
     \<lparr>ai_deploymentId = sg_deploymentId s, ai_ruleId = sg_ruleId s, ai_reasonCode = sg_reasonCode s,
      ai_from = sg_previousVerdict s, ai_to = sg_verdict s, ai_evidenceDigest = sg_evidenceHash s\<rparr>"

definition toRecord :: "outbox_row \<Rightarrow> alert_identity \<Rightarrow> alert_record" where
  "toRecord r i =
     \<lparr>ar_dedupKey = ob_dedupKey r, ar_identity = i, ar_state = ob_state r, ar_firstSeenAt = ob_firstSeenAt r,
      ar_lastSeenAt = ob_lastSeenAt r, ar_occurrences = ob_occurrences r,
      ar_currentVerdict = (case ob_verdictTo r of Some v \<Rightarrow> v | None \<Rightarrow> ai_to i),
      ar_acknowledgedBy = ob_acknowledgedBy r, ar_acknowledgedAt = ob_acknowledgedAt r,
      ar_recoveredAt = ob_recoveredAt r\<rparr>"

definition signal_context :: "(string \<Rightarrow> string) \<Rightarrow> alert_signal \<Rightarrow> alert_record \<Rightarrow> alert_context" where
  "signal_context sha s rec =
     \<lparr>ac_dedupKey = dedupKey sha (identityOf s), ac_deploymentId = sg_deploymentId s, ac_ruleId = sg_ruleId s,
      ac_state = ar_state rec, ac_severity = ar_currentVerdict rec, ac_occurrences = ar_occurrences rec,
      ac_reasonCodes = sg_reasonCodes s, ac_observedAt = sg_observedAt s, ac_expiresAt = sg_expiresAt s,
      ac_fresh = sg_fresh s, ac_evidenceHash = sg_evidenceHash s,
      ac_evidenceSchemaVersion = sg_evidenceSchemaVersion s\<rparr>"

definition record_before :: "alert_identity \<Rightarrow> outbox_row option \<Rightarrow> outbox_row option \<Rightarrow> alert_record option" where
  "record_before i existing openIncident =
     (case existing of
        Some r \<Rightarrow> Some (toRecord r i)
      | None \<Rightarrow> (case openIncident of Some r \<Rightarrow> Some (toRecord r i) | None \<Rightarrow> None))"

definition record_recovered :: "alert_record option \<Rightarrow> alert_signal \<Rightarrow> int \<Rightarrow> alert_record option" where
  "record_recovered before s now =
     (case before of None \<Rightarrow> None | Some b \<Rightarrow> recover b (sg_verdict s) now)"

definition record_after :: "(string \<Rightarrow> string) \<Rightarrow> alert_record option \<Rightarrow> alert_signal \<Rightarrow> int \<Rightarrow> alert_record" where
  "record_after sha before s now =
     (case record_recovered before s now of
        Some r \<Rightarrow> r
      | None \<Rightarrow> (case before of
                  None \<Rightarrow> open_alert sha (identityOf s) now
                | Some b \<Rightarrow> observe b (identityOf s) now))"

definition signal_row ::
  "(string \<Rightarrow> string) \<Rightarrow> (string \<Rightarrow> string) \<Rightarrow> alert_signal \<Rightarrow> int \<Rightarrow> outbox_row option \<Rightarrow> alert_record \<Rightarrow> bool
    \<Rightarrow> notification \<Rightarrow> outbox_row" where
  "signal_row sha outboxIdFor s now existing rec notify payload =
     \<lparr>ob_outboxId = (case existing of Some r \<Rightarrow> ob_outboxId r
                     | None \<Rightarrow> outboxIdFor (dedupKey sha (identityOf s))),
      ob_deploymentId = sg_deploymentId s,
      ob_incidentKey = incidentKey sha (sg_deploymentId s) (sg_ruleId s) (sg_reasonCode s),
      ob_evaluationId = sg_evaluationId s, ob_dedupKey = dedupKey sha (identityOf s),
      ob_payload = payload_json payload,
      ob_status = (if notify then SPending else case existing of Some r \<Rightarrow> ob_status r | None \<Rightarrow> SSent),
      ob_attempts = (case existing of Some r \<Rightarrow> ob_attempts r | None \<Rightarrow> 0),
      ob_ruleId = Some (sg_ruleId s), ob_reasonCode = Some (sg_reasonCode s),
      ob_verdictFrom = Some (sg_previousVerdict s), ob_verdictTo = Some (ar_currentVerdict rec),
      ob_evidenceDigest = Some (sg_evidenceHash s), ob_state = ar_state rec,
      ob_occurrences = ar_occurrences rec, ob_firstSeenAt = ar_firstSeenAt rec,
      ob_lastSeenAt = ar_lastSeenAt rec, ob_acknowledgedBy = ar_acknowledgedBy rec,
      ob_acknowledgedAt = ar_acknowledgedAt rec, ob_recoveredAt = ar_recoveredAt rec,
      ob_nextAttemptAt = now\<rparr>"

text \<open>The callback: the decision, and whether it notifies.\<close>

definition raise_notifies ::
  "(string \<Rightarrow> string) \<Rightarrow> alert_signal \<Rightarrow> int \<Rightarrow> outbox_row option \<Rightarrow> outbox_row option \<Rightarrow> bool" where
  "raise_notifies sha s now existing openIncident =
     (let before = record_before (identityOf s) existing openIncident
      in shouldNotify before (record_after sha before s now))"

definition raise_decide ::
  "(string \<Rightarrow> string) \<Rightarrow> (string \<Rightarrow> string) \<Rightarrow> alert_signal \<Rightarrow> int \<Rightarrow> outbox_row option \<Rightarrow> outbox_row option
    \<Rightarrow> outbox_error + fold_decision" where
  "raise_decide sha outboxIdFor s now existing openIncident =
     (let before = record_before (identityOf s) existing openIncident;
          recovered = record_recovered before s now;
          rec = record_after sha before s now
      in if before = None \<and> \<not> isEscalation (sg_previousVerdict s) (sg_verdict s)
         then Inr \<lparr>fd_row = None, fd_closeIncident = False\<rparr>
         else let notify = raise_notifies sha s now existing openIncident in
           (case sanitize (signal_context sha s rec) of
              Inl e \<Rightarrow> Inl (AlertRefused e)
            | Inr payload \<Rightarrow>
                Inr \<lparr>fd_row = Some (signal_row sha outboxIdFor s now existing rec notify payload),
                     fd_closeIncident = (recovered \<noteq> None)\<rparr>))"

definition open_incident :: "string \<Rightarrow> outbox_db \<Rightarrow> outbox_row option" where
  "open_incident incident db = (case incident_rows incident db of [] \<Rightarrow> None | r # _ \<Rightarrow> Some r)"

definition raiseAlert ::
  "(string \<Rightarrow> string) \<Rightarrow> (string \<Rightarrow> string) \<Rightarrow> outbox_db \<Rightarrow> alert_signal \<Rightarrow> int \<Rightarrow> int
    \<Rightarrow> outbox_error + (raise_result \<times> outbox_db)" where
  "raiseAlert sha outboxIdFor db s now dbnow =
     (let dedup = dedupKey sha (identityOf s);
          incident = incidentKey sha (sg_deploymentId s) (sg_ruleId s) (sg_reasonCode s)
      in case foldAlert db incident dedup dbnow (raise_decide sha outboxIdFor s now) of
           Inl e \<Rightarrow> Inl e
         | Inr (result, db') \<Rightarrow>
             Inr (\<lparr>rr_dedupKey = dedup, rr_incidentKey = incident, rr_written = (fr_row result \<noteq> None),
                   rr_created = fr_created result,
                   rr_notified = (fr_row result \<noteq> None
                     \<and> raise_notifies sha s now (existing_row incident dedup db) (open_incident incident db)),
                   rr_closedIncidentRows = fr_closed result\<rparr>, db'))"

section \<open>Draining (drainOutbox)\<close>

record drain_options =
  do_targets :: "alert_target list"
  do_resolve :: "string \<Rightarrow> string option"
  do_parse_url :: "string \<Rightarrow> url_parts option"
  do_transport :: transport
  do_maxAttempts :: int
  do_leaseMs :: int
  do_backoffMs :: int
  do_batchSize :: nat
  do_now :: int
  do_aborted :: "posted \<Rightarrow> bool"
  do_deliveryIdFor :: "string \<Rightarrow> string \<Rightarrow> int \<Rightarrow> string"

record drain_report =
  dn_leased :: nat
  dn_delivered :: nat
  dn_retrying :: nat
  dn_abandoned :: nat
  dn_undecodable :: nat

definition report_delivery :: "drain_options \<Rightarrow> outbox_row \<Rightarrow> delivery_report \<Rightarrow> delivery_record list" where
  "report_delivery opts row r =
     (if dr_outcome r = Skipped then []
      else [\<lparr>dl_deliveryId = do_deliveryIdFor opts (ob_outboxId row) (dr_targetId r) (ob_attempts row),
             dl_outboxId = ob_outboxId row, dl_target = dr_targetId r, dl_outcome = dr_outcome r,
             dl_detail = JObj [(''reason'', JStr (dr_reason r)),
                               (''httpStatus'', case dr_httpStatus r of Some n \<Rightarrow> JNum n | None \<Rightarrow> JNull),
                               (''attempt'', JNum (ob_attempts row))]\<rparr>])"

definition undecodable_delivery :: "drain_options \<Rightarrow> outbox_row \<Rightarrow> delivery_record" where
  "undecodable_delivery opts row =
     \<lparr>dl_deliveryId = do_deliveryIdFor opts (ob_outboxId row) ''decoder'' (ob_attempts row),
      dl_outboxId = ob_outboxId row, dl_target = ''decoder'', dl_outcome = Rejected,
      dl_detail = JObj [(''reason'', JStr ''stored payload does not match the notification schema'')]\<rparr>"

definition settled_status :: "drain_options \<Rightarrow> outbox_row \<Rightarrow> delivery_report list \<Rightarrow> outbox_status" where
  "settled_status opts row reports =
     (let anyDelivered = list_ex (\<lambda>r. dr_outcome r = Delivered) reports;
          allSkipped = list_all (\<lambda>r. dr_outcome r = Skipped) reports;
          budgetLeft = ob_attempts row < do_maxAttempts opts
      in if anyDelivered \<or> (allSkipped \<and> reports \<noteq> []) then SSent
         else if budgetLeft then SPending else SAbandoned)"

definition backoff :: "drain_options \<Rightarrow> outbox_row \<Rightarrow> int" where
  "backoff opts row = do_now opts + do_backoffMs opts * 2 ^ nat (min (ob_attempts row) 10)"

definition count_settled :: "delivery_report list \<Rightarrow> outbox_status \<Rightarrow> drain_report \<Rightarrow> drain_report" where
  "count_settled reports st c =
     (if list_ex (\<lambda>r. dr_outcome r = Delivered) reports then c\<lparr>dn_delivered := dn_delivered c + 1\<rparr>
      else if st = SPending then c\<lparr>dn_retrying := dn_retrying c + 1\<rparr>
      else if st = SAbandoned then c\<lparr>dn_abandoned := dn_abandoned c + 1\<rparr> else c)"

fun drain_rows ::
  "drain_options \<Rightarrow> outbox_row list \<Rightarrow> drain_report \<Rightarrow> posted \<Rightarrow> outbox_db
    \<Rightarrow> (outbox_error + drain_report) \<times> posted \<times> outbox_db" where
  "drain_rows opts [] c sent db = (Inr c, sent, db)"
| "drain_rows opts (row # rows) c sent db =
     (if do_aborted opts sent then (Inr c, sent, db)
      else case decodeNotification (ob_payload row) of
        Inl e \<Rightarrow> (Inl (AlertRefused e), sent, db)
      | Inr None \<Rightarrow>
          (case settleAlert db (ob_outboxId row) [undecodable_delivery opts row]
                  \<lparr>sn_status = SAbandoned, sn_attempts = ob_attempts row, sn_nextAttemptAt = do_now opts\<rparr> of
             Inl e \<Rightarrow> (Inl e, sent, db)
           | Inr db' \<Rightarrow> drain_rows opts rows (c\<lparr>dn_undecodable := dn_undecodable c + 1\<rparr>) sent db')
      | Inr (Some payload) \<Rightarrow>
          (case dispatch (do_parse_url opts) (do_transport opts) (np_severity payload) (do_targets opts)
                  (do_resolve opts) payload sent of
             (oc, sent') \<Rightarrow>
               let reports = dx_reports oc; st = settled_status opts row reports in
               (case settleAlert db (ob_outboxId row) (concat (map (report_delivery opts row) reports))
                       \<lparr>sn_status = st, sn_attempts = ob_attempts row, sn_nextAttemptAt = backoff opts row\<rparr> of
                  Inl e \<Rightarrow> (Inl e, sent', db)
                | Inr db' \<Rightarrow> drain_rows opts rows (count_settled reports st c) sent' db')))"

definition drainOutbox ::
  "drain_options \<Rightarrow> posted \<Rightarrow> outbox_db \<Rightarrow> (outbox_error + drain_report) \<times> posted \<times> outbox_db" where
  "drainOutbox opts sent db =
     (case leaseDueAlerts db (do_now opts) (do_batchSize opts) (do_leaseMs opts) of
        Inl e \<Rightarrow> (Inl e, sent, db)
      | Inr (rows, db1) \<Rightarrow>
          drain_rows opts rows
            \<lparr>dn_leased = length rows, dn_delivered = 0, dn_retrying = 0, dn_abandoned = 0, dn_undecodable = 0\<rparr>
            sent db1)"

end
