(* ===== verification/AlertRuns.thy ===== *)
theory AlertRuns
  imports Alerting
begin

text \<open>
  Histories of the outbox: any sequence of raises, acknowledgements, leases, settlements and drains
  over empty tables. The invariant says which signal each row comes from; from it follow what a
  repeated signal and a recovery do, that a drain finds every stored payload readable, and how many
  attempts a row can take.
\<close>

section \<open>What a key identifies\<close>

definition dedup_text :: "alert_identity \<Rightarrow> string" where
  "dedup_text i =
     ALERT_DOMAIN @ [CHR 0x0A] @ join ''|''
       [ai_deploymentId i, ai_ruleId i, ai_reasonCode i,
        from_text (ai_from i) @ ''->'' @ verdict_text (ai_to i), ai_evidenceDigest i]"

definition identity_ok :: "alert_identity \<Rightarrow> bool" where
  "identity_ok i \<longleftrightarrow> id_ok (ai_deploymentId i) \<and> id_ok (ai_ruleId i) \<and> hex64 (ai_evidenceDigest i)"

lemma dedupKey_text: "dedupKey sha i = sha (dedup_text i)"
  by (simp add: dedupKey_def dedup_text_def)

lemma first_sep: "a @ c # s = b @ c # t \<Longrightarrow> c \<notin> set a \<Longrightarrow> c \<notin> set b \<Longrightarrow> a = b \<and> s = t"
proof (induction a arbitrary: b)
  case Nil
  then show ?case by (cases b) auto
next
  case (Cons d a)
  then show ?case by (cases b) auto
qed

lemma last_sep:
  assumes "s @ c # a = t @ c # b" and "c \<notin> set a" and "c \<notin> set b"
  shows "s = t \<and> a = b"
proof -
  have "rev a @ c # rev s = rev b @ c # rev t"
    using arg_cong [OF assms(1), of rev] by simp
  from first_sep [OF this] assms(2,3) show ?thesis by simp
qed

lemma id_no_bar: "id_ok s \<Longrightarrow> CHR ''|'' \<notin> set s"
  by (cases s) (auto simp: id_ok_def list_all_iff is_alnum_def is_lower_def is_upper_def is_digit_def in_chars_def)

lemma hex_no_bar: "hex64 s \<Longrightarrow> CHR ''|'' \<notin> set s"
  by (auto simp: hex64_def list_all_iff is_lower_hex_def is_digit_def)

lemma verdict_text_chars: "CHR ''|'' \<notin> set (verdict_text v)" "CHR ''-'' \<notin> set (verdict_text v)"
  by (cases v; simp)+

lemma verdict_text_inject: "verdict_text v = verdict_text w \<longleftrightarrow> v = w"
  by (cases v; cases w) simp_all

lemma from_text_inject: "from_text v = from_text w \<longleftrightarrow> v = w"
proof -
  have "verdict_text u \<noteq> ''NONE''" for u by (cases u) simp_all
  then show ?thesis
    by (auto simp: from_text_def verdict_text_inject split: option.splits) (metis)+
qed

lemma transition_no_bar: "CHR ''|'' \<notin> set (from_text v @ ''->'' @ verdict_text w)"
  by (auto simp: from_text_def verdict_text_chars split: option.splits)

lemma transition_inject:
  assumes "from_text v @ ''->'' @ verdict_text w = from_text v' @ ''->'' @ verdict_text w'"
  shows "v = v' \<and> w = w'"
proof -
  have no: "CHR ''-'' \<notin> set (from_text u)" for u
    by (auto simp: from_text_def verdict_text_chars split: option.splits)
  have "from_text v @ CHR ''-'' # (CHR ''>'' # verdict_text w) = from_text v' @ CHR ''-'' # (CHR ''>'' # verdict_text w')"
    using assms by simp
  from first_sep [OF this no no] show ?thesis by (simp add: from_text_inject verdict_text_inject)
qed

text \<open>The text under the key determines the identity, although a reason code may contain any character.\<close>

lemma dedup_text_inject:
  assumes "identity_ok i" and "identity_ok j" and "dedup_text i = dedup_text j"
  shows "i = j"
proof -
  define ti where "ti = from_text (ai_from i) @ ''->'' @ verdict_text (ai_to i)"
  define tj where "tj = from_text (ai_from j) @ ''->'' @ verdict_text (ai_to j)"
  have "ai_deploymentId i @ CHR ''|'' # ai_ruleId i @ CHR ''|'' # ai_reasonCode i @ CHR ''|'' # ti @ CHR ''|'' # ai_evidenceDigest i
      = ai_deploymentId j @ CHR ''|'' # ai_ruleId j @ CHR ''|'' # ai_reasonCode j @ CHR ''|'' # tj @ CHR ''|'' # ai_evidenceDigest j"
    using assms(3) by (simp add: dedup_text_def ti_def tj_def)
  from first_sep [OF this] have dep: "ai_deploymentId i = ai_deploymentId j"
    and "ai_ruleId i @ CHR ''|'' # ai_reasonCode i @ CHR ''|'' # ti @ CHR ''|'' # ai_evidenceDigest i
      = ai_ruleId j @ CHR ''|'' # ai_reasonCode j @ CHR ''|'' # tj @ CHR ''|'' # ai_evidenceDigest j"
    using assms(1,2) by (simp_all add: identity_ok_def id_no_bar)
  from first_sep [OF this(2)] have rule: "ai_ruleId i = ai_ruleId j"
    and "(ai_reasonCode i @ CHR ''|'' # ti) @ CHR ''|'' # ai_evidenceDigest i
      = (ai_reasonCode j @ CHR ''|'' # tj) @ CHR ''|'' # ai_evidenceDigest j"
    using assms(1,2) by (simp_all add: identity_ok_def id_no_bar)
  from last_sep [OF this(2)] have dig: "ai_evidenceDigest i = ai_evidenceDigest j"
    and "ai_reasonCode i @ CHR ''|'' # ti = ai_reasonCode j @ CHR ''|'' # tj"
    using assms(1,2) by (simp_all add: identity_ok_def hex_no_bar)
  from last_sep [OF this(2)] have "ai_reasonCode i = ai_reasonCode j" "ti = tj"
    using transition_no_bar by (simp_all add: ti_def tj_def)
  with dep rule dig transition_inject [of "ai_from i" "ai_to i" "ai_from j" "ai_to j"] show ?thesis
    unfolding ti_def tj_def by simp
qed

section \<open>Statements on rows\<close>

lemma map_filter_Nil: "List.map_filter f xs = [] \<longleftrightarrow> (\<forall>x\<in>set xs. f x = None)"
  by (induction xs) (auto split: option.splits)

lemma set_map_filter: "c \<in> set (List.map_filter f xs) \<longleftrightarrow> (\<exists>x\<in>set xs. f x = Some c)"
  by (induction xs) (auto split: option.splits)

lemma update_rows_Inr:
  assumes "update_rows P f db = Inr db'"
  shows "db' = db\<lparr>od_rows := map (\<lambda>r. if P r then f r else r) (od_rows db)\<rparr>"
    and "\<forall>r\<in>set (od_rows db). P r \<longrightarrow> row_violation (f r) = None"
proof -
  have nil: "List.map_filter (\<lambda>r. if P r then row_violation (f r) else None) (od_rows db) = []"
    using assms by (auto simp: update_rows_def split: list.splits)
  with assms show "db' = db\<lparr>od_rows := map (\<lambda>r. if P r then f r else r) (od_rows db)\<rparr>"
    by (simp add: update_rows_def)
  from nil show "\<forall>r\<in>set (od_rows db). P r \<longrightarrow> row_violation (f r) = None"
    unfolding map_filter_Nil by auto
qed

lemma update_rows_total:
  assumes "\<And>r. r \<in> set (od_rows db) \<Longrightarrow> P r \<Longrightarrow> row_violation (f r) = None"
  shows "update_rows P f db = Inr (db\<lparr>od_rows := map (\<lambda>r. if P r then f r else r) (od_rows db)\<rparr>)"
proof -
  have "List.map_filter (\<lambda>r. if P r then row_violation (f r) else None) (od_rows db) = []"
    unfolding map_filter_Nil using assms by auto
  then show ?thesis by (simp add: update_rows_def)
qed

lemma update_rows_Inl: "update_rows P f db = Inl e \<Longrightarrow> \<exists>r\<in>set (od_rows db). \<exists>c. P r \<and> row_violation (f r) = Some c \<and> e = DbConstraint c"
proof -
  assume a: "update_rows P f db = Inl e"
  then obtain c cs where c: "List.map_filter (\<lambda>r. if P r then row_violation (f r) else None) (od_rows db) = c # cs"
    "e = DbConstraint c" by (auto simp: update_rows_def split: list.splits)
  then have "c \<in> set (List.map_filter (\<lambda>r. if P r then row_violation (f r) else None) (od_rows db))" by simp
  then obtain r where "r \<in> set (od_rows db)" "(if P r then row_violation (f r) else None) = Some c"
    unfolding set_map_filter by blast
  with c(2) show ?thesis by (auto split: if_splits)
qed

lemma insert_row_Inr:
  assumes "insert_row r db = Inr db'"
  shows "db' = db\<lparr>od_rows := od_rows db @ [r]\<rparr>" and "row_violation r = None"
    and "ob_outboxId r \<notin> ob_outboxId ` set (od_rows db)" and "ob_dedupKey r \<notin> ob_dedupKey ` set (od_rows db)"
  using assms by (simp_all add: insert_row_def split: option.splits if_splits)

lemma update_rows_meta:
  "update_rows P f db = Inr db' \<Longrightarrow> od_deliveries db' = od_deliveries db \<and> od_deployments db' = od_deployments db
     \<and> od_evaluations db' = od_evaluations db \<and> od_tenants db' = od_tenants db"
  using update_rows_Inr(1) by fastforce

section \<open>Row invariants\<close>

text \<open>
  The contract between the outbox and a property of its rows: the statements that move a row on,
  whoever issues them, keep the property. Inserting and overwriting a row are the raise's business.
\<close>

locale row_invariant =
  fixes ok :: "outbox_row \<Rightarrow> bool"
  assumes ok_close: "ok r \<Longrightarrow> ok (close_row dbnow r)"
    and ok_lease: "ok r \<Longrightarrow> ok (lease_row until r)"
    and ok_settle: "ok r \<Longrightarrow> ok (settle_row nx r)"
    and ok_acknowledge: "ok r \<Longrightarrow> ok (acknowledge_row by at r)"
begin

definition all_ok :: "outbox_db \<Rightarrow> bool" where
  "all_ok db \<longleftrightarrow> (\<forall>r\<in>set (od_rows db). ok r)"

lemma update_ok:
  "update_rows P f db = Inr db' \<Longrightarrow> all_ok db \<Longrightarrow> (\<And>r. ok r \<Longrightarrow> ok (f r)) \<Longrightarrow> all_ok db'"
  by (auto simp: all_ok_def dest!: update_rows_Inr(1))

lemma close_ok: "close_incident incident dbnow db = Inr (n, db') \<Longrightarrow> all_ok db \<Longrightarrow> all_ok db'"
  by (auto simp: close_incident_def split: sum.splits dest: update_ok intro: ok_close)

lemma lease_ok: "leaseDueAlerts db now lim leaseMs = Inr (rows, db') \<Longrightarrow> all_ok db \<Longrightarrow> all_ok db'"
  by (auto simp: leaseDueAlerts_def Let_def split: sum.splits if_splits dest: update_ok intro: ok_lease)

lemma deliveries_rows: "fold_result insert_delivery db ds = Inr db' \<Longrightarrow> od_rows db' = od_rows db"
  by (erule fold_result_invariant [where P = "\<lambda>d. od_rows d = od_rows db"])
    (auto simp: insert_delivery_def split: if_splits)

lemma settle_ok:
  assumes "settleAlert db k ds nx = Inr db'" and "all_ok db"
  shows "all_ok db'"
proof -
  obtain db1 where db1: "fold_result insert_delivery db ds = Inr db1"
      "update_rows (\<lambda>r. ob_outboxId r = k) (settle_row nx) db1 = Inr db'"
    using assms(1) by (auto simp: settleAlert_def split: sum.splits)
  have "all_ok db1" using assms(2) deliveries_rows [OF db1(1)] by (simp add: all_ok_def)
  from update_ok [OF db1(2) this ok_settle] show ?thesis .
qed

lemma acknowledge_ok: "acknowledge_where P db by at = Inr (n, db') \<Longrightarrow> all_ok db \<Longrightarrow> all_ok db'"
  by (auto simp: acknowledge_where_def split: sum.splits dest: update_ok intro: ok_acknowledge)

text \<open>A drain settles rows one by one, and keeps the property also when it fails halfway.\<close>

lemma drain_rows_ok: "drain_rows opts rows c sent db = (res, sent', db') \<Longrightarrow> all_ok db \<Longrightarrow> all_ok db'"
proof (induction opts rows c sent db rule: drain_rows.induct)
  case (2 opts row rows c sent db)
  from "2.prems" show ?case
    by (auto simp: Let_def split: if_splits sum.splits option.splits prod.splits dest: settle_ok intro: "2.IH")
qed simp

lemma drain_ok: "drainOutbox opts sent db = (res, sent', db') \<Longrightarrow> all_ok db \<Longrightarrow> all_ok db'"
  by (auto simp: drainOutbox_def split: sum.splits prod.splits dest: lease_ok drain_rows_ok)

end

section \<open>The tables stay well formed\<close>

definition tables_ok :: "outbox_db \<Rightarrow> bool" where
  "tables_ok db \<longleftrightarrow>
     (\<forall>r\<in>set (od_rows db). row_violation r = None)
     \<and> distinct (map ob_outboxId (od_rows db)) \<and> distinct (map ob_dedupKey (od_rows db))
     \<and> distinct (map dl_deliveryId (od_deliveries db))
     \<and> (\<forall>d\<in>set (od_deliveries db). dl_outcome d \<noteq> Skipped \<and> dl_outboxId d \<in> ob_outboxId ` set (od_rows db))"

definition keeps_keys :: "(outbox_row \<Rightarrow> outbox_row) \<Rightarrow> bool" where
  "keeps_keys f \<longleftrightarrow> (\<forall>r. ob_outboxId (f r) = ob_outboxId r \<and> ob_dedupKey (f r) = ob_dedupKey r)"

lemma keeps_keys_simps [simp]:
  "keeps_keys (close_row n)" "keeps_keys (lease_row u)" "keeps_keys (settle_row nx)"
  "keeps_keys (acknowledge_row by at)" "keeps_keys (overwrite_row new)"
  by (simp_all add: keeps_keys_def close_row_def lease_row_def settle_row_def acknowledge_row_def overwrite_row_def)

lemma map_if_key: "keeps_keys f \<Longrightarrow> map ob_outboxId (map (\<lambda>r. if P r then f r else r) rs) = map ob_outboxId rs
    \<and> map ob_dedupKey (map (\<lambda>r. if P r then f r else r) rs) = map ob_dedupKey rs"
  by (simp add: keeps_keys_def)

lemma update_rows_keys:
  assumes "update_rows P f db = Inr db'" and "keeps_keys f"
  shows "map ob_outboxId (od_rows db') = map ob_outboxId (od_rows db)"
    and "map ob_dedupKey (od_rows db') = map ob_dedupKey (od_rows db)"
  using map_if_key [OF assms(2)] update_rows_Inr(1) [OF assms(1)] by simp_all

lemma update_tables_ok:
  assumes "update_rows P f db = Inr db'" and "keeps_keys f" and "tables_ok db"
  shows "tables_ok db'"
proof -
  have "\<forall>r\<in>set (od_rows db'). row_violation r = None"
    using update_rows_Inr [OF assms(1)] assms(3) by (auto simp: tables_ok_def)
  moreover have "ob_outboxId ` set (od_rows db') = ob_outboxId ` set (od_rows db)"
    using arg_cong [OF update_rows_keys(1) [OF assms(1,2)], of set] by simp
  ultimately show ?thesis
    using assms(3) update_rows_meta [OF assms(1)] update_rows_keys [OF assms(1,2)]
    by (simp add: tables_ok_def)
qed

lemma insert_tables_ok: "insert_row r db = Inr db' \<Longrightarrow> tables_ok db \<Longrightarrow> tables_ok db'"
  using insert_row_Inr [of r db db'] by (simp add: tables_ok_def)

lemma insert_delivery_tables_ok: "insert_delivery db d = Inr db' \<Longrightarrow> tables_ok db \<Longrightarrow> tables_ok db'"
  by (auto simp: insert_delivery_def tables_ok_def split: if_splits)

lemma deliveries_tables_ok: "fold_result insert_delivery db ds = Inr db' \<Longrightarrow> tables_ok db \<Longrightarrow> tables_ok db'"
  by (erule fold_result_invariant) (auto intro: insert_delivery_tables_ok)

lemma close_tables_ok: "close_incident incident dbnow db = Inr (n, db') \<Longrightarrow> tables_ok db \<Longrightarrow> tables_ok db'"
  by (auto simp: close_incident_def split: sum.splits dest: update_tables_ok)

lemma lease_tables_ok: "leaseDueAlerts db now lim leaseMs = Inr (rows, db') \<Longrightarrow> tables_ok db \<Longrightarrow> tables_ok db'"
  by (auto simp: leaseDueAlerts_def Let_def split: sum.splits if_splits dest: update_tables_ok)

lemma settle_tables_ok:
  assumes "settleAlert db k ds nx = Inr db'" and "tables_ok db"
  shows "tables_ok db'"
proof -
  obtain db1 where db1: "fold_result insert_delivery db ds = Inr db1"
      "update_rows (\<lambda>r. ob_outboxId r = k) (settle_row nx) db1 = Inr db'"
    using assms(1) by (auto simp: settleAlert_def split: sum.splits)
  show ?thesis
    by (rule update_tables_ok [OF db1(2) _ deliveries_tables_ok [OF db1(1) assms(2)]]) simp
qed

lemma acknowledge_tables_ok: "acknowledge_where P db by at = Inr (n, db') \<Longrightarrow> tables_ok db \<Longrightarrow> tables_ok db'"
  by (auto simp: acknowledge_where_def split: sum.splits dest: update_tables_ok)

lemma drain_rows_tables_ok: "drain_rows opts rows c sent db = (res, sent', db') \<Longrightarrow> tables_ok db \<Longrightarrow> tables_ok db'"
proof (induction opts rows c sent db rule: drain_rows.induct)
  case (2 opts row rows c sent db)
  from "2.prems" show ?case
    by (auto simp: Let_def split: if_splits sum.splits option.splits prod.splits
        dest: settle_tables_ok intro: "2.IH")
qed simp

lemma write_tables_ok: "write_row existing new db = Inr db' \<Longrightarrow> tables_ok db \<Longrightarrow> tables_ok db'"
  by (auto simp: write_row_def split: option.splits dest: insert_tables_ok update_tables_ok)

lemma fold_tables_ok: "foldAlert db incident dedup dbnow decide = Inr (res, db') \<Longrightarrow> tables_ok db \<Longrightarrow> tables_ok db'"
  by (auto simp: foldAlert_def Let_def split: sum.splits prod.splits option.splits if_splits
      dest: close_tables_ok write_tables_ok)

lemma raise_tables_ok: "raiseAlert sha f db s now dbnow = Inr (res, db') \<Longrightarrow> tables_ok db \<Longrightarrow> tables_ok db'"
  by (auto simp: raiseAlert_def Let_def split: sum.splits prod.splits dest: fold_tables_ok)

section \<open>Histories\<close>

text \<open>
  What the processes around the outbox do to it, one transaction at a time; a drain is also
  available as its parts, so that a crash or a rival between lease and settlement is a history too.
\<close>

datatype alert_op =
  ORaise alert_signal int int
| OAcknowledge string string int
| OTenantAcknowledge string string string int
| OLease int nat int
| OSettle string "delivery_record list" settle_next
| ODrain drain_options posted

definition rolled_back :: "outbox_db \<Rightarrow> outbox_error + ('a \<times> outbox_db) \<Rightarrow> outbox_db" where
  "rolled_back db res = (case res of Inl _ \<Rightarrow> db | Inr (_, db') \<Rightarrow> db')"

fun alert_apply :: "(string \<Rightarrow> string) \<Rightarrow> (string \<Rightarrow> string) \<Rightarrow> outbox_db \<Rightarrow> alert_op \<Rightarrow> outbox_db" where
  "alert_apply sha f db (ORaise s now dbnow) = rolled_back db (raiseAlert sha f db s now dbnow)"
| "alert_apply sha f db (OAcknowledge incident by at) = rolled_back db (acknowledgeAlert db incident by at)"
| "alert_apply sha f db (OTenantAcknowledge tenant incident by at) =
     rolled_back db (acknowledgeTenantAlert db tenant incident by at)"
| "alert_apply sha f db (OLease now lim leaseMs) = rolled_back db (leaseDueAlerts db now lim leaseMs)"
| "alert_apply sha f db (OSettle k ds nx) =
     (case settleAlert db k ds nx of Inl _ \<Rightarrow> db | Inr db' \<Rightarrow> db')"
| "alert_apply sha f db (ODrain opts sent) = snd (snd (drainOutbox opts sent db))"

definition alert_run :: "(string \<Rightarrow> string) \<Rightarrow> (string \<Rightarrow> string) \<Rightarrow> outbox_db \<Rightarrow> alert_op list \<Rightarrow> outbox_db" where
  "alert_run sha f db ops = foldl (alert_apply sha f) db ops"

lemma alert_run_simps [simp]:
  "alert_run sha f db [] = db" "alert_run sha f db (a # ops) = alert_run sha f (alert_apply sha f db a) ops"
  "alert_run sha f db (ops @ ops') = alert_run sha f (alert_run sha f db ops) ops'"
  by (simp_all add: alert_run_def)

lemma apply_tables_ok: "tables_ok db \<Longrightarrow> tables_ok (alert_apply sha f db a)"
proof (cases a)
  case (ODrain opts sent)
  assume ok: "tables_ok db"
  show ?thesis
  proof (cases "leaseDueAlerts db (do_now opts) (do_batchSize opts) (do_leaseMs opts)")
    case (Inr p)
    obtain rows db1 where p: "p = (rows, db1)" by (cases p)
    show ?thesis
      using drain_rows_tables_ok [OF _ lease_tables_ok [OF Inr [unfolded p] ok]]
      by (simp add: ODrain drainOutbox_def Inr p) (metis prod.collapse)
  qed (use ok ODrain in \<open>simp add: drainOutbox_def\<close>)
qed (auto simp: rolled_back_def acknowledgeAlert_def acknowledgeTenantAlert_def split: sum.splits
    dest: raise_tables_ok acknowledge_tables_ok lease_tables_ok settle_tables_ok)

lemma run_tables_ok: "tables_ok db \<Longrightarrow> tables_ok (alert_run sha f db ops)"
  by (induction ops arbitrary: db) (simp_all add: apply_tables_ok)

section \<open>One raise\<close>

lemma incident_rows_set: "set (incident_rows incident db) = {r \<in> set (od_rows db). is_open incident r}"
  by (simp add: incident_rows_def)

lemma find_in: "find P xs = Some x \<Longrightarrow> x \<in> set xs \<and> P x"
  by (induction xs) (auto split: if_splits)

lemma existing_Some:
  assumes "existing_row incident k db = Some r"
  shows "r \<in> set (od_rows db) \<and> ob_dedupKey r = k"
proof (cases "find (\<lambda>r. ob_dedupKey r = k) (incident_rows incident db)")
  case None
  then show ?thesis using assms find_in [of "\<lambda>r. ob_dedupKey r = k" "od_rows db" r]
    by (simp add: existing_row_def readByDedupKey_def)
next
  case (Some r')
  from find_in [OF this] have "r' \<in> set (od_rows db) \<and> ob_dedupKey r' = k" by (simp add: incident_rows_set)
  then show ?thesis using assms Some by (simp add: existing_row_def)
qed

lemma existing_None: "existing_row incident k db = None \<longleftrightarrow> k \<notin> ob_dedupKey ` set (od_rows db)"
proof
  assume "existing_row incident k db = None"
  then have "find (\<lambda>r. ob_dedupKey r = k) (od_rows db) = None"
    by (simp add: existing_row_def readByDedupKey_def split: option.splits)
  then show "k \<notin> ob_dedupKey ` set (od_rows db)" by (auto simp: find_None_iff)
next
  assume "k \<notin> ob_dedupKey ` set (od_rows db)"
  then show "existing_row incident k db = None"
    using existing_Some [of incident k db] by (cases "existing_row incident k db") auto
qed

lemma open_incident_Some: "open_incident incident db = Some r \<Longrightarrow> r \<in> set (od_rows db) \<and> is_open incident r"
proof -
  assume "open_incident incident db = Some r"
  then have "r \<in> set (incident_rows incident db)" by (auto simp: open_incident_def split: list.splits)
  then show ?thesis by (simp add: incident_rows_set)
qed

lemma open_incident_None: "open_incident incident db = None \<longleftrightarrow> (\<forall>r\<in>set (od_rows db). \<not> is_open incident r)"
proof -
  have "open_incident incident db = None \<longleftrightarrow> set (incident_rows incident db) = {}"
    by (auto simp: open_incident_def split: list.splits)
  then show ?thesis by (auto simp: incident_rows_set)
qed

abbreviation signal_key :: "(string \<Rightarrow> string) \<Rightarrow> alert_signal \<Rightarrow> string" where
  "signal_key sha s \<equiv> dedupKey sha (identityOf s)"

abbreviation signal_incident :: "(string \<Rightarrow> string) \<Rightarrow> alert_signal \<Rightarrow> string" where
  "signal_incident sha s \<equiv> incidentKey sha (sg_deploymentId s) (sg_ruleId s) (sg_reasonCode s)"

definition signal_before :: "(string \<Rightarrow> string) \<Rightarrow> outbox_db \<Rightarrow> alert_signal \<Rightarrow> alert_record option" where
  "signal_before sha db s =
     record_before (identityOf s) (existing_row (signal_incident sha s) (signal_key sha s) db)
       (open_incident (signal_incident sha s) db)"

definition signal_closed :: "(string \<Rightarrow> string) \<Rightarrow> outbox_db \<Rightarrow> alert_signal \<Rightarrow> int \<Rightarrow> int \<Rightarrow> outbox_error + (nat \<times> outbox_db)" where
  "signal_closed sha db s now dbnow =
     (if record_recovered (signal_before sha db s) s now \<noteq> None \<and> open_incident (signal_incident sha s) db \<noteq> None
      then close_incident (signal_incident sha s) dbnow db else Inr (0, db))"

text \<open>A raise writes nothing, or it may close the incident and writes the row of the signal.\<close>

lemma raise_silent:
  assumes "signal_before sha db s = None" and "\<not> isEscalation (sg_previousVerdict s) (sg_verdict s)"
  shows "raiseAlert sha f db s now dbnow = Inr (\<lparr>rr_dedupKey = signal_key sha s, rr_incidentKey = signal_incident sha s,
    rr_written = False, rr_created = False, rr_notified = False, rr_closedIncidentRows = 0\<rparr>, db)"
  using assms
  by (simp add: raiseAlert_def foldAlert_def raise_decide_def Let_def signal_before_def open_incident_def)

lemma open_incident_ne: "open_incident incident db \<noteq> None \<longleftrightarrow> incident_rows incident db \<noteq> []"
  by (cases "incident_rows incident db") (simp_all add: open_incident_def)

definition raise_result_of :: "(string \<Rightarrow> string) \<Rightarrow> outbox_db \<Rightarrow> alert_signal \<Rightarrow> int \<Rightarrow> nat \<Rightarrow> raise_result" where
  "raise_result_of sha db s now closed =
     \<lparr>rr_dedupKey = signal_key sha s, rr_incidentKey = signal_incident sha s, rr_written = True,
      rr_created = (existing_row (signal_incident sha s) (signal_key sha s) db = None),
      rr_notified = shouldNotify (signal_before sha db s) (record_after sha (signal_before sha db s) s now),
      rr_closedIncidentRows = closed\<rparr>"

definition raised_row :: "(string \<Rightarrow> string) \<Rightarrow> (string \<Rightarrow> string) \<Rightarrow> outbox_db \<Rightarrow> alert_signal \<Rightarrow> int \<Rightarrow> notification \<Rightarrow> outbox_row" where
  "raised_row sha f db s now payload =
     signal_row sha f s now (existing_row (signal_incident sha s) (signal_key sha s) db)
       (record_after sha (signal_before sha db s) s now)
       (shouldNotify (signal_before sha db s) (record_after sha (signal_before sha db s) s now)) payload"

lemma raise_eq:
  assumes "\<not> (signal_before sha db s = None \<and> \<not> isEscalation (sg_previousVerdict s) (sg_verdict s))"
  shows "raiseAlert sha f db s now dbnow =
    (case sanitize (signal_context sha s (record_after sha (signal_before sha db s) s now)) of
       Inl e \<Rightarrow> Inl (AlertRefused e)
     | Inr payload \<Rightarrow>
         (case signal_closed sha db s now dbnow of
            Inl e \<Rightarrow> Inl e
          | Inr (closed, db1) \<Rightarrow>
              (case write_row (existing_row (signal_incident sha s) (signal_key sha s) db)
                      (raised_row sha f db s now payload) db1 of
                 Inl e \<Rightarrow> Inl e
               | Inr db2 \<Rightarrow> Inr (raise_result_of sha db s now closed, db2))))"
proof -
  define existing where "existing = existing_row (signal_incident sha s) (signal_key sha s) db"
  define op where "op = open_incident (signal_incident sha s) db"
  have before: "signal_before sha db s = record_before (identityOf s) existing op"
    by (simp add: signal_before_def existing_def op_def)
  have op': "(case incident_rows (signal_incident sha s) db of [] \<Rightarrow> None | r # _ \<Rightarrow> Some r) = op"
    by (simp add: op_def open_incident_def)
  have ne: "incident_rows (signal_incident sha s) db \<noteq> [] \<longleftrightarrow> op \<noteq> None"
    unfolding op_def open_incident_ne ..
  have decide: "raise_decide sha f s now existing op =
      (case sanitize (signal_context sha s (record_after sha (signal_before sha db s) s now)) of
         Inl e \<Rightarrow> Inl (AlertRefused e)
       | Inr payload \<Rightarrow> Inr \<lparr>fd_row = Some (raised_row sha f db s now payload),
           fd_closeIncident = (record_recovered (signal_before sha db s) s now \<noteq> None)\<rparr>)"
    unfolding raise_decide_def Let_def raised_row_def existing_def [symmetric]
    unfolding raise_notifies_def Let_def before [symmetric] if_not_P [OF assms] ..
  have notifies: "raise_notifies sha s now existing op =
      shouldNotify (signal_before sha db s) (record_after sha (signal_before sha db s) s now)"
    by (simp add: raise_notifies_def before Let_def)
  have closed: "signal_closed sha db s now dbnow =
      (if record_recovered (signal_before sha db s) s now \<noteq> None \<and> op \<noteq> None
       then close_incident (signal_incident sha s) dbnow db else Inr (0, db))"
    by (simp add: signal_closed_def op_def)
  show ?thesis
    unfolding raiseAlert_def Let_def foldAlert_def existing_def [symmetric] op' decide ne
      op_def [symmetric] notifies raise_result_of_def closed
    by (cases "sanitize (signal_context sha s (record_after sha (signal_before sha db s) s now))")
      (simp_all split: sum.splits prod.splits)
qed

lemma raise_writes:
  assumes "\<not> (signal_before sha db s = None \<and> \<not> isEscalation (sg_previousVerdict s) (sg_verdict s))"
    and "raiseAlert sha f db s now dbnow = Inr (r, db')"
  obtains payload closed db1 where
    "sanitize (signal_context sha s (record_after sha (signal_before sha db s) s now)) = Inr payload"
    "signal_closed sha db s now dbnow = Inr (closed, db1)"
    "write_row (existing_row (signal_incident sha s) (signal_key sha s) db)
       (raised_row sha f db s now payload) db1 = Inr db'"
    "r = raise_result_of sha db s now closed"
  using assms(2) unfolding raise_eq [OF assms(1)]
  by (auto split: sum.splits prod.splits)

section \<open>Where a row comes from\<close>

text \<open>
  A row stands for one identity of \<open>I\<close>: its keys are the keys of that identity, its verdict is at
  least the one of the identity, and OK for an identity of OK, and the decoder reads its payload.
\<close>

definition row_of :: "(string \<Rightarrow> string) \<Rightarrow> (string \<Rightarrow> string) \<Rightarrow> alert_identity \<Rightarrow> outbox_row \<Rightarrow> bool" where
  "row_of sha f i r \<longleftrightarrow>
     identity_ok i \<and> ob_dedupKey r = dedupKey sha i
     \<and> ob_incidentKey r = incidentKey sha (ai_deploymentId i) (ai_ruleId i) (ai_reasonCode i)
     \<and> ob_outboxId r = f (dedupKey sha i)
     \<and> (case ob_verdictTo r of None \<Rightarrow> False
        | Some v \<Rightarrow> RANK (ai_to i) \<le> RANK v \<and> (ai_to i = OK \<longrightarrow> v = OK))
     \<and> (\<exists>p. decodeNotification (ob_payload r) = Inr (Some p))"

definition traced :: "(string \<Rightarrow> string) \<Rightarrow> (string \<Rightarrow> string) \<Rightarrow> alert_identity set \<Rightarrow> outbox_row \<Rightarrow> bool" where
  "traced sha f I r \<longleftrightarrow> (\<exists>i\<in>I. row_of sha f i r)"

lemma traced_mono: "traced sha f I r \<Longrightarrow> I \<subseteq> J \<Longrightarrow> traced sha f J r"
  by (auto simp: traced_def)

lemma traced_same:
  assumes "traced sha f I r"
    and "ob_dedupKey r' = ob_dedupKey r" "ob_incidentKey r' = ob_incidentKey r" "ob_outboxId r' = ob_outboxId r"
      "ob_verdictTo r' = ob_verdictTo r" "ob_payload r' = ob_payload r"
  shows "traced sha f I r'"
  using assms by (simp add: traced_def row_of_def)

interpretation tr: row_invariant "traced sha f I" for sha f I
  by unfold_locales
    (erule traced_same; simp add: close_row_def lease_row_def settle_row_def acknowledge_row_def)+

text \<open>What a raise records for a signal whose row exists, and for one that has none.\<close>

lemma observe_verdict_eq:
  "ar_currentVerdict (observe b i at) = (if RANK (ar_currentVerdict b) < RANK (ai_to i) then ai_to i else ar_currentVerdict b)"
  by (simp add: observe_def Let_def isEscalation_RANK)

lemma after_existing:
  assumes "row_of sha f (identityOf s) r"
  shows "record_recovered (Some (toRecord r (identityOf s))) s now = None"
    and "record_after sha (Some (toRecord r (identityOf s))) s now = observe (toRecord r (identityOf s)) (identityOf s) now"
    and "ar_currentVerdict (observe (toRecord r (identityOf s)) (identityOf s) now) = the (ob_verdictTo r)"
    and "\<not> shouldNotify (Some (toRecord r (identityOf s))) (observe (toRecord r (identityOf s)) (identityOf s) now)"
proof -
  obtain v where v: "ob_verdictTo r = Some v" "RANK (sg_verdict s) \<le> RANK v" "sg_verdict s = OK \<longrightarrow> v = OK"
    using assms by (auto simp: row_of_def identityOf_def split: option.splits)
  show none: "record_recovered (Some (toRecord r (identityOf s))) s now = None"
    using v by (auto simp: record_recovered_def recover_def isRecovery_iff toRecord_def)
  then show "record_after sha (Some (toRecord r (identityOf s))) s now = observe (toRecord r (identityOf s)) (identityOf s) now"
    by (simp add: record_after_def)
  show "ar_currentVerdict (observe (toRecord r (identityOf s)) (identityOf s) now) = the (ob_verdictTo r)"
    using v by (simp add: observe_verdict_eq toRecord_def identityOf_def)
  show "\<not> shouldNotify (Some (toRecord r (identityOf s))) (observe (toRecord r (identityOf s)) (identityOf s) now)"
    using v by (auto simp: shouldNotify_def observe_state toRecord_def identityOf_def)
qed

lemma after_new_verdict:
  assumes v_def: "v = ar_currentVerdict (record_after sha before s now)"
  shows "RANK (sg_verdict s) \<le> RANK v \<and> (sg_verdict s = OK \<longrightarrow> v = OK)"
proof (cases before)
  case None
  then show ?thesis
    by (simp add: v_def record_after_def record_recovered_def open_alert_def identityOf_def)
next
  case (Some b)
  show ?thesis
  proof (cases "recover b (sg_verdict s) now")
    case None
    with Some have v: "v = (if RANK (ar_currentVerdict b) < RANK (sg_verdict s) then sg_verdict s else ar_currentVerdict b)"
      by (simp add: v_def record_after_def record_recovered_def observe_verdict_eq identityOf_def)
    from None have "ar_currentVerdict b = OK \<or> sg_verdict s \<noteq> OK"
      by (auto simp: recover_def isRecovery_iff split: if_splits)
    with v show ?thesis by (cases "sg_verdict s"; cases "ar_currentVerdict b") simp_all
  next
    case (Some b')
    with \<open>before = Some b\<close> show ?thesis
      by (auto simp: v_def record_after_def record_recovered_def recover_def split: if_splits)
  qed
qed

lemma after_occurrences:
  "case before of None \<Rightarrow> ar_occurrences (record_after sha before s now) = 1
   | Some b \<Rightarrow> ar_occurrences (record_after sha before s now) \<in> {ar_occurrences b, ar_occurrences b + 1}"
  by (auto simp: record_after_def record_recovered_def recover_def open_alert_def split: option.splits if_splits)

lemma sanitized_identity:
  "sanitize (signal_context sha s rec) = Inr p \<Longrightarrow> identity_ok (identityOf s)"
  by (auto simp: sanitize_Inr signal_context_def identity_ok_def identityOf_def)

lemma row_of_signal:
  assumes "traced sha f I r" and "ob_dedupKey r = signal_key sha s" and "identity_ok (identityOf s)"
    and "inj_on sha (dedup_text ` insert (identityOf s) I)"
  shows "row_of sha f (identityOf s) r"
proof -
  obtain i where i: "i \<in> I" "row_of sha f i r" using assms(1) by (auto simp: traced_def)
  then have "sha (dedup_text i) = sha (dedup_text (identityOf s))"
    using assms(2) by (simp add: row_of_def dedupKey_text)
  then have "dedup_text i = dedup_text (identityOf s)"
    by (rule inj_onD [OF assms(4)]) (use i(1) in simp_all)
  then have "i = identityOf s"
    using dedup_text_inject [OF _ assms(3)] i(2) by (simp add: row_of_def)
  with i show ?thesis by simp
qed

lemma valid_occurrences: "row_violation r = None \<Longrightarrow> 1 \<le> ob_occurrences r \<and> safe_integer (ob_occurrences r)"
  by (auto simp: row_violation_def pg_integer_def safe_integer_def split: if_splits)

lemma raised_row_simps [simp]:
  "ob_dedupKey (raised_row sha f db s now p) = signal_key sha s"
  "ob_incidentKey (raised_row sha f db s now p) = signal_incident sha s"
  "ob_payload (raised_row sha f db s now p) = payload_json p"
  "ob_verdictTo (raised_row sha f db s now p) = Some (ar_currentVerdict (record_after sha (signal_before sha db s) s now))"
  "ob_occurrences (raised_row sha f db s now p) = ar_occurrences (record_after sha (signal_before sha db s) s now)"
  by (simp_all add: raised_row_def signal_row_def)

lemma overwrite_simps [simp]:
  "ob_dedupKey (overwrite_row new r) = ob_dedupKey r" "ob_incidentKey (overwrite_row new r) = ob_incidentKey r"
  "ob_outboxId (overwrite_row new r) = ob_outboxId r" "ob_payload (overwrite_row new r) = ob_payload new"
  "ob_verdictTo (overwrite_row new r) = ob_verdictTo new" "ob_occurrences (overwrite_row new r) = ob_occurrences new"
  by (simp_all add: overwrite_row_def)

lemma raised_decodes:
  assumes "sanitize (signal_context sha s (record_after sha (signal_before sha db s) s now)) = Inr p"
    and "row_violation r = None" and "ob_occurrences r = ob_occurrences (raised_row sha f db s now p)"
  shows "decodeNotification (payload_json p) = Inr (Some p)"
  using sanitized_decodes [OF assms(1)] valid_occurrences [OF assms(2)] assms(3)
  by (simp add: signal_context_def)

lemma raised_row_of:
  assumes "sanitize (signal_context sha s (record_after sha (signal_before sha db s) s now)) = Inr p"
    and "decodeNotification (payload_json p) = Inr (Some p)"
    and "existing_row (signal_incident sha s) (signal_key sha s) db = None"
  shows "row_of sha f (identityOf s) (raised_row sha f db s now p)"
  using sanitized_identity [OF assms(1)] after_new_verdict [OF refl, where sha = sha and before = "signal_before sha db s" and s = s and now = now] assms(2,3)
  by (simp add: row_of_def) (simp add: raised_row_def signal_row_def identityOf_def)

lemma closed_traced:
  "signal_closed sha db s now dbnow = Inr (n, db1) \<Longrightarrow> tr.all_ok sha f I db \<Longrightarrow> tr.all_ok sha f I db1"
  by (auto simp: signal_closed_def split: if_splits intro: tr.close_ok)

lemma raise_traced:
  assumes "raiseAlert sha f db s now dbnow = Inr (res, db')" and "tr.all_ok sha f I db"
    and "inj_on sha (dedup_text ` insert (identityOf s) I)"
  shows "tr.all_ok sha f (insert (identityOf s) I) db'"
proof (cases "signal_before sha db s = None \<and> \<not> isEscalation (sg_previousVerdict s) (sg_verdict s)")
  case True
  then have "db' = db" using raise_silent [of sha db s f now dbnow] assms(1) by simp
  then show ?thesis using assms(2) by (auto simp: tr.all_ok_def intro: traced_mono)
next
  case False
  obtain p n db1 where
    p: "sanitize (signal_context sha s (record_after sha (signal_before sha db s) s now)) = Inr p"
    and c: "signal_closed sha db s now dbnow = Inr (n, db1)"
    and w: "write_row (existing_row (signal_incident sha s) (signal_key sha s) db)
        (raised_row sha f db s now p) db1 = Inr db'" and "res = raise_result_of sha db s now n"
    by (rule raise_writes [OF False assms(1)])
  have ok1: "tr.all_ok sha f I db1" by (rule closed_traced [OF c assms(2)])
  show ?thesis
  proof (cases "existing_row (signal_incident sha s) (signal_key sha s) db")
    case None
    with w have i: "insert_row (raised_row sha f db s now p) db1 = Inr db'" by (simp add: write_row_def)
    from insert_row_Inr(2) [OF i] have "decodeNotification (payload_json p) = Inr (Some p)"
      by (rule raised_decodes [OF p]) simp
    from raised_row_of [OF p this None] have "traced sha f (insert (identityOf s) I) (raised_row sha f db s now p)"
      by (auto simp: traced_def)
    moreover have "od_rows db' = od_rows db1 @ [raised_row sha f db s now p]"
      using insert_row_Inr(1) [OF i] by simp
    ultimately show ?thesis using ok1 by (auto simp: tr.all_ok_def intro: traced_mono)
  next
    case (Some r0)
    have before: "signal_before sha db s = Some (toRecord r0 (identityOf s))"
      by (simp add: signal_before_def record_before_def Some)
    have r0: "row_of sha f (identityOf s) r0"
      using existing_Some [OF Some] assms(2) sanitized_identity [OF p]
      by (intro row_of_signal [OF _ _ _ assms(3)]) (auto simp: tr.all_ok_def)
    have verdict: "ar_currentVerdict (record_after sha (signal_before sha db s) s now) = the (ob_verdictTo r0)"
      unfolding before after_existing(2) [OF r0] by (rule after_existing(3) [OF r0])
    from Some w have u: "update_rows (\<lambda>r. ob_dedupKey r = signal_key sha s) (overwrite_row (raised_row sha f db s now p)) db1 = Inr db'"
      by (simp add: write_row_def)
    show ?thesis
      unfolding tr.all_ok_def
    proof
      fix r' assume "r' \<in> set (od_rows db')"
      then obtain r where r: "r \<in> set (od_rows db1)"
        "r' = (if ob_dedupKey r = signal_key sha s then overwrite_row (raised_row sha f db s now p) r else r)"
        using update_rows_Inr(1) [OF u] by auto
      from r(1) ok1 have tr: "traced sha f I r" by (simp add: tr.all_ok_def)
      show "traced sha f (insert (identityOf s) I) r'"
      proof (cases "ob_dedupKey r = signal_key sha s")
        case False
        with r tr show ?thesis by (auto intro: traced_mono)
      next
        case True
        have ri: "row_of sha f (identityOf s) r"
          by (rule row_of_signal [OF tr True sanitized_identity [OF p] assms(3)])
        have "row_violation (overwrite_row (raised_row sha f db s now p) r) = None"
          using update_rows_Inr(2) [OF u] r(1) True by blast
        then have "decodeNotification (payload_json p) = Inr (Some p)" by (rule raised_decodes [OF p]) simp
        with ri r0 have "row_of sha f (identityOf s) (overwrite_row (raised_row sha f db s now p) r)"
          by (auto simp: row_of_def verdict split: option.splits)
        with r(2) True show ?thesis by (auto simp: traced_def)
      qed
    qed
  qed
qed

section \<open>Whole histories\<close>

fun op_identities :: "alert_op \<Rightarrow> alert_identity set" where
  "op_identities (ORaise s now dbnow) = {identityOf s}"
| "op_identities _ = {}"

definition history_identities :: "alert_op list \<Rightarrow> alert_identity set" where
  "history_identities ops = \<Union> (op_identities ` set ops)"

lemma history_identities_simps [simp]:
  "history_identities [] = {}" "history_identities (a # ops) = op_identities a \<union> history_identities ops"
  "history_identities (ops @ ops') = history_identities ops \<union> history_identities ops'"
  by (simp_all add: history_identities_def)

lemma apply_traced:
  assumes "tr.all_ok sha f I db" and "inj_on sha (dedup_text ` (I \<union> op_identities a))"
  shows "tr.all_ok sha f (I \<union> op_identities a) (alert_apply sha f db a)"
proof (cases a)
  case (ORaise s now dbnow)
  show ?thesis
  proof (cases "raiseAlert sha f db s now dbnow")
    case (Inl e)
    with assms(1) ORaise show ?thesis
      by (auto simp: rolled_back_def tr.all_ok_def intro: traced_mono)
  next
    case (Inr p)
    obtain res db' where p: "p = (res, db')" by (cases p)
    from assms(2) ORaise have inj: "inj_on sha (dedup_text ` insert (identityOf s) I)" by simp
    show ?thesis
      using raise_traced [OF Inr [unfolded p] assms(1) inj] by (simp add: ORaise rolled_back_def Inr p)
  qed
next
  case (OAcknowledge incident who at)
  with assms(1) show ?thesis
    by (auto simp: rolled_back_def acknowledgeAlert_def split: sum.splits dest: tr.acknowledge_ok)
next
  case (OTenantAcknowledge tenant incident who at)
  with assms(1) show ?thesis
    by (auto simp: rolled_back_def acknowledgeTenantAlert_def split: sum.splits dest: tr.acknowledge_ok)
next
  case (OLease now lim leaseMs)
  with assms(1) show ?thesis
    by (auto simp: rolled_back_def split: sum.splits dest: tr.lease_ok)
next
  case (OSettle k ds nx)
  with assms(1) show ?thesis by (auto split: sum.splits dest: tr.settle_ok)
next
  case (ODrain opts sent)
  obtain res sent' db' where d: "drainOutbox opts sent db = (res, sent', db')"
    by (cases "drainOutbox opts sent db") auto
  show ?thesis using tr.drain_ok [OF d assms(1)] ODrain d by simp
qed

lemma run_traced:
  "tr.all_ok sha f I db \<Longrightarrow> inj_on sha (dedup_text ` (I \<union> history_identities ops)) \<Longrightarrow>
     tr.all_ok sha f (I \<union> history_identities ops) (alert_run sha f db ops)"
proof (induction ops arbitrary: I db)
  case (Cons a ops)
  have "inj_on sha (dedup_text ` (I \<union> op_identities a))"
    using Cons.prems(2) by (rule inj_on_subset) auto
  from apply_traced [OF Cons.prems(1) this]
  have "tr.all_ok sha f ((I \<union> op_identities a) \<union> history_identities ops) (alert_run sha f (alert_apply sha f db a) ops)"
    by (rule Cons.IH) (use Cons.prems(2) in \<open>simp add: Un_assoc\<close>)
  then show ?case by (simp add: Un_assoc)
qed simp

text \<open>Rows are never removed.\<close>

definition keys_of :: "outbox_db \<Rightarrow> string set" where
  "keys_of db = ob_dedupKey ` set (od_rows db)"

lemma update_keys_of: "update_rows P f db = Inr db' \<Longrightarrow> keeps_keys f \<Longrightarrow> keys_of db' = keys_of db"
  using update_rows_keys(2) [of P f db db'] by (metis keys_of_def list.set_map)

lemma insert_keys_of: "insert_row r db = Inr db' \<Longrightarrow> keys_of db' = insert (ob_dedupKey r) (keys_of db)"
  using insert_row_Inr(1) [of r db db'] by (simp add: keys_of_def)

lemma settle_keys_of:
  assumes "settleAlert db k ds nx = Inr db'"
  shows "keys_of db' = keys_of db"
proof -
  obtain db1 where db1: "fold_result insert_delivery db ds = Inr db1"
      "update_rows (\<lambda>r. ob_outboxId r = k) (settle_row nx) db1 = Inr db'"
    using assms by (auto simp: settleAlert_def split: sum.splits)
  from tr.deliveries_rows [OF db1(1)] update_keys_of [OF db1(2)] show ?thesis by (simp add: keys_of_def)
qed

lemma lease_keys_of: "leaseDueAlerts db now lim leaseMs = Inr (rows, db') \<Longrightarrow> keys_of db' = keys_of db"
  by (auto simp: leaseDueAlerts_def Let_def split: sum.splits if_splits dest: update_keys_of)

lemma drain_rows_keys_of: "drain_rows opts rows c sent db = (res, sent', db') \<Longrightarrow> keys_of db' = keys_of db"
proof (induction opts rows c sent db rule: drain_rows.induct)
  case (2 opts row rows c sent db)
  from "2.prems" show ?case
    by (auto simp: Let_def settle_keys_of split: if_splits sum.splits option.splits prod.splits dest: "2.IH")
qed simp

lemma closed_keys_of: "signal_closed sha db s now dbnow = Inr (n, db1) \<Longrightarrow> keys_of db1 = keys_of db"
  by (auto simp: signal_closed_def close_incident_def split: if_splits sum.splits dest: update_keys_of)

lemma raise_keys_of:
  assumes "raiseAlert sha f db s now dbnow = Inr (res, db')"
  shows "keys_of db' = (if rr_written res then insert (signal_key sha s) (keys_of db) else keys_of db)"
proof (cases "signal_before sha db s = None \<and> \<not> isEscalation (sg_previousVerdict s) (sg_verdict s)")
  case True
  then show ?thesis using raise_silent [of sha db s f now dbnow] assms by auto
next
  case False
  obtain p n db1 where "sanitize (signal_context sha s (record_after sha (signal_before sha db s) s now)) = Inr p"
    and c: "signal_closed sha db s now dbnow = Inr (n, db1)"
    and w: "write_row (existing_row (signal_incident sha s) (signal_key sha s) db)
        (raised_row sha f db s now p) db1 = Inr db'" and r: "res = raise_result_of sha db s now n"
    by (rule raise_writes [OF False assms])
  show ?thesis
  proof (cases "existing_row (signal_incident sha s) (signal_key sha s) db")
    case None
    with w r closed_keys_of [OF c] show ?thesis
      by (simp add: write_row_def raise_result_of_def insert_keys_of)
  next
    case (Some r0)
    from existing_Some [OF Some] have "signal_key sha s \<in> keys_of db"
      unfolding keys_of_def by (metis image_eqI)
    moreover from Some w have "keys_of db' = keys_of db1" by (auto simp: write_row_def dest: update_keys_of)
    ultimately show ?thesis using r closed_keys_of [OF c] by (auto simp: raise_result_of_def)
  qed
qed

lemma apply_keys_of: "keys_of db \<subseteq> keys_of (alert_apply sha f db a)"
proof (cases a)
  case (ODrain opts sent)
  show ?thesis
  proof (cases "leaseDueAlerts db (do_now opts) (do_batchSize opts) (do_leaseMs opts)")
    case (Inr p)
    obtain rows db1 where p: "p = (rows, db1)" by (cases p)
    show ?thesis
      using drain_rows_keys_of lease_keys_of [OF Inr [unfolded p]]
      by (simp add: ODrain drainOutbox_def Inr p) (metis order_refl prod.collapse)
  qed (use ODrain in \<open>simp add: drainOutbox_def\<close>)
qed (auto simp: rolled_back_def acknowledgeAlert_def acknowledgeTenantAlert_def acknowledge_where_def raise_keys_of
    lease_keys_of settle_keys_of split: sum.splits dest: update_keys_of)

lemma run_keys_of: "keys_of db \<subseteq> keys_of (alert_run sha f db ops)"
proof (induction ops arbitrary: db)
  case (Cons a ops)
  have "keys_of db \<subseteq> keys_of (alert_apply sha f db a)" by (rule apply_keys_of)
  also have "\<dots> \<subseteq> keys_of (alert_run sha f (alert_apply sha f db a) ops)" by (rule Cons.IH)
  finally show ?case by simp
qed simp

definition empty_tables :: "string list \<Rightarrow> string list \<Rightarrow> (string \<times> string) list \<Rightarrow> outbox_db" where
  "empty_tables deployments evaluations tenants =
     \<lparr>od_rows = [], od_deliveries = [], od_deployments = deployments, od_evaluations = evaluations,
      od_tenants = tenants\<rparr>"

lemma empty_tables_ok [simp]: "tables_ok (empty_tables ds es ts)" "tr.all_ok sha f I (empty_tables ds es ts)"
  by (simp_all add: tables_ok_def tr.all_ok_def empty_tables_def)

text \<open>A signal whose row is there adds nothing but a count.\<close>

lemma raise_again:
  assumes "raiseAlert sha f db s now dbnow = Inr (res, db')" and "tr.all_ok sha f I db"
    and "inj_on sha (dedup_text ` insert (identityOf s) I)" and "signal_key sha s \<in> keys_of db"
  shows "rr_written res \<and> \<not> rr_notified res \<and> \<not> rr_created res \<and> rr_closedIncidentRows res = 0"
proof -
  have "existing_row (signal_incident sha s) (signal_key sha s) db \<noteq> None"
    using assms(4) by (simp add: existing_None keys_of_def del: not_None_eq)
  then obtain r0 where r0: "existing_row (signal_incident sha s) (signal_key sha s) db = Some r0" by blast
  have before: "signal_before sha db s = Some (toRecord r0 (identityOf s))"
    by (simp add: signal_before_def record_before_def r0)
  then have w: "\<not> (signal_before sha db s = None \<and> \<not> isEscalation (sg_previousVerdict s) (sg_verdict s))" by simp
  obtain p n db1 where p: "sanitize (signal_context sha s (record_after sha (signal_before sha db s) s now)) = Inr p"
    and c: "signal_closed sha db s now dbnow = Inr (n, db1)"
    and "write_row (existing_row (signal_incident sha s) (signal_key sha s) db)
        (raised_row sha f db s now p) db1 = Inr db'" and res: "res = raise_result_of sha db s now n"
    by (rule raise_writes [OF w assms(1)])
  have ri: "row_of sha f (identityOf s) r0"
    using existing_Some [OF r0] assms(2) sanitized_identity [OF p]
    by (intro row_of_signal [OF _ _ _ assms(3)]) (auto simp: tr.all_ok_def)
  from c have "n = 0" by (simp add: signal_closed_def before after_existing(1) [OF ri])
  with res show ?thesis
    by (simp add: raise_result_of_def before after_existing(2,4) [OF ri] r0)
qed

text \<open>
  C34. A signal pages at most once. Once a raise has written the row of a signal, any later raise of
  the same identity (deployment, rule, reason, transition and evidence) that goes through writes the
  same row again and neither pages, nor opens a second row, nor closes an incident; whatever raises,
  acknowledgements, leases, settlements, drains and crashes came before and in between. SHA-256 is
  taken not to collide on the texts of the history.
\<close>

theorem signal_pages_once:
  assumes "inj_on sha (dedup_text ` history_identities (earlier @ ORaise s now dbnow # later))"
    and "raiseAlert sha f (alert_run sha f (empty_tables ds es ts) earlier) s now dbnow = Inr (first, db1)"
    and "rr_written first"
    and "identityOf s2 = identityOf s"
    and "raiseAlert sha f (alert_run sha f db1 later) s2 now2 dbnow2 = Inr (second, db2)"
  shows "rr_written second \<and> \<not> rr_notified second \<and> \<not> rr_created second \<and> rr_closedIncidentRows second = 0"
proof -
  define I where "I = history_identities (earlier @ ORaise s now dbnow # later)"
  have inj: "inj_on sha (dedup_text ` ({} \<union> I))" using assms(1) by (simp add: I_def)
  have run: "alert_run sha f (empty_tables ds es ts) (earlier @ ORaise s now dbnow # later) = alert_run sha f db1 later"
    by (simp add: assms(2) rolled_back_def)
  have "tr.all_ok sha f ({} \<union> I) (alert_run sha f (empty_tables ds es ts) (earlier @ ORaise s now dbnow # later))"
    unfolding I_def by (rule run_traced [OF empty_tables_ok(2) inj [unfolded I_def]])
  then have ok: "tr.all_ok sha f I (alert_run sha f db1 later)" by (simp only: run Un_empty_left)
  have "signal_key sha s \<in> keys_of db1" using raise_keys_of [OF assms(2)] assms(3) by simp
  then have "signal_key sha s2 \<in> keys_of (alert_run sha f db1 later)"
    using run_keys_of [of db1 sha f later] assms(4) by auto
  moreover have "insert (identityOf s2) I = I" by (auto simp: I_def assms(4))
  ultimately show ?thesis
    using raise_again [OF assms(5) ok] inj by simp
qed

text \<open>
  Recovery. When a signal of verdict OK finds an open incident whose latest verdict is not OK,
  and the transition has no row yet, the raise closes every open row of the incident, cancels those
  still queued, and queues one recovery notification.
\<close>

theorem recovery_closes_incident:
  assumes "raiseAlert sha f db s now dbnow = Inr (res, db')" and "sg_verdict s = OK"
    and "open_incident (signal_incident sha s) db = Some r" and "ob_verdictTo r = Some v" and "v \<noteq> OK"
    and "signal_key sha s \<notin> ob_dedupKey ` set (od_rows db)"
  shows "rr_notified res \<and> rr_created res
    \<and> rr_closedIncidentRows res = length (filter (is_open (signal_incident sha s)) (od_rows db))
    \<and> (\<exists>new. od_rows db' = map (\<lambda>r. if is_open (signal_incident sha s) r then close_row dbnow r else r) (od_rows db) @ [new]
           \<and> ob_status new = SPending \<and> ob_state new = Recovered \<and> ob_verdictTo new = Some OK)
    \<and> \<not> (\<exists>r\<in>set (od_rows db'). is_open (signal_incident sha s) r)"
proof -
  have none: "existing_row (signal_incident sha s) (signal_key sha s) db = None"
    using assms(6) by (simp add: existing_None)
  define b where "b = toRecord r (identityOf s)"
  have before: "signal_before sha db s = Some b"
    by (simp add: signal_before_def record_before_def none assms(3) b_def)
  then have w: "\<not> (signal_before sha db s = None \<and> \<not> isEscalation (sg_previousVerdict s) (sg_verdict s))" by simp
  have rb: "ar_state b \<noteq> Recovered" "ar_currentVerdict b = v"
    using open_incident_Some [OF assms(3)] assms(4) by (simp_all add: b_def toRecord_def is_open_def)
  define a where "a = b\<lparr>ar_state := Recovered, ar_currentVerdict := OK, ar_lastSeenAt := now, ar_recoveredAt := Some now\<rparr>"
  have rec: "record_recovered (Some b) s now = Some a"
    using assms(2,5) rb by (simp add: record_recovered_def recover_def isRecovery_iff a_def)
  have after: "record_after sha (Some b) s now = a" by (simp add: record_after_def rec)
  have pages: "shouldNotify (Some b) a" using rb by (simp add: shouldNotify_def a_def)
  obtain p n db1 where "sanitize (signal_context sha s (record_after sha (signal_before sha db s) s now)) = Inr p"
    and c: "signal_closed sha db s now dbnow = Inr (n, db1)"
    and wr: "write_row (existing_row (signal_incident sha s) (signal_key sha s) db)
        (raised_row sha f db s now p) db1 = Inr db'" and res: "res = raise_result_of sha db s now n"
    by (rule raise_writes [OF w assms(1)])
  from c have c': "close_incident (signal_incident sha s) dbnow db = Inr (n, db1)"
    by (simp add: signal_closed_def before rec assms(3))
  then have n: "n = length (filter (is_open (signal_incident sha s)) (od_rows db))"
    and u: "update_rows (is_open (signal_incident sha s)) (close_row dbnow) db = Inr db1"
    by (auto simp: close_incident_def split: sum.splits)
  have rows1: "od_rows db1 = map (\<lambda>r. if is_open (signal_incident sha s) r then close_row dbnow r else r) (od_rows db)"
    using update_rows_Inr(1) [OF u] by simp
  have "insert_row (raised_row sha f db s now p) db1 = Inr db'" using wr none by (simp add: write_row_def)
  from insert_row_Inr(1) [OF this] have rows: "od_rows db' = od_rows db1 @ [raised_row sha f db s now p]" by simp
  have new: "ob_status (raised_row sha f db s now p) = SPending" "ob_state (raised_row sha f db s now p) = Recovered"
    "ob_verdictTo (raised_row sha f db s now p) = Some OK"
    by (simp_all add: raised_row_def signal_row_def before after pages) (simp_all add: a_def)
  have closed: "\<not> is_open (signal_incident sha s) (close_row dbnow r)" for r
    by (simp add: is_open_def close_row_def)
  have "rr_notified res" "rr_created res" using res pages none by (simp_all add: raise_result_of_def before after)
  moreover have "rr_closedIncidentRows res = length (filter (is_open (signal_incident sha s)) (od_rows db))"
    by (simp add: res raise_result_of_def n)
  moreover have "\<exists>new. od_rows db' =
        map (\<lambda>r. if is_open (signal_incident sha s) r then close_row dbnow r else r) (od_rows db) @ [new]
      \<and> ob_status new = SPending \<and> ob_state new = Recovered \<and> ob_verdictTo new = Some OK"
    by (intro exI conjI) (rule rows [unfolded rows1], rule new(1), rule new(2), rule new(3))
  moreover have "\<not> is_open (signal_incident sha s) r'" if r': "r' \<in> set (od_rows db')" for r'
  proof (cases "r' = raised_row sha f db s now p")
    case True
    then show ?thesis using new(2) by (simp add: is_open_def)
  next
    case False
    with r' obtain q where "q \<in> set (od_rows db)"
      "r' = (if is_open (signal_incident sha s) q then close_row dbnow q else q)"
      unfolding rows rows1 by auto
    then show ?thesis using closed by (cases "is_open (signal_incident sha s) q") simp_all
  qed
  ultimately show ?thesis by blast
qed

text \<open>
  Silence. A signal that is not worse than the verdict before it, in an incident without an open
  row and with a transition never recorded, writes nothing. The incident is keyed by the reason code,
  so this is also what happens to a recovery whose reason code is not the one the incident was
  opened under: it does not close that incident.
\<close>

theorem recovery_under_another_reason_is_silent:
  assumes "\<not> isEscalation (sg_previousVerdict s) (sg_verdict s)"
    and "signal_key sha s \<notin> ob_dedupKey ` set (od_rows db)"
    and "list_all (\<lambda>r. ob_incidentKey r \<noteq> signal_incident sha s) (od_rows db)"
  shows "case raiseAlert sha f db s now dbnow of Inl _ \<Rightarrow> False
    | Inr (res, db') \<Rightarrow> db' = db \<and> \<not> rr_written res \<and> \<not> rr_notified res \<and> rr_closedIncidentRows res = 0"
proof -
  have "existing_row (signal_incident sha s) (signal_key sha s) db = None"
    using assms(2) by (simp add: existing_None)
  moreover have "open_incident (signal_incident sha s) db = None"
    using assms(3) by (auto simp: open_incident_None is_open_def list_all_iff)
  ultimately have "signal_before sha db s = None" by (simp add: signal_before_def record_before_def)
  from raise_silent [OF this assms(1)] show ?thesis by simp
qed

section \<open>Draining\<close>

definition drainable :: "outbox_db \<Rightarrow> outbox_row \<Rightarrow> bool" where
  "drainable db row \<longleftrightarrow>
     (\<exists>p. decodeNotification (ob_payload row) = Inr (Some p)) \<and> ob_outboxId row \<in> ob_outboxId ` set (od_rows db)
     \<and> 0 \<le> ob_attempts row \<and> pg_integer (ob_attempts row)"

lemma deliveries_total:
  assumes "list_all (\<lambda>d. dl_outcome d \<noteq> Skipped \<and> dl_outboxId d \<in> ob_outboxId ` set (od_rows db)) ds"
  shows "\<exists>db'. fold_result insert_delivery db ds = Inr db' \<and> od_rows db' = od_rows db"
  by (rule fold_result_total [where P = "\<lambda>d. od_rows d = od_rows db"])
    (use assms in \<open>auto simp: insert_delivery_def list_all_iff\<close>)

lemma settle_total:
  assumes "tables_ok db" and "list_all (\<lambda>d. dl_outcome d \<noteq> Skipped \<and> dl_outboxId d \<in> ob_outboxId ` set (od_rows db)) ds"
    and "0 \<le> sn_attempts nx" and "pg_integer (sn_attempts nx)"
  shows "\<exists>db'. settleAlert db k ds nx = Inr db'
    \<and> od_rows db' = map (\<lambda>r. if ob_outboxId r = k then settle_row nx r else r) (od_rows db)"
proof -
  obtain db1 where db1: "fold_result insert_delivery db ds = Inr db1" "od_rows db1 = od_rows db"
    using deliveries_total [OF assms(2)] by blast
  have "row_violation (settle_row nx r) = None" if "r \<in> set (od_rows db1)" for r
  proof -
    have "row_violation r = None" using assms(1) that db1(2) by (simp add: tables_ok_def)
    then show ?thesis using assms(3,4) by (auto simp: row_violation_def settle_row_def split: if_splits)
  qed
  then have "update_rows (\<lambda>r. ob_outboxId r = k) (settle_row nx) db1
      = Inr (db1\<lparr>od_rows := map (\<lambda>r. if ob_outboxId r = k then settle_row nx r else r) (od_rows db1)\<rparr>)"
    by (intro update_rows_total) auto
  with db1 show ?thesis by (simp add: settleAlert_def)
qed

lemma report_delivery_ok:
  "ob_outboxId row \<in> ids \<Longrightarrow>
     list_all (\<lambda>d. dl_outcome d \<noteq> Skipped \<and> dl_outboxId d \<in> ids) (concat (map (report_delivery opts row) reports))"
  by (auto simp: list_all_iff report_delivery_def)

lemma settled_ids:
  assumes "od_rows db' = map (\<lambda>r. if ob_outboxId r = k then settle_row nx r else r) (od_rows db)"
  shows "ob_outboxId ` set (od_rows db') = ob_outboxId ` set (od_rows db)"
proof -
  have "map ob_outboxId (od_rows db') = map ob_outboxId (od_rows db)" by (simp add: assms settle_row_def)
  then have "set (map ob_outboxId (od_rows db')) = set (map ob_outboxId (od_rows db))" by (rule arg_cong)
  then show ?thesis by simp
qed

lemma count_settled_undecodable [simp]: "dn_undecodable (count_settled reports st c) = dn_undecodable c"
  by (simp add: count_settled_def)

text \<open>One row of the drain: it is settled, and nothing else changes.\<close>

lemma drain_row_step:
  assumes "tables_ok db" and "drainable db row" and "\<not> do_aborted opts sent"
  obtains reports db1 sent1 where
    "drain_rows opts (row # rows) c sent db =
       drain_rows opts rows (count_settled reports (settled_status opts row reports) c) sent1 db1"
    "tables_ok db1"
    "od_rows db1 = map (\<lambda>r. if ob_outboxId r = ob_outboxId row
       then settle_row \<lparr>sn_status = settled_status opts row reports, sn_attempts = ob_attempts row,
              sn_nextAttemptAt = backoff opts row\<rparr> r else r) (od_rows db)"
proof -
  obtain p where p: "decodeNotification (ob_payload row) = Inr (Some p)"
    using assms(2) by (auto simp: drainable_def)
  obtain oc sent1 where d: "dispatch (do_parse_url opts) (do_transport opts) (np_severity p) (do_targets opts)
      (do_resolve opts) p sent = (oc, sent1)" by fastforce
  define reports where "reports = dx_reports oc"
  define ds where "ds = concat (map (report_delivery opts row) reports)"
  define nx where "nx = \<lparr>sn_status = settled_status opts row reports, sn_attempts = ob_attempts row,
    sn_nextAttemptAt = backoff opts row\<rparr>"
  have "list_all (\<lambda>d. dl_outcome d \<noteq> Skipped \<and> dl_outboxId d \<in> ob_outboxId ` set (od_rows db)) ds"
    using assms(2) unfolding ds_def by (intro report_delivery_ok) (simp add: drainable_def)
  then have "\<exists>db1. settleAlert db (ob_outboxId row) ds nx = Inr db1
      \<and> od_rows db1 = map (\<lambda>r. if ob_outboxId r = ob_outboxId row then settle_row nx r else r) (od_rows db)"
    using assms(2) by (intro settle_total [OF assms(1)]) (simp_all add: nx_def drainable_def)
  then obtain db1 where db1: "settleAlert db (ob_outboxId row) ds nx = Inr db1"
      "od_rows db1 = map (\<lambda>r. if ob_outboxId r = ob_outboxId row then settle_row nx r else r) (od_rows db)" by blast
  show thesis
  proof (rule that [of reports sent1 db1])
    show "drain_rows opts (row # rows) c sent db =
        drain_rows opts rows (count_settled reports (settled_status opts row reports) c) sent1 db1"
      using db1(1) assms(3) by (simp add: p d Let_def reports_def ds_def nx_def)
    show "tables_ok db1" by (rule settle_tables_ok [OF db1(1) assms(1)])
  qed (use db1(2) in \<open>simp add: nx_def\<close>)
qed

lemma leased_drainable:
  assumes "leaseDueAlerts db now lim leaseMs = Inr (rows, db1)" and "tables_ok db" and "tr.all_ok sha f I db"
  shows "list_all (drainable db1) rows"
proof (cases "due_rows db now lim = []")
  case True
  with assms(1) show ?thesis by (simp add: leaseDueAlerts_def Let_def)
next
  case False
  define leased where "leased = map (\<lambda>r. r\<lparr>ob_attempts := ob_attempts r + 1\<rparr>) (due_rows db now lim)"
  have rows: "rows = leased"
    and u: "update_rows (\<lambda>r. ob_outboxId r \<in> ob_outboxId ` set leased) (lease_row (now + leaseMs)) db = Inr db1"
    using assms(1) False by (auto simp: leaseDueAlerts_def Let_def leased_def split: sum.splits)
  show ?thesis
    unfolding list_all_iff rows
  proof
    fix row assume row: "row \<in> set leased"
    then obtain r where r: "r \<in> set (due_rows db now lim)" "row = r\<lparr>ob_attempts := ob_attempts r + 1\<rparr>"
      by (auto simp: leased_def)
    have rdb: "r \<in> set (od_rows db)" using in_set_takeD [OF r(1) [unfolded due_rows_def]] by simp
    then have dec: "\<exists>p. decodeNotification (ob_payload r) = Inr (Some p)"
      using assms(3) by (auto simp: tr.all_ok_def traced_def row_of_def)
    have "ob_outboxId r = ob_outboxId row" by (simp add: r(2))
    with row have id: "ob_outboxId r \<in> ob_outboxId ` set leased" by (metis image_eqI)
    have "row_violation (lease_row (now + leaseMs) r) = None" using update_rows_Inr(2) [OF u] rdb id by blast
    then have "0 \<le> ob_attempts r + 1" "pg_integer (ob_attempts r + 1)"
      by (auto simp: row_violation_def lease_row_def split: if_splits)
    moreover have "ob_outboxId ` set (od_rows db1) = ob_outboxId ` set (od_rows db)"
      using arg_cong [OF update_rows_keys(1) [OF u], of set] by simp
    ultimately show "drainable db1 row" using dec rdb by (auto simp: drainable_def r(2))
  qed
qed

text \<open>What a record keeps of the constraints on acknowledgement and recovery.\<close>

definition record_consistent :: "alert_record \<Rightarrow> bool" where
  "record_consistent r \<longleftrightarrow> (ar_acknowledgedBy r = None) = (ar_acknowledgedAt r = None)
     \<and> (ar_state r = Recovered) = (ar_recoveredAt r \<noteq> None)"

lemma toRecord_consistent: "row_violation r = None \<Longrightarrow> record_consistent (toRecord r i)"
  by (auto simp: row_violation_def record_consistent_def toRecord_def split: if_splits)

lemma recover_consistent: "recover b v at = Some b' \<Longrightarrow> record_consistent b \<Longrightarrow> record_consistent b'"
  by (auto simp: recover_def record_consistent_def split: if_splits)

lemma observe_consistent:
  "record_consistent b \<Longrightarrow> ar_state b \<noteq> Recovered \<or> \<not> RANK (ar_currentVerdict b) < RANK (ai_to i) \<Longrightarrow>
     record_consistent (observe b i at)"
  by (auto simp: observe_def Let_def isEscalation_RANK record_consistent_def)

lemma after_consistent:
  assumes "case before of None \<Rightarrow> True | Some b \<Rightarrow> record_consistent b
      \<and> (ar_state b \<noteq> Recovered \<or> \<not> RANK (ar_currentVerdict b) < RANK (sg_verdict s))"
  shows "record_consistent (record_after sha before s now)"
proof (cases before)
  case None
  then show ?thesis by (simp add: record_after_def record_recovered_def open_alert_def record_consistent_def)
next
  case (Some b)
  with assms have b: "record_consistent b" "ar_state b \<noteq> Recovered \<or> \<not> RANK (ar_currentVerdict b) < RANK (sg_verdict s)"
    by simp_all
  show ?thesis
  proof (cases "recover b (sg_verdict s) now")
    case None
    with Some observe_consistent [OF b(1), of "identityOf s" now] b(2) show ?thesis
      by (simp add: record_after_def record_recovered_def identityOf_def)
  next
    case (Some b')
    with recover_consistent [OF this b(1)] \<open>before = Some b\<close> show ?thesis
      by (simp add: record_after_def record_recovered_def)
  qed
qed

text \<open>The row of a signal breaks no constraint, unless a counter is at the end of its column.\<close>

lemma signal_row_violation:
  assumes "record_consistent rec" and "hex64 (sg_evidenceHash s)" and "\<And>t. hex64 (sha t)"
    and "1 \<le> ar_occurrences rec" and "case existing of None \<Rightarrow> True | Some r \<Rightarrow> 0 \<le> ob_attempts r \<and> pg_integer (ob_attempts r)"
    and "row_violation (signal_row sha f s now existing rec notify p) = Some c"
  shows "c = ''integer out of range'' \<and> \<not> pg_integer (ar_occurrences rec)"
  using assms
  by (auto simp: row_violation_def signal_row_def record_consistent_def incidentKey_def pg_integer_def
      split: if_splits option.splits)

lemma overwrite_signal_violation:
  assumes "record_consistent rec" and "hex64 (sg_evidenceHash s)" and "row_violation r = None"
    and "1 \<le> ar_occurrences rec"
    and "row_violation (overwrite_row (signal_row sha f s now (Some r) rec notify p) r) = Some c"
  shows "c = ''integer out of range'' \<and> \<not> pg_integer (ar_occurrences rec)"
  using assms
  by (auto simp: row_violation_def signal_row_def overwrite_row_def record_consistent_def pg_integer_def
      split: if_splits option.splits)

lemma close_never_violates: "row_violation r = None \<Longrightarrow> row_violation (close_row dbnow r) = None"
  by (auto simp: row_violation_def close_row_def split: if_splits option.splits)

lemma close_incident_total: "tables_ok db \<Longrightarrow> \<exists>n db'. close_incident incident dbnow db = Inr (n, db')"
  using update_rows_total [of db "is_open incident" "close_row dbnow"]
  by (simp add: close_incident_def tables_ok_def close_never_violates)

lemma acknowledge_total:
  assumes "tables_ok db" and "\<And>r. P r \<Longrightarrow> ob_state r \<noteq> Recovered"
  shows "\<exists>n db'. acknowledge_where P db by at = Inr (n, db')"
proof -
  have "row_violation (acknowledge_row by at r) = None" if "r \<in> set (od_rows db)" "P r" for r
  proof -
    have "row_violation r = None" "ob_state r \<noteq> Recovered" using assms that by (auto simp: tables_ok_def)
    then show ?thesis by (auto simp: row_violation_def acknowledge_row_def split: if_splits)
  qed
  then show ?thesis using update_rows_total [of db P "acknowledge_row by at"] by (simp add: acknowledge_where_def)
qed

lemma lease_overflow:
  assumes "tables_ok db" and "leaseDueAlerts db now lim leaseMs = Inl e"
  shows "e = DbConstraint ''integer out of range''"
proof -
  obtain P where "update_rows P (lease_row (now + leaseMs)) db = Inl e"
    using assms(2) by (auto simp: leaseDueAlerts_def Let_def split: sum.splits if_splits)
  then obtain r c where r: "r \<in> set (od_rows db)" "row_violation (lease_row (now + leaseMs) r) = Some c" "e = DbConstraint c"
    using update_rows_Inl by blast
  have "row_violation r = None" using assms(1) r(1) by (simp add: tables_ok_def)
  then show ?thesis using r(2,3) by (auto simp: row_violation_def lease_row_def split: if_splits)
qed

text \<open>
  Where a raise fails at the tables: a counter is at its end, or the row is new and its outbox id is taken or a
  key of it refers to no row.
\<close>

definition raise_blocked :: "(string \<Rightarrow> string) \<Rightarrow> (string \<Rightarrow> string) \<Rightarrow> outbox_db \<Rightarrow> alert_signal \<Rightarrow> string \<Rightarrow> bool" where
  "raise_blocked sha f db s c \<longleftrightarrow>
     c = ''integer out of range'' \<and> (\<exists>r \<in> set (od_rows db). ob_occurrences r = 2147483647)
     \<or> signal_key sha s \<notin> ob_dedupKey ` set (od_rows db)
       \<and> (c = ''alert_outbox_pkey'' \<and> f (signal_key sha s) \<in> ob_outboxId ` set (od_rows db)
         \<or> c = ''alert_outbox_deployment_id_fkey'' \<and> sg_deploymentId s \<notin> set (od_deployments db)
         \<or> c = ''alert_outbox_evaluation_id_fkey'' \<and> (\<exists>e. sg_evaluationId s = Some e \<and> e \<notin> set (od_evaluations db)))"

lemma raise_violation:
  assumes ok: "tables_ok db" and tr: "tr.all_ok sha f I db"
    and inj: "inj_on sha (dedup_text ` insert (identityOf s) I)" and hex: "\<And>t. hex64 (sha t)"
    and run: "raiseAlert sha f db s now dbnow = Inl (DbConstraint c)"
  shows "raise_blocked sha f db s c"
proof -
  let ?before = "signal_before sha db s" and ?k = "signal_key sha s" and ?inc = "signal_incident sha s"
  let ?ex = "existing_row ?inc ?k db" and ?rec = "record_after sha (signal_before sha db s) s now"
  have loud: "\<not> (?before = None \<and> \<not> isEscalation (sg_previousVerdict s) (sg_verdict s))"
  proof
    assume "?before = None \<and> \<not> isEscalation (sg_previousVerdict s) (sg_verdict s)"
    then show False using run raise_silent [of sha db s f now dbnow] by simp
  qed
  obtain p where p: "sanitize (signal_context sha s ?rec) = Inr p"
    using run unfolding raise_eq [OF loud] by (cases "sanitize (signal_context sha s ?rec)") simp_all
  have idok: "identity_ok (identityOf s)" by (rule sanitized_identity [OF p])
  then have ev: "hex64 (sg_evidenceHash s)" by (simp add: identity_ok_def identityOf_def)
  have valid: "row_violation r = None" if "r \<in> set (od_rows db)" for r using ok that by (simp add: tables_ok_def)
  have existing: "r \<in> set (od_rows db) \<and> ob_dedupKey r = ?k \<and> row_of sha f (identityOf s) r" if "?ex = Some r" for r
    using existing_Some [OF that] tr row_of_signal [OF _ _ idok inj] by (auto simp: tr.all_ok_def)
  have op: "r \<in> set (od_rows db) \<and> ob_state r \<noteq> Recovered" if "open_incident ?inc db = Some r" for r
    using open_incident_Some [OF that] by (simp add: is_open_def)
  have before: "case ?before of None \<Rightarrow> True | Some b \<Rightarrow> record_consistent b
      \<and> (ar_state b \<noteq> Recovered \<or> \<not> RANK (ar_currentVerdict b) < RANK (sg_verdict s))
      \<and> (\<exists>r \<in> set (od_rows db). ar_occurrences b = ob_occurrences r)"
  proof (cases ?ex)
    case (Some r)
    note r = existing [OF Some]
    have "\<not> RANK (ar_currentVerdict (toRecord r (identityOf s))) < RANK (sg_verdict s)"
      using r by (auto simp: row_of_def toRecord_def identityOf_def split: option.splits)
    then show ?thesis
      using r toRecord_consistent [OF valid, of r "identityOf s"]
      by (auto simp: signal_before_def record_before_def Some toRecord_def intro!: bexI [of _ r])
  next
    case None
    show ?thesis
    proof (cases "open_incident ?inc db")
      case (Some r)
      then show ?thesis
        using op [OF Some] toRecord_consistent [OF valid, of r "identityOf s"]
        by (auto simp: signal_before_def record_before_def None toRecord_def intro!: bexI [of _ r])
    qed (simp add: signal_before_def record_before_def None)
  qed
  have con: "record_consistent ?rec"
    by (rule after_consistent) (use before in \<open>auto split: option.splits\<close>)
  have occ: "1 \<le> ar_occurrences ?rec \<and> (\<not> pg_integer (ar_occurrences ?rec) \<longrightarrow>
      (\<exists>r \<in> set (od_rows db). ob_occurrences r = 2147483647))"
  proof (cases ?before)
    case None
    then show ?thesis using after_occurrences [where before = ?before and sha = sha and s = s and now = now] by (simp add: pg_integer_def)
  next
    case (Some b)
    then obtain r where r: "r \<in> set (od_rows db)" "ar_occurrences b = ob_occurrences r" using before by auto
    have "1 \<le> ob_occurrences r" "pg_integer (ob_occurrences r)"
      using valid [OF r(1)] by (auto simp: row_violation_def split: if_splits)
    then show ?thesis using after_occurrences [where before = ?before and sha = sha and s = s and now = now] Some r by (auto simp: pg_integer_def intro!: bexI [of _ r])
  qed
  obtain n db1 where cl: "signal_closed sha db s now dbnow = Inr (n, db1)"
    using close_incident_total [OF ok, of ?inc dbnow] by (cases "signal_closed sha db s now dbnow") (auto simp: signal_closed_def split: if_splits)
  have w: "write_row ?ex (raised_row sha f db s now p) db1 = Inl (DbConstraint c)"
    using run unfolding raise_eq [OF loud] p sum.case cl prod.case by (auto split: sum.splits)
  show ?thesis
  proof (cases ?ex)
    case None
    have frame: "ob_outboxId ` set (od_rows db1) = ob_outboxId ` set (od_rows db)
        \<and> ob_dedupKey ` set (od_rows db1) = ob_dedupKey ` set (od_rows db)
        \<and> od_deployments db1 = od_deployments db \<and> od_evaluations db1 = od_evaluations db"
    proof (cases "db1 = db")
      case False
      then have u: "update_rows (is_open ?inc) (close_row dbnow) db = Inr db1"
        using cl by (auto simp: signal_closed_def close_incident_def split: if_splits sum.splits)
      have "set (map ob_outboxId (od_rows db1)) = set (map ob_outboxId (od_rows db))"
        "set (map ob_dedupKey (od_rows db1)) = set (map ob_dedupKey (od_rows db))"
        using update_rows_keys [OF u] by (simp_all only: keeps_keys_simps)
      then show ?thesis using update_rows_meta [OF u] by simp
    qed simp
    have fresh: "?k \<notin> ob_dedupKey ` set (od_rows db)" by (rule existing_None [THEN iffD1, OF None])
    have "row_violation (raised_row sha f db s now p) = Some d \<Longrightarrow>
        d = ''integer out of range'' \<and> \<not> pg_integer (ar_occurrences ?rec)" for d
      unfolding raised_row_def None by (rule signal_row_violation [OF con ev hex]) (use occ in simp_all)
    moreover have "ob_outboxId (raised_row sha f db s now p) = f ?k"
      "ob_deploymentId (raised_row sha f db s now p) = sg_deploymentId s"
      "ob_evaluationId (raised_row sha f db s now p) = sg_evaluationId s"
      by (simp_all add: raised_row_def signal_row_def None)
    ultimately show ?thesis
      using w occ frame fresh unfolding None write_row_def raise_blocked_def
      by (auto simp: insert_row_def split: option.splits if_splits)
  next
    case (Some r)
    note r = existing [OF Some]
    have "record_recovered ?before s now = None"
      using after_existing(1) [of sha f s r now] r by (simp add: signal_before_def record_before_def Some)
    then have db1: "db1 = db" using cl by (simp add: signal_closed_def)
    obtain r' where r': "r' \<in> set (od_rows db)" "ob_dedupKey r' = ?k"
      "row_violation (overwrite_row (raised_row sha f db s now p) r') = Some c"
      using w update_rows_Inl by (fastforce simp: write_row_def Some db1)
    have "inj_on ob_dedupKey (set (od_rows db))" using ok by (simp add: tables_ok_def distinct_map)
    then have "r' = r" using r r'(1,2) by (metis inj_onD)
    then have "c = ''integer out of range'' \<and> \<not> pg_integer (ar_occurrences ?rec)"
      using r'(3) valid r unfolding raised_row_def Some
      by (intro overwrite_signal_violation [OF con ev]) (use occ in auto)
    then show ?thesis using occ by (simp add: raise_blocked_def)
  qed
qed


text \<open>
  C37. The alert tables stay well typed and no operation of the code breaks one of their constraints. After
  any history of raises, acknowledgements, leases, settlements and drains over empty tables, failing ones
  included, counters, digests and keys are in range, a row names who acknowledged it exactly when it says when,
  it has a recovery time exactly when it is recovered, ids are unique and every delivery belongs to a row.
  From there a raise fails at the tables only where a counter is at its end, or where the row is new and its outbox
  id is taken or it names an unknown deployment or evaluation; an acknowledgement never fails, a lease only at the
  end of an attempt counter, and a settlement of deliveries to rows that are there, with attempts in range, never. Assumed of the hash: its values are 64 hexadecimal digits, and it separates the texts of the
  identities in the history.
\<close>

theorem alert_tables_well_formed:
  assumes "\<And>t. hex64 (sha t)"
    and "inj_on sha (dedup_text ` insert (identityOf s) (history_identities ops))"
    and "db = alert_run sha f (empty_tables ds es ts) ops"
  shows "(\<forall>r \<in> set (od_rows db). 0 \<le> ob_attempts r \<and> pg_integer (ob_attempts r)
        \<and> 1 \<le> ob_occurrences r \<and> pg_integer (ob_occurrences r)
        \<and> hex64 (ob_incidentKey r) \<and> (\<forall>d. ob_evidenceDigest r = Some d \<longrightarrow> hex64 d)
        \<and> (ob_acknowledgedBy r = None \<longleftrightarrow> ob_acknowledgedAt r = None)
        \<and> (ob_state r = Recovered \<longleftrightarrow> ob_recoveredAt r \<noteq> None))
    \<and> distinct (map ob_outboxId (od_rows db)) \<and> distinct (map ob_dedupKey (od_rows db))
    \<and> distinct (map dl_deliveryId (od_deliveries db))
    \<and> (\<forall>d \<in> set (od_deliveries db). dl_outboxId d \<in> ob_outboxId ` set (od_rows db))
    \<and> (\<forall>now dbnow c. raiseAlert sha f db s now dbnow = Inl (DbConstraint c) \<longrightarrow> raise_blocked sha f db s c)
    \<and> (\<forall>incident by at. is_ok (acknowledgeAlert db incident by at))
    \<and> (\<forall>now lim leaseMs e. leaseDueAlerts db now lim leaseMs = Inl e \<longrightarrow> e = DbConstraint ''integer out of range'')
    \<and> (\<forall>k deliveries nx. list_all (\<lambda>d. dl_outcome d \<noteq> Skipped \<and> dl_outboxId d \<in> ob_outboxId ` set (od_rows db)) deliveries
          \<longrightarrow> 0 \<le> sn_attempts nx \<longrightarrow> pg_integer (sn_attempts nx) \<longrightarrow> is_ok (settleAlert db k deliveries nx))"
proof -
  have ok: "tables_ok db" unfolding assms(3) by (rule run_tables_ok) simp
  have "inj_on sha (dedup_text ` history_identities ops)"
    by (rule inj_on_subset [OF assms(2)]) auto
  then have "tr.all_ok sha f ({} \<union> history_identities ops) db"
    unfolding assms(3) by (intro run_traced) simp_all
  then have tr: "tr.all_ok sha f (history_identities ops) db" by simp
  have "\<forall>r \<in> set (od_rows db). row_violation r = None" using ok by (simp add: tables_ok_def)
  then have rows: "\<forall>r \<in> set (od_rows db). 0 \<le> ob_attempts r \<and> pg_integer (ob_attempts r)
        \<and> 1 \<le> ob_occurrences r \<and> pg_integer (ob_occurrences r)
        \<and> hex64 (ob_incidentKey r) \<and> (\<forall>d. ob_evidenceDigest r = Some d \<longrightarrow> hex64 d)
        \<and> (ob_acknowledgedBy r = None \<longleftrightarrow> ob_acknowledgedAt r = None)
        \<and> (ob_state r = Recovered \<longleftrightarrow> ob_recoveredAt r \<noteq> None)"
    by (auto simp: row_violation_def split: if_splits)
  have raise: "\<forall>now dbnow c. raiseAlert sha f db s now dbnow = Inl (DbConstraint c) \<longrightarrow> raise_blocked sha f db s c"
    using raise_violation [OF ok tr assms(2,1)] by blast
  have ack: "\<forall>incident by at. is_ok (acknowledgeAlert db incident by at)"
    using acknowledge_total [OF ok] by (fastforce simp: acknowledgeAlert_def is_open_def is_ok_iff)
  have lease: "\<forall>now lim leaseMs e. leaseDueAlerts db now lim leaseMs = Inl e \<longrightarrow> e = DbConstraint ''integer out of range''"
    using lease_overflow [OF ok] by blast
  have settle_one: "is_ok (settleAlert db k deliveries nx)"
    if "list_all (\<lambda>d. dl_outcome d \<noteq> Skipped \<and> dl_outboxId d \<in> ob_outboxId ` set (od_rows db)) deliveries"
      and "0 \<le> sn_attempts nx" and "pg_integer (sn_attempts nx)" for k deliveries nx
    using settle_total [OF ok that, of k] by (auto simp: is_ok_iff)
  then have settle: "\<forall>k deliveries nx. list_all (\<lambda>d. dl_outcome d \<noteq> Skipped \<and> dl_outboxId d \<in> ob_outboxId ` set (od_rows db)) deliveries
          \<longrightarrow> 0 \<le> sn_attempts nx \<longrightarrow> pg_integer (sn_attempts nx) \<longrightarrow> is_ok (settleAlert db k deliveries nx)"
    by blast
  have keys: "distinct (map ob_outboxId (od_rows db))" "distinct (map ob_dedupKey (od_rows db))"
    "distinct (map dl_deliveryId (od_deliveries db))"
    "\<forall>d \<in> set (od_deliveries db). dl_outboxId d \<in> ob_outboxId ` set (od_rows db)"
    using ok by (simp_all add: tables_ok_def)
  show ?thesis by (intro conjI) (fact rows keys raise ack lease settle)+
qed

text \<open>What a settlement leaves in a row that the drain leased.\<close>

definition settled_as :: "drain_options \<Rightarrow> outbox_row \<Rightarrow> outbox_row \<Rightarrow> bool" where
  "settled_as opts leased r \<longleftrightarrow>
     ob_status r \<in> {SSent, SPending, SAbandoned}
     \<and> (ob_status r = SPending \<longrightarrow> ob_attempts leased < do_maxAttempts opts)
     \<and> (ob_status r = SAbandoned \<longrightarrow> do_maxAttempts opts \<le> ob_attempts leased)
     \<and> ob_attempts r = ob_attempts leased
     \<and> ob_nextAttemptAt r = do_now opts + do_backoffMs opts * 2 ^ nat (min (ob_attempts leased) 10)"

lemma settle_settled_as:
  "settled_as opts row (settle_row \<lparr>sn_status = settled_status opts row reports, sn_attempts = ob_attempts row,
     sn_nextAttemptAt = backoff opts row\<rparr> r)"
  by (auto simp: settled_as_def settle_row_def settled_status_def backoff_def Let_def)

lemma count_settled_leased [simp]: "dn_leased (count_settled reports st c) = dn_leased c"
  by (simp add: count_settled_def)

text \<open>A drain settles the rows it leased one after the other, up to an abort, and touches no other.\<close>

lemma drain_rows_settles:
  "tables_ok db \<Longrightarrow> list_all (drainable db) rows \<Longrightarrow> distinct (map ob_outboxId rows) \<Longrightarrow>
     \<exists>c' sent' db' k. drain_rows opts rows c sent db = (Inr c', sent', db')
       \<and> dn_undecodable c' = dn_undecodable c \<and> dn_leased c' = dn_leased c
       \<and> k \<le> length rows \<and> (k < length rows \<longrightarrow> do_aborted opts sent')
       \<and> map ob_outboxId (od_rows db') = map ob_outboxId (od_rows db)
       \<and> (\<forall>row \<in> set (take k rows). \<forall>r \<in> set (od_rows db'). ob_outboxId r = ob_outboxId row \<longrightarrow> settled_as opts row r)
       \<and> (\<forall>r \<in> set (od_rows db'). ob_outboxId r \<notin> ob_outboxId ` set (take k rows) \<longrightarrow> r \<in> set (od_rows db))"
proof (induction rows arbitrary: c sent db)
  case (Cons row rows)
  show ?case
  proof (cases "do_aborted opts sent")
    case True
    then show ?thesis by (intro exI [of _ c] exI [of _ sent] exI [of _ db] exI [of _ 0]) auto
  next
    case False
    have "drainable db row" using Cons.prems(2) by simp
    then obtain reports db1 sent1 where s:
      "drain_rows opts (row # rows) c sent db =
         drain_rows opts rows (count_settled reports (settled_status opts row reports) c) sent1 db1"
      "tables_ok db1"
      "od_rows db1 = map (\<lambda>r. if ob_outboxId r = ob_outboxId row
         then settle_row \<lparr>sn_status = settled_status opts row reports, sn_attempts = ob_attempts row,
                sn_nextAttemptAt = backoff opts row\<rparr> r else r) (od_rows db)"
      by (rule drain_row_step [OF Cons.prems(1) _ False])
    have ids: "map ob_outboxId (od_rows db1) = map ob_outboxId (od_rows db)"
      unfolding s(3) by (simp add: settle_row_def)
    have now: "settled_as opts row r" if "r \<in> set (od_rows db1)" "ob_outboxId r = ob_outboxId row" for r
      using that unfolding s(3) by (auto simp: settle_settled_as)
    have other: "r \<in> set (od_rows db)" if "r \<in> set (od_rows db1)" "ob_outboxId r \<noteq> ob_outboxId row" for r
      using that unfolding s(3) by (auto simp: settle_row_def split: if_splits)
    have "list_all (drainable db1) rows"
      using Cons.prems(2) settled_ids [OF s(3)] by (auto simp: list_all_iff drainable_def)
    note IH = Cons.IH [OF s(2) this, of "count_settled reports (settled_status opts row reports) c" sent1]
    have "distinct (map ob_outboxId rows)" using Cons.prems(3) by simp
    from IH [OF this] obtain c' sent' db' k where k:
      "drain_rows opts rows (count_settled reports (settled_status opts row reports) c) sent1 db1 = (Inr c', sent', db')"
      "dn_undecodable c' = dn_undecodable c" "dn_leased c' = dn_leased c"
      "k \<le> length rows" "k < length rows \<longrightarrow> do_aborted opts sent'"
      "map ob_outboxId (od_rows db') = map ob_outboxId (od_rows db1)"
      "\<forall>row \<in> set (take k rows). \<forall>r \<in> set (od_rows db'). ob_outboxId r = ob_outboxId row \<longrightarrow> settled_as opts row r"
      "\<forall>r \<in> set (od_rows db'). ob_outboxId r \<notin> ob_outboxId ` set (take k rows) \<longrightarrow> r \<in> set (od_rows db1)"
      unfolding count_settled_undecodable count_settled_leased by (elim exE conjE) (rule that)
    have "ob_outboxId row \<notin> ob_outboxId ` set (take k rows)"
      using Cons.prems(3) by (auto dest: in_set_takeD)
    then have "\<forall>r \<in> set (od_rows db'). ob_outboxId r = ob_outboxId row \<longrightarrow> settled_as opts row r"
      using k(8) now by metis
    moreover have "\<forall>r \<in> set (od_rows db'). ob_outboxId r \<notin> ob_outboxId ` set (take (Suc k) (row # rows)) \<longrightarrow> r \<in> set (od_rows db)"
      using k(8) other by auto
    ultimately show ?thesis
      using k ids s(1)
      by (intro exI [of _ c'] exI [of _ sent'] exI [of _ db'] exI [of _ "Suc k"]) auto
  qed
qed simp

lemma leased_distinct:
  assumes "tables_ok db" and "leaseDueAlerts db now lim leaseMs = Inr (rows, db1)"
  shows "distinct (map ob_outboxId rows)" and "map ob_outboxId (od_rows db1) = map ob_outboxId (od_rows db)"
proof -
  have "inj_on ob_outboxId (set (od_rows db))" "distinct (od_rows db)"
    using assms(1) by (auto simp: tables_ok_def distinct_map)
  then have "distinct (map ob_outboxId (due_rows db now lim))"
    unfolding due_rows_def distinct_map
    by (auto intro!: distinct_take inj_on_subset [where A = "set (od_rows db)"] dest: in_set_takeD)
  then show "distinct (map ob_outboxId rows)"
    using assms(2) by (auto simp: leaseDueAlerts_def Let_def comp_def split: if_splits sum.splits)
  show "map ob_outboxId (od_rows db1) = map ob_outboxId (od_rows db)"
    using assms(2) update_rows_keys(1) by (auto simp: leaseDueAlerts_def Let_def split: if_splits sum.splits)
qed

text \<open>
  C35. A drain never chokes on what was queued. In every history of the outbox a drain that returns has decoded
  every payload it came to, and settled in order the rows it leased: all of them, unless the signal aborts it, and
  then a first part of them. A settled row is sent, or queued again with its backoff while attempts are left, or
  abandoned when none is; every other row is as the lease left it. A drain fails only where the lease fails,
  before it delivers anything: when an attempt counter leaves the range of its column.
\<close>

theorem drain_reads_every_payload:
  assumes "inj_on sha (dedup_text ` history_identities ops)"
    and "db = alert_run sha f (empty_tables ds es ts) ops"
  shows "case drainOutbox opts sent db of
      (Inr report, sent', db') \<Rightarrow> \<exists>rows db1 k.
        leaseDueAlerts db (do_now opts) (do_batchSize opts) (do_leaseMs opts) = Inr (rows, db1)
        \<and> dn_leased report = length rows \<and> dn_undecodable report = 0
        \<and> k \<le> length rows \<and> (k < length rows \<longrightarrow> do_aborted opts sent')
        \<and> map ob_outboxId (od_rows db') = map ob_outboxId (od_rows db)
        \<and> (\<forall>row \<in> set (take k rows). \<forall>r \<in> set (od_rows db'). ob_outboxId r = ob_outboxId row \<longrightarrow> settled_as opts row r)
        \<and> (\<forall>r \<in> set (od_rows db'). ob_outboxId r \<notin> ob_outboxId ` set (take k rows) \<longrightarrow> r \<in> set (od_rows db1))
    | (Inl e, sent', _) \<Rightarrow>
        leaseDueAlerts db (do_now opts) (do_batchSize opts) (do_leaseMs opts) = Inl e
        \<and> e = DbConstraint ''integer out of range'' \<and> sent' = sent"
proof -
  have ok: "tables_ok db" unfolding assms(2) by (rule run_tables_ok) simp
  have "tr.all_ok sha f ({} \<union> history_identities ops) db"
    unfolding assms(2) by (rule run_traced) (use assms(1) in simp_all)
  then have tr: "tr.all_ok sha f (history_identities ops) db" by simp
  show ?thesis
  proof (cases "leaseDueAlerts db (do_now opts) (do_batchSize opts) (do_leaseMs opts)")
    case (Inr p)
    obtain rows db1 where p: "p = (rows, db1)" by (cases p)
    note lease = Inr [unfolded p]
    let ?c = "\<lparr>dn_leased = length rows, dn_delivered = 0, dn_retrying = 0, dn_abandoned = 0, dn_undecodable = 0\<rparr>"
    note settles = drain_rows_settles [OF lease_tables_ok [OF lease ok] leased_drainable [OF lease ok tr]
        leased_distinct(1) [OF ok lease], of opts ?c sent]
    obtain c' sent' db' k where k: "drain_rows opts rows ?c sent db1 = (Inr c', sent', db')"
      "dn_undecodable c' = 0" "dn_leased c' = length rows" "k \<le> length rows" "k < length rows \<longrightarrow> do_aborted opts sent'"
      "map ob_outboxId (od_rows db') = map ob_outboxId (od_rows db1)"
      "\<forall>row \<in> set (take k rows). \<forall>r \<in> set (od_rows db'). ob_outboxId r = ob_outboxId row \<longrightarrow> settled_as opts row r"
      "\<forall>r \<in> set (od_rows db'). ob_outboxId r \<notin> ob_outboxId ` set (take k rows) \<longrightarrow> r \<in> set (od_rows db1)"
      using settles unfolding drain_report.select_convs by (elim exE conjE) (rule that)
    have run: "drainOutbox opts sent db = (Inr c', sent', db')" by (simp add: drainOutbox_def lease k(1))
    show ?thesis
      unfolding run prod.case sum.case
      by (rule exI [of _ rows], rule exI [of _ db1], rule exI [of _ k])
        (use k leased_distinct(2) [OF ok lease] lease in simp)
  next
    case (Inl e)
    then show ?thesis using lease_overflow [OF ok Inl] by (auto simp: drainOutbox_def)
  qed
qed

lemma settled_budget:
  "settled_status opts row reports = SPending \<Longrightarrow> ob_attempts row < do_maxAttempts opts"
  by (auto simp: settled_status_def Let_def split: if_splits)

definition within_budget :: "drain_options \<Rightarrow> outbox_row \<Rightarrow> bool" where
  "within_budget opts r \<longleftrightarrow> (ob_status r = SPending \<longrightarrow> ob_attempts r < do_maxAttempts opts)"

lemma drain_rows_budget:
  assumes "\<And>s. \<not> do_aborted opts s"
  shows "tables_ok db \<Longrightarrow> list_all (drainable db) rows \<Longrightarrow> drain_rows opts rows c sent db = (res, sent', db') \<Longrightarrow>
     (\<And>r. r \<in> set (od_rows db) \<Longrightarrow> ob_outboxId r \<in> K \<Longrightarrow> within_budget opts r) \<Longrightarrow>
     r \<in> set (od_rows db') \<Longrightarrow> ob_outboxId r \<in> K \<union> ob_outboxId ` set rows \<Longrightarrow> within_budget opts r"
proof (induction rows arbitrary: c sent db K)
  case (Cons row rows)
  have dr: "drainable db row" using Cons.prems(2) by simp
  obtain reports db1 sent1 where s:
    "drain_rows opts (row # rows) c sent db =
       drain_rows opts rows (count_settled reports (settled_status opts row reports) c) sent1 db1"
    "tables_ok db1"
    and rows1: "od_rows db1 = map (\<lambda>r. if ob_outboxId r = ob_outboxId row
       then settle_row \<lparr>sn_status = settled_status opts row reports, sn_attempts = ob_attempts row,
              sn_nextAttemptAt = backoff opts row\<rparr> r else r) (od_rows db)"
    by (rule drain_row_step [OF Cons.prems(1) dr assms])
  have budget1: "within_budget opts q" if "q \<in> set (od_rows db1)" "ob_outboxId q \<in> insert (ob_outboxId row) K" for q
  proof -
    from that(1) obtain q0 where q0: "q0 \<in> set (od_rows db)"
      "q = (if ob_outboxId q0 = ob_outboxId row
         then settle_row \<lparr>sn_status = settled_status opts row reports, sn_attempts = ob_attempts row,
                sn_nextAttemptAt = backoff opts row\<rparr> q0 else q0)"
      unfolding rows1 by auto
    show ?thesis
    proof (cases "ob_outboxId q0 = ob_outboxId row")
      case True
      with q0(2) settled_budget show ?thesis by (simp add: within_budget_def settle_row_def)
    next
      case False
      with q0 that(2) Cons.prems(4) show ?thesis by auto
    qed
  qed
  have dr1: "list_all (drainable db1) rows"
    using Cons.prems(2) settled_ids [OF rows1] by (auto simp: list_all_iff drainable_def)
  show ?case
    by (rule Cons.IH [where K = "insert (ob_outboxId row) K",
          OF s(2) dr1 Cons.prems(3) [unfolded s(1)] budget1 Cons.prems(5)])
      (use Cons.prems(6) in auto)
qed simp

text \<open>
  The attempt budget. After a drain that is not aborted, in any history, a row it leased is
  queued again only if attempts are left; otherwise it is sent or abandoned.
\<close>

theorem drain_respects_budget:
  assumes "inj_on sha (dedup_text ` history_identities ops)"
    and "leaseDueAlerts (alert_run sha f (empty_tables ds es ts) ops) (do_now opts) (do_batchSize opts) (do_leaseMs opts)
         = Inr (rows, db1)"
    and "\<And>s. \<not> do_aborted opts s"
    and "drainOutbox opts sent (alert_run sha f (empty_tables ds es ts) ops) = (res, sent', db')"
    and "r \<in> set (od_rows db')" and "ob_outboxId r \<in> ob_outboxId ` set rows"
  shows "ob_status r = SPending \<longrightarrow> ob_attempts r < do_maxAttempts opts"
proof -
  define db where "db = alert_run sha f (empty_tables ds es ts) ops"
  have ok: "tables_ok db" unfolding db_def by (rule run_tables_ok) simp
  have "tr.all_ok sha f ({} \<union> history_identities ops) db"
    unfolding db_def by (rule run_traced) (use assms(1) in simp_all)
  then have tr: "tr.all_ok sha f (history_identities ops) db" by simp
  note lease = assms(2) [folded db_def]
  have d: "drain_rows opts rows
      \<lparr>dn_leased = length rows, dn_delivered = 0, dn_retrying = 0, dn_abandoned = 0, dn_undecodable = 0\<rparr> sent db1
      = (res, sent', db')"
    using assms(4) by (simp add: drainOutbox_def lease db_def [symmetric])
  have "within_budget opts r"
    by (rule drain_rows_budget [OF assms(3) lease_tables_ok [OF lease ok] leased_drainable [OF lease ok tr] d, where K = "{}"])
      (use assms(5,6) in simp_all)
  then show ?thesis by (simp add: within_budget_def)
qed

text \<open>A first observation of OK opens an incident and pages.\<close>

lemma first_OK_opens:
  assumes "signal_before sha db s = None" and "sg_previousVerdict s = None" and "sg_verdict s = OK"
    and "raiseAlert sha f db s now dbnow = Inr (res, db')"
  shows "rr_written res \<and> rr_notified res"
proof -
  have w: "\<not> (signal_before sha db s = None \<and> \<not> isEscalation (sg_previousVerdict s) (sg_verdict s))"
    using assms(2) by simp
  obtain p n db1 where "sanitize (signal_context sha s (record_after sha (signal_before sha db s) s now)) = Inr p"
    and "signal_closed sha db s now dbnow = Inr (n, db1)"
    and "write_row (existing_row (signal_incident sha s) (signal_key sha s) db)
        (raised_row sha f db s now p) db1 = Inr db'" and res: "res = raise_result_of sha db s now n"
    by (rule raise_writes [OF w assms(4)])
  show ?thesis
    by (simp add: res raise_result_of_def assms(1) shouldNotify_def record_after_def record_recovered_def open_alert_def)
qed

text \<open>A row that parses and is refused by the gates ends the drain: the rows behind it stay leased.\<close>

lemma poison_blocks_drain:
  assumes "decodeNotification (ob_payload row) = Inl e" and "\<not> do_aborted opts sent"
  shows "drain_rows opts (row # rows) c sent db = (Inl (AlertRefused e), sent, db)"
  using assms by simp

section \<open>An example\<close>

definition example_sha :: "string \<Rightarrow> string" where
  "example_sha t = replicate 64 (digit_char (length t mod 10))"

definition example_signal :: "verdict option \<Rightarrow> verdict \<Rightarrow> alert_signal" where
  "example_signal from to =
     \<lparr>sg_deploymentId = ''d'', sg_evaluationId = None, sg_ruleId = ''r'', sg_reasonCode = ''A_B'',
      sg_previousVerdict = from, sg_verdict = to, sg_evidenceHash = replicate 64 (CHR ''0''),
      sg_evidenceSchemaVersion = ''v'', sg_reasonCodes = [''A_B''], sg_observedAt = ''t'',
      sg_expiresAt = ''u'', sg_fresh = True\<rparr>"

abbreviation breach :: alert_signal where "breach \<equiv> example_signal None CRITICAL"
abbreviation recovery :: alert_signal where "recovery \<equiv> example_signal (Some CRITICAL) OK"

definition example_tables :: outbox_db where
  "example_tables = empty_tables [''d''] [] []"

definition breach_row :: outbox_row where
  "breach_row = raised_row example_sha (\<lambda>k. k) example_tables breach 5 (build_payload opened_context)"

lemma hex64_example_sha [simp]: "hex64 (example_sha t)"
proof -
  have "is_lower_hex (digit_char d)" if "d < 10" for d
    using that by (simp add: is_lower_hex_def)
  then show ?thesis by (simp add: hex64_def example_sha_def list_all_iff)
qed

lemma example_signal_simps [simp]:
  "sg_deploymentId (example_signal v w) = ''d''" "sg_evaluationId (example_signal v w) = None"
  "sg_ruleId (example_signal v w) = ''r''" "sg_reasonCode (example_signal v w) = ''A_B''"
  "sg_previousVerdict (example_signal v w) = v" "sg_verdict (example_signal v w) = w"
  "sg_evidenceHash (example_signal v w) = replicate 64 (CHR ''0'')"
  "sg_evidenceSchemaVersion (example_signal v w) = ''v''" "sg_reasonCodes (example_signal v w) = [''A_B'']"
  "sg_observedAt (example_signal v w) = ''t''" "sg_expiresAt (example_signal v w) = ''u''"
  "sg_fresh (example_signal v w)"
  by (simp_all add: example_signal_def)

lemma breach_keys [simp]:
  "signal_key example_sha breach = replicate 64 (CHR ''0'')"
  "signal_key example_sha recovery = replicate 64 (CHR ''8'')"
proof -
  have "digit_char 8 = CHR ''8''" by code_simp
  then show "signal_key example_sha recovery = replicate 64 (CHR ''8'')"
    by (simp add: dedupKey_def example_sha_def identityOf_def ALERT_DOMAIN_def from_text_def)
  show "signal_key example_sha breach = replicate 64 (CHR ''0'')"
    by (simp add: dedupKey_def example_sha_def identityOf_def ALERT_DOMAIN_def from_text_def)
qed

lemma example_tables_rows [simp]: "od_rows example_tables = []"
  by (simp add: example_tables_def empty_tables_def)

lemma example_existing [simp]: "existing_row i k example_tables = None"
  by (simp add: existing_None)

lemma example_no_incident [simp]: "open_incident i example_tables = None"
  by (simp add: open_incident_None)

lemma breach_before [simp]: "signal_before example_sha example_tables breach = None"
  by (simp add: signal_before_def record_before_def)

lemma breach_after: "record_after example_sha None breach 5 = open_alert example_sha (identityOf breach) 5"
  by (simp add: record_after_def record_recovered_def)

lemma breach_context:
  "signal_context example_sha breach (open_alert example_sha (identityOf breach) 5) = opened_context"
  by (simp add: signal_context_def open_alert_def opened_context_def example_context_def) (simp add: identityOf_def)

lemma breach_row_simps [simp]:
  "ob_state breach_row = FirstSeen" "ob_verdictTo breach_row = Some CRITICAL" "ob_occurrences breach_row = 1"
  "ob_dedupKey breach_row = replicate 64 (CHR ''0'')" "ob_incidentKey breach_row = incidentKey example_sha ''d'' ''r'' ''A_B''"
  "ob_acknowledgedBy breach_row = None" "ob_acknowledgedAt breach_row = None" "ob_recoveredAt breach_row = None"
  "ob_attempts breach_row = 0" "ob_status breach_row = SPending" "ob_outboxId breach_row = replicate 64 (CHR ''0'')"
  "ob_deploymentId breach_row = ''d''" "ob_evaluationId breach_row = None"
  "ob_evidenceDigest breach_row = Some (replicate 64 (CHR ''0''))" "ob_nextAttemptAt breach_row = 5"
  "ob_payload breach_row = payload_json (build_payload opened_context)"
  by (simp_all add: breach_row_def raised_row_def signal_row_def breach_after open_alert_def shouldNotify_def)
    (simp add: identityOf_def)

lemma zeros_hex [simp]: "hex64 (replicate 64 (CHR ''0''))"
  by (simp add: hex64_def list_all_iff is_lower_hex_def is_digit_def)

lemma incident_hex [simp]: "hex64 (incidentKey example_sha a b c)"
  by (simp add: incidentKey_def)

lemma breach_raised:
  "raiseAlert example_sha (\<lambda>k. k) example_tables breach 5 5 =
     Inr (raise_result_of example_sha example_tables breach 5 0, example_tables\<lparr>od_rows := [breach_row]\<rparr>)"
proof -
  have "row_violation breach_row = None"
    by (simp add: row_violation_def pg_integer_def)
  then have "insert_row breach_row example_tables = Inr (example_tables\<lparr>od_rows := [breach_row]\<rparr>)"
    by (simp add: insert_row_def example_tables_def empty_tables_def)
  moreover have "isEscalation (sg_previousVerdict breach) (sg_verdict breach)" by (simp add: example_signal_def)
  moreover have "signal_closed example_sha example_tables breach 5 5 = Inr (0, example_tables)"
    by (simp add: signal_closed_def record_recovered_def)
  ultimately show ?thesis
    by (subst raise_eq) (simp_all add: breach_after breach_context opened_sanitized write_row_def breach_row_def [symmetric])
qed

definition breach_tables :: outbox_db where
  "breach_tables = example_tables\<lparr>od_rows := [breach_row]\<rparr>"

lemma breach_tables_rows [simp]: "od_rows breach_tables = [breach_row]"
  by (simp add: breach_tables_def)

lemma breach_open [simp]: "is_open (incidentKey example_sha ''d'' ''r'' ''A_B'') breach_row"
  by (simp add: is_open_def)

lemma breach_incident [simp]: "open_incident (incidentKey example_sha ''d'' ''r'' ''A_B'') breach_tables = Some breach_row"
  by (simp add: open_incident_def incident_rows_def)

lemma breach_again_before [simp]:
  "signal_before example_sha breach_tables breach = Some (toRecord breach_row (identityOf breach))"
proof -
  obtain r where r: "existing_row (incidentKey example_sha ''d'' ''r'' ''A_B'') (replicate 64 (CHR ''0'')) breach_tables = Some r"
    by (cases "existing_row (incidentKey example_sha ''d'' ''r'' ''A_B'') (replicate 64 (CHR ''0'')) breach_tables")
      (auto simp: existing_None)
  with existing_Some [OF r] show ?thesis by (simp add: signal_before_def record_before_def)
qed

lemma breach_again_after:
  "record_after example_sha (Some (toRecord breach_row (identityOf breach))) breach 6
    = observe (toRecord breach_row (identityOf breach)) (identityOf breach) 6"
  "record_recovered (Some (toRecord breach_row (identityOf breach))) breach 6 = None"
  by (simp_all add: record_after_def record_recovered_def recover_def toRecord_def isRecovery_iff)

lemma breach_again_record:
  "observe (toRecord breach_row (identityOf breach)) (identityOf breach) 6 =
     (toRecord breach_row (identityOf breach))\<lparr>ar_state := Repeated, ar_lastSeenAt := 6, ar_occurrences := 2\<rparr>"
  by (simp add: observe_def Let_def isEscalation_RANK toRecord_def) (simp add: identityOf_def)

lemma breach_again_context:
  "signal_context example_sha breach (observe (toRecord breach_row (identityOf breach)) (identityOf breach) 6) = repeated_context"
  unfolding breach_again_record
  by (simp add: signal_context_def toRecord_def repeated_context_def example_context_def)

lemma breach_again: "\<exists>res db'. raiseAlert example_sha (\<lambda>k. k) breach_tables breach 6 6 = Inr (res, db')"
proof -
  define new where "new = raised_row example_sha (\<lambda>k. k) breach_tables breach 6 (build_payload repeated_context)"
  have new: "ob_state new = Repeated" "ob_occurrences new = 2" "ob_acknowledgedBy new = None"
    "ob_acknowledgedAt new = None" "ob_recoveredAt new = None" "ob_evidenceDigest new = Some (replicate 64 (CHR ''0''))"
    by (simp_all add: new_def raised_row_def signal_row_def breach_again_after breach_again_record) (simp_all add: toRecord_def)
  obtain r where r: "existing_row (incidentKey example_sha ''d'' ''r'' ''A_B'') (replicate 64 (CHR ''0'')) breach_tables = Some r"
    by (cases "existing_row (incidentKey example_sha ''d'' ''r'' ''A_B'') (replicate 64 (CHR ''0'')) breach_tables")
      (auto simp: existing_None)
  have "r = breach_row" using existing_Some [OF r] by simp
  then have "ob_attempts new = 0"
    using r by (simp add: new_def raised_row_def signal_row_def)
  then have "row_violation (overwrite_row new breach_row) = None"
    using new by (simp add: row_violation_def pg_integer_def) (simp add: overwrite_row_def)
  then have "\<exists>db'. update_rows (\<lambda>r. ob_dedupKey r = ob_dedupKey new) (overwrite_row new) breach_tables = Inr db'"
    using update_rows_total [of breach_tables "\<lambda>r. ob_dedupKey r = ob_dedupKey new" "overwrite_row new"] by auto
  then obtain db' where "write_row (Some r) new breach_tables = Inr db'" by (auto simp: write_row_def)
  moreover have "signal_closed example_sha breach_tables breach 6 6 = Inr (0, breach_tables)"
    by (simp add: signal_closed_def breach_again_after)
  ultimately show ?thesis
    by (subst raise_eq)
      (simp_all add: breach_again_after breach_again_context repeated_sanitized r new_def [symmetric])
qed

theorem signal_pages_once_witness:
  "case raiseAlert example_sha (\<lambda>k. k) breach_tables breach 6 6 of
     Inl _ \<Rightarrow> False
   | Inr (second, db2) \<Rightarrow>
       rr_written second \<and> rr_notified second = False \<and> rr_created second = False \<and> rr_closedIncidentRows second = 0"
proof -
  obtain res db' where again: "raiseAlert example_sha (\<lambda>k. k) breach_tables breach 6 6 = Inr (res, db')"
    using breach_again by blast
  have "inj_on example_sha (dedup_text ` history_identities ([] @ ORaise breach 5 5 # []))" by simp
  moreover have "raiseAlert example_sha (\<lambda>k. k)
      (alert_run example_sha (\<lambda>k. k) (empty_tables [''d''] [] []) []) breach 5 5
      = Inr (raise_result_of example_sha example_tables breach 5 0, breach_tables)"
    using breach_raised by (simp add: example_tables_def breach_tables_def)
  moreover have "rr_written (raise_result_of example_sha example_tables breach 5 0)" by (simp add: raise_result_of_def)
  moreover have "raiseAlert example_sha (\<lambda>k. k) (alert_run example_sha (\<lambda>k. k) breach_tables []) breach 6 6 = Inr (res, db')"
    using again by simp
  ultimately have "rr_written res \<and> \<not> rr_notified res \<and> \<not> rr_created res \<and> rr_closedIncidentRows res = 0"
    by (rule signal_pages_once [OF _ _ _ refl])
  with again show ?thesis by simp
qed

text \<open>The recovery of the example, under the reason code of the breach.\<close>

lemma recovery_before [simp]:
  "signal_before example_sha breach_tables recovery = Some (toRecord breach_row (identityOf recovery))"
  by (simp add: signal_before_def record_before_def existing_None [THEN iffD2])

lemma recovery_after:
  "record_recovered (Some (toRecord breach_row (identityOf recovery))) recovery 7 =
     Some ((toRecord breach_row (identityOf recovery))\<lparr>ar_state := Recovered, ar_currentVerdict := OK,
       ar_lastSeenAt := 7, ar_recoveredAt := Some 7\<rparr>)"
  by (simp add: record_recovered_def recover_def toRecord_def isRecovery_iff)

lemma recovery_context:
  "signal_context example_sha recovery (record_after example_sha (Some (toRecord breach_row (identityOf recovery))) recovery 7)
    = recovered_context"
  unfolding record_after_def recovery_after
  by (simp add: signal_context_def toRecord_def recovered_context_def example_context_def)

lemma recovery_raised: "\<exists>res db'. raiseAlert example_sha (\<lambda>k. k) breach_tables recovery 7 8 = Inr (res, db')"
proof -
  define new where "new = raised_row example_sha (\<lambda>k. k) breach_tables recovery 7 (build_payload recovered_context)"
  have none: "existing_row (incidentKey example_sha ''d'' ''r'' ''A_B'') (replicate 64 (CHR ''8'')) breach_tables = None"
    by (simp add: existing_None)
  have new: "ob_state new = Recovered" "ob_occurrences new = 1" "ob_acknowledgedBy new = None"
    "ob_acknowledgedAt new = None" "ob_recoveredAt new = Some 7" "ob_attempts new = 0"
    "ob_evidenceDigest new = Some (replicate 64 (CHR ''0''))"
    by (simp_all add: new_def raised_row_def signal_row_def record_after_def recovery_after none)
      (simp_all add: toRecord_def)
  have ids: "ob_outboxId new = replicate 64 (CHR ''8'')" "ob_deploymentId new = ''d''" "ob_evaluationId new = None"
      "ob_dedupKey new = replicate 64 (CHR ''8'')" "ob_incidentKey new = incidentKey example_sha ''d'' ''r'' ''A_B''"
    by (simp_all add: new_def raised_row_def signal_row_def none)
  have "row_violation (close_row 8 breach_row) = None"
    by (simp add: row_violation_def pg_integer_def close_row_def)
  then have "update_rows (is_open (incidentKey example_sha ''d'' ''r'' ''A_B'')) (close_row 8) breach_tables
      = Inr (breach_tables\<lparr>od_rows := [close_row 8 breach_row]\<rparr>)"
    using update_rows_total [of breach_tables "is_open (incidentKey example_sha ''d'' ''r'' ''A_B'')" "close_row 8"] by simp
  then have "signal_closed example_sha breach_tables recovery 7 8 = Inr (1, breach_tables\<lparr>od_rows := [close_row 8 breach_row]\<rparr>)"
    by (simp add: signal_closed_def recovery_after close_incident_def)
  moreover have "row_violation new = None" using new ids by (simp add: row_violation_def pg_integer_def)
  then have "\<exists>db'. insert_row new (breach_tables\<lparr>od_rows := [close_row 8 breach_row]\<rparr>) = Inr db'"
    using ids by (simp add: insert_row_def close_row_def) (simp add: breach_tables_def example_tables_def empty_tables_def)
  then obtain db' where "write_row None new (breach_tables\<lparr>od_rows := [close_row 8 breach_row]\<rparr>) = Inr db'"
    by (auto simp: write_row_def)
  ultimately show ?thesis
    by (subst raise_eq) (simp_all add: recovery_context recovered_sanitized none new_def [symmetric])
qed

theorem recovery_closes_incident_witness:
  "case raiseAlert example_sha (\<lambda>k. k) breach_tables recovery 7 8 of
     Inl _ \<Rightarrow> False
   | Inr (res, db') \<Rightarrow>
       rr_notified res \<and> rr_closedIncidentRows res = 1 \<and> length (od_rows db') = 2
       \<and> ob_status (od_rows db' ! 0) = SCancelled \<and> ob_status (od_rows db' ! 1) = SPending"
proof -
  obtain res db' where r: "raiseAlert example_sha (\<lambda>k. k) breach_tables recovery 7 8 = Inr (res, db')"
    using recovery_raised by blast
  have "rr_notified res \<and> rr_created res
    \<and> rr_closedIncidentRows res = length (filter (is_open (signal_incident example_sha recovery)) (od_rows breach_tables))
    \<and> (\<exists>new. od_rows db' = map (\<lambda>r. if is_open (signal_incident example_sha recovery) r then close_row 8 r else r)
             (od_rows breach_tables) @ [new]
           \<and> ob_status new = SPending \<and> ob_state new = Recovered \<and> ob_verdictTo new = Some OK)
    \<and> \<not> (\<exists>r\<in>set (od_rows db'). is_open (signal_incident example_sha recovery) r)"
    by (rule recovery_closes_incident [OF r, of breach_row CRITICAL]) simp_all
  then show ?thesis using r by (auto simp: close_row_def)
qed

theorem recovery_under_another_reason_is_silent_witness:
  "case raiseAlert example_sha (\<lambda>k. k) breach_tables (recovery\<lparr>sg_reasonCode := ''OK''\<rparr>) 7 8 of
     Inl _ \<Rightarrow> False
   | Inr (res, db') \<Rightarrow> db' = breach_tables \<and> rr_written res = False"
proof -
  have keys: "signal_key example_sha (recovery\<lparr>sg_reasonCode := ''OK''\<rparr>) = replicate 64 (CHR ''7'')"
    "incidentKey example_sha ''d'' ''r'' ''OK'' = replicate 64 (CHR ''8'')"
    "incidentKey example_sha ''d'' ''r'' ''A_B'' = replicate 64 (CHR ''9'')"
  proof -
    have d: "digit_char 7 = CHR ''7''" "digit_char 8 = CHR ''8''" "digit_char 9 = CHR ''9''" by code_simp+
    show "signal_key example_sha (recovery\<lparr>sg_reasonCode := ''OK''\<rparr>) = replicate 64 (CHR ''7'')"
      by (simp add: dedupKey_def example_sha_def identityOf_def ALERT_DOMAIN_def from_text_def d)
    show "incidentKey example_sha ''d'' ''r'' ''OK'' = replicate 64 (CHR ''8'')"
      by (simp add: incidentKey_def example_sha_def ALERT_DOMAIN_def d)
    show "incidentKey example_sha ''d'' ''r'' ''A_B'' = replicate 64 (CHR ''9'')"
      by (simp add: incidentKey_def example_sha_def ALERT_DOMAIN_def d)
  qed
  have "case raiseAlert example_sha (\<lambda>k. k) breach_tables (recovery\<lparr>sg_reasonCode := ''OK''\<rparr>) 7 8 of
      Inl _ \<Rightarrow> False
    | Inr (res, db') \<Rightarrow> db' = breach_tables \<and> \<not> rr_written res \<and> \<not> rr_notified res \<and> rr_closedIncidentRows res = 0"
    by (rule recovery_under_another_reason_is_silent)
      (simp_all add: keys isEscalation_def SEVERITY_def)
  then show ?thesis by (auto split: sum.splits)
qed

definition example_options :: drain_options where
  "example_options =
     \<lparr>do_targets = [], do_resolve = (\<lambda>_. None), do_parse_url = (\<lambda>_. None), do_transport = (\<lambda>_ _ _. PostThrow None),
      do_maxAttempts = 1, do_leaseMs = 100, do_backoffMs = 10, do_batchSize = 5, do_now = 6,
      do_aborted = (\<lambda>_. False), do_deliveryIdFor = (\<lambda>k t n. k)\<rparr>"

lemma breach_run: "alert_run example_sha (\<lambda>k. k) (empty_tables [''d''] [] []) [ORaise breach 5 5] = breach_tables"
  using breach_raised by (simp add: rolled_back_def example_tables_def breach_tables_def)

lemma breach_lease:
  "leaseDueAlerts breach_tables 6 5 100 =
     Inr ([breach_row\<lparr>ob_attempts := 1\<rparr>],
          breach_tables\<lparr>od_rows := [breach_row\<lparr>ob_attempts := 1, ob_nextAttemptAt := 106\<rparr>]\<rparr>)"
proof -
  have "row_violation (lease_row 106 breach_row) = None"
    by (simp add: row_violation_def pg_integer_def lease_row_def)
  then have "update_rows (\<lambda>r. ob_outboxId r = replicate 64 (CHR ''0'')) (lease_row 106) breach_tables
      = Inr (breach_tables\<lparr>od_rows := [lease_row 106 breach_row]\<rparr>)"
    using update_rows_total [of breach_tables "\<lambda>r. ob_outboxId r = replicate 64 (CHR ''0'')" "lease_row 106"] by simp
  then show ?thesis by (simp add: leaseDueAlerts_def due_rows_def Let_def lease_row_def)
qed

theorem alert_tables_well_formed_witness:
  "(\<forall>now dbnow c. raiseAlert example_sha (\<lambda>k. k) breach_tables breach now dbnow \<noteq> Inl (DbConstraint c))
   \<and> (\<forall>incident by at. is_ok (acknowledgeAlert breach_tables incident by at))"
proof -
  have "inj_on example_sha (dedup_text ` insert (identityOf breach) (history_identities [ORaise breach 5 5]))"
    by (simp add: history_identities_def)
  note formed = alert_tables_well_formed [of example_sha, OF hex64_example_sha this breach_run [symmetric]]
  have "\<not> raise_blocked example_sha (\<lambda>k. k) breach_tables breach c" for c
    by (simp add: raise_blocked_def)
  with formed show ?thesis by blast
qed

theorem drain_reads_every_payload_witness:
  "case drainOutbox example_options [] breach_tables of
      (Inr report, _, db') \<Rightarrow> dn_leased report = 1 \<and> dn_undecodable report = 0
        \<and> list_all (\<lambda>r. ob_status r \<in> {SSent, SAbandoned} \<and> ob_attempts r = 1) (od_rows db')
    | (Inl e, sent', _) \<Rightarrow> False"
proof -
  note drain = drain_reads_every_payload [where sha = example_sha and ops = "[ORaise breach 5 5]" and opts = example_options
      and sent = "[]" and f = "\<lambda>k. k", OF _ breach_run [symmetric]]
  have lease: "leaseDueAlerts breach_tables (do_now example_options) (do_batchSize example_options) (do_leaseMs example_options)
      = Inr ([breach_row\<lparr>ob_attempts := 1\<rparr>],
          breach_tables\<lparr>od_rows := [breach_row\<lparr>ob_attempts := 1, ob_nextAttemptAt := 106\<rparr>]\<rparr>)"
    by (simp add: example_options_def breach_lease)
  show ?thesis
  proof (cases "drainOutbox example_options [] breach_tables")
    case (fields res sent' db')
    show ?thesis
      using drain unfolding fields lease by (cases res) (auto simp: settled_as_def example_options_def)
  qed
qed

theorem drain_respects_budget_witness:
  "list_all (\<lambda>r. ob_status r \<noteq> SPending) (od_rows (snd (snd (drainOutbox example_options [] breach_tables))))"
proof -
  define d where "d = drainOutbox example_options [] breach_tables"
  obtain res sent' db' where d': "d = (res, sent', db')" by (cases d)
  obtain p where p: "decodeNotification (ob_payload breach_row) = Inr (Some p)"
    using sanitized_decodes [OF opened_sanitized]
    by (simp add: opened_context_def example_context_def safe_integer_def)
  define db1 where "db1 = breach_tables\<lparr>od_rows := [breach_row\<lparr>ob_attempts := 1, ob_nextAttemptAt := 106\<rparr>]\<rparr>"
  have "settleAlert db1 (replicate 64 (CHR ''0'')) [] \<lparr>sn_status = SAbandoned, sn_attempts = 1, sn_nextAttemptAt = 26\<rparr>
      = Inr (db1\<lparr>od_rows := map (\<lambda>r. if ob_outboxId r = replicate 64 (CHR ''0'')
          then settle_row \<lparr>sn_status = SAbandoned, sn_attempts = 1, sn_nextAttemptAt = 26\<rparr> r else r) (od_rows db1)\<rparr>)"
    by (simp add: settleAlert_def) (rule update_rows_total,
      auto simp: db1_def row_violation_def pg_integer_def settle_row_def)
  then have "od_rows db' = [settle_row \<lparr>sn_status = SAbandoned, sn_attempts = 1, sn_nextAttemptAt = 26\<rparr>
      (breach_row\<lparr>ob_attempts := 1, ob_nextAttemptAt := 106\<rparr>)]"
    using d' p unfolding d_def drainOutbox_def
    by (auto simp: breach_lease example_options_def dispatch_def settled_status_def backoff_def Let_def db1_def)
  moreover have "ob_status r = SPending \<longrightarrow> ob_attempts r < do_maxAttempts example_options"
    if "r \<in> set (od_rows db')" for r
  proof -
    have "ob_outboxId r = replicate 64 (CHR ''0'')" using that calculation by (simp add: settle_row_def)
    then have id: "ob_outboxId r \<in> ob_outboxId ` set [breach_row\<lparr>ob_attempts := 1\<rparr>]" by simp
    have lease: "leaseDueAlerts breach_tables (do_now example_options) (do_batchSize example_options)
        (do_leaseMs example_options) = Inr ([breach_row\<lparr>ob_attempts := 1\<rparr>], db1)"
      by (simp add: example_options_def breach_lease db1_def)
    show ?thesis
      by (rule drain_respects_budget [where sha = example_sha and ops = "[ORaise breach 5 5]" and f = "\<lambda>k. k"
            and ds = "[''d'']" and es = "[]" and ts = "[]", unfolded breach_run, OF _ lease _ d' [unfolded d_def] that id])
        (simp_all add: example_options_def)
  qed
  ultimately show ?thesis
    using d' unfolding d_def by (simp add: settle_row_def example_options_def)
qed

end
