(* ===== verification/Canonical.thy ===== *)
theory Canonical
  imports Json
begin

text \<open>
  packages/evidence/src: canonical JSON (canonical.ts) and content addressing (hash.ts). A JavaScript
  value is a tree; a number is a whole number or something else (fractional, infinite, not a
  number). Strings are lists of 8-bit characters, on which Unicode normalisation to NFC is the
  identity. SHA-256 in hexadecimal is the parameter \<open>sha\<close>.
\<close>

section \<open>Values\<close>

datatype js_number = Whole int | NotWhole

datatype js =
  JsNull
| JsUndef
| JsBool bool
| JsStr string
| JsBig int
| JsNum js_number
| JsFun
| JsForeign
| JsArr "js list"
| JsObj "(string \<times> js) list"

definition nfc :: "string \<Rightarrow> string" where "nfc s = s"

definition js_safe :: "int \<Rightarrow> bool" where
  "js_safe n \<longleftrightarrow> \<bar>n\<bar> \<le> 9007199254740991"

datatype canon_error = NonCanonical string string

section \<open>canonicalise\<close>

definition at_index :: "string \<Rightarrow> nat \<Rightarrow> string" where
  "at_index path i = path @ ''['' @ show_nat i @ '']''"

definition at_member :: "string \<Rightarrow> string \<Rightarrow> string" where
  "at_member path k = path @ ''.'' @ k"

text \<open>The results of the members in the order of the list, the first failure wins.\<close>

fun first_failure :: "(string \<times> ('e + 'a)) list \<Rightarrow> 'e + (string \<times> 'a) list" where
  "first_failure [] = Inr []"
| "first_failure ((k, r) # rs) =
     (case r of
        Inl e \<Rightarrow> Inl e
      | Inr v \<Rightarrow> (case first_failure rs of Inl e \<Rightarrow> Inl e | Inr vs \<Rightarrow> Inr ((k, v) # vs)))"

text \<open>
  The canonical text is the print of a JSON tree: keys sorted by code unit, integers as quoted
  decimals. Pure recursion: the members are computed before they are sorted, and the failure that
  comes first in the sorted order is the one raised.
\<close>

fun canonical_form :: "string \<Rightarrow> js \<Rightarrow> canon_error + json"
  and canonical_items :: "string \<Rightarrow> nat \<Rightarrow> js list \<Rightarrow> canon_error + json list"
  and canonical_members :: "string \<Rightarrow> (string \<times> js) list \<Rightarrow> (string \<times> (canon_error + json)) list" where
  "canonical_form path JsNull = Inr JNull"
| "canonical_form path JsUndef = Inl (NonCanonical path ''undefined is not distinguishable from absent'')"
| "canonical_form path (JsBool b) = Inr (JBool b)"
| "canonical_form path (JsStr s) = Inr (JStr (nfc s))"
| "canonical_form path (JsBig n) = Inr (JStr (show_int n))"
| "canonical_form path (JsNum n) =
     Inl (NonCanonical path ''numbers are doubles; use a bigint or a decimal string'')"
| "canonical_form path JsFun = Inl (NonCanonical path ''function has no canonical form'')"
| "canonical_form path JsForeign = Inl (NonCanonical path ''only plain objects are supported'')"
| "canonical_form path (JsArr vs) =
     (case canonical_items path 0 vs of Inl e \<Rightarrow> Inl e | Inr js \<Rightarrow> Inr (JArr js))"
| "canonical_form path (JsObj kvs) =
     (let entries = canonical_members path kvs
      in if \<not> distinct (map fst entries) then Inl (NonCanonical path ''duplicate normalised key'')
         else (case first_failure (sort_key fst entries) of Inl e \<Rightarrow> Inl e | Inr ms \<Rightarrow> Inr (JObj ms)))"
| "canonical_items path i [] = Inr []"
| "canonical_items path i (v # vs) =
     (case canonical_form (at_index path i) v of
        Inl e \<Rightarrow> Inl e
      | Inr j \<Rightarrow> (case canonical_items path (Suc i) vs of Inl e \<Rightarrow> Inl e | Inr js \<Rightarrow> Inr (j # js)))"
| "canonical_members path [] = []"
| "canonical_members path ((k, v) # kvs) =
     (nfc k, canonical_form (at_member path (nfc k)) v) # canonical_members path kvs"

definition canonicalise :: "js \<Rightarrow> string \<Rightarrow> canon_error + string" where
  "canonicalise v path = (case canonical_form path v of Inl e \<Rightarrow> Inl e | Inr j \<Rightarrow> Inr (json_print j))"

section \<open>toCanonicalValue\<close>

fun toCanonicalValue :: "string \<Rightarrow> js \<Rightarrow> canon_error + js"
  and canonical_value_items :: "string \<Rightarrow> nat \<Rightarrow> js list \<Rightarrow> canon_error + js list"
  and canonical_value_members :: "string \<Rightarrow> (string \<times> js) list \<Rightarrow> canon_error + (string \<times> js) list" where
  "toCanonicalValue path JsNull = Inr JsNull"
| "toCanonicalValue path (JsBig n) = Inr (JsBig n)"
| "toCanonicalValue path (JsStr s) = Inr (JsStr (nfc s))"
| "toCanonicalValue path (JsBool b) = Inr (JsBool b)"
| "toCanonicalValue path (JsNum n) =
     (case n of
        NotWhole \<Rightarrow> Inl (NonCanonical path ''fractional numbers have no canonical form'')
      | Whole i \<Rightarrow>
          if js_safe i then Inr (JsStr (show_int i))
          else Inl (NonCanonical path ''integer is outside the safe range''))"
| "toCanonicalValue path (JsArr vs) =
     (case canonical_value_items path 0 vs of Inl e \<Rightarrow> Inl e | Inr ws \<Rightarrow> Inr (JsArr ws))"
| "toCanonicalValue path JsForeign = Inl (NonCanonical path ''only plain objects are supported'')"
| "toCanonicalValue path (JsObj kvs) =
     (case canonical_value_members path kvs of Inl e \<Rightarrow> Inl e | Inr ms \<Rightarrow> Inr (JsObj ms))"
| "toCanonicalValue path JsUndef = Inl (NonCanonical path ''undefined has no canonical form'')"
| "toCanonicalValue path JsFun = Inl (NonCanonical path ''function has no canonical form'')"
| "canonical_value_items path i [] = Inr []"
| "canonical_value_items path i (v # vs) =
     (case toCanonicalValue (at_index path i) v of
        Inl e \<Rightarrow> Inl e
      | Inr w \<Rightarrow> (case canonical_value_items path (Suc i) vs of Inl e \<Rightarrow> Inl e | Inr ws \<Rightarrow> Inr (w # ws)))"
| "canonical_value_members path [] = Inr []"
| "canonical_value_members path ((k, v) # kvs) =
     (if v = JsUndef then canonical_value_members path kvs
      else case toCanonicalValue (at_member path k) v of
        Inl e \<Rightarrow> Inl e
      | Inr w \<Rightarrow> (case canonical_value_members path kvs of Inl e \<Rightarrow> Inl e | Inr ms \<Rightarrow> Inr ((k, w) # ms)))"

definition canonical_json :: "js \<Rightarrow> canon_error + json" where
  "canonical_json v = (case toCanonicalValue ''$'' v of Inl e \<Rightarrow> Inl e | Inr w \<Rightarrow> canonical_form ''$'' w)"

definition canonicalStringify :: "js \<Rightarrow> canon_error + string" where
  "canonicalStringify v = (case toCanonicalValue ''$'' v of Inl e \<Rightarrow> Inl e | Inr w \<Rightarrow> canonicalise w ''$'')"

text \<open>What \<open>JSON.parse\<close> gives back for a JSON text.\<close>

fun of_json :: "json \<Rightarrow> js" where
  "of_json JNull = JsNull"
| "of_json (JBool b) = JsBool b"
| "of_json (JNum n) = JsNum (Whole n)"
| "of_json (JStr s) = JsStr s"
| "of_json (JArr vs) = JsArr (map of_json vs)"
| "of_json (JObj kvs) = JsObj (map (\<lambda>kv. (fst kv, of_json (snd kv))) kvs)"

section \<open>Content addressing (hash.ts)\<close>

definition EVIDENCE_SCHEMA_VERSION :: string where
  "EVIDENCE_SCHEMA_VERSION = ''ictt-sentinel/evidence/v1''"

definition DOMAIN_PREFIX :: string where
  "DOMAIN_PREFIX = EVIDENCE_SCHEMA_VERSION @ [CHR 0x00]"

definition domainSeparatedSha256 :: "(string \<Rightarrow> string) \<Rightarrow> string \<Rightarrow> string \<Rightarrow> string" where
  "domainSeparatedSha256 sha area payload = sha (area @ [CHR 0x00] @ payload)"

definition hashCore :: "(string \<Rightarrow> string) \<Rightarrow> js \<Rightarrow> canon_error + string" where
  "hashCore sha core =
     (case canonicalStringify core of Inl e \<Rightarrow> Inl e | Inr s \<Rightarrow> Inr (sha (DOMAIN_PREFIX @ s)))"

definition factDigest :: "(string \<Rightarrow> string) \<Rightarrow> int \<Rightarrow> string \<Rightarrow> string \<Rightarrow> int \<Rightarrow> string" where
  "factDigest sha evmChainId blockHash txHash logIndex =
     domainSeparatedSha256 sha ''ictt-sentinel/fact/v1''
       (join ''|'' [show_int evmChainId, blockHash, txHash, show_int logIndex])"

definition stateCallDigest :: "(string \<Rightarrow> string) \<Rightarrow> string \<Rightarrow> string \<Rightarrow> string \<Rightarrow> string" where
  "stateCallDigest sha target calldata result =
     domainSeparatedSha256 sha ''ictt-sentinel/state-call/v1'' (join ''|'' [target, calldata, result])"

section \<open>The canonical form, without paths\<close>

fun canon :: "js \<Rightarrow> json option"
  and canon_items :: "js list \<Rightarrow> json list option"
  and canon_members :: "(string \<times> js) list \<Rightarrow> (string \<times> json) list option" where
  "canon JsNull = Some JNull"
| "canon JsUndef = None"
| "canon (JsBool b) = Some (JBool b)"
| "canon (JsStr s) = Some (JStr s)"
| "canon (JsBig n) = Some (JStr (show_int n))"
| "canon (JsNum n) =
     (case n of Whole i \<Rightarrow> if js_safe i then Some (JStr (show_int i)) else None | NotWhole \<Rightarrow> None)"
| "canon JsFun = None"
| "canon JsForeign = None"
| "canon (JsArr vs) = map_option JArr (canon_items vs)"
| "canon (JsObj kvs) =
     (case canon_members kvs of
        None \<Rightarrow> None
      | Some ms \<Rightarrow> if distinct (map fst ms) then Some (JObj (sort_key fst ms)) else None)"
| "canon_items [] = Some []"
| "canon_items (v # vs) = (case canon v of None \<Rightarrow> None | Some j \<Rightarrow> map_option (Cons j) (canon_items vs))"
| "canon_members [] = Some []"
| "canon_members ((k, v) # kvs) =
     (if v = JsUndef then canon_members kvs
      else case canon v of None \<Rightarrow> None | Some j \<Rightarrow> map_option (Cons (k, j)) (canon_members kvs))"

lemma sort_key_map: "sort_key f (map g xs) = map g (sort_key (\<lambda>x. f (g x)) xs)"
proof -
  have insort: "insort_key f (g x) (map g ys) = map g (insort_key (\<lambda>x. f (g x)) x ys)" for x ys
    by (induction ys) simp_all
  show ?thesis by (induction xs) (simp_all add: insort)
qed

lemma first_failure_ok: "first_failure (map (apsnd Inr) ms) = Inr ms"
  by (induction ms) auto

lemma first_failure_Inr: "first_failure xs = Inr ys \<Longrightarrow> xs = map (apsnd Inr) ys"
proof (induction xs arbitrary: ys)
  case (Cons x xs)
  then show ?case by (cases x; cases "snd x") (auto split: sum.splits)
qed simp

lemma map_fst_apsnd [simp]: "map fst (map (apsnd g) ms) = map fst ms"
  by simp

text \<open>Members without failures are sorted with their results.\<close>

lemma sort_results: "sort_key fst (map (apsnd g) ms) = map (apsnd g) (sort_key fst ms)"
  using sort_key_map [of fst "apsnd g" ms] by (simp add: eta_contract_eq)

lemma first_failure_sorted:
  "first_failure (sort_key fst xs) = Inr ys \<longleftrightarrow> (\<exists>ms. xs = map (apsnd Inr) ms \<and> ys = sort_key fst ms)"
proof
  assume "\<exists>ms. xs = map (apsnd Inr) ms \<and> ys = sort_key fst ms"
  then show "first_failure (sort_key fst xs) = Inr ys" by (auto simp: sort_results first_failure_ok)
next
  assume a: "first_failure (sort_key fst xs) = Inr ys"
  have s: "sort_key fst xs = map (apsnd Inr) ys" by (rule first_failure_Inr [OF a])
  have "\<forall>x\<in>set xs. \<exists>v. snd x = Inr v"
  proof
    fix x assume "x \<in> set xs"
    then have "x \<in> set (map (apsnd Inr) ys)" using s by (metis set_sort)
    then show "\<exists>v. snd x = Inr v" by auto
  qed
  then have "xs = map (apsnd Inr) (map (\<lambda>x. (fst x, projr (snd x))) xs)"
    by (induction xs) auto
  then obtain ms where ms: "xs = map (apsnd Inr) ms" by blast
  have "ys = sort_key fst ms" using a unfolding ms sort_results by (simp add: first_failure_ok)
  with ms show "\<exists>ms. xs = map (apsnd Inr) ms \<and> ys = sort_key fst ms" by blast
qed

text \<open>What the two passes of the code produce is the form.\<close>

lemma two_passes:
  "(case toCanonicalValue path v of
      Inl _ \<Rightarrow> canon v = None
    | Inr w \<Rightarrow> v \<noteq> JsUndef \<and> (\<forall>p j. canonical_form p w = Inr j \<longleftrightarrow> canon v = Some j))"
  "(case canonical_value_items path i vs of
      Inl _ \<Rightarrow> canon_items vs = None
    | Inr ws \<Rightarrow> \<forall>p n js. canonical_items p n ws = Inr js \<longleftrightarrow> canon_items vs = Some js)"
  "(case canonical_value_members path kvs of
      Inl _ \<Rightarrow> canon_members kvs = None
    | Inr ms \<Rightarrow> \<forall>p. map fst (canonical_members p ms) = map fst ms
        \<and> (\<forall>js. canonical_members p ms = map (apsnd Inr) js \<longleftrightarrow> canon_members kvs = Some js))"
proof (induction path v and path i vs and path kvs rule: toCanonicalValue_canonical_value_items_canonical_value_members.induct)
  case (6 path vs)
  show ?case
  proof (cases "canonical_value_items path 0 vs")
    case (Inr ws)
    then have "canonical_items p n ws = Inr js \<longleftrightarrow> canon_items vs = Some js" for p n js using 6 by simp
    then have items: "canonical_items p n ws = Inr js \<longleftrightarrow> canon_items vs = Some js" for p n js .
    have "canonical_form p (JsArr ws) = Inr j \<longleftrightarrow> canon (JsArr vs) = Some j" for p j
    proof (cases "canonical_items p 0 ws")
      case (Inl e)
      then have "canon_items vs = None" using items [of p 0] by (cases "canon_items vs") auto
      with Inl show ?thesis by simp
    next
      case Inr': (Inr js)
      then have "canon_items vs = Some js" using items [of p 0 js] by simp
      with Inr' show ?thesis by simp
    qed
    with Inr show ?thesis by simp
  qed (use 6 in simp)
next
  case (8 path kvs)
  show ?case
  proof (cases "canonical_value_members path kvs")
    case (Inl e)
    with 8 show ?thesis by simp
  next
    case (Inr ms)
    have m: "canonical_members p ms = map (apsnd Inr) js \<longleftrightarrow> canon_members kvs = Some js" for p js
      using 8 Inr by simp
    have fst: "map fst (canonical_members p ms) = map fst ms" for p using 8 Inr by simp
    have js: "canon_members kvs = Some js \<Longrightarrow> map fst js = map fst ms" for js
      using m [of "[]" js] fst [of "[]"] by (metis map_fst_apsnd)
    have "canonical_form p (JsObj ms) = Inr j \<longleftrightarrow> canon (JsObj kvs) = Some j" for p j
    proof (cases "canon_members kvs")
      case None
      then have "\<nexists>ys. first_failure (sort_key fst (canonical_members p ms)) = Inr ys"
        using m by (simp add: first_failure_sorted)
      then show ?thesis using None by (auto simp: Let_def split: sum.splits)
    next
      case (Some js)
      then have "canonical_members p ms = map (apsnd Inr) js" using m by simp
      then show ?thesis using Some by (auto simp: Let_def sort_results first_failure_ok)
    qed
    then show ?thesis using Inr by simp
  qed
next
  case (12 path i v vs)
  show ?case
  proof (cases "toCanonicalValue (at_index path i) v")
    case (Inl e)
    with 12(1) show ?thesis by simp
  next
    case (Inr w)
    have w: "canonical_form p w = Inr j \<longleftrightarrow> canon v = Some j" for p j using 12(1) Inr by simp
    show ?thesis
    proof (cases "canonical_value_items path (Suc i) vs")
      case (Inl e)
      then have "canon_items vs = None" using 12(2) [OF Inr] by simp
      with Inr Inl show ?thesis by (simp split: option.splits)
    next
      case Inr': (Inr ws)
      have m: "canonical_items p n ws = Inr js \<longleftrightarrow> canon_items vs = Some js" for p n js
        using 12(2) [OF Inr] Inr' by simp
      have "canonical_items p n (w # ws) = Inr js \<longleftrightarrow> canon_items (v # vs) = Some js" for p n js
      proof (cases "canonical_form (at_index p n) w")
        case (Inl e)
        then have "canon v = None" using w [of "at_index p n"] by (cases "canon v") auto
        with Inl show ?thesis by simp
      next
        case v: (Inr j)
        then have vs: "canon v = Some j" using w by simp
        show ?thesis
        proof (cases "canonical_items p (Suc n) ws")
          case (Inl e)
          then have "canon_items vs = None" using m [of p "Suc n"] by (cases "canon_items vs") auto
          with Inl v vs show ?thesis by simp
        next
          case (Inr xs)
          then have "canon_items vs = Some xs" using m by simp
          with Inr v vs show ?thesis by simp
        qed
      qed
      with Inr Inr' show ?thesis by simp
    qed
  qed
next
  case (14 path k v kvs)
  show ?case
  proof (cases "v = JsUndef")
    case False
    note nu = this
    show ?thesis
    proof (cases "toCanonicalValue (at_member path k) v")
      case (Inl e)
      with 14(2) nu show ?thesis by simp
    next
      case (Inr w)
      have w: "canonical_form p w = Inr j \<longleftrightarrow> canon v = Some j" for p j using 14(2) nu Inr by simp
      show ?thesis
      proof (cases "canonical_value_members path kvs")
        case (Inl e)
        then have "canon_members kvs = None" using 14(3) [OF nu Inr] by simp
        with nu Inr Inl show ?thesis by (simp split: option.splits)
      next
        case Inr': (Inr ms)
        then have m: "canonical_members p ms = map (apsnd Inr) js \<longleftrightarrow> canon_members kvs = Some js"
          and f: "map fst (canonical_members p ms) = map fst ms" for p js using 14(3) [OF nu Inr] by simp_all
        have "canonical_members p ((k, w) # ms) = map (apsnd Inr) js \<longleftrightarrow> canon_members ((k, v) # kvs) = Some js" for p js
        proof (cases js)
          case Nil
          then show ?thesis using nu by (auto split: option.splits)
        next
          case (Cons x xs)
          then show ?thesis using nu w m by (cases x) (auto simp: nfc_def split: option.splits)
        qed
        then show ?thesis using nu Inr Inr' f by (simp add: nfc_def)
      qed
    qed
  next
    case True
    with 14(1) show ?thesis by (auto split: sum.splits)
  qed
qed (auto simp: nfc_def split: js_number.splits)

theorem canonical_json_iff: "canonical_json v = Inr j \<longleftrightarrow> canon v = Some j"
  using two_passes(1) [where path = "''$''" and v = v] by (auto simp: canonical_json_def split: sum.splits)

lemma canonicalStringify_iff: "canonicalStringify v = Inr s \<longleftrightarrow> (\<exists>j. canon v = Some j \<and> s = json_print j)"
proof -
  have "canonicalStringify v = (case canonical_json v of Inl e \<Rightarrow> Inl e | Inr j \<Rightarrow> Inr (json_print j))"
    by (simp add: canonicalStringify_def canonical_json_def canonicalise_def split: sum.splits)
  then show ?thesis unfolding canonical_json_iff [symmetric] by (auto split: sum.splits)
qed

section \<open>What a canonical text determines\<close>

text \<open>
  Documents that say the same: members in another order, members that are \<open>undefined\<close>, and the
  three spellings of a whole number.
\<close>

inductive same_value :: "js \<Rightarrow> js \<Rightarrow> bool" where
  same_refl: "same_value v v"
| same_count: "js_safe n \<Longrightarrow> same_value (JsNum (Whole n)) (JsBig n)"
| same_amount: "same_value (JsBig n) (JsStr (show_int n))"
| same_items: "list_all2 same_value vs ws \<Longrightarrow> same_value (JsArr vs) (JsArr ws)"
| same_members:
    "list_all2 (rel_prod (=) same_value) kvs lvs \<Longrightarrow> mset lvs = mset mvs \<Longrightarrow>
       same_value (JsObj kvs) (JsObj mvs)"
| same_absent: "same_value (JsObj (kvs @ (k, JsUndef) # lvs)) (JsObj (kvs @ lvs))"
| same_trans: "same_value u v \<Longrightarrow> same_value v w \<Longrightarrow> same_value u w"

lemma canon_items_those: "canon_items vs = those (map canon vs)"
  by (induction vs) (auto split: option.splits)

lemma canon_members_those:
  "canon_members kvs = those (map (\<lambda>kv. map_option (Pair (fst kv)) (canon (snd kv)))
     (filter (\<lambda>kv. snd kv \<noteq> JsUndef) kvs))"
  by (induction kvs) (auto split: option.splits)

lemma those_Some_iff: "those xs = Some ys \<longleftrightarrow> xs = map Some ys"
  by (induction xs arbitrary: ys) (auto split: option.splits simp: Cons_eq_map_conv)

lemma those_None_iff: "those xs = None \<longleftrightarrow> None \<in> set xs"
  by (induction xs) (auto split: option.splits)

lemma those_mset:
  assumes "mset xs = mset ys"
  shows "rel_option (\<lambda>a b. mset a = mset b) (those xs) (those ys)"
proof (cases "None \<in> set xs")
  case True
  moreover have "None \<in> set ys" using True mset_eq_setD [OF assms] by simp
  ultimately show ?thesis by (simp add: those_None_iff [THEN iffD2])
next
  case False
  then obtain a where a: "xs = map Some a" by (metis ex_map_conv not_None_eq)
  have "None \<notin> set ys" using False mset_eq_setD [OF assms] by simp
  then obtain b where b: "ys = map Some b" by (metis ex_map_conv not_None_eq)
  have "image_mset Some (mset a) = image_mset Some (mset b)" using assms a b by simp
  then have "mset (map the (map Some a)) = mset (map the (map Some b))" by (simp only: mset_map)
  then have "mset a = mset b" by (simp add: comp_def)
  moreover have "those xs = Some a" "those ys = Some b" using a b by (simp_all add: those_Some_iff)
  ultimately show ?thesis by simp
qed

lemma sort_key_distinct_permutation:
  fixes ms :: "(string \<times> 'a) list"
  assumes "mset ms = mset ns" and "distinct (map fst ms)"
  shows "sort_key fst ms = sort_key fst ns"
proof (rule map_sorted_distinct_set_unique [where f = fst])
  have "inj_on fst (set ms)" using assms(2) by (simp add: distinct_map)
  then show "inj_on fst (set (sort_key fst ms) \<union> set (sort_key fst ns))"
    using mset_eq_setD [OF assms(1)] by simp
  have "mset (map fst ms) = mset (map fst ns)" using assms(1) by simp
  then show "distinct (map fst (sort_key fst ns))"
    using assms(2) by (metis distinct_map distinct_sort mset_eq_imp_distinct_iff set_sort)
  show "distinct (map fst (sort_key fst ms))" using assms(2) by (simp add: distinct_map)
qed (use mset_eq_setD [OF assms(1)] in simp_all)

lemma canon_members_permutation:
  assumes "mset kvs = mset lvs"
  shows "canon (JsObj kvs) = canon (JsObj lvs)"
proof -
  have "rel_option (\<lambda>a b. mset a = mset b) (canon_members kvs) (canon_members lvs)"
    unfolding canon_members_those by (rule those_mset) (simp add: assms)
  then show ?thesis
  proof (cases rule: option.rel_cases)
    case (Some a b)
    then have "mset (map fst a) = mset (map fst b)" by simp
    then have "distinct (map fst a) \<longleftrightarrow> distinct (map fst b)" by (rule mset_eq_imp_distinct_iff)
    with Some show ?thesis using sort_key_distinct_permutation [of a b] by simp
  qed simp
qed

lemma canon_members_pointwise:
  "list_all2 (rel_prod (=) (\<lambda>v w. canon v = canon w \<and> (v = JsUndef \<longleftrightarrow> w = JsUndef))) kvs lvs \<Longrightarrow>
     canon_members kvs = canon_members lvs"
proof (induction rule: list_all2_induct)
  case (Cons x xs y ys)
  then show ?case by (cases x; cases y) (auto split: option.splits)
qed simp

lemma same_value_canon:
  "same_value v w \<Longrightarrow> canon v = canon w \<and> (v = JsUndef \<longleftrightarrow> w = JsUndef)"
proof (induction rule: same_value.induct)
  case (same_items vs ws)
  then have "map canon vs = map canon ws" by (induction rule: list_all2_induct) auto
  then show ?case by (simp add: canon_items_those)
next
  case (same_members kvs lvs mvs)
  have "canon_members kvs = canon_members lvs"
    by (rule canon_members_pointwise) (use same_members(1) in \<open>auto elim!: list.rel_mono_strong prod.rel_mono_strong\<close>)
  then show ?case using canon_members_permutation [OF same_members(2)] by simp
next
  case (same_absent kvs k lvs)
  then show ?case by (simp add: canon_members_those)
qed auto

text \<open>
  C23. The canonical text depends on what a document says and on nothing else: two documents that say
  the same have the same text, or neither has one. What a document says includes neither the order of its
  members nor its undefined members: an undefined member says what an absent one says, although the
  comment on \<open>canonicalise\<close> wants the two kept apart (\<open>undefined_member_hashes_as_absent\<close> below).
\<close>

theorem canonicalStringify_same_value:
  assumes "same_value v w"
  shows "canonicalStringify v = Inr s \<longleftrightarrow> canonicalStringify w = Inr s"
  using same_value_canon [OF assms] by (simp add: canonicalStringify_iff)

theorem canonicalStringify_same_value_witness:
  "canonicalStringify (JsObj [(''b'', JsNum (Whole 7)), (''a'', JsNull), (''c'', JsUndef)])
     = canonicalStringify (JsObj [(''a'', JsNull), (''b'', JsBig 7)])"
proof -
  let ?v = "JsObj [(''b'', JsNum (Whole 7)), (''a'', JsNull), (''c'', JsUndef)]"
  let ?w = "JsObj [(''a'', JsNull), (''b'', JsBig 7)]"
  have "same_value ?v (JsObj [(''b'', JsNum (Whole 7)), (''a'', JsNull)])"
    using same_absent [of "[(''b'', JsNum (Whole 7)), (''a'', JsNull)]" "''c''" "[]"] by simp
  moreover have "same_value (JsObj [(''b'', JsNum (Whole 7)), (''a'', JsNull)]) ?w"
    by (rule same_members [where lvs = "[(''b'', JsBig 7), (''a'', JsNull)]"])
      (auto intro: same_value.intros simp: js_safe_def)
  ultimately have "same_value ?v ?w" by (rule same_trans)
  moreover have "canon ?w = Some (JObj [(''a'', JNull), (''b'', JStr ''7'')])" by code_simp
  then have "\<exists>s. canonicalStringify ?w = Inr s" by (auto simp: canonicalStringify_iff)
  ultimately show ?thesis using canonicalStringify_same_value [of ?v ?w] by auto
qed

text \<open>
  The comment on \<open>canonicalise\<close> says that undefined is rejected because absent and present but undefined must
  not hash the same. The first pass drops undefined members before it, so they do.
\<close>

lemma undefined_member_hashes_as_absent:
  "canonicalStringify (JsObj (kvs @ (k, JsUndef) # lvs)) = Inr s \<longleftrightarrow> canonicalStringify (JsObj (kvs @ lvs)) = Inr s"
  "hashCore sha (JsObj (kvs @ (k, JsUndef) # lvs)) = Inr h \<longleftrightarrow> hashCore sha (JsObj (kvs @ lvs)) = Inr h"
proof -
  have "canon (JsObj (kvs @ (k, JsUndef) # lvs)) = canon (JsObj (kvs @ lvs))"
    by (simp add: canon_members_those)
  then have same: "canonicalStringify (JsObj (kvs @ (k, JsUndef) # lvs)) = Inr t
      \<longleftrightarrow> canonicalStringify (JsObj (kvs @ lvs)) = Inr t" for t
    by (simp only: canonicalStringify_iff)
  then show "canonicalStringify (JsObj (kvs @ (k, JsUndef) # lvs)) = Inr s \<longleftrightarrow> canonicalStringify (JsObj (kvs @ lvs)) = Inr s" .
  have "hashCore sha v = Inr h \<longleftrightarrow> (\<exists>t. canonicalStringify v = Inr t \<and> h = sha (DOMAIN_PREFIX @ t))" for v
    by (auto simp: hashCore_def split: sum.splits)
  then show "hashCore sha (JsObj (kvs @ (k, JsUndef) # lvs)) = Inr h \<longleftrightarrow> hashCore sha (JsObj (kvs @ lvs)) = Inr h"
    by (simp only: same)
qed

text \<open>A canonical document, read back and written again, is the same text.\<close>

lemma of_json_defined [simp]: "of_json j \<noteq> JsUndef"
  by (cases j) simp_all

lemma canon_members_of_json:
  "\<forall>m \<in> set ms. canon (of_json (snd m)) = Some (snd m) \<Longrightarrow>
     canon_members (map (\<lambda>kv. (fst kv, of_json (snd kv))) ms) = Some ms"
  by (induction ms) auto

lemma canon_fixpoint:
  "canon v = Some j \<Longrightarrow> canon (of_json j) = Some j"
  "canon_items vs = Some js \<Longrightarrow> canon_items (map of_json js) = Some js"
  "canon_members kvs = Some ms \<Longrightarrow> \<forall>m \<in> set ms. canon (of_json (snd m)) = Some (snd m)"
proof (induction v and vs and kvs arbitrary: j and js and ms rule: canon_canon_items_canon_members.induct)
  case (6 n)
  then show ?case by (auto split: js_number.splits if_splits)
next
  case (10 kvs)
  then obtain ms where m: "canon_members kvs = Some ms" and "distinct (map fst ms)"
    and j: "j = JObj (sort_key fst ms)"
    by (auto split: option.splits if_splits)
  moreover have "canon_members (map (\<lambda>kv. (fst kv, of_json (snd kv))) (sort_key fst ms)) = Some (sort_key fst ms)"
    by (rule canon_members_of_json) (use 10(1) [OF m] in simp)
  ultimately show ?case by (simp add: distinct_map sort_key_id_if_sorted)
next
  case (14 k v kvs)
  then show ?case by (fastforce split: if_splits option.splits)
qed (auto split: option.splits)

lemma canon_of_canonical: "canonicalStringify v = Inr s \<Longrightarrow> \<exists>j. s = json_print j \<and> canonicalStringify (of_json j) = Inr s"
  unfolding canonicalStringify_iff using canon_fixpoint(1) by blast

lemma hashCore_separates:
  assumes "hashCore sha v = Inr h" and "hashCore sha w = Inr h"
    and "\<And>s t. sha (DOMAIN_PREFIX @ s) = sha (DOMAIN_PREFIX @ t) \<Longrightarrow> s = t"
  shows "canon v = canon w \<and> canon v \<noteq> None"
proof -
  obtain s t where "canonicalStringify v = Inr s" "canonicalStringify w = Inr t"
    "h = sha (DOMAIN_PREFIX @ s)" "h = sha (DOMAIN_PREFIX @ t)"
    using assms(1,2) by (auto simp: hashCore_def split: sum.splits)
  moreover from this assms(3) have "s = t" by auto
  ultimately show ?thesis by (auto simp: canonicalStringify_iff)
qed

text \<open>With a hash that separates their texts, equal content hashes mean equal documents.\<close>

theorem hashCore_inject:
  assumes "hashCore sha v = Inr h" and "hashCore sha w = Inr h"
    and "\<And>s t. sha (DOMAIN_PREFIX @ s) = sha (DOMAIN_PREFIX @ t) \<Longrightarrow> s = t"
  shows "canon v = canon w \<and> canon v \<noteq> None"
  using assms by (rule hashCore_separates)

theorem hashCore_inject_witness:
  "canon (JsObj [(''a'', JsBig 1), (''b'', JsNull)]) = canon (JsObj [(''b'', JsNull), (''a'', JsStr ''1'')])
   \<and> canon (JsObj [(''a'', JsBig 1), (''b'', JsNull)]) \<noteq> None"
  by (rule hashCore_inject [where sha = "\<lambda>s. s" and h = "DOMAIN_PREFIX @ ''{\"a\":\"1\",\"b\":null}''"])
    (code_simp, code_simp, simp)

end
