(* ===== verification/EvidenceReplay.thy ===== *)
theory EvidenceReplay
  imports Canonical Engine GlobalVerdict Alerts
begin

text \<open>
  packages/evidence/src/replay.ts: the proof input of a bundle, decoded from JSON field by field, and
  the replay of the canonical ERC20 rule over it. A parser reads an optional JSON value, \<open>None\<close> is
  \<open>undefined\<close>. An object of the engine is written to canonical JSON through its \<open>js\<close> view.
\<close>

section \<open>Parsers\<close>

datatype replay_error = ReplayError string | ReplayNonCanonical canon_error

type_synonym json_object = "(string \<times> json) list"

definition and_then :: "'e + 'a \<Rightarrow> ('a \<Rightarrow> 'e + 'b) \<Rightarrow> 'e + 'b" where
  "and_then r f = (case r of Inl e \<Rightarrow> Inl e | Inr v \<Rightarrow> f v)"

lemma and_then_simps [simp]: "and_then (Inl e) f = Inl e" "and_then (Inr v) f = f v"
  by (simp_all add: and_then_def)

lemma and_then_Inr: "and_then r f = Inr w \<longleftrightarrow> (\<exists>v. r = Inr v \<and> f v = Inr w)"
  by (cases r) simp_all

definition object_of :: "json option \<Rightarrow> replay_error + json_object" where
  "object_of v = (case v of Some (JObj ms) \<Rightarrow> Inr ms | _ \<Rightarrow> Inl (ReplayError ''expected object''))"

definition text_of :: "json option \<Rightarrow> replay_error + string" where
  "text_of v = (case v of Some (JStr s) \<Rightarrow> Inr s | _ \<Rightarrow> Inl (ReplayError ''expected string''))"

definition bool_of :: "json option \<Rightarrow> replay_error + bool" where
  "bool_of v = (case v of Some (JBool b) \<Rightarrow> Inr b | _ \<Rightarrow> Inl (ReplayError ''expected boolean''))"

definition uint256_text :: "string \<Rightarrow> bool" where
  "uint256_text s \<longleftrightarrow> canonical_decimal s \<and> \<not> length s > 78 \<and> \<not> int (read_nat s) \<ge> 2 ^ 256"

definition uint_of :: "json option \<Rightarrow> replay_error + int" where
  "uint_of v = and_then (text_of v) (\<lambda>s.
     if uint256_text s then Inr (int (read_nat s)) else Inl (ReplayError ''invalid uint256''))"

definition count_of :: "json option \<Rightarrow> replay_error + int" where
  "count_of v = and_then (uint_of v) (\<lambda>n.
     if n > 9007199254740991 then Inl (ReplayError ''invalid count'') else Inr n)"

definition nullable_of :: "(json option \<Rightarrow> replay_error + 'a) \<Rightarrow> json option \<Rightarrow> replay_error + 'a option" where
  "nullable_of parse v = (if v = Some JNull then Inr None else and_then (parse v) (\<lambda>x. Inr (Some x)))"

fun parse_all :: "('a \<Rightarrow> 'e + 'b) \<Rightarrow> 'a list \<Rightarrow> 'e + 'b list" where
  "parse_all parse [] = Inr []"
| "parse_all parse (v # vs) = and_then (parse v) (\<lambda>x. and_then (parse_all parse vs) (\<lambda>xs. Inr (x # xs)))"

definition array_of :: "(json option \<Rightarrow> replay_error + 'a) \<Rightarrow> json option \<Rightarrow> replay_error + 'a list" where
  "array_of parse v =
     (case v of Some (JArr vs) \<Rightarrow> parse_all (\<lambda>item. parse (Some item)) vs
      | _ \<Rightarrow> Inl (ReplayError ''expected array''))"

definition choice_of :: "('a \<Rightarrow> string) \<Rightarrow> 'a list \<Rightarrow> json option \<Rightarrow> replay_error + 'a" where
  "choice_of spelling choices v = and_then (text_of v) (\<lambda>s.
     case map_of (map (\<lambda>c. (spelling c, c)) choices) s of
       None \<Rightarrow> Inl (ReplayError ''unknown enum'') | Some c \<Rightarrow> Inr c)"

definition pin_of :: "json option \<Rightarrow> replay_error + pinned_block" where
  "pin_of v = and_then (object_of v) (\<lambda>p.
     and_then (text_of (map_of p ''blockchainId'')) (\<lambda>blockchainId.
     and_then (uint_of (map_of p ''blockNumber'')) (\<lambda>blockNumber.
     and_then (text_of (map_of p ''blockHash'')) (\<lambda>blockHash.
       Inr \<lparr>pb_blockchainId = blockchainId, pb_blockNumber = blockNumber, pb_blockHash = blockHash\<rparr>))))"

section \<open>The js view of a proof input\<close>

definition js_opt :: "('a \<Rightarrow> js) \<Rightarrow> 'a option \<Rightarrow> js" where
  "js_opt f x = (case x of None \<Rightarrow> JsNull | Some v \<Rightarrow> f v)"

definition js_count :: "int \<Rightarrow> js" where
  "js_count n = JsNum (Whole n)"

definition js_texts :: "string list \<Rightarrow> js" where
  "js_texts xs = JsArr (map JsStr xs)"

definition pin_js :: "pinned_block \<Rightarrow> js" where
  "pin_js p = JsObj
     [(''blockchainId'', JsStr (pb_blockchainId p)), (''blockNumber'', JsBig (pb_blockNumber p)),
      (''blockHash'', JsStr (pb_blockHash p))]"

definition provenance_js :: "provenance_input \<Rightarrow> js" where
  "provenance_js p = JsObj
     [(''manifestHash'', js_opt JsStr (pv_manifestHash p)), (''policyHash'', js_opt JsStr (pv_policyHash p)),
      (''sourceLockCommitSha'', js_opt JsStr (pv_sourceLockCommitSha p)),
      (''adapterId'', js_opt JsStr (pv_adapterId p)),
      (''adapterVersion'', js_opt js_count (pv_adapterVersion p)),
      (''ruleVersion'', JsStr (pv_ruleVersion p))]"

definition freshness_js :: "freshness_input \<Rightarrow> js" where
  "freshness_js f = JsObj
     [(''fresh'', JsBool (fr_fresh f)),
      (''independentWitnessGroups'', js_count (fr_independentWitnessGroups f)),
      (''requiredWitnessGroups'', js_count (fr_requiredWitnessGroups f))]"

definition scale_js :: "token_scale_input \<Rightarrow> js" where
  "scale_js s = JsObj
     [(''tokenMultiplier'', JsBig (tsc_tokenMultiplier s)), (''multiplyOnRemote'', JsBool (tsc_multiplyOnRemote s)),
      (''homeDecimals'', js_count (tsc_homeDecimals s)), (''remoteDecimals'', js_count (tsc_remoteDecimals s)),
      (''established'', JsBool (tsc_established s))]"

definition remote_js :: "remote_observation \<Rightarrow> js" where
  "remote_js r = JsObj
     [(''remoteBlockchainId'', JsStr (ro_remoteBlockchainId r)), (''remoteAddress'', JsStr (ro_remoteAddress r)),
      (''transferredBalance'', js_opt JsBig (ro_transferredBalance r)),
      (''remoteTotalSupply'', js_opt JsBig (ro_remoteTotalSupply r)),
      (''scale'', scale_js (ro_scale r)),
      (''homePin'', js_opt pin_js (ro_homePin r)), (''remotePin'', js_opt pin_js (ro_remotePin r)),
      (''fingerprintRecognised'', JsBool (ro_fingerprintRecognised r)),
      (''tokenBehaviourCanonical'', JsBool (ro_tokenBehaviourCanonical r)),
      (''routeSingleHop'', JsBool (ro_routeSingleHop r)),
      (''initialReserveImbalance'', JsBig (ro_initialReserveImbalance r))]"

definition pending_js :: "pending_envelope \<Rightarrow> js" where
  "pending_js p = JsObj
     [(''messageKey'', JsStr (pe_messageKey p)), (''direction'', JsStr (direction_text (pe_direction p))),
      (''amount'', JsBig (pe_amount p)), (''ageSeconds'', js_count (pe_ageSeconds p)),
      (''remoteBlockchainId'', JsStr (pe_remoteBlockchainId p)),
      (''remoteAddress'', JsStr (pe_remoteAddress p))]"

definition effect_js :: "credited_effect \<Rightarrow> js" where
  "effect_js e = JsObj
     [(''messageKey'', JsStr (ce_messageKey e)), (''amount'', JsBig (ce_amount e)),
      (''remoteBlockchainId'', JsStr (ce_remoteBlockchainId e)),
      (''remoteAddress'', JsStr (ce_remoteAddress e)),
      (''hasUniqueAuthorisedSource'', JsBool (ce_hasUniqueAuthorisedSource e)),
      (''routeMatchesSource'', JsBool (ce_routeMatchesSource e)),
      (''duplicateEffect'', JsBool (ce_duplicateEffect e)),
      (''causalSourceFact'', js_opt JsStr (ce_causalSourceFact e))]"

definition escrow_js :: "home_escrow_input \<Rightarrow> js" where
  "escrow_js h = JsObj
     [(''escrowBalance'', js_opt JsBig (he_escrowBalance h)), (''homePin'', js_opt pin_js (he_homePin h)),
      (''acceptedCollateralHomeUnits'', JsBig (he_acceptedCollateralHomeUnits h))]"

definition proof_input_js :: "proof_input \<Rightarrow> js" where
  "proof_input_js input = JsObj
     [(''deploymentId'', JsStr (pi_deploymentId input)), (''family'', JsStr (pi_family input)),
      (''provenance'', provenance_js (pi_provenance input)),
      (''census'', JsStr (census_text (pi_census input))), (''cut'', JsStr (cut_text (pi_cut input))),
      (''untrackedRemotes'', js_texts (pi_untrackedRemotes input)),
      (''freshness'', freshness_js (pi_freshness input)),
      (''remotes'', JsArr (map remote_js (pi_remotes input))),
      (''pending'', JsArr (map pending_js (pi_pending input))),
      (''effects'', JsArr (map effect_js (pi_effects input))),
      (''homeEscrow'', escrow_js (pi_homeEscrow input)),
      (''pendingAgeLimitSeconds'', js_count (pi_pendingAgeLimitSeconds input))]"

definition lift_canon :: "canon_error + 'a \<Rightarrow> replay_error + 'a" where
  "lift_canon r = (case r of Inl e \<Rightarrow> Inl (ReplayNonCanonical e) | Inr v \<Rightarrow> Inr v)"

text \<open>\<open>JSON.parse(canonicalStringify(v))\<close> is the tree the text was printed from.\<close>

definition encodeProofInput :: "proof_input \<Rightarrow> canon_error + json" where
  "encodeProofInput input = canonical_json (proof_input_js input)"

section \<open>decodeProofInput\<close>

definition decode_provenance :: "json_object \<Rightarrow> replay_error + provenance_input" where
  "decode_provenance p =
     and_then (nullable_of text_of (map_of p ''manifestHash'')) (\<lambda>manifestHash.
     and_then (nullable_of text_of (map_of p ''policyHash'')) (\<lambda>policyHash.
     and_then (nullable_of text_of (map_of p ''sourceLockCommitSha'')) (\<lambda>sourceLockCommitSha.
     and_then (nullable_of text_of (map_of p ''adapterId'')) (\<lambda>adapterId.
     and_then (nullable_of count_of (map_of p ''adapterVersion'')) (\<lambda>adapterVersion.
     and_then (text_of (map_of p ''ruleVersion'')) (\<lambda>ruleVersion.
       Inr \<lparr>pv_manifestHash = manifestHash, pv_policyHash = policyHash,
            pv_sourceLockCommitSha = sourceLockCommitSha, pv_adapterId = adapterId,
            pv_adapterVersion = adapterVersion, pv_ruleVersion = ruleVersion\<rparr>))))))"

definition decode_freshness :: "json_object \<Rightarrow> replay_error + freshness_input" where
  "decode_freshness f =
     and_then (bool_of (map_of f ''fresh'')) (\<lambda>fresh.
     and_then (count_of (map_of f ''independentWitnessGroups'')) (\<lambda>independentWitnessGroups.
     and_then (count_of (map_of f ''requiredWitnessGroups'')) (\<lambda>requiredWitnessGroups.
       Inr \<lparr>fr_fresh = fresh, fr_independentWitnessGroups = independentWitnessGroups,
            fr_requiredWitnessGroups = requiredWitnessGroups\<rparr>)))"

definition decode_scale :: "json_object \<Rightarrow> replay_error + token_scale_input" where
  "decode_scale s =
     and_then (uint_of (map_of s ''tokenMultiplier'')) (\<lambda>tokenMultiplier.
     and_then (bool_of (map_of s ''multiplyOnRemote'')) (\<lambda>multiplyOnRemote.
     and_then (count_of (map_of s ''homeDecimals'')) (\<lambda>homeDecimals.
     and_then (count_of (map_of s ''remoteDecimals'')) (\<lambda>remoteDecimals.
     and_then (bool_of (map_of s ''established'')) (\<lambda>established.
       Inr \<lparr>tsc_tokenMultiplier = tokenMultiplier, tsc_multiplyOnRemote = multiplyOnRemote,
            tsc_homeDecimals = homeDecimals, tsc_remoteDecimals = remoteDecimals,
            tsc_established = established\<rparr>)))))"

definition decode_remote :: "json option \<Rightarrow> replay_error + remote_observation" where
  "decode_remote item =
     and_then (object_of item) (\<lambda>r.
     and_then (object_of (map_of r ''scale'')) (\<lambda>s.
     and_then (text_of (map_of r ''remoteBlockchainId'')) (\<lambda>remoteBlockchainId.
     and_then (text_of (map_of r ''remoteAddress'')) (\<lambda>remoteAddress.
     and_then (nullable_of uint_of (map_of r ''transferredBalance'')) (\<lambda>transferredBalance.
     and_then (nullable_of uint_of (map_of r ''remoteTotalSupply'')) (\<lambda>remoteTotalSupply.
     and_then (decode_scale s) (\<lambda>scale.
     and_then (nullable_of pin_of (map_of r ''homePin'')) (\<lambda>homePin.
     and_then (nullable_of pin_of (map_of r ''remotePin'')) (\<lambda>remotePin.
     and_then (bool_of (map_of r ''fingerprintRecognised'')) (\<lambda>fingerprintRecognised.
     and_then (bool_of (map_of r ''tokenBehaviourCanonical'')) (\<lambda>tokenBehaviourCanonical.
     and_then (bool_of (map_of r ''routeSingleHop'')) (\<lambda>routeSingleHop.
     and_then (uint_of (map_of r ''initialReserveImbalance'')) (\<lambda>initialReserveImbalance.
       Inr \<lparr>ro_remoteBlockchainId = remoteBlockchainId, ro_remoteAddress = remoteAddress,
            ro_transferredBalance = transferredBalance, ro_remoteTotalSupply = remoteTotalSupply,
            ro_scale = scale, ro_homePin = homePin, ro_remotePin = remotePin,
            ro_fingerprintRecognised = fingerprintRecognised,
            ro_tokenBehaviourCanonical = tokenBehaviourCanonical, ro_routeSingleHop = routeSingleHop,
            ro_initialReserveImbalance = initialReserveImbalance\<rparr>)))))))))))))"

definition decode_pending :: "json option \<Rightarrow> replay_error + pending_envelope" where
  "decode_pending item =
     and_then (object_of item) (\<lambda>r.
     and_then (text_of (map_of r ''messageKey'')) (\<lambda>messageKey.
     and_then (choice_of direction_text [HomeToRemote, RemoteToHome] (map_of r ''direction'')) (\<lambda>direction.
     and_then (uint_of (map_of r ''amount'')) (\<lambda>amount.
     and_then (count_of (map_of r ''ageSeconds'')) (\<lambda>ageSeconds.
     and_then (text_of (map_of r ''remoteBlockchainId'')) (\<lambda>remoteBlockchainId.
     and_then (text_of (map_of r ''remoteAddress'')) (\<lambda>remoteAddress.
       Inr \<lparr>pe_messageKey = messageKey, pe_direction = direction, pe_amount = amount,
            pe_ageSeconds = ageSeconds, pe_remoteBlockchainId = remoteBlockchainId,
            pe_remoteAddress = remoteAddress\<rparr>)))))))"

definition decode_effect :: "json option \<Rightarrow> replay_error + credited_effect" where
  "decode_effect item =
     and_then (object_of item) (\<lambda>r.
     and_then (text_of (map_of r ''messageKey'')) (\<lambda>messageKey.
     and_then (uint_of (map_of r ''amount'')) (\<lambda>amount.
     and_then (text_of (map_of r ''remoteBlockchainId'')) (\<lambda>remoteBlockchainId.
     and_then (text_of (map_of r ''remoteAddress'')) (\<lambda>remoteAddress.
     and_then (bool_of (map_of r ''hasUniqueAuthorisedSource'')) (\<lambda>hasUniqueAuthorisedSource.
     and_then (bool_of (map_of r ''routeMatchesSource'')) (\<lambda>routeMatchesSource.
     and_then (bool_of (map_of r ''duplicateEffect'')) (\<lambda>duplicateEffect.
     and_then (nullable_of text_of (map_of r ''causalSourceFact'')) (\<lambda>causalSourceFact.
       Inr \<lparr>ce_messageKey = messageKey, ce_remoteBlockchainId = remoteBlockchainId,
            ce_remoteAddress = remoteAddress, ce_amount = amount,
            ce_hasUniqueAuthorisedSource = hasUniqueAuthorisedSource,
            ce_routeMatchesSource = routeMatchesSource, ce_duplicateEffect = duplicateEffect,
            ce_causalSourceFact = causalSourceFact\<rparr>)))))))))"

definition decode_escrow :: "json_object \<Rightarrow> replay_error + home_escrow_input" where
  "decode_escrow h =
     and_then (nullable_of uint_of (map_of h ''escrowBalance'')) (\<lambda>escrowBalance.
     and_then (nullable_of pin_of (map_of h ''homePin'')) (\<lambda>homePin.
     and_then (uint_of (map_of h ''acceptedCollateralHomeUnits'')) (\<lambda>acceptedCollateralHomeUnits.
       Inr \<lparr>he_escrowBalance = escrowBalance, he_homePin = homePin,
            he_acceptedCollateralHomeUnits = acceptedCollateralHomeUnits\<rparr>)))"

text \<open>The object literal, its fields in the order of evaluation.\<close>

definition decode_fields :: "json option \<Rightarrow> replay_error + proof_input" where
  "decode_fields value =
     and_then (object_of value) (\<lambda>v.
     and_then (object_of (map_of v ''provenance'')) (\<lambda>p.
     and_then (object_of (map_of v ''freshness'')) (\<lambda>f.
     and_then (object_of (map_of v ''homeEscrow'')) (\<lambda>h.
     and_then (text_of (map_of v ''deploymentId'')) (\<lambda>deploymentId.
     and_then (text_of (map_of v ''family'')) (\<lambda>family.
     and_then (decode_provenance p) (\<lambda>provenance.
     and_then (choice_of census_text [CompleteFromDeploymentBlock, PartialCensus, UnknownCensus]
       (map_of v ''census'')) (\<lambda>census.
     and_then (choice_of cut_text [CutClosed, CutOpen, CutGap] (map_of v ''cut'')) (\<lambda>cut.
     and_then (array_of text_of (map_of v ''untrackedRemotes'')) (\<lambda>untrackedRemotes.
     and_then (decode_freshness f) (\<lambda>freshness.
     and_then (array_of decode_remote (map_of v ''remotes'')) (\<lambda>remotes.
     and_then (array_of decode_pending (map_of v ''pending'')) (\<lambda>pending.
     and_then (array_of decode_effect (map_of v ''effects'')) (\<lambda>effects.
     and_then (decode_escrow h) (\<lambda>homeEscrow.
     and_then (count_of (map_of v ''pendingAgeLimitSeconds'')) (\<lambda>pendingAgeLimitSeconds.
       Inr \<lparr>pi_deploymentId = deploymentId, pi_family = family, pi_provenance = provenance,
            pi_census = census, pi_untrackedRemotes = untrackedRemotes, pi_cut = cut,
            pi_freshness = freshness, pi_remotes = remotes, pi_pending = pending,
            pi_effects = effects, pi_homeEscrow = homeEscrow,
            pi_pendingAgeLimitSeconds = pendingAgeLimitSeconds\<rparr>))))))))))))))))"

text \<open>\<open>canonicalStringify(a) !== canonicalStringify(b)\<close>, which throws where one has no text.\<close>

definition same_text :: "js \<Rightarrow> js \<Rightarrow> replay_error + bool" where
  "same_text a b =
     and_then (lift_canon (canonicalStringify a)) (\<lambda>s.
     and_then (lift_canon (canonicalStringify b)) (\<lambda>t. Inr (s = t)))"

definition js_value :: "json option \<Rightarrow> js" where
  "js_value v = (case v of None \<Rightarrow> JsUndef | Some j \<Rightarrow> of_json j)"

definition decodeProofInput :: "json option \<Rightarrow> replay_error + proof_input" where
  "decodeProofInput value =
     and_then (decode_fields value) (\<lambda>input.
     and_then (same_text (proof_input_js input) (js_value value)) (\<lambda>same.
       if \<not> same then Inl (ReplayError ''unknown or noncanonical input field'') else Inr input))"

section \<open>What a decoder owes its view\<close>

text \<open>The canonical tree of a value that has one, and the members of a canonical object.\<close>

definition tree_of :: "js \<Rightarrow> json" where
  "tree_of v = the (canon v)"

definition sorted_members :: "(string \<times> json) list \<Rightarrow> json_object" where
  "sorted_members ms = sort_key fst ms"

lemma map_of_sorted_members: "distinct (map fst ms) \<Longrightarrow> map_of (sorted_members ms) = map_of ms"
  unfolding sorted_members_def by (subst map_of_inject_set) (simp_all add: distinct_map)

lemma canon_object:
  assumes "distinct (map fst kvs)"
    and "\<forall>kv \<in> set kvs. snd kv \<noteq> JsUndef \<and> canon (snd kv) = Some (tree_of (snd kv))"
  shows "canon (JsObj kvs) = Some (JObj (sorted_members (map (apsnd tree_of) kvs)))"
proof -
  have "canon_members kvs = Some (map (apsnd tree_of) kvs)"
    using assms(2) by (induction kvs) auto
  with assms(1) show ?thesis by (simp add: sorted_members_def)
qed

definition tree_members :: "(string \<times> js) list \<Rightarrow> json_object" where
  "tree_members kvs = sorted_members (map (apsnd tree_of) kvs)"

lemma map_of_tree_members:
  "distinct (map fst kvs) \<Longrightarrow> map_of (tree_members kvs) k = map_option tree_of (map_of kvs k)"
  unfolding tree_members_def
  by (subst map_of_sorted_members) (simp_all add: apsnd_def map_prod_def map_of_map comp_def case_prod_beta)

text \<open>
  The interface between the engine's objects and the JSON of a bundle: a well-formed object has a
  canonical tree, the decoder reads the tree back as the object, and it answers well-formed objects
  only.
\<close>

locale codec =
  fixes view :: "'a \<Rightarrow> js"
    and parse :: "json option \<Rightarrow> replay_error + 'a"
    and ok :: "'a \<Rightarrow> bool"
  assumes canonical: "ok x \<Longrightarrow> canon (view x) = Some (tree_of (view x))"
    and reads: "ok x \<Longrightarrow> parse (Some (tree_of (view x))) = Inr x"
    and accepts: "parse v = Inr x \<Longrightarrow> ok x"
    and present: "ok x \<Longrightarrow> tree_of (view x) \<noteq> JNull"
    and stated: "view x \<noteq> JsUndef"
begin

lemma array_canonical:
  assumes "\<forall>x \<in> set xs. ok x"
  shows "canon (JsArr (map view xs)) = Some (JArr (map (\<lambda>x. tree_of (view x)) xs))"
proof -
  have "canon_items (map view xs) = Some (map (\<lambda>x. tree_of (view x)) xs)"
    using assms by (induction xs) (simp_all add: canonical)
  then show ?thesis by simp
qed

lemma array_tree:
  "\<forall>x \<in> set xs. ok x \<Longrightarrow> canon (JsArr (map view xs)) = Some (tree_of (JsArr (map view xs)))"
  unfolding tree_of_def by (simp only: array_canonical option.sel)

lemma array_reads:
  assumes "\<forall>x \<in> set xs. ok x"
  shows "array_of parse (Some (tree_of (JsArr (map view xs)))) = Inr xs"
proof -
  have "parse_all (\<lambda>item. parse (Some item)) (map (\<lambda>x. tree_of (view x)) xs) = Inr xs"
    using assms by (induction xs) (simp_all add: reads)
  then show ?thesis unfolding array_of_def tree_of_def [of "JsArr _"] array_canonical [OF assms] by simp
qed

lemma array_accepts: "array_of parse v = Inr xs \<Longrightarrow> \<forall>x \<in> set xs. ok x"
proof -
  have "parse_all (\<lambda>item. parse (Some item)) vs = Inr xs \<Longrightarrow> \<forall>x \<in> set xs. ok x" for vs
    by (induction vs arbitrary: xs) (auto simp: and_then_Inr dest: accepts)
  then show "array_of parse v = Inr xs \<Longrightarrow> \<forall>x \<in> set xs. ok x"
    by (auto simp: array_of_def split: option.splits json.splits)
qed

lemma opt_tree: "pred_option ok x \<Longrightarrow> canon (js_opt view x) = Some (tree_of (js_opt view x))"
  by (cases x) (simp_all add: js_opt_def canonical tree_of_def [of JsNull])

lemma opt_reads: "pred_option ok x \<Longrightarrow> nullable_of parse (Some (tree_of (js_opt view x))) = Inr x"
  by (cases x) (simp_all add: js_opt_def nullable_of_def reads present tree_of_def [of JsNull])

lemma opt_accepts: "nullable_of parse v = Inr x \<Longrightarrow> pred_option ok x"
  by (auto simp: nullable_of_def and_then_Inr dest: accepts split: if_splits)

lemma opt_stated: "js_opt view x \<noteq> JsUndef"
  by (cases x) (simp_all add: js_opt_def stated)

end

section \<open>The decoders of replay.ts\<close>

definition uint256 :: "int \<Rightarrow> bool" where
  "uint256 n \<longleftrightarrow> 0 \<le> n \<and> n < 2 ^ 256"

definition safe_count :: "int \<Rightarrow> bool" where
  "safe_count n \<longleftrightarrow> 0 \<le> n \<and> n \<le> 9007199254740991"

lemma length_show_nat: "n < 10 ^ k \<Longrightarrow> 0 < k \<Longrightarrow> length (show_nat n) \<le> k"
proof (induction n arbitrary: k rule: show_nat.induct)
  case (1 n)
  show ?case
  proof (cases "n < 10")
    case False
    then obtain m where k: "k = Suc m" and "0 < m" using 1(2,3) by (cases k; cases "k - 1") auto
    have "n div 10 < 10 ^ m" using 1(2) unfolding k by (simp add: less_mult_imp_div_less mult.commute)
    from 1(1) [OF False this \<open>0 < m\<close>] show ?thesis using False k by (subst show_nat.simps) simp
  next
    case True
    then show ?thesis using 1(3) by (subst show_nat.simps) simp
  qed
qed

lemma uint256_text_show: "uint256 n \<Longrightarrow> uint256_text (show_int n) \<and> int (read_nat (show_int n)) = n"
proof -
  assume u: "uint256 n"
  then have n: "show_int n = show_nat (nat n)" by (simp add: uint256_def show_int_def)
  have small: "nat n < 2 ^ 256" using u by (simp add: uint256_def nat_less_iff)
  have "(2::nat) ^ 256 < 10 ^ 78" by simp
  then have "nat n < 10 ^ 78" using small by linarith
  then have "length (show_int n) \<le> 78" unfolding n by (rule length_show_nat) simp
  with u show ?thesis by (simp add: uint256_text_def n uint256_def)
qed

interpretation chars: codec JsStr text_of "\<lambda>_. True"
  by unfold_locales (simp_all add: tree_of_def text_of_def)

interpretation flag: codec JsBool bool_of "\<lambda>_. True"
  by unfold_locales (simp_all add: tree_of_def bool_of_def)

interpretation uint: codec JsBig uint_of uint256
proof unfold_locales
  show "uint256 x \<Longrightarrow> uint_of (Some (tree_of (JsBig x))) = Inr x" for x
    using uint256_text_show [of x] by (simp add: tree_of_def uint_of_def text_of_def)
  show "uint_of v = Inr x \<Longrightarrow> uint256 x" for v x
    by (auto simp: uint_of_def and_then_Inr uint256_text_def uint256_def split: if_splits)
qed (simp_all add: tree_of_def)

interpretation count: codec js_count count_of safe_count
proof unfold_locales
  show "safe_count x \<Longrightarrow> count_of (Some (tree_of (js_count x))) = Inr x" for x
  proof -
    assume s: "safe_count x"
    then have "uint256 x" by (auto simp: safe_count_def uint256_def intro: le_less_trans)
    then show "count_of (Some (tree_of (js_count x))) = Inr x"
      using s uint.reads [of x] by (simp add: count_of_def tree_of_def js_count_def safe_count_def js_safe_def)
  qed
  show "count_of v = Inr x \<Longrightarrow> safe_count x" for v x
    using uint.accepts [of v x]
    by (auto simp: count_of_def and_then_Inr safe_count_def uint256_def split: if_splits)
qed (simp_all add: tree_of_def js_count_def safe_count_def js_safe_def)

text \<open>A decoder that reads named fields of an object is such a pair with the list of those fields.\<close>

lemma object_codec:
  assumes view: "\<And>x. view x = JsObj (members x)"
    and members: "\<And>x. ok x \<Longrightarrow> distinct (map fst (members x))
      \<and> (\<forall>kv \<in> set (members x). snd kv \<noteq> JsUndef \<and> canon (snd kv) = Some (tree_of (snd kv)))"
    and decode: "\<And>x. ok x \<Longrightarrow> decode (tree_members (members x)) = Inr x"
    and accepts: "\<And>ms x. decode ms = Inr x \<Longrightarrow> ok x"
  shows "codec view (\<lambda>v. and_then (object_of v) decode) ok"
proof
  fix x assume "ok x"
  then have "canon (view x) = Some (JObj (tree_members (members x)))"
    unfolding view tree_members_def using members [of x] by (intro canon_object) simp_all
  then have t: "canon (view x) = Some (tree_of (view x))"
    and "tree_of (view x) = JObj (tree_members (members x))" by (simp_all add: tree_of_def)
  with decode [OF \<open>ok x\<close>] show "canon (view x) = Some (tree_of (view x))"
    and "and_then (object_of (Some (tree_of (view x)))) decode = Inr x"
    and "tree_of (view x) \<noteq> JNull"
    by (simp_all add: object_of_def)
qed (auto simp: view and_then_Inr dest: accepts)

lemmas leaf_trees = tree_of_def [of "JsStr _"] tree_of_def [of "JsBool _"] tree_of_def [of "JsBig _"]

lemma choice_reads:
  assumes "inj spelling" and "c \<in> set choices"
  shows "choice_of spelling choices (Some (tree_of (JsStr (spelling c)))) = Inr c"
proof -
  have "map_of (map (\<lambda>c. (spelling c, c)) choices) (spelling c) = Some c"
    using assms by (induction choices) (auto dest: injD)
  then show ?thesis by (simp add: choice_of_def chars.reads)
qed

lemma inj_texts: "inj census_text" "inj cut_text" "inj direction_text"
proof -
  show "inj census_text" by (rule injI, rename_tac c d, case_tac c; case_tac d) simp_all
  show "inj cut_text" by (rule injI, rename_tac c d, case_tac c; case_tac d) simp_all
  show "inj direction_text" by (rule injI, rename_tac c d, case_tac c; case_tac d) simp_all
qed

lemma every_choice:
  "d = HomeToRemote \<or> d = RemoteToHome"
  "c = CompleteFromDeploymentBlock \<or> c = PartialCensus \<or> c = UnknownCensus"
  "k = CutClosed \<or> k = CutOpen \<or> k = CutGap"
proof -
  show "d = HomeToRemote \<or> d = RemoteToHome" by (cases d) simp_all
  show "c = CompleteFromDeploymentBlock \<or> c = PartialCensus \<or> c = UnknownCensus" by (cases c) simp_all
  show "k = CutClosed \<or> k = CutOpen \<or> k = CutGap" by (cases k) simp_all
qed

definition wf_pin :: "pinned_block \<Rightarrow> bool" where
  "wf_pin p \<longleftrightarrow> uint256 (pb_blockNumber p)"

definition wf_provenance :: "provenance_input \<Rightarrow> bool" where
  "wf_provenance p \<longleftrightarrow> pred_option safe_count (pv_adapterVersion p)"

definition wf_freshness :: "freshness_input \<Rightarrow> bool" where
  "wf_freshness f \<longleftrightarrow> safe_count (fr_independentWitnessGroups f) \<and> safe_count (fr_requiredWitnessGroups f)"

definition wf_scale :: "token_scale_input \<Rightarrow> bool" where
  "wf_scale s \<longleftrightarrow> uint256 (tsc_tokenMultiplier s) \<and> safe_count (tsc_homeDecimals s) \<and> safe_count (tsc_remoteDecimals s)"

definition wf_remote :: "remote_observation \<Rightarrow> bool" where
  "wf_remote r \<longleftrightarrow> pred_option uint256 (ro_transferredBalance r) \<and> pred_option uint256 (ro_remoteTotalSupply r)
     \<and> wf_scale (ro_scale r) \<and> pred_option wf_pin (ro_homePin r) \<and> pred_option wf_pin (ro_remotePin r)
     \<and> uint256 (ro_initialReserveImbalance r)"

definition wf_pending :: "pending_envelope \<Rightarrow> bool" where
  "wf_pending p \<longleftrightarrow> uint256 (pe_amount p) \<and> safe_count (pe_ageSeconds p)"

definition wf_effect :: "credited_effect \<Rightarrow> bool" where
  "wf_effect e \<longleftrightarrow> uint256 (ce_amount e)"

definition wf_escrow :: "home_escrow_input \<Rightarrow> bool" where
  "wf_escrow h \<longleftrightarrow> pred_option uint256 (he_escrowBalance h) \<and> pred_option wf_pin (he_homePin h)
     \<and> uint256 (he_acceptedCollateralHomeUnits h)"

definition wf_input :: "proof_input \<Rightarrow> bool" where
  "wf_input input \<longleftrightarrow> wf_provenance (pi_provenance input) \<and> wf_freshness (pi_freshness input)
     \<and> (\<forall>r \<in> set (pi_remotes input). wf_remote r) \<and> (\<forall>p \<in> set (pi_pending input). wf_pending p)
     \<and> (\<forall>e \<in> set (pi_effects input). wf_effect e) \<and> wf_escrow (pi_homeEscrow input)
     \<and> safe_count (pi_pendingAgeLimitSeconds input)"

lemmas field_trees = option.pred_True leaf_trees uint.canonical count.canonical chars.opt_tree uint.opt_tree count.opt_tree
  chars.opt_stated uint.opt_stated count.opt_stated count.stated
lemmas field_reads = option.pred_True map_of_tree_members chars.reads flag.reads uint.reads count.reads chars.opt_reads
  uint.opt_reads count.opt_reads
lemmas field_accepts = uint.accepts count.accepts uint.opt_accepts count.opt_accepts

interpretation pin: codec pin_js pin_of wf_pin
  unfolding pin_of_def [abs_def]
proof (rule object_codec, rule pin_js_def, goal_cases)
  case (1 x)
  then show ?case by (simp add: wf_pin_def field_trees)
next
  case (2 x)
  then show ?case by (simp add: wf_pin_def field_reads)
next
  case (3 ms x)
  then show ?case by (auto simp: and_then_Inr wf_pin_def dest: field_accepts)
qed

interpretation provenance: codec provenance_js "\<lambda>v. and_then (object_of v) decode_provenance" wf_provenance
proof (rule object_codec, rule provenance_js_def, goal_cases)
  case (1 x)
  then show ?case by (simp add: wf_provenance_def field_trees)
next
  case (2 x)
  then show ?case by (simp add: wf_provenance_def decode_provenance_def field_reads)
next
  case (3 ms x)
  then show ?case by (auto simp: decode_provenance_def and_then_Inr wf_provenance_def dest: field_accepts)
qed

interpretation freshness: codec freshness_js "\<lambda>v. and_then (object_of v) decode_freshness" wf_freshness
proof (rule object_codec, rule freshness_js_def, goal_cases)
  case (1 x)
  then show ?case by (simp add: wf_freshness_def field_trees)
next
  case (2 x)
  then show ?case by (simp add: wf_freshness_def decode_freshness_def field_reads)
next
  case (3 ms x)
  then show ?case by (auto simp: decode_freshness_def and_then_Inr wf_freshness_def dest: field_accepts)
qed

interpretation scale: codec scale_js "\<lambda>v. and_then (object_of v) decode_scale" wf_scale
proof (rule object_codec, rule scale_js_def, goal_cases)
  case (1 x)
  then show ?case by (simp add: wf_scale_def field_trees)
next
  case (2 x)
  then show ?case by (simp add: wf_scale_def decode_scale_def field_reads)
next
  case (3 ms x)
  then show ?case by (auto simp: decode_scale_def and_then_Inr wf_scale_def dest: field_accepts)
qed

interpretation pending: codec pending_js decode_pending wf_pending
  unfolding decode_pending_def [abs_def]
proof (rule object_codec, rule pending_js_def, goal_cases)
  case (1 x)
  then show ?case by (simp add: wf_pending_def field_trees)
next
  case (2 x)
  then show ?case by (simp add: wf_pending_def field_reads choice_reads inj_texts every_choice)
next
  case (3 ms x)
  then show ?case by (auto simp: and_then_Inr wf_pending_def dest: field_accepts)
qed

interpretation effect: codec effect_js decode_effect wf_effect
  unfolding decode_effect_def [abs_def]
proof (rule object_codec, rule effect_js_def, goal_cases)
  case (1 x)
  then show ?case by (simp add: wf_effect_def field_trees)
next
  case (2 x)
  then show ?case by (simp add: wf_effect_def field_reads)
next
  case (3 ms x)
  then show ?case by (auto simp: and_then_Inr wf_effect_def dest: field_accepts)
qed

interpretation escrow: codec escrow_js "\<lambda>v. and_then (object_of v) decode_escrow" wf_escrow
proof (rule object_codec, rule escrow_js_def, goal_cases)
  case (1 x)
  then show ?case by (simp add: wf_escrow_def field_trees pin.opt_tree pin.opt_stated)
next
  case (2 x)
  then show ?case by (simp add: wf_escrow_def decode_escrow_def field_reads pin.opt_reads)
next
  case (3 ms x)
  then show ?case by (auto simp: decode_escrow_def and_then_Inr wf_escrow_def dest: field_accepts pin.opt_accepts)
qed

interpretation remote: codec remote_js decode_remote wf_remote
  unfolding decode_remote_def [abs_def]
proof (rule object_codec, rule remote_js_def, goal_cases)
  case (1 x)
  then show ?case by (simp add: wf_remote_def field_trees pin.opt_tree pin.opt_stated scale.canonical scale.stated)
next
  case (2 x)
  then have "wf_scale (ro_scale x)" by (simp add: wf_remote_def)
  from scale.reads [OF this] obtain ms where "object_of (Some (tree_of (scale_js (ro_scale x)))) = Inr ms"
    and "decode_scale ms = Inr (ro_scale x)" by (auto simp: and_then_Inr)
  with 2 show ?case by (simp add: wf_remote_def field_reads pin.opt_reads)
next
  case (3 ms x)
  then obtain s scale where s: "object_of (map_of ms ''scale'') = Inr s" "decode_scale s = Inr scale" "ro_scale x = scale"
    by (auto simp: and_then_Inr)
  then have "wf_scale (ro_scale x)"
    using scale.accepts [of "map_of ms ''scale''" scale] by simp
  with 3 show ?case by (auto simp: and_then_Inr wf_remote_def dest: field_accepts pin.opt_accepts)
qed

lemma object_parts:
  assumes "codec view (\<lambda>v. and_then (object_of v) decode) ok" and "ok x"
  obtains ms where "object_of (Some (tree_of (view x))) = Inr ms" and "decode ms = Inr x"
  using codec.reads [OF assms] by (auto simp: and_then_Inr)

interpretation input: codec proof_input_js decode_fields wf_input
  unfolding decode_fields_def [abs_def]
proof (rule object_codec, rule proof_input_js_def, goal_cases)
  case (1 x)
  then show ?case
    by (simp add: wf_input_def field_trees js_texts_def chars.array_tree remote.array_tree pending.array_tree
        effect.array_tree provenance.canonical provenance.stated freshness.canonical freshness.stated
        escrow.canonical escrow.stated del: canon.simps(9))
next
  case (2 x)
  then have wf: "wf_provenance (pi_provenance x)" "wf_freshness (pi_freshness x)" "wf_escrow (pi_homeEscrow x)"
    by (simp_all add: wf_input_def)
  obtain p where p: "object_of (Some (tree_of (provenance_js (pi_provenance x)))) = Inr p"
    "decode_provenance p = Inr (pi_provenance x)"
    using object_parts [OF provenance.codec_axioms wf(1)] .
  obtain f where f: "object_of (Some (tree_of (freshness_js (pi_freshness x)))) = Inr f"
    "decode_freshness f = Inr (pi_freshness x)"
    using object_parts [OF freshness.codec_axioms wf(2)] .
  obtain h where h: "object_of (Some (tree_of (escrow_js (pi_homeEscrow x)))) = Inr h"
    "decode_escrow h = Inr (pi_homeEscrow x)"
    using object_parts [OF escrow.codec_axioms wf(3)] .
  from 2 show ?case
    by (simp add: wf_input_def field_reads js_texts_def p f h choice_reads inj_texts every_choice
        chars.array_reads remote.array_reads pending.array_reads effect.array_reads)
next
  case (3 ms x)
  then obtain p f h where "object_of (map_of ms ''provenance'') = Inr p" "decode_provenance p = Inr (pi_provenance x)"
    "object_of (map_of ms ''freshness'') = Inr f" "decode_freshness f = Inr (pi_freshness x)"
    "object_of (map_of ms ''homeEscrow'') = Inr h" "decode_escrow h = Inr (pi_homeEscrow x)"
    by (auto simp: and_then_Inr)
  then have "wf_provenance (pi_provenance x)" "wf_freshness (pi_freshness x)" "wf_escrow (pi_homeEscrow x)"
    using provenance.accepts [of "map_of ms ''provenance''"] freshness.accepts [of "map_of ms ''freshness''"]
      escrow.accepts [of "map_of ms ''homeEscrow''"] by simp_all
  moreover have "\<forall>r \<in> set (pi_remotes x). wf_remote r" "\<forall>p \<in> set (pi_pending x). wf_pending p"
    "\<forall>e \<in> set (pi_effects x). wf_effect e" "safe_count (pi_pendingAgeLimitSeconds x)"
    using 3 by (auto simp: and_then_Inr dest: remote.array_accepts pending.array_accepts effect.array_accepts field_accepts)
  ultimately show ?case by (simp add: wf_input_def)
qed

section \<open>Decoding and encoding\<close>

lemma same_text_True: "same_text a b = Inr True \<longleftrightarrow> canon a = canon b \<and> canon a \<noteq> None"
proof -
  have "same_text a b = Inr True \<longleftrightarrow> (\<exists>s. canonicalStringify a = Inr s \<and> canonicalStringify b = Inr s)"
    by (auto simp: same_text_def and_then_Inr lift_canon_def split: sum.splits)
  then show ?thesis by (auto simp: canonicalStringify_iff)
qed

lemma decodeProofInput_Inr:
  "decodeProofInput v = Inr input \<longleftrightarrow>
     decode_fields v = Inr input \<and> canon (proof_input_js input) = canon (js_value v) \<and> canon (js_value v) \<noteq> None"
proof -
  have "decodeProofInput v = Inr input \<longleftrightarrow>
      decode_fields v = Inr input \<and> same_text (proof_input_js input) (js_value v) = Inr True"
    by (auto simp: decodeProofInput_def and_then_Inr split: if_splits)
  then show ?thesis unfolding same_text_True by metis
qed

text \<open>
  C22. The proof input of a bundle survives the round trip through JSON exactly when its amounts are
  uint256 and its counts safe integers; no other input can be decoded at all.
\<close>

theorem proof_input_roundtrip:
  "(\<exists>j. encodeProofInput input = Inr j \<and> decodeProofInput (Some j) = Inr input) \<longleftrightarrow> wf_input input"
proof
  assume "wf_input input"
  then have c: "canon (proof_input_js input) = Some (tree_of (proof_input_js input))" by (rule input.canonical)
  then have "encodeProofInput input = Inr (tree_of (proof_input_js input))"
    by (simp add: encodeProofInput_def canonical_json_iff)
  moreover have "canon (of_json (tree_of (proof_input_js input))) = Some (tree_of (proof_input_js input))"
    using c by (rule canon_fixpoint)
  ultimately show "\<exists>j. encodeProofInput input = Inr j \<and> decodeProofInput (Some j) = Inr input"
    using c input.reads [OF \<open>wf_input input\<close>] by (simp add: decodeProofInput_Inr js_value_def)
next
  assume "\<exists>j. encodeProofInput input = Inr j \<and> decodeProofInput (Some j) = Inr input"
  then show "wf_input input" by (auto simp: decodeProofInput_Inr dest: input.accepts)
qed

text \<open>
  Nothing of a document is ignored: a document that decodes has the canonical text of the decoded
  input, so two documents that decode to one input are one document.
\<close>

theorem decodeProofInput_whole:
  assumes "decodeProofInput (Some v) = Inr input"
  shows "wf_input input \<and> (\<exists>j. encodeProofInput input = Inr j \<and> canonicalStringify (of_json v) = Inr (json_print j))"
proof -
  obtain j where "canon (of_json v) = Some j" "canon (proof_input_js input) = Some j"
    and "decode_fields (Some v) = Inr input"
    using assms by (auto simp: decodeProofInput_Inr js_value_def)
  then show ?thesis
    by (auto simp: encodeProofInput_def canonical_json_iff canonicalStringify_iff dest: input.accepts)
qed

section \<open>replayProof\<close>

fun proof_result_text :: "proof_result \<Rightarrow> string" where
  "proof_result_text PASS = ''PASS''"
| "proof_result_text FAIL = ''FAIL''"
| "proof_result_text UNKNOWN_RESULT = ''UNKNOWN''"
| "proof_result_text UNSUPPORTED = ''UNSUPPORTED''"

fun gate_outcome_text :: "gate_outcome \<Rightarrow> string" where
  "gate_outcome_text GatePass = ''pass''"
| "gate_outcome_text GateFail = ''fail''"
| "gate_outcome_text GateUnknown = ''unknown''"
| "gate_outcome_text GateUnsupported = ''unsupported''"

fun measurement_unit_text :: "measurement_unit \<Rightarrow> string" where
  "measurement_unit_text RemoteBaseUnits = ''remote-base-units''"
| "measurement_unit_text HomeBaseUnits = ''home-base-units''"

fun data_status_text :: "data_status \<Rightarrow> string" where
  "data_status_text DataComplete = ''COMPLETE''"
| "data_status_text DataStale = ''STALE''"
| "data_status_text DataPartial = ''PARTIAL''"
| "data_status_text DataDivergent = ''DIVERGENT''"
| "data_status_text DataUnknown = ''UNKNOWN''"

fun claim_mode_text :: "claim_mode \<Rightarrow> string" where
  "claim_mode_text EXACT = ''EXACT''"
| "claim_mode_text CAUSAL_EXACT = ''CAUSAL_EXACT''"
| "claim_mode_text SUFFICIENT_UPPER_BOUND = ''SUFFICIENT_UPPER_BOUND''"
| "claim_mode_text INDETERMINATE = ''INDETERMINATE''"
| "claim_mode_text CLAIM_UNSUPPORTED = ''UNSUPPORTED''"

fun coverage_text :: "coverage_state \<Rightarrow> string" where
  "coverage_text CoverageComplete = ''COMPLETE''"
| "coverage_text CoveragePartial = ''PARTIAL''"
| "coverage_text CoverageUnverified = ''UNVERIFIED''"

definition js_reasons :: "reason_code list \<Rightarrow> js" where
  "js_reasons rs = js_texts (map reason_text rs)"

definition reconciliation_js :: "remote_reconciliation \<Rightarrow> js" where
  "reconciliation_js r = JsObj
     [(''remoteBlockchainId'', JsStr (rr_remoteBlockchainId r)), (''remoteAddress'', JsStr (rr_remoteAddress r)),
      (''transferredBalance'', JsBig (rr_transferredBalance r)),
      (''remoteTotalSupply'', JsBig (rr_remoteTotalSupply r)), (''delta'', JsBig (rr_delta r)),
      (''pendingHomeToRemote'', JsBig (rr_pendingHomeToRemote r)),
      (''pendingRemoteToHome'', JsBig (rr_pendingRemoteToHome r)),
      (''pendingTotal'', JsBig (rr_pendingTotal r)), (''reconciled'', JsBool (rr_reconciled r))]"

definition gate_a_js :: "gate_a_result \<Rightarrow> js" where
  "gate_a_js a = JsObj
     [(''outcome'', JsStr (gate_outcome_text (ga_outcome a))), (''reasons'', js_reasons (ga_reasons a)),
      (''critical'', JsBool (ga_critical a)),
      (''perRemote'', JsArr (map reconciliation_js (ga_perRemote a))),
      (''totalDelta'', JsBig (ga_totalDelta a)), (''totalPending'', JsBig (ga_totalPending a))]"

definition liability_js :: "remote_liability \<Rightarrow> js" where
  "liability_js l = JsObj
     [(''remoteBlockchainId'', JsStr (rl_remoteBlockchainId l)), (''remoteAddress'', JsStr (rl_remoteAddress l)),
      (''remoteUnits'', JsBig (rl_remoteUnits l)), (''floorHomeUnits'', JsBig (rl_floorHomeUnits l)),
      (''ceilHomeUnits'', JsBig (rl_ceilHomeUnits l)), (''dust'', JsBig (rl_dust l))]"

definition gate_b_js :: "gate_b_result \<Rightarrow> js" where
  "gate_b_js b = JsObj
     [(''outcome'', JsStr (gate_outcome_text (gb_outcome b))), (''reasons'', js_reasons (gb_reasons b)),
      (''escrowBalance'', JsBig (gb_escrowBalance b)), (''floorLiability'', JsBig (gb_floorLiability b)),
      (''conservativeLiability'', JsBig (gb_conservativeLiability b)),
      (''totalDust'', JsBig (gb_totalDust b)), (''surplus'', JsBig (gb_surplus b)),
      (''perRemote'', JsArr (map liability_js (gb_perRemote b)))]"

definition measurement_js :: "measurement \<Rightarrow> js" where
  "measurement_js m = JsObj
     [(''expected'', JsBig (ms_expected m)), (''observed'', JsBig (ms_observed m)),
      (''delta'', JsBig (ms_delta m)), (''unit'', JsStr (measurement_unit_text (ms_unit m)))]"

definition pending_breakdown_js :: "pending_breakdown \<Rightarrow> js" where
  "pending_breakdown_js p = JsObj
     [(''homeToRemote'', JsBig (pbd_homeToRemote p)), (''remoteToHome'', JsBig (pbd_remoteToHome p)),
      (''total'', JsBig (pbd_total p)), (''count'', js_count (int (pbd_count p))),
      (''overAgeCount'', js_count (int (pbd_overAgeCount p)))]"

definition evidence_refs_js :: "evidence_refs \<Rightarrow> js" where
  "evidence_refs_js e = JsObj
     [(''pinnedBlocks'', js_texts (er_pinnedBlocks e)), (''witnessGroups'', js_count (er_witnessGroups e)),
      (''requiredWitnessGroups'', js_count (er_requiredWitnessGroups e)),
      (''sourceLockCommitSha'', js_opt JsStr (er_sourceLockCommitSha e)),
      (''adapterId'', js_opt JsStr (er_adapterId e)),
      (''adapterVersion'', js_opt js_count (er_adapterVersion e))]"

definition rule_output_js :: "rule_output \<Rightarrow> js" where
  "rule_output_js r = JsObj
     [(''ruleId'', JsStr (out_ruleId r)), (''ruleVersion'', JsStr (out_ruleVersion r)),
      (''result'', JsStr (proof_result_text (out_result r))),
      (''verdictCandidate'', JsStr (verdict_text (out_verdictCandidate r))),
      (''reasons'', js_reasons (out_reasons r)),
      (''measurement'', js_opt measurement_js (out_measurement r)),
      (''pending'', js_opt pending_breakdown_js (out_pending r)),
      (''evidence'', evidence_refs_js (out_evidence r)),
      (''assumptions'', js_texts (out_assumptions r)), (''exclusions'', js_texts (out_exclusions r)),
      (''inputDigest'', JsStr (out_inputDigest r))]"

definition evaluation_js :: "canonical_erc20_evaluation \<Rightarrow> js" where
  "evaluation_js e = JsObj
     [(''output'', rule_output_js (ev_output e)), (''gateA'', gate_a_js (ev_gateA e)),
      (''gateB'', gate_b_js (ev_gateB e))]"

record verdict_record =
  vr_protocolStatus :: verdict
  vr_dataStatus :: data_status
  vr_claimMode :: claim_mode
  vr_coverage :: coverage_state
  vr_reasonCodes :: "reason_code list"
  vr_criticalRuleIds :: "string list"
  vr_unknownRuleIds :: "string list"

record rule_record =
  ru_ruleId :: string
  ru_ruleVersion :: string
  ru_result :: proof_result
  ru_reasonCodes :: "reason_code list"
  ru_inputs :: "(string \<times> string) list"
  ru_intermediates :: "(string \<times> string) list"
  ru_unit :: string
  ru_floor :: "string option"
  ru_ceil :: "string option"
  ru_dust :: "string option"

record replayed =
  rp_evaluation :: json
  rp_aggregation :: aggregation_input
  rp_verdict :: verdict_record
  rp_rule :: rule_record

definition verdict_record_of :: "global_verdict \<Rightarrow> verdict_record" where
  "verdict_record_of v =
     \<lparr>vr_protocolStatus = gv_protocolStatus v, vr_dataStatus = gv_dataStatus v,
      vr_claimMode = gv_claimMode v, vr_coverage = gv_coverage v, vr_reasonCodes = gv_reasonCodes v,
      vr_criticalRuleIds = gv_criticalRuleIds v, vr_unknownRuleIds = gv_unknownRuleIds v\<rparr>"

definition proof_claim :: "proof_result \<Rightarrow> claim_mode" where
  "proof_claim result =
     (if result = UNKNOWN_RESULT then INDETERMINATE
      else if result = UNSUPPORTED then CLAIM_UNSUPPORTED else CAUSAL_EXACT)"

definition replay_data_status :: "proof_input \<Rightarrow> bool \<Rightarrow> data_status" where
  "replay_data_status input divergent =
     (if divergent then DataDivergent
      else if \<not> fr_fresh (pi_freshness input) then DataStale
      else if pi_census input \<noteq> CompleteFromDeploymentBlock then DataPartial else DataComplete)"

definition witnesses_divergent :: "proof_input \<Rightarrow> bool" where
  "witnesses_divergent input \<longleftrightarrow>
     fr_independentWitnessGroups (pi_freshness input) < fr_requiredWitnessGroups (pi_freshness input)"

definition proof_aggregation :: "proof_input \<Rightarrow> canonical_erc20_evaluation \<Rightarrow> aggregation_input" where
  "proof_aggregation input evaluation =
     \<lparr>ai_contributions =
        [\<lparr>rc_ruleId = out_ruleId (ev_output evaluation), rc_result = out_result (ev_output evaluation),
          rc_critical = ga_critical (ev_gateA evaluation), rc_required = True,
          rc_claimMode = proof_claim (out_result (ev_output evaluation)),
          rc_reasons = out_reasons (ev_output evaluation), rc_livenessOnly = None\<rparr>],
      ai_dataStatus = replay_data_status input (witnesses_divergent input),
      ai_coverage =
        (if witnesses_divergent input then CoverageUnverified
         else if length (pi_untrackedRemotes input) > 0 then CoveragePartial else CoverageComplete),
      ai_missingRequiredEvaluations =
        (if length (pi_remotes input) = 0 then [''ACC-ERC20-CANONICAL''] else []),
      ai_previousOkExpired = (\<not> fr_fresh (pi_freshness input)), ai_evaluationFaults = []\<rparr>"

definition replayProof :: "(string \<Rightarrow> string) \<Rightarrow> proof_input \<Rightarrow> canon_error + replayed" where
  "replayProof sha input =
     (let evaluation = evaluateCanonicalErc20 input (domainSeparatedSha256 sha ''ictt-sentinel/proof-input/v1'');
          aggregation = proof_aggregation input evaluation;
          verdict = verdict_record_of (aggregate aggregation)
      in and_then (canonicalStringify (proof_input_js input)) (\<lambda>proof.
         and_then (canonicalStringify (gate_a_js (ev_gateA evaluation))) (\<lambda>gateA.
         and_then (canonicalStringify (gate_b_js (ev_gateB evaluation))) (\<lambda>gateB.
         let rule = \<lparr>ru_ruleId = out_ruleId (ev_output evaluation),
               ru_ruleVersion = out_ruleVersion (ev_output evaluation),
               ru_result = out_result (ev_output evaluation),
               ru_reasonCodes = out_reasons (ev_output evaluation),
               ru_inputs = [(''proof'', proof)], ru_intermediates = [(''gateA'', gateA), (''gateB'', gateB)],
               ru_unit = ''remote-base-units; coverage and rounding in home-base-units'',
               ru_floor = Some (show_int (gb_floorLiability (ev_gateB evaluation))),
               ru_ceil = Some (show_int (gb_conservativeLiability (ev_gateB evaluation))),
               ru_dust = Some (show_int (gb_totalDust (ev_gateB evaluation)))\<rparr>
         in and_then (canonical_json (evaluation_js evaluation)) (\<lambda>tree.
              Inr \<lparr>rp_evaluation = tree, rp_aggregation = aggregation, rp_verdict = verdict,
                   rp_rule = rule\<rparr>)))))"

text \<open>The records of a bundle as JSON.\<close>

definition js_strings_object :: "(string \<times> string) list \<Rightarrow> js" where
  "js_strings_object kvs = JsObj (map (apsnd JsStr) kvs)"

definition verdict_record_js :: "verdict_record \<Rightarrow> js" where
  "verdict_record_js v = JsObj
     [(''protocolStatus'', JsStr (verdict_text (vr_protocolStatus v))),
      (''dataStatus'', JsStr (data_status_text (vr_dataStatus v))),
      (''claimMode'', JsStr (claim_mode_text (vr_claimMode v))),
      (''coverage'', JsStr (coverage_text (vr_coverage v))),
      (''reasonCodes'', js_reasons (vr_reasonCodes v)),
      (''criticalRuleIds'', js_texts (vr_criticalRuleIds v)),
      (''unknownRuleIds'', js_texts (vr_unknownRuleIds v))]"

definition rule_record_js :: "rule_record \<Rightarrow> js" where
  "rule_record_js r = JsObj
     [(''ruleId'', JsStr (ru_ruleId r)), (''ruleVersion'', JsStr (ru_ruleVersion r)),
      (''result'', JsStr (proof_result_text (ru_result r))), (''reasonCodes'', js_reasons (ru_reasonCodes r)),
      (''inputs'', js_strings_object (ru_inputs r)), (''intermediates'', js_strings_object (ru_intermediates r)),
      (''unit'', JsStr (ru_unit r)), (''floor'', js_opt JsStr (ru_floor r)),
      (''ceil'', js_opt JsStr (ru_ceil r)), (''dust'', js_opt JsStr (ru_dust r))]"

lemma replayProof_Inr:
  assumes "replayProof sha input = Inr r"
  defines "evaluation \<equiv> evaluateCanonicalErc20 input (domainSeparatedSha256 sha ''ictt-sentinel/proof-input/v1'')"
  shows "rp_aggregation r = proof_aggregation input evaluation"
    and "rp_verdict r = verdict_record_of (aggregate (proof_aggregation input evaluation))"
    and "ru_result (rp_rule r) = out_result (ev_output evaluation)"
    and "canon (evaluation_js evaluation) = Some (rp_evaluation r)"
  using assms by (auto simp: replayProof_def Let_def and_then_Inr canonical_json_iff)

text \<open>Gate A judges an input only when its data are whole.\<close>

lemma gateA_judges_complete:
  assumes "ga_outcome (evaluateGateA input) \<in> {GatePass, GateFail}"
  shows "complete_input input"
proof (rule ccontr)
  assume "\<not> complete_input input"
  then have "evaluateGateA input = stopped GateUnsupported (unsupportedReasons input)
      \<or> evaluateGateA input = stopped GateUnknown (missingInputReasons input)"
    by (simp add: evaluateGateA_cases)
  with assms show False by (auto simp: stopped_def)
qed

lemma replay_not_blocked:
  assumes "complete_input input"
  shows "blocked (proof_aggregation input evaluation) \<longleftrightarrow>
    out_result (ev_output evaluation) \<in> {UNKNOWN_RESULT, UNSUPPORTED}"
  using assms
  by (auto simp: blocked_def proof_aggregation_def complete_input_def replay_data_status_def witnesses_divergent_def)

lemma replayProof_status:
  assumes "replayProof sha input = Inr r"
  shows "vr_protocolStatus (rp_verdict r) =
    (if ga_critical (evaluateGateA input) then CRITICAL
     else if ga_outcome (evaluateGateA input) \<noteq> GatePass then UNKNOWN
     else case gb_outcome (evaluateGateB input True) of GatePass \<Rightarrow> OK | GateFail \<Rightarrow> WARN | _ \<Rightarrow> UNKNOWN)"
proof -
  define evaluation where
    "evaluation = evaluateCanonicalErc20 input (domainSeparatedSha256 sha ''ictt-sentinel/proof-input/v1'')"
  have ev: "ev_gateA evaluation = evaluateGateA input"
    "out_result (ev_output evaluation) =
       combine (evaluateGateA input) (evaluateGateB input (ga_outcome (evaluateGateA input) = GatePass))"
    by (simp_all add: evaluation_def evaluateCanonicalErc20_def Let_def)
  have "vr_protocolStatus (rp_verdict r) = gv_protocolStatus (aggregate (proof_aggregation input evaluation))"
    unfolding evaluation_def replayProof_Inr(2) [OF assms] by (simp add: verdict_record_of_def)
  then have status: "vr_protocolStatus (rp_verdict r) =
      (if ga_critical (evaluateGateA input) then CRITICAL
       else if blocked (proof_aggregation input evaluation) then UNKNOWN
       else if out_result (ev_output evaluation) = FAIL then WARN else OK)"
    unfolding aggregate_status by (simp add: proof_aggregation_def ev(1))
  show ?thesis
  proof (cases "ga_outcome (evaluateGateA input)")
    case GatePass
    then have c: "complete_input input" and n: "\<not> ga_critical (evaluateGateA input)"
      using gateA_judges_complete [of input] gateA_fail_critical [of input] by simp_all
    have "out_result (ev_output evaluation) = combine (evaluateGateA input) (evaluateGateB input True)"
      using GatePass ev(2) by simp
    then show ?thesis
      using status n GatePass gateB_never_unsupported [of input True] unfolding replay_not_blocked [OF c]
      by (cases "gb_outcome (evaluateGateB input True)") (simp_all add: combine_def)
  next
    case GateFail
    then show ?thesis using status gateA_fail_critical [of input] by simp
  next
    case GateUnknown
    then have "out_result (ev_output evaluation) = UNKNOWN_RESULT" using ev(2) by (simp add: combine_def)
    then have "blocked (proof_aggregation input evaluation)" by (simp add: blocked_def proof_aggregation_def)
    then show ?thesis using status GateUnknown gateA_fail_critical [of input] by simp
  next
    case GateUnsupported
    then have "out_result (ev_output evaluation) = UNSUPPORTED" using ev(2) by (simp add: combine_def)
    then have "blocked (proof_aggregation input evaluation)" by (simp add: blocked_def proof_aggregation_def)
    then show ?thesis using status GateUnsupported gateA_fail_critical [of input] by simp
  qed
qed

text \<open>
  What the recorded verdict of a replay says about the recorded input: OK exactly when both gates
  pass, CRITICAL exactly when Gate A proved a breach, WARN exactly when the account reconciles and
  the escrow falls short, and UNKNOWN in every other case. The aggregation adds nothing and hides
  nothing.
\<close>

theorem replayProof_verdict:
  assumes "replayProof sha input = Inr r"
  shows "vr_protocolStatus (rp_verdict r) =
    (if ga_critical (evaluateGateA input) then CRITICAL
     else if ga_outcome (evaluateGateA input) \<noteq> GatePass then UNKNOWN
     else case gb_outcome (evaluateGateB input True) of GatePass \<Rightarrow> OK | GateFail \<Rightarrow> WARN | _ \<Rightarrow> UNKNOWN)"
  by (rule replayProof_status [OF assms])

section \<open>A replay of a decoded input returns\<close>

definition has_text :: "js \<Rightarrow> bool" where
  "has_text v \<longleftrightarrow> v \<noteq> JsUndef \<and> canon v \<noteq> None"

lemma has_text_leaf:
  "has_text JsNull" "has_text (JsBool b)" "has_text (JsStr s)" "has_text (JsBig n)"
  "has_text (js_count n) \<longleftrightarrow> js_safe n"
  by (simp_all add: has_text_def js_count_def)

lemma has_text_array: "has_text (JsArr vs) \<longleftrightarrow> (\<forall>v \<in> set vs. canon v \<noteq> None)"
proof -
  have "canon_items vs = None \<longleftrightarrow> (\<exists>v \<in> set vs. canon v = None)"
    unfolding canon_items_those those_None_iff by force
  then show ?thesis by (auto simp: has_text_def)
qed

lemma has_text_array_map:
  "(\<And>x. x \<in> set xs \<Longrightarrow> has_text (f x)) \<Longrightarrow> has_text (JsArr (map f xs))"
  unfolding has_text_array by (auto simp: has_text_def)

lemma has_text_object:
  assumes "distinct (map fst kvs)" and "\<forall>kv \<in> set kvs. has_text (snd kv)"
  shows "has_text (JsObj kvs)"
proof -
  have "\<forall>kv \<in> set kvs. snd kv \<noteq> JsUndef \<and> canon (snd kv) = Some (tree_of (snd kv))"
    using assms(2) by (auto simp: has_text_def tree_of_def)
  from canon_object [OF assms(1) this] show ?thesis by (simp add: has_text_def)
qed

lemma has_text_opt: "(\<And>v. x = Some v \<Longrightarrow> has_text (f v)) \<Longrightarrow> has_text (js_opt f x)"
  by (cases x) (simp_all add: js_opt_def has_text_leaf)

lemma has_text_texts: "has_text (js_texts xs)" "has_text (js_reasons rs)"
  by (auto simp: js_texts_def js_reasons_def has_text_array)

lemma has_text_gate_a: "has_text (gate_a_js a)"
proof -
  have "has_text (reconciliation_js r)" for r
    unfolding reconciliation_js_def by (rule has_text_object) (simp_all add: has_text_leaf)
  then have "has_text (JsArr (map reconciliation_js (ga_perRemote a)))" by (rule has_text_array_map)
  then show ?thesis
    unfolding gate_a_js_def by (intro has_text_object) (simp_all add: has_text_leaf has_text_texts)
qed

lemma has_text_gate_b: "has_text (gate_b_js b)"
proof -
  have "has_text (liability_js l)" for l
    unfolding liability_js_def by (rule has_text_object) (simp_all add: has_text_leaf)
  then have "has_text (JsArr (map liability_js (gb_perRemote b)))" by (rule has_text_array_map)
  then show ?thesis
    unfolding gate_b_js_def by (intro has_text_object) (simp_all add: has_text_leaf has_text_texts)
qed

lemma has_text_output:
  assumes "js_safe (er_witnessGroups (out_evidence r))" and "js_safe (er_requiredWitnessGroups (out_evidence r))"
    and "pred_option js_safe (er_adapterVersion (out_evidence r))"
    and "pred_option (\<lambda>p. js_safe (int (pbd_count p)) \<and> js_safe (int (pbd_overAgeCount p))) (out_pending r)"
  shows "has_text (rule_output_js r)"
proof -
  have "has_text (measurement_js m)" for m
    unfolding measurement_js_def by (rule has_text_object) (simp_all add: has_text_leaf)
  then have m: "has_text (js_opt measurement_js (out_measurement r))" by (rule has_text_opt)
  have p: "has_text (js_opt pending_breakdown_js (out_pending r))"
    unfolding pending_breakdown_js_def
    by (intro has_text_opt has_text_object) (use assms(4) in \<open>simp_all add: has_text_leaf\<close>)
  have texts: "has_text (js_opt JsStr x)" for x by (rule has_text_opt) (simp add: has_text_leaf)
  have "has_text (js_opt js_count (er_adapterVersion (out_evidence r)))"
    by (rule has_text_opt) (use assms(3) in \<open>simp add: has_text_leaf\<close>)
  then have "has_text (evidence_refs_js (out_evidence r))"
    unfolding evidence_refs_js_def
    by (intro has_text_object) (simp_all add: has_text_leaf has_text_texts texts assms)
  with m p show ?thesis
    unfolding rule_output_js_def by (intro has_text_object) (simp_all add: has_text_leaf has_text_texts)
qed

lemma canonicalStringify_total: "has_text v \<Longrightarrow> \<exists>s. canonicalStringify v = Inr s"
  by (auto simp: has_text_def canonicalStringify_iff)

lemma replayProof_returns:
  assumes "wf_input input" and "int (length (pi_pending input)) \<le> 9007199254740991"
  shows "\<exists>r. replayProof sha input = Inr r"
proof -
  define evaluation where
    "evaluation = evaluateCanonicalErc20 input (domainSeparatedSha256 sha ''ictt-sentinel/proof-input/v1'')"
  have safe: "safe_count n \<Longrightarrow> js_safe n" for n by (simp add: safe_count_def js_safe_def)
  have le: "length (filter P (pi_pending input)) \<le> length (pi_pending input)" for P by (rule length_filter_le)
  have "pred_option js_safe (pv_adapterVersion (pi_provenance input))"
    using assms(1) safe by (auto simp: wf_input_def wf_provenance_def option.pred_set)
  moreover have "pred_option (\<lambda>p. js_safe (int (pbd_count p)) \<and> js_safe (int (pbd_overAgeCount p)))
      (out_pending (ev_output evaluation))"
    using assms(2) le [THEN le_trans]
    by (auto simp: evaluation_def evaluateCanonicalErc20_def Let_def pendingBreakdown_def js_safe_def)
  ultimately have "has_text (rule_output_js (ev_output evaluation))"
    using assms(1) safe
    by (intro has_text_output)
      (simp_all add: evaluation_def evaluateCanonicalErc20_def Let_def wf_input_def wf_freshness_def)
  then have "has_text (evaluation_js evaluation)"
    unfolding evaluation_js_def by (intro has_text_object) (simp_all add: has_text_gate_a has_text_gate_b)
  then obtain tree where tree: "canonical_json (evaluation_js evaluation) = Inr tree"
    by (auto simp: has_text_def canonical_json_iff)
  obtain p where "canonicalStringify (proof_input_js input) = Inr p"
    using input.canonical [OF assms(1)] by (auto simp: canonicalStringify_iff)
  moreover obtain a b where "canonicalStringify (gate_a_js (ev_gateA evaluation)) = Inr a"
    and "canonicalStringify (gate_b_js (ev_gateB evaluation)) = Inr b"
    using canonicalStringify_total [OF has_text_gate_a] canonicalStringify_total [OF has_text_gate_b] by metis
  ultimately show ?thesis using tree by (simp add: replayProof_def Let_def flip: evaluation_def)
qed

section \<open>Examples\<close>

definition example_input :: proof_input where
  "example_input = example_proof 25 20 [example_pending 5]"

lemma example_wf: "wf_input example_input"
  by (simp add: example_input_def example_proof_def example_pending_def example_remote_def example_pin_def
      wf_input_def wf_provenance_def wf_freshness_def wf_remote_def wf_scale_def wf_pin_def wf_pending_def
      wf_escrow_def uint256_def safe_count_def)

theorem replayProof_verdict_witness:
  "\<exists>r. replayProof (\<lambda>s. s) example_input = Inr r \<and> vr_protocolStatus (rp_verdict r) = WARN"
proof -
  obtain r where r: "replayProof (\<lambda>s. s) example_input = Inr r"
    using replayProof_returns [OF example_wf, of "\<lambda>s. s"]
    by (auto simp: example_input_def example_proof_def)
  moreover have "\<not> ga_critical (evaluateGateA example_input)" "ga_outcome (evaluateGateA example_input) = GatePass"
    "gb_outcome (evaluateGateB example_input True) = GateFail"
    by code_simp+
  ultimately show ?thesis using replayProof_verdict [OF r] by auto
qed

theorem decodeProofInput_whole_witness:
  "\<exists>j. encodeProofInput example_input = Inr j \<and> canonicalStringify (of_json j) = Inr (json_print j)"
proof -
  let ?j = "tree_of (proof_input_js example_input)"
  have c: "canon (proof_input_js example_input) = Some ?j" by (rule input.canonical [OF example_wf])
  then have "decodeProofInput (Some ?j) = Inr example_input"
    using canon_fixpoint(1) [OF c] input.reads [OF example_wf] by (simp add: decodeProofInput_Inr js_value_def)
  then obtain j where j: "encodeProofInput example_input = Inr j"
    "canonicalStringify (of_json ?j) = Inr (json_print j)"
    using decodeProofInput_whole [of ?j example_input] by blast
  moreover have "j = ?j" using j(1) c by (simp add: encodeProofInput_def canonical_json_iff)
  ultimately show ?thesis by auto
qed

end
