(* ===== verification/NativeReplay.thy ===== *)
theory NativeReplay
  imports EvidenceReplay Drift
begin

text \<open>
  packages/evidence/src/native-replay.ts: the replay input of a native remote, the choice between
  the two engines, and the replay of the native upper bound.
\<close>

section \<open>Parsers\<close>

definition record_of :: "json option \<Rightarrow> replay_error + json_object" where
  "record_of v = (case v of Some (JObj ms) \<Rightarrow> Inr ms | _ \<Rightarrow> Inl (ReplayError ''expected native object''))"

definition amount_of :: "json option \<Rightarrow> replay_error + int option" where
  "amount_of v =
     (case v of
        Some JNull \<Rightarrow> Inr None
      | Some (JStr s) \<Rightarrow>
          if uint256_text s then Inr (Some (int (read_nat s))) else Inl (ReplayError ''invalid native uint256'')
      | _ \<Rightarrow> Inl (ReplayError ''invalid native uint256''))"

definition native_count_of :: "json option \<Rightarrow> replay_error + int" where
  "native_count_of v = and_then (amount_of v) (\<lambda>n.
     case n of None \<Rightarrow> Inl (ReplayError ''invalid native count'')
     | Some k \<Rightarrow> if k > 9007199254740991 then Inl (ReplayError ''invalid native count'') else Inr k)"

definition role_holder_text :: "json \<Rightarrow> string option" where
  "role_holder_text a = (case a of JStr s \<Rightarrow> if hex_string 40 s then Some s else None | _ \<Rightarrow> None)"

definition holders_of :: "json option \<Rightarrow> replay_error + string list" where
  "holders_of v =
     (case v of
        Some (JArr vs) \<Rightarrow>
          (case those (map role_holder_text vs) of
             None \<Rightarrow> Inl (ReplayError ''invalid role holder'') | Some hs \<Rightarrow> Inr hs)
      | _ \<Rightarrow> Inl (ReplayError ''invalid role holder''))"

section \<open>The js view of a native input\<close>

definition components_js :: "native_supply_components \<Rightarrow> js" where
  "components_js c = JsObj
     [(''totalMinted'', js_opt JsBig (ns_totalMinted c)),
      (''initialReserveImbalance'', js_opt JsBig (ns_initialReserveImbalance c)),
      (''burnedTxFeesAddressBalance'', js_opt JsBig (ns_burnedTxFeesAddressBalance c)),
      (''burnedForTransferAddressBalance'', js_opt JsBig (ns_burnedForTransferAddressBalance c)),
      (''componentsFresh'', JsBool (ns_componentsFresh c)),
      (''fingerprintRecognised'', JsBool (ns_fingerprintRecognised c))]"

definition minter_census_js :: "minter_census \<Rightarrow> js" where
  "minter_census_js m = JsObj
     [(''manifestRosterProvided'', JsBool (mc_manifestRosterProvided m)),
      (''genesisChainConfigRead'', JsBool (mc_genesisChainConfigRead m)),
      (''activationRulesKnown'', JsBool (mc_activationRulesKnown m)),
      (''roleHistoryCompleteFromActivation'', JsBool (mc_roleHistoryCompleteFromActivation m)),
      (''allCandidateRolesRead'', JsBool (mc_allCandidateRolesRead m)),
      (''unexpectedRoleHolders'', js_texts (mc_unexpectedRoleHolders m)),
      (''unauthorisedMintObserved'', JsBool (mc_unauthorisedMintObserved m)),
      (''epochsCovered'', js_count (mc_epochsCovered m)), (''epochsExpected'', js_count (mc_epochsExpected m))]"

definition fee_reporting_js :: "burned_fee_reporting \<Rightarrow> js" where
  "fee_reporting_js f = JsObj
     [(''reportedRewardAlreadyInTotalMinted'', JsBool (bf_reportedRewardAlreadyInTotalMinted f)),
      (''duplicateReportObserved'', JsBool (bf_duplicateReportObserved f)),
      (''openReportEnvelopes'', js_count (bf_openReportEnvelopes f))]"

definition native_input_js :: "native_input \<Rightarrow> js" where
  "native_input_js n = JsObj
     [(''components'', components_js (ni_components n)), (''census'', minter_census_js (ni_census n)),
      (''feeReporting'', fee_reporting_js (ni_feeReporting n)),
      (''eligibleHomeCoverage'', js_opt JsBig (ni_eligibleHomeCoverage n)),
      (''trustworthySupplyLowerBound'', js_opt JsBig (ni_trustworthySupplyLowerBound n)),
      (''collateralNeeded'', js_opt JsBig (ni_collateralNeeded n)),
      (''acceptedCollateral'', js_opt JsBig (ni_acceptedCollateral n))]"

section \<open>decodeNativeInput\<close>

definition decode_components :: "json_object \<Rightarrow> replay_error + native_supply_components" where
  "decode_components c =
     and_then (amount_of (map_of c ''totalMinted'')) (\<lambda>totalMinted.
     and_then (amount_of (map_of c ''initialReserveImbalance'')) (\<lambda>initialReserveImbalance.
     and_then (amount_of (map_of c ''burnedTxFeesAddressBalance'')) (\<lambda>burnedTxFees.
     and_then (amount_of (map_of c ''burnedForTransferAddressBalance'')) (\<lambda>burnedForTransfer.
     and_then (bool_of (map_of c ''componentsFresh'')) (\<lambda>componentsFresh.
     and_then (bool_of (map_of c ''fingerprintRecognised'')) (\<lambda>fingerprintRecognised.
       Inr \<lparr>ns_totalMinted = totalMinted, ns_initialReserveImbalance = initialReserveImbalance,
            ns_burnedTxFeesAddressBalance = burnedTxFees,
            ns_burnedForTransferAddressBalance = burnedForTransfer,
            ns_componentsFresh = componentsFresh, ns_fingerprintRecognised = fingerprintRecognised\<rparr>))))))"

definition decode_minter_census :: "string list \<Rightarrow> json_object \<Rightarrow> replay_error + minter_census" where
  "decode_minter_census holders m =
     and_then (bool_of (map_of m ''manifestRosterProvided'')) (\<lambda>manifestRosterProvided.
     and_then (bool_of (map_of m ''genesisChainConfigRead'')) (\<lambda>genesisChainConfigRead.
     and_then (bool_of (map_of m ''activationRulesKnown'')) (\<lambda>activationRulesKnown.
     and_then (bool_of (map_of m ''roleHistoryCompleteFromActivation'')) (\<lambda>roleHistoryComplete.
     and_then (bool_of (map_of m ''allCandidateRolesRead'')) (\<lambda>allCandidateRolesRead.
     and_then (bool_of (map_of m ''unauthorisedMintObserved'')) (\<lambda>unauthorisedMintObserved.
     and_then (native_count_of (map_of m ''epochsCovered'')) (\<lambda>epochsCovered.
     and_then (native_count_of (map_of m ''epochsExpected'')) (\<lambda>epochsExpected.
       Inr \<lparr>mc_manifestRosterProvided = manifestRosterProvided,
            mc_genesisChainConfigRead = genesisChainConfigRead,
            mc_activationRulesKnown = activationRulesKnown,
            mc_roleHistoryCompleteFromActivation = roleHistoryComplete,
            mc_allCandidateRolesRead = allCandidateRolesRead, mc_unexpectedRoleHolders = holders,
            mc_unauthorisedMintObserved = unauthorisedMintObserved,
            mc_epochsCovered = epochsCovered, mc_epochsExpected = epochsExpected\<rparr>))))))))"

definition decode_fee_reporting :: "json_object \<Rightarrow> replay_error + burned_fee_reporting" where
  "decode_fee_reporting f =
     and_then (bool_of (map_of f ''reportedRewardAlreadyInTotalMinted'')) (\<lambda>reported.
     and_then (bool_of (map_of f ''duplicateReportObserved'')) (\<lambda>duplicate.
     and_then (native_count_of (map_of f ''openReportEnvelopes'')) (\<lambda>envelopes.
       Inr \<lparr>bf_reportedRewardAlreadyInTotalMinted = reported, bf_duplicateReportObserved = duplicate,
            bf_openReportEnvelopes = envelopes\<rparr>)))"

definition decode_native_fields :: "json option \<Rightarrow> replay_error + native_input" where
  "decode_native_fields value =
     and_then (record_of value) (\<lambda>v.
     and_then (record_of (map_of v ''components'')) (\<lambda>c.
     and_then (record_of (map_of v ''census'')) (\<lambda>m.
     and_then (record_of (map_of v ''feeReporting'')) (\<lambda>f.
     and_then (holders_of (map_of m ''unexpectedRoleHolders'')) (\<lambda>holders.
     and_then (decode_components c) (\<lambda>components.
     and_then (decode_minter_census holders m) (\<lambda>census.
     and_then (decode_fee_reporting f) (\<lambda>feeReporting.
     and_then (amount_of (map_of v ''eligibleHomeCoverage'')) (\<lambda>eligibleHomeCoverage.
     and_then (amount_of (map_of v ''trustworthySupplyLowerBound'')) (\<lambda>trustworthySupplyLowerBound.
     and_then (amount_of (map_of v ''collateralNeeded'')) (\<lambda>collateralNeeded.
     and_then (amount_of (map_of v ''acceptedCollateral'')) (\<lambda>acceptedCollateral.
       Inr \<lparr>ni_components = components, ni_census = census, ni_feeReporting = feeReporting,
            ni_eligibleHomeCoverage = eligibleHomeCoverage,
            ni_trustworthySupplyLowerBound = trustworthySupplyLowerBound,
            ni_collateralNeeded = collateralNeeded, ni_acceptedCollateral = acceptedCollateral\<rparr>))))))))))))"

definition decodeNativeInput :: "json option \<Rightarrow> replay_error + native_input" where
  "decodeNativeInput value =
     and_then (decode_native_fields value) (\<lambda>input.
     and_then (same_text (native_input_js input) (js_value value)) (\<lambda>same.
       if \<not> same then Inl (ReplayError ''unknown native input field'') else Inr input))"

section \<open>The two engines\<close>

definition NATIVE_ENGINE :: string where
  "NATIVE_ENGINE = ''native-upper-bound/v1''"

definition native_replay_js :: "proof_input \<Rightarrow> native_input \<Rightarrow> js" where
  "native_replay_js ctx native = JsObj
     [(''engine'', JsStr NATIVE_ENGINE), (''context'', proof_input_js ctx), (''native'', native_input_js native)]"

definition encodeNativeReplay :: "proof_input \<Rightarrow> native_input \<Rightarrow> canon_error + json" where
  "encodeNativeReplay ctx native = canonical_json (native_replay_js ctx native)"

definition encodeReplayInput :: "proof_input \<Rightarrow> native_input option \<Rightarrow> canon_error + json" where
  "encodeReplayInput ctx native =
     (case native of None \<Rightarrow> encodeProofInput ctx | Some n \<Rightarrow> encodeNativeReplay ctx n)"

definition decodeReplayInput :: "json option \<Rightarrow> replay_error + proof_input \<times> native_input option" where
  "decodeReplayInput value =
     and_then (record_of value) (\<lambda>v.
       case map_of v ''engine'' of
         None \<Rightarrow> and_then (decodeProofInput value) (\<lambda>ctx. Inr (ctx, None))
       | Some engine \<Rightarrow>
           if engine \<noteq> JStr NATIVE_ENGINE
              \<or> join '','' (sort (map fst v)) \<noteq> ''context,engine,native''
           then Inl (ReplayError ''unsupported replay engine'')
           else and_then (decodeProofInput (map_of v ''context'')) (\<lambda>ctx.
                and_then (decodeNativeInput (map_of v ''native'')) (\<lambda>native. Inr (ctx, Some native))))"

section \<open>replayNative\<close>

fun native_assessment_text :: "native_assessment \<Rightarrow> string" where
  "native_assessment_text NativeSufficient = ''sufficient''"
| "native_assessment_text NativeIndeterminate = ''indeterminate''"
| "native_assessment_text NativeUnknown = ''unknown''"

definition native_result_js :: "native_result \<Rightarrow> js" where
  "native_result_js r = JsObj
     [(''assessment'', JsStr (native_assessment_text (nr_assessment r))),
      (''reportedUpperBound'', js_opt JsBig (nr_reportedUpperBound r)),
      (''eligibleCoverage'', js_opt JsBig (nr_eligibleCoverage r)), (''headroom'', js_opt JsBig (nr_headroom r)),
      (''critical'', JsBool (nr_critical r)),
      (''minterExclusivityEstablished'', JsBool (nr_minterExclusivityEstablished r)),
      (''reasons'', js_reasons (nr_reasons r)),
      (''intermediates'', JsObj
         [(''created'', js_opt JsBig (nr_created r)), (''burned'', js_opt JsBig (nr_burned r))])]"

definition invalidBound :: "native_supply_components \<Rightarrow> bool" where
  "invalidBound amounts =
     (case (ns_totalMinted amounts, ns_initialReserveImbalance amounts,
            ns_burnedTxFeesAddressBalance amounts, ns_burnedForTransferAddressBalance amounts) of
        (Some totalMinted, Some initial, Some fees, Some transfers) \<Rightarrow> fees + transfers > totalMinted + initial
      | _ \<Rightarrow> False)"

definition native_uncertain :: "native_input \<Rightarrow> bool" where
  "native_uncertain native \<longleftrightarrow>
     nr_assessment (assessNative native) \<noteq> NativeSufficient \<or> invalidBound (ni_components native)
     \<or> mc_epochsExpected (ni_census native) = 0"

definition native_proof_result :: "native_input \<Rightarrow> proof_result" where
  "native_proof_result native =
     (if nr_critical (assessNative native) then FAIL
      else if native_uncertain native then UNKNOWN_RESULT else PASS)"

definition native_aggregation :: "proof_input \<Rightarrow> native_input \<Rightarrow> aggregation_input" where
  "native_aggregation ctx native =
     \<lparr>ai_contributions =
        [\<lparr>rc_ruleId = ''ACC-NATIVE-UPPER-BOUND'', rc_result = native_proof_result native,
          rc_critical = nr_critical (assessNative native), rc_required = True,
          rc_claimMode =
            (if nr_assessment (assessNative native) = NativeSufficient \<and> \<not> native_uncertain native
             then SUFFICIENT_UPPER_BOUND else INDETERMINATE),
          rc_reasons = nr_reasons (assessNative native), rc_livenessOnly = None\<rparr>],
      ai_dataStatus = replay_data_status ctx (witnesses_divergent ctx),
      ai_coverage =
        (if length (pi_untrackedRemotes ctx) > 0 then CoveragePartial
         else if witnesses_divergent ctx then CoverageUnverified else CoverageComplete),
      ai_missingRequiredEvaluations = [],
      ai_previousOkExpired = (\<not> fr_fresh (pi_freshness ctx)),
      ai_evaluationFaults =
        (if invalidBound (ni_components native) \<or> mc_epochsExpected (ni_census native) = 0
         then [''invalid-native-bound-or-activation-epoch''] else [])\<rparr>"

text \<open>\<open>canonicalStringify(encodeNativeReplay(...))\<close> writes the parsed text again.\<close>

definition replayNative :: "proof_input \<Rightarrow> native_input \<Rightarrow> canon_error + replayed" where
  "replayNative ctx native =
     (let evaluation = assessNative native;
          aggregation = native_aggregation ctx native;
          verdict = verdict_record_of (aggregate aggregation)
      in and_then (encodeNativeReplay ctx native) (\<lambda>encoded.
         and_then (canonicalStringify (of_json encoded)) (\<lambda>proof.
         and_then (canonicalStringify (native_result_js evaluation)) (\<lambda>intermediate.
         let rule = \<lparr>ru_ruleId = ''ACC-NATIVE-UPPER-BOUND'', ru_ruleVersion = ''native-upper-bound@1'',
               ru_result = native_proof_result native, ru_reasonCodes = nr_reasons evaluation,
               ru_inputs = [(''proof'', proof)], ru_intermediates = [(''native'', intermediate)],
               ru_unit = ''native-base-units; reported upper bound only'',
               ru_floor = None, ru_ceil = None, ru_dust = None\<rparr>
         in and_then (canonical_json (native_result_js evaluation)) (\<lambda>tree.
              Inr \<lparr>rp_evaluation = tree, rp_aggregation = aggregation, rp_verdict = verdict,
                   rp_rule = rule\<rparr>)))))"

definition replayEvaluation :: "(string \<Rightarrow> string) \<Rightarrow> json option \<Rightarrow> replay_error + replayed" where
  "replayEvaluation sha value =
     and_then (decodeReplayInput value) (\<lambda>(ctx, native).
       lift_canon (case native of None \<Rightarrow> replayProof sha ctx | Some n \<Rightarrow> replayNative ctx n))"

section \<open>The round trip\<close>

lemma amount_codec:
  "pred_option uint256 x \<Longrightarrow> amount_of (Some (tree_of (js_opt JsBig x))) = Inr x"
  "amount_of v = Inr x \<Longrightarrow> pred_option uint256 x"
proof -
  show "pred_option uint256 x \<Longrightarrow> amount_of (Some (tree_of (js_opt JsBig x))) = Inr x"
    using uint256_text_show by (cases x) (auto simp: js_opt_def amount_of_def tree_of_def)
  show "amount_of v = Inr x \<Longrightarrow> pred_option uint256 x"
    by (auto simp: amount_of_def uint256_text_def uint256_def split: option.splits json.splits if_splits)
qed

interpretation ncount: codec js_count native_count_of safe_count
proof unfold_locales
  show "native_count_of (Some (tree_of (js_count x))) = Inr x" if "safe_count x" for x
  proof -
    have "uint256 x" using that by (auto simp: safe_count_def uint256_def intro: le_less_trans)
    moreover have "tree_of (js_count x) = tree_of (js_opt JsBig (Some x))"
      using that by (simp add: js_count_def js_opt_def tree_of_def safe_count_def js_safe_def)
    ultimately show ?thesis using that amount_codec(1) [of "Some x"] by (simp add: native_count_of_def safe_count_def)
  qed
  show "native_count_of v = Inr x \<Longrightarrow> safe_count x" for v x
    using amount_codec(2) [of v "Some x"]
    by (auto simp: native_count_of_def and_then_Inr safe_count_def uint256_def split: option.splits if_splits)
qed (simp_all add: count.canonical count.present count.stated)

lemma record_of_object: "record_of v = Inr ms \<longleftrightarrow> object_of v = Inr ms"
  by (auto simp: record_of_def object_of_def split: option.splits json.splits)

definition wf_components :: "native_supply_components \<Rightarrow> bool" where
  "wf_components c \<longleftrightarrow> pred_option uint256 (ns_totalMinted c)
     \<and> pred_option uint256 (ns_initialReserveImbalance c)
     \<and> pred_option uint256 (ns_burnedTxFeesAddressBalance c)
     \<and> pred_option uint256 (ns_burnedForTransferAddressBalance c)"

definition wf_minter_census :: "minter_census \<Rightarrow> bool" where
  "wf_minter_census m \<longleftrightarrow> list_all (hex_string 40) (mc_unexpectedRoleHolders m)
     \<and> safe_count (mc_epochsCovered m) \<and> safe_count (mc_epochsExpected m)"

definition wf_fee_reporting :: "burned_fee_reporting \<Rightarrow> bool" where
  "wf_fee_reporting f \<longleftrightarrow> safe_count (bf_openReportEnvelopes f)"

definition wf_native :: "native_input \<Rightarrow> bool" where
  "wf_native n \<longleftrightarrow> wf_components (ni_components n) \<and> wf_minter_census (ni_census n)
     \<and> wf_fee_reporting (ni_feeReporting n) \<and> pred_option uint256 (ni_eligibleHomeCoverage n)
     \<and> pred_option uint256 (ni_trustworthySupplyLowerBound n)
     \<and> pred_option uint256 (ni_collateralNeeded n) \<and> pred_option uint256 (ni_acceptedCollateral n)"

lemma codec_record:
  assumes "codec view (\<lambda>v. and_then (object_of v) decode) ok"
  shows "codec view (\<lambda>v. and_then (record_of v) decode) ok"
  using assms by (simp add: codec_def and_then_Inr record_of_object)

lemma holders_reads:
  assumes "list_all (hex_string 40) hs"
  shows "holders_of (Some (tree_of (js_texts hs))) = Inr hs"
proof -
  have "those (map role_holder_text (map JStr hs)) = Some hs"
    using assms by (induction hs) (simp_all add: role_holder_text_def)
  then show ?thesis
    using chars.array_canonical [of hs] by (simp add: js_texts_def holders_of_def tree_of_def comp_def)
qed

lemma holders_accept: "holders_of v = Inr hs \<Longrightarrow> list_all (hex_string 40) hs"
proof -
  have "those (map role_holder_text vs) = Some hs \<Longrightarrow> list_all (hex_string 40) hs" for vs
    by (induction vs arbitrary: hs) (auto simp: role_holder_text_def split: option.splits json.splits if_splits)
  then show "holders_of v = Inr hs \<Longrightarrow> list_all (hex_string 40) hs"
    by (auto simp: holders_of_def split: option.splits json.splits)
qed

interpretation components: codec components_js "\<lambda>v. and_then (record_of v) decode_components" wf_components
proof (rule codec_record, rule object_codec, rule components_js_def, goal_cases)
  case (1 x)
  then show ?case by (simp add: wf_components_def field_trees)
next
  case (2 x)
  then show ?case by (simp add: wf_components_def decode_components_def field_reads amount_codec(1))
next
  case (3 ms x)
  then show ?case by (auto simp: decode_components_def and_then_Inr wf_components_def dest: amount_codec(2))
qed

definition decode_census_object :: "json_object \<Rightarrow> replay_error + minter_census" where
  "decode_census_object m =
     and_then (holders_of (map_of m ''unexpectedRoleHolders'')) (\<lambda>holders. decode_minter_census holders m)"

interpretation census: codec minter_census_js "\<lambda>v. and_then (record_of v) decode_census_object" wf_minter_census
proof (rule codec_record, rule object_codec, rule minter_census_js_def, goal_cases)
  case (1 x)
  then show ?case
    by (simp add: wf_minter_census_def field_trees js_texts_def chars.array_tree del: canon.simps(9))
next
  case (2 x)
  then show ?case
    by (simp add: wf_minter_census_def decode_census_object_def decode_minter_census_def field_reads holders_reads
        ncount.reads)
next
  case (3 ms x)
  then show ?case
    by (auto simp: decode_census_object_def decode_minter_census_def and_then_Inr wf_minter_census_def
        dest: holders_accept ncount.accepts)
qed

interpretation fees: codec fee_reporting_js "\<lambda>v. and_then (record_of v) decode_fee_reporting" wf_fee_reporting
proof (rule codec_record, rule object_codec, rule fee_reporting_js_def, goal_cases)
  case (1 x)
  then show ?case by (simp add: wf_fee_reporting_def field_trees)
next
  case (2 x)
  then show ?case by (simp add: wf_fee_reporting_def decode_fee_reporting_def field_reads ncount.reads)
next
  case (3 ms x)
  then show ?case by (auto simp: decode_fee_reporting_def and_then_Inr wf_fee_reporting_def dest: ncount.accepts)
qed

lemma record_parts:
  assumes "codec view (\<lambda>v. and_then (record_of v) decode) ok" and "ok x"
  obtains ms where "record_of (Some (tree_of (view x))) = Inr ms" and "decode ms = Inr x"
  using codec.reads [OF assms] by (auto simp: and_then_Inr)

interpretation native: codec native_input_js decode_native_fields wf_native
  unfolding decode_native_fields_def [abs_def]
proof (rule codec_record, rule object_codec, rule native_input_js_def, goal_cases)
  case (1 x)
  then show ?case
    by (simp add: wf_native_def field_trees components.canonical components.stated census.canonical census.stated
        fees.canonical fees.stated)
next
  case (2 x)
  then have wf: "wf_components (ni_components x)" "wf_minter_census (ni_census x)"
    "wf_fee_reporting (ni_feeReporting x)" by (simp_all add: wf_native_def)
  obtain c where c: "record_of (Some (tree_of (components_js (ni_components x)))) = Inr c"
    "decode_components c = Inr (ni_components x)"
    using record_parts [OF components.codec_axioms wf(1)] .
  obtain m where "record_of (Some (tree_of (minter_census_js (ni_census x)))) = Inr m"
    "decode_census_object m = Inr (ni_census x)"
    using record_parts [OF census.codec_axioms wf(2)] .
  then obtain h where m: "record_of (Some (tree_of (minter_census_js (ni_census x)))) = Inr m"
    "holders_of (map_of m ''unexpectedRoleHolders'') = Inr h" "decode_minter_census h m = Inr (ni_census x)"
    by (auto simp: decode_census_object_def and_then_Inr)
  obtain f where f: "record_of (Some (tree_of (fee_reporting_js (ni_feeReporting x)))) = Inr f"
    "decode_fee_reporting f = Inr (ni_feeReporting x)"
    using record_parts [OF fees.codec_axioms wf(3)] .
  from 2 show ?case by (simp add: wf_native_def field_reads c m f amount_codec(1))
next
  case (3 ms x)
  then obtain c m f h where "record_of (map_of ms ''components'') = Inr c" "decode_components c = Inr (ni_components x)"
    "record_of (map_of ms ''census'') = Inr m" "holders_of (map_of m ''unexpectedRoleHolders'') = Inr h"
    "decode_minter_census h m = Inr (ni_census x)"
    "record_of (map_of ms ''feeReporting'') = Inr f" "decode_fee_reporting f = Inr (ni_feeReporting x)"
    by (auto simp: and_then_Inr)
  then have "wf_components (ni_components x)" "wf_minter_census (ni_census x)" "wf_fee_reporting (ni_feeReporting x)"
    using components.accepts [of "map_of ms ''components''"] census.accepts [of "map_of ms ''census''"]
      fees.accepts [of "map_of ms ''feeReporting''"] by (simp_all add: decode_census_object_def)
  with 3 show ?case by (auto simp: and_then_Inr wf_native_def dest: amount_codec(2))
qed

lemma decodeNativeInput_Inr:
  "decodeNativeInput v = Inr n \<longleftrightarrow>
     decode_native_fields v = Inr n \<and> canon (native_input_js n) = canon (js_value v) \<and> canon (js_value v) \<noteq> None"
proof -
  have "decodeNativeInput v = Inr n \<longleftrightarrow>
      decode_native_fields v = Inr n \<and> same_text (native_input_js n) (js_value v) = Inr True"
    by (auto simp: decodeNativeInput_def and_then_Inr split: if_splits)
  then show ?thesis unfolding same_text_True by metis
qed

lemma decodeProofInput_tree:
  "wf_input c \<Longrightarrow> decodeProofInput (Some (tree_of (proof_input_js c))) = Inr c"
  using canon_fixpoint(1) [OF input.canonical] by (simp add: decodeProofInput_Inr input.reads input.canonical js_value_def)

lemma decodeNativeInput_tree:
  "wf_native n \<Longrightarrow> decodeNativeInput (Some (tree_of (native_input_js n))) = Inr n"
  using canon_fixpoint(1) [OF native.canonical] by (simp add: decodeNativeInput_Inr native.reads native.canonical js_value_def)

lemma sort_tree_keys: "sort (map fst (tree_members kvs)) = sort (map fst kvs)"
proof (rule sort_mset_eq)
  have "mset (map fst (tree_members kvs)) = image_mset fst (mset (map (apsnd tree_of) kvs))"
    by (simp only: tree_members_def sorted_members_def mset_map mset_sort)
  then show "mset (map fst (tree_members kvs)) = mset (map fst kvs)"
    by (simp add: image_mset.compositionality comp_def)
qed

lemma engine_keys: "join '','' (sort [''engine'', ''context'', ''native'']) = ''context,engine,native''"
  by code_simp

lemma canon_object_keys:
  assumes "canon (JsObj kvs) = Some j"
  obtains ms where "j = JObj ms" and "fst ` set ms \<subseteq> fst ` set kvs"
proof -
  obtain ms where ms: "canon_members kvs = Some ms" "j = JObj (sort_key fst ms)"
    using assms by (auto split: option.splits if_splits)
  have "fst ` set ms \<subseteq> fst ` set kvs"
    using ms(1)
  proof (induction kvs arbitrary: ms)
    case (Cons kv kvs)
    show ?case
    proof (cases "snd kv = JsUndef")
      case True
      with Cons.prems have "canon_members kvs = Some ms" by (cases kv) simp
      from Cons.IH [OF this] show ?thesis by auto
    next
      case False
      then obtain j ns where "canon_members kvs = Some ns" "ms = (fst kv, j) # ns"
        using Cons.prems by (cases kv) (auto split: option.splits)
      with Cons.IH [of ns] show ?thesis by auto
    qed
  qed simp
  with ms(2) show ?thesis using that by simp
qed

lemma native_replay_tree:
  assumes "wf_input ctx" and "wf_native n"
  defines "kvs \<equiv> [(''engine'', JsStr NATIVE_ENGINE), (''context'', proof_input_js ctx), (''native'', native_input_js n)]"
  shows "canon (native_replay_js ctx n) = Some (JObj (tree_members kvs))"
    and "decodeReplayInput (Some (JObj (tree_members kvs))) = Inr (ctx, Some n)"
proof -
  show "canon (native_replay_js ctx n) = Some (JObj (tree_members kvs))"
    unfolding native_replay_js_def kvs_def tree_members_def
    by (rule canon_object)
      (use assms in \<open>simp_all add: field_trees input.canonical input.stated native.canonical native.stated\<close>)
  have "join '','' (sort (map fst (tree_members kvs))) = ''context,engine,native''"
    unfolding sort_tree_keys using engine_keys by (simp only: kvs_def list.map fst_conv)
  moreover have "map_of (tree_members kvs) ''engine'' = Some (JStr NATIVE_ENGINE)"
    "map_of (tree_members kvs) ''context'' = Some (tree_of (proof_input_js ctx))"
    "map_of (tree_members kvs) ''native'' = Some (tree_of (native_input_js n))"
    by (simp_all add: kvs_def map_of_tree_members leaf_trees)
  ultimately show "decodeReplayInput (Some (JObj (tree_members kvs))) = Inr (ctx, Some n)"
    using assms by (simp add: decodeReplayInput_def record_of_def decodeProofInput_tree decodeNativeInput_tree)
qed

lemma decodeReplayInput_tree:
  assumes "wf_input ctx"
  shows "decodeReplayInput (Some (tree_of (proof_input_js ctx))) = Inr (ctx, None)"
proof -
  have c: "canon (proof_input_js ctx) = Some (tree_of (proof_input_js ctx))" using assms by (rule input.canonical)
  obtain ms where ms: "tree_of (proof_input_js ctx) = JObj ms" and keys: "''engine'' \<notin> fst ` set ms"
    by (rule canon_object_keys [OF c [unfolded proof_input_js_def], folded proof_input_js_def]) auto
  have "map_of ms ''engine'' = None" using keys by (simp add: map_of_eq_None_iff)
  then show ?thesis
    using decodeProofInput_tree [OF assms] by (simp add: decodeReplayInput_def record_of_def ms)
qed

text \<open>
  The replay input of either engine survives the round trip through JSON exactly when it is well
  formed: the decoder picks the engine the encoder wrote.
\<close>

theorem replay_input_roundtrip:
  "(\<exists>j. encodeReplayInput ctx native = Inr j \<and> decodeReplayInput (Some j) = Inr (ctx, native)) \<longleftrightarrow>
     wf_input ctx \<and> pred_option wf_native native"
proof
  assume wf: "wf_input ctx \<and> pred_option wf_native native"
  show "\<exists>j. encodeReplayInput ctx native = Inr j \<and> decodeReplayInput (Some j) = Inr (ctx, native)"
  proof (cases native)
    case None
    have "canon (proof_input_js ctx) = Some (tree_of (proof_input_js ctx))" using wf by (simp add: input.canonical)
    then show ?thesis
      using wf decodeReplayInput_tree [of ctx]
      by (simp add: None encodeReplayInput_def encodeProofInput_def canonical_json_iff)
  next
    case (Some n)
    then show ?thesis
      using wf native_replay_tree [of ctx n]
      by (simp add: encodeReplayInput_def encodeNativeReplay_def canonical_json_iff)
  qed
next
  assume "\<exists>j. encodeReplayInput ctx native = Inr j \<and> decodeReplayInput (Some j) = Inr (ctx, native)"
  then obtain j where "decodeReplayInput (Some j) = Inr (ctx, native)" by blast
  then obtain v where v: "record_of (Some j) = Inr v"
    and "(case map_of v ''engine'' of
         None \<Rightarrow> and_then (decodeProofInput (Some j)) (\<lambda>ctx. Inr (ctx, None))
       | Some engine \<Rightarrow>
           if engine \<noteq> JStr NATIVE_ENGINE \<or> join '','' (sort (map fst v)) \<noteq> ''context,engine,native''
           then Inl (ReplayError ''unsupported replay engine'')
           else and_then (decodeProofInput (map_of v ''context'')) (\<lambda>ctx.
                and_then (decodeNativeInput (map_of v ''native'')) (\<lambda>native. Inr (ctx, Some native)))) = Inr (ctx, native)"
    by (auto simp: decodeReplayInput_def and_then_Inr)
  then show "wf_input ctx \<and> pred_option wf_native native"
    by (cases "map_of v ''engine''")
      (auto simp: and_then_Inr decodeProofInput_Inr decodeNativeInput_Inr dest: input.accepts native.accepts split: if_splits)
qed

section \<open>What a native replay concludes\<close>

lemma invalidBound_iff:
  assumes "allPresent c"
  shows "invalidBound c \<longleftrightarrow> created_of c < burned_of c"
  using assms by (auto simp: invalidBound_def allPresent_def created_of_def burned_of_def zero_if_null_def)

text \<open>The data a native claim is made on are whole.\<close>

definition whole_context :: "proof_input \<Rightarrow> bool" where
  "whole_context ctx \<longleftrightarrow> fr_fresh (pi_freshness ctx) \<and> \<not> witnesses_divergent ctx
     \<and> pi_census ctx = CompleteFromDeploymentBlock \<and> pi_untrackedRemotes ctx = []"

lemma replayNative_status:
  assumes "replayNative ctx native = Inr r"
  shows "vr_protocolStatus (rp_verdict r) =
    (if nr_critical (assessNative native) then CRITICAL
     else if whole_context ctx \<and> bound_established native \<and> exclusive_minter (ni_census native)
       \<and> mc_epochsExpected (ni_census native) \<noteq> 0 \<and> 0 \<le> upper_bound_of native
       \<and> (\<exists>coverage. ni_eligibleHomeCoverage native = Some coverage \<and> upper_bound_of native \<le> coverage)
     then OK else UNKNOWN)"
proof -
  have "rp_verdict r = verdict_record_of (aggregate (native_aggregation ctx native))"
    using assms by (auto simp: replayNative_def Let_def and_then_Inr)
  then have status: "vr_protocolStatus (rp_verdict r) =
      (if nr_critical (assessNative native) then CRITICAL
       else if blocked (native_aggregation ctx native) then UNKNOWN
       else if native_proof_result native = FAIL then WARN else OK)"
    by (simp add: verdict_record_of_def aggregate_status native_aggregation_def)
  have blocked: "blocked (native_aggregation ctx native) \<longleftrightarrow> \<not> (whole_context ctx \<and> \<not> native_uncertain native)"
    if "\<not> nr_critical (assessNative native)"
    using that
    by (auto simp: blocked_def native_aggregation_def native_proof_result_def whole_context_def
        replay_data_status_def native_uncertain_def split: if_splits)
  have "allPresent (ni_components native)" if "bound_established native" using that by (simp add: bound_established_def)
  then have "\<not> native_uncertain native \<longleftrightarrow> bound_established native \<and> exclusive_minter (ni_census native)
       \<and> mc_epochsExpected (ni_census native) \<noteq> 0 \<and> 0 \<le> upper_bound_of native
       \<and> (\<exists>coverage. ni_eligibleHomeCoverage native = Some coverage \<and> upper_bound_of native \<le> coverage)"
    using invalidBound_iff [of "ni_components native"]
    by (auto simp: native_uncertain_def assessNative_sufficient_iff not_less)
  with status blocked show ?thesis by (auto simp: native_proof_result_def)
qed

text \<open>
  The recorded verdict of a native replay: CRITICAL exactly when the engine proved a breach, OK
  exactly when the data are whole, the bound is established with an exclusive minter over at least
  one activation epoch, and created minus burned lies between zero and the eligible coverage. There
  is no WARN, everything else is UNKNOWN.
\<close>

theorem replayNative_verdict:
  assumes "replayNative ctx native = Inr r"
  shows "vr_protocolStatus (rp_verdict r) =
    (if nr_critical (assessNative native) then CRITICAL
     else if whole_context ctx \<and> bound_established native \<and> exclusive_minter (ni_census native)
       \<and> mc_epochsExpected (ni_census native) \<noteq> 0 \<and> 0 \<le> upper_bound_of native
       \<and> (\<exists>coverage. ni_eligibleHomeCoverage native = Some coverage \<and> upper_bound_of native \<le> coverage)
     then OK else UNKNOWN)"
  by (rule replayNative_status [OF assms])

lemma replayNative_returns:
  assumes "wf_input ctx" and "wf_native native"
  shows "\<exists>r. replayNative ctx native = Inr r"
proof -
  obtain j where j: "canon (native_replay_js ctx native) = Some j" using native_replay_tree(1) [OF assms] by blast
  have "has_text (js_opt JsBig x)" for x by (rule has_text_opt) (simp add: has_text_leaf)
  then have "has_text (native_result_js (assessNative native))"
    unfolding native_result_js_def
    by (intro has_text_object) (simp_all add: has_text_leaf has_text_texts has_text_object)
  then have "\<exists>t. canon (native_result_js (assessNative native)) = Some t" by (auto simp: has_text_def)
  then obtain t where t: "canon (native_result_js (assessNative native)) = Some t" ..
  have "encodeNativeReplay ctx native = Inr j" using j by (simp add: encodeNativeReplay_def canonical_json_iff)
  moreover have "canonicalStringify (of_json j) = Inr (json_print j)"
    using canon_fixpoint(1) [OF j] by (simp add: canonicalStringify_iff)
  moreover have "canonicalStringify (native_result_js (assessNative native)) = Inr (json_print t)"
    "canonical_json (native_result_js (assessNative native)) = Inr t"
    using t by (simp_all add: canonicalStringify_iff canonical_json_iff)
  ultimately show ?thesis by (simp add: replayNative_def Let_def)
qed

lemma example_native_wf: "wf_native (example_native 20 15 False)"
  by (simp add: example_native_def wf_native_def wf_components_def wf_minter_census_def wf_fee_reporting_def
      uint256_def safe_count_def)

theorem replayNative_verdict_witness:
  "\<exists>r. replayNative example_input (example_native 20 15 False) = Inr r \<and> vr_protocolStatus (rp_verdict r) = OK"
proof -
  obtain r where r: "replayNative example_input (example_native 20 15 False) = Inr r"
    using replayNative_returns [OF example_wf example_native_wf] ..
  moreover have "vr_protocolStatus (rp_verdict r) = OK"
    unfolding replayNative_verdict [OF r]
    by (simp add: example_native_def example_input_def example_proof_def whole_context_def witnesses_divergent_def
        bound_established_def allPresent_def exclusive_minter_def created_of_def burned_of_def zero_if_null_def
        MAX_UINT256_def assessNative_critical_iff minting_breach_def)
  ultimately show ?thesis by blast
qed

end
