(* ===== verification/Bundle.thy ===== *)
theory Bundle
  imports NativeReplay Notify
begin

text \<open>
  packages/evidence/src: the evidence bundle (schema.ts), its runtime schema (validate.ts), assembly
  and chaining (bundle.ts). The records hold what the verifier reads; rules, verdict and replay stay
  the JSON they are stored as. A \<open>read_\<close> function is the view the code takes of validated JSON
  through its types.
\<close>

section \<open>The bundle (schema.ts)\<close>

record producer_identity =
  pr_producer :: string
  pr_schemaVersion :: string
  pr_buildCommit :: string
  pr_artifactChecksum :: string

record source_lock_ref =
  slr_commitSha :: string
  slr_sourceLockHash :: string
  slr_adapterId :: string
  slr_adapterVersion :: int
  slr_adapterEpoch :: string

record approved_baseline_ref =
  abr_manifestHash :: string
  abr_policyHash :: string

record contract_fingerprint =
  cf_role :: string
  cf_blockchainId :: string
  cf_runtimeCodeHash :: string
  cf_address :: string
  cf_implementationAddress :: "string option"
  cf_implementationCodeHash :: "string option"
  cf_proxyAdmin :: "string option"
  cf_beacon :: "string option"
  cf_recognised :: bool

record pinned_chain =
  pch_blockchainId :: string
  pch_evmChainId :: string
  pch_blockNumber :: string
  pch_blockHash :: string
  pch_blockTimestamp :: string
  pch_acceptanceEvidence :: string
  pch_finalityBasis :: string

record witness_vote =
  wv_endpointId :: string
  wv_trustDomain :: string
  wv_providerGroup :: string
  wv_blockchainId :: string
  wv_agreedBlockHash :: string
  wv_agreed :: bool

record quorum_matrix =
  qm_votes :: "witness_vote list"
  qm_independentGroups :: int
  qm_requiredGroups :: int
  qm_note :: string

record raw_fact_ref =
  rfr_evmChainId :: string
  rfr_blockHash :: string
  rfr_txHash :: string
  rfr_logIndex :: int
  rfr_digest :: string

record historical_block =
  hb_blockchainId :: string
  hb_blockNumber :: string
  hb_blockHash :: string
  hb_acceptanceEvidence :: string
  hb_votes :: "witness_vote list"

record state_call =
  stc_blockchainId :: string
  stc_target :: string
  stc_calldataDigest :: string
  stc_resultDigest :: string
  stc_observationPath :: string
  stc_result :: string
  stc_calldata :: string
  stc_provenance :: string
  stc_blockNumber :: string
  stc_blockHash :: string

record census_record =
  cr_completeness :: string
  cr_registeredRemotes :: "string list"
  cr_missingRemotes :: "string list"
  cr_remotesWithoutRpc :: "string list"

record timeline_entry =
  tl_kind :: string
  tl_factDigest :: string

record message_record =
  mrd_sourceBlockchainId :: string
  mrd_destinationBlockchainId :: string
  mrd_teleporterMessengerAddress :: string
  mrd_registryProtocolVersion :: int
  mrd_messageId :: string
  mrd_state :: string
  mrd_timeline :: "timeline_entry list"
  mrd_sendAttempts :: int
  mrd_executionAttempts :: int
  mrd_envelopeIds :: "string list"
  mrd_economicEffectCount :: int

record completeness_record =
  cpr_observedAt :: string
  cpr_expiresAt :: string
  cpr_fresh :: bool
  cpr_missingEvidence :: "string list"
  cpr_contradictoryEvidence :: "string list"

record assurance_record =
  asr_assuranceMode :: string
  asr_assumptions :: "string list"
  asr_exclusions :: "string list"
  asr_nonGoals :: "string list"

record evidence_core =
  ec_producer :: producer_identity
  ec_sourceLock :: source_lock_ref
  ec_baseline :: approved_baseline_ref
  ec_deploymentId :: string
  ec_fingerprints :: "contract_fingerprint list"
  ec_chains :: "pinned_chain list"
  ec_quorum :: quorum_matrix
  ec_rawFacts :: "raw_fact_ref list"
  ec_historicalBlocks :: "historical_block list option"
  ec_stateCalls :: "state_call list"
  ec_census :: census_record
  ec_messages :: "message_record list"
  ec_rules :: "json list"
  ec_verdict :: json_object
  ec_completeness :: completeness_record
  ec_assurance :: assurance_record
  ec_previousBundleHash :: "string option"
  ec_replayInput :: json
  ec_replayEvaluation :: json

record evidence_presentation =
  epr_generatedAt :: string
  epr_locale :: string
  epr_toolVersion :: string

record evidence_bundle =
  eb_core :: evidence_core
  eb_presentation :: evidence_presentation
  eb_contentHash :: string

section \<open>The runtime schema (validate.ts)\<close>

datatype shape =
  ShapeString | ShapeNumber | ShapeBool | ShapeAny
| ShapeArray shape
| ShapeNullable shape
| ShapeOptional shape
| ShapeObject "(string \<times> shape) list"

definition shape_strings :: shape where
  "shape_strings = ShapeArray ShapeString"

definition shape_texts :: "string list \<Rightarrow> (string \<times> shape) list" where
  "shape_texts ks = map (\<lambda>k. (k, ShapeString)) ks"

definition vote_shape :: shape where
  "vote_shape = ShapeObject
     (shape_texts [''endpointId'', ''trustDomain'', ''providerGroup'', ''blockchainId'', ''agreedBlockHash'']
      @ [(''agreed'', ShapeBool)])"

definition producer_shape :: shape where
  "producer_shape = ShapeObject
     (shape_texts [''producer'', ''schemaVersion'', ''buildCommit'', ''artifactChecksum''])"

definition source_lock_shape :: shape where
  "source_lock_shape = ShapeObject
     (shape_texts [''commitSha'', ''sourceLockHash'', ''adapterId'']
      @ [(''adapterVersion'', ShapeNumber), (''adapterEpoch'', ShapeString)])"

definition baseline_shape :: shape where
  "baseline_shape = ShapeObject (shape_texts [''manifestHash'', ''policyHash''])"

definition fingerprint_shape :: shape where
  "fingerprint_shape = ShapeObject
     (shape_texts [''role'', ''blockchainId'', ''runtimeCodeHash'', ''address'']
      @ [(''implementationAddress'', ShapeNullable ShapeString),
         (''implementationCodeHash'', ShapeNullable ShapeString),
         (''proxyAdmin'', ShapeNullable ShapeString), (''beacon'', ShapeNullable ShapeString),
         (''recognised'', ShapeBool)])"

definition chain_shape :: shape where
  "chain_shape = ShapeObject
     (shape_texts [''blockchainId'', ''evmChainId'', ''blockNumber'', ''blockHash'', ''blockTimestamp'',
        ''acceptanceEvidence'', ''finalityBasis''])"

definition quorum_shape :: shape where
  "quorum_shape = ShapeObject
     [(''votes'', ShapeArray vote_shape), (''independentGroups'', ShapeNumber),
      (''requiredGroups'', ShapeNumber), (''note'', ShapeString)]"

definition raw_fact_shape :: shape where
  "raw_fact_shape = ShapeObject
     (shape_texts [''evmChainId'', ''blockHash'', ''txHash'']
      @ [(''logIndex'', ShapeNumber), (''digest'', ShapeString)])"

definition historical_block_shape :: shape where
  "historical_block_shape = ShapeObject
     (shape_texts [''blockchainId'', ''blockNumber'', ''blockHash'', ''acceptanceEvidence'']
      @ [(''votes'', ShapeArray vote_shape)])"

definition state_call_shape :: shape where
  "state_call_shape = ShapeObject
     (shape_texts [''blockchainId'', ''target'', ''calldataDigest'', ''resultDigest'', ''blockNumber'',
        ''blockHash'', ''observationPath'', ''result'', ''calldata'', ''provenance''])"

definition census_shape :: shape where
  "census_shape = ShapeObject
     [(''completeness'', ShapeString), (''registeredRemotes'', shape_strings),
      (''missingRemotes'', shape_strings), (''remotesWithoutRpc'', shape_strings)]"

definition message_shape :: shape where
  "message_shape = ShapeObject
     (shape_texts [''sourceBlockchainId'', ''destinationBlockchainId'', ''teleporterMessengerAddress'']
      @ [(''registryProtocolVersion'', ShapeNumber), (''messageId'', ShapeString), (''state'', ShapeString),
         (''timeline'', ShapeArray (ShapeObject (shape_texts [''kind'', ''factDigest'']))),
         (''sendAttempts'', ShapeNumber), (''executionAttempts'', ShapeNumber),
         (''envelopeIds'', shape_strings), (''economicEffectCount'', ShapeNumber)])"

definition rule_shape :: shape where
  "rule_shape = ShapeObject
     (shape_texts [''ruleId'', ''ruleVersion'', ''result'']
      @ [(''reasonCodes'', shape_strings), (''inputs'', ShapeAny), (''intermediates'', ShapeAny),
         (''unit'', ShapeString), (''floor'', ShapeNullable ShapeString),
         (''ceil'', ShapeNullable ShapeString), (''dust'', ShapeNullable ShapeString)])"

definition verdict_shape :: shape where
  "verdict_shape = ShapeObject
     (shape_texts [''protocolStatus'', ''dataStatus'', ''claimMode'', ''coverage'']
      @ [(''reasonCodes'', shape_strings), (''criticalRuleIds'', shape_strings),
         (''unknownRuleIds'', shape_strings)])"

definition completeness_shape :: shape where
  "completeness_shape = ShapeObject
     [(''observedAt'', ShapeString), (''expiresAt'', ShapeString), (''fresh'', ShapeBool),
      (''missingEvidence'', shape_strings), (''contradictoryEvidence'', shape_strings)]"

definition assurance_shape :: shape where
  "assurance_shape = ShapeObject
     [(''assuranceMode'', ShapeString), (''assumptions'', shape_strings), (''exclusions'', shape_strings),
      (''nonGoals'', shape_strings)]"

definition core_shape :: shape where
  "core_shape = ShapeObject
     [(''producer'', producer_shape), (''sourceLock'', source_lock_shape), (''baseline'', baseline_shape),
      (''deploymentId'', ShapeString), (''fingerprints'', ShapeArray fingerprint_shape),
      (''chains'', ShapeArray chain_shape), (''quorum'', quorum_shape),
      (''rawFacts'', ShapeArray raw_fact_shape),
      (''historicalBlocks'', ShapeOptional (ShapeArray historical_block_shape)),
      (''stateCalls'', ShapeArray state_call_shape), (''census'', census_shape),
      (''messages'', ShapeArray message_shape), (''rules'', ShapeArray rule_shape),
      (''verdict'', verdict_shape), (''completeness'', completeness_shape),
      (''assurance'', assurance_shape), (''previousBundleHash'', ShapeNullable ShapeString),
      (''replay'', ShapeObject [(''input'', ShapeAny), (''evaluation'', ShapeAny)])]"

definition bundle_schema :: shape where
  "bundle_schema = ShapeObject
     [(''contentHash'', ShapeString),
      (''presentation'', ShapeObject (shape_texts [''generatedAt'', ''locale'', ''toolVersion''])),
      (''core'', core_shape)]"

fun matches :: "json option \<Rightarrow> shape \<Rightarrow> bool" where
  "matches v ShapeAny = (v \<noteq> None)"
| "matches v ShapeString = (case v of Some (JStr _) \<Rightarrow> True | _ \<Rightarrow> False)"
| "matches v ShapeBool = (case v of Some (JBool _) \<Rightarrow> True | _ \<Rightarrow> False)"
| "matches v ShapeNumber = (case v of Some (JNum n) \<Rightarrow> js_safe n \<and> n \<ge> 0 | _ \<Rightarrow> False)"
| "matches v (ShapeArray s) = (case v of Some (JArr vs) \<Rightarrow> list_all (\<lambda>x. matches (Some x) s) vs | _ \<Rightarrow> False)"
| "matches v (ShapeNullable s) = (v = Some JNull \<or> matches v s)"
| "matches v (ShapeOptional s) = (v = None \<or> matches v s)"
| "matches v (ShapeObject shapes) =
     (case v of
        Some (JObj ms) \<Rightarrow>
          list_all (\<lambda>(k, _). k \<in> set (map fst shapes)) ms
          \<and> list_all (\<lambda>(k, s). matches (map_of ms k) s) shapes
      | _ \<Rightarrow> False)"

definition validBundleShape :: "json \<Rightarrow> bool" where
  "validBundleShape v = matches (Some v) bundle_schema"

section \<open>The typed view of a validated document\<close>

definition object_at :: "json_object \<Rightarrow> string \<Rightarrow> json_object" where
  "object_at ms k = (case map_of ms k of Some (JObj kvs) \<Rightarrow> kvs | _ \<Rightarrow> [])"

definition text_at :: "json_object \<Rightarrow> string \<Rightarrow> string" where
  "text_at ms k = (case map_of ms k of Some (JStr s) \<Rightarrow> s | _ \<Rightarrow> [])"

definition opt_text_at :: "json_object \<Rightarrow> string \<Rightarrow> string option" where
  "opt_text_at ms k = (case map_of ms k of Some (JStr s) \<Rightarrow> Some s | _ \<Rightarrow> None)"

definition number_at :: "json_object \<Rightarrow> string \<Rightarrow> int" where
  "number_at ms k = (case map_of ms k of Some (JNum n) \<Rightarrow> n | _ \<Rightarrow> 0)"

definition flag_at :: "json_object \<Rightarrow> string \<Rightarrow> bool" where
  "flag_at ms k = (map_of ms k = Some (JBool True))"

definition items_at :: "json_object \<Rightarrow> string \<Rightarrow> json list" where
  "items_at ms k = (case map_of ms k of Some (JArr vs) \<Rightarrow> vs | _ \<Rightarrow> [])"

definition members_of :: "json \<Rightarrow> json_object" where
  "members_of v = (case v of JObj ms \<Rightarrow> ms | _ \<Rightarrow> [])"

definition texts_at :: "json_object \<Rightarrow> string \<Rightarrow> string list" where
  "texts_at ms k = map (\<lambda>v. case v of JStr s \<Rightarrow> s | _ \<Rightarrow> []) (items_at ms k)"

definition value_at :: "json_object \<Rightarrow> string \<Rightarrow> json" where
  "value_at ms k = (case map_of ms k of Some v \<Rightarrow> v | None \<Rightarrow> JNull)"

definition read_producer :: "json_object \<Rightarrow> producer_identity" where
  "read_producer m =
     \<lparr>pr_producer = text_at m ''producer'', pr_schemaVersion = text_at m ''schemaVersion'',
      pr_buildCommit = text_at m ''buildCommit'', pr_artifactChecksum = text_at m ''artifactChecksum''\<rparr>"

definition read_source_lock :: "json_object \<Rightarrow> source_lock_ref" where
  "read_source_lock m =
     \<lparr>slr_commitSha = text_at m ''commitSha'', slr_sourceLockHash = text_at m ''sourceLockHash'',
      slr_adapterId = text_at m ''adapterId'', slr_adapterVersion = number_at m ''adapterVersion'',
      slr_adapterEpoch = text_at m ''adapterEpoch''\<rparr>"

definition read_baseline :: "json_object \<Rightarrow> approved_baseline_ref" where
  "read_baseline m =
     \<lparr>abr_manifestHash = text_at m ''manifestHash'', abr_policyHash = text_at m ''policyHash''\<rparr>"

definition read_fingerprint :: "json_object \<Rightarrow> contract_fingerprint" where
  "read_fingerprint m =
     \<lparr>cf_role = text_at m ''role'', cf_blockchainId = text_at m ''blockchainId'',
      cf_runtimeCodeHash = text_at m ''runtimeCodeHash'', cf_address = text_at m ''address'',
      cf_implementationAddress = opt_text_at m ''implementationAddress'',
      cf_implementationCodeHash = opt_text_at m ''implementationCodeHash'',
      cf_proxyAdmin = opt_text_at m ''proxyAdmin'', cf_beacon = opt_text_at m ''beacon'',
      cf_recognised = flag_at m ''recognised''\<rparr>"

definition read_chain :: "json_object \<Rightarrow> pinned_chain" where
  "read_chain m =
     \<lparr>pch_blockchainId = text_at m ''blockchainId'', pch_evmChainId = text_at m ''evmChainId'',
      pch_blockNumber = text_at m ''blockNumber'', pch_blockHash = text_at m ''blockHash'',
      pch_blockTimestamp = text_at m ''blockTimestamp'',
      pch_acceptanceEvidence = text_at m ''acceptanceEvidence'',
      pch_finalityBasis = text_at m ''finalityBasis''\<rparr>"

definition read_vote :: "json_object \<Rightarrow> witness_vote" where
  "read_vote m =
     \<lparr>wv_endpointId = text_at m ''endpointId'', wv_trustDomain = text_at m ''trustDomain'',
      wv_providerGroup = text_at m ''providerGroup'', wv_blockchainId = text_at m ''blockchainId'',
      wv_agreedBlockHash = text_at m ''agreedBlockHash'', wv_agreed = flag_at m ''agreed''\<rparr>"

definition read_all :: "(json_object \<Rightarrow> 'a) \<Rightarrow> json_object \<Rightarrow> string \<Rightarrow> 'a list" where
  "read_all f ms k = map (\<lambda>v. f (members_of v)) (items_at ms k)"

definition read_quorum :: "json_object \<Rightarrow> quorum_matrix" where
  "read_quorum m =
     \<lparr>qm_votes = read_all read_vote m ''votes'', qm_independentGroups = number_at m ''independentGroups'',
      qm_requiredGroups = number_at m ''requiredGroups'', qm_note = text_at m ''note''\<rparr>"

definition read_raw_fact :: "json_object \<Rightarrow> raw_fact_ref" where
  "read_raw_fact m =
     \<lparr>rfr_evmChainId = text_at m ''evmChainId'', rfr_blockHash = text_at m ''blockHash'',
      rfr_txHash = text_at m ''txHash'', rfr_logIndex = number_at m ''logIndex'',
      rfr_digest = text_at m ''digest''\<rparr>"

definition read_historical_block :: "json_object \<Rightarrow> historical_block" where
  "read_historical_block m =
     \<lparr>hb_blockchainId = text_at m ''blockchainId'', hb_blockNumber = text_at m ''blockNumber'',
      hb_blockHash = text_at m ''blockHash'', hb_acceptanceEvidence = text_at m ''acceptanceEvidence'',
      hb_votes = read_all read_vote m ''votes''\<rparr>"

definition read_state_call :: "json_object \<Rightarrow> state_call" where
  "read_state_call m =
     \<lparr>stc_blockchainId = text_at m ''blockchainId'', stc_target = text_at m ''target'',
      stc_calldataDigest = text_at m ''calldataDigest'', stc_resultDigest = text_at m ''resultDigest'',
      stc_observationPath = text_at m ''observationPath'', stc_result = text_at m ''result'',
      stc_calldata = text_at m ''calldata'', stc_provenance = text_at m ''provenance'',
      stc_blockNumber = text_at m ''blockNumber'', stc_blockHash = text_at m ''blockHash''\<rparr>"

definition read_census :: "json_object \<Rightarrow> census_record" where
  "read_census m =
     \<lparr>cr_completeness = text_at m ''completeness'', cr_registeredRemotes = texts_at m ''registeredRemotes'',
      cr_missingRemotes = texts_at m ''missingRemotes'',
      cr_remotesWithoutRpc = texts_at m ''remotesWithoutRpc''\<rparr>"

definition read_message :: "json_object \<Rightarrow> message_record" where
  "read_message m =
     \<lparr>mrd_sourceBlockchainId = text_at m ''sourceBlockchainId'',
      mrd_destinationBlockchainId = text_at m ''destinationBlockchainId'',
      mrd_teleporterMessengerAddress = text_at m ''teleporterMessengerAddress'',
      mrd_registryProtocolVersion = number_at m ''registryProtocolVersion'',
      mrd_messageId = text_at m ''messageId'', mrd_state = text_at m ''state'',
      mrd_timeline = read_all (\<lambda>t. \<lparr>tl_kind = text_at t ''kind'', tl_factDigest = text_at t ''factDigest''\<rparr>) m ''timeline'',
      mrd_sendAttempts = number_at m ''sendAttempts'', mrd_executionAttempts = number_at m ''executionAttempts'',
      mrd_envelopeIds = texts_at m ''envelopeIds'',
      mrd_economicEffectCount = number_at m ''economicEffectCount''\<rparr>"

definition read_completeness :: "json_object \<Rightarrow> completeness_record" where
  "read_completeness m =
     \<lparr>cpr_observedAt = text_at m ''observedAt'', cpr_expiresAt = text_at m ''expiresAt'',
      cpr_fresh = flag_at m ''fresh'', cpr_missingEvidence = texts_at m ''missingEvidence'',
      cpr_contradictoryEvidence = texts_at m ''contradictoryEvidence''\<rparr>"

definition read_assurance :: "json_object \<Rightarrow> assurance_record" where
  "read_assurance m =
     \<lparr>asr_assuranceMode = text_at m ''assuranceMode'', asr_assumptions = texts_at m ''assumptions'',
      asr_exclusions = texts_at m ''exclusions'', asr_nonGoals = texts_at m ''nonGoals''\<rparr>"

definition read_core :: "json_object \<Rightarrow> evidence_core" where
  "read_core m =
     \<lparr>ec_producer = read_producer (object_at m ''producer''),
      ec_sourceLock = read_source_lock (object_at m ''sourceLock''),
      ec_baseline = read_baseline (object_at m ''baseline''), ec_deploymentId = text_at m ''deploymentId'',
      ec_fingerprints = read_all read_fingerprint m ''fingerprints'',
      ec_chains = read_all read_chain m ''chains'', ec_quorum = read_quorum (object_at m ''quorum''),
      ec_rawFacts = read_all read_raw_fact m ''rawFacts'',
      ec_historicalBlocks = map_option (\<lambda>_. read_all read_historical_block m ''historicalBlocks'')
        (map_of m ''historicalBlocks''),
      ec_stateCalls = read_all read_state_call m ''stateCalls'',
      ec_census = read_census (object_at m ''census''), ec_messages = read_all read_message m ''messages'',
      ec_rules = items_at m ''rules'', ec_verdict = object_at m ''verdict'',
      ec_completeness = read_completeness (object_at m ''completeness''),
      ec_assurance = read_assurance (object_at m ''assurance''),
      ec_previousBundleHash = opt_text_at m ''previousBundleHash'',
      ec_replayInput = value_at (object_at m ''replay'') ''input'',
      ec_replayEvaluation = value_at (object_at m ''replay'') ''evaluation''\<rparr>"

definition core_json :: "json \<Rightarrow> json" where
  "core_json v = value_at (members_of v) ''core''"

definition read_bundle :: "json \<Rightarrow> evidence_bundle" where
  "read_bundle v =
     \<lparr>eb_core = read_core (object_at (members_of v) ''core''),
      eb_presentation =
        (let p = object_at (members_of v) ''presentation''
         in \<lparr>epr_generatedAt = text_at p ''generatedAt'', epr_locale = text_at p ''locale'',
             epr_toolVersion = text_at p ''toolVersion''\<rparr>),
      eb_contentHash = text_at (members_of v) ''contentHash''\<rparr>"

section \<open>A bundle as a document\<close>

text \<open>\<open>JSON.stringify\<close> of the records, fields in the order of the interfaces.\<close>

definition jtexts :: "string list \<Rightarrow> json" where
  "jtexts xs = JArr (map JStr xs)"

definition producer_tree :: "producer_identity \<Rightarrow> json" where
  "producer_tree p = JObj
     [(''producer'', JStr (pr_producer p)), (''schemaVersion'', JStr (pr_schemaVersion p)),
      (''buildCommit'', JStr (pr_buildCommit p)), (''artifactChecksum'', JStr (pr_artifactChecksum p))]"

definition source_lock_tree :: "source_lock_ref \<Rightarrow> json" where
  "source_lock_tree r = JObj
     [(''commitSha'', JStr (slr_commitSha r)), (''sourceLockHash'', JStr (slr_sourceLockHash r)),
      (''adapterId'', JStr (slr_adapterId r)), (''adapterVersion'', JNum (slr_adapterVersion r)),
      (''adapterEpoch'', JStr (slr_adapterEpoch r))]"

definition baseline_tree :: "approved_baseline_ref \<Rightarrow> json" where
  "baseline_tree b = JObj
     [(''manifestHash'', JStr (abr_manifestHash b)), (''policyHash'', JStr (abr_policyHash b))]"

definition fingerprint_tree :: "contract_fingerprint \<Rightarrow> json" where
  "fingerprint_tree f = JObj
     [(''role'', JStr (cf_role f)), (''blockchainId'', JStr (cf_blockchainId f)),
      (''runtimeCodeHash'', JStr (cf_runtimeCodeHash f)), (''address'', JStr (cf_address f)),
      (''implementationAddress'', jopt JStr (cf_implementationAddress f)),
      (''implementationCodeHash'', jopt JStr (cf_implementationCodeHash f)),
      (''proxyAdmin'', jopt JStr (cf_proxyAdmin f)), (''beacon'', jopt JStr (cf_beacon f)),
      (''recognised'', JBool (cf_recognised f))]"

definition chain_tree :: "pinned_chain \<Rightarrow> json" where
  "chain_tree c = JObj
     [(''blockchainId'', JStr (pch_blockchainId c)), (''evmChainId'', JStr (pch_evmChainId c)),
      (''blockNumber'', JStr (pch_blockNumber c)), (''blockHash'', JStr (pch_blockHash c)),
      (''blockTimestamp'', JStr (pch_blockTimestamp c)),
      (''acceptanceEvidence'', JStr (pch_acceptanceEvidence c)),
      (''finalityBasis'', JStr (pch_finalityBasis c))]"

definition vote_tree :: "witness_vote \<Rightarrow> json" where
  "vote_tree v = JObj
     [(''endpointId'', JStr (wv_endpointId v)), (''trustDomain'', JStr (wv_trustDomain v)),
      (''providerGroup'', JStr (wv_providerGroup v)), (''blockchainId'', JStr (wv_blockchainId v)),
      (''agreedBlockHash'', JStr (wv_agreedBlockHash v)), (''agreed'', JBool (wv_agreed v))]"

definition quorum_tree :: "quorum_matrix \<Rightarrow> json" where
  "quorum_tree q = JObj
     [(''votes'', JArr (map vote_tree (qm_votes q))), (''independentGroups'', JNum (qm_independentGroups q)),
      (''requiredGroups'', JNum (qm_requiredGroups q)), (''note'', JStr (qm_note q))]"

definition raw_fact_tree :: "raw_fact_ref \<Rightarrow> json" where
  "raw_fact_tree f = JObj
     [(''evmChainId'', JStr (rfr_evmChainId f)), (''blockHash'', JStr (rfr_blockHash f)),
      (''txHash'', JStr (rfr_txHash f)), (''logIndex'', JNum (rfr_logIndex f)), (''digest'', JStr (rfr_digest f))]"

definition historical_block_tree :: "historical_block \<Rightarrow> json" where
  "historical_block_tree b = JObj
     [(''blockchainId'', JStr (hb_blockchainId b)), (''blockNumber'', JStr (hb_blockNumber b)),
      (''blockHash'', JStr (hb_blockHash b)), (''acceptanceEvidence'', JStr (hb_acceptanceEvidence b)),
      (''votes'', JArr (map vote_tree (hb_votes b)))]"

definition state_call_tree :: "state_call \<Rightarrow> json" where
  "state_call_tree c = JObj
     [(''blockchainId'', JStr (stc_blockchainId c)), (''target'', JStr (stc_target c)),
      (''calldataDigest'', JStr (stc_calldataDigest c)), (''resultDigest'', JStr (stc_resultDigest c)),
      (''observationPath'', JStr (stc_observationPath c)), (''result'', JStr (stc_result c)),
      (''calldata'', JStr (stc_calldata c)), (''provenance'', JStr (stc_provenance c)),
      (''blockNumber'', JStr (stc_blockNumber c)), (''blockHash'', JStr (stc_blockHash c))]"

definition census_tree :: "census_record \<Rightarrow> json" where
  "census_tree c = JObj
     [(''completeness'', JStr (cr_completeness c)), (''registeredRemotes'', jtexts (cr_registeredRemotes c)),
      (''missingRemotes'', jtexts (cr_missingRemotes c)), (''remotesWithoutRpc'', jtexts (cr_remotesWithoutRpc c))]"

definition timeline_tree :: "timeline_entry \<Rightarrow> json" where
  "timeline_tree t = JObj [(''kind'', JStr (tl_kind t)), (''factDigest'', JStr (tl_factDigest t))]"

definition message_tree :: "message_record \<Rightarrow> json" where
  "message_tree m = JObj
     [(''sourceBlockchainId'', JStr (mrd_sourceBlockchainId m)),
      (''destinationBlockchainId'', JStr (mrd_destinationBlockchainId m)),
      (''teleporterMessengerAddress'', JStr (mrd_teleporterMessengerAddress m)),
      (''registryProtocolVersion'', JNum (mrd_registryProtocolVersion m)),
      (''messageId'', JStr (mrd_messageId m)), (''state'', JStr (mrd_state m)),
      (''timeline'', JArr (map timeline_tree (mrd_timeline m))),
      (''sendAttempts'', JNum (mrd_sendAttempts m)), (''executionAttempts'', JNum (mrd_executionAttempts m)),
      (''envelopeIds'', jtexts (mrd_envelopeIds m)),
      (''economicEffectCount'', JNum (mrd_economicEffectCount m))]"

definition completeness_tree :: "completeness_record \<Rightarrow> json" where
  "completeness_tree c = JObj
     [(''observedAt'', JStr (cpr_observedAt c)), (''expiresAt'', JStr (cpr_expiresAt c)),
      (''fresh'', JBool (cpr_fresh c)), (''missingEvidence'', jtexts (cpr_missingEvidence c)),
      (''contradictoryEvidence'', jtexts (cpr_contradictoryEvidence c))]"

definition assurance_tree :: "assurance_record \<Rightarrow> json" where
  "assurance_tree a = JObj
     [(''assuranceMode'', JStr (asr_assuranceMode a)), (''assumptions'', jtexts (asr_assumptions a)),
      (''exclusions'', jtexts (asr_exclusions a)), (''nonGoals'', jtexts (asr_nonGoals a))]"

definition core_members :: "evidence_core \<Rightarrow> json_object" where
  "core_members c =
     [(''producer'', producer_tree (ec_producer c)), (''sourceLock'', source_lock_tree (ec_sourceLock c)),
      (''baseline'', baseline_tree (ec_baseline c)), (''deploymentId'', JStr (ec_deploymentId c)),
      (''fingerprints'', JArr (map fingerprint_tree (ec_fingerprints c))),
      (''chains'', JArr (map chain_tree (ec_chains c))), (''quorum'', quorum_tree (ec_quorum c)),
      (''rawFacts'', JArr (map raw_fact_tree (ec_rawFacts c)))]
     @ (case ec_historicalBlocks c of None \<Rightarrow> []
        | Some bs \<Rightarrow> [(''historicalBlocks'', JArr (map historical_block_tree bs))])
     @ [(''stateCalls'', JArr (map state_call_tree (ec_stateCalls c))), (''census'', census_tree (ec_census c)),
        (''messages'', JArr (map message_tree (ec_messages c))), (''rules'', JArr (ec_rules c)),
        (''verdict'', JObj (ec_verdict c)), (''completeness'', completeness_tree (ec_completeness c)),
        (''assurance'', assurance_tree (ec_assurance c)),
        (''previousBundleHash'', jopt JStr (ec_previousBundleHash c)),
        (''replay'', JObj [(''input'', ec_replayInput c), (''evaluation'', ec_replayEvaluation c)])]"

definition bundle_tree :: "evidence_bundle \<Rightarrow> json" where
  "bundle_tree b = JObj
     [(''core'', JObj (core_members (eb_core b))),
      (''presentation'', JObj
         [(''generatedAt'', JStr (epr_generatedAt (eb_presentation b))),
          (''locale'', JStr (epr_locale (eb_presentation b))),
          (''toolVersion'', JStr (epr_toolVersion (eb_presentation b)))]),
      (''contentHash'', JStr (eb_contentHash b))]"

section \<open>Assembly (bundle.ts)\<close>

text \<open>A draft is a core whose schema version is still to be set, and its presentation.\<close>

record bundle_draft =
  bd_core :: evidence_core
  bd_presentation :: evidence_presentation

definition hash_core :: "(string \<Rightarrow> string) \<Rightarrow> evidence_core \<Rightarrow> canon_error + string" where
  "hash_core sha c = hashCore sha (of_json (JObj (core_members c)))"

definition buildBundle :: "(string \<Rightarrow> string) \<Rightarrow> bundle_draft \<Rightarrow> canon_error + evidence_bundle" where
  "buildBundle sha draft =
     (let c = (bd_core draft)\<lparr>ec_producer := (ec_producer (bd_core draft))
            \<lparr>pr_schemaVersion := EVIDENCE_SCHEMA_VERSION\<rparr>\<rparr>
      in and_then (hash_core sha c) (\<lambda>h.
           Inr \<lparr>eb_core = c, eb_presentation = bd_presentation draft, eb_contentHash = h\<rparr>))"

definition chainTo :: "bundle_draft \<Rightarrow> string \<Rightarrow> bundle_draft" where
  "chainTo draft previousBundleHash =
     draft\<lparr>bd_core := (bd_core draft)\<lparr>ec_previousBundleHash := Some previousBundleHash\<rparr>\<rparr>"

section \<open>Writing and reading\<close>

text \<open>The counts of a core are safe and its opaque parts have their shapes.\<close>

definition json_count :: "int \<Rightarrow> bool" where
  "json_count n \<longleftrightarrow> js_safe n \<and> 0 \<le> n"

definition core_ok :: "evidence_core \<Rightarrow> bool" where
  "core_ok c \<longleftrightarrow> json_count (slr_adapterVersion (ec_sourceLock c))
     \<and> json_count (qm_independentGroups (ec_quorum c)) \<and> json_count (qm_requiredGroups (ec_quorum c))
     \<and> (\<forall>f \<in> set (ec_rawFacts c). json_count (rfr_logIndex f))
     \<and> (\<forall>m \<in> set (ec_messages c). json_count (mrd_registryProtocolVersion m) \<and> json_count (mrd_sendAttempts m)
          \<and> json_count (mrd_executionAttempts m) \<and> json_count (mrd_economicEffectCount m))
     \<and> (\<forall>r \<in> set (ec_rules c). matches (Some r) rule_shape)
     \<and> matches (Some (JObj (ec_verdict c))) verdict_shape"

lemma matches_texts: "matches (Some (jtexts xs)) shape_strings"
  by (simp add: jtexts_def shape_strings_def list_all_iff)

lemma matches_jopt: "matches (Some (jopt JStr x)) (ShapeNullable ShapeString)"
  by (cases x) (simp_all add: jopt_def)

lemma matches_map:
  "(\<And>x. x \<in> set xs \<Longrightarrow> matches (Some (f x)) s) \<Longrightarrow> matches (Some (JArr (map f xs))) (ShapeArray s)"
  by (simp add: list_all_iff)

lemmas match_simps = shape_texts_def matches_texts matches_jopt json_count_def

lemma vote_matches: "matches (Some (vote_tree v)) vote_shape"
  by (simp add: vote_tree_def vote_shape_def match_simps)

lemma fingerprint_matches: "matches (Some (fingerprint_tree v)) fingerprint_shape"
  by (simp add: fingerprint_tree_def fingerprint_shape_def match_simps del: matches.simps(6))

lemma chain_matches: "matches (Some (chain_tree v)) chain_shape"
  by (simp add: chain_tree_def chain_shape_def match_simps)

lemma quorum_matches:
  "json_count (qm_independentGroups q) \<Longrightarrow> json_count (qm_requiredGroups q) \<Longrightarrow> matches (Some (quorum_tree q)) quorum_shape"
  by (simp add: quorum_tree_def quorum_shape_def match_simps list_all_iff vote_matches)

lemma raw_fact_matches: "json_count (rfr_logIndex f) \<Longrightarrow> matches (Some (raw_fact_tree f)) raw_fact_shape"
  by (simp add: raw_fact_tree_def raw_fact_shape_def match_simps)

lemma historical_block_matches: "matches (Some (historical_block_tree b)) historical_block_shape"
  by (simp add: historical_block_tree_def historical_block_shape_def match_simps list_all_iff vote_matches)

lemma state_call_matches: "matches (Some (state_call_tree c)) state_call_shape"
  by (simp add: state_call_tree_def state_call_shape_def match_simps)

lemma message_matches:
  "json_count (mrd_registryProtocolVersion m) \<Longrightarrow> json_count (mrd_sendAttempts m) \<Longrightarrow>
     json_count (mrd_executionAttempts m) \<Longrightarrow> json_count (mrd_economicEffectCount m) \<Longrightarrow>
     matches (Some (message_tree m)) message_shape"
  by (simp add: message_tree_def message_shape_def match_simps timeline_tree_def list_all_iff)

lemma small_records_match:
  "matches (Some (producer_tree p)) producer_shape"
  "json_count (slr_adapterVersion r) \<Longrightarrow> matches (Some (source_lock_tree r)) source_lock_shape"
  "matches (Some (baseline_tree b)) baseline_shape"
  "matches (Some (census_tree c)) census_shape"
  "matches (Some (completeness_tree d)) completeness_shape"
  "matches (Some (assurance_tree a)) assurance_shape"
  by (simp_all add: producer_tree_def producer_shape_def source_lock_tree_def source_lock_shape_def
      baseline_tree_def baseline_shape_def census_tree_def census_shape_def completeness_tree_def
      completeness_shape_def assurance_tree_def assurance_shape_def match_simps)

lemma core_matches:
  assumes "core_ok c"
  shows "matches (Some (JObj (core_members c))) core_shape"
proof -
  have ok: "json_count (slr_adapterVersion (ec_sourceLock c))" "json_count (qm_independentGroups (ec_quorum c))"
    "json_count (qm_requiredGroups (ec_quorum c))" "matches (Some (JObj (ec_verdict c))) verdict_shape"
    using assms by (simp_all only: core_ok_def)
  have "matches (Some (JArr (map fingerprint_tree (ec_fingerprints c)))) (ShapeArray fingerprint_shape)"
    "matches (Some (JArr (map chain_tree (ec_chains c)))) (ShapeArray chain_shape)"
    "matches (Some (JArr (map raw_fact_tree (ec_rawFacts c)))) (ShapeArray raw_fact_shape)"
    "matches (Some (JArr (map state_call_tree (ec_stateCalls c)))) (ShapeArray state_call_shape)"
    "matches (Some (JArr (map message_tree (ec_messages c)))) (ShapeArray message_shape)"
    using assms unfolding core_ok_def
    by (blast intro: matches_map fingerprint_matches chain_matches raw_fact_matches state_call_matches
        message_matches)+
  moreover have "matches (Some (JArr (ec_rules c))) (ShapeArray rule_shape)"
    using assms unfolding core_ok_def matches.simps(5) by (simp add: list_all_iff)
  moreover have "matches (Some (JArr (map historical_block_tree bs))) (ShapeArray historical_block_shape)" for bs
    by (rule matches_map) (rule historical_block_matches)
  ultimately show ?thesis
    using ok
    by (cases "ec_historicalBlocks c")
      (simp_all add: core_shape_def core_members_def quorum_matches small_records_match matches_jopt
        del: matches.simps(5,6))
qed

lemma read_leaf_simps:
  "map_of ms k = Some (JStr s) \<Longrightarrow> text_at ms k = s"
  "map_of ms k = Some (JNum n) \<Longrightarrow> number_at ms k = n"
  "map_of ms k = Some (JBool b) \<Longrightarrow> flag_at ms k = b"
  "map_of ms k = Some (jopt JStr x) \<Longrightarrow> opt_text_at ms k = x"
  "map_of ms k = Some (jtexts xs) \<Longrightarrow> texts_at ms k = xs"
  "map_of ms k = Some (JArr vs) \<Longrightarrow> items_at ms k = vs"
  "map_of ms k = Some v \<Longrightarrow> object_at ms k = members_of v"
  "map_of ms k = Some v \<Longrightarrow> value_at ms k = v"
  by (auto simp: text_at_def number_at_def flag_at_def opt_text_at_def texts_at_def items_at_def jtexts_def
      jopt_def object_at_def members_of_def value_at_def comp_def split: option.splits json.splits)

lemma read_all_tree:
  assumes "map_of ms k = Some (JArr (map f xs))" and "\<And>x. g (members_of (f x)) = x"
  shows "read_all g ms k = xs"
  using assms by (simp add: read_all_def read_leaf_simps comp_def)

lemma members_of_JObj [simp]: "members_of (JObj ms) = ms"
  by (simp add: members_of_def)

lemma read_trees:
  "read_producer (members_of (producer_tree p)) = p"
  "read_source_lock (members_of (source_lock_tree l)) = l"
  "read_baseline (members_of (baseline_tree b)) = b"
  "read_fingerprint (members_of (fingerprint_tree f)) = f"
  "read_chain (members_of (chain_tree c)) = c"
  "read_vote (members_of (vote_tree v)) = v"
  "read_raw_fact (members_of (raw_fact_tree r)) = r"
  "read_state_call (members_of (state_call_tree s)) = s"
  "read_census (members_of (census_tree e)) = e"
  "read_completeness (members_of (completeness_tree d)) = d"
  "read_assurance (members_of (assurance_tree a)) = a"
  by (simp_all add: read_producer_def producer_tree_def read_source_lock_def source_lock_tree_def
      read_baseline_def baseline_tree_def read_fingerprint_def fingerprint_tree_def read_chain_def chain_tree_def
      read_vote_def vote_tree_def read_raw_fact_def raw_fact_tree_def read_state_call_def state_call_tree_def
      read_census_def census_tree_def read_completeness_def completeness_tree_def read_assurance_def
      assurance_tree_def read_leaf_simps)

lemma read_nested_trees:
  "read_quorum (members_of (quorum_tree q)) = q"
  "read_historical_block (members_of (historical_block_tree h)) = h"
  "read_message (members_of (message_tree m)) = m"
proof -
  have votes: "read_all read_vote ms ''votes'' = vs" if "map_of ms ''votes'' = Some (JArr (map vote_tree vs))" for ms vs
    using that read_trees(6) by (rule read_all_tree)
  have timeline: "read_all (\<lambda>t. \<lparr>tl_kind = text_at t ''kind'', tl_factDigest = text_at t ''factDigest''\<rparr>) ms ''timeline'' = ts"
    if "map_of ms ''timeline'' = Some (JArr (map timeline_tree ts))" for ms ts
    using that by (rule read_all_tree) (simp add: timeline_tree_def read_leaf_simps)
  show "read_quorum (members_of (quorum_tree q)) = q"
    by (simp add: read_quorum_def quorum_tree_def read_leaf_simps votes)
  show "read_historical_block (members_of (historical_block_tree h)) = h"
    by (simp add: read_historical_block_def historical_block_tree_def read_leaf_simps votes)
  show "read_message (members_of (message_tree m)) = m"
    by (simp add: read_message_def message_tree_def read_leaf_simps timeline)
qed

lemma read_core_members: "read_core (core_members c) = c"
proof -
  have "read_core (core_members c) = c" if "ec_historicalBlocks c = b" for b
    using that
    by (cases b)
      (simp_all add: read_core_def core_members_def read_leaf_simps read_trees read_nested_trees
        read_all_tree [of _ _ fingerprint_tree] read_all_tree [of _ _ chain_tree]
        read_all_tree [of _ _ raw_fact_tree] read_all_tree [of _ _ state_call_tree]
        read_all_tree [of _ _ message_tree] read_all_tree [of _ _ historical_block_tree])
  then show ?thesis by blast
qed

lemma bundle_written_and_read:
  assumes "core_ok (eb_core b)"
  shows "validBundleShape (bundle_tree b) \<and> read_bundle (bundle_tree b) = b
    \<and> core_json (bundle_tree b) = JObj (core_members (eb_core b))"
proof (intro conjI)
  show "validBundleShape (bundle_tree b)"
    using core_matches [OF assms] by (simp add: validBundleShape_def bundle_schema_def bundle_tree_def shape_texts_def)
  show "read_bundle (bundle_tree b) = b"
    by (simp add: read_bundle_def bundle_tree_def read_leaf_simps read_core_members Let_def)
  show "core_json (bundle_tree b) = JObj (core_members (eb_core b))"
    by (simp add: core_json_def bundle_tree_def read_leaf_simps)
qed

text \<open>
  A bundle that is written as JSON passes the runtime schema and is read back as it was.
\<close>

theorem bundle_roundtrip:
  assumes "core_ok (eb_core b)"
  shows "validBundleShape (bundle_tree b) \<and> read_bundle (bundle_tree b) = b
    \<and> core_json (bundle_tree b) = JObj (core_members (eb_core b))"
  by (rule bundle_written_and_read [OF assms])

section \<open>A bundle has a canonical text\<close>

lemma json_text_leaf:
  "has_text (of_json (JStr s))" "has_text (of_json (JBool b))" "has_text (of_json (JNum n)) \<longleftrightarrow> js_safe n"
  "has_text (of_json (jopt JStr x))" "has_text (of_json (jtexts xs))"
  by (auto simp: has_text_def jopt_def jtexts_def canon_items_those those_None_iff split: option.splits)

lemma json_text_object:
  assumes "distinct (map fst ms)" and "\<forall>m \<in> set ms. has_text (of_json (snd m))"
  shows "has_text (of_json (JObj ms))"
  unfolding of_json.simps by (rule has_text_object) (use assms in \<open>auto simp: comp_def\<close>)

lemma json_text_array:
  "(\<And>x. x \<in> set xs \<Longrightarrow> has_text (of_json (f x))) \<Longrightarrow> has_text (of_json (JArr (map f xs)))"
  unfolding of_json.simps list.map_comp by (rule has_text_array_map) simp

lemma json_text_items:
  "(\<And>x. x \<in> set xs \<Longrightarrow> has_text (of_json x)) \<Longrightarrow> has_text (of_json (JArr xs))"
  using json_text_array [of xs "\<lambda>x. x"] by simp

lemma vote_text: "has_text (of_json (vote_tree v))"
  unfolding vote_tree_def by (rule json_text_object) (simp_all add: json_text_leaf del: of_json.simps)

lemma record_texts:
  "has_text (of_json (producer_tree p))" "has_text (of_json (baseline_tree b))"
  "has_text (of_json (fingerprint_tree f))" "has_text (of_json (chain_tree c))"
  "has_text (of_json (state_call_tree s))" "has_text (of_json (census_tree e))"
  "has_text (of_json (completeness_tree d))" "has_text (of_json (assurance_tree a))"
  "has_text (of_json (timeline_tree t))"
  "js_safe (slr_adapterVersion l) \<Longrightarrow> has_text (of_json (source_lock_tree l))"
  "js_safe (rfr_logIndex r) \<Longrightarrow> has_text (of_json (raw_fact_tree r))"
  unfolding producer_tree_def baseline_tree_def fingerprint_tree_def chain_tree_def state_call_tree_def
    census_tree_def completeness_tree_def assurance_tree_def timeline_tree_def source_lock_tree_def raw_fact_tree_def
  by (rule json_text_object; simp add: json_text_leaf del: of_json.simps)+

lemma nested_texts:
  "js_safe (qm_independentGroups q) \<Longrightarrow> js_safe (qm_requiredGroups q) \<Longrightarrow> has_text (of_json (quorum_tree q))"
  "has_text (of_json (historical_block_tree h))"
  "js_safe (mrd_registryProtocolVersion m) \<Longrightarrow> js_safe (mrd_sendAttempts m) \<Longrightarrow> js_safe (mrd_executionAttempts m) \<Longrightarrow>
     js_safe (mrd_economicEffectCount m) \<Longrightarrow> has_text (of_json (message_tree m))"
proof -
  have v: "has_text (of_json (JArr (map vote_tree vs)))" for vs by (rule json_text_array) (rule vote_text)
  have t: "has_text (of_json (JArr (map timeline_tree ts)))" for ts by (rule json_text_array) (rule record_texts)
  show "js_safe (qm_independentGroups q) \<Longrightarrow> js_safe (qm_requiredGroups q) \<Longrightarrow> has_text (of_json (quorum_tree q))"
    unfolding quorum_tree_def by (rule json_text_object) (simp_all add: json_text_leaf v del: of_json.simps)
  show "has_text (of_json (historical_block_tree h))"
    unfolding historical_block_tree_def by (rule json_text_object) (simp_all add: json_text_leaf v del: of_json.simps)
  show "js_safe (mrd_registryProtocolVersion m) \<Longrightarrow> js_safe (mrd_sendAttempts m) \<Longrightarrow>
     js_safe (mrd_executionAttempts m) \<Longrightarrow> js_safe (mrd_economicEffectCount m) \<Longrightarrow> has_text (of_json (message_tree m))"
    unfolding message_tree_def by (rule json_text_object) (simp_all add: json_text_leaf t del: of_json.simps)
qed

definition opaque_texts :: "evidence_core \<Rightarrow> bool" where
  "opaque_texts c \<longleftrightarrow> (\<forall>r \<in> set (ec_rules c). has_text (of_json r)) \<and> has_text (of_json (JObj (ec_verdict c)))
     \<and> has_text (of_json (ec_replayInput c)) \<and> has_text (of_json (ec_replayEvaluation c))"

lemma core_text:
  assumes "core_ok c" and "opaque_texts c"
  shows "has_text (of_json (JObj (core_members c)))"
proof -
  have arrays: "has_text (of_json (JArr (map fingerprint_tree (ec_fingerprints c))))"
    "has_text (of_json (JArr (map chain_tree (ec_chains c))))"
    "has_text (of_json (JArr (map raw_fact_tree (ec_rawFacts c))))"
    "has_text (of_json (JArr (map state_call_tree (ec_stateCalls c))))"
    "has_text (of_json (JArr (map message_tree (ec_messages c))))"
    "has_text (of_json (JArr (ec_rules c)))"
    using assms unfolding core_ok_def opaque_texts_def json_count_def
    by (blast intro: json_text_array json_text_items record_texts nested_texts)+
  have h: "has_text (of_json (JArr (map historical_block_tree bs)))" for bs
    by (rule json_text_array) (rule nested_texts)
  have "has_text (of_json (JObj [(''input'', ec_replayInput c), (''evaluation'', ec_replayEvaluation c)]))"
    by (rule json_text_object) (use assms in \<open>simp_all add: opaque_texts_def\<close>)
  with arrays h assms show ?thesis
    unfolding core_ok_def json_count_def opaque_texts_def core_members_def
    by (intro json_text_object; cases "ec_historicalBlocks c")
      (simp_all add: json_text_leaf record_texts nested_texts del: of_json.simps)
qed

end
