(* ===== verification/Verify.thy ===== *)
theory Verify
  imports Bundle Independence
begin

text \<open>
  packages/evidence/src/verify.ts: the offline verifier. A candidate is a JSON document whose numbers
  are whole and whose objects have distinct keys, as \<open>JSON.parse\<close> gives them. The platform's
  \<open>Date.parse\<close> is the argument \<open>date_parse\<close> (\<open>None\<close> is NaN), SHA-256 the argument \<open>sha\<close>.
\<close>

section \<open>Results\<close>

datatype verify_failure =
  SchemaInvalid | SchemaVersionUnknown | ContentHashMismatch | DanglingReference
| MissingRequiredEvidence | VerdictMismatch | SecretPresent | NotCanonical

record verify_finding =
  vf_failure :: verify_failure
  vf_detail :: string

record verify_result =
  vres_verified :: bool
  vres_findings :: "verify_finding list"
  vres_recomputedHash :: string
  vres_trustBoundary :: "string list"

definition TRUST_BOUNDARY :: "string list" where
  "TRUST_BOUNDARY =
    [''Whether the RPC providers reported the truth is NOT verified here; quorum records that independent readers agreed, which is not a cryptographic or Byzantine guarantee.'',
     ''Whether the deployed runtime bytecode matches the operator-attested fingerprint is not re-checked offline; it is attested in the manifest.'',
     ''Whether every path that reduces native supply is captured by the two burn addresses is an unverified upstream assumption.'',
     ''This bundle is reproducible and tamper-evident, not tamper-proof: anyone who can edit the file can recompute its hash.'']"

definition failed :: "verify_failure \<Rightarrow> verify_result" where
  "failed failure =
     \<lparr>vres_verified = False,
      vres_findings = [\<lparr>vf_failure = failure, vf_detail = ''Bundle rejected; no untrusted values echoed.''\<rparr>],
      vres_recomputedHash = [], vres_trustBoundary = TRUST_BOUNDARY\<rparr>"

section \<open>BigInt of a string\<close>

definition js_space :: "char \<Rightarrow> bool" where
  "js_space c \<longleftrightarrow> of_char c \<in> {9, 10, 11, 12, 13, 32, 160 :: nat}"

definition js_trim :: "string \<Rightarrow> string" where
  "js_trim s = rev (dropWhile js_space (rev (dropWhile js_space s)))"

definition hex_digit_value :: "char \<Rightarrow> nat option" where
  "hex_digit_value c =
     (let n = of_char c :: nat
      in if 48 \<le> n \<and> n \<le> 57 then Some (n - 48)
         else if 97 \<le> n \<and> n \<le> 102 then Some (n - 87)
         else if 65 \<le> n \<and> n \<le> 70 then Some (n - 55) else None)"

definition digits_in_base :: "nat \<Rightarrow> string \<Rightarrow> int option" where
  "digits_in_base b s =
     (if s = [] then None
      else foldl (\<lambda>acc c. case (acc, hex_digit_value c) of
          (Some a, Some d) \<Rightarrow> if d < b then Some (a * int b + int d) else None
        | _ \<Rightarrow> None) (Some 0) s)"

definition signed_decimal :: "string \<Rightarrow> int option" where
  "signed_decimal s =
     (case s of
        CHR ''-'' # ds \<Rightarrow> map_option uminus (digits_in_base 10 ds)
      | CHR ''+'' # ds \<Rightarrow> digits_in_base 10 ds
      | _ \<Rightarrow> digits_in_base 10 s)"

definition js_BigInt :: "string \<Rightarrow> int option" where
  "js_BigInt text =
     (let s = js_trim text; prefix = map lower_char (take 2 s)
      in if s = [] then Some 0
         else if prefix = ''0x'' then digits_in_base 16 (drop 2 s)
         else if prefix = ''0o'' then digits_in_base 8 (drop 2 s)
         else if prefix = ''0b'' then digits_in_base 2 (drop 2 s)
         else signed_decimal s)"

section \<open>Checks\<close>

text \<open>A check of the \<open>try\<close> block: the findings it pushes, \<open>None\<close> when it throws.\<close>

type_synonym check = "verify_finding list option"

definition require_evidence :: "bool \<Rightarrow> string \<Rightarrow> verify_finding list" where
  "require_evidence ok detail =
     (if \<not> ok then [\<lparr>vf_failure = MissingRequiredEvidence, vf_detail = detail\<rparr>] else [])"

definition checked :: "bool \<Rightarrow> string \<Rightarrow> check" where
  "checked ok detail = Some (require_evidence ok detail)"

definition checked_option :: "bool option \<Rightarrow> string \<Rightarrow> check" where
  "checked_option ok detail = map_option (\<lambda>b. require_evidence b detail) ok"

definition invalid_replay :: verify_finding where
  "invalid_replay =
     \<lparr>vf_failure = SchemaInvalid,
      vf_detail = ''Invalid or incomplete replay input; arithmetic was not verified.''\<rparr>"

text \<open>The \<open>try\<close> block: the findings up to the first throw, and the finding of the handler.\<close>

fun run_checks :: "check list \<Rightarrow> verify_finding list" where
  "run_checks [] = []"
| "run_checks (None # _) = [invalid_replay]"
| "run_checks (Some fs # cs) = fs @ run_checks cs"

lemma run_checks_Nil: "run_checks cs = [] \<longleftrightarrow> (\<forall>c \<in> set cs. c = Some [])"
  by (induction cs rule: run_checks.induct) auto

lemma checked_passes:
  "checked ok detail = Some [] \<longleftrightarrow> ok"
  "checked_option x detail = Some [] \<longleftrightarrow> x = Some True"
  by (auto simp: checked_def checked_option_def require_evidence_def split: if_splits)

section \<open>The replay\<close>

text \<open>\<open>canonicalStringify(a) !== canonicalStringify(b)\<close>; \<open>None\<close> when one throws.\<close>

definition differs :: "js \<Rightarrow> js \<Rightarrow> bool option" where
  "differs a b =
     (case (canonicalStringify a, canonicalStringify b) of
        (Inr s, Inr t) \<Rightarrow> Some (s \<noteq> t) | _ \<Rightarrow> None)"

lemma differs_False: "differs a b = Some False \<longleftrightarrow> canon a = canon b \<and> canon a \<noteq> None"
proof -
  have "differs a b = Some False \<longleftrightarrow> (\<exists>s. canonicalStringify a = Inr s \<and> canonicalStringify b = Inr s)"
    by (auto simp: differs_def split: sum.splits)
  then show ?thesis by (auto simp: canonicalStringify_iff)
qed

text \<open>\<open>a || b\<close> over comparisons that may throw.\<close>

definition or_else :: "bool option \<Rightarrow> bool option \<Rightarrow> bool option" where
  "or_else x y = (case x of None \<Rightarrow> None | Some True \<Rightarrow> Some True | Some False \<Rightarrow> y)"

lemma or_else_False: "or_else x y = Some False \<longleftrightarrow> x = Some False \<and> y = Some False"
  by (auto simp: or_else_def split: option.splits bool.splits)

definition replay_check :: "evidence_core \<Rightarrow> replayed \<Rightarrow> check" where
  "replay_check core r =
     map_option (\<lambda>different. if different
         then [\<lparr>vf_failure = VerdictMismatch,
                vf_detail = ''Pure rule proof, intermediate arithmetic or full verdict differs.''\<rparr>] else [])
       (or_else (differs (of_json (rp_evaluation r)) (of_json (ec_replayEvaluation core)))
         (or_else (differs (JsArr [rule_record_js (rp_rule r)]) (JsArr (map of_json (ec_rules core))))
           (differs (verdict_record_js (rp_verdict r)) (of_json (JObj (ec_verdict core))))))"

text \<open>The loop over the keys of the recorded verdict, which stops at the first difference.\<close>

fun external_loop :: "(string \<times> js) list \<Rightarrow> json_object \<Rightarrow> check" where
  "external_loop ext [] = Some []"
| "external_loop ext ((key, v) # kvs) =
     (case differs (case map_of ext key of None \<Rightarrow> JsUndef | Some x \<Rightarrow> x) (of_json v) of
        None \<Rightarrow> None
      | Some True \<Rightarrow> Some [\<lparr>vf_failure = VerdictMismatch,
                           vf_detail = ''Optional external replay assertion differs.''\<rparr>]
      | Some False \<Rightarrow> external_loop ext kvs)"

definition external_check :: "evidence_core \<Rightarrow> aggregation_input option \<Rightarrow> check" where
  "external_check core replayInputs =
     (case replayInputs of
        None \<Rightarrow> Some []
      | Some aggregation \<Rightarrow>
          external_loop
            (case verdict_record_js (verdict_record_of (aggregate aggregation)) of JsObj ms \<Rightarrow> ms | _ \<Rightarrow> [])
            (ec_verdict core))"

section \<open>Provenance and collections\<close>

definition identity_checks :: "evidence_core \<Rightarrow> proof_input \<Rightarrow> check list" where
  "identity_checks core input =
     [checked (pr_producer (ec_producer core) = ''ictt-sentinel'' \<and> hex64 (pr_artifactChecksum (ec_producer core)))
        ''Invalid producer identity.'',
      checked (hex64 (slr_sourceLockHash (ec_sourceLock core))) ''Missing source-lock digest.'',
      checked (ec_deploymentId core = pi_deploymentId input
          \<and> Some (abr_manifestHash (ec_baseline core)) = pv_manifestHash (pi_provenance input)
          \<and> Some (abr_policyHash (ec_baseline core)) = pv_policyHash (pi_provenance input)
          \<and> Some (slr_commitSha (ec_sourceLock core)) = pv_sourceLockCommitSha (pi_provenance input)
          \<and> Some (slr_adapterId (ec_sourceLock core)) = pv_adapterId (pi_provenance input)
          \<and> Some (slr_adapterVersion (ec_sourceLock core)) = pv_adapterVersion (pi_provenance input))
        ''Provenance does not bind the replay input.'',
      checked (length (ec_chains core) \<ge> 2 \<and> length (ec_fingerprints core) > 0
          \<and> length (ec_rawFacts core) > 0 \<and> length (ec_stateCalls core) > 0 \<and> length (ec_messages core) > 0)
        ''Required observation collections are empty.'',
      checked (qm_requiredGroups (ec_quorum core) \<ge> 2
          \<and> qm_requiredGroups (ec_quorum core) = fr_requiredWitnessGroups (pi_freshness input))
        ''Invalid quorum threshold.'']"

definition fingerprint_checks :: "evidence_core \<Rightarrow> proof_input \<Rightarrow> check list" where
  "fingerprint_checks core input =
     [checked (list_all (\<lambda>f. hex_string 40 (cf_address f) \<and> hex_string 64 (cf_runtimeCodeHash f)
          \<and> list_ex (\<lambda>c. pch_blockchainId c = cf_blockchainId f) (ec_chains core)) (ec_fingerprints core))
        ''Invalid contract fingerprint.'',
      checked (list_all (\<lambda>r. list_ex (\<lambda>f. cf_blockchainId f = ro_remoteBlockchainId r
          \<and> cf_address f = ro_remoteAddress r \<and> cf_recognised f = ro_fingerprintRecognised r)
          (ec_fingerprints core)) (pi_remotes input))
        ''Remote fingerprint does not bind replay.'']"

section \<open>Chains and witnesses\<close>

text \<open>Shared domain or group connects witnesses into one failure domain.\<close>

record vote_component =
  vc_domains :: "string set"
  vc_groups :: "string set"

definition vote_step :: "vote_component list \<Rightarrow> witness_vote \<Rightarrow> vote_component list" where
  "vote_step components vote =
     (let joins = (\<lambda>c. wv_trustDomain vote \<in> vc_domains c \<or> wv_providerGroup vote \<in> vc_groups c);
          joined = filter joins components;
          merged = \<lparr>vc_domains = insert (wv_trustDomain vote) (\<Union> (set (map vc_domains joined))),
                    vc_groups = insert (wv_providerGroup vote) (\<Union> (set (map vc_groups joined)))\<rparr>
      in filter (\<lambda>c. \<not> joins c) components @ [merged])"

definition vote_components :: "witness_vote list \<Rightarrow> vote_component list" where
  "vote_components votes = foldl vote_step [] votes"

definition chain_votes :: "evidence_core \<Rightarrow> pinned_chain \<Rightarrow> witness_vote list" where
  "chain_votes core chain =
     filter (\<lambda>v. wv_blockchainId v = pch_blockchainId chain \<and> wv_agreed v
         \<and> wv_agreedBlockHash v = pch_blockHash chain) (qm_votes (ec_quorum core))"

definition chain_count :: "evidence_core \<Rightarrow> pinned_chain \<Rightarrow> int" where
  "chain_count core chain = int (length (vote_components (chain_votes core chain)))"

definition chain_stands :: "pinned_chain \<Rightarrow> bool option" where
  "chain_stands chain =
     (case (js_BigInt (pch_evmChainId chain), js_BigInt (pch_blockTimestamp chain)) of
        (Some evmChainId, Some timestamp) \<Rightarrow>
          Some (finalityBasisStands (pch_finalityBasis chain)
            \<lparr>ci_evmChainId = evmChainId, ci_blockchainId = pch_blockchainId chain\<rparr> timestamp)
      | _ \<Rightarrow> None)"

definition chain_checks :: "evidence_core \<Rightarrow> pinned_chain \<Rightarrow> check list" where
  "chain_checks core chain =
     [checked (length (pch_acceptanceEvidence chain) > 0
          \<and> (pch_finalityBasis chain = ''accepted-quorum'' \<or> pch_finalityBasis chain = ''settled-quorum''))
        ''Acceptance capability missing.'',
      checked_option (chain_stands chain) ''Accepted-state basis superseded by ACP-194 on this chain.'',
      checked (canonical_decimal (pch_blockNumber chain) \<and> hex_string 64 (pch_blockHash chain))
        ''Invalid block pin.'',
      checked (chain_count core chain \<ge> qm_requiredGroups (ec_quorum core))
        ''Independent chain quorum unavailable.'']"

text \<open>\<open>Math.min(...counts)\<close>, which is Infinity of no counts.\<close>

definition min_count :: "evidence_core \<Rightarrow> int option" where
  "min_count core =
     (case map (chain_count core) (ec_chains core) of [] \<Rightarrow> None | n # ns \<Rightarrow> Some (foldl min n ns))"

definition endpoint_id_text :: "string \<Rightarrow> bool" where
  "endpoint_id_text s \<longleftrightarrow> take 3 s = ''ep-'' \<and> drop 3 s \<noteq> [] \<and> list_all is_lower_hex (drop 3 s)"

definition replay_pins :: "proof_input \<Rightarrow> pinned_block option list" where
  "replay_pins input =
     concat (map (\<lambda>r. [ro_homePin r, ro_remotePin r]) (pi_remotes input)) @ [he_homePin (pi_homeEscrow input)]"

definition pinned_in :: "evidence_core \<Rightarrow> pinned_block \<Rightarrow> bool" where
  "pinned_in core p =
     list_ex (\<lambda>c. pch_blockchainId c = pb_blockchainId p \<and> pch_blockNumber c = show_int (pb_blockNumber p)
         \<and> pch_blockHash c = pb_blockHash p) (ec_chains core)"

definition witness_checks :: "evidence_core \<Rightarrow> proof_input \<Rightarrow> check list" where
  "witness_checks core input =
     [checked (min_count core = Some (fr_independentWitnessGroups (pi_freshness input))
          \<and> min_count core = Some (qm_independentGroups (ec_quorum core)))
        ''Witness counts differ from replay.'',
      checked (list_all (\<lambda>v. endpoint_id_text (wv_endpointId v)
          \<and> list_ex (\<lambda>c. pch_blockchainId c = wv_blockchainId v) (ec_chains core)) (qm_votes (ec_quorum core)))
        ''Invalid witness reference.'',
      checked (list_all (\<lambda>p. case p of None \<Rightarrow> False | Some b \<Rightarrow> pinned_in core b) (replay_pins input))
        ''Replay pin missing from chain observations.'']"

section \<open>Historical blocks\<close>

definition history_of :: "evidence_core \<Rightarrow> historical_block list" where
  "history_of core = (case ec_historicalBlocks core of None \<Rightarrow> [] | Some bs \<Rightarrow> bs)"

text \<open>\<open>chain !== undefined && regex && BigInt(..) < BigInt(..) && ...\<close>, left to right.\<close>

definition historical_pin :: "evidence_core \<Rightarrow> historical_block \<Rightarrow> bool option" where
  "historical_pin core block =
     (case List.find (\<lambda>c. pch_blockchainId c = hb_blockchainId block) (ec_chains core) of
        None \<Rightarrow> Some False
      | Some chain \<Rightarrow>
          if \<not> canonical_decimal (hb_blockNumber block) then Some False
          else (case js_BigInt (pch_blockNumber chain) of
              None \<Rightarrow> None
            | Some n \<Rightarrow> Some (int (read_nat (hb_blockNumber block)) < n \<and> hex_string 64 (hb_blockHash block)
                \<and> length (hb_acceptanceEvidence block) > 0)))"

definition historical_votes :: "evidence_core \<Rightarrow> historical_block \<Rightarrow> bool" where
  "historical_votes core block =
     (let witnesses = filter (\<lambda>v. wv_blockchainId v = hb_blockchainId block) (qm_votes (ec_quorum core))
      in length (hb_votes block) = length witnesses
         \<and> list_all (\<lambda>v. wv_agreed v \<and> wv_agreedBlockHash v = hb_blockHash block
              \<and> wv_blockchainId v = hb_blockchainId block
              \<and> list_ex (\<lambda>w. wv_endpointId w = wv_endpointId v \<and> wv_trustDomain w = wv_trustDomain v
                   \<and> wv_providerGroup w = wv_providerGroup v) witnesses) (hb_votes block)
         \<and> length (uniq (map wv_endpointId (hb_votes block))) = length witnesses)"

definition history_checks :: "evidence_core \<Rightarrow> check list" where
  "history_checks core =
     checked (length (uniq (map (\<lambda>b. hb_blockchainId b @ ''/'' @ hb_blockNumber b) (history_of core)))
         = length (history_of core)) ''Duplicate historical block.''
     # concat (map (\<lambda>block.
         [checked_option (historical_pin core block) ''Invalid historical accepted block.'',
          checked (historical_votes core block) ''Historical block witnesses missing or contradictory.''])
         (history_of core))"

section \<open>Facts\<close>

definition fact_digest_ok :: "(string \<Rightarrow> string) \<Rightarrow> raw_fact_ref \<Rightarrow> bool option" where
  "fact_digest_ok sha f =
     map_option (\<lambda>evmChainId. rfr_digest f = factDigest sha evmChainId (rfr_blockHash f) (rfr_txHash f) (rfr_logIndex f))
       (js_BigInt (rfr_evmChainId f))"

definition fact_block_known :: "evidence_core \<Rightarrow> raw_fact_ref \<Rightarrow> bool" where
  "fact_block_known core f =
     list_ex (\<lambda>c. pch_evmChainId c = rfr_evmChainId f
         \<and> (pch_blockHash c = rfr_blockHash f
            \<or> list_ex (\<lambda>b. hb_blockchainId b = pch_blockchainId c \<and> hb_blockHash b = rfr_blockHash f)
                (history_of core))) (ec_chains core)"

definition fact_checks :: "(string \<Rightarrow> string) \<Rightarrow> evidence_core \<Rightarrow> check list" where
  "fact_checks sha core =
     concat (map (\<lambda>f.
       [checked_option (fact_digest_ok sha f) ''Raw fact coordinate digest differs.'',
        checked (fact_block_known core f) ''Raw fact block reference missing.'']) (ec_rawFacts core))
     @ [checked (length (uniq (map rfr_digest (ec_rawFacts core))) = length (ec_rawFacts core))
          ''Duplicate raw fact.'']"

section \<open>State calls\<close>

definition recognised :: "evidence_core \<Rightarrow> string \<Rightarrow> string \<Rightarrow> bool" where
  "recognised core blockchainId address =
     list_ex (\<lambda>f. cf_blockchainId f = blockchainId \<and> cf_address f = address \<and> cf_recognised f)
       (ec_fingerprints core)"

definition pad_start :: "nat \<Rightarrow> char \<Rightarrow> string \<Rightarrow> string" where
  "pad_start n c s = replicate (n - length s) c @ s"

definition escrow_bound :: "evidence_core \<Rightarrow> state_call \<Rightarrow> bool" where
  "escrow_bound core call =
     (case List.find (\<lambda>c. stc_observationPath c = ''homeEscrow.tokenAddress'') (ec_stateCalls core) of
        None \<Rightarrow> False
      | Some tokenAddress \<Rightarrow>
          stc_observationPath call = ''homeEscrow.escrowBalance''
          \<and> stc_calldata tokenAddress = ''0x10fe9ae8''
          \<and> recognised core (stc_blockchainId tokenAddress) (stc_target tokenAddress)
          \<and> stc_blockchainId tokenAddress = stc_blockchainId call
          \<and> stc_blockNumber tokenAddress = stc_blockNumber call
          \<and> stc_blockHash tokenAddress = stc_blockHash call
          \<and> stc_result tokenAddress = stc_target call
          \<and> stc_calldata call = ''0x70a08231'' @ pad_start 64 (CHR ''0'') (drop 2 (stc_target tokenAddress)))"

definition call_pinned :: "evidence_core \<Rightarrow> state_call \<Rightarrow> bool" where
  "call_pinned core call =
     list_ex (\<lambda>c. pch_blockchainId c = stc_blockchainId call \<and> pch_blockNumber c = stc_blockNumber call
         \<and> pch_blockHash c = stc_blockHash call) (ec_chains core)"

definition call_digests_ok :: "(string \<Rightarrow> string) \<Rightarrow> state_call \<Rightarrow> bool" where
  "call_digests_ok sha call \<longleftrightarrow>
     stc_calldataDigest call = domainSeparatedSha256 sha ''ictt-sentinel/calldata/v1'' (stc_calldata call)
     \<and> stc_resultDigest call = stateCallDigest sha (stc_target call) (stc_calldata call) (stc_result call)
     \<and> length (stc_provenance call) > 0"

text \<open>The loop carries the paths seen so far.\<close>

fun call_checks :: "(string \<Rightarrow> string) \<Rightarrow> evidence_core \<Rightarrow> string list \<Rightarrow> state_call list \<Rightarrow> check list" where
  "call_checks sha core seen [] = []"
| "call_checks sha core seen (call # calls) =
     [checked (stc_observationPath call \<notin> set seen) ''Duplicate state observation.'',
      checked (recognised core (stc_blockchainId call) (stc_target call) \<or> escrow_bound core call)
        ''State call target has no recognised fingerprint.'',
      checked (call_pinned core call) ''State call pin missing.'',
      checked (call_digests_ok sha call) ''State call digest or provenance differs.'']
     @ call_checks sha core (seen @ [stc_observationPath call]) calls"

definition observations :: "evidence_core \<Rightarrow> (string \<times> string) list" where
  "observations core =
     foldl (\<lambda>m call. AList.update (stc_observationPath call) (stc_result call) m) [] (ec_stateCalls core)"

text \<open>\<open>value !== null && observations.get(path) === String(value)\<close>.\<close>

definition observed_as :: "evidence_core \<Rightarrow> string \<Rightarrow> int option \<Rightarrow> bool" where
  "observed_as core path v =
     (case v of None \<Rightarrow> False | Some n \<Rightarrow> map_of (observations core) path = Some (show_int n))"

definition remote_path :: "nat \<Rightarrow> string \<Rightarrow> string" where
  "remote_path i name = ''remotes.'' @ show_nat i @ ''.'' @ name"

definition erc20_checks :: "evidence_core \<Rightarrow> proof_input \<Rightarrow> check list" where
  "erc20_checks core input =
     concat (map (\<lambda>(i, r).
       [checked (observed_as core (remote_path i ''transferredBalance'') (ro_transferredBalance r))
          ''Required remote state observation missing or contradictory.'',
        checked (observed_as core (remote_path i ''remoteTotalSupply'') (ro_remoteTotalSupply r))
          ''Required remote state observation missing or contradictory.''])
       (enumerate 0 (pi_remotes input)))
     @ [checked (observed_as core ''homeEscrow.escrowBalance'' (he_escrowBalance (pi_homeEscrow input)))
          ''Escrow observation missing or contradictory.'']"

definition native_values :: "native_input \<Rightarrow> (string \<times> int option) list" where
  "native_values n =
     [(''native.components.totalMinted'', ns_totalMinted (ni_components n)),
      (''native.components.initialReserveImbalance'', ns_initialReserveImbalance (ni_components n)),
      (''native.components.burnedTxFeesAddressBalance'', ns_burnedTxFeesAddressBalance (ni_components n)),
      (''native.components.burnedForTransferAddressBalance'', ns_burnedForTransferAddressBalance (ni_components n)),
      (''native.eligibleHomeCoverage'', ni_eligibleHomeCoverage n),
      (''native.collateralNeeded'', ni_collateralNeeded n),
      (''native.acceptedCollateral'', ni_acceptedCollateral n)]"

definition section_observed :: "evidence_core \<Rightarrow> string \<Rightarrow> js \<Rightarrow> bool option" where
  "section_observed core path v =
     (case canonicalStringify v of
        Inl _ \<Rightarrow> None | Inr s \<Rightarrow> Some (map_of (observations core) path = Some s))"

definition native_checks :: "evidence_core \<Rightarrow> native_input \<Rightarrow> check list" where
  "native_checks core n =
     map (\<lambda>(path, v). checked (observed_as core path v)
       ''Required native observation missing or contradictory.'') (native_values n)
     @ [checked (ns_fingerprintRecognised (ni_components n)
            \<and> list_ex (\<lambda>f. cf_role f = ''native-token-remote'' \<and> cf_recognised f) (ec_fingerprints core))
          ''Native fingerprint missing.'',
        checked (mc_epochsExpected (ni_census n) > 0
            \<and> mc_epochsCovered (ni_census n) \<ge> mc_epochsExpected (ni_census n)
            \<and> mc_manifestRosterProvided (ni_census n) \<and> mc_genesisChainConfigRead (ni_census n)
            \<and> mc_activationRulesKnown (ni_census n) \<and> mc_roleHistoryCompleteFromActivation (ni_census n)
            \<and> mc_allCandidateRolesRead (ni_census n))
          ''Native minter census evidence incomplete.'',
        checked_option (section_observed core ''native.census'' (minter_census_js (ni_census n)))
          ''Native census or fee-report provenance missing.'',
        checked_option (section_observed core ''native.feeReporting'' (fee_reporting_js (ni_feeReporting n)))
          ''Native census or fee-report provenance missing.'']
     @ (case ni_trustworthySupplyLowerBound n of
          None \<Rightarrow> []
        | Some lower \<Rightarrow>
            [checked (map_of (observations core) ''native.trustworthySupplyLowerBound'' = Some (show_int lower))
               ''Native lower-bound evidence missing.''])"

section \<open>Census, freshness, lineage\<close>

definition same_texts :: "string list \<Rightarrow> string list \<Rightarrow> bool option" where
  "same_texts xs ys = map_option Not (differs (js_texts xs) (js_texts ys))"

definition remote_name :: "remote_observation \<Rightarrow> string" where
  "remote_name r = ro_remoteBlockchainId r @ ''/'' @ ro_remoteAddress r"

definition closing_checks :: "(string \<Rightarrow> int option) \<Rightarrow> evidence_core \<Rightarrow> proof_input \<Rightarrow> check list" where
  "closing_checks date_parse core input =
     [checked_option
        (map_option (\<lambda>same. same \<and> cr_completeness (ec_census core) = census_text (pi_census input)
            \<and> length (cr_missingRemotes (ec_census core)) = 0 \<and> length (cr_remotesWithoutRpc (ec_census core)) = 0)
          (same_texts (cr_registeredRemotes (ec_census core)) (map remote_name (pi_remotes input))))
        ''Census incomplete or contradictory.'',
      checked (cpr_fresh (ec_completeness core) \<and> fr_fresh (pi_freshness input)
          \<and> (case (date_parse (cpr_observedAt (ec_completeness core)), date_parse (cpr_expiresAt (ec_completeness core))) of
              (Some observed, Some expires) \<Rightarrow> expires > observed | _ \<Rightarrow> False))
        ''Freshness not established at the recorded evaluation time.'',
      checked (list_all (\<lambda>m. length (mrd_timeline m) > 0 \<and> length (mrd_envelopeIds m) > 0) (ec_messages core))
        ''Message lineage missing.'']
     @ map (\<lambda>e. checked (case ce_causalSourceFact e of None \<Rightarrow> False
           | Some d \<Rightarrow> d \<in> set (map rfr_digest (ec_rawFacts core))) ''Effect source reference missing.'')
         (pi_effects input)"

section \<open>verifyBundle\<close>

definition evidence_checks ::
  "(string \<Rightarrow> string) \<Rightarrow> (string \<Rightarrow> int option) \<Rightarrow> aggregation_input option \<Rightarrow> evidence_core \<Rightarrow> proof_input
   \<Rightarrow> native_input option \<Rightarrow> replayed \<Rightarrow> check list" where
  "evidence_checks sha date_parse replayInputs core input native r =
     [replay_check core r, external_check core replayInputs]
     @ identity_checks core input @ fingerprint_checks core input
     @ concat (map (chain_checks core) (ec_chains core)) @ witness_checks core input
     @ history_checks core @ fact_checks sha core @ call_checks sha core [] (ec_stateCalls core)
     @ (case native of None \<Rightarrow> erc20_checks core input | Some n \<Rightarrow> native_checks core n)
     @ closing_checks date_parse core input"

definition replay_findings ::
  "(string \<Rightarrow> string) \<Rightarrow> (string \<Rightarrow> int option) \<Rightarrow> aggregation_input option \<Rightarrow> evidence_core
   \<Rightarrow> verify_finding list" where
  "replay_findings sha date_parse replayInputs core =
     (case decodeReplayInput (Some (ec_replayInput core)) of
        Inl _ \<Rightarrow> [invalid_replay]
      | Inr (input, native) \<Rightarrow>
          (case replayEvaluation sha (Some (ec_replayInput core)) of
             Inl _ \<Rightarrow> [invalid_replay]
           | Inr r \<Rightarrow> run_checks (evidence_checks sha date_parse replayInputs core input native r)))"

definition dangling_references :: "evidence_core \<Rightarrow> verify_finding list" where
  "dangling_references core =
     concat (map (\<lambda>m. concat (map (\<lambda>t.
         if tl_factDigest t \<in> set (map rfr_digest (ec_rawFacts core)) then []
         else [\<lparr>vf_failure = DanglingReference,
                vf_detail = ''message '' @ mrd_messageId m @ '' cites unknown fact '' @ tl_factDigest t\<rparr>])
       (mrd_timeline m))) (ec_messages core))"

definition admitted_gaps :: "evidence_core \<Rightarrow> verify_finding list" where
  "admitted_gaps core =
     (let missing = cpr_missingEvidence (ec_completeness core);
          contradictory = cpr_contradictoryEvidence (ec_completeness core)
      in (if length missing > 0
          then [\<lparr>vf_failure = MissingRequiredEvidence, vf_detail = join '', '' missing\<rparr>] else [])
       @ (if length contradictory > 0
          then [\<lparr>vf_failure = MissingRequiredEvidence,
                 vf_detail = ''contradictory: '' @ join '', '' contradictory\<rparr>] else []))"

definition secret_findings :: "string \<Rightarrow> verify_finding list" where
  "secret_findings serialised =
     (let secrets = findSecrets serialised
      in if length secrets > 0
         then [\<lparr>vf_failure = SecretPresent, vf_detail = join '', '' (uniq (map sf_pattern secrets))\<rparr>] else [])"

text \<open>The body behind the gates may still throw, where the core has no canonical text.\<close>

definition verify_body ::
  "(string \<Rightarrow> string) \<Rightarrow> (string \<Rightarrow> int option) \<Rightarrow> json \<Rightarrow> aggregation_input option
   \<Rightarrow> canon_error + verify_result" where
  "verify_body sha date_parse candidate replayInputs =
     (let bundle = read_bundle candidate; core = eb_core bundle
      in and_then (hashCore sha (of_json (core_json candidate))) (\<lambda>recomputedHash.
         and_then (canonicalStringify (of_json (core_json candidate))) (\<lambda>serialised.
         let findings =
           (if recomputedHash \<noteq> eb_contentHash bundle
            then [\<lparr>vf_failure = ContentHashMismatch,
                   vf_detail = ''recorded '' @ eb_contentHash bundle @ '', recomputed '' @ recomputedHash\<rparr>] else [])
           @ dangling_references core @ admitted_gaps core
           @ replay_findings sha date_parse replayInputs core @ secret_findings serialised
         in Inr \<lparr>vres_verified = (findings = []), vres_findings = findings,
                 vres_recomputedHash = recomputedHash, vres_trustBoundary = TRUST_BOUNDARY\<rparr>)))"

definition verifyBundle ::
  "(string \<Rightarrow> string) \<Rightarrow> (string \<Rightarrow> int option) \<Rightarrow> json \<Rightarrow> aggregation_input option
   \<Rightarrow> canon_error + verify_result" where
  "verifyBundle sha date_parse candidate replayInputs =
     (if findSecrets (json_print candidate) \<noteq> [] then Inr (failed SecretPresent)
      else if \<not> validBundleShape candidate then Inr (failed SchemaInvalid)
      else if pr_schemaVersion (ec_producer (eb_core (read_bundle candidate))) \<noteq> EVIDENCE_SCHEMA_VERSION
      then Inr (failed SchemaVersionUnknown)
      else if \<not> is_ok (canonicalStringify (of_json candidate)) then Inr (failed NotCanonical)
      else verify_body sha date_parse candidate replayInputs)"

text \<open>\<open>assertBundleShareable\<close>, before a bundle is written.\<close>

datatype share_error = ShareNonCanonical canon_error | ShareSecrets "secret_finding list"

definition assertBundleShareable :: "json \<Rightarrow> share_error + unit" where
  "assertBundleShareable bundle =
     (case canonicalStringify (of_json bundle) of
        Inl e \<Rightarrow> Inl (ShareNonCanonical e)
      | Inr s \<Rightarrow> let findings = findSecrets s in if findings \<noteq> [] then Inl (ShareSecrets findings) else Inr ())"

section \<open>The verifier returns\<close>

lemma canon_members_defined:
  "canon_members kvs \<noteq> None \<Longrightarrow> (k, v) \<in> set kvs \<Longrightarrow> v \<noteq> JsUndef \<Longrightarrow> canon v \<noteq> None"
proof (induction kvs)
  case (Cons kv kvs)
  then show ?case by (cases kv) (auto split: if_splits option.splits)
qed simp

lemma canon_object_member:
  assumes "canon (of_json (JObj ms)) \<noteq> None" and "map_of ms k = Some v"
  shows "canon (of_json v) \<noteq> None"
proof -
  have "canon_members (map (\<lambda>kv. (fst kv, of_json (snd kv))) ms) \<noteq> None"
    using assms(1) by (auto split: option.splits)
  moreover have "(k, of_json v) \<in> set (map (\<lambda>kv. (fst kv, of_json (snd kv))) ms)"
    using map_of_SomeD [OF assms(2)] by (force simp: image_iff)
  ultimately show ?thesis by (rule canon_members_defined) simp
qed

lemma matches_object:
  "matches v (ShapeObject shapes) \<longleftrightarrow>
     (\<exists>ms. v = Some (JObj ms) \<and> (\<forall>m \<in> set ms. fst m \<in> fst ` set shapes)
        \<and> (\<forall>s \<in> set shapes. matches (map_of ms (fst s)) (snd s)))"
proof (cases v)
  case (Some x)
  then show ?thesis by (cases x) (simp_all add: list_all_iff case_prod_beta)
qed simp

lemma shape_core:
  assumes "validBundleShape v"
  obtains ms where "v = JObj ms" and "map_of ms ''core'' = Some (core_json v)"
proof -
  have "matches (Some v) bundle_schema" using assms by (simp only: validBundleShape_def)
  then obtain ms where ms: "v = JObj ms" "matches (map_of ms ''core'') core_shape"
    unfolding bundle_schema_def matches_object by auto
  then have "map_of ms ''core'' \<noteq> None" unfolding core_shape_def matches_object by blast
  then have "map_of ms ''core'' = Some (core_json v)" by (auto simp: ms core_json_def value_at_def)
  with ms(1) show ?thesis by (rule that)
qed

lemma canonical_core:
  assumes "validBundleShape v" and "is_ok (canonicalStringify (of_json v))"
  shows "canon (of_json (core_json v)) \<noteq> None"
proof -
  obtain ms where ms: "v = JObj ms" "map_of ms ''core'' = Some (core_json v)" using shape_core [OF assms(1)] .
  have "canon (of_json (JObj ms)) \<noteq> None" using assms(2) unfolding ms(1) is_ok_iff canonicalStringify_iff by blast
  then show ?thesis by (rule canon_object_member) (rule ms(2))
qed

lemma verify_body_Inr:
  assumes "canon (of_json (core_json v)) = Some j"
  shows "verify_body sha date_parse v replayInputs =
    (let core = eb_core (read_bundle v);
         findings =
           (if sha (DOMAIN_PREFIX @ json_print j) \<noteq> eb_contentHash (read_bundle v)
            then [\<lparr>vf_failure = ContentHashMismatch,
                   vf_detail = ''recorded '' @ eb_contentHash (read_bundle v) @ '', recomputed ''
                     @ sha (DOMAIN_PREFIX @ json_print j)\<rparr>] else [])
           @ dangling_references core @ admitted_gaps core
           @ replay_findings sha date_parse replayInputs core @ secret_findings (json_print j)
     in Inr \<lparr>vres_verified = (findings = []), vres_findings = findings,
             vres_recomputedHash = sha (DOMAIN_PREFIX @ json_print j), vres_trustBoundary = TRUST_BOUNDARY\<rparr>)"
proof -
  have "canonicalStringify (of_json (core_json v)) = Inr (json_print j)"
    using assms by (simp add: canonicalStringify_iff)
  moreover from this have "hashCore sha (of_json (core_json v)) = Inr (sha (DOMAIN_PREFIX @ json_print j))"
    by (simp add: hashCore_def)
  ultimately show ?thesis by (simp only: verify_body_def and_then_simps Let_def)
qed

text \<open>
  The verifier answers on every document: no candidate makes it throw, and a candidate that is not
  a canonical bundle of this schema version is rejected with the one failure of the first gate it
  misses.
\<close>

theorem verifyBundle_total:
  "\<exists>r. verifyBundle sha date_parse candidate replayInputs = Inr r
     \<and> vres_verified r = (vres_findings r = []) \<and> vres_trustBoundary r = TRUST_BOUNDARY"
proof (cases "findSecrets (json_print candidate) \<noteq> [] \<or> \<not> validBundleShape candidate
    \<or> pr_schemaVersion (ec_producer (eb_core (read_bundle candidate))) \<noteq> EVIDENCE_SCHEMA_VERSION
    \<or> \<not> is_ok (canonicalStringify (of_json candidate))")
  case True
  then show ?thesis by (auto simp: verifyBundle_def failed_def)
next
  case False
  then obtain j where "canon (of_json (core_json candidate)) = Some j" using canonical_core by blast
  then show ?thesis using False by (simp add: verifyBundle_def verify_body_Inr Let_def)
qed

section \<open>What verified means\<close>

definition verified :: "(string \<Rightarrow> string) \<Rightarrow> (string \<Rightarrow> int option) \<Rightarrow> json \<Rightarrow> bool" where
  "verified sha date_parse v \<longleftrightarrow>
     (\<exists>r. verifyBundle sha date_parse v None = Inr r \<and> vres_verified r)"

lemma dangling_references_Nil:
  "dangling_references core = [] \<longleftrightarrow>
     (\<forall>m \<in> set (ec_messages core). \<forall>t \<in> set (mrd_timeline m).
        tl_factDigest t \<in> set (map rfr_digest (ec_rawFacts core)))"
  by (simp only: dangling_references_def concat_eq_Nil_conv list.set_map ball_simps) auto

lemma admitted_gaps_Nil:
  "admitted_gaps core = [] \<longleftrightarrow> cpr_missingEvidence (ec_completeness core) = []
     \<and> cpr_contradictoryEvidence (ec_completeness core) = []"
  by (simp add: admitted_gaps_def Let_def)

lemma secret_findings_Nil: "secret_findings s = [] \<longleftrightarrow> findSecrets s = []"
  by (simp add: secret_findings_def Let_def)

lemma replay_findings_Nil:
  "replay_findings sha date_parse ext core = [] \<longleftrightarrow>
     (\<exists>input native r. decodeReplayInput (Some (ec_replayInput core)) = Inr (input, native)
        \<and> replayEvaluation sha (Some (ec_replayInput core)) = Inr r
        \<and> (\<forall>c \<in> set (evidence_checks sha date_parse ext core input native r). c = Some []))"
  by (auto simp: replay_findings_def run_checks_Nil split: sum.splits)

lemma verified_characterisation:
  "verified sha date_parse v \<longleftrightarrow>
     findSecrets (json_print v) = [] \<and> validBundleShape v
     \<and> pr_schemaVersion (ec_producer (eb_core (read_bundle v))) = EVIDENCE_SCHEMA_VERSION
     \<and> canon (of_json v) \<noteq> None
     \<and> hashCore sha (of_json (core_json v)) = Inr (eb_contentHash (read_bundle v))
     \<and> dangling_references (eb_core (read_bundle v)) = [] \<and> admitted_gaps (eb_core (read_bundle v)) = []
     \<and> replay_findings sha date_parse None (eb_core (read_bundle v)) = []
     \<and> (\<exists>j. canon (of_json (core_json v)) = Some j \<and> findSecrets (json_print j) = [])"
proof (cases "findSecrets (json_print v) = [] \<and> validBundleShape v
    \<and> pr_schemaVersion (ec_producer (eb_core (read_bundle v))) = EVIDENCE_SCHEMA_VERSION
    \<and> canon (of_json v) \<noteq> None")
  case True
  then have ok: "is_ok (canonicalStringify (of_json v))" by (auto simp: is_ok_iff canonicalStringify_iff)
  with True obtain j where j: "canon (of_json (core_json v)) = Some j" using canonical_core by blast
  then have "canonicalStringify (of_json (core_json v)) = Inr (json_print j)" by (simp add: canonicalStringify_iff)
  then have "hashCore sha (of_json (core_json v)) = Inr (sha (DOMAIN_PREFIX @ json_print j))"
    by (simp add: hashCore_def)
  with True ok j show ?thesis
    by (auto simp: verified_def verifyBundle_def verify_body_Inr Let_def secret_findings_Nil split: if_splits)
next
  case False
  then have "\<not> verified sha date_parse v"
    by (auto simp: verified_def verifyBundle_def failed_def is_ok_iff canonicalStringify_iff split: if_splits)
  with False show ?thesis by blast
qed

text \<open>The votes of a chain are counted by failure domain, as the quorum counts its witnesses.\<close>

lemma vote_components_failure_domains:
  "length (vote_components votes)
     = card (failure_domains wv_trustDomain wv_providerGroup (set votes))"
proof -
  define view where "view c = \<lparr>vc_domains = ic_domains c, vc_groups = ic_providers c\<rparr>" for c :: "witness_vote independence_component"
  have step: "vote_step (map view cs) v = map view (independence_step wv_trustDomain wv_providerGroup cs v)" for cs v
    by (simp add: vote_step_def independence_step_def view_def filter_map comp_def)
  have "foldl vote_step (map view cs) vs = map view (foldl (independence_step wv_trustDomain wv_providerGroup) cs vs)" for cs vs
    by (induction vs arbitrary: cs) (simp_all add: step)
  from this [of "[]" votes]
  have "length (vote_components votes) = length (foldl (independence_step wv_trustDomain wv_providerGroup) [] votes)"
    by (simp add: vote_components_def)
  also have "\<dots> = card (failure_domains wv_trustDomain wv_providerGroup (set votes))"
    using components_classes [OF components_inv_all [of wv_trustDomain wv_providerGroup votes]]
    by (metis (no_types, lifting) distinct_card length_map list.set_map)
  finally show ?thesis .
qed

section \<open>What a passed replay says\<close>

text \<open>The members of a canonical object are the canonical members.\<close>

lemma canon_members_lookup:
  "canon_members kvs = Some ns \<Longrightarrow> \<forall>kv \<in> set kvs. snd kv \<noteq> JsUndef \<Longrightarrow>
     map_of ns k = Option.bind (map_of kvs k) canon"
proof (induction kvs arbitrary: ns)
  case (Cons kv kvs)
  then obtain j ms where "canon (snd kv) = Some j" "canon_members kvs = Some ms" "ns = (fst kv, j) # ms"
    by (cases kv) (auto split: option.splits)
  with Cons show ?case by (cases kv) auto
qed simp

lemma canon_object_lookup:
  assumes "canon (JsObj kvs) = canon (JsObj lvs)" and "canon (JsObj kvs) \<noteq> None"
    and "\<forall>kv \<in> set kvs. snd kv \<noteq> JsUndef" and "\<forall>kv \<in> set lvs. snd kv \<noteq> JsUndef"
  shows "Option.bind (map_of kvs k) canon = Option.bind (map_of lvs k) canon"
proof -
  obtain ms where ms: "canon_members kvs = Some ms" "distinct (map fst ms)" "canon (JsObj kvs) = Some (JObj (sort_key fst ms))"
    using assms(2) by (auto split: option.splits if_splits)
  have "canon (JsObj lvs) = Some (JObj (sort_key fst ms))" using assms(1) ms(3) by simp
  then obtain ns where ns: "canon_members lvs = Some ns" "distinct (map fst ns)" "sort_key fst ns = sort_key fst ms"
    by (auto split: option.splits if_splits)
  have "map_of ms k = map_of ns k"
    using map_of_sorted_members [OF ms(2)] map_of_sorted_members [OF ns(2)] ns(3)
    unfolding sorted_members_def by metis
  then show ?thesis using canon_members_lookup [OF ms(1) assms(3)] canon_members_lookup [OF ns(1) assms(4)] by simp
qed

lemma recorded_verdict_text:
  assumes "differs (verdict_record_js v) (of_json (JObj ms)) = Some False"
  shows "text_at ms ''protocolStatus'' = verdict_text (vr_protocolStatus v)"
proof -
  have eq: "canon (verdict_record_js v) = canon (of_json (JObj ms))" "canon (verdict_record_js v) \<noteq> None"
    using assms unfolding differs_False by blast+
  have "Some (JStr (verdict_text (vr_protocolStatus v)))
      = Option.bind (map_of (map (\<lambda>kv. (fst kv, of_json (snd kv))) ms) ''protocolStatus'') canon"
    using canon_object_lookup [OF eq(1) [unfolded verdict_record_js_def of_json.simps]
        eq(2) [unfolded verdict_record_js_def], of "''protocolStatus''"]
    by (simp add: js_texts_def js_reasons_def)
  also have "\<dots> = Option.bind (map_of ms ''protocolStatus'') (\<lambda>j. canon (of_json j))"
    by (induction ms) auto
  finally obtain j where j: "map_of ms ''protocolStatus'' = Some j"
    "canon (of_json j) = Some (JStr (verdict_text (vr_protocolStatus v)))"
    by (cases "map_of ms ''protocolStatus''") auto
  show ?thesis
  proof (cases j)
    case (JNum n)
    then have "show_int n = verdict_text (vr_protocolStatus v)" using j(2) by (auto split: if_splits)
    moreover have "\<exists>c \<in> set (verdict_text (vr_protocolStatus v)). \<not> is_digit c \<and> c \<noteq> CHR ''-''"
      by (cases "vr_protocolStatus v") (simp_all add: is_digit_def)
    ultimately show ?thesis using show_int_chars by metis
  qed (use j in \<open>auto simp: text_at_def split: option.splits if_splits\<close>)
qed

lemma status_text_inject: "verdict_text v = verdict_text w \<longleftrightarrow> v = w"
  by (cases v; cases w) simp_all

text \<open>
  A balance is backed when a state call of the bundle returned it, at a block of a pinned chain on
  which the votes of at least the required number of failure domains agree.
\<close>

definition backed :: "evidence_core \<Rightarrow> string \<Rightarrow> int \<Rightarrow> bool" where
  "backed core path n \<longleftrightarrow>
     (\<exists>call \<in> set (ec_stateCalls core). \<exists>chain \<in> set (ec_chains core).
        stc_observationPath call = path \<and> stc_result call = show_int n
        \<and> pch_blockchainId chain = stc_blockchainId call \<and> pch_blockNumber chain = stc_blockNumber call
        \<and> pch_blockHash chain = stc_blockHash call
        \<and> 2 \<le> card (failure_domains wv_trustDomain wv_providerGroup (set (chain_votes core chain))))"

lemma foldl_update_lookup:
  "map_of (foldl (\<lambda>m call. AList.update (f call) (g call) m) m calls) k = Some x \<Longrightarrow>
     (\<exists>call \<in> set calls. f call = k \<and> g call = x) \<or> map_of m k = Some x"
proof (induction calls arbitrary: m)
  case (Cons call calls)
  from Cons.IH [OF Cons.prems [simplified]] show ?case by (auto simp: update_conv' split: if_splits)
qed simp

lemma observed_call:
  assumes "map_of (observations core) path = Some x"
  obtains call where "call \<in> set (ec_stateCalls core)" "stc_observationPath call = path" "stc_result call = x"
  using foldl_update_lookup [OF assms [unfolded observations_def]] that by auto

lemma call_checks_pinned:
  "\<forall>c \<in> set (call_checks sha core seen calls). c = Some [] \<Longrightarrow> call \<in> set calls \<Longrightarrow> call_pinned core call"
  by (induction sha core seen calls rule: call_checks.induct) (auto simp: checked_passes)

lemma checks_backed:
  assumes ok: "\<forall>c \<in> set (evidence_checks sha date_parse ext core input native r). c = Some []"
    and observed: "map_of (observations core) path = Some (show_int n)"
  shows "backed core path n"
proof -
  obtain call where call: "call \<in> set (ec_stateCalls core)" "stc_observationPath call = path" "stc_result call = show_int n"
    using observed_call [OF observed] .
  have "\<forall>c \<in> set (call_checks sha core [] (ec_stateCalls core)). c = Some []"
    using ok by (simp add: evidence_checks_def)
  then have "call_pinned core call" using call(1) by (rule call_checks_pinned)
  then obtain chain where chain: "chain \<in> set (ec_chains core)" "pch_blockchainId chain = stc_blockchainId call"
    "pch_blockNumber chain = stc_blockNumber call" "pch_blockHash chain = stc_blockHash call"
    by (auto simp: call_pinned_def list_ex_iff)
  have "\<forall>c \<in> set (chain_checks core chain). c = Some []" using ok chain(1) by (auto simp: evidence_checks_def)
  then have "qm_requiredGroups (ec_quorum core) \<le> chain_count core chain"
    by (simp add: chain_checks_def checked_passes)
  moreover have "\<forall>c \<in> set (identity_checks core input). c = Some []" using ok by (simp add: evidence_checks_def)
  then have "2 \<le> qm_requiredGroups (ec_quorum core)" by (simp add: identity_checks_def checked_passes)
  ultimately have "2 \<le> card (failure_domains wv_trustDomain wv_providerGroup (set (chain_votes core chain)))"
    by (simp add: chain_count_def vote_components_failure_domains)
  with call chain show ?thesis unfolding backed_def by metis
qed

lemma observed_backed:
  assumes "\<forall>c \<in> set (evidence_checks sha date_parse ext core input native r). c = Some []"
    and "observed_as core path v"
  shows "\<exists>n. v = Some n \<and> backed core path n"
  using assms(2) checks_backed [OF assms(1)] by (cases v) (auto simp: observed_as_def)

lemma replay_check_passed:
  assumes "\<forall>c \<in> set (evidence_checks sha date_parse ext core input native r). c = Some []"
  shows "text_at (ec_verdict core) ''protocolStatus'' = verdict_text (vr_protocolStatus (rp_verdict r))"
proof -
  have "replay_check core r = Some []" using assms by (simp add: evidence_checks_def)
  then have "differs (verdict_record_js (rp_verdict r)) (of_json (JObj (ec_verdict core))) = Some False"
    by (auto simp: replay_check_def or_else_False split: if_splits)
  then show ?thesis by (rule recorded_verdict_text)
qed

lemma erc20_checks_passed:
  assumes "\<forall>c \<in> set (erc20_checks core input). c = Some []" and "i < length (pi_remotes input)"
  shows "observed_as core (remote_path i ''transferredBalance'') (ro_transferredBalance (pi_remotes input ! i))"
    and "observed_as core (remote_path i ''remoteTotalSupply'') (ro_remoteTotalSupply (pi_remotes input ! i))"
    and "observed_as core ''homeEscrow.escrowBalance'' (he_escrowBalance (pi_homeEscrow input))"
proof -
  have "(i, pi_remotes input ! i) \<in> set (enumerate 0 (pi_remotes input))"
    using assms(2) by (simp add: in_set_enumerate_eq)
  with assms(1) show "observed_as core (remote_path i ''transferredBalance'') (ro_transferredBalance (pi_remotes input ! i))"
    and "observed_as core (remote_path i ''remoteTotalSupply'') (ro_remoteTotalSupply (pi_remotes input ! i))"
    unfolding erc20_checks_def by (fastforce simp: checked_passes)+
  show "observed_as core ''homeEscrow.escrowBalance'' (he_escrowBalance (pi_homeEscrow input))"
    using assms(1) by (simp add: erc20_checks_def checked_passes)
qed

lemma gateA_pass_reconciles:
  assumes "ga_outcome (evaluateGateA input) = GatePass" and "r \<in> set (pi_remotes input)"
  shows "delta_of r = pending_total r input"
  using assms evaluateGateA_cases [of input]
  by (auto simp: answer_def stopped_def split: if_splits)

lemma replay_findings_parts:
  assumes "replay_findings sha date_parse ext core = []"
    and "decodeReplayInput (Some (ec_replayInput core)) = Inr (input, native)"
  obtains r where "replayEvaluation sha (Some (ec_replayInput core)) = Inr r"
    and "\<forall>c \<in> set (evidence_checks sha date_parse ext core input native r). c = Some []"
    and "(case native of None \<Rightarrow> replayProof sha input | Some n \<Rightarrow> replayNative input n) = Inr r"
proof -
  obtain r where r: "replayEvaluation sha (Some (ec_replayInput core)) = Inr r"
    "\<forall>c \<in> set (evidence_checks sha date_parse ext core input native r). c = Some []"
    using assms by (auto simp: replay_findings_Nil)
  then have "(case native of None \<Rightarrow> replayProof sha input | Some n \<Rightarrow> replayNative input n) = Inr r"
    using assms(2) by (auto simp: replayEvaluation_def lift_canon_def split: sum.splits)
  with r that show ?thesis by blast
qed

text \<open>
  C7. What a clean OK of the canonical engine rests on. Gate A and Gate B pass on the recorded input; for
  every remote, transferred balance minus supply is exactly what is in flight, and both are results of
  recorded state calls, as is the escrow; every such call is pinned at a block on which at least two
  failure domains of witnesses agree.
\<close>

theorem replayed_OK_is_backed:
  assumes "replay_findings sha date_parse ext core = []"
    and "text_at (ec_verdict core) ''protocolStatus'' = ''OK''"
    and "decodeReplayInput (Some (ec_replayInput core)) = Inr (input, None)"
  shows "ga_outcome (evaluateGateA input) = GatePass \<and> gb_outcome (evaluateGateB input True) = GatePass
    \<and> (\<forall>i < length (pi_remotes input). \<exists>d s.
         ro_transferredBalance (pi_remotes input ! i) = Some d
         \<and> ro_remoteTotalSupply (pi_remotes input ! i) = Some s
         \<and> d - s = pending_total (pi_remotes input ! i) input
         \<and> backed core (remote_path i ''transferredBalance'') d
         \<and> backed core (remote_path i ''remoteTotalSupply'') s)
    \<and> (\<exists>e. he_escrowBalance (pi_homeEscrow input) = Some e \<and> backed core ''homeEscrow.escrowBalance'' e)"
proof -
  obtain r where checks: "\<forall>c \<in> set (evidence_checks sha date_parse ext core input None r). c = Some []"
    and replay: "replayProof sha input = Inr r"
    using replay_findings_parts [OF assms(1,3)] by auto
  have "verdict_text (vr_protocolStatus (rp_verdict r)) = verdict_text OK"
    using replay_check_passed [OF checks] assms(2) by simp
  then have OK: "vr_protocolStatus (rp_verdict r) = OK" by (simp only: status_text_inject)
  then have pass: "ga_outcome (evaluateGateA input) = GatePass" "gb_outcome (evaluateGateB input True) = GatePass"
    unfolding replayProof_status [OF replay] by (auto split: if_splits gate_outcome.splits)
  have erc20: "\<forall>c \<in> set (erc20_checks core input). c = Some []" using checks by (simp add: evidence_checks_def)
  have "\<exists>d s. ro_transferredBalance (pi_remotes input ! i) = Some d
         \<and> ro_remoteTotalSupply (pi_remotes input ! i) = Some s
         \<and> d - s = pending_total (pi_remotes input ! i) input
         \<and> backed core (remote_path i ''transferredBalance'') d
         \<and> backed core (remote_path i ''remoteTotalSupply'') s"
    if i: "i < length (pi_remotes input)" for i
  proof -
    obtain d where d: "ro_transferredBalance (pi_remotes input ! i) = Some d"
      "backed core (remote_path i ''transferredBalance'') d"
      using observed_backed [OF checks erc20_checks_passed(1) [OF erc20 i]] by blast
    obtain s where s: "ro_remoteTotalSupply (pi_remotes input ! i) = Some s"
      "backed core (remote_path i ''remoteTotalSupply'') s"
      using observed_backed [OF checks erc20_checks_passed(2) [OF erc20 i]] by blast
    have "delta_of (pi_remotes input ! i) = pending_total (pi_remotes input ! i) input"
      using pass(1) i by (simp add: gateA_pass_reconciles)
    with d s show ?thesis by (simp add: delta_of_def or_zero_def)
  qed
  moreover have "pi_remotes input \<noteq> []"
    using gateA_judges_complete [of input] pass(1) by (simp add: complete_input_def)
  then have "observed_as core ''homeEscrow.escrowBalance'' (he_escrowBalance (pi_homeEscrow input))"
    using erc20_checks_passed(3) [OF erc20, of 0] by simp
  from observed_backed [OF checks this]
  have "\<exists>e. he_escrowBalance (pi_homeEscrow input) = Some e \<and> backed core ''homeEscrow.escrowBalance'' e" .
  ultimately show ?thesis using pass by blast
qed

text \<open>
  What a clean OK of the native engine rests on: the reported upper bound is established, nobody else
  can mint, the bound lies between zero and the eligible coverage, and every amount of it is the
  result of a recorded state call at a witnessed block.
\<close>

theorem replayed_native_OK_is_backed:
  assumes "replay_findings sha date_parse ext core = []"
    and "text_at (ec_verdict core) ''protocolStatus'' = ''OK''"
    and "decodeReplayInput (Some (ec_replayInput core)) = Inr (input, Some n)"
  shows "whole_context input \<and> bound_established n \<and> exclusive_minter (ni_census n) \<and> 0 \<le> upper_bound_of n
    \<and> (\<exists>coverage. ni_eligibleHomeCoverage n = Some coverage \<and> upper_bound_of n \<le> coverage)
    \<and> (\<forall>(path, v) \<in> set (native_values n). \<exists>x. v = Some x \<and> backed core path x)"
proof -
  obtain r where checks: "\<forall>c \<in> set (evidence_checks sha date_parse ext core input (Some n) r). c = Some []"
    and replay: "replayNative input n = Inr r"
    using replay_findings_parts [OF assms(1,3)] by auto
  have "verdict_text (vr_protocolStatus (rp_verdict r)) = verdict_text OK"
    using replay_check_passed [OF checks] assms(2) by simp
  then have OK: "vr_protocolStatus (rp_verdict r) = OK" by (simp only: status_text_inject)
  have "\<forall>c \<in> set (native_checks core n). c = Some []" using checks by (simp add: evidence_checks_def)
  then have "\<forall>(path, v) \<in> set (native_values n). observed_as core path v"
    unfolding native_checks_def set_append ball_Un by (auto simp: checked_passes)
  then have "\<forall>(path, v) \<in> set (native_values n). \<exists>x. v = Some x \<and> backed core path x"
    using observed_backed [OF checks] by fast
  with OK show ?thesis unfolding replayNative_status [OF replay] by (auto split: if_splits)
qed

section \<open>What clean findings bind\<close>

lemma distinct_by_uniq: "length (uniq xs) = length xs \<longleftrightarrow> distinct xs"
  by (metis card_distinct distinct_card length_uniq)

lemma call_checks_passed:
  "\<forall>c \<in> set (call_checks sha core seen calls). c = Some [] \<Longrightarrow>
     distinct (map stc_observationPath calls) \<and> (\<forall>call \<in> set calls. stc_observationPath call \<notin> set seen
       \<and> (recognised core (stc_blockchainId call) (stc_target call) \<or> escrow_bound core call)
       \<and> call_pinned core call \<and> call_digests_ok sha call)"
  by (induction sha core seen calls rule: call_checks.induct) (auto simp: checked_passes)

lemma chain_checks_passed:
  assumes "\<forall>c \<in> set (evidence_checks sha date_parse ext core input native r). c = Some []"
    and "chain \<in> set (ec_chains core)"
  shows "2 \<le> qm_requiredGroups (ec_quorum core)
    \<and> qm_requiredGroups (ec_quorum core)
        \<le> int (card (failure_domains wv_trustDomain wv_providerGroup (set (chain_votes core chain))))"
proof -
  have "\<forall>c \<in> set (chain_checks core chain). c = Some []" using assms by (auto simp: evidence_checks_def)
  then have "qm_requiredGroups (ec_quorum core) \<le> chain_count core chain"
    by (simp add: chain_checks_def checked_passes)
  moreover have "\<forall>c \<in> set (identity_checks core input). c = Some []" using assms(1) by (simp add: evidence_checks_def)
  then have "2 \<le> qm_requiredGroups (ec_quorum core)" by (simp add: identity_checks_def checked_passes)
  ultimately show ?thesis by (simp add: chain_count_def vote_components_failure_domains)
qed

lemma fact_checks_passed:
  assumes "\<forall>c \<in> set (fact_checks sha core). c = Some []"
  shows "distinct (map rfr_digest (ec_rawFacts core))"
    and "f \<in> set (ec_rawFacts core) \<Longrightarrow> fact_digest_ok sha f = Some True \<and> fact_block_known core f"
  using assms distinct_by_uniq [of "map rfr_digest (ec_rawFacts core)"]
  by (auto simp: fact_checks_def checked_passes)

lemma history_checks_passed:
  assumes "\<forall>c \<in> set (history_checks core). c = Some []" and "b \<in> set (history_of core)"
  shows "historical_pin core b = Some True \<and> historical_votes core b"
  using assms by (auto simp: history_checks_def checked_passes)

text \<open>
  C21. What a bundle without findings binds. Its verdict is the one recomputed from its recorded input. Every
  step of a message timeline cites a recorded raw fact; the digests of the raw facts are pairwise different, each
  is the hash of its own chain, block, transaction and log index, and its block is pinned on its chain or recorded
  as a historical block of it. Every state call is read once, its digests are the hashes of its calldata and of its
  target, calldata and result, and it is pinned at a recorded block of its chain. And behind every pinned block stand
  agreeing votes of at least the required number of failure domains, which is at least two. Hashes are spelled out
  here with their domains and the separator byte.
\<close>

theorem clean_findings_bind_evidence:
  assumes "replay_findings sha date_parse ext core = []" and "dangling_references core = []"
  shows "(\<exists>input native r. decodeReplayInput (Some (ec_replayInput core)) = Inr (input, native)
        \<and> (case native of None \<Rightarrow> replayProof sha input | Some n \<Rightarrow> replayNative input n) = Inr r
        \<and> text_at (ec_verdict core) ''protocolStatus'' = verdict_text (vr_protocolStatus (rp_verdict r)))
    \<and> (\<forall>m \<in> set (ec_messages core). \<forall>t \<in> set (mrd_timeline m).
         \<exists>f \<in> set (ec_rawFacts core). rfr_digest f = tl_factDigest t)
    \<and> distinct (map rfr_digest (ec_rawFacts core))
    \<and> (\<forall>f \<in> set (ec_rawFacts core).
         (\<exists>n. js_BigInt (rfr_evmChainId f) = Some n
            \<and> rfr_digest f = sha (''ictt-sentinel/fact/v1'' @ [CHR 0x00]
                @ show_int n @ ''|'' @ rfr_blockHash f @ ''|'' @ rfr_txHash f @ ''|'' @ show_int (rfr_logIndex f)))
         \<and> (\<exists>c \<in> set (ec_chains core). pch_evmChainId c = rfr_evmChainId f
            \<and> (pch_blockHash c = rfr_blockHash f
               \<or> (\<exists>b \<in> set (case ec_historicalBlocks core of None \<Rightarrow> [] | Some bs \<Rightarrow> bs).
                    hb_blockchainId b = pch_blockchainId c \<and> hb_blockHash b = rfr_blockHash f))))
    \<and> distinct (map stc_observationPath (ec_stateCalls core))
    \<and> (\<forall>call \<in> set (ec_stateCalls core).
         stc_calldataDigest call = sha (''ictt-sentinel/calldata/v1'' @ [CHR 0x00] @ stc_calldata call)
         \<and> stc_resultDigest call = sha (''ictt-sentinel/state-call/v1'' @ [CHR 0x00]
             @ stc_target call @ ''|'' @ stc_calldata call @ ''|'' @ stc_result call)
         \<and> stc_provenance call \<noteq> []
         \<and> (\<exists>c \<in> set (ec_chains core). pch_blockchainId c = stc_blockchainId call
              \<and> pch_blockNumber c = stc_blockNumber call \<and> pch_blockHash c = stc_blockHash call))
    \<and> (\<forall>c \<in> set (ec_chains core). 2 \<le> qm_requiredGroups (ec_quorum core)
         \<and> qm_requiredGroups (ec_quorum core) \<le> int (card (failure_domains wv_trustDomain wv_providerGroup
             {v \<in> set (qm_votes (ec_quorum core)). wv_blockchainId v = pch_blockchainId c \<and> wv_agreed v
                \<and> wv_agreedBlockHash v = pch_blockHash c})))"
proof -
  obtain input native where dec: "decodeReplayInput (Some (ec_replayInput core)) = Inr (input, native)"
    using assms(1) by (auto simp: replay_findings_def split: sum.splits)
  obtain r where checks: "\<forall>c \<in> set (evidence_checks sha date_parse ext core input native r). c = Some []"
    and replay: "(case native of None \<Rightarrow> replayProof sha input | Some n \<Rightarrow> replayNative input n) = Inr r"
    using replay_findings_parts [OF assms(1) dec] by blast
  have status: "text_at (ec_verdict core) ''protocolStatus'' = verdict_text (vr_protocolStatus (rp_verdict r))"
    by (rule replay_check_passed [OF checks])
  have facts: "\<forall>c \<in> set (fact_checks sha core). c = Some []" using checks by (simp add: evidence_checks_def)
  have calls: "\<forall>c \<in> set (call_checks sha core [] (ec_stateCalls core)). c = Some []"
    using checks by (simp add: evidence_checks_def)
  note call = call_checks_passed [OF calls]
  have cited: "\<forall>m \<in> set (ec_messages core). \<forall>t \<in> set (mrd_timeline m).
      \<exists>f \<in> set (ec_rawFacts core). rfr_digest f = tl_factDigest t"
    using assms(2) unfolding dangling_references_Nil set_map image_iff by metis
  have fact1: "\<exists>n. js_BigInt (rfr_evmChainId f) = Some n
      \<and> rfr_digest f = sha (''ictt-sentinel/fact/v1'' @ [CHR 0x00]
          @ show_int n @ ''|'' @ rfr_blockHash f @ ''|'' @ rfr_txHash f @ ''|'' @ show_int (rfr_logIndex f))"
    if "f \<in> set (ec_rawFacts core)" for f
    using fact_checks_passed(2) [OF facts that]
    by (auto simp: fact_digest_ok_def factDigest_def domainSeparatedSha256_def)
  have fact2: "\<exists>c \<in> set (ec_chains core). pch_evmChainId c = rfr_evmChainId f
      \<and> (pch_blockHash c = rfr_blockHash f
         \<or> (\<exists>b \<in> set (case ec_historicalBlocks core of None \<Rightarrow> [] | Some bs \<Rightarrow> bs).
              hb_blockchainId b = pch_blockchainId c \<and> hb_blockHash b = rfr_blockHash f))"
    if "f \<in> set (ec_rawFacts core)" for f
    using fact_checks_passed(2) [OF facts that]
    by (simp add: fact_block_known_def history_of_def list_ex_iff)
  have call1: "stc_calldataDigest q = sha (''ictt-sentinel/calldata/v1'' @ [CHR 0x00] @ stc_calldata q)
      \<and> stc_resultDigest q = sha (''ictt-sentinel/state-call/v1'' @ [CHR 0x00]
          @ stc_target q @ ''|'' @ stc_calldata q @ ''|'' @ stc_result q)
      \<and> stc_provenance q \<noteq> []
      \<and> (\<exists>c \<in> set (ec_chains core). pch_blockchainId c = stc_blockchainId q
           \<and> pch_blockNumber c = stc_blockNumber q \<and> pch_blockHash c = stc_blockHash q)"
    if "q \<in> set (ec_stateCalls core)" for q
    using conjunct2 [OF call] that
    by (auto simp: call_digests_ok_def call_pinned_def stateCallDigest_def domainSeparatedSha256_def list_ex_iff)
  have votes: "2 \<le> qm_requiredGroups (ec_quorum core)
      \<and> qm_requiredGroups (ec_quorum core) \<le> int (card (failure_domains wv_trustDomain wv_providerGroup
          {v \<in> set (qm_votes (ec_quorum core)). wv_blockchainId v = pch_blockchainId c \<and> wv_agreed v
             \<and> wv_agreedBlockHash v = pch_blockHash c}))"
    if "c \<in> set (ec_chains core)" for c
    using chain_checks_passed [OF checks that] by (simp add: chain_votes_def)
  show ?thesis
    apply (intro conjI)
    subgoal by (intro exI conjI) (rule dec, rule replay, rule status)
    subgoal by (rule cited)
    subgoal by (rule fact_checks_passed(1) [OF facts])
    subgoal by (intro ballI conjI fact1 fact2)
    subgoal by (rule conjunct1 [OF call])
    subgoal by (rule ballI, rule call1)
    subgoal by (rule ballI, rule votes)
    done
qed

section \<open>A bundle that passes\<close>

lemma has_text_records:
  "has_text (verdict_record_js v)"
  "distinct (map fst (ru_inputs r)) \<Longrightarrow> distinct (map fst (ru_intermediates r)) \<Longrightarrow> has_text (rule_record_js r)"
proof -
  have opt: "has_text (js_opt JsStr x)" for x by (rule has_text_opt) (simp add: has_text_leaf)
  have obj: "has_text (js_strings_object kvs)" if "distinct (map fst kvs)" for kvs
    unfolding js_strings_object_def
    by (rule has_text_object) (use that in \<open>auto simp: has_text_leaf\<close>)
  show "has_text (verdict_record_js v)"
    unfolding verdict_record_js_def by (intro has_text_object) (simp_all add: has_text_leaf has_text_texts)
  show "has_text (rule_record_js r)"
    if "distinct (map fst (ru_inputs r))" "distinct (map fst (ru_intermediates r))"
    unfolding rule_record_js_def
    by (intro has_text_object) (simp_all add: has_text_leaf has_text_texts opt obj [OF that(1)] obj [OF that(2)])
qed

lemma differs_tree:
  assumes "has_text v"
  shows "differs v (of_json (tree_of v)) = Some False"
    and "differs (JsArr [v]) (JsArr [of_json (tree_of v)]) = Some False"
    and "differs (of_json (tree_of v)) (of_json (tree_of v)) = Some False"
proof -
  have c: "canon v = Some (tree_of v)" using assms by (auto simp: has_text_def tree_of_def)
  with canon_fixpoint(1) [OF c] show "differs v (of_json (tree_of v)) = Some False"
    and "differs (JsArr [v]) (JsArr [of_json (tree_of v)]) = Some False"
    and "differs (of_json (tree_of v)) (of_json (tree_of v)) = Some False"
    by (simp_all add: differs_False)
qed

definition ex_hash :: "char \<Rightarrow> string" where
  "ex_hash c = ''0x'' @ replicate 64 c"

definition ex_address :: "char \<Rightarrow> string" where
  "ex_address c = ''0x'' @ replicate 40 c"

definition ex_sha :: "string \<Rightarrow> string" where
  "ex_sha s = replicate 64 (CHR ''0'')"

definition ex_date :: "string \<Rightarrow> int option" where
  "ex_date s = Some (int (length s))"

definition ex_pin :: "string \<Rightarrow> char \<Rightarrow> pinned_block" where
  "ex_pin chain c = \<lparr>pb_blockchainId = chain, pb_blockNumber = 7, pb_blockHash = ex_hash c\<rparr>"

definition ex_input :: proof_input where
  "ex_input = (example_proof 25 25 [])
     \<lparr>pi_remotes := [(example_remote 25 25)
        \<lparr>ro_remoteBlockchainId := ''remote'', ro_remoteAddress := ex_address (CHR ''b''),
         ro_homePin := Some (ex_pin ''home'' (CHR ''a'')), ro_remotePin := Some (ex_pin ''remote'' (CHR ''b''))\<rparr>],
      pi_homeEscrow := \<lparr>he_escrowBalance = Some 30, he_homePin = Some (ex_pin ''home'' (CHR ''a'')),
        he_acceptedCollateralHomeUnits = 0\<rparr>\<rparr>"

definition ex_chain :: "string \<Rightarrow> char \<Rightarrow> pinned_chain" where
  "ex_chain chain c =
     \<lparr>pch_blockchainId = chain, pch_evmChainId = ''1'', pch_blockNumber = ''7'', pch_blockHash = ex_hash c,
      pch_blockTimestamp = ''100'', pch_acceptanceEvidence = ''tag'', pch_finalityBasis = ''settled-quorum''\<rparr>"

definition ex_vote :: "string \<Rightarrow> char \<Rightarrow> char \<Rightarrow> witness_vote" where
  "ex_vote chain c w =
     \<lparr>wv_endpointId = ''ep-'' @ [w], wv_trustDomain = [w], wv_providerGroup = [w], wv_blockchainId = chain,
      wv_agreedBlockHash = ex_hash c, wv_agreed = True\<rparr>"

definition ex_fingerprint :: "string \<Rightarrow> char \<Rightarrow> contract_fingerprint" where
  "ex_fingerprint chain c =
     \<lparr>cf_role = ''token'', cf_blockchainId = chain, cf_runtimeCodeHash = ex_hash c, cf_address = ex_address c,
      cf_implementationAddress = None, cf_implementationCodeHash = None, cf_proxyAdmin = None,
      cf_beacon = None, cf_recognised = True\<rparr>"

definition ex_call :: "string \<Rightarrow> char \<Rightarrow> string \<Rightarrow> string \<Rightarrow> state_call" where
  "ex_call chain c path x =
     \<lparr>stc_blockchainId = chain, stc_target = ex_address c, stc_calldataDigest = ex_sha [],
      stc_resultDigest = ex_sha [], stc_observationPath = path, stc_result = x, stc_calldata = ''0x'',
      stc_provenance = ''eth_call'', stc_blockNumber = ''7'', stc_blockHash = ex_hash c\<rparr>"

definition ex_message :: message_record where
  "ex_message =
     \<lparr>mrd_sourceBlockchainId = ''home'', mrd_destinationBlockchainId = ''remote'',
      mrd_teleporterMessengerAddress = ex_address (CHR ''c''), mrd_registryProtocolVersion = 1,
      mrd_messageId = ''m'', mrd_state = ''CLOSED'',
      mrd_timeline = [\<lparr>tl_kind = ''SEND'', tl_factDigest = ex_sha []\<rparr>], mrd_sendAttempts = 1,
      mrd_executionAttempts = 1, mrd_envelopeIds = [''e''], mrd_economicEffectCount = 1\<rparr>"

text \<open>Everything but the escrow call; \<open>r\<close> is what the replay of the example input returns.\<close>

definition ex_core :: "replayed \<Rightarrow> state_call list \<Rightarrow> evidence_core" where
  "ex_core r escrow =
     \<lparr>ec_producer = \<lparr>pr_producer = ''ictt-sentinel'', pr_schemaVersion = EVIDENCE_SCHEMA_VERSION,
        pr_buildCommit = ''c'', pr_artifactChecksum = ex_sha []\<rparr>,
      ec_sourceLock = \<lparr>slr_commitSha = ''c'', slr_sourceLockHash = ex_sha [], slr_adapterId = ''a'',
        slr_adapterVersion = 1, slr_adapterEpoch = ''1''\<rparr>,
      ec_baseline = \<lparr>abr_manifestHash = ''m'', abr_policyHash = ''p''\<rparr>, ec_deploymentId = ''d'',
      ec_fingerprints = [ex_fingerprint ''home'' (CHR ''a''), ex_fingerprint ''remote'' (CHR ''b'')],
      ec_chains = [ex_chain ''home'' (CHR ''a''), ex_chain ''remote'' (CHR ''b'')],
      ec_quorum = \<lparr>qm_votes = [ex_vote ''home'' (CHR ''a'') (CHR ''1''), ex_vote ''home'' (CHR ''a'') (CHR ''2''),
          ex_vote ''remote'' (CHR ''b'') (CHR ''1''), ex_vote ''remote'' (CHR ''b'') (CHR ''2'')],
        qm_independentGroups = 2, qm_requiredGroups = 2, qm_note = ''n''\<rparr>,
      ec_rawFacts = [\<lparr>rfr_evmChainId = ''1'', rfr_blockHash = ex_hash (CHR ''a''), rfr_txHash = ex_hash (CHR ''c''),
        rfr_logIndex = 0, rfr_digest = ex_sha []\<rparr>],
      ec_historicalBlocks = None,
      ec_stateCalls = [ex_call ''home'' (CHR ''a'') ''remotes.0.transferredBalance'' ''25'',
          ex_call ''remote'' (CHR ''b'') ''remotes.0.remoteTotalSupply'' ''25''] @ escrow,
      ec_census = \<lparr>cr_completeness = ''complete-from-deployment-block'',
        cr_registeredRemotes = [''remote/'' @ ex_address (CHR ''b'')], cr_missingRemotes = [], cr_remotesWithoutRpc = []\<rparr>,
      ec_messages = [ex_message], ec_rules = [tree_of (rule_record_js (rp_rule r))],
      ec_verdict = (case tree_of (verdict_record_js (rp_verdict r)) of JObj ms \<Rightarrow> ms | _ \<Rightarrow> []),
      ec_completeness = \<lparr>cpr_observedAt = ''1'', cpr_expiresAt = ''22'', cpr_fresh = True,
        cpr_missingEvidence = [], cpr_contradictoryEvidence = []\<rparr>,
      ec_assurance = \<lparr>asr_assuranceMode = ''accepted-state'', asr_assumptions = [], asr_exclusions = [], asr_nonGoals = []\<rparr>,
      ec_previousBundleHash = None, ec_replayInput = tree_of (proof_input_js ex_input),
      ec_replayEvaluation = rp_evaluation r\<rparr>"

definition escrow_call :: state_call where
  "escrow_call = ex_call ''home'' (CHR ''a'') ''homeEscrow.escrowBalance'' ''30''"

lemma ex_input_wf: "wf_input ex_input"
  by (simp add: ex_input_def ex_pin_def example_proof_def example_remote_def wf_input_def wf_provenance_def
      wf_freshness_def wf_remote_def wf_scale_def wf_pin_def wf_escrow_def uint256_def safe_count_def)

lemma ex_replay_check:
  assumes "replayProof ex_sha ex_input = Inr r"
  shows "replay_check (ex_core r escrow) r = Some []"
proof -
  have ev: "canon (evaluation_js (evaluateCanonicalErc20 ex_input
      (domainSeparatedSha256 ex_sha ''ictt-sentinel/proof-input/v1''))) = Some (rp_evaluation r)"
    by (rule replayProof_Inr(4) [OF assms])
  then have "canon (of_json (rp_evaluation r)) = Some (rp_evaluation r)" by (rule canon_fixpoint)
  then have 1: "differs (of_json (rp_evaluation r)) (of_json (rp_evaluation r)) = Some False"
    by (simp add: differs_False)
  have "has_text (rule_record_js (rp_rule r))"
    by (rule has_text_records(2)) (use assms in \<open>auto simp: replayProof_def Let_def and_then_Inr\<close>)
  note 2 = differs_tree(2) [OF this]
  note 3 = differs_tree(1) [OF has_text_records(1) [of "rp_verdict r"]]
  have "canon (verdict_record_js (rp_verdict r)) = Some (tree_of (verdict_record_js (rp_verdict r)))"
    using has_text_records(1) by (auto simp: has_text_def tree_of_def)
  then obtain ms where "tree_of (verdict_record_js (rp_verdict r)) = JObj ms"
    unfolding verdict_record_js_def by (rule canon_object_keys)
  with 1 2 3 show ?thesis by (simp add: replay_check_def ex_core_def or_else_def)
qed

lemma ex_texts:
  "hex64 (ex_sha s)" "hex_string 64 (ex_hash (CHR ''a''))" "hex_string 64 (ex_hash (CHR ''b''))"
  "hex_string 40 (ex_address (CHR ''a''))" "hex_string 40 (ex_address (CHR ''b''))" "canonical_decimal ''7''"
  "endpoint_id_text ''ep-1''" "endpoint_id_text ''ep-2''" "show_int 7 = ''7''" "show_int 25 = ''25''"
  "show_int 30 = ''30''" "js_BigInt ''1'' = Some 1" "js_BigInt ''100'' = Some 100"
  "ex_hash (CHR ''a'') \<noteq> ex_hash (CHR ''b'')"
  by (simp_all add: ex_sha_def) code_simp+

lemma ex_votes:
  "chain_votes (ex_core r e) (ex_chain ''home'' (CHR ''a'')) = [ex_vote ''home'' (CHR ''a'') (CHR ''1''), ex_vote ''home'' (CHR ''a'') (CHR ''2'')]"
  "chain_votes (ex_core r e) (ex_chain ''remote'' (CHR ''b'')) = [ex_vote ''remote'' (CHR ''b'') (CHR ''1''), ex_vote ''remote'' (CHR ''b'') (CHR ''2'')]"
  by (simp_all add: chain_votes_def ex_core_def ex_chain_def ex_vote_def)

lemma ex_counts:
  "chain_count (ex_core r e) (ex_chain ''home'' (CHR ''a'')) = 2"
  "chain_count (ex_core r e) (ex_chain ''remote'' (CHR ''b'')) = 2"
  by (simp_all add: chain_count_def ex_votes vote_components_def vote_step_def ex_vote_def)

lemma ex_core_simps:
  "ec_producer (ex_core r e) = \<lparr>pr_producer = ''ictt-sentinel'', pr_schemaVersion = EVIDENCE_SCHEMA_VERSION,
        pr_buildCommit = ''c'', pr_artifactChecksum = ex_sha []\<rparr>"
  "ec_fingerprints (ex_core r e) = [ex_fingerprint ''home'' (CHR ''a''), ex_fingerprint ''remote'' (CHR ''b'')]"
  "ec_chains (ex_core r e) = [ex_chain ''home'' (CHR ''a''), ex_chain ''remote'' (CHR ''b'')]"
  "ec_historicalBlocks (ex_core r e) = None"
  "ec_messages (ex_core r e) = [ex_message]"
  "ec_stateCalls (ex_core r e) = [ex_call ''home'' (CHR ''a'') ''remotes.0.transferredBalance'' ''25'',
          ex_call ''remote'' (CHR ''b'') ''remotes.0.remoteTotalSupply'' ''25''] @ e"
  "ec_census (ex_core r e) = \<lparr>cr_completeness = ''complete-from-deployment-block'',
        cr_registeredRemotes = [''remote/'' @ ex_address (CHR ''b'')], cr_missingRemotes = [], cr_remotesWithoutRpc = []\<rparr>"
  "ec_completeness (ex_core r e) = \<lparr>cpr_observedAt = ''1'', cpr_expiresAt = ''22'', cpr_fresh = True,
        cpr_missingEvidence = [], cpr_contradictoryEvidence = []\<rparr>"
  "qm_requiredGroups (ec_quorum (ex_core r e)) = 2" "qm_independentGroups (ec_quorum (ex_core r e)) = 2"
  by (simp_all add: ex_core_def)

lemma ex_evidence_checks:
  assumes "replayProof ex_sha ex_input = Inr r"
  shows "\<forall>c \<in> set (evidence_checks ex_sha ex_date None (ex_core r [escrow_call]) ex_input None r). c = Some []"
proof -
  let ?core = "ex_core r [escrow_call]"
  have "\<forall>c \<in> set (identity_checks ?core ex_input). c = Some []"
    by (simp add: identity_checks_def checked_passes ex_texts)
      (simp add: ex_core_def ex_texts ex_input_def example_proof_def)
  moreover have "\<forall>c \<in> set (fingerprint_checks ?core ex_input). c = Some []"
    by (simp add: fingerprint_checks_def checked_passes ex_core_simps)
      (simp add: ex_fingerprint_def ex_chain_def ex_texts ex_input_def example_remote_def)
  moreover have "\<forall>c \<in> set (concat (map (chain_checks ?core) (ec_chains ?core))). c = Some []"
    by (simp add: ex_core_simps chain_checks_def checked_passes ex_counts)
      (simp add: ex_chain_def chain_stands_def ex_texts finalityBasisStands_def)
  moreover have "\<forall>c \<in> set (witness_checks ?core ex_input). c = Some []"
    by (simp add: witness_checks_def checked_passes min_count_def ex_core_simps ex_counts)
      (simp add: ex_core_def ex_vote_def ex_chain_def ex_texts replay_pins_def ex_input_def ex_pin_def pinned_in_def
        example_proof_def)
  moreover have "\<forall>c \<in> set (history_checks ?core). c = Some []"
    by (simp add: history_checks_def history_of_def ex_core_simps checked_passes)
  moreover have "\<forall>c \<in> set (fact_checks ex_sha ?core). c = Some []"
    by (simp add: fact_checks_def checked_passes fact_digest_ok_def fact_block_known_def)
      (simp add: ex_core_def ex_texts factDigest_def domainSeparatedSha256_def ex_sha_def ex_chain_def)
  moreover have "\<forall>c \<in> set (call_checks ex_sha ?core [] (ec_stateCalls ?core)). c = Some []"
  proof -
    have "recognised ?core ''home'' (ex_address (CHR ''a''))" "recognised ?core ''remote'' (ex_address (CHR ''b''))"
      by (simp_all add: recognised_def ex_core_simps ex_fingerprint_def)
    then show ?thesis
      by (simp add: ex_core_simps checked_passes escrow_call_def)
        (simp add: call_pinned_def call_digests_ok_def ex_call_def ex_core_simps ex_chain_def ex_sha_def
          domainSeparatedSha256_def stateCallDigest_def)
  qed
  moreover have "\<forall>c \<in> set (erc20_checks ?core ex_input). c = Some []"
    by (simp add: erc20_checks_def checked_passes observed_as_def observations_def ex_core_simps escrow_call_def
        ex_call_def ex_input_def example_remote_def remote_path_def ex_texts)
  moreover have "\<forall>c \<in> set (closing_checks ex_date ?core ex_input). c = Some []"
  proof -
    have "differs (js_texts [''remote/'' @ ex_address (CHR ''b'')]) (js_texts (map remote_name (pi_remotes ex_input))) = Some False"
      by (simp add: differs_False js_texts_def ex_input_def remote_name_def)
    then show ?thesis
      by (simp add: closing_checks_def checked_passes same_texts_def ex_core_simps ex_message_def ex_date_def
          ex_input_def example_proof_def)
  qed
  moreover have "replay_check ?core r = Some []" by (rule ex_replay_check [OF assms])
  ultimately show ?thesis by (simp add: evidence_checks_def external_check_def ball_Un)
qed

lemma ex_passes:
  assumes "replayProof ex_sha ex_input = Inr r"
  shows "replay_findings ex_sha ex_date None (ex_core r [escrow_call]) = []"
    and "text_at (ec_verdict (ex_core r [escrow_call])) ''protocolStatus'' = ''OK''"
    and "decodeReplayInput (Some (ec_replayInput (ex_core r [escrow_call]))) = Inr (ex_input, None)"
proof -
  show d: "decodeReplayInput (Some (ec_replayInput (ex_core r [escrow_call]))) = Inr (ex_input, None)"
    using decodeReplayInput_tree [OF ex_input_wf] by (simp add: ex_core_def)
  then have "replayEvaluation ex_sha (Some (ec_replayInput (ex_core r [escrow_call]))) = Inr r"
    using assms by (simp add: replayEvaluation_def lift_canon_def)
  then show "replay_findings ex_sha ex_date None (ex_core r [escrow_call]) = []"
    using d ex_evidence_checks [OF assms] by (auto simp: replay_findings_Nil)
  have "\<not> ga_critical (evaluateGateA ex_input)" "ga_outcome (evaluateGateA ex_input) = GatePass"
    "gb_outcome (evaluateGateB ex_input True) = GatePass"
    by code_simp+
  then have "vr_protocolStatus (rp_verdict r) = OK" unfolding replayProof_status [OF assms] by simp
  then show "text_at (ec_verdict (ex_core r [escrow_call])) ''protocolStatus'' = ''OK''"
    using replay_check_passed [OF ex_evidence_checks [OF assms]] by simp
qed

lemma ex_replayed: "\<exists>r. replayProof ex_sha ex_input = Inr r"
  by (rule replayProof_returns [OF ex_input_wf]) (simp add: ex_input_def example_proof_def)

theorem replayed_OK_is_backed_witness:
  "\<exists>r. replayProof ex_sha ex_input = Inr r
     \<and> backed (ex_core r [escrow_call]) ''remotes.0.transferredBalance'' 25
     \<and> backed (ex_core r [escrow_call]) ''homeEscrow.escrowBalance'' 30"
proof -
  obtain r where r: "replayProof ex_sha ex_input = Inr r" using ex_replayed by blast
  have n: "remote_path 0 ''transferredBalance'' = ''remotes.0.transferredBalance''" by code_simp
  from replayed_OK_is_backed [OF ex_passes [OF r]] show ?thesis
    using r n by (fastforce simp: ex_input_def example_remote_def)
qed

theorem clean_findings_bind_evidence_witness:
  "\<exists>r. replayProof ex_sha ex_input = Inr r
     \<and> text_at (ec_verdict (ex_core r [escrow_call])) ''protocolStatus'' = ''OK''
     \<and> (\<forall>f \<in> set (ec_rawFacts (ex_core r [escrow_call])).
          rfr_digest f = ex_sha (''ictt-sentinel/fact/v1'' @ [CHR 0x00]
            @ ''1|'' @ rfr_blockHash f @ ''|'' @ rfr_txHash f @ ''|'' @ show_int (rfr_logIndex f)))
     \<and> length (ec_rawFacts (ex_core r [escrow_call])) = 1"
proof -
  obtain r where r: "replayProof ex_sha ex_input = Inr r" using ex_replayed by blast
  let ?core = "ex_core r [escrow_call]"
  have "dangling_references ?core = []"
    by (simp add: dangling_references_Nil ex_core_def ex_message_def)
  note bound = clean_findings_bind_evidence [OF ex_passes(1) [OF r] this]
  have "js_BigInt ''1'' = Some 1" "show_int 1 = ''1''" by code_simp+
  then have "\<forall>f \<in> set (ec_rawFacts ?core).
          rfr_digest f = ex_sha (''ictt-sentinel/fact/v1'' @ [CHR 0x00]
            @ ''1|'' @ rfr_blockHash f @ ''|'' @ rfr_txHash f @ ''|'' @ show_int (rfr_logIndex f))"
    using bound [THEN conjunct2, THEN conjunct2, THEN conjunct2, THEN conjunct1]
    by (simp add: ex_core_def)
  moreover have "length (ec_rawFacts ?core) = 1" by (simp add: ex_core_def)
  ultimately show ?thesis using r ex_passes(2) [OF r] by blast
qed

section \<open>What the verifier does not bind\<close>

text \<open>
  The escrow of a verified bundle need not be a balance of the home's token. The call to the home's
  token is accepted through its binding to a recognised home, but a call to any recognised contract is
  accepted as it is, whatever it calls: the example's escrow is the answer of the home contract to an
  empty calldata, and the bundle still passes.
\<close>

lemma escrow_unbound:
  "\<exists>r. replayProof ex_sha ex_input = Inr r
     \<and> replay_findings ex_sha ex_date None (ex_core r [escrow_call]) = []
     \<and> \<not> escrow_bound (ex_core r [escrow_call]) escrow_call \<and> stc_calldata escrow_call = ''0x''"
proof -
  obtain r where r: "replayProof ex_sha ex_input = Inr r" using ex_replayed by blast
  have "\<not> escrow_bound (ex_core r [escrow_call]) escrow_call"
    by (simp add: escrow_bound_def ex_core_simps ex_call_def escrow_call_def)
  with r ex_passes(1) [OF r] show ?thesis by (auto simp: escrow_call_def ex_call_def)
qed

section \<open>Assembled bundles\<close>

lemma canon_bundle_tree:
  assumes "canon (of_json (JObj (core_members (eb_core b)))) \<noteq> None"
  shows "canon (of_json (bundle_tree b)) \<noteq> None"
proof -
  have "has_text (of_json (JObj (core_members (eb_core b))))" using assms by (simp only: has_text_def of_json_defined not_False_eq_True)
  then have "has_text (of_json (bundle_tree b))"
    by (simp only: bundle_tree_def of_json.simps list.map fst_conv snd_conv)
      (intro has_text_object, simp_all add: has_text_leaf has_text_object)
  then show ?thesis by (simp add: has_text_def)
qed

text \<open>
  A bundle that \<open>buildBundle\<close> assembled from a core with safe counts passes the gates of shape,
  version, canonical form and hash; whether it verifies is a matter of its evidence and of the absence
  of credentials alone.
\<close>

theorem assembled_bundle_verifies_iff:
  assumes "buildBundle sha draft = Inr b" and "core_ok (bd_core draft)"
  shows "verified sha date_parse (bundle_tree b) \<longleftrightarrow>
     findSecrets (json_print (bundle_tree b)) = []
     \<and> dangling_references (eb_core b) = [] \<and> admitted_gaps (eb_core b) = []
     \<and> replay_findings sha date_parse None (eb_core b) = []
     \<and> (\<exists>j. canon (of_json (JObj (core_members (eb_core b)))) = Some j \<and> findSecrets (json_print j) = [])"
proof -
  have b: "eb_core b = (bd_core draft)\<lparr>ec_producer := (ec_producer (bd_core draft))
      \<lparr>pr_schemaVersion := EVIDENCE_SCHEMA_VERSION\<rparr>\<rparr>" "hash_core sha (eb_core b) = Inr (eb_contentHash b)"
    using assms(1) by (auto simp: buildBundle_def Let_def and_then_Inr)
  have "core_ok (eb_core b)" using assms(2) by (simp add: b(1) core_ok_def)
  from bundle_written_and_read [OF this] have read: "validBundleShape (bundle_tree b)"
    "read_bundle (bundle_tree b) = b" "core_json (bundle_tree b) = JObj (core_members (eb_core b))"
    by simp_all
  have "canon (of_json (JObj (core_members (eb_core b)))) \<noteq> None"
    using b(2) unfolding hash_core_def hashCore_def
    by (cases "canonicalStringify (of_json (JObj (core_members (eb_core b))))") (auto simp: canonicalStringify_iff)
  moreover from this have "canon (of_json (bundle_tree b)) \<noteq> None" by (rule canon_bundle_tree)
  moreover have "pr_schemaVersion (ec_producer (eb_core b)) = EVIDENCE_SCHEMA_VERSION" by (simp add: b(1))
  ultimately show ?thesis
    unfolding verified_characterisation read(2,3) using b(2) read(1) by (simp add: hash_core_def del: of_json.simps)
qed

text \<open>
  A chain of bundles is tamper-evident: with a hash that separates canonical texts, one content hash
  belongs to one predecessor.
\<close>

theorem chained_hash_fixes_predecessor:
  assumes "buildBundle sha (chainTo draft p) = Inr b" and "buildBundle sha (chainTo draft' q) = Inr c"
    and "eb_contentHash b = eb_contentHash c"
    and "\<And>s t. sha (DOMAIN_PREFIX @ s) = sha (DOMAIN_PREFIX @ t) \<Longrightarrow> s = t"
  shows "p = q"
proof -
  have prev: "ec_previousBundleHash (eb_core b) = Some p" "ec_previousBundleHash (eb_core c) = Some q"
    using assms(1,2) by (auto simp: buildBundle_def Let_def and_then_Inr chainTo_def)
  have "hashCore sha (of_json (JObj (core_members (eb_core b)))) = Inr (eb_contentHash b)"
    "hashCore sha (of_json (JObj (core_members (eb_core c)))) = Inr (eb_contentHash b)"
    using assms(1,2,3) by (auto simp: buildBundle_def Let_def and_then_Inr hash_core_def)
  from hashCore_separates [OF this assms(4)]
  have eq: "canon (of_json (JObj (core_members (eb_core b)))) = canon (of_json (JObj (core_members (eb_core c))))"
    "canon (of_json (JObj (core_members (eb_core b)))) \<noteq> None" by blast+
  have lookup: "map_of (map (\<lambda>kv. (fst kv, of_json (snd kv))) (core_members x)) ''previousBundleHash''
      = Some (of_json (jopt JStr (ec_previousBundleHash x)))" for x
    by (cases "ec_historicalBlocks x") (simp_all add: core_members_def)
  show ?thesis
    using canon_object_lookup [OF eq [unfolded of_json.simps], of "''previousBundleHash''"]
    unfolding lookup prev by (auto simp: jopt_def)
qed

text \<open>The example as a draft, and a predecessor of it.\<close>

definition ex_draft :: "replayed \<Rightarrow> bundle_draft" where
  "ex_draft r = \<lparr>bd_core = ex_core r [escrow_call],
     bd_presentation = \<lparr>epr_generatedAt = ''t'', epr_locale = ''en'', epr_toolVersion = ''1''\<rparr>\<rparr>"

lemma tree_members_keys: "fst ` set (tree_members kvs) = fst ` set kvs"
  by (force simp: tree_members_def sorted_members_def image_iff)

lemma tree_of_object:
  assumes "has_text (JsObj kvs)" and "\<forall>kv \<in> set kvs. has_text (snd kv)" and "distinct (map fst kvs)"
  shows "tree_of (JsObj kvs) = JObj (tree_members kvs)"
proof -
  have "canon (JsObj kvs) = Some (JObj (sorted_members (map (apsnd tree_of) kvs)))"
    by (rule canon_object [OF assms(3)]) (use assms(2) in \<open>auto simp: has_text_def tree_of_def\<close>)
  then show ?thesis by (simp add: tree_of_def tree_members_def)
qed

lemma matches_tree_object:
  assumes "\<forall>kv \<in> set kvs. has_text (snd kv)" and "distinct (map fst kvs)"
    and "fst ` set kvs \<subseteq> fst ` set shapes"
    and "\<forall>s \<in> set shapes. matches (map_option tree_of (map_of kvs (fst s))) (snd s)"
  shows "matches (Some (tree_of (JsObj kvs))) (ShapeObject shapes)"
proof -
  have "tree_of (JsObj kvs) = JObj (tree_members kvs)"
    using assms(1,2) by (intro tree_of_object has_text_object) simp_all
  moreover have "\<forall>m \<in> set (tree_members kvs). fst m \<in> fst ` set shapes"
    using assms(3) tree_members_keys [of kvs] by blast
  ultimately show ?thesis unfolding matches_object using assms(4) by (simp add: map_of_tree_members [OF assms(2)])
qed

lemma matches_leaf_trees:
  "matches (Some (tree_of (JsStr s))) ShapeString"
  "matches (Some (tree_of (js_texts xs))) shape_strings" "matches (Some (tree_of (js_reasons rs))) shape_strings"
  "matches (Some (tree_of (js_opt JsStr x))) (ShapeNullable ShapeString)"
proof -
  show t: "matches (Some (tree_of (js_texts xs))) shape_strings" for xs
    using chars.array_canonical [of xs]
    by (simp add: js_texts_def tree_of_def shape_strings_def list_all_iff)
  show "matches (Some (tree_of (js_reasons rs))) shape_strings" unfolding js_reasons_def by (rule t)
  show "matches (Some (tree_of (js_opt JsStr x))) (ShapeNullable ShapeString)"
    by (cases x) (simp_all add: js_opt_def tree_of_def)
qed (simp add: tree_of_def)

lemma record_trees_match:
  "matches (Some (tree_of (verdict_record_js v))) verdict_shape"
  "distinct (map fst (ru_inputs r)) \<Longrightarrow> distinct (map fst (ru_intermediates r)) \<Longrightarrow>
     matches (Some (tree_of (rule_record_js r))) rule_shape"
proof -
  have opt: "has_text (js_opt JsStr x)" for x by (rule has_text_opt) (simp add: has_text_leaf)
  have obj: "has_text (js_strings_object kvs)" if "distinct (map fst kvs)" for kvs
    unfolding js_strings_object_def
    by (rule has_text_object) (use that in \<open>auto simp: has_text_leaf\<close>)
  show "matches (Some (tree_of (verdict_record_js v))) verdict_shape"
    unfolding verdict_record_js_def verdict_shape_def
    by (rule matches_tree_object)
      (simp_all add: has_text_leaf has_text_texts shape_texts_def matches_leaf_trees del: matches.simps)
  show "matches (Some (tree_of (rule_record_js r))) rule_shape"
    if d: "distinct (map fst (ru_inputs r))" "distinct (map fst (ru_intermediates r))"
    unfolding rule_record_js_def rule_shape_def
    by (rule matches_tree_object)
      (simp_all add: has_text_leaf has_text_texts opt obj [OF d(1)] obj [OF d(2)] shape_texts_def matches_leaf_trees
        matches.simps(1) del: matches.simps(2-8))
qed

lemma has_text_tree: "has_text v \<Longrightarrow> has_text (of_json (tree_of v))"
  using canon_fixpoint(1) [of v "tree_of v"] by (auto simp: has_text_def tree_of_def)

lemma ex_core_ok:
  assumes "replayProof sha input = Inr r"
  shows "core_ok (ex_core r e)" and "wf_input input \<Longrightarrow> opaque_texts (ex_core r e)"
proof -
  have d: "distinct (map fst (ru_inputs (rp_rule r)))" "distinct (map fst (ru_intermediates (rp_rule r)))"
    using assms by (auto simp: replayProof_def Let_def and_then_Inr)
  have "tree_of (verdict_record_js (rp_verdict r)) = JObj (tree_members
     [(''protocolStatus'', JsStr (verdict_text (vr_protocolStatus (rp_verdict r)))),
      (''dataStatus'', JsStr (data_status_text (vr_dataStatus (rp_verdict r)))),
      (''claimMode'', JsStr (claim_mode_text (vr_claimMode (rp_verdict r)))),
      (''coverage'', JsStr (coverage_text (vr_coverage (rp_verdict r)))),
      (''reasonCodes'', js_reasons (vr_reasonCodes (rp_verdict r))),
      (''criticalRuleIds'', js_texts (vr_criticalRuleIds (rp_verdict r))),
      (''unknownRuleIds'', js_texts (vr_unknownRuleIds (rp_verdict r)))])"
    unfolding verdict_record_js_def
    by (rule tree_of_object) (simp_all add: has_text_object has_text_leaf has_text_texts)
  then have v: "JObj (ec_verdict (ex_core r e)) = tree_of (verdict_record_js (rp_verdict r))"
    by (simp add: ex_core_def)
  show "core_ok (ex_core r e)"
    unfolding core_ok_def v
    using record_trees_match(1) record_trees_match(2) [OF d]
    by (simp add: ex_core_def ex_message_def json_count_def js_safe_def)
  have "canon (of_json (rp_evaluation r)) \<noteq> None"
    using canon_fixpoint(1) [OF replayProof_Inr(4) [OF assms]] by simp
  then show "opaque_texts (ex_core r e)"
    unfolding opaque_texts_def v
    using has_text_tree [OF has_text_records(1) [of "rp_verdict r"]] has_text_tree [OF has_text_records(2) [OF d]]
      has_text_tree [of "proof_input_js ex_input"] input.canonical [OF ex_input_wf]
    by (simp add: ex_core_def has_text_def input.stated)
qed

lemma buildBundle_returns:
  assumes "core_ok (bd_core draft)" and "opaque_texts (bd_core draft)"
  shows "\<exists>b. buildBundle sha draft = Inr b"
proof -
  let ?c = "(bd_core draft)\<lparr>ec_producer := (ec_producer (bd_core draft))\<lparr>pr_schemaVersion := EVIDENCE_SCHEMA_VERSION\<rparr>\<rparr>"
  have "has_text (of_json (JObj (core_members ?c)))"
    by (rule core_text) (use assms in \<open>simp_all add: core_ok_def opaque_texts_def\<close>)
  from canonicalStringify_total [OF this] obtain s where "canonicalStringify (of_json (JObj (core_members ?c))) = Inr s" ..
  then have "hash_core sha ?c = Inr (sha (DOMAIN_PREFIX @ s))" by (simp only: hash_core_def hashCore_def sum.case)
  then show ?thesis by (simp add: buildBundle_def Let_def)
qed

lemma ex_builds:
  assumes "replayProof ex_sha ex_input = Inr r"
  shows "\<exists>b. buildBundle sha (ex_draft r) = Inr b" and "\<exists>b. buildBundle sha (chainTo (ex_draft r) p) = Inr b"
  using ex_core_ok(1) [OF assms, of "[escrow_call]"] ex_core_ok(2) [OF assms ex_input_wf, of "[escrow_call]"]
  by (auto intro!: buildBundle_returns simp: ex_draft_def chainTo_def core_ok_def opaque_texts_def)

theorem assembled_bundle_verifies_iff_witness:
  "\<exists>r b. buildBundle ex_sha (ex_draft r) = Inr b
     \<and> (verified ex_sha ex_date (bundle_tree b) \<longleftrightarrow>
          findSecrets (json_print (bundle_tree b)) = []
          \<and> (\<exists>j. canon (of_json (JObj (core_members (eb_core b)))) = Some j \<and> findSecrets (json_print j) = []))"
proof -
  obtain r where r: "replayProof ex_sha ex_input = Inr r" using ex_replayed by blast
  obtain b where b: "buildBundle ex_sha (ex_draft r) = Inr b" using ex_builds(1) [OF r] by blast
  have "eb_core b = ex_core r [escrow_call]"
    using b by (auto simp: buildBundle_def Let_def and_then_Inr ex_draft_def ex_core_def)
  then have "dangling_references (eb_core b) = []" "admitted_gaps (eb_core b) = []"
    "replay_findings ex_sha ex_date None (eb_core b) = []"
    using ex_passes(1) [OF r]
    by (simp_all add: dangling_references_def admitted_gaps_def ex_core_def ex_message_def ex_sha_def)
  then have "verified ex_sha ex_date (bundle_tree b) \<longleftrightarrow>
          findSecrets (json_print (bundle_tree b)) = []
          \<and> (\<exists>j. canon (of_json (JObj (core_members (eb_core b)))) = Some j \<and> findSecrets (json_print j) = [])"
    using assembled_bundle_verifies_iff [OF b] ex_core_ok(1) [OF r] by (simp add: ex_draft_def del: of_json.simps)
  with b show ?thesis by blast
qed

theorem chained_hash_fixes_predecessor_witness:
  "\<exists>r b c. buildBundle (\<lambda>s. s) (chainTo (ex_draft r) ''x'') = Inr b
     \<and> buildBundle (\<lambda>s. s) (chainTo (ex_draft r) ''y'') = Inr c \<and> eb_contentHash b \<noteq> eb_contentHash c"
proof -
  obtain r where r: "replayProof ex_sha ex_input = Inr r" using ex_replayed by blast
  obtain b where b: "buildBundle (\<lambda>s. s) (chainTo (ex_draft r) ''x'') = Inr b" using ex_builds(2) [OF r] by blast
  obtain c where c: "buildBundle (\<lambda>s. s) (chainTo (ex_draft r) ''y'') = Inr c" using ex_builds(2) [OF r] by blast
  have "eb_contentHash b \<noteq> eb_contentHash c"
  proof
    assume "eb_contentHash b = eb_contentHash c"
    from chained_hash_fixes_predecessor [OF b c this] show False by simp
  qed
  with b c show ?thesis by blast
qed

theorem bundle_roundtrip_witness:
  "\<exists>r b. buildBundle ex_sha (ex_draft r) = Inr b \<and> read_bundle (bundle_tree b) = b"
proof -
  obtain r where r: "replayProof ex_sha ex_input = Inr r" using ex_replayed by blast
  obtain b where b: "buildBundle ex_sha (ex_draft r) = Inr b" using ex_builds(1) [OF r] by blast
  have "eb_core b = ex_core r [escrow_call]"
    using b by (auto simp: buildBundle_def Let_def and_then_Inr ex_draft_def ex_core_def)
  then have "core_ok (eb_core b)" using ex_core_ok(1) [OF r] by simp
  from bundle_roundtrip [OF this] b show ?thesis by blast
qed

end
