(* ===== verification/Sharing.thy ===== *)
theory Sharing
  imports Verify
begin

text \<open>
  packages/alerts/src/sharing.ts: what of an evidence bundle may leave the operator's machine at each
  sharing level.
\<close>

datatype sharing_level = LocalOnly | SanitizedMetadataLevel | ApprovedFull

fun sharing_level_text :: "sharing_level \<Rightarrow> string" where
  "sharing_level_text LocalOnly = ''local-only''"
| "sharing_level_text SanitizedMetadataLevel = ''sanitized-metadata''"
| "sharing_level_text ApprovedFull = ''approved-full''"

definition SHARING_LEVELS :: "sharing_level list" where
  "SHARING_LEVELS = [LocalOnly, SanitizedMetadataLevel, ApprovedFull]"

definition DEFAULT_SHARING_LEVEL :: sharing_level where
  "DEFAULT_SHARING_LEVEL = LocalOnly"

definition isSharingLevel :: "json option \<Rightarrow> bool" where
  "isSharingLevel v = (case v of Some (JStr s) \<Rightarrow> s \<in> set (map sharing_level_text SHARING_LEVELS) | _ \<Rightarrow> False)"

record sanitized_metadata =
  smd_deploymentId :: string
  smd_evidenceHash :: string
  smd_schemaVersion :: string
  smd_protocolStatus :: string
  smd_dataStatus :: string
  smd_claimMode :: string
  smd_coverage :: string
  smd_reasonCodes :: "string list"
  smd_observedAt :: string
  smd_expiresAt :: string
  smd_fresh :: bool
  smd_chainCount :: nat
  smd_ruleCount :: nat
  smd_messageCount :: nat

datatype shared_evidence = SharedNothing | SharedMetadata sanitized_metadata | SharedBundle evidence_bundle

definition metadata_of :: "evidence_bundle \<Rightarrow> sanitized_metadata" where
  "metadata_of bundle =
     (let core = eb_core bundle in
      \<lparr>smd_deploymentId = ec_deploymentId core, smd_evidenceHash = eb_contentHash bundle,
       smd_schemaVersion = pr_schemaVersion (ec_producer core),
       smd_protocolStatus = text_at (ec_verdict core) ''protocolStatus'',
       smd_dataStatus = text_at (ec_verdict core) ''dataStatus'',
       smd_claimMode = text_at (ec_verdict core) ''claimMode'',
       smd_coverage = text_at (ec_verdict core) ''coverage'',
       smd_reasonCodes = texts_at (ec_verdict core) ''reasonCodes'',
       smd_observedAt = cpr_observedAt (ec_completeness core),
       smd_expiresAt = cpr_expiresAt (ec_completeness core), smd_fresh = cpr_fresh (ec_completeness core),
       smd_chainCount = length (ec_chains core), smd_ruleCount = length (ec_rules core),
       smd_messageCount = length (ec_messages core)\<rparr>)"

definition metadata_json :: "sanitized_metadata \<Rightarrow> json" where
  "metadata_json m = JObj
     [(''deploymentId'', JStr (smd_deploymentId m)), (''evidenceHash'', JStr (smd_evidenceHash m)),
      (''schemaVersion'', JStr (smd_schemaVersion m)), (''protocolStatus'', JStr (smd_protocolStatus m)),
      (''dataStatus'', JStr (smd_dataStatus m)), (''claimMode'', JStr (smd_claimMode m)),
      (''coverage'', JStr (smd_coverage m)), (''reasonCodes'', jtexts (smd_reasonCodes m)),
      (''observedAt'', JStr (smd_observedAt m)), (''expiresAt'', JStr (smd_expiresAt m)),
      (''fresh'', JBool (smd_fresh m)), (''chainCount'', JNum (int (smd_chainCount m))),
      (''ruleCount'', JNum (int (smd_ruleCount m))), (''messageCount'', JNum (int (smd_messageCount m)))]"

definition project :: "sharing_level \<Rightarrow> evidence_bundle \<Rightarrow> alert_error + shared_evidence" where
  "project level bundle =
     (case level of
        LocalOnly \<Rightarrow> Inr SharedNothing
      | SanitizedMetadataLevel \<Rightarrow>
          and_then (assertSecretFree (json_print (metadata_json (metadata_of bundle))))
            (\<lambda>_. Inr (SharedMetadata (metadata_of bundle)))
      | ApprovedFull \<Rightarrow>
          and_then (assertSecretFree (json_print (bundle_tree bundle))) (\<lambda>_. Inr (SharedBundle bundle)))"

text \<open>What is sent, as text.\<close>

definition sent_text :: "shared_evidence \<Rightarrow> string" where
  "sent_text e =
     (case e of SharedNothing \<Rightarrow> [] | SharedMetadata m \<Rightarrow> json_print (metadata_json m)
      | SharedBundle b \<Rightarrow> json_print (bundle_tree b))"

definition level_of :: "shared_evidence \<Rightarrow> sharing_level" where
  "level_of e = (case e of SharedNothing \<Rightarrow> LocalOnly | SharedMetadata _ \<Rightarrow> SanitizedMetadataLevel
     | SharedBundle _ \<Rightarrow> ApprovedFull)"

text \<open>The bundle with everything but its header hidden: no fact, block, address, witness or replay.\<close>

definition veiled :: "evidence_bundle \<Rightarrow> evidence_bundle" where
  "veiled b = b\<lparr>eb_core := (eb_core b)
     \<lparr>ec_fingerprints := [], ec_rawFacts := [], ec_historicalBlocks := None, ec_stateCalls := [],
      ec_chains := replicate (length (ec_chains (eb_core b))) (read_chain []),
      ec_messages := replicate (length (ec_messages (eb_core b))) (read_message []),
      ec_rules := replicate (length (ec_rules (eb_core b))) JNull,
      ec_quorum := read_quorum [], ec_census := read_census [], ec_assurance := read_assurance [],
      ec_sourceLock := read_source_lock [], ec_baseline := read_baseline [],
      ec_replayInput := JNull, ec_replayEvaluation := JNull\<rparr>\<rparr>"

text \<open>
  What leaves has exactly the configured level and no text that looks like a credential, and below the
  approved level it does not depend on any chain data of the bundle: hiding all of it sends the same.
\<close>

theorem project_respects_level:
  "(case project level b of Inl _ \<Rightarrow> level = SanitizedMetadataLevel \<or> level = ApprovedFull
    | Inr e \<Rightarrow> level_of e = level \<and> (level = LocalOnly \<or> findSecrets (sent_text e) = []))
   \<and> (level = ApprovedFull \<or> project level b = project level (veiled b))"
proof
  show "case project level b of Inl _ \<Rightarrow> level = SanitizedMetadataLevel \<or> level = ApprovedFull
    | Inr e \<Rightarrow> level_of e = level \<and> (level = LocalOnly \<or> findSecrets (sent_text e) = [])"
    by (cases level) (auto simp: project_def assertSecretFree_def Let_def level_of_def sent_text_def)
  have "metadata_of (veiled b) = metadata_of b" by (simp add: metadata_of_def veiled_def Let_def)
  then show "level = ApprovedFull \<or> project level b = project level (veiled b)"
    by (cases level) (simp_all add: project_def)
qed

end
