(* ===== verification/RouteModel.thy ===== *)
theory RouteModel
  imports Events GateA
begin

text \<open>
  The economic model of one route (packages/collector: model.ts): which transfers are in flight at the
  two pins, which executions credited value and from which source, and which edges the cut leaves open.
  The lemmas tie it to the accounting identity of Gate A: what the contracts of a route moved, minus
  what they issued, is what the model lists as pending.
\<close>

section \<open>Facts\<close>

record log_coordinate =
  lc_blockNumber :: int
  lc_blockHash :: string
  lc_txHash :: string
  lc_logIndex :: int
  lc_blockTimestamp :: int

record 'a fact =
  fc_value :: 'a
  fc_at :: log_coordinate

record delivery =
  dv_messageId :: string
  dv_sourceBlockchainId :: string
  dv_originSenderAddress :: string
  dv_destinationAddress :: string
  dv_payload :: transferrer_payload

record pin_ref =
  pr_blockNumber :: int
  pr_blockHash :: string
  pr_timestamp :: int

record side_facts =
  sf_blockchainId :: string
  sf_pin :: pin_ref
  sf_sent :: "tokens_sent_event fact list"
  sf_unsupportedSends :: "tokens_routed_event fact list"
  sf_delivered :: "delivery fact list"
  sf_executed :: "message_outcome_event fact list"
  sf_failed :: "message_outcome_event fact list"

record bridge_route =
  br_homeBlockchainId :: string
  br_tokenHomeAddress :: string
  br_remoteBlockchainId :: string
  br_remoteAddress :: string

datatype trace_state = TraceSourceAccounted | TraceDelivered | TraceExecutedFailed | TraceExecutedSuccess

record message_trace =
  mt_direction :: direction
  mt_messageId :: string
  mt_state :: trace_state
  mt_source :: "tokens_sent_event fact option"
  mt_delivery :: "delivery fact option"
  mt_failures :: "message_outcome_event fact list"
  mt_executions :: "message_outcome_event fact list"

record open_edge =
  oe_direction :: direction
  oe_messageId :: string

record route_assessment =
  ra_pending :: "pending_envelope list"
  ra_effects :: "credited_effect list"
  ra_openEdges :: "open_edge list"
  ra_unsupported :: "string list"
  ra_messages :: "message_trace list"

definition same :: "string \<Rightarrow> string \<Rightarrow> bool" where
  "same a b \<longleftrightarrow> toLowerCase a = toLowerCase b"

definition byMessage :: "('a \<Rightarrow> string) \<Rightarrow> 'a fact list \<Rightarrow> (string \<times> 'a fact list) list" where
  "byMessage messageId facts = group_by (\<lambda>f. messageId (fc_value f)) (\<lambda>f. f) facts"

definition facts_at :: "(string \<times> 'a list) list \<Rightarrow> string \<Rightarrow> 'a list" where
  "facts_at m k = (case map_of m k of Some l \<Rightarrow> l | None \<Rightarrow> [])"

section \<open>One direction\<close>

record route_direction =
  rd_direction :: direction
  rd_source :: side_facts
  rd_destination :: side_facts
  rd_isRouteSend :: "tokens_sent_event \<Rightarrow> bool"
  rd_isRouteDelivery :: "delivery \<Rightarrow> bool"

definition empty_assessment :: route_assessment where
  "empty_assessment =
     \<lparr>ra_pending = [], ra_effects = [], ra_openEdges = [], ra_unsupported = [], ra_messages = []\<rparr>"

definition add_assessment :: "route_assessment \<Rightarrow> route_assessment \<Rightarrow> route_assessment" where
  "add_assessment a b =
     \<lparr>ra_pending = ra_pending a @ ra_pending b, ra_effects = ra_effects a @ ra_effects b,
      ra_openEdges = ra_openEdges a @ ra_openEdges b, ra_unsupported = ra_unsupported a @ ra_unsupported b,
      ra_messages = ra_messages a @ ra_messages b\<rparr>"

definition direction_prefix :: "direction \<Rightarrow> string" where
  "direction_prefix d = (case d of HomeToRemote \<Rightarrow> ''home-to-remote'' | RemoteToHome \<Rightarrow> ''remote-to-home'')"

definition head_option :: "'a list \<Rightarrow> 'a option" where
  "head_option xs = (case xs of [] \<Rightarrow> None | x # _ \<Rightarrow> Some x)"

definition delivered_amount :: "delivery fact \<Rightarrow> int option" where
  "delivered_amount f = map_option sh_amount (tp_singleHopSend (dv_payload (fc_value f)))"

text \<open>The loop over the executed deliveries of the route inside the destination cut.\<close>

definition assess_executed ::
  "route_direction \<Rightarrow> bridge_route \<Rightarrow> (log_coordinate \<Rightarrow> string \<Rightarrow> string)
   \<Rightarrow> (string \<times> tokens_sent_event fact list) list \<Rightarrow> (string \<times> message_outcome_event fact list) list
   \<Rightarrow> (string \<times> message_outcome_event fact list) list \<Rightarrow> string \<times> delivery fact list \<Rightarrow> route_assessment" where
  "assess_executed d r digestOf sendsById executedById failedById entry =
     (let messageId = fst entry; delivered = snd entry;
          executions = facts_at executedById messageId;
          failures = facts_at failedById messageId;
          source = facts_at sendsById messageId;
          delivery = head_option delivered;
          amount = (case delivery of None \<Rightarrow> None | Some f \<Rightarrow> delivered_amount f);
          sourceFact = (if length source = 1 then head_option source else None)
      in if executions = [] then empty_assessment
         else empty_assessment
           \<lparr>ra_openEdges :=
              (if source = [] then [\<lparr>oe_direction = rd_direction d, oe_messageId = messageId\<rparr>] else []),
            ra_effects :=
              (if source = [] then []
               else case amount of None \<Rightarrow> []
                 | Some a \<Rightarrow>
                     [\<lparr>ce_messageKey = messageId, ce_remoteBlockchainId = br_remoteBlockchainId r,
                       ce_remoteAddress = br_remoteAddress r, ce_amount = a,
                       ce_hasUniqueAuthorisedSource = (length source = 1),
                       ce_routeMatchesSource =
                         (case sourceFact of None \<Rightarrow> False | Some f \<Rightarrow> ts_amount (fc_value f) = a),
                       ce_duplicateEffect = (length executions > 1 \<or> length delivered > 1),
                       ce_causalSourceFact =
                         map_option (\<lambda>f. digestOf (fc_at f) (sf_blockchainId (rd_source d))) sourceFact\<rparr>]),
            ra_messages :=
              [\<lparr>mt_direction = rd_direction d, mt_messageId = messageId, mt_state = TraceExecutedSuccess,
                mt_source = sourceFact, mt_delivery = delivery, mt_failures = failures,
                mt_executions = executions\<rparr>]\<rparr>)"

text \<open>The loop over the sends inside the source cut.\<close>

definition assess_sent ::
  "route_direction \<Rightarrow> bridge_route \<Rightarrow> (string \<times> delivery fact list) list
   \<Rightarrow> (string \<times> message_outcome_event fact list) list \<Rightarrow> (string \<times> message_outcome_event fact list) list
   \<Rightarrow> string \<times> tokens_sent_event fact list \<Rightarrow> route_assessment" where
  "assess_sent d r deliveredById executedById failedById entry =
     (let messageId = fst entry; facts = snd entry
      in case facts of [] \<Rightarrow> empty_assessment
       | f # others \<Rightarrow>
           (let duplicate = (if length facts > 1
                  then [direction_prefix (rd_direction d) @ '':duplicate-send-'' @ messageId] else []);
                delivery = head_option (facts_at deliveredById messageId);
                failures = facts_at failedById messageId;
                age = pr_timestamp (sf_pin (rd_source d)) - lc_blockTimestamp (fc_at f)
            in if facts_at executedById messageId \<noteq> [] \<and> has_key deliveredById messageId
               then empty_assessment\<lparr>ra_unsupported := duplicate\<rparr>
               else empty_assessment
                 \<lparr>ra_unsupported := duplicate,
                  ra_pending :=
                    [\<lparr>pe_messageKey = messageId, pe_direction = rd_direction d,
                      pe_amount = ts_amount (fc_value f), pe_ageSeconds = (if age < 0 then 0 else age),
                      pe_remoteBlockchainId = br_remoteBlockchainId r,
                      pe_remoteAddress = br_remoteAddress r\<rparr>],
                  ra_messages :=
                    [\<lparr>mt_direction = rd_direction d, mt_messageId = messageId,
                      mt_state = (if failures \<noteq> [] then TraceExecutedFailed
                                  else if delivery \<noteq> None then TraceDelivered else TraceSourceAccounted),
                      mt_source = Some f, mt_delivery = delivery, mt_failures = failures,
                      mt_executions = []\<rparr>]\<rparr>))"

definition route_sends :: "route_direction \<Rightarrow> tokens_sent_event fact list" where
  "route_sends d = filter (\<lambda>f. rd_isRouteSend d (fc_value f)) (sf_sent (rd_source d))"

definition route_deliveries :: "route_direction \<Rightarrow> delivery fact list" where
  "route_deliveries d = filter (\<lambda>f. rd_isRouteDelivery d (fc_value f)) (sf_delivered (rd_destination d))"

definition foreign_payloads :: "route_direction \<Rightarrow> string list" where
  "foreign_payloads d =
     map (\<lambda>f. direction_prefix (rd_direction d) @ '':'' @ message_type_text (tp_messageType (dv_payload (fc_value f))))
       (filter (\<lambda>f. tp_messageType (dv_payload (fc_value f)) \<noteq> SINGLE_HOP_SEND) (route_deliveries d))"

definition assessDirection ::
  "route_direction \<Rightarrow> bridge_route \<Rightarrow> (log_coordinate \<Rightarrow> string \<Rightarrow> string) \<Rightarrow> route_assessment" where
  "assessDirection d r digestOf =
     (let sendsById = byMessage ts_messageId (route_sends d);
          deliveredById = byMessage dv_messageId (route_deliveries d);
          executedById = byMessage mo_messageId (sf_executed (rd_destination d));
          failedById = byMessage mo_messageId (sf_failed (rd_destination d))
      in foldl add_assessment
           (foldl add_assessment (empty_assessment\<lparr>ra_unsupported := foreign_payloads d\<rparr>)
             (map (assess_executed d r digestOf sendsById executedById failedById) deliveredById))
           (map (assess_sent d r deliveredById executedById failedById) sendsById))"

section \<open>A route\<close>

definition home_to_remote :: "bridge_route \<Rightarrow> side_facts \<Rightarrow> side_facts \<Rightarrow> route_direction" where
  "home_to_remote r home remote =
     \<lparr>rd_direction = HomeToRemote, rd_source = home, rd_destination = remote,
      rd_isRouteSend = (\<lambda>e. same (ts_destinationBlockchainId e) (br_remoteBlockchainId r)
        \<and> same (ts_destinationTokenTransferrerAddress e) (br_remoteAddress r)),
      rd_isRouteDelivery = (\<lambda>m. same (dv_sourceBlockchainId m) (br_homeBlockchainId r)
        \<and> same (dv_originSenderAddress m) (br_tokenHomeAddress r)
        \<and> same (dv_destinationAddress m) (br_remoteAddress r))\<rparr>"

definition remote_to_home :: "bridge_route \<Rightarrow> side_facts \<Rightarrow> side_facts \<Rightarrow> route_direction" where
  "remote_to_home r home remote =
     \<lparr>rd_direction = RemoteToHome, rd_source = remote, rd_destination = home,
      rd_isRouteSend = (\<lambda>e. same (ts_destinationBlockchainId e) (br_homeBlockchainId r)
        \<and> same (ts_destinationTokenTransferrerAddress e) (br_tokenHomeAddress r)),
      rd_isRouteDelivery = (\<lambda>m. same (dv_sourceBlockchainId m) (br_remoteBlockchainId r)
        \<and> same (dv_originSenderAddress m) (br_remoteAddress r)
        \<and> same (dv_destinationAddress m) (br_tokenHomeAddress r))\<rparr>"

definition routed_or_call :: "bridge_route \<Rightarrow> side_facts \<Rightarrow> string list" where
  "routed_or_call r home =
     map (\<lambda>_. ''home-to-remote:routed-or-send-and-call'')
       (filter (\<lambda>f. same (tr_destinationBlockchainId (fc_value f)) (br_remoteBlockchainId r)
           \<and> same (tr_destinationTokenTransferrerAddress (fc_value f)) (br_remoteAddress r))
         (sf_unsupportedSends home))"

definition multi_hop :: "bridge_route \<Rightarrow> side_facts \<Rightarrow> string list" where
  "multi_hop r remote =
     map (\<lambda>_. ''remote-to-home:multi-hop'')
       (filter (\<lambda>f. \<not> same (ts_destinationBlockchainId (fc_value f)) (br_homeBlockchainId r)) (sf_sent remote))"

definition assessRoute ::
  "bridge_route \<Rightarrow> side_facts \<Rightarrow> side_facts \<Rightarrow> (log_coordinate \<Rightarrow> string \<Rightarrow> string) \<Rightarrow> route_assessment" where
  "assessRoute r home remote digestOf =
     (let h2r = assessDirection (home_to_remote r home remote) r digestOf;
          r2h = assessDirection (remote_to_home r home remote) r digestOf;
          unsupported = ra_unsupported h2r @ ra_unsupported r2h @ routed_or_call r home @ multi_hop r remote
            @ (if sf_unsupportedSends remote \<noteq> [] then [''remote-to-home:send-and-call''] else [])
      in (add_assessment h2r r2h)\<lparr>ra_unsupported := sort (uniq unsupported)\<rparr>)"

section \<open>What an assessment collects\<close>

lemma add_assessment_sel [simp]:
  "ra_pending (add_assessment a b) = ra_pending a @ ra_pending b"
  "ra_effects (add_assessment a b) = ra_effects a @ ra_effects b"
  "ra_openEdges (add_assessment a b) = ra_openEdges a @ ra_openEdges b"
  "ra_unsupported (add_assessment a b) = ra_unsupported a @ ra_unsupported b"
  "ra_messages (add_assessment a b) = ra_messages a @ ra_messages b"
  by (simp_all add: add_assessment_def)

lemma empty_assessment_sel [simp]:
  "ra_pending empty_assessment = []" "ra_effects empty_assessment = []"
  "ra_openEdges empty_assessment = []" "ra_unsupported empty_assessment = []"
  "ra_messages empty_assessment = []"
  by (simp_all add: empty_assessment_def)

lemma fold_assessments_sel:
  "ra_pending (foldl add_assessment a as) = ra_pending a @ concat (map ra_pending as)"
  "ra_effects (foldl add_assessment a as) = ra_effects a @ concat (map ra_effects as)"
  "ra_openEdges (foldl add_assessment a as) = ra_openEdges a @ concat (map ra_openEdges as)"
  "ra_unsupported (foldl add_assessment a as) = ra_unsupported a @ concat (map ra_unsupported as)"
  "ra_messages (foldl add_assessment a as) = ra_messages a @ concat (map ra_messages as)"
  by (induction as arbitrary: a) simp_all

definition with_id :: "('a \<Rightarrow> string) \<Rightarrow> string \<Rightarrow> 'a fact list \<Rightarrow> 'a fact list" where
  "with_id messageId k facts = filter (\<lambda>f. messageId (fc_value f) = k) facts"

definition ids_of :: "('a \<Rightarrow> string) \<Rightarrow> 'a fact list \<Rightarrow> string list" where
  "ids_of messageId facts = uniq (map (\<lambda>f. messageId (fc_value f)) facts)"

lemma byMessage_eq: "byMessage messageId facts = map (\<lambda>k. (k, with_id messageId k facts)) (ids_of messageId facts)"
  by (simp add: byMessage_def group_by_eq with_id_def ids_of_def)

lemma ids_of_iff: "k \<in> set (ids_of messageId facts) \<longleftrightarrow> with_id messageId k facts \<noteq> []"
  by (auto simp: ids_of_def with_id_def filter_empty_conv)

lemma facts_at_byMessage [simp]: "facts_at (byMessage messageId facts) k = with_id messageId k facts"
  by (auto simp: facts_at_def byMessage_eq map_of_tabulate ids_of_iff)

lemma has_key_byMessage [simp]: "has_key (byMessage messageId facts) k \<longleftrightarrow> with_id messageId k facts \<noteq> []"
  by (simp add: has_key_map_of byMessage_eq map_of_tabulate ids_of_iff)

definition executed_of :: "route_direction \<Rightarrow> string \<Rightarrow> message_outcome_event fact list" where
  "executed_of d k = with_id mo_messageId k (sf_executed (rd_destination d))"

definition sends_of :: "route_direction \<Rightarrow> string \<Rightarrow> tokens_sent_event fact list" where
  "sends_of d k = with_id ts_messageId k (route_sends d)"

definition deliveries_of :: "route_direction \<Rightarrow> string \<Rightarrow> delivery fact list" where
  "deliveries_of d k = with_id dv_messageId k (route_deliveries d)"

text \<open>A message has arrived when the cut of the destination holds its delivery and an execution of it.\<close>

definition arrived :: "route_direction \<Rightarrow> string \<Rightarrow> bool" where
  "arrived d k \<longleftrightarrow> deliveries_of d k \<noteq> [] \<and> executed_of d k \<noteq> []"

definition send_ids :: "route_direction \<Rightarrow> string list" where
  "send_ids d = ids_of ts_messageId (route_sends d)"

definition delivery_ids :: "route_direction \<Rightarrow> string list" where
  "delivery_ids d = ids_of dv_messageId (route_deliveries d)"

lemma send_ids_iff: "k \<in> set (send_ids d) \<longleftrightarrow> sends_of d k \<noteq> []"
  by (simp add: send_ids_def sends_of_def ids_of_iff)

lemma delivery_ids_iff: "k \<in> set (delivery_ids d) \<longleftrightarrow> deliveries_of d k \<noteq> []"
  by (simp add: delivery_ids_def deliveries_of_def ids_of_iff)

lemma distinct_ids [simp]: "distinct (send_ids d)" "distinct (delivery_ids d)"
  by (simp_all add: send_ids_def delivery_ids_def ids_of_def)

section \<open>The four questions the model answers\<close>

definition send_entry where
  "send_entry d r k = assess_sent d r (byMessage dv_messageId (route_deliveries d))
     (byMessage mo_messageId (sf_executed (rd_destination d)))
     (byMessage mo_messageId (sf_failed (rd_destination d))) (k, sends_of d k)"

definition delivery_entry where
  "delivery_entry d r digestOf k = assess_executed d r digestOf (byMessage ts_messageId (route_sends d))
     (byMessage mo_messageId (sf_executed (rd_destination d)))
     (byMessage mo_messageId (sf_failed (rd_destination d))) (k, deliveries_of d k)"

lemma assessDirection_eq:
  "assessDirection d r digestOf =
     foldl add_assessment
       (foldl add_assessment (empty_assessment\<lparr>ra_unsupported := foreign_payloads d\<rparr>)
         (map (delivery_entry d r digestOf) (delivery_ids d)))
       (map (send_entry d r) (send_ids d))"
  by (simp add: assessDirection_def Let_def byMessage_eq [of dv_messageId] byMessage_eq [of ts_messageId]
      send_entry_def [abs_def] delivery_entry_def [abs_def] delivery_ids_def send_ids_def comp_def
      deliveries_of_def sends_of_def [abs_def])

lemma send_entry_sel:
  assumes "sends_of d k = f # fs"
  shows "map pe_amount (ra_pending (send_entry d r k)) = (if arrived d k then [] else [ts_amount (fc_value f)])"
    and "map pe_messageKey (ra_pending (send_entry d r k)) = (if arrived d k then [] else [k])"
    and "ra_effects (send_entry d r k) = []" and "ra_openEdges (send_entry d r k) = []"
    and "ra_unsupported (send_entry d r k) = [] \<longleftrightarrow> fs = []"
  using assms
  by (auto simp: send_entry_def assess_sent_def Let_def arrived_def executed_of_def deliveries_of_def)

lemma delivery_entry_sel:
  "ra_pending (delivery_entry d r digestOf k) = []"
  "ra_unsupported (delivery_entry d r digestOf k) = []"
  "ra_openEdges (delivery_entry d r digestOf k) =
     (if executed_of d k \<noteq> [] \<and> sends_of d k = []
      then [\<lparr>oe_direction = rd_direction d, oe_messageId = k\<rparr>] else [])"
  by (auto simp: delivery_entry_def assess_executed_def Let_def executed_of_def sends_of_def)

section \<open>The accounting identity\<close>

text \<open>What the sends moved out of the source, and what the executions credited at the destination.\<close>

definition moved_out :: "route_direction \<Rightarrow> int" where
  "moved_out d = sum_list (map (\<lambda>f. ts_amount (fc_value f)) (route_sends d))"

definition credited_by :: "route_direction \<Rightarrow> string \<Rightarrow> int" where
  "credited_by d k =
     (case deliveries_of d k of [] \<Rightarrow> 0
      | f # _ \<Rightarrow> (case delivered_amount f of None \<Rightarrow> 0 | Some a \<Rightarrow> a))"

definition moved_in :: "route_direction \<Rightarrow> int" where
  "moved_in d = sum_list (map (\<lambda>x. credited_by d (mo_messageId (fc_value x))) (sf_executed (rd_destination d)))"

definition payload_ok :: "transferrer_payload \<Rightarrow> bool" where
  "payload_ok p \<longleftrightarrow> (tp_messageType p = SINGLE_HOP_SEND \<longrightarrow> tp_singleHopSend p \<noteq> None)"

definition interpretable :: "route_direction \<Rightarrow> bridge_route \<Rightarrow> (log_coordinate \<Rightarrow> string \<Rightarrow> string) \<Rightarrow> bool" where
  "interpretable d r digestOf \<longleftrightarrow>
     ra_unsupported (assessDirection d r digestOf) = [] \<and> ra_openEdges (assessDirection d r digestOf) = []
     \<and> (\<forall>e \<in> set (ra_effects (assessDirection d r digestOf)). sound_effect e)
     \<and> (\<forall>f \<in> set (route_deliveries d). payload_ok (dv_payload (fc_value f)))"

lemma sum_list_by_key:
  fixes g :: "'a \<Rightarrow> int"
  assumes "finite K" and "f ` set xs \<subseteq> K"
  shows "sum_list (map g xs) = (\<Sum>k\<in>K. sum_list (map g (filter (\<lambda>x. f x = k) xs)))"
  using assms(2)
proof (induction xs)
  case (Cons x xs)
  have "(\<Sum>k\<in>K. sum_list (map g (filter (\<lambda>y. f y = k) (x # xs))))
      = (\<Sum>k\<in>K. (if f x = k then g x else 0) + sum_list (map g (filter (\<lambda>y. f y = k) xs)))"
    by (rule sum.cong) auto
  also have "\<dots> = g x + sum_list (map g xs)"
    using Cons assms(1) by (simp add: sum.distrib)
  finally show ?case by simp
qed simp

lemma sum_list_concat_map:
  "sum_list (map g (concat (map h xs))) = sum_list (map (\<lambda>x. sum_list (map g (h x))) xs)"
  by (induction xs) simp_all

lemma map_filter_replicate:
  "map (\<lambda>x. h (f x)) (filter (\<lambda>x. f x = k) xs) = replicate (length (filter (\<lambda>x. f x = k) xs)) (h k)"
  by (induction xs) auto

lemma interpretable_send:
  assumes "interpretable d r digestOf" and "k \<in> set (send_ids d)"
  obtains f where "sends_of d k = [f]"
proof -
  obtain f fs where fs: "sends_of d k = f # fs" using assms(2) by (cases "sends_of d k") (auto simp: send_ids_iff)
  have "ra_unsupported (send_entry d r k) = []"
    using assms by (auto simp: interpretable_def assessDirection_eq fold_assessments_sel)
  then show ?thesis using that fs send_entry_sel(5) [OF fs] by simp
qed

lemma interpretable_amount:
  assumes "interpretable d r digestOf" and "x \<in> set (route_deliveries d)"
  shows "delivered_amount x \<noteq> None"
proof -
  have "foreign_payloads d = []"
    using assms(1) by (auto simp: interpretable_def assessDirection_eq fold_assessments_sel)
  with assms show ?thesis
    by (auto simp: foreign_payloads_def filter_empty_conv interpretable_def payload_ok_def delivered_amount_def)
qed

lemma interpretable_arrived:
  assumes ok: "interpretable d r digestOf" and arrived: "arrived d k"
  obtains f where "sends_of d k = [f]" "length (executed_of d k) = 1" "credited_by d k = ts_amount (fc_value f)"
proof -
  obtain x xs where x: "deliveries_of d k = x # xs"
    using arrived by (cases "deliveries_of d k") (auto simp: arrived_def)
  have k: "k \<in> set (delivery_ids d)" and executed: "executed_of d k \<noteq> []"
    using arrived by (auto simp: arrived_def delivery_ids_iff)
  have "ra_openEdges (delivery_entry d r digestOf k) = []"
    using ok k by (auto simp: interpretable_def assessDirection_eq fold_assessments_sel)
  then have "k \<in> set (send_ids d)"
    using executed by (auto simp: delivery_entry_sel send_ids_iff split: if_splits)
  with ok obtain f where f: "sends_of d k = [f]" by (rule interpretable_send)
  have "x \<in> set (route_deliveries d)"
    using x by (metis deliveries_of_def filter_is_subset list.set_intros(1) subsetD with_id_def)
  from interpretable_amount [OF ok this] obtain a where a: "delivered_amount x = Some a" by auto
  have "set (ra_effects (delivery_entry d r digestOf k)) \<subseteq> set (ra_effects (assessDirection d r digestOf))"
    using k by (auto simp: assessDirection_eq fold_assessments_sel)
  with ok have sound: "\<forall>e \<in> set (ra_effects (delivery_entry d r digestOf k)). sound_effect e"
    by (auto simp: interpretable_def)
  have "ts_amount (fc_value f) = a \<and> \<not> length (executed_of d k) > 1"
    using sound executed f x a
    by (auto simp: delivery_entry_def assess_executed_def Let_def executed_of_def sends_of_def head_option_def
        sound_effect_def)
  moreover have "length (executed_of d k) \<ge> 1" using executed by (cases "executed_of d k") auto
  ultimately show ?thesis using that f x a by (simp add: credited_by_def)
qed

lemma moved_in_by_id:
  assumes ok: "interpretable d r digestOf"
  shows "moved_in d = (\<Sum>k \<in> set (send_ids d). if arrived d k then ts_amount (fc_value (hd (sends_of d k))) else 0)"
proof -
  let ?id = "\<lambda>x. mo_messageId (fc_value x)"
  let ?ex = "sf_executed (rd_destination d)"
  let ?K = "?id ` set ?ex \<union> set (send_ids d)"
  have group: "sum_list (map (\<lambda>x. credited_by d (?id x)) (filter (\<lambda>x. ?id x = k) ?ex))
      = int (length (executed_of d k)) * credited_by d k" for k
  proof -
    have "map (\<lambda>x. credited_by d (?id x)) (filter (\<lambda>x. ?id x = k) ?ex)
        = replicate (length (executed_of d k)) (credited_by d k)"
      by (simp add: executed_of_def with_id_def map_filter_replicate [where h = "credited_by d"])
    then show ?thesis by (simp add: sum_list_replicate)
  qed
  have "moved_in d = (\<Sum>k\<in>?K. int (length (executed_of d k)) * credited_by d k)"
    unfolding moved_in_def group [symmetric] by (rule sum_list_by_key) auto
  also have "\<dots> = (\<Sum>k \<in> set (send_ids d). if arrived d k then ts_amount (fc_value (hd (sends_of d k))) else 0)"
  proof (rule sum.mono_neutral_cong_right)
    show "\<forall>k \<in> ?K - set (send_ids d). int (length (executed_of d k)) * credited_by d k = 0"
    proof
      fix k assume k: "k \<in> ?K - set (send_ids d)"
      have "\<not> arrived d k"
      proof
        assume "arrived d k"
        with ok obtain f where "sends_of d k = [f]" by (rule interpretable_arrived)
        with k show False by (simp add: send_ids_iff)
      qed
      then show "int (length (executed_of d k)) * credited_by d k = 0"
        by (auto simp: arrived_def credited_by_def)
    qed
    fix k assume "k \<in> set (send_ids d)"
    show "int (length (executed_of d k)) * credited_by d k
        = (if arrived d k then ts_amount (fc_value (hd (sends_of d k))) else 0)"
    proof (cases "arrived d k")
      case True
      with ok obtain f where "sends_of d k = [f]" "length (executed_of d k) = 1"
        "credited_by d k = ts_amount (fc_value f)" by (rule interpretable_arrived)
      with True show ?thesis by simp
    next
      case False
      then show ?thesis by (auto simp: arrived_def credited_by_def)
    qed
  qed auto
  finally show ?thesis .
qed

lemma moved_out_by_id:
  assumes ok: "interpretable d r digestOf"
  shows "moved_out d = (\<Sum>k \<in> set (send_ids d). ts_amount (fc_value (hd (sends_of d k))))"
proof -
  have "moved_out d = (\<Sum>k \<in> set (send_ids d). sum_list (map (\<lambda>f. ts_amount (fc_value f)) (sends_of d k)))"
    unfolding moved_out_def sends_of_def with_id_def
    by (rule sum_list_by_key) (auto simp: send_ids_def ids_of_def)
  also have "\<dots> = (\<Sum>k \<in> set (send_ids d). ts_amount (fc_value (hd (sends_of d k))))"
  proof (rule sum.cong [OF refl])
    fix k assume "k \<in> set (send_ids d)"
    with ok obtain f where "sends_of d k = [f]" by (rule interpretable_send)
    then show "sum_list (map (\<lambda>f. ts_amount (fc_value f)) (sends_of d k)) = ts_amount (fc_value (hd (sends_of d k)))"
      by simp
  qed
  finally show ?thesis .
qed

lemma pending_by_id:
  "sum_list (map pe_amount (ra_pending (assessDirection d r digestOf)))
     = (\<Sum>k \<in> set (send_ids d). if arrived d k then 0 else ts_amount (fc_value (hd (sends_of d k))))"
proof -
  have entry: "sum_list (map pe_amount (ra_pending (send_entry d r k)))
      = (if arrived d k then 0 else ts_amount (fc_value (hd (sends_of d k))))" if "k \<in> set (send_ids d)" for k
  proof -
    from that have "sends_of d k \<noteq> []" by (simp add: send_ids_iff)
    then obtain f fs where "sends_of d k = f # fs" by (cases "sends_of d k") simp_all
    then show ?thesis by (simp add: send_entry_sel)
  qed
  have "sum_list (map pe_amount (ra_pending (assessDirection d r digestOf)))
      = sum_list (map (\<lambda>k. sum_list (map pe_amount (ra_pending (send_entry d r k)))) (send_ids d))"
    by (simp add: assessDirection_eq fold_assessments_sel delivery_entry_sel comp_def sum_list_concat_map)
  also have "\<dots> = sum_list (map (\<lambda>k. if arrived d k then 0 else ts_amount (fc_value (hd (sends_of d k)))) (send_ids d))"
    using entry by (auto intro!: arg_cong [where f = sum_list])
  finally show ?thesis by (simp add: sum_list_distinct_conv_sum_set)
qed

lemma direction_balance:
  assumes "interpretable d r digestOf"
  shows "sum_list (map pe_amount (ra_pending (assessDirection d r digestOf))) = moved_out d - moved_in d"
  unfolding pending_by_id moved_in_by_id [OF assms] moved_out_by_id [OF assms] sum_subtractf [symmetric]
  by (rule sum.cong) auto

text \<open>
  The balance a home transfers to a remote and the supply of the remote, from the facts at the two
  pins: sends of the home and burns of the remote, releases at the home and mints of the remote.
\<close>

definition route_transferred :: "bridge_route \<Rightarrow> side_facts \<Rightarrow> side_facts \<Rightarrow> int" where
  "route_transferred r home remote = moved_out (home_to_remote r home remote) - moved_in (remote_to_home r home remote)"

definition route_supply :: "bridge_route \<Rightarrow> side_facts \<Rightarrow> side_facts \<Rightarrow> int" where
  "route_supply r home remote = moved_in (home_to_remote r home remote) - moved_out (remote_to_home r home remote)"

definition payloads_ok :: "side_facts \<Rightarrow> bool" where
  "payloads_ok s \<longleftrightarrow> (\<forall>f \<in> set (sf_delivered s). payload_ok (dv_payload (fc_value f)))"

lemma assessRoute_sel:
  "ra_pending (assessRoute r home remote digestOf) =
     ra_pending (assessDirection (home_to_remote r home remote) r digestOf)
     @ ra_pending (assessDirection (remote_to_home r home remote) r digestOf)"
  "ra_effects (assessRoute r home remote digestOf) =
     ra_effects (assessDirection (home_to_remote r home remote) r digestOf)
     @ ra_effects (assessDirection (remote_to_home r home remote) r digestOf)"
  "ra_openEdges (assessRoute r home remote digestOf) =
     ra_openEdges (assessDirection (home_to_remote r home remote) r digestOf)
     @ ra_openEdges (assessDirection (remote_to_home r home remote) r digestOf)"
  "set (ra_unsupported (assessRoute r home remote digestOf)) =
     set (ra_unsupported (assessDirection (home_to_remote r home remote) r digestOf))
     \<union> set (ra_unsupported (assessDirection (remote_to_home r home remote) r digestOf))
     \<union> set (routed_or_call r home) \<union> set (multi_hop r remote)
     \<union> (if sf_unsupportedSends remote \<noteq> [] then {''remote-to-home:send-and-call''} else {})"
  by (auto simp: assessRoute_def Let_def)

text \<open>
  C24. When a cut is interpretable (nothing unsupported, no open causal edge, every credited effect
  unique, authorised and matching its send, and every single-hop payload carrying its amount), what the
  home moved to the remote minus the supply the remote issued is exactly the total of the transfers the
  model lists as pending.
\<close>

theorem route_identity:
  assumes "ra_unsupported (assessRoute r home remote digestOf) = []"
    and "ra_openEdges (assessRoute r home remote digestOf) = []"
    and "\<forall>e \<in> set (ra_effects (assessRoute r home remote digestOf)). sound_effect e"
    and "payloads_ok home" and "payloads_ok remote"
  shows "route_transferred r home remote - route_supply r home remote
       = sum_list (map pe_amount (ra_pending (assessRoute r home remote digestOf)))"
proof -
  have "set (ra_unsupported (assessRoute r home remote digestOf)) = {}" using assms(1) by simp
  then have "interpretable (home_to_remote r home remote) r digestOf"
    "interpretable (remote_to_home r home remote) r digestOf"
    using assms(2-5)
    by (auto simp: assessRoute_sel interpretable_def payloads_ok_def route_deliveries_def home_to_remote_def
        remote_to_home_def)
  from this [THEN direction_balance] show ?thesis
    by (simp add: assessRoute_sel route_transferred_def route_supply_def)
qed

section \<open>An example route\<close>

text \<open>Of two sends of 70 and 30 from home \<open>h\<close> to remote \<open>r\<close> the first is delivered and executed.\<close>

definition example_route :: bridge_route where
  "example_route = \<lparr>br_homeBlockchainId = ''c1'', br_tokenHomeAddress = ''h'',
     br_remoteBlockchainId = ''c2'', br_remoteAddress = ''r''\<rparr>"

definition example_at :: "int \<Rightarrow> log_coordinate" where
  "example_at n = \<lparr>lc_blockNumber = n, lc_blockHash = ''b'', lc_txHash = ''t'', lc_logIndex = 0, lc_blockTimestamp = n\<rparr>"

definition example_sent :: "string \<Rightarrow> int \<Rightarrow> tokens_sent_event fact" where
  "example_sent k a = \<lparr>fc_value = \<lparr>ts_destinationBlockchainId = ''c2'', ts_destinationTokenTransferrerAddress = ''r'',
     ts_messageId = k, ts_sender = ''u'', ts_recipient = ''u'', ts_multiHopFallback = ''z'', ts_amount = a\<rparr>,
     fc_at = example_at 7\<rparr>"

definition example_delivered :: "string \<Rightarrow> int \<Rightarrow> delivery fact" where
  "example_delivered k a = \<lparr>fc_value = \<lparr>dv_messageId = k, dv_sourceBlockchainId = ''c1'',
     dv_originSenderAddress = ''h'', dv_destinationAddress = ''r'',
     dv_payload = \<lparr>tp_messageType = SINGLE_HOP_SEND,
       tp_singleHopSend = Some \<lparr>sh_recipient = ''u'', sh_amount = a\<rparr>\<rparr>\<rparr>, fc_at = example_at 8\<rparr>"

definition example_executed :: "string \<Rightarrow> message_outcome_event fact" where
  "example_executed k = \<lparr>fc_value = \<lparr>mo_messageId = k, mo_sourceBlockchainId = ''c1''\<rparr>, fc_at = example_at 8\<rparr>"

definition example_home :: side_facts where
  "example_home = \<lparr>sf_blockchainId = ''c1'', sf_pin = \<lparr>pr_blockNumber = 9, pr_blockHash = ''b'', pr_timestamp = 9\<rparr>,
     sf_sent = [example_sent ''m'' 70, example_sent ''n'' 30], sf_unsupportedSends = [], sf_delivered = [],
     sf_executed = [], sf_failed = []\<rparr>"

definition example_remote :: side_facts where
  "example_remote = \<lparr>sf_blockchainId = ''c2'', sf_pin = \<lparr>pr_blockNumber = 9, pr_blockHash = ''b'', pr_timestamp = 9\<rparr>,
     sf_sent = [], sf_unsupportedSends = [], sf_delivered = [example_delivered ''m'' 70],
     sf_executed = [example_executed ''m''], sf_failed = []\<rparr>"

lemma route_identity_witness:
  "route_transferred example_route example_home example_remote = 100
   \<and> route_supply example_route example_home example_remote = 70
   \<and> sum_list (map pe_amount (ra_pending (assessRoute example_route example_home example_remote (\<lambda>_ _. ''f'')))) = 30"
proof -
  let ?a = "assessRoute example_route example_home example_remote (\<lambda>_ _. ''f'')"
  have moved: "route_transferred example_route example_home example_remote = 100"
    "route_supply example_route example_home example_remote = 70" by code_simp+
  have "ra_unsupported ?a = []" "ra_openEdges ?a = []" "\<forall>e \<in> set (ra_effects ?a). sound_effect e"
    "payloads_ok example_home" "payloads_ok example_remote" by code_simp+
  from route_identity [OF this] moved show ?thesis by simp
qed

end
