(* ===== verification/Scheduler.thy ===== *)
theory Scheduler
  imports Prelude
begin

text \<open>
  The work scheduler of the agent (apps/agent: scheduler.ts): submission with deduplication and
  backpressure, the pump that fills the slots, the attempts of one job, and shutdown. The class keeps
  its state in one record; a run is any sequence of submissions, pumps, ends of jobs and shutdowns. The
  lemmas show the single writer per deployment, the bounds, that no accepted job is lost or started
  twice, and that no slot stays idle while a job could use it.
\<close>

section \<open>Jobs and their attempts\<close>

record job =
  jb_deploymentId :: string
  jb_kind :: string

definition jobKey :: "job \<Rightarrow> string" where
  "jobKey j = jb_deploymentId j @ '' '' @ jb_kind j"

datatype job_result = Succeeded | JobFailed | TimedOut | Abandoned | Cancelled

record job_outcome =
  jo_job :: job
  jo_result :: job_result
  jo_attempts :: int
  jo_reason :: "string option"

text \<open>
  What the outside does to one attempt: the runner returns, or throws while the shutdown signal or the
  timer of the attempt has fired or neither; the sleep before the next attempt ends or is interrupted.
\<close>

datatype run_end = RunReturned | RunThrew bool bool

record attempt_world =
  at_abortedBefore :: "int \<Rightarrow> bool"
  at_run :: "int \<Rightarrow> run_end"
  at_sleepEnds :: "int \<Rightarrow> bool"

text \<open>
  \<open>#execute\<close>: \<open>RunThrew shutdown timeout\<close> is a throw with those signals aborted. Without any attempt
  nothing is reported.
\<close>

function execute_from :: "attempt_world \<Rightarrow> int \<Rightarrow> job \<Rightarrow> int \<Rightarrow> string option \<Rightarrow> job_outcome option" where
  "execute_from w maxAttempts j attempt lastReason =
     (let report = (\<lambda>result reason.
            Some \<lparr>jo_job = j, jo_result = result, jo_attempts = attempt, jo_reason = reason\<rparr>)
      in if attempt > maxAttempts then None
         else if at_abortedBefore w attempt then report Cancelled lastReason
         else case at_run w attempt of
           RunReturned \<Rightarrow> report Succeeded None
         | RunThrew shutdown timeout \<Rightarrow>
             (if shutdown \<and> \<not> timeout then report Cancelled lastReason
              else let reason = Some (if timeout then ''job timeout'' else ''job failed'')
                in if attempt = maxAttempts
                   then report (if timeout then TimedOut else Abandoned) reason
                   else if \<not> at_sleepEnds w attempt then report Cancelled reason
                   else execute_from w maxAttempts j (attempt + 1) reason))"
  by pat_completeness auto
termination by (relation "measure (\<lambda>(w, m, j, a, r). nat (m + 1 - a))") auto

declare execute_from.simps [simp del]

definition execute_job :: "attempt_world \<Rightarrow> int \<Rightarrow> job \<Rightarrow> job_outcome option" where
  "execute_job w maxAttempts j = execute_from w maxAttempts j 1 None"

section \<open>The class\<close>

record scheduler_options =
  so_maxConcurrency :: nat
  so_queueLimit :: nat

record scheduler =
  sc_queue :: "job list"
  sc_lanes :: "string list"
  sc_queuedKeys :: "string list"
  sc_running :: "job list"
  sc_draining :: bool
  sc_rejected :: nat
  sc_deduplicated :: nat

definition new_scheduler :: scheduler where
  "new_scheduler = \<lparr>sc_queue = [], sc_lanes = [], sc_queuedKeys = [], sc_running = [],
     sc_draining = False, sc_rejected = 0, sc_deduplicated = 0\<rparr>"

datatype submit_result = Queued | Duplicate | RejectedBackpressure | RejectedDraining

definition submit :: "scheduler_options \<Rightarrow> job \<Rightarrow> scheduler \<Rightarrow> submit_result \<times> scheduler" where
  "submit opts j s =
     (if sc_draining s then (RejectedDraining, s)
      else if jobKey j \<in> set (sc_queuedKeys s) \<or> jb_deploymentId j \<in> set (sc_lanes s)
      then (Duplicate, s\<lparr>sc_deduplicated := sc_deduplicated s + 1\<rparr>)
      else if length (sc_queue s) \<ge> so_queueLimit opts
      then (RejectedBackpressure, s\<lparr>sc_rejected := sc_rejected s + 1\<rparr>)
      else (Queued, s\<lparr>sc_queue := sc_queue s @ [j], sc_queuedKeys := sc_queuedKeys s @ [jobKey j]\<rparr>))"

text \<open>The first queued job whose lane is free, with what is left of the queue.\<close>

fun take_free :: "string list \<Rightarrow> job list \<Rightarrow> (job \<times> job list) option" where
  "take_free lanes [] = None"
| "take_free lanes (j # js) =
     (if jb_deploymentId j \<notin> set lanes then Some (j, js)
      else map_option (\<lambda>(k, ks). (k, j # ks)) (take_free lanes js))"

lemma take_free_Some:
  "take_free lanes js = Some (j, rest) \<Longrightarrow>
     jb_deploymentId j \<notin> set lanes \<and> (\<exists>a b. js = a @ j # b \<and> rest = a @ b)"
proof (induction js arbitrary: rest)
  case (Cons k ks)
  show ?case
  proof (cases "jb_deploymentId k \<in> set lanes")
    case True
    with Cons.prems obtain r where r: "take_free lanes ks = Some (j, r)" "rest = k # r" by auto
    from Cons.IH [OF r(1)] obtain a b where "jb_deploymentId j \<notin> set lanes" "ks = a @ j # b" "r = a @ b"
      by blast
    with r(2) have "k # ks = (k # a) @ j # b \<and> rest = (k # a) @ b" by simp
    with \<open>jb_deploymentId j \<notin> set lanes\<close> show ?thesis by blast
  next
    case False
    with Cons.prems have "k # ks = [] @ j # ks \<and> rest = [] @ ks \<and> j = k" by auto
    with False show ?thesis by blast
  qed
qed simp

lemma take_free_length: "take_free lanes js = Some (j, rest) \<Longrightarrow> length rest < length js"
  using take_free_Some by fastforce

lemma take_free_None: "take_free lanes js = None \<longleftrightarrow> (\<forall>j \<in> set js. jb_deploymentId j \<in> set lanes)"
  by (induction js) auto

definition start_job :: "job \<Rightarrow> job list \<Rightarrow> scheduler \<Rightarrow> scheduler" where
  "start_job j rest s =
     s\<lparr>sc_queue := rest, sc_queuedKeys := removeAll (jobKey j) (sc_queuedKeys s),
       sc_lanes := sc_lanes s @ [jb_deploymentId j], sc_running := sc_running s @ [j]\<rparr>"

function pump :: "scheduler_options \<Rightarrow> scheduler \<Rightarrow> scheduler" where
  "pump opts s =
     (if length (sc_lanes s) < so_maxConcurrency opts
      then case take_free (sc_lanes s) (sc_queue s) of
             None \<Rightarrow> s
           | Some (j, rest) \<Rightarrow> pump opts (start_job j rest s)
      else s)"
  by pat_completeness auto
termination
  by (relation "measure (\<lambda>(opts, s). length (sc_queue s))") (auto simp: start_job_def dest: take_free_length)

declare pump.simps [simp del]

text \<open>The end of a running job: its lane is freed, and unless draining the slots are filled again.\<close>

definition settle :: "scheduler_options \<Rightarrow> job \<Rightarrow> scheduler \<Rightarrow> scheduler" where
  "settle opts j s =
     (let s1 = s\<lparr>sc_lanes := removeAll (jb_deploymentId j) (sc_lanes s), sc_running := remove1 j (sc_running s)\<rparr>
      in if sc_draining s then s1 else pump opts s1)"

definition begin_shutdown :: "scheduler \<Rightarrow> scheduler" where
  "begin_shutdown s = s\<lparr>sc_draining := True, sc_queue := [], sc_queuedKeys := []\<rparr>"

section \<open>Runs\<close>

datatype scheduler_event = Submit job | Pump | Settle job | Shutdown

text \<open>Only a running job can end.\<close>

definition enabled :: "scheduler_event \<Rightarrow> scheduler \<Rightarrow> bool" where
  "enabled e s = (case e of Settle j \<Rightarrow> j \<in> set (sc_running s) | _ \<Rightarrow> True)"

fun scheduler_step :: "scheduler_options \<Rightarrow> scheduler_event \<Rightarrow> scheduler \<Rightarrow> scheduler" where
  "scheduler_step opts (Submit j) s = snd (submit opts j s)"
| "scheduler_step opts Pump s = pump opts s"
| "scheduler_step opts (Settle j) s = settle opts j s"
| "scheduler_step opts Shutdown s = begin_shutdown s"

inductive scheduler_run :: "scheduler_options \<Rightarrow> scheduler \<Rightarrow> bool" for opts where
  start: "scheduler_run opts new_scheduler"
| step: "scheduler_run opts s \<Longrightarrow> enabled e s \<Longrightarrow> scheduler_run opts (scheduler_step opts e s)"

definition scheduler_ok :: "scheduler_options \<Rightarrow> scheduler \<Rightarrow> bool" where
  "scheduler_ok opts s \<longleftrightarrow>
     sc_lanes s = map jb_deploymentId (sc_running s) \<and> distinct (sc_lanes s)
     \<and> length (sc_lanes s) \<le> so_maxConcurrency opts
     \<and> length (sc_queue s) \<le> so_queueLimit opts
     \<and> set (sc_queuedKeys s) = set (map jobKey (sc_queue s)) \<and> distinct (map jobKey (sc_queue s))
     \<and> (sc_draining s \<longrightarrow> sc_queue s = [])"

lemma start_job_ok:
  assumes ok: "scheduler_ok opts s" and free: "take_free (sc_lanes s) (sc_queue s) = Some (j, rest)"
    and slot: "length (sc_lanes s) < so_maxConcurrency opts"
  shows "scheduler_ok opts (start_job j rest s)"
proof -
  obtain a b where q: "jb_deploymentId j \<notin> set (sc_lanes s)" "sc_queue s = a @ j # b" "rest = a @ b"
    using take_free_Some [OF free] by blast
  then show ?thesis
    using ok slot by (auto simp: scheduler_ok_def start_job_def)
qed

lemma pump_preserves:
  assumes "\<And>s j rest. P s \<Longrightarrow> length (sc_lanes s) < so_maxConcurrency opts \<Longrightarrow>
      take_free (sc_lanes s) (sc_queue s) = Some (j, rest) \<Longrightarrow> P (start_job j rest s)"
    and "P s"
  shows "P (pump opts s)"
  using assms(2)
proof (induction "length (sc_queue s)" arbitrary: s rule: less_induct)
  case less
  show ?case
  proof (cases "length (sc_lanes s) < so_maxConcurrency opts \<and> take_free (sc_lanes s) (sc_queue s) \<noteq> None")
    case True
    then obtain j rest where free: "take_free (sc_lanes s) (sc_queue s) = Some (j, rest)" by auto
    with True have eq: "pump opts s = pump opts (start_job j rest s)" by (subst pump.simps) simp
    have "P (start_job j rest s)" using assms(1) [OF less.prems _ free] True by simp
    moreover have "length (sc_queue (start_job j rest s)) < length (sc_queue s)"
      using take_free_length [OF free] by (simp add: start_job_def)
    ultimately show ?thesis unfolding eq using less.hyps by blast
  next
    case False
    then have "pump opts s = s" by (subst pump.simps) (auto split: option.split)
    with less.prems show ?thesis by simp
  qed
qed

lemma pump_ok: "scheduler_ok opts s \<Longrightarrow> scheduler_ok opts (pump opts s)"
  by (rule pump_preserves [where P = "scheduler_ok opts"]) (auto intro: start_job_ok)

lemma submit_ok: "scheduler_ok opts s \<Longrightarrow> scheduler_ok opts (snd (submit opts j s))"
  by (auto simp: scheduler_ok_def submit_def)

lemma freed_ok:
  assumes "scheduler_ok opts s" and "j \<in> set (sc_running s)"
  shows "scheduler_ok opts
    (s\<lparr>sc_lanes := removeAll (jb_deploymentId j) (sc_lanes s), sc_running := remove1 j (sc_running s)\<rparr>)"
proof -
  have d: "distinct (map jb_deploymentId (sc_running s))" using assms(1) by (auto simp: scheduler_ok_def)
  have "removeAll (jb_deploymentId j) (map jb_deploymentId xs) = map jb_deploymentId (remove1 j xs)"
    if "distinct (map jb_deploymentId xs)" "j \<in> set xs" for xs
    using that by (induction xs) (auto simp: removeAll_id image_iff)
  from this [OF d assms(2)]
  have eq: "removeAll (jb_deploymentId j) (map jb_deploymentId (sc_running s)) = map jb_deploymentId (remove1 j (sc_running s))" .
  have "distinct (map jb_deploymentId (remove1 j (sc_running s)))"
    unfolding eq [symmetric] using d by (rule distinct_removeAll)
  moreover have "length (remove1 j (sc_running s)) \<le> length (sc_running s)"
    by (metis eq length_map length_removeAll_less_eq)
  ultimately show ?thesis using assms(1) by (auto simp: scheduler_ok_def eq)
qed

lemma scheduler_run_ok: "scheduler_run opts s \<Longrightarrow> scheduler_ok opts s"
proof (induction rule: scheduler_run.induct)
  case start
  show ?case by (simp add: scheduler_ok_def new_scheduler_def)
next
  case (step s e)
  show ?case
  proof (cases e)
    case (Settle j)
    with step show ?thesis by (simp add: enabled_def settle_def Let_def freed_ok pump_ok)
  qed (use step in \<open>auto simp: submit_ok pump_ok, auto simp: scheduler_ok_def begin_shutdown_def\<close>)
qed

text \<open>
  C31. In every run at most one job per deployment is in flight, never more jobs than there are slots are
  in flight and never more than the limit are queued, no work is queued twice, and nothing is queued
  once the scheduler drains.
\<close>

theorem scheduler_safe:
  assumes "scheduler_run opts s"
  shows "distinct (map jb_deploymentId (sc_running s)) \<and> length (sc_running s) \<le> so_maxConcurrency opts
    \<and> length (sc_queue s) \<le> so_queueLimit opts \<and> distinct (map jobKey (sc_queue s))
    \<and> (sc_draining s \<longrightarrow> sc_queue s = [])"
proof -
  from scheduler_run_ok [OF assms] have "sc_lanes s = map jb_deploymentId (sc_running s)"
    and ok: "distinct (sc_lanes s)" "length (sc_lanes s) \<le> so_maxConcurrency opts"
      "length (sc_queue s) \<le> so_queueLimit opts" "distinct (map jobKey (sc_queue s))"
      "sc_draining s \<longrightarrow> sc_queue s = []"
    unfolding scheduler_ok_def by blast+
  then show ?thesis by (metis length_map)
qed

section \<open>No accepted job is lost\<close>

text \<open>Everything that is waiting or running, and what an event accepts, finishes or drops.\<close>

definition work_in :: "scheduler \<Rightarrow> job multiset" where
  "work_in s = mset (sc_queue s) + mset (sc_running s)"

fun accepted_by :: "scheduler_options \<Rightarrow> scheduler_event \<Rightarrow> scheduler \<Rightarrow> job multiset" where
  "accepted_by opts (Submit j) s = (if fst (submit opts j s) = Queued then {#j#} else {#})"
| "accepted_by opts e s = {#}"

fun ended_by :: "scheduler_event \<Rightarrow> scheduler \<Rightarrow> job multiset" where
  "ended_by (Settle j) s = {#j#}"
| "ended_by Shutdown s = mset (sc_queue s)"
| "ended_by e s = {#}"

lemma pump_work: "work_in (pump opts s) = work_in s"
proof (rule pump_preserves [where P = "\<lambda>t. work_in t = work_in s"])
  fix t j rest
  assume "work_in t = work_in s" "take_free (sc_lanes t) (sc_queue t) = Some (j, rest)"
  then show "work_in (start_job j rest t) = work_in s"
    by (auto simp: work_in_def start_job_def dest!: take_free_Some)
qed simp

text \<open>Work is conserved: an event adds exactly what it accepts and takes out exactly what it ends.\<close>

theorem scheduler_conserves_work:
  assumes "enabled e s"
  shows "work_in (scheduler_step opts e s) + ended_by e s = work_in s + accepted_by opts e s"
proof (cases e)
  case (Settle j)
  with assms have "j \<in> set (sc_running s)" by (simp add: enabled_def)
  then have "mset (remove1 j (sc_running s)) + {#j#} = mset (sc_running s)"
    by (simp add: mset_remove1 insert_DiffM2)
  with Settle show ?thesis by (simp add: settle_def Let_def pump_work) (simp add: work_in_def add.assoc)
next
  case (Submit j)
  then show ?thesis by (simp add: submit_def) (simp add: work_in_def)
next
  case Shutdown
  then show ?thesis by (simp add: work_in_def begin_shutdown_def)
qed (simp add: pump_work)

text \<open>
  A pump leaves no slot idle: afterwards the slots are full, or every job still queued belongs to a
  deployment that is being worked on.
\<close>

lemma pump_fills:
  "length (sc_lanes (pump opts s)) \<ge> so_maxConcurrency opts
   \<or> (\<forall>j \<in> set (sc_queue (pump opts s)). jb_deploymentId j \<in> set (sc_lanes (pump opts s)))"
proof (induction opts s rule: pump.induct)
  case (1 opts s)
  show ?case
  proof (cases "length (sc_lanes s) < so_maxConcurrency opts")
    case True
    show ?thesis
    proof (cases "take_free (sc_lanes s) (sc_queue s)")
      case None
      then have "pump opts s = s" by (subst pump.simps) simp
      with None show ?thesis by (simp add: take_free_None)
    next
      case (Some p)
      obtain j rest where p: "p = (j, rest)" by (cases p)
      have "pump opts s = pump opts (start_job j rest s)" using True Some p by (subst pump.simps) simp
      with "1" [OF True Some p [symmetric]] show ?thesis by simp
    qed
  next
    case False
    then have "pump opts s = s" by (subst pump.simps) simp
    with False show ?thesis by simp
  qed
qed

text \<open>
  While a job that was accepted still waits after the end of another, all slots are in use or its own
  deployment is being worked on: as every job ends (\<open>execute_job_reports\<close>), none waits for ever.
\<close>

theorem no_idle_slot:
  assumes "scheduler_run opts s" and "j \<in> set (sc_running s)" and "\<not> sc_draining s"
    and "k \<in> set (sc_queue (settle opts j s))"
  shows "length (sc_running (settle opts j s)) = so_maxConcurrency opts
    \<or> jb_deploymentId k \<in> set (map jb_deploymentId (sc_running (settle opts j s)))"
proof -
  have "scheduler_run opts (scheduler_step opts (Settle j) s)"
    by (rule scheduler_run.step [OF assms(1)]) (simp add: enabled_def assms(2))
  then have ok: "scheduler_ok opts (settle opts j s)" by (simp add: scheduler_run_ok)
  then have lanes: "sc_lanes (settle opts j s) = map jb_deploymentId (sc_running (settle opts j s))"
    "length (sc_lanes (settle opts j s)) \<le> so_maxConcurrency opts"
    unfolding scheduler_ok_def by blast+
  show ?thesis
    using pump_fills [of opts "s\<lparr>sc_lanes := removeAll (jb_deploymentId j) (sc_lanes s),
        sc_running := remove1 j (sc_running s)\<rparr>"] assms(3,4) lanes
    by (fastforce simp: settle_def Let_def)
qed

section \<open>The attempts of a job\<close>

lemma execute_from_reports:
  "attempt \<le> maxAttempts \<Longrightarrow> \<exists>r. execute_from w maxAttempts j attempt lastReason = Some r \<and> jo_job r = j
     \<and> attempt \<le> jo_attempts r \<and> jo_attempts r \<le> maxAttempts
     \<and> (jo_result r = Succeeded \<longleftrightarrow> at_run w (jo_attempts r) = RunReturned \<and> \<not> at_abortedBefore w (jo_attempts r))
     \<and> (jo_result r \<in> {TimedOut, Abandoned} \<longrightarrow> jo_attempts r = maxAttempts)
     \<and> jo_reason r \<in> {lastReason, None, Some ''job timeout'', Some ''job failed''}"
proof (induction w maxAttempts j attempt lastReason rule: execute_from.induct)
  case (1 w maxAttempts j attempt lastReason)
  show ?case
  proof (cases "at_abortedBefore w attempt")
    case True
    with "1.prems" show ?thesis by (subst execute_from.simps) auto
  next
    case False
    show ?thesis
    proof (cases "at_run w attempt")
      case RunReturned
      with False "1.prems" show ?thesis by (subst execute_from.simps) auto
    next
      case (RunThrew shutdown timeout)
      let ?reason = "Some (if timeout then ''job timeout'' else ''job failed'')"
      show ?thesis
      proof (cases "shutdown \<and> \<not> timeout \<or> attempt = maxAttempts \<or> \<not> at_sleepEnds w attempt")
        case True
        with False RunThrew "1.prems" show ?thesis by (subst execute_from.simps) (auto simp: Let_def)
      next
        case retry: False
        have eq: "execute_from w maxAttempts j attempt lastReason
            = execute_from w maxAttempts j (attempt + 1) ?reason"
          using False RunThrew "1.prems" retry by (subst execute_from.simps) (auto simp: Let_def)
        have "\<not> (maxAttempts < attempt)" "\<not> (shutdown \<and> \<not> timeout)" "attempt \<noteq> maxAttempts"
          "\<not> \<not> at_sleepEnds w attempt" "attempt + 1 \<le> maxAttempts"
          using "1.prems" retry by auto
        from "1.IH" [OF refl this(1) False RunThrew this(2) refl this(3) this(4) this(5)] show ?thesis
          unfolding eq by (fastforce split: if_splits)
      qed
    qed
  qed
qed

text \<open>
  With a budget of at least one attempt every job ends with one report, within the budget; it succeeded
  exactly when the last attempt ran and returned, it is given up only at the last attempt, and the
  reason is one of two fixed texts.
\<close>

theorem execute_job_reports:
  assumes "1 \<le> maxAttempts"
  shows "\<exists>r. execute_job w maxAttempts j = Some r \<and> jo_job r = j \<and> 1 \<le> jo_attempts r
     \<and> jo_attempts r \<le> maxAttempts
     \<and> (jo_result r = Succeeded \<longleftrightarrow> at_run w (jo_attempts r) = RunReturned \<and> \<not> at_abortedBefore w (jo_attempts r))
     \<and> (jo_result r \<in> {TimedOut, Abandoned} \<longrightarrow> jo_attempts r = maxAttempts)
     \<and> jo_reason r \<in> {None, Some ''job timeout'', Some ''job failed''}"
  using execute_from_reports [OF assms, of w j None] by (auto simp: execute_job_def)

text \<open>
  The check of \<open>submit\<close> against the lanes looks at the deployment alone: work of another kind for a
  deployment that is being worked on is turned away as a duplicate, although nothing like it is queued
  or running.
\<close>

lemma other_kind_is_duplicate:
  "scheduler_run opts s \<Longrightarrow> j \<in> set (sc_running s) \<Longrightarrow> \<not> sc_draining s \<Longrightarrow> jb_deploymentId k = jb_deploymentId j
   \<Longrightarrow> fst (submit opts k s) = Duplicate"
  by (drule scheduler_run_ok) (auto simp: submit_def scheduler_ok_def)

section \<open>Example\<close>

definition example_options :: scheduler_options where
  "example_options = \<lparr>so_maxConcurrency = 1, so_queueLimit = 2\<rparr>"

definition example_job :: "string \<Rightarrow> job" where
  "example_job d = \<lparr>jb_deploymentId = d, jb_kind = ''tick''\<rparr>"

definition busy_scheduler :: scheduler where
  "busy_scheduler = foldl (\<lambda>s e. scheduler_step example_options e s) new_scheduler
     [Submit (example_job ''a''), Submit (example_job ''b''), Submit (example_job ''c''), Pump]"

lemma busy_scheduler_run: "scheduler_run example_options busy_scheduler"
proof -
  have "scheduler_run example_options (foldl (\<lambda>s e. scheduler_step example_options e s) s es)"
    if "scheduler_run example_options s" "\<forall>e \<in> set es. \<forall>t. enabled e t" for s es
    using that
  proof (induction es arbitrary: s)
    case (Cons e es)
    have "scheduler_run example_options (scheduler_step example_options e s)"
      using Cons.prems by (intro scheduler_run.step) auto
    with Cons show ?case by simp
  qed simp
  moreover have "\<forall>e \<in> set [Submit (example_job ''a''), Submit (example_job ''b''), Submit (example_job ''c''), Pump].
      \<forall>t. enabled e t"
    by (simp add: enabled_def)
  ultimately show ?thesis unfolding busy_scheduler_def using scheduler_run.start by blast
qed

lemma busy_scheduler_eq:
  "busy_scheduler = \<lparr>sc_queue = [example_job ''b''], sc_lanes = [''a''], sc_queuedKeys = [''b tick''],
     sc_running = [example_job ''a''], sc_draining = False, sc_rejected = 1, sc_deduplicated = 0\<rparr>"
  by (simp add: busy_scheduler_def submit_def new_scheduler_def example_options_def example_job_def jobKey_def
      pump.simps start_job_def)

theorem scheduler_safe_witness:
  "distinct (map jb_deploymentId (sc_running busy_scheduler)) \<and> length (sc_running busy_scheduler) = 1
   \<and> length (sc_queue busy_scheduler) = 1"
  using scheduler_safe [OF busy_scheduler_run] by (simp add: busy_scheduler_eq)

theorem scheduler_conserves_work_witness:
  "work_in (scheduler_step example_options (Settle (example_job ''a'')) busy_scheduler) + {#example_job ''a''#}
     = {#example_job ''a'', example_job ''b''#}"
  using scheduler_conserves_work [of "Settle (example_job ''a'')" busy_scheduler example_options]
  by (simp add: enabled_def busy_scheduler_eq work_in_def)

theorem no_idle_slot_witness:
  "\<not> (\<exists>k \<in> set (sc_queue (settle \<lparr>so_maxConcurrency = 1, so_queueLimit = 2\<rparr> (example_job ''a'') busy_scheduler)).
        length (sc_running (settle example_options (example_job ''a'') busy_scheduler)) \<noteq> 1
        \<and> jb_deploymentId k \<noteq> ''b'')"
  using no_idle_slot [OF busy_scheduler_run, of "example_job ''a''"]
  by (auto simp: busy_scheduler_eq settle_def example_options_def pump.simps start_job_def example_job_def)

theorem execute_job_reports_witness:
  "\<exists>r. execute_job \<lparr>at_abortedBefore = (\<lambda>_. False), at_run = (\<lambda>_. RunThrew False True), at_sleepEnds = (\<lambda>_. True)\<rparr>
      2 (example_job ''a'') = Some r \<and> jo_attempts r \<le> 2 \<and> jo_result r \<noteq> Succeeded"
  using execute_job_reports [of 2 "\<lparr>at_abortedBefore = (\<lambda>_. False), at_run = (\<lambda>_. RunThrew False True),
      at_sleepEnds = (\<lambda>_. True)\<rparr>" "example_job ''a''"]
  by auto

end
