(* ===== verification/Manifest.thy ===== *)
theory Manifest
  imports Pattern Quorum
begin

text \<open>
  packages/config: the reviewed manifest and policy (schema/manifest.ts, schema/policy.ts), the names of
  secrets (secret-ref.ts), the rules between the fields of a manifest (load.ts) and what an approved baseline
  unlocks (baseline.ts). Records hold the fields that the programs read.
\<close>

section \<open>Errors (errors.ts)\<close>

datatype config_error_code =
  YAML_SYNTAX | YAML_UNRESOLVED_TAG | YAML_ALIAS_FORBIDDEN | YAML_MERGE_KEY_FORBIDDEN | YAML_TOO_LARGE | YAML_TOO_DEEP
| YAML_NOT_A_MAPPING | INLINE_SECRET | FORBIDDEN_FIELD | UNKNOWN_API_VERSION | UNSUPPORTED_API_VERSION | SCHEMA
| SECRET_REF_FORBIDDEN | SECRET_REF_NOT_ALLOWLISTED | SECRET_MISSING | FAKE_QUORUM | DUPLICATE_ENDPOINT
| BASELINE_NOT_APPROVED

record config_issue =
  is_code :: config_error_code
  is_path :: string
  is_message :: string

definition issue :: "config_error_code \<Rightarrow> string \<Rightarrow> string \<Rightarrow> config_issue" where
  "issue code path message = \<lparr>is_code = code, is_path = path, is_message = message\<rparr>"

definition issue_if :: "bool \<Rightarrow> config_issue \<Rightarrow> config_issue list" where
  "issue_if b i = (if b then [i] else [])"

lemma issue_if_Nil [simp]: "issue_if b i = [] \<longleftrightarrow> \<not> b"
  by (simp add: issue_if_def)

section \<open>Names of secrets (secret-ref.ts)\<close>

text \<open>\<open>/^[A-Z][A-Z0-9_]*$/\<close>.\<close>

definition IDENTIFIER :: "string \<Rightarrow> bool" where
  "IDENTIFIER s \<longleftrightarrow> s \<noteq> [] \<and> is_upper (hd s)
     \<and> list_all (\<lambda>c. is_upper c \<or> is_digit c \<or> c = CHR ''_'') (tl s)"

definition ALLOWED_SECRET_REF_PREFIXES :: "string list" where
  "ALLOWED_SECRET_REF_PREFIXES = [''ICTT_SENTINEL_'']"

definition FORBIDDEN_SECRET_NAMES :: "string list" where
  "FORBIDDEN_SECRET_NAMES = [''BRIDGE_PRIVATE_KEY'', ''MINTER_PRIVATE_KEY'', ''PAUSER_PRIVATE_KEY'',
     ''MULTISIG_SIGNER_KEY'', ''MNEMONIC'', ''SEED_PHRASE'']"

definition FORBIDDEN_FRAGMENTS :: "string list" where
  "FORBIDDEN_FRAGMENTS = [''PRIVATE_KEY'', ''PRIVATEKEY'', ''SIGNER_KEY'', ''SIGNING_KEY'', ''MNEMONIC'',
     ''SEED_PHRASE'', ''SEEDPHRASE'', ''KEYSTORE'', ''WALLET'']"

definition validateSecretRefName :: "string \<Rightarrow> string \<Rightarrow> config_issue list" where
  "validateSecretRefName name path =
     (if \<not> IDENTIFIER name
      then [issue SECRET_REF_NOT_ALLOWLISTED path ''a secretRef must be an UPPER_SNAKE_CASE identifier'']
      else if name \<in> set FORBIDDEN_SECRET_NAMES
      then [issue SECRET_REF_FORBIDDEN path (CHR 0x22 # name @ CHR 0x22 # '' is signing material and is never read'')]
      else case find (\<lambda>f. contains f name) FORBIDDEN_FRAGMENTS of
        Some f \<Rightarrow> [issue SECRET_REF_FORBIDDEN path
          (''a secretRef containing '' @ CHR 0x22 # f @ CHR 0x22 # '' is signing material'')]
      | None \<Rightarrow> issue_if (\<not> list_ex (\<lambda>p. starts p name) ALLOWED_SECRET_REF_PREFIXES)
          (issue SECRET_REF_NOT_ALLOWLISTED path
            (''a secretRef must start with one of: '' @ join '', '' ALLOWED_SECRET_REF_PREFIXES)))"

definition parseSecretRef :: "string \<Rightarrow> string \<Rightarrow> config_issue list + string" where
  "parseSecretRef name path =
     (if validateSecretRefName name path \<noteq> [] then Inl (validateSecretRefName name path) else Inr name)"

type_synonym env_source = "(string \<times> string option) list"

definition env_value :: "env_source \<Rightarrow> string \<Rightarrow> string option" where
  "env_value env name = Option.bind (map_of env name) (\<lambda>v. v)"

record secret_resolution =
  sr_resolved :: "(string \<times> string) list"
  sr_missing :: "string list"

definition resolve_step :: "env_source \<Rightarrow> secret_resolution \<Rightarrow> string \<Rightarrow> secret_resolution" where
  "resolve_step env r name =
     (case env_value env name of
        None \<Rightarrow> r\<lparr>sr_missing := sr_missing r @ [name]\<rparr>
      | Some raw \<Rightarrow>
          if raw = '''' then r\<lparr>sr_missing := sr_missing r @ [name]\<rparr>
          else r\<lparr>sr_resolved := AList.update name raw (sr_resolved r)\<rparr>)"

definition resolveSecrets :: "string list \<Rightarrow> env_source \<Rightarrow> secret_resolution" where
  "resolveSecrets refs env = foldl (resolve_step env) \<lparr>sr_resolved = [], sr_missing = []\<rparr> refs"

definition requireSecrets :: "string list \<Rightarrow> env_source \<Rightarrow> config_issue list + (string \<times> string) list" where
  "requireSecrets refs env =
     (let r = resolveSecrets refs env
      in if sr_missing r \<noteq> []
         then Inl (map (\<lambda>n. issue SECRET_MISSING n ''is referenced by the manifest but not set'') (sr_missing r))
         else Inr (sr_resolved r))"

definition signing_name :: "string \<Rightarrow> bool" where
  "signing_name name \<longleftrightarrow> name \<in> set FORBIDDEN_SECRET_NAMES \<or> list_ex (\<lambda>f. contains f name) FORBIDDEN_FRAGMENTS"

definition assertNoForbiddenSecrets :: "env_source \<Rightarrow> config_issue list + unit" where
  "assertNoForbiddenSecrets env =
     (let present = sort (filter (\<lambda>n. env_value env n \<noteq> None \<and> signing_name n) (map fst env))
      in if present \<noteq> []
         then Inl (map (\<lambda>n. issue SECRET_REF_FORBIDDEN n
           ''is defined in the environment; this product never handles signing material'') present)
         else Inr ())"

section \<open>The manifest and the policy (schema/manifest.ts, schema/policy.ts)\<close>

datatype finality_mode = AcceptedQuorum | SettledQuorum

datatype accepted_state_queries = AcceptedOnly | MayIncludeUnfinalized | QueriesUnknown

datatype endpoint_role = RolePrimary | RoleSecondary | RoleArchive

record endpoint =
  en_id :: string
  en_trustDomain :: string
  en_providerGroup :: string
  en_role :: endpoint_role
  en_secretRef :: string
  en_archiveDepth :: archive_depth

record manifest_chain =
  mc_blockchainId :: string
  mc_evmChainId :: int
  mc_networkId :: int
  mc_subnetId :: string
  mc_genesisHash :: "string option"
  mc_trustedCheckpoint :: "(string \<times> string) option"
  mc_finalityMode :: finality_mode
  mc_acceptedStateQueries :: accepted_state_queries
  mc_maxLagSeconds :: int
  mc_endpoints :: "endpoint list"
  mc_independentTrustDomains :: nat

text \<open>A side is the home or a remote: its name, its chain, the address and deployment block of its contract.\<close>

record manifest_side =
  md_name :: string
  md_chain :: manifest_chain
  md_address :: string
  md_deploymentBlock :: string

datatype asset_mode = CanonicalErc20 | NativeAsset

datatype census_claim = CensusComplete | CensusPartial | CensusUnknown

datatype field_policy = LOCKED | APPROVED_CHANGE | OBSERVE_ONLY

type_synonym field_policies = "(string \<times> field_policy) list"

record approval =
  apv_approvedBy :: string
  apv_approvedAt :: string
  apv_note :: "string option"

datatype baseline = Candidate field_policies | Approved approval string field_policies

record manifest =
  mf_apiVersion :: string
  mf_name :: string
  mf_assetMode :: asset_mode
  mf_homeDecimals :: nat
  mf_home :: manifest_side
  mf_remotes :: "manifest_side list"
  mf_censusFromBlock :: string
  mf_censusCompleteness :: census_claim
  mf_baseline :: baseline

record policy =
  po_apiVersion :: string
  po_name :: string
  po_maxAgeSeconds :: int
  po_expiresAfterSeconds :: int
  po_minIndependentTrustDomains :: nat
  po_maxRetries :: nat
  po_maxLogRangeBlocks :: int

text \<open>\<open>BigInt\<close> of a canonical decimal string, which is all the schema lets through.\<close>

definition big_int :: "string \<Rightarrow> int" where
  "big_int s = int (read_nat s)"

section \<open>Rules between fields (load.ts)\<close>

definition manifest_sides :: "manifest \<Rightarrow> manifest_side list" where
  "manifest_sides m = mf_home m # mf_remotes m"

definition index_path :: "string \<Rightarrow> nat \<Rightarrow> string" where
  "index_path path i = path @ CHR ''['' # show_nat i @ [CHR '']'']"

definition manifest_chains :: "manifest \<Rightarrow> (string \<times> manifest_chain) list" where
  "manifest_chains m =
     (''spec.home.chain'', md_chain (mf_home m))
     # map (\<lambda>(i, r). (index_path ''spec.remotes'' i @ ''.chain'', md_chain r)) (enumerate 0 (mf_remotes m))"

definition trust_domains :: "manifest_chain \<Rightarrow> string list" where
  "trust_domains chain = uniq (map en_trustDomain (mc_endpoints chain))"

definition quoted :: "string \<Rightarrow> string" where
  "quoted s = CHR 0x22 # s @ [CHR 0x22]"

fun endpoint_issues ::
  "string \<Rightarrow> nat \<Rightarrow> string set \<Rightarrow> string set \<Rightarrow> endpoint list \<Rightarrow> config_issue list" where
  "endpoint_issues path i ids refs [] = []"
| "endpoint_issues path i ids refs (ep # eps) =
     issue_if (en_id ep \<in> ids) (issue DUPLICATE_ENDPOINT (index_path (path @ ''.endpoints'') i)
       (''endpoint id '' @ quoted (en_id ep) @ '' is used more than once''))
     @ issue_if (en_secretRef ep \<in> refs) (issue DUPLICATE_ENDPOINT
         (index_path (path @ ''.endpoints'') i @ ''.secretRef'')
         (''secretRef '' @ quoted (en_secretRef ep) @ '' is used by more than one endpoint on this chain''))
     @ endpoint_issues path (Suc i) (insert (en_id ep) ids) (insert (en_secretRef ep) refs) eps"

definition unanchored :: "manifest_chain \<Rightarrow> bool" where
  "unanchored chain \<longleftrightarrow> mc_genesisHash chain = None \<and> mc_trustedCheckpoint chain = None"

definition unfinalized_queries :: "manifest_chain \<Rightarrow> bool" where
  "unfinalized_queries chain \<longleftrightarrow> mc_finalityMode chain = AcceptedQuorum \<and> mc_acceptedStateQueries chain \<noteq> AcceptedOnly"

definition chain_issues :: "string \<Rightarrow> manifest_chain \<Rightarrow> config_issue list" where
  "chain_issues path chain =
     issue_if (unanchored chain)
       (issue SCHEMA path ''requires either genesisHash or trustedCheckpoint to anchor chain identity'')
     @ endpoint_issues path 0 {} {} (mc_endpoints chain)
     @ issue_if (length (trust_domains chain) < mc_independentTrustDomains chain)
         (issue FAKE_QUORUM (path @ ''.endpoints'')
           (''declares a quorum of '' @ show_nat (mc_independentTrustDomains chain)
             @ '' independent trust domains but only '' @ show_nat (length (trust_domains chain))
             @ '' distinct trustDomain value(s) are configured''))
     @ issue_if (unfinalized_queries chain) (issue SCHEMA (path @ ''.finality.acceptedStateQueries'')
         ''accepted-quorum finality requires endpoints that answer from accepted state only'')"

fun duplicate_ids :: "(string \<times> string) list \<Rightarrow> (string \<times> manifest_chain) list \<Rightarrow> config_issue list" where
  "duplicate_ids seen [] = []"
| "duplicate_ids seen ((path, chain) # rest) =
     (case map_of seen (mc_blockchainId chain) of
        None \<Rightarrow> []
      | Some prior \<Rightarrow> [issue SCHEMA (path @ ''.blockchainId'') (''duplicates the blockchainId declared at '' @ prior)])
     @ duplicate_ids (AList.update (mc_blockchainId chain) path seen) rest"

definition checkManifestInvariants :: "manifest \<Rightarrow> config_issue list" where
  "checkManifestInvariants m =
     concat (map (\<lambda>(path, chain). chain_issues path chain) (manifest_chains m))
     @ issue_if (big_int (mf_censusFromBlock m) > big_int (md_deploymentBlock (mf_home m)))
         (issue SCHEMA ''spec.census.fromBlock''
           ''must not start after the TokenHome deployment block, or registrations would be missed'')
     @ concat (map (\<lambda>(path, chain). issue_if (mc_blockchainId chain = mc_subnetId chain)
         (issue SCHEMA (path @ ''.subnetId'') ''must not equal blockchainId; they identify different things''))
         (manifest_chains m))
     @ duplicate_ids [] (manifest_chains m)"

definition assertManifestMeetsPolicy :: "manifest \<Rightarrow> policy \<Rightarrow> config_issue list + unit" where
  "assertManifestMeetsPolicy m policy =
     (let required = po_minIndependentTrustDomains policy;
          issues = map (\<lambda>(path, chain). issue FAKE_QUORUM (path @ ''.endpoints'')
              (''policy requires '' @ show_nat required @ '' independent trust domains but only ''
               @ show_nat (length (trust_domains chain)) @ '' are configured''))
            (filter (\<lambda>(path, chain). length (trust_domains chain) < required) (manifest_chains m))
      in if issues \<noteq> [] then Inl issues else Inr ())"

definition collectSecretRefs :: "manifest \<Rightarrow> string list" where
  "collectSecretRefs m =
     uniq (concat (map (\<lambda>s. map en_secretRef (mc_endpoints (md_chain s))) (manifest_sides m)))"

section \<open>Baselines (baseline.ts)\<close>

definition isApproved :: "baseline \<Rightarrow> bool" where
  "isApproved b = (case b of Approved _ _ _ \<Rightarrow> True | Candidate _ \<Rightarrow> False)"

definition isCandidate :: "baseline \<Rightarrow> bool" where
  "isCandidate b = (case b of Candidate _ \<Rightarrow> True | Approved _ _ _ \<Rightarrow> False)"

definition approveCandidate :: "('d \<Rightarrow> string) \<Rightarrow> field_policies \<Rightarrow> 'd \<Rightarrow> approval \<Rightarrow> baseline" where
  "approveCandidate canonicalDigest fieldPolicies reviewedDocument a =
     Approved a (canonicalDigest reviewedDocument) fieldPolicies"

record capability =
  cap_enabled :: bool
  cap_blockedBy :: "string list"

definition labelled_chains :: "manifest \<Rightarrow> (string \<times> manifest_chain) list" where
  "labelled_chains m =
     (''home'', md_chain (mf_home m)) # map (\<lambda>r. (''remote:'' @ md_name r, md_chain r)) (mf_remotes m)"

definition text_if :: "bool \<Rightarrow> string \<Rightarrow> string list" where
  "text_if b s = (if b then [s] else [])"

definition chain_blocks :: "string \<times> manifest_chain \<Rightarrow> string list" where
  "chain_blocks lc = (case lc of (label, chain) \<Rightarrow>
     text_if (unanchored chain) (label @ '': chain identity is not anchored (no genesisHash or trustedCheckpoint)'')
     @ text_if (unfinalized_queries chain)
         (label @ '': endpoints are not asserted to answer from accepted state only'')
     @ text_if (length (trust_domains chain) < mc_independentTrustDomains chain)
         (label @ '': fewer independent trust domains than the declared quorum'')
     @ text_if (\<not> list_ex (\<lambda>e. en_archiveDepth e = ArchiveFull) (mc_endpoints chain))
         (label @ '': no endpoint declares full archive depth, so historical replay may gap''))"

definition exactReplayCapability :: "manifest \<Rightarrow> capability" where
  "exactReplayCapability m =
     (let blockedBy =
        text_if (isCandidate (mf_baseline m))
          ''baseline is a candidate discovery and has not been approved by an operator''
        @ concat (map chain_blocks (labelled_chains m))
        @ text_if (mf_censusCompleteness m \<noteq> CensusComplete)
            ''census completeness is not established from the TokenHome deployment block''
      in \<lparr>cap_enabled = (blockedBy = []), cap_blockedBy = blockedBy\<rparr>)"

definition requireExactReplay :: "manifest \<Rightarrow> config_issue list + unit" where
  "requireExactReplay m =
     (let cap = exactReplayCapability m
      in if \<not> cap_enabled cap then Inl (map (issue BASELINE_NOT_APPROVED ''spec'') (cap_blockedBy cap)) else Inr ())"

section \<open>Which names may be read\<close>

text \<open>
  A name is accepted as a reference exactly when it is an identifier under the one allowed prefix and is
  not the name of signing material.
\<close>

theorem parseSecretRef_iff:
  "parseSecretRef name path = Inr n \<longleftrightarrow>
     n = name \<and> IDENTIFIER name \<and> starts ''ICTT_SENTINEL_'' name \<and> \<not> signing_name name"
proof -
  have fragment: "list_ex (\<lambda>f. contains f name) FORBIDDEN_FRAGMENTS \<longleftrightarrow> find (\<lambda>f. contains f name) FORBIDDEN_FRAGMENTS \<noteq> None"
    by (auto simp: find_None_iff list_ex_iff)
  show ?thesis
    by (auto simp: parseSecretRef_def validateSecretRefName_def signing_name_def fragment ALLOWED_SECRET_REF_PREFIXES_def
        split: option.splits if_splits)
qed

lemma resolve_step_sel:
  "set (sr_missing (resolve_step env r m))
     = set (sr_missing r) \<union> (if env_value env m \<in> {None, Some ''''} then {m} else {})"
  "map_of (sr_resolved (resolve_step env r m)) n
     = (if n = m \<and> env_value env m \<notin> {None, Some ''''} then env_value env m else map_of (sr_resolved r) n)"
  by (auto simp: resolve_step_def update_conv' split: option.splits)

lemma resolve_fold:
  "set (sr_missing (foldl (resolve_step env) r refs))
     = set (sr_missing r) \<union> {n \<in> set refs. env_value env n \<in> {None, Some ''''}}"
  "map_of (sr_resolved (foldl (resolve_step env) r refs)) n
     = (if n \<in> set refs \<and> env_value env n \<notin> {None, Some ''''} then env_value env n else map_of (sr_resolved r) n)"
proof (induction refs arbitrary: r)
  case (Cons m refs)
  {
    case 1
    show ?case by (auto simp: Cons.IH(1) resolve_step_sel(1) split: if_splits)
  next
    case 2
    show ?case by (auto simp: Cons.IH(2) resolve_step_sel(2))
  }
qed auto

text \<open>
  Either every referenced variable is set and resolves to its own value, or the missing ones are named;
  nothing else is resolved and no default is substituted.
\<close>

theorem requireSecrets_spec:
  "case requireSecrets refs env of
     Inr resolved \<Rightarrow> \<forall>n. map_of resolved n = (if n \<in> set refs then env_value env n else None)
       \<and> (n \<in> set refs \<longrightarrow> env_value env n \<notin> {None, Some ''''})
   | Inl issues \<Rightarrow> issues \<noteq> [] \<and> is_path ` set issues = {n \<in> set refs. env_value env n \<in> {None, Some ''''}}"
proof -
  let ?r = "resolveSecrets refs env"
  have missing: "set (sr_missing ?r) = {n \<in> set refs. env_value env n \<in> {None, Some ''''}}"
    and resolved: "map_of (sr_resolved ?r) n
      = (if n \<in> set refs \<and> env_value env n \<notin> {None, Some ''''} then env_value env n else None)" for n
    by (simp_all add: resolveSecrets_def resolve_fold)
  show ?thesis
  proof (cases "sr_missing ?r = []")
    case True
    then have "\<forall>n \<in> set refs. env_value env n \<notin> {None, Some ''''}" using missing by auto
    with True resolved show ?thesis by (auto simp: requireSecrets_def Let_def)
  next
    case False
    then have "is_path ` set (map (\<lambda>n. issue SECRET_MISSING n ''is referenced by the manifest but not set'') (sr_missing ?r))
        = set (sr_missing ?r)"
      by (simp add: image_image issue_def)
    with False missing show ?thesis by (simp add: requireSecrets_def Let_def)
  qed
qed

section \<open>What a manifest that loads says\<close>

definition chain_sound :: "manifest_chain \<Rightarrow> bool" where
  "chain_sound chain \<longleftrightarrow>
     (mc_genesisHash chain \<noteq> None \<or> mc_trustedCheckpoint chain \<noteq> None)
     \<and> distinct (map en_id (mc_endpoints chain)) \<and> distinct (map en_secretRef (mc_endpoints chain))
     \<and> mc_independentTrustDomains chain \<le> card (en_trustDomain ` set (mc_endpoints chain))
     \<and> (mc_finalityMode chain = AcceptedQuorum \<longrightarrow> mc_acceptedStateQueries chain = AcceptedOnly)"

lemma trust_domains_card: "length (trust_domains chain) = card (en_trustDomain ` set (mc_endpoints chain))"
proof -
  have "distinct (trust_domains chain)" "set (trust_domains chain) = en_trustDomain ` set (mc_endpoints chain)"
    by (simp_all add: trust_domains_def)
  then show ?thesis using distinct_card by metis
qed

lemma endpoint_issues_Nil:
  "endpoint_issues path i ids refs eps = [] \<longleftrightarrow>
     distinct (map en_id eps) \<and> distinct (map en_secretRef eps)
     \<and> ids \<inter> en_id ` set eps = {} \<and> refs \<inter> en_secretRef ` set eps = {}"
  by (induction eps arbitrary: i ids refs) auto

lemma chain_issues_Nil: "chain_issues path chain = [] \<longleftrightarrow> chain_sound chain"
  by (auto simp: chain_issues_def chain_sound_def endpoint_issues_Nil unanchored_def unfinalized_queries_def
      trust_domains_card)

lemma duplicate_ids_Nil:
  "duplicate_ids seen cs = [] \<longleftrightarrow>
     distinct (map (\<lambda>c. mc_blockchainId (snd c)) cs)
     \<and> fst ` set seen \<inter> (\<lambda>c. mc_blockchainId (snd c)) ` set cs = {}"
proof (induction seen cs rule: duplicate_ids.induct)
  case (2 seen path chain rest)
  have "map_of seen (mc_blockchainId chain) = None \<longleftrightarrow> mc_blockchainId chain \<notin> fst ` set seen"
    by (rule map_of_eq_None_iff)
  with 2 show ?case by (auto simp: dom_update split: option.splits)
qed simp

lemma manifest_chains_sides: "map snd (manifest_chains m) = map md_chain (manifest_sides m)"
proof -
  have "map (snd \<circ> (\<lambda>(i, r). (f i, md_chain r))) (enumerate k rs) = map md_chain rs" for k f rs
    by (induction rs arbitrary: k) auto
  then show ?thesis by (simp add: manifest_chains_def manifest_sides_def comp_def)
qed

lemma chains_all: "(\<forall>(path, chain) \<in> set (manifest_chains m). P chain) \<longleftrightarrow> (\<forall>s \<in> set (manifest_sides m). P (md_chain s))"
proof -
  have "(\<forall>(path, chain) \<in> set (manifest_chains m). P chain) \<longleftrightarrow> (\<forall>chain \<in> set (map snd (manifest_chains m)). P chain)"
    by auto
  then show ?thesis unfolding manifest_chains_sides by simp
qed

text \<open>
  The rules between fields hold exactly when every chain is anchored, lists no endpoint or variable twice,
  declares no quorum its trust domains cannot supply, rests accepted-state claims on accepted state, has a
  subnet of its own, and no two sides are one chain, and when the census starts no later than the home.
\<close>

theorem checkManifestInvariants_iff:
  "checkManifestInvariants m = [] \<longleftrightarrow>
     (\<forall>s \<in> set (manifest_sides m). chain_sound (md_chain s)
        \<and> mc_blockchainId (md_chain s) \<noteq> mc_subnetId (md_chain s))
     \<and> distinct (map (\<lambda>s. mc_blockchainId (md_chain s)) (manifest_sides m))
     \<and> big_int (mf_censusFromBlock m) \<le> big_int (md_deploymentBlock (mf_home m))"
proof -
  have ids: "map (\<lambda>c. mc_blockchainId (snd c)) (manifest_chains m) = map (\<lambda>s. mc_blockchainId (md_chain s)) (manifest_sides m)"
    using arg_cong [OF manifest_chains_sides [of m], of "map mc_blockchainId"] by (simp add: comp_def)
  have "checkManifestInvariants m = [] \<longleftrightarrow>
      (\<forall>(path, chain) \<in> set (manifest_chains m). chain_sound chain)
      \<and> big_int (mf_censusFromBlock m) \<le> big_int (md_deploymentBlock (mf_home m))
      \<and> (\<forall>(path, chain) \<in> set (manifest_chains m). mc_blockchainId chain \<noteq> mc_subnetId chain)
      \<and> distinct (map (\<lambda>c. mc_blockchainId (snd c)) (manifest_chains m))"
    by (auto simp: checkManifestInvariants_def chain_issues_Nil duplicate_ids_Nil not_less)
  then show ?thesis unfolding chains_all ids by auto
qed

text \<open>The policy's floor of independent trust domains is met by every chain, or each that falls short is named.\<close>

lemma assertManifestMeetsPolicy_iff:
  "assertManifestMeetsPolicy m policy = Inr () \<longleftrightarrow>
     (\<forall>s \<in> set (manifest_sides m). po_minIndependentTrustDomains policy
        \<le> card (en_trustDomain ` set (mc_endpoints (md_chain s))))"
proof -
  have "assertManifestMeetsPolicy m policy = Inr () \<longleftrightarrow>
      (\<forall>(path, chain) \<in> set (manifest_chains m). po_minIndependentTrustDomains policy \<le> length (trust_domains chain))"
    by (auto simp: assertManifestMeetsPolicy_def Let_def filter_empty_conv not_less split_beta)
  then show ?thesis unfolding chains_all trust_domains_card .
qed

section \<open>Exact replay\<close>

lemma text_if_Nil [simp]: "text_if b s = [] \<longleftrightarrow> \<not> b"
  by (simp add: text_if_def)

definition has_archive :: "manifest_chain \<Rightarrow> bool" where
  "has_archive chain \<longleftrightarrow> (\<exists>e \<in> set (mc_endpoints chain). en_archiveDepth e = ArchiveFull)"

lemma chain_blocks_Nil:
  "chain_blocks (label, chain) = [] \<longleftrightarrow>
     \<not> unanchored chain \<and> \<not> unfinalized_queries chain
     \<and> mc_independentTrustDomains chain \<le> card (en_trustDomain ` set (mc_endpoints chain)) \<and> has_archive chain"
  by (auto simp: chain_blocks_def trust_domains_card has_archive_def list_ex_iff)

lemma labelled_sides: "snd ` set (labelled_chains m) = md_chain ` set (manifest_sides m)"
  by (auto simp: labelled_chains_def manifest_sides_def image_image)

text \<open>
  For a manifest that loads, exact replay is open exactly when an operator approved the baseline, every chain has an
  endpoint with the full archive, and the census is complete; any other manifest names what blocks it.
\<close>

theorem exactReplay_iff:
  assumes "checkManifestInvariants m = []"
  shows "(requireExactReplay m = Inr () \<longleftrightarrow>
      isApproved (mf_baseline m) \<and> (\<forall>s \<in> set (manifest_sides m). has_archive (md_chain s))
      \<and> mf_censusCompleteness m = CensusComplete)
    \<and> (case requireExactReplay m of Inl issues \<Rightarrow> issues \<noteq> [] | Inr _ \<Rightarrow> True)"
proof -
  have sound: "\<forall>s \<in> set (manifest_sides m). chain_sound (md_chain s)"
    using assms unfolding checkManifestInvariants_iff by blast
  have "concat (map chain_blocks (labelled_chains m)) = [] \<longleftrightarrow> (\<forall>c \<in> snd ` set (labelled_chains m).
      \<not> unanchored c \<and> \<not> unfinalized_queries c
      \<and> mc_independentTrustDomains c \<le> card (en_trustDomain ` set (mc_endpoints c)) \<and> has_archive c)"
    using chain_blocks_Nil by auto
  then have chains: "concat (map chain_blocks (labelled_chains m)) = [] \<longleftrightarrow> (\<forall>s \<in> set (manifest_sides m). has_archive (md_chain s))"
    unfolding labelled_sides using sound
    by (auto simp: chain_sound_def unanchored_def unfinalized_queries_def)
  have approved: "isCandidate b \<longleftrightarrow> \<not> isApproved b" for b by (cases b) (simp_all add: isCandidate_def isApproved_def)
  have "cap_enabled (exactReplayCapability m) \<longleftrightarrow> isApproved (mf_baseline m)
      \<and> (\<forall>s \<in> set (manifest_sides m). has_archive (md_chain s)) \<and> mf_censusCompleteness m = CensusComplete"
    by (simp only: exactReplayCapability_def Let_def capability.simps append_is_Nil_conv text_if_Nil chains approved
        not_not conj_assoc)
  moreover have "cap_enabled (exactReplayCapability m) \<longleftrightarrow> cap_blockedBy (exactReplayCapability m) = []"
    by (simp add: exactReplayCapability_def Let_def)
  ultimately show ?thesis by (simp add: requireExactReplay_def Let_def)
qed

section \<open>Example\<close>

definition example_endpoint :: "string \<Rightarrow> endpoint" where
  "example_endpoint d = \<lparr>en_id = d, en_trustDomain = d, en_providerGroup = d, en_role = RoleArchive,
     en_secretRef = ''ICTT_SENTINEL_'' @ d, en_archiveDepth = ArchiveFull\<rparr>"

definition example_side :: "string \<Rightarrow> manifest_side" where
  "example_side n = \<lparr>md_name = n, md_chain = \<lparr>mc_blockchainId = ''0x'' @ n, mc_evmChainId = 7, mc_networkId = 1,
       mc_subnetId = ''0xs'', mc_genesisHash = Some ''0xg'', mc_trustedCheckpoint = None, mc_finalityMode = AcceptedQuorum,
       mc_acceptedStateQueries = AcceptedOnly, mc_maxLagSeconds = 60,
       mc_endpoints = [example_endpoint ''A'', example_endpoint ''B''], mc_independentTrustDomains = 2\<rparr>,
     md_address = ''0xa'', md_deploymentBlock = ''9''\<rparr>"

definition example_manifest :: manifest where
  "example_manifest = \<lparr>mf_apiVersion = ''sentinel.ictt/v1alpha1'', mf_name = ''d'', mf_assetMode = CanonicalErc20,
     mf_homeDecimals = 18, mf_home = example_side ''h'', mf_remotes = [example_side ''r''], mf_censusFromBlock = ''9'',
     mf_censusCompleteness = CensusComplete,
     mf_baseline = Approved \<lparr>apv_approvedBy = ''o'', apv_approvedAt = ''t'', apv_note = None\<rparr> ''sha256:'' []\<rparr>"

lemma example_manifest_loads: "checkManifestInvariants example_manifest = []"
  by code_simp

theorem exactReplay_iff_witness: "requireExactReplay example_manifest = Inr () \<and> isApproved (mf_baseline example_manifest)"
proof -
  have "requireExactReplay example_manifest = Inr ()" by code_simp
  with exactReplay_iff [OF example_manifest_loads] show ?thesis by blast
qed

theorem requireSecrets_spec_witness:
  "requireSecrets [''A''] [(''A'', Some ''x''), (''B'', Some ''y'')] = Inr [(''A'', ''x'')]
   \<and> map_of [(''A'', ''x'')] ''A'' = env_value [(''A'', Some ''x''), (''B'', Some ''y'')] ''A''"
proof -
  have run: "requireSecrets [''A''] [(''A'', Some ''x''), (''B'', Some ''y'')] = Inr [(''A'', ''x'')]" by code_simp
  from requireSecrets_spec [of "[''A'']" "[(''A'', Some ''x''), (''B'', Some ''y'')]"]
  have "map_of [(''A'', ''x'')] ''A'' = env_value [(''A'', Some ''x''), (''B'', Some ''y'')] ''A''"
    unfolding run sum.case by (metis list.set_intros(1))
  with run show ?thesis by blast
qed

theorem checkManifestInvariants_iff_witness:
  "checkManifestInvariants example_manifest = []
   \<and> (\<forall>s \<in> set (manifest_sides example_manifest). chain_sound (md_chain s))"
  using checkManifestInvariants_iff [of example_manifest] example_manifest_loads by blast

end
