(* ===== verification/Reference.thy ===== *)
theory Reference
  imports Manifest Ledger
begin

text \<open>
  packages/storage-postgres: reference.ts, the rows a reviewed manifest stands for and their registration
  in the tables \<open>deployments\<close> and \<open>chains\<close> of migration 0001. One transaction: a thrown error leaves
  both tables as they were.
\<close>

section \<open>Rows\<close>

definition chainKeyOf :: "string \<Rightarrow> string \<Rightarrow> string" where
  "chainKeyOf deploymentId chainName = deploymentId @ ''/'' @ chainName"

fun finality_text :: "finality_mode \<Rightarrow> string" where
  "finality_text AcceptedQuorum = ''accepted-quorum''"
| "finality_text SettledQuorum = ''settled-quorum''"

record deployment_row =
  dr_deploymentId :: string
  dr_manifestHash :: string
  dr_assetMode :: asset_mode

record chain_row =
  ch_chainKey :: string
  ch_deploymentId :: string
  ch_blockchainId :: string
  ch_evmChainId :: int
  ch_finalityMode :: finality_mode

record reference_rows =
  rw_deployment :: deployment_row
  rw_chains :: "chain_row list"

record reference_tables =
  rt_deployments :: "deployment_row list"
  rt_chains :: "chain_row list"

datatype reference_error =
  BadManifestDigest
| ReferenceConflictError string
| ReferenceDbError db_error

text \<open>\<open>/^sha256:([0-9a-f]{64})$/\<close>.\<close>

definition manifest_hash :: "string \<Rightarrow> string option" where
  "manifest_hash d =
     (if take 7 d = ''sha256:'' \<and> length d = 71 \<and> list_all is_lower_hex (drop 7 d) then Some (drop 7 d) else None)"

definition chain_row_of :: "string \<Rightarrow> manifest_side \<Rightarrow> chain_row" where
  "chain_row_of deploymentId s =
     \<lparr>ch_chainKey = chainKeyOf deploymentId (md_name s), ch_deploymentId = deploymentId,
      ch_blockchainId = toLowerCase (mc_blockchainId (md_chain s)), ch_evmChainId = mc_evmChainId (md_chain s),
      ch_finalityMode = mc_finalityMode (md_chain s)\<rparr>"

definition referenceRowsFor :: "manifest \<Rightarrow> string \<Rightarrow> reference_error + reference_rows" where
  "referenceRowsFor m manifestDigest =
     (case manifest_hash manifestDigest of None \<Rightarrow> Inl BadManifestDigest
      | Some h \<Rightarrow> Inr \<lparr>rw_deployment = \<lparr>dr_deploymentId = mf_name m, dr_manifestHash = h, dr_assetMode = mf_assetMode m\<rparr>,
          rw_chains = map (chain_row_of (mf_name m)) (manifest_sides m)\<rparr>)"

section \<open>Registration\<close>

definition deployment_at :: "reference_tables \<Rightarrow> string \<Rightarrow> deployment_row option" where
  "deployment_at t i = find (\<lambda>r. dr_deploymentId r = i) (rt_deployments t)"

definition chain_at :: "reference_tables \<Rightarrow> string \<Rightarrow> chain_row option" where
  "chain_at t k = find (\<lambda>r. ch_chainKey r = k) (rt_chains t)"

text \<open>
  \<open>insert \<dots> on conflict do nothing\<close>: the columns and checks of the table first (\<open>evm_chain_id\<close> is a
  positive \<open>bigint\<close>), then any unique key it has.
\<close>

definition insert_deployment :: "deployment_row \<Rightarrow> reference_tables \<Rightarrow> db_error + nat \<times> reference_tables" where
  "insert_deployment d t =
     (if \<not> (length (dr_manifestHash d) = 64 \<and> list_all is_lower_hex (dr_manifestHash d)) then Inl CheckViolation
      else if deployment_at t (dr_deploymentId d) \<noteq> None then Inr (0, t)
      else Inr (1, t\<lparr>rt_deployments := rt_deployments t @ [d]\<rparr>))"

definition chain_taken :: "chain_row \<Rightarrow> chain_row \<Rightarrow> bool" where
  "chain_taken c r \<longleftrightarrow> ch_chainKey r = ch_chainKey c
     \<or> (ch_deploymentId r = ch_deploymentId c \<and> ch_blockchainId r = ch_blockchainId c)"

definition insert_chain :: "chain_row \<Rightarrow> reference_tables \<Rightarrow> db_error + nat \<times> reference_tables" where
  "insert_chain c t =
     (if \<not> hex_string 64 (ch_blockchainId c) \<or> ch_evmChainId c \<le> 0 \<or> \<not> int8 (ch_evmChainId c) then Inl CheckViolation
      else if list_ex (chain_taken c) (rt_chains t) then Inr (0, t)
      else if deployment_at t (ch_deploymentId c) = None then Inl ForeignKeyViolation
      else Inr (1, t\<lparr>rt_chains := rt_chains t @ [c]\<rparr>))"

definition register_chain :: "nat \<times> reference_tables \<Rightarrow> chain_row \<Rightarrow> reference_error + nat \<times> reference_tables" where
  "register_chain st c =
     (case insert_chain c (snd st) of Inl e \<Rightarrow> Inl (ReferenceDbError e)
      | Inr (made, t) \<Rightarrow>
          if chain_at t (ch_chainKey c) \<noteq> Some c
          then Inl (ReferenceConflictError (''chain '' @ ch_chainKey c
            @ '' is already registered with a different identity or finality''))
          else Inr (fst st + made, t))"

definition registration :: "reference_rows \<Rightarrow> reference_tables \<Rightarrow> reference_error + nat \<times> reference_tables" where
  "registration rows t =
     (let d = rw_deployment rows
      in case insert_deployment d t of Inl e \<Rightarrow> Inl (ReferenceDbError e)
         | Inr (created, t1) \<Rightarrow>
             if map_option (\<lambda>r. (dr_manifestHash r, dr_assetMode r)) (deployment_at t1 (dr_deploymentId d))
                  \<noteq> Some (dr_manifestHash d, dr_assetMode d)
             then Inl (ReferenceConflictError (''deployment '' @ dr_deploymentId d
               @ '' is already registered under a different manifest''))
             else fold_result register_chain (created, t1) (rw_chains rows))"

definition registerDeployment :: "reference_rows \<Rightarrow> reference_tables \<Rightarrow> reference_tables \<times> (reference_error + nat)" where
  "registerDeployment rows t =
     (case registration rows t of Inl e \<Rightarrow> (t, Inl e) | Inr (inserted, t') \<Rightarrow> (t', Inr inserted))"

section \<open>What registration leaves\<close>

definition kept :: "reference_tables \<Rightarrow> reference_tables \<Rightarrow> bool" where
  "kept t t' \<longleftrightarrow> (\<forall>k r. chain_at t k = Some r \<longrightarrow> chain_at t' k = Some r)
     \<and> (\<forall>i r. deployment_at t i = Some r \<longrightarrow> deployment_at t' i = Some r)"

lemma kept_refl [simp]: "kept t t" by (simp add: kept_def)

lemma kept_trans: "kept t u \<Longrightarrow> kept u v \<Longrightarrow> kept t v" by (simp add: kept_def)

lemma find_append: "find P (xs @ ys) = (case find P xs of Some x \<Rightarrow> Some x | None \<Rightarrow> find P ys)"
  by (induction xs) auto

lemma insert_deployment_kept: "insert_deployment d t = Inr (n, t') \<Longrightarrow> kept t t'"
  by (auto simp: insert_deployment_def kept_def chain_at_def deployment_at_def find_append split: if_splits option.splits)

lemma insert_chain_kept: "insert_chain c t = Inr (n, t') \<Longrightarrow> kept t t'"
  by (auto simp: insert_chain_def kept_def chain_at_def deployment_at_def find_append split: if_splits option.splits)

lemma register_chain_step:
  assumes "register_chain (n, t) c = Inr (n', t')"
  shows "kept t t' \<and> chain_at t' (ch_chainKey c) = Some c \<and> hex_string 64 (ch_blockchainId c) \<and> 0 < ch_evmChainId c
    \<and> int8 (ch_evmChainId c)"
proof -
  from assms obtain made where ins: "insert_chain c t = Inr (made, t')"
    and found: "chain_at t' (ch_chainKey c) = Some c"
    by (auto simp: register_chain_def split: sum.splits prod.splits if_splits)
  from ins have "hex_string 64 (ch_blockchainId c) \<and> 0 < ch_evmChainId c \<and> int8 (ch_evmChainId c)"
    by (auto simp: insert_chain_def split: if_splits)
  with insert_chain_kept [OF ins] found show ?thesis by simp
qed

lemma register_chains_steps:
  "fold_result register_chain (n, t) cs = Inr (n', t') \<Longrightarrow>
     kept t t' \<and> (\<forall>c \<in> set cs. chain_at t' (ch_chainKey c) = Some c \<and> hex_string 64 (ch_blockchainId c)
       \<and> 0 < ch_evmChainId c \<and> int8 (ch_evmChainId c))"
proof (induction cs arbitrary: n t)
  case (Cons c cs)
  from Cons.prems obtain m u where one: "register_chain (n, t) c = Inr (m, u)"
    and rest: "fold_result register_chain (m, u) cs = Inr (n', t')" by (auto split: sum.splits)
  from register_chain_step [OF one] Cons.IH [OF rest] show ?case
    using kept_trans by (auto simp: kept_def)
qed simp

definition recorded :: "reference_rows \<Rightarrow> reference_tables \<Rightarrow> bool" where
  "recorded rows t \<longleftrightarrow>
     map_option (\<lambda>r. (dr_manifestHash r, dr_assetMode r)) (deployment_at t (dr_deploymentId (rw_deployment rows)))
       = Some (dr_manifestHash (rw_deployment rows), dr_assetMode (rw_deployment rows))
     \<and> (\<forall>c \<in> set (rw_chains rows). chain_at t (ch_chainKey c) = Some c)"

lemma registration_recorded:
  assumes "registration rows t = Inr (n, t')"
  shows "kept t t' \<and> recorded rows t'
    \<and> length (dr_manifestHash (rw_deployment rows)) = 64 \<and> list_all is_lower_hex (dr_manifestHash (rw_deployment rows))
    \<and> (\<forall>c \<in> set (rw_chains rows). hex_string 64 (ch_blockchainId c) \<and> 0 < ch_evmChainId c
        \<and> int8 (ch_evmChainId c))"
proof -
  let ?d = "rw_deployment rows"
  from assms obtain created t1 where ins: "insert_deployment ?d t = Inr (created, t1)"
    and same: "map_option (\<lambda>r. (dr_manifestHash r, dr_assetMode r)) (deployment_at t1 (dr_deploymentId ?d))
      = Some (dr_manifestHash ?d, dr_assetMode ?d)"
    and chains: "fold_result register_chain (created, t1) (rw_chains rows) = Inr (n, t')"
    by (auto simp: registration_def Let_def split: sum.splits prod.splits if_splits)
  from ins have "length (dr_manifestHash ?d) = 64 \<and> list_all is_lower_hex (dr_manifestHash ?d)"
    by (auto simp: insert_deployment_def split: if_splits)
  with insert_deployment_kept [OF ins] register_chains_steps [OF chains] same show ?thesis
    using kept_trans unfolding recorded_def by (auto simp: kept_def)
qed

lemma register_again:
  assumes "\<forall>c \<in> set cs. chain_at t (ch_chainKey c) = Some c \<and> hex_string 64 (ch_blockchainId c)
    \<and> 0 < ch_evmChainId c \<and> int8 (ch_evmChainId c)"
  shows "fold_result register_chain (0, t) cs = Inr (0, t)"
  using assms
proof (induction cs)
  case (Cons c cs)
  then have found: "chain_at t (ch_chainKey c) = Some c" by simp
  then have "list_ex (chain_taken c) (rt_chains t)"
    by (auto simp: chain_at_def find_Some_iff chain_taken_def list_ex_iff)
  with Cons found show ?case by (simp add: register_chain_def insert_chain_def not_le)
qed simp

text \<open>
  C16. Registration is all or nothing and never rewrites a row. When it succeeds, every row that was there is
  unchanged, every row of the manifest is recorded exactly as asked, and doing it again changes nothing. When it
  fails nothing is written; in particular a deployment recorded under another manifest is always refused.
\<close>

theorem registerDeployment_spec:
  "case registerDeployment rows t of
     (t', Inr n) \<Rightarrow> kept t t' \<and> recorded rows t' \<and> registerDeployment rows t' = (t', Inr 0)
   | (t', Inl e) \<Rightarrow> t' = t"
proof (cases "registration rows t")
  case (Inl e)
  then show ?thesis by (simp add: registerDeployment_def)
next
  case (Inr r)
  obtain n t' where r: "r = (n, t')" by (cases r)
  note reg = Inr [unfolded r]
  note rec = registration_recorded [OF reg]
  then have "registration rows t' = Inr (0, t')"
    using register_again [of "rw_chains rows" t']
    by (auto simp: registration_def insert_deployment_def recorded_def Let_def)
  with rec reg show ?thesis by (simp add: registerDeployment_def)
qed

text \<open>Two sides of one name share a chain key, so only a manifest that gives them one chain can be registered.\<close>

lemma same_name_same_chain:
  assumes "referenceRowsFor m digest = Inr rows" and "registration rows t = Inr (n, t')"
    and "s1 \<in> set (manifest_sides m)" and "s2 \<in> set (manifest_sides m)" and "md_name s1 = md_name s2"
  shows "toLowerCase (mc_blockchainId (md_chain s1)) = toLowerCase (mc_blockchainId (md_chain s2))"
proof -
  have rows: "rw_chains rows = map (chain_row_of (mf_name m)) (manifest_sides m)"
    using assms(1) by (auto simp: referenceRowsFor_def split: option.splits)
  have "chain_at t' (ch_chainKey (chain_row_of (mf_name m) s)) = Some (chain_row_of (mf_name m) s)"
    if "s \<in> set (manifest_sides m)" for s
    using registration_recorded [OF assms(2)] that unfolding recorded_def rows by auto
  from this [OF assms(3)] this [OF assms(4)] assms(5) show ?thesis by (simp add: chain_row_of_def)
qed

lemma twins_load_but_never_register:
  fixes m defines "m \<equiv> example_manifest\<lparr>mf_remotes :=
      [example_side ''r'' \<lparr>md_name := ''h''\<rparr>]\<rparr>"
  shows "checkManifestInvariants m = []"
    and "referenceRowsFor m digest = Inr rows \<Longrightarrow> registration rows t \<noteq> Inr (n, t')"
proof -
  show "checkManifestInvariants m = []" unfolding m_def by code_simp
  have twins: "mf_home m \<in> set (manifest_sides m)" "hd (mf_remotes m) \<in> set (manifest_sides m)"
    "md_name (mf_home m) = md_name (hd (mf_remotes m))"
    "toLowerCase (mc_blockchainId (md_chain (mf_home m))) \<noteq> toLowerCase (mc_blockchainId (md_chain (hd (mf_remotes m))))"
    unfolding m_def by code_simp+
  then show "referenceRowsFor m digest = Inr rows \<Longrightarrow> registration rows t \<noteq> Inr (n, t')"
    using same_name_same_chain by blast
qed

end
