(* ===== verification/Projection.thy ===== *)
theory Projection
  imports Derive Reference
begin

text \<open>
  From adapter observations to the message lifecycle and into the database: the observations of
  packages/ictt-adapters (observations.ts), their projection to transition inputs (message-projection.ts
  of packages/replay) and the table of transitions (transition-store.ts of storage-postgres with the
  constraints of migrations 0001 and 0005). The lemmas show that both sides of a route name a message
  alike, that only an execution carries an effect, and what the table promises over any history.
\<close>

section \<open>Observations\<close>

record observation_source =
  os_blockchainId :: string
  os_contractAddress :: string
  os_blockNumber :: int
  os_blockHash :: string
  os_txHash :: string
  os_txIndex :: int
  os_logIndex :: int
  os_adapterId :: string
  os_adapterVersion :: int

text \<open>The ICTT observations reach the projection by their kind alone.\<close>

datatype ictt_kind = RemoteRegisteredKind | CollateralAddedKind | TransferredBalanceKind
  | RemoteSettingsKind | NativeReportedSupplyKind | RemoteCollateralizedKind

fun ictt_kind_text :: "ictt_kind \<Rightarrow> string" where
  "ictt_kind_text RemoteRegisteredKind = ''ictt.remote-registered''"
| "ictt_kind_text CollateralAddedKind = ''ictt.collateral-added''"
| "ictt_kind_text TransferredBalanceKind = ''ictt.transferred-balance''"
| "ictt_kind_text RemoteSettingsKind = ''ictt.remote-settings''"
| "ictt_kind_text NativeReportedSupplyKind = ''ictt.native-reported-supply''"
| "ictt_kind_text RemoteCollateralizedKind = ''ictt.remote-collateralized''"

datatype teleporter_observation =
  MessageSent observation_source string string string
| MessageReceived observation_source string string string
| ObservedExecuted observation_source string string
| ObservedExecutionFailed observation_source string string
| ObservedReceipt observation_source string string string

datatype observation = TeleporterObservation teleporter_observation | IcttObservation ictt_kind

fun teleporter_source :: "teleporter_observation \<Rightarrow> observation_source" where
  "teleporter_source (MessageSent s messageId chain address) = s"
| "teleporter_source (MessageReceived s messageId chain deliverer) = s"
| "teleporter_source (ObservedExecuted s messageId chain) = s"
| "teleporter_source (ObservedExecutionFailed s messageId chain) = s"
| "teleporter_source (ObservedReceipt s messageId chain relayer) = s"

fun teleporter_message :: "teleporter_observation \<Rightarrow> string" where
  "teleporter_message (MessageSent s messageId chain address) = messageId"
| "teleporter_message (MessageReceived s messageId chain deliverer) = messageId"
| "teleporter_message (ObservedExecuted s messageId chain) = messageId"
| "teleporter_message (ObservedExecutionFailed s messageId chain) = messageId"
| "teleporter_message (ObservedReceipt s messageId chain relayer) = messageId"

definition impliesSuccessfulExecution :: "observation \<Rightarrow> bool" where
  "impliesSuccessfulExecution o1 =
     (case o1 of TeleporterObservation (ObservedExecuted s messageId chain) \<Rightarrow> True | _ \<Rightarrow> False)"

datatype transfer_shape = SingleHop | MultiHop | RemoteToRemote | SendAndCall

definition transferShapeSupported :: "transfer_shape \<Rightarrow> bool" where
  "transferShapeSupported shape \<longleftrightarrow> shape = SingleHop"

section \<open>Projection\<close>

record route_context =
  rx_evmChainIdOf :: "string \<Rightarrow> int"
  rx_messengerAddressOf :: "string \<Rightarrow> string"
  rx_registryProtocolVersionOf :: "string \<Rightarrow> string \<Rightarrow> int"

fun TELEPORTER_KINDS :: "teleporter_observation \<Rightarrow> transition_kind" where
  "TELEPORTER_KINDS (MessageSent s messageId chain address) = IcmSent"
| "TELEPORTER_KINDS (MessageReceived s messageId chain deliverer) = Delivered"
| "TELEPORTER_KINDS (ObservedExecuted s messageId chain) = ExecutionSucceeded"
| "TELEPORTER_KINDS (ObservedExecutionFailed s messageId chain) = ExecutionFailed"
| "TELEPORTER_KINDS (ObservedReceipt s messageId chain relayer) = ReceiptObserved"

text \<open>The source and the destination chain of the message, whichever of them saw the event.\<close>

fun message_ends :: "teleporter_observation \<Rightarrow> string \<times> string" where
  "message_ends (MessageSent s messageId chain address) = (os_blockchainId s, chain)"
| "message_ends (ObservedReceipt s messageId chain relayer) = (os_blockchainId s, chain)"
| "message_ends (MessageReceived s messageId chain deliverer) = (chain, os_blockchainId s)"
| "message_ends (ObservedExecuted s messageId chain) = (chain, os_blockchainId s)"
| "message_ends (ObservedExecutionFailed s messageId chain) = (chain, os_blockchainId s)"

definition keyFor :: "string \<Rightarrow> string \<Rightarrow> string \<Rightarrow> route_context \<Rightarrow> message_key" where
  "keyFor sourceChain destinationChain messageId ctx =
     (let messengerAddress = rx_messengerAddressOf ctx sourceChain
      in \<lparr>mk_sourceBlockchainId = sourceChain, mk_destinationBlockchainId = destinationChain,
          mk_teleporterMessengerAddress = messengerAddress,
          mk_registryProtocolVersion = rx_registryProtocolVersionOf ctx sourceChain messengerAddress,
          mk_messageId = messageId\<rparr>)"

definition projectTeleporter :: "teleporter_observation \<Rightarrow> route_context \<Rightarrow> transition_input" where
  "projectTeleporter ob ctx =
     (let kind = TELEPORTER_KINDS ob; s = teleporter_source ob;
          (sourceChain, destinationChain) = message_ends ob
      in \<lparr>ti_kind = kind, ti_message = keyFor sourceChain destinationChain (teleporter_message ob) ctx,
          ti_fact = \<lparr>rf_evmChainId = rx_evmChainIdOf ctx (os_blockchainId s), rf_blockHash = os_blockHash s,
                     rf_txHash = os_txHash s, rf_logIndex = os_logIndex s\<rparr>,
          ti_position = \<lparr>fp_blockchainId = os_blockchainId s, fp_blockNumber = os_blockNumber s,
                         fp_blockHash = os_blockHash s\<rparr>,
          ti_envelopeId = None, ti_carriesEconomicEffect = Some (kind = ExecutionSucceeded),
          ti_unsupportedReason = None, ti_observedAt = None,
          ti_adapterId = os_adapterId s, ti_adapterVersion = os_adapterVersion s\<rparr>)"

record accounting_args =
  aa_sourceBlockchainId :: string
  aa_destinationBlockchainId :: string
  aa_messageId :: string
  aa_blockNumber :: int
  aa_blockHash :: string
  aa_txHash :: string
  aa_logIndex :: int
  aa_adapterId :: string
  aa_adapterVersion :: int

definition accounted_input :: "transition_kind \<Rightarrow> bool \<Rightarrow> string option \<Rightarrow> accounting_args \<Rightarrow> route_context \<Rightarrow> transition_input" where
  "accounted_input kind carries reason a ctx =
     \<lparr>ti_kind = kind,
      ti_message = keyFor (aa_sourceBlockchainId a) (aa_destinationBlockchainId a) (aa_messageId a) ctx,
      ti_fact = \<lparr>rf_evmChainId = rx_evmChainIdOf ctx (aa_sourceBlockchainId a), rf_blockHash = aa_blockHash a,
                 rf_txHash = aa_txHash a, rf_logIndex = aa_logIndex a\<rparr>,
      ti_position = \<lparr>fp_blockchainId = aa_sourceBlockchainId a, fp_blockNumber = aa_blockNumber a,
                     fp_blockHash = aa_blockHash a\<rparr>,
      ti_envelopeId = None, ti_carriesEconomicEffect = Some carries, ti_unsupportedReason = reason,
      ti_observedAt = None, ti_adapterId = aa_adapterId a, ti_adapterVersion = aa_adapterVersion a\<rparr>"

definition projectSourceAccounting :: "accounting_args \<Rightarrow> bool \<Rightarrow> route_context \<Rightarrow> transition_input" where
  "projectSourceAccounting a carries ctx = accounted_input SourceAccounted carries None a ctx"

definition projectUnsupportedShape :: "accounting_args \<Rightarrow> string \<Rightarrow> route_context \<Rightarrow> transition_input" where
  "projectUnsupportedShape a shape ctx = accounted_input Unsupported False (Some shape) a ctx"

definition skip_reason :: "ictt_kind \<Rightarrow> string" where
  "skip_reason k = ''not a message lifecycle observation: '' @ ictt_kind_text k"

fun project_step ::
  "route_context \<Rightarrow> transition_input list \<times> (string \<times> observation) list \<Rightarrow> observation
   \<Rightarrow> transition_input list \<times> (string \<times> observation) list" where
  "project_step ctx (inputs, skipped) (TeleporterObservation t) = (inputs @ [projectTeleporter t ctx], skipped)"
| "project_step ctx (inputs, skipped) (IcttObservation k) =
     (inputs, skipped @ [(skip_reason k, IcttObservation k)])"

definition projectObservations ::
  "observation list \<Rightarrow> route_context \<Rightarrow> transition_input list \<times> (string \<times> observation) list" where
  "projectObservations obs ctx = foldl (project_step ctx) ([], []) obs"

lemma projectObservations_eq:
  "projectObservations obs ctx =
     (List.map_filter (\<lambda>x. case x of TeleporterObservation t \<Rightarrow> Some (projectTeleporter t ctx) | _ \<Rightarrow> None) obs,
      List.map_filter (\<lambda>x. case x of IcttObservation k \<Rightarrow> Some (skip_reason k, x) | _ \<Rightarrow> None) obs)"
proof -
  have "foldl (project_step ctx) (a, b) obs =
     (a @ List.map_filter (\<lambda>x. case x of TeleporterObservation t \<Rightarrow> Some (projectTeleporter t ctx) | _ \<Rightarrow> None) obs,
      b @ List.map_filter (\<lambda>x. case x of IcttObservation k \<Rightarrow> Some (skip_reason k, x) | _ \<Rightarrow> None) obs)" for a b
    by (induction obs arbitrary: a b) (auto simp: List.map_filter_def split: observation.splits)
  then show ?thesis by (simp add: projectObservations_def)
qed

text \<open>
  Every observation is either projected or reported as skipped; the inputs name the same message on
  both sides of a route; exactly an execution event asserts an execution and carries the effect.
\<close>

lemma message_key_of_projection:
  "ti_message (projectTeleporter ob ctx) = keyFor (fst (message_ends ob)) (snd (message_ends ob)) (teleporter_message ob) ctx"
  by (simp add: projectTeleporter_def Let_def split: prod.split)

lemma projection_carries:
  "ti_carriesEconomicEffect (projectTeleporter ob ctx) = Some (impliesSuccessfulExecution (TeleporterObservation ob))"
  "assertsExecution (ti_kind (projectTeleporter ob ctx)) = impliesSuccessfulExecution (TeleporterObservation ob)"
  by (cases ob; simp add: projectTeleporter_def impliesSuccessfulExecution_def assertsExecution_def)+

theorem projectObservations_spec:
  "length (fst (projectObservations obs ctx)) + length (snd (projectObservations obs ctx)) = length obs
   \<and> (\<forall>i \<in> set (fst (projectObservations obs ctx)). \<exists>ob. TeleporterObservation ob \<in> set obs
        \<and> ti_message i = keyFor (fst (message_ends ob)) (snd (message_ends ob)) (teleporter_message ob) ctx
        \<and> (ti_carriesEconomicEffect i = Some True \<longleftrightarrow> impliesSuccessfulExecution (TeleporterObservation ob))
        \<and> (assertsExecution (ti_kind i) \<longleftrightarrow> impliesSuccessfulExecution (TeleporterObservation ob)))"
proof
  show "length (fst (projectObservations obs ctx)) + length (snd (projectObservations obs ctx)) = length obs"
    unfolding projectObservations_eq
    by (induction obs) (auto simp: List.map_filter_def split: observation.splits)
  show "\<forall>i \<in> set (fst (projectObservations obs ctx)). \<exists>ob. TeleporterObservation ob \<in> set obs
        \<and> ti_message i = keyFor (fst (message_ends ob)) (snd (message_ends ob)) (teleporter_message ob) ctx
        \<and> (ti_carriesEconomicEffect i = Some True \<longleftrightarrow> impliesSuccessfulExecution (TeleporterObservation ob))
        \<and> (assertsExecution (ti_kind i) \<longleftrightarrow> impliesSuccessfulExecution (TeleporterObservation ob))"
  proof
    fix i assume "i \<in> set (fst (projectObservations obs ctx))"
    then obtain ob where "TeleporterObservation ob \<in> set obs" "i = projectTeleporter ob ctx"
      unfolding projectObservations_eq fst_conv List.map_filter_def set_map set_filter comp_def
      by (clarsimp split: observation.splits)
    then show "\<exists>ob. TeleporterObservation ob \<in> set obs
        \<and> ti_message i = keyFor (fst (message_ends ob)) (snd (message_ends ob)) (teleporter_message ob) ctx
        \<and> (ti_carriesEconomicEffect i = Some True \<longleftrightarrow> impliesSuccessfulExecution (TeleporterObservation ob))
        \<and> (assertsExecution (ti_kind i) \<longleftrightarrow> impliesSuccessfulExecution (TeleporterObservation ob))"
      using message_key_of_projection projection_carries by (intro exI [of _ ob]) simp
  qed
qed

section \<open>The table of transitions\<close>

record transition_row =
  tw_transitionId :: string
  tw_deploymentId :: string
  tw_sourceBlockchainId :: string
  tw_destinationBlockchainId :: string
  tw_messengerAddress :: string
  tw_registryProtocolVersion :: int
  tw_messageId :: string
  tw_transitionKind :: string
  tw_chainKey :: string
  tw_blockHash :: string
  tw_txHash :: string
  tw_logIndex :: int
  tw_observedAt :: int
  tw_envelopeId :: "string option"
  tw_carriesEconomicEffect :: bool

type_synonym route_tuple = "string \<times> string \<times> string \<times> int \<times> string"

definition row_route :: "transition_row \<Rightarrow> route_tuple" where
  "row_route r = (tw_sourceBlockchainId r, tw_destinationBlockchainId r, tw_messengerAddress r,
     tw_registryProtocolVersion r, tw_messageId r)"

text \<open>\<open>message_transitions_identity_uq\<close> of migration 0005.\<close>

definition row_identity :: "transition_row \<Rightarrow> route_tuple \<times> string \<times> string \<times> string \<times> string \<times> int" where
  "row_identity r = (row_route r, tw_transitionKind r, tw_chainKey r, tw_blockHash r, tw_txHash r, tw_logIndex r)"

definition TRANSITION_KINDS :: "string list" where
  "TRANSITION_KINDS =
     [''source-application-emitted'', ''intent-observed'', ''source-accounted'', ''icm-sent'', ''send-retry'',
      ''envelope-resigned'', ''delivered'', ''execution-succeeded'', ''execution-failed'',
      ''execution-retried'', ''receipt-observed'', ''unreceivable-by-version-policy'', ''paused-version'',
      ''orphaned'', ''unsupported'']"

text \<open>A value of an \<open>integer\<close> column.\<close>

definition int4 :: "int \<Rightarrow> bool" where
  "int4 n \<longleftrightarrow> - (2 ^ 31) \<le> n \<and> n < 2 ^ 31"

definition row_checks :: "transition_row \<Rightarrow> bool" where
  "row_checks r \<longleftrightarrow> tw_transitionKind r \<in> set TRANSITION_KINDS \<and> hex_string 40 (tw_messengerAddress r)
     \<and> tw_registryProtocolVersion r \<ge> 1 \<and> int4 (tw_registryProtocolVersion r) \<and> int4 (tw_logIndex r)"

datatype transition_error = DuplicateEconomicEffectError string | TransitionDbError db_error

datatype transition_violation = EffectConflict | OtherViolation db_error

text \<open>
  One insert: the columns and their checks, then a row of the same identity is absorbed, then the primary
  key and the partial unique index decide, and last the references to the deployment and to the raw log.
\<close>

definition insert_transition ::
  "reference_tables \<Rightarrow> ledger \<Rightarrow> transition_row list \<times> nat \<Rightarrow> transition_row
   \<Rightarrow> transition_violation + transition_row list \<times> nat" where
  "insert_transition refs ld st r =
     (let (rows, written) = st
      in if \<not> row_checks r then Inl (OtherViolation CheckViolation)
         else if row_identity r \<in> row_identity ` set rows then Inr (rows, written)
         else if tw_transitionId r \<in> tw_transitionId ` set rows then Inl (OtherViolation UniqueViolation)
         else if tw_carriesEconomicEffect r
             \<and> (\<exists>q \<in> set rows. tw_carriesEconomicEffect q \<and> row_route q = row_route r)
         then Inl EffectConflict
         else if deployment_at refs (tw_deploymentId r) = None then Inl (OtherViolation ForeignKeyViolation)
         else if \<not> has_key (chain_logs ld) (tw_chainKey r, tw_blockHash r, tw_txHash r, tw_logIndex r)
         then Inl (OtherViolation ForeignKeyViolation)
         else Inr (rows @ [r], written + 1))"

definition writeTransitionBatch ::
  "reference_tables \<Rightarrow> ledger \<Rightarrow> transition_row list \<Rightarrow> transition_row list \<Rightarrow> transition_error + transition_row list \<times> nat" where
  "writeTransitionBatch refs ld rows batch =
     (if batch = [] then Inr (rows, 0)
      else case fold_result (insert_transition refs ld) (rows, 0) batch of
        Inl EffectConflict \<Rightarrow> Inl (DuplicateEconomicEffectError (tw_messageId (hd batch)))
      | Inl (OtherViolation e) \<Rightarrow> Inl (TransitionDbError e)
      | Inr r \<Rightarrow> Inr r)"

definition readTransitions :: "transition_row list \<Rightarrow> route_tuple \<Rightarrow> (string \<times> bool) list" where
  "readTransitions rows route =
     map (\<lambda>r. (tw_transitionKind r, tw_carriesEconomicEffect r))
       (sort_key tw_transitionKind (filter (\<lambda>r. row_route r = route) rows))"

definition countEconomicEffects :: "transition_row list \<Rightarrow> string \<Rightarrow> nat" where
  "countEconomicEffects rows messageId =
     length (filter (\<lambda>r. tw_messageId r = messageId \<and> tw_carriesEconomicEffect r) rows)"

text \<open>The table after any history of batches; a failed batch leaves it as it was.\<close>

definition write_or_keep :: "reference_tables \<Rightarrow> ledger \<Rightarrow> transition_row list \<Rightarrow> transition_row list \<Rightarrow> transition_row list" where
  "write_or_keep refs ld rows batch =
     (case writeTransitionBatch refs ld rows batch of Inl _ \<Rightarrow> rows | Inr (rows', n) \<Rightarrow> rows')"

inductive transition_history :: "transition_row list \<Rightarrow> bool" where
  empty: "transition_history []"
| batch: "transition_history rows \<Longrightarrow> transition_history (write_or_keep refs ld rows batch)"

definition transitions_ok :: "transition_row list \<Rightarrow> bool" where
  "transitions_ok rows \<longleftrightarrow> distinct (map row_identity rows) \<and> distinct (map tw_transitionId rows)
     \<and> distinct (map row_route (filter tw_carriesEconomicEffect rows)) \<and> list_all row_checks rows"

lemma insert_transition_ok:
  assumes "insert_transition refs ld (rows, n) r = Inr (rows', n')" and "transitions_ok rows"
  shows "transitions_ok rows'" and "set rows \<subseteq> set rows'" and "int n' - int n = int (length rows') - int (length rows)"
  using assms by (auto simp: insert_transition_def transitions_ok_def split: if_splits) blast+

lemma batch_ok:
  "fold_result (insert_transition refs ld) (rows, n) batch = Inr (rows', n') \<Longrightarrow> transitions_ok rows \<Longrightarrow>
     transitions_ok rows' \<and> set rows \<subseteq> set rows' \<and> int n' - int n = int (length rows') - int (length rows)"
proof (induction batch arbitrary: rows n)
  case (Cons r batch)
  from Cons.prems(1) obtain st where st: "insert_transition refs ld (rows, n) r = Inr st"
    "fold_result (insert_transition refs ld) st batch = Inr (rows', n')"
    unfolding fold_result_Cons_Inr by blast
  obtain rows1 n1 where "st = (rows1, n1)" by (cases st)
  with st have one: "insert_transition refs ld (rows, n) r = Inr (rows1, n1)"
    and rest: "fold_result (insert_transition refs ld) (rows1, n1) batch = Inr (rows', n')" by simp_all
  note first = insert_transition_ok [OF one Cons.prems(2)]
  from Cons.IH [OF rest first(1)] first(2,3) show ?case by auto
qed simp

lemma write_batch_ok:
  assumes "writeTransitionBatch refs ld rows batch = Inr (rows', n)" and "transitions_ok rows"
  shows "transitions_ok rows' \<and> set rows \<subseteq> set rows' \<and> length rows' = length rows + n"
proof (cases "batch = []")
  case True
  with assms show ?thesis by (simp add: writeTransitionBatch_def)
next
  case False
  with assms(1) have "fold_result (insert_transition refs ld) (rows, 0) batch = Inr (rows', n)"
    by (auto simp: writeTransitionBatch_def split: sum.splits transition_violation.splits)
  from batch_ok [OF this assms(2)] show ?thesis by auto
qed

lemma transition_history_ok: "transition_history rows \<Longrightarrow> transitions_ok rows"
proof (induction rule: transition_history.induct)
  case empty
  show ?case by (simp add: transitions_ok_def)
next
  case (batch rows refs ld b)
  then show ?case
    by (auto simp: write_or_keep_def dest: write_batch_ok split: sum.split)
qed

text \<open>
  C32. In every history the table holds at most one row with an economic effect per route, one row per
  identity, and a batch that is written keeps every earlier row and reports exactly what it added.
\<close>

theorem one_effect_per_route:
  assumes "transition_history rows"
  shows "length (filter (\<lambda>r. tw_carriesEconomicEffect r \<and> row_route r = route) rows) \<le> 1
    \<and> distinct (map row_identity rows)
    \<and> (case writeTransitionBatch refs ld rows batch of Inl _ \<Rightarrow> True
       | Inr (rows', n) \<Rightarrow> set rows \<subseteq> set rows' \<and> length rows' = length rows + n)"
proof -
  have ok: "transitions_ok rows" using assms by (rule transition_history_ok)
  have "length (filter (\<lambda>r. P r \<and> f r = v) xs) \<le> 1" if "distinct (map f (filter P xs))"
    for P and f :: "transition_row \<Rightarrow> route_tuple" and v xs
    using that
  proof (induction xs)
    case (Cons x xs)
    have tail: "distinct (map f (filter P xs))" using Cons.prems by (cases "P x") auto
    show ?case
    proof (cases "P x \<and> f x = v")
      case True
      then have "filter (\<lambda>r. P r \<and> f r = v) xs = []"
        using Cons.prems by (auto simp: filter_empty_conv image_iff)
      with True show ?thesis by simp
    next
      case False
      with Cons.IH [OF tail] show ?thesis by auto
    qed
  qed simp
  from this [of row_route tw_carriesEconomicEffect rows route] ok
  have "length (filter (\<lambda>r. tw_carriesEconomicEffect r \<and> row_route r = route) rows) \<le> 1"
    by (simp add: transitions_ok_def)
  then show ?thesis
    using ok write_batch_ok by (fastforce simp: transitions_ok_def split: sum.split)
qed


text \<open>
  The index counts every row with an effect, and the projection of the source accounting carries one
  as well as the execution does: storing both rows of one honest transfer is refused as a second credit.
\<close>

definition example_transition :: "string \<Rightarrow> string \<Rightarrow> transition_row" where
  "example_transition transitionId kind =
     \<lparr>tw_transitionId = transitionId, tw_deploymentId = ''d'', tw_sourceBlockchainId = ''a'',
      tw_destinationBlockchainId = ''b'', tw_messengerAddress = ''0x'' @ replicate 40 (CHR ''1''),
      tw_registryProtocolVersion = 1, tw_messageId = ''m'', tw_transitionKind = kind, tw_chainKey = ''a'',
      tw_blockHash = ''h'', tw_txHash = ''t'', tw_logIndex = 0, tw_observedAt = 0, tw_envelopeId = None,
      tw_carriesEconomicEffect = True\<rparr>"

lemma honest_transfer_refused:
  "deployment_at refs ''d'' \<noteq> None \<Longrightarrow> has_key (chain_logs ld) (''a'', ''h'', ''t'', 0) \<Longrightarrow>
   writeTransitionBatch refs ld [] [example_transition ''1'' ''source-accounted'', example_transition ''2'' ''execution-succeeded'']
     = Inl (DuplicateEconomicEffectError ''m'')"
  by (simp add: writeTransitionBatch_def insert_transition_def example_transition_def row_checks_def
      TRANSITION_KINDS_def hex_string_def list_all_iff is_lower_hex_def is_digit_def row_identity_def row_route_def int4_def)

text \<open>The typed error names the first row of the batch, which need not be the one refused.\<close>

lemma conflict_names_first_row:
  "writeTransitionBatch refs ld rows batch = Inl (DuplicateEconomicEffectError m) \<Longrightarrow> m = tw_messageId (hd batch)"
  by (auto simp: writeTransitionBatch_def split: if_splits sum.splits transition_violation.splits)

definition example_log :: log_fact where
  "example_log = \<lparr>lf_chainKey = ''a'', lf_blockHash = ''h'', lf_txHash = ''t'', lf_logIndex = 0, lf_blockNumber = 0, lf_txIndex = 0,
     lf_address = ''x'', lf_topics = [], lf_data = ''0x'', lf_observedAt = 0\<rparr>"

definition ledger_with_log :: ledger where
  "ledger_with_log = empty_ledger\<lparr>chain_logs := [((''a'', ''h'', ''t'', 0), example_log)]\<rparr>"

definition example_refs :: reference_tables where
  "example_refs = \<lparr>rt_deployments = [\<lparr>dr_deploymentId = ''d'', dr_manifestHash = [], dr_assetMode = CanonicalErc20\<rparr>],
     rt_chains = []\<rparr>"

theorem one_effect_per_route_witness:
  "length (filter (\<lambda>r. tw_carriesEconomicEffect r \<and> row_route r = row_route (example_transition ''1'' ''executed''))
     [example_transition ''1'' ''execution-succeeded'']) = 1
   \<and> transition_history [example_transition ''1'' ''execution-succeeded'']
   \<and> writeTransitionBatch example_refs ledger_with_log [example_transition ''1'' ''execution-succeeded'']
        [example_transition ''2'' ''source-accounted''] = Inl (DuplicateEconomicEffectError ''m'')"
proof -
  let ?row = "example_transition ''1'' ''execution-succeeded''"
  note defs = writeTransitionBatch_def insert_transition_def example_transition_def row_checks_def
    TRANSITION_KINDS_def hex_string_def list_all_iff is_lower_hex_def is_digit_def row_identity_def row_route_def int4_def
  have "has_key (chain_logs ledger_with_log) (''a'', ''h'', ''t'', 0)"
    by (simp add: ledger_with_log_def has_key_def)
  moreover have "deployment_at example_refs ''d'' \<noteq> None" by (simp add: example_refs_def deployment_at_def)
  ultimately have "writeTransitionBatch example_refs ledger_with_log [] [?row] = Inr ([?row], 1)" by (simp add: defs)
  then have h: "transition_history [?row]"
    using transition_history.batch [OF transition_history.empty, of example_refs ledger_with_log "[?row]"]
    by (simp add: write_or_keep_def)
  have "length (filter (\<lambda>r. tw_carriesEconomicEffect r \<and> row_route r = row_route ?row) [?row]) \<le> 1"
    using one_effect_per_route [OF h] by blast
  moreover have "writeTransitionBatch example_refs ledger_with_log [?row] [example_transition ''2'' ''source-accounted'']
      = Inl (DuplicateEconomicEffectError ''m'')"
    by (simp add: defs)
  ultimately show ?thesis using h by (simp add: example_transition_def row_route_def)
qed

end
