(* ===== verification/HintQueue.thy ===== *)
theory HintQueue
  imports Ledger
begin

text \<open>
  The queue of priority hints: the table \<open>webhook_hints\<close> of migration 0004 and its operations in
  packages/storage-postgres/src/replay-store.ts. A row is never deleted: it is pending until a tick
  marks it consumed, and its dedup key guards against redeliveries for good. Rows that the foreign keys
  to deployments and chains name are assumed present. Rows of one \<open>received_at\<close>, whose order SQL leaves
  open, come in the order of their insertion.
\<close>

record hint_row =
  hr_hintId :: string
  hr_deploymentId :: string
  hr_chainKey :: string
  hr_suggestedBlockNumber :: int
  hr_source :: hint_source
  hr_dedupKey :: string

record stored_hint =
  wh_row :: hint_row
  wh_receivedAt :: int
  wh_consumedAt :: "int option"

type_synonym hint_table = "stored_hint list"

abbreviation wh_key :: "stored_hint \<Rightarrow> string" where
  "wh_key h \<equiv> hr_dedupKey (wh_row h)"

definition enqueueHint :: "int \<Rightarrow> hint_table \<Rightarrow> hint_row \<Rightarrow> db_error + bool \<times> hint_table" where
  "enqueueHint dbnow hs h =
     (if \<not> (0 \<le> hr_suggestedBlockNumber h \<and> int8 (hr_suggestedBlockNumber h)) then Inl CheckViolation
      else if hr_dedupKey h \<in> wh_key ` set hs then Inr (False, hs)
      else if hr_hintId h \<in> (\<lambda>x. hr_hintId (wh_row x)) ` set hs then Inl UniqueViolation
      else Inr (True, hs @ [\<lparr>wh_row = h, wh_receivedAt = dbnow, wh_consumedAt = None\<rparr>]))"

definition is_pending :: "string \<Rightarrow> string \<Rightarrow> stored_hint \<Rightarrow> bool" where
  "is_pending deploymentId chainKey h \<longleftrightarrow>
     hr_deploymentId (wh_row h) = deploymentId \<and> hr_chainKey (wh_row h) = chainKey \<and> wh_consumedAt h = None"

definition pendingHintDepth :: "hint_table \<Rightarrow> string \<Rightarrow> string \<Rightarrow> nat" where
  "pendingHintDepth hs deploymentId chainKey = length (filter (is_pending deploymentId chainKey) hs)"

definition readPendingHints :: "hint_table \<Rightarrow> string \<Rightarrow> string \<Rightarrow> nat \<Rightarrow> stored_hint list" where
  "readPendingHints hs deploymentId chainKey limit =
     take limit (sort_key wh_receivedAt (filter (is_pending deploymentId chainKey) hs))"

definition consume :: "int \<Rightarrow> string list \<Rightarrow> stored_hint \<Rightarrow> stored_hint" where
  "consume dbnow keys h =
     (if wh_key h \<in> set keys \<and> wh_consumedAt h = None then h\<lparr>wh_consumedAt := Some dbnow\<rparr> else h)"

definition markHintsConsumed :: "int \<Rightarrow> hint_table \<Rightarrow> string list \<Rightarrow> nat \<times> hint_table" where
  "markHintsConsumed dbnow hs keys =
     (if keys = [] then (0, hs)
      else (length (filter (\<lambda>h. wh_key h \<in> set keys \<and> wh_consumedAt h = None) hs), map (consume dbnow keys) hs))"

section \<open>Histories of the queue\<close>

inductive queue_step :: "hint_table \<Rightarrow> hint_table \<Rightarrow> bool" where
  enqueued: "enqueueHint dbnow hs h = Inr (new, hs') \<Longrightarrow> queue_step hs hs'"
| marked: "markHintsConsumed dbnow hs keys = (n, hs') \<Longrightarrow> queue_step hs hs'"

inductive_cases queue_stepE: "queue_step hs hs'"

abbreviation queue_steps :: "hint_table \<Rightarrow> hint_table \<Rightarrow> bool" where
  "queue_steps \<equiv> queue_step\<^sup>*\<^sup>*"

lemma consume_sel [simp]: "wh_row (consume dbnow keys h) = wh_row h"
  "wh_receivedAt (consume dbnow keys h) = wh_receivedAt h"
  by (simp_all add: consume_def)

lemma consume_None: "wh_consumedAt (consume dbnow keys h) = None \<longleftrightarrow> wh_consumedAt h = None \<and> wh_key h \<notin> set keys"
  by (auto simp: consume_def)

lemma marked_map: "markHintsConsumed dbnow hs keys = (n, hs') \<Longrightarrow> hs' = map (consume dbnow keys) hs"
  by (auto simp: markHintsConsumed_def consume_def [abs_def] split: if_splits)

lemma queue_step_keys:
  assumes "queue_step hs hs'" and "distinct (map wh_key hs)"
  shows "distinct (map wh_key hs')"
  using assms
  by (auto elim!: queue_stepE simp: enqueueHint_def comp_def dest!: marked_map split: if_splits)

text \<open>A consumed row stays as it is.\<close>

lemma queue_step_consumed:
  assumes "queue_step hs hs'" and "h \<in> set hs" and "wh_consumedAt h = Some t"
  shows "h \<in> set hs'"
proof -
  have "consume dbnow keys h = h" for dbnow keys using assms(3) by (simp add: consume_def)
  then have "h \<in> consume dbnow keys ` set hs" for dbnow keys
    using assms(2) by (metis imageI)
  with assms(1,2) show ?thesis
    by (auto elim!: queue_stepE simp: enqueueHint_def dest!: marked_map split: if_splits)
qed

lemma queue_steps_keep:
  assumes "queue_steps hs hs'" and "distinct (map wh_key hs)"
    and "h \<in> set hs" and "wh_consumedAt h = Some t"
  shows "distinct (map wh_key hs') \<and> h \<in> set hs'"
  using assms(1)
  by (induction rule: rtranclp_induct) (use assms queue_step_keys(1) queue_step_consumed in blast)+

text \<open>
  A hint is considered once. When a tick has read pending hints and marked them, none of them is
  pending in any later state of the queue, whatever is enqueued, redelivered or marked afterwards; the
  redelivery of such an event is absorbed and changes nothing.
\<close>

theorem hint_considered_once:
  assumes "distinct (map wh_key hs)"
    and "h \<in> set (readPendingHints hs deploymentId chainKey limit)"
    and "markHintsConsumed dbnow hs (map wh_key (readPendingHints hs deploymentId chainKey limit)) = (n, hs1)"
    and "queue_steps hs1 hs2"
  shows "wh_key h \<notin> wh_key ` set (readPendingHints hs2 deploymentId chainKey2 limit2)
    \<and> (hr_dedupKey again = wh_key h \<longrightarrow> enqueueHint dbnow2 hs2 again \<in> {Inl CheckViolation, Inr (False, hs2)})"
proof -
  let ?keys = "map wh_key (readPendingHints hs deploymentId chainKey limit)"
  have h: "h \<in> set hs" "wh_consumedAt h = None"
    using assms(2) set_take_subset [of limit] by (fastforce simp: readPendingHints_def is_pending_def)+
  have key: "wh_key h \<in> set ?keys" using assms(2) by simp
  have hs1: "hs1 = map (consume dbnow ?keys) hs" by (rule marked_map [OF assms(3)])
  let ?h = "consume dbnow ?keys h"
  have "?h \<in> set hs1" using h hs1 by simp
  moreover have "wh_consumedAt ?h = Some dbnow" using h key by (simp add: consume_def)
  moreover have "distinct (map wh_key hs1)" using assms(1) hs1 by (simp add: comp_def)
  ultimately have kept: "distinct (map wh_key hs2)" "?h \<in> set hs2"
    using queue_steps_keep [OF assms(4)] by blast+
  have only: "x = ?h" if "x \<in> set hs2" "wh_key x = wh_key h" for x
    using that kept by (metis consume_sel(1) distinct_map inj_onD)
  have "wh_key h \<notin> wh_key ` set (readPendingHints hs2 deploymentId chainKey2 limit2)"
  proof
    assume "wh_key h \<in> wh_key ` set (readPendingHints hs2 deploymentId chainKey2 limit2)"
    then obtain x where "x \<in> set hs2" "wh_key x = wh_key h" "wh_consumedAt x = None"
      using set_take_subset [of limit2] by (fastforce simp: readPendingHints_def is_pending_def)
    with only [of x] \<open>wh_consumedAt ?h = Some dbnow\<close> show False by simp
  qed
  moreover have "wh_key h \<in> wh_key ` set hs2" using kept(2) by (metis consume_sel(1) imageI)
  ultimately show ?thesis by (simp add: enqueueHint_def)
qed

lemma readPendingHints_bounded: "length (readPendingHints hs deploymentId chainKey limit) \<le> limit"
  by (simp add: readPendingHints_def)

definition example_hint :: stored_hint where
  "example_hint = \<lparr>wh_row = \<lparr>hr_hintId = ''1'', hr_deploymentId = ''d'', hr_chainKey = ''c'',
     hr_suggestedBlockNumber = 7, hr_source = Webhook, hr_dedupKey = ''k''\<rparr>, wh_receivedAt = 3, wh_consumedAt = None\<rparr>"

theorem hint_considered_once_witness:
  "''k'' \<notin> wh_key ` set (readPendingHints [example_hint\<lparr>wh_consumedAt := Some 4\<rparr>] ''d'' ''c'' 9)
   \<and> enqueueHint 8 [example_hint\<lparr>wh_consumedAt := Some 4\<rparr>] (wh_row example_hint)
       = Inr (False, [example_hint\<lparr>wh_consumedAt := Some 4\<rparr>])"
proof -
  let ?done = "[example_hint\<lparr>wh_consumedAt := Some 4\<rparr>]"
  have read: "readPendingHints [example_hint] ''d'' ''c'' 5 = [example_hint]"
    by (simp add: readPendingHints_def is_pending_def example_hint_def)
  have mark: "markHintsConsumed 4 [example_hint] (map wh_key [example_hint]) = (Suc 0, ?done)"
    by (simp add: markHintsConsumed_def consume_def example_hint_def)
  have "wh_key example_hint \<notin> wh_key ` set (readPendingHints ?done ''d'' ''c'' 9)
      \<and> (hr_dedupKey (wh_row example_hint) = wh_key example_hint
         \<longrightarrow> enqueueHint 8 ?done (wh_row example_hint) \<in> {Inl CheckViolation, Inr (False, ?done)})"
    by (rule hint_considered_once [of "[example_hint]" _ "''d''" "''c''" 5 4 "Suc 0" ?done])
      (simp_all add: read mark [simplified])
  then show ?thesis by (simp add: example_hint_def enqueueHint_def int8_def)
qed

end
