(* ===== verification/Evaluations.thy ===== *)
theory Evaluations
  imports Ledger Json
begin

text \<open>
  Stored judgements: packages/storage-postgres/src/evaluations.ts over the tables \<open>evaluations\<close> and
  \<open>verdict_events\<close> of migration 0002. An evaluation is addressed by the hash of what it was computed from;
  \<open>sha\<close> is SHA-256 in hexadecimal. The tables are append-only lists of rows.
\<close>

section \<open>Rows\<close>

record pinned_block =
  pb_chainKey :: string
  pb_blockNumber :: int
  pb_blockHash :: string

record evaluation_input =
  vi_deploymentId :: string
  vi_subject :: string
  vi_policyVersion :: string
  vi_adapterVersion :: string
  vi_pinnedBlocks :: "pinned_block list"
  vi_inputObservationDigests :: "string list"

record evaluation_record = evaluation_input +
  vr_verdict :: verdict
  vr_payloadDigest :: string

record evaluation_row =
  er_evaluationId :: string
  er_idempotencyKey :: string
  er_deploymentId :: string
  er_subject :: string
  er_policyVersion :: string
  er_adapterVersion :: string
  er_pinnedBlocks :: "pinned_block list"
  er_inputDigest :: string
  er_verdict :: verdict
  er_payloadDigest :: string

record verdict_event =
  ve_eventId :: string
  ve_evaluationId :: string
  ve_verdict :: verdict
  ve_reasonCode :: string
  ve_detail :: json

record evaluation_write_result =
  ew_evaluationId :: string
  ew_idempotencyKey :: string
  ew_inserted :: bool

datatype evaluation_error =
  EvaluationDbError db_error
| IdempotencyConflictError string string string

section \<open>Operations\<close>

definition pinned_text :: "pinned_block \<Rightarrow> string" where
  "pinned_text p = pb_chainKey p @ ''@'' @ show_int (pb_blockNumber p) @ '':'' @ pb_blockHash p"

definition evaluation_key_json :: "'a evaluation_input_scheme \<Rightarrow> json" where
  "evaluation_key_json i =
     JObj [(''deploymentId'', JStr (vi_deploymentId i)), (''subject'', JStr (vi_subject i)),
           (''policyVersion'', JStr (vi_policyVersion i)), (''adapterVersion'', JStr (vi_adapterVersion i)),
           (''pinned'', JArr (map JStr (sort (map pinned_text (vi_pinnedBlocks i))))),
           (''digests'', JArr (map JStr (sort (vi_inputObservationDigests i))))]"

definition evaluationIdempotencyKey :: "(string \<Rightarrow> string) \<Rightarrow> 'a evaluation_input_scheme \<Rightarrow> string" where
  "evaluationIdempotencyKey sha i = sha (json_print (evaluation_key_json i))"

definition pinnedBlocksJson :: "pinned_block list \<Rightarrow> pinned_block list" where
  "pinnedBlocksJson pinned = sort_key pb_chainKey pinned"

definition inputDigest :: "(string \<Rightarrow> string) \<Rightarrow> 'a evaluation_input_scheme \<Rightarrow> string" where
  "inputDigest sha i = sha (concat (sort (vi_inputObservationDigests i)))"

definition digest_column :: "string \<Rightarrow> bool" where
  "digest_column s \<longleftrightarrow> length s = 64 \<and> list_all is_lower_hex s"

definition evaluation_row_of :: "(string \<Rightarrow> string) \<Rightarrow> evaluation_record \<Rightarrow> evaluation_row" where
  "evaluation_row_of sha r =
     \<lparr>er_evaluationId = evaluationIdempotencyKey sha r, er_idempotencyKey = evaluationIdempotencyKey sha r,
      er_deploymentId = vi_deploymentId r, er_subject = vi_subject r, er_policyVersion = vi_policyVersion r,
      er_adapterVersion = vi_adapterVersion r, er_pinnedBlocks = pinnedBlocksJson (vi_pinnedBlocks r),
      er_inputDigest = inputDigest sha r, er_verdict = vr_verdict r, er_payloadDigest = vr_payloadDigest r\<rparr>"

definition evaluation_row_ok :: "evaluation_row \<Rightarrow> bool" where
  "evaluation_row_ok r \<longleftrightarrow> digest_column (er_idempotencyKey r) \<and> digest_column (er_inputDigest r)
     \<and> digest_column (er_payloadDigest r) \<and> 1 \<le> length (er_pinnedBlocks r)"

definition evaluation_at :: "evaluation_row list \<Rightarrow> string \<Rightarrow> evaluation_row option" where
  "evaluation_at rows key = find (\<lambda>r. er_idempotencyKey r = key) rows"

definition putEvaluation ::
  "(string \<Rightarrow> string) \<Rightarrow> evaluation_row list \<Rightarrow> evaluation_record
   \<Rightarrow> evaluation_error + evaluation_write_result \<times> evaluation_row list" where
  "putEvaluation sha rows r =
     (let key = evaluationIdempotencyKey sha r; row = evaluation_row_of sha r
      in if \<not> evaluation_row_ok row then Inl (EvaluationDbError CheckViolation)
         else case evaluation_at rows key of
           None \<Rightarrow> Inr (\<lparr>ew_evaluationId = key, ew_idempotencyKey = key, ew_inserted = True\<rparr>, rows @ [row])
         | Some stored \<Rightarrow>
             if er_payloadDigest stored \<noteq> vr_payloadDigest r
             then Inl (IdempotencyConflictError key (er_payloadDigest stored) (vr_payloadDigest r))
             else Inr (\<lparr>ew_evaluationId = er_evaluationId stored, ew_idempotencyKey = key, ew_inserted = False\<rparr>,
                       rows))"

definition appendVerdictEvent ::
  "evaluation_row list \<Rightarrow> verdict_event list \<Rightarrow> verdict_event \<Rightarrow> db_error + verdict_event list" where
  "appendVerdictEvent rows events e =
     (if ve_eventId e \<in> ve_eventId ` set events then Inr events
      else if ve_evaluationId e \<notin> er_evaluationId ` set rows then Inl ForeignKeyViolation
      else Inr (events @ [e]))"

section \<open>The key\<close>

lemma evaluation_key_json_eq:
  "evaluation_key_json i = evaluation_key_json j \<longleftrightarrow>
     vi_deploymentId i = vi_deploymentId j \<and> vi_subject i = vi_subject j
     \<and> vi_policyVersion i = vi_policyVersion j \<and> vi_adapterVersion i = vi_adapterVersion j
     \<and> mset (map pinned_text (vi_pinnedBlocks i)) = mset (map pinned_text (vi_pinnedBlocks j))
     \<and> mset (vi_inputObservationDigests i) = mset (vi_inputObservationDigests j)"
  for i :: "'a evaluation_input_scheme" and j :: "'b evaluation_input_scheme"
proof -
  have sorted_eq: "sort xs = sort ys \<longleftrightarrow> mset xs = mset ys" for xs ys :: "string list"
    by (metis mset_sort properties_for_sort sorted_sort)
  have "inj JStr" by (simp add: inj_def)
  then show ?thesis by (simp add: evaluation_key_json_def inj_map_eq_map sorted_eq)
qed

text \<open>
  The key is a function of the evidence, not of the order it was gathered in; and with a hash that does
  not collide on the two texts it determines the evidence.
\<close>

theorem evaluation_key_content:
  fixes i :: "'a evaluation_input_scheme" and j :: "'b evaluation_input_scheme"
  assumes "sha (json_print (evaluation_key_json i)) = sha (json_print (evaluation_key_json j)) \<Longrightarrow>
     json_print (evaluation_key_json i) = json_print (evaluation_key_json j)"
  shows "evaluationIdempotencyKey sha i = evaluationIdempotencyKey sha j \<longleftrightarrow>
     vi_deploymentId i = vi_deploymentId j \<and> vi_subject i = vi_subject j
     \<and> vi_policyVersion i = vi_policyVersion j \<and> vi_adapterVersion i = vi_adapterVersion j
     \<and> mset (map pinned_text (vi_pinnedBlocks i)) = mset (map pinned_text (vi_pinnedBlocks j))
     \<and> mset (vi_inputObservationDigests i) = mset (vi_inputObservationDigests j)"
proof -
  have "evaluationIdempotencyKey sha i = evaluationIdempotencyKey sha j
      \<longleftrightarrow> evaluation_key_json i = evaluation_key_json j"
    using assms by (auto simp: evaluationIdempotencyKey_def)
  then show ?thesis by (simp only: evaluation_key_json_eq)
qed

section \<open>Histories\<close>

inductive evaluation_history :: "(string \<Rightarrow> string) \<Rightarrow> evaluation_row list \<Rightarrow> verdict_event list \<Rightarrow> bool"
  for sha where
  start: "evaluation_history sha [] []"
| put: "evaluation_history sha rows events \<Longrightarrow> putEvaluation sha rows r = Inr (w, rows')
    \<Longrightarrow> evaluation_history sha rows' events"
| event: "evaluation_history sha rows events \<Longrightarrow> appendVerdictEvent rows events e = Inr events'
    \<Longrightarrow> evaluation_history sha rows events'"

definition judgements_ok :: "evaluation_row list \<Rightarrow> verdict_event list \<Rightarrow> bool" where
  "judgements_ok rows events \<longleftrightarrow> distinct (map er_idempotencyKey rows) \<and> list_all evaluation_row_ok rows
     \<and> list_all (\<lambda>r. er_evaluationId r = er_idempotencyKey r) rows
     \<and> distinct (map ve_eventId events) \<and> list_all (\<lambda>e. ve_evaluationId e \<in> er_evaluationId ` set rows) events"

lemma evaluation_at_None: "evaluation_at rows key = None \<longleftrightarrow> key \<notin> er_idempotencyKey ` set rows"
  by (auto simp: evaluation_at_def find_None_iff)

lemma evaluation_at_Some: "evaluation_at rows key = Some r \<Longrightarrow> r \<in> set rows \<and> er_idempotencyKey r = key"
  by (auto simp: evaluation_at_def find_Some_iff)

lemma putEvaluation_rows:
  "putEvaluation sha rows r = Inr (w, rows') \<Longrightarrow>
     evaluation_row_ok (evaluation_row_of sha r)
     \<and> (rows' = rows \<or> rows' = rows @ [evaluation_row_of sha r]
          \<and> evaluationIdempotencyKey sha r \<notin> er_idempotencyKey ` set rows)"
  by (auto simp: putEvaluation_def Let_def evaluation_at_None split: if_splits option.splits)

lemma evaluation_history_ok: "evaluation_history sha rows events \<Longrightarrow> judgements_ok rows events"
proof (induction rule: evaluation_history.induct)
  case start
  show ?case by (simp add: judgements_ok_def)
next
  case (put rows events r w rows')
  from putEvaluation_rows [OF put(2)] put.IH show ?case
    by (auto simp: judgements_ok_def list_all_iff evaluation_row_of_def)
next
  case (event rows events e events')
  then show ?case by (auto simp: judgements_ok_def appendVerdictEvent_def split: if_splits)
qed

text \<open>
  C18. A judgement is written once. Whatever was stored before, a write that returns leaves a row with its
  key and payload; nothing stored is changed; writing the same again is a no-op that returns the same
  id; and writing another payload under the key is the typed conflict, which changes nothing either.
\<close>

theorem putEvaluation_once:
  assumes "evaluation_history sha rows events" and "putEvaluation sha rows r = Inr (w, rows')"
  shows "set rows \<subseteq> set rows' \<and> ew_evaluationId w = evaluationIdempotencyKey sha r
    \<and> (\<exists>row \<in> set rows'. er_idempotencyKey row = evaluationIdempotencyKey sha r
         \<and> er_payloadDigest row = vr_payloadDigest r)
    \<and> putEvaluation sha rows' r = Inr (w\<lparr>ew_inserted := False\<rparr>, rows')
    \<and> (\<forall>other. evaluationIdempotencyKey sha other = evaluationIdempotencyKey sha r
         \<and> vr_payloadDigest other \<noteq> vr_payloadDigest r \<and> evaluation_row_ok (evaluation_row_of sha other) \<longrightarrow>
         putEvaluation sha rows' other = Inl (IdempotencyConflictError (evaluationIdempotencyKey sha r)
           (vr_payloadDigest r) (vr_payloadDigest other)))"
proof -
  have ids: "er_evaluationId row = er_idempotencyKey row" if "row \<in> set rows" for row
    using evaluation_history_ok [OF assms(1)] that by (auto simp: judgements_ok_def list_all_iff)
  let ?key = "evaluationIdempotencyKey sha r"
  have ok: "evaluation_row_ok (evaluation_row_of sha r)" using putEvaluation_rows [OF assms(2)] by blast
  obtain row where row: "evaluation_at rows' ?key = Some row" "er_payloadDigest row = vr_payloadDigest r"
    "er_evaluationId row = ?key" and w: "ew_evaluationId w = ?key" "ew_idempotencyKey w = ?key"
    and keep: "set rows \<subseteq> set rows'"
  proof (cases "evaluation_at rows ?key")
    case None
    then have "rows' = rows @ [evaluation_row_of sha r]" "w = \<lparr>ew_evaluationId = ?key, ew_idempotencyKey = ?key, ew_inserted = True\<rparr>"
      using assms(2) ok by (simp_all add: putEvaluation_def Let_def)
    moreover have "evaluation_at (rows @ [evaluation_row_of sha r]) ?key = Some (evaluation_row_of sha r)"
    proof -
      have "find P (xs @ [y]) = Some y" if "find P xs = None" "P y" for P and xs :: "evaluation_row list" and y
        using that by (induction xs) (auto split: if_splits)
      from this [OF None [unfolded evaluation_at_def]] show ?thesis
        by (simp add: evaluation_at_def evaluation_row_of_def)
    qed
    ultimately show ?thesis using that by (simp add: evaluation_row_of_def subset_insertI)
  next
    case (Some stored)
    with assms(2) ok have "rows' = rows" "er_payloadDigest stored = vr_payloadDigest r"
      "w = \<lparr>ew_evaluationId = er_evaluationId stored, ew_idempotencyKey = ?key, ew_inserted = False\<rparr>"
      by (auto simp: putEvaluation_def Let_def split: if_splits)
    moreover have "er_evaluationId stored = ?key" using evaluation_at_Some [OF Some] ids by simp
    ultimately show ?thesis using that Some by simp
  qed
  have again: "putEvaluation sha rows' r = Inr (w\<lparr>ew_inserted := False\<rparr>, rows')"
    using ok row w by (cases w) (simp add: putEvaluation_def Let_def)
  have conflict: "putEvaluation sha rows' other
      = Inl (IdempotencyConflictError ?key (vr_payloadDigest r) (vr_payloadDigest other))"
    if "evaluationIdempotencyKey sha other = ?key" "vr_payloadDigest other \<noteq> vr_payloadDigest r"
      "evaluation_row_ok (evaluation_row_of sha other)" for other
    using that row by (simp add: putEvaluation_def Let_def)
  from evaluation_at_Some [OF row(1)] row(2) keep w again conflict show ?thesis by blast
qed

definition example_evaluation :: evaluation_record where
  "example_evaluation = \<lparr>vi_deploymentId = ''d'', vi_subject = ''s'', vi_policyVersion = ''p'',
     vi_adapterVersion = ''a'',
     vi_pinnedBlocks = [\<lparr>pb_chainKey = ''c'', pb_blockNumber = 1, pb_blockHash = ''h''\<rparr>],
     vi_inputObservationDigests = [replicate 64 (CHR ''0'')], vr_verdict = OK,
     vr_payloadDigest = replicate 64 (CHR ''0'')\<rparr>"

definition zero_sha :: "string \<Rightarrow> string" where
  "zero_sha s = replicate 64 (CHR ''0'')"

lemma example_evaluation_ok: "evaluation_row_ok (evaluation_row_of zero_sha example_evaluation)"
  by (simp add: evaluation_row_ok_def evaluation_row_of_def example_evaluation_def zero_sha_def digest_column_def
      list_all_iff is_lower_hex_def is_digit_def evaluationIdempotencyKey_def inputDigest_def pinnedBlocksJson_def)

theorem putEvaluation_once_witness:
  "putEvaluation zero_sha [evaluation_row_of zero_sha example_evaluation] example_evaluation
     = Inr (\<lparr>ew_evaluationId = replicate 64 (CHR ''0''), ew_idempotencyKey = replicate 64 (CHR ''0''), ew_inserted = False\<rparr>,
            [evaluation_row_of zero_sha example_evaluation])"
proof -
  have put: "putEvaluation zero_sha [] example_evaluation
      = Inr (\<lparr>ew_evaluationId = replicate 64 (CHR ''0''), ew_idempotencyKey = replicate 64 (CHR ''0''),
              ew_inserted = True\<rparr>, [evaluation_row_of zero_sha example_evaluation])"
    by (simp add: putEvaluation_def Let_def example_evaluation_ok evaluation_at_def evaluationIdempotencyKey_def zero_sha_def)
  from putEvaluation_once [OF evaluation_history.start put] show ?thesis by simp
qed

theorem evaluation_key_content_witness:
  "evaluationIdempotencyKey (\<lambda>s. s) example_evaluation
     \<noteq> evaluationIdempotencyKey (\<lambda>s. s) (example_evaluation\<lparr>vi_subject := ''t''\<rparr>)"
  using evaluation_key_content [of "\<lambda>s. s" example_evaluation "example_evaluation\<lparr>vi_subject := ''t''\<rparr>"]
  by (simp add: example_evaluation_def)

end
