(* ===== verification/Tick.thy ===== *)
theory Tick
  imports HintQueue Evaluations ReplayRuns AlertRuns Metrics
begin

text \<open>
  One watch tick of the agent (apps/agent: runtime.ts, freshness.ts): reorder by hints, replay every
  chain, combine the verdicts, apply freshness, store the judgement, raise the alert. The state is what a
  tick can change; a step that throws leaves the state it reached, as every step commits on its own.
  The clock, the network of each chain, the abort signal and the formatter of dates are parameters.
\<close>

section \<open>Freshness (freshness.ts)\<close>

definition STALE_REASON :: string where "STALE_REASON = ''STALE_EVALUATION''"

definition EXPIRED_REASON :: string where "EXPIRED_REASON = ''EVALUATION_EXPIRED''"

record freshness_policy =
  fp_maxAgeSeconds :: int
  fp_expiresAfterSeconds :: int

record freshness_result =
  fr_verdict :: verdict
  fr_stale :: bool
  fr_reportable :: bool
  fr_ageSeconds :: int
  fr_reasonCodes :: "string list"

definition applyFreshness :: "verdict \<Rightarrow> int \<Rightarrow> int \<Rightarrow> freshness_policy \<Rightarrow> freshness_result" where
  "applyFreshness v observedAtMs nowMs policy =
     (let ageSeconds = (nowMs - observedAtMs) div 1000;
          skewed = ageSeconds < 0;
          expired = (skewed \<or> ageSeconds > fp_expiresAfterSeconds policy);
          stale = (skewed \<or> ageSeconds > fp_maxAgeSeconds policy)
      in if \<not> stale
         then \<lparr>fr_verdict = v, fr_stale = False, fr_reportable = True, fr_ageSeconds = ageSeconds,
               fr_reasonCodes = []\<rparr>
         else \<lparr>fr_verdict = (if v = CRITICAL then CRITICAL else UNKNOWN), fr_stale = True,
               fr_reportable = (\<not> expired), fr_ageSeconds = ageSeconds,
               fr_reasonCodes = (if expired then [STALE_REASON, EXPIRED_REASON] else [STALE_REASON])\<rparr>)"

section \<open>Plans and reports\<close>

record chain_plan =
  cl_chainKey :: string
  cl_identity :: chain_identity
  cl_finality :: string
  cl_config :: replay_config

record deployment_plan =
  dp_deploymentId :: string
  dp_chains :: "chain_plan list"
  dp_maxHints :: nat
  dp_freshness :: freshness_policy

type_synonym chain_reports = "(string \<times> replay_report) list"

record evaluation_observation =
  eo_deploymentId :: string
  eo_verdict :: verdict
  eo_rawVerdict :: verdict
  eo_stale :: bool
  eo_reportable :: bool
  eo_reasonCodes :: "string list"
  eo_chains :: chain_reports
  eo_observationDigest :: string

record tick_report = evaluation_observation +
  ti_evaluationId :: "string option"
  ti_alerted :: bool

fun replay_status_text :: "replay_status \<Rightarrow> string" where
  "replay_status_text RPending = ''pending''"
| "replay_status_text RComplete = ''complete''"
| "replay_status_text RGap = ''gap''"
| "replay_status_text RStale = ''stale''"
| "replay_status_text RDivergent = ''divergent''"
| "replay_status_text RBlocked = ''blocked''"

definition digest_part :: "string \<times> replay_report \<Rightarrow> string" where
  "digest_part entry =
     fst entry @ '':'' @ (case rp_checkpointAfter (snd entry) of None \<Rightarrow> ''none'' | Some n \<Rightarrow> show_int n)
     @ '':'' @ replay_status_text (rp_status (snd entry))
     @ '':'' @ join '','' (sort (map replay_reason_text (rp_reasons (snd entry))))"

definition observationDigest ::
  "(string \<Rightarrow> string) \<Rightarrow> (string \<Rightarrow> string) \<Rightarrow> string \<Rightarrow> chain_reports \<Rightarrow> string" where
  "observationDigest sha collate deploymentId reports =
     sha (''ictt-sentinel/observation/v1'' @ [CHR 0x0A]
          @ join ''|'' (deploymentId # map digest_part (sort_key (\<lambda>c. collate (fst c)) reports)))"

definition ACCEPTED_STATE_SUPERSEDED :: string where
  "ACCEPTED_STATE_SUPERSEDED = ''ACCEPTED_STATE_SUPERSEDED''"

definition supersededLanes :: "deployment_plan \<Rightarrow> int \<Rightarrow> string list" where
  "supersededLanes plan nowMs =
     map cl_chainKey
       (filter (\<lambda>c. \<not> finalityBasisStands (cl_finality c) (cl_identity c) (nowMs div 1000)) (dp_chains plan))"

section \<open>The state of a tick\<close>

record tick_world =
  tk_ledger :: ledger
  tk_hints :: hint_table
  tk_outbox :: outbox_db
  tk_evaluations :: "evaluation_row list"
  tk_events :: "verdict_event list"
  tk_registry :: "int metrics_registry"
  tk_previousVerdict :: "(string \<times> verdict) list"
  tk_lastSuccessAt :: "(string \<times> int) list"

datatype tick_error =
  TickAborted
| TickReplay replay_error
| TickEvaluation evaluation_error
| TickOutbox outbox_error
| TickInvalidDate

record tick_deps =
  td_sha :: "string \<Rightarrow> string"
  td_collate :: "string \<Rightarrow> string"
  td_ports :: "nat \<Rightarrow> log_source"
  td_now :: int
  td_dbnow :: int
  td_aborted :: "nat \<Rightarrow> bool"
  td_outboxIdFor :: "string \<Rightarrow> string"
  td_iso :: "int \<Rightarrow> string"
  td_evidenceSchemaVersion :: string

type_synonym 'a tick_step = "tick_world \<Rightarrow> tick_world \<times> (tick_error + 'a)"

type_synonym recorder = "evaluation_observation \<Rightarrow> string option tick_step"

definition bind_step :: "'a tick_step \<Rightarrow> ('a \<Rightarrow> 'b tick_step) \<Rightarrow> 'b tick_step" where
  "bind_step m f w = (case m w of (w', Inl e) \<Rightarrow> (w', Inl e) | (w', Inr x) \<Rightarrow> f x w')"

definition set_gauge :: "string \<Rightarrow> int \<Rightarrow> labels \<Rightarrow> tick_world \<Rightarrow> tick_world" where
  "set_gauge name v ls w = w\<lparr>tk_registry := set_metric name v ls (tk_registry w)\<rparr>"

definition bump :: "string \<Rightarrow> labels \<Rightarrow> tick_world \<Rightarrow> tick_world" where
  "bump name ls w = w\<lparr>tk_registry := increment_metric name ls 1 (tk_registry w)\<rparr>"

section \<open>Replaying the chains\<close>

definition hint_of :: "deployment_plan \<Rightarrow> chain_plan \<Rightarrow> stored_hint \<Rightarrow> priority_hint" where
  "hint_of plan chain h =
     \<lparr>ph_hintId = hr_hintId (wh_row h), ph_deploymentId = dp_deploymentId plan, ph_chainKey = cl_chainKey chain,
      ph_suggestedBlockNumber = hr_suggestedBlockNumber (wh_row h), ph_source = hr_source (wh_row h),
      ph_dedupKey = hr_dedupKey (wh_row h), ph_receivedAt = wh_receivedAt h\<rparr>"

definition hintsFor :: "deployment_plan \<Rightarrow> chain_plan \<Rightarrow> (priority_hint list \<times> string list) tick_step" where
  "hintsFor plan chain w =
     (let pending = readPendingHints (tk_hints w) (dp_deploymentId plan) (cl_chainKey chain) (dp_maxHints plan)
      in (set_gauge ''ictt_sentinel_hint_queue_depth'' (int (length pending))
            [(''deployment'', dp_deploymentId plan)] w,
          Inr (map (hint_of plan chain) pending, map wh_key pending)))"

definition blocks_gauge :: "int \<Rightarrow> int" where
  "blocks_gauge v = (if v \<le> 0 then 0 else if v > MAX_SAFE_INTEGER then MAX_SAFE_INTEGER else v)"

definition chain_gauges :: "deployment_plan \<Rightarrow> chain_plan \<Rightarrow> nat \<Rightarrow> replay_report \<Rightarrow> tick_world \<Rightarrow> tick_world" where
  "chain_gauges plan chain index report w =
     (let ls = [(''deployment'', dp_deploymentId plan), (''chain'', ''chain-'' @ show_nat (index + 1))];
          checkpoint = (case rp_checkpointAfter report of Some n \<Rightarrow> n
                        | None \<Rightarrow> rc_startBlock (cl_config chain) - 1)
      in set_gauge ''ictt_sentinel_provider_group_available'' (if rp_status report = RComplete then 1 else 0) ls
           (set_gauge ''ictt_sentinel_replay_gap_count'' (rp_gapCount report) ls
             (set_gauge ''ictt_sentinel_replay_lag_blocks'' (blocks_gauge (rp_acceptedHead report - checkpoint)) ls w)))"

definition replay_chain :: "tick_deps \<Rightarrow> deployment_plan \<Rightarrow> nat \<Rightarrow> chain_plan \<Rightarrow> replay_report tick_step" where
  "replay_chain d plan index chain w =
     (if td_aborted d index then (w, Inl TickAborted)
      else case hintsFor plan chain w of
        (w1, Inl e) \<Rightarrow> (w1, Inl e)
      | (w1, Inr (hints, dedupKeys)) \<Rightarrow>
          (case runReplay (td_sha d) (td_ports d index) (cl_config chain) hints (td_now d) (tk_ledger w1) of
             (ld, Inl e) \<Rightarrow> (w1\<lparr>tk_ledger := ld\<rparr>, Inl (TickReplay e))
           | (ld, Inr report) \<Rightarrow>
               (let w2 = chain_gauges plan chain index report (w1\<lparr>tk_ledger := ld\<rparr>)
                in (w2\<lparr>tk_hints := snd (markHintsConsumed (td_dbnow d) (tk_hints w2) dedupKeys)\<rparr>, Inr report))))"

fun replay_chains :: "tick_deps \<Rightarrow> deployment_plan \<Rightarrow> nat \<Rightarrow> chain_plan list \<Rightarrow> chain_reports tick_step" where
  "replay_chains d plan index [] w = (w, Inr [])"
| "replay_chains d plan index (c # cs) w =
     (case replay_chain d plan index c w of
        (w1, Inl e) \<Rightarrow> (w1, Inl e)
      | (w1, Inr report) \<Rightarrow>
          (case replay_chains d plan (Suc index) cs w1 of
             (w2, Inl e) \<Rightarrow> (w2, Inl e)
           | (w2, Inr rest) \<Rightarrow> (w2, Inr ((cl_chainKey c, report) # rest))))"

section \<open>The tick\<close>

definition raw_verdict :: "deployment_plan \<Rightarrow> int \<Rightarrow> chain_reports \<Rightarrow> verdict" where
  "raw_verdict plan nowMs reports =
     combineVerdicts
       (map (\<lambda>c. \<lparr>jdg_verdict = rp_verdict (snd c), jdg_requirement = Required\<rparr>) reports
        @ map (\<lambda>_. \<lparr>jdg_verdict = UNKNOWN, jdg_requirement = Required\<rparr>) (supersededLanes plan nowMs))"

definition tick_reasons :: "deployment_plan \<Rightarrow> int \<Rightarrow> chain_reports \<Rightarrow> string list" where
  "tick_reasons plan nowMs reports =
     sort (uniq (concat (map (\<lambda>c. map replay_reason_text (rp_reasons (snd c))) reports)
       @ (if supersededLanes plan nowMs \<noteq> [] then [ACCEPTED_STATE_SUPERSEDED] else [])))"

definition tick_complete :: "chain_reports \<Rightarrow> bool" where
  "tick_complete reports \<longleftrightarrow> reports \<noteq> [] \<and> list_all (\<lambda>c. rp_status (snd c) = RComplete) reports"

definition note_success :: "deployment_plan \<Rightarrow> int \<Rightarrow> chain_reports \<Rightarrow> tick_world \<Rightarrow> tick_world" where
  "note_success plan nowMs reports w =
     (if tick_complete reports
      then w\<lparr>tk_lastSuccessAt := AList.update (dp_deploymentId plan) nowMs (tk_lastSuccessAt w)\<rparr> else w)"

definition observed_at :: "deployment_plan \<Rightarrow> tick_world \<Rightarrow> int" where
  "observed_at plan w =
     (case map_of (tk_lastSuccessAt w) (dp_deploymentId plan) of Some t \<Rightarrow> t | None \<Rightarrow> 0)"

definition evaluation_of ::
  "tick_deps \<Rightarrow> deployment_plan \<Rightarrow> chain_reports \<Rightarrow> freshness_result \<Rightarrow> evaluation_observation" where
  "evaluation_of d plan reports fresh =
     \<lparr>eo_deploymentId = dp_deploymentId plan, eo_verdict = fr_verdict fresh,
      eo_rawVerdict = raw_verdict plan (td_now d) reports, eo_stale = fr_stale fresh,
      eo_reportable = fr_reportable fresh,
      eo_reasonCodes = tick_reasons plan (td_now d) reports @ fr_reasonCodes fresh, eo_chains = reports,
      eo_observationDigest = observationDigest (td_sha d) (td_collate d) (dp_deploymentId plan) reports\<rparr>"

definition tick_metrics :: "deployment_plan \<Rightarrow> chain_reports \<Rightarrow> freshness_result \<Rightarrow> tick_world \<Rightarrow> tick_world" where
  "tick_metrics plan reports fresh w =
     (let ls = [(''deployment'', dp_deploymentId plan)];
          w1 = set_gauge ''ictt_sentinel_evaluation_age_seconds'' (fr_ageSeconds fresh) ls w;
          w2 = set_gauge ''ictt_sentinel_accepted_head_age_seconds'' (max 0 (fr_ageSeconds fresh)) ls w1;
          w3 = bump ''ictt_sentinel_verdict_total''
                 [(''deployment'', dp_deploymentId plan), (''result'', verdict_text (fr_verdict fresh))] w2;
          w4 = (if fr_stale fresh then bump ''ictt_sentinel_stale_evaluations_total'' ls w3 else w3)
      in foldl (\<lambda>w c. if rp_verdict (snd c) = UNKNOWN then bump ''ictt_sentinel_rule_unknown_total'' ls w else w)
           w4 reports)"

text \<open>\<open>new Date(ms).toISOString()\<close> throws outside the range of dates.\<close>

definition iso_string :: "tick_deps \<Rightarrow> int \<Rightarrow> string tick_step" where
  "iso_string d ms w =
     (if \<bar>ms\<bar> \<le> 8640000000000000 then (w, Inr (td_iso d ms)) else (w, Inl TickInvalidDate))"

definition tick_signal ::
  "tick_deps \<Rightarrow> deployment_plan \<Rightarrow> evaluation_observation \<Rightarrow> chain_reports \<Rightarrow> string option \<Rightarrow> verdict option
   \<Rightarrow> string \<Rightarrow> string \<Rightarrow> alert_signal" where
  "tick_signal d plan ev reports evaluationId previous observedAt expiresAt =
     \<lparr>sg_deploymentId = dp_deploymentId plan, sg_evaluationId = evaluationId,
      sg_ruleId = ''replay-completeness'',
      sg_reasonCode = (case tick_reasons plan (td_now d) reports of
                         [] \<Rightarrow> ''REPLAY_'' @ verdict_text (eo_verdict ev) | r # _ \<Rightarrow> r),
      sg_previousVerdict = previous, sg_verdict = eo_verdict ev,
      sg_evidenceHash = eo_observationDigest ev,
      sg_evidenceSchemaVersion = td_evidenceSchemaVersion d, sg_reasonCodes = eo_reasonCodes ev,
      sg_observedAt = observedAt, sg_expiresAt = expiresAt, sg_fresh = (\<not> eo_stale ev)\<rparr>"

text \<open>The evaluations that an alert may reference are the stored ones.\<close>

definition outbox_of :: "tick_world \<Rightarrow> outbox_db" where
  "outbox_of w = (tk_outbox w)\<lparr>od_evaluations := map er_evaluationId (tk_evaluations w)\<rparr>"

definition raise_step :: "tick_deps \<Rightarrow> alert_signal \<Rightarrow> raise_result tick_step" where
  "raise_step d s w =
     (case raiseAlert (td_sha d) (td_outboxIdFor d) (outbox_of w) s (td_now d) (td_dbnow d) of
        Inl e \<Rightarrow> (w, Inl (TickOutbox e))
      | Inr (r, db) \<Rightarrow> (w\<lparr>tk_outbox := db\<rparr>, Inr r))"

definition finish_tick ::
  "tick_deps \<Rightarrow> recorder option \<Rightarrow> deployment_plan \<Rightarrow> chain_reports \<Rightarrow> tick_report tick_step" where
  "finish_tick d record_evaluation plan reports w0 =
     (let w = note_success plan (td_now d) reports w0;
          observedAt = observed_at plan w;
          fresh = applyFreshness (raw_verdict plan (td_now d) reports) observedAt (td_now d) (dp_freshness plan);
          ev = evaluation_of d plan reports fresh;
          record_step = (case record_evaluation of None \<Rightarrow> (\<lambda>w. (w, Inr None)) | Some f \<Rightarrow> f ev)
      in bind_step record_step (\<lambda>evaluationId w1.
           let w2 = tick_metrics plan reports fresh w1;
               previous = map_of (tk_previousVerdict w2) (dp_deploymentId plan)
           in bind_step (iso_string d observedAt) (\<lambda>observed.
              bind_step (iso_string d (td_now d + fp_expiresAfterSeconds (dp_freshness plan) * 1000)) (\<lambda>expires.
              bind_step (raise_step d (tick_signal d plan ev reports evaluationId previous observed expires))
                (\<lambda>raised w3.
                   (w3\<lparr>tk_previousVerdict :=
                      AList.update (dp_deploymentId plan) (eo_verdict ev) (tk_previousVerdict w3)\<rparr>,
                    Inr (evaluation_observation.extend ev
                      \<lparr>ti_evaluationId = evaluationId, ti_alerted = rr_notified raised\<rparr>))))) w2) w)"

definition runDeploymentTick ::
  "tick_deps \<Rightarrow> recorder option \<Rightarrow> deployment_plan \<Rightarrow> tick_report tick_step" where
  "runDeploymentTick d record_evaluation plan =
     bind_step (replay_chains d plan 0 (dp_chains plan)) (finish_tick d record_evaluation plan)"

section \<open>What a tick can report\<close>

lemma runReplay_status:
  assumes "runReplay sha port config hints now ld = (ld', Inr report)"
  shows "rp_verdict report = (if rp_status report = RComplete then OK else UNKNOWN)"
proof -
  obtain planned st where "finish_replay port config now
      (map_option fst (readCheckpoint ld (rc_deploymentId config) (rc_chainKey config))) st = (ld', Inr report)"
    using runReplay_Inr [OF assms] by blast
  then show ?thesis
    by (auto simp: finish_replay_def Let_def assessCompleteness_def split: sum.splits if_splits option.splits)
qed

lemma replay_chain_run:
  assumes "replay_chain d plan index chain w = (w', Inr report)"
  obtains hints where "runReplay (td_sha d) (td_ports d index) (cl_config chain) hints (td_now d) (tk_ledger w)
    = (tk_ledger w', Inr report)"
proof -
  have same: "tk_ledger (set_gauge n v ls w) = tk_ledger w" for n v ls and w :: tick_world
    by (simp add: set_gauge_def)
  have gauges: "tk_ledger (chain_gauges plan chain index report w) = tk_ledger w" for w
    by (simp add: chain_gauges_def Let_def same)
  from assms that show ?thesis
    by (auto simp: replay_chain_def hintsFor_def Let_def same gauges split: if_splits sum.splits prod.splits)
qed

definition chain_replayed ::
  "tick_deps \<Rightarrow> nat \<Rightarrow> chain_plan \<Rightarrow> string \<times> replay_report \<Rightarrow> ledger \<Rightarrow> bool" where
  "chain_replayed d index chain entry ld' \<longleftrightarrow> fst entry = cl_chainKey chain
     \<and> (\<exists>hints ld. runReplay (td_sha d) (td_ports d index) (cl_config chain) hints (td_now d) ld
          = (ld', Inr (snd entry)))"

lemma replay_chains_run:
  "replay_chains d plan index cs w = (w', Inr reports) \<Longrightarrow>
     length reports = length cs
     \<and> (\<forall>j < length cs. \<exists>ld'. chain_replayed d (index + j) (cs ! j) (reports ! j) ld' \<and> extends ld' (tk_ledger w'))
     \<and> extends (tk_ledger w) (tk_ledger w')"
proof (induction cs arbitrary: index w reports)
  case (Cons c cs)
  from Cons.prems obtain w1 report rest where one: "replay_chain d plan index c w = (w1, Inr report)"
    and more: "replay_chains d plan (Suc index) cs w1 = (w', Inr rest)"
    and reports: "reports = (cl_chainKey c, report) # rest"
    by (auto split: prod.splits sum.splits)
  from one obtain hints where run: "runReplay (td_sha d) (td_ports d index) (cl_config c) hints (td_now d) (tk_ledger w)
      = (tk_ledger w1, Inr report)" by (rule replay_chain_run)
  then have "chain_replayed d index c (cl_chainKey c, report) (tk_ledger w1)"
    unfolding chain_replayed_def by auto
  moreover have "extends (tk_ledger w) (tk_ledger w1)"
    using runReplay_extends [of "tk_ledger w" "td_sha d" "td_ports d index" "cl_config c" hints "td_now d"]
    by (simp add: run)
  moreover note Cons.IH [OF more]
  ultimately show ?case
    unfolding reports by (auto simp: nth_Cons less_Suc_eq_0_disj intro: extends_trans split: nat.split)
qed simp

text \<open>What a tick that returns has computed.\<close>

lemma tick_result:
  assumes "runDeploymentTick d rec plan w = (w', Inr t)"
  obtains w1 where "replay_chains d plan 0 (dp_chains plan) w = (w1, Inr (eo_chains t))"
    and "eo_rawVerdict t = raw_verdict plan (td_now d) (eo_chains t)"
    and "let fresh = applyFreshness (eo_rawVerdict t)
             (observed_at plan (note_success plan (td_now d) (eo_chains t) w1)) (td_now d) (dp_freshness plan)
         in eo_verdict t = fr_verdict fresh \<and> eo_stale t = fr_stale fresh \<and> eo_reportable t = fr_reportable fresh"
proof -
  obtain w1 reports where chains: "replay_chains d plan 0 (dp_chains plan) w = (w1, Inr reports)"
    and fin: "finish_tick d rec plan reports w1 = (w', Inr t)"
    using assms by (auto simp: runDeploymentTick_def bind_step_def split: prod.splits sum.splits)
  let ?fresh = "applyFreshness (raw_verdict plan (td_now d) reports)
    (observed_at plan (note_success plan (td_now d) reports w1)) (td_now d) (dp_freshness plan)"
  have t: "\<exists>e a. t = evaluation_observation.extend (evaluation_of d plan reports ?fresh)
      \<lparr>ti_evaluationId = e, ti_alerted = a\<rparr>"
    using fin by (auto simp: finish_tick_def bind_step_def Let_def split: prod.splits sum.splits)
  then have "eo_chains t = reports" "eo_rawVerdict t = raw_verdict plan (td_now d) reports"
    "eo_verdict t = fr_verdict ?fresh" "eo_stale t = fr_stale ?fresh" "eo_reportable t = fr_reportable ?fresh"
    by (auto simp: evaluation_of_def evaluation_observation.extend_def)
  with chains that show ?thesis by (simp add: Let_def)
qed

lemma freshness_up: "v \<le> fr_verdict (applyFreshness v observed now policy)"
  by (cases v) (auto simp: applyFreshness_def Let_def less_eq_verdict_def)

lemma freshness_OK:
  "fr_verdict (applyFreshness v observed now policy) = OK \<Longrightarrow>
     v = OK \<and> \<not> fr_stale (applyFreshness v observed now policy)
     \<and> fr_reportable (applyFreshness v observed now policy)"
  by (auto simp: applyFreshness_def Let_def split: if_splits)

lemma raw_verdict_OK:
  "raw_verdict plan now reports = OK \<longleftrightarrow>
     (reports \<noteq> [] \<or> supersededLanes plan now \<noteq> []) \<and> (\<forall>c \<in> set reports. rp_verdict (snd c) = OK)
     \<and> supersededLanes plan now = []"
  unfolding raw_verdict_def combineVerdicts_lub [THEN conjunct1]
  by (cases "supersededLanes plan now") (auto simp: ball_Un)

lemma raw_verdict_bound:
  assumes "c \<in> set reports"
  shows "rp_verdict (snd c) \<le> raw_verdict plan now reports"
proof -
  let ?js = "map (\<lambda>c. \<lparr>jdg_verdict = rp_verdict (snd c), jdg_requirement = Required\<rparr>) reports
        @ map (\<lambda>_. \<lparr>jdg_verdict = UNKNOWN, jdg_requirement = Required\<rparr>) (supersededLanes plan now)"
  have "?js \<noteq> []" using assms by auto
  from combineVerdicts_eq_iff [OF this, of "raw_verdict plan now reports"]
  have all: "\<forall>j \<in> set ?js. effective j \<le> raw_verdict plan now reports" by (simp add: raw_verdict_def)
  have "effective \<lparr>jdg_verdict = rp_verdict (snd c), jdg_requirement = Required\<rparr> \<le> raw_verdict plan now reports"
    using all assms by auto
  then show ?thesis by (simp add: effective_def)
qed

text \<open>
  C8. A green tick is earned. When a tick reports OK there is at least one chain, the finality basis of
  every chain stands at the clock of the tick, the report is neither stale nor withheld, and every chain
  was replayed in this very tick with every height from its start to the agreed head in a range
  committed in the ledger that its replay left.
\<close>

theorem tick_OK_is_covered:
  assumes "runDeploymentTick d rec plan w = (w', Inr t)" and "eo_verdict t = OK"
  shows "dp_chains plan \<noteq> [] \<and> \<not> eo_stale t \<and> eo_reportable t
    \<and> (\<forall>c \<in> set (dp_chains plan). finalityBasisStands (cl_finality c) (cl_identity c) (td_now d div 1000))
    \<and> (\<forall>j < length (dp_chains plan). let c = dp_chains plan ! j in
         \<exists>ld'. chain_replayed d j c (eo_chains t ! j) ld'
           \<and> (\<forall>h. rc_startBlock (cl_config c) \<le> h
                \<and> h \<le> lp_agreedAcceptedHead (td_ports d j) (rc_chainKey (cl_config c)) \<longrightarrow>
                covers (readCommittedRanges ld' (rc_deploymentId (cl_config c)) (rc_chainKey (cl_config c))) h))"
proof -
  obtain w1 where chains: "replay_chains d plan 0 (dp_chains plan) w = (w1, Inr (eo_chains t))"
    and raw: "eo_rawVerdict t = raw_verdict plan (td_now d) (eo_chains t)"
    and fresh: "let fresh = applyFreshness (eo_rawVerdict t)
             (observed_at plan (note_success plan (td_now d) (eo_chains t) w1)) (td_now d) (dp_freshness plan)
         in eo_verdict t = fr_verdict fresh \<and> eo_stale t = fr_stale fresh \<and> eo_reportable t = fr_reportable fresh"
    using assms(1) by (rule tick_result)
  have ok: "eo_rawVerdict t = OK" and flags: "\<not> eo_stale t" "eo_reportable t"
    using freshness_OK [of "eo_rawVerdict t"] fresh assms(2) by (simp_all add: Let_def) metis+
  have lanes: "supersededLanes plan (td_now d) = []" and some: "eo_chains t \<noteq> []"
    and oks: "\<forall>c \<in> set (eo_chains t). rp_verdict (snd c) = OK"
    using ok unfolding raw raw_verdict_OK by auto
  note runs = replay_chains_run [OF chains]
  have "dp_chains plan \<noteq> []" using some runs by auto
  moreover have "\<forall>c \<in> set (dp_chains plan). finalityBasisStands (cl_finality c) (cl_identity c) (td_now d div 1000)"
    using lanes by (auto simp: supersededLanes_def filter_empty_conv)
  moreover have "let c = dp_chains plan ! j in
         \<exists>ld'. chain_replayed d j c (eo_chains t ! j) ld'
           \<and> (\<forall>h. rc_startBlock (cl_config c) \<le> h
                \<and> h \<le> lp_agreedAcceptedHead (td_ports d j) (rc_chainKey (cl_config c)) \<longrightarrow>
                covers (readCommittedRanges ld' (rc_deploymentId (cl_config c)) (rc_chainKey (cl_config c))) h)"
    if j: "j < length (dp_chains plan)" for j
  proof -
    from runs j obtain ld' where replayed: "chain_replayed d j (dp_chains plan ! j) (eo_chains t ! j) ld'" by auto
    then obtain hints ld where run: "runReplay (td_sha d) (td_ports d j) (cl_config (dp_chains plan ! j)) hints
        (td_now d) ld = (ld', Inr (snd (eo_chains t ! j)))" by (auto simp: chain_replayed_def)
    have "rp_verdict (snd (eo_chains t ! j)) = OK" using oks runs j by (metis nth_mem)
    from runReplay_fail_closed(1) [OF run this] replayed show ?thesis by (auto simp: Let_def)
  qed
  ultimately show ?thesis using flags by blast
qed

text \<open>
  A tick never looks better than its evidence: its verdict is at or above its raw verdict and the verdict
  of every chain, a superseded finality basis keeps it from being green, and so does a plan without chains.
\<close>

theorem tick_never_greener:
  assumes "runDeploymentTick d rec plan w = (w', Inr t)"
  shows "eo_rawVerdict t \<le> eo_verdict t \<and> (\<forall>c \<in> set (eo_chains t). rp_verdict (snd c) \<le> eo_verdict t)
    \<and> (supersededLanes plan (td_now d) \<noteq> [] \<or> dp_chains plan = [] \<longrightarrow> eo_verdict t \<noteq> OK)"
proof -
  obtain w1 where chains: "replay_chains d plan 0 (dp_chains plan) w = (w1, Inr (eo_chains t))"
    and raw: "eo_rawVerdict t = raw_verdict plan (td_now d) (eo_chains t)"
    and fresh: "let fresh = applyFreshness (eo_rawVerdict t)
             (observed_at plan (note_success plan (td_now d) (eo_chains t) w1)) (td_now d) (dp_freshness plan)
         in eo_verdict t = fr_verdict fresh \<and> eo_stale t = fr_stale fresh \<and> eo_reportable t = fr_reportable fresh"
    using assms(1) by (rule tick_result)
  have up: "eo_rawVerdict t \<le> eo_verdict t" using fresh freshness_up by (simp add: Let_def)
  moreover have "\<forall>c \<in> set (eo_chains t). rp_verdict (snd c) \<le> eo_verdict t"
    using up raw_verdict_bound unfolding raw by (blast intro: order_trans)
  moreover have "eo_verdict t \<noteq> OK" if "supersededLanes plan (td_now d) \<noteq> [] \<or> dp_chains plan = []"
  proof
    assume "eo_verdict t = OK"
    then have "eo_rawVerdict t = OK" using up by (cases "eo_rawVerdict t") (simp_all add: less_eq_verdict_def)
    then have "supersededLanes plan (td_now d) = [] \<and> eo_chains t \<noteq> []" unfolding raw raw_verdict_OK by auto
    with that replay_chains_run [OF chains] show False by auto
  qed
  ultimately show ?thesis by blast
qed

text \<open>
  In a tick the freshness step never changes the verdict: a tick that is not complete is UNKNOWN
  already, and one that is complete is observed at its own clock.
\<close>

lemma freshness_never_degrades:
  assumes "runDeploymentTick d rec plan w = (w', Inr t)" and "0 \<le> fp_maxAgeSeconds (dp_freshness plan)"
  shows "eo_verdict t = eo_rawVerdict t"
proof (cases "tick_complete (eo_chains t)")
  case True
  obtain w1 where "let fresh = applyFreshness (eo_rawVerdict t)
             (observed_at plan (note_success plan (td_now d) (eo_chains t) w1)) (td_now d) (dp_freshness plan)
         in eo_verdict t = fr_verdict fresh \<and> eo_stale t = fr_stale fresh \<and> eo_reportable t = fr_reportable fresh"
    using tick_result [OF assms(1)] by blast
  with True assms(2) show ?thesis
    by (simp add: note_success_def observed_at_def update_conv' applyFreshness_def Let_def)
next
  case False
  obtain w1 where chains: "replay_chains d plan 0 (dp_chains plan) w = (w1, Inr (eo_chains t))"
    and raw: "eo_rawVerdict t = raw_verdict plan (td_now d) (eo_chains t)"
    and fresh: "let fresh = applyFreshness (eo_rawVerdict t)
             (observed_at plan (note_success plan (td_now d) (eo_chains t) w1)) (td_now d) (dp_freshness plan)
         in eo_verdict t = fr_verdict fresh \<and> eo_stale t = fr_stale fresh \<and> eo_reportable t = fr_reportable fresh"
    using assms(1) by (rule tick_result)
  note runs = replay_chains_run [OF chains]
  have verdicts: "rp_verdict (snd c) = (if rp_status (snd c) = RComplete then OK else UNKNOWN)"
    if "c \<in> set (eo_chains t)" for c
  proof -
    from that obtain j where "j < length (dp_chains plan)" "c = eo_chains t ! j"
      using runs by (metis in_set_conv_nth)
    with runs obtain ld' where "chain_replayed d j (dp_chains plan ! j) c ld'" by fastforce
    then show ?thesis using runReplay_status unfolding chain_replayed_def by blast
  qed
  have "eo_rawVerdict t \<noteq> OK"
    using False verdicts unfolding raw raw_verdict_OK by (auto simp: tick_complete_def list_all_iff)
  moreover have "eo_rawVerdict t \<in> {OK, UNKNOWN}"
  proof (cases "eo_chains t = [] \<and> supersededLanes plan (td_now d) = []")
    case True
    then show ?thesis unfolding raw by (simp add: raw_verdict_def combineVerdicts_def)
  next
    case False
    let ?js = "map (\<lambda>c. \<lparr>jdg_verdict = rp_verdict (snd c), jdg_requirement = Required\<rparr>) (eo_chains t)
        @ map (\<lambda>_. \<lparr>jdg_verdict = UNKNOWN, jdg_requirement = Required\<rparr>) (supersededLanes plan (td_now d))"
    have "?js \<noteq> []" using False by auto
    from combineVerdicts_eq_iff [OF this, of "combineVerdicts ?js"]
    obtain j where j: "j \<in> set ?js" "effective j = combineVerdicts ?js" by blast
    from j(1) have "jdg_verdict j \<in> {OK, UNKNOWN}" "jdg_requirement j = Required"
      using verdicts by (auto split: if_splits)
    then have "effective j \<in> {OK, UNKNOWN}" by (auto simp: effective_def)
    with j(2) show ?thesis unfolding raw raw_verdict_def by simp
  qed
  ultimately have "eo_rawVerdict t = UNKNOWN" by simp
  with fresh show ?thesis by (auto simp: applyFreshness_def Let_def split: if_splits)
qed

section \<open>A tick over one chain\<close>

definition example_plan :: deployment_plan where
  "example_plan = \<lparr>dp_deploymentId = ''d'',
     dp_chains = [\<lparr>cl_chainKey = ''c'', cl_identity = \<lparr>ci_evmChainId = 1, ci_blockchainId = ''x''\<rparr>,
        cl_finality = ''settled-quorum'', cl_config = example_config\<rparr>],
     dp_maxHints = 3, dp_freshness = \<lparr>fp_maxAgeSeconds = 5, fp_expiresAfterSeconds = 9\<rparr>\<rparr>"

definition example_world :: tick_world where
  "example_world = \<lparr>tk_ledger = empty_ledger, tk_hints = [],
     tk_outbox = \<lparr>od_rows = [], od_deliveries = [], od_deployments = [''d''], od_evaluations = [], od_tenants = []\<rparr>,
     tk_evaluations = [], tk_events = [], tk_registry = empty_registry, tk_previousVerdict = [(''d'', OK)],
     tk_lastSuccessAt = []\<rparr>"

definition example_deps :: "int \<Rightarrow> tick_deps" where
  "example_deps head = \<lparr>td_sha = hex_text, td_collate = (\<lambda>s. s), td_ports = (\<lambda>_. example_port head 0), td_now = 100,
     td_dbnow = 100, td_aborted = (\<lambda>_. False), td_outboxIdFor = (\<lambda>s. s), td_iso = (\<lambda>_. ''t''),
     td_evidenceSchemaVersion = ''v''\<rparr>"

lemma replay_chain_quiet:
  assumes "\<not> td_aborted d i"
    and "readPendingHints (tk_hints w) (dp_deploymentId plan) (cl_chainKey c) (dp_maxHints plan) = []"
    and "runReplay (td_sha d) (td_ports d i) (cl_config c) [] (td_now d) (tk_ledger w) = (ld, Inr report)"
  shows "replay_chain d plan i c w = (chain_gauges plan c i report
    ((set_gauge ''ictt_sentinel_hint_queue_depth'' 0 [(''deployment'', dp_deploymentId plan)] w)\<lparr>tk_ledger := ld\<rparr>),
    Inr report)"
proof -
  have "tk_ledger (set_gauge n v ls w) = tk_ledger w" for n v ls by (simp add: set_gauge_def)
  moreover have "w\<lparr>tk_hints := tk_hints w\<rparr> = w" for w :: tick_world by simp
  ultimately show ?thesis
    using assms by (simp add: replay_chain_def hintsFor_def Let_def markHintsConsumed_def)
qed

lemma outbox_of_gauges [simp]:
  "tk_outbox (set_gauge n v ls w) = tk_outbox w" "tk_outbox (bump n ls w) = tk_outbox w"
  "tk_previousVerdict (set_gauge n v ls w) = tk_previousVerdict w"
  "tk_previousVerdict (bump n ls w) = tk_previousVerdict w"
  by (simp_all add: set_gauge_def bump_def)

lemma outbox_of_tick_metrics [simp]:
  "tk_outbox (tick_metrics plan reports fresh w) = tk_outbox w"
  "tk_previousVerdict (tick_metrics plan reports fresh w) = tk_previousVerdict w"
proof -
  have "tk_outbox (foldl (\<lambda>w c. if P c then bump n ls w else w) w cs) = tk_outbox w
      \<and> tk_previousVerdict (foldl (\<lambda>w c. if P c then bump n ls w else w) w cs) = tk_previousVerdict w" for P n ls w
    and cs :: chain_reports
    by (induction cs arbitrary: w) simp_all
  then show "tk_outbox (tick_metrics plan reports fresh w) = tk_outbox w"
    "tk_previousVerdict (tick_metrics plan reports fresh w) = tk_previousVerdict w"
    by (simp_all add: tick_metrics_def Let_def)
qed

text \<open>A complete tick that was OK before and is OK now finishes without raising anything.\<close>

lemma finish_tick_quiet:
  assumes "raw_verdict plan (td_now d) reports = OK" and "tick_complete reports"
    and "map_of (tk_previousVerdict w) (dp_deploymentId plan) = Some OK" and "od_rows (tk_outbox w) = []"
    and "0 \<le> fp_maxAgeSeconds (dp_freshness plan)"
    and "\<bar>td_now d\<bar> \<le> 8640000000000000"
    and "\<bar>td_now d + fp_expiresAfterSeconds (dp_freshness plan) * 1000\<bar> \<le> 8640000000000000"
  shows "\<exists>w' t. finish_tick d None plan reports w = (w', Inr t) \<and> eo_verdict t = OK \<and> eo_chains t = reports"
proof -
  let ?w = "note_success plan (td_now d) reports w"
  have now: "observed_at plan ?w = td_now d"
    using assms(2) by (simp add: note_success_def observed_at_def update_conv')
  define fresh where "fresh = applyFreshness OK (td_now d) (td_now d) (dp_freshness plan)"
  have fresh: "fr_verdict fresh = OK" using assms(5) by (simp add: fresh_def applyFreshness_def Let_def)
  have w: "map_of (tk_previousVerdict ?w) (dp_deploymentId plan) = Some OK" "tk_outbox ?w = tk_outbox w"
    using assms(3) by (simp_all add: note_success_def)
  have raised: "raiseAlert (td_sha d) (td_outboxIdFor d) db s (td_now d) (td_dbnow d)
      = Inr (\<lparr>rr_dedupKey = signal_key (td_sha d) s, rr_incidentKey = signal_incident (td_sha d) s,
        rr_written = False, rr_created = False, rr_notified = False, rr_closedIncidentRows = 0\<rparr>, db)"
    if "sg_previousVerdict s = Some OK" "sg_verdict s = OK" "od_rows db = []" for s db
  proof (rule raise_silent)
    show "signal_before (td_sha d) db s = None"
      using that(3) by (simp add: signal_before_def record_before_def existing_row_def open_incident_def incident_rows_def
          readByDedupKey_def)
    show "\<not> isEscalation (sg_previousVerdict s) (sg_verdict s)"
      using that by (simp add: isEscalation_def)
  qed
  show ?thesis
    using assms(1,4,6,7) w now fresh
    by (simp add: finish_tick_def bind_step_def Let_def iso_string_def raise_step_def outbox_of_def raised tick_signal_def
        evaluation_of_def evaluation_observation.extend_def fresh_def [symmetric])
qed

text \<open>One height, replayed, with the verdict OK before and after.\<close>

lemma example_tick:
  "\<exists>w' t. runDeploymentTick (example_deps 1) None example_plan example_world = (w', Inr t) \<and> eo_verdict t = OK"
proof -
  obtain ld' report where run: "runReplay hex_text (example_port 1 0) example_config [] 100 empty_ledger = (ld', Inr report)"
    and ok: "rp_verdict report = OK"
    using example_one_height by blast
  have status: "rp_status report = RComplete" using runReplay_status [OF run] ok by (simp split: if_splits)
  let ?c = "hd (dp_chains example_plan)"
  have c: "dp_chains example_plan = [?c]" "cl_config ?c = example_config" "cl_chainKey ?c = ''c''"
    "cl_finality ?c = ''settled-quorum''"
    by (simp_all add: example_plan_def)
  have deps: "td_sha (example_deps 1) = hex_text" "td_ports (example_deps 1) 0 = example_port 1 0"
    "td_now (example_deps 1) = 100" "\<not> td_aborted (example_deps 1) 0"
    by (simp_all add: example_deps_def)
  obtain w1 where one: "replay_chain (example_deps 1) example_plan 0 ?c example_world = (w1, Inr report)"
    and w1: "tk_outbox w1 = tk_outbox example_world" "tk_previousVerdict w1 = [(''d'', OK)]"
  proof
    show "replay_chain (example_deps 1) example_plan 0 ?c example_world = (chain_gauges example_plan ?c 0 report
      ((set_gauge ''ictt_sentinel_hint_queue_depth'' 0 [(''deployment'', dp_deploymentId example_plan)]
        example_world)\<lparr>tk_ledger := ld'\<rparr>), Inr report)"
    proof (rule replay_chain_quiet)
      show "runReplay (td_sha (example_deps 1)) (td_ports (example_deps 1) 0) (cl_config ?c) [] (td_now (example_deps 1))
          (tk_ledger example_world) = (ld', Inr report)"
        unfolding deps c(2) example_world_def tick_world.select_convs by (rule run)
    qed (simp_all add: deps example_world_def readPendingHints_def)
  qed (simp_all add: chain_gauges_def Let_def example_world_def)
  have chains: "replay_chains (example_deps 1) example_plan 0 (dp_chains example_plan) example_world
      = (w1, Inr [(''c'', report)])"
    by (subst c(1)) (simp add: c(2-) one)
  have "supersededLanes example_plan 100 = []"
    unfolding supersededLanes_def by (subst c(1)) (simp add: c(2-) finalityBasisStands_def)
  then have "raw_verdict example_plan 100 [(''c'', report)] = OK" unfolding raw_verdict_OK using ok by simp
  then have "\<exists>w' t. finish_tick (example_deps 1) None example_plan [(''c'', report)] w1 = (w', Inr t)
      \<and> eo_verdict t = OK \<and> eo_chains t = [(''c'', report)]"
    by (intro finish_tick_quiet) (simp_all add: status tick_complete_def w1 deps example_plan_def example_world_def)
  then show ?thesis by (auto simp: runDeploymentTick_def bind_step_def chains)
qed

theorem tick_OK_is_covered_witness:
  "\<exists>w' t. runDeploymentTick (example_deps 1) None example_plan example_world = (w', Inr t)
     \<and> \<not> eo_stale t \<and> eo_reportable t"
  using example_tick tick_OK_is_covered by blast

theorem tick_never_greener_witness:
  "\<exists>w' t. runDeploymentTick (example_deps 1) None example_plan example_world = (w', Inr t)
     \<and> eo_rawVerdict t \<le> eo_verdict t"
  using example_tick tick_never_greener by blast

end
