(* ===== verification/Rpc.thy ===== *)
theory Rpc
  imports Quorum Notify Events
begin

text \<open>
  The query-only RPC surface of packages/rpc-quorum: the method list (methods.ts), the domain operations
  and the requests they become (operations.ts), the assurance gates (gates.ts), the fault classes
  (errors.ts) and one checked send with its retries (transport.ts), and the reader of the agent over HTTP
  (apps/agent: rpc.ts). The network, the URL parser and \<open>JSON.parse\<close> of the platform are parameters, and
  so is Keccak-256, whose digests the selectors are cut from.
\<close>

section \<open>Methods (methods.ts)\<close>

definition ALLOWED_METHODS :: "string list" where
  "ALLOWED_METHODS =
     [''eth_chainId'', ''net_version'', ''eth_blockNumber'', ''eth_getBlockByNumber'', ''eth_getBlockByHash'',
      ''eth_getLogs'', ''eth_getTransactionReceipt'', ''eth_call'', ''eth_getCode'', ''eth_getStorageAt'']"

definition FORBIDDEN_METHOD_PREFIXES :: "string list" where
  "FORBIDDEN_METHOD_PREFIXES =
     [''eth_send'', ''eth_sign'', ''personal_'', ''wallet_'', ''admin_'', ''engine_'', ''miner_'', ''txpool_'',
      ''debug_'', ''trace_'', ''evm_'', ''hardhat_'', ''anvil_'']"

definition FORBIDDEN_METHODS :: "string list" where
  "FORBIDDEN_METHODS =
     [''eth_sendTransaction'', ''eth_sendRawTransaction'', ''eth_sign'', ''eth_signTransaction'',
      ''eth_signTypedData'', ''personal_sign'', ''personal_unlockAccount'', ''wallet_addEthereumChain'',
      ''admin_addPeer'', ''engine_newPayloadV1'', ''miner_start'', ''debug_traceTransaction'']"

definition startsWith :: "string \<Rightarrow> string \<Rightarrow> bool" where
  "startsWith s p \<longleftrightarrow> take (length p) s = p"

definition isAllowedMethod :: "string \<Rightarrow> bool" where
  "isAllowedMethod m \<longleftrightarrow> m \<in> set ALLOWED_METHODS"

definition isForbiddenMethod :: "string \<Rightarrow> bool" where
  "isForbiddenMethod m \<longleftrightarrow> list_ex (startsWith m) FORBIDDEN_METHOD_PREFIXES \<or> m \<in> set FORBIDDEN_METHODS"

datatype send_refusal = WritesToChain string | NotOnAllowlist string

definition assertSendable :: "string \<Rightarrow> send_refusal + string" where
  "assertSendable m =
     (if isForbiddenMethod m then Inl (WritesToChain m)
      else if \<not> isAllowedMethod m then Inl (NotOnAllowlist m) else Inr m)"

datatype block_ref = RefTag block_tag | RefNumber int | RefHash string

fun block_tag_text :: "block_tag \<Rightarrow> string" where
  "block_tag_text TagLatest = ''latest''"
| "block_tag_text TagSafe = ''safe''"
| "block_tag_text TagFinalized = ''finalized''"
| "block_tag_text TagEarliest = ''earliest''"

text \<open>\<open>n.toString(16)\<close>.\<close>

fun hex_nat :: "nat \<Rightarrow> string" where
  "hex_nat n = (if n < 16 then [hex_digit n] else hex_nat (n div 16) @ [hex_digit (n mod 16)])"

declare hex_nat.simps [simp del]

definition hex_int :: "int \<Rightarrow> string" where
  "hex_int i = (if i < 0 then CHR ''-'' # hex_nat (nat (- i)) else hex_nat (nat i))"

fun toBlockParam :: "block_ref \<Rightarrow> string" where
  "toBlockParam (RefTag t) = block_tag_text t"
| "toBlockParam (RefNumber n) = ''0x'' @ hex_int n"
| "toBlockParam (RefHash h) = h"

section \<open>Operations (operations.ts)\<close>

definition warpMessenger :: string where "warpMessenger = ''0x0200000000000000000000000000000000000005''"

definition nativeMinter :: string where "nativeMinter = ''0x0200000000000000000000000000000000000001''"

definition warpGetBlockchainIdCalldata :: "(string \<Rightarrow> string) \<Rightarrow> string" where
  "warpGetBlockchainIdCalldata keccak = selector keccak ''getBlockchainID()''"

datatype operation_error = BadAccount | LogRangeBackwards | LogRangeTooWide int int

definition readAllowListCalldata :: "(string \<Rightarrow> string) \<Rightarrow> string \<Rightarrow> operation_error + string" where
  "readAllowListCalldata keccak account =
     (let body = (if startsWith account ''0x'' then drop 2 account else account)
      in if length body = 40 \<and> list_all is_hex_i body
         then Inr (selector keccak ''readAllowList(address)'' @ padStart (toLowerCase body) 64 (CHR ''0''))
         else Inl BadAccount)"

datatype read_operation =
  EvmChainId
| NetworkVersion
| HeadBlockNumber
| BlockByRef block_ref
| ReadLogs int int "string option" "string option list option"
| TransactionReceipt string
| ReadCall string string block_ref
| ReadCode string block_ref
| StorageSlot string string block_ref
| WarpBlockchainId block_ref
| NativeMinterRole string block_ref

record rpc_request =
  rq_method :: string
  rq_params :: "json list"

definition request :: "string \<Rightarrow> json list \<Rightarrow> operation_error + rpc_request" where
  "request m params = Inr \<lparr>rq_method = m, rq_params = params\<rparr>"

definition call_params :: "string \<Rightarrow> string \<Rightarrow> block_ref \<Rightarrow> json list" where
  "call_params to data ref = [JObj [(''to'', JStr to), (''data'', JStr data)], JStr (toBlockParam ref)]"

definition log_filter :: "int \<Rightarrow> int \<Rightarrow> string option \<Rightarrow> string option list option \<Rightarrow> json" where
  "log_filter from to addr topics =
     JObj ([(''fromBlock'', JStr (''0x'' @ hex_int from)), (''toBlock'', JStr (''0x'' @ hex_int to))]
       @ (case addr of None \<Rightarrow> [] | Some a \<Rightarrow> [(''address'', JStr a)])
       @ (case topics of None \<Rightarrow> []
          | Some ts \<Rightarrow> [(''topics'', JArr (map (\<lambda>t. case t of None \<Rightarrow> JNull | Some s \<Rightarrow> JStr s) ts))]))"

fun buildRequest :: "(string \<Rightarrow> string) \<Rightarrow> read_operation \<Rightarrow> operation_error + rpc_request" where
  "buildRequest keccak EvmChainId = request ''eth_chainId'' []"
| "buildRequest keccak NetworkVersion = request ''net_version'' []"
| "buildRequest keccak HeadBlockNumber = request ''eth_blockNumber'' []"
| "buildRequest keccak (BlockByRef (RefHash h)) = request ''eth_getBlockByHash'' [JStr h, JBool False]"
| "buildRequest keccak (BlockByRef ref) = request ''eth_getBlockByNumber'' [JStr (toBlockParam ref), JBool False]"
| "buildRequest keccak (ReadLogs from to addr topics) = request ''eth_getLogs'' [log_filter from to addr topics]"
| "buildRequest keccak (TransactionReceipt h) = request ''eth_getTransactionReceipt'' [JStr h]"
| "buildRequest keccak (ReadCall to data ref) = request ''eth_call'' (call_params to data ref)"
| "buildRequest keccak (ReadCode addr ref) = request ''eth_getCode'' [JStr addr, JStr (toBlockParam ref)]"
| "buildRequest keccak (StorageSlot addr slot ref) =
     request ''eth_getStorageAt'' [JStr addr, JStr slot, JStr (toBlockParam ref)]"
| "buildRequest keccak (WarpBlockchainId ref) =
     request ''eth_call'' (call_params warpMessenger (warpGetBlockchainIdCalldata keccak) ref)"
| "buildRequest keccak (NativeMinterRole account ref) =
     and_then (readAllowListCalldata keccak account) (\<lambda>data. request ''eth_call'' (call_params nativeMinter data ref))"

definition assertLogRange :: "int \<Rightarrow> int \<Rightarrow> int \<Rightarrow> operation_error + unit" where
  "assertLogRange from to maxRangeBlocks =
     (if to < from then Inl LogRangeBackwards
      else let span = to - from + 1
           in if span > maxRangeBlocks then Inl (LogRangeTooWide span maxRangeBlocks) else Inr ())"

section \<open>Assurance gates (gates.ts)\<close>

record accepted_state_input =
  as_chainIdentityVerified :: bool
  as_acceptedStateEstablished :: bool
  as_quorumAgreed :: bool
  as_independentTrustDomains :: int
  as_requiredTrustDomains :: int
  as_pinnedContextBuilt :: bool
  as_freshWithinPolicy :: bool

record accepted_state_result =
  ar_passed :: bool
  ar_missing :: "string list"

definition assessAcceptedState :: "accepted_state_input \<Rightarrow> accepted_state_result" where
  "assessAcceptedState i =
     (let missing =
        (if \<not> as_chainIdentityVerified i then [''chain identity was not verified against the manifest''] else [])
        @ (if \<not> as_acceptedStateEstablished i
           then [''accepted-state semantics were not established for the endpoints''] else [])
        @ (if \<not> as_quorumAgreed i then [''the witness quorum did not agree''] else [])
        @ (if as_independentTrustDomains i < as_requiredTrustDomains i
           then [''only '' @ show_int (as_independentTrustDomains i) @ '' independent trust domain(s), policy requires ''
                 @ show_int (as_requiredTrustDomains i)] else [])
        @ (if \<not> as_pinnedContextBuilt i then [''no pinned block context was produced''] else [])
        @ (if \<not> as_freshWithinPolicy i then [''the observation is outside the freshness policy''] else [])
      in \<lparr>ar_passed = (missing = []), ar_missing = missing\<rparr>)"

section \<open>Faults (errors.ts)\<close>

datatype rpc_fault =
  FTimeout | FRateLimited | FTransport | FServerError
| FUnsupportedMethod | FUnsupportedBlockTag | FPrunedHistory | FInvalidResponse | FResponseTooLarge | FResponseTooDeep
| FInsecureUrl | FRedirectRefused | FHostNotAllowed | FForbiddenMethod
| FWrongChain | FStaleHead | FFutureHead | FWitnessDisagreement | FInsufficientWitnesses | FIntegrityConflict

definition TRANSIENT_FAULTS :: "rpc_fault list" where
  "TRANSIENT_FAULTS = [FTimeout, FRateLimited, FTransport, FServerError]"

definition isTransient :: "rpc_fault \<Rightarrow> bool" where
  "isTransient f \<longleftrightarrow> f \<in> set TRANSIENT_FAULTS"

definition NEVER_RETRY :: "rpc_fault list" where
  "NEVER_RETRY = [FInsecureUrl, FRedirectRefused, FHostNotAllowed, FForbiddenMethod, FIntegrityConflict, FWrongChain]"

definition faultForStatus :: "int \<Rightarrow> rpc_fault" where
  "faultForStatus status =
     (if status = 429 then FRateLimited else if status = 408 \<or> status = 504 then FTimeout
      else if status \<ge> 500 then FServerError else FTransport)"

definition PRUNED_TEXT :: pattern where
  "PRUNED_TEXT = alt [lit_i ''pruned'', lit_i ''missing trie'', lit_i ''not available'',
     seq [lit_i ''state'', Star (Cls (\<lambda>c. c \<notin> {CHR 0x0A, CHR 0x0D})), lit_i ''unavailable'']]"

definition UNKNOWN_BLOCK_TEXT :: pattern where
  "UNKNOWN_BLOCK_TEXT = alt [lit_i ''unknown block'', lit_i ''header not found'', lit_i ''invalid block'']"

definition RATE_TEXT :: pattern where
  "RATE_TEXT = alt [lit_i ''limit exceeded'', lit_i ''too many'', lit_i ''rate'']"

definition faultForJsonRpcError :: "int \<Rightarrow> string \<Rightarrow> rpc_fault" where
  "faultForJsonRpcError code message =
     (if code = - 32601 \<or> code = - 32004 then FUnsupportedMethod
      else if rx_test PRUNED_TEXT message then FPrunedHistory
      else if rx_test UNKNOWN_BLOCK_TEXT message then FUnsupportedBlockTag
      else if code = - 32005 \<or> rx_test RATE_TEXT message then FRateLimited
      else if code \<le> - 32000 \<and> code > - 32100 then FServerError
      else FInvalidResponse)"

section \<open>The transport (transport.ts)\<close>

record transport_policy =
  pl_requestTimeoutMs :: int
  pl_maxRetries :: int
  pl_retryBackoffMs :: int
  pl_maxResponseBytes :: int
  pl_maxJsonDepth :: nat
  pl_maxLogRangeBlocks :: int
  pl_allowedHosts :: "string list"

definition DEFAULT_TRANSPORT_POLICY :: transport_policy where
  "DEFAULT_TRANSPORT_POLICY =
     \<lparr>pl_requestTimeoutMs = 10000, pl_maxRetries = 2, pl_retryBackoffMs = 500,
      pl_maxResponseBytes = 8 * 1024 * 1024, pl_maxJsonDepth = 64, pl_maxLogRangeBlocks = 2000,
      pl_allowedHosts = []\<rparr>"

text \<open>The list of private hosts is the one of the notification targets.\<close>

definition checkEndpointUrl ::
  "(string \<Rightarrow> url_parts option) \<Rightarrow> string \<Rightarrow> transport_policy \<Rightarrow> (rpc_fault \<times> string) option" where
  "checkEndpointUrl parse_url raw policy =
     (case parse_url raw of
        None \<Rightarrow> Some (FInsecureUrl, ''endpoint is not a valid URL'')
      | Some url \<Rightarrow>
          if ur_protocol url \<noteq> ''https:'' then Some (FInsecureUrl, ''endpoint must use https'')
          else if ur_username url \<noteq> [] \<or> ur_password url \<noteq> []
          then Some (FInsecureUrl, ''credentials must not be embedded in the URL'')
          else if list_ex (\<lambda>rx. rx_test rx (ur_hostname url)) PRIVATE_PATTERNS
          then Some (FHostNotAllowed, ''endpoint resolves to a private or link-local host'')
          else if pl_allowedHosts policy \<noteq> [] \<and> ur_hostname url \<notin> set (pl_allowedHosts policy)
          then Some (FHostNotAllowed, ''endpoint host is not on the allowlist'')
          else None)"

function jsonDepth :: "json \<Rightarrow> nat \<Rightarrow> nat" where
  "jsonDepth v depth =
     (if depth > 1000 then depth
      else case v of
        JArr xs \<Rightarrow> foldl max depth (map (\<lambda>x. jsonDepth x (depth + 1)) xs)
      | JObj ms \<Rightarrow> foldl max depth (map (\<lambda>m. jsonDepth (snd m) (depth + 1)) ms)
      | _ \<Rightarrow> depth)"
  by pat_completeness auto
termination by (relation "measure (\<lambda>(v, depth). 1001 - depth)") auto

declare jsonDepth.simps [simp del]

record rpc_fault_detail =
  fd_fault :: rpc_fault
  fd_endpointId :: string
  fd_trustDomain :: string
  fd_message :: string

datatype send_error = SendRefused send_refusal | RpcFailed rpc_fault_detail

text \<open>
  What one \<open>transport.send\<close> does: an answer with a result, an answer with an error, a typed failure of the
  transport itself, or any other exception, with whether the timeout had fired.
\<close>

datatype send_outcome =
  SentResult "json option"
| SentError int string
| SentRpcError rpc_fault_detail
| SentThrow bool

record endpoint_descriptor =
  ed_id :: string
  ed_trustDomain :: string

definition rpc_failure :: "endpoint_descriptor \<Rightarrow> rpc_fault \<Rightarrow> string \<Rightarrow> send_error" where
  "rpc_failure ep f message =
     RpcFailed \<lparr>fd_fault = f, fd_endpointId = ed_id ep, fd_trustDomain = ed_trustDomain ep, fd_message = message\<rparr>"

definition depth_of :: "json option \<Rightarrow> nat" where
  "depth_of result = (case result of None \<Rightarrow> 0 | Some v \<Rightarrow> jsonDepth v 0)"

text \<open>One attempt: an answer, a permanent error, or a transient fault to remember.\<close>

definition attempt_once ::
  "endpoint_descriptor \<Rightarrow> transport_policy \<Rightarrow> send_outcome \<Rightarrow> (rpc_fault \<times> string) + (send_error + json option)" where
  "attempt_once ep policy outcome =
     (case outcome of
        SentError code message \<Rightarrow>
          (let f = faultForJsonRpcError code message
           in if f \<notin> {FTimeout, FRateLimited, FServerError, FTransport} then Inr (Inl (rpc_failure ep f message))
              else Inl (f, message))
      | SentResult result \<Rightarrow>
          (if depth_of result > pl_maxJsonDepth policy
           then Inr (Inl (rpc_failure ep FResponseTooDeep
             (''response nesting depth '' @ show_nat (depth_of result) @ '' exceeds the limit'')))
           else Inr (Inr result))
      | SentRpcError detail \<Rightarrow> Inr (Inl (RpcFailed detail))
      | SentThrow aborted \<Rightarrow>
          Inl (if aborted then (FTimeout, ''request timed out'') else (FTransport, ''transport failure'')))"

text \<open>
  The loop over \<open>left\<close> more attempts after \<open>attempt\<close> were made; the trace holds the pauses between them.
\<close>

fun send_loop ::
  "(nat \<Rightarrow> send_outcome) \<Rightarrow> endpoint_descriptor \<Rightarrow> transport_policy \<Rightarrow> nat \<Rightarrow> nat \<Rightarrow> rpc_fault \<times> string
   \<Rightarrow> nat \<times> int list \<times> (send_error + json option)" where
  "send_loop send ep policy 0 attempt fault = (attempt, [], Inl (rpc_failure ep (fst fault) (snd fault)))"
| "send_loop send ep policy (Suc left) attempt fault =
     (case attempt_once ep policy (send attempt) of
        Inr ans \<Rightarrow> (attempt + 1, [], ans)
      | Inl fault' \<Rightarrow>
          (case send_loop send ep policy left (attempt + 1) fault' of
             (n, pauses, ans) \<Rightarrow>
               (n, (if int attempt < pl_maxRetries policy then [pl_retryBackoffMs policy * 2 ^ attempt] else []) @ pauses,
                ans)))"

definition sendChecked ::
  "(nat \<Rightarrow> send_outcome) \<Rightarrow> endpoint_descriptor \<Rightarrow> transport_policy \<Rightarrow> rpc_request
   \<Rightarrow> nat \<times> int list \<times> (send_error + json option)" where
  "sendChecked send ep policy req =
     (case assertSendable (rq_method req) of
        Inl e \<Rightarrow> (0, [], Inl (SendRefused e))
      | Inr _ \<Rightarrow> send_loop send ep policy (nat (pl_maxRetries policy + 1)) 0 (FTransport, ''no attempt was made''))"

section \<open>The reader of the agent (apps/agent: rpc.ts)\<close>

datatype read_failure = EndpointUnavailable | RpcUnavailable string | ReadThrew | BadOperation operation_error
  | NotSendable send_refusal

text \<open>A response: its status is good or not, its body absent or a list of chunks, or the fetch throws.\<close>

datatype http_response = FetchThrows | HttpAnswer bool "string list option"

fun read_chunks :: "int \<Rightarrow> string list \<Rightarrow> string \<Rightarrow> read_failure + string" where
  "read_chunks limit [] acc = Inr acc"
| "read_chunks limit (c # cs) acc =
     (if int (length (acc @ c)) > limit then Inl (RpcUnavailable ''response too large'')
      else read_chunks limit cs (acc @ c))"

definition member_at :: "(string \<times> json) list \<Rightarrow> string \<Rightarrow> json option" where
  "member_at ms k = map_of (rev ms) k"

definition accept_body :: "json \<Rightarrow> read_failure + json" where
  "accept_body decoded =
     (case decoded of
        JObj ms \<Rightarrow>
          if jsonDepth decoded 0 > pl_maxJsonDepth DEFAULT_TRANSPORT_POLICY
          then Inl (RpcUnavailable ''rpc response rejected'')
          else if member_at ms ''jsonrpc'' \<noteq> Some (JStr ''2.0'') \<or> member_at ms ''id'' \<noteq> Some (JNum 1)
            \<or> member_at ms ''error'' \<noteq> None
          then Inl (RpcUnavailable ''rpc response rejected'')
          else (case member_at ms ''result'' of
                  None \<Rightarrow> Inl (RpcUnavailable ''rpc response rejected'') | Some v \<Rightarrow> Inr v)
      | _ \<Rightarrow> Inl (RpcUnavailable ''rpc response rejected''))"

definition request_body :: "rpc_request \<Rightarrow> string" where
  "request_body r = json_print (JObj [(''jsonrpc'', JStr ''2.0''), (''id'', JNum 1),
     (''method'', JStr (rq_method r)), (''params'', JArr (rq_params r))])"

text \<open>The posts made and the answer.\<close>

definition read_endpoint ::
  "(string \<Rightarrow> string) \<Rightarrow> (string \<Rightarrow> url_parts option) \<Rightarrow> (string \<Rightarrow> json option) \<Rightarrow> (string \<Rightarrow> string \<Rightarrow> http_response)
   \<Rightarrow> string option \<Rightarrow> read_operation \<Rightarrow> (string \<times> rpc_request) list \<times> (read_failure + json)" where
  "read_endpoint keccak parse_url json_parse fetch url operation =
     (case url of None \<Rightarrow> ([], Inl EndpointUnavailable)
      | Some u \<Rightarrow>
          if checkEndpointUrl parse_url u DEFAULT_TRANSPORT_POLICY \<noteq> None then ([], Inl EndpointUnavailable)
          else case buildRequest keccak operation of
            Inl e \<Rightarrow> ([], Inl (BadOperation e))
          | Inr req \<Rightarrow>
              (case assertSendable (rq_method req) of
                 Inl e \<Rightarrow> ([], Inl (NotSendable e))
               | Inr _ \<Rightarrow>
                   ([(u, req)],
                    case fetch u (request_body req) of
                      FetchThrows \<Rightarrow> Inl ReadThrew
                    | HttpAnswer ok body \<Rightarrow>
                        (case body of
                           None \<Rightarrow> Inl (RpcUnavailable ''rpc unavailable'')
                         | Some chunks \<Rightarrow>
                             if \<not> ok then Inl (RpcUnavailable ''rpc unavailable'')
                             else and_then (read_chunks (pl_maxResponseBytes DEFAULT_TRANSPORT_POLICY) chunks [])
                               (\<lambda>text. case json_parse text of None \<Rightarrow> Inl ReadThrew | Some v \<Rightarrow> accept_body v)))))"

section \<open>Nothing here writes to a chain\<close>

lemma allowed_not_forbidden: "isAllowedMethod m \<Longrightarrow> \<not> isForbiddenMethod m"
proof -
  have "list_all (\<lambda>m. \<not> isForbiddenMethod m) ALLOWED_METHODS"
    by (simp add: ALLOWED_METHODS_def isForbiddenMethod_def FORBIDDEN_METHOD_PREFIXES_def FORBIDDEN_METHODS_def
        startsWith_def)
  then show "isAllowedMethod m \<Longrightarrow> \<not> isForbiddenMethod m" by (simp add: isAllowedMethod_def list_all_iff)
qed

lemma assertSendable_iff: "assertSendable m = Inr m' \<longleftrightarrow> m' = m \<and> isAllowedMethod m"
  using allowed_not_forbidden by (auto simp: assertSendable_def)

lemma buildRequest_allowed: "buildRequest keccak op = Inr r \<Longrightarrow> isAllowedMethod (rq_method r)"
  by (cases "(keccak, op)" rule: buildRequest.cases)
    (auto simp: request_def isAllowedMethod_def ALLOWED_METHODS_def and_then_Inr split: sum.splits)

text \<open>
  C28. Every operation that becomes a request becomes a sendable one, whose method no forbidden prefix matches;
  and a reader posts at most one request, of an allowed method, to a URL that passed the check.
\<close>

theorem reader_posts_only_reads:
  assumes "read_endpoint keccak parse_url json_parse fetch url operation = (posts, ans)"
  shows "length posts \<le> 1
    \<and> (\<forall>(u, r) \<in> set posts. url = Some u \<and> checkEndpointUrl parse_url u DEFAULT_TRANSPORT_POLICY = None
         \<and> buildRequest keccak operation = Inr r \<and> rq_method r \<in> set ALLOWED_METHODS
         \<and> \<not> list_ex (startsWith (rq_method r)) FORBIDDEN_METHOD_PREFIXES)
    \<and> (posts = [] \<longrightarrow> (\<exists>e. ans = Inl e))"
proof (cases "\<exists>u. url = Some u \<and> checkEndpointUrl parse_url u DEFAULT_TRANSPORT_POLICY = None")
  case True
  then obtain u where u: "url = Some u" "checkEndpointUrl parse_url u DEFAULT_TRANSPORT_POLICY = None" by blast
  show ?thesis
  proof (cases "buildRequest keccak operation")
    case (Inl e)
    with assms u show ?thesis by (auto simp: read_endpoint_def)
  next
    case (Inr r)
    have allowed: "isAllowedMethod (rq_method r)" by (rule buildRequest_allowed [OF Inr])
    then have "assertSendable (rq_method r) = Inr (rq_method r)" by (simp add: assertSendable_iff)
    with assms u Inr have "posts = [(u, r)]" by (simp add: read_endpoint_def)
    with u Inr allowed allowed_not_forbidden [OF allowed] show ?thesis
      by (simp add: isAllowedMethod_def isForbiddenMethod_def)
  qed
next
  case False
  then have "posts = [] \<and> ans = Inl EndpointUnavailable"
    using assms by (cases url) (simp_all add: read_endpoint_def)
  then show ?thesis by simp
qed

section \<open>A send ends, and retries only what is transient\<close>

definition transient_outcome :: "send_outcome \<Rightarrow> bool" where
  "transient_outcome outcome \<longleftrightarrow> (case outcome of SentThrow aborted \<Rightarrow> True
     | SentError code message \<Rightarrow> isTransient (faultForJsonRpcError code message) | _ \<Rightarrow> False)"

lemma attempt_once_Inl: "attempt_once ep policy outcome = Inl f \<Longrightarrow> transient_outcome outcome"
  by (auto simp: attempt_once_def transient_outcome_def isTransient_def TRANSIENT_FAULTS_def Let_def
      split: send_outcome.splits if_splits)

lemma attempt_once_Inr:
  "attempt_once ep policy outcome = Inr (Inr v) \<Longrightarrow> outcome = SentResult v \<and> depth_of v \<le> pl_maxJsonDepth policy"
  by (auto simp: attempt_once_def Let_def split: send_outcome.splits if_splits)

lemma send_loop_runs:
  "send_loop send ep policy left a fault = (n, pauses, ans) \<Longrightarrow> a + left = nat (pl_maxRetries policy + 1) \<Longrightarrow>
     a \<le> n \<and> n \<le> a + left \<and> (0 < left \<longrightarrow> a < n)
     \<and> (\<forall>k. a \<le> k \<and> Suc k < n \<longrightarrow> transient_outcome (send k))
     \<and> (\<forall>v. ans = Inr v \<longrightarrow> a < n \<and> send (n - 1) = SentResult v \<and> depth_of v \<le> pl_maxJsonDepth policy)
     \<and> pauses = map (\<lambda>k. pl_retryBackoffMs policy * 2 ^ k) [a..<n - 1]"
proof (induction left arbitrary: a fault pauses)
  case 0
  then show ?case by (auto simp: rpc_failure_def)
next
  case (Suc left)
  show ?case
  proof (cases "attempt_once ep policy (send a)")
    case (Inr r)
    with Suc.prems have "n = Suc a" "pauses = []" "ans = r" by simp_all
    with Inr show ?thesis by (auto dest: attempt_once_Inr)
  next
    case (Inl f)
    obtain n' pauses' ans' where rest: "send_loop send ep policy left (Suc a) f = (n', pauses', ans')"
      by (metis prod_cases3)
    with Inl Suc.prems have n: "n' = n" "ans' = ans" and pauses: "pauses =
        (if int a < pl_maxRetries policy then [pl_retryBackoffMs policy * 2 ^ a] else []) @ pauses'"
      by simp_all
    have ih: "Suc a \<le> n \<and> n \<le> Suc a + left \<and> (0 < left \<longrightarrow> Suc a < n)
      \<and> (\<forall>k. Suc a \<le> k \<and> Suc k < n \<longrightarrow> transient_outcome (send k))
      \<and> (\<forall>v. ans = Inr v \<longrightarrow> Suc a < n \<and> send (n - 1) = SentResult v \<and> depth_of v \<le> pl_maxJsonDepth policy)
      \<and> pauses' = map (\<lambda>k. pl_retryBackoffMs policy * 2 ^ k) [Suc a..<n - 1]"
      using Suc.IH [of "Suc a" f pauses'] rest Suc.prems(2) n by simp
    have "transient_outcome (send a)" using Inl by (rule attempt_once_Inl)
    with ih have trans: "\<forall>k. a \<le> k \<and> Suc k < n \<longrightarrow> transient_outcome (send k)"
      by (metis Suc_leI le_eq_less_or_eq)
    have "int a < pl_maxRetries policy \<longleftrightarrow> 0 < left" using Suc.prems(2) by auto
    moreover have "[a..<n - 1] = (if 0 < left then [a] else []) @ [Suc a..<n - 1]"
    proof (cases "0 < left")
      case True
      with ih have "a < n - 1" by linarith
      with True show ?thesis by (simp add: upt_conv_Cons)
    next
      case False
      with ih have "n = Suc a" by simp
      with False show ?thesis by simp
    qed
    ultimately have "pauses = map (\<lambda>k. pl_retryBackoffMs policy * 2 ^ k) [a..<n - 1]"
      using pauses ih by simp
    with ih trans show ?thesis by auto
  qed
qed

text \<open>
  C29. A checked send makes at most one attempt more than the policy has retries, none for a method that is not
  allowed; it goes on only after a transient outcome, pauses exponentially in between, and returns a result
  only when the last attempt answered it within the depth limit.
\<close>

theorem sendChecked_bounded:
  assumes "sendChecked send ep policy req = (n, pauses, ans)"
  shows "n \<le> nat (pl_maxRetries policy + 1) \<and> (rq_method req \<notin> set ALLOWED_METHODS \<longrightarrow> n = 0 \<and> pauses = [])
    \<and> (\<forall>k. Suc k < n \<longrightarrow> transient_outcome (send k))
    \<and> (\<forall>v. ans = Inr v \<longrightarrow> 0 < n \<and> send (n - 1) = SentResult v \<and> depth_of v \<le> pl_maxJsonDepth policy)
    \<and> pauses = map (\<lambda>k. pl_retryBackoffMs policy * 2 ^ k) [0..<n - 1]"
proof (cases "isAllowedMethod (rq_method req)")
  case True
  then have "assertSendable (rq_method req) = Inr (rq_method req)" by (simp add: assertSendable_iff)
  with assms have "send_loop send ep policy (nat (pl_maxRetries policy + 1)) 0 (FTransport, ''no attempt was made'')
      = (n, pauses, ans)" by (simp add: sendChecked_def)
  from send_loop_runs [OF this] True show ?thesis by (simp add: isAllowedMethod_def)
next
  case False
  then obtain e where "assertSendable (rq_method req) = Inl e"
    using assertSendable_iff by (cases "assertSendable (rq_method req)") auto
  with assms have "n = 0 \<and> pauses = [] \<and> ans = Inl (SendRefused e)" by (auto simp: sendChecked_def)
  then show ?thesis by simp
qed

text \<open>\<open>isTransient\<close> and the list inside the loop name the same faults, and no fault of \<open>NEVER_RETRY\<close> is one.\<close>

lemma transient_never_retry: "isTransient f \<longleftrightarrow> f \<in> {FTimeout, FRateLimited, FServerError, FTransport}"
  "f \<in> set NEVER_RETRY \<Longrightarrow> \<not> isTransient f"
  by (auto simp: isTransient_def TRANSIENT_FAULTS_def NEVER_RETRY_def)

text \<open>
  The list of private hosts misses the IPv6 form of an IPv4 address: an endpoint at the loopback address,
  written \<open>[::ffff:127.0.0.1]\<close>, whose host the platform spells as below, passes.
\<close>

lemma mapped_loopback_passes:
  "checkEndpointUrl (\<lambda>_. Some \<lparr>ur_protocol = ''https:'', ur_username = [], ur_password = [],
     ur_hostname = ''[::ffff:7f00:1]'', ur_port = []\<rparr>) raw DEFAULT_TRANSPORT_POLICY = None"
proof -
  have "list_all (\<lambda>rx. \<not> rx_test rx ''[::ffff:7f00:1]'') PRIVATE_PATTERNS" by code_simp
  then show ?thesis by (simp add: checkEndpointUrl_def DEFAULT_TRANSPORT_POLICY_def list_ex_iff list_all_iff)
qed

section \<open>Examples\<close>

definition example_url :: "string \<Rightarrow> url_parts option" where
  "example_url raw = Some \<lparr>ur_protocol = ''https:'', ur_username = [], ur_password = [],
     ur_hostname = ''rpc.io'', ur_port = []\<rparr>"

definition example_fetch :: "string \<Rightarrow> string \<Rightarrow> http_response" where
  "example_fetch url body = HttpAnswer True (Some [''x''])"

definition example_parse :: "string \<Rightarrow> json option" where
  "example_parse text = Some (JObj [(''jsonrpc'', JStr ''2.0''), (''id'', JNum 1), (''result'', JStr ''0x1'')])"

lemma example_url_ok: "checkEndpointUrl example_url raw DEFAULT_TRANSPORT_POLICY = None"
proof -
  have "list_all (\<lambda>rx. \<not> rx_test rx ''rpc.io'') PRIVATE_PATTERNS" by code_simp
  then show ?thesis
    by (simp add: checkEndpointUrl_def example_url_def DEFAULT_TRANSPORT_POLICY_def list_ex_iff list_all_iff)
qed

theorem reader_posts_only_reads_witness:
  "\<exists>posts ans. read_endpoint (\<lambda>s. s) example_url example_parse example_fetch (Some ''u'') EvmChainId = (posts, ans)
     \<and> length posts = 1 \<and> (\<forall>(u, r) \<in> set posts. rq_method r \<in> set ALLOWED_METHODS)"
proof -
  obtain posts ans where run: "read_endpoint (\<lambda>s. s) example_url example_parse example_fetch (Some ''u'') EvmChainId
      = (posts, ans)" by fastforce
  moreover have "assertSendable ''eth_chainId'' = Inr ''eth_chainId''"
    unfolding assertSendable_iff by (simp add: isAllowedMethod_def ALLOWED_METHODS_def)
  then have "length posts = 1"
    using run example_url_ok [of "''u''"] by (auto simp: read_endpoint_def request_def)
  ultimately show ?thesis using reader_posts_only_reads [OF run] by blast
qed

theorem sendChecked_bounded_witness:
  "\<exists>n pauses. sendChecked (\<lambda>k. if k = 0 then SentThrow True else SentResult (Some (JStr ''0x1'')))
      \<lparr>ed_id = ''e'', ed_trustDomain = ''t''\<rparr> DEFAULT_TRANSPORT_POLICY
      \<lparr>rq_method = ''eth_chainId'', rq_params = []\<rparr> = (n, pauses, Inr (Some (JStr ''0x1'')))
    \<and> n = 2 \<and> pauses = [500]"
proof -
  let ?send = "\<lambda>k. if k = 0 then SentThrow True else SentResult (Some (JStr ''0x1''))"
  have run: "sendChecked ?send \<lparr>ed_id = ''e'', ed_trustDomain = ''t''\<rparr> DEFAULT_TRANSPORT_POLICY
      \<lparr>rq_method = ''eth_chainId'', rq_params = []\<rparr> = (2, [500], Inr (Some (JStr ''0x1'')))"
    by (simp add: sendChecked_def assertSendable_iff [THEN iffD2] isAllowedMethod_def ALLOWED_METHODS_def
        DEFAULT_TRANSPORT_POLICY_def eval_nat_numeral attempt_once_def depth_of_def jsonDepth.simps)
  from sendChecked_bounded [OF run] run show ?thesis by blast
qed

end
