(* ===== verification/LogSource.thy ===== *)
theory LogSource
  imports Rpc Independence ReplayRuns Manifest
begin

text \<open>
  The log source of the agent (apps/agent: log-source.ts), which implements the port of the replay engine
  over the query-only reads: the decoders of untrusted answers, the grouping of endpoints into witnesses,
  the agreed head and the observation of one range by one witness. The reader is a parameter that may
  answer differently every time: it takes the number of reads made before, and the definitions thread it.
\<close>

section \<open>Decoding\<close>

text \<open>\<open>DecodeError\<close>, or any other exception: of the reader, or of the range check.\<close>

datatype source_error = DecodeFailure string | OtherFailure

text \<open>\<open>HEX_QUANTITY\<close> and \<open>HEX_DATA\<close>.\<close>

definition hex_quantity :: "string \<Rightarrow> bool" where
  "hex_quantity s \<longleftrightarrow> take 2 s = ''0x'' \<and> list_all is_lower_hex (drop 2 s)
     \<and> (drop 2 s = ''0'' \<or> drop 2 s \<noteq> [] \<and> hd (drop 2 s) \<noteq> CHR ''0'')"

definition hex_data :: "string \<Rightarrow> bool" where
  "hex_data s \<longleftrightarrow> take 2 s = ''0x'' \<and> list_all is_lower_hex (drop 2 s) \<and> even (length (drop 2 s))"

definition quantity :: "json option \<Rightarrow> source_error + int" where
  "quantity v =
     (case v of Some (JStr s) \<Rightarrow>
        if hex_quantity s \<and> length s \<le> 66 then Inr (abi_uint (drop 2 s))
        else Inl (DecodeFailure ''invalid RPC quantity'')
      | _ \<Rightarrow> Inl (DecodeFailure ''invalid RPC quantity''))"

definition smallQuantity :: "json option \<Rightarrow> source_error + int" where
  "smallQuantity v =
     and_then (quantity v) (\<lambda>n. if n > 1000000 then Inl (DecodeFailure ''index out of range'') else Inr n)"

definition hash32 :: "json option \<Rightarrow> source_error + string" where
  "hash32 v =
     (case v of Some (JStr s) \<Rightarrow> if hex_string 64 s then Inr s else Inl (DecodeFailure ''invalid bytes32'')
      | _ \<Rightarrow> Inl (DecodeFailure ''invalid bytes32''))"

definition json_members :: "json \<Rightarrow> source_error + (string \<Rightarrow> json option)" where
  "json_members v = (case v of JObj ms \<Rightarrow> Inr (member_at ms) | _ \<Rightarrow> Inl (DecodeFailure ''expected an object''))"

definition decodeBlock :: "string \<Rightarrow> int \<Rightarrow> json \<Rightarrow> source_error + block_fact" where
  "decodeBlock chainKey observedAt v =
     and_then (json_members v) (\<lambda>b.
     and_then (hash32 (b ''hash'')) (\<lambda>hash.
     and_then (quantity (b ''number'')) (\<lambda>number.
     and_then (hash32 (b ''parentHash'')) (\<lambda>parent.
     and_then (quantity (b ''timestamp'')) (\<lambda>timestamp.
       Inr \<lparr>bf_chainKey = chainKey, bf_blockHash = hash, bf_blockNumber = number, bf_parentHash = parent,
            bf_blockTimestamp = timestamp, bf_observedClass = ObservedAccepted, bf_observedAt = observedAt\<rparr>)))))"

definition decode_topics :: "json option \<Rightarrow> source_error + json list" where
  "decode_topics v =
     (case v of Some (JArr ts) \<Rightarrow>
        if length ts > 4 then Inl (DecodeFailure ''invalid topic set'') else Inr ts
      | _ \<Rightarrow> Inl (DecodeFailure ''invalid topic set''))"

definition text_matching :: "(string \<Rightarrow> bool) \<Rightarrow> string \<Rightarrow> json option \<Rightarrow> source_error + string" where
  "text_matching P complaint v =
     (case v of Some (JStr s) \<Rightarrow> if P s then Inr s else Inl (DecodeFailure complaint)
      | _ \<Rightarrow> Inl (DecodeFailure complaint))"

definition decodeLog :: "string \<Rightarrow> int \<Rightarrow> json \<Rightarrow> source_error + log_fact" where
  "decodeLog chainKey observedAt v =
     and_then (json_members v) (\<lambda>l.
     if l ''removed'' = Some (JBool True) then Inl (DecodeFailure ''provider returned a removed log'')
     else
     and_then (decode_topics (l ''topics'')) (\<lambda>topics.
     and_then (text_matching (hex_string 40) ''invalid log address'' (l ''address'')) (\<lambda>addr.
     and_then (text_matching hex_data ''invalid log data'' (l ''data'')) (\<lambda>data.
     and_then (hash32 (l ''blockHash'')) (\<lambda>blockHash.
     and_then (hash32 (l ''transactionHash'')) (\<lambda>txHash.
     and_then (smallQuantity (l ''logIndex'')) (\<lambda>logIndex.
     and_then (quantity (l ''blockNumber'')) (\<lambda>blockNumber.
     and_then (smallQuantity (l ''transactionIndex'')) (\<lambda>txIndex.
     and_then (parse_all (\<lambda>t. hash32 (Some t)) topics) (\<lambda>hashes.
       Inr \<lparr>lf_chainKey = chainKey, lf_blockHash = blockHash, lf_txHash = txHash, lf_logIndex = logIndex,
            lf_blockNumber = blockNumber, lf_txIndex = txIndex, lf_address = addr, lf_topics = hashes,
            lf_data = data, lf_observedAt = observedAt\<rparr>))))))))))"

section \<open>Witnesses\<close>

record chain_wiring =
  cn_chainKey :: string
  cn_endpoints :: "endpoint list"
  cn_maxRangeBlocks :: int
  cn_finality :: string

definition correlation_input :: "(endpoint \<Rightarrow> string option) \<Rightarrow> endpoint \<Rightarrow> endpoint_correlation_input" where
  "correlation_input hostnameOf e =
     \<lparr>ep_endpointId = en_id e, ep_trustDomain = en_trustDomain e, ep_secretRef = en_secretRef e,
      ep_hostname = hostnameOf e, ep_addresses = [], ep_cnames = []\<rparr>"

definition manifest_position :: "endpoint list \<Rightarrow> endpoint \<Rightarrow> nat" where
  "manifest_position endpoints e =
     (case map_of (map_of_entries (zip (map en_id endpoints) [0..<length endpoints])) (en_id e) of
        Some i \<Rightarrow> i | None \<Rightarrow> 0)"

definition first_position :: "endpoint list \<Rightarrow> endpoint list \<Rightarrow> nat" where
  "first_position endpoints g = (case g of [] \<Rightarrow> 0 | e # _ \<Rightarrow> manifest_position endpoints e)"

definition witness_groups ::
  "(string \<Rightarrow> string) \<Rightarrow> (string \<Rightarrow> string) \<Rightarrow> (endpoint \<Rightarrow> string option) \<Rightarrow> endpoint list \<Rightarrow> endpoint list list" where
  "witness_groups sha collate hostnameOf endpoints =
     (let merges = cr_merges (correlateEndpoints collate (map (correlation_input hostnameOf) endpoints) sha)
      in sort_key (first_position endpoints)
           (map (sort_key (manifest_position endpoints))
             (collapsedIndependenceGroups en_trustDomain en_providerGroup endpoints en_id merges)))"

definition witness_key :: "endpoint list \<Rightarrow> string" where
  "witness_key g = join ''+'' (sort (uniq (map en_providerGroup g)))"

definition byWitness ::
  "(string \<Rightarrow> string) \<Rightarrow> (string \<Rightarrow> string) \<Rightarrow> (endpoint \<Rightarrow> string option) \<Rightarrow> endpoint list
   \<Rightarrow> (string \<times> endpoint list) list" where
  "byWitness sha collate hostnameOf endpoints =
     map_of_entries (map (\<lambda>g. (witness_key g, g)) (witness_groups sha collate hostnameOf endpoints))"

section \<open>The source (createLogSource)\<close>

type_synonym endpoint_read = "nat \<Rightarrow> endpoint \<Rightarrow> read_operation \<Rightarrow> json option"

record source_options =
  so_chains :: "chain_wiring list"
  so_sha :: "string \<Rightarrow> string"
  so_collate :: "string \<Rightarrow> string"
  so_hostnameOf :: "endpoint \<Rightarrow> string option"
  so_now :: int

definition wiring_of :: "source_options \<Rightarrow> string \<Rightarrow> chain_wiring option" where
  "wiring_of opts chainKey = map_of (map_of_entries (map (\<lambda>c. (cn_chainKey c, c)) (so_chains opts))) chainKey"

definition groups_of :: "source_options \<Rightarrow> string \<Rightarrow> (string \<times> endpoint list) list" where
  "groups_of opts chainKey =
     (case wiring_of opts chainKey of None \<Rightarrow> []
      | Some c \<Rightarrow> byWitness (so_sha opts) (so_collate opts) (so_hostnameOf opts) (cn_endpoints c))"

definition endpointsOf :: "source_options \<Rightarrow> string \<Rightarrow> string \<Rightarrow> endpoint list" where
  "endpointsOf opts chainKey grp = (case map_of (groups_of opts chainKey) grp of None \<Rightarrow> [] | Some g \<Rightarrow> g)"

text \<open>\<open>readOne\<close>: the endpoints of one witness in turn; \<open>None\<close> of the reader is an exception.\<close>

fun read_in_turn :: "endpoint_read \<Rightarrow> read_operation \<Rightarrow> endpoint list \<Rightarrow> source_error \<Rightarrow> nat \<Rightarrow> nat \<times> (source_error + json)" where
  "read_in_turn net op [] lastError n = (n, Inl lastError)"
| "read_in_turn net op (e # es) lastError n =
     (case net n e op of Some v \<Rightarrow> (Suc n, Inr v) | None \<Rightarrow> read_in_turn net op es OtherFailure (Suc n))"

definition readOne ::
  "source_options \<Rightarrow> endpoint_read \<Rightarrow> string \<Rightarrow> string \<Rightarrow> read_operation \<Rightarrow> nat \<Rightarrow> nat \<times> (source_error + json)" where
  "readOne opts net chainKey grp op n =
     read_in_turn net op (endpointsOf opts chainKey grp) (DecodeFailure ''no endpoint in this provider group'') n"

definition witness_head ::
  "source_options \<Rightarrow> endpoint_read \<Rightarrow> string \<Rightarrow> string \<Rightarrow> nat \<Rightarrow> nat \<times> (source_error + int)" where
  "witness_head opts net chainKey grp n =
     (if (case wiring_of opts chainKey of None \<Rightarrow> False | Some c \<Rightarrow> cn_finality c = ''settled-quorum'')
      then (case readOne opts net chainKey grp (BlockByRef (RefTag TagFinalized)) n of
              (n', r) \<Rightarrow> (n', and_then r (\<lambda>v. and_then (decodeBlock chainKey (so_now opts) v)
                                               (\<lambda>b. Inr (bf_blockNumber b)))))
      else (case readOne opts net chainKey grp HeadBlockNumber n of
              (n', r) \<Rightarrow> (n', and_then r (\<lambda>v. quantity (Some v)))))"

fun lowest_head ::
  "source_options \<Rightarrow> endpoint_read \<Rightarrow> string \<Rightarrow> string list \<Rightarrow> int option \<Rightarrow> nat \<Rightarrow> nat \<times> (source_error + int)" where
  "lowest_head opts net chainKey [] agreed n =
     (n, case agreed of None \<Rightarrow> Inl (DecodeFailure ''no head could be established'') | Some h \<Rightarrow> Inr h)"
| "lowest_head opts net chainKey (g # gs) agreed n =
     (case witness_head opts net chainKey g n of
        (n', Inl e) \<Rightarrow> (n', Inl e)
      | (n', Inr head) \<Rightarrow>
          lowest_head opts net chainKey gs
            (Some (case agreed of None \<Rightarrow> head | Some a \<Rightarrow> if head < a then head else a)) n')"

definition providerGroups :: "source_options \<Rightarrow> string \<Rightarrow> string list" where
  "providerGroups opts chainKey = map fst (groups_of opts chainKey)"

definition maxRangeBlocks :: "source_options \<Rightarrow> string \<Rightarrow> int" where
  "maxRangeBlocks opts chainKey = (case wiring_of opts chainKey of None \<Rightarrow> 1 | Some c \<Rightarrow> cn_maxRangeBlocks c)"

definition agreedAcceptedHead ::
  "source_options \<Rightarrow> endpoint_read \<Rightarrow> string \<Rightarrow> nat \<Rightarrow> nat \<times> (source_error + int)" where
  "agreedAcceptedHead opts net chainKey n =
     (if providerGroups opts chainKey = [] then (n, Inl (DecodeFailure ''no provider group configured''))
      else lowest_head opts net chainKey (providerGroups opts chainKey) None n)"

fun read_blocks ::
  "source_options \<Rightarrow> endpoint_read \<Rightarrow> string \<Rightarrow> string \<Rightarrow> int list \<Rightarrow> nat \<Rightarrow> source_error + block_fact list" where
  "read_blocks opts net chainKey grp [] n = Inr []"
| "read_blocks opts net chainKey grp (h # hs) n =
     (case readOne opts net chainKey grp (BlockByRef (RefNumber h)) n of
        (n', r) \<Rightarrow>
          and_then r (\<lambda>v.
          and_then (decodeBlock chainKey (so_now opts) v) (\<lambda>b.
          and_then (read_blocks opts net chainKey grp hs n') (\<lambda>bs. Inr (b # bs)))))"

definition range_heights :: "block_range \<Rightarrow> log_fact list \<Rightarrow> int list" where
  "range_heights rng logs = sort (uniq (fromBlock rng # toBlock rng # map lf_blockNumber logs))"

definition observe_range ::
  "source_options \<Rightarrow> string \<Rightarrow> string \<Rightarrow> block_range \<Rightarrow> log_fact list \<Rightarrow> block_fact list
   \<Rightarrow> replay_reason + range_observation" where
  "observe_range opts chainKey grp rng logs blocks =
     (case (find (\<lambda>b. bf_blockNumber b = fromBlock rng) blocks, find (\<lambda>b. bf_blockNumber b = toBlock rng) blocks) of
        (Some start, Some final) \<Rightarrow>
          if list_ex (\<lambda>l. lf_blockHash l \<notin> bf_blockHash ` set blocks) logs then Inl MISSING_BLOCK
          else Inr \<lparr>ro_providerGroup = grp, ro_range = rng, ro_startBlockHash = bf_blockHash start,
                 ro_endBlockHash = bf_blockHash final, ro_logCount = int (length logs), ro_logs = logs,
                 ro_blocks = blocks, ro_complete = True,
                 ro_viaArchive = list_ex (\<lambda>e. en_archiveDepth e = ArchiveFull) (endpointsOf opts chainKey grp)\<rparr>
      | _ \<Rightarrow> Inl SILENT_TRUNCATION)"

definition fetch_reason :: "source_error \<Rightarrow> replay_reason" where
  "fetch_reason e = (case e of DecodeFailure _ \<Rightarrow> EMPTY_RESPONSE_AMBIGUITY | OtherFailure \<Rightarrow> RETRY_BUDGET_EXHAUSTED)"

definition array_items :: "json \<Rightarrow> source_error + json list" where
  "array_items v = (case v of JArr xs \<Rightarrow> Inr xs | _ \<Rightarrow> Inl (DecodeFailure ''log response is not an array''))"

definition fetchRange ::
  "source_options \<Rightarrow> endpoint_read \<Rightarrow> string \<Rightarrow> string \<Rightarrow> block_range \<Rightarrow> replay_reason \<times> string + range_observation" where
  "fetchRange opts net chainKey grp rng =
     (let answered =
        (case assertLogRange (fromBlock rng) (toBlock rng) (maxRangeBlocks opts chainKey) of
           Inl _ \<Rightarrow> Inl OtherFailure
         | Inr _ \<Rightarrow>
             (case readOne opts net chainKey grp (ReadLogs (fromBlock rng) (toBlock rng) None None) 0 of
                (n, r) \<Rightarrow>
                  and_then r (\<lambda>v.
                  and_then (array_items v) (\<lambda>items.
                  and_then (parse_all (decodeLog chainKey (so_now opts)) items) (\<lambda>logs.
                  and_then (read_blocks opts net chainKey grp (range_heights rng logs) n) (\<lambda>blocks.
                    Inr (observe_range opts chainKey grp rng logs blocks)))))))
      in case answered of
           Inl e \<Rightarrow> Inl (fetch_reason e, grp)
         | Inr (Inl reason) \<Rightarrow> Inl (reason, grp)
         | Inr (Inr ob) \<Rightarrow> Inr ob)"

text \<open>
  The port of the replay engine: \<open>heads\<close> is what the network answered to the head reads, \<open>net k\<close> answers
  the reads of the \<open>k\<close>th fetch.
\<close>

definition source_port :: "source_options \<Rightarrow> (string \<Rightarrow> int) \<Rightarrow> (nat \<Rightarrow> endpoint_read) \<Rightarrow> log_source" where
  "source_port opts heads net =
     \<lparr>lp_agreedAcceptedHead = heads, lp_providerGroups = providerGroups opts,
      lp_maxRangeBlocks = (\<lambda>chainKey _. maxRangeBlocks opts chainKey),
      lp_fetchRange = (\<lambda>k chainKey grp rng. fetchRange opts (net k) chainKey grp rng)\<rparr>"

section \<open>What a decoded fact looks like\<close>

lemma and_then_Inr_iff: "and_then r f = Inr y \<longleftrightarrow> (\<exists>x. r = Inr x \<and> f x = Inr y)"
  by (cases r) simp_all

lemma and_then_Inl_iff: "and_then r f = Inl e \<longleftrightarrow> r = Inl e \<or> (\<exists>x. r = Inr x \<and> f x = Inl e)"
  by (cases r) simp_all

lemma hash32_Inr: "hash32 v = Inr h \<Longrightarrow> hex_string 64 h"
  by (auto simp: hash32_def split: option.splits json.splits if_splits)

lemma text_matching_Inr: "text_matching P complaint v = Inr s \<Longrightarrow> P s"
  by (auto simp: text_matching_def split: option.splits json.splits if_splits)

lemma of_char_int:
  "numeral n \<le> (of_char c :: nat) \<longleftrightarrow> numeral n \<le> (of_char c :: int)"
  "(of_char c :: nat) \<le> numeral n \<longleftrightarrow> (of_char c :: int) \<le> numeral n"
proof -
  have eq: "(of_char c :: int) = int (of_char c)" by (rule of_nat_of_char [symmetric])
  show "numeral n \<le> (of_char c :: nat) \<longleftrightarrow> numeral n \<le> (of_char c :: int)"
    unfolding eq by (metis of_nat_le_iff of_nat_numeral)
  show "(of_char c :: nat) \<le> numeral n \<longleftrightarrow> (of_char c :: int) \<le> numeral n"
    unfolding eq by (metis of_nat_le_iff of_nat_numeral)
qed

lemma hex_value_nonneg: "is_lower_hex c \<Longrightarrow> 0 \<le> Events.hex_value c"
  by (auto simp: Events.hex_value_def is_lower_hex_def is_digit_def Let_def of_char_int)

lemma abi_uint_nonneg: "list_all is_lower_hex w \<Longrightarrow> 0 \<le> abi_uint w"
proof -
  have "0 \<le> n \<Longrightarrow> list_all is_lower_hex w \<Longrightarrow> 0 \<le> foldl (\<lambda>n c. n * 16 + Events.hex_value c) n w" for n
  proof (induction w arbitrary: n)
    case (Cons c w)
    have "0 \<le> Events.hex_value c" using Cons.prems(2) by (simp add: hex_value_nonneg)
    with Cons show ?case by simp
  qed simp
  from this [of 0] show "list_all is_lower_hex w \<Longrightarrow> 0 \<le> abi_uint w" by (simp add: abi_uint_def)
qed

lemma quantity_Inr: "quantity v = Inr n \<Longrightarrow> 0 \<le> n"
  by (auto simp: quantity_def hex_quantity_def split: option.splits json.splits if_splits intro: abi_uint_nonneg)

lemma smallQuantity_Inr: "smallQuantity v = Inr n \<Longrightarrow> 0 \<le> n \<and> n \<le> 1000000"
  by (auto simp: smallQuantity_def and_then_Inr_iff dest: quantity_Inr split: if_splits)

definition block_shape :: "string \<Rightarrow> block_fact \<Rightarrow> bool" where
  "block_shape chainKey b \<longleftrightarrow> bf_chainKey b = chainKey \<and> hex_string 64 (bf_blockHash b)
     \<and> hex_string 64 (bf_parentHash b) \<and> 0 \<le> bf_blockNumber b \<and> 0 \<le> bf_blockTimestamp b
     \<and> bf_observedClass b = ObservedAccepted"

definition log_shape :: "string \<Rightarrow> log_fact \<Rightarrow> bool" where
  "log_shape chainKey l \<longleftrightarrow> lf_chainKey l = chainKey \<and> hex_string 64 (lf_blockHash l) \<and> hex_string 64 (lf_txHash l)
     \<and> hex_string 40 (lf_address l) \<and> hex_data (lf_data l) \<and> length (lf_topics l) \<le> 4
     \<and> list_all (hex_string 64) (lf_topics l) \<and> 0 \<le> lf_blockNumber l
     \<and> 0 \<le> lf_logIndex l \<and> lf_logIndex l \<le> 1000000 \<and> 0 \<le> lf_txIndex l \<and> lf_txIndex l \<le> 1000000"

lemma decodeBlock_shape: "decodeBlock chainKey t v = Inr b \<Longrightarrow> block_shape chainKey b"
  by (auto simp: decodeBlock_def and_then_Inr_iff block_shape_def dest: hash32_Inr quantity_Inr)

lemma parse_all_Inr:
  "parse_all f xs = Inr ys \<Longrightarrow> length ys = length xs \<and> (\<forall>y \<in> set ys. \<exists>x \<in> set xs. f x = Inr y)"
  by (induction xs arbitrary: ys) (fastforce simp: and_then_Inr_iff)+

lemma decodeLog_shape:
  assumes "decodeLog chainKey t v = Inr l"
  shows "log_shape chainKey l"
proof -
  from assms obtain m topics addr data bh th li bn ti hashes where
      topics: "decode_topics (m ''topics'') = Inr topics"
    and texts: "text_matching (hex_string 40) ''invalid log address'' (m ''address'') = Inr addr"
      "text_matching hex_data ''invalid log data'' (m ''data'') = Inr data"
    and words: "hash32 (m ''blockHash'') = Inr bh" "hash32 (m ''transactionHash'') = Inr th"
    and numbers: "smallQuantity (m ''logIndex'') = Inr li" "quantity (m ''blockNumber'') = Inr bn"
      "smallQuantity (m ''transactionIndex'') = Inr ti"
    and hashes: "parse_all (\<lambda>t. hash32 (Some t)) topics = Inr hashes"
    and l: "l = \<lparr>lf_chainKey = chainKey, lf_blockHash = bh, lf_txHash = th, lf_logIndex = li,
            lf_blockNumber = bn, lf_txIndex = ti, lf_address = addr, lf_topics = hashes,
            lf_data = data, lf_observedAt = t\<rparr>"
    unfolding decodeLog_def and_then_Inr_iff by (auto simp: and_then_Inr_iff split: if_splits)
  have rest: "hex_string 64 bh" "hex_string 64 th" "hex_string 40 addr" "hex_data data" "0 \<le> bn"
    "0 \<le> li \<and> li \<le> 1000000" "0 \<le> ti \<and> ti \<le> 1000000"
    using texts words numbers hash32_Inr quantity_Inr smallQuantity_Inr text_matching_Inr by blast+
  have "length topics \<le> 4" using topics by (auto simp: decode_topics_def split: option.splits json.splits if_splits)
  moreover have "length hashes = length topics" "\<forall>h \<in> set hashes. hex_string 64 h"
    using parse_all_Inr [OF hashes] hash32_Inr by blast+
  ultimately show ?thesis using rest l by (simp add: log_shape_def list_all_iff)
qed

lemma read_blocks_shape:
  "read_blocks opts net chainKey grp hs n = Inr bs \<Longrightarrow> list_all (block_shape chainKey) bs \<and> length bs = length hs"
proof (induction hs arbitrary: n bs)
  case (Cons h hs)
  obtain n' r where "readOne opts net chainKey grp (BlockByRef (RefNumber h)) n = (n', r)" by fastforce
  with Cons.prems obtain v b bs' where "r = Inr v" "decodeBlock chainKey (so_now opts) v = Inr b"
    "read_blocks opts net chainKey grp hs n' = Inr bs'" "bs = b # bs'"
    by (auto simp: and_then_Inr_iff)
  with Cons.IH [of n' bs'] decodeBlock_shape show ?case by auto
qed simp

lemma observe_range_Inl:
  "observe_range opts chainKey grp rng logs blocks = Inl r \<Longrightarrow> r = SILENT_TRUNCATION \<or> r = MISSING_BLOCK"
  by (auto simp: observe_range_def split: option.splits if_splits)

text \<open>
  C12. An observation is complete and well formed, or it is a typed failure. Whatever a provider answers, the
  observation of a range holds the blocks of both ends with their hashes, a block for every log, decoded
  fields only, and spans no more than the limit; anything else is one of four reasons, against the same
  witness.
\<close>

theorem fetchRange_well_formed:
  "case fetchRange opts net chainKey grp rng of
     Inl (reason, g) \<Rightarrow> g = grp
       \<and> reason \<in> {EMPTY_RESPONSE_AMBIGUITY, RETRY_BUDGET_EXHAUSTED, SILENT_TRUNCATION, MISSING_BLOCK}
   | Inr ob \<Rightarrow> ro_range ob = rng \<and> ro_providerGroup ob = grp
       \<and> fromBlock rng \<le> toBlock rng \<and> toBlock rng - fromBlock rng < maxRangeBlocks opts chainKey
       \<and> ro_logCount ob = int (length (ro_logs ob))
       \<and> (\<exists>b \<in> set (ro_blocks ob). bf_blockNumber b = fromBlock rng \<and> bf_blockHash b = ro_startBlockHash ob)
       \<and> (\<exists>b \<in> set (ro_blocks ob). bf_blockNumber b = toBlock rng \<and> bf_blockHash b = ro_endBlockHash ob)
       \<and> (\<forall>l \<in> set (ro_logs ob). log_shape chainKey l \<and> lf_blockHash l \<in> bf_blockHash ` set (ro_blocks ob))
       \<and> (\<forall>b \<in> set (ro_blocks ob). block_shape chainKey b)"
proof (cases "fetchRange opts net chainKey grp rng")
  case (Inl e)
  then show ?thesis
    by (auto simp: fetchRange_def Let_def and_then_Inr_iff fetch_reason_def dest: observe_range_Inl
        split: sum.splits source_error.splits prod.splits)
next
  case (Inr ob)
  obtain n r where read: "readOne opts net chainKey grp (ReadLogs (fromBlock rng) (toBlock rng) None None) 0 = (n, r)"
    by fastforce
  have range: "assertLogRange (fromBlock rng) (toBlock rng) (maxRangeBlocks opts chainKey) = Inr ()"
    using Inr by (auto simp: fetchRange_def split: sum.splits)
  with Inr read obtain v items logs blocks where
      logs: "parse_all (decodeLog chainKey (so_now opts)) items = Inr logs"
    and blocks: "read_blocks opts net chainKey grp (range_heights rng logs) n = Inr blocks"
    and ob: "observe_range opts chainKey grp rng logs blocks = Inr ob"
    by (auto simp: fetchRange_def Let_def and_then_Inr_iff split: sum.splits)
  have shapes: "\<forall>l \<in> set logs. log_shape chainKey l" "\<forall>b \<in> set blocks. block_shape chainKey b"
    using parse_all_Inr [OF logs] decodeLog_shape read_blocks_shape [OF blocks] by (auto simp: list_all_iff)
  from ob obtain b c where ends: "find (\<lambda>b. bf_blockNumber b = fromBlock rng) blocks = Some b"
      "find (\<lambda>b. bf_blockNumber b = toBlock rng) blocks = Some c"
    and known: "\<forall>l \<in> set logs. lf_blockHash l \<in> bf_blockHash ` set blocks"
    and eq: "ob = \<lparr>ro_providerGroup = grp, ro_range = rng, ro_startBlockHash = bf_blockHash b,
        ro_endBlockHash = bf_blockHash c, ro_logCount = int (length logs), ro_logs = logs, ro_blocks = blocks,
        ro_complete = True, ro_viaArchive = list_ex (\<lambda>e. en_archiveDepth e = ArchiveFull) (endpointsOf opts chainKey grp)\<rparr>"
    by (auto simp: observe_range_def list_ex_iff split: option.splits if_splits)
  have "b \<in> set blocks \<and> bf_blockNumber b = fromBlock rng" "c \<in> set blocks \<and> bf_blockNumber c = toBlock rng"
    using ends by (auto simp: find_Some_iff)
  moreover have "fromBlock rng \<le> toBlock rng" "toBlock rng - fromBlock rng < maxRangeBlocks opts chainKey"
    using range by (auto simp: assertLogRange_def Let_def split: if_splits)
  ultimately show ?thesis using Inr eq shapes known by auto
qed

section \<open>The agreed head\<close>

lemma lowest_head_runs:
  "lowest_head opts net chainKey gs agreed n = (n', Inr h) \<Longrightarrow>
     \<exists>hs. length hs = length gs
       \<and> (\<forall>i < length gs. \<exists>k k'. witness_head opts net chainKey (gs ! i) k = (k', Inr (hs ! i)))
       \<and> (case agreed of None \<Rightarrow> hs \<noteq> [] \<and> h = Min (set hs) | Some a \<Rightarrow> h = Min (insert a (set hs)))"
proof (induction gs arbitrary: agreed n)
  case Nil
  then show ?case by (auto split: option.splits)
next
  case (Cons g gs)
  obtain k' head where head: "witness_head opts net chainKey g n = (k', Inr head)"
    and rest: "lowest_head opts net chainKey gs (Some (case agreed of None \<Rightarrow> head | Some a \<Rightarrow> if head < a then head else a)) k'
      = (n', Inr h)"
    using Cons.prems by (auto split: prod.splits sum.splits)
  from Cons.IH [OF rest] obtain hs where hs: "length hs = length gs"
    "\<forall>i < length gs. \<exists>k k'. witness_head opts net chainKey (gs ! i) k = (k', Inr (hs ! i))"
    "h = Min (insert (case agreed of None \<Rightarrow> head | Some a \<Rightarrow> if head < a then head else a) (set hs))"
    by auto
  have "\<forall>i < length (g # gs). \<exists>k k'. witness_head opts net chainKey ((g # gs) ! i) k = (k', Inr ((head # hs) ! i))"
    using head hs(2) by (auto simp: less_Suc_eq_0_disj)
  moreover have "case agreed of None \<Rightarrow> h = Min (set (head # hs)) | Some a \<Rightarrow> h = Min (insert a (set (head # hs)))"
    using hs(3) by (cases "set hs = {}") (auto simp: insert_commute min_def split: option.splits)
  ultimately show ?case using hs(1) by (intro exI [of _ "head # hs"]) (auto split: option.splits)
qed

text \<open>
  C13. The agreed head is the lowest: every witness answered a head, no witness's is below the agreed one, and
  one of them is it. A height that some witness has not seen is never replayed.
\<close>

theorem agreedAcceptedHead_lowest:
  assumes "agreedAcceptedHead opts net chainKey n = (n', Inr h)"
  shows "\<exists>hs. length hs = length (providerGroups opts chainKey) \<and> h \<in> set hs \<and> (\<forall>x \<in> set hs. h \<le> x)
    \<and> (\<forall>i < length hs. \<exists>k k'. witness_head opts net chainKey (providerGroups opts chainKey ! i) k = (k', Inr (hs ! i)))"
proof -
  have "lowest_head opts net chainKey (providerGroups opts chainKey) None n = (n', Inr h)"
    using assms by (auto simp: agreedAcceptedHead_def split: if_splits)
  from lowest_head_runs [OF this] obtain hs where "length hs = length (providerGroups opts chainKey)"
    "\<forall>i < length (providerGroups opts chainKey).
       \<exists>k k'. witness_head opts net chainKey (providerGroups opts chainKey ! i) k = (k', Inr (hs ! i))"
    "hs \<noteq> []" "h = Min (set hs)"
    by auto
  then show ?thesis by (intro exI [of _ hs]) (simp add: Min_in)
qed

section \<open>Witnesses are independent\<close>

definition same_witness :: "(endpoint \<Rightarrow> string option) \<Rightarrow> endpoint \<Rightarrow> endpoint \<Rightarrow> bool" where
  "same_witness hostnameOf x y \<longleftrightarrow> en_trustDomain x = en_trustDomain y \<or> en_providerGroup x = en_providerGroup y
     \<or> en_secretRef x = en_secretRef y \<or> (hostnameOf x \<noteq> None \<and> hostnameOf x = hostnameOf y)"

lemma same_endpoint_merged:
  assumes "x \<in> set endpoints" and "y \<in> set endpoints"
    and "en_trustDomain x \<noteq> en_trustDomain y"
    and "en_secretRef x = en_secretRef y \<or> (hostnameOf x \<noteq> None \<and> hostnameOf x = hostnameOf y)"
  shows "(x, y) \<in> merged_pairs en_id
    (cr_merges (correlateEndpoints collate (map (correlation_input hostnameOf) endpoints) sha)) (set endpoints)"
proof -
  let ?in = "correlation_input hostnameOf"
  let ?ordered = "sort_key (\<lambda>e. collate (ep_endpointId e)) (map ?in endpoints)"
  have "?in x \<noteq> ?in y" using assms(3) by (auto simp: correlation_input_def)
  then have pair: "(?in x, ?in y) \<in> set (pairs_in_order ?ordered) \<or> (?in y, ?in x) \<in> set (pairs_in_order ?ordered)"
    using pairs_in_order_complete [of "?in x" ?ordered "?in y"] assms(1,2) by auto
  have same: "same_endpoint (?in x) (?in y)" using assms(4) by (simp add: same_endpoint_def correlation_input_def)
  then have same': "same_endpoint (?in y) (?in x)" unfolding same_endpoint_def by metis
  have other: "ep_trustDomain (?in x) \<noteq> ep_trustDomain (?in y)" "ep_trustDomain (?in y) \<noteq> ep_trustDomain (?in x)"
    using assms(3) by (simp_all add: correlation_input_def)
  have ids: "ep_endpointId (?in x) = en_id x" "ep_endpointId (?in y) = en_id y"
    by (simp_all add: correlation_input_def)
  let ?merges = "cr_merges (correlateEndpoints collate (map ?in endpoints) sha)"
  have "(ep_endpointId (?in x), ep_endpointId (?in y)) \<in> set ?merges
      \<or> (ep_endpointId (?in y), ep_endpointId (?in x)) \<in> set ?merges"
    unfolding set_merges using pair same same' other by blast
  then have "(en_id x, en_id y) \<in> set ?merges \<or> (en_id y, en_id x) \<in> set ?merges" by (simp only: ids)
  with assms(1,2) show ?thesis by (simp add: merged_pairs_def)
qed

lemma mset_witness_groups: "mset (concat (witness_groups sha collate hostnameOf endpoints)) = mset endpoints"
proof -
  have perm: "mset (concat (sort_key f (map (sort_key g) gs))) = mset (concat gs)" for f :: "'a list \<Rightarrow> nat" and g :: "'a \<Rightarrow> nat" and gs
  proof -
    have "mset (concat xs) = sum_mset (image_mset mset (mset xs))" for xs :: "'a list list"
      by (induction xs) simp_all
    then show ?thesis by (simp add: mset_concat multiset.map_comp comp_def)
  qed
  show ?thesis
    unfolding witness_groups_def Let_def perm collapsed_eq using independenceGroups_domains by blast
qed

lemma failure_domains_apart:
  assumes "distinct (map en_id endpoints)"
  shows "distinct (concat (witness_groups sha collate hostnameOf endpoints))
    \<and> set (concat (witness_groups sha collate hostnameOf endpoints)) = set endpoints
    \<and> (\<forall>g \<in> set (witness_groups sha collate hostnameOf endpoints).
         \<forall>h \<in> set (witness_groups sha collate hostnameOf endpoints).
         \<forall>x \<in> set g. \<forall>y \<in> set h. same_witness hostnameOf x y \<longrightarrow> g = h)"
proof -
  let ?groups = "witness_groups sha collate hostnameOf endpoints"
  let ?merges = "cr_merges (correlateEndpoints collate (map (correlation_input hostnameOf) endpoints) sha)"
  let ?raw = "collapsedIndependenceGroups en_trustDomain en_providerGroup endpoints en_id ?merges"
  have d: "distinct endpoints" using assms by (simp add: distinct_map)
  then have dist: "distinct (concat ?groups)"
    using mset_witness_groups [of sha collate hostnameOf endpoints] by (metis mset_eq_imp_distinct_iff)
  have set_eq: "set (concat ?groups) = set endpoints"
    using mset_witness_groups [of sha collate hostnameOf endpoints] by (metis mset_eq_setD)
  have members: "set ` set ?groups = set ` set ?raw"
    by (simp add: witness_groups_def Let_def image_image)
  have "g = h" if g: "g \<in> set ?groups" and h: "h \<in> set ?groups" and x: "x \<in> set g" and y: "y \<in> set h"
    and same: "same_witness hostnameOf x y" for g h x y
  proof -
    have xy: "x \<in> set endpoints" "y \<in> set endpoints" using set_eq g h x y by auto
    have "(x, y) \<in> linked en_trustDomain en_providerGroup (set endpoints) \<union> merged_pairs en_id ?merges (set endpoints)"
    proof (cases "en_trustDomain x = en_trustDomain y \<or> en_providerGroup x = en_providerGroup y")
      case True
      with xy show ?thesis by (simp add: linked_def)
    next
      case False
      then have "en_secretRef x = en_secretRef y \<or> (hostnameOf x \<noteq> None \<and> hostnameOf x = hostnameOf y)"
        using same unfolding same_witness_def by blast
      with same_endpoint_merged [OF xy] False show ?thesis by blast
    qed
    then obtain c where c: "c \<in> set ?raw" "x \<in> set c" "y \<in> set c"
      using collapsed_failure_domains_iff [OF assms xy, of en_trustDomain en_providerGroup ?merges] by blast
    have "set c \<in> set ` set ?groups" unfolding members using c(1) by (rule imageI)
    then obtain c' where c': "c' \<in> set ?groups" "x \<in> set c'" "y \<in> set c'" using c by auto
    have apart: "u = v" if "u \<in> set ?groups" "v \<in> set ?groups" "z \<in> set u" "z \<in> set v" for u v z
      using dist that by (auto simp: distinct_concat_iff)
    from apart [OF g c'(1) x c'(2)] apart [OF h c'(1) y c'(3)] show "g = h" by simp
  qed
  with dist set_eq show ?thesis by blast
qed

text \<open>
  C11. A witness is a failure domain. Every declared endpoint is in exactly one witness, and two endpoints of a
  trust domain, of a provider group, behind one secret reference or at one known host are in the same one.
\<close>

theorem witnesses_are_failure_domains:
  assumes "distinct (map en_id endpoints)"
  shows "distinct (concat (witness_groups sha collate hostnameOf endpoints))
    \<and> set (concat (witness_groups sha collate hostnameOf endpoints)) = set endpoints
    \<and> (\<forall>g \<in> set (witness_groups sha collate hostnameOf endpoints).
         \<forall>h \<in> set (witness_groups sha collate hostnameOf endpoints).
         \<forall>x \<in> set g. \<forall>y \<in> set h. same_witness hostnameOf x y \<longrightarrow> g = h)"
  using assms by (rule failure_domains_apart)

text \<open>Provider groups are slugs, without a plus sign, so two witnesses never share a key and none is lost.\<close>

lemma count_join: "xs \<noteq> [] \<Longrightarrow> \<forall>s \<in> set xs. c \<notin> set s \<Longrightarrow> count_list (join [c] xs) c = length xs - 1"
  by (induction xs rule: induct_list012) (auto simp: count_list_0_iff)

lemma witness_key_inject:
  assumes "g \<noteq> []" and "h \<noteq> []" and "\<forall>e \<in> set g \<union> set h. CHR ''+'' \<notin> set (en_providerGroup e)"
    and "witness_key g = witness_key h"
  shows "en_providerGroup ` set g = en_providerGroup ` set h"
proof -
  let ?s = "\<lambda>g. sort (uniq (map en_providerGroup g))"
  have free: "\<forall>s \<in> set (?s g). CHR ''+'' \<notin> set s" "\<forall>s \<in> set (?s h). CHR ''+'' \<notin> set s" using assms(3) by auto
  have some: "?s g \<noteq> []" "?s h \<noteq> []" using assms(1,2) by (metis list.map_disc_iff set_empty set_sort set_uniq)+
  have "length (?s g) - 1 = length (?s h) - 1"
    using count_join [OF some(1) free(1)] count_join [OF some(2) free(2)] assms(4) by (simp add: witness_key_def)
  then have "length (?s g) = length (?s h)" using some by (cases "?s g"; cases "?s h") simp_all
  from join_inject [OF this free] have "?s g = ?s h" using assms(4) by (simp add: witness_key_def)
  then have "set (?s g) = set (?s h)" by (rule arg_cong)
  then show ?thesis by simp
qed

lemma witness_groups_nonempty: "[] \<notin> set (witness_groups sha collate hostnameOf endpoints)"
proof -
  have "[] \<notin> set (independenceGroups td pg endpoints)" for td pg :: "endpoint \<Rightarrow> string"
    using independenceGroups_domains by blast
  then show ?thesis by (auto simp: witness_groups_def Let_def collapsed_eq dest: arg_cong [where f = set])
qed

lemma byWitness_keeps_all:
  assumes "distinct (map en_id endpoints)" and "\<forall>e \<in> set endpoints. CHR ''+'' \<notin> set (en_providerGroup e)"
  shows "byWitness sha collate hostnameOf endpoints
    = map (\<lambda>g. (witness_key g, g)) (witness_groups sha collate hostnameOf endpoints)"
proof -
  let ?groups = "witness_groups sha collate hostnameOf endpoints"
  have ne: "g \<noteq> []" if "g \<in> set ?groups" for g using that witness_groups_nonempty by metis
  have sub: "set g \<subseteq> set endpoints" if "g \<in> set ?groups" for g
    using that mset_eq_setD [OF mset_witness_groups [of sha collate hostnameOf endpoints]] by auto
  have "inj_on witness_key (set ?groups)"
  proof (rule inj_onI)
    fix g h assume gh: "g \<in> set ?groups" "h \<in> set ?groups" and key: "witness_key g = witness_key h"
    have "en_providerGroup ` set g = en_providerGroup ` set h"
      using assms(2) sub [OF gh(1)] sub [OF gh(2)] by (intro witness_key_inject ne gh key) blast
    then obtain x y where "x \<in> set g" "y \<in> set h" "en_providerGroup x = en_providerGroup y"
      using ne [OF gh(1)] by (metis imageE imageI list.set_intros(1) neq_Nil_conv)
    then show "g = h" using failure_domains_apart [OF assms(1)] gh by (auto simp: same_witness_def)
  qed
  moreover have "distinct ?groups"
  proof -
    have "distinct (concat gs) \<Longrightarrow> [] \<notin> set gs \<Longrightarrow> distinct gs" for gs :: "endpoint list list"
    proof (induction gs)
      case (Cons g gs)
      then obtain z where "z \<in> set g" by (cases g) auto
      with Cons.prems(1) have "g \<notin> set gs" by auto
      with Cons show ?case by simp
    qed simp
    then show ?thesis using failure_domains_apart [OF assms(1)] witness_groups_nonempty by blast
  qed
  ultimately have "distinct (map witness_key ?groups)" by (simp add: distinct_map)
  then show ?thesis unfolding byWitness_def by (intro map_of_entries_distinct) (simp add: comp_def)
qed

section \<open>Examples\<close>

definition example_endpoints :: "endpoint list" where
  "example_endpoints =
     [\<lparr>en_id = ''1'', en_trustDomain = ''a'', en_providerGroup = ''x'', en_role = RolePrimary,
       en_secretRef = ''S1'', en_archiveDepth = ArchiveFull\<rparr>,
      \<lparr>en_id = ''2'', en_trustDomain = ''b'', en_providerGroup = ''y'', en_role = RolePrimary,
       en_secretRef = ''S1'', en_archiveDepth = ArchiveFull\<rparr>,
      \<lparr>en_id = ''3'', en_trustDomain = ''c'', en_providerGroup = ''z'', en_role = RolePrimary,
       en_secretRef = ''S3'', en_archiveDepth = ArchiveFull\<rparr>]"

text \<open>Two labels of one secret reference are one witness, the third endpoint is another.\<close>

lemma example_witnesses:
  "map (map en_id) (witness_groups hex_text (\<lambda>s. s) (\<lambda>_. None) example_endpoints) = [[''1'', ''2''], [''3'']]"
  by code_simp

theorem witnesses_are_failure_domains_witness:
  "length (concat (witness_groups hex_text (\<lambda>s. s) (\<lambda>_. None) example_endpoints)) = 3
   \<and> distinct (concat (witness_groups hex_text (\<lambda>s. s) (\<lambda>_. None) example_endpoints))"
proof -
  have "distinct (map en_id example_endpoints)" by (simp add: example_endpoints_def)
  from witnesses_are_failure_domains [OF this, of hex_text "\<lambda>s. s" "\<lambda>_. None"]
  have "distinct (concat (witness_groups hex_text (\<lambda>s. s) (\<lambda>_. None) example_endpoints))" by blast
  moreover have "length (concat (witness_groups hex_text (\<lambda>s. s) (\<lambda>_. None) example_endpoints)) = length example_endpoints"
    using mset_witness_groups by (metis size_mset)
  ultimately show ?thesis by (simp add: example_endpoints_def)
qed

definition example_source :: source_options where
  "example_source = \<lparr>so_chains = [\<lparr>cn_chainKey = ''c'', cn_endpoints = example_endpoints, cn_maxRangeBlocks = 9,
     cn_finality = ''accepted-quorum''\<rparr>], so_sha = hex_text, so_collate = (\<lambda>s. s), so_hostnameOf = (\<lambda>_. None), so_now = 5\<rparr>"

definition example_net :: endpoint_read where
  "example_net n e op = (if en_id e = ''3'' then Some (JStr ''0x7'') else Some (JStr ''0x9''))"

lemma example_source_head: "agreedAcceptedHead example_source example_net ''c'' 0 = (2, Inr 7)"
  by code_simp

theorem agreedAcceptedHead_lowest_witness:
  "agreedAcceptedHead example_source example_net ''c'' 0 = (2, Inr 7)
   \<and> (\<exists>hs::int list. length hs = length (providerGroups example_source ''c'') \<and> 7 \<in> set hs \<and> (\<forall>x \<in> set hs. 7 \<le> x))"
  using example_source_head agreedAcceptedHead_lowest [OF example_source_head] by blast

definition example_block_json :: "string \<Rightarrow> json" where
  "example_block_json n = JObj [(''hash'', JStr (''0x'' @ replicate 64 (CHR ''a''))), (''number'', JStr n),
     (''parentHash'', JStr (''0x'' @ replicate 64 (CHR ''b''))), (''timestamp'', JStr ''0x5'')]"

text \<open>A provider with one log at height 3; asked for a block, it answers block 3.\<close>

definition example_log_json :: json where
  "example_log_json = JObj [(''topics'', JArr [JStr (''0x'' @ replicate 64 (CHR ''c''))]),
     (''address'', JStr (''0x'' @ replicate 40 (CHR ''d''))), (''data'', JStr ''0x00''),
     (''blockHash'', JStr (''0x'' @ replicate 64 (CHR ''a''))), (''transactionHash'', JStr (''0x'' @ replicate 64 (CHR ''e''))),
     (''logIndex'', JStr ''0x0''), (''blockNumber'', JStr ''0x3''), (''transactionIndex'', JStr ''0x1'')]"

definition example_answers :: endpoint_read where
  "example_answers n e op =
     (case op of ReadLogs a b c d \<Rightarrow> Some (JArr [example_log_json]) | _ \<Rightarrow> Some (example_block_json ''0x3''))"

definition example_word :: "char \<Rightarrow> string" where
  "example_word c = ''0x'' @ replicate 64 c"

lemma example_words:
  "hash32 (Some (JStr (''0x'' @ replicate 64 (CHR ''a'')))) = Inr (example_word (CHR ''a''))"
  "hash32 (Some (JStr (''0x'' @ replicate 64 (CHR ''b'')))) = Inr (example_word (CHR ''b''))"
  "hash32 (Some (JStr (''0x'' @ replicate 64 (CHR ''c'')))) = Inr (example_word (CHR ''c''))"
  "hash32 (Some (JStr (''0x'' @ replicate 64 (CHR ''e'')))) = Inr (example_word (CHR ''e''))"
  by (simp_all add: hash32_def hex_string_def is_lower_hex_def is_digit_def list_all_iff example_word_def)

lemma example_numbers:
  "quantity (Some (JStr ''0x0'')) = Inr 0" "quantity (Some (JStr ''0x1'')) = Inr 1"
  "quantity (Some (JStr ''0x3'')) = Inr 3" "quantity (Some (JStr ''0x5'')) = Inr 5"
  "quantity (Some (JStr ''0x63'')) = Inr 99"
  by (simp_all add: quantity_def hex_quantity_def is_lower_hex_def is_digit_def abi_uint_def Events.hex_value_def)

lemma example_block:
  "decodeBlock ''c'' t (example_block_json ''0x3'') = Inr \<lparr>bf_chainKey = ''c'', bf_blockHash = example_word (CHR ''a''),
     bf_blockNumber = 3, bf_parentHash = example_word (CHR ''b''), bf_blockTimestamp = 5,
     bf_observedClass = ObservedAccepted, bf_observedAt = t\<rparr>"
  by (simp add: decodeBlock_def example_block_json_def json_members_def member_at_def example_words [simplified]
      example_numbers)

lemma example_log_members:
  "text_matching (hex_string 40) w (Some (JStr (''0x'' @ replicate 40 (CHR ''d'')))) = Inr (''0x'' @ replicate 40 (CHR ''d''))"
  "text_matching hex_data w (Some (JStr ''0x00'')) = Inr ''0x00''"
  by (simp_all add: text_matching_def hex_string_def hex_data_def is_lower_hex_def is_digit_def list_all_iff)

lemma example_log:
  "decodeLog ''c'' t example_log_json = Inr \<lparr>lf_chainKey = ''c'', lf_blockHash = example_word (CHR ''a''),
     lf_txHash = example_word (CHR ''e''), lf_logIndex = 0, lf_blockNumber = 3, lf_txIndex = 1,
     lf_address = ''0x'' @ replicate 40 (CHR ''d''), lf_topics = [example_word (CHR ''c'')], lf_data = ''0x00'',
     lf_observedAt = t\<rparr>"
  by (simp add: decodeLog_def example_log_json_def json_members_def member_at_def example_words [simplified]
      example_numbers smallQuantity_def decode_topics_def example_log_members [simplified])

lemma example_group: "endpointsOf example_source ''c'' ''z'' = [example_endpoints ! 2]"
  by code_simp

lemma example_limit: "maxRangeBlocks example_source ''c'' = 9"
  by (simp add: maxRangeBlocks_def wiring_of_def example_source_def map_of_entries_def)

lemma example_fetch_range:
  "case fetchRange example_source example_answers ''c'' ''z'' \<lparr>fromBlock = 3, toBlock = 3\<rparr> of
     Inl _ \<Rightarrow> False | Inr ob \<Rightarrow> ro_logCount ob = 1"
  by (simp add: fetchRange_def assertLogRange_def example_limit readOne_def example_group example_answers_def
      array_items_def example_log example_block range_heights_def observe_range_def)

theorem fetchRange_well_formed_witness:
  "\<exists>ob. fetchRange example_source example_answers ''c'' ''z'' \<lparr>fromBlock = 3, toBlock = 3\<rparr> = Inr ob
     \<and> ro_logCount ob = 1 \<and> (\<forall>l \<in> set (ro_logs ob). log_shape ''c'' l)"
proof -
  obtain ob where ob: "fetchRange example_source example_answers ''c'' ''z'' \<lparr>fromBlock = 3, toBlock = 3\<rparr> = Inr ob"
    "ro_logCount ob = 1"
    using example_fetch_range by (auto split: sum.splits)
  with fetchRange_well_formed [where opts = example_source and net = example_answers and chainKey = "''c''"
      and grp = "''z''" and rng = "\<lparr>fromBlock = 3, toBlock = 3\<rparr>"]
  show ?thesis by auto
qed

text \<open>
  The block of a log is checked by its hash only: the height a log names need not be the height of the block
  with that hash, and it need not lie in the range.
\<close>

definition example_stray :: endpoint_read where
  "example_stray n e op =
     (case op of ReadLogs a b c d \<Rightarrow> Some (JArr [case example_log_json of JObj ms \<Rightarrow>
         JObj (map (\<lambda>m. if fst m = ''blockNumber'' then (fst m, JStr ''0x63'') else m) ms) | v \<Rightarrow> v])
      | _ \<Rightarrow> Some (example_block_json ''0x3''))"

lemma example_stray_log:
  "decodeLog ''c'' t (case example_log_json of JObj ms \<Rightarrow>
     JObj (map (\<lambda>m. if fst m = ''blockNumber'' then (fst m, JStr ''0x63'') else m) ms) | v \<Rightarrow> v)
   = Inr \<lparr>lf_chainKey = ''c'', lf_blockHash = example_word (CHR ''a''),
     lf_txHash = example_word (CHR ''e''), lf_logIndex = 0, lf_blockNumber = 99, lf_txIndex = 1,
     lf_address = ''0x'' @ replicate 40 (CHR ''d''), lf_topics = [example_word (CHR ''c'')], lf_data = ''0x00'',
     lf_observedAt = t\<rparr>"
  by (simp add: decodeLog_def example_log_json_def json_members_def member_at_def example_words [simplified]
      example_numbers smallQuantity_def decode_topics_def example_log_members [simplified])

lemma stray_log_accepted:
  "case fetchRange example_source example_stray ''c'' ''z'' \<lparr>fromBlock = 3, toBlock = 3\<rparr> of
     Inl _ \<Rightarrow> False
   | Inr ob \<Rightarrow> map lf_blockNumber (ro_logs ob) = [99] \<and> map bf_blockNumber (ro_blocks ob) = [3, 3]"
  by (simp add: fetchRange_def assertLogRange_def example_limit readOne_def example_group example_stray_def
      array_items_def example_stray_log example_block range_heights_def observe_range_def)

end
