(* ===== verification/Linkage.thy ===== *)
theory Linkage
  imports Scaling
begin

text \<open>
  packages/ictt-adapters: the mutual check of a home and a remote (linkage.ts), the candidate census of
  observed registrations and its comparison with the approved baseline (discovery.ts). The order of
  \<open>localeCompare\<close> is the order of a collation key, an argument.
\<close>

section \<open>Linkage (linkage.ts)\<close>

record registered_remote =
  gr_remoteBlockchainId :: string
  gr_remoteTokenTransferrerAddress :: string
  gr_registered :: bool
  gr_collateralNeeded :: int
  gr_tokenMultiplier :: int
  gr_multiplyOnRemote :: bool

record home_side_linkage =
  hl_homeBlockchainId :: string
  hl_tokenHomeAddress :: string
  hl_tokenAddress :: string
  hl_homeTokenDecimals :: int
  hl_teleporterRegistryAddress :: string
  hl_registeredRemote :: "registered_remote option"

record remote_side_linkage =
  rl_remoteBlockchainId :: string
  rl_tokenRemoteAddress :: string
  rl_tokenHomeBlockchainId :: string
  rl_tokenHomeAddress :: string
  rl_remoteTokenDecimals :: int
  rl_tokenMultiplier :: int
  rl_multiplyOnRemote :: bool
  rl_teleporterRegistryAddress :: string
  rl_isCollateralized :: bool
  rl_initialReserveImbalance :: int

datatype linkage_fault =
  RemoteNotRegisteredAtHome | HomeBlockchainIdMismatch | HomeAddressMismatch | RemoteBlockchainIdMismatch
| RemoteAddressMismatch | ScalingMismatch | DerivedScalingMismatch | TeleporterRegistryMismatch
| CollateralOutstanding int | ReserveImbalanceInconsistent | ScalingUnderivable scaling_failure

definition eq_ci :: "string \<Rightarrow> string \<Rightarrow> bool" where
  "eq_ci a b \<longleftrightarrow> toLowerCase a = toLowerCase b"

definition finding_if :: "bool \<Rightarrow> 'a \<Rightarrow> 'a list" where
  "finding_if b f = (if b then [f] else [])"

definition home_faults :: "home_side_linkage \<Rightarrow> remote_side_linkage \<Rightarrow> linkage_fault list" where
  "home_faults home remote =
     finding_if (\<not> eq_ci (rl_tokenHomeBlockchainId remote) (hl_homeBlockchainId home)) HomeBlockchainIdMismatch
     @ finding_if (\<not> eq_ci (rl_tokenHomeAddress remote) (hl_tokenHomeAddress home)) HomeAddressMismatch"

definition registration_faults :: "home_side_linkage \<Rightarrow> remote_side_linkage \<Rightarrow> linkage_fault list" where
  "registration_faults home remote =
     (case hl_registeredRemote home of
        None \<Rightarrow> [RemoteNotRegisteredAtHome]
      | Some reg \<Rightarrow>
          if \<not> gr_registered reg then [RemoteNotRegisteredAtHome]
          else finding_if (\<not> eq_ci (gr_remoteBlockchainId reg) (rl_remoteBlockchainId remote)) RemoteBlockchainIdMismatch
            @ finding_if (\<not> eq_ci (gr_remoteTokenTransferrerAddress reg) (rl_tokenRemoteAddress remote))
                RemoteAddressMismatch
            @ finding_if (gr_tokenMultiplier reg \<noteq> rl_tokenMultiplier remote
                \<or> gr_multiplyOnRemote reg \<noteq> rl_multiplyOnRemote remote) ScalingMismatch
            @ finding_if (gr_collateralNeeded reg > 0) (CollateralOutstanding (gr_collateralNeeded reg)))"

definition derivation_faults :: "home_side_linkage \<Rightarrow> remote_side_linkage \<Rightarrow> linkage_fault list" where
  "derivation_faults home remote =
     (case deriveTokenMultiplierValues (hl_homeTokenDecimals home) (rl_remoteTokenDecimals remote) of
        Inl reason \<Rightarrow> [ScalingUnderivable reason]
      | Inr v \<Rightarrow> finding_if (tmv_tokenMultiplier v \<noteq> rl_tokenMultiplier remote
            \<or> tmv_multiplyOnRemote v \<noteq> rl_multiplyOnRemote remote) DerivedScalingMismatch)"

definition remaining_faults :: "home_side_linkage \<Rightarrow> remote_side_linkage \<Rightarrow> linkage_fault list" where
  "remaining_faults home remote =
     finding_if (\<not> eq_ci (rl_teleporterRegistryAddress remote) (hl_teleporterRegistryAddress home))
       TeleporterRegistryMismatch
     @ finding_if (rl_isCollateralized remote \<and> rl_initialReserveImbalance remote > 0
          \<and> map_option gr_collateralNeeded (hl_registeredRemote home) \<noteq> Some 0) ReserveImbalanceInconsistent"

definition checkLinkage :: "home_side_linkage \<Rightarrow> remote_side_linkage \<Rightarrow> linkage_fault list" where
  "checkLinkage home remote =
     home_faults home remote @ registration_faults home remote @ derivation_faults home remote
       @ remaining_faults home remote"

definition linked_pair :: "home_side_linkage \<Rightarrow> remote_side_linkage \<Rightarrow> bool" where
  "linked_pair home remote \<longleftrightarrow> checkLinkage home remote = []"

datatype pair_scaling = LinkageUnverified | PairScaled scaling_result

definition scaleForPair ::
  "home_side_linkage \<Rightarrow> remote_side_linkage \<Rightarrow> int \<Rightarrow> (int \<Rightarrow> bool \<Rightarrow> int \<Rightarrow> scaling_result) \<Rightarrow> pair_scaling" where
  "scaleForPair home remote homeAmount scale =
     (if \<not> linked_pair home remote then LinkageUnverified
      else PairScaled (scale (rl_tokenMultiplier remote) (rl_multiplyOnRemote remote) homeAmount))"

lemma finding_if_Nil [simp]: "finding_if b f = [] \<longleftrightarrow> \<not> b"
  by (simp add: finding_if_def)

text \<open>
  A pair is linked exactly when both sides name each other, the home has registered the remote with no
  collateral outstanding, both use one registry, and the scaling that both store is the one the protocol
  derives from their decimals.
\<close>

lemma linked_iff:
  "linked_pair home remote \<longleftrightarrow>
     eq_ci (rl_tokenHomeBlockchainId remote) (hl_homeBlockchainId home)
     \<and> eq_ci (rl_tokenHomeAddress remote) (hl_tokenHomeAddress home)
     \<and> eq_ci (rl_teleporterRegistryAddress remote) (hl_teleporterRegistryAddress home)
     \<and> 0 \<le> hl_homeTokenDecimals home \<and> hl_homeTokenDecimals home \<le> 255
     \<and> 0 \<le> rl_remoteTokenDecimals remote \<and> rl_remoteTokenDecimals remote \<le> 18
     \<and> rl_multiplyOnRemote remote = (hl_homeTokenDecimals home < rl_remoteTokenDecimals remote)
     \<and> rl_tokenMultiplier remote = 10 ^ nat \<bar>rl_remoteTokenDecimals remote - hl_homeTokenDecimals home\<bar>
     \<and> (\<exists>reg. hl_registeredRemote home = Some reg \<and> gr_registered reg
          \<and> eq_ci (gr_remoteBlockchainId reg) (rl_remoteBlockchainId remote)
          \<and> eq_ci (gr_remoteTokenTransferrerAddress reg) (rl_tokenRemoteAddress remote)
          \<and> gr_tokenMultiplier reg = rl_tokenMultiplier remote
          \<and> gr_multiplyOnRemote reg = rl_multiplyOnRemote remote
          \<and> gr_collateralNeeded reg \<le> 0
          \<and> (rl_isCollateralized remote \<and> 0 < rl_initialReserveImbalance remote \<longrightarrow> gr_collateralNeeded reg = 0))"
proof -
  have derived: "derivation_faults home remote = [] \<longleftrightarrow>
      0 \<le> hl_homeTokenDecimals home \<and> hl_homeTokenDecimals home \<le> 255
      \<and> 0 \<le> rl_remoteTokenDecimals remote \<and> rl_remoteTokenDecimals remote \<le> 18
      \<and> rl_multiplyOnRemote remote = (hl_homeTokenDecimals home < rl_remoteTokenDecimals remote)
      \<and> rl_tokenMultiplier remote = 10 ^ nat \<bar>rl_remoteTokenDecimals remote - hl_homeTokenDecimals home\<bar>"
    by (auto simp: derivation_faults_def deriveTokenMultiplierValues_def MAX_TOKEN_DECIMALS_def Let_def abs_if)
  have registered: "registration_faults home remote = [] \<longleftrightarrow> (\<exists>reg. hl_registeredRemote home = Some reg
      \<and> gr_registered reg \<and> eq_ci (gr_remoteBlockchainId reg) (rl_remoteBlockchainId remote)
      \<and> eq_ci (gr_remoteTokenTransferrerAddress reg) (rl_tokenRemoteAddress remote)
      \<and> gr_tokenMultiplier reg = rl_tokenMultiplier remote \<and> gr_multiplyOnRemote reg = rl_multiplyOnRemote remote
      \<and> gr_collateralNeeded reg \<le> 0)"
    by (auto simp: registration_faults_def not_less split: option.splits)
  have parts: "linked_pair home remote \<longleftrightarrow> home_faults home remote = [] \<and> registration_faults home remote = []
      \<and> derivation_faults home remote = [] \<and> remaining_faults home remote = []"
    by (simp add: linked_pair_def checkLinkage_def)
  show ?thesis
    unfolding parts derived registered by (auto simp: home_faults_def remaining_faults_def)
qed

text \<open>
  An amount is scaled for a pair only when it is linked, and then the multiplier applied is the one the
  protocol derives from the decimals of the two tokens.
\<close>

theorem scaleForPair_derived:
  assumes "scaleForPair home remote amount applyTokenScale = PairScaled r"
  shows "\<exists>v. deriveTokenMultiplierValues (hl_homeTokenDecimals home) (rl_remoteTokenDecimals remote) = Inr v
    \<and> r = applyTokenScale (tmv_tokenMultiplier v) (tmv_multiplyOnRemote v) amount
    \<and> (\<exists>reg. hl_registeredRemote home = Some reg \<and> gr_registered reg \<and> gr_collateralNeeded reg \<le> 0
         \<and> gr_tokenMultiplier reg = tmv_tokenMultiplier v \<and> gr_multiplyOnRemote reg = tmv_multiplyOnRemote v)"
proof -
  have l: "linked_pair home remote" and r: "r = applyTokenScale (rl_tokenMultiplier remote) (rl_multiplyOnRemote remote) amount"
    using assms by (auto simp: scaleForPair_def split: if_splits)
  have "derivation_faults home remote = []" using l by (simp add: linked_pair_def checkLinkage_def)
  then obtain v where "deriveTokenMultiplierValues (hl_homeTokenDecimals home) (rl_remoteTokenDecimals remote) = Inr v"
    "tmv_tokenMultiplier v = rl_tokenMultiplier remote" "tmv_multiplyOnRemote v = rl_multiplyOnRemote remote"
    by (auto simp: derivation_faults_def split: sum.splits)
  with l r show ?thesis unfolding linked_iff by auto
qed

section \<open>Discovery (discovery.ts)\<close>

record registration_observation =
  go_remoteBlockchainId :: string
  go_remoteTokenTransferrerAddress :: string
  go_collateralNeeded :: int
  go_remoteTokenDecimals :: int
  go_blockNumber :: int
  go_txHash :: string

record candidate_remote =
  cm_remoteBlockchainId :: string
  cm_remoteTokenTransferrerAddress :: string
  cm_collateralNeededAtRegistration :: int
  cm_remoteTokenDecimals :: int
  cm_firstSeenBlock :: int
  cm_firstSeenTxHash :: string
  cm_trusted :: bool

datatype census_completeness = CompleteFromDeploymentBlock | CensusPartial | CensusUnknown

record census_input =
  ci_tokenHomeAddress :: string
  ci_homeBlockchainId :: string
  ci_tokenHomeDeploymentBlock :: "int option"
  ci_scannedFromBlock :: "int option"
  ci_scannedToBlock :: int
  ci_hadLogGap :: bool
  ci_registrations :: "registration_observation list"

record candidate_census =
  cc_tokenHomeAddress :: string
  cc_homeBlockchainId :: string
  cc_fromBlock :: "int option"
  cc_toBlock :: int
  cc_completeness :: census_completeness
  cc_remotes :: "candidate_remote list"
  cc_reasons :: "string list"

definition census_bounds :: "census_input \<Rightarrow> census_completeness \<times> string list" where
  "census_bounds i =
     (case ci_tokenHomeDeploymentBlock i of
        None \<Rightarrow> (CensusUnknown,
          [''the TokenHome deployment block is unknown, so no lower bound on history exists''])
      | Some deployed \<Rightarrow>
          (case ci_scannedFromBlock i of
             None \<Rightarrow> (CensusUnknown, [''the scan start block is unknown''])
           | Some from \<Rightarrow>
               if from > deployed
               then (CensusPartial,
                 [''the scan started at block '' @ show_int from @ '', after the TokenHome was deployed at ''
                  @ show_int deployed @ ''; earlier registrations were not observed''])
               else (CompleteFromDeploymentBlock, [])))"

definition remote_key :: "string \<Rightarrow> string \<Rightarrow> string" where
  "remote_key b a = toLowerCase b @ '':'' @ toLowerCase a"

definition candidate_of :: "registration_observation \<Rightarrow> candidate_remote" where
  "candidate_of r =
     \<lparr>cm_remoteBlockchainId = toLowerCase (go_remoteBlockchainId r),
      cm_remoteTokenTransferrerAddress = toLowerCase (go_remoteTokenTransferrerAddress r),
      cm_collateralNeededAtRegistration = go_collateralNeeded r,
      cm_remoteTokenDecimals = go_remoteTokenDecimals r, cm_firstSeenBlock = go_blockNumber r,
      cm_firstSeenTxHash = go_txHash r, cm_trusted = False\<rparr>"

definition registration_key :: "registration_observation \<Rightarrow> string" where
  "registration_key r = remote_key (go_remoteBlockchainId r) (go_remoteTokenTransferrerAddress r)"

definition sighting_step ::
  "(string \<times> candidate_remote) list \<Rightarrow> registration_observation \<Rightarrow> (string \<times> candidate_remote) list" where
  "sighting_step seen r =
     (case map_of seen (registration_key r) of
        Some existing \<Rightarrow>
          if cm_firstSeenBlock existing \<le> go_blockNumber r then seen
          else AList.update (registration_key r) (candidate_of r) seen
      | None \<Rightarrow> AList.update (registration_key r) (candidate_of r) seen)"

definition buildCandidateCensus :: "(string \<Rightarrow> string) \<Rightarrow> census_input \<Rightarrow> candidate_census" where
  "buildCandidateCensus collate i =
     (let (bound, why) = census_bounds i;
          seen = foldl sighting_step [] (ci_registrations i)
      in \<lparr>cc_tokenHomeAddress = toLowerCase (ci_tokenHomeAddress i),
          cc_homeBlockchainId = toLowerCase (ci_homeBlockchainId i), cc_fromBlock = ci_scannedFromBlock i,
          cc_toBlock = ci_scannedToBlock i,
          cc_completeness = (if ci_hadLogGap i then if bound = CensusUnknown then CensusUnknown else CensusPartial
                             else bound),
          cc_remotes = sort_key (\<lambda>r. (collate (cm_remoteBlockchainId r), collate (cm_remoteTokenTransferrerAddress r)))
            (map snd seen),
          cc_reasons = why @ (if ci_hadLogGap i then [''the log scan had a gap that no archive endpoint filled''] else [])\<rparr>)"

record approved_remote =
  ap_remoteBlockchainId :: string
  ap_remoteTokenTransferrerAddress :: string
  ap_expectedDecimals :: int

datatype drift_kind = CandidateNotApproved | ApprovedNotObserved | DecimalsMismatch int int

record drift_entry =
  de_kind :: drift_kind
  de_remoteBlockchainId :: string
  de_remoteTokenTransferrerAddress :: string

record discovery_diff =
  dd_baselineDigest :: string
  dd_censusCompleteness :: census_completeness
  dd_drift :: "drift_entry list"
  dd_mutatesBaseline :: bool

definition candidate_key :: "candidate_remote \<Rightarrow> string" where
  "candidate_key r = remote_key (cm_remoteBlockchainId r) (cm_remoteTokenTransferrerAddress r)"

definition approved_key :: "approved_remote \<Rightarrow> string" where
  "approved_key a = remote_key (ap_remoteBlockchainId a) (ap_remoteTokenTransferrerAddress a)"

definition observed_drift :: "(string \<times> approved_remote) list \<Rightarrow> string \<times> candidate_remote \<Rightarrow> drift_entry list" where
  "observed_drift approvedByKey kr =
     (let r = snd kr; entry = (\<lambda>kind. \<lparr>de_kind = kind, de_remoteBlockchainId = cm_remoteBlockchainId r,
                            de_remoteTokenTransferrerAddress = cm_remoteTokenTransferrerAddress r\<rparr>)
      in case map_of approvedByKey (fst kr) of
           None \<Rightarrow> [entry CandidateNotApproved]
         | Some a \<Rightarrow> finding_if (ap_expectedDecimals a \<noteq> cm_remoteTokenDecimals r)
               (entry (DecimalsMismatch (cm_remoteTokenDecimals r) (ap_expectedDecimals a))))"

definition missing_drift :: "(string \<times> candidate_remote) list \<Rightarrow> string \<times> approved_remote \<Rightarrow> drift_entry list" where
  "missing_drift observedByKey ka =
     finding_if (\<not> has_key observedByKey (fst ka))
       \<lparr>de_kind = ApprovedNotObserved, de_remoteBlockchainId = toLowerCase (ap_remoteBlockchainId (snd ka)),
        de_remoteTokenTransferrerAddress = toLowerCase (ap_remoteTokenTransferrerAddress (snd ka))\<rparr>"

definition diffAgainstBaseline :: "candidate_census \<Rightarrow> approved_remote list \<Rightarrow> string \<Rightarrow> discovery_diff" where
  "diffAgainstBaseline census approved digest =
     (let approvedByKey = map_of_entries (map (\<lambda>a. (approved_key a, a)) approved);
          observedByKey = map_of_entries (map (\<lambda>r. (candidate_key r, r)) (cc_remotes census))
      in \<lparr>dd_baselineDigest = digest, dd_censusCompleteness = cc_completeness census,
          dd_drift = concat (map (observed_drift approvedByKey) observedByKey)
            @ concat (map (missing_drift observedByKey) approvedByKey),
          dd_mutatesBaseline = False\<rparr>)"

definition requireApprovedBaseline :: "string option \<Rightarrow> bool" where
  "requireApprovedBaseline digest \<longleftrightarrow> (case digest of None \<Rightarrow> False | Some d \<Rightarrow> d \<noteq> [])"

section \<open>What the census says\<close>

lemma lowercase_twice: "toLowerCase (toLowerCase s) = toLowerCase s"
  by (simp add: toLowerCase_def lower_char_idem)

lemma candidate_key_of: "candidate_key (candidate_of r) = registration_key r"
  by (simp add: candidate_key_def candidate_of_def registration_key_def remote_key_def lowercase_twice)

definition earliest :: "registration_observation list \<Rightarrow> registration_observation \<Rightarrow> bool" where
  "earliest regs r \<longleftrightarrow> r \<in> set regs
     \<and> (\<forall>r' \<in> set regs. registration_key r' = registration_key r \<longrightarrow> go_blockNumber r \<le> go_blockNumber r')"

definition sightings_ok :: "registration_observation list \<Rightarrow> (string \<times> candidate_remote) list \<Rightarrow> bool" where
  "sightings_ok regs seen \<longleftrightarrow> distinct (map fst seen) \<and> fst ` set seen = registration_key ` set regs
     \<and> (\<forall>(k, c) \<in> set seen. \<exists>r. earliest regs r \<and> registration_key r = k \<and> c = candidate_of r)"

lemma set_update_distinct:
  "distinct (map fst m) \<Longrightarrow> set (AList.update k v m) = insert (k, v) {e \<in> set m. fst e \<noteq> k}"
  by (induction m) (auto simp: image_iff)

lemma sighting_step_ok:
  assumes "sightings_ok regs seen"
  shows "sightings_ok (regs @ [r]) (sighting_step seen r)"
proof -
  let ?k = "registration_key r"
  have d: "distinct (map fst seen)" and keys: "fst ` set seen = registration_key ` set regs"
    and old: "\<And>k c. (k, c) \<in> set seen \<Longrightarrow> \<exists>x. earliest regs x \<and> registration_key x = k \<and> c = candidate_of x"
    using assms unfolding sightings_ok_def by blast+
  have other: "\<exists>x. earliest (regs @ [r]) x \<and> registration_key x = k \<and> c = candidate_of x"
    if "(k, c) \<in> set seen" "k \<noteq> ?k" for k c
    using old [OF that(1)] that(2) by (auto simp: earliest_def)
  have new: "sightings_ok (regs @ [r]) (AList.update ?k (candidate_of r) seen)"
    if low: "\<forall>x \<in> set regs. registration_key x = ?k \<longrightarrow> go_blockNumber r \<le> go_blockNumber x"
  proof -
    have "earliest (regs @ [r]) r" using low by (auto simp: earliest_def)
    then have "\<forall>(k, c) \<in> set (AList.update ?k (candidate_of r) seen).
        \<exists>x. earliest (regs @ [r]) x \<and> registration_key x = k \<and> c = candidate_of x"
      unfolding set_update_distinct [OF d] using other by auto
    moreover have "fst ` set (AList.update ?k (candidate_of r) seen) = registration_key ` set (regs @ [r])"
      using keys by (simp add: dom_update)
    ultimately show ?thesis using d by (simp add: sightings_ok_def distinct_update)
  qed
  show ?thesis
  proof (cases "map_of seen ?k")
    case None
    then have "?k \<notin> registration_key ` set regs" using keys by (simp add: map_of_eq_None_iff)
    then have "sightings_ok (regs @ [r]) (AList.update ?k (candidate_of r) seen)"
      by (intro new) (metis imageI)
    with None show ?thesis by (simp add: sighting_step_def)
  next
    case (Some existing)
    then have member: "(?k, existing) \<in> set seen" by (rule map_of_SomeD)
    then obtain x where x: "earliest regs x" "registration_key x = ?k" "existing = candidate_of x" using old by blast
    show ?thesis
    proof (cases "cm_firstSeenBlock existing \<le> go_blockNumber r")
      case True
      have "\<exists>y. earliest (regs @ [r]) y \<and> registration_key y = k \<and> c = candidate_of y" if "(k, c) \<in> set seen" for k c
      proof (cases "k = ?k")
        case True
        with that member d have "c = existing" by (metis map_of_is_SomeI option.inject)
        moreover have "earliest (regs @ [r]) x"
          using x \<open>cm_firstSeenBlock existing \<le> go_blockNumber r\<close> by (auto simp: earliest_def candidate_of_def)
        ultimately show ?thesis using x True by blast
      next
        case False
        with that show ?thesis by (rule other)
      qed
      moreover have "?k \<in> registration_key ` set regs" using member keys by force
      ultimately have "sightings_ok (regs @ [r]) seen" using d keys by (auto simp: sightings_ok_def)
      with Some True show ?thesis by (simp add: sighting_step_def)
    next
      case False
      have "\<forall>y \<in> set regs. registration_key y = ?k \<longrightarrow> go_blockNumber r \<le> go_blockNumber y"
        using x False by (fastforce simp: earliest_def candidate_of_def)
      then have "sightings_ok (regs @ [r]) (AList.update ?k (candidate_of r) seen)" by (rule new)
      with Some False show ?thesis by (simp add: sighting_step_def)
    qed
  qed
qed

lemma sightings_all: "sightings_ok regs (foldl sighting_step [] regs)"
proof (induction regs rule: rev_induct)
  case Nil
  show ?case by (simp add: sightings_ok_def)
next
  case (snoc r regs)
  from sighting_step_ok [OF this] show ?case by simp
qed

lemma census_remotes:
  "distinct (map candidate_key (cc_remotes (buildCandidateCensus collate i)))"
  "candidate_key ` set (cc_remotes (buildCandidateCensus collate i)) = registration_key ` set (ci_registrations i)"
  "c \<in> set (cc_remotes (buildCandidateCensus collate i)) \<Longrightarrow> \<exists>r. earliest (ci_registrations i) r \<and> c = candidate_of r"
proof -
  define seen where "seen = foldl sighting_step [] (ci_registrations i)"
  have ok: "sightings_ok (ci_registrations i) seen" unfolding seen_def by (rule sightings_all)
  have remotes: "cc_remotes (buildCandidateCensus collate i)
      = sort_key (\<lambda>r. (collate (cm_remoteBlockchainId r), collate (cm_remoteTokenTransferrerAddress r))) (map snd seen)"
    by (simp add: buildCandidateCensus_def seen_def Let_def split: prod.split)
  have key: "candidate_key c = k" if "(k, c) \<in> set seen" for k c
    using ok that candidate_key_of by (auto simp: sightings_ok_def)
  then have keys: "map candidate_key (map snd seen) = map fst seen" by (auto simp: comp_def)
  have "mset (map candidate_key (cc_remotes (buildCandidateCensus collate i))) = mset (map fst seen)"
    unfolding remotes keys [symmetric] by (simp add: multiset.map_comp comp_def)
  then show "distinct (map candidate_key (cc_remotes (buildCandidateCensus collate i)))"
    using ok by (metis mset_eq_imp_distinct_iff sightings_ok_def)
  have "candidate_key ` set (cc_remotes (buildCandidateCensus collate i)) = set (map candidate_key (map snd seen))"
    unfolding remotes by (simp only: set_map set_sort)
  then show "candidate_key ` set (cc_remotes (buildCandidateCensus collate i)) = registration_key ` set (ci_registrations i)"
    unfolding keys using ok by (simp add: sightings_ok_def)
  show "\<exists>r. earliest (ci_registrations i) r \<and> c = candidate_of r"
    if "c \<in> set (cc_remotes (buildCandidateCensus collate i))"
    using that ok unfolding remotes by (fastforce simp: sightings_ok_def)
qed

text \<open>
  A census is complete only with a known deployment block, a scan that starts at or before it, and no
  gap. It lists every pair that registered exactly once, as its earliest sighting, and trusts none.
\<close>

theorem census_spec:
  "(cc_completeness (buildCandidateCensus collate i) = CompleteFromDeploymentBlock \<longleftrightarrow>
      (\<exists>deployed from. ci_tokenHomeDeploymentBlock i = Some deployed \<and> ci_scannedFromBlock i = Some from
         \<and> from \<le> deployed \<and> \<not> ci_hadLogGap i))
   \<and> distinct (map candidate_key (cc_remotes (buildCandidateCensus collate i)))
   \<and> candidate_key ` set (cc_remotes (buildCandidateCensus collate i)) = registration_key ` set (ci_registrations i)
   \<and> (\<forall>c \<in> set (cc_remotes (buildCandidateCensus collate i)).
        \<not> cm_trusted c \<and> (\<exists>r. earliest (ci_registrations i) r \<and> c = candidate_of r))"
proof -
  have "cc_completeness (buildCandidateCensus collate i) = CompleteFromDeploymentBlock \<longleftrightarrow>
      (\<exists>deployed from. ci_tokenHomeDeploymentBlock i = Some deployed \<and> ci_scannedFromBlock i = Some from
         \<and> from \<le> deployed \<and> \<not> ci_hadLogGap i)"
    by (auto simp: buildCandidateCensus_def census_bounds_def Let_def split: option.splits)
  moreover have "\<not> cm_trusted c" if "\<exists>r. earliest (ci_registrations i) r \<and> c = candidate_of r" for c
    using that by (auto simp: candidate_of_def)
  ultimately show ?thesis using census_remotes by blast
qed

text \<open>
  There is no drift exactly when the registered pairs are the approved pairs and each has the decimals the
  baseline expects. The comparison never changes the baseline.
\<close>

theorem no_drift_iff:
  assumes "distinct (map approved_key approved)" and "census = buildCandidateCensus collate i"
  shows "dd_drift (diffAgainstBaseline census approved digest) = [] \<longleftrightarrow>
      registration_key ` set (ci_registrations i) = approved_key ` set approved
      \<and> (\<forall>c \<in> set (cc_remotes census). \<forall>a \<in> set approved.
           candidate_key c = approved_key a \<longrightarrow> ap_expectedDecimals a = cm_remoteTokenDecimals c)"
proof -
  let ?A = "map (\<lambda>a. (approved_key a, a)) approved" and ?O = "map (\<lambda>r. (candidate_key r, r)) (cc_remotes census)"
  have maps: "map_of_entries ?A = ?A" "map_of_entries ?O = ?O"
    using assms census_remotes(1) by (intro map_of_entries_distinct; simp add: comp_def)+
  have at: "map_of ?A (approved_key a) = Some a" if "a \<in> set approved" for a
    using that assms(1) by (intro map_of_is_SomeI) (auto simp: comp_def)
  have observed: "observed_drift ?A (candidate_key c, c) = [] \<longleftrightarrow>
      (\<exists>a \<in> set approved. candidate_key c = approved_key a \<and> ap_expectedDecimals a = cm_remoteTokenDecimals c)" for c
  proof (cases "candidate_key c \<in> approved_key ` set approved")
    case True
    then obtain a where a: "a \<in> set approved" "candidate_key c = approved_key a" by auto
    have only: "b = a" if "b \<in> set approved" "approved_key b = approved_key a" for b
    proof -
      have "Some b = Some a" using at [OF that(1)] unfolding that(2) at [OF a(1)] by (rule sym)
      then show ?thesis by simp
    qed
    have "observed_drift ?A (candidate_key c, c) = [] \<longleftrightarrow> ap_expectedDecimals a = cm_remoteTokenDecimals c"
      using at [OF a(1)] a(2) by (simp add: observed_drift_def Let_def)
    also have "\<dots> \<longleftrightarrow> (\<exists>a \<in> set approved. candidate_key c = approved_key a \<and> ap_expectedDecimals a = cm_remoteTokenDecimals c)"
      unfolding a(2) using a(1) only by metis
    finally show ?thesis .
  next
    case False
    then have "map_of ?A (candidate_key c) = None" by (auto simp: map_of_eq_None_iff image_iff)
    with False show ?thesis by (auto simp: observed_drift_def Let_def)
  qed
  have missing: "missing_drift ?O (approved_key a, a) = [] \<longleftrightarrow> approved_key a \<in> candidate_key ` set (cc_remotes census)" for a
    by (auto simp: missing_drift_def has_key_def image_iff)
  have "dd_drift (diffAgainstBaseline census approved digest) = [] \<longleftrightarrow>
      (\<forall>c \<in> set (cc_remotes census). observed_drift ?A (candidate_key c, c) = [])
      \<and> (\<forall>a \<in> set approved. missing_drift ?O (approved_key a, a) = [])"
    by (auto simp: diffAgainstBaseline_def Let_def maps)
  also have "\<dots> \<longleftrightarrow> candidate_key ` set (cc_remotes census) = approved_key ` set approved
      \<and> (\<forall>c \<in> set (cc_remotes census). \<forall>a \<in> set approved.
           candidate_key c = approved_key a \<longrightarrow> ap_expectedDecimals a = cm_remoteTokenDecimals c)"
  proof -
    have only: "b = a" if "a \<in> set approved" "b \<in> set approved" "approved_key b = approved_key a" for a b
    proof -
      have "Some a = Some b" using at [OF that(2)] unfolding that(3) at [OF that(1)] .
      then show ?thesis by simp
    qed
    show ?thesis (is "?L \<longleftrightarrow> ?R")
    proof
      assume L: ?L
      then have sub: "\<And>c. c \<in> set (cc_remotes census) \<Longrightarrow>
          \<exists>a \<in> set approved. candidate_key c = approved_key a \<and> ap_expectedDecimals a = cm_remoteTokenDecimals c"
        and sup: "\<And>a. a \<in> set approved \<Longrightarrow> approved_key a \<in> candidate_key ` set (cc_remotes census)"
        by (simp_all add: observed missing)
      have "candidate_key ` set (cc_remotes census) = approved_key ` set approved" using sub sup by fastforce
      moreover have "ap_expectedDecimals a = cm_remoteTokenDecimals c"
        if "c \<in> set (cc_remotes census)" "a \<in> set approved" "candidate_key c = approved_key a" for c a
        using sub [OF that(1)] only [OF that(2)] that(3) by metis
      ultimately show ?R by blast
    next
      assume R: ?R
      then have same: "candidate_key ` set (cc_remotes census) = approved_key ` set approved" by blast
      have "observed_drift ?A (candidate_key c, c) = []" if c: "c \<in> set (cc_remotes census)" for c
      proof -
        from same c obtain a where "a \<in> set approved" "candidate_key c = approved_key a" by blast
        with R c show ?thesis unfolding observed by blast
      qed
      moreover have "missing_drift ?O (approved_key a, a) = []" if "a \<in> set approved" for a
        using same that unfolding missing by blast
      ultimately show ?L by blast
    qed
  qed
  finally show ?thesis unfolding assms(2) census_remotes(2) .
qed

section \<open>Examples\<close>

definition example_remote_side :: remote_side_linkage where
  "example_remote_side = \<lparr>rl_remoteBlockchainId = ''r'', rl_tokenRemoteAddress = ''t'', rl_tokenHomeBlockchainId = ''h'',
     rl_tokenHomeAddress = ''k'', rl_remoteTokenDecimals = 8, rl_tokenMultiplier = 100, rl_multiplyOnRemote = True,
     rl_teleporterRegistryAddress = ''g'', rl_isCollateralized = True, rl_initialReserveImbalance = 0\<rparr>"

definition example_home_side :: home_side_linkage where
  "example_home_side = \<lparr>hl_homeBlockchainId = ''H'', hl_tokenHomeAddress = ''K'', hl_tokenAddress = ''e'',
     hl_homeTokenDecimals = 6, hl_teleporterRegistryAddress = ''G'',
     hl_registeredRemote = Some \<lparr>gr_remoteBlockchainId = ''R'', gr_remoteTokenTransferrerAddress = ''T'',
       gr_registered = True, gr_collateralNeeded = 0, gr_tokenMultiplier = 100, gr_multiplyOnRemote = True\<rparr>\<rparr>"

theorem scaleForPair_derived_witness:
  "scaleForPair example_home_side example_remote_side 7 applyTokenScale = PairScaled (Inr 700)
   \<and> (\<exists>v. deriveTokenMultiplierValues 6 8 = Inr v \<and> Inr 700 = applyTokenScale (tmv_tokenMultiplier v) True 7)"
proof -
  have run: "scaleForPair example_home_side example_remote_side 7 applyTokenScale = PairScaled (Inr 700)" by code_simp
  from scaleForPair_derived [OF run] run show ?thesis by (auto simp: example_home_side_def example_remote_side_def)
qed

definition example_registration :: "string \<Rightarrow> int \<Rightarrow> registration_observation" where
  "example_registration a n = \<lparr>go_remoteBlockchainId = ''B'', go_remoteTokenTransferrerAddress = a, go_collateralNeeded = 0,
     go_remoteTokenDecimals = 18, go_blockNumber = n, go_txHash = ''t''\<rparr>"

definition example_census :: census_input where
  "example_census = \<lparr>ci_tokenHomeAddress = ''k'', ci_homeBlockchainId = ''h'', ci_tokenHomeDeploymentBlock = Some 5,
     ci_scannedFromBlock = Some 5, ci_scannedToBlock = 9, ci_hadLogGap = False,
     ci_registrations = [example_registration ''a'' 8, example_registration ''A'' 6, example_registration ''b'' 7]\<rparr>"

theorem census_spec_witness:
  "map cm_firstSeenBlock (cc_remotes (buildCandidateCensus (\<lambda>s. s) example_census)) = [6, 7]
   \<and> distinct (map candidate_key (cc_remotes (buildCandidateCensus (\<lambda>s. s) example_census)))"
proof
  show "map cm_firstSeenBlock (cc_remotes (buildCandidateCensus (\<lambda>s. s) example_census)) = [6, 7]" by code_simp
  show "distinct (map candidate_key (cc_remotes (buildCandidateCensus (\<lambda>s. s) example_census)))"
    using census_spec [of "\<lambda>s. s" example_census] by blast
qed

definition example_approved :: "approved_remote list" where
  "example_approved = [\<lparr>ap_remoteBlockchainId = ''b'', ap_remoteTokenTransferrerAddress = ''a'', ap_expectedDecimals = 18\<rparr>]"

theorem no_drift_iff_witness:
  "dd_drift (diffAgainstBaseline (buildCandidateCensus (\<lambda>s. s) example_census) example_approved ''d'') \<noteq> []"
proof -
  have "distinct (map approved_key example_approved)" by (simp add: example_approved_def)
  from no_drift_iff [OF this refl, of "\<lambda>s. s" example_census "''d''"]
  have "dd_drift (diffAgainstBaseline (buildCandidateCensus (\<lambda>s. s) example_census) example_approved ''d'') = [] \<Longrightarrow>
      registration_key ` set (ci_registrations example_census) = approved_key ` set example_approved" by blast
  moreover have "registration_key (example_registration ''b'' 7) \<notin> approved_key ` set example_approved" by code_simp
  moreover have "example_registration ''b'' 7 \<in> set (ci_registrations example_census)" by (simp add: example_census_def)
  ultimately show ?thesis by blast
qed

end
