(* ===== verification/Fingerprint.thy ===== *)
theory Fingerprint
  imports Linkage Metrics "HOL-Library.Word"
begin

text \<open>
  packages/ictt-adapters: contract fingerprints and adapter epochs (fingerprint.ts), source descriptors and
  audit coverage (descriptor.ts). Keccak-256 is an argument, a function on the bytes.
\<close>

section \<open>Code hashes and signatures (fingerprint.ts)\<close>

type_synonym bytes = "8 word list"

definition nibble_char :: "nat \<Rightarrow> char" where
  "nibble_char n = (if n < 10 then char_of (48 + n) else char_of (87 + n))"

definition byte_hex :: "8 word \<Rightarrow> string" where
  "byte_hex b = [nibble_char (unat b div 16), nibble_char (unat b mod 16)]"

definition toHex :: "bytes \<Rightarrow> string" where
  "toHex bytes = ''0x'' @ concat (map byte_hex bytes)"

definition keccak256Hex :: "(bytes \<Rightarrow> bytes) \<Rightarrow> bytes \<Rightarrow> string" where
  "keccak256Hex keccak data = toHex (keccak data)"

text \<open>\<open>Number.parseInt\<close> of one digit, in either case.\<close>

definition digit_value :: "char \<Rightarrow> nat" where
  "digit_value c = (let n = of_char c in if n < 58 then n - 48 else if n < 71 then n - 55 else n - 87)"

fun pair_bytes :: "string \<Rightarrow> bytes" where
  "pair_bytes (a # b # rest) = word_of_nat (16 * digit_value a + digit_value b) # pair_bytes rest"
| "pair_bytes _ = []"

definition code_body :: "string \<Rightarrow> string" where
  "code_body code = (if take 2 code = ''0x'' then drop 2 code else code)"

definition codeHash :: "(bytes \<Rightarrow> bytes) \<Rightarrow> string \<Rightarrow> string + string" where
  "codeHash keccak code =
     (let body = code_body code
      in if odd (length body) \<or> \<not> list_all any_hex body then Inl ''runtime code must be an even-length hex string''
         else Inr (keccak256Hex keccak (pair_bytes body)))"

datatype abi_parameter = AbiParameter string "abi_parameter list option"

fun canonicalType :: "abi_parameter \<Rightarrow> string" where
  "canonicalType (AbiParameter ty None) =
     (if take 5 ty = ''tuple'' then ''('' @ '')'' @ drop 5 ty else ty)"
| "canonicalType (AbiParameter ty (Some components)) =
     (if take 5 ty = ''tuple'' then ''('' @ join '','' (map canonicalType components) @ '')'' @ drop 5 ty else ty)"

record abi_entry =
  ae_name :: "string option"
  ae_inputs :: "abi_parameter list option"

definition canonicalSignature :: "abi_entry \<Rightarrow> string" where
  "canonicalSignature entry =
     (case ae_name entry of Some n \<Rightarrow> n | None \<Rightarrow> '''') @ ''(''
       @ join '','' (map canonicalType (case ae_inputs entry of Some is \<Rightarrow> is | None \<Rightarrow> [])) @ '')''"

text \<open>A signature is ASCII, so its UTF-8 bytes are its character codes.\<close>

definition utf8 :: "string \<Rightarrow> bytes" where
  "utf8 s = map (\<lambda>c. word_of_nat (of_char c)) s"

definition eventTopic0 :: "(bytes \<Rightarrow> bytes) \<Rightarrow> abi_entry \<Rightarrow> string" where
  "eventTopic0 keccak entry = keccak256Hex keccak (utf8 (canonicalSignature entry))"

definition functionSelector :: "(bytes \<Rightarrow> bytes) \<Rightarrow> abi_entry \<Rightarrow> string" where
  "functionSelector keccak entry = take 10 (keccak256Hex keccak (utf8 (canonicalSignature entry)))"

section \<open>Classification (fingerprint.ts)\<close>

datatype fingerprint_class =
  ExactKnownNonProxy | KnownProxyKnownImplementation | KnownHistoricalEpoch | CustomOrUnknown | Conflicting

record observed_contract =
  oc_address :: string
  oc_runtimeCodeHash :: string
  oc_implementationAddress :: "string option"
  oc_implementationCodeHash :: "string option"
  oc_beaconAddress :: "string option"
  oc_adminAddress :: "string option"

record approved_code_hashes =
  ah_adapterId :: string
  ah_runtimeCodeHashes :: "string list"
  ah_historicalImplementationHashes :: "string list option"

record fingerprint_result =
  fr_class :: fingerprint_class
  fr_adapterId :: "string option"
  fr_reasons :: "string list"

definition norm_hash :: "string \<Rightarrow> string" where
  "norm_hash = toLowerCase"

definition is_proxy :: "observed_contract \<Rightarrow> bool" where
  "is_proxy observed \<longleftrightarrow> oc_implementationAddress observed \<noteq> None \<or> oc_beaconAddress observed \<noteq> None"

definition target_hash :: "observed_contract \<Rightarrow> string option" where
  "target_hash observed =
     (if is_proxy observed then oc_implementationCodeHash observed else Some (oc_runtimeCodeHash observed))"

definition current_matches :: "string \<Rightarrow> approved_code_hashes list \<Rightarrow> approved_code_hashes list" where
  "current_matches target approved =
     filter (\<lambda>a. list_ex (\<lambda>h. norm_hash h = norm_hash target) (ah_runtimeCodeHashes a)) approved"

definition historical_matches :: "string \<Rightarrow> approved_code_hashes list \<Rightarrow> approved_code_hashes list" where
  "historical_matches target approved =
     filter (\<lambda>a. list_ex (\<lambda>h. norm_hash h = norm_hash target)
       (case ah_historicalImplementationHashes a of Some hs \<Rightarrow> hs | None \<Rightarrow> [])) approved"

definition fingerprint_refused :: "fingerprint_class \<Rightarrow> string list \<Rightarrow> fingerprint_result" where
  "fingerprint_refused c reasons = \<lparr>fr_class = c, fr_adapterId = None, fr_reasons = reasons\<rparr>"

definition classifyFingerprint :: "observed_contract \<Rightarrow> approved_code_hashes list \<Rightarrow> fingerprint_result" where
  "classifyFingerprint observed approved =
     (case target_hash observed of
        None \<Rightarrow> fingerprint_refused CustomOrUnknown [''the proxy implementation code hash was not observed'']
      | Some target \<Rightarrow>
          (case current_matches target approved of
             [hit] \<Rightarrow> \<lparr>fr_class = (if is_proxy observed then KnownProxyKnownImplementation else ExactKnownNonProxy),
                 fr_adapterId = Some (ah_adapterId hit), fr_reasons = []\<rparr>
           | hit # _ # _ \<Rightarrow> fingerprint_refused Conflicting
               [''code hash matches '' @ show_nat (length (current_matches target approved)) @ '' adapters: ''
                 @ join '', '' (map ah_adapterId (current_matches target approved))]
           | [] \<Rightarrow>
               (case historical_matches target approved of
                  [hit] \<Rightarrow> \<lparr>fr_class = KnownHistoricalEpoch, fr_adapterId = Some (ah_adapterId hit),
                      fr_reasons = [''code matches a superseded implementation epoch, not the approved current one'']\<rparr>
                | hit # _ # _ \<Rightarrow> fingerprint_refused Conflicting [''code hash matches more than one historical epoch'']
                | [] \<Rightarrow> fingerprint_refused CustomOrUnknown
                    (''runtime code hash is not in the approved set for any adapter''
                      # finding_if (is_proxy observed) ''contract is a proxy with an unrecognised implementation''))))"

definition isInterpretable :: "fingerprint_result \<Rightarrow> bool" where
  "isInterpretable r \<longleftrightarrow> fr_class r = ExactKnownNonProxy \<or> fr_class r = KnownProxyKnownImplementation"

section \<open>Adapter epochs (fingerprint.ts)\<close>

record adapter_epoch =
  ep_adapterId :: string
  ep_implementationCodeHash :: string
  ep_fromBlock :: int
  ep_fromTxIndex :: int
  ep_fromLogIndex :: int
  ep_toBlock :: "int option"

definition epoch_start :: "adapter_epoch \<Rightarrow> int \<times> int \<times> int" where
  "epoch_start e = (ep_fromBlock e, ep_fromTxIndex e, ep_fromLogIndex e)"

definition hasStarted :: "int \<Rightarrow> int \<Rightarrow> int \<Rightarrow> adapter_epoch \<Rightarrow> bool" where
  "hasStarted blockNumber txIndex logIndex e \<longleftrightarrow>
     blockNumber > ep_fromBlock e
     \<or> (blockNumber = ep_fromBlock e
        \<and> (txIndex > ep_fromTxIndex e \<or> (txIndex = ep_fromTxIndex e \<and> logIndex \<ge> ep_fromLogIndex e)))"

fun governing :: "('a \<Rightarrow> bool) \<Rightarrow> 'a option \<Rightarrow> 'a list \<Rightarrow> 'a option" where
  "governing started found [] = found"
| "governing started found (e # es) = (if \<not> started e then found else governing started (Some e) es)"

datatype epoch_refusal = PrecedesEveryEpoch | AfterEpochEnded

definition epochAt :: "adapter_epoch list \<Rightarrow> int \<Rightarrow> int \<Rightarrow> int \<Rightarrow> epoch_refusal + adapter_epoch" where
  "epochAt epochs blockNumber txIndex logIndex =
     (case governing (hasStarted blockNumber txIndex logIndex) None (sort_key epoch_start epochs) of
        None \<Rightarrow> Inl PrecedesEveryEpoch
      | Some e \<Rightarrow>
          (case ep_toBlock e of
             Some to \<Rightarrow> if blockNumber > to then Inl AfterEpochEnded else Inr e
           | None \<Rightarrow> Inr e))"

section \<open>Source descriptors (descriptor.ts)\<close>

datatype protocol_family = Ictt | Teleporter | TeleporterV2Experimental | Utilities

datatype contract_role =
  Erc20TokenHome | NativeTokenHome | Erc20TokenRemote | NativeTokenRemote | TeleporterMessengerRole
| TeleporterRegistryRole | WarpAdapter | AbstractBase | LibraryRole

datatype support_level = Supported | Limited | Unsupported

record source_descriptor =
  sd_adapterId :: string
  sd_adapterVersion :: nat
  sd_family :: protocol_family
  sd_role :: contract_role
  sd_support :: support_level
  sd_sourcePath :: string
  sd_sourceBytes :: int
  sd_sourceSha256 :: string
  sd_sourceGitBlobSha :: string
  sd_bindingPath :: "string option"
  sd_abiSha256 :: "string option"
  sd_abiEntries :: "nat option"
  sd_creationBytecodeSha256 :: "string option"
  sd_creationBytecodeBytes :: "nat option"
  sd_reviewedAt :: string

definition bare_hex :: "nat \<Rightarrow> string \<Rightarrow> bool" where
  "bare_hex n s \<longleftrightarrow> length s = n \<and> list_all is_lower_hex s"

definition not_bare_hex :: "string option \<Rightarrow> bool" where
  "not_bare_hex s = (case s of None \<Rightarrow> False | Some h \<Rightarrow> \<not> bare_hex 64 h)"

definition validateDescriptor :: "source_descriptor \<Rightarrow> string list" where
  "validateDescriptor d =
     finding_if (\<not> bare_hex 64 (sd_sourceSha256 d)) (sd_adapterId d @ '': sourceSha256 is not 32-byte hex'')
     @ finding_if (\<not> bare_hex 40 (sd_sourceGitBlobSha d)) (sd_adapterId d @ '': sourceGitBlobSha is not a git blob id'')
     @ finding_if (sd_sourceBytes d \<le> 0) (sd_adapterId d @ '': sourceBytes must be positive'')
     @ finding_if (not_bare_hex (sd_abiSha256 d)) (sd_adapterId d @ '': abiSha256 is not 32-byte hex'')
     @ finding_if (not_bare_hex (sd_creationBytecodeSha256 d))
         (sd_adapterId d @ '': creationBytecodeSha256 is not 32-byte hex'')
     @ finding_if (sd_role d \<noteq> AbstractBase \<and> sd_role d \<noteq> LibraryRole \<and> sd_creationBytecodeSha256 d = None)
         (sd_adapterId d @ '': a concrete contract must carry a creation bytecode hash'')"

record audit_record =
  ar_auditor :: string
  ar_published :: string
  ar_auditedCommitSha :: string
  ar_auditedRepository :: string
  ar_scope :: string

definition AUDIT_RECORDS :: "audit_record list" where
  "AUDIT_RECORDS =
     [\<lparr>ar_auditor = ''OpenZeppelin'', ar_published = ''2023-11-16'',
        ar_auditedCommitSha = ''6ba46565a72a7dabb159d74963d7abc525fb6486'',
        ar_auditedRepository = ''https://github.com/ava-labs/icm-contracts'',
        ar_scope = ''All contracts in the top-level of contracts/teleporter/''\<rparr>,
      \<lparr>ar_auditor = ''Louis'', ar_published = ''2024-01-10'',
        ar_auditedCommitSha = ''9fcdf42da263f3e3d3a60ccf1272d9394eac06d4'',
        ar_auditedRepository = ''https://github.com/ava-labs/icm-contracts'',
        ar_scope = ''Some contracts in contracts/teleporter/registry and contracts/utilities''\<rparr>,
      \<lparr>ar_auditor = ''OpenZeppelin'', ar_published = ''2024-06-26'',
        ar_auditedCommitSha = ''9e03a1e5177e4ad8d1edcedf529e71bb2f4a8d99'',
        ar_auditedRepository = ''https://github.com/ava-labs/icm-contracts'',
        ar_scope = ''All contracts in contracts/ictt/ excluding mocks/''\<rparr>]"

datatype audit_coverage = CoveredAtPinnedCommit | AuditedAtADifferentCommit | NeverAudited

definition auditCoverageFor :: "source_descriptor \<Rightarrow> string \<Rightarrow> audit_coverage" where
  "auditCoverageFor d pinned =
     (if sd_family d = TeleporterV2Experimental then NeverAudited
      else if list_ex (\<lambda>a. ar_auditedCommitSha a = pinned) AUDIT_RECORDS then CoveredAtPinnedCommit
      else AuditedAtADifferentCommit)"

section \<open>Hexadecimal text and bytes\<close>

lemma below_16: "n < (16 :: nat) \<Longrightarrow> n \<in> {0, 1, 2, 3, 4, 5, 6, 7, 8, 9, 10, 11, 12, 13, 14, 15}"
  by (simp, presburger)

lemma nibble_char_facts:
  assumes "n < 16"
  shows "any_hex (nibble_char n)" and "digit_value (nibble_char n) = n"
  using below_16 [OF assms]
  by (auto simp: nibble_char_def any_hex_def is_digit_def in_chars_def digit_value_def)

lemma byte_bounds: "unat (b :: 8 word) div 16 < 16" "unat (b :: 8 word) mod 16 < 16"
  using unsigned_less [where ?'a = nat, of b] by simp_all

lemma byte_hex_any: "list_all any_hex (byte_hex b)"
  by (simp add: byte_hex_def nibble_char_facts byte_bounds)

lemma bytes_hex_any: "list_all any_hex (concat (map byte_hex bs))"
  using byte_hex_any by (induction bs) auto

lemma bytes_hex_length: "length (concat (map byte_hex bs)) = 2 * length bs"
  by (induction bs) (auto simp: byte_hex_def)

lemma pair_bytes_hex: "pair_bytes (concat (map byte_hex bs)) = bs"
proof (induction bs)
  case (Cons b bs)
  have "word_of_nat (16 * (unat b div 16) + unat b mod 16) = b" by simp
  with Cons show ?case by (simp add: byte_hex_def nibble_char_facts byte_bounds)
qed simp

lemma hex_not_prefixed: "list_all any_hex s \<Longrightarrow> take 2 s \<noteq> ''0x''"
  by (cases s; cases "tl s") (auto simp: any_hex_def is_digit_def in_chars_def)

lemma code_body_toHex: "code_body (toHex bs) = concat (map byte_hex bs)"
  by (simp add: code_body_def toHex_def)

lemma code_body_bare: "code_body (concat (map byte_hex bs)) = concat (map byte_hex bs)"
  using hex_not_prefixed [OF bytes_hex_any] by (simp add: code_body_def)

text \<open>
  Hashing the text that names a contract's code, with its prefix or without it, hashes exactly that code;
  text that names no bytes is refused.
\<close>

theorem codeHash_toHex:
  "codeHash keccak (toHex code) = Inr (toHex (keccak code))
   \<and> codeHash keccak (concat (map byte_hex code)) = Inr (toHex (keccak code))
   \<and> (codeHash keccak s = Inl ''runtime code must be an even-length hex string'' \<longleftrightarrow>
        odd (length (code_body s)) \<or> \<not> list_all any_hex (code_body s))"
  using bytes_hex_any [of code] bytes_hex_length [of code]
  by (simp add: codeHash_def Let_def code_body_toHex code_body_bare pair_bytes_hex keccak256Hex_def)

section \<open>Only an exact match is interpreted\<close>

lemma interpretable_iff:
  "isInterpretable (classifyFingerprint observed approved) \<longleftrightarrow>
     (\<exists>target a. target_hash observed = Some target \<and> current_matches target approved = [a])"
  by (auto simp: isInterpretable_def classifyFingerprint_def fingerprint_refused_def split: option.splits list.splits)

lemma interpretable_adapter:
  assumes "target_hash observed = Some target" and "current_matches target approved = [a]"
  shows "fr_adapterId (classifyFingerprint observed approved) = Some (ah_adapterId a)"
  using assms by (simp add: classifyFingerprint_def)

section \<open>The governing epoch\<close>

lemma hasStarted_start: "hasStarted b t l e \<longleftrightarrow> epoch_start e \<le> (b, t, l)"
  by (auto simp: hasStarted_def epoch_start_def less_eq_prod_def)

lemma governing_Some:
  "governing started f es = Some e \<Longrightarrow> f = Some e \<or> (e \<in> set es \<and> started e)"
  by (induction es arbitrary: f) (auto split: if_splits)

lemma governing_None: "governing started None es = None \<longleftrightarrow> es = [] \<or> \<not> started (hd es)"
proof -
  have some: "governing started (Some f) es \<noteq> None" for f es by (induction es arbitrary: f) auto
  show ?thesis using some by (cases es) auto
qed

lemma governing_latest:
  assumes "sorted (map k es)" and "\<And>e. started e \<longleftrightarrow> k e \<le> p" and "governing started f es = Some e"
    and "\<And>x. f = Some x \<Longrightarrow> \<forall>y \<in> set es. k x \<le> k y"
  shows "\<forall>y \<in> set es. started y \<longrightarrow> k y \<le> k e"
  using assms
proof (induction es arbitrary: f)
  case (Cons x es)
  show ?case
  proof (cases "started x")
    case True
    then have run: "governing started (Some x) es = Some e" using Cons.prems(3) by simp
    have all: "\<forall>y \<in> set es. started y \<longrightarrow> k y \<le> k e"
      by (rule Cons.IH [OF _ Cons.prems(2) run]) (use Cons.prems(1) in auto)
    from governing_Some [OF run] have "e = x \<or> e \<in> set es" by auto
    with Cons.prems(1) have "k x \<le> k e" by auto
    with all show ?thesis by simp
  next
    case False
    have "\<not> started y" if "y \<in> set es" for y
    proof -
      from Cons.prems(1) that have "k x \<le> k y" by simp
      with False show ?thesis using Cons.prems(2) by (meson order_trans)
    qed
    with False show ?thesis by auto
  qed
qed simp

text \<open>
  A log is decoded by an epoch only when that epoch has started, no epoch that has started by then began
  later, and it has not ended; a position is refused as preceding exactly when no epoch has started.
\<close>

theorem epochAt_governs:
  "(epochAt epochs b t l = Inr e \<longrightarrow>
      e \<in> set epochs \<and> epoch_start e \<le> (b, t, l)
      \<and> (\<forall>e' \<in> set epochs. epoch_start e' \<le> (b, t, l) \<longrightarrow> epoch_start e' \<le> epoch_start e)
      \<and> (\<forall>to. ep_toBlock e = Some to \<longrightarrow> b \<le> to))
   \<and> (epochAt epochs b t l = Inl PrecedesEveryEpoch \<longleftrightarrow> (\<forall>e' \<in> set epochs. \<not> epoch_start e' \<le> (b, t, l)))"
proof
  let ?es = "sort_key epoch_start epochs" and ?s = "hasStarted b t l"
  show "epochAt epochs b t l = Inr e \<longrightarrow>
      e \<in> set epochs \<and> epoch_start e \<le> (b, t, l)
      \<and> (\<forall>e' \<in> set epochs. epoch_start e' \<le> (b, t, l) \<longrightarrow> epoch_start e' \<le> epoch_start e)
      \<and> (\<forall>to. ep_toBlock e = Some to \<longrightarrow> b \<le> to)"
  proof
    assume "epochAt epochs b t l = Inr e"
    then have run: "governing ?s None ?es = Some e" and ended: "\<forall>to. ep_toBlock e = Some to \<longrightarrow> b \<le> to"
      by (auto simp: epochAt_def split: option.splits if_splits)
    from governing_Some [OF run] have "e \<in> set epochs" "epoch_start e \<le> (b, t, l)" by (auto simp: hasStarted_start)
    moreover have "\<forall>e' \<in> set ?es. ?s e' \<longrightarrow> epoch_start e' \<le> epoch_start e"
      by (rule governing_latest [OF _ hasStarted_start run]) simp_all
    ultimately show "e \<in> set epochs \<and> epoch_start e \<le> (b, t, l)
      \<and> (\<forall>e' \<in> set epochs. epoch_start e' \<le> (b, t, l) \<longrightarrow> epoch_start e' \<le> epoch_start e)
      \<and> (\<forall>to. ep_toBlock e = Some to \<longrightarrow> b \<le> to)"
      using ended by (simp add: hasStarted_start)
  qed
  have "epochAt epochs b t l = Inl PrecedesEveryEpoch \<longleftrightarrow> governing ?s None ?es = None"
    by (auto simp: epochAt_def split: option.splits)
  also have "\<dots> \<longleftrightarrow> (\<forall>e' \<in> set ?es. \<not> ?s e')"
  proof (cases ?es)
    case (Cons x xs)
    have "sorted (map epoch_start ?es)" by simp
    with Cons have "\<forall>y \<in> set xs. epoch_start x \<le> epoch_start y" by simp
    then have "\<not> ?s x \<longrightarrow> (\<forall>y \<in> set xs. \<not> ?s y)" unfolding hasStarted_start by (meson order_trans)
    with Cons show ?thesis unfolding governing_None by auto
  qed (simp add: governing_None)
  finally show "epochAt epochs b t l = Inl PrecedesEveryEpoch \<longleftrightarrow> (\<forall>e' \<in> set epochs. \<not> epoch_start e' \<le> (b, t, l))"
    by (simp add: hasStarted_start)
qed

definition example_epoch :: "string \<Rightarrow> int \<Rightarrow> int \<Rightarrow> int option \<Rightarrow> adapter_epoch" where
  "example_epoch a from tx to = \<lparr>ep_adapterId = a, ep_implementationCodeHash = ''c'', ep_fromBlock = from,
     ep_fromTxIndex = tx, ep_fromLogIndex = 0, ep_toBlock = to\<rparr>"

theorem epochAt_governs_witness:
  "epochAt [example_epoch ''b'' 9 1 None, example_epoch ''a'' 5 0 None] 9 0 4 = Inr (example_epoch ''a'' 5 0 None)
   \<and> (\<forall>e' \<in> set [example_epoch ''b'' 9 1 None, example_epoch ''a'' 5 0 None].
        epoch_start e' \<le> (9, 0, 4) \<longrightarrow> epoch_start e' \<le> epoch_start (example_epoch ''a'' 5 0 None))"
proof -
  have "epochAt [example_epoch ''b'' 9 1 None, example_epoch ''a'' 5 0 None] 9 0 4 = Inr (example_epoch ''a'' 5 0 None)"
    by code_simp
  with epochAt_governs [of "[example_epoch ''b'' 9 1 None, example_epoch ''a'' 5 0 None]" 9 0 4] show ?thesis by blast
qed

end
