(* ===== verification/AdapterRegistry.thy ===== *)
theory AdapterRegistry
  imports Fingerprint
begin

text \<open>
  packages/ictt-adapters: the source lock (descriptors/generated.ts), read off the file, and the
  registry that resolves an observed contract to an adapter (registry.ts).
\<close>

section \<open>The source lock (descriptors/generated.ts)\<close>

definition PINNED_REPOSITORY :: string where
  "PINNED_REPOSITORY = ''https://github.com/ava-labs/icm-services''"

definition PINNED_COMMIT_SHA :: string where
  "PINNED_COMMIT_SHA = ''8fef6ef73767f4497a72d8348a0774a262e0c535''"

definition source_ictt_token_home_abstract :: source_descriptor where
  "source_ictt_token_home_abstract =
     \<lparr>sd_adapterId = ''ictt.token-home.abstract'', sd_adapterVersion = 1, sd_family = Ictt,
      sd_role = AbstractBase, sd_support = Unsupported,
      sd_sourcePath = ''icm-contracts/avalanche/ictt/TokenHome/TokenHome.sol'',
      sd_sourceBytes = 36511,
      sd_sourceSha256 = ''2eaedc8d0b307f33d42e32645656f7fc5ce8b6e0301829f4efda16463de83826'',
      sd_sourceGitBlobSha = ''665de16f7676c6988c14ffc98f4bbd78a5029e71'',
      sd_bindingPath = Some ''abi-bindings/go/.../TokenHome.go'',
      sd_abiSha256 = Some ''cb7b92fb9122d716c59bb37d479122ee8d9accb2bac66aa060cd8153c1e7d55f'',
      sd_abiEntries = Some 35,
      sd_creationBytecodeSha256 = None,
      sd_creationBytecodeBytes = None, sd_reviewedAt = ''2026-08-31''\<rparr>"

definition source_ictt_token_home_erc20 :: source_descriptor where
  "source_ictt_token_home_erc20 =
     \<lparr>sd_adapterId = ''ictt.token-home.erc20'', sd_adapterVersion = 1, sd_family = Ictt,
      sd_role = Erc20TokenHome, sd_support = Supported,
      sd_sourcePath = ''icm-contracts/avalanche/ictt/TokenHome/ERC20TokenHome.sol'',
      sd_sourceBytes = 1072,
      sd_sourceSha256 = ''c389b53dda92cea3d729f414810a71137ede118edd224a6643e00ab1ba684a9b'',
      sd_sourceGitBlobSha = ''5ad9052fdb2d56049a359cb60e65109e0663a252'',
      sd_bindingPath = Some ''abi-bindings/go/.../ERC20TokenHome.go'',
      sd_abiSha256 = Some ''e1485d398e84f5608eaa1b16487f0f368a89164595b05f191dab39a088808b72'',
      sd_abiEntries = Some 41,
      sd_creationBytecodeSha256 = Some ''00b790970a46e7577cb6ab450dddb93b1c553c4ab4b28c07f3c4971b897c5a0f'',
      sd_creationBytecodeBytes = Some 20093, sd_reviewedAt = ''2026-08-31''\<rparr>"

definition source_ictt_token_home_erc20_upgradeable :: source_descriptor where
  "source_ictt_token_home_erc20_upgradeable =
     \<lparr>sd_adapterId = ''ictt.token-home.erc20-upgradeable'', sd_adapterVersion = 1, sd_family = Ictt,
      sd_role = Erc20TokenHome, sd_support = Supported,
      sd_sourcePath = ''icm-contracts/avalanche/ictt/TokenHome/ERC20TokenHomeUpgradeable.sol'',
      sd_sourceBytes = 8125,
      sd_sourceSha256 = ''183753daae32caa30c1ade3ce2a8f72bb3037a1bc872e3ca4cdd386b999fb19b'',
      sd_sourceGitBlobSha = ''925190ad8e72021fc3f63e21a3c4f44ea1f57d1a'',
      sd_bindingPath = Some ''abi-bindings/go/.../ERC20TokenHomeUpgradeable.go'',
      sd_abiSha256 = Some ''3c48e8f54829ebdd8f49388839d6b7ca1f34ee8d6b84820624c844391f81956a'',
      sd_abiEntries = Some 41,
      sd_creationBytecodeSha256 = Some ''6da3be5191b915d74206fdecd8a9213732d429d8bba69f6a78e6548be505b876'',
      sd_creationBytecodeBytes = Some 18075, sd_reviewedAt = ''2026-08-31''\<rparr>"

definition source_ictt_token_home_native :: source_descriptor where
  "source_ictt_token_home_native =
     \<lparr>sd_adapterId = ''ictt.token-home.native'', sd_adapterVersion = 1, sd_family = Ictt,
      sd_role = NativeTokenHome, sd_support = Supported,
      sd_sourcePath = ''icm-contracts/avalanche/ictt/TokenHome/NativeTokenHome.sol'',
      sd_sourceBytes = 1001,
      sd_sourceSha256 = ''a4c941ecda30561d77d40dc094520e379a9a389304180114a9b45e2a4540deb6'',
      sd_sourceGitBlobSha = ''65d2de6e4c49808b18846be82f70aaae971e8673'',
      sd_bindingPath = Some ''abi-bindings/go/.../NativeTokenHome.go'',
      sd_abiSha256 = Some ''e6c12319a1c6aef02accbb24c5d9fafbea3e9eae2396c03db823df46c684370a'',
      sd_abiEntries = Some 44,
      sd_creationBytecodeSha256 = Some ''2058e81b131cbd217c9c44f3f2ca86ed1197b28de5c92fce86532892859fd849'',
      sd_creationBytecodeBytes = Some 20739, sd_reviewedAt = ''2026-08-31''\<rparr>"

definition source_ictt_token_home_native_upgradeable :: source_descriptor where
  "source_ictt_token_home_native_upgradeable =
     \<lparr>sd_adapterId = ''ictt.token-home.native-upgradeable'', sd_adapterVersion = 1, sd_family = Ictt,
      sd_role = NativeTokenHome, sd_support = Supported,
      sd_sourcePath = ''icm-contracts/avalanche/ictt/TokenHome/NativeTokenHomeUpgradeable.sol'',
      sd_sourceBytes = 8635,
      sd_sourceSha256 = ''68a9e8621b556e716243fa563b6367900cf173503ff46a34156c819dc0309889'',
      sd_sourceGitBlobSha = ''de79a3a7991b7c66d2e6f349e415f7aa6f63da4d'',
      sd_bindingPath = Some ''abi-bindings/go/.../NativeTokenHomeUpgradeable.go'',
      sd_abiSha256 = Some ''29f7b39c86efc319c108f793b5e3fa69c49d08e90893b5b181f1366689c3bb0e'',
      sd_abiEntries = Some 44,
      sd_creationBytecodeSha256 = Some ''fd54f70f8ab753a3e140b3b89f9c6080c7558e3a64012c46645971a4c2cfe7b3'',
      sd_creationBytecodeBytes = Some 18749, sd_reviewedAt = ''2026-08-31''\<rparr>"

definition source_ictt_token_remote_abstract :: source_descriptor where
  "source_ictt_token_remote_abstract =
     \<lparr>sd_adapterId = ''ictt.token-remote.abstract'', sd_adapterVersion = 1, sd_family = Ictt,
      sd_role = AbstractBase, sd_support = Unsupported,
      sd_sourcePath = ''icm-contracts/avalanche/ictt/TokenRemote/TokenRemote.sol'',
      sd_sourceBytes = 31346,
      sd_sourceSha256 = ''d7cbf77810f6a59842c90745c523a70bcd8be3015997e014a87341c9384f4719'',
      sd_sourceGitBlobSha = ''256c30b3bafe6fe58fd3ed6e28950ffa46aeb718'',
      sd_bindingPath = Some ''abi-bindings/go/.../TokenRemote.go'',
      sd_abiSha256 = Some ''ac70ca3b2d173f0e87a116416ed56dbf08a1f502b53a6cef2d1e2b9dcc0526dc'',
      sd_abiEntries = Some 40,
      sd_creationBytecodeSha256 = None,
      sd_creationBytecodeBytes = None, sd_reviewedAt = ''2026-08-31''\<rparr>"

definition source_ictt_token_remote_erc20 :: source_descriptor where
  "source_ictt_token_remote_erc20 =
     \<lparr>sd_adapterId = ''ictt.token-remote.erc20'', sd_adapterVersion = 1, sd_family = Ictt,
      sd_role = Erc20TokenRemote, sd_support = Supported,
      sd_sourcePath = ''icm-contracts/avalanche/ictt/TokenRemote/ERC20TokenRemote.sol'',
      sd_sourceBytes = 1002,
      sd_sourceSha256 = ''aae93c0e8e15211aa720f6a88bdcbc2c60d6b0c21c4628c2cdf512593e32f585'',
      sd_sourceGitBlobSha = ''4f4784a327572add3cabaee0a314c91317ba1c9c'',
      sd_bindingPath = Some ''abi-bindings/go/.../ERC20TokenRemote.go'',
      sd_abiSha256 = Some ''2778d8ecf389e8f4d904dc5f19c4a820b36437214eb70076b3a476400dd98647'',
      sd_abiEntries = Some 62,
      sd_creationBytecodeSha256 = Some ''ff956a00618bfd66500609fd3147b7296da0451ff7503897bf4b995cbba5d0a3'',
      sd_creationBytecodeBytes = Some 21877, sd_reviewedAt = ''2026-08-31''\<rparr>"

definition source_ictt_token_remote_erc20_upgradeable :: source_descriptor where
  "source_ictt_token_remote_erc20_upgradeable =
     \<lparr>sd_adapterId = ''ictt.token-remote.erc20-upgradeable'', sd_adapterVersion = 1, sd_family = Ictt,
      sd_role = Erc20TokenRemote, sd_support = Supported,
      sd_sourcePath = ''icm-contracts/avalanche/ictt/TokenRemote/ERC20TokenRemoteUpgradeable.sol'',
      sd_sourceBytes = 9031,
      sd_sourceSha256 = ''d620b70af3b78d0d7bb11224406989ebb4fe9f92f0760729ac760e4db77b7009'',
      sd_sourceGitBlobSha = ''753ddd29e956f37a2b7a8f0f7d937d7a83782d3e'',
      sd_bindingPath = Some ''abi-bindings/go/.../ERC20TokenRemoteUpgradeable.go'',
      sd_abiSha256 = Some ''93f1cfc8d043c2284b42b6ad8a2fd7399836257b97d4a98fd265abf17ca080e5'',
      sd_abiEntries = Some 62,
      sd_creationBytecodeSha256 = Some ''72b50449b6645e0539ed49a3143be9ded3df669edcbf64539b4b6acb828a35f4'',
      sd_creationBytecodeBytes = Some 18247, sd_reviewedAt = ''2026-08-31''\<rparr>"

definition source_ictt_token_remote_native :: source_descriptor where
  "source_ictt_token_remote_native =
     \<lparr>sd_adapterId = ''ictt.token-remote.native'', sd_adapterVersion = 1, sd_family = Ictt,
      sd_role = NativeTokenRemote, sd_support = Limited,
      sd_sourcePath = ''icm-contracts/avalanche/ictt/TokenRemote/NativeTokenRemote.sol'',
      sd_sourceBytes = 1147,
      sd_sourceSha256 = ''ba8fc0384df9f7bcc0eea1e6bdcda5462c5fb062a53ab16e0cfdfc70316bbdb8'',
      sd_sourceGitBlobSha = ''3f48e2ca516c1264eee83b19326b9c987825aca6'',
      sd_bindingPath = Some ''abi-bindings/go/.../NativeTokenRemote.go'',
      sd_abiSha256 = Some ''fef3e031809b56f9bc96d004827e4394cbe5e40deea2f3ca5981980018635721'',
      sd_abiEntries = Some 78,
      sd_creationBytecodeSha256 = Some ''c30b749fffe055881252efde848ee650005139328af6ca9328e67378fb372b74'',
      sd_creationBytecodeBytes = Some 24139, sd_reviewedAt = ''2026-08-31''\<rparr>"

definition source_ictt_token_remote_native_upgradeable :: source_descriptor where
  "source_ictt_token_remote_native_upgradeable =
     \<lparr>sd_adapterId = ''ictt.token-remote.native-upgradeable'', sd_adapterVersion = 1, sd_family = Ictt,
      sd_role = NativeTokenRemote, sd_support = Limited,
      sd_sourcePath = ''icm-contracts/avalanche/ictt/TokenRemote/NativeTokenRemoteUpgradeable.sol'',
      sd_sourceBytes = 16913,
      sd_sourceSha256 = ''3fb5cbf04c8e3ee7b3ba23aaf2bbd1149cfd910672f1f240e798ce62af458d2f'',
      sd_sourceGitBlobSha = ''0124afe6fe2f4fe2bbebc82354d852c920fa3eae'',
      sd_bindingPath = Some ''abi-bindings/go/.../NativeTokenRemoteUpgradeable.go'',
      sd_abiSha256 = Some ''b048bd78f369d71b7a2b5dceb591d831f835ac1a9ebd9c010e76cc2bbb6404ff'',
      sd_abiEntries = Some 78,
      sd_creationBytecodeSha256 = Some ''464f3e7fb865466fd84a1ff8e7e86ae726e1b6c2c5dc056211f6bc394f6ef52b'',
      sd_creationBytecodeBytes = Some 20356, sd_reviewedAt = ''2026-08-31''\<rparr>"

definition source_teleporter_messenger :: source_descriptor where
  "source_teleporter_messenger =
     \<lparr>sd_adapterId = ''teleporter.messenger'', sd_adapterVersion = 1, sd_family = Teleporter,
      sd_role = TeleporterMessengerRole, sd_support = Supported,
      sd_sourcePath = ''icm-contracts/avalanche/teleporter/TeleporterMessenger.sol'',
      sd_sourceBytes = 38727,
      sd_sourceSha256 = ''56b29ce504656c5ff7fed695317571f566cc753110f51b716efb05292540b437'',
      sd_sourceGitBlobSha = ''fda3175c4b199427d77a6c71ad4741cfb0635d1d'',
      sd_bindingPath = Some ''abi-bindings/go/.../TeleporterMessenger.go'',
      sd_abiSha256 = Some ''dc9612c1ec3cd831c08167e53304ae01815d372242c0903443032de87631ced8'',
      sd_abiEntries = Some 32,
      sd_creationBytecodeSha256 = Some ''67e1482e6c3c7504d787de1717bf696c5f8d1a79e23702ac94df16d71002c9bb'',
      sd_creationBytecodeBytes = Some 12354, sd_reviewedAt = ''2026-08-31''\<rparr>"

definition source_teleporter_registry :: source_descriptor where
  "source_teleporter_registry =
     \<lparr>sd_adapterId = ''teleporter.registry'', sd_adapterVersion = 1, sd_family = Teleporter,
      sd_role = TeleporterRegistryRole, sd_support = Supported,
      sd_sourcePath = ''icm-contracts/avalanche/teleporter/registry/TeleporterRegistry.sol'',
      sd_sourceBytes = 8700,
      sd_sourceSha256 = ''3ee287a3d482770d5ae48bd0807a264ebe1b69d7e634a6dafedf7d188c54003d'',
      sd_sourceGitBlobSha = ''c72795bd9d1def3cd499779e5ecbbf8d93b742e6'',
      sd_bindingPath = Some ''abi-bindings/go/.../TeleporterRegistry.go'',
      sd_abiSha256 = Some ''1c2e29c7055c848de27cf6d47a4dcf6773ca767048a7be427c8b095412bca680'',
      sd_abiEntries = Some 13,
      sd_creationBytecodeSha256 = Some ''a4b38d15b042b9f8a67eb85b046ef76f0356eb532c5a6f607bb5675c89134cf1'',
      sd_creationBytecodeBytes = Some 4092, sd_reviewedAt = ''2026-08-31''\<rparr>"

definition source_teleporter_v2_experimental_warp_adapter :: source_descriptor where
  "source_teleporter_v2_experimental_warp_adapter =
     \<lparr>sd_adapterId = ''teleporter-v2-experimental.warp-adapter'', sd_adapterVersion = 1, sd_family = TeleporterV2Experimental,
      sd_role = WarpAdapter, sd_support = Unsupported,
      sd_sourcePath = ''icm-contracts/avalanche/teleporterV2/WarpAdapter.sol'',
      sd_sourceBytes = 3644,
      sd_sourceSha256 = ''d2e858051377618bcff286dc6731cf0960d688d25010de745f57056f8c47629c'',
      sd_sourceGitBlobSha = ''628ff8d4ec95d59e0f1a073b0c772f31e1f8f950'',
      sd_bindingPath = Some ''abi-bindings/go/.../WarpAdapter.go'',
      sd_abiSha256 = Some ''3b9df6f95186cf299e4d88ce522c8a9515eb82ded362612064f9efdf775dbfc1'',
      sd_abiEntries = Some 3,
      sd_creationBytecodeSha256 = Some ''4eda31192168948db8333a584a3e0c04f68d1abd148f3721cf9b12549e850bc2'',
      sd_creationBytecodeBytes = Some 2340, sd_reviewedAt = ''2026-08-31''\<rparr>"

definition source_utilities_token_scaling :: source_descriptor where
  "source_utilities_token_scaling =
     \<lparr>sd_adapterId = ''utilities.token-scaling'', sd_adapterVersion = 1, sd_family = Utilities,
      sd_role = LibraryRole, sd_support = Supported,
      sd_sourcePath = ''icm-contracts/avalanche/utilities/TokenScalingUtils.sol'',
      sd_sourceBytes = 3593,
      sd_sourceSha256 = ''caa22f42a871761a295bf134446e97188a84963455e7388f9dba473d944125d5'',
      sd_sourceGitBlobSha = ''7d61a8127a0875b810bfc3fec2350e3ec16932ca'',
      sd_bindingPath = None,
      sd_abiSha256 = None,
      sd_abiEntries = None,
      sd_creationBytecodeSha256 = None,
      sd_creationBytecodeBytes = None, sd_reviewedAt = ''2026-08-31''\<rparr>"

definition SOURCE_DESCRIPTORS :: "source_descriptor list" where
  "SOURCE_DESCRIPTORS =
     [source_ictt_token_home_abstract,
      source_ictt_token_home_erc20,
      source_ictt_token_home_erc20_upgradeable,
      source_ictt_token_home_native,
      source_ictt_token_home_native_upgradeable,
      source_ictt_token_remote_abstract,
      source_ictt_token_remote_erc20,
      source_ictt_token_remote_erc20_upgradeable,
      source_ictt_token_remote_native,
      source_ictt_token_remote_native_upgradeable,
      source_teleporter_messenger,
      source_teleporter_registry,
      source_teleporter_v2_experimental_warp_adapter,
      source_utilities_token_scaling]"

section \<open>Resolution (registry.ts)\<close>

definition descriptorProblems :: "string list" where
  "descriptorProblems = concat (map validateDescriptor SOURCE_DESCRIPTORS)"

text \<open>Loading the module: a malformed table is an exception, so nothing below it exists.\<close>

definition load_registry :: "string + (string \<times> source_descriptor) list" where
  "load_registry =
     (if descriptorProblems \<noteq> []
      then Inl (''source descriptor table is invalid:'' @ CHR 0x0A # ''  ''
             @ join (CHR 0x0A # ''  '') descriptorProblems)
      else Inr (map_of_entries (map (\<lambda>d. (sd_adapterId d, d)) SOURCE_DESCRIPTORS)))"

definition BY_ID :: "(string \<times> source_descriptor) list" where
  "BY_ID = map_of_entries (map (\<lambda>d. (sd_adapterId d, d)) SOURCE_DESCRIPTORS)"

definition getDescriptor :: "string \<Rightarrow> source_descriptor option" where
  "getDescriptor adapterId = map_of BY_ID adapterId"

definition INTERPRETABLE_FAMILIES :: "protocol_family list" where
  "INTERPRETABLE_FAMILIES = [Ictt, Teleporter, Utilities]"

datatype resolution_outcome = OutcomeSupported | OutcomeLimited | OutcomeUnsupported | OutcomeUnknown

datatype resolution_reason =
  FamilyNotInterpreted protocol_family | ExperimentalTreeUnaudited | FamilyOutsideLock | FingerprintReason string
| NotInSourceLock "string option" | FamilyMismatch protocol_family protocol_family | PresentNotInterpretable string
| AuditCoverage audit_coverage | BoundedClaimOnly

record adapter_resolution =
  rs_outcome :: resolution_outcome
  rs_adapterId :: "string option"
  rs_descriptor :: "source_descriptor option"
  rs_fingerprint :: fingerprint_result
  rs_reasons :: "resolution_reason list"
  rs_interpretable :: bool

definition unresolved :: "resolution_outcome \<Rightarrow> fingerprint_result \<Rightarrow> resolution_reason list \<Rightarrow> adapter_resolution" where
  "unresolved outcome fingerprint reasons =
     \<lparr>rs_outcome = outcome, rs_adapterId = None, rs_descriptor = None, rs_fingerprint = fingerprint,
      rs_reasons = reasons, rs_interpretable = False\<rparr>"

fun outcome_of :: "support_level \<Rightarrow> resolution_outcome" where
  "outcome_of Supported = OutcomeSupported"
| "outcome_of Limited = OutcomeLimited"
| "outcome_of Unsupported = OutcomeUnsupported"

definition resolved :: "fingerprint_result \<Rightarrow> source_descriptor \<Rightarrow> adapter_resolution" where
  "resolved fingerprint d =
     (let coverage = auditCoverageFor d PINNED_COMMIT_SHA
      in \<lparr>rs_outcome = outcome_of (sd_support d), rs_adapterId = Some (sd_adapterId d), rs_descriptor = Some d,
          rs_fingerprint = fingerprint,
          rs_reasons = finding_if (coverage \<noteq> CoveredAtPinnedCommit) (AuditCoverage coverage)
            @ finding_if (sd_support d = Limited) BoundedClaimOnly,
          rs_interpretable = True\<rparr>)"

definition resolveAdapter ::
  "observed_contract \<Rightarrow> approved_code_hashes list \<Rightarrow> protocol_family \<Rightarrow> adapter_resolution" where
  "resolveAdapter observed approved expectedFamily =
     (if expectedFamily \<notin> set INTERPRETABLE_FAMILIES
      then unresolved OutcomeUnsupported (fingerprint_refused CustomOrUnknown [])
        [FamilyNotInterpreted expectedFamily,
         if expectedFamily = TeleporterV2Experimental then ExperimentalTreeUnaudited else FamilyOutsideLock]
      else let fingerprint = classifyFingerprint observed approved
      in if \<not> isInterpretable fingerprint
         then unresolved OutcomeUnknown fingerprint (map FingerprintReason (fr_reasons fingerprint))
         else (case Option.bind (fr_adapterId fingerprint) getDescriptor of
             None \<Rightarrow> unresolved OutcomeUnknown fingerprint [NotInSourceLock (fr_adapterId fingerprint)]
           | Some d \<Rightarrow>
               if sd_family d \<noteq> expectedFamily
               then unresolved OutcomeUnknown fingerprint [FamilyMismatch (sd_family d) expectedFamily]
               else if sd_support d = Unsupported
               then unresolved OutcomeUnsupported fingerprint [PresentNotInterpretable (sd_adapterId d)]
               else resolved fingerprint d))"

text \<open>A registry protocol version never selects a family: the function always throws.\<close>

definition familyFromRegistryVersion :: "nat \<Rightarrow> string + protocol_family" where
  "familyFromRegistryVersion version =
     Inl (''a Teleporter registry protocol version does not identify a protocol source family; ''
        @ ''resolve the family from the implementation fingerprint instead'')"

record source_lock_summary =
  sl_repository :: string
  sl_commitSha :: string
  sl_descriptorCount :: nat
  sl_bySupport :: "(support_level \<times> nat) list"

definition sourceLockSummary :: source_lock_summary where
  "sourceLockSummary =
     \<lparr>sl_repository = PINNED_REPOSITORY, sl_commitSha = PINNED_COMMIT_SHA,
      sl_descriptorCount = length SOURCE_DESCRIPTORS,
      sl_bySupport = foldl (\<lambda>m d. AList.update (sd_support d) ((case map_of m (sd_support d) of Some n \<Rightarrow> n | None \<Rightarrow> 0) + 1) m)
        [(Supported, 0), (Limited, 0), (Unsupported, 0)] SOURCE_DESCRIPTORS\<rparr>"

section \<open>The source lock is well formed\<close>

lemmas source_defs = source_ictt_token_home_abstract_def
  source_ictt_token_home_erc20_def
  source_ictt_token_home_erc20_upgradeable_def
  source_ictt_token_home_native_def
  source_ictt_token_home_native_upgradeable_def
  source_ictt_token_remote_abstract_def
  source_ictt_token_remote_erc20_def
  source_ictt_token_remote_erc20_upgradeable_def
  source_ictt_token_remote_native_def
  source_ictt_token_remote_native_upgradeable_def
  source_teleporter_messenger_def
  source_teleporter_registry_def
  source_teleporter_v2_experimental_warp_adapter_def
  source_utilities_token_scaling_def

lemma lower_hex_chars [simp]:
  "is_lower_hex (CHR ''0'')"
  "is_lower_hex (CHR ''1'')"
  "is_lower_hex (CHR ''2'')"
  "is_lower_hex (CHR ''3'')"
  "is_lower_hex (CHR ''4'')"
  "is_lower_hex (CHR ''5'')"
  "is_lower_hex (CHR ''6'')"
  "is_lower_hex (CHR ''7'')"
  "is_lower_hex (CHR ''8'')"
  "is_lower_hex (CHR ''9'')"
  "is_lower_hex (CHR ''a'')"
  "is_lower_hex (CHR ''b'')"
  "is_lower_hex (CHR ''c'')"
  "is_lower_hex (CHR ''d'')"
  "is_lower_hex (CHR ''e'')"
  "is_lower_hex (CHR ''f'')"
  by (simp_all add: is_lower_hex_def is_digit_def)

lemma descriptors_valid: "descriptorProblems = []"
  unfolding descriptorProblems_def SOURCE_DESCRIPTORS_def source_defs
  by (simp add: validateDescriptor_def bare_hex_def not_bare_hex_def)

lemma ids_distinct: "distinct (map sd_adapterId SOURCE_DESCRIPTORS)"
  unfolding SOURCE_DESCRIPTORS_def source_defs by simp

lemma BY_ID_map: "BY_ID = map (\<lambda>d. (sd_adapterId d, d)) SOURCE_DESCRIPTORS"
  unfolding BY_ID_def using ids_distinct by (intro map_of_entries_distinct) (simp add: comp_def)

lemma getDescriptor_iff: "getDescriptor i = Some d \<longleftrightarrow> d \<in> set SOURCE_DESCRIPTORS \<and> sd_adapterId d = i"
proof -
  have "distinct (map fst BY_ID)" unfolding BY_ID_map using ids_distinct by (simp add: comp_def)
  then have "getDescriptor i = Some d \<longleftrightarrow> (i, d) \<in> set BY_ID"
    unfolding getDescriptor_def by (rule map_of_eq_Some_iff)
  then show ?thesis unfolding BY_ID_map by auto
qed

text \<open>
  The table passes its own structural check, so the module loads; every identifier names one entry, and
  the experimental family has no entry that is interpreted.
\<close>

theorem source_lock_loads:
  "load_registry = Inr BY_ID \<and> distinct (map sd_adapterId SOURCE_DESCRIPTORS)
   \<and> (\<forall>d \<in> set SOURCE_DESCRIPTORS. sd_family d = TeleporterV2Experimental \<longrightarrow> sd_support d = Unsupported)
   \<and> (\<forall>d \<in> set SOURCE_DESCRIPTORS. auditCoverageFor d PINNED_COMMIT_SHA \<noteq> CoveredAtPinnedCommit)"
proof -
  have "\<forall>d \<in> set SOURCE_DESCRIPTORS. sd_family d = TeleporterV2Experimental \<longrightarrow> sd_support d = Unsupported"
    unfolding SOURCE_DESCRIPTORS_def source_defs by simp
  moreover have "auditCoverageFor d PINNED_COMMIT_SHA \<noteq> CoveredAtPinnedCommit" for d
    by (simp add: auditCoverageFor_def AUDIT_RECORDS_def PINNED_COMMIT_SHA_def)
  ultimately show ?thesis by (simp add: load_registry_def BY_ID_def descriptors_valid ids_distinct)
qed

theorem source_lock_loads_witness:
  "sd_support source_teleporter_v2_experimental_warp_adapter = Unsupported
   \<and> auditCoverageFor source_utilities_token_scaling PINNED_COMMIT_SHA \<noteq> CoveredAtPinnedCommit"
proof -
  have "source_teleporter_v2_experimental_warp_adapter \<in> set SOURCE_DESCRIPTORS"
    "source_utilities_token_scaling \<in> set SOURCE_DESCRIPTORS"
    "sd_family source_teleporter_v2_experimental_warp_adapter = TeleporterV2Experimental"
    by (simp_all add: SOURCE_DESCRIPTORS_def source_teleporter_v2_experimental_warp_adapter_def)
  then show ?thesis using source_lock_loads by blast
qed

text \<open>
  C30. A contract is interpreted exactly when the manifest's family is one this build interprets, its code hash
  (the implementation's, for a proxy) is approved for exactly one adapter, and that adapter is in the source
  lock with that very family and a support level that allows it.
\<close>

theorem resolveAdapter_interpretable:
  "rs_interpretable (resolveAdapter observed approved family) \<longleftrightarrow>
     family \<noteq> TeleporterV2Experimental
     \<and> (\<exists>target a d. target_hash observed = Some target \<and> current_matches target approved = [a]
          \<and> d \<in> set SOURCE_DESCRIPTORS \<and> sd_adapterId d = ah_adapterId a
          \<and> sd_family d = family \<and> sd_support d \<noteq> Unsupported
          \<and> rs_descriptor (resolveAdapter observed approved family) = Some d)"
proof (cases "family = TeleporterV2Experimental")
  case True
  then show ?thesis by (simp add: resolveAdapter_def INTERPRETABLE_FAMILIES_def unresolved_def)
next
  case False
  then have known: "family \<in> set INTERPRETABLE_FAMILIES" by (cases family) (simp_all add: INTERPRETABLE_FAMILIES_def)
  show ?thesis
  proof (cases "\<exists>target a. target_hash observed = Some target \<and> current_matches target approved = [a]")
    case True
    then obtain target a where m: "target_hash observed = Some target" "current_matches target approved = [a]" by blast
    have i: "isInterpretable (classifyFingerprint observed approved)" unfolding interpretable_iff using m by blast
    have r: "resolveAdapter observed approved family =
        (case getDescriptor (ah_adapterId a) of
           None \<Rightarrow> unresolved OutcomeUnknown (classifyFingerprint observed approved) [NotInSourceLock (Some (ah_adapterId a))]
         | Some d \<Rightarrow>
             if sd_family d \<noteq> family
             then unresolved OutcomeUnknown (classifyFingerprint observed approved) [FamilyMismatch (sd_family d) family]
             else if sd_support d = Unsupported
             then unresolved OutcomeUnsupported (classifyFingerprint observed approved) [PresentNotInterpretable (sd_adapterId d)]
             else resolved (classifyFingerprint observed approved) d)"
      using known i interpretable_adapter [OF m] by (simp add: resolveAdapter_def Let_def split: option.split)
    show ?thesis
    proof (cases "getDescriptor (ah_adapterId a)")
      case None
      then have "d \<notin> set SOURCE_DESCRIPTORS \<or> sd_adapterId d \<noteq> ah_adapterId a" for d
        using getDescriptor_iff [of "ah_adapterId a" d] by auto
      with m show ?thesis unfolding r None by (auto simp: unresolved_def)
    next
      case (Some d)
      with getDescriptor_iff have d: "d \<in> set SOURCE_DESCRIPTORS" "sd_adapterId d = ah_adapterId a" by blast+
      show ?thesis unfolding r Some using False m d by (auto simp: unresolved_def resolved_def Let_def)
    qed
  next
    case no: False
    then have "\<not> isInterpretable (classifyFingerprint observed approved)" unfolding interpretable_iff .
    then have "\<not> rs_interpretable (resolveAdapter observed approved family)"
      using known by (simp add: resolveAdapter_def unresolved_def Let_def)
    with no show ?thesis by blast
  qed
qed

end
