(* ===== verification/WatchPlan.thy ===== *)
theory WatchPlan
  imports Reference Tick LogSource
begin

text \<open>
  From a reviewed manifest and policy to what the agent watches (apps/agent: plan.ts), and how the plan
  composes with the checks of the loader, the registered chains, the log source and the tick.
\<close>

section \<open>The plan (plan.ts)\<close>

record watch_plan =
  wp_deployment :: deployment_plan
  wp_chains :: "chain_wiring list"

definition wiring :: "string \<Rightarrow> policy \<Rightarrow> manifest_side \<Rightarrow> chain_wiring" where
  "wiring deploymentId policy side =
     \<lparr>cn_chainKey = chainKeyOf deploymentId (md_name side), cn_endpoints = mc_endpoints (md_chain side),
      cn_maxRangeBlocks = po_maxLogRangeBlocks policy, cn_finality = finality_text (mc_finalityMode (md_chain side))\<rparr>"

definition chain_plan_of :: "string \<Rightarrow> policy \<Rightarrow> manifest_side \<Rightarrow> chain_plan" where
  "chain_plan_of deploymentId policy side =
     (let chain = md_chain side; chainKey = chainKeyOf deploymentId (md_name side)
      in \<lparr>cl_chainKey = chainKey,
          cl_identity = \<lparr>ci_evmChainId = mc_evmChainId chain, ci_blockchainId = mc_blockchainId chain\<rparr>,
          cl_finality = finality_text (mc_finalityMode chain),
          cl_config =
            \<lparr>rc_deploymentId = deploymentId, rc_chainKey = chainKey,
             rc_startBlock = big_int (md_deploymentBlock side),
             rc_agreement =
               \<lparr>ap_requiredIndependentGroups =
                  int (max (po_minIndependentTrustDomains policy) (mc_independentTrustDomains chain)),
                ap_archiveFallbackDeclared =
                  list_ex (\<lambda>e. en_archiveDepth e = ArchiveFull \<and> en_role e = RoleArchive) (mc_endpoints chain)\<rparr>,
             rc_retryBudget = int (po_maxRetries policy),
             rc_freshnessTtlMs = po_maxAgeSeconds policy * 1000,
             rc_maxHintsConsidered = 32\<rparr>\<rparr>)"

definition buildWatchPlan :: "manifest \<Rightarrow> policy \<Rightarrow> string + watch_plan" where
  "buildWatchPlan m policy =
     (if \<not> isApproved (mf_baseline m) then Inl ''agent requires an operator-approved manifest baseline''
      else Inr \<lparr>wp_deployment =
            \<lparr>dp_deploymentId = mf_name m, dp_chains = map (chain_plan_of (mf_name m) policy) (manifest_sides m),
             dp_maxHints = 32,
             dp_freshness = \<lparr>fp_maxAgeSeconds = po_maxAgeSeconds policy,
               fp_expiresAfterSeconds = po_expiresAfterSeconds policy\<rparr>\<rparr>,
          wp_chains = map (wiring (mf_name m) policy) (manifest_sides m)\<rparr>)"

text \<open>
  A plan exists exactly when an operator approved the baseline. It watches every side of the manifest from
  its declared deployment block under the registered chain key, asks for at least the witnesses that the policy
  and the chain each ask for, and for a manifest that passes the loader never for more than the trust domains
  the chain declares.
\<close>

theorem buildWatchPlan_spec:
  "(is_ok (buildWatchPlan m policy) \<longleftrightarrow> isApproved (mf_baseline m))
   \<and> (\<forall>plan. buildWatchPlan m policy = Inr plan \<longrightarrow>
        map cl_chainKey (dp_chains (wp_deployment plan)) = map (chainKeyOf (mf_name m) \<circ> md_name) (manifest_sides m)
        \<and> map cl_chainKey (dp_chains (wp_deployment plan)) = map cn_chainKey (wp_chains plan)
        \<and> (\<forall>c \<in> set (dp_chains (wp_deployment plan)). \<exists>s \<in> set (manifest_sides m).
             rc_startBlock (cl_config c) = big_int (md_deploymentBlock s)
             \<and> int (po_minIndependentTrustDomains policy) \<le> ap_requiredIndependentGroups (rc_agreement (cl_config c))
             \<and> int (mc_independentTrustDomains (md_chain s)) \<le> ap_requiredIndependentGroups (rc_agreement (cl_config c))
             \<and> (checkManifestInvariants m = [] \<and> assertManifestMeetsPolicy m policy = Inr () \<longrightarrow>
                  ap_requiredIndependentGroups (rc_agreement (cl_config c))
                    \<le> int (card (en_trustDomain ` set (mc_endpoints (md_chain s)))))
             \<and> (ap_archiveFallbackDeclared (rc_agreement (cl_config c)) \<longrightarrow> has_archive (md_chain s))))"
proof (cases "isApproved (mf_baseline m)")
  case False
  then show ?thesis by (simp add: buildWatchPlan_def)
next
  case True
  let ?chains = "map (chain_plan_of (mf_name m) policy) (manifest_sides m)"
  have keys: "map cl_chainKey ?chains = map (chainKeyOf (mf_name m) \<circ> md_name) (manifest_sides m)"
    "map cn_chainKey (map (wiring (mf_name m) policy) (manifest_sides m)) = map (chainKeyOf (mf_name m) \<circ> md_name) (manifest_sides m)"
    by (simp_all add: chain_plan_of_def wiring_def Let_def)
  have met: "int (max (po_minIndependentTrustDomains policy) (mc_independentTrustDomains (md_chain s)))
      \<le> int (card (en_trustDomain ` set (mc_endpoints (md_chain s))))"
    if "s \<in> set (manifest_sides m)" "checkManifestInvariants m = []" "assertManifestMeetsPolicy m policy = Inr ()" for s
    using that by (simp add: checkManifestInvariants_iff assertManifestMeetsPolicy_iff chain_sound_def)
  have "\<exists>s \<in> set (manifest_sides m).
             rc_startBlock (cl_config c) = big_int (md_deploymentBlock s)
             \<and> int (po_minIndependentTrustDomains policy) \<le> ap_requiredIndependentGroups (rc_agreement (cl_config c))
             \<and> int (mc_independentTrustDomains (md_chain s)) \<le> ap_requiredIndependentGroups (rc_agreement (cl_config c))
             \<and> (checkManifestInvariants m = [] \<and> assertManifestMeetsPolicy m policy = Inr () \<longrightarrow>
                  ap_requiredIndependentGroups (rc_agreement (cl_config c))
                    \<le> int (card (en_trustDomain ` set (mc_endpoints (md_chain s)))))
             \<and> (ap_archiveFallbackDeclared (rc_agreement (cl_config c)) \<longrightarrow> has_archive (md_chain s))"
    if "c \<in> set ?chains" for c
  proof -
    from that obtain s where s: "s \<in> set (manifest_sides m)" and c: "c = chain_plan_of (mf_name m) policy s" by auto
    have "list_ex (\<lambda>e. en_archiveDepth e = ArchiveFull \<and> en_role e = RoleArchive) (mc_endpoints (md_chain s))
        \<Longrightarrow> has_archive (md_chain s)"
      by (auto simp: list_ex_iff has_archive_def)
    with met [OF s] show ?thesis unfolding c by (intro bexI [OF _ s]) (simp add: chain_plan_of_def Let_def)
  qed
  with True keys show ?thesis by (simp add: buildWatchPlan_def)
qed

text \<open>
  C17. Registration and the plan agree: when the rows of a manifest are recorded, every watched chain has its row,
  under its key and with the identity and finality that the plan uses.
\<close>

theorem plan_chains_registered:
  assumes "buildWatchPlan m policy = Inr plan" and "referenceRowsFor m digest = Inr rows" and "recorded rows t"
    and "c \<in> set (dp_chains (wp_deployment plan))"
  shows "\<exists>r. chain_at t (cl_chainKey c) = Some r \<and> ch_deploymentId r = dp_deploymentId (wp_deployment plan)
    \<and> ch_blockchainId r = toLowerCase (ci_blockchainId (cl_identity c))
    \<and> ch_evmChainId r = ci_evmChainId (cl_identity c) \<and> finality_text (ch_finalityMode r) = cl_finality c"
proof -
  have plan: "dp_chains (wp_deployment plan) = map (chain_plan_of (mf_name m) policy) (manifest_sides m)"
    "dp_deploymentId (wp_deployment plan) = mf_name m"
    using assms(1) by (auto simp: buildWatchPlan_def split: if_splits)
  with assms(4) obtain s where s: "s \<in> set (manifest_sides m)" and c: "c = chain_plan_of (mf_name m) policy s" by auto
  have "rw_chains rows = map (chain_row_of (mf_name m)) (manifest_sides m)"
    using assms(2) by (auto simp: referenceRowsFor_def split: option.splits)
  with assms(3) s have "chain_at t (ch_chainKey (chain_row_of (mf_name m) s)) = Some (chain_row_of (mf_name m) s)"
    unfolding recorded_def by auto
  then show ?thesis unfolding c plan(2) by (simp add: chain_row_of_def chain_plan_of_def Let_def)
qed

section \<open>A quorum that can never form\<close>

text \<open>
  The loader counts trust domains, the log source also merges endpoints of one provider group. A manifest with two
  trust domains in one provider group passes both checks of the loader, and its plan asks for two witnesses where
  the source has one.
\<close>

definition shared_provider :: manifest where
  "shared_provider =
     (let side = example_side ''h'';
          eps = [example_endpoint ''A'', (example_endpoint ''B'')\<lparr>en_providerGroup := ''A''\<rparr>]
      in example_manifest\<lparr>mf_home := side\<lparr>md_chain := (md_chain side)\<lparr>mc_endpoints := eps\<rparr>\<rparr>\<rparr>)"

definition example_policy :: policy where
  "example_policy = \<lparr>po_apiVersion = ''sentinel.ictt/v1alpha1'', po_name = ''p'', po_maxAgeSeconds = 60,
     po_expiresAfterSeconds = 120, po_minIndependentTrustDomains = 2, po_maxRetries = 2, po_maxLogRangeBlocks = 100\<rparr>"

lemma shared_provider_passes:
  "checkManifestInvariants shared_provider = [] \<and> assertManifestMeetsPolicy shared_provider example_policy = Inr ()"
  by code_simp

lemma shared_provider_one_witness:
  "length (witness_groups hex_text (\<lambda>s. s) (\<lambda>_. None) (mc_endpoints (md_chain (mf_home shared_provider)))) = 1"
  by code_simp

lemma shared_provider_never_agrees:
  "case buildWatchPlan shared_provider example_policy of
     Inr plan \<Rightarrow> ap_requiredIndependentGroups (rc_agreement (cl_config (hd (dp_chains (wp_deployment plan))))) = 2
   | Inl _ \<Rightarrow> False"
  by code_simp

section \<open>Examples\<close>

lemma example_plan: "\<exists>plan. buildWatchPlan example_manifest example_policy = Inr plan
    \<and> map cl_chainKey (dp_chains (wp_deployment plan)) = [''d/h'', ''d/r'']"
proof -
  have "case buildWatchPlan example_manifest example_policy of
      Inr plan \<Rightarrow> map cl_chainKey (dp_chains (wp_deployment plan)) = [''d/h'', ''d/r''] | Inl _ \<Rightarrow> False"
    by code_simp
  then show ?thesis by (cases "buildWatchPlan example_manifest example_policy") auto
qed

theorem buildWatchPlan_spec_witness:
  "\<exists>plan. buildWatchPlan example_manifest example_policy = Inr plan
    \<and> (\<forall>c \<in> set (dp_chains (wp_deployment plan)). 2 \<le> ap_requiredIndependentGroups (rc_agreement (cl_config c)))"
proof -
  obtain plan where plan: "buildWatchPlan example_manifest example_policy = Inr plan" using example_plan by blast
  have two: "po_minIndependentTrustDomains example_policy = 2" by (simp add: example_policy_def)
  from buildWatchPlan_spec [of example_manifest example_policy] plan
  have "\<forall>c \<in> set (dp_chains (wp_deployment plan)).
      int (po_minIndependentTrustDomains example_policy) \<le> ap_requiredIndependentGroups (rc_agreement (cl_config c))"
    by blast
  with plan two show ?thesis by auto
qed

definition example_digest :: string where
  "example_digest = ''sha256:'' @ replicate 64 (CHR ''0'')"

definition example_rows :: reference_rows where
  "example_rows = \<lparr>rw_deployment = \<lparr>dr_deploymentId = ''d'', dr_manifestHash = replicate 64 (CHR ''0''),
       dr_assetMode = CanonicalErc20\<rparr>,
     rw_chains = map (chain_row_of ''d'') (manifest_sides example_manifest)\<rparr>"

theorem plan_chains_registered_witness:
  "\<exists>plan. buildWatchPlan example_manifest example_policy = Inr plan
    \<and> (\<exists>r. chain_at \<lparr>rt_deployments = [rw_deployment example_rows], rt_chains = rw_chains example_rows\<rparr> ''d/h'' = Some r
         \<and> finality_text (ch_finalityMode r) = cl_finality (hd (dp_chains (wp_deployment plan))))"
proof -
  let ?t = "\<lparr>rt_deployments = [rw_deployment example_rows], rt_chains = rw_chains example_rows\<rparr>"
  from example_plan obtain plan where plan: "buildWatchPlan example_manifest example_policy = Inr plan"
    and keys: "map cl_chainKey (dp_chains (wp_deployment plan)) = [''d/h'', ''d/r'']" by (elim exE conjE)
  have rows: "referenceRowsFor example_manifest example_digest = Inr example_rows"
    by (simp add: referenceRowsFor_def manifest_hash_def example_digest_def example_rows_def example_manifest_def
        list_all_iff is_lower_hex_def is_digit_def)
  have rec: "recorded example_rows ?t"
    by (simp add: recorded_def deployment_at_def chain_at_def example_rows_def example_manifest_def manifest_sides_def
        chain_row_of_def chainKeyOf_def example_side_def)
  obtain c cs where cs: "dp_chains (wp_deployment plan) = c # cs" "cl_chainKey c = ''d/h''"
    using keys by (cases "dp_chains (wp_deployment plan)") auto
  from plan_chains_registered [OF plan rows rec, of c] cs plan show ?thesis by auto
qed

end
