(* ===== verification/Health.thy ===== *)
theory Health
  imports Lattice Json Metrics
begin

text \<open>
  The health of the agent and what it serves (apps/agent: health.ts, observe.ts, serve.ts). The handler is a
  function of the path and the state; the platform's URL parser is an argument, its result the path or
  nothing for a target it rejects.
\<close>

section \<open>Liveness and readiness (health.ts)\<close>

record deployment_health =
  dh_deploymentId :: string
  dh_lastSuccessAtMs :: "int option"
  dh_lastVerdict :: "verdict option"
  dh_consecutiveFailures :: nat

record agent_state =
  as_startedAtMs :: int
  as_databaseReachable :: bool
  as_schemaCurrent :: bool
  as_deployments :: "deployment_health list"
  as_alertingDegraded :: bool
  as_hostedIngestDegraded :: bool

record health_report =
  hp_live :: bool
  hp_ready :: bool
  hp_reasons :: "string list"
  hp_uptimeSeconds :: int
  hp_degraded :: "string list"

definition reason_if :: "bool \<Rightarrow> string \<Rightarrow> string list" where
  "reason_if b r = (if b then [r] else [])"

definition age_seconds :: "int \<Rightarrow> int \<Rightarrow> int" where
  "age_seconds nowMs thenMs = (nowMs - thenMs) div 1000"

definition deployment_reasons :: "int \<Rightarrow> int \<Rightarrow> deployment_health \<Rightarrow> string list" where
  "deployment_reasons nowMs maxAge d =
     (case dh_lastSuccessAtMs d of
        None \<Rightarrow> [''DEPLOYMENT_NEVER_EVALUATED'' @ '':'' @ dh_deploymentId d]
      | Some at \<Rightarrow>
          reason_if (age_seconds nowMs at > maxAge \<or> age_seconds nowMs at < 0)
            (''DEPLOYMENT_EVALUATION_STALE'' @ '':'' @ dh_deploymentId d)
          @ reason_if (dh_lastVerdict d = Some UNKNOWN) (''DEPLOYMENT_VERDICT_UNKNOWN'' @ '':'' @ dh_deploymentId d))"

definition evaluateHealth :: "agent_state \<Rightarrow> int \<Rightarrow> int \<Rightarrow> health_report" where
  "evaluateHealth state nowMs maxEvaluationAgeSeconds =
     (let reasons =
        reason_if (\<not> as_databaseReachable state) ''DATABASE_UNREACHABLE''
        @ reason_if (\<not> as_schemaCurrent state) ''SCHEMA_OUTDATED''
        @ reason_if (as_deployments state = []) ''NO_DEPLOYMENTS_CONFIGURED''
        @ concat (map (deployment_reasons nowMs maxEvaluationAgeSeconds) (as_deployments state))
      in \<lparr>hp_live = True, hp_ready = (reasons = []), hp_reasons = reasons,
          hp_uptimeSeconds = max 0 (age_seconds nowMs (as_startedAtMs state)),
          hp_degraded = reason_if (as_alertingDegraded state) ''ALERT_DELIVERY_DEGRADED''
            @ reason_if (as_hostedIngestDegraded state) ''HOSTED_INGEST_DEGRADED''\<rparr>)"

section \<open>The request handler (observe.ts)\<close>

record observe_response =
  ob_status :: int
  ob_contentType :: string
  ob_body :: string

record observe_context =
  oc_state :: agent_state
  oc_registry :: "int metrics_registry"
  oc_maxEvaluationAgeSeconds :: int
  oc_nowMs :: int

definition json_response :: "int \<Rightarrow> json \<Rightarrow> observe_response" where
  "json_response status value =
     \<lparr>ob_status = status, ob_contentType = ''application/json; charset=utf-8'',
      ob_body = json_print value @ [CHR 0x0A]\<rparr>"

definition strings_json :: "string list \<Rightarrow> json" where
  "strings_json ss = JArr (map JStr ss)"

definition handleObserve :: "string \<Rightarrow> observe_context \<Rightarrow> observe_response" where
  "handleObserve path c =
     (let report = evaluateHealth (oc_state c) (oc_nowMs c) (oc_maxEvaluationAgeSeconds c)
      in if path = ''/healthz''
         then json_response 200 (JObj [(''live'', JBool (hp_live report)), (''uptimeSeconds'', JNum (hp_uptimeSeconds report))])
         else if path = ''/readyz''
         then json_response (if hp_ready report then 200 else 503)
           (JObj [(''ready'', JBool (hp_ready report)), (''reasons'', strings_json (hp_reasons report)),
                  (''degraded'', strings_json (hp_degraded report)), (''uptimeSeconds'', JNum (hp_uptimeSeconds report))])
         else if path = ''/metrics''
         then \<lparr>ob_status = 200, ob_contentType = ''text/plain; version=0.0.4; charset=utf-8'', ob_body = render_metrics show_int (oc_registry c)\<rparr>
         else json_response 404 (JObj [(''error'', JStr ''not-found'')]))"

section \<open>The server (serve.ts)\<close>

record http_reply =
  hr_status :: int
  hr_headers :: "(string \<times> string) list"
  hr_body :: "string option"

definition serve_request :: "(string \<Rightarrow> string option) \<Rightarrow> string \<Rightarrow> string option \<Rightarrow> observe_context \<Rightarrow> http_reply" where
  "serve_request pathname meth url c =
     (if meth \<noteq> ''GET'' \<and> meth \<noteq> ''HEAD''
      then \<lparr>hr_status = 405, hr_headers = [(''content-type'', ''application/json''), (''allow'', ''GET, HEAD'')],
            hr_body = Some (json_print (JObj [(''error'', JStr ''method-not-allowed'')]) @ [CHR 0x0A])\<rparr>
      else case pathname (case url of Some u \<Rightarrow> u | None \<Rightarrow> ''/'') of
        None \<Rightarrow> \<lparr>hr_status = 400, hr_headers = [(''content-type'', ''application/json'')],
            hr_body = Some (json_print (JObj [(''error'', JStr ''bad-request'')]) @ [CHR 0x0A])\<rparr>
      | Some path \<Rightarrow>
          (let response = handleObserve path c
           in \<lparr>hr_status = ob_status response,
               hr_headers = [(''content-type'', ob_contentType response), (''cache-control'', ''no-store''),
                 (''x-content-type-options'', ''nosniff'')],
               hr_body = (if meth = ''HEAD'' then None else Some (ob_body response))\<rparr>))"

section \<open>What a probe can conclude\<close>

lemma reason_if_Nil [simp]: "reason_if b r = [] \<longleftrightarrow> \<not> b"
  by (simp add: reason_if_def)

definition established :: "int \<Rightarrow> int \<Rightarrow> deployment_health \<Rightarrow> bool" where
  "established nowMs maxAge d \<longleftrightarrow>
     (\<exists>at. dh_lastSuccessAtMs d = Some at \<and> at \<le> nowMs \<and> nowMs - at < (maxAge + 1) * 1000)
     \<and> dh_lastVerdict d \<noteq> Some UNKNOWN"

lemma deployment_reasons_Nil: "deployment_reasons nowMs maxAge d = [] \<longleftrightarrow> established nowMs maxAge d"
proof -
  have "(\<not> age_seconds nowMs t > maxAge \<longleftrightarrow> nowMs - t < (maxAge + 1) * 1000) \<and> (\<not> age_seconds nowMs t < 0 \<longleftrightarrow> t \<le> nowMs)" for t
  proof -
    have "nowMs - t = 1000 * age_seconds nowMs t + (nowMs - t) mod 1000" by (simp add: age_seconds_def)
    then obtain r where "nowMs - t = 1000 * age_seconds nowMs t + r" "0 \<le> r" "r < 1000"
      using pos_mod_bound [of 1000] pos_mod_sign [of 1000] by fastforce
    then show ?thesis unfolding distrib_right by - (intro conjI iffI; linarith)
  qed
  then show ?thesis by (auto simp: deployment_reasons_def established_def split: option.splits)
qed

lemma ready_iff:
  "hp_ready (evaluateHealth state nowMs maxAge) \<longleftrightarrow>
     as_databaseReachable state \<and> as_schemaCurrent state \<and> as_deployments state \<noteq> []
     \<and> (\<forall>d \<in> set (as_deployments state). established nowMs maxAge d)"
  by (auto simp: evaluateHealth_def Let_def deployment_reasons_Nil)

text \<open>
  The readiness probe answers 200 exactly when the database is reachable with its schema, something is
  watched, and every watched deployment succeeded recently, not in the future, and is not UNKNOWN; delivery or
  ingest trouble never changes it. The liveness probe answers 200 whatever the state, with no word of it
  but the uptime.
\<close>

theorem probes_spec:
  "(ob_status (handleObserve ''/readyz'' c) = 200 \<longleftrightarrow>
      as_databaseReachable (oc_state c) \<and> as_schemaCurrent (oc_state c) \<and> as_deployments (oc_state c) \<noteq> []
      \<and> (\<forall>d \<in> set (as_deployments (oc_state c)). established (oc_nowMs c) (oc_maxEvaluationAgeSeconds c) d))
   \<and> (ob_status (handleObserve ''/readyz'' c) = 200 \<or> ob_status (handleObserve ''/readyz'' c) = 503)
   \<and> (as_startedAtMs (oc_state c) = as_startedAtMs (oc_state c') \<and> oc_nowMs c = oc_nowMs c' \<longrightarrow>
        handleObserve ''/healthz'' c = handleObserve ''/healthz'' c')
   \<and> ob_status (handleObserve ''/healthz'' c) = 200"
  using ready_iff [of "oc_state c" "oc_nowMs c" "oc_maxEvaluationAgeSeconds c"]
  by (simp add: handleObserve_def Let_def json_response_def) (simp add: evaluateHealth_def Let_def)

text \<open>The server answers nothing but reads, and an unknown path or target never echoes what was asked.\<close>

lemma serve_request_spec:
  "hr_status (serve_request pathname meth url c) \<in> {200, 400, 404, 405, 503}
   \<and> (meth \<notin> {''GET'', ''HEAD''} \<longrightarrow> hr_status (serve_request pathname meth url c) = 405)
   \<and> (meth = ''HEAD'' \<and> hr_status (serve_request pathname meth url c) = 200 \<longrightarrow> hr_body (serve_request pathname meth url c) = None)"
  by (auto simp: serve_request_def handleObserve_def json_response_def Let_def split: option.split)

definition example_health :: "verdict \<Rightarrow> observe_context" where
  "example_health v = \<lparr>oc_state = \<lparr>as_startedAtMs = 0, as_databaseReachable = True, as_schemaCurrent = True,
       as_deployments = [\<lparr>dh_deploymentId = ''d'', dh_lastSuccessAtMs = Some 5000, dh_lastVerdict = Some v,
         dh_consecutiveFailures = 0\<rparr>], as_alertingDegraded = True, as_hostedIngestDegraded = True\<rparr>,
     oc_registry = \<lparr>mr_metrics = [], mr_dropped = 0\<rparr>, oc_maxEvaluationAgeSeconds = 60, oc_nowMs = 9000\<rparr>"

theorem probes_spec_witness:
  "ob_status (handleObserve ''/readyz'' (example_health CRITICAL)) = 200
   \<and> ob_status (handleObserve ''/readyz'' (example_health UNKNOWN)) \<noteq> 200
   \<and> handleObserve ''/healthz'' (example_health OK) = handleObserve ''/healthz'' (example_health UNKNOWN)"
  using probes_spec [of "example_health CRITICAL" "example_health CRITICAL"]
    probes_spec [of "example_health UNKNOWN" "example_health UNKNOWN"]
    probes_spec [of "example_health OK" "example_health UNKNOWN"]
  by (simp add: example_health_def established_def)

end
