(* ===== verification/Ingest.thy ===== *)
theory Ingest
  imports Sharing
begin

text \<open>
  Mirroring a bundle to the hosted plane (apps/agent: ingest.ts). The HTTP exchange is an argument: the
  status it answers, or the message of the error it throws. What is posted is part of the result.
\<close>

datatype ingest_outcome = IngestSent | IngestDuplicate | IngestDisabled | IngestRefused | IngestUnauthorized | IngestConflict
  | IngestUnreachable

record ingest_report =
  in_outcome :: ingest_outcome
  in_idempotencyKey :: "string option"
  in_reason :: string

datatype fetch_result = FetchStatus int | FetchThrew "string option"

record ingest_post =
  ip_url :: string
  ip_key :: string
  ip_authorization :: string
  ip_body :: string

record ingest_options =
  io_hostedUrl :: "string option"
  io_token :: "string option"
  io_sharingLevel :: sharing_level
  io_bundle :: evidence_bundle

definition ingestIdempotencyKey :: "(string \<Rightarrow> string) \<Rightarrow> string \<Rightarrow> string \<Rightarrow> sharing_level \<Rightarrow> string" where
  "ingestIdempotencyKey sha deploymentId evidenceHash level =
     sha (''ictt-sentinel/ingest/v1'' @ [CHR 0x0A] @ join ''|'' [deploymentId, evidenceHash, sharing_level_text level])"

definition MAX_BODY_BYTES :: nat where
  "MAX_BODY_BYTES = 4 * 1024 * 1024"

definition ingest_body :: "shared_evidence \<Rightarrow> string" where
  "ingest_body shared =
     json_print (JObj [(''level'', JStr (sharing_level_text (level_of shared))),
       (''body'', case shared of SharedNothing \<Rightarrow> JNull | SharedMetadata m \<Rightarrow> metadata_json m | SharedBundle b \<Rightarrow> bundle_tree b)])"

definition answer_of :: "string \<Rightarrow> fetch_result \<Rightarrow> ingest_report" where
  "answer_of key result =
     (case result of
        FetchThrew message \<Rightarrow> \<lparr>in_outcome = IngestUnreachable, in_idempotencyKey = Some key,
          in_reason = take 200 (redact (case message of Some m \<Rightarrow> m | None \<Rightarrow> ''ingest failed''))\<rparr>
      | FetchStatus status \<Rightarrow>
          if status = 200
          then \<lparr>in_outcome = IngestDuplicate, in_idempotencyKey = Some key, in_reason = ''already ingested''\<rparr>
          else if status = 201 \<or> status = 202
          then \<lparr>in_outcome = IngestSent, in_idempotencyKey = Some key, in_reason = ''accepted''\<rparr>
          else if status = 401 \<or> status = 403
          then \<lparr>in_outcome = IngestUnauthorized, in_idempotencyKey = Some key, in_reason = ''ingest token was rejected''\<rparr>
          else if status = 409
          then \<lparr>in_outcome = IngestConflict, in_idempotencyKey = Some key,
                in_reason = ''idempotency key reused with a different payload''\<rparr>
          else \<lparr>in_outcome = IngestUnreachable, in_idempotencyKey = Some key,
                in_reason = ''hosted plane returned '' @ show_int status\<rparr>)"

definition not_posted :: "ingest_outcome \<Rightarrow> string option \<Rightarrow> string \<Rightarrow> (alert_error + ingest_report) \<times> ingest_post list" where
  "not_posted oc key why = (Inr \<lparr>in_outcome = oc, in_idempotencyKey = key, in_reason = why\<rparr>, [])"

text \<open>
  \<open>new URL('/v1/ingest/evaluations', hostedUrl)\<close>: an absolute path is resolved against a base by
  keeping everything of the base up to its path.
\<close>

definition ingest_url :: "url_parts \<Rightarrow> string" where
  "ingest_url base =
     ur_protocol base @ ''//''
     @ (if ur_username base = [] \<and> ur_password base = [] then []
        else ur_username base @ (if ur_password base = [] then [] else '':'' @ ur_password base) @ ''@'')
     @ ur_hostname base @ (if ur_port base = [] then [] else '':'' @ ur_port base)
     @ ''/v1/ingest/evaluations''"

text \<open>
  The projection runs outside the guarded part: what it throws leaves the function. The URL is built inside
  it, from a text the check has parsed.
\<close>

definition ingest ::
  "(string \<Rightarrow> string) \<Rightarrow> (string \<Rightarrow> url_parts option) \<Rightarrow> (ingest_post \<Rightarrow> fetch_result)
   \<Rightarrow> ingest_options \<Rightarrow> (alert_error + ingest_report) \<times> ingest_post list" where
  "ingest sha parse_url fetcher options =
     (case io_hostedUrl options of
        None \<Rightarrow> not_posted IngestDisabled None ''sharing level is local-only''
      | Some hostedUrl \<Rightarrow>
          if io_sharingLevel options = LocalOnly then not_posted IngestDisabled None ''sharing level is local-only''
          else if io_token options = None \<or> io_token options = Some ''''
          then not_posted IngestUnauthorized None ''ingest token is not set''
          else case checkTargetUrl parse_url hostedUrl of
            Some why \<Rightarrow> not_posted IngestRefused None why
          | None \<Rightarrow>
              (case project (io_sharingLevel options) (io_bundle options) of
                 Inl e \<Rightarrow> (Inl e, [])
               | Inr shared \<Rightarrow>
                   if shared = SharedNothing then not_posted IngestDisabled None ''nothing to share at this level''
                   else let key = ingestIdempotencyKey sha (ec_deploymentId (eb_core (io_bundle options)))
                              (eb_contentHash (io_bundle options)) (io_sharingLevel options);
                            body = ingest_body shared
                        in if length body > MAX_BODY_BYTES
                           then not_posted IngestRefused (Some key) ''payload exceeds the ingest limit''
                           else (case parse_url hostedUrl of
                               None \<Rightarrow> (Inr (answer_of key (FetchThrew (Some ''Invalid URL''))), [])
                             | Some base \<Rightarrow>
                                 let post = \<lparr>ip_url = ingest_url base, ip_key = key,
                                   ip_authorization = ''Bearer '' @ (case io_token options of Some t \<Rightarrow> t | None \<Rightarrow> ''''),
                                   ip_body = body\<rparr>
                                 in (Inr (answer_of key (fetcher post)), [post]))))"

section \<open>What may leave\<close>

definition permitted_post ::
  "(string \<Rightarrow> string) \<Rightarrow> (string \<Rightarrow> url_parts option) \<Rightarrow> ingest_options \<Rightarrow> ingest_post \<Rightarrow> bool" where
  "permitted_post sha parse_url options p \<longleftrightarrow>
     (\<exists>hostedUrl base token shared.
        io_hostedUrl options = Some hostedUrl \<and> checkTargetUrl parse_url hostedUrl = None
        \<and> parse_url hostedUrl = Some base
        \<and> ip_url p = ''https://'' @ ur_hostname base @ (if ur_port base = [] then [] else '':443'')
             @ ''/v1/ingest/evaluations''
        \<and> io_token options = Some token \<and> token \<noteq> '''' \<and> ip_authorization p = ''Bearer '' @ token
        \<and> io_sharingLevel options \<noteq> LocalOnly
        \<and> project (io_sharingLevel options) (io_bundle options) = Inr shared
        \<and> findSecrets (sent_text shared) = [] \<and> ip_body p = ingest_body shared \<and> length (ip_body p) \<le> 4194304
        \<and> (io_sharingLevel options = ApprovedFull
           \<or> project (io_sharingLevel options) (veiled (io_bundle options)) = Inr shared)
        \<and> ip_key p = ingestIdempotencyKey sha (ec_deploymentId (eb_core (io_bundle options)))
            (eb_contentHash (io_bundle options)) (io_sharingLevel options))"

lemma project_clean:
  "project level b = Inr shared \<Longrightarrow> level \<noteq> LocalOnly \<Longrightarrow> findSecrets (sent_text shared) = []"
  by (cases level) (auto simp: project_def assertSecretFree_def Let_def sent_text_def split: if_splits)

lemma project_veiled: "level \<noteq> ApprovedFull \<Longrightarrow> project level (veiled b) = project level b"
proof -
  have "metadata_of (veiled b) = metadata_of b" by (simp add: metadata_of_def veiled_def Let_def)
  then show "level \<noteq> ApprovedFull \<Longrightarrow> project level (veiled b) = project level b"
    by (cases level) (simp_all add: project_def)
qed

lemma checked_ingest_url:
  assumes "checkTargetUrl parse_url raw = None"
  obtains base where "parse_url raw = Some base"
    and "ingest_url base = ''https://'' @ ur_hostname base @ (if ur_port base = [] then [] else '':443'')
      @ ''/v1/ingest/evaluations''"
  using assms by (auto simp: checkTargetUrl_def ingest_url_def split: option.splits if_splits)

text \<open>
  C36. A mirror makes at most one request. It goes to the ingest path of the host of the configured URL, over
  https on the default port, once the gate accepts that URL, with the configured token, and carries
  exactly what the sharing level permits: no text that looks like a credential, at most 4 MiB, and below the
  approved level nothing that depends on chain data. Its key is a function of the deployment, the content hash and the
  level. Without a request the mirror reports that it is disabled, refused or unauthorized, or fails.
\<close>

theorem ingest_permitted:
  "case ingest sha parse_url fetcher options of
     (result, [p]) \<Rightarrow> permitted_post sha parse_url options p \<and> result = Inr (answer_of (ip_key p) (fetcher p))
   | (Inr report, []) \<Rightarrow> in_outcome report \<in> {IngestDisabled, IngestRefused, IngestUnauthorized}
   | (Inl e, []) \<Rightarrow> project (io_sharingLevel options) (io_bundle options) = Inl e
   | _ \<Rightarrow> False"
proof (cases "\<exists>p. p \<in> set (snd (ingest sha parse_url fetcher options))")
  case False
  then have "snd (ingest sha parse_url fetcher options) = []" by (simp add: ex_in_conv)
  then show ?thesis
    by (auto simp: ingest_def not_posted_def Let_def elim: checked_ingest_url split: option.splits sum.splits if_splits)
next
  case True
  then obtain hostedUrl token shared where h: "io_hostedUrl options = Some hostedUrl" "checkTargetUrl parse_url hostedUrl = None"
    and t: "io_token options = Some token" "token \<noteq> ''''" and level: "io_sharingLevel options \<noteq> LocalOnly"
    and pr: "project (io_sharingLevel options) (io_bundle options) = Inr shared" "shared \<noteq> SharedNothing"
    and size: "length (ingest_body shared) \<le> MAX_BODY_BYTES"
    by (auto simp: ingest_def not_posted_def Let_def split: option.splits sum.splits if_splits)
  obtain base where url: "parse_url hostedUrl = Some base"
    "ingest_url base = ''https://'' @ ur_hostname base @ (if ur_port base = [] then [] else '':443'')
      @ ''/v1/ingest/evaluations''"
    using checked_ingest_url [OF h(2)] .
  have "findSecrets (sent_text shared) = []" using project_clean pr(1) level by blast
  moreover have "io_sharingLevel options = ApprovedFull
      \<or> project (io_sharingLevel options) (veiled (io_bundle options)) = Inr shared"
    using project_veiled pr(1) by metis
  moreover have "length (ingest_body shared) \<le> 4194304" using size by (simp add: MAX_BODY_BYTES_def)
  ultimately show ?thesis
    using h url t level pr size by (simp add: ingest_def not_posted_def Let_def permitted_post_def not_less)
qed

end
