(* ===== verification/Daemon.thy ===== *)
theory Daemon
  imports WatchPlan Health Ingest
begin

text \<open>
  The agent service (apps/agent: daemon.ts): what it recovers from the database, how it stores a judgement,
  one evaluation, the drain of the outbox, the mirror and the economic run. The collector's result, the state of
  the connection and the clocks are arguments.
\<close>

section \<open>State\<close>

record daemon =
  dm_health :: deployment_health
  dm_databaseReachable :: bool
  dm_currentSchema :: bool
  dm_alertingDegraded :: bool
  dm_hostedIngestDegraded :: bool
  dm_startedAtMs :: int
  dm_economicPrevious :: "(string \<times> verdict) list"
  dm_economicLastRunMs :: "int option"
  dm_world :: tick_world

definition snapshot :: "daemon \<Rightarrow> agent_state" where
  "snapshot s =
     \<lparr>as_startedAtMs = dm_startedAtMs s, as_databaseReachable = dm_databaseReachable s,
      as_schemaCurrent = dm_currentSchema s, as_deployments = [dm_health s],
      as_alertingDegraded = dm_alertingDegraded s, as_hostedIngestDegraded = dm_hostedIngestDegraded s\<rparr>"

definition digest :: "(string \<Rightarrow> string) \<Rightarrow> string \<Rightarrow> string \<Rightarrow> string" where
  "digest sha domain value = sha (domain @ [CHR 0x0A] @ value)"

section \<open>Reason codes for notifications (alertCode)\<close>

definition is_line_end :: "char \<Rightarrow> bool" where
  "is_line_end c \<longleftrightarrow> c = CHR 0x0A \<or> c = CHR 0x0D"

text \<open>\<open>reason.replace(/^.*:/, '')\<close>: up to the last colon of the first line.\<close>

definition after_colon :: "string \<Rightarrow> string" where
  "after_colon reason =
     (let line = takeWhile (\<lambda>c. \<not> is_line_end c) reason
      in if CHR '':'' \<in> set line
         then rev (takeWhile (\<lambda>c. c \<noteq> CHR '':'') (rev line)) @ drop (length line) reason else reason)"

fun underscored :: "bool \<Rightarrow> string \<Rightarrow> string" where
  "underscored run [] = []"
| "underscored run (c # s) =
     (if is_alnum c then c # underscored False s
      else if run then underscored True s else CHR ''_'' # underscored True s)"

definition upper_char :: "char \<Rightarrow> char" where
  "upper_char c = (if is_lower c then char_of ((of_char c :: nat) - 32) else c)"

definition strip_underscores :: "string \<Rightarrow> string" where
  "strip_underscores s =
     rev (dropWhile (\<lambda>c. c = CHR ''_'') (rev (dropWhile (\<lambda>c. c = CHR ''_'') s)))"

definition alertCode :: "string \<Rightarrow> string \<Rightarrow> string" where
  "alertCode reason prefix =
     (let category = (if take 13 reason = ''unverifiable:'' then ''unverifiable'' else after_colon reason)
      in take 64 (strip_underscores (map upper_char (prefix @ underscored False category))))"

section \<open>Recovery (hydrate)\<close>

definition hydrate :: "bool \<Rightarrow> watch_plan \<Rightarrow> daemon \<Rightarrow> daemon" where
  "hydrate schema_ready plan s0 =
     (let s = s0\<lparr>dm_currentSchema := schema_ready, dm_databaseReachable := schema_ready\<rparr>;
          deploymentId = dp_deploymentId (wp_deployment plan);
          rows = map (\<lambda>c. readCompleteness (tk_ledger (dm_world s)) deploymentId (cl_chainKey c))
            (dp_chains (wp_deployment plan));
          present = List.map_filter (\<lambda>r. r) rows
      in if \<not> schema_ready then s
         else if length present \<noteq> length (dp_chains (wp_deployment plan)) then s
         else let v = combineVerdicts (map (\<lambda>r. \<lparr>jdg_verdict = cw_verdict r, jdg_requirement = Required\<rparr>) present);
                  oldest = (case map (\<lambda>r. case cw_lastSuccessAt r of Some t \<Rightarrow> t | None \<Rightarrow> 0) present of
                            [] \<Rightarrow> 0 | t # ts \<Rightarrow> foldl min t ts);
                  w = dm_world s;
                  w1 = w\<lparr>tk_previousVerdict := AList.update deploymentId v (tk_previousVerdict w)\<rparr>;
                  w2 = (if oldest > 0 then w1\<lparr>tk_lastSuccessAt := AList.update deploymentId oldest (tk_lastSuccessAt w1)\<rparr>
                        else w1)
              in s\<lparr>dm_world := w2,
                   dm_health := (dm_health s)\<lparr>dh_lastSuccessAtMs := (if oldest > 0 then Some oldest else None),
                     dh_lastVerdict := Some v\<rparr>\<rparr>)"

section \<open>Storing a judgement (recordEvaluation)\<close>

definition pins_of :: "ledger \<Rightarrow> deployment_plan \<Rightarrow> string \<Rightarrow> Evaluations.pinned_block list" where
  "pins_of ld plan deploymentId =
     concat (map (\<lambda>c. case readCheckpoint ld deploymentId (cl_chainKey c) of None \<Rightarrow> []
        | Some (number, hash) \<Rightarrow> [\<lparr>pb_chainKey = cl_chainKey c, pb_blockNumber = number, pb_blockHash = hash\<rparr>])
       (dp_chains plan))"

definition status_digest :: "(string \<Rightarrow> string) \<Rightarrow> evaluation_observation \<Rightarrow> string" where
  "status_digest sha ob =
     digest sha ''ictt-sentinel/agent-evaluation-status/v1''
       (join ''|'' [eo_observationDigest ob, verdict_text (eo_verdict ob),
          if eo_stale ob then ''stale'' else ''fresh'', if eo_reportable ob then ''reportable'' else ''expired''])"

definition range_digests :: "chain_reports \<Rightarrow> string list" where
  "range_digests reports =
     concat (map (\<lambda>c. List.map_filter rg_digest (rp_ranges (snd c))) reports)"

definition store_judgement ::
  "(string \<Rightarrow> string) \<Rightarrow> evaluation_record \<Rightarrow> (string \<Rightarrow> verdict_event) \<Rightarrow> tick_world
   \<Rightarrow> tick_world \<times> (evaluation_error + string)" where
  "store_judgement sha r event_of w =
     (case putEvaluation sha (tk_evaluations w) r of
        Inl e \<Rightarrow> (w, Inl e)
      | Inr (stored, rows) \<Rightarrow>
          (case appendVerdictEvent rows (tk_events w) (event_of (ew_evaluationId stored)) of
             Inl e \<Rightarrow> (w\<lparr>tk_evaluations := rows\<rparr>, Inl (EvaluationDbError e))
           | Inr events \<Rightarrow> (w\<lparr>tk_evaluations := rows, tk_events := events\<rparr>, Inr (ew_evaluationId stored))))"

definition verdict_event_id :: "(string \<Rightarrow> string) \<Rightarrow> string \<Rightarrow> verdict \<Rightarrow> string \<Rightarrow> string" where
  "verdict_event_id sha evaluationId v reasonCode =
     digest sha ''ictt-sentinel/agent-verdict-event/v1''
       (evaluationId @ ''|'' @ verdict_text v @ ''|'' @ reasonCode)"

definition evaluation_reason :: "evaluation_observation \<Rightarrow> string" where
  "evaluation_reason ob =
     (case eo_reasonCodes ob of [] \<Rightarrow> ''REPLAY_'' @ verdict_text (eo_verdict ob) | r # _ \<Rightarrow> r)"

definition recordEvaluation :: "(string \<Rightarrow> string) \<Rightarrow> policy \<Rightarrow> deployment_plan \<Rightarrow> recorder" where
  "recordEvaluation sha policy plan ob w =
     (let pinned = pins_of (tk_ledger w) plan (eo_deploymentId ob); status = status_digest sha ob
      in if pinned = [] then (w, Inr None)
         else case store_judgement sha
             \<lparr>vi_deploymentId = eo_deploymentId ob, vi_subject = ''replay-completeness'',
              vi_policyVersion = po_apiVersion policy @ ''/'' @ po_name policy,
              vi_adapterVersion = ''accepted-log-replay/v1'', vi_pinnedBlocks = pinned,
              vi_inputObservationDigests = status # range_digests (eo_chains ob),
              vr_verdict = eo_verdict ob, vr_payloadDigest = status\<rparr>
             (\<lambda>evaluationId.
                \<lparr>ve_eventId = verdict_event_id sha evaluationId (eo_verdict ob) (evaluation_reason ob),
                 ve_evaluationId = evaluationId, ve_verdict = eo_verdict ob, ve_reasonCode = evaluation_reason ob,
                 ve_detail = JObj [(''stale'', JBool (eo_stale ob)), (''reportable'', JBool (eo_reportable ob)),
                   (''observationDigest'', JStr (eo_observationDigest ob))]\<rparr>) w of
           (w', Inl e) \<Rightarrow> (w', Inl (TickEvaluation e))
         | (w', Inr evaluationId) \<Rightarrow> (w', Inr (Some evaluationId)))"

section \<open>One evaluation (evaluate)\<close>

text \<open>\<open>seconds\<close> is the time the call took; \<open>probe\<close> answers the query that tells a dead database apart.\<close>

definition evaluate ::
  "tick_deps \<Rightarrow> policy \<Rightarrow> watch_plan \<Rightarrow> bool \<Rightarrow> int \<Rightarrow> daemon \<Rightarrow> daemon \<times> (tick_error + tick_report)" where
  "evaluate d policy plan probe seconds s =
     (let latency = set_gauge ''ictt_sentinel_evidence_generation_latency_seconds'' (max 0 seconds)
            [(''deployment'', dp_deploymentId (wp_deployment plan))]
      in case runDeploymentTick d (Some (recordEvaluation (td_sha d) policy (wp_deployment plan))) (wp_deployment plan)
           (dm_world s) of
        (w, Inr report) \<Rightarrow>
          (s\<lparr>dm_world := latency w, dm_databaseReachable := True, dm_currentSchema := True,
             dm_health := (dm_health s)
               \<lparr>dh_lastSuccessAtMs := (case map_of (tk_lastSuccessAt w) (eo_deploymentId report) of
                    Some t \<Rightarrow> Some t | None \<Rightarrow> dh_lastSuccessAtMs (dm_health s)),
                dh_lastVerdict := Some (eo_verdict report), dh_consecutiveFailures := 0\<rparr>\<rparr>, Inr report)
      | (w, Inl e) \<Rightarrow>
          (s\<lparr>dm_world := latency w, dm_databaseReachable := probe,
             dm_health := (dm_health s)\<lparr>dh_consecutiveFailures := dh_consecutiveFailures (dm_health s) + 1\<rparr>\<rparr>, Inl e))"

section \<open>Draining and mirroring (drain, mirror)\<close>

definition bump_by :: "string \<Rightarrow> labels \<Rightarrow> nat \<Rightarrow> tick_world \<Rightarrow> tick_world" where
  "bump_by name ls n w =
     (if n > 0 then w\<lparr>tk_registry := increment_metric name ls (int n) (tk_registry w)\<rparr> else w)"

definition drain :: "drain_options \<Rightarrow> posted \<Rightarrow> daemon \<Rightarrow> daemon \<times> posted \<times> (outbox_error + drain_report)" where
  "drain opts sent s =
     (let w = dm_world s
      in case drainOutbox opts sent (outbox_of w) of
        (Inl e, sent', db) \<Rightarrow> (s\<lparr>dm_world := w\<lparr>tk_outbox := db\<rparr>\<rparr>, sent', Inl e)
      | (Inr report, sent', db) \<Rightarrow>
          (let w1 = bump_by ''ictt_sentinel_alert_delivery_total'' [(''outcome'', ''delivered'')] (dn_delivered report)
                      (w\<lparr>tk_outbox := db\<rparr>);
               w2 = bump_by ''ictt_sentinel_alert_delivery_total'' [(''outcome'', ''retrying'')] (dn_retrying report) w1;
               w3 = bump_by ''ictt_sentinel_alert_delivery_total'' [(''outcome'', ''abandoned'')]
                      (dn_abandoned report + dn_undecodable report) w2
           in (s\<lparr>dm_world := w3,
                 dm_alertingDegraded := (dn_retrying report > 0 \<or> dn_abandoned report > 0 \<or> dn_undecodable report > 0)\<rparr>,
               sent', Inr report)))"

fun outcome_text :: "ingest_outcome \<Rightarrow> string" where
  "outcome_text IngestSent = ''sent''"
| "outcome_text IngestDuplicate = ''duplicate''"
| "outcome_text IngestDisabled = ''disabled''"
| "outcome_text IngestRefused = ''refused''"
| "outcome_text IngestUnauthorized = ''unauthorized''"
| "outcome_text IngestConflict = ''conflict''"
| "outcome_text IngestUnreachable = ''unreachable''"

type_synonym mirror_port = "evidence_bundle \<Rightarrow> (alert_error + ingest_report) \<times> ingest_post list"

definition mirror :: "mirror_port \<Rightarrow> evidence_bundle \<Rightarrow> daemon \<Rightarrow> daemon \<times> (alert_error + ingest_report)" where
  "mirror port bundle s =
     (case fst (port bundle) of
        Inl e \<Rightarrow> (s, Inl e)
      | Inr report \<Rightarrow>
          (s\<lparr>dm_world := bump ''ictt_sentinel_hosted_ingest_total'' [(''outcome'', outcome_text (in_outcome report))] (dm_world s),
             dm_hostedIngestDegraded := (in_outcome report \<in> {IngestUnauthorized, IngestConflict, IngestUnreachable})\<rparr>,
           Inr report))"

section \<open>The economic run (collectEconomic)\<close>

definition ECONOMIC_SUBJECT :: string where "ECONOMIC_SUBJECT = ''canonical-erc20-economic''"
definition ECONOMIC_RULE_ID :: string where "ECONOMIC_RULE_ID = ''ACC-ERC20-CANONICAL''"

datatype collect_result = CollectedEvidence evidence_bundle | CollectUnavailable "string list"

datatype economic_error =
  EconomicStore evaluation_error | EconomicMirror alert_error | EconomicOutbox outbox_error | EconomicInvalidDate

record economic_report =
  er_economicVerdict :: verdict
  er_reasonCodes :: "string list"
  er_evaluation :: "string option"
  er_contentHash :: "string option"

text \<open>The verdict of a bundle is one of the four.\<close>

definition protocol_verdict :: "evidence_bundle \<Rightarrow> verdict" where
  "protocol_verdict b =
     (case find (\<lambda>v. verdict_text v = text_at (ec_verdict (eb_core b)) ''protocolStatus'') [OK, WARN, UNKNOWN, CRITICAL] of
        Some v \<Rightarrow> v | None \<Rightarrow> UNKNOWN)"

definition economic_due :: "int \<Rightarrow> int \<Rightarrow> daemon \<Rightarrow> bool" where
  "economic_due interval started s \<longleftrightarrow>
     (case dm_economicLastRunMs s of None \<Rightarrow> True | Some at \<Rightarrow> \<not> started - at < interval)"

definition economic_pins :: "deployment_plan \<Rightarrow> evidence_bundle \<Rightarrow> Evaluations.pinned_block list" where
  "economic_pins plan b =
     (let keyOf = map_of_entries (map (\<lambda>c. (toLowerCase (ci_blockchainId (cl_identity c)), cl_chainKey c)) (dp_chains plan))
      in map (\<lambda>c. \<lparr>pb_chainKey = (case map_of keyOf (pch_blockchainId c) of Some k \<Rightarrow> k | None \<Rightarrow> pch_blockchainId c),
             pb_blockNumber = int (read_nat (pch_blockNumber c)), pb_blockHash = pch_blockHash c\<rparr>) (ec_chains (eb_core b)))"

definition economic_evaluation :: "policy \<Rightarrow> deployment_plan \<Rightarrow> evidence_bundle \<Rightarrow> evaluation_record" where
  "economic_evaluation policy plan b =
     \<lparr>vi_deploymentId = dp_deploymentId plan, vi_subject = ECONOMIC_SUBJECT,
      vi_policyVersion = po_apiVersion policy @ ''/'' @ po_name policy,
      vi_adapterVersion = slr_adapterId (ec_sourceLock (eb_core b)) @ ''@''
        @ show_int (slr_adapterVersion (ec_sourceLock (eb_core b))),
      vi_pinnedBlocks = economic_pins plan b, vi_inputObservationDigests = [eb_contentHash b],
      vr_verdict = protocol_verdict b, vr_payloadDigest = eb_contentHash b\<rparr>"

definition economic_reasons :: "evidence_bundle \<Rightarrow> string list" where
  "economic_reasons b = map (\<lambda>c. alertCode c '''') (texts_at (ec_verdict (eb_core b)) ''reasonCodes'')"

definition first_reason :: "string list \<Rightarrow> string \<Rightarrow> string" where
  "first_reason rs otherwise = (case rs of [] \<Rightarrow> otherwise | r # _ \<Rightarrow> r)"

definition economic_event :: "(string \<Rightarrow> string) \<Rightarrow> evidence_bundle \<Rightarrow> string \<Rightarrow> verdict_event" where
  "economic_event sha b evaluationId =
     (let v = protocol_verdict b; rs = economic_reasons b
      in \<lparr>ve_eventId = verdict_event_id sha evaluationId v (first_reason rs ''''),
          ve_evaluationId = evaluationId, ve_verdict = v,
          ve_reasonCode = first_reason rs (''ECONOMIC_'' @ verdict_text v),
          ve_detail = JObj [(''contentHash'', JStr (eb_contentHash b)), (''subject'', JStr ECONOMIC_SUBJECT)]\<rparr>)"

definition economic_signal ::
  "tick_deps \<Rightarrow> deployment_plan \<Rightarrow> daemon \<Rightarrow> economic_report \<Rightarrow> string \<Rightarrow> string \<Rightarrow> bool \<Rightarrow> alert_signal" where
  "economic_signal d plan s report observedAt expiresAt fresh =
     \<lparr>sg_deploymentId = dp_deploymentId plan, sg_evaluationId = er_evaluation report, sg_ruleId = ECONOMIC_RULE_ID,
      sg_reasonCode = first_reason (er_reasonCodes report) (''ECONOMIC_'' @ verdict_text (er_economicVerdict report)),
      sg_previousVerdict = map_of (dm_economicPrevious s) (dp_deploymentId plan), sg_verdict = er_economicVerdict report,
      sg_evidenceHash = (case er_contentHash report of Some h \<Rightarrow> h
        | None \<Rightarrow> digest (td_sha d) ''ictt-sentinel/economic-unavailable/v1'' (join ''|'' (er_reasonCodes report))),
      sg_evidenceSchemaVersion = ''ictt-sentinel/evidence/v1'', sg_reasonCodes = er_reasonCodes report,
      sg_observedAt = observedAt, sg_expiresAt = expiresAt, sg_fresh = fresh\<rparr>"

definition raise_economic ::
  "tick_deps \<Rightarrow> deployment_plan \<Rightarrow> economic_report \<Rightarrow> string \<Rightarrow> bool \<Rightarrow> daemon \<Rightarrow> daemon \<times> (economic_error + economic_report)" where
  "raise_economic d plan report expiresAt fresh s =
     (let w = dm_world s
      in if \<bar>td_now d\<bar> > 8640000000000000 then (s, Inl EconomicInvalidDate)
         else case raiseAlert (td_sha d) (td_outboxIdFor d) (outbox_of w)
           (economic_signal d plan s report (td_iso d (td_now d)) expiresAt fresh) (td_now d) (td_dbnow d) of
        Inl e \<Rightarrow> (s, Inl (EconomicOutbox e))
      | Inr (_, db) \<Rightarrow>
          (s\<lparr>dm_world := w\<lparr>tk_outbox := db\<rparr>,
             dm_economicPrevious := AList.update (dp_deploymentId plan) (er_economicVerdict report) (dm_economicPrevious s)\<rparr>,
           Inr report))"

definition unavailable_report :: "string list \<Rightarrow> economic_report" where
  "unavailable_report reasons =
     \<lparr>er_economicVerdict = UNKNOWN,
      er_reasonCodes = ''COLLECT_UNAVAILABLE'' # map (\<lambda>r. alertCode r ''COLLECT_'') reasons,
      er_evaluation = None, er_contentHash = None\<rparr>"

definition finish_economic ::
  "tick_deps \<Rightarrow> policy \<Rightarrow> deployment_plan \<Rightarrow> mirror_port option \<Rightarrow> collect_result \<Rightarrow> daemon
   \<Rightarrow> daemon \<times> (economic_error + economic_report)" where
  "finish_economic d policy plan hosted result s =
     (case result of
        CollectUnavailable reasons \<Rightarrow>
          (let expires = td_now d + po_maxAgeSeconds policy * 1000
           in if \<bar>expires\<bar> > 8640000000000000 then (s, Inl EconomicInvalidDate)
              else raise_economic d plan (unavailable_report reasons) (td_iso d expires) False s)
      | CollectedEvidence b \<Rightarrow>
          (case store_judgement (td_sha d) (economic_evaluation policy plan b) (economic_event (td_sha d) b) (dm_world s) of
             (w, Inl e) \<Rightarrow> (s\<lparr>dm_world := w\<rparr>, Inl (EconomicStore e))
           | (w, Inr evaluationId) \<Rightarrow>
               (let s1 = s\<lparr>dm_world := w\<rparr>;
                    report = \<lparr>er_economicVerdict = protocol_verdict b, er_reasonCodes = economic_reasons b,
                      er_evaluation = Some evaluationId, er_contentHash = Some (eb_contentHash b)\<rparr>;
                    raise = raise_economic d plan report (cpr_expiresAt (ec_completeness (eb_core b)))
                      (cpr_fresh (ec_completeness (eb_core b)))
                in case hosted of
                     None \<Rightarrow> raise s1
                   | Some port \<Rightarrow>
                       (case mirror port b s1 of
                          (s2, Inl e) \<Rightarrow> (s2, Inl (EconomicMirror e))
                        | (s2, Inr _) \<Rightarrow> raise s2))))"

definition collectEconomic ::
  "tick_deps \<Rightarrow> policy \<Rightarrow> deployment_plan \<Rightarrow> int \<Rightarrow> mirror_port option \<Rightarrow> collect_result option \<Rightarrow> int \<Rightarrow> daemon
   \<Rightarrow> daemon \<times> (economic_error + economic_report option)" where
  "collectEconomic d policy plan interval hosted collect started s =
     (case collect of
        None \<Rightarrow> (s, Inr None)
      | Some result \<Rightarrow>
          if \<not> economic_due interval started s then (s, Inr None)
          else case finish_economic d policy plan hosted result (s\<lparr>dm_economicLastRunMs := Some started\<rparr>) of
            (s', Inl e) \<Rightarrow> (s', Inl e)
          | (s', Inr report) \<Rightarrow> (s', Inr (Some report)))"

section \<open>Reason codes are safe to send\<close>

definition code_char :: "char \<Rightarrow> bool" where
  "code_char c \<longleftrightarrow> is_upper c \<or> is_digit c \<or> c = CHR ''_''"

lemma underscored_chars: "c \<in> set (underscored run s) \<Longrightarrow> is_alnum c \<or> c = CHR ''_''"
  by (induction run s rule: underscored.induct) (auto split: if_splits)

lemma upper_char_code:
  assumes "is_alnum c \<or> c = CHR ''_''"
  shows "code_char (upper_char c)"
proof (cases "is_lower c")
  case True
  then have b: "97 \<le> (of_char c :: nat)" "(of_char c :: nat) \<le> 122" by (simp_all add: is_lower_def in_chars_def)
  then have "of_char (char_of ((of_char c :: nat) - 32)) = (of_char c :: nat) - 32" by simp
  moreover have "65 \<le> (of_char c :: nat) - 32" "(of_char c :: nat) - 32 \<le> 90" using b by simp_all
  ultimately show ?thesis using True by (simp add: upper_char_def code_char_def is_upper_def in_chars_def)
next
  case False
  with assms show ?thesis by (auto simp: upper_char_def code_char_def is_alnum_def)
qed

lemma strip_subset: "set (strip_underscores s) \<subseteq> set s"
  unfolding strip_underscores_def by (metis set_dropWhileD set_rev subsetI)

lemma strip_hd: "strip_underscores s \<noteq> [] \<Longrightarrow> hd (strip_underscores s) \<noteq> CHR ''_''"
proof -
  assume ne: "strip_underscores s \<noteq> []"
  let ?t = "dropWhile (\<lambda>c. c = CHR ''_'') s" and ?P = "\<lambda>c. c = CHR ''_''"
  obtain pre where pre: "rev ?t = pre @ dropWhile ?P (rev ?t)" using takeWhile_dropWhile_id by metis
  then have "?t = strip_underscores s @ rev pre" unfolding strip_underscores_def by (metis rev_append rev_rev_ident)
  then have "hd ?t = hd (strip_underscores s)" "?t \<noteq> []" using ne by auto
  then show ?thesis using hd_dropWhile [of ?P s] by metis
qed

text \<open>
  Whatever a collector or a rule says, the code that leaves is at most 64 capital letters, digits and
  underscores and does not start with an underscore.
\<close>

theorem alertCode_safe:
  assumes "\<forall>c \<in> set prefix. code_char c"
  shows "list_all code_char (alertCode reason prefix) \<and> length (alertCode reason prefix) \<le> 64
    \<and> (alertCode reason prefix \<noteq> [] \<longrightarrow> hd (alertCode reason prefix) \<noteq> CHR ''_'')"
proof -
  have up: "code_char (upper_char c)" if "code_char c" for c
    using that by (intro upper_char_code) (auto simp: code_char_def is_alnum_def)
  have "\<forall>c \<in> set (map upper_char (prefix @ underscored False s)). code_char c" for s
  proof
    fix c assume "c \<in> set (map upper_char (prefix @ underscored False s))"
    then obtain b where b: "c = upper_char b" "b \<in> set prefix \<or> b \<in> set (underscored False s)" by auto
    from b(2) show "code_char c"
    proof
      assume "b \<in> set prefix"
      with assms up b(1) show ?thesis by blast
    next
      assume "b \<in> set (underscored False s)"
      from upper_char_code [OF underscored_chars [OF this]] b(1) show ?thesis by simp
    qed
  qed
  then have "\<forall>c \<in> set (strip_underscores (map upper_char (prefix @ underscored False s))). code_char c" for s
    using strip_subset by blast
  then have chars: "list_all code_char (alertCode reason prefix)"
    unfolding alertCode_def Let_def list_all_iff by (meson in_set_takeD)
  have "alertCode reason prefix \<noteq> [] \<longrightarrow> hd (alertCode reason prefix) \<noteq> CHR ''_''"
  proof
    assume ne: "alertCode reason prefix \<noteq> []"
    define x where "x = map upper_char
      (prefix @ underscored False (if take 13 reason = ''unverifiable:'' then ''unverifiable'' else after_colon reason))"
    have x: "alertCode reason prefix = take 64 (strip_underscores x)" by (simp only: alertCode_def Let_def x_def)
    have "strip_underscores x \<noteq> []" using ne unfolding x by (metis take_Nil)
    from strip_hd [OF this] show "hd (alertCode reason prefix) \<noteq> CHR ''_''"
      unfolding x by (metis hd_take zero_less_numeral)
  qed
  moreover have "length (alertCode reason prefix) \<le> 64" by (simp only: alertCode_def Let_def length_take min.cobounded2)
  ultimately show ?thesis using chars by blast
qed

theorem alertCode_safe_witness:
  "alertCode ''remote:alpha:witness-divergence'' ''COLLECT_'' = ''COLLECT_WITNESS_DIVERGENCE''
   \<and> list_all code_char ''COLLECT_WITNESS_DIVERGENCE''"
proof -
  have run: "alertCode ''remote:alpha:witness-divergence'' ''COLLECT_'' = ''COLLECT_WITNESS_DIVERGENCE''" by code_simp
  have "\<forall>c \<in> set ''COLLECT_''. code_char c" by code_simp
  from alertCode_safe [OF this, of "''remote:alpha:witness-divergence''"] run show ?thesis by simp
qed

section \<open>Judgements are stored once\<close>

lemma putEvaluation_again:
  assumes "putEvaluation sha rows r = Inr (stored, rows')"
  shows "putEvaluation sha rows' r = Inr (stored\<lparr>ew_inserted := False\<rparr>, rows')
    \<and> (\<exists>row \<in> set rows'. er_evaluationId row = ew_evaluationId stored
         \<and> er_idempotencyKey row = evaluationIdempotencyKey sha r \<and> er_payloadDigest row = vr_payloadDigest r)"
proof -
  let ?key = "evaluationIdempotencyKey sha r" and ?row = "evaluation_row_of sha r"
  have ok: "evaluation_row_ok ?row" using assms by (auto simp: putEvaluation_def Let_def split: if_splits)
  have row: "er_evaluationId ?row = ?key" "er_idempotencyKey ?row = ?key" "er_payloadDigest ?row = vr_payloadDigest r"
    by (simp_all add: evaluation_row_of_def)
  show ?thesis
  proof (cases "evaluation_at rows ?key")
    case None
    with assms ok have new: "rows' = rows @ [?row]"
      "stored = \<lparr>ew_evaluationId = ?key, ew_idempotencyKey = ?key, ew_inserted = True\<rparr>"
      by (simp_all add: putEvaluation_def Let_def)
    have "evaluation_at rows' ?key = Some ?row"
      using None row unfolding new(1) by (simp add: evaluation_at_def find_append)
    with ok row new show ?thesis by (simp add: putEvaluation_def Let_def)
  next
    case (Some found)
    with assms ok have same: "rows' = rows" "er_payloadDigest found = vr_payloadDigest r"
      "stored = \<lparr>ew_evaluationId = er_evaluationId found, ew_idempotencyKey = ?key, ew_inserted = False\<rparr>"
      by (auto simp: putEvaluation_def Let_def split: if_splits)
    with Some ok evaluation_at_Some [OF Some] show ?thesis by (auto simp: putEvaluation_def Let_def)
  qed
qed

lemma store_judgement_again:
  assumes "store_judgement sha r ev w = (w', Inr i)"
  shows "store_judgement sha r ev w' = (w', Inr i)"
proof -
  from assms obtain stored rows events where put: "putEvaluation sha (tk_evaluations w) r = Inr (stored, rows)"
    and app: "appendVerdictEvent rows (tk_events w) (ev (ew_evaluationId stored)) = Inr events"
    and w': "w' = w\<lparr>tk_evaluations := rows, tk_events := events\<rparr>" and i: "i = ew_evaluationId stored"
    by (auto simp: store_judgement_def split: sum.splits prod.splits)
  have "appendVerdictEvent rows events (ev i) = Inr events"
    using app unfolding i by (auto simp: appendVerdictEvent_def split: if_splits)
  with putEvaluation_again [OF put] show ?thesis
    unfolding w' by (simp add: store_judgement_def i)
qed

lemma store_judgement_world:
  "store_judgement sha r ev w = (w', x) \<Longrightarrow> tk_ledger w' = tk_ledger w \<and> tk_outbox w' = tk_outbox w"
  by (auto simp: store_judgement_def split: sum.splits prod.splits)

text \<open>
  A judgement without a single checkpoint is never stored. Otherwise the stored row is keyed by the very
  checkpoints of the watched chains and the status it reports, and recording the same judgement again
  answers the same evaluation and changes nothing.
\<close>

theorem recordEvaluation_once:
  assumes "recordEvaluation sha policy plan ob w = (w', Inr result)"
  shows "(result = None \<longleftrightarrow> pins_of (tk_ledger w) plan (eo_deploymentId ob) = [])
    \<and> recordEvaluation sha policy plan ob w' = (w', Inr result)
    \<and> tk_ledger w' = tk_ledger w \<and> tk_outbox w' = tk_outbox w \<and> (result = None \<longrightarrow> w' = w)"
proof (cases "pins_of (tk_ledger w) plan (eo_deploymentId ob) = []")
  case True
  with assms show ?thesis by (auto simp: recordEvaluation_def Let_def)
next
  case False
  define r where "r = \<lparr>vi_deploymentId = eo_deploymentId ob, vi_subject = ''replay-completeness'',
              vi_policyVersion = po_apiVersion policy @ ''/'' @ po_name policy,
              vi_adapterVersion = ''accepted-log-replay/v1'',
              vi_pinnedBlocks = pins_of (tk_ledger w) plan (eo_deploymentId ob),
              vi_inputObservationDigests = status_digest sha ob # range_digests (eo_chains ob),
              vr_verdict = eo_verdict ob, vr_payloadDigest = status_digest sha ob\<rparr>"
  define ev where "ev = (\<lambda>evaluationId.
                \<lparr>ve_eventId = verdict_event_id sha evaluationId (eo_verdict ob) (evaluation_reason ob),
                 ve_evaluationId = evaluationId, ve_verdict = eo_verdict ob, ve_reasonCode = evaluation_reason ob,
                 ve_detail = JObj [(''stale'', JBool (eo_stale ob)), (''reportable'', JBool (eo_reportable ob)),
                   (''observationDigest'', JStr (eo_observationDigest ob))]\<rparr>)"
  have run: "recordEvaluation sha policy plan ob v =
      (case store_judgement sha r ev v of (v', Inl e) \<Rightarrow> (v', Inl (TickEvaluation e)) | (v', Inr i) \<Rightarrow> (v', Inr (Some i)))"
    if "tk_ledger v = tk_ledger w" for v
    using False that by (simp add: recordEvaluation_def Let_def r_def ev_def)
  from assms obtain i where st: "store_judgement sha r ev w = (w', Inr i)" and result: "result = Some i"
    unfolding run [OF refl] by (auto split: sum.splits prod.splits)
  note world = store_judgement_world [OF st]
  then show ?thesis using False result store_judgement_again [OF st] by (simp add: run)
qed

section \<open>What a restart may claim\<close>

lemma foldl_min_le: "(foldl min a xs :: int) \<le> a \<and> (\<forall>x \<in> set xs. foldl min a xs \<le> x)"
proof (induction xs arbitrary: a)
  case (Cons x xs)
  have "foldl min (min a x) xs \<le> min a x" "\<forall>y \<in> set xs. foldl min (min a x) xs \<le> y"
    using Cons.IH [of "min a x"] by auto
  then show ?case by (simp add: min_le_iff_disj)
qed simp

lemma map_filter_id_all:
  assumes "length (List.map_filter (\<lambda>r. r) rows) = length rows"
  shows "rows = map Some (List.map_filter (\<lambda>r. r) rows)"
  using assms
proof (induction rows)
  case (Cons r rows)
  have "length (List.map_filter (\<lambda>r. r) rows) \<le> length rows" by (simp add: List.map_filter_def)
  with Cons show ?case by (cases r) (auto simp: List.map_filter_def)
qed (simp add: List.map_filter_def)

lemma not_unknown_judgements:
  assumes "combineVerdicts (map (\<lambda>r. \<lparr>jdg_verdict = f r, jdg_requirement = Required\<rparr>) rows) \<noteq> UNKNOWN"
    and "r \<in> set rows" and "f r = UNKNOWN"
  shows "\<exists>r' \<in> set rows. f r' = CRITICAL"
proof -
  let ?js = "map (\<lambda>r. \<lparr>jdg_verdict = f r, jdg_requirement = Required\<rparr>) rows"
  have ne: "?js \<noteq> []" using assms(2) by auto
  from combineVerdicts_eq_iff [OF ne, of "combineVerdicts ?js"]
  have all: "\<forall>j \<in> set ?js. effective j \<le> combineVerdicts ?js"
    and one: "\<exists>j \<in> set ?js. effective j = combineVerdicts ?js" by auto
  from one obtain r' where r': "r' \<in> set rows" "f r' = combineVerdicts ?js" by (auto simp: effective_def)
  have "UNKNOWN \<le> combineVerdicts ?js" using all assms(2,3) by (auto simp: effective_def)
  with assms(1) have "combineVerdicts ?js = CRITICAL" by (cases "combineVerdicts ?js") (auto simp: less_eq_verdict_def)
  with r' show ?thesis by auto
qed

text \<open>
  C19. A freshly started agent is ready on stored facts alone only when the schema is current and every watched chain
  has a stored completeness row whose last success lies within the allowed age; an UNKNOWN row among them is
  possible only beside a CRITICAL one.
\<close>

theorem hydrate_ready:
  assumes "dh_lastSuccessAtMs (dm_health s) = None"
    and "hp_ready (evaluateHealth (snapshot (hydrate schema_ready plan s)) nowMs maxAge)"
  shows "schema_ready \<and> dp_chains (wp_deployment plan) \<noteq> []
    \<and> (\<forall>c \<in> set (dp_chains (wp_deployment plan)). \<exists>row t.
         readCompleteness (tk_ledger (dm_world s)) (dp_deploymentId (wp_deployment plan)) (cl_chainKey c) = Some row
         \<and> cw_lastSuccessAt row = Some t \<and> 0 < t \<and> nowMs - t < (maxAge + 1) * 1000
         \<and> (cw_verdict row = UNKNOWN \<longrightarrow> (\<exists>c' \<in> set (dp_chains (wp_deployment plan)). \<exists>row'.
              readCompleteness (tk_ledger (dm_world s)) (dp_deploymentId (wp_deployment plan)) (cl_chainKey c') = Some row'
              \<and> cw_verdict row' = CRITICAL)))"
proof -
  let ?dep = "wp_deployment plan" and ?ld = "tk_ledger (dm_world s)"
  let ?read = "\<lambda>c. readCompleteness ?ld (dp_deploymentId ?dep) (cl_chainKey c)"
  define present where "present = List.map_filter (\<lambda>r. r) (map ?read (dp_chains ?dep))"
  let ?h = "hydrate schema_ready plan s"
  let ?ages = "map (\<lambda>r. case cw_lastSuccessAt r of Some t \<Rightarrow> t | None \<Rightarrow> 0) present"
  let ?oldest = "case ?ages of [] \<Rightarrow> 0 | t # ts \<Rightarrow> foldl min t ts"
  let ?v = "combineVerdicts (map (\<lambda>r. \<lparr>jdg_verdict = cw_verdict r, jdg_requirement = Required\<rparr>) present)"
  have ready: "dm_currentSchema ?h" "established nowMs maxAge (dm_health ?h)"
    using assms(2) unfolding ready_iff by (simp_all add: snapshot_def)
  have schema: "schema_ready" using ready(1) by (auto simp: hydrate_def Let_def split: if_splits)
  have len: "length present = length (dp_chains ?dep)"
  proof (rule ccontr)
    assume "length present \<noteq> length (dp_chains ?dep)"
    then have "dm_health ?h = dm_health s" by (simp add: hydrate_def Let_def present_def)
    with ready(2) assms(1) show False by (simp add: established_def)
  qed
  have health: "dh_lastSuccessAtMs (dm_health ?h) = (if ?oldest > 0 then Some ?oldest else None)"
    "dh_lastVerdict (dm_health ?h) = Some ?v"
    using schema len by (simp_all add: hydrate_def Let_def present_def)
  from ready(2) health have oldest: "0 < ?oldest" "nowMs - ?oldest < (maxAge + 1) * 1000" and v: "?v \<noteq> UNKNOWN"
    by (auto simp: established_def split: if_splits)
  have rows: "map ?read (dp_chains ?dep) = map Some present"
    unfolding present_def using len by (intro map_filter_id_all) (simp add: present_def)
  have bound: "?oldest \<le> a" if "a \<in> set ?ages" for a
  proof (cases ?ages)
    case (Cons t ts)
    with that have "a = t \<or> a \<in> set ts" by (simp only: set_ConsD)
    with foldl_min_le [of t ts] show ?thesis unfolding Cons by auto
  qed (use that in simp)
  have "present \<noteq> []" using oldest(1) by (cases present) auto
  then have ne: "dp_chains ?dep \<noteq> []" using len by auto
  have "\<exists>row t. ?read c = Some row \<and> cw_lastSuccessAt row = Some t \<and> 0 < t \<and> nowMs - t < (maxAge + 1) * 1000
      \<and> (cw_verdict row = UNKNOWN \<longrightarrow> (\<exists>c' \<in> set (dp_chains ?dep). \<exists>row'. ?read c' = Some row' \<and> cw_verdict row' = CRITICAL))"
    if c: "c \<in> set (dp_chains ?dep)" for c
  proof -
    from c have "?read c \<in> set (map Some present)" unfolding rows [symmetric] by simp
    then obtain row where row: "?read c = Some row" "row \<in> set present" by auto
    let ?t = "case cw_lastSuccessAt row of Some t \<Rightarrow> t | None \<Rightarrow> 0"
    have "?oldest \<le> ?t" using row(2) by (intro bound) simp
    with oldest have t: "0 < ?t" "nowMs - ?t < (maxAge + 1) * 1000" by linarith+
    then obtain t where "cw_lastSuccessAt row = Some t" "?t = t" by (cases "cw_lastSuccessAt row") auto
    moreover have "\<exists>c' \<in> set (dp_chains ?dep). \<exists>row'. ?read c' = Some row' \<and> cw_verdict row' = CRITICAL"
      if "cw_verdict row = UNKNOWN"
    proof -
      from not_unknown_judgements [OF v row(2) that] obtain row' where r': "row' \<in> set present" "cw_verdict row' = CRITICAL"
        by blast
      then have "Some row' \<in> set (map ?read (dp_chains ?dep))" unfolding rows by simp
      then obtain c' where "c' \<in> set (dp_chains ?dep)" "?read c' = Some row'" by (auto dest: sym)
      with r'(2) show ?thesis by blast
    qed
    ultimately show ?thesis using row(1) t by auto
  qed
  with schema ne show ?thesis by blast
qed

section \<open>The mirror and the economic verdict\<close>

lemma raise_economic_indep:
  assumes "tk_outbox (dm_world s) = tk_outbox (dm_world s')" and "tk_evaluations (dm_world s) = tk_evaluations (dm_world s')"
    and "dm_economicPrevious s = dm_economicPrevious s'"
  shows "snd (raise_economic d plan report expires fresh s) = snd (raise_economic d plan report expires fresh s')
    \<and> tk_outbox (dm_world (fst (raise_economic d plan report expires fresh s)))
        = tk_outbox (dm_world (fst (raise_economic d plan report expires fresh s')))
    \<and> dm_economicPrevious (fst (raise_economic d plan report expires fresh s))
        = dm_economicPrevious (fst (raise_economic d plan report expires fresh s'))"
proof -
  have "economic_signal d plan s report obs expires fresh = economic_signal d plan s' report obs expires fresh" for obs
    using assms(3) by (simp add: economic_signal_def)
  moreover have "outbox_of (dm_world s) = outbox_of (dm_world s')" using assms(1,2) by (simp add: outbox_of_def)
  ultimately show ?thesis
    using assms by (simp add: raise_economic_def Let_def split: sum.split)
qed

lemma mirror_world:
  assumes "mirror port b s = (s', Inr report)"
  shows "tk_outbox (dm_world s') = tk_outbox (dm_world s)" "tk_evaluations (dm_world s') = tk_evaluations (dm_world s)"
    "dm_economicPrevious s' = dm_economicPrevious s"
  using assms by (auto simp: mirror_def bump_def split: sum.splits)

text \<open>
  A mirror that answers, whatever it answers, changes neither the economic report nor the alert: the run ends
  as it would without a hosted plane.
\<close>

theorem economic_mirror_irrelevant:
  assumes "fst (port b) = Inr rep"
  shows "snd (finish_economic d policy plan (Some port) (CollectedEvidence b) s)
      = snd (finish_economic d policy plan None (CollectedEvidence b) s)
    \<and> tk_outbox (dm_world (fst (finish_economic d policy plan (Some port) (CollectedEvidence b) s)))
      = tk_outbox (dm_world (fst (finish_economic d policy plan None (CollectedEvidence b) s)))"
proof (cases "store_judgement (td_sha d) (economic_evaluation policy plan b) (economic_event (td_sha d) b) (dm_world s)")
  case (Pair w r)
  show ?thesis
  proof (cases r)
    case (Inl e)
    with Pair show ?thesis by (simp add: finish_economic_def)
  next
    case (Inr i)
    let ?s = "s\<lparr>dm_world := w\<rparr>"
    obtain s2 where m: "mirror port b ?s = (s2, Inr rep)" using assms by (simp add: mirror_def)
    show ?thesis
      using raise_economic_indep [OF mirror_world [OF m]] Pair Inr m by (simp add: finish_economic_def Let_def)
  qed
qed

text \<open>A mirror that throws, as the projection of a bundle can, ends the run before the alert is raised.\<close>

lemma economic_alert_lost:
  assumes "fst (port b) = Inl thrown"
    and "store_judgement (td_sha d) (economic_evaluation policy plan b) (economic_event (td_sha d) b) (dm_world s) = (w, Inr i)"
  shows "snd (finish_economic d policy plan (Some port) (CollectedEvidence b) s) = Inl (EconomicMirror thrown)
    \<and> tk_outbox (dm_world (fst (finish_economic d policy plan (Some port) (CollectedEvidence b) s))) = tk_outbox (dm_world s)"
  using assms store_judgement_world [OF assms(2)] by (simp add: finish_economic_def mirror_def Let_def)

section \<open>Readiness after an evaluation\<close>

text \<open>
  An evaluation that returned UNKNOWN, or that threw, never turns readiness on: after UNKNOWN the probe is
  not ready, and after an error it is ready only if the state before was, but for the reachability that was probed.
\<close>

theorem evaluate_readiness:
  assumes "evaluate d policy plan probe seconds s = (s', result)"
  shows "case result of
      Inr report \<Rightarrow> (eo_verdict report = UNKNOWN \<longrightarrow> \<not> hp_ready (evaluateHealth (snapshot s') nowMs maxAge))
        \<and> dh_lastVerdict (dm_health s') = Some (eo_verdict report)
    | Inl _ \<Rightarrow> hp_ready (evaluateHealth (snapshot s') nowMs maxAge) \<longrightarrow>
        probe \<and> hp_ready (evaluateHealth (snapshot (s\<lparr>dm_databaseReachable := True\<rparr>)) nowMs maxAge)"
proof (cases "runDeploymentTick d (Some (recordEvaluation (td_sha d) policy (wp_deployment plan))) (wp_deployment plan)
    (dm_world s)")
  case (Pair w r)
  show ?thesis
  proof (cases r)
    case (Inl e)
    with Pair assms show ?thesis
      by (auto simp: evaluate_def Let_def ready_iff snapshot_def established_def)
  next
    case (Inr report)
    with Pair assms show ?thesis
      by (auto simp: evaluate_def Let_def ready_iff snapshot_def established_def)
  qed
qed

section \<open>Examples\<close>

definition example_service :: daemon where
  "example_service = \<lparr>dm_health = \<lparr>dh_deploymentId = ''d'', dh_lastSuccessAtMs = None, dh_lastVerdict = None,
       dh_consecutiveFailures = 0\<rparr>, dm_databaseReachable = False, dm_currentSchema = False,
     dm_alertingDegraded = False, dm_hostedIngestDegraded = False, dm_startedAtMs = 0, dm_economicPrevious = [],
     dm_economicLastRunMs = None,
     dm_world = example_world\<lparr>tk_ledger := empty_ledger\<lparr>replay_completeness :=
       [((''d'', ''c''), \<lparr>cw_status = RComplete, cw_verdict = OK, cw_windowFrom = 1, cw_windowTo = 2, cw_gapCount = 0,
          cw_reasons = [], cw_lastSuccessAt = Some 5000, cw_evaluatedAt = 5000\<rparr>)]\<rparr>\<rparr>\<rparr>"

definition example_watch :: watch_plan where
  "example_watch = \<lparr>wp_deployment = Tick.example_plan, wp_chains = []\<rparr>"

theorem hydrate_ready_witness:
  "hp_ready (evaluateHealth (snapshot (hydrate True example_watch example_service)) 9000 60)
   \<and> (\<exists>row. readCompleteness (tk_ledger (dm_world example_service)) ''d'' ''c'' = Some row \<and> cw_verdict row = OK)"
proof -
  have none: "dh_lastSuccessAtMs (dm_health example_service) = None" by (simp add: example_service_def)
  have chains: "map cl_chainKey (dp_chains (wp_deployment example_watch)) = [''c'']"
    "dp_deploymentId (wp_deployment example_watch) = ''d''"
    by (simp_all add: example_watch_def Tick.example_plan_def)
  have read: "readCompleteness (tk_ledger (dm_world example_service)) ''d'' ''c''
      = Some \<lparr>cw_status = RComplete, cw_verdict = OK, cw_windowFrom = 1, cw_windowTo = 2, cw_gapCount = 0,
          cw_reasons = [], cw_lastSuccessAt = Some 5000, cw_evaluatedAt = 5000\<rparr>"
    by (simp add: example_service_def readCompleteness_def)
  have ready: "hp_ready (evaluateHealth (snapshot (hydrate True example_watch example_service)) 9000 60)"
    by code_simp
  from hydrate_ready [OF none ready] ready read show ?thesis by auto
qed

end
