(* ===== verification/Spec2Isabelle.thy ===== *)
theory Spec2Isabelle
  imports Prelude Stores Json Domain Lattice Messages Derive Watermark Reasons GateA Scaling GateB
    Engine Drift GlobalVerdict Independence Quorum Plan Agreement Ledger Replay ReplayRuns ReplayCoverage
    Pattern Alerts Notify Outbox Alerting AlertRuns
    Canonical EvidenceReplay NativeReplay Bundle Verify Sharing
    Events RouteModel Scheduler Metrics Projection
    HintQueue Evaluations Tick Rpc Manifest LogSource Reference Linkage Fingerprint AdapterRegistry
    WatchPlan Health Ingest Daemon
begin

text \<open>
  ictt-sentinel watches token bridges of the ICTT family: a home contract locks collateral, remote
  contracts issue a representation, and Teleporter messages carry the transfers between them. The
  program reads the chains through several independent RPC providers, keeps what they agree on in a
  fact ledger, reconciles the two sides of every bridge, reports a verdict and raises alerts. It is
  fail closed: whatever it cannot establish is UNKNOWN, never OK. This development models its
  TypeScript packages (src/packages) and the alerting of its agent (src/apps/agent) as HOL functions
  and proves what they promise to each other.

  \<^bold>\<open>Parts and theories.\<close>

  \<^item> Prelude, Stores, Json: generic lemmas (folds that may fail, decimal numerals, joins, grouping),
    the contract of a first-write-wins store as the locale \<open>keyed_store\<close>, and JSON.stringify with
    its injectivity.
  \<^item> Domain, Lattice (packages/domain): branded amounts and identifiers with their parsers, finality
    bases, the verdict lattice. Parsers are total functions into a sum type.
  \<^item> Messages, Derive, Watermark (packages/state-machine): the per-message aggregate of raw facts
    (keys.ts, inputs.ts, aggregate.ts, transaction.ts), the lifecycle state, economic effect and
    verdict derived from it (states.ts, derive.ts), and the causal cut (watermark.ts). The lemmas
    show that arrival order and duplicates do not matter and that an effect is counted once.
  \<^item> Reasons, GateA, Scaling, GateB, Engine, Drift, GlobalVerdict (packages/invariant-core and the
    scaling of packages/ictt-adapters): the reason codes, representation reconciliation (Gate A),
    escrow coverage (Gate B), the canonical ERC20 rule and its canonical input string, authority
    drift and native claims, and the global verdict. Gate A is also run against a small token
    protocol (\<open>step relation in GateA\<close>): honest runs never alarm it, an unbacked mint does not pass it
    when the envelopes in flight are reported in full.
  \<^item> Independence, Quorum (packages/rpc-quorum: independence.ts, quorum.ts, pinned.ts): failure
    domains as connected components, witness admission, the quorum decision, finality.
  \<^item> Plan, Agreement, Ledger, Replay, ReplayRuns, ReplayCoverage (packages/replay and
    storage-postgres: ledger.ts, replay-store.ts): planning and splitting of block ranges, agreement
    of range observations by digest, the fact tables and the ingest transaction, the replay pass over
    a log source port, its invariants and its coverage over any number of passes.
  \<^item> Pattern, Alerts, Notify, Outbox, Alerting, AlertRuns (packages/alerts, redact.ts of
    packages/evidence, alert-store.ts of storage-postgres, alerting.ts of the agent): the regular
    expressions of the sources with the backtracking semantics of JavaScript, alert identity and
    lifecycle, the payload and its gates, target checks and delivery, the outbox tables and their
    operations, raising and draining, and arbitrary histories of the outbox.
  \<^item> Canonical, EvidenceReplay, NativeReplay, Bundle, Verify, Sharing (packages/evidence and sharing.ts
    of packages/alerts): canonical JSON and the content hash, the decoders of a recorded proof input
    and its replay by the engine, the bundle with its runtime schema, the verifier with all its checks
    in the order of the code, and what a sharing level lets out. The lemmas show the round trips, that
    the verifier answers on every document, what exactly verifies, what clean findings bind digest by digest,
    and that an OK rests on recorded calls pinned where independent witnesses agree.
  \<^item> Events, RouteModel (events.ts of packages/ictt-adapters, model.ts of packages/collector): the ABI
    decoders of logs and call results, and the economic model of a route, with its accounting identity.
  \<^item> Projection (observations.ts of packages/ictt-adapters, message-projection.ts of packages/replay,
    transition-store.ts of storage-postgres): observations become message transitions, and the
    transition table holds at most one credited effect per message and route.
  \<^item> Scheduler, Metrics (scheduler.ts and metrics.ts of the agent): the bounded queue with one lane per
    deployment over arbitrary runs, and the metrics registry with its label rules.
  \<^item> HintQueue, Evaluations, Reference (replay-store.ts, evaluations.ts and reference.ts of
    storage-postgres): the queue of webhook hints, the append-only judgements and the registration of a
    manifest, each with the constraints of its tables. A hint is considered once, a judgement is never
    rewritten, a registration is idempotent or changes nothing.
  \<^item> Rpc (packages/rpc-quorum: methods.ts, operations.ts, gates.ts, errors.ts, transport.ts; rpc.ts of
    the agent): the read-only method list and its guard, requests, URL check, bounded retries, and the
    reader of one endpoint. LogSource (log-source.ts of the agent): decoders of provider answers, the
    witnesses of a chain, the agreed head and the observation of a range; it provides the port that the
    replay engine is modelled against.
  \<^item> Linkage, Fingerprint, AdapterRegistry (packages/ictt-adapters: linkage.ts, discovery.ts,
    fingerprint.ts, descriptor.ts, registry.ts, descriptors/generated.ts): whether a home and a remote
    describe each other, the census of registrations and its drift from the baseline, code hashes and the
    epochs of an implementation, and the resolution of a contract against the source lock.
  \<^item> Manifest (packages/config: errors.ts, secret-ref.ts, load.ts, baseline.ts, schema/manifest.ts and
    schema/policy.ts): secret references, the manifest and the policy as records, the rules across their
    fields, the approval of a baseline and the replay capability. WatchPlan (plan.ts of the agent): what
    the agent watches, in step with what Reference registers.
  \<^item> Tick, Health, Ingest, Daemon (runtime.ts, freshness.ts, health.ts, observe.ts, serve.ts, ingest.ts
    and daemon.ts of the agent): one tick of a deployment over the parts above, readiness and the probes,
    the post of shared evidence, and the service with its state between ticks. An OK of a tick rests on
    heights committed in that tick; readiness rests on stored successes.

  \<^bold>\<open>How the code is rendered.\<close> Interfaces and classes are records, string unions are datatypes with a
  function to their text, \<open>bigint\<close> and \<open>number\<close> are \<open>int\<close> with the bounds of the code written out
  (uint256, 64-bit columns, 32-bit columns, safe integers), strings are lists of 8-bit characters.
  A thrown error, a constraint violation and a typed failure are the \<open>Inl\<close> of a sum. A map of the
  code is an association list when its order shows, a table the list of its rows in insertion order.
  A transaction is one function: on \<open>Inl\<close> the caller keeps the old tables.

  \<^bold>\<open>Interfaces.\<close> Where one component relies on another there is a locale with an interpretation on
  the model: stores keyed by identity (Stores: message facts, blocks, logs, hints), the ledger under
  the replay engine, the row invariants of the outbox (AlertRuns: \<open>row_invariant\<close>, whatever
  statement moves a row on), and the readers of a recorded document against its writers (EvidenceReplay:
  \<open>codec\<close>, one interpretation per field type and record of the proof input).

  \<^bold>\<open>Parameters and hypotheses.\<close> SHA-256 in hexadecimal is a parameter \<open>sha\<close>; theorems that need it
  assume that it does not collide: on the texts in question where the statement names them, as an
  injective function for the digests and range keys of the replay (Agreement, ReplayCoverage), whose texts
  an arbitrary network chooses. The network is a function of the request
  number (\<open>log_source\<close>; under LogSource each read of an endpoint), the HTTP transport of the posts made
  so far, the URL parser and \<open>JSON.parse\<close> of the platform functions into an option, keccak a function on
  bytes, the date formatter a function of the clock, the result of the collector an argument of the service
  and the mirror a port of it; nothing is assumed of them. The locale comparison of strings is a
  parameter where the order shows, code unit order elsewhere. Clocks are arguments, and so is the
  function of \<open>Date.parse\<close>. The numbers of a JSON document are whole and its strings 8-bit; the NFC
  normalisation of the code is the identity on them, as no character below U+0300 composes or changes.

  \<^bold>\<open>Termination.\<close> Every loop is a terminating function: the range loop of the replay by the work
  left in its queue (\<open>queue_work\<close>), retries by the attempt budget, the star of a regular expression by
  the text left, which an iteration must shorten. There is no other fuel: the fuel of \<open>replace_all\<close> and
  \<open>match_offsets\<close> is the length of the text plus one, and a match consumes at least one character.

  \<^bold>\<open>Not modelled.\<close> The validation of single fields and the YAML parsing of the configuration, which
  third-party libraries do, and the scan of a parsed document for inline secrets; the HTML rendering of a
  bundle; the reads of the collector and the assembly of its bundle; the hosted plane (API server and its
  stores), the process start of the agent, the CLI, the console, the test fixtures and the build scripts.
  Sockets, timers and abort signals appear only as the outcomes they cause. In the storage layer the advisory locks are
  taken as given, they serialise the transactions that the model runs one after the other, and so are the
  rows that foreign keys to chains name. Interleavings inside a database transaction are not modelled;
  interleavings between transactions are, as sequences of operations.
\<close>

end
